(* ===== verification/Prelude.thy ===== *)
theory Prelude
  imports Main "HOL-Library.Word"
begin

text \<open>
  Shared vocabulary of the development: the error codes of the driver, the result type of a
  fallible operation, byte buffers with checked accesses, little-endian fields and a few facts on
  lists that several components use.

  A C buffer is a list of bytes, and an offset is an integer, as in the driver, where most offsets
  are of type \<open>int\<close>.  Each access checks that it stays inside of the buffer: an access outside of
  it is the value \<open>Inl UB\<close>, which stands for undefined behaviour and which no operation of the
  driver returns by itself.  A theorem that an operation does not yield \<open>UB\<close> is therefore a
  theorem of memory safety.
\<close>

unbundle bit_operations_syntax

named_theorems buf_simps \<open>length and content of buffers after a write\<close>
named_theorems res_simps \<open>evaluation of results and of the sequencing of results\<close>
named_theorems layout \<open>sizes of the on-disk structures\<close>

type_synonym byte = "8 word"
type_synonym u8 = "8 word"
type_synonym u16 = "16 word"
type_synonym u32 = "32 word"
type_synonym u64 = "64 word"
type_synonym buffer = "byte list"

section \<open>Error codes and results\<close>

text \<open>
  The negative error codes the driver returns, by their names.  \<open>UB\<close> is not one of them: it
  stands for what C leaves undefined, an access outside of a buffer or a division by zero.
\<close>

datatype errno =
    EIO | ENOMEM | EINVAL | ENOSPC | EAGAIN | ENODATA | EFSCORRUPTED | EFSBADCRC | EOPNOTSUPP
  | ERANGE | EFBIG | ENOENT | EEXIST | EROFS | E2BIG | EOVERFLOW | ENOTEMPTY | ENAMETOOLONG
  | UB

type_synonym 'a result = "errno + 'a"

definition bind_res :: "'a result \<Rightarrow> ('a \<Rightarrow> 'b result) \<Rightarrow> 'b result" where
  "bind_res r f = (case r of Inl e \<Rightarrow> Inl e | Inr x \<Rightarrow> f x)"

lemma bind_res_Inl [simp, res_simps]: "bind_res (Inl e) f = Inl e"
  by (simp add: bind_res_def)

lemma bind_res_Inr [simp, res_simps]: "bind_res (Inr x) f = f x"
  by (simp add: bind_res_def)

lemma bind_res_eq_Inr: "bind_res r f = Inr y \<longleftrightarrow> (\<exists>x. r = Inr x \<and> f x = Inr y)"
  by (cases r) auto

lemma bind_res_eq_Inl: "bind_res r f = Inl e \<longleftrightarrow> r = Inl e \<or> (\<exists>x. r = Inr x \<and> f x = Inl e)"
  by (cases r) auto

lemma bind_res_cong [fundef_cong]:
  "r = r' \<Longrightarrow> (\<And>x. r' = Inr x \<Longrightarrow> f x = g x) \<Longrightarrow> bind_res r f = bind_res r' g"
  by (cases r') auto

text \<open>\<open>safe r\<close>: the computation did not access memory outside of its buffers.\<close>

definition safe :: "'a result \<Rightarrow> bool" where
  "safe r \<longleftrightarrow> r \<noteq> Inl UB"

lemma safe_Inr [simp]: "safe (Inr x)"
  by (simp add: safe_def)

lemma safe_Inl [simp]: "safe (Inl e) \<longleftrightarrow> e \<noteq> UB"
  by (simp add: safe_def)

lemma safe_bind [intro]: "safe r \<Longrightarrow> (\<And>x. r = Inr x \<Longrightarrow> safe (f x)) \<Longrightarrow> safe (bind_res r f)"
  by (cases r) auto

lemma safe_bind_Inr [simp]: "safe (bind_res r (\<lambda>x. Inr (f x))) \<longleftrightarrow> safe r"
  by (cases r) auto

text \<open>\<open>keeps P r\<close>: the computation is safe, and its result satisfies \<open>P\<close>.\<close>

definition keeps :: "('a \<Rightarrow> bool) \<Rightarrow> 'a result \<Rightarrow> bool" where
  "keeps P r \<longleftrightarrow> (case r of Inl e \<Rightarrow> e \<noteq> UB | Inr x \<Rightarrow> P x)"

lemma keeps_simps [simp]: "keeps P (Inl e) \<longleftrightarrow> e \<noteq> UB" "keeps P (Inr x) \<longleftrightarrow> P x"
  by (simp_all add: keeps_def)

lemma keeps_bind: "keeps P r \<Longrightarrow> (\<And>x. r = Inr x \<Longrightarrow> P x \<Longrightarrow> keeps Q (f x)) \<Longrightarrow> keeps Q (bind_res r f)"
  by (cases r) auto

lemma keeps_safe: "keeps P r \<Longrightarrow> safe r"
  by (cases r) auto

section \<open>Little-endian values\<close>

fun le_val :: "byte list \<Rightarrow> nat" where
  "le_val [] = 0"
| "le_val (b # bs) = unat b + 256 * le_val bs"

fun le_bytes :: "nat \<Rightarrow> nat \<Rightarrow> byte list" where
  "le_bytes 0 x = []"
| "le_bytes (Suc n) x = of_nat (x mod 256) # le_bytes n (x div 256)"

lemma length_le_bytes [simp]: "length (le_bytes n x) = n"
  by (induction n arbitrary: x) auto

lemma unat_byte_mod: "unat (of_nat (x mod 256) :: byte) = x mod 256"
  by (simp add: unat_of_nat)

lemma le_val_le_bytes [simp]: "le_val (le_bytes n x) = x mod 256 ^ n"
proof (induction n arbitrary: x)
  case 0
  show ?case by simp
next
  case (Suc n)
  have "le_val (le_bytes (Suc n) x) = x mod 256 + 256 * (x div 256 mod 256 ^ n)"
    by (simp add: Suc unat_byte_mod)
  also have "\<dots> = x mod (256 * 256 ^ n)"
    by (simp add: mod_mult2_eq)
  finally show ?case by simp
qed

lemma le_val_bound: "le_val bs < 256 ^ length bs"
proof (induction bs)
  case Nil
  show ?case by simp
next
  case (Cons b bs)
  have "unat b < 256"
    using unsigned_less [of b] by simp
  moreover have "256 * (le_val bs + 1) \<le> 256 * 256 ^ length bs"
    using Cons by (intro mult_le_mono2) simp
  ultimately show ?case by simp
qed

lemma le_bytes_le_val [simp]: "le_bytes (length bs) (le_val bs) = bs"
proof (induction bs)
  case Nil
  show ?case by simp
next
  case (Cons b bs)
  have b: "unat b < 256"
    using unsigned_less [of b] by simp
  then have "(unat b + 256 * le_val bs) mod 256 = unat b"
    and "(unat b + 256 * le_val bs) div 256 = le_val bs"
    by auto
  then show ?case by (simp add: Cons)
qed

lemma le_val_inject: "length xs = length ys \<Longrightarrow> le_val xs = le_val ys \<Longrightarrow> xs = ys"
  by (metis le_bytes_le_val)

text \<open>The \<open>n\<close>-byte little-endian image of an integer, cut to the width as by the C conversions.\<close>

definition le_field :: "nat \<Rightarrow> int \<Rightarrow> byte list" where
  "le_field n x = le_bytes n (nat (x mod 256 ^ n))"

lemma length_le_field [simp]: "length (le_field n x) = n"
  by (simp add: le_field_def)

lemma le_val_le_field [simp]: "le_val (le_field n x) = nat (x mod 256 ^ n)"
  by (simp add: le_field_def nat_mod_distrib)

section \<open>Checked buffer accesses\<close>

text \<open>
  \<open>rd_bytes b off len\<close> reads \<open>len\<close> bytes at \<open>off\<close>, \<open>memcpy b off src\<close> stores the bytes \<open>src\<close> at
  \<open>off\<close>.  As in C, an access of length zero does not look at its address.
\<close>

definition rd_bytes :: "buffer \<Rightarrow> int \<Rightarrow> int \<Rightarrow> buffer result" where
  "rd_bytes b off len =
     (if len = 0 then Inr []
      else if 0 \<le> off \<and> 0 \<le> len \<and> off + len \<le> int (length b)
      then Inr (take (nat len) (drop (nat off) b)) else Inl UB)"

definition memcpy :: "buffer \<Rightarrow> int \<Rightarrow> byte list \<Rightarrow> buffer result" where
  "memcpy b off src =
     (if src = [] then Inr b
      else if 0 \<le> off \<and> off + int (length src) \<le> int (length b)
      then Inr (take (nat off) b @ src @ drop (nat off + length src) b) else Inl UB)"

definition memmove :: "buffer \<Rightarrow> int \<Rightarrow> int \<Rightarrow> int \<Rightarrow> buffer result" where
  "memmove b dst src len = bind_res (rd_bytes b src len) (memcpy b dst)"

definition memset :: "buffer \<Rightarrow> int \<Rightarrow> byte \<Rightarrow> int \<Rightarrow> buffer result" where
  "memset b off c len = (if len < 0 then Inl UB else memcpy b off (replicate (nat len) c))"

definition rd8 :: "buffer \<Rightarrow> int \<Rightarrow> byte result" where
  "rd8 b off = (if 0 \<le> off \<and> off < int (length b) then Inr (b ! nat off) else Inl UB)"

definition rd_le :: "nat \<Rightarrow> buffer \<Rightarrow> int \<Rightarrow> nat result" where
  "rd_le n b off = bind_res (rd_bytes b off (int n)) (\<lambda>bs. Inr (le_val bs))"

abbreviation rd16 :: "buffer \<Rightarrow> int \<Rightarrow> nat result" where "rd16 \<equiv> rd_le 2"
abbreviation rd32 :: "buffer \<Rightarrow> int \<Rightarrow> nat result" where "rd32 \<equiv> rd_le 4"
abbreviation rd64 :: "buffer \<Rightarrow> int \<Rightarrow> nat result" where "rd64 \<equiv> rd_le 8"

text \<open>Stores of single little-endian fields.\<close>

definition wr_le :: "nat \<Rightarrow> buffer \<Rightarrow> int \<Rightarrow> int \<Rightarrow> buffer result" where
  "wr_le n b off x = memcpy b off (le_field n x)"

abbreviation wr16 :: "buffer \<Rightarrow> int \<Rightarrow> int \<Rightarrow> buffer result" where "wr16 \<equiv> wr_le 2"
abbreviation wr32 :: "buffer \<Rightarrow> int \<Rightarrow> int \<Rightarrow> buffer result" where "wr32 \<equiv> wr_le 4"
abbreviation wr64 :: "buffer \<Rightarrow> int \<Rightarrow> int \<Rightarrow> buffer result" where "wr64 \<equiv> wr_le 8"

lemma rd_bytes_Inr:
  "0 \<le> off \<Longrightarrow> 0 \<le> len \<Longrightarrow> off + len \<le> int (length b) \<Longrightarrow>
   rd_bytes b off len = Inr (take (nat len) (drop (nat off) b))"
  by (auto simp: rd_bytes_def)

lemma rd_bytes_length: "rd_bytes b off len = Inr bs \<Longrightarrow> length bs = nat len"
  by (auto simp: rd_bytes_def split: if_splits)

lemma rd_bytes_bounds:
  "rd_bytes b off len = Inr bs \<Longrightarrow> len = 0 \<or> 0 \<le> off \<and> 0 < len \<and> off + len \<le> int (length b)"
  by (auto simp: rd_bytes_def split: if_splits)

lemma memcpy_Inr:
  "0 \<le> off \<Longrightarrow> off + int (length src) \<le> int (length b) \<Longrightarrow>
   memcpy b off src = Inr (take (nat off) b @ src @ drop (nat off + length src) b)"
  by (auto simp: memcpy_def)

lemma memcpy_length [buf_simps]: "memcpy b off src = Inr b' \<Longrightarrow> length b' = length b"
  by (auto simp: memcpy_def split: if_splits)

lemma memcpy_bounds:
  "memcpy b off src = Inr b' \<Longrightarrow>
   src = [] \<and> b' = b \<or> src \<noteq> [] \<and> 0 \<le> off \<and> off + int (length src) \<le> int (length b)"
  by (auto simp: memcpy_def split: if_splits)

lemma memcpy_safe:
  "src = [] \<or> 0 \<le> off \<and> off + int (length src) \<le> int (length b) \<Longrightarrow> \<exists>b'. memcpy b off src = Inr b'"
  by (auto simp: memcpy_def)

text \<open>The two laws of a store: what was written is read back, and nothing else has changed.\<close>

lemma rd_bytes_memcpy_same:
  assumes "memcpy b off src = Inr b'"
  shows "rd_bytes b' off (int (length src)) = Inr src"
proof (cases "src = []")
  case True
  then show ?thesis by (simp add: rd_bytes_def)
next
  case False
  with assms have "0 \<le> off" "off + int (length src) \<le> int (length b)"
    and "b' = take (nat off) b @ src @ drop (nat off + length src) b"
    by (auto simp: memcpy_def split: if_splits)
  then show ?thesis
    using False by (auto simp: rd_bytes_def)
qed

lemma rd_bytes_memcpy_other:
  assumes "memcpy b off src = Inr b'"
    and "off2 + len \<le> off \<or> off + int (length src) \<le> off2"
  shows "rd_bytes b' off2 len = rd_bytes b off2 len"
proof (cases "src = [] \<or> len \<le> 0 \<or> off2 < 0 \<or> int (length b) < off2 + len")
  case True
  with assms(1) show ?thesis
    by (auto simp: rd_bytes_def memcpy_def split: if_splits)
next
  case False
  with assms(1) have off: "0 \<le> off" "off + int (length src) \<le> int (length b)"
    and b': "b' = take (nat off) b @ src @ drop (nat off + length src) b"
    by (auto simp: memcpy_def split: if_splits)
  have "take (nat len) (drop (nat off2) b') = take (nat len) (drop (nat off2) b)"
    using assms(2)
  proof
    assume *: "off2 + len \<le> off"
    then have "nat off2 \<le> nat off" "nat len + nat off2 \<le> nat off" "nat off \<le> length b"
      using False off by linarith+
    then show ?thesis
      by (simp add: b' take_drop min_absorb1)
  next
    assume *: "off + int (length src) \<le> off2"
    then have "nat off2 = nat off + length src + (nat off2 - nat off - length src)"
      using off by linarith
    then obtain d where d: "nat off2 = nat off + length src + d" by blast
    then show ?thesis
      using off by (simp add: b' add.commute add.left_commute)
  qed
  then show ?thesis
    using False off by (auto simp: rd_bytes_def b')
qed

lemma rd_le_memcpy_other:
  assumes "memcpy b off src = Inr b'"
    and "off2 + int n \<le> off \<or> off + int (length src) \<le> off2"
  shows "rd_le n b' off2 = rd_le n b off2"
  using rd_bytes_memcpy_other [OF assms] by (simp add: rd_le_def)

lemma rd_le_wr_le_same:
  assumes "wr_le n b off x = Inr b'"
  shows "rd_le n b' off = Inr (nat (x mod 256 ^ n))"
proof -
  have "rd_bytes b' off (int n) = Inr (le_field n x)"
    using rd_bytes_memcpy_same [OF assms [unfolded wr_le_def]] by simp
  then show ?thesis
    by (simp add: rd_le_def)
qed

lemma rd_le_wr_le_other:
  assumes "wr_le n b off x = Inr b'" and "off2 + int m \<le> off \<or> off + int n \<le> off2"
  shows "rd_le m b' off2 = rd_le m b off2"
  using rd_le_memcpy_other [OF assms(1) [unfolded wr_le_def]] assms(2) by simp

lemma rd_bytes_wr_le_other:
  assumes "wr_le n b off x = Inr b'" and "off2 + len \<le> off \<or> off + int n \<le> off2"
  shows "rd_bytes b' off2 len = rd_bytes b off2 len"
  using rd_bytes_memcpy_other [OF assms(1) [unfolded wr_le_def]] assms(2) by simp

lemma wr_le_length [buf_simps]: "wr_le n b off x = Inr b' \<Longrightarrow> length b' = length b"
  by (auto simp: wr_le_def dest: memcpy_length)

lemma memmove_length [buf_simps]: "memmove b dst src len = Inr b' \<Longrightarrow> length b' = length b"
  by (auto simp: memmove_def bind_res_eq_Inr dest: memcpy_length)

lemma rd_le_Inr:
  "0 \<le> off \<Longrightarrow> off + int n \<le> int (length b) \<Longrightarrow>
   rd_le n b off = Inr (le_val (take n (drop (nat off) b)))"
  by (simp add: rd_le_def rd_bytes_Inr)

lemma rd_le_bound: "rd_le n b off = Inr x \<Longrightarrow> x < 256 ^ n"
  by (auto simp: rd_le_def bind_res_eq_Inr dest!: rd_bytes_length)
    (metis le_val_bound)

lemma rd_le_ok: "0 \<le> off \<Longrightarrow> off + int n \<le> int (length b) \<Longrightarrow> \<exists>x. rd_le n b off = Inr x"
  by (simp add: rd_le_Inr)

lemma wr_le_ok: "0 \<le> off \<Longrightarrow> off + int n \<le> int (length b) \<Longrightarrow> \<exists>b'. wr_le n b off x = Inr b'"
  by (simp add: wr_le_def memcpy_Inr)

lemma rd_le_safe: "0 \<le> off \<Longrightarrow> off + int n \<le> int (length b) \<Longrightarrow> safe (rd_le n b off)"
  by (simp add: rd_le_Inr)

lemma rd8_safe: "0 \<le> off \<Longrightarrow> off < int (length b) \<Longrightarrow> safe (rd8 b off)"
  by (simp add: rd8_def)

lemma rd_bytes_ok:
  "0 \<le> off \<Longrightarrow> 0 \<le> len \<Longrightarrow> off + len \<le> int (length b) \<Longrightarrow>
   \<exists>bs. rd_bytes b off len = Inr bs \<and> length bs = nat len"
  using rd_bytes_Inr rd_bytes_length by blast

lemma memcpy_ok:
  assumes "0 \<le> off" "off + int (length src) \<le> int (length b)"
  obtains b' where "memcpy b off src = Inr b'" "length b' = length b"
  using assms memcpy_safe memcpy_length by metis

lemma memmove_ok:
  assumes "0 \<le> len" "0 \<le> dst" "dst + len \<le> int (length b)" "0 \<le> src" "src + len \<le> int (length b)"
  obtains b' where "memmove b dst src len = Inr b'" "length b' = length b"
proof -
  obtain bs where bs: "rd_bytes b src len = Inr bs" "length bs = nat len"
    using assms rd_bytes_ok by blast
  then obtain b' where "memcpy b dst bs = Inr b'" "length b' = length b"
    using assms memcpy_ok [of dst bs b] by auto
  with bs that show thesis by (simp add: memmove_def)
qed

lemma memset_ok:
  assumes "0 \<le> len" "0 \<le> off" "off + len \<le> int (length b)"
  obtains b' where "memset b off c len = Inr b'" "length b' = length b"
  using assms memcpy_ok [of off "replicate (nat len) c" b] by (auto simp: memset_def)

text \<open>Accesses to a buffer that is given as a concatenation.\<close>

lemma rd_bytes_append:
  "off = int (length xs) \<Longrightarrow> len = int (length ys) \<Longrightarrow> rd_bytes (xs @ ys @ zs) off len = Inr ys"
  by (simp add: rd_bytes_def)

lemma rd_le_append:
  "off = int (length xs) \<Longrightarrow> n = length ys \<Longrightarrow> rd_le n (xs @ ys @ zs) off = Inr (le_val ys)"
  by (simp add: rd_le_def rd_bytes_append)

lemma rd8_append: "off = int (length xs) \<Longrightarrow> rd8 (xs @ y # zs) off = Inr y"
  by (simp add: rd8_def)

lemma memcpy_append:
  "off = int (length xs) \<Longrightarrow> length ys = length ys' \<Longrightarrow> memcpy (xs @ ys @ zs) off ys' = Inr (xs @ ys' @ zs)"
  by (auto simp: memcpy_def)

lemma memcpy_drop:
  "off = int (length xs) \<Longrightarrow> length ys \<le> length zs \<Longrightarrow>
   memcpy (xs @ zs) off ys = Inr (xs @ ys @ drop (length ys) zs)"
  by (auto simp: memcpy_def)

lemma memmove_append:
  assumes "dst = int (length xs) + int p" "src = int (length xs) + int c" "len = int l"
    and "c + l \<le> length ws" "p + l \<le> length ws"
  shows "memmove (xs @ ws) dst src len = Inr (xs @ take p ws @ take l (drop c ws) @ drop (p + l) ws)"
proof -
  have rd: "rd_bytes (xs @ ws) src len = Inr (take l (drop c ws))"
    using assms by (auto simp: rd_bytes_def nat_add_distrib)
  have "memcpy ((xs @ take p ws) @ drop p ws) dst (take l (drop c ws)) =
      Inr ((xs @ take p ws) @ take l (drop c ws) @ drop (length (take l (drop c ws))) (drop p ws))"
    using assms by (intro memcpy_drop) auto
  then show ?thesis
    using assms rd by (simp add: memmove_def add.commute)
qed

lemma memcpy_twice:
  assumes "off = int (length xs)" "length a + length b \<le> length zs"
  shows "bind_res (memcpy (xs @ zs) off a) (\<lambda>m. memcpy m (off + int (length a)) b) =
    Inr (xs @ a @ b @ drop (length a + length b) zs)"
  using assms memcpy_drop [of off xs a zs] memcpy_drop [of _ "xs @ a" b "drop (length a) zs"]
  by (simp add: add.commute)

section \<open>Stores of several fields\<close>

text \<open>
  The assignment of the fields of a structure: a list of offsets with the bytes stored there.
\<close>

fun store_fields :: "buffer \<Rightarrow> (int \<times> byte list) list \<Rightarrow> buffer result" where
  "store_fields b [] = Inr b"
| "store_fields b ((off, bs) # fs) = bind_res (memcpy b off bs) (\<lambda>b'. store_fields b' fs)"

text \<open>The fields are disjoint, in ascending order, and all inside of \<open>[lo, hi)\<close>.\<close>

fun fields_asc :: "int \<Rightarrow> (int \<times> byte list) list \<Rightarrow> int \<Rightarrow> bool" where
  "fields_asc lo [] hi \<longleftrightarrow> lo \<le> hi"
| "fields_asc lo ((off, bs) # fs) hi \<longleftrightarrow> lo \<le> off \<and> fields_asc (off + int (length bs)) fs hi"

lemma fields_asc_le: "fields_asc lo fs hi \<Longrightarrow> lo \<le> hi"
  by (induction fs arbitrary: lo) fastforce+

lemma store_fields_frame:
  assumes "store_fields b fs = Inr b'"
    and "\<And>p bs. (p, bs) \<in> set fs \<Longrightarrow> off + len \<le> p \<or> p + int (length bs) \<le> off"
  shows "rd_bytes b' off len = rd_bytes b off len"
  using assms
proof (induction fs arbitrary: b)
  case Nil
  then show ?case by simp
next
  case (Cons f fs)
  obtain p bs where f: "f = (p, bs)" by (cases f)
  with Cons.prems(1) obtain b1 where b1: "memcpy b p bs = Inr b1" "store_fields b1 fs = Inr b'"
    by (auto simp: bind_res_eq_Inr)
  have "rd_bytes b1 off len = rd_bytes b off len"
    using b1(1) Cons.prems(2) f by (intro rd_bytes_memcpy_other) auto
  with Cons.IH [OF b1(2)] Cons.prems(2) show ?case by auto
qed

lemma store_fields_length [buf_simps]: "store_fields b fs = Inr b' \<Longrightarrow> length b' = length b"
  by (induction b fs rule: store_fields.induct) (auto simp: bind_res_eq_Inr dest: memcpy_length)

lemma store_fields_ok:
  assumes "fields_asc lo fs hi" "0 \<le> lo" "hi \<le> int (length b)"
  shows "\<exists>b'. store_fields b fs = Inr b'"
  using assms
proof (induction fs arbitrary: b lo)
  case Nil
  then show ?case by simp
next
  case (Cons f fs)
  obtain p bs where f: "f = (p, bs)" by (cases f)
  have "p + int (length bs) \<le> hi"
    using Cons.prems(1) f by (auto dest: fields_asc_le)
  then obtain b1 where b1: "memcpy b p bs = Inr b1"
    using Cons.prems f memcpy_safe [of bs p b] by auto
  then show ?case
    using Cons f memcpy_length [OF b1] by auto
qed

lemma fields_asc_after:
  "fields_asc lo fs hi \<Longrightarrow> (p, bs) \<in> set fs \<Longrightarrow> lo \<le> p \<and> p + int (length bs) \<le> hi"
  by (induction fs arbitrary: lo) (force dest: fields_asc_le)+

lemma store_fields_read:
  assumes "fields_asc lo fs hi" "store_fields b fs = Inr b'" "(p, bs) \<in> set fs"
  shows "rd_bytes b' p (int (length bs)) = Inr bs"
  using assms
proof (induction fs arbitrary: b lo)
  case Nil
  then show ?case by simp
next
  case (Cons f fs)
  obtain q cs where f: "f = (q, cs)" by (cases f)
  with Cons.prems(2) obtain b1 where b1: "memcpy b q cs = Inr b1" "store_fields b1 fs = Inr b'"
    by (auto simp: bind_res_eq_Inr)
  have asc: "fields_asc (q + int (length cs)) fs hi"
    using Cons.prems(1) f by simp
  show ?case
  proof (cases "(p, bs) \<in> set fs")
    case True
    then show ?thesis using Cons.IH [OF asc b1(2)] by simp
  next
    case False
    then have pq: "p = q" "bs = cs" using Cons.prems(3) f by auto
    have "rd_bytes b' q (int (length cs)) = rd_bytes b1 q (int (length cs))"
      using b1(2) fields_asc_after [OF asc] by (intro store_fields_frame) auto
    then show ?thesis
      using rd_bytes_memcpy_same [OF b1(1)] pq by simp
  qed
qed

lemma rd_le_of_bytes: "rd_bytes b off (int n) = Inr bs \<Longrightarrow> rd_le n b off = Inr (le_val bs)"
  by (simp add: rd_le_def)

section \<open>Strings\<close>

text \<open>
  \<open>c_string b off\<close> is the string a C pointer to offset \<open>off\<close> denotes: the bytes up to the first
  NUL.  Reading a string that is not terminated inside of its buffer is an access outside of it.
\<close>

definition c_string :: "buffer \<Rightarrow> int \<Rightarrow> byte list result" where
  "c_string b off =
     (if 0 \<le> off \<and> 0 \<in> set (drop (nat off) b)
      then Inr (takeWhile (\<lambda>c. c \<noteq> 0) (drop (nat off) b)) else Inl UB)"

fun strcmp :: "byte list \<Rightarrow> byte list \<Rightarrow> int" where
  "strcmp [] [] = 0"
| "strcmp [] (_ # _) = - 1"
| "strcmp (_ # _) [] = 1"
| "strcmp (a # as) (b # bs) = (if a < b then - 1 else if b < a then 1 else strcmp as bs)"

lemma strcmp_refl [simp]: "strcmp s s = 0"
  by (induction s) auto

lemma strcmp_eq_0: "strcmp s t = 0 \<longleftrightarrow> s = t"
  by (induction s t rule: strcmp.induct) auto

lemma strcmp_swap: "strcmp t s = - strcmp s t"
  by (induction s t rule: strcmp.induct) auto

lemma strcmp_le_trans: "strcmp s t \<le> 0 \<Longrightarrow> strcmp t u \<le> 0 \<Longrightarrow> strcmp s u \<le> 0"
proof (induction s t arbitrary: u rule: strcmp.induct)
  case (2 b bs)
  then show ?case by (cases u) auto
next
  case (4 a as b bs)
  then show ?case by (cases u) (auto split: if_splits)
qed auto

section \<open>Lists and arithmetic\<close>

definition insert_at :: "nat \<Rightarrow> 'a \<Rightarrow> 'a list \<Rightarrow> 'a list" where
  "insert_at i x xs = take i xs @ x # drop i xs"

lemma length_insert_at [simp]: "length (insert_at i x xs) = Suc (length xs)"
  by (simp add: insert_at_def)

text \<open>The kernel's \<open>round_up\<close> and \<open>DIV_ROUND_UP\<close> on non-negative numbers.\<close>

definition round_up :: "int \<Rightarrow> int \<Rightarrow> int" where
  "round_up x y = (x + y - 1) div y * y"

definition DIV_ROUND_UP :: "int \<Rightarrow> int \<Rightarrow> int" where
  "DIV_ROUND_UP x y = (x + y - 1) div y"

lemma round_up_8: "x \<le> round_up x 8" "round_up x 8 < x + 8" "8 dvd round_up x 8"
  unfolding round_up_def by (auto; presburger)+

lemma round_up_id: "8 dvd x \<Longrightarrow> round_up x 8 = x"
  unfolding round_up_def by presburger

end
