(* ===== verification/Key.thy ===== *)
theory Key
  imports Prelude
begin

text \<open>
  In-memory keys of b-tree records (\<open>key.c\<close> and the key initialisers of \<open>apfs.h\<close>): the order
  \<open>apfs_keycmp\<close> that every b-tree is sorted by, the parsers of the raw on-disk keys of each tree,
  and the initialisers the queries use.

  The lemmas show that the order is a total preorder on the keys of one tree, that a parser reads
  no byte outside of a key of the length it is given, and that parsing inverts the encoding the
  driver writes to disk.
\<close>

section \<open>Constants and layout\<close>

definition APFS_OBJ_ID_MASK :: u64 where "APFS_OBJ_ID_MASK = 0x0fffffffffffffff"
definition APFS_OBJ_TYPE_MASK :: u64 where "APFS_OBJ_TYPE_MASK = 0xf000000000000000"
definition APFS_OBJ_TYPE_SHIFT :: nat where "APFS_OBJ_TYPE_SHIFT = 60"
definition APFS_DREC_HASH_MASK :: u32 where "APFS_DREC_HASH_MASK = 0xfffffc00"

abbreviation (input) APFS_TYPE_SNAP_METADATA :: u8 where "APFS_TYPE_SNAP_METADATA \<equiv> 1"
abbreviation (input) APFS_TYPE_EXTENT :: u8 where "APFS_TYPE_EXTENT \<equiv> 2"
abbreviation (input) APFS_TYPE_INODE :: u8 where "APFS_TYPE_INODE \<equiv> 3"
abbreviation (input) APFS_TYPE_XATTR :: u8 where "APFS_TYPE_XATTR \<equiv> 4"
abbreviation (input) APFS_TYPE_SIBLING_LINK :: u8 where "APFS_TYPE_SIBLING_LINK \<equiv> 5"
abbreviation (input) APFS_TYPE_DSTREAM_ID :: u8 where "APFS_TYPE_DSTREAM_ID \<equiv> 6"
abbreviation (input) APFS_TYPE_CRYPTO_STATE :: u8 where "APFS_TYPE_CRYPTO_STATE \<equiv> 7"
abbreviation (input) APFS_TYPE_FILE_EXTENT :: u8 where "APFS_TYPE_FILE_EXTENT \<equiv> 8"
abbreviation (input) APFS_TYPE_DIR_REC :: u8 where "APFS_TYPE_DIR_REC \<equiv> 9"
abbreviation (input) APFS_TYPE_SNAP_NAME :: u8 where "APFS_TYPE_SNAP_NAME \<equiv> 11"
abbreviation (input) APFS_TYPE_SIBLING_MAP :: u8 where "APFS_TYPE_SIBLING_MAP \<equiv> 12"

text \<open>The packed structures of \<open>apfs_raw.h\<close> have no padding, so their sizes are the sums of their fields.\<close>

abbreviation (input) sizeof_key_header :: int where "sizeof_key_header \<equiv> 8"
abbreviation (input) sizeof_drec_hashed_key :: int where "sizeof_drec_hashed_key \<equiv> 12"
abbreviation (input) sizeof_drec_key :: int where "sizeof_drec_key \<equiv> 10"
abbreviation (input) sizeof_xattr_key :: int where "sizeof_xattr_key \<equiv> 10"
abbreviation (input) sizeof_file_extent_key :: int where "sizeof_file_extent_key \<equiv> 16"
abbreviation (input) sizeof_sibling_link_key :: int where "sizeof_sibling_link_key \<equiv> 16"
abbreviation (input) sizeof_fext_tree_key :: int where "sizeof_fext_tree_key \<equiv> 16"
abbreviation (input) sizeof_free_queue_key :: int where "sizeof_free_queue_key \<equiv> 16"
abbreviation (input) sizeof_omap_key :: int where "sizeof_omap_key \<equiv> 16"
abbreviation (input) sizeof_phys_ext_key :: int where "sizeof_phys_ext_key \<equiv> 8"
abbreviation (input) sizeof_snap_metadata_key :: int where "sizeof_snap_metadata_key \<equiv> 8"
abbreviation (input) sizeof_snap_name_key :: int where "sizeof_snap_name_key \<equiv> 10"

section \<open>Keys and their order\<close>

record apfs_key =
  k_id :: u64
  k_number :: u64
  k_name :: "byte list option"
  k_type :: u8

definition apfs_keycmp :: "apfs_key \<Rightarrow> apfs_key \<Rightarrow> int" where
  "apfs_keycmp k1 k2 =
     (if k_id k1 \<noteq> k_id k2 then (if k_id k1 < k_id k2 then - 1 else 1)
      else if k_type k1 \<noteq> k_type k2 then (if k_type k1 < k_type k2 then - 1 else 1)
      else if k_number k1 \<noteq> k_number k2 then (if k_number k1 < k_number k2 then - 1 else 1)
      else (case (k_name k1, k_name k2) of
              (Some n1, Some n2) \<Rightarrow> strcmp n1 n2
            | _ \<Rightarrow> 0))"

section \<open>Parsers of raw keys\<close>

definition apfs_cat_type :: "buffer \<Rightarrow> u8 result" where
  "apfs_cat_type raw = bind_res (rd64 raw 0) (\<lambda>v.
     Inr (ucast (drop_bit APFS_OBJ_TYPE_SHIFT ((of_nat v :: u64) AND APFS_OBJ_TYPE_MASK))))"

definition apfs_cat_cnid :: "buffer \<Rightarrow> u64 result" where
  "apfs_cat_cnid raw = bind_res (rd64 raw 0) (\<lambda>v. Inr ((of_nat v :: u64) AND APFS_OBJ_ID_MASK))"

text \<open>The check that a key with a trailing name has room for the name and ends with a NUL.\<close>

definition bad_name_key :: "buffer \<Rightarrow> int \<Rightarrow> int \<Rightarrow> bool result" where
  "bad_name_key raw ksize hdr =
     (if ksize < hdr + 1 then Inr True else bind_res (rd8 raw (ksize - 1)) (\<lambda>c. Inr (c \<noteq> 0)))"

definition apfs_read_cat_key :: "buffer \<Rightarrow> int \<Rightarrow> bool \<Rightarrow> apfs_key result" where
  "apfs_read_cat_key raw ksize hashed =
     (if ksize < sizeof_key_header then Inl EFSCORRUPTED
      else bind_res (apfs_cat_cnid raw) (\<lambda>id. bind_res (apfs_cat_type raw) (\<lambda>ty.
        if ty = APFS_TYPE_DIR_REC then
          if hashed then
            bind_res (bad_name_key raw ksize sizeof_drec_hashed_key) (\<lambda>bad.
              if bad then Inl EFSCORRUPTED
              else bind_res (rd32 raw 8) (\<lambda>nlh.
                bind_res (c_string raw sizeof_drec_hashed_key) (\<lambda>name.
                  Inr \<lparr>k_id = id, k_number = ucast ((of_nat nlh :: u32) AND APFS_DREC_HASH_MASK),
                       k_name = Some name, k_type = ty\<rparr>)))
          else
            bind_res (bad_name_key raw ksize sizeof_drec_key) (\<lambda>bad.
              if bad then Inl EFSCORRUPTED
              else bind_res (c_string raw sizeof_drec_key) (\<lambda>name.
                Inr \<lparr>k_id = id, k_number = 0, k_name = Some name, k_type = ty\<rparr>))
        else if ty = APFS_TYPE_XATTR then
          bind_res (bad_name_key raw ksize sizeof_xattr_key) (\<lambda>bad.
            if bad then Inl EFSCORRUPTED
            else bind_res (c_string raw sizeof_xattr_key) (\<lambda>name.
              Inr \<lparr>k_id = id, k_number = 0, k_name = Some name, k_type = ty\<rparr>))
        else if ty = APFS_TYPE_FILE_EXTENT then
          if ksize \<noteq> sizeof_file_extent_key then Inl EFSCORRUPTED
          else bind_res (rd64 raw 8) (\<lambda>addr.
            Inr \<lparr>k_id = id, k_number = of_nat addr, k_name = None, k_type = ty\<rparr>)
        else if ty = APFS_TYPE_SIBLING_LINK then
          if ksize \<noteq> sizeof_sibling_link_key then Inl EFSCORRUPTED
          else bind_res (rd64 raw 8) (\<lambda>sib.
            Inr \<lparr>k_id = id, k_number = of_nat sib, k_name = None, k_type = ty\<rparr>)
        else Inr \<lparr>k_id = id, k_number = 0, k_name = None, k_type = ty\<rparr>)))"

text \<open>The three trees whose keys are a pair of 64-bit numbers.\<close>

definition apfs_read_fext_key :: "buffer \<Rightarrow> int \<Rightarrow> apfs_key result" where
  "apfs_read_fext_key raw ksize =
     (if ksize \<noteq> sizeof_fext_tree_key then Inl EFSCORRUPTED
      else bind_res (rd64 raw 0) (\<lambda>private_id. bind_res (rd64 raw 8) (\<lambda>logical_addr.
        Inr \<lparr>k_id = of_nat private_id, k_number = of_nat logical_addr, k_name = None, k_type = 0\<rparr>)))"

definition apfs_read_free_queue_key :: "buffer \<Rightarrow> int \<Rightarrow> apfs_key result" where
  "apfs_read_free_queue_key raw ksize =
     (if ksize \<noteq> sizeof_free_queue_key then Inl EFSCORRUPTED
      else bind_res (rd64 raw 0) (\<lambda>xid. bind_res (rd64 raw 8) (\<lambda>paddr.
        Inr \<lparr>k_id = of_nat xid, k_number = of_nat paddr, k_name = None, k_type = 0\<rparr>)))"

definition apfs_read_omap_key :: "buffer \<Rightarrow> int \<Rightarrow> apfs_key result" where
  "apfs_read_omap_key raw ksize =
     (if ksize \<noteq> sizeof_omap_key then Inl EFSCORRUPTED
      else bind_res (rd64 raw 0) (\<lambda>oid. bind_res (rd64 raw 8) (\<lambda>xid.
        Inr \<lparr>k_id = of_nat oid, k_number = of_nat xid, k_name = None, k_type = 0\<rparr>)))"

definition apfs_read_extentref_key :: "buffer \<Rightarrow> int \<Rightarrow> apfs_key result" where
  "apfs_read_extentref_key raw ksize =
     (if ksize \<noteq> sizeof_phys_ext_key then Inl EFSCORRUPTED
      else bind_res (apfs_cat_cnid raw) (\<lambda>id. bind_res (apfs_cat_type raw) (\<lambda>ty.
        Inr \<lparr>k_id = id, k_number = 0, k_name = None, k_type = ty\<rparr>)))"

definition apfs_read_snap_meta_key :: "buffer \<Rightarrow> int \<Rightarrow> apfs_key result" where
  "apfs_read_snap_meta_key raw ksize =
     (if ksize < sizeof_key_header then Inl EFSCORRUPTED
      else bind_res (apfs_cat_cnid raw) (\<lambda>id. bind_res (apfs_cat_type raw) (\<lambda>ty.
        if ty = APFS_TYPE_SNAP_METADATA then
          if ksize \<noteq> sizeof_snap_metadata_key then Inl EFSCORRUPTED
          else Inr \<lparr>k_id = id, k_number = 0, k_name = None, k_type = ty\<rparr>
        else if ty = APFS_TYPE_SNAP_NAME then
          bind_res (bad_name_key raw ksize sizeof_snap_name_key) (\<lambda>bad.
            if bad then Inl EFSCORRUPTED
            else bind_res (c_string raw sizeof_snap_name_key) (\<lambda>name.
              Inr \<lparr>k_id = id, k_number = 0, k_name = Some name, k_type = ty\<rparr>))
        else Inl EFSCORRUPTED)))"

definition apfs_read_omap_snap_key :: "buffer \<Rightarrow> int \<Rightarrow> apfs_key result" where
  "apfs_read_omap_snap_key raw ksize =
     (if ksize \<noteq> 8 then Inl EFSCORRUPTED
      else bind_res (rd64 raw 0) (\<lambda>xid.
        Inr \<lparr>k_id = of_nat xid, k_number = 0, k_name = None, k_type = 0\<rparr>))"

section \<open>Initialisers of query keys\<close>

definition apfs_init_free_queue_key :: "u64 \<Rightarrow> u64 \<Rightarrow> apfs_key" where
  "apfs_init_free_queue_key xid paddr = \<lparr>k_id = xid, k_number = paddr, k_name = None, k_type = 0\<rparr>"

definition apfs_init_omap_key :: "u64 \<Rightarrow> u64 \<Rightarrow> apfs_key" where
  "apfs_init_omap_key oid xid = \<lparr>k_id = oid, k_number = xid, k_name = None, k_type = 0\<rparr>"

definition apfs_init_extent_key :: "u64 \<Rightarrow> apfs_key" where
  "apfs_init_extent_key bno = \<lparr>k_id = bno, k_number = 0, k_name = None, k_type = APFS_TYPE_EXTENT\<rparr>"

definition apfs_init_inode_key :: "u64 \<Rightarrow> apfs_key" where
  "apfs_init_inode_key ino = \<lparr>k_id = ino, k_number = 0, k_name = None, k_type = APFS_TYPE_INODE\<rparr>"

definition apfs_init_file_extent_key :: "u64 \<Rightarrow> u64 \<Rightarrow> apfs_key" where
  "apfs_init_file_extent_key oid offset =
     \<lparr>k_id = oid, k_number = offset, k_name = None, k_type = APFS_TYPE_FILE_EXTENT\<rparr>"

definition apfs_init_fext_key :: "u64 \<Rightarrow> u64 \<Rightarrow> apfs_key" where
  "apfs_init_fext_key oid offset = \<lparr>k_id = oid, k_number = offset, k_name = None, k_type = 0\<rparr>"

definition apfs_init_dstream_id_key :: "u64 \<Rightarrow> apfs_key" where
  "apfs_init_dstream_id_key oid =
     \<lparr>k_id = oid, k_number = 0, k_name = None, k_type = APFS_TYPE_DSTREAM_ID\<rparr>"

definition apfs_init_crypto_state_key :: "u64 \<Rightarrow> apfs_key" where
  "apfs_init_crypto_state_key oid =
     \<lparr>k_id = oid, k_number = 0, k_name = None, k_type = APFS_TYPE_CRYPTO_STATE\<rparr>"

definition apfs_init_sibling_link_key :: "u64 \<Rightarrow> u64 \<Rightarrow> apfs_key" where
  "apfs_init_sibling_link_key ino oid =
     \<lparr>k_id = ino, k_number = oid, k_name = None, k_type = APFS_TYPE_SIBLING_LINK\<rparr>"

definition apfs_init_sibling_map_key :: "u64 \<Rightarrow> apfs_key" where
  "apfs_init_sibling_map_key oid =
     \<lparr>k_id = oid, k_number = 0, k_name = None, k_type = APFS_TYPE_SIBLING_MAP\<rparr>"

definition apfs_init_xattr_key :: "u64 \<Rightarrow> byte list option \<Rightarrow> apfs_key" where
  "apfs_init_xattr_key ino name = \<lparr>k_id = ino, k_number = 0, k_name = name, k_type = APFS_TYPE_XATTR\<rparr>"

definition apfs_init_snap_metadata_key :: "u64 \<Rightarrow> apfs_key" where
  "apfs_init_snap_metadata_key xid =
     \<lparr>k_id = xid, k_number = 0, k_name = None, k_type = APFS_TYPE_SNAP_METADATA\<rparr>"

definition apfs_init_snap_name_key :: "byte list option \<Rightarrow> apfs_key" where
  "apfs_init_snap_name_key name =
     \<lparr>k_id = APFS_OBJ_ID_MASK, k_number = 0, k_name = name, k_type = APFS_TYPE_SNAP_NAME\<rparr>"

definition apfs_init_omap_snap_key :: "u64 \<Rightarrow> apfs_key" where
  "apfs_init_omap_snap_key xid = \<lparr>k_id = xid, k_number = 0, k_name = None, k_type = 0\<rparr>"

section \<open>Encoders of raw keys\<close>

text \<open>\<open>apfs_key_set_hdr\<close> as the eight bytes it stores.\<close>

definition apfs_key_set_hdr :: "u64 \<Rightarrow> u64 \<Rightarrow> byte list" where
  "apfs_key_set_hdr ty oid = le_bytes 8 (unat (oid OR push_bit APFS_OBJ_TYPE_SHIFT ty))"

text \<open>The raw object map key the driver builds before an insertion.\<close>

definition omap_raw_key :: "u64 \<Rightarrow> u64 \<Rightarrow> byte list" where
  "omap_raw_key oid xid = le_bytes 8 (unat oid) @ le_bytes 8 (unat xid)"

text \<open>The raw free queue key of \<open>apfs_free_queue_try_insert\<close>.\<close>

definition free_queue_raw_key :: "u64 \<Rightarrow> u64 \<Rightarrow> byte list" where
  "free_queue_raw_key xid bno = le_bytes 8 (unat xid) @ le_bytes 8 (unat bno)"

lemmas key_readers = apfs_read_cat_key_def apfs_read_fext_key_def apfs_read_free_queue_key_def
  apfs_read_omap_key_def apfs_read_extentref_key_def apfs_read_snap_meta_key_def
  apfs_read_omap_snap_key_def

lemmas key_inits = apfs_init_free_queue_key_def apfs_init_omap_key_def apfs_init_extent_key_def
  apfs_init_inode_key_def apfs_init_file_extent_key_def apfs_init_fext_key_def
  apfs_init_dstream_id_key_def apfs_init_crypto_state_key_def apfs_init_sibling_link_key_def
  apfs_init_sibling_map_key_def apfs_init_xattr_key_def apfs_init_snap_metadata_key_def
  apfs_init_snap_name_key_def apfs_init_omap_snap_key_def

section \<open>The order of the keys\<close>

text \<open>
  The keys of one tree: whether a key has a name is determined by its type.  For the catalog the
  named types are those of directory entries and extended attributes, for the snapshot metadata
  tree that of snapshot names; the keys of the other trees have no name.
\<close>

definition named_by :: "u8 set \<Rightarrow> apfs_key \<Rightarrow> bool" where
  "named_by N k \<longleftrightarrow> (k_name k \<noteq> None \<longleftrightarrow> k_type k \<in> N)"

lemma apfs_keycmp_refl [simp]: "apfs_keycmp k k = 0"
  by (simp add: apfs_keycmp_def split: option.split)

lemma apfs_keycmp_swap: "apfs_keycmp k2 k1 = - apfs_keycmp k1 k2"
  unfolding apfs_keycmp_def by (auto split: option.split intro: strcmp_swap)

lemma apfs_keycmp_le_trans:
  assumes "named_by N a" "named_by N b"
    and "apfs_keycmp a b \<le> 0" "apfs_keycmp b c \<le> 0"
  shows "apfs_keycmp a c \<le> 0"
  using assms unfolding apfs_keycmp_def named_by_def
  by (auto split: option.splits if_splits dest: strcmp_le_trans)

lemma apfs_keycmp_eq_0:
  assumes "named_by N a" "named_by N b" "apfs_keycmp a b = 0"
  shows "a = b"
  using assms unfolding apfs_keycmp_def named_by_def
  by (auto split: option.splits if_splits simp: strcmp_eq_0 intro!: apfs_key.equality)

section \<open>Memory safety of the parsers\<close>

lemma bad_name_key_safe: "0 < hdr \<Longrightarrow> ksize \<le> int (length raw) \<Longrightarrow> safe (bad_name_key raw ksize hdr)"
  by (auto simp: bad_name_key_def intro!: rd8_safe)

text \<open>A key that passes the check has its name terminated inside of the key.\<close>

lemma c_string_of_good_key:
  assumes "bad_name_key raw ksize hdr = Inr False" "0 \<le> hdr"
  shows "safe (c_string raw hdr)"
proof -
  from assms have size: "hdr + 1 \<le> ksize" "ksize - 1 < int (length raw)" and nul: "raw ! nat (ksize - 1) = 0"
    by (auto simp: bad_name_key_def rd8_def bind_res_eq_Inr split: if_splits)
  then have "drop (nat hdr) raw ! (nat (ksize - 1) - nat hdr) = 0"
    and "nat (ksize - 1) - nat hdr < length (drop (nat hdr) raw)"
    using assms(2) by auto
  then have "0 \<in> set (drop (nat hdr) raw)"
    by (metis nth_mem)
  then show ?thesis
    using assms(2) by (simp add: c_string_def)
qed

lemma apfs_cat_safe:
  "8 \<le> int (length raw) \<Longrightarrow> safe (apfs_cat_cnid raw)" "8 \<le> int (length raw) \<Longrightarrow> safe (apfs_cat_type raw)"
  by (auto simp: apfs_cat_cnid_def apfs_cat_type_def rd_le_Inr)

lemma safe_checked_name:
  assumes "ksize \<le> int (length raw)" "0 < hdr"
    and "safe (c_string raw hdr) \<Longrightarrow> hdr < int (length raw) \<Longrightarrow> safe g"
  shows "safe (bind_res (bad_name_key raw ksize hdr) (\<lambda>bad. if bad then Inl EFSCORRUPTED else g))"
proof (cases "bad_name_key raw ksize hdr")
  case (Inl e)
  then show ?thesis using bad_name_key_safe [OF assms(2,1)] by simp
next
  case (Inr bad)
  then have "\<not> bad \<Longrightarrow> hdr < int (length raw)"
    using assms(1) by (auto simp: bad_name_key_def split: if_splits)
  with Inr show ?thesis
    using assms(2,3) c_string_of_good_key [of raw ksize hdr] by auto
qed

lemma apfs_read_cat_key_safe:
  "ksize \<le> int (length raw) \<Longrightarrow> safe (apfs_read_cat_key raw ksize hashed)"
  unfolding apfs_read_cat_key_def
  by (auto intro!: safe_checked_name safe_bind [OF apfs_cat_safe(1)] safe_bind [OF apfs_cat_safe(2)]
      safe_bind [OF rd_le_safe] rd_le_safe)

lemma apfs_read_snap_meta_key_safe:
  "ksize \<le> int (length raw) \<Longrightarrow> safe (apfs_read_snap_meta_key raw ksize)"
  unfolding apfs_read_snap_meta_key_def
  by (auto intro!: safe_checked_name safe_bind [OF apfs_cat_safe(1)] safe_bind [OF apfs_cat_safe(2)])

lemma fixed_key_readers_safe:
  assumes "ksize \<le> int (length raw)"
  shows "safe (apfs_read_fext_key raw ksize)" "safe (apfs_read_free_queue_key raw ksize)"
    "safe (apfs_read_omap_key raw ksize)" "safe (apfs_read_extentref_key raw ksize)"
    "safe (apfs_read_omap_snap_key raw ksize)"
  using assms by (auto simp: key_readers rd_le_Inr intro!: safe_bind apfs_cat_safe)

section \<open>The keys a parser yields\<close>

lemma apfs_read_cat_key_named:
  "apfs_read_cat_key raw ksize hashed = Inr k \<Longrightarrow> named_by {APFS_TYPE_DIR_REC, APFS_TYPE_XATTR} k"
  by (auto simp: apfs_read_cat_key_def named_by_def bind_res_eq_Inr split: if_splits)

lemma apfs_read_snap_meta_key_named:
  "apfs_read_snap_meta_key raw ksize = Inr k \<Longrightarrow> named_by {APFS_TYPE_SNAP_NAME} k"
  by (auto simp: apfs_read_snap_meta_key_def named_by_def bind_res_eq_Inr split: if_splits)

lemma fixed_key_readers_named:
  "apfs_read_fext_key raw ksize = Inr k \<Longrightarrow> named_by {} k"
  "apfs_read_free_queue_key raw ksize = Inr k \<Longrightarrow> named_by {} k"
  "apfs_read_omap_key raw ksize = Inr k \<Longrightarrow> named_by {} k"
  "apfs_read_extentref_key raw ksize = Inr k \<Longrightarrow> named_by {} k"
  "apfs_read_omap_snap_key raw ksize = Inr k \<Longrightarrow> named_by {} k"
  by (auto simp: key_readers named_by_def bind_res_eq_Inr split: if_splits)

section \<open>Parsing inverts encoding\<close>

lemma rd64_le_bytes [simp]: "rd64 (le_bytes 8 x @ bs) 0 = Inr (x mod 256 ^ 8)"
  by (simp add: rd_le_Inr)

lemma rd64_le_bytes_snd [simp]: "rd64 (le_bytes 8 y @ le_bytes 8 x @ bs) 8 = Inr (x mod 256 ^ 8)"
  by (simp add: rd_le_Inr)

lemma of_nat_unat_mod [simp]: "(of_nat (unat (x :: u64) mod 18446744073709551616) :: u64) = x"
proof -
  have "unat x < 18446744073709551616"
    using unsigned_less [of x] by simp
  then show ?thesis by simp
qed

lemma omap_key_roundtrip: "apfs_read_omap_key (omap_raw_key oid xid) 16 = Inr (apfs_init_omap_key oid xid)"
  using rd64_le_bytes_snd [of "unat oid" "unat xid" "[]"]
  by (simp add: apfs_read_omap_key_def omap_raw_key_def apfs_init_omap_key_def)

lemma free_queue_key_roundtrip:
  "apfs_read_free_queue_key (free_queue_raw_key xid bno) 16 = Inr (apfs_init_free_queue_key xid bno)"
  using rd64_le_bytes_snd [of "unat xid" "unat bno" "[]"]
  by (simp add: apfs_read_free_queue_key_def free_queue_raw_key_def apfs_init_free_queue_key_def)

section \<open>Properties\<close>

text \<open>
  (C1) On the keys of one tree, whose names are present according to their types, \<open>apfs_keycmp\<close> is
  a linear order: it is zero on equal keys only, exchanging the keys negates it, and it is
  transitive.
\<close>

theorem apfs_keycmp_linear_order:
  assumes "named_by N a" "named_by N b" "named_by N c"
  shows "(apfs_keycmp a b = 0 \<longleftrightarrow> a = b) \<and> apfs_keycmp b a = - apfs_keycmp a b \<and>
    (apfs_keycmp a b \<le> 0 \<and> apfs_keycmp b c \<le> 0 \<longrightarrow> apfs_keycmp a c \<le> 0)"
  using assms apfs_keycmp_eq_0 apfs_keycmp_swap apfs_keycmp_le_trans by (metis apfs_keycmp_refl)

theorem apfs_keycmp_linear_order_witness:
  "named_by {4, 9} (apfs_init_inode_key 5) \<and> named_by {4, 9} (apfs_init_xattr_key 5 (Some [97])) \<and>
   named_by {4, 9} (apfs_init_xattr_key 5 (Some [97, 98])) \<and>
   apfs_keycmp (apfs_init_inode_key 5) (apfs_init_xattr_key 5 (Some [97, 98])) \<le> 0"
  using apfs_keycmp_linear_order [of "{4, 9}" "apfs_init_inode_key 5" "apfs_init_xattr_key 5 (Some [97])"
      "apfs_init_xattr_key 5 (Some [97, 98])"]
  by (simp add: named_by_def key_inits apfs_keycmp_def)

text \<open>
  No parser of an on-disk key reads a byte outside of the buffer, whatever the bytes are, as
  long as the length it is given does not exceed the buffer.
\<close>

theorem key_parsers_memory_safe:
  assumes "ksize \<le> int (length raw)"
  shows "safe (apfs_read_cat_key raw ksize hashed) \<and> safe (apfs_read_fext_key raw ksize) \<and>
    safe (apfs_read_free_queue_key raw ksize) \<and> safe (apfs_read_omap_key raw ksize) \<and>
    safe (apfs_read_extentref_key raw ksize) \<and> safe (apfs_read_snap_meta_key raw ksize) \<and>
    safe (apfs_read_omap_snap_key raw ksize)"
  using assms apfs_read_cat_key_safe apfs_read_snap_meta_key_safe fixed_key_readers_safe by blast

theorem key_parsers_memory_safe_witness:
  "(12 :: int) \<le> int (length [5, 0, 0, 0, 0, 0, 0, 0x90, 0, 4, 97, 0 :: byte]) \<and>
   safe (apfs_read_cat_key [5, 0, 0, 0, 0, 0, 0, 0x90, 0, 4, 97, 0] 12 False)"
  using key_parsers_memory_safe [of 12 "[5, 0, 0, 0, 0, 0, 0, 0x90, 0, 4, 97, 0]" False] by simp

text \<open>
  The parsers of object map keys and of free queue keys invert the encoding of these keys: they
  yield the key that a query for the same numbers searches for.
\<close>

theorem key_encoding_roundtrip:
  "apfs_read_omap_key (omap_raw_key oid xid) 16 = Inr (apfs_init_omap_key oid xid) \<and>
   apfs_read_free_queue_key (free_queue_raw_key xid bno) 16 = Inr (apfs_init_free_queue_key xid bno)"
  using omap_key_roundtrip free_queue_key_roundtrip by blast

end
