(* ===== verification/Object.thy ===== *)
theory Object
  imports Prelude
begin

text \<open>
  Objects and their checksums (\<open>object.c\<close>): the Fletcher checksum of an object, checkpoint
  mappings, positions in the checkpoint data area and the list of ephemeral objects.

  The lemmas show that the 64-bit sums of the checksum do not overflow for any object the driver
  handles, so that the code computes the mathematical checksum; that an object whose checksum was
  just set passes verification; and which changes of a block its checksum detects.
\<close>

section \<open>The Fletcher checksum\<close>

abbreviation (input) APFS_MAX_CKSUM_SIZE :: int where "APFS_MAX_CKSUM_SIZE \<equiv> 8"

text \<open>The 32-bit words of a message; a tail of less than four bytes is left out, as by \<open>len >> 2\<close>.\<close>

fun le32_words :: "buffer \<Rightarrow> nat list" where
  "le32_words (a # b # c # d # bs) = le_val [a, b, c, d] # le32_words bs"
| "le32_words _ = []"

fun fletcher_loop :: "u64 \<Rightarrow> u64 \<Rightarrow> nat list \<Rightarrow> u64 \<times> u64" where
  "fletcher_loop sum1 sum2 [] = (sum1, sum2)"
| "fletcher_loop sum1 sum2 (w # ws) =
     (let s1 = sum1 + of_nat w; s2 = sum2 + s1 in fletcher_loop s1 s2 ws)"

definition apfs_fletcher64 :: "buffer \<Rightarrow> u64" where
  "apfs_fletcher64 buff =
     (let (sum1, sum2) = fletcher_loop 0 0 (le32_words buff);
          c1 = 0xFFFFFFFF - (sum1 + sum2) mod 0xFFFFFFFF;
          c2 = 0xFFFFFFFF - (sum1 + c1) mod 0xFFFFFFFF
      in push_bit 32 c2 OR c1)"

definition apfs_multiblock_verify_csum :: "buffer \<Rightarrow> int \<Rightarrow> bool result" where
  "apfs_multiblock_verify_csum obj osize =
     bind_res (rd64 obj 0) (\<lambda>header_csum.
     bind_res (rd_bytes obj APFS_MAX_CKSUM_SIZE (osize - APFS_MAX_CKSUM_SIZE)) (\<lambda>body.
       Inr (of_nat header_csum = apfs_fletcher64 body)))"

definition apfs_multiblock_set_csum :: "buffer \<Rightarrow> int \<Rightarrow> buffer result" where
  "apfs_multiblock_set_csum obj osize =
     bind_res (rd_bytes obj APFS_MAX_CKSUM_SIZE (osize - APFS_MAX_CKSUM_SIZE)) (\<lambda>body.
       wr64 obj 0 (uint (apfs_fletcher64 body)))"

text \<open>A block in the running transaction may have a stale checksum, which is not verified.\<close>

definition apfs_obj_verify_csum :: "int \<Rightarrow> bool \<Rightarrow> buffer \<Rightarrow> bool result" where
  "apfs_obj_verify_csum blocksize in_trans data =
     (if in_trans then Inr True else apfs_multiblock_verify_csum data blocksize)"

definition apfs_obj_set_csum :: "int \<Rightarrow> buffer \<Rightarrow> buffer result" where
  "apfs_obj_set_csum blocksize obj = apfs_multiblock_set_csum obj blocksize"

section \<open>Checkpoint mappings\<close>

text \<open>
  Offsets: the object header takes 32 bytes (\<open>o_cksum\<close> 0, \<open>o_oid\<close> 8, \<open>o_xid\<close> 16, \<open>o_type\<close> 24,
  \<open>o_subtype\<close> 28); a mapping block goes on with \<open>cpm_flags\<close> 32, \<open>cpm_count\<close> 36 and the mappings
  of 40 bytes each from 40.
\<close>

abbreviation (input) APFS_OBJ_PHYSICAL :: int where "APFS_OBJ_PHYSICAL \<equiv> 0x40000000"
abbreviation (input) APFS_OBJECT_TYPE_CHECKPOINT_MAP :: int where "APFS_OBJECT_TYPE_CHECKPOINT_MAP \<equiv> 0x0000000c"
abbreviation (input) APFS_CHECKPOINT_MAP_LAST :: int where "APFS_CHECKPOINT_MAP_LAST \<equiv> 1"
abbreviation (input) sizeof_checkpoint_map_phys :: int where "sizeof_checkpoint_map_phys \<equiv> 40"
abbreviation (input) sizeof_checkpoint_mapping :: int where "sizeof_checkpoint_mapping \<equiv> 40"

definition apfs_max_maps_per_block :: "int \<Rightarrow> int" where
  "apfs_max_maps_per_block blocksize =
     (blocksize - sizeof_checkpoint_map_phys) div sizeof_checkpoint_mapping"

text \<open>The content \<open>apfs_create_cpm_block\<close> gives to the new block; \<open>bno\<close> is its number.\<close>

definition apfs_create_cpm_block :: "int \<Rightarrow> u64 \<Rightarrow> u64 \<Rightarrow> buffer result" where
  "apfs_create_cpm_block blocksize xid bno =
     store_fields (replicate (nat blocksize) 0)
       [(8, le_field 8 (uint bno)),
        (16, le_field 8 (uint xid)),
        (24, le_field 4 (APFS_OBJ_PHYSICAL + APFS_OBJECT_TYPE_CHECKPOINT_MAP)),
        (28, le_field 4 0),
        (32, le_field 4 APFS_CHECKPOINT_MAP_LAST),
        (36, le_field 4 0)]"

text \<open>\<open>obj\<close> is the object that gets mapped, \<open>osize\<close> its size and \<open>bno\<close> its block.\<close>

definition apfs_create_cpoint_map ::
  "int \<Rightarrow> buffer \<Rightarrow> buffer \<Rightarrow> u64 \<Rightarrow> u32 \<Rightarrow> buffer result" where
  "apfs_create_cpoint_map blocksize cpm obj bno osize =
     bind_res (rd32 cpm 36) (\<lambda>cpm_count.
       if int cpm_count \<ge> apfs_max_maps_per_block blocksize then Inl ENOSPC
       else let map = sizeof_checkpoint_map_phys + int cpm_count * sizeof_checkpoint_mapping in
         bind_res (rd_bytes obj 24 4) (\<lambda>o_type.
         bind_res (rd_bytes obj 28 4) (\<lambda>o_subtype.
         bind_res (rd_bytes obj 8 8) (\<lambda>o_oid.
           store_fields cpm
             [(36, le_field 4 (int cpm_count + 1)),
              (map, o_type),
              (map + 4, o_subtype),
              (map + 8, le_field 4 (uint osize)),
              (map + 12, le_field 4 0),
              (map + 16, le_field 8 0),
              (map + 24, o_oid),
              (map + 32, le_field 8 (uint bno))]))))"

section \<open>The checkpoint data area\<close>

text \<open>The fields of the container superblock that locate the data area, a ring of blocks.\<close>

record xp_data =
  nx_xp_data_base :: u64
  nx_xp_data_index :: u32
  nx_xp_data_blocks :: u32

definition apfs_index_in_data_area :: "xp_data \<Rightarrow> u64 \<Rightarrow> u32 result" where
  "apfs_index_in_data_area raw_sb bno =
     (if nx_xp_data_blocks raw_sb = 0 then Inl UB
      else let data_blks = ucast (nx_xp_data_blocks raw_sb) :: u64;
               tmp = bno - nx_xp_data_base raw_sb + data_blks - ucast (nx_xp_data_index raw_sb)
           in Inr (ucast (tmp mod data_blks)))"

definition apfs_data_index_to_bno :: "xp_data \<Rightarrow> u32 \<Rightarrow> u64 result" where
  "apfs_data_index_to_bno raw_sb index =
     (if nx_xp_data_blocks raw_sb = 0 then Inl UB
      else Inr (nx_xp_data_base raw_sb +
                ucast ((index + nx_xp_data_index raw_sb) mod nx_xp_data_blocks raw_sb)))"

section \<open>Ephemeral objects\<close>

record ephemeral_object_info =
  eph_oid :: u64
  eph_size :: u32
  eph_object :: buffer

text \<open>The lookup yields the position of the first match in the list.\<close>

fun eph_lookup_from :: "nat \<Rightarrow> ephemeral_object_info list \<Rightarrow> u64 \<Rightarrow> nat result" where
  "eph_lookup_from i [] oid = Inl EFSCORRUPTED"
| "eph_lookup_from i (e # es) oid = (if eph_oid e = oid then Inr i else eph_lookup_from (Suc i) es oid)"

definition apfs_ephemeral_object_lookup :: "ephemeral_object_info list \<Rightarrow> u64 \<Rightarrow> nat result" where
  "apfs_ephemeral_object_lookup nx_eph_list oid = eph_lookup_from 0 nx_eph_list oid"

section \<open>The sums of the checksum\<close>

text \<open>The two sums as natural numbers, and the modulus.\<close>

fun fl_sum2 :: "nat list \<Rightarrow> nat" where
  "fl_sum2 [] = 0"
| "fl_sum2 (w # ws) = Suc (length ws) * w + fl_sum2 ws"

abbreviation fl_mod :: nat where "fl_mod \<equiv> 4294967295"

lemma le32_words_bound: "w \<in> set (le32_words bs) \<Longrightarrow> w \<le> fl_mod"
proof (induction bs rule: le32_words.induct)
  case (1 a b c d bs)
  have "le_val [a, b, c, d] < 256 ^ length [a, b, c, d]" by (rule le_val_bound)
  then have "le_val [a, b, c, d] \<le> fl_mod" by simp
  with 1 show ?case by (auto simp del: le_val.simps)
qed auto

lemma length_le32_words: "length (le32_words bs) = length bs div 4"
  by (induction bs rule: le32_words.induct) auto

lemma le32_words_append:
  "length xs mod 4 = 0 \<Longrightarrow> le32_words (xs @ ys) = le32_words xs @ le32_words ys"
  by (induction xs rule: le32_words.induct) auto

lemma fl_sum2_append: "fl_sum2 (xs @ ys) = fl_sum2 xs + length ys * sum_list xs + fl_sum2 ys"
  by (induction xs) (auto simp: algebra_simps)

lemma sum_list_bound: "(\<And>w. w \<in> set ws \<Longrightarrow> w \<le> m) \<Longrightarrow> sum_list ws \<le> length ws * m" for m :: nat
  by (induction ws) (auto intro!: add_mono)

lemma fl_sum2_bound:
  "(\<And>w. w \<in> set ws \<Longrightarrow> w \<le> m) \<Longrightarrow> 2 * fl_sum2 ws \<le> length ws * (length ws + 1) * m"
proof (induction ws)
  case Nil
  show ?case by simp
next
  case (Cons w ws)
  have "2 * (Suc (length ws) * w) \<le> 2 * (Suc (length ws) * m)"
    using Cons.prems by (intro mult_le_mono) auto
  moreover have "2 * fl_sum2 ws \<le> length ws * (length ws + 1) * m"
    using Cons by auto
  ultimately show ?case by (simp add: algebra_simps)
qed

lemma fletcher_loop_of_nat:
  "fletcher_loop (of_nat a) (of_nat b) ws =
     (of_nat (a + sum_list ws), of_nat (b + length ws * a + fl_sum2 ws))"
proof (induction ws arbitrary: a b)
  case Nil
  show ?case by simp
next
  case (Cons w ws)
  have "fletcher_loop (of_nat a) (of_nat b) (w # ws) =
      fletcher_loop (of_nat (a + w)) (of_nat (b + (a + w))) ws"
    by (simp add: Let_def)
  also have "\<dots> = (of_nat (a + w + sum_list ws), of_nat (b + (a + w) + length ws * (a + w) + fl_sum2 ws))"
    by (rule Cons.IH)
  also have "b + (a + w) + length ws * (a + w) + fl_sum2 ws = b + length (w # ws) * a + fl_sum2 (w # ws)"
    by (simp add: algebra_simps)
  finally show ?case by (simp add: add.assoc)
qed

text \<open>The checksum as arithmetic on natural numbers.\<close>

definition fl_c1 :: "nat list \<Rightarrow> nat" where
  "fl_c1 ws = fl_mod - (sum_list ws + fl_sum2 ws) mod fl_mod"

definition fl_c2 :: "nat list \<Rightarrow> nat" where
  "fl_c2 ws = fl_mod - (sum_list ws + fl_c1 ws) mod fl_mod"

text \<open>
  The longest message for which no sum overflows 64 bits has 92680 words (about 362 KiB); blocks
  have at most 64 KiB.
\<close>

abbreviation fl_max_words :: nat where "fl_max_words \<equiv> 92680"

lemma fl_no_overflow:
  assumes "\<And>w. w \<in> set ws \<Longrightarrow> w \<le> fl_mod" "length ws \<le> fl_max_words"
  shows "sum_list ws + fl_sum2 ws < 2 ^ 64"
proof -
  have "2 * (sum_list ws + fl_sum2 ws) \<le> length ws * (length ws + 3) * fl_mod"
    using sum_list_bound [of ws fl_mod] fl_sum2_bound [of ws fl_mod] assms(1)
    by (simp add: algebra_simps)
  also have "\<dots> \<le> (fl_max_words * (fl_max_words + 3)) * fl_mod"
    using assms(2) by (intro mult_le_mono) auto
  finally show ?thesis by simp
qed

lemma u64_of_nat_mod:
  "x < 2 ^ 64 \<Longrightarrow> (of_nat x :: u64) mod 0xFFFFFFFF = of_nat (x mod 4294967295)"
  by (rule word_unat_eq_iff [THEN iffD2]) (simp add: unat_mod_distrib unat_of_nat)

lemma u64_join:
  assumes "a < 2 ^ 32" "b < 2 ^ 32"
  shows "push_bit 32 (of_nat a :: u64) OR of_nat b = of_nat (a * 2 ^ 32 + b)"
proof -
  have "(push_bit 32 (of_nat a :: u64)) AND of_nat b = 0"
  proof (rule bit_word_eqI)
    fix n :: nat assume "n < LENGTH(64)"
    have "b = take_bit 32 b" using assms by (simp add: take_bit_nat_eq_self)
    then have "bit b n \<Longrightarrow> n < 32" by (metis bit_take_bit_iff)
    then show "bit (push_bit 32 (of_nat a :: u64) AND of_nat b) n = bit 0 n"
      by (auto simp: bit_simps)
  qed
  then show ?thesis
    by (simp add: disjunctive_add_eq_or [symmetric] push_bit_eq_mult)
qed

lemma fl_c_bound: "fl_c1 ws \<le> fl_mod" "fl_c2 ws \<le> fl_mod"
  by (simp_all add: fl_c1_def fl_c2_def)

text \<open>For messages of bounded length the code computes the mathematical checksum.\<close>

lemma apfs_fletcher64_nat:
  assumes "length buff \<le> 4 * fl_max_words"
  shows "apfs_fletcher64 buff =
    of_nat (fl_c2 (le32_words buff) * 2 ^ 32 + fl_c1 (le32_words buff))"
proof -
  let ?ws = "le32_words buff"
  have len: "length ?ws \<le> fl_max_words"
    using assms by (simp add: length_le32_words)
  have sums: "sum_list ?ws + fl_sum2 ?ws < 2 ^ 64"
    using le32_words_bound len by (rule fl_no_overflow)
  have "sum_list ?ws \<le> length ?ws * fl_mod"
    using le32_words_bound by (rule sum_list_bound)
  also have "\<dots> \<le> fl_max_words * fl_mod"
    using len by (rule mult_le_mono1)
  finally have s1: "sum_list ?ws + fl_c1 ?ws < 2 ^ 64"
    using fl_c_bound(1) [of ?ws] by simp
  have c1: "0xFFFFFFFF - (of_nat (sum_list ?ws + fl_sum2 ?ws) :: u64) mod 0xFFFFFFFF = of_nat (fl_c1 ?ws)"
    using u64_of_nat_mod [OF sums] by (simp add: fl_c1_def)
  have c2: "0xFFFFFFFF - (of_nat (sum_list ?ws + fl_c1 ?ws) :: u64) mod 0xFFFFFFFF = of_nat (fl_c2 ?ws)"
    using u64_of_nat_mod [OF s1] by (simp add: fl_c2_def)
  have "fletcher_loop 0 0 ?ws = (of_nat (sum_list ?ws), of_nat (fl_sum2 ?ws))"
    using fletcher_loop_of_nat [of 0 0 ?ws] by simp
  then have "apfs_fletcher64 buff = push_bit 32 (of_nat (fl_c2 ?ws)) OR of_nat (fl_c1 ?ws)"
    using c1 c2 by (simp add: apfs_fletcher64_def Let_def)
  also have "\<dots> = of_nat (fl_c2 ?ws * 2 ^ 32 + fl_c1 ?ws)"
    using fl_c_bound [of ?ws] by (intro u64_join) auto
  finally show ?thesis .
qed

lemma mod_add_cancel_nat: "(a + c) mod m = (b + c) mod m \<Longrightarrow> a mod m = b mod m" for a b c m :: nat
proof -
  assume "(a + c) mod m = (b + c) mod m"
  then have "(int a + int c) mod int m = (int b + int c) mod int m"
    by (metis of_nat_add zmod_int)
  then have "(int a + int c - int c) mod int m = (int b + int c - int c) mod int m"
    by (rule mod_diff_cong) simp
  then have "int (a mod m) = int (b mod m)"
    by (simp add: zmod_int)
  then show ?thesis by simp
qed

lemma fl_neg_mod: "(x + (fl_mod - x mod fl_mod)) mod fl_mod = 0"
proof -
  have "x mod fl_mod \<le> fl_mod" by simp
  then have "x + (fl_mod - x mod fl_mod) = fl_mod * (x div fl_mod) + fl_mod"
    using mult_div_mod_eq [of fl_mod x] by linarith
  then show ?thesis by simp
qed

lemma fl_neg_inj: "fl_mod - x mod fl_mod = fl_mod - y mod fl_mod \<Longrightarrow> x mod fl_mod = y mod fl_mod"
proof -
  assume "fl_mod - x mod fl_mod = fl_mod - y mod fl_mod"
  moreover have "x mod fl_mod < fl_mod" "y mod fl_mod < fl_mod" by simp_all
  ultimately show ?thesis by linarith
qed

text \<open>
  The check words are chosen so that both sums of the message followed by them vanish, the usual
  definition of Fletcher's check.
\<close>

lemma fl_check_words:
  "sum_list (ws @ [fl_c1 ws, fl_c2 ws]) mod fl_mod = 0"
  "fl_sum2 (ws @ [fl_c1 ws, fl_c2 ws]) mod fl_mod = 0"
proof -
  have a: "(sum_list ws + fl_c1 ws + fl_c2 ws) mod fl_mod = 0"
    unfolding fl_c2_def by (rule fl_neg_mod)
  have b: "(sum_list ws + fl_sum2 ws + fl_c1 ws) mod fl_mod = 0"
    unfolding fl_c1_def by (rule fl_neg_mod)
  show "sum_list (ws @ [fl_c1 ws, fl_c2 ws]) mod fl_mod = 0"
    using a by (simp add: add.assoc)
  have "fl_sum2 (ws @ [fl_c1 ws, fl_c2 ws]) =
      (sum_list ws + fl_sum2 ws + fl_c1 ws) + (sum_list ws + fl_c1 ws + fl_c2 ws)"
    by (simp add: fl_sum2_append)
  then show "fl_sum2 (ws @ [fl_c1 ws, fl_c2 ws]) mod fl_mod = 0"
    using a b by (simp add: mod_0_imp_dvd)
qed

text \<open>Equal checksums mean equal sums modulo \<open>2 ^ 32 - 1\<close>.\<close>

lemma fl_eq_sums:
  assumes "fl_c2 xs * 2 ^ 32 + fl_c1 xs = fl_c2 ys * 2 ^ 32 + fl_c1 ys"
  shows "sum_list xs mod fl_mod = sum_list ys mod fl_mod"
    and "(sum_list xs + fl_sum2 xs) mod fl_mod = (sum_list ys + fl_sum2 ys) mod fl_mod"
proof -
  have "(fl_c2 xs * 2 ^ 32 + fl_c1 xs) mod 2 ^ 32 = fl_c1 xs" "(fl_c2 ys * 2 ^ 32 + fl_c1 ys) mod 2 ^ 32 = fl_c1 ys"
    using fl_c_bound(1) [of xs] fl_c_bound(1) [of ys] by simp_all
  then have c1: "fl_c1 xs = fl_c1 ys"
    using assms by metis
  then have c2: "fl_c2 xs = fl_c2 ys"
    using assms by simp
  from c1 show "(sum_list xs + fl_sum2 xs) mod fl_mod = (sum_list ys + fl_sum2 ys) mod fl_mod"
    unfolding fl_c1_def by (rule fl_neg_inj)
  from c2 have "(sum_list xs + fl_c1 xs) mod fl_mod = (sum_list ys + fl_c1 ys) mod fl_mod"
    unfolding fl_c2_def by (rule fl_neg_inj)
  then show "sum_list xs mod fl_mod = sum_list ys mod fl_mod"
    unfolding c1 by (rule mod_add_cancel_nat)
qed

lemma le32_words_split:
  assumes "length xs mod 4 = 0" "length u = 4"
  shows "le32_words (xs @ u @ ys) = le32_words xs @ le_val u # le32_words ys"
proof -
  from assms(2) obtain a b c d where "u = [a, b, c, d]"
    by (auto simp: length_Suc_conv eval_nat_numeral)
  then show ?thesis using assms(1) by (simp add: le32_words_append)
qed

text \<open>A change of one 32-bit word that is not a change modulo \<open>2 ^ 32 - 1\<close> changes the checksum.\<close>

lemma apfs_fletcher64_detects:
  assumes len: "length xs mod 4 = 0" "length s = 4" "length t = 4"
    and bound: "length xs + 4 + length ys \<le> 4 * fl_max_words"
    and eq: "apfs_fletcher64 (xs @ s @ ys) = apfs_fletcher64 (xs @ t @ ys)"
  shows "le_val s mod fl_mod = le_val t mod fl_mod"
proof -
  let ?c = "\<lambda>ws. fl_c2 ws * 2 ^ 32 + fl_c1 ws"
  let ?s = "le32_words (xs @ s @ ys)" and ?t = "le32_words (xs @ t @ ys)"
  have small: "unat (of_nat (?c ws) :: u64) = ?c ws" for ws
    using fl_c_bound [of ws] by (simp add: unat_of_nat del: of_nat_add of_nat_mult)
  have "(of_nat (?c ?s) :: u64) = of_nat (?c ?t)"
    using eq bound len by (simp add: apfs_fletcher64_nat del: of_nat_add of_nat_mult)
  then have "?c ?s = ?c ?t"
    using small [of ?s] small [of ?t] by metis
  then have "sum_list ?s mod fl_mod = sum_list ?t mod fl_mod"
    by (rule fl_eq_sums(1))
  then have "(le_val s + (sum_list (le32_words xs) + sum_list (le32_words ys))) mod fl_mod =
      (le_val t + (sum_list (le32_words xs) + sum_list (le32_words ys))) mod fl_mod"
    by (simp add: le32_words_split len algebra_simps)
  then show ?thesis by (rule mod_add_cancel_nat)
qed

text \<open>The checksum depends on the words modulo \<open>2 ^ 32 - 1\<close> only.\<close>

lemma fl_word_cong:
  assumes "v mod fl_mod = w mod fl_mod"
  shows "fl_c1 (xs @ v # ys) = fl_c1 (xs @ w # ys)" "fl_c2 (xs @ v # ys) = fl_c2 (xs @ w # ys)"
proof -
  have "(k * v + c) mod fl_mod = (k * w + c) mod fl_mod" for k c
    using assms by (intro mod_add_cong mod_mult_cong) simp_all
  note cong = this
  have "sum_list (xs @ u # ys) = 1 * u + (sum_list xs + sum_list ys)" for u by simp
  then have s: "(sum_list (xs @ v # ys) + c) mod fl_mod = (sum_list (xs @ w # ys) + c) mod fl_mod" for c
    using cong [of 1 "sum_list xs + sum_list ys + c"] by (simp add: algebra_simps)
  have "sum_list (xs @ u # ys) + fl_sum2 (xs @ u # ys) = (length ys + 2) * u +
      (sum_list xs + sum_list ys + fl_sum2 xs + Suc (length ys) * sum_list xs + fl_sum2 ys)" for u
    by (simp add: fl_sum2_append algebra_simps)
  then show c1: "fl_c1 (xs @ v # ys) = fl_c1 (xs @ w # ys)"
    unfolding fl_c1_def using cong by presburger
  show "fl_c2 (xs @ v # ys) = fl_c2 (xs @ w # ys)"
    unfolding fl_c2_def c1 s ..
qed

lemma apfs_fletcher64_eq_iff:
  assumes "length xs mod 4 = 0" "length s = 4" "length t = 4"
    and "length xs + 4 + length ys \<le> 4 * fl_max_words"
  shows "apfs_fletcher64 (xs @ s @ ys) = apfs_fletcher64 (xs @ t @ ys) \<longleftrightarrow>
    le_val s mod fl_mod = le_val t mod fl_mod"
proof
  assume "le_val s mod fl_mod = le_val t mod fl_mod"
  then show "apfs_fletcher64 (xs @ s @ ys) = apfs_fletcher64 (xs @ t @ ys)"
    using assms fl_word_cong [of "le_val s" "le_val t" "le32_words xs" "le32_words ys"]
    by (simp add: apfs_fletcher64_nat le32_words_split)
qed (use assms apfs_fletcher64_detects [of xs s t ys] in auto)

text \<open>Two 32-bit words are congruent if they are equal, or one is 0 and the other all ones.\<close>

lemma le_val_cong_iff:
  assumes "length s = 4" "length t = 4"
  shows "le_val s mod fl_mod = le_val t mod fl_mod \<longleftrightarrow>
    s = t \<or> {le_val s, le_val t} = {0, 0xFFFFFFFF}"
proof -
  have bound: "le_val s \<le> fl_mod" "le_val t \<le> fl_mod"
    using le_val_bound [of s] le_val_bound [of t] assms by simp_all
  have "a mod fl_mod = b mod fl_mod \<longleftrightarrow> a = b \<or> {a, b} = {0, fl_mod}"
    if "a \<le> fl_mod" "b \<le> fl_mod" for a b
    using that by (cases "a = fl_mod"; cases "b = fl_mod") (auto simp: doubleton_eq_iff)
  note this [OF bound]
  moreover have "le_val s = le_val t \<longleftrightarrow> s = t"
    using le_val_inject [of s t] assms by auto
  ultimately show ?thesis by simp
qed

section \<open>Setting and verifying a checksum\<close>

lemma apfs_multiblock_csum_ok:
  assumes "8 \<le> osize" "osize \<le> int (length obj)"
  shows "\<exists>obj'. apfs_multiblock_set_csum obj osize = Inr obj'"
proof -
  from assms obtain body where "rd_bytes obj 8 (osize - 8) = Inr body"
    by (metis rd_bytes_Inr diff_ge_0_iff_ge add_diff_cancel_left' diff_add_cancel zero_le_numeral add.commute)
  then show ?thesis
    using assms wr_le_ok [of 0 8 obj] by (simp add: apfs_multiblock_set_csum_def)
qed

lemma apfs_multiblock_csum_roundtrip:
  assumes "apfs_multiblock_set_csum obj osize = Inr obj'"
  shows "apfs_multiblock_verify_csum obj' osize = Inr True"
proof -
  from assms obtain body where body: "rd_bytes obj 8 (osize - 8) = Inr body"
    and wr: "wr64 obj 0 (uint (apfs_fletcher64 body)) = Inr obj'"
    by (auto simp: apfs_multiblock_set_csum_def bind_res_eq_Inr)
  have "rd_bytes obj' 8 (osize - 8) = Inr body"
    using rd_bytes_wr_le_other [OF wr, of 8 "osize - 8"] body by simp
  moreover have "uint (apfs_fletcher64 body) mod 256 ^ 8 = uint (apfs_fletcher64 body)"
    using unsigned_less [of "apfs_fletcher64 body", where ?'a = int] by simp
  then have "rd64 obj' 0 = Inr (unat (apfs_fletcher64 body))"
    using rd_le_wr_le_same [OF wr] by simp
  ultimately show ?thesis
    by (simp add: apfs_multiblock_verify_csum_def)
qed

lemma apfs_multiblock_csum_exact:
  assumes "length hdr = 8" "length xs mod 4 = 0" "length s = 4" "length t = 4" "length hdr' = 8"
    and "osize = int (length (hdr @ xs @ s @ ys))" "osize \<le> 4 * int fl_max_words"
    and "apfs_multiblock_verify_csum (hdr @ xs @ s @ ys) osize = Inr True"
  shows "apfs_multiblock_verify_csum (hdr @ xs @ t @ ys) osize =
      Inr (s = t \<or> {le_val s, le_val t} = {0, 0xFFFFFFFF})"
    and "apfs_multiblock_verify_csum (hdr' @ xs @ s @ ys) osize = Inr (hdr' = hdr)"
proof -
  have rd: "rd_bytes (h @ xs @ u @ ys) 8 (osize - 8) = Inr (xs @ u @ ys)"
    and hdr: "rd64 (h @ xs @ u @ ys) 0 = Inr (le_val h)" if "length u = 4" "length h = 8" for u h
    using that assms(1,3,6) by (simp_all add: rd_bytes_Inr rd_le_Inr)
  have len: "length xs + 4 + length ys \<le> 4 * fl_max_words"
    using assms by simp
  have csum: "of_nat (le_val hdr) = apfs_fletcher64 (xs @ s @ ys)"
    using assms rd hdr by (simp add: apfs_multiblock_verify_csum_def)
  then show "apfs_multiblock_verify_csum (hdr @ xs @ t @ ys) osize =
      Inr (s = t \<or> {le_val s, le_val t} = {0, 0xFFFFFFFF})"
    using assms rd hdr apfs_fletcher64_eq_iff [OF assms(2-4) len] le_val_cong_iff [OF assms(3,4)]
    by (simp add: apfs_multiblock_verify_csum_def)
  have "unat (of_nat (le_val h) :: u64) = le_val h" if "length h = 8" for h
    using le_val_bound [of h] that by (simp add: unat_of_nat)
  from this [OF assms(1)] this [OF assms(5)]
  have "(of_nat (le_val hdr') :: u64) = of_nat (le_val hdr) \<longleftrightarrow> le_val hdr' = le_val hdr"
    by metis
  then have "(of_nat (le_val hdr') :: u64) = of_nat (le_val hdr) \<longleftrightarrow> hdr' = hdr"
    using assms(1,5) le_val_inject [of hdr' hdr] by auto
  with csum show "apfs_multiblock_verify_csum (hdr' @ xs @ s @ ys) osize = Inr (hdr' = hdr)"
    using assms rd hdr by (simp add: apfs_multiblock_verify_csum_def)
qed

section \<open>Positions in the data area\<close>

lemma ucast_of_unat: "(ucast (x :: u32) :: u64) = of_nat (unat x)"
  by simp

lemma ucast_of_nat_mask: "unat (x :: u64) = unat (y :: u32) \<Longrightarrow> (ucast x :: u32) = y"
  using unsigned_less [of y, where ?'a = nat]
  by (intro word_unat_eq_iff [THEN iffD2]) (simp add: unsigned_ucast_eq take_bit_nat_eq_self)

lemma data_area_roundtrip:
  assumes "unat (nx_xp_data_blocks sb) \<le> 2 ^ 31" "nx_xp_data_index sb < nx_xp_data_blocks sb"
    and "index < nx_xp_data_blocks sb"
  shows "\<exists>bno. apfs_data_index_to_bno sb index = Inr bno \<and> apfs_index_in_data_area sb bno = Inr index"
proof -
  let ?n = "unat (nx_xp_data_blocks sb)" and ?d = "unat (nx_xp_data_index sb)" and ?i = "unat index"
  have nz: "nx_xp_data_blocks sb \<noteq> 0" using assms(3) by auto
  have lt: "?d < ?n" "?i < ?n" using assms by (simp_all add: word_less_nat_alt)
  define k where "k = (?i + ?d) mod ?n"
  have u: "unat (ucast (x :: u32) :: u64) = unat x" for x
    using unsigned_less [of x, where ?'a = nat] by (simp add: unsigned_ucast_eq take_bit_nat_eq_self)
  have kn: "k < ?n" unfolding k_def using lt by simp
  have k: "unat ((index + nx_xp_data_index sb) mod nx_xp_data_blocks sb) = k"
    using lt assms(1) by (simp add: unat_mod_distrib unat_word_ariths k_def)
  have "unat (of_nat (k + ?n - ?d) mod of_nat ?n :: u64) = (k + ?n - ?d) mod ?n"
    using kn lt assms(1) by (simp add: unat_mod_distrib unat_of_nat u del: of_nat_diff of_nat_add)
  also have "(k + ?n - ?d) mod ?n = ?i"
  proof (cases "?i + ?d < ?n")
    case True
    then show ?thesis using lt by (simp add: k_def)
  next
    case False
    then have "k = ?i + ?d - ?n" using lt by (simp add: k_def mod_if)
    then show ?thesis using False lt by simp
  qed
  finally have "(ucast (of_nat (k + ?n - ?d) mod of_nat ?n :: u64) :: u32) = index"
    by (metis ucast_of_nat_mask)
  then have idx: "(ucast (of_nat (k + ?n - ?d) mod ucast (nx_xp_data_blocks sb) :: u64) :: u32) = index"
    by simp
  let ?m = "ucast ((index + nx_xp_data_index sb) mod nx_xp_data_blocks sb) :: u64"
  have "?m = of_nat k"
    using k by (metis ucast_of_unat)
  then have "nx_xp_data_base sb + ?m - nx_xp_data_base sb + ucast (nx_xp_data_blocks sb)
      - ucast (nx_xp_data_index sb) = of_nat (k + ?n - ?d)"
    using lt by simp
  with idx have "apfs_index_in_data_area sb (nx_xp_data_base sb + ?m) = Inr index"
    using nz unfolding apfs_index_in_data_area_def Let_def by simp
  then show ?thesis
    using nz by (simp add: apfs_data_index_to_bno_def)
qed

section \<open>Checkpoint mappings\<close>

text \<open>The block of a new mapping, and what a new mapping changes in it.\<close>

definition cpoint_map_at :: "buffer \<Rightarrow> nat \<Rightarrow> (nat \<times> nat \<times> nat) result" where
  "cpoint_map_at cpm i =
     bind_res (rd64 cpm (40 + int i * 40 + 24)) (\<lambda>oid.
     bind_res (rd64 cpm (40 + int i * 40 + 32)) (\<lambda>paddr.
     bind_res (rd32 cpm (40 + int i * 40 + 8)) (\<lambda>osize. Inr (oid, paddr, osize))))"

lemma apfs_create_cpoint_map_store:
  assumes cpm: "int (length cpm) = blocksize" "blocksize \<le> 65536" "rd32 cpm 36 = Inr count"
    and room: "int count < apfs_max_maps_per_block blocksize"
    and oid: "rd64 obj 8 = Inr oid" and obj: "32 \<le> length obj"
  obtains b where "apfs_create_cpoint_map blocksize cpm obj bno osize = Inr b"
    "rd32 b 36 = Inr (Suc count)"
    "cpoint_map_at b count = Inr (oid, unat bno, unat osize)"
    "\<And>i. i < count \<Longrightarrow> cpoint_map_at b i = cpoint_map_at cpm i"
proof -
  define m where "m = 40 + int count * 40"
  have fit: "m + 40 \<le> int (length cpm)" "40 \<le> m" "int count < 65536"
    using room cpm(1,2) by (auto simp: apfs_max_maps_per_block_def m_def)
  obtain ty st oi where obj: "rd_bytes obj 24 4 = Inr ty" "length ty = 4" "rd_bytes obj 28 4 = Inr st"
    "length st = 4" "rd_bytes obj 8 8 = Inr oi" "length oi = 8" "le_val oi = oid"
    using obj oid rd_bytes_ok [of 24 4 obj] rd_bytes_ok [of 28 4 obj] rd_bytes_ok [of 8 8 obj]
    by (auto simp: rd_le_def bind_res_eq_Inr)
  define fs where "fs = [(36, le_field 4 (int count + 1)), (m, ty), (m + 4, st),
    (m + 8, le_field 4 (uint osize)), (m + 12, le_field 4 0), (m + 16, le_field 8 0), (m + 24, oi),
    (m + 32, le_field 8 (uint bno))]"
  have asc: "fields_asc 36 fs (m + 40)"
    using fit obj by (simp add: fs_def)
  with fit obtain b where b: "store_fields cpm fs = Inr b"
    using store_fields_ok [of 36 fs "m + 40" cpm] by auto
  note rd = store_fields_read [OF asc b]
  have "rd_bytes b 36 4 = Inr (le_field 4 (int count + 1))" "rd_bytes b (m + 24) 8 = Inr oi"
    "rd_bytes b (m + 32) 8 = Inr (le_field 8 (uint bno))" "rd_bytes b (m + 8) 4 = Inr (le_field 4 (uint osize))"
    using rd [of 36 "le_field 4 (int count + 1)"] rd [of "m + 24" oi]
      rd [of "m + 32" "le_field 8 (uint bno)"] rd [of "m + 8" "le_field 4 (uint osize)"] obj
    by (auto simp: fs_def)
  moreover have "rd_bytes b off len = rd_bytes cpm off len" if "40 \<le> off" "off + len \<le> m" for off len
    using that by (intro store_fields_frame [OF b]) (auto simp: fs_def)
  moreover have "apfs_create_cpoint_map blocksize cpm obj bno osize = Inr b"
    using cpm room obj b by (simp add: apfs_create_cpoint_map_def Let_def m_def fs_def)
  moreover have "uint bno mod 2 ^ 64 = uint bno" "uint osize mod 2 ^ 32 = uint osize"
    using unsigned_less [of bno, where ?'a = int] unsigned_less [of osize, where ?'a = int] by simp_all
  ultimately show thesis
    using that [of b] fit obj
    by (simp add: cpoint_map_at_def rd_le_def m_def)
qed

section \<open>Lookup of ephemeral objects\<close>

lemma eph_lookup_from_Inr:
  assumes "eph_lookup_from i es oid = Inr j"
  shows "\<exists>k < length es. j = i + k \<and> eph_oid (es ! k) = oid \<and> (\<forall>l < k. eph_oid (es ! l) \<noteq> oid)"
  using assms
proof (induction es arbitrary: i)
  case Nil
  then show ?case by simp
next
  case (Cons e es)
  show ?case
  proof (cases "eph_oid e = oid")
    case True
    with Cons.prems show ?thesis by (intro exI [of _ 0]) simp
  next
    case False
    with Cons obtain k where "k < length es" "j = Suc i + k" "eph_oid (es ! k) = oid"
      "\<forall>l < k. eph_oid (es ! l) \<noteq> oid"
      by fastforce
    with False show ?thesis
      by (intro exI [of _ "Suc k"]) (simp add: nth_Cons split: nat.split)
  qed
qed

lemma eph_lookup_from_Inl: "eph_lookup_from i es oid = Inl e \<longleftrightarrow> e = EFSCORRUPTED \<and> oid \<notin> eph_oid ` set es"
  by (induction es arbitrary: i) auto

section \<open>Properties\<close>

text \<open>
  (C2) Up to 362 KiB, far above the largest block, no sum of \<open>apfs_fletcher64\<close> overflows: the result
  is the pair of check words \<open>fl_c1\<close>, \<open>fl_c2\<close> of the mathematical checksum, and the message followed
  by its check words has both Fletcher sums equal to zero modulo \<open>2 ^ 32 - 1\<close>.
\<close>

theorem apfs_fletcher64_correct:
  assumes "length buff \<le> 4 * fl_max_words" "ws = le32_words buff"
  shows "apfs_fletcher64 buff = of_nat (fl_c2 ws * 2 ^ 32 + fl_c1 ws) \<and>
    sum_list (ws @ [fl_c1 ws, fl_c2 ws]) mod fl_mod = 0 \<and>
    fl_sum2 (ws @ [fl_c1 ws, fl_c2 ws]) mod fl_mod = 0"
  unfolding assms(2) by (intro conjI apfs_fletcher64_nat [OF assms(1)] fl_check_words)

theorem apfs_fletcher64_correct_witness:
  "length [1, 0, 0, 0, 2, 0, 0, 0 :: byte] \<le> 4 * fl_max_words \<and>
   apfs_fletcher64 [1, 0, 0, 0, 2, 0, 0, 0] = 0x4fffffff8"
  using apfs_fletcher64_correct [of "[1, 0, 0, 0, 2, 0, 0, 0]" "[1, 2]"]
  by (simp add: fl_c1_def fl_c2_def)

text \<open>
  After \<open>apfs_obj_set_csum\<close> on a block, \<open>apfs_obj_verify_csum\<close> accepts it, and nothing but the
  checksum field has changed.
\<close>

theorem obj_csum_roundtrip:
  assumes "8 \<le> bs" "bs = int (length obj)"
  shows "\<exists>obj'. apfs_obj_set_csum bs obj = Inr obj' \<and> apfs_obj_verify_csum bs in_trans obj' = Inr True \<and>
    length obj' = length obj \<and> drop 8 obj' = drop 8 obj"
proof -
  obtain obj' where obj': "apfs_multiblock_set_csum obj bs = Inr obj'"
    using apfs_multiblock_csum_ok assms by blast
  then have "length obj' = length obj" "drop 8 obj' = drop 8 obj"
    by (auto simp: apfs_multiblock_set_csum_def bind_res_eq_Inr wr_le_def memcpy_def split: if_splits)
  then show ?thesis
    using obj' apfs_multiblock_csum_roundtrip [OF obj'] by (simp add: apfs_obj_set_csum_def apfs_obj_verify_csum_def)
qed

theorem obj_csum_roundtrip_witness:
  "\<exists>obj'. apfs_obj_set_csum 16 (replicate 16 7) = Inr obj' \<and> apfs_obj_verify_csum 16 False obj' = Inr True"
proof -
  have "(8 :: int) \<le> 16" "16 = int (length (replicate 16 (7 :: byte)))"
    by simp_all
  from obj_csum_roundtrip [OF this, of False] show ?thesis by blast
qed

text \<open>
  (C3) Take a block with a valid checksum. If one aligned 32-bit word of its body is replaced, the
  block is accepted exactly when the word is unchanged or when a word 0 and a word
  \<open>0xFFFFFFFF\<close> were exchanged for one another, which the sums modulo \<open>2 ^ 32 - 1\<close> cannot tell
  apart: every other change of one word is rejected. Any change of the stored checksum itself, the
  first 8 bytes, is rejected.
\<close>

theorem obj_csum_detects_corruption:
  assumes "length hdr = 8" "length xs mod 4 = 0" "length s = 4" "length t = 4" "length hdr' = 8"
    and "bs = int (length (hdr @ xs @ s @ ys))" "bs \<le> 65536"
    and "apfs_obj_verify_csum bs False (hdr @ xs @ s @ ys) = Inr True"
  shows "apfs_obj_verify_csum bs False (hdr @ xs @ t @ ys) =
      Inr (s = t \<or> {le_val s, le_val t} = {0, 0xFFFFFFFF}) \<and>
    apfs_obj_verify_csum bs False (hdr' @ xs @ s @ ys) = Inr (hdr' = hdr)"
  using assms apfs_multiblock_csum_exact [of hdr xs s t hdr' bs ys] by (simp add: apfs_obj_verify_csum_def)

theorem obj_csum_detects_corruption_witness:
  "apfs_obj_verify_csum 12 False ([0xfd, 0xff, 0xff, 0xff, 1, 0, 0, 0] @ [] @ [1, 0, 0, 0] @ []) = Inr True \<and>
   apfs_obj_verify_csum 12 False ([0xfd, 0xff, 0xff, 0xff, 1, 0, 0, 0] @ [] @ [2, 0, 0, 0] @ []) = Inr False \<and>
   apfs_obj_verify_csum 12 False ([0xfc, 0xff, 0xff, 0xff, 1, 0, 0, 0] @ [] @ [1, 0, 0, 0] @ []) = Inr False"
proof -
  have ok: "apfs_obj_verify_csum 12 False ([0xfd, 0xff, 0xff, 0xff, 1, 0, 0, 0] @ [] @ [1, 0, 0, 0] @ []) = Inr True"
    by (simp add: apfs_obj_verify_csum_def apfs_multiblock_verify_csum_def rd_le_def rd_bytes_def apfs_fletcher64_def)
  have "apfs_obj_verify_csum 12 False ([0xfd, 0xff, 0xff, 0xff, 1, 0, 0, 0] @ [] @ [2, 0, 0, 0] @ []) =
      Inr ([1, 0, 0, 0] = ([2, 0, 0, 0] :: buffer) \<or>
        {le_val [1, 0, 0, 0], le_val [2, 0, 0, 0]} = {0, 0xFFFFFFFF}) \<and>
    apfs_obj_verify_csum 12 False ([0xfc, 0xff, 0xff, 0xff, 1, 0, 0, 0] @ [] @ [1, 0, 0, 0] @ []) =
      Inr ([0xfc, 0xff, 0xff, 0xff, 1, 0, 0, 0] = ([0xfd, 0xff, 0xff, 0xff, 1, 0, 0, 0] :: buffer))"
    by (rule obj_csum_detects_corruption [OF _ _ _ _ _ _ _ ok]) simp_all
  with ok show ?thesis by (simp add: doubleton_eq_iff)
qed

text \<open>
  In the checkpoint data area, a ring of blocks, \<open>apfs_index_in_data_area\<close> inverts
  \<open>apfs_data_index_to_bno\<close> on every index of the area.
\<close>

theorem data_area_index_roundtrip:
  assumes "unat (nx_xp_data_blocks sb) \<le> 2 ^ 31" "nx_xp_data_index sb < nx_xp_data_blocks sb"
    and "index < nx_xp_data_blocks sb"
  shows "\<exists>bno. apfs_data_index_to_bno sb index = Inr bno \<and> apfs_index_in_data_area sb bno = Inr index"
  using data_area_roundtrip [OF assms] .

theorem data_area_index_roundtrip_witness:
  "\<exists>bno. apfs_data_index_to_bno \<lparr>nx_xp_data_base = 100, nx_xp_data_index = 7, nx_xp_data_blocks = 10\<rparr> 5 = Inr bno \<and>
     apfs_index_in_data_area \<lparr>nx_xp_data_base = 100, nx_xp_data_index = 7, nx_xp_data_blocks = 10\<rparr> bno = Inr 5"
  using data_area_index_roundtrip [of "\<lparr>nx_xp_data_base = 100, nx_xp_data_index = 7, nx_xp_data_blocks = 10\<rparr>" 5]
  by simp

text \<open>
  \<open>apfs_create_cpoint_map\<close> on a mapping block that is not full appends one mapping, from the
  object's id to its block number with its size, and keeps the earlier mappings.
\<close>

theorem create_cpoint_map_appends:
  assumes "int (length cpm) = bs" "bs \<le> 65536" "rd32 cpm 36 = Inr count"
    and "int count < apfs_max_maps_per_block bs" "rd64 obj 8 = Inr oid" "32 \<le> length obj"
  shows "\<exists>b. apfs_create_cpoint_map bs cpm obj bno osize = Inr b \<and> rd32 b 36 = Inr (Suc count) \<and>
    cpoint_map_at b count = Inr (oid, unat bno, unat osize) \<and>
    (\<forall>i < count. cpoint_map_at b i = cpoint_map_at cpm i)"
  using apfs_create_cpoint_map_store [OF assms, of bno osize] by metis

theorem create_cpoint_map_appends_witness:
  "\<exists>b. apfs_create_cpoint_map 120 (replicate 120 0) (replicate 32 0) 9 4096 = Inr b \<and>
     cpoint_map_at b 0 = Inr (0, 9, 4096)"
proof -
  have "int (length (replicate 120 (0 :: byte))) = 120" "(120 :: int) \<le> 65536" "32 \<le> length (replicate 32 (0 :: byte))"
    "int 0 < apfs_max_maps_per_block 120"
    by (simp_all add: apfs_max_maps_per_block_def)
  moreover have "rd32 (replicate 120 0) 36 = Inr 0" "rd64 (replicate 32 0) 8 = Inr 0"
    by code_simp+
  ultimately obtain b where "apfs_create_cpoint_map 120 (replicate 120 0) (replicate 32 0) 9 4096 = Inr b"
    "cpoint_map_at b 0 = Inr (0, unat (9 :: u64), unat (4096 :: u32))"
    using create_cpoint_map_appends by blast
  then show ?thesis by (intro exI [of _ b]) (simp only: unsigned_numeral take_bit_numeral_numeral, simp)
qed

text \<open>
  The lookup of an ephemeral object yields the first entry of the list with the wanted id, and
  fails with \<open>EFSCORRUPTED\<close> if and only if there is none.
\<close>

theorem ephemeral_lookup_correct:
  "(case apfs_ephemeral_object_lookup es oid of
      Inr i \<Rightarrow> i < length es \<and> eph_oid (es ! i) = oid \<and> oid \<notin> eph_oid ` set (take i es)
    | Inl e \<Rightarrow> e = EFSCORRUPTED \<and> oid \<notin> eph_oid ` set es)"
proof (cases "apfs_ephemeral_object_lookup es oid")
  case (Inl e)
  then have "e = EFSCORRUPTED \<and> oid \<notin> eph_oid ` set es"
    using eph_lookup_from_Inl [of 0 es oid e] by (simp add: apfs_ephemeral_object_lookup_def)
  with Inl show ?thesis by simp
next
  case (Inr i)
  then have "i < length es" "eph_oid (es ! i) = oid" "\<forall>l < i. eph_oid (es ! l) \<noteq> oid"
    using eph_lookup_from_Inr [of 0 es oid i] by (auto simp: apfs_ephemeral_object_lookup_def)
  with Inr show ?thesis by (fastforce simp: in_set_conv_nth)
qed

end
