(* ===== verification/Interfaces.thy ===== *)
theory Interfaces
  imports Prelude
begin

text \<open>
  Contracts that several components share, as locales: a container of values under keys whose
  insertions may fail for lack of room, a cache in front of a slower map, and a queue.  The components that
  provide them interpret them.
\<close>

section \<open>Stores of values under keys\<close>

text \<open>A run of updates, each of which may fail.\<close>

fun run_updates :: "('k \<Rightarrow> 'v \<Rightarrow> 's \<Rightarrow> 's option) \<Rightarrow> ('k \<times> 'v) list \<Rightarrow> 's \<Rightarrow> 's option" where
  "run_updates upd [] s = Some s"
| "run_updates upd ((k, v) # kvs) s =
     (case upd k v s of None \<Rightarrow> None | Some s' \<Rightarrow> run_updates upd kvs s')"

text \<open>
  \<open>repr v\<close> is the value that a lookup yields for a stored value \<open>v\<close> (for instance \<open>v\<close> with
  padding).
\<close>

locale keyed_store =
  fixes get :: "'s \<Rightarrow> 'k \<Rightarrow> 'w option"
    and put :: "'k \<Rightarrow> 'v \<Rightarrow> 's \<Rightarrow> 's option"
    and repr :: "'v \<Rightarrow> 'w"
    and invar :: "'s \<Rightarrow> bool"
  assumes put_invar: "invar s \<Longrightarrow> put k v s = Some s' \<Longrightarrow> invar s'"
    and get_put: "invar s \<Longrightarrow> put k v s = Some s' \<Longrightarrow> get s' = (get s)(k \<mapsto> repr v)"
begin

lemma run_invar: "invar s \<Longrightarrow> run_updates put kvs s = Some s' \<Longrightarrow> invar s'"
  by (induction kvs arbitrary: s) (auto split: option.splits, metis put_invar)

text \<open>After a run, each key has its last value.\<close>

lemma get_run:
  assumes "invar s" "run_updates put kvs s = Some s'"
  shows "get s' = get s ++ map_of (rev (map (\<lambda>(k, v). (k, repr v)) kvs))"
  using assms
proof (induction kvs arbitrary: s)
  case Nil
  then show ?case by simp
next
  case (Cons kv kvs)
  obtain k v where kv: "kv = (k, v)" by (cases kv)
  with Cons.prems obtain s1 where s1: "put k v s = Some s1" "run_updates put kvs s1 = Some s'"
    by (auto split: option.splits)
  have "get s' = get s1 ++ map_of (rev (map (\<lambda>(k, v). (k, repr v)) kvs))"
    using Cons.IH [OF put_invar [OF Cons.prems(1) s1(1)] s1(2)] .
  moreover have "get s1 = get s ++ [k \<mapsto> repr v]"
    using get_put [OF Cons.prems(1) s1(1)] by simp
  ultimately show ?case
    by (simp add: kv map_add_assoc)
qed

end

section \<open>Caches in front of a map\<close>

text \<open>
  A cache may forget entries at any time, but it never makes one up, and a deleted entry is gone.
  It is coherent with a map if each of its entries is an entry of the map.
\<close>

locale map_cache =
  fixes look :: "'c \<Rightarrow> 'k \<Rightarrow> 'v option"
    and save :: "'k \<Rightarrow> 'v \<Rightarrow> 'c \<Rightarrow> 'c"
    and del :: "'k \<Rightarrow> 'c \<Rightarrow> 'c"
    and cache_ok :: "'c \<Rightarrow> bool"
  assumes look_save: "cache_ok c \<Longrightarrow> look (save k v c) k' = Some w \<Longrightarrow> k' = k \<and> w = v \<or> k' \<noteq> k \<and> look c k' = Some w"
    and look_del_same: "cache_ok c \<Longrightarrow> look (del k c) k = None"
    and look_del: "cache_ok c \<Longrightarrow> look (del k c) k' = Some w \<Longrightarrow> look c k' = Some w"
    and ok_save: "cache_ok c \<Longrightarrow> cache_ok (save k v c)"
    and ok_del: "cache_ok c \<Longrightarrow> cache_ok (del k c)"
begin

definition coherent :: "'c \<Rightarrow> ('k \<Rightarrow> 'v option) \<Rightarrow> bool" where
  "coherent c m \<longleftrightarrow> cache_ok c \<and> (\<forall>k v. look c k = Some v \<longrightarrow> m k = Some v)"

text \<open>The entries of the map may be saved, and the cache follows the updates of the map.\<close>

lemma coherent_update:
  assumes "coherent c m"
  shows "coherent (save k v c) (m(k \<mapsto> v))"
  unfolding coherent_def
proof (intro conjI allI impI)
  have ok: "cache_ok c" using assms by (simp add: coherent_def)
  then show "cache_ok (save k v c)" by (rule ok_save)
  fix k' w
  assume "look (save k v c) k' = Some w"
  then show "(m(k \<mapsto> v)) k' = Some w"
    using look_save [OF ok, of k v k' w] assms by (auto simp: coherent_def)
qed

lemma coherent_save: "coherent c m \<Longrightarrow> m k = Some v \<Longrightarrow> coherent (save k v c) m"
  using coherent_update [of c m k v] by (simp add: fun_upd_idem)

lemma coherent_delete:
  assumes "coherent c m"
  shows "coherent (del k c) (m(k := None))"
  unfolding coherent_def
proof (intro conjI allI impI)
  have ok: "cache_ok c" using assms by (simp add: coherent_def)
  then show "cache_ok (del k c)" by (rule ok_del)
  fix k' w
  assume "look (del k c) k' = Some w"
  then show "(m(k := None)) k' = Some w"
    using look_del [OF ok, of k k' w] look_del_same [OF ok, of k] assms by (auto simp: coherent_def)
qed

text \<open>A lookup through a coherent cache, with \<open>slow\<close> as the lookup in the map behind it.\<close>

definition cached :: "('k \<Rightarrow> 'v option) \<Rightarrow> 'k \<Rightarrow> 'c \<Rightarrow> 'v option \<times> 'c" where
  "cached slow k c =
     (case look c k of
        Some v \<Rightarrow> (Some v, c)
      | None \<Rightarrow> (case slow k of Some v \<Rightarrow> (Some v, save k v c) | None \<Rightarrow> (None, c)))"

lemma cached_transparent:
  assumes "coherent c slow"
  shows "fst (cached slow k c) = slow k \<and> coherent (snd (cached slow k c)) slow"
proof (cases "look c k")
  case None
  then show ?thesis
    using assms coherent_save by (simp add: cached_def split: option.split)
next
  case (Some v)
  then show ?thesis
    using assms by (simp add: cached_def coherent_def)
qed

end

section \<open>First in, first out\<close>

text \<open>
  A queue that is never emptied: the oldest of at least two elements may be taken out.  \<open>view s\<close> is what
  no operation changes, and the elements that the queue has room for depend on it alone.
\<close>

locale fifo =
  fixes repr :: "'s \<Rightarrow> 'a list \<Rightarrow> bool"
    and view :: "'s \<Rightarrow> 'f"
    and fits :: "'f \<Rightarrow> 'a \<Rightarrow> bool"
    and enq :: "'a \<Rightarrow> 's \<Rightarrow> 's result"
    and deq :: "'s \<Rightarrow> ('a \<times> 's) result"
  assumes enq: "repr s xs \<Longrightarrow> x \<notin> set xs \<Longrightarrow> fits (view s) x \<Longrightarrow>
      \<exists>s'. enq x s = Inr s' \<and> repr s' (xs @ [x]) \<and> view s' = view s"
    and deq: "repr s (x # xs) \<Longrightarrow> xs \<noteq> [] \<Longrightarrow> \<exists>s'. deq s = Inr (x, s') \<and> repr s' xs \<and> view s' = view s"
    and nonempty: "repr s xs \<Longrightarrow> xs \<noteq> []"
begin

definition rotate :: "'a \<Rightarrow> 's \<Rightarrow> ('a \<times> 's) result" where
  "rotate x s = bind_res (enq x s) deq"

lemma rotate_repr:
  assumes "repr s xs" "x \<notin> set xs" "fits (view s) x"
  shows "\<exists>s'. rotate x s = Inr (hd xs, s') \<and> repr s' (tl xs @ [x]) \<and> view s' = view s"
proof -
  obtain s1 where s1: "enq x s = Inr s1" "repr s1 (xs @ [x])" "view s1 = view s" using enq [OF assms] by blast
  then have "repr s1 (hd xs # tl xs @ [x])" using nonempty [OF assms(1)] by (cases xs) auto
  from deq [OF this] show ?thesis using s1 by (auto simp: rotate_def)
qed

fun rotates :: "'a list \<Rightarrow> 's \<Rightarrow> ('a list \<times> 's) result" where
  "rotates [] s = Inr ([], s)"
| "rotates (x # xs) s = bind_res (rotate x s) (\<lambda>(y, s). bind_res (rotates xs s) (\<lambda>(ys, s). Inr (y # ys, s)))"

lemma rotates_repr:
  assumes "repr s xs" "distinct (xs @ os)" "\<forall>x \<in> set os. fits (view s) x"
  shows "\<exists>s'. rotates os s = Inr (take (length os) (xs @ os), s') \<and> repr s' (drop (length os) (xs @ os))"
  using assms
proof (induction os arbitrary: s xs)
  case (Cons o' os)
  obtain y ys where xs: "xs = y # ys" using nonempty [OF Cons.prems(1)] by (cases xs) auto
  obtain s1 where s1: "rotate o' s = Inr (y, s1)" "repr s1 (ys @ [o'])" "view s1 = view s"
    using rotate_repr [OF Cons.prems(1), of o'] Cons.prems xs by auto
  have "distinct ((ys @ [o']) @ os)" using Cons.prems(2) xs by auto
  from Cons.IH [OF s1(2) this] Cons.prems(3) s1(3) obtain s' where
    "rotates os s1 = Inr (take (length os) (ys @ o' # os), s')" "repr s' (drop (length os) (ys @ o' # os))"
    by auto
  then show ?case using s1(1) xs by simp
qed simp

end

end
