(* ===== verification/Xfield.thy ===== *)
theory Xfield
  imports Interfaces
begin

text \<open>
  Extended fields of inode and directory records (\<open>xfield.c\<close>).  A collection is a header with the
  number of fields and the length of their values, a table of four-byte keys (type, flags, length)
  and the values, each padded to a multiple of eight bytes.

  The lemmas give the collection as the list of its fields and show that the code implements a
  lookup and an update on that list, that it stays inside of its buffers on any input, and that it
  reports failure when the updated collection does not fit.
\<close>

abbreviation (input) sizeof_xf_blob :: int where "sizeof_xf_blob \<equiv> 4"
abbreviation (input) sizeof_x_field :: int where "sizeof_x_field \<equiv> 4"

text \<open>Offset of the key with number \<open>i\<close>: its type is at \<open>0\<close>, its flags at \<open>1\<close>, its length at \<open>2\<close>.\<close>

abbreviation xkey_off :: "nat \<Rightarrow> int" where
  "xkey_off i \<equiv> sizeof_xf_blob + int i * sizeof_x_field"

section \<open>Lookup\<close>

text \<open>The loop over the keys from number \<open>i\<close> on, \<open>n\<close> of them; \<open>rest\<close> counts the bytes not yet seen.\<close>

fun find_xfield_loop :: "buffer \<Rightarrow> int \<Rightarrow> u8 \<Rightarrow> nat \<Rightarrow> nat \<Rightarrow> int \<Rightarrow> (int \<times> int option) result" where
  "find_xfield_loop xfields len xtype i 0 rest = Inr (0, None)"
| "find_xfield_loop xfields len xtype i (Suc n) rest =
     bind_res (rd16 xfields (xkey_off i + 2)) (\<lambda>x_size.
       let xlen = round_up (int x_size) 8 in
       if xlen > rest then Inr (0, None)
       else bind_res (rd8 xfields (xkey_off i)) (\<lambda>x_type.
         if x_type = xtype then Inr (xlen, Some (len - rest))
         else find_xfield_loop xfields len xtype (Suc i) n (rest - xlen)))"

text \<open>The result is the return value and, when a field was found, the offset of its value.\<close>

definition apfs_find_xfield :: "buffer \<Rightarrow> int \<Rightarrow> u8 \<Rightarrow> (int \<times> int option) result" where
  "apfs_find_xfield xfields len xtype =
     (if len = 0 then Inr (0, None)
      else let rest = len - sizeof_xf_blob in
        if rest < 0 then Inr (0, None)
        else bind_res (rd16 xfields 0) (\<lambda>count.
          let rest = rest - int count * sizeof_x_field in
          if rest < 0 then Inr (0, None)
          else find_xfield_loop xfields len xtype 0 count rest))"

section \<open>Initialisation and update\<close>

text \<open>\<open>None\<close> is the return value \<open>-1\<close>.\<close>

definition apfs_init_xfields :: "buffer \<Rightarrow> int \<Rightarrow> buffer option result" where
  "apfs_init_xfields buf buflen =
     (if buflen < sizeof_xf_blob then Inr None
      else bind_res (store_fields buf [(0, le_field 2 0), (2, le_field 2 0)]) (\<lambda>b. Inr (Some b)))"

text \<open>The end of the update: the header is written only if the collection fits.\<close>

definition insert_xfield_done :: "buffer \<Rightarrow> int \<Rightarrow> nat \<Rightarrow> int \<Rightarrow> int \<Rightarrow> (int \<times> buffer) result" where
  "insert_xfield_done buf buflen count used_data meta_len =
     (let used_data = used_data mod 65536; total_len = used_data + meta_len in
      if total_len > buflen then Inr (0, buf)
      else bind_res (store_fields buf [(0, le_field 2 (int count)), (2, le_field 2 used_data)])
             (\<lambda>b. Inr (total_len, b)))"

text \<open>The field exists: its key is overwritten and its value resized.\<close>

definition insert_xfield_resize ::
  "buffer \<Rightarrow> int \<Rightarrow> byte list \<Rightarrow> buffer \<Rightarrow> nat \<Rightarrow> nat \<Rightarrow> int \<Rightarrow> int \<Rightarrow> int \<Rightarrow> int \<Rightarrow> (int \<times> buffer) result" where
  "insert_xfield_resize buf buflen xkey xval count i xlen curr_xlen rest used_data =
     (let padded_xlen = round_up xlen 8; meta_len = xkey_off count in
      bind_res (memcpy buf (xkey_off i) xkey) (\<lambda>b.
        if padded_xlen > rest then Inr (0, b)
        else let curr_xval = buflen - rest; rest = rest - max padded_xlen curr_xlen in
          bind_res (memmove b (curr_xval + padded_xlen) (curr_xval + curr_xlen) rest) (\<lambda>b.
          bind_res (rd_bytes xval 0 xlen) (\<lambda>v.
          bind_res (memcpy b curr_xval v) (\<lambda>b.
          bind_res (memset b (curr_xval + xlen) 0 (padded_xlen - xlen)) (\<lambda>b.
            insert_xfield_done b buflen count (used_data + padded_xlen - curr_xlen) meta_len))))))"

text \<open>The field is new: a key is put after the other keys and the value after the other values.\<close>

definition insert_xfield_new ::
  "buffer \<Rightarrow> int \<Rightarrow> byte list \<Rightarrow> buffer \<Rightarrow> nat \<Rightarrow> int \<Rightarrow> int \<Rightarrow> int \<Rightarrow> (int \<times> buffer) result" where
  "insert_xfield_new buf buflen xkey xval count xlen rest used_data =
     (let padded_xlen = round_up xlen 8; rest = rest - sizeof_x_field in
      if rest < 0 then Inr (0, buf)
      else let meta_len = xkey_off count + sizeof_x_field in
        bind_res (memmove buf (xkey_off (Suc count)) (xkey_off count) (buflen - meta_len)) (\<lambda>b.
        bind_res (memcpy b (xkey_off count) xkey) (\<lambda>b.
          if padded_xlen > rest then Inr (0, b)
          else let curr_xval = buflen - rest in
            bind_res (rd_bytes xval 0 xlen) (\<lambda>v.
            bind_res (memcpy b curr_xval v) (\<lambda>b.
            bind_res (memset b (curr_xval + xlen) 0 (padded_xlen - xlen)) (\<lambda>b.
              insert_xfield_done b buflen (Suc count) (used_data + padded_xlen) meta_len))))))"

fun insert_xfield_loop ::
  "buffer \<Rightarrow> int \<Rightarrow> byte list \<Rightarrow> buffer \<Rightarrow> nat \<Rightarrow> int \<Rightarrow> nat \<Rightarrow> nat \<Rightarrow> int \<Rightarrow> int \<Rightarrow> (int \<times> buffer) result" where
  "insert_xfield_loop buf buflen xkey xval count xlen i 0 rest used_data =
     insert_xfield_new buf buflen xkey xval count xlen rest used_data"
| "insert_xfield_loop buf buflen xkey xval count xlen i (Suc n) rest used_data =
     bind_res (rd16 buf (xkey_off i + 2)) (\<lambda>x_size.
       let curr_xlen = round_up (int x_size) 8 in
       if curr_xlen > rest then Inr (0, buf)
       else bind_res (rd8 buf (xkey_off i)) (\<lambda>x_type.
         bind_res (rd8 xkey 0) (\<lambda>new_type.
         if x_type \<noteq> new_type
         then insert_xfield_loop buf buflen xkey xval count xlen (Suc i) n (rest - curr_xlen) used_data
         else insert_xfield_resize buf buflen xkey xval count i xlen curr_xlen rest used_data)))"

text \<open>\<open>xkey\<close> is the four-byte key of the new field, \<open>xval\<close> its value.\<close>

definition apfs_insert_xfield ::
  "buffer \<Rightarrow> int \<Rightarrow> byte list \<Rightarrow> buffer \<Rightarrow> (int \<times> buffer) result" where
  "apfs_insert_xfield buf buflen xkey xval =
     bind_res (rd16 xkey 2) (\<lambda>xlen.
       if buflen = 0 then Inr (0, buf)
       else let rest = buflen - sizeof_xf_blob in
         if rest < 0 then Inr (0, buf)
         else bind_res (rd16 buf 2) (\<lambda>used_data.
           bind_res (rd16 buf 0) (\<lambda>count.
             let rest = rest - int count * sizeof_x_field in
             if rest < 0 then Inr (0, buf)
             else insert_xfield_loop buf buflen xkey xval count (int xlen) 0 count rest (int used_data))))"

section \<open>Memory safety on any input\<close>

lemma find_xfield_loop_bounds:
  assumes "xkey_off (i + n) \<le> int (length xfields)" "0 \<le> rest" "rest \<le> len"
  shows "\<exists>n' off. find_xfield_loop xfields len xtype i n rest = Inr (n', off) \<and> 0 \<le> n' \<and>
    (\<forall>o'. off = Some o' \<longrightarrow> len - rest \<le> o' \<and> o' + n' \<le> len)"
  using assms
proof (induction xfields len xtype i n rest rule: find_xfield_loop.induct)
  case (1 xfields len xtype i rest)
  then show ?case by simp
next
  case (2 xfields len xtype i n rest)
  obtain x_size where sz: "rd16 xfields (xkey_off i + 2) = Inr x_size"
    using "2.prems" rd_le_ok [of "xkey_off i + 2" 2 xfields] by auto
  obtain x_type where ty: "rd8 xfields (xkey_off i) = Inr x_type"
    using "2.prems" by (simp add: rd8_def)
  let ?xlen = "round_up (int x_size) 8"
  have pos: "0 \<le> ?xlen" using round_up_8(1) [of "int x_size"] by simp
  show ?case
  proof (cases "?xlen > rest \<or> x_type = xtype")
    case True
    then show ?thesis using sz ty pos "2.prems" by (auto simp: Let_def)
  next
    case False
    then obtain n' off where "find_xfield_loop xfields len xtype (Suc i) n (rest - ?xlen) = Inr (n', off)"
      "0 \<le> n'" "\<forall>o'. off = Some o' \<longrightarrow> len - (rest - ?xlen) \<le> o' \<and> o' + n' \<le> len"
      using "2.IH" [OF sz refl _ ty] "2.prems" pos by auto
    then show ?thesis using False sz ty pos by (auto simp: Let_def)
  qed
qed

text \<open>A lookup never reads outside of the buffer, and a value it finds lies inside of the collection.\<close>

lemma apfs_find_xfield_bounds:
  assumes "0 \<le> len" "len \<le> int (length xfields)"
  shows "\<exists>n off. apfs_find_xfield xfields len xtype = Inr (n, off) \<and> 0 \<le> n \<and>
    (\<forall>o'. off = Some o' \<longrightarrow> sizeof_xf_blob \<le> o' \<and> o' + n \<le> len)"
proof (cases "len < sizeof_xf_blob")
  case True
  then show ?thesis by (auto simp: apfs_find_xfield_def Let_def)
next
  case False
  then obtain count where count: "rd16 xfields 0 = Inr count"
    using assms rd_le_ok [of 0 2 xfields] by auto
  show ?thesis
  proof (cases "len - 4 - int count * 4 < 0")
    case True
    then show ?thesis using False count by (auto simp: apfs_find_xfield_def Let_def)
  next
    case fit: False
    then show ?thesis
      using find_xfield_loop_bounds [of 0 count xfields "len - 4 - int count * 4" len xtype] False count assms
      by (force simp: apfs_find_xfield_def Let_def)
  qed
qed

lemma insert_xfield_done_ok:
  assumes "4 \<le> buflen" "buflen \<le> int (length buf)" "0 \<le> meta_len"
  shows "\<exists>r b. insert_xfield_done buf buflen count used meta_len = Inr (r, b) \<and>
    length b = length buf \<and> 0 \<le> r \<and> r \<le> buflen"
proof -
  let ?fs = "[(0, le_field 2 (int count)), (2, le_field 2 (used mod 65536))]"
  have "fields_asc 0 ?fs 4" by simp
  then obtain b where b: "store_fields buf ?fs = Inr b"
    using assms store_fields_ok [of 0 ?fs 4 buf] by auto
  have len: "length b = length buf" using b by (rule store_fields_length)
  have u: "0 \<le> used mod 65536" by simp
  show ?thesis
  proof (cases "used mod 65536 + meta_len > buflen")
    case True
    then show ?thesis using assms by (simp add: insert_xfield_done_def Let_def)
  next
    case False
    then show ?thesis using assms b len u unfolding insert_xfield_done_def Let_def by auto
  qed
qed

lemma insert_xfield_resize_ok:
  assumes "i < count" "xkey_off count + rest \<le> buflen" "buflen \<le> int (length buf)" "length xkey = 4"
    and "0 \<le> xlen" "xlen \<le> int (length xval)" "0 \<le> curr_xlen" "curr_xlen \<le> rest"
  shows "\<exists>r b. insert_xfield_resize buf buflen xkey xval count i xlen curr_xlen rest used = Inr (r, b) \<and>
    length b = length buf \<and> 0 \<le> r \<and> r \<le> buflen"
proof -
  let ?p = "round_up xlen 8" and ?v = "buflen - rest"
  have p: "xlen \<le> ?p" "?p < xlen + 8" using round_up_8 by auto
  have i: "xkey_off i + 4 \<le> xkey_off count" using assms(1) by simp
  obtain b1 where b1: "memcpy buf (xkey_off i) xkey = Inr b1" "length b1 = length buf"
    using assms i memcpy_ok [of "xkey_off i" xkey buf] by auto
  show ?thesis
  proof (cases "?p > rest")
    case True
    with b1 assms show ?thesis by (simp add: insert_xfield_resize_def Let_def)
  next
    case False
    define m where "m = max ?p curr_xlen"
    have m: "?p \<le> m" "curr_xlen \<le> m" "m \<le> rest" using assms False by (auto simp: m_def)
    then obtain b2 where b2: "memmove b1 (?v + ?p) (?v + curr_xlen) (rest - m) = Inr b2" "length b2 = length buf"
      using assms i p False b1(2) memmove_ok [of "rest - m" "?v + ?p" b1 "?v + curr_xlen"] by auto
    obtain v where v: "rd_bytes xval 0 xlen = Inr v" "length v = nat xlen"
      using assms rd_bytes_ok [of 0 xlen xval] by auto
    obtain b3 where b3: "memcpy b2 ?v v = Inr b3" "length b3 = length buf"
      using assms i p False b2(2) v memcpy_ok [of ?v v b2] by auto
    obtain b4 where b4: "memset b3 (?v + xlen) 0 (?p - xlen) = Inr b4" "length b4 = length buf"
      using assms i p False b3(2) memset_ok [of "?p - xlen" "?v + xlen" b3 0] by auto
    have "4 \<le> buflen" using assms by simp
    then show ?thesis
      using False b1 b2 [unfolded m_def] v b3 b4 assms
        insert_xfield_done_ok [of buflen b4 "xkey_off count" count "used + ?p - curr_xlen"]
      by (simp add: insert_xfield_resize_def Let_def)
  qed
qed

lemma insert_xfield_new_ok:
  assumes "xkey_off count + rest \<le> buflen" "buflen \<le> int (length buf)" "length xkey = 4"
    and "0 \<le> xlen" "xlen \<le> int (length xval)" "0 \<le> rest"
  shows "\<exists>r b. insert_xfield_new buf buflen xkey xval count xlen rest used = Inr (r, b) \<and>
    length b = length buf \<and> 0 \<le> r \<and> r \<le> buflen"
proof (cases "rest < 4")
  case True
  with assms show ?thesis by (simp add: insert_xfield_new_def Let_def)
next
  case room: False
  let ?p = "round_up xlen 8" and ?v = "buflen - (rest - 4)" and ?m = "xkey_off count"
  have p: "xlen \<le> ?p" "?p < xlen + 8" using round_up_8 by auto
  obtain b1 where b1: "memmove buf (xkey_off (Suc count)) ?m (buflen - (?m + 4)) = Inr b1" "length b1 = length buf"
    using assms room memmove_ok [of "buflen - (?m + 4)" "xkey_off (Suc count)" buf ?m] by auto
  obtain b2 where b2: "memcpy b1 ?m xkey = Inr b2" "length b2 = length buf"
    using assms room b1(2) memcpy_ok [of ?m xkey b1] by auto
  show ?thesis
  proof (cases "?p > rest - 4")
    case True
    with room b1 b2 assms show ?thesis by (simp add: insert_xfield_new_def Let_def)
  next
    case False
    obtain v where v: "rd_bytes xval 0 xlen = Inr v" "length v = nat xlen"
      using assms rd_bytes_ok [of 0 xlen xval] by auto
    obtain b3 where b3: "memcpy b2 ?v v = Inr b3" "length b3 = length buf"
      using assms p False b2(2) v memcpy_ok [of ?v v b2] by auto
    obtain b4 where b4: "memset b3 (?v + xlen) 0 (?p - xlen) = Inr b4" "length b4 = length buf"
      using assms p False b3(2) memset_ok [of "?p - xlen" "?v + xlen" b3 0] by auto
    have "4 \<le> buflen" using assms by simp
    then show ?thesis
      using room False b1 b2 v b3 b4 assms
        insert_xfield_done_ok [of buflen b4 "?m + 4" "Suc count" "used + ?p"]
      by (simp add: insert_xfield_new_def Let_def)
  qed
qed

lemma insert_xfield_loop_ok:
  assumes "i + n = count" "xkey_off count + rest \<le> buflen" "buflen \<le> int (length buf)" "length xkey = 4"
    and "0 \<le> xlen" "xlen \<le> int (length xval)" "0 \<le> rest"
  shows "\<exists>r b. insert_xfield_loop buf buflen xkey xval count xlen i n rest used = Inr (r, b) \<and>
    length b = length buf \<and> 0 \<le> r \<and> r \<le> buflen"
  using assms
proof (induction n arbitrary: i rest)
  case 0
  then show ?case using insert_xfield_new_ok by simp
next
  case (Suc n)
  obtain x_size where sz: "rd16 buf (xkey_off i + 2) = Inr x_size"
    using Suc.prems rd_le_ok [of "xkey_off i + 2" 2 buf] by auto
  obtain x_type where ty: "rd8 buf (xkey_off i) = Inr x_type"
    using Suc.prems by (simp add: rd8_def)
  obtain new_type where nt: "rd8 xkey 0 = Inr new_type"
    using Suc.prems by (simp add: rd8_def)
  let ?xlen = "round_up (int x_size) 8"
  have pos: "0 \<le> ?xlen" using round_up_8(1) [of "int x_size"] by simp
  show ?case
  proof (cases "?xlen > rest")
    case True
    with sz Suc.prems show ?thesis by (simp add: Let_def)
  next
    case False
    then have "\<exists>r b. insert_xfield_loop buf buflen xkey xval count xlen (Suc i) n (rest - ?xlen) used = Inr (r, b) \<and>
        length b = length buf \<and> 0 \<le> r \<and> r \<le> buflen"
      using Suc.prems pos by (intro Suc.IH) auto
    moreover have "\<exists>r b. insert_xfield_resize buf buflen xkey xval count i xlen ?xlen rest used = Inr (r, b) \<and>
        length b = length buf \<and> 0 \<le> r \<and> r \<le> buflen"
      using Suc.prems pos False by (intro insert_xfield_resize_ok) auto
    ultimately show ?thesis
      using False sz ty nt by (simp add: Let_def)
  qed
qed

text \<open>An update never accesses memory outside of the buffer, whatever the buffer holds.\<close>

lemma apfs_insert_xfield_ok:
  assumes "0 \<le> buflen" "buflen \<le> int (length buf)" "length xkey = 4"
    and "rd16 xkey 2 = Inr xlen" "xlen \<le> length xval"
  shows "\<exists>r b. apfs_insert_xfield buf buflen xkey xval = Inr (r, b) \<and>
    length b = length buf \<and> 0 \<le> r \<and> r \<le> buflen"
proof (cases "buflen < 4")
  case True
  with assms show ?thesis by (auto simp: apfs_insert_xfield_def Let_def)
next
  case False
  then obtain used count where hdr: "rd16 buf 2 = Inr used" "rd16 buf 0 = Inr count"
    using assms rd_le_ok [of 2 2 buf] rd_le_ok [of 0 2 buf] by auto
  show ?thesis
  proof (cases "buflen - 4 - int count * 4 < 0")
    case True
    then show ?thesis using False hdr assms by (auto simp: apfs_insert_xfield_def Let_def)
  next
    case fit: False
    then show ?thesis
      using insert_xfield_loop_ok [of 0 count count "buflen - 4 - int count * 4" buflen buf xkey "int xlen" xval "int used"]
        False hdr assms
      by (simp add: apfs_insert_xfield_def Let_def)
  qed
qed

section \<open>Collections as lists of fields\<close>

text \<open>A field: its type, flags, length, and its value padded with zeros.\<close>

type_synonym xfield = "u8 \<times> u8 \<times> nat \<times> byte list"

fun xkey_bytes :: "xfield \<Rightarrow> byte list" where
  "xkey_bytes (t, f, s, v) = [t, f] @ le_bytes 2 s"

fun xval_bytes :: "xfield \<Rightarrow> byte list" where
  "xval_bytes (t, f, s, v) = v"

definition xf_keys :: "xfield list \<Rightarrow> byte list" where
  "xf_keys fs = concat (map xkey_bytes fs)"

definition xf_vals :: "xfield list \<Rightarrow> byte list" where
  "xf_vals fs = concat (map xval_bytes fs)"

text \<open>The collection as it is kept on disk.\<close>

definition xf_blob :: "xfield list \<Rightarrow> byte list" where
  "xf_blob fs = le_bytes 2 (length fs) @ le_bytes 2 (length (xf_vals fs)) @ xf_keys fs @ xf_vals fs"

fun wf_xfield :: "xfield \<Rightarrow> bool" where
  "wf_xfield (t, f, s, v) \<longleftrightarrow> s < 65536 \<and> int (length v) = round_up (int s) 8"

definition wf_xfields :: "xfield list \<Rightarrow> bool" where
  "wf_xfields fs \<longleftrightarrow> list_all wf_xfield fs \<and> length fs < 65536 \<and> length (xf_vals fs) < 65536"

text \<open>The specification of the operations: the first field of a type, and its update.\<close>

fun xf_find :: "xfield list \<Rightarrow> int \<Rightarrow> u8 \<Rightarrow> int \<times> int option" where
  "xf_find [] off xtype = (0, None)"
| "xf_find ((t, f, s, v) # fs) off xtype =
     (if t = xtype then (int (length v), Some off) else xf_find fs (off + int (length v)) xtype)"

fun xf_update :: "xfield list \<Rightarrow> xfield \<Rightarrow> xfield list" where
  "xf_update [] x = [x]"
| "xf_update (y # ys) x = (if fst y = fst x then x # ys else y # xf_update ys x)"

lemma xf_simps [simp]:
  "xf_keys [] = []" "xf_vals [] = []"
  "xf_keys (x # fs) = xkey_bytes x @ xf_keys fs" "xf_vals (x # fs) = xval_bytes x @ xf_vals fs"
  "xf_keys (fs @ gs) = xf_keys fs @ xf_keys gs" "xf_vals (fs @ gs) = xf_vals fs @ xf_vals gs"
  by (simp_all add: xf_keys_def xf_vals_def)

lemma length_xkey_bytes [simp]: "length (xkey_bytes x) = 4"
  by (cases x) simp

lemma length_xf_keys [simp]: "length (xf_keys fs) = 4 * length fs"
  by (induction fs) auto

lemma length_xf_blob: "length (xf_blob fs) = 4 + 4 * length fs + length (xf_vals fs)"
  by (simp add: xf_blob_def)

text \<open>The key with number \<open>length pre\<close> of a table of keys.\<close>

lemma xkey_at:
  assumes "length h = 4" "s < 65536"
  shows "rd16 (h @ xf_keys pre @ xkey_bytes (t, f, s, v) @ r) (xkey_off (length pre) + 2) = Inr s"
    and "rd8 (h @ xf_keys pre @ xkey_bytes (t, f, s, v) @ r) (xkey_off (length pre)) = Inr t"
proof -
  show "rd16 (h @ xf_keys pre @ xkey_bytes (t, f, s, v) @ r) (xkey_off (length pre) + 2) = Inr s"
    using rd_le_append [of "xkey_off (length pre) + 2" "h @ xf_keys pre @ [t, f]" 2 "le_bytes 2 s" r] assms
    by simp
  show "rd8 (h @ xf_keys pre @ xkey_bytes (t, f, s, v) @ r) (xkey_off (length pre)) = Inr t"
    using rd8_append [of "xkey_off (length pre)" "h @ xf_keys pre" t "f # le_bytes 2 s @ r"] assms
    by simp
qed

lemma find_xfield_loop_spec:
  assumes "length h = 4" "list_all wf_xfield fs" "int (length (xf_vals fs)) \<le> rest"
  shows "find_xfield_loop (h @ xf_keys pre @ xf_keys fs @ r) len xtype (length pre) (length fs) rest =
    Inr (xf_find fs (len - rest) xtype)"
  using assms
proof (induction fs arbitrary: pre rest)
  case Nil
  then show ?case by simp
next
  case (Cons x fs)
  obtain t f s v where x: "x = (t, f, s, v)" by (cases x)
  note key = xkey_at [OF Cons.prems(1), of s pre t f v "xf_keys fs @ r"]
  have s: "s < 65536" "round_up (int s) 8 = int (length v)" using Cons.prems(2) x by auto
  show ?case
  proof (cases "t = xtype")
    case True
    then show ?thesis using key s x Cons.prems by (simp add: Let_def)
  next
    case False
    have "find_xfield_loop (h @ xf_keys (pre @ [x]) @ xf_keys fs @ r) len xtype (length (pre @ [x])) (length fs)
        (rest - int (length v)) = Inr (xf_find fs (len - (rest - int (length v))) xtype)"
      using Cons.prems x by (intro Cons.IH) auto
    then show ?thesis
      using False key s x Cons.prems by (simp add: Let_def add.commute diff_diff_eq2 diff_add_eq)
  qed
qed

lemma apfs_find_xfield_spec:
  assumes "wf_xfields fs" "int (length (xf_blob fs)) \<le> len" 
  shows "apfs_find_xfield (xf_blob fs @ r) len xtype = Inr (xf_find fs (4 + 4 * int (length fs)) xtype)"
proof -
  let ?h = "le_bytes 2 (length fs) @ le_bytes 2 (length (xf_vals fs))"
  have hdr: "rd16 (xf_blob fs @ r) 0 = Inr (length fs)"
    using rd_le_append [of 0 "[]" 2 "le_bytes 2 (length fs)"] assms(1) by (simp add: xf_blob_def wf_xfields_def)
  have "find_xfield_loop (?h @ xf_keys fs @ xf_vals fs @ r) len xtype 0 (length fs)
      (len - 4 - int (length fs) * 4) = Inr (xf_find fs (len - (len - 4 - int (length fs) * 4)) xtype)"
    using assms find_xfield_loop_spec [of ?h fs "len - 4 - int (length fs) * 4" "[]" "xf_vals fs @ r" len xtype]
    by (simp add: wf_xfields_def length_xf_blob)
  then show ?thesis
    using assms(2) hdr by (simp add: apfs_find_xfield_def Let_def xf_blob_def length_xf_blob algebra_simps)
qed

lemma insert_xfield_done_spec:
  assumes "length h = 4" "used = int u" "u < 65536" "used + meta_len \<le> buflen"
  shows "insert_xfield_done (h @ r) buflen count used meta_len =
    Inr (used + meta_len, le_bytes 2 (count mod 65536) @ le_bytes 2 u @ r)"
proof -
  obtain h1 h2 where h: "h = h1 @ h2" "length h1 = 2" "length h2 = 2"
    using assms(1) by (intro that [of "take 2 h" "drop 2 h"]) auto
  have "le_field 2 (int count) = le_bytes 2 (count mod 65536)" "le_field 2 used = le_bytes 2 u"
    using assms by (simp_all add: le_field_def nat_mod_distrib)
  then show ?thesis
    using assms h memcpy_append [of 0 "[]" h1 "le_bytes 2 (count mod 65536)" "h2 @ r"]
      memcpy_append [of 2 "le_bytes 2 (count mod 65536)" h2 "le_bytes 2 u" r]
    by (simp add: insert_xfield_done_def Let_def)
qed

text \<open>The value and its padding, written one after the other.\<close>

lemma store_padded:
  assumes "off = int (length xs)" "s \<le> length xval" "s \<le> length v" "length v \<le> length zs"
    and v: "v = take s xval @ replicate (length v - s) 0"
  shows "bind_res (rd_bytes xval 0 (int s)) (\<lambda>w. bind_res (memcpy (xs @ zs) off w)
      (\<lambda>b. bind_res (memset b (off + int s) 0 (int (length v) - int s)) g)) =
    g (xs @ v @ drop (length v) zs)"
proof -
  define w where "w = take s xval"
  define z where "z = replicate (length v - s) (0 :: byte)"
  have vz: "v = w @ z" using v by (simp add: w_def z_def)
  have w: "length w = s" using assms by (simp add: w_def)
  have rd: "rd_bytes xval 0 (int s) = Inr w"
    using assms by (simp add: rd_bytes_Inr w_def)
  have "bind_res (memcpy (xs @ zs) off w) (\<lambda>b. memcpy b (off + int (length w)) z) =
      Inr (xs @ w @ z @ drop (length w + length z) zs)"
    using assms(1,4) vz by (intro memcpy_twice) auto
  then obtain b where b: "memcpy (xs @ zs) off w = Inr b"
    "memcpy b (off + int s) z = Inr (xs @ w @ z @ drop (length w + length z) zs)"
    using w by (auto simp: bind_res_eq_Inr)
  have "memset b (off + int s) 0 (int (length v) - int s) = memcpy b (off + int s) z"
    using assms(3) by (simp add: memset_def z_def nat_diff_distrib)
  then show ?thesis
    using rd b vz by simp
qed

lemma xf_update_new: "t \<notin> fst ` set fs \<Longrightarrow> xf_update fs (t, r) = fs @ [(t, r)]"
  by (induction fs) (auto split: prod.splits)

lemma xf_update_old: "t \<notin> fst ` set pre \<Longrightarrow> xf_update (pre @ (t, q) # post) (t, r) = pre @ (t, r) # post"
  by (induction pre) auto

lemma insert_xfield_new_spec:
  assumes wf: "length h = 4" "list_all wf_xfield fs" "x = (t, f, s, v)" "wf_xfield x"
    and v: "s \<le> length xval" "v = take s xval @ replicate (length v - s) 0"
    and len: "buflen = int (length (h @ xf_keys fs @ xf_vals fs @ ta))"
    and fit: "length (xf_blob (fs @ [x])) \<le> nat buflen" "length (xf_vals (fs @ [x])) < 65536" "length (fs @ [x]) < 65536"
  shows "\<exists>ta'. insert_xfield_new (h @ xf_keys fs @ xf_vals fs @ ta) buflen (xkey_bytes x) xval (length fs) (int s)
      (int (length ta)) (int (length (xf_vals fs))) =
    Inr (int (length (xf_blob (fs @ [x]))), xf_blob (fs @ [x]) @ ta')"
proof -
  let ?W = "xf_vals fs @ ta" and ?X = "h @ xf_keys fs"
  let ?l = "length ?W - 4"
  have p: "int (length v) = round_up (int s) 8" using wf by simp
  have sp: "s \<le> length v" using p round_up_8(1) [of "int s"] by simp
  have room: "4 + length v \<le> length ta"
    using fit(1) len wf(1,3) by (simp add: length_xf_blob)
  have mv: "memmove (?X @ ?W) (xkey_off (Suc (length fs))) (xkey_off (length fs)) (buflen - (xkey_off (length fs) + 4)) =
      Inr (?X @ take 4 ?W @ take ?l (drop 0 ?W) @ drop (4 + ?l) ?W)"
    using wf(1) len room by (intro memmove_append) auto
  then have mv': "memmove (h @ xf_keys fs @ xf_vals fs @ ta) (xkey_off (Suc (length fs))) (xkey_off (length fs))
      (buflen - (xkey_off (length fs) + 4)) = Inr (?X @ take 4 ?W @ take ?l ?W)"
    using room by simp
  have cp: "memcpy (?X @ take 4 ?W @ take ?l ?W) (xkey_off (length fs)) (xkey_bytes x) = Inr (?X @ xkey_bytes x @ take ?l ?W)"
    using wf(1) room by (intro memcpy_append) auto
  have W: "take ?l ?W = xf_vals fs @ take (length ta - 4) ta"
    using room by simp
  let ?Y = "?X @ xkey_bytes x @ xf_vals fs" and ?zs = "take (length ta - 4) ta"
  have off: "buflen - (int (length ta) - 4) = int (length ?Y)"
    using len wf(1) by simp
  note st = store_padded [OF off v(1) sp _ v(2), of ?zs
      "\<lambda>b. insert_xfield_done b buflen (Suc (length fs)) (int (length (xf_vals fs)) + int (length v)) (xkey_off (length fs) + 4)"]
  have "insert_xfield_new (h @ xf_keys fs @ xf_vals fs @ ta) buflen (xkey_bytes x) xval (length fs) (int s)
      (int (length ta)) (int (length (xf_vals fs))) =
    insert_xfield_done (?Y @ v @ drop (length v) ?zs) buflen
      (Suc (length fs)) (int (length (xf_vals fs)) + int (length v)) (xkey_off (length fs) + 4)"
    using room st mv' cp by (simp add: insert_xfield_new_def Let_def W p [symmetric])
  then have eq: "insert_xfield_new (h @ xf_keys fs @ xf_vals fs @ ta) buflen (xkey_bytes x) xval (length fs) (int s)
      (int (length ta)) (int (length (xf_vals fs))) = insert_xfield_done (h @ (xf_keys (fs @ [x]) @ xf_vals (fs @ [x])) @ drop (length v) ?zs)
      buflen (Suc (length fs)) (int (length (xf_vals (fs @ [x])))) (xkey_off (length fs) + 4)"
    using wf(3) by simp
  show ?thesis
    unfolding eq using wf(1,3) fit len room
    by (subst insert_xfield_done_spec [where u = "length (xf_vals (fs @ [x]))"])
      (auto simp: xf_blob_def length_xf_blob)
qed

lemma insert_xfield_resize_spec:
  assumes wf: "length h = 4" "x = (t, f, s, v)" "wf_xfield x" "y = (t, f0, s0, v0)"
    and v: "s \<le> length xval" "v = take s xval @ replicate (length v - s) 0"
    and fs: "fs = pre @ y # post" "gs = pre @ x # post"
    and len: "buflen = int (length (h @ xf_keys fs @ xf_vals fs @ ta))"
    and fit: "length (xf_blob gs) \<le> nat buflen" "length (xf_vals gs) < 65536" "length gs < 65536"
  shows "\<exists>ta'. insert_xfield_resize (h @ xf_keys fs @ xf_vals fs @ ta) buflen (xkey_bytes x) xval (length fs)
      (length pre) (int s) (int (length v0)) (int (length (v0 @ xf_vals post @ ta))) (int (length (xf_vals fs))) =
    Inr (int (length (xf_blob gs)), xf_blob gs @ ta')"
proof -
  define Y where "Y = xf_vals post @ ta"
  define X where "X = h @ xf_keys gs @ xf_vals pre"
  define p where "p = length v"
  define c where "c = length v0"
  define l where "l = length (v0 @ Y) - max p c"
  have p: "round_up (int s) 8 = int p" using wf by (simp add: p_def)
  have sp: "s \<le> length v" using p round_up_8(1) [of "int s"] by (simp add: p_def)
  have room: "p + length (xf_vals post) \<le> c + length Y"
    using fit(1) len wf fs by (simp add: length_xf_blob Y_def p_def c_def)
  have cp: "memcpy (h @ xf_keys fs @ xf_vals fs @ ta) (xkey_off (length pre)) (xkey_bytes x) = Inr (X @ v0 @ Y)"
    using memcpy_append [of "xkey_off (length pre)" "h @ xf_keys pre" "xkey_bytes y" "xkey_bytes x"
        "xf_keys post @ xf_vals fs @ ta"] wf fs
    by (simp add: X_def Y_def)
  have l: "c + l \<le> length (v0 @ Y)" "p + l \<le> length (v0 @ Y)" "length (xf_vals post) \<le> l" "l \<le> length Y"
    using room by (auto simp: l_def c_def max_def Y_def)
  have off: "buflen - int (length (v0 @ Y)) = int (length X)"
    using len wf fs by (simp add: X_def Y_def)
  define Z where "Z = take l Y @ drop (p + l) (v0 @ Y)"
  have mv: "memmove (X @ v0 @ Y) (int (length X) + int p) (int (length X) + int c) (int l) =
      Inr (X @ take p (v0 @ Y) @ Z)"
    using l memmove_append [of "int (length X) + int p" X p "int (length X) + int c" c "int l" l "v0 @ Y"]
    by (simp add: Z_def c_def)
  have len_take: "length (take p (v0 @ Y)) = p" using room by (simp add: c_def)
  have post: "Z = xf_vals post @ drop (length (xf_vals post)) Z"
    using l(3,4) by (simp add: Z_def Y_def)
  have "insert_xfield_resize (h @ xf_keys fs @ xf_vals fs @ ta) buflen (xkey_bytes x) xval (length fs)
      (length pre) (int s) (int c) (int (length (v0 @ Y))) (int (length (xf_vals fs))) =
     insert_xfield_done (X @ v @ drop p (take p (v0 @ Y) @ Z)) buflen (length fs)
       (int (length (xf_vals fs)) + int p - int c) (xkey_off (length fs))"
  proof -
    have "int (length (v0 @ Y)) - max (int p) (int c) = int l"
      using room by (auto simp: l_def c_def max_def)
    moreover have "\<not> int (length (v0 @ Y)) < int p" using room by (simp add: c_def)
    ultimately show ?thesis
      using store_padded [OF refl v(1) sp _ v(2), of "take p (v0 @ Y) @ Z" X
        "\<lambda>b. insert_xfield_done b buflen (length fs) (int (length (xf_vals fs)) + int p - int c) (xkey_off (length fs))"]
        len_take
      by (simp only: insert_xfield_resize_def Let_def cp bind_res_Inr off p mv if_False p_def [symmetric])
        (simp add: p_def)
  qed
  also have "drop p (take p (v0 @ Y) @ Z) = xf_vals post @ drop (length (xf_vals post)) Z"
    using len_take post by (simp del: take_append)
  finally show ?thesis
    using wf(1,2,4) fs fit len insert_xfield_done_spec [of h "int (length (xf_vals gs))" "length (xf_vals gs)" "xkey_off (length fs)" buflen
        "xf_keys gs @ xf_vals gs @ drop (length (xf_vals post)) Z" "length fs"]
    by (auto simp: X_def Y_def c_def p_def xf_blob_def length_xf_blob algebra_simps)
qed

lemma insert_xfield_loop_spec:
  assumes wf: "length h = 4" "list_all wf_xfield fs" "x = (t, f, s, v)" "wf_xfield x" "fs = pre @ todo"
    and v: "s \<le> length xval" "v = take s xval @ replicate (length v - s) 0"
    and pre: "t \<notin> fst ` set pre"
    and len: "buflen = int (length (h @ xf_keys fs @ xf_vals fs @ ta))"
    and fit: "length (xf_blob (xf_update fs x)) \<le> nat buflen" "length (xf_vals (xf_update fs x)) < 65536"
      "length (xf_update fs x) < 65536"
  shows "\<exists>ta'. insert_xfield_loop (h @ xf_keys fs @ xf_vals fs @ ta) buflen (xkey_bytes x) xval (length fs) (int s)
      (length pre) (length todo) (int (length (xf_vals todo @ ta))) (int (length (xf_vals fs))) =
    Inr (int (length (xf_blob (xf_update fs x))), xf_blob (xf_update fs x) @ ta')"
  using wf(5) pre
proof (induction todo arbitrary: pre)
  case Nil
  then have "xf_update fs x = fs @ [x]" using wf(3) by (simp add: xf_update_new)
  then show ?case
    using insert_xfield_new_spec [OF wf(1-4) v len] fit Nil by simp
next
  case (Cons y todo)
  obtain t0 f0 s0 v0 where y: "y = (t0, f0, s0, v0)" by (cases y)
  have s0: "s0 < 65536" "round_up (int s0) 8 = int (length v0)"
    using wf(2) Cons.prems y by auto
  note key = xkey_at [OF wf(1) s0(1), of pre t0 f0 v0 "xf_keys todo @ xf_vals fs @ ta"]
  have buf: "h @ xf_keys fs @ xf_vals fs @ ta = h @ xf_keys pre @ xkey_bytes (t0, f0, s0, v0) @ xf_keys todo @ xf_vals fs @ ta"
    using Cons.prems y by simp
  have k0: "rd8 (xkey_bytes x) 0 = Inr t" using wf(3) by (simp add: rd8_def)
  show ?case
  proof (cases "t0 = t")
    case True
    have "xf_update fs x = pre @ x # todo"
      using Cons.prems y True wf(3) by (simp add: xf_update_old)
    then show ?thesis
      using insert_xfield_resize_spec [OF wf(1,3,4) _ v Cons.prems(1) _ len, of f0 s0 v0 "xf_update fs x"]
        fit key k0 s0 True y
      by (simp add: Let_def buf del: xkey_bytes.simps)
  next
    case False
    then have "\<exists>ta'. insert_xfield_loop (h @ xf_keys fs @ xf_vals fs @ ta) buflen (xkey_bytes x) xval (length fs) (int s)
      (length (pre @ [y])) (length todo) (int (length (xf_vals todo @ ta))) (int (length (xf_vals fs))) =
      Inr (int (length (xf_blob (xf_update fs x))), xf_blob (xf_update fs x) @ ta')"
      using Cons.prems y by (intro Cons.IH) auto
    then show ?thesis
      using key k0 s0 False y by (simp add: Let_def buf del: xkey_bytes.simps)
  qed
qed

text \<open>The update of the code is the update of the list, as long as the result fits in the buffer.\<close>

lemma apfs_insert_xfield_spec:
  assumes wf: "wf_xfields fs" "x = (t, f, s, v)" "wf_xfield x"
    and v: "s \<le> length xval" "v = take s xval @ replicate (length v - s) 0"
    and fit: "length (xf_blob (xf_update fs x)) \<le> length (xf_blob fs @ ta)" "length (xf_vals (xf_update fs x)) < 65536"
      "length (xf_update fs x) < 65536"
  shows "\<exists>ta'. apfs_insert_xfield (xf_blob fs @ ta) (int (length (xf_blob fs @ ta))) (xkey_bytes x) xval =
    Inr (int (length (xf_blob (xf_update fs x))), xf_blob (xf_update fs x) @ ta')"
proof -
  let ?h = "le_bytes 2 (length fs) @ le_bytes 2 (length (xf_vals fs))" and ?B = "xf_blob fs @ ta"
  have hdr: "rd16 ?B 0 = Inr (length fs)" "rd16 ?B 2 = Inr (length (xf_vals fs))"
    using wf(1) rd_le_append [of 0 "[]" 2 "le_bytes 2 (length fs)"]
      rd_le_append [of 2 "le_bytes 2 (length fs)" 2 "le_bytes 2 (length (xf_vals fs))"]
    by (simp_all add: xf_blob_def wf_xfields_def)
  have k: "rd16 (xkey_bytes x) 2 = Inr s"
    using wf(2,3) rd_le_append [of 2 "[t, f]" 2 "le_bytes 2 s" "[]"] by simp
  have "\<exists>ta'. insert_xfield_loop ?B (int (length ?B)) (xkey_bytes x) xval (length fs) (int s)
      0 (length fs) (int (length (xf_vals fs @ ta))) (int (length (xf_vals fs))) =
    Inr (int (length (xf_blob (xf_update fs x))), xf_blob (xf_update fs x) @ ta')"
    using insert_xfield_loop_spec [of ?h fs x t f s v "[]" fs xval "int (length ?B)" ta] assms
    by (simp add: xf_blob_def wf_xfields_def)
  then show ?thesis
    using hdr k by (simp add: apfs_insert_xfield_def Let_def length_xf_blob algebra_simps)
qed

text \<open>Lookup in an updated collection.\<close>

lemma xf_find_update_same:
  "\<exists>off. xf_find (xf_update fs (t, f, s, v)) base t = (int (length v), Some off)"
  by (induction fs arbitrary: base) (auto split: prod.splits)

text \<open>The return value tells whether the update took place.\<close>

lemma insert_xfield_done_ret:
  "insert_xfield_done buf buflen count used meta_len = Inr (r, b) \<Longrightarrow> r \<noteq> 0 \<Longrightarrow> r = used mod 65536 + meta_len"
  by (auto simp: insert_xfield_done_def Let_def bind_res_eq_Inr split: if_splits)

lemma insert_xfield_resize_ret:
  "insert_xfield_resize buf buflen xkey xval count i xlen curr_xlen rest used = Inr (r, b) \<Longrightarrow> r \<noteq> 0 \<Longrightarrow>
   round_up xlen 8 \<le> rest \<and> r = (used + round_up xlen 8 - curr_xlen) mod 65536 + xkey_off count"
  by (auto simp: insert_xfield_resize_def Let_def bind_res_eq_Inr split: if_splits dest: insert_xfield_done_ret)

lemma insert_xfield_new_ret:
  "insert_xfield_new buf buflen xkey xval count xlen rest used = Inr (r, b) \<Longrightarrow> r \<noteq> 0 \<Longrightarrow>
   round_up xlen 8 \<le> rest - 4 \<and> r = (used + round_up xlen 8) mod 65536 + xkey_off count + 4"
  by (auto simp: insert_xfield_new_def Let_def bind_res_eq_Inr split: if_splits dest: insert_xfield_done_ret)

lemma insert_xfield_loop_ret:
  assumes wf: "length h = 4" "list_all wf_xfield fs" "x = (t, f, s, v)" "wf_xfield x" "fs = pre @ todo"
    and pre: "t \<notin> fst ` set pre"
    and len: "buflen = int (length (h @ xf_keys fs @ xf_vals fs @ ta))" "buflen \<le> 32768"
    and ret: "insert_xfield_loop (h @ xf_keys fs @ xf_vals fs @ ta) buflen (xkey_bytes x) xval (length fs) (int s)
      (length pre) (length todo) (int (length (xf_vals todo @ ta))) (int (length (xf_vals fs))) = Inr (r, b)" "r \<noteq> 0"
  shows "r = int (length (xf_blob (xf_update fs x))) \<and> length (xf_vals (xf_update fs x)) < 65536 \<and> length (xf_update fs x) < 65536"
  using wf(5) pre ret(1)
proof (induction todo arbitrary: pre)
  case Nil
  then have u: "xf_update fs x = fs @ [x]" using wf(3) by (simp add: xf_update_new)
  have "round_up (int s) 8 = int (length v)" using wf by simp
  with insert_xfield_new_ret [of "h @ xf_keys fs @ xf_vals fs @ ta" buflen "xkey_bytes x" xval "length fs" "int s" "int (length ta)" "int (length (xf_vals fs))" r b]
  show ?case using Nil ret(2) len wf(1,3) u by (auto simp: length_xf_blob)
next
  case (Cons y todo)
  obtain t0 f0 s0 v0 where y: "y = (t0, f0, s0, v0)" by (cases y)
  have s0: "s0 < 65536" "round_up (int s0) 8 = int (length v0)"
    using wf(2) Cons.prems y by auto
  note key = xkey_at [OF wf(1) s0(1), of pre t0 f0 v0 "xf_keys todo @ xf_vals fs @ ta"]
  have buf: "h @ xf_keys fs @ xf_vals fs @ ta = h @ xf_keys pre @ xkey_bytes (t0, f0, s0, v0) @ xf_keys todo @ xf_vals fs @ ta"
    using Cons.prems y by simp
  have k0: "rd8 (xkey_bytes x) 0 = Inr t" using wf(3) by (simp add: rd8_def)
  show ?case
  proof (cases "t0 = t")
    case True
    have u: "xf_update fs x = pre @ x # todo"
      using Cons.prems y True wf(3) by (simp add: xf_update_old)
    have "insert_xfield_resize (h @ xf_keys fs @ xf_vals fs @ ta) buflen (xkey_bytes x) xval (length fs) (length pre)
        (int s) (int (length v0)) (int (length (xf_vals (y # todo) @ ta))) (int (length (xf_vals fs))) = Inr (r, b)"
      using Cons.prems(3) key k0 s0 True y by (simp add: Let_def buf del: xkey_bytes.simps)
    note insert_xfield_resize_ret [OF this ret(2)]
    moreover have "round_up (int s) 8 = int (length v)" using wf by simp
    ultimately show ?thesis
      using len wf(1,3) u y Cons.prems(1) by (auto simp: length_xf_blob)
  next
    case False
    then show ?thesis
      using Cons.prems key k0 s0 y
      by (intro Cons.IH [of "pre @ [y]"]) (auto simp: Let_def buf simp del: xkey_bytes.simps)
  qed
qed

lemma apfs_insert_xfield_ret:
  assumes wf: "wf_xfields fs" "x = (t, f, s, v)" "wf_xfield x" and len: "length (xf_blob fs @ ta) \<le> 32768"
    and ret: "apfs_insert_xfield (xf_blob fs @ ta) (int (length (xf_blob fs @ ta))) (xkey_bytes x) xval = Inr (r, b)" "r \<noteq> 0"
  shows "r = int (length (xf_blob (xf_update fs x))) \<and> length (xf_vals (xf_update fs x)) < 65536 \<and>
    length (xf_update fs x) < 65536"
proof -
  let ?h = "le_bytes 2 (length fs) @ le_bytes 2 (length (xf_vals fs))" and ?B = "xf_blob fs @ ta"
  have hdr: "rd16 ?B 0 = Inr (length fs)" "rd16 ?B 2 = Inr (length (xf_vals fs))"
    using wf(1) rd_le_append [of 0 "[]" 2 "le_bytes 2 (length fs)"]
      rd_le_append [of 2 "le_bytes 2 (length fs)" 2 "le_bytes 2 (length (xf_vals fs))"]
    by (simp_all add: xf_blob_def wf_xfields_def)
  have k: "rd16 (xkey_bytes x) 2 = Inr s"
    using wf(2,3) rd_le_append [of 2 "[t, f]" 2 "le_bytes 2 s" "[]"] by simp
  have "insert_xfield_loop ?B (int (length ?B)) (xkey_bytes x) xval (length fs) (int s)
      0 (length fs) (int (length (xf_vals fs @ ta))) (int (length (xf_vals fs))) = Inr (r, b)"
    using ret(1) hdr k by (simp add: apfs_insert_xfield_def Let_def length_xf_blob algebra_simps)
  then show ?thesis
    using insert_xfield_loop_ret [of ?h fs x t f s v "[]" fs "int (length ?B)" ta xval r b] wf len ret(2)
    by (simp add: xf_blob_def wf_xfields_def)
qed

section \<open>A collection is a store of values under types\<close>

text \<open>The value of a type in a buffer that holds a collection, as the callers read it.\<close>

definition xf_get :: "buffer \<Rightarrow> u8 \<Rightarrow> byte list option" where
  "xf_get b xtype =
     (case apfs_find_xfield b (int (length b)) xtype of
        Inr (n, Some off) \<Rightarrow> (case rd_bytes b off n of Inr v \<Rightarrow> Some v | Inl _ \<Rightarrow> None)
      | _ \<Rightarrow> None)"

text \<open>The update of a value \<open>(flags, bytes)\<close>; the value found later is the padded one.\<close>

definition xf_pad :: "u8 \<times> byte list \<Rightarrow> byte list" where
  "xf_pad fv = snd fv @ replicate (nat (round_up (int (length (snd fv))) 8) - length (snd fv)) 0"

definition xf_put :: "u8 \<Rightarrow> u8 \<times> byte list \<Rightarrow> buffer \<Rightarrow> buffer option" where
  "xf_put xtype fv b =
     (if length (snd fv) \<ge> 65536 then None
      else case apfs_insert_xfield b (int (length b))
             ([xtype, fst fv] @ le_bytes 2 (length (snd fv))) (snd fv) of
        Inr (r, b') \<Rightarrow> if r = 0 then None else Some b'
      | Inl _ \<Rightarrow> None)"

definition xf_invar :: "buffer \<Rightarrow> bool" where
  "xf_invar b \<longleftrightarrow> (\<exists>fs ta. wf_xfields fs \<and> b = xf_blob fs @ ta) \<and> length b \<le> 32768"

fun xf_lookup :: "xfield list \<Rightarrow> u8 \<Rightarrow> byte list option" where
  "xf_lookup [] xtype = None"
| "xf_lookup ((t, f, s, v) # fs) xtype = (if t = xtype then Some v else xf_lookup fs xtype)"

lemma xf_find_lookup:
  assumes "int (length ys) = off"
  shows "(case xf_find fs off xtype of
      (n, Some o') \<Rightarrow> (case rd_bytes (ys @ xf_vals fs @ r) o' n of Inr v \<Rightarrow> Some v | Inl _ \<Rightarrow> None)
    | (n, None) \<Rightarrow> None) = xf_lookup fs xtype"
  using assms
proof (induction fs arbitrary: ys off)
  case Nil
  then show ?case by simp
next
  case (Cons x fs)
  obtain t f s v where x: "x = (t, f, s, v)" by (cases x)
  have vals: "ys @ xf_vals (x # fs) @ r = ys @ v @ xf_vals fs @ r" using x by simp
  show ?case
    unfolding vals using Cons.IH [of "ys @ v" "off + int (length v)"] Cons.prems x
    by (simp add: rd_bytes_append)
qed

lemma xf_get_blob:
  assumes "wf_xfields fs"
  shows "xf_get (xf_blob fs @ r) xtype = xf_lookup fs xtype"
proof -
  let ?h = "le_bytes 2 (length fs) @ le_bytes 2 (length (xf_vals fs)) @ xf_keys fs"
  have "apfs_find_xfield (xf_blob fs @ r) (int (length (xf_blob fs @ r))) xtype =
      Inr (xf_find fs (4 + 4 * int (length fs)) xtype)"
    using assms by (intro apfs_find_xfield_spec) auto
  then show ?thesis
    using xf_find_lookup [of ?h "4 + 4 * int (length fs)" fs r xtype]
    by (auto simp: xf_get_def xf_blob_def split: prod.splits option.splits)
qed

lemma xf_lookup_update:
  "xf_lookup (xf_update fs (t, f, s, v)) t' = (if t' = t then Some v else xf_lookup fs t')"
  by (induction fs) (auto split: prod.splits)

lemma list_all_xf_update: "list_all wf_xfield fs \<Longrightarrow> wf_xfield x \<Longrightarrow> list_all wf_xfield (xf_update fs x)"
  by (induction fs) auto

lemma xf_put_spec:
  assumes "wf_xfields fs" "length (xf_blob fs @ ta) \<le> 32768" "xf_put t fv (xf_blob fs @ ta) = Some b"
  shows "\<exists>ta'. b = xf_blob (xf_update fs (t, fst fv, length (snd fv), xf_pad fv)) @ ta' \<and>
    wf_xfields (xf_update fs (t, fst fv, length (snd fv), xf_pad fv)) \<and> length b = length (xf_blob fs @ ta)"
proof -
  let ?s = "length (snd fv)" let ?x = "(t, fst fv, ?s, xf_pad fv)" and ?B = "xf_blob fs @ ta"
  obtain r where s: "?s < 65536" and ins: "apfs_insert_xfield ?B (int (length ?B)) (xkey_bytes ?x) (snd fv) = Inr (r, b)"
    and r: "r \<noteq> 0"
    using assms(3) by (auto simp: xf_put_def split: if_splits sum.splits)
  have pad: "int (length (xf_pad fv)) = round_up (int ?s) 8"
    using round_up_8(1) [of "int ?s"] by (simp add: xf_pad_def)
  then have wfx: "wf_xfield ?x" using s by simp
  have k: "rd16 (xkey_bytes ?x) 2 = Inr ?s"
    using s rd_le_append [of 2 "[t, fst fv]" 2 "le_bytes 2 ?s" "[]"] by simp
  have bnd: "length b = length ?B" "r \<le> int (length ?B)"
    using apfs_insert_xfield_ok [of "int (length ?B)" ?B "xkey_bytes ?x" ?s "snd fv"] k ins by auto
  have ret: "r = int (length (xf_blob (xf_update fs ?x)))" "length (xf_vals (xf_update fs ?x)) < 65536"
    "length (xf_update fs ?x) < 65536"
    using apfs_insert_xfield_ret [OF assms(1) refl wfx assms(2) ins r] by auto
  have "\<exists>ta'. apfs_insert_xfield ?B (int (length ?B)) (xkey_bytes ?x) (snd fv) =
      Inr (int (length (xf_blob (xf_update fs ?x))), xf_blob (xf_update fs ?x) @ ta')"
    using assms(1) refl wfx
    by (rule apfs_insert_xfield_spec) (use pad ret bnd in \<open>auto simp: xf_pad_def\<close>)
  then show ?thesis
    using ins ret bnd assms(1) wfx list_all_xf_update by (auto simp: wf_xfields_def simp del: length_append)
qed

interpretation xf: keyed_store xf_get xf_put xf_pad xf_invar
proof
  fix s k v s'
  assume inv: "xf_invar s" and put: "xf_put k v s = Some s'"
  then obtain fs ta where fs: "wf_xfields fs" "s = xf_blob fs @ ta" "length s \<le> 32768"
    by (auto simp: xf_invar_def)
  then obtain ta' where s': "s' = xf_blob (xf_update fs (k, fst v, length (snd v), xf_pad v)) @ ta'"
    "wf_xfields (xf_update fs (k, fst v, length (snd v), xf_pad v))" "length s' = length s"
    using xf_put_spec put by blast
  then show "xf_invar s'"
    using fs(3) by (auto simp: xf_invar_def)
  show "xf_get s' = (xf_get s)(k \<mapsto> xf_pad v)"
    using s' fs by (auto simp: xf_get_blob xf_lookup_update)
qed

lemma xf_invar_init:
  assumes "apfs_init_xfields buf buflen = Inr (Some b)" "length buf \<le> 32768" "4 \<le> buflen"
    "buflen \<le> int (length buf)"
  shows "xf_invar b \<and> xf_get b = Map.empty"
proof -
  have len: "4 \<le> length buf" using assms by linarith
  obtain r where buf: "buf = take 2 buf @ take 2 (drop 2 buf) @ r" using len
    by (metis append_take_drop_id)
  have st: "store_fields buf [(0, le_field 2 0), (2, le_field 2 0)] = Inr b"
    using assms unfolding apfs_init_xfields_def by (auto simp: bind_res_eq_Inr simp del: store_fields.simps)
  have "b = xf_blob [] @ r"
  proof -
    have "store_fields (take 2 buf @ take 2 (drop 2 buf) @ r) [(0, le_field 2 0), (2, le_field 2 0)] =
        Inr (le_bytes 2 0 @ le_bytes 2 0 @ r)"
      using len memcpy_append [of 0 "[]" "take 2 buf" "le_bytes 2 0" "take 2 (drop 2 buf) @ r"]
        memcpy_append [of 2 "le_bytes 2 0" "take 2 (drop 2 buf)" "le_bytes 2 0" r]
      by (simp add: le_field_def)
    then show ?thesis using st buf by (simp add: xf_blob_def del: store_fields.simps)
  qed
  moreover have "length b = length buf"
    using st by (rule store_fields_length)
  moreover have wf: "wf_xfields []"
    by (simp add: wf_xfields_def)
  ultimately show ?thesis
    using assms(2) xf_get_blob [OF wf, of r] unfolding xf_invar_def
    by (intro conjI exI [of _ "[]"] exI [of _ r]) (simp_all add: fun_eq_iff)
qed

section \<open>Properties\<close>

text \<open>
  \<open>apfs_find_xfield\<close> is memory safe on arbitrary bytes: it reads nothing outside of the
  collection, and the value it finds lies inside of it.
\<close>

theorem find_xfield_memory_safe:
  assumes "0 \<le> len" "len \<le> int (length xfields)"
  shows "\<exists>n off. apfs_find_xfield xfields len xtype = Inr (n, off) \<and> 0 \<le> n \<and>
    (\<forall>o'. off = Some o' \<longrightarrow> 4 \<le> o' \<and> o' + n \<le> len)"
  using apfs_find_xfield_bounds [OF assms] .

theorem find_xfield_memory_safe_witness:
  "\<exists>n off. apfs_find_xfield [255, 255, 255, 255, 8, 0, 255, 255] 8 8 = Inr (n, off) \<and> 0 \<le> n \<and>
    (\<forall>o'. off = Some o' \<longrightarrow> 4 \<le> o' \<and> o' + n \<le> 8)"
  using find_xfield_memory_safe [of 8 "[255, 255, 255, 255, 8, 0, 255, 255]" 8] by simp

text \<open>
  \<open>apfs_insert_xfield\<close> is memory safe on arbitrary bytes: it neither reads nor writes outside
  of the buffer, and the length it returns does not exceed the buffer.
\<close>

theorem insert_xfield_memory_safe:
  assumes "0 \<le> buflen" "buflen \<le> int (length buf)" "length xkey = 4"
    and "rd16 xkey 2 = Inr xlen" "xlen \<le> length xval"
  shows "\<exists>r b. apfs_insert_xfield buf buflen xkey xval = Inr (r, b) \<and>
    length b = length buf \<and> 0 \<le> r \<and> r \<le> buflen"
  using apfs_insert_xfield_ok [OF assms] .

theorem insert_xfield_memory_safe_witness:
  "\<exists>r b. apfs_insert_xfield [255, 255, 255, 255, 8, 0, 255, 255] 8 [8, 0, 2, 0] [1, 2] = Inr (r, b) \<and>
    0 \<le> r \<and> r \<le> 8"
proof -
  have "rd16 [8, 0, 2, 0 :: byte] 2 = Inr 2"
    by (simp add: rd_le_def rd_bytes_def)
  then show ?thesis
    using insert_xfield_memory_safe [of 8 "[255, 255, 255, 255, 8, 0, 255, 255]" "[8, 0, 2, 0]" 2 "[1, 2]"] by auto
qed

text \<open>
  (C4) On a well-formed collection with enough room, \<open>apfs_insert_xfield\<close> implements the update of
  the list of fields: the first field of the type is replaced, or a new one is added at the end, with
  its value padded by zeroes to a multiple of eight bytes, and the new length is returned.
\<close>

theorem insert_xfield_refines_update:
  assumes "wf_xfields fs" "x = (t, f, s, v)" "wf_xfield x"
    and "s \<le> length xval" "v = take s xval @ replicate (length v - s) 0"
    and "length (xf_blob (xf_update fs x)) \<le> length (xf_blob fs @ ta)" "length (xf_vals (xf_update fs x)) < 65536"
      "length (xf_update fs x) < 65536"
  shows "\<exists>ta'. apfs_insert_xfield (xf_blob fs @ ta) (int (length (xf_blob fs @ ta))) (xkey_bytes x) xval =
    Inr (int (length (xf_blob (xf_update fs x))), xf_blob (xf_update fs x) @ ta')"
  using apfs_insert_xfield_spec [OF assms] .

theorem insert_xfield_refines_update_witness:
  "\<exists>ta'. apfs_insert_xfield (xf_blob [] @ replicate 20 0) 24 [4, 0, 2, 0] [1, 2] =
     Inr (16, xf_blob [(4, 0, 2, [1, 2, 0, 0, 0, 0, 0, 0])] @ ta')"
proof -
  let ?v = "[1, 2] @ replicate 6 0 :: byte list" let ?x = "(4, 0, 2, ?v) :: xfield"
  have "?v = [1, 2, 0, 0, 0, 0, 0, 0]" by (simp add: numeral_eq_Suc)
  moreover have "le_bytes 2 2 = [2, 0]" by (simp add: numeral_2_eq_2)
  moreover have "wf_xfields []" "wf_xfield ?x" by (simp_all add: wf_xfields_def round_up_def)
  then have "\<exists>ta'. apfs_insert_xfield (xf_blob [] @ replicate 20 0) (int (length (xf_blob [] @ replicate 20 (0 :: byte))))
      (xkey_bytes ?x) [1, 2] = Inr (int (length (xf_blob (xf_update [] ?x))), xf_blob (xf_update [] ?x) @ ta')"
    by (intro insert_xfield_refines_update [of _ _ 4 0 2 ?v]) (simp_all add: xf_blob_def numeral_2_eq_2)
  ultimately show ?thesis
    by (simp add: xf_blob_def)
qed

text \<open>
  (C5) Extended fields behave as a map: after a run of successful insertions into a well-formed
  collection of at most 32 KiB, the collection is well-formed, and every lookup yields the last value
  inserted for its type, or the value that was there before.
\<close>

theorem xfields_last_insertion_found:
  assumes "xf_invar b" "run_updates xf_put kvs b = Some b'"
  shows "xf_invar b' \<and> xf_get b' = xf_get b ++ map_of (rev (map (\<lambda>(k, v). (k, xf_pad v)) kvs))"
  using xf.run_invar [OF assms] xf.get_run [OF assms] by blast

theorem xfields_last_insertion_found_witness:
  "\<exists>b'. run_updates xf_put [(4, (0, [1, 2]))] (xf_blob [] @ replicate 20 0) = Some b' \<and>
     xf_get b' 4 = Some ([1, 2] @ replicate 6 0)"
proof -
  let ?v = "[1, 2] @ replicate 6 0 :: byte list" let ?x = "(4, 0, 2, ?v) :: xfield" and ?b = "xf_blob [] @ replicate 20 (0 :: byte)"
  have wf: "wf_xfields []" "wf_xfield ?x" by (simp_all add: wf_xfields_def round_up_def)
  have inv: "xf_invar ?b"
    unfolding xf_invar_def by (intro conjI exI [of _ "[]"] exI [of _ "replicate 20 0"]) (simp_all add: wf xf_blob_def)
  have "\<exists>ta'. apfs_insert_xfield ?b (int (length ?b)) (xkey_bytes ?x) [1, 2] =
      Inr (int (length (xf_blob (xf_update [] ?x))), xf_blob (xf_update [] ?x) @ ta')"
    using wf by (intro apfs_insert_xfield_spec [of _ _ 4 0 2 ?v]) (simp_all add: xf_blob_def numeral_2_eq_2)
  then obtain ta' where "apfs_insert_xfield ?b (int (length ?b)) (xkey_bytes ?x) [1, 2] = Inr (16, xf_blob [?x] @ ta')"
    by (auto simp: xf_blob_def)
  then have put: "run_updates xf_put [(4, (0, [1, 2]))] ?b = Some (xf_blob [?x] @ ta')"
    by (simp add: xf_put_def numeral_2_eq_2)
  have "xf_pad (0, [1, 2]) = ?v" by (simp add: xf_pad_def round_up_def)
  then show ?thesis
    using put xfields_last_insertion_found [OF inv put] by simp
qed

end
