(* ===== verification/Zbitmap.thy ===== *)
theory Zbitmap
  imports Prelude
begin

text \<open>
  The decoder of LZBITMAP data (\<open>libzbitmap.c\<close>).  A stream is a magic number and a list of chunks, each with
  its length and the length of its decoded bytes.  A compressed chunk is a sequence of bitmaps: each of their
  bits stands for one decoded byte, which is either the next literal byte of the chunk or a copy of the byte
  that was decoded \<open>period\<close> bytes before.

  Pointers into the source and into the destination are offsets.  All of the numbers are far from the limits of
  their types, apart from the repetition count and the period, which are kept in 16 bits.
\<close>

section \<open>State\<close>

text \<open>Pointers to a half-byte and to a bit.\<close>

record nybl_ptr =
  n_addr :: int
  n_high :: bool

record bit_ptr =
  bp_addr :: int
  bp_offset :: nat

record zbm_bmap =
  zb_bitmap :: nat
  zb_period_bytecnt :: nat

record zbm_state =
  z_has_dest :: bool
  z_out :: buffer
  z_dest :: int
  z_dest_left :: int
  z_written :: int
  z_period :: nat
  z_src_end :: int
  z_len :: int
  z_decmp_len :: int
  z_src :: int
  z_src_left :: int
  z_prewritten :: int
  z_data :: int
  z_meta_1 :: int
  z_meta_2 :: int
  z_meta_3 :: nybl_ptr
  z_bitmaps :: "zbm_bmap list"

definition ZBM_MAGIC :: "byte list" where "ZBM_MAGIC = [0x5a, 0x42, 0x4d, 0x09]"

abbreviation (input) ZBM_MAX_DECMP_CHUNK_SIZE :: int where "ZBM_MAX_DECMP_CHUNK_SIZE \<equiv> 0x8000"
abbreviation (input) ZBM_BITMAP_COUNT :: nat where "ZBM_BITMAP_COUNT \<equiv> 12"
abbreviation (input) ZBM_BITMAP_BYTECNT :: int where "ZBM_BITMAP_BYTECNT \<equiv> 17"
abbreviation (input) ZBM_MAX_PERIOD_BYTECNT :: nat where "ZBM_MAX_PERIOD_BYTECNT \<equiv> 2"
abbreviation (input) sizeof_zbm_chunk_hdr :: int where "sizeof_zbm_chunk_hdr \<equiv> 6"
abbreviation (input) sizeof_zbm_cmp_chunk_hdr :: int where "sizeof_zbm_cmp_chunk_hdr \<equiv> 15"

section \<open>Operations\<close>

definition zbm_check_magic :: "buffer \<Rightarrow> zbm_state \<Rightarrow> zbm_state result" where
  "zbm_check_magic src st =
     (if z_src_left st < 4 then Inl EINVAL
      else bind_res (rd_bytes src (z_src st) 4) (\<lambda>magic.
        if magic \<noteq> ZBM_MAGIC then Inl EINVAL
        else Inr (st\<lparr>z_src := z_src st + 4, z_src_left := z_src_left st - 4\<rparr>)))"

definition zbm_u24_to_u32 :: "buffer \<Rightarrow> int \<Rightarrow> int result" where
  "zbm_u24_to_u32 src off = bind_res (rd_le 3 src off) (\<lambda>n. Inr (int n))"

definition zbm_chunk_is_uncompressed :: "zbm_state \<Rightarrow> bool" where
  "zbm_chunk_is_uncompressed st \<longleftrightarrow> z_len st = z_decmp_len st + sizeof_zbm_chunk_hdr"

definition zbm_handle_uncompressed_chunk :: "buffer \<Rightarrow> zbm_state \<Rightarrow> zbm_state result" where
  "zbm_handle_uncompressed_chunk src st =
     (let data = z_src st + sizeof_zbm_chunk_hdr in
      bind_res (rd_bytes src data (z_decmp_len st)) (\<lambda>bytes.
      bind_res (memcpy (z_out st) (z_dest st) bytes) (\<lambda>out.
      Inr (st\<lparr>z_data := data, z_out := out, z_dest := z_dest st + z_decmp_len st,
             z_dest_left := z_dest_left st - z_decmp_len st, z_written := z_decmp_len st\<rparr>))))"

definition zbm_read_nibble :: "buffer \<Rightarrow> nybl_ptr \<Rightarrow> int \<Rightarrow> (nat \<times> nybl_ptr) result" where
  "zbm_read_nibble src nybl limit =
     (if n_addr nybl \<ge> limit then Inl EINVAL
      else bind_res (rd8 src (n_addr nybl)) (\<lambda>b.
        if \<not> n_high nybl then Inr (unat (b AND 0xf), nybl\<lparr>n_high := True\<rparr>)
        else Inr (unat (drop_bit 4 b AND 0xf), \<lparr>n_addr = n_addr nybl + 1, n_high = False\<rparr>)))"

definition zbm_rewind_nibble :: "nybl_ptr \<Rightarrow> nybl_ptr" where
  "zbm_rewind_nibble nybl =
     (if \<not> n_high nybl then \<lparr>n_addr = n_addr nybl - 1, n_high = True\<rparr> else nybl\<lparr>n_high := False\<rparr>)"

text \<open>The loop that reads the bytes of the period.\<close>

fun read_period :: "buffer \<Rightarrow> nat \<Rightarrow> nat \<Rightarrow> zbm_state \<Rightarrow> zbm_state result" where
  "read_period src i 0 st = Inr st"
| "read_period src i (Suc n) st =
     (if z_meta_1 st \<ge> z_src_end st then Inl EINVAL
      else bind_res (rd8 src (z_meta_1 st)) (\<lambda>b.
        read_period src (Suc i) n (st\<lparr>z_period := (z_period st OR push_bit (i * 8) (unat b)) mod 65536,
          z_meta_1 := z_meta_1 st + 1\<rparr>)))"

text \<open>The next decoded byte, and the loop over the bits of the bitmap.\<close>

definition next_byte :: "buffer \<Rightarrow> bool \<Rightarrow> zbm_state \<Rightarrow> (byte \<times> zbm_state) result" where
  "next_byte src literal st =
     (if literal then
        if z_data st \<ge> z_src_end st then Inl EINVAL
        else bind_res (rd8 src (z_data st)) (\<lambda>b. Inr (b, st\<lparr>z_data := z_data st + 1\<rparr>))
      else if z_prewritten st + z_written st < int (z_period st) then Inl EINVAL
      else bind_res (rd8 (z_out st) (z_dest st - int (z_period st))) (\<lambda>b. Inr (b, st)))"

fun apply_bits :: "buffer \<Rightarrow> nat \<Rightarrow> nat list \<Rightarrow> zbm_state \<Rightarrow> zbm_state result" where
  "apply_bits src bitmap [] st = Inr st"
| "apply_bits src bitmap (i # is) st =
     (if z_written st = z_decmp_len st then Inr st
      else bind_res (next_byte src (bit bitmap i) st) (\<lambda>(b, st).
        bind_res (memcpy (z_out st) (z_dest st) [b]) (\<lambda>out.
        apply_bits src bitmap is (st\<lparr>z_out := out, z_dest := z_dest st + 1, z_dest_left := z_dest_left st - 1,
          z_written := z_written st + 1\<rparr>))))"

definition zbm_apply_bitmap :: "buffer \<Rightarrow> zbm_bmap \<Rightarrow> zbm_state \<Rightarrow> zbm_state result" where
  "zbm_apply_bitmap src bitmap st =
     bind_res (if zb_period_bytecnt bitmap \<noteq> 0
               then read_period src 0 (zb_period_bytecnt bitmap) (st\<lparr>z_period := 0\<rparr>) else Inr st) (\<lambda>st.
     if z_period st = 0 then Inl EINVAL else apply_bits src (zb_bitmap bitmap) [0..<8] st)"

definition zbm_apply_bitmap_number :: "buffer \<Rightarrow> nat \<Rightarrow> zbm_state \<Rightarrow> zbm_state result" where
  "zbm_apply_bitmap_number src bmp_num st =
     (if bmp_num = 0xf then Inl EINVAL
      else if bmp_num > ZBM_MAX_PERIOD_BYTECNT then
        if bmp_num - 3 < length (z_bitmaps st) then zbm_apply_bitmap src (z_bitmaps st ! (bmp_num - 3)) st else Inl UB
      else if z_meta_2 st \<ge> z_src_end st then Inl EINVAL
      else bind_res (rd8 src (z_meta_2 st)) (\<lambda>b.
        zbm_apply_bitmap src \<lparr>zb_bitmap = unat b, zb_period_bytecnt = bmp_num\<rparr> (st\<lparr>z_meta_2 := z_meta_2 st + 1\<rparr>)))"

text \<open>The loop over the half-bytes of a repetition count.\<close>

definition nybl_left :: "int \<Rightarrow> nybl_ptr \<Rightarrow> nat" where
  "nybl_left limit nybl = nat (2 * (limit - n_addr nybl) - (if n_high nybl then 1 else 0))"

lemma read_nibble_left: "zbm_read_nibble src nybl limit = Inr (x, nybl') \<Longrightarrow> nybl_left limit nybl' < nybl_left limit nybl"
  by (cases "n_high nybl") (auto simp: zbm_read_nibble_def nybl_left_def bind_res_eq_Inr split: if_splits)

function count_loop :: "buffer \<Rightarrow> int \<Rightarrow> nat \<Rightarrow> nybl_ptr \<Rightarrow> (nat \<times> nybl_ptr) result" where
  "count_loop src limit cnt nybl =
     bind_res (zbm_read_nibble src nybl limit) (\<lambda>(nibble, nybl).
     let cnt = (cnt + nibble) mod 65536 in
     if cnt < nibble then Inl EINVAL
     else if nibble = 0xf then count_loop src limit cnt nybl else Inr (cnt, nybl))"
  by pat_completeness auto
termination
  by (relation "measure (\<lambda>(src, limit, cnt, nybl). nybl_left limit nybl)") (auto dest: read_nibble_left)

declare count_loop.simps [simp del]

definition zbm_read_repetition_count :: "buffer \<Rightarrow> zbm_state \<Rightarrow> (nat \<times> zbm_state) result" where
  "zbm_read_repetition_count src st =
     (if z_decmp_len st - z_written st \<le> 8 then Inr (1, st)
      else bind_res (zbm_read_nibble src (z_meta_3 st) (z_src_end st)) (\<lambda>(nibble, nybl).
        if nibble \<noteq> 0xf then Inr (1, st\<lparr>z_meta_3 := zbm_rewind_nibble nybl\<rparr>)
        else bind_res (count_loop src (z_src_end st) 4 nybl) (\<lambda>(cnt, nybl).
          Inr (cnt, st\<lparr>z_meta_3 := nybl\<rparr>))))"

fun repeat_bitmap :: "buffer \<Rightarrow> nat \<Rightarrow> nat \<Rightarrow> zbm_state \<Rightarrow> zbm_state result" where
  "repeat_bitmap src bmp_num 0 st = Inr st"
| "repeat_bitmap src bmp_num (Suc n) st = bind_res (zbm_apply_bitmap_number src bmp_num st) (repeat_bitmap src bmp_num n)"

definition zbm_decompress_single_bitmap :: "buffer \<Rightarrow> zbm_state \<Rightarrow> zbm_state result" where
  "zbm_decompress_single_bitmap src st =
     bind_res (zbm_read_nibble src (z_meta_3 st) (z_src_end st)) (\<lambda>(bmp_num, nybl).
     bind_res (zbm_read_repetition_count src (st\<lparr>z_meta_3 := nybl\<rparr>)) (\<lambda>(repeat, st).
     repeat_bitmap src bmp_num repeat st))"

text \<open>What the operations on a chunk keep, and that they make progress.\<close>

definition same_chunk :: "zbm_state \<Rightarrow> zbm_state \<Rightarrow> bool" where
  "same_chunk st' st \<longleftrightarrow> z_has_dest st' = z_has_dest st \<and> z_src_end st' = z_src_end st \<and> z_len st' = z_len st \<and>
     z_decmp_len st' = z_decmp_len st \<and> z_src st' = z_src st \<and> z_src_left st' = z_src_left st \<and>
     z_prewritten st' = z_prewritten st \<and> z_bitmaps st' = z_bitmaps st"

lemma same_chunk_refl [simp]: "same_chunk st st"
  by (simp add: same_chunk_def)

lemma same_chunk_trans: "same_chunk st2 st1 \<Longrightarrow> same_chunk st1 st \<Longrightarrow> same_chunk st2 st"
  by (simp add: same_chunk_def)

lemma read_period_same: "read_period src i n st = Inr st' \<Longrightarrow> same_chunk st' st \<and> z_written st' = z_written st"
  by (induction src i n st rule: read_period.induct) (auto simp: bind_res_eq_Inr same_chunk_def split: if_splits)

lemma next_byte_same: "next_byte src literal st = Inr (b, st') \<Longrightarrow> same_chunk st' st \<and> z_written st' = z_written st"
  by (auto simp: next_byte_def bind_res_eq_Inr same_chunk_def split: if_splits)

lemma apply_bits_same:
  "apply_bits src bitmap is st = Inr st' \<Longrightarrow> same_chunk st' st \<and> z_written st \<le> z_written st'"
proof (induction src bitmap "is" st rule: apply_bits.induct)
  case (2 src bitmap i "is" st)
  show ?case
  proof (cases "z_written st = z_decmp_len st")
    case False
    then obtain b st1 out where b: "next_byte src (bit bitmap i) st = Inr (b, st1)" "memcpy (z_out st1) (z_dest st1) [b] = Inr out"
      and rec: "apply_bits src bitmap is (st1\<lparr>z_out := out, z_dest := z_dest st1 + 1, z_dest_left := z_dest_left st1 - 1,
          z_written := z_written st1 + 1\<rparr>) = Inr st'"
      using 2(2) by (auto simp: bind_res_eq_Inr)
    show ?thesis using 2(1) [OF False b(1) refl b(2) rec] next_byte_same [OF b(1)] by (auto simp: same_chunk_def)
  qed (use 2 in simp)
qed simp

lemma apply_bits_progress:
  assumes "apply_bits src bitmap (i # is) st = Inr st'" "z_written st < z_decmp_len st"
  shows "z_written st < z_written st'"
  using assms apply_bits_same next_byte_same by (fastforce simp: bind_res_eq_Inr)

lemma apply_bitmap_same:
  assumes "zbm_apply_bitmap src bitmap st = Inr st'"
  shows "same_chunk st' st" "z_written st \<le> z_written st'" "z_written st < z_decmp_len st \<Longrightarrow> z_written st < z_written st'"
proof -
  obtain st1 where st1: "same_chunk st1 st" "z_written st1 = z_written st" and run: "apply_bits src (zb_bitmap bitmap) [0..<8] st1 = Inr st'"
  proof (cases "zb_period_bytecnt bitmap = 0")
    case True
    then show thesis using that [of st] assms by (auto simp: zbm_apply_bitmap_def split: if_splits)
  next
    case False
    then obtain st1 where st1: "read_period src 0 (zb_period_bytecnt bitmap) (st\<lparr>z_period := 0\<rparr>) = Inr st1"
        "apply_bits src (zb_bitmap bitmap) [0..<8] st1 = Inr st'"
      using assms by (auto simp: zbm_apply_bitmap_def bind_res_eq_Inr split: if_splits)
    show thesis using that [OF _ _ st1(2)] read_period_same [OF st1(1)] by (simp add: same_chunk_def)
  qed
  have u: "[0..<8 :: nat] = 0 # [1..<8]" by (simp add: upt_conv_Cons)
  show "same_chunk st' st" "z_written st \<le> z_written st'" using apply_bits_same [OF run] st1 same_chunk_trans by auto
  show "z_written st < z_written st'" if "z_written st < z_decmp_len st"
    using apply_bits_progress [OF run [unfolded u]] that st1 by (simp add: same_chunk_def)
qed

lemma apply_number_same:
  assumes "zbm_apply_bitmap_number src n st = Inr st'"
  shows "same_chunk st' st" "z_written st \<le> z_written st'" "z_written st < z_decmp_len st \<Longrightarrow> z_written st < z_written st'"
proof -
  obtain bm st1 where "same_chunk st1 st" "z_written st1 = z_written st" "zbm_apply_bitmap src bm st1 = Inr st'"
  proof (cases "n > 2")
    case True
    then show thesis using that [of st "z_bitmaps st ! (n - 3)"] assms by (auto simp: zbm_apply_bitmap_number_def split: if_splits)
  next
    case False
    then obtain b :: byte where b: "zbm_apply_bitmap src \<lparr>zb_bitmap = unat b, zb_period_bytecnt = n\<rparr> (st\<lparr>z_meta_2 := z_meta_2 st + 1\<rparr>) = Inr st'"
      using assms by (auto simp: zbm_apply_bitmap_number_def bind_res_eq_Inr split: if_splits)
    show thesis by (rule that [OF _ _ b]) (simp_all add: same_chunk_def)
  qed
  note * = this apply_bitmap_same [OF this(3)]
  show "same_chunk st' st" "z_written st \<le> z_written st'" "z_written st < z_decmp_len st \<Longrightarrow> z_written st < z_written st'"
    using * same_chunk_trans by (auto simp: same_chunk_def)
qed

lemma repeat_same:
  "repeat_bitmap src n k st = Inr st' \<Longrightarrow>
    same_chunk st' st \<and> z_written st \<le> z_written st' \<and> (0 < k \<and> z_written st < z_decmp_len st \<longrightarrow> z_written st < z_written st')"
proof (induction k arbitrary: st)
  case (Suc k)
  then obtain st1 where st1: "zbm_apply_bitmap_number src n st = Inr st1" "repeat_bitmap src n k st1 = Inr st'"
    by (auto simp: bind_res_eq_Inr)
  show ?case using Suc.IH [OF st1(2)] apply_number_same [OF st1(1)] same_chunk_trans by auto
qed simp

lemma count_loop_pos: "count_loop src limit cnt nybl = Inr (c, nybl') \<Longrightarrow> 0 < cnt \<Longrightarrow> cnt < 65536 \<Longrightarrow> 0 < c"
proof (induction src limit cnt nybl rule: count_loop.induct)
  case (1 src limit cnt nybl)
  obtain x nybl1 where x: "zbm_read_nibble src nybl limit = Inr (x, nybl1)"
    using 1(2) by (subst (asm) count_loop.simps) (auto simp: bind_res_eq_Inr)
  let ?c = "(cnt + x) mod 65536"
  have run: "(if ?c < x then Inl EINVAL else if x = 15 then count_loop src limit ?c nybl1 else Inr (?c, nybl1)) = Inr (c, nybl')"
    using 1(2) x by (subst (asm) count_loop.simps) (simp add: Let_def)
  have "0 < ?c" if "\<not> ?c < x"
  proof (cases "x = 0")
    case True
    then show ?thesis using 1(3,4) by simp
  qed (use that in auto)
  then show ?case using run 1(1) [OF x refl refl] by (auto split: if_splits)
qed

lemma repetition_count_same:
  "zbm_read_repetition_count src st = Inr (k, st') \<Longrightarrow> same_chunk st' st \<and> z_written st' = z_written st \<and> 0 < k"
  using count_loop_pos [of src "z_src_end st" 4]
  by (auto simp: zbm_read_repetition_count_def bind_res_eq_Inr same_chunk_def split: if_splits)

lemma single_bitmap_progress:
  assumes "zbm_decompress_single_bitmap src st = Inr st'"
  shows "same_chunk st' st" "z_written st < z_decmp_len st \<Longrightarrow> z_written st < z_written st'"
proof -
  obtain n nybl k st1 where st1: "zbm_read_repetition_count src (st\<lparr>z_meta_3 := nybl\<rparr>) = Inr (k, st1)" "repeat_bitmap src n k st1 = Inr st'"
    using assms by (auto simp: zbm_decompress_single_bitmap_def bind_res_eq_Inr)
  note * = repetition_count_same [OF st1(1)] repeat_same [OF st1(2)]
  show "same_chunk st' st" "z_written st < z_decmp_len st \<Longrightarrow> z_written st < z_written st'"
    using * by (auto simp: same_chunk_def)
qed

text \<open>The loop over the bitmaps of a chunk.\<close>

function decompress_bitmaps :: "buffer \<Rightarrow> zbm_state \<Rightarrow> zbm_state result" where
  "decompress_bitmaps src st =
     (if z_written st < z_decmp_len st
      then bind_res (zbm_decompress_single_bitmap src st) (decompress_bitmaps src) else Inr st)"
  by pat_completeness auto
termination
proof (relation "measure (\<lambda>(src, st). nat (z_decmp_len st - z_written st))", goal_cases)
  case (2 src st st')
  then show ?case using single_bitmap_progress [OF 2(2)] by (auto simp: same_chunk_def)
qed simp

declare decompress_bitmaps.simps [simp del]

definition zbm_read_single_bit :: "buffer \<Rightarrow> bit_ptr \<Rightarrow> (nat \<times> bit_ptr) result" where
  "zbm_read_single_bit src ptr =
     bind_res (rd8 src (bp_addr ptr)) (\<lambda>b.
     let res = of_bool (bit b (bp_offset ptr)); offset = bp_offset ptr + 1 in
     if offset \<noteq> 8 then Inr (res, ptr\<lparr>bp_offset := offset\<rparr>)
     else Inr (res, \<lparr>bp_addr = bp_addr ptr + 1, bp_offset = 0\<rparr>))"

text \<open>The loops that read the bits of a number, from its bit \<open>i\<close> on.\<close>

fun read_bits :: "buffer \<Rightarrow> int \<Rightarrow> nat \<Rightarrow> nat \<Rightarrow> nat \<Rightarrow> bit_ptr \<Rightarrow> (nat \<times> bit_ptr) result" where
  "read_bits src limit i 0 res ptr = Inr (res, ptr)"
| "read_bits src limit i (Suc n) res ptr =
     (if bp_addr ptr \<ge> limit then Inl EINVAL
      else bind_res (zbm_read_single_bit src ptr) (\<lambda>(b, ptr).
        read_bits src limit (Suc i) n (res OR push_bit i b) ptr))"

definition zbm_read_single_bitmap :: "buffer \<Rightarrow> bit_ptr \<Rightarrow> int \<Rightarrow> (zbm_bmap \<times> bit_ptr) result" where
  "zbm_read_single_bitmap src ptr limit =
     bind_res (read_bits src limit 0 8 0 ptr) (\<lambda>(bitmap, ptr).
     bind_res (read_bits src limit 0 2 0 ptr) (\<lambda>(bytecnt, ptr).
     Inr (\<lparr>zb_bitmap = bitmap, zb_period_bytecnt = bytecnt\<rparr>, ptr)))"

fun read_bitmaps_loop :: "buffer \<Rightarrow> int \<Rightarrow> nat \<Rightarrow> bit_ptr \<Rightarrow> zbm_bmap list result" where
  "read_bitmaps_loop src limit 0 ptr = Inr []"
| "read_bitmaps_loop src limit (Suc n) ptr =
     bind_res (zbm_read_single_bitmap src ptr limit) (\<lambda>(bm, ptr).
     if zb_period_bytecnt bm > ZBM_MAX_PERIOD_BYTECNT then Inl EINVAL
     else bind_res (read_bitmaps_loop src limit n ptr) (\<lambda>bms. Inr (bm # bms)))"

definition zbm_read_bitmaps :: "buffer \<Rightarrow> zbm_state \<Rightarrow> zbm_state result" where
  "zbm_read_bitmaps src st =
     (if z_len st < ZBM_BITMAP_BYTECNT then Inl EINVAL
      else bind_res (read_bitmaps_loop src (z_src_end st) ZBM_BITMAP_COUNT
          \<lparr>bp_addr = z_src_end st - ZBM_BITMAP_BYTECNT, bp_offset = 0\<rparr>) (\<lambda>bms.
        Inr (st\<lparr>z_bitmaps := bms\<rparr>)))"

definition zbm_handle_compressed_chunk :: "buffer \<Rightarrow> zbm_state \<Rightarrow> zbm_state result" where
  "zbm_handle_compressed_chunk src st =
     (let st = st\<lparr>z_written := 0, z_period := 8\<rparr> in
      if z_len st < sizeof_zbm_cmp_chunk_hdr then Inl EINVAL
      else
        bind_res (zbm_u24_to_u32 src (z_src st + 6)) (\<lambda>meta_off_1.
        bind_res (zbm_u24_to_u32 src (z_src st + 9)) (\<lambda>meta_off_2.
        bind_res (zbm_u24_to_u32 src (z_src st + 12)) (\<lambda>meta_off_3.
        if meta_off_1 \<ge> z_len st \<or> meta_off_2 \<ge> z_len st \<or> meta_off_3 \<ge> z_len st then Inl EINVAL
        else
          bind_res (zbm_read_bitmaps src (st\<lparr>z_data := z_src st + sizeof_zbm_cmp_chunk_hdr,
            z_meta_1 := z_src st + meta_off_1, z_meta_2 := z_src st + meta_off_2,
            z_meta_3 := \<lparr>n_addr = z_src st + meta_off_3, n_high = False\<rparr>\<rparr>))
          (decompress_bitmaps src)))))"

definition zbm_handle_chunk :: "buffer \<Rightarrow> zbm_state \<Rightarrow> zbm_state result" where
  "zbm_handle_chunk src st =
     (if z_src_left st < sizeof_zbm_chunk_hdr then Inl EINVAL
      else bind_res (zbm_u24_to_u32 src (z_src st)) (\<lambda>len.
        if len > z_src_left st then Inl EINVAL
        else bind_res (zbm_u24_to_u32 src (z_src st + 3)) (\<lambda>decmp_len.
          if decmp_len > ZBM_MAX_DECMP_CHUNK_SIZE then Inl EINVAL
          else
            let st = st\<lparr>z_len := len, z_src_end := z_src st + len, z_decmp_len := decmp_len\<rparr> in
            if \<not> z_has_dest st then Inr st
            else if decmp_len > z_dest_left st then Inl ERANGE
            else if zbm_chunk_is_uncompressed st then zbm_handle_uncompressed_chunk src st
            else zbm_handle_compressed_chunk src st)))"

text \<open>The loop over the chunks; \<open>None\<close> stands for a loop that does not end.\<close>

partial_function (option) decompress_chunks :: "buffer \<Rightarrow> zbm_state \<Rightarrow> zbm_state result option" where
  "decompress_chunks src st =
     (case zbm_handle_chunk src st of
        Inl e \<Rightarrow> Some (Inl e)
      | Inr st \<Rightarrow>
          let st = st\<lparr>z_src := z_src st + z_len st, z_src_left := z_src_left st - z_len st,
                z_prewritten := z_prewritten st + z_decmp_len st\<rparr>
          in if z_decmp_len st \<noteq> 0 then decompress_chunks src st else Some (Inr st))"

text \<open>
  \<open>zbm_decompress\<close> with the destination buffer, or \<open>None\<close> when the caller only wants the length: the new
  contents of the destination and the length.
\<close>

definition zbm_init :: "buffer option \<Rightarrow> buffer \<Rightarrow> zbm_state" where
  "zbm_init dest src =
     \<lparr>z_has_dest = (dest \<noteq> None), z_out = (case dest of None \<Rightarrow> [] | Some b \<Rightarrow> b), z_dest = 0,
      z_dest_left = (case dest of None \<Rightarrow> 0 | Some b \<Rightarrow> int (length b)), z_written = 0, z_period = 0,
      z_src_end = 0, z_len = 0, z_decmp_len = 0, z_src = 0, z_src_left = int (length src), z_prewritten = 0,
      z_data = 0, z_meta_1 = 0, z_meta_2 = 0, z_meta_3 = \<lparr>n_addr = 0, n_high = False\<rparr>, z_bitmaps = []\<rparr>"

definition zbm_decompress :: "buffer option \<Rightarrow> buffer \<Rightarrow> (buffer \<times> int) result option" where
  "zbm_decompress dest src =
     (case zbm_check_magic src (zbm_init dest src) of
        Inl e \<Rightarrow> Some (Inl e)
      | Inr st \<Rightarrow> map_option (\<lambda>r. bind_res r (\<lambda>st. Inr (z_out st, z_prewritten st))) (decompress_chunks src st))"

section \<open>Memory safety\<close>

text \<open>
  The invariant while a chunk is decoded, for a destination of \<open>n\<close> bytes: the destination has room for the
  rest of the chunk, and the current position follows the bytes decoded so far.
\<close>

definition chunk_inv :: "buffer \<Rightarrow> nat \<Rightarrow> zbm_state \<Rightarrow> bool" where
  "chunk_inv src n st \<longleftrightarrow> length (z_out st) = n \<and> 0 \<le> z_prewritten st \<and> 0 \<le> z_written st \<and> z_written st \<le> z_decmp_len st \<and>
     z_dest st = z_prewritten st + z_written st \<and> z_prewritten st + z_decmp_len st \<le> int n \<and>
     z_dest_left st = int n - z_dest st \<and> z_src_end st \<le> int (length src) \<and> 0 \<le> z_data st \<and> 0 \<le> z_meta_1 st \<and>
     0 \<le> z_meta_2 st \<and> 0 \<le> n_addr (z_meta_3 st) \<and> length (z_bitmaps st) = 12"

lemma rd8_keeps: "0 \<le> off \<Longrightarrow> off < int (length b) \<Longrightarrow> keeps (\<lambda>_. True) (rd8 b off)"
  by (simp add: rd8_def)

lemma read_nibble_keeps:
  assumes "0 \<le> n_addr nybl" "limit \<le> int (length src)"
  shows "keeps (\<lambda>(x, nybl'). x < 16 \<and> 0 \<le> n_addr nybl' \<and> zbm_rewind_nibble nybl' = nybl) (zbm_read_nibble src nybl limit)"
proof -
  have "unat (b AND 15) < 16" for b :: byte
    using word_and_le1 [of b 15] by (simp add: word_le_nat_alt)
  then show ?thesis
    using assms by (cases nybl) (auto simp: zbm_read_nibble_def zbm_rewind_nibble_def rd8_def)
qed

lemma read_period_keeps: "chunk_inv src n st \<Longrightarrow> keeps (chunk_inv src n) (read_period src i k st)"
proof (induction src i k st rule: read_period.induct)
  case (2 src i k st)
  then show ?case
    by (auto simp: chunk_inv_def intro!: keeps_bind [OF rd8_keeps])
qed simp

lemma next_byte_keeps:
  assumes "chunk_inv src n st" "z_written st < z_decmp_len st" "0 < z_period st"
  shows "keeps (\<lambda>(b, st'). chunk_inv src n st' \<and> z_period st' = z_period st) (next_byte src literal st)"
proof (cases literal)
  case True
  then show ?thesis using assms
    by (auto simp: next_byte_def chunk_inv_def intro!: keeps_bind [OF rd8_keeps])
next
  case False
  have "z_dest st < int (length (z_out st))" using assms(1,2) by (auto simp: chunk_inv_def)
  moreover have "z_dest st - int (z_period st) < z_dest st" using assms(3) by simp
  ultimately show ?thesis using False assms
    by (auto simp: next_byte_def chunk_inv_def intro!: keeps_bind [OF rd8_keeps])
qed

lemma apply_bits_keeps:
  assumes "chunk_inv src n st" "0 < z_period st"
  shows "keeps (chunk_inv src n) (apply_bits src bitmap is st)"
  using assms
proof (induction "is" arbitrary: st)
  case (Cons i "is")
  show ?case
  proof (cases "z_written st = z_decmp_len st")
    case False
    then have lt: "z_written st < z_decmp_len st" using Cons.prems(1) by (auto simp: chunk_inv_def)
    have "keeps (chunk_inv src n) (bind_res (memcpy (z_out st1) (z_dest st1) [b]) (\<lambda>out.
        apply_bits src bitmap is (st1\<lparr>z_out := out, z_dest := z_dest st1 + 1, z_dest_left := z_dest_left st1 - 1,
          z_written := z_written st1 + 1\<rparr>)))"
      if nb: "next_byte src (bit bitmap i) st = Inr (b, st1)" and inv: "chunk_inv src n st1" "z_period st1 = z_period st" for b st1
    proof -
      have lt1: "z_written st1 < z_decmp_len st1" using lt next_byte_same [OF nb] by (simp add: same_chunk_def)
      then obtain out where out: "memcpy (z_out st1) (z_dest st1) [b] = Inr out" "length out = length (z_out st1)"
        using inv(1) memcpy_ok [of "z_dest st1" "[b]" "z_out st1"] by (auto simp: chunk_inv_def)
      have "chunk_inv src n (st1\<lparr>z_out := out, z_dest := z_dest st1 + 1, z_dest_left := z_dest_left st1 - 1, z_written := z_written st1 + 1\<rparr>)"
        using inv(1) lt1 out(2) by (simp add: chunk_inv_def)
      then show ?thesis using Cons.IH out(1) inv(2) Cons.prems(2) by simp
    qed
    then show ?thesis
      using False by (simp, intro keeps_bind [OF next_byte_keeps [OF Cons.prems(1) lt Cons.prems(2)]]) auto
  qed (use Cons.prems in simp)
qed simp

lemma apply_bitmap_keeps:
  assumes "chunk_inv src n st"
  shows "keeps (chunk_inv src n) (zbm_apply_bitmap src bitmap st)"
proof -
  have "chunk_inv src n (st\<lparr>z_period := 0\<rparr>)" using assms by (simp add: chunk_inv_def)
  then have "keeps (chunk_inv src n) (if zb_period_bytecnt bitmap \<noteq> 0
      then read_period src 0 (zb_period_bytecnt bitmap) (st\<lparr>z_period := 0\<rparr>) else Inr st)"
    using assms read_period_keeps by simp
  then show ?thesis
    unfolding zbm_apply_bitmap_def by (rule keeps_bind) (simp add: apply_bits_keeps)
qed

lemma apply_number_keeps:
  assumes "chunk_inv src n st" "bmp_num < 16"
  shows "keeps (chunk_inv src n) (zbm_apply_bitmap_number src bmp_num st)"
proof -
  have "chunk_inv src n (st\<lparr>z_meta_2 := z_meta_2 st + 1\<rparr>)" using assms(1) by (simp add: chunk_inv_def)
  moreover have "bmp_num - 3 < length (z_bitmaps st)" if "bmp_num \<noteq> 15" using assms that by (simp add: chunk_inv_def)
  ultimately show ?thesis
    using assms by (auto simp: zbm_apply_bitmap_number_def chunk_inv_def apply_bitmap_keeps intro!: keeps_bind [OF rd8_keeps] apply_bitmap_keeps)
qed

lemma repeat_keeps: "chunk_inv src n st \<Longrightarrow> bmp_num < 16 \<Longrightarrow> keeps (chunk_inv src n) (repeat_bitmap src bmp_num k st)"
  by (induction k arbitrary: st) (auto intro: keeps_bind [OF apply_number_keeps])

lemma count_loop_keeps:
  "0 \<le> n_addr nybl \<Longrightarrow> limit \<le> int (length src) \<Longrightarrow> keeps (\<lambda>(c, nybl'). 0 \<le> n_addr nybl') (count_loop src limit cnt nybl)"
proof (induction src limit cnt nybl rule: count_loop.induct)
  case (1 src limit cnt nybl)
  show ?case
    by (subst count_loop.simps, rule keeps_bind [OF read_nibble_keeps [OF 1(2,3)]])
      (use 1(1,3) in \<open>auto simp: Let_def\<close>)
qed

lemma repetition_count_keeps:
  assumes "chunk_inv src n st"
  shows "keeps (\<lambda>(k, st'). chunk_inv src n st') (zbm_read_repetition_count src st)"
proof -
  have b: "0 \<le> n_addr (z_meta_3 st)" "z_src_end st \<le> int (length src)" using assms by (simp_all add: chunk_inv_def)
  have "keeps (\<lambda>(k, st'). chunk_inv src n st') (bind_res (count_loop src (z_src_end st) 4 nybl) (\<lambda>(cnt, nybl). Inr (cnt, st\<lparr>z_meta_3 := nybl\<rparr>)))"
    if "0 \<le> n_addr nybl" for nybl
    by (rule keeps_bind [OF count_loop_keeps [OF that b(2)]]) (use assms in \<open>auto simp: chunk_inv_def\<close>)
  then show ?thesis
    unfolding zbm_read_repetition_count_def using assms b
    by (auto simp: chunk_inv_def intro!: keeps_bind [OF read_nibble_keeps])
qed

lemma single_bitmap_keeps:
  assumes "chunk_inv src n st"
  shows "keeps (chunk_inv src n) (zbm_decompress_single_bitmap src st)"
proof -
  have b: "0 \<le> n_addr (z_meta_3 st)" "z_src_end st \<le> int (length src)" using assms by (simp_all add: chunk_inv_def)
  show ?thesis
    unfolding zbm_decompress_single_bitmap_def
  proof (rule keeps_bind [OF read_nibble_keeps [OF b]], clarify, goal_cases)
    case (1 num nybl)
    then have "chunk_inv src n (st\<lparr>z_meta_3 := nybl\<rparr>)" using assms by (simp add: chunk_inv_def)
    then show ?case by (rule keeps_bind [OF repetition_count_keeps]) (use 1 in \<open>auto intro: repeat_keeps\<close>)
  qed
qed

lemma decompress_bitmaps_keeps:
  "chunk_inv src n st \<Longrightarrow> keeps (\<lambda>st'. chunk_inv src n st' \<and> same_chunk st' st \<and> z_written st' = z_decmp_len st') (decompress_bitmaps src st)"
proof (induction src st rule: decompress_bitmaps.induct)
  case (1 src st)
  show ?case
  proof (cases "z_written st < z_decmp_len st")
    case True
    have "keeps (\<lambda>st'. chunk_inv src n st' \<and> same_chunk st' st \<and> z_written st' = z_decmp_len st')
        (bind_res (zbm_decompress_single_bitmap src st) (decompress_bitmaps src))"
    proof (rule keeps_bind [OF single_bitmap_keeps [OF 1(2)]])
      fix st1
      assume st1: "zbm_decompress_single_bitmap src st = Inr st1" "chunk_inv src n st1"
      then show "keeps (\<lambda>st'. chunk_inv src n st' \<and> same_chunk st' st \<and> z_written st' = z_decmp_len st') (decompress_bitmaps src st1)"
        using 1(1) [OF True st1] single_bitmap_progress(1) [OF st1(1)] same_chunk_trans
        by (cases "decompress_bitmaps src st1") auto
    qed
    then show ?thesis using True by (simp add: decompress_bitmaps.simps)
  next
    case False
    then show ?thesis using 1(2) by (simp add: decompress_bitmaps.simps chunk_inv_def)
  qed
qed

lemma read_bits_keeps:
  assumes "0 \<le> bp_addr ptr" "limit \<le> int (length src)"
  shows "keeps (\<lambda>(x, ptr'). 0 \<le> bp_addr ptr') (read_bits src limit i k res ptr)"
  using assms
proof (induction src limit i k res ptr rule: read_bits.induct)
  case (2 src limit i k res ptr)
  show ?case
  proof (cases "bp_addr ptr \<ge> limit")
    case False
    then have "keeps (\<lambda>(b, ptr'). 0 \<le> bp_addr ptr') (zbm_read_single_bit src ptr)"
      using 2(2,3) by (auto simp: zbm_read_single_bit_def Let_def intro!: keeps_bind [OF rd8_keeps])
    then have "keeps (\<lambda>(x, ptr'). 0 \<le> bp_addr ptr') (bind_res (zbm_read_single_bit src ptr) (\<lambda>(b, ptr).
        read_bits src limit (Suc i) k (res OR push_bit i b) ptr))"
      by (rule keeps_bind) (use False 2(1,3) in auto)
    then show ?thesis using False by simp
  qed simp
qed simp

lemma read_single_bitmap_keeps:
  assumes "0 \<le> bp_addr ptr" "limit \<le> int (length src)"
  shows "keeps (\<lambda>(bm, ptr'). 0 \<le> bp_addr ptr') (zbm_read_single_bitmap src ptr limit)"
  unfolding zbm_read_single_bitmap_def
proof (rule keeps_bind [OF read_bits_keeps [OF assms]], clarify)
  fix x and ptr1 :: bit_ptr
  assume "0 \<le> bp_addr ptr1"
  then show "keeps (\<lambda>(bm, ptr'). 0 \<le> bp_addr ptr') (bind_res (read_bits src limit 0 2 0 ptr1) (\<lambda>(c, ptr).
      Inr (\<lparr>zb_bitmap = x, zb_period_bytecnt = c\<rparr>, ptr)))"
    by (intro keeps_bind [OF read_bits_keeps [OF _ assms(2)]]) auto
qed

lemma read_bitmaps_keeps:
  assumes "0 \<le> bp_addr ptr" "limit \<le> int (length src)"
  shows "keeps (\<lambda>bms. length bms = k) (read_bitmaps_loop src limit k ptr)"
  using assms
proof (induction k arbitrary: ptr)
  case (Suc k)
  show ?case
    unfolding read_bitmaps_loop.simps
  proof (rule keeps_bind [OF read_single_bitmap_keeps [OF Suc.prems]], clarify)
    fix bm and ptr1 :: bit_ptr
    assume "0 \<le> bp_addr ptr1"
    then show "keeps (\<lambda>bms. length bms = Suc k) (if zb_period_bytecnt bm > 2 then Inl EINVAL
        else bind_res (read_bitmaps_loop src limit k ptr1) (\<lambda>bms. Inr (bm # bms)))"
      by (auto intro: keeps_bind [OF Suc.IH [OF _ Suc.prems(2)]])
  qed
qed simp

text \<open>The invariant between two chunks.\<close>

definition stream_inv :: "buffer \<Rightarrow> nat \<Rightarrow> zbm_state \<Rightarrow> bool" where
  "stream_inv src n st \<longleftrightarrow> z_has_dest st \<and> length (z_out st) = n \<and> 0 \<le> z_prewritten st \<and> z_prewritten st \<le> int n \<and>
     z_dest st = z_prewritten st \<and> z_dest_left st = int n - z_dest st \<and> 0 \<le> z_src st \<and> 0 \<le> z_src_left st \<and>
     z_src st + z_src_left st = int (length src)"

text \<open>What a chunk leaves behind: its bytes are decoded and its length is positive.\<close>

definition chunk_done :: "buffer \<Rightarrow> nat \<Rightarrow> zbm_state \<Rightarrow> zbm_state \<Rightarrow> bool" where
  "chunk_done src n st st' \<longleftrightarrow> z_has_dest st' \<and> length (z_out st') = n \<and> z_prewritten st' = z_prewritten st \<and> z_src st' = z_src st \<and>
     z_src_left st' = z_src_left st \<and> 0 < z_len st' \<and> z_len st' \<le> z_src_left st \<and> 0 \<le> z_decmp_len st' \<and>
     z_dest st' = z_prewritten st + z_decmp_len st' \<and> z_dest st' \<le> int n \<and> z_dest_left st' = int n - z_dest st'"

lemma u24_ok: "0 \<le> off \<Longrightarrow> off + 3 \<le> int (length src) \<Longrightarrow> \<exists>x \<ge> 0. zbm_u24_to_u32 src off = Inr x"
  using rd_le_ok [of off 3 src] by (auto simp: zbm_u24_to_u32_def)

lemma compressed_chunk_keeps:
  assumes "stream_inv src n st" "z_len st \<le> z_src_left st" "0 \<le> z_decmp_len st" "z_decmp_len st \<le> z_dest_left st"
    "z_src_end st = z_src st + z_len st"
  shows "keeps (chunk_done src n st) (zbm_handle_compressed_chunk src st)"
proof (cases "z_len st < 15")
  case True
  then show ?thesis by (simp add: zbm_handle_compressed_chunk_def)
next
  case False
  have u24: "\<exists>x \<ge> 0. zbm_u24_to_u32 src (z_src st + off) = Inr x" if "0 \<le> off" "off \<le> 12" for off
    using that False assms(1,2) by (intro u24_ok) (auto simp: stream_inv_def)
  obtain m1 m2 m3 where m: "zbm_u24_to_u32 src (z_src st + 6) = Inr m1" "zbm_u24_to_u32 src (z_src st + 9) = Inr m2"
      "zbm_u24_to_u32 src (z_src st + 12) = Inr m3" "0 \<le> m1" "0 \<le> m2" "0 \<le> m3"
    using u24 [of 6] u24 [of 9] u24 [of 12] by auto
  let ?st = "st\<lparr>z_written := 0, z_period := 8, z_data := z_src st + 15, z_meta_1 := z_src st + m1, z_meta_2 := z_src st + m2,
      z_meta_3 := \<lparr>n_addr = z_src st + m3, n_high = False\<rparr>\<rparr>"
  have "keeps (chunk_done src n st) (bind_res (zbm_read_bitmaps src ?st) (decompress_bitmaps src))"
  proof (cases "z_len st < 17")
    case True
    then show ?thesis by (simp add: zbm_read_bitmaps_def)
  next
    case False
    have "0 \<le> z_src st + z_len st - 17" "z_src_end st \<le> int (length src)" using False assms(1,2,5) by (auto simp: stream_inv_def)
    then have "keeps (\<lambda>bms. length bms = 12) (read_bitmaps_loop src (z_src_end st) 12 \<lparr>bp_addr = z_src_end st - 17, bp_offset = 0\<rparr>)"
      using assms(5) by (intro read_bitmaps_keeps) simp_all
    moreover have "keeps (chunk_done src n st) (decompress_bitmaps src (?st\<lparr>z_bitmaps := bms\<rparr>))" if "length bms = 12" for bms
    proof -
      have "chunk_inv src n (?st\<lparr>z_bitmaps := bms\<rparr>)" using that assms m(4-6) by (auto simp: chunk_inv_def stream_inv_def)
      from decompress_bitmaps_keeps [OF this] show ?thesis
        using assms False by (cases "decompress_bitmaps src (?st\<lparr>z_bitmaps := bms\<rparr>)")
          (auto simp: chunk_done_def chunk_inv_def same_chunk_def stream_inv_def)
    qed
    ultimately show ?thesis
      using False by (cases "read_bitmaps_loop src (z_src_end st) 12 \<lparr>bp_addr = z_src_end st - 17, bp_offset = 0\<rparr>")
        (simp_all add: zbm_read_bitmaps_def)
  qed
  then show ?thesis using False m(1-3) by (simp add: zbm_handle_compressed_chunk_def Let_def)
qed

lemma uncompressed_chunk_keeps:
  assumes "stream_inv src n st" "z_len st \<le> z_src_left st" "0 \<le> z_decmp_len st" "z_decmp_len st \<le> z_dest_left st"
    "z_len st = z_decmp_len st + 6"
  shows "keeps (chunk_done src n st) (zbm_handle_uncompressed_chunk src st)"
proof -
  obtain bytes where bytes: "rd_bytes src (z_src st + 6) (z_decmp_len st) = Inr bytes" "length bytes = nat (z_decmp_len st)"
    using rd_bytes_ok [of "z_src st + 6" "z_decmp_len st" src] assms by (auto simp: stream_inv_def)
  obtain out where "memcpy (z_out st) (z_dest st) bytes = Inr out" "length out = length (z_out st)"
    using memcpy_ok [of "z_dest st" bytes "z_out st"] bytes(2) assms by (auto simp: stream_inv_def)
  then show ?thesis
    using bytes assms by (simp add: zbm_handle_uncompressed_chunk_def chunk_done_def stream_inv_def)
qed

lemma handle_chunk_keeps:
  assumes "stream_inv src n st"
  shows "keeps (chunk_done src n st) (zbm_handle_chunk src st)"
proof (cases "z_src_left st < 6")
  case True
  then show ?thesis by (simp add: zbm_handle_chunk_def)
next
  case False
  have u24: "\<exists>x \<ge> 0. zbm_u24_to_u32 src (z_src st + off) = Inr x" if "0 \<le> off" "off \<le> 3" for off
    using that False assms by (intro u24_ok) (auto simp: stream_inv_def)
  obtain len d where ld: "zbm_u24_to_u32 src (z_src st) = Inr len" "zbm_u24_to_u32 src (z_src st + 3) = Inr d" "0 \<le> len" "0 \<le> d"
    using u24 [of 0] u24 [of 3] by auto
  let ?st = "st\<lparr>z_len := len, z_src_end := z_src st + len, z_decmp_len := d\<rparr>"
  have inv: "stream_inv src n ?st" using assms by (simp add: stream_inv_def)
  have d: "chunk_done src n ?st = chunk_done src n st" by (rule ext) (simp add: chunk_done_def)
  show ?thesis
    using False ld assms compressed_chunk_keeps [OF inv, unfolded d] uncompressed_chunk_keeps [OF inv, unfolded d]
    by (auto simp: zbm_handle_chunk_def Let_def zbm_chunk_is_uncompressed_def stream_inv_def)
qed

lemma decompress_chunks_total:
  assumes "stream_inv src n st"
  shows "\<exists>r. decompress_chunks src st = Some r \<and> keeps (stream_inv src n) r"
  using assms
proof (induction "nat (z_src_left st)" arbitrary: st rule: less_induct)
  case less
  show ?case
  proof (cases "zbm_handle_chunk src st")
    case (Inl e)
    then show ?thesis using handle_chunk_keeps [OF less.prems] by (simp add: decompress_chunks.simps)
  next
    case (Inr st1)
    let ?st = "st1\<lparr>z_src := z_src st1 + z_len st1, z_src_left := z_src_left st1 - z_len st1,
        z_prewritten := z_prewritten st1 + z_decmp_len st1\<rparr>"
    have d: "chunk_done src n st st1" using handle_chunk_keeps [OF less.prems] Inr by simp
    then have inv: "stream_inv src n ?st" "nat (z_src_left ?st) < nat (z_src_left st)"
      using less.prems by (auto simp: chunk_done_def stream_inv_def)
    have "decompress_chunks src st = (if z_decmp_len st1 \<noteq> 0 then decompress_chunks src ?st else Some (Inr ?st))"
      using Inr by (simp add: decompress_chunks.simps [of src st] Let_def)
    then show ?thesis using less.hyps [OF inv(2,1)] inv(1) by (cases "z_decmp_len st1 = 0") simp_all
  qed
qed

lemma zbm_decompress_total:
  "\<exists>r. zbm_decompress (Some dest) src = Some r \<and> r \<noteq> Inl UB \<and>
     (\<forall>out len. r = Inr (out, len) \<longrightarrow> length out = length dest \<and> 0 \<le> len \<and> len \<le> int (length dest))"
proof (cases "zbm_check_magic src (zbm_init (Some dest) src)")
  case (Inl e)
  then have "e \<noteq> UB"
    using rd_bytes_ok [of 0 4 src] by (auto simp: zbm_check_magic_def zbm_init_def bind_res_eq_Inl split: if_splits)
  then show ?thesis using Inl by (simp add: zbm_decompress_def)
next
  case (Inr st)
  then have "stream_inv src (length dest) st"
    by (auto simp: zbm_check_magic_def zbm_init_def bind_res_eq_Inr stream_inv_def split: if_splits)
  from decompress_chunks_total [OF this] obtain r where r: "decompress_chunks src st = Some r" "keeps (stream_inv src (length dest)) r" by blast
  then show ?thesis using Inr by (cases r) (auto simp: zbm_decompress_def stream_inv_def)
qed

section \<open>Properties\<close>

text \<open>
  (C20) The decoder always returns on any input, reads and writes only inside of its two buffers, and the length
  that it reports is at most the size of the destination.
\<close>

theorem zbm_decompress_memory_safe:
  "\<exists>r. zbm_decompress (Some dest) src = Some r \<and> r \<noteq> Inl UB \<and>
     (\<forall>out len. r = Inr (out, len) \<longrightarrow> length out = length dest \<and> 0 \<le> len \<and> len \<le> int (length dest))"
  by (rule zbm_decompress_total)

theorem zbm_decompress_memory_safe_witness:
  "\<exists>r. zbm_decompress (Some [0, 0]) (ZBM_MAGIC @ [7, 0, 0, 1, 0, 0, 5, 6, 0, 0, 0, 0, 0]) = Some r \<and> r \<noteq> Inl UB \<and>
     (\<forall>out len. r = Inr (out, len) \<longrightarrow> length out = 2 \<and> 0 \<le> len \<and> len \<le> 2)"
  using zbm_decompress_memory_safe [of "[0, 0]" "ZBM_MAGIC @ [7, 0, 0, 1, 0, 0, 5, 6, 0, 0, 0, 0, 0]"] by (simp add: eval_nat_numeral)

text \<open>The encoding without compression: chunks that store their bytes.\<close>

definition stored_chunk :: "byte list \<Rightarrow> byte list" where
  "stored_chunk d = le_field 3 (int (length d) + 6) @ le_field 3 (int (length d)) @ d"

definition zbm_stored :: "byte list list \<Rightarrow> byte list" where
  "zbm_stored chunks = ZBM_MAGIC @ concat (map stored_chunk chunks) @ stored_chunk []"

lemma stored_chunk_handled:
  assumes "src = pre @ stored_chunk d @ post" "length d \<le> 0x8000" "length done + length d \<le> length dest"
    and "z_has_dest st" "z_src st = int (length pre)" "z_src_left st = int (length (stored_chunk d @ post))"
    and "z_out st = done @ drop (length done) dest" "z_dest st = int (length done)" "z_dest_left st = int (length dest - length done)"
  shows "zbm_handle_chunk src st = Inr (st\<lparr>z_len := int (length d) + 6, z_src_end := z_src st + (int (length d) + 6), z_decmp_len := int (length d),
    z_data := z_src st + 6, z_out := done @ d @ drop (length done + length d) dest, z_dest := z_dest st + int (length d),
    z_dest_left := z_dest_left st - int (length d), z_written := int (length d)\<rparr>)"
proof -
  let ?a = "le_field 3 (int (length d) + 6)" and ?b = "le_field 3 (int (length d))"
  have "rd_le 3 (pre @ ?a @ (?b @ d @ post)) (z_src st) = Inr (le_val ?a)" using assms(5) by (intro rd_le_append) simp_all
  then have a: "zbm_u24_to_u32 src (z_src st) = Inr (int (length d) + 6)"
    using assms(1,2) by (simp add: zbm_u24_to_u32_def stored_chunk_def)
  have "rd_le 3 ((pre @ ?a) @ ?b @ (d @ post)) (z_src st + 3) = Inr (le_val ?b)" using assms(5) by (intro rd_le_append) simp_all
  then have b: "zbm_u24_to_u32 src (z_src st + 3) = Inr (int (length d))"
    using assms(1,2) by (simp add: zbm_u24_to_u32_def stored_chunk_def)
  have "rd_bytes ((pre @ ?a @ ?b) @ d @ post) (z_src st + 6) (int (length d)) = Inr d" using assms(5) by (intro rd_bytes_append) simp_all
  then have c: "rd_bytes src (z_src st + 6) (int (length d)) = Inr d" using assms(1) by (simp add: stored_chunk_def)
  have m: "memcpy (z_out st) (z_dest st) d = Inr (done @ d @ drop (length done + length d) dest)"
    unfolding assms(7) using assms(3,8) by (subst memcpy_drop) (simp_all add: add.commute)
  have left: "6 \<le> z_src_left st" "int (length d) + 6 \<le> z_src_left st" using assms(6) by (simp_all add: stored_chunk_def)
  show ?thesis
    using assms(2,3,4,9) a b c m left
    by (simp add: zbm_handle_chunk_def zbm_chunk_is_uncompressed_def zbm_handle_uncompressed_chunk_def Let_def)
qed

lemma stored_chunks_decoded:
  assumes "src = pre @ concat (map stored_chunk chunks) @ stored_chunk []" "\<forall>c \<in> set chunks. c \<noteq> [] \<and> length c \<le> 0x8000"
    and "length done + length (concat chunks) \<le> length dest"
    and "z_has_dest st" "z_src st = int (length pre)" "z_src_left st = int (length (concat (map stored_chunk chunks) @ stored_chunk []))"
    and "z_out st = done @ drop (length done) dest" "z_dest st = int (length done)" "z_dest_left st = int (length dest - length done)"
      "z_prewritten st = int (length done)"
  shows "\<exists>st'. decompress_chunks src st = Some (Inr st') \<and> z_prewritten st' = int (length done + length (concat chunks)) \<and>
    z_out st' = done @ concat chunks @ drop (length done + length (concat chunks)) dest"
  using assms
proof (induction chunks arbitrary: pre "done" st)
  case Nil
  have "\<exists>st1. zbm_handle_chunk src st = Inr st1 \<and> z_decmp_len st1 = 0 \<and> z_prewritten st1 = z_prewritten st \<and>
      z_out st1 = done @ drop (length done) dest"
    using stored_chunk_handled [of src pre "[]" "[]" "done" dest st] Nil by simp
  then obtain st1 where st1: "zbm_handle_chunk src st = Inr st1" "z_decmp_len st1 = 0" "z_prewritten st1 = z_prewritten st"
      "z_out st1 = done @ drop (length done) dest" by blast
  then have "decompress_chunks src st = Some (Inr (st1\<lparr>z_src := z_src st1 + z_len st1, z_src_left := z_src_left st1 - z_len st1\<rparr>))"
    by (simp add: decompress_chunks.simps [of src st] Let_def)
  then show ?case using st1 Nil.prems(10) by simp
next
  case (Cons d chunks)
  let ?st = "st\<lparr>z_len := int (length d) + 6, z_src_end := z_src st + (int (length d) + 6), z_decmp_len := int (length d),
    z_data := z_src st + 6, z_out := done @ d @ drop (length done + length d) dest, z_dest := z_dest st + int (length d),
    z_dest_left := z_dest_left st - int (length d), z_written := int (length d)\<rparr>"
  have h: "zbm_handle_chunk src st = Inr ?st"
    by (rule stored_chunk_handled [where post = "concat (map stored_chunk chunks) @ stored_chunk []"]) (use Cons.prems in auto)
  let ?st1 = "?st\<lparr>z_src := z_src ?st + z_len ?st, z_src_left := z_src_left ?st - z_len ?st, z_prewritten := z_prewritten ?st + z_decmp_len ?st\<rparr>"
  have run: "decompress_chunks src st = decompress_chunks src ?st1"
    using h Cons.prems(2) by (simp add: decompress_chunks.simps [of src st] Let_def)
  have "\<exists>st'. decompress_chunks src ?st1 = Some (Inr st') \<and> z_prewritten st' = int (length (done @ d) + length (concat chunks)) \<and>
      z_out st' = (done @ d) @ concat chunks @ drop (length (done @ d) + length (concat chunks)) dest"
    by (rule Cons.IH [of "pre @ stored_chunk d"]) (use Cons.prems in \<open>auto simp: stored_chunk_def\<close>)
  then show ?case unfolding run by (simp add: add.assoc)
qed

text \<open>
  The decoder is a left inverse of the encoding that stores the bytes of the chunks: it returns exactly their
  concatenation, with its length, and leaves the rest of the destination as it was.
\<close>

theorem zbm_decompress_stored:
  assumes "\<forall>c \<in> set chunks. c \<noteq> [] \<and> length c \<le> 0x8000" "length (concat chunks) \<le> length dest"
  shows "zbm_decompress (Some dest) (zbm_stored chunks) =
    Some (Inr (concat chunks @ drop (length (concat chunks)) dest, int (length (concat chunks))))"
proof -
  let ?src = "zbm_stored chunks"
  let ?st = "(zbm_init (Some dest) ?src)\<lparr>z_src := 4, z_src_left := int (length ?src) - 4\<rparr>"
  have src: "?src = ZBM_MAGIC @ concat (map stored_chunk chunks) @ stored_chunk []" by (simp add: zbm_stored_def)
  have len: "length ZBM_MAGIC = 4" by (simp add: ZBM_MAGIC_def)
  have "rd_bytes ([] @ ZBM_MAGIC @ (concat (map stored_chunk chunks) @ stored_chunk [])) 0 4 = Inr ZBM_MAGIC"
    using len by (intro rd_bytes_append) simp_all
  then have magic: "zbm_check_magic ?src (zbm_init (Some dest) ?src) = Inr ?st"
    using len by (simp add: zbm_check_magic_def zbm_init_def src)
  obtain st' where "decompress_chunks ?src ?st = Some (Inr st')" "z_prewritten st' = int (length ([] :: byte list) + length (concat chunks))"
      "z_out st' = [] @ concat chunks @ drop (length ([] :: byte list) + length (concat chunks)) dest"
    using stored_chunks_decoded [OF src assms(1), of "[]" dest ?st] assms(2) len by (auto simp: zbm_init_def src)
  then show ?thesis using magic by (simp add: zbm_decompress_def)
qed

theorem zbm_decompress_stored_witness:
  "zbm_decompress (Some [9, 9, 9, 9]) (zbm_stored [[1, 2], [3]]) = Some (Inr ([1, 2, 3, 9], 3))"
  using zbm_decompress_stored [of "[[1, 2], [3]]" "[9, 9, 9, 9]"] by simp

text \<open>
  With no destination the decoder only adds up the lengths of the chunks.  A chunk of length zero then makes it
  run forever.
\<close>

lemma zbm_length_diverges: "zbm_decompress None (ZBM_MAGIC @ [0, 0, 0, 1, 0, 0]) = None"
proof -
  let ?src = "ZBM_MAGIC @ [0, 0, 0, 1, 0, 0]"
  have u: "zbm_u24_to_u32 ?src 4 = Inr 0" "zbm_u24_to_u32 ?src 7 = Inr 1"
    by (simp_all add: zbm_u24_to_u32_def rd_le_def rd_bytes_def ZBM_MAGIC_def)
  have loop: "src = ?src \<and> \<not> z_has_dest st \<and> z_src st = 4 \<and> z_src_left st = 6 \<longrightarrow> False" if "decompress_chunks src st = Some y" for src st y
  proof (rule decompress_chunks.raw_induct [OF _ that], goal_cases)
    case (1 f src st y)
    show ?case
    proof
      assume a: "src = ?src \<and> \<not> z_has_dest st \<and> z_src st = 4 \<and> z_src_left st = 6"
      then have "zbm_handle_chunk src st = Inr (st\<lparr>z_len := 0, z_src_end := 4, z_decmp_len := 1\<rparr>)"
        using u by (simp add: zbm_handle_chunk_def)
      then have "f src (st\<lparr>z_len := 0, z_src_end := 4, z_decmp_len := 1, z_src := 4, z_src_left := 6, z_prewritten := z_prewritten st + 1\<rparr>) = Some y"
        using 1(2) a by (simp add: Let_def)
      from 1(1) [OF this] a show False by simp
    qed
  qed
  have "zbm_check_magic ?src (zbm_init None ?src) = Inr ((zbm_init None ?src)\<lparr>z_src := 4, z_src_left := 6\<rparr>)"
    by (simp add: zbm_check_magic_def zbm_init_def rd_bytes_def ZBM_MAGIC_def)
  moreover have "decompress_chunks ?src ((zbm_init None ?src)\<lparr>z_src := 4, z_src_left := 6\<rparr>) = None"
    using loop [of ?src "(zbm_init None ?src)\<lparr>z_src := 4, z_src_left := 6\<rparr>"]
    by (cases "decompress_chunks ?src ((zbm_init None ?src)\<lparr>z_src := 4, z_src_left := 6\<rparr>)") (auto simp: zbm_init_def)
  ultimately show ?thesis by (simp add: zbm_decompress_def)
qed

end
