(* ===== verification/Node.thy ===== *)
theory Node
  imports Object Key
begin

text \<open>
  A single b-tree node (\<open>node.c\<close>): the in-memory header, its checks, the table of contents, the
  free lists of the key and value areas, the copy of records between nodes, the defragmentation
  and the insertion and replacement of records.

  A node is a block of bytes with an in-memory header.  The parameter \<open>bs\<close> is the block size
  \<open>sb->s_blocksize\<close>.  The offsets \<open>nd_key\<close>, \<open>nd_free\<close> and \<open>nd_val\<close> are the \<open>int\<close> fields of
  \<open>struct apfs_node\<close>.  A query is the tip of the chain of \<open>struct apfs_query\<close>; the chain of its
  parents is modelled with the b-tree operations.

  The abstraction of a node is the list of its records, each a pair of a key and a value.
\<close>

section \<open>Data\<close>

abbreviation (input) sizeof_node_hdr :: int where "sizeof_node_hdr \<equiv> 56"
abbreviation (input) sizeof_btree_info :: int where "sizeof_btree_info \<equiv> 40"
abbreviation (input) sizeof_kvoff :: int where "sizeof_kvoff \<equiv> 4"
abbreviation (input) sizeof_kvloc :: int where "sizeof_kvloc \<equiv> 8"
abbreviation (input) sizeof_nloc :: int where "sizeof_nloc \<equiv> 4"
abbreviation (input) APFS_BTREE_TOC_ENTRY_INCREMENT :: int where "APFS_BTREE_TOC_ENTRY_INCREMENT \<equiv> 8"
abbreviation (input) APFS_BTOFF_INVALID :: int where "APFS_BTOFF_INVALID \<equiv> 0xffff"

abbreviation (input) APFS_OBJECT_TYPE_BTREE :: nat where "APFS_OBJECT_TYPE_BTREE \<equiv> 2"
abbreviation (input) APFS_OBJECT_TYPE_BTREE_NODE :: nat where "APFS_OBJECT_TYPE_BTREE_NODE \<equiv> 3"
abbreviation (input) APFS_OBJECT_TYPE_FREE_QUEUE :: nat where "APFS_OBJECT_TYPE_FREE_QUEUE \<equiv> 9"
abbreviation (input) APFS_OBJECT_TYPE_OMAP :: nat where "APFS_OBJECT_TYPE_OMAP \<equiv> 0xb"
abbreviation (input) APFS_OBJECT_TYPE_FSTREE :: nat where "APFS_OBJECT_TYPE_FSTREE \<equiv> 0xe"
abbreviation (input) APFS_OBJECT_TYPE_BLOCKREFTREE :: nat where "APFS_OBJECT_TYPE_BLOCKREFTREE \<equiv> 0xf"
abbreviation (input) APFS_OBJECT_TYPE_OMAP_SNAPSHOT :: nat where "APFS_OBJECT_TYPE_OMAP_SNAPSHOT \<equiv> 0x13"
abbreviation (input) APFS_OBJECT_TYPE_FEXT_TREE :: nat where "APFS_OBJECT_TYPE_FEXT_TREE \<equiv> 0x1f"
abbreviation (input) APFS_OBJ_PHYSICAL :: nat where "APFS_OBJ_PHYSICAL \<equiv> 0x40000000"

definition APFS_BTNODE_ROOT :: u16 where "APFS_BTNODE_ROOT = 1"
definition APFS_BTNODE_LEAF :: u16 where "APFS_BTNODE_LEAF = 2"
definition APFS_BTNODE_FIXED_KV_SIZE :: u16 where "APFS_BTNODE_FIXED_KV_SIZE = 4"

lemmas node_flags = APFS_BTNODE_ROOT_def APFS_BTNODE_LEAF_def APFS_BTNODE_FIXED_KV_SIZE_def

record apfs_node =
  nd_tree_type :: nat
  nd_flags :: u16
  nd_records :: nat
  nd_key :: int
  nd_free :: int
  nd_val :: int
  nd_key_free_list_len :: int
  nd_val_free_list_len :: int
  nd_block_nr :: u64
  nd_oid :: u64
  nd_data :: buffer

record apfs_query =
  q_node :: apfs_node
  q_key :: apfs_key
  q_flags :: u32
  q_index :: int
  q_key_off :: int
  q_key_len :: int
  q_off :: int
  q_len :: int
  q_depth :: int

definition apfs_node_is_leaf :: "apfs_node \<Rightarrow> bool" where
  "apfs_node_is_leaf node \<longleftrightarrow> nd_flags node AND APFS_BTNODE_LEAF \<noteq> 0"

definition apfs_node_is_root :: "apfs_node \<Rightarrow> bool" where
  "apfs_node_is_root node \<longleftrightarrow> nd_flags node AND APFS_BTNODE_ROOT \<noteq> 0"

definition apfs_node_has_fixed_kv_size :: "apfs_node \<Rightarrow> bool" where
  "apfs_node_has_fixed_kv_size node \<longleftrightarrow> nd_flags node AND APFS_BTNODE_FIXED_KV_SIZE \<noteq> 0"

text \<open>The conversions of an \<open>int\<close> to the unsigned types of the driver.\<close>

definition to_u16 :: "int \<Rightarrow> int" where "to_u16 x = x mod 0x10000"
definition to_u32 :: "int \<Rightarrow> int" where "to_u32 x = x mod 0x100000000"

text \<open>The size of an entry of the table of contents.\<close>

definition toc_entry_size :: "apfs_node \<Rightarrow> int" where
  "toc_entry_size node = (if apfs_node_has_fixed_kv_size node then sizeof_kvoff else sizeof_kvloc)"

text \<open>The end of the value area: the end of the block, or the info footer of a root.\<close>

definition value_end :: "int \<Rightarrow> apfs_node \<Rightarrow> int" where
  "value_end bs node = (if apfs_node_is_root node then bs - sizeof_btree_info else bs)"

section \<open>Reading a node\<close>

definition apfs_node_is_valid :: "int \<Rightarrow> apfs_node \<Rightarrow> bool" where
  "apfs_node_is_valid bs node =
     (let index_size = nd_key node - sizeof_node_hdr
      in if nd_key node > bs then False
         else if nd_records node > 2 ^ 16 then False
         else int (nd_records node) * toc_entry_size node \<le> index_size)"

text \<open>The header fields that \<open>apfs_read_node\<close> takes from the raw block.\<close>

definition node_of_raw :: "u64 \<Rightarrow> u64 \<Rightarrow> buffer \<Rightarrow> apfs_node result" where
  "node_of_raw oid bno raw =
     bind_res (rd32 raw 28) (\<lambda>subtype.
     bind_res (rd16 raw 32) (\<lambda>flags.
     bind_res (rd32 raw 36) (\<lambda>nkeys.
     bind_res (rd16 raw 40) (\<lambda>table_off.
     bind_res (rd16 raw 42) (\<lambda>table_len.
     bind_res (rd16 raw 44) (\<lambda>free_off.
     bind_res (rd16 raw 46) (\<lambda>free_len.
     bind_res (rd16 raw 50) (\<lambda>key_free_len.
     bind_res (rd16 raw 54) (\<lambda>val_free_len.
     let key = sizeof_node_hdr + int table_off + int table_len;
         free = key + int free_off;
         val = free + int free_len
     in Inr \<lparr>nd_tree_type = subtype, nd_flags = of_nat flags, nd_records = nkeys,
             nd_key = key, nd_free = free, nd_val = val,
             nd_key_free_list_len = int key_free_len, nd_val_free_list_len = int val_free_len,
             nd_block_nr = bno, nd_oid = oid, nd_data = raw\<rparr>)))))))))"

text \<open>
  The part of \<open>apfs_read_node\<close> after the block was found: \<open>ephemeral\<close> objects live in memory and
  were checked on mount, \<open>check_nodes\<close> is the mount option \<open>APFS_CHECK_NODES\<close> and \<open>in_trans\<close>
  tells if the buffer belongs to the current transaction, as in \<open>apfs_obj_verify_csum\<close>.
\<close>

definition apfs_read_node_raw ::
  "int \<Rightarrow> bool \<Rightarrow> bool \<Rightarrow> bool \<Rightarrow> u64 \<Rightarrow> u64 \<Rightarrow> buffer \<Rightarrow> apfs_node result" where
  "apfs_read_node_raw bs check_nodes ephemeral in_trans oid bno raw =
     bind_res (node_of_raw oid bno raw) (\<lambda>node.
     bind_res (if \<not> ephemeral \<and> check_nodes then apfs_obj_verify_csum bs in_trans raw else Inr True) (\<lambda>csum_ok.
     if \<not> csum_ok then Inl EFSBADCRC
     else if \<not> apfs_node_is_valid bs node then Inl EFSCORRUPTED
     else Inr node))"

definition apfs_node_min_table_size :: "int \<Rightarrow> nat \<Rightarrow> u16 \<Rightarrow> int" where
  "apfs_node_min_table_size bs ty flags =
     (let leaf = flags AND APFS_BTNODE_LEAF \<noteq> 0;
          table = (\<lambda>key_size val_size.
            (bs - sizeof_node_hdr) div (key_size + val_size + sizeof_kvoff) * sizeof_kvoff)
      in if ty = APFS_OBJECT_TYPE_OMAP then table 16 (if leaf then 16 else 8)
         else if ty = APFS_OBJECT_TYPE_FREE_QUEUE then table 16 8
         else if ty = APFS_OBJECT_TYPE_OMAP_SNAPSHOT then table 8 (if leaf then 16 else 8)
         else if ty = APFS_OBJECT_TYPE_FEXT_TREE then table 16 (if leaf then 16 else 8)
         else APFS_BTREE_TOC_ENTRY_INCREMENT * sizeof_kvloc)"

section \<open>New nodes\<close>

definition apfs_set_empty_btree_info :: "int \<Rightarrow> buffer \<Rightarrow> int \<Rightarrow> nat \<Rightarrow> buffer result" where
  "apfs_set_empty_btree_info bs raw info subtype =
     bind_res (memset raw info 0 sizeof_btree_info) (\<lambda>raw.
     bind_res (store_fields raw
         [(info, le_field 4 (if subtype = APFS_OBJECT_TYPE_BLOCKREFTREE then 0x50 else 0x10)),
          (info + 4, le_field 4 bs),
          (info + 24, le_field 8 0),
          (info + 32, le_field 8 1)]) (\<lambda>raw.
     if subtype = APFS_OBJECT_TYPE_BLOCKREFTREE then Inr raw
     else store_fields raw
         [(info + 8, le_field 4 8), (info + 16, le_field 4 8),
          (info + 12, le_field 4 16), (info + 20, le_field 4 16)]))"

text \<open>
  The contents that \<open>apfs_make_empty_btree_root\<close> gives to the block \<open>bno\<close> it has allocated, whose
  buffer holds \<open>raw\<close> before.
\<close>

definition apfs_make_empty_btree_root :: "int \<Rightarrow> nat \<Rightarrow> u64 \<Rightarrow> u64 \<Rightarrow> buffer \<Rightarrow> buffer result" where
  "apfs_make_empty_btree_root bs subtype bno xid raw =
     (let flags = (if subtype = APFS_OBJECT_TYPE_OMAP_SNAPSHOT
                   then APFS_BTNODE_ROOT OR APFS_BTNODE_LEAF OR APFS_BTNODE_FIXED_KV_SIZE
                   else APFS_BTNODE_ROOT OR APFS_BTNODE_LEAF);
          toc_len = apfs_node_min_table_size bs subtype flags;
          free_len = bs - sizeof_node_hdr - toc_len - sizeof_btree_info
      in bind_res (store_fields raw
             [(32, le_field 2 (uint flags)), (34, le_field 2 0), (36, le_field 4 0),
              (40, le_field 2 0), (42, le_field 2 toc_len),
              (44, le_field 2 0), (46, le_field 2 free_len),
              (48, le_field 2 APFS_BTOFF_INVALID), (50, le_field 2 0),
              (52, le_field 2 APFS_BTOFF_INVALID), (54, le_field 2 0)]) (\<lambda>raw.
         bind_res (apfs_set_empty_btree_info bs raw (bs - sizeof_btree_info) subtype) (\<lambda>raw.
         store_fields raw
             [(8, le_field 8 (uint bno)), (16, le_field 8 (uint xid)),
              (24, le_field 4 (int (APFS_OBJECT_TYPE_BTREE + APFS_OBJ_PHYSICAL))),
              (28, le_field 4 (int subtype))])))"

text \<open>The contents that \<open>apfs_create_node\<close> gives to a new block.\<close>

definition create_node_raw :: "int \<Rightarrow> nat \<Rightarrow> u64 \<Rightarrow> u64 \<Rightarrow> buffer \<Rightarrow> buffer result" where
  "create_node_raw bs storage oid xid raw =
     store_fields raw
       [(8, le_field 8 (uint oid)), (16, le_field 8 (uint xid)),
        (24, le_field 4 (int (storage + APFS_OBJECT_TYPE_BTREE_NODE))), (28, le_field 4 0),
        (32, le_field 2 0), (34, le_field 2 0), (36, le_field 4 0),
        (40, le_field 2 0), (42, le_field 2 0),
        (44, le_field 2 0), (46, le_field 2 (bs - sizeof_node_hdr)),
        (48, le_field 2 APFS_BTOFF_INVALID), (50, le_field 2 0),
        (52, le_field 2 APFS_BTOFF_INVALID), (54, le_field 2 0)]"

section \<open>The header on disk\<close>

definition apfs_update_node :: "apfs_node \<Rightarrow> apfs_node result" where
  "apfs_update_node node =
     (let raw = nd_data node in
      bind_res (rd32 raw 24) (\<lambda>o_type.
      bind_res (rd16 raw 40) (\<lambda>table_off.
      bind_res (rd16 raw 48) (\<lambda>key_head.
      bind_res (rd16 raw 52) (\<lambda>val_head.
      let tflags = (of_nat o_type :: u32) AND 0xffff0000;
          ty = (if apfs_node_is_root node then of_nat APFS_OBJECT_TYPE_BTREE
                else of_nat APFS_OBJECT_TYPE_BTREE_NODE);
          toc_off = sizeof_node_hdr + int table_off;
          key_len = to_u16 (nd_key_free_list_len node);
          val_len = to_u16 (nd_val_free_list_len node)
      in bind_res (store_fields raw
          [(8, le_field 8 (uint (nd_oid node))),
           (24, le_field 4 (uint (ty OR tflags))),
           (28, le_field 4 (int (nd_tree_type node))),
           (32, le_field 2 (uint (nd_flags node))),
           (36, le_field 4 (int (nd_records node))),
           (42, le_field 2 (nd_key node - toc_off)),
           (44, le_field 2 (nd_free node - nd_key node)),
           (46, le_field 2 (nd_val node - nd_free node)),
           (48, le_field 2 (if key_len = 0 then APFS_BTOFF_INVALID else int key_head)),
           (50, le_field 2 key_len),
           (52, le_field 2 (if val_len = 0 then APFS_BTOFF_INVALID else int val_head)),
           (54, le_field 2 val_len)]) (\<lambda>raw.
         Inr (node\<lparr>nd_data := raw\<rparr>)))))))"

section \<open>The table of contents\<close>

text \<open>
  \<open>apfs_node_locate_key bs node index off\<close> is the returned length with the new value of \<open>*off\<close>,
  which was \<open>off\<close>.  The comparison of the \<open>int\<close> index with the \<open>u32\<close> number of records is unsigned.
\<close>

definition index_out_of_bounds :: "apfs_node \<Rightarrow> int \<Rightarrow> bool" where
  "index_out_of_bounds node index \<longleftrightarrow> to_u32 index \<ge> int (nd_records node)"

definition apfs_node_locate_key :: "int \<Rightarrow> apfs_node \<Rightarrow> int \<Rightarrow> int \<Rightarrow> (int \<times> int) result" where
  "apfs_node_locate_key bs node index off =
     (if index_out_of_bounds node index then Inr (0, off)
      else bind_res
        (if apfs_node_has_fixed_kv_size node then
           bind_res (rd16 (nd_data node) (sizeof_node_hdr + sizeof_kvoff * index)) (\<lambda>k.
           Inr (if nd_tree_type node = APFS_OBJECT_TYPE_OMAP_SNAPSHOT then 8 else 16, nd_key node + int k))
         else
           bind_res (rd16 (nd_data node) (sizeof_node_hdr + sizeof_kvloc * index + 2)) (\<lambda>klen.
           bind_res (rd16 (nd_data node) (sizeof_node_hdr + sizeof_kvloc * index)) (\<lambda>koff.
           Inr (int klen, nd_key node + int koff))))
        (\<lambda>(len, off). if off + len > bs then Inr (0, off) else Inr (len, off)))"

definition apfs_node_locate_value :: "int \<Rightarrow> apfs_node \<Rightarrow> int \<Rightarrow> int \<Rightarrow> (int \<times> int) result" where
  "apfs_node_locate_value bs node index off =
     (let check = (\<lambda>(len, off). if off < 0 \<or> off + len > bs then Inr (0, off) else Inr (len, off)) in
      if index_out_of_bounds node index then Inr (0, off)
      else if apfs_node_has_fixed_kv_size node then
        bind_res (rd16 (nd_data node) (sizeof_node_hdr + sizeof_kvoff * index + 2)) (\<lambda>v.
        if nd_tree_type node = APFS_OBJECT_TYPE_FREE_QUEUE then
          if int v = APFS_BTOFF_INVALID then Inr (0, 0)
          else check (8, value_end bs node - int v)
        else check (if apfs_node_is_leaf node then 16 else 8, value_end bs node - int v))
      else
        bind_res (rd16 (nd_data node) (sizeof_node_hdr + sizeof_kvloc * index + 6)) (\<lambda>vlen.
        bind_res (rd16 (nd_data node) (sizeof_node_hdr + sizeof_kvloc * index + 4)) (\<lambda>voff.
        check (int vlen, value_end bs node - int voff))))"

definition apfs_create_toc_entry :: "int \<Rightarrow> apfs_query \<Rightarrow> apfs_query result" where
  "apfs_create_toc_entry bs query =
     (let node = q_node query;
          recs = int (nd_records node);
          index = q_index query;
          esize = toc_entry_size node;
          entry = sizeof_node_hdr + esize * index
      in bind_res (memmove (nd_data node) (entry + esize) entry ((recs - index) * esize)) (\<lambda>raw.
         bind_res
           (if apfs_node_has_fixed_kv_size node then
              store_fields raw
                [(entry + 2, le_field 2 (if q_len query = 0 then APFS_BTOFF_INVALID
                                         else value_end bs node - q_off query)),
                 (entry, le_field 2 (q_key_off query - nd_key node))]
            else
              store_fields raw
                [(entry + 4, le_field 2 (value_end bs node - q_off query)),
                 (entry + 6, le_field 2 (q_len query)),
                 (entry, le_field 2 (q_key_off query - nd_key node)),
                 (entry + 2, le_field 2 (q_key_len query))])
           (\<lambda>raw. Inr (query\<lparr>q_node := node\<lparr>nd_data := raw, nd_records := nat (to_u32 (recs + 1))\<rparr>\<rparr>))))"

text \<open>The assertion of the source that the node has no fixed sizes is not part of the function.\<close>

definition apfs_node_update_toc_entry :: "int \<Rightarrow> apfs_query \<Rightarrow> apfs_query result" where
  "apfs_node_update_toc_entry bs query =
     (let node = q_node query;
          entry = sizeof_node_hdr + sizeof_kvloc * q_index query
      in bind_res (store_fields (nd_data node)
             [(entry + 4, le_field 2 (value_end bs node - q_off query)),
              (entry + 6, le_field 2 (q_len query)),
              (entry, le_field 2 (q_key_off query - nd_key node)),
              (entry + 2, le_field 2 (q_key_len query))])
           (\<lambda>raw. Inr (query\<lparr>q_node := node\<lparr>nd_data := raw\<rparr>\<rparr>)))"

section \<open>Queries\<close>

definition APFS_QUERY_TREE_MASK :: u32 where "APFS_QUERY_TREE_MASK = 0x7f"
definition APFS_QUERY_OMAP :: u32 where "APFS_QUERY_OMAP = 0x1"
definition APFS_QUERY_CAT :: u32 where "APFS_QUERY_CAT = 0x2"
definition APFS_QUERY_FREE_QUEUE :: u32 where "APFS_QUERY_FREE_QUEUE = 0x4"
definition APFS_QUERY_EXTENTREF :: u32 where "APFS_QUERY_EXTENTREF = 0x8"
definition APFS_QUERY_FEXT :: u32 where "APFS_QUERY_FEXT = 0x10"
definition APFS_QUERY_SNAP_META :: u32 where "APFS_QUERY_SNAP_META = 0x20"
definition APFS_QUERY_OMAP_SNAP :: u32 where "APFS_QUERY_OMAP_SNAP = 0x40"
definition APFS_QUERY_NEXT :: u32 where "APFS_QUERY_NEXT = 0x80"
definition APFS_QUERY_EXACT :: u32 where "APFS_QUERY_EXACT = 0x100"
definition APFS_QUERY_DONE :: u32 where "APFS_QUERY_DONE = 0x200"
definition APFS_QUERY_ANY_NAME :: u32 where "APFS_QUERY_ANY_NAME = 0x400"
definition APFS_QUERY_ANY_NUMBER :: u32 where "APFS_QUERY_ANY_NUMBER = 0x800"
definition APFS_QUERY_MULTIPLE :: u32 where "APFS_QUERY_MULTIPLE = 0xc00"
definition APFS_QUERY_PREV :: u32 where "APFS_QUERY_PREV = 0x1000"

lemmas query_flags = APFS_QUERY_TREE_MASK_def APFS_QUERY_OMAP_def APFS_QUERY_CAT_def
  APFS_QUERY_FREE_QUEUE_def APFS_QUERY_EXTENTREF_def APFS_QUERY_FEXT_def APFS_QUERY_SNAP_META_def
  APFS_QUERY_OMAP_SNAP_def APFS_QUERY_NEXT_def APFS_QUERY_EXACT_def APFS_QUERY_DONE_def
  APFS_QUERY_ANY_NAME_def APFS_QUERY_ANY_NUMBER_def APFS_QUERY_MULTIPLE_def APFS_QUERY_PREV_def

definition has_flag :: "apfs_query \<Rightarrow> u32 \<Rightarrow> bool" where
  "has_flag query f \<longleftrightarrow> q_flags query AND f \<noteq> 0"

text \<open>The key that \<open>kzalloc\<close> leaves in a query with no parent.\<close>

definition zero_key :: apfs_key where
  "zero_key = \<lparr>k_id = 0, k_number = 0, k_name = None, k_type = 0\<rparr>"

text \<open>The failures of memory allocations of the kernel are not modelled.\<close>

definition apfs_alloc_query :: "apfs_node \<Rightarrow> apfs_query option \<Rightarrow> apfs_query" where
  "apfs_alloc_query node parent =
     (let (key, flags, depth) =
        (case parent of
           None \<Rightarrow> (zero_key, 0, 0)
         | Some p \<Rightarrow> (q_key p, q_flags p AND NOT (APFS_QUERY_DONE OR APFS_QUERY_NEXT), q_depth p + 1))
      in \<lparr>q_node = node, q_key = key, q_flags = flags,
          q_index = (if flags AND APFS_QUERY_PREV \<noteq> 0 then - 1 else int (nd_records node)),
          q_key_off = 0, q_key_len = 0, q_off = 0, q_len = 0, q_depth = depth\<rparr>)"

section \<open>Copying records between nodes\<close>

text \<open>
  The loop of \<open>apfs_copy_record_range\<close>.  Its offset variable has no value before the key is located;
  the number zero stands for it, and no byte is copied from there.
\<close>

function copy_record_loop ::
  "int \<Rightarrow> apfs_node \<Rightarrow> int \<Rightarrow> int \<Rightarrow> int \<Rightarrow> apfs_query \<Rightarrow> apfs_query result" where
  "copy_record_loop bs src start i stop query =
     (if i < stop then
        bind_res (apfs_node_locate_key bs src i 0) (\<lambda>(len, off).
        let dest = q_node query in
        if nd_free dest + len > bs then Inl EFSCORRUPTED
        else bind_res (rd_bytes (nd_data src) off len) (\<lambda>key.
        bind_res (memcpy (nd_data dest) (nd_free dest) key) (\<lambda>raw.
        let query = query\<lparr>q_key_off := nd_free dest, q_key_len := len\<rparr>;
            dest = dest\<lparr>nd_data := raw, nd_free := nd_free dest + len\<rparr> in
        bind_res (apfs_node_locate_value bs src i off) (\<lambda>(len, off).
        let dest = dest\<lparr>nd_val := nd_val dest - len\<rparr> in
        if nd_val dest < 0 then Inl EFSCORRUPTED
        else bind_res (rd_bytes (nd_data src) off len) (\<lambda>val.
        bind_res (memcpy (nd_data dest) (nd_val dest) val) (\<lambda>raw.
        let query = query\<lparr>q_off := nd_val dest, q_len := len, q_index := i - start,
                          q_node := dest\<lparr>nd_data := raw\<rparr>\<rparr> in
        bind_res (apfs_create_toc_entry bs query)
          (copy_record_loop bs src start (i + 1) stop)))))))
      else Inr query)"
  by pat_completeness auto
termination
  by (relation "measure (\<lambda>(bs, src, start, i, stop, query). nat (stop - i))") auto

declare copy_record_loop.simps [simp del]

definition apfs_copy_record_range ::
  "int \<Rightarrow> apfs_node \<Rightarrow> apfs_node \<Rightarrow> int \<Rightarrow> int \<Rightarrow> apfs_node result" where
  "apfs_copy_record_range bs dest_node src_node start stop =
     (let esize = toc_entry_size src_node;
          min_size = apfs_node_min_table_size bs (nd_tree_type src_node) (nd_flags src_node);
          toc_size = (if min_size < esize * (stop - start)
                      then esize * round_up (stop - start) APFS_BTREE_TOC_ENTRY_INCREMENT
                      else min_size);
          dest_node = dest_node\<lparr>nd_key := sizeof_node_hdr + toc_size,
                                nd_free := sizeof_node_hdr + toc_size,
                                nd_val := value_end bs dest_node\<rparr>
      in bind_res (copy_record_loop bs src_node start start stop (apfs_alloc_query dest_node None))
           (\<lambda>query. Inr (q_node query)))"

text \<open>The temporary duplicate of \<open>apfs_node_temp_dup\<close> is the value of the node before the changes.\<close>

definition apfs_defragment_node :: "int \<Rightarrow> apfs_node \<Rightarrow> apfs_node result" where
  "apfs_defragment_node bs node =
     bind_res (apfs_copy_record_range bs
         (node\<lparr>nd_records := 0, nd_key_free_list_len := 0, nd_val_free_list_len := 0\<rparr>)
         node 0 (int (nd_records node)))
       apfs_update_node"

section \<open>Offsets in the key and value areas\<close>

definition apfs_off_to_val_off :: "int \<Rightarrow> apfs_node \<Rightarrow> int \<Rightarrow> int" where
  "apfs_off_to_val_off bs node off = to_u16 (to_u16 (value_end bs node) - off)"

definition apfs_val_off_to_off :: "int \<Rightarrow> apfs_node \<Rightarrow> int \<Rightarrow> int" where
  "apfs_val_off_to_off bs node off = apfs_off_to_val_off bs node off"

definition apfs_off_to_key_off :: "apfs_node \<Rightarrow> int \<Rightarrow> int" where
  "apfs_off_to_key_off node off = to_u16 (off - nd_key node)"

definition apfs_key_off_to_off :: "apfs_node \<Rightarrow> int \<Rightarrow> int" where
  "apfs_key_off_to_off node off = to_u16 (off + nd_key node)"

section \<open>Free lists\<close>

text \<open>The offsets in the block of the heads of the two free lists.\<close>

definition free_list_head :: "bool \<Rightarrow> int" where
  "free_list_head in_vals = (if in_vals then 52 else 48)"

definition apfs_node_free_list_add :: "int \<Rightarrow> apfs_node \<Rightarrow> int \<Rightarrow> int \<Rightarrow> apfs_node result" where
  "apfs_node_free_list_add bs node off len =
     (let in_vals = (off \<ge> nd_val node);
          head = free_list_head in_vals;
          rel = (if in_vals then apfs_off_to_val_off bs node off else apfs_off_to_key_off node off);
          node = (if in_vals then node\<lparr>nd_val_free_list_len := nd_val_free_list_len node + len\<rparr>
                  else node\<lparr>nd_key_free_list_len := nd_key_free_list_len node + len\<rparr>)
      in if len < sizeof_nloc then Inr node
         else bind_res (rd16 (nd_data node) head) (\<lambda>head_off.
              bind_res (store_fields (nd_data node)
                [(off, le_field 2 (int head_off)), (off + 2, le_field 2 len), (head, le_field 2 rel)])
              (\<lambda>raw. Inr (node\<lparr>nd_data := raw\<rparr>))))"

definition apfs_node_free_range :: "int \<Rightarrow> apfs_node \<Rightarrow> int \<Rightarrow> int \<Rightarrow> apfs_node result" where
  "apfs_node_free_range bs node off len =
     (if off = nd_val node then Inr (node\<lparr>nd_val := nd_val node + len\<rparr>)
      else if off + len = nd_free node then Inr (node\<lparr>nd_free := nd_free node - len\<rparr>)
      else apfs_node_free_list_add bs node off len)"

definition apfs_node_free_list_unlink :: "buffer \<Rightarrow> int \<Rightarrow> int \<Rightarrow> buffer result" where
  "apfs_node_free_list_unlink raw prev cur = bind_res (rd16 raw cur) (\<lambda>x. wr16 raw prev (int x))"

text \<open>The loop of \<open>apfs_node_free_list_alloc\<close>, which counts down from the block size.\<close>

fun free_list_loop :: "nat \<Rightarrow> int \<Rightarrow> apfs_node \<Rightarrow> int \<Rightarrow> bool \<Rightarrow> int \<Rightarrow> (int \<times> apfs_node) result" where
  "free_list_loop 0 bs node len in_vals prev = Inl EFSCORRUPTED"
| "free_list_loop (Suc bound) bs node len in_vals prev =
     bind_res (rd16 (nd_data node) prev) (\<lambda>curr_off.
     let abs_off = (if in_vals then apfs_val_off_to_off bs node (int curr_off)
                    else apfs_key_off_to_off node (int curr_off)) in
     if int curr_off = APFS_BTOFF_INVALID then Inl ENOSPC
     else if abs_off + sizeof_nloc > bs then Inl EFSCORRUPTED
     else bind_res (rd16 (nd_data node) (abs_off + 2)) (\<lambda>curr_len.
       if int curr_len \<ge> len then
         if abs_off + int curr_len > bs then Inl EFSCORRUPTED
         else
           let node = (if in_vals then node\<lparr>nd_val_free_list_len := nd_val_free_list_len node - int curr_len\<rparr>
                       else node\<lparr>nd_key_free_list_len := nd_key_free_list_len node - int curr_len\<rparr>) in
           bind_res (apfs_node_free_list_unlink (nd_data node) prev abs_off) (\<lambda>raw.
           bind_res (apfs_node_free_list_add bs (node\<lparr>nd_data := raw\<rparr>)
                       (to_u16 (abs_off + len)) (to_u16 (int curr_len - len))) (\<lambda>node.
           Inr (abs_off, node)))
       else free_list_loop bound bs node len in_vals abs_off))"

definition apfs_node_free_list_alloc ::
  "int \<Rightarrow> apfs_node \<Rightarrow> int \<Rightarrow> bool \<Rightarrow> (int \<times> apfs_node) result" where
  "apfs_node_free_list_alloc bs node len in_vals =
     (if (if in_vals then nd_val_free_list_len node else nd_key_free_list_len node) < len then Inl ENOSPC
      else free_list_loop (nat bs) bs node len in_vals (free_list_head in_vals))"

definition apfs_node_alloc_key :: "int \<Rightarrow> apfs_node \<Rightarrow> int \<Rightarrow> (int \<times> apfs_node) result" where
  "apfs_node_alloc_key bs node len =
     (if nd_free node + len \<le> nd_val node
      then Inr (nd_free node, node\<lparr>nd_free := nd_free node + len\<rparr>)
      else apfs_node_free_list_alloc bs node len False)"

definition apfs_node_alloc_val :: "int \<Rightarrow> apfs_node \<Rightarrow> int \<Rightarrow> (int \<times> apfs_node) result" where
  "apfs_node_alloc_val bs node len =
     (if nd_free node + len \<le> nd_val node
      then Inr (nd_val node - len, node\<lparr>nd_val := nd_val node - len\<rparr>)
      else apfs_node_free_list_alloc bs node len True)"

definition apfs_node_total_room :: "apfs_node \<Rightarrow> int" where
  "apfs_node_total_room node =
     nd_val node - nd_free node + nd_key_free_list_len node + nd_val_free_list_len node"

text \<open>The table of contents has no place for one more entry.\<close>

definition toc_full :: "apfs_node \<Rightarrow> bool" where
  "toc_full node \<longleftrightarrow>
     sizeof_node_hdr + to_u32 ((int (nd_records node) + 1) * toc_entry_size node) > nd_key node"

definition apfs_node_has_room :: "apfs_node \<Rightarrow> int \<Rightarrow> bool \<Rightarrow> bool" where
  "apfs_node_has_room node len replace =
     (let needed_room =
        (if \<not> replace \<and> toc_full node
         then len + APFS_BTREE_TOC_ENTRY_INCREMENT * toc_entry_size node else len)
      in apfs_node_total_room node \<ge> needed_room)"

section \<open>Inserting and replacing records\<close>

text \<open>
  The body of \<open>apfs_node_insert\<close> from its label \<open>retry\<close>, with the jump to the label \<open>defrag\<close> as
  the function \<open>defrag\<close> of the query at the jump.  An allocation that fails with \<open>ENOSPC\<close> has not
  changed the node.  A value of \<open>None\<close> is the null pointer of a ghost record.
\<close>

definition node_expand_toc :: "apfs_query \<Rightarrow> apfs_query result" where
  "node_expand_toc query =
     (let node = q_node query;
          inc = APFS_BTREE_TOC_ENTRY_INCREMENT * toc_entry_size node
      in bind_res (memmove (nd_data node) (nd_key node + inc) (nd_key node) (nd_free node - nd_key node)) (\<lambda>raw.
         Inr (query\<lparr>q_node := node\<lparr>nd_data := raw, nd_key := nd_key node + inc,
                                   nd_free := nd_free node + inc\<rparr>,
                    q_key_off := q_key_off query + inc\<rparr>)))"

text \<open>The end of the insertion, once the room for the key and the value was found.\<close>

definition node_insert_finish ::
  "int \<Rightarrow> apfs_query \<Rightarrow> byte list \<Rightarrow> int \<Rightarrow> byte list option \<Rightarrow> int \<Rightarrow> apfs_query result" where
  "node_insert_finish bs query key key_off val val_off =
     (let node = q_node query in
      bind_res (memcpy (nd_data node) key_off key) (\<lambda>raw.
      bind_res (case val of None \<Rightarrow> Inr raw | Some v \<Rightarrow> memcpy raw val_off v) (\<lambda>raw.
      let query = query\<lparr>q_key_len := int (length key), q_key_off := key_off,
                        q_len := (case val of None \<Rightarrow> 0 | Some v \<Rightarrow> int (length v)),
                        q_off := (case val of None \<Rightarrow> 0 | Some v \<Rightarrow> val_off),
                        q_index := q_index query + 1, q_node := node\<lparr>nd_data := raw\<rparr>\<rparr> in
      bind_res (apfs_create_toc_entry bs query) (\<lambda>query.
      bind_res (apfs_update_node (q_node query)) (\<lambda>node. Inr (query\<lparr>q_node := node\<rparr>))))))"

definition node_insert_try ::
  "int \<Rightarrow> (apfs_query \<Rightarrow> apfs_query result) \<Rightarrow> byte list \<Rightarrow> byte list option \<Rightarrow> apfs_query \<Rightarrow> apfs_query result" where
  "node_insert_try bs defrag key val query =
     (let node = q_node query;
          inc = APFS_BTREE_TOC_ENTRY_INCREMENT * toc_entry_size node
      in if toc_full node \<and> nd_free node + inc > nd_val node then defrag query
         else bind_res (if toc_full node then node_expand_toc query else Inr query) (\<lambda>query.
           (case apfs_node_alloc_key bs (q_node query) (to_u16 (int (length key))) of
              Inl e \<Rightarrow> if e = ENOSPC then defrag query else Inl e
            | Inr (key_off, node) \<Rightarrow>
                let query = query\<lparr>q_node := node\<rparr> in
                (case val of
                   None \<Rightarrow> node_insert_finish bs query key key_off None 0
                 | Some v \<Rightarrow>
                     (case apfs_node_alloc_val bs node (to_u16 (int (length v))) of
                        Inl e \<Rightarrow> if e = ENOSPC then defrag query else Inl e
                      | Inr (val_off, node) \<Rightarrow>
                          node_insert_finish bs (query\<lparr>q_node := node\<rparr>) key key_off (Some v) val_off)))))"

definition apfs_node_insert ::
  "int \<Rightarrow> apfs_query \<Rightarrow> byte list \<Rightarrow> byte list option \<Rightarrow> apfs_query result" where
  "apfs_node_insert bs query key val =
     node_insert_try bs
       (\<lambda>query. bind_res (apfs_defragment_node bs (q_node query)) (\<lambda>node.
          node_insert_try bs (\<lambda>_. Inl EFSCORRUPTED) key val (query\<lparr>q_node := node\<rparr>)))
       key val query"

text \<open>
  \<open>node_replace_part bs alloc old_off old_len new\<close>: the room for the new key or value of a record,
  in place if it is not longer than the old one.
\<close>

definition node_replace_part ::
  "int \<Rightarrow> (int \<Rightarrow> apfs_node \<Rightarrow> int \<Rightarrow> (int \<times> apfs_node) result) \<Rightarrow> apfs_node \<Rightarrow> int \<Rightarrow> int \<Rightarrow> int
    \<Rightarrow> apfs_node \<times> (int \<times> apfs_node) result" where
  "node_replace_part bs alloc node old_off old_len new_len =
     (if new_len \<le> old_len then
        (node, bind_res (apfs_node_free_range bs node (to_u16 (old_off + new_len)) (to_u16 (old_len - new_len)))
                 (\<lambda>node. Inr (old_off, node)))
      else case apfs_node_free_range bs node (to_u16 old_off) (to_u16 old_len) of
             Inl e \<Rightarrow> (node, Inl e)
           | Inr node \<Rightarrow> (node, alloc bs node (to_u16 new_len)))"

definition node_replace_finish ::
  "int \<Rightarrow> apfs_query \<Rightarrow> (int \<times> byte list) option \<Rightarrow> (int \<times> byte list) option \<Rightarrow> apfs_query result" where
  "node_replace_finish bs query key val =
     bind_res (case key of
         None \<Rightarrow> Inr query
       | Some (key_off, k) \<Rightarrow> bind_res (memcpy (nd_data (q_node query)) key_off k) (\<lambda>raw.
           Inr (query\<lparr>q_key_off := key_off, q_key_len := int (length k),
                      q_node := (q_node query)\<lparr>nd_data := raw\<rparr>\<rparr>))) (\<lambda>query.
     bind_res (case val of
         None \<Rightarrow> Inr query
       | Some (val_off, v) \<Rightarrow> bind_res (memcpy (nd_data (q_node query)) val_off v) (\<lambda>raw.
           Inr (query\<lparr>q_off := val_off, q_len := int (length v),
                      q_node := (q_node query)\<lparr>nd_data := raw\<rparr>\<rparr>))) (\<lambda>query.
     bind_res (if apfs_node_has_fixed_kv_size (q_node query) then Inr query
               else apfs_node_update_toc_entry bs query) (\<lambda>query.
     bind_res (apfs_update_node (q_node query)) (\<lambda>node. Inr (query\<lparr>q_node := node\<rparr>)))))"

definition node_replace_try ::
  "int \<Rightarrow> (apfs_query \<Rightarrow> apfs_query result) \<Rightarrow> byte list option \<Rightarrow> byte list option \<Rightarrow> apfs_query
    \<Rightarrow> apfs_query result" where
  "node_replace_try bs defrag key val query =
     (let (node1, kres) =
        (case key of
           None \<Rightarrow> (q_node query, Inr (0, q_node query))
         | Some k \<Rightarrow> node_replace_part bs apfs_node_alloc_key (q_node query)
                       (q_key_off query) (q_key_len query) (int (length k)))
      in case kres of
           Inl e \<Rightarrow> if e = ENOSPC then defrag (query\<lparr>q_node := node1\<rparr>) else Inl e
         | Inr (key_off, node) \<Rightarrow>
             (let (node2, vres) =
                (case val of
                   None \<Rightarrow> (node, Inr (0, node))
                 | Some v \<Rightarrow> node_replace_part bs apfs_node_alloc_val node
                               (q_off query) (q_len query) (int (length v)))
              in case vres of
                   Inl e \<Rightarrow> if e = ENOSPC then defrag (query\<lparr>q_node := node2\<rparr>) else Inl e
                 | Inr (val_off, node) \<Rightarrow>
                     node_replace_finish bs (query\<lparr>q_node := node\<rparr>)
                       (map_option (Pair key_off) key) (map_option (Pair val_off) val)))"

text \<open>The label \<open>defrag\<close> of \<open>apfs_node_replace\<close> up to the jump back to \<open>retry\<close>.\<close>

definition node_replace_defrag ::
  "int \<Rightarrow> byte list option \<Rightarrow> byte list option \<Rightarrow> apfs_query \<Rightarrow> apfs_query result" where
  "node_replace_defrag bs key val query =
     (if apfs_node_has_fixed_kv_size (q_node query) then Inl EFSCORRUPTED
      else
        let query = (if key \<noteq> None then query\<lparr>q_key_len := 0\<rparr> else query);
            query = (if val \<noteq> None then query\<lparr>q_len := 0\<rparr> else query)
        in bind_res (apfs_node_update_toc_entry bs query) (\<lambda>query.
           bind_res (apfs_defragment_node bs (q_node query)) (\<lambda>node.
           bind_res (apfs_node_locate_value bs node (q_index query) (q_off query)) (\<lambda>(len, off).
           bind_res (apfs_node_locate_key bs node (q_index query) (q_key_off query)) (\<lambda>(key_len, key_off).
           Inr (query\<lparr>q_node := node, q_len := len, q_off := off,
                      q_key_len := key_len, q_key_off := key_off\<rparr>))))))"

definition apfs_node_replace ::
  "int \<Rightarrow> apfs_query \<Rightarrow> byte list option \<Rightarrow> byte list option \<Rightarrow> apfs_query result" where
  "apfs_node_replace bs query key val =
     node_replace_try bs
       (\<lambda>query. bind_res (node_replace_defrag bs key val query)
                   (node_replace_try bs (\<lambda>_. Inl EFSCORRUPTED) key val))
       key val query"

end
