(* ===== verification/NodeRecords.thy ===== *)
theory NodeRecords
  imports Node
begin

text \<open>
  The records of a node.  \<open>node_repr bs node rs\<close> says that the block of \<open>node\<close> holds the records
  \<open>rs\<close>, each a key with a value, in the order of the table of contents.  Shown here: the records
  are located inside of the block; the copy of a range of records, the defragmentation, the
  expansion of the table of contents and the insertion act on the list of records as list
  operations; and the header that \<open>apfs_update_node\<close> writes is read back unchanged.
\<close>

section \<open>Locating records\<close>

definition entry_key :: "int \<Rightarrow> apfs_node \<Rightarrow> byte list \<Rightarrow> int \<times> int" where
  "entry_key bs node e =
     (let off = nd_key node + int (le_val (take 2 e));
          len = (if apfs_node_has_fixed_kv_size node
                 then (if nd_tree_type node = APFS_OBJECT_TYPE_OMAP_SNAPSHOT then 8 else 16)
                 else int (le_val (take 2 (drop 2 e))))
      in if off + len > bs then (0, off) else (len, off))"

definition entry_val :: "int \<Rightarrow> apfs_node \<Rightarrow> byte list \<Rightarrow> int \<times> int" where
  "entry_val bs node e =
     (let v = int (le_val (take 2 (drop (if apfs_node_has_fixed_kv_size node then 2 else 4) e)));
          off = value_end bs node - v;
          len = (if apfs_node_has_fixed_kv_size node
                 then (if nd_tree_type node = APFS_OBJECT_TYPE_FREE_QUEUE then 8
                       else if apfs_node_is_leaf node then 16 else 8)
                 else int (le_val (take 2 (drop 6 e))))
      in if apfs_node_has_fixed_kv_size node \<and> nd_tree_type node = APFS_OBJECT_TYPE_FREE_QUEUE
            \<and> v = APFS_BTOFF_INVALID then (0, 0)
         else if off < 0 \<or> off + len > bs then (0, off) else (len, off))"

definition toc_entry :: "apfs_node \<Rightarrow> int \<Rightarrow> byte list result" where
  "toc_entry node i = rd_bytes (nd_data node) (sizeof_node_hdr + toc_entry_size node * i) (toc_entry_size node)"

lemma toc_entry_size_cases:
  "apfs_node_has_fixed_kv_size node \<Longrightarrow> toc_entry_size node = 4"
  "\<not> apfs_node_has_fixed_kv_size node \<Longrightarrow> toc_entry_size node = 8"
  by (simp_all add: toc_entry_size_def)

lemma toc_entry_size_pos [simp]: "0 < toc_entry_size node" "0 \<le> toc_entry_size node" "4 \<le> toc_entry_size node"
  "toc_entry_size node \<le> 8" "toc_entry_size node \<noteq> 0"
  by (simp_all add: toc_entry_size_def)

lemma rd_le_part:
  assumes "rd_bytes b off len = Inr e" "0 \<le> d" "d + int n \<le> len" "0 < n"
  shows "rd_le n b (off + d) = Inr (le_val (take n (drop (nat d) e)))"
proof -
  have bnd: "0 \<le> off" "off + len \<le> int (length b)" and e: "e = take (nat len) (drop (nat off) b)"
    using assms by (auto simp: rd_bytes_def split: if_splits)
  have "nat (off + d) = nat d + nat off" using bnd assms by linarith
  moreover have "n + nat d \<le> nat len" using assms by linarith
  ultimately have "take n (drop (nat (off + d)) b) = take n (drop (nat d) e)"
    by (simp add: e take_drop min_absorb1 add.commute)
  then show ?thesis
    using bnd assms by (simp add: rd_le_Inr)
qed

lemma in_bounds_index:
  assumes "- (2 ^ 31) \<le> i" "i < 2 ^ 31" "nd_records node \<le> 2 ^ 16"
  shows "index_out_of_bounds node i \<longleftrightarrow> i < 0 \<or> int (nd_records node) \<le> i"
proof (cases "0 \<le> i")
  case True
  then have "to_u32 i = i" using assms by (simp add: to_u32_def)
  then show ?thesis using True by (auto simp: index_out_of_bounds_def)
next
  case False
  have "to_u32 i = (i + 2 ^ 32) mod 2 ^ 32"
    by (simp add: to_u32_def)
  also have "\<dots> = i + 2 ^ 32"
    using False assms by (intro mod_pos_pos_trivial) auto
  finally have "to_u32 i = i + 2 ^ 32" .
  then show ?thesis using False assms by (auto simp: index_out_of_bounds_def)
qed

lemma locate_key_entry:
  assumes "\<not> index_out_of_bounds node i" "toc_entry node i = Inr e"
  shows "apfs_node_locate_key bs node i off = Inr (entry_key bs node e)"
proof (cases "apfs_node_has_fixed_kv_size node")
  case True
  then have "rd16 (nd_data node) (56 + 4 * i) = Inr (le_val (take 2 e))"
    using rd_le_part [of "nd_data node" "56 + 4 * i" 4 e 0 2] assms(2)
    by (simp add: toc_entry_def toc_entry_size_cases)
  then show ?thesis
    using assms(1) True by (simp add: apfs_node_locate_key_def entry_key_def Let_def)
next
  case False
  then have "rd16 (nd_data node) (56 + 8 * i) = Inr (le_val (take 2 e))"
    "rd16 (nd_data node) (56 + 8 * i + 2) = Inr (le_val (take 2 (drop 2 e)))"
    using rd_le_part [of "nd_data node" "56 + 8 * i" 8 e 0 2]
      rd_le_part [of "nd_data node" "56 + 8 * i" 8 e 2 2] assms(2)
    by (simp_all add: toc_entry_def toc_entry_size_cases)
  then show ?thesis
    using assms(1) False by (simp add: apfs_node_locate_key_def entry_key_def Let_def)
qed

lemma locate_value_entry:
  assumes "\<not> index_out_of_bounds node i" "toc_entry node i = Inr e"
  shows "apfs_node_locate_value bs node i off = Inr (entry_val bs node e)"
proof (cases "apfs_node_has_fixed_kv_size node")
  case True
  then have "rd16 (nd_data node) (56 + 4 * i + 2) = Inr (le_val (take 2 (drop 2 e)))"
    using rd_le_part [of "nd_data node" "56 + 4 * i" 4 e 2 2] assms(2)
    by (simp add: toc_entry_def toc_entry_size_cases)
  then show ?thesis
    using assms(1) True by (simp add: apfs_node_locate_value_def entry_val_def Let_def)
next
  case False
  then have "rd16 (nd_data node) (56 + 8 * i + 4) = Inr (le_val (take 2 (drop 4 e)))"
    "rd16 (nd_data node) (56 + 8 * i + 6) = Inr (le_val (take 2 (drop 6 e)))"
    using rd_le_part [of "nd_data node" "56 + 8 * i" 8 e 4 2]
      rd_le_part [of "nd_data node" "56 + 8 * i" 8 e 6 2] assms(2)
    by (simp_all add: toc_entry_def toc_entry_size_cases)
  then show ?thesis
    using assms(1) False by (simp add: apfs_node_locate_value_def entry_val_def Let_def)
qed

lemma toc_entry_ok:
  assumes "apfs_node_is_valid bs node" "int (length (nd_data node)) = bs" "0 \<le> i" "i < int (nd_records node)"
  obtains e where "toc_entry node i = Inr e"
proof -
  have "toc_entry_size node * (i + 1) \<le> toc_entry_size node * int (nd_records node)"
    using assms by (intro mult_left_mono) auto
  then have "56 + toc_entry_size node * i + toc_entry_size node \<le> int (length (nd_data node))"
    using assms by (simp add: apfs_node_is_valid_def Let_def algebra_simps split: if_splits)
  then show thesis
    using that assms(3) rd_bytes_ok [of "56 + toc_entry_size node * i" "toc_entry_size node" "nd_data node"]
    by (auto simp: toc_entry_def)
qed

lemma valid_records: "apfs_node_is_valid bs node \<Longrightarrow> nd_records node \<le> 2 ^ 16"
  by (simp add: apfs_node_is_valid_def Let_def split: if_splits)

lemma valid_key:
  assumes "apfs_node_is_valid bs node"
  shows "56 \<le> nd_key node \<and> nd_key node \<le> bs"
proof -
  have "0 \<le> int (nd_records node) * toc_entry_size node"
    by (intro mult_nonneg_nonneg) simp_all
  moreover have "nd_key node \<le> bs" "int (nd_records node) * toc_entry_size node \<le> nd_key node - 56"
    using assms by (auto simp: apfs_node_is_valid_def Let_def split: if_splits)
  ultimately show ?thesis by linarith
qed

text \<open>
  The search for a record in a node that passed the check of \<open>apfs_read_node\<close> reads no byte outside
  of the block, and the range it returns, if it is not empty, is inside of the block.
\<close>

lemma locate_key_bounds:
  assumes "apfs_node_is_valid bs node" "int (length (nd_data node)) = bs" "- (2 ^ 31) \<le> i" "i < 2 ^ 31"
  shows "\<exists>len off'. apfs_node_locate_key bs node i off = Inr (len, off') \<and> 0 \<le> len \<and>
    (0 < len \<longrightarrow> nd_key node \<le> off' \<and> off' + len \<le> bs)"
proof (cases "index_out_of_bounds node i")
  case True
  then show ?thesis by (simp add: apfs_node_locate_key_def)
next
  case False
  then have "0 \<le> i" "i < int (nd_records node)"
    using in_bounds_index assms valid_records by auto
  then obtain e where "toc_entry node i = Inr e"
    using toc_entry_ok assms by blast
  then show ?thesis
    using False by (auto simp: locate_key_entry entry_key_def Let_def)
qed

lemma locate_value_bounds:
  assumes "apfs_node_is_valid bs node" "int (length (nd_data node)) = bs" "- (2 ^ 31) \<le> i" "i < 2 ^ 31"
  shows "\<exists>len off'. apfs_node_locate_value bs node i off = Inr (len, off') \<and> 0 \<le> len \<and>
    (0 < len \<longrightarrow> 0 \<le> off' \<and> off' + len \<le> bs)"
proof (cases "index_out_of_bounds node i")
  case True
  then show ?thesis by (simp add: apfs_node_locate_value_def)
next
  case False
  then have "0 \<le> i" "i < int (nd_records node)"
    using in_bounds_index assms valid_records by auto
  then obtain e where "toc_entry node i = Inr e"
    using toc_entry_ok assms by blast
  then show ?thesis
    using False by (auto simp: locate_value_entry entry_val_def Let_def)
qed

section \<open>Creating an entry of the table of contents\<close>

definition mk_entry :: "int \<Rightarrow> apfs_query \<Rightarrow> byte list" where
  "mk_entry bs q =
     (let node = q_node q in
      if apfs_node_has_fixed_kv_size node then
        le_field 2 (q_key_off q - nd_key node) @
        le_field 2 (if q_len q = 0 then APFS_BTOFF_INVALID else value_end bs node - q_off q)
      else
        le_field 2 (q_key_off q - nd_key node) @ le_field 2 (q_key_len q) @
        le_field 2 (value_end bs node - q_off q) @ le_field 2 (q_len q))"

lemma length_mk_entry: "int (length (mk_entry bs q)) = toc_entry_size (q_node q)"
  by (simp add: mk_entry_def toc_entry_size_def Let_def)

text \<open>The bytes \<open>e\<close> inserted at \<open>p\<close>, which shifts the \<open>l\<close> bytes there.\<close>

definition shift_in :: "nat \<Rightarrow> nat \<Rightarrow> byte list \<Rightarrow> buffer \<Rightarrow> buffer" where
  "shift_in p l e d = take p d @ e @ take l (drop p d) @ drop (p + l + length e) d"

lemma length_shift_in: "p + l + length e \<le> length d \<Longrightarrow> length (shift_in p l e d) = length d"
  by (simp add: shift_in_def)

lemma rd_shift_in_before:
  assumes "off + len \<le> int p" "p + l + length e \<le> length d"
  shows "rd_bytes (shift_in p l e d) off len = rd_bytes d off len"
proof (cases "0 < len \<and> 0 \<le> off")
  case True
  then have "nat len + nat off \<le> p" "nat off \<le> p" using assms by linarith+
  then show ?thesis
    using assms by (simp add: rd_bytes_def length_shift_in) (simp add: shift_in_def take_drop min_absorb1)
next
  case False
  then show ?thesis using assms by (auto simp: rd_bytes_def length_shift_in)
qed

lemma rd_shift_in_new:
  assumes "p + l + length e \<le> length d"
  shows "rd_bytes (shift_in p l e d) (int p) (int (length e)) = Inr e"
  using assms by (auto simp: shift_in_def intro!: rd_bytes_append)

lemma rd_shift_in_moved:
  assumes "int p \<le> off" "off + len \<le> int (p + l)" "p + l + length e \<le> length d"
  shows "rd_bytes (shift_in p l e d) (off + int (length e)) len = rd_bytes d off len"
proof (cases "0 < len")
  case True
  define a n where "a = nat off - p" and "n = nat len"
  have o: "nat off = p + a" "nat (off + int (length e)) = p + length e + a"
    "a + n \<le> l" "nat len = n" "a \<le> l" "p + l \<le> length d"
    using assms True by (auto simp: a_def n_def)
  have "take n (drop a (take l (drop p d))) = take n (drop a (drop p d))"
    using o by (simp add: take_drop min_absorb1 add.commute)
  then have "take n (drop (p + length e + a) (shift_in p l e d)) = take n (drop (p + a) d)"
    using o by (simp add: shift_in_def add.commute)
  then show ?thesis
    using assms True o by (simp add: rd_bytes_def length_shift_in)
next
  case False
  then show ?thesis by (auto simp: rd_bytes_def)
qed

lemma rd_shift_in_after:
  assumes "int (p + l + length e) \<le> off" "p + l + length e \<le> length d"
  shows "rd_bytes (shift_in p l e d) off len = rd_bytes d off len"
proof (cases "0 < len")
  case True
  define a where "a = nat off - (p + l + length e)"
  have "nat off = p + length e + l + a" using assms by (simp add: a_def)
  then have "drop (nat off) (shift_in p l e d) = drop (nat off) d"
    using assms by (simp add: shift_in_def add.commute add.left_commute)
  then show ?thesis
    using assms True by (simp add: rd_bytes_def length_shift_in)
next
  case False
  then show ?thesis by (auto simp: rd_bytes_def)
qed

lemma store_two_fields:
  assumes "off = int (length xs)" "length a = 2" "length b = 2" "length ws = 4"
  shows "store_fields (xs @ ws @ zs) [(off + 2, b), (off, a)] = Inr (xs @ a @ b @ zs)"
proof -
  obtain w1 w2 where ws: "ws = w1 @ w2" "length w1 = 2" "length w2 = 2"
  proof
    show "ws = take 2 ws @ drop 2 ws" by (simp only: append_take_drop_id)
  qed (use assms in auto)
  then show ?thesis
    using assms memcpy_append [of "off + 2" "xs @ w1" w2 b zs] memcpy_append [of off xs w1 a "b @ zs"]
    by simp
qed

lemma store_four_fields:
  assumes "off = int (length xs)" "length a = 2" "length b = 2" "length c = 2" "length d = 2" "length ws = 8"
  shows "store_fields (xs @ ws @ zs) [(off + 4, c), (off + 6, d), (off, a), (off + 2, b)] =
    Inr (xs @ a @ b @ c @ d @ zs)"
proof -
  obtain w1 w2 w3 w4 where ws: "ws = w1 @ w2 @ w3 @ w4" "length w1 = 2" "length w2 = 2" "length w3 = 2" "length w4 = 2"
  proof
    show "ws = take 2 ws @ take 2 (drop 2 ws) @ take 2 (drop 2 (drop 2 ws)) @ drop 2 (drop 2 (drop 2 ws))"
      by (simp only: append_take_drop_id)
  qed (use assms in auto)
  then show ?thesis
    using assms memcpy_append [of "off + 4" "xs @ w1 @ w2" w3 c "w4 @ zs"]
      memcpy_append [of "off + 6" "xs @ w1 @ w2 @ c" w4 d zs]
      memcpy_append [of off xs w1 a "w2 @ c @ d @ zs"]
      memcpy_append [of "off + 2" "xs @ a" w2 b "c @ d @ zs"]
    by simp
qed


lemma create_toc_entry_data:
  assumes "0 \<le> q_index q" "q_index q \<le> int (nd_records (q_node q))"
    and "56 + toc_entry_size (q_node q) * (int (nd_records (q_node q)) + 1) \<le> int (length (nd_data (q_node q)))"
  shows "apfs_create_toc_entry bs q =
    Inr (q\<lparr>q_node := (q_node q)\<lparr>
      nd_data := shift_in (nat (56 + toc_entry_size (q_node q) * q_index q))
                   (nat (toc_entry_size (q_node q) * (int (nd_records (q_node q)) - q_index q)))
                   (mk_entry bs q) (nd_data (q_node q)),
      nd_records := nat (to_u32 (int (nd_records (q_node q)) + 1))\<rparr>\<rparr>)"
proof -
  let ?n = "q_node q" let ?es = "toc_entry_size ?n" and ?d = "nd_data ?n"
  define p where "p = nat (56 + ?es * q_index q)"
  define l where "l = nat (?es * (int (nd_records ?n) - q_index q))"
  define es where "es = nat ?es"
  have nn: "0 \<le> ?es * q_index q" "0 \<le> ?es * (int (nd_records ?n) - q_index q)"
    using assms by (auto intro!: mult_nonneg_nonneg)
  then have p: "int p = 56 + ?es * q_index q" and l: "int l = ?es * (int (nd_records ?n) - q_index q)"
    and es: "int es = ?es"
    by (simp_all add: p_def l_def es_def)
  have bnd: "p + l + es \<le> length ?d"
    using assms(3) p l es by (simp add: algebra_simps)
  define xs ws where "xs = take p ?d" and "ws = drop p ?d"
  have d: "?d = xs @ ws" and lx: "length xs = p" and lw: "l + es \<le> length ws"
    using bnd by (auto simp: xs_def ws_def)
  have mv: "memmove ?d (int p + ?es) (int p) ((int (nd_records ?n) - q_index q) * ?es) =
      Inr (xs @ take es ws @ take l ws @ drop (es + l) ws)"
    unfolding d using lw lx l es
    by (subst memmove_append [of _ xs es _ 0 _ l]) (auto simp: algebra_simps)
  have sh: "shift_in p l e ?d = xs @ e @ take l ws @ drop (es + l) ws" if "length e = es" for e
    using that lx by (simp add: shift_in_def xs_def ws_def ac_simps)
  have le: "length (mk_entry bs q) = es"
    using length_mk_entry [of bs q] es by linarith
  show ?thesis
  proof (cases "apfs_node_has_fixed_kv_size ?n")
    case True
    then have "es = 4" using es toc_entry_size_cases(1) by fastforce
    then show ?thesis
      using True mv sh [OF le] lx lw p l
        store_two_fields [of "int p" xs "le_field 2 (q_key_off q - nd_key ?n)"
          "le_field 2 (if q_len q = 0 then APFS_BTOFF_INVALID else value_end bs ?n - q_off q)" "take es ws"
          "take l ws @ drop (es + l) ws"]
      by (simp add: apfs_create_toc_entry_def Let_def mk_entry_def del: store_fields.simps
          flip: p_def l_def)
  next
    case False
    then have "es = 8" using es toc_entry_size_cases(2) by fastforce
    then show ?thesis
      using False mv sh [OF le] lx lw p l
        store_four_fields [of "int p" xs "le_field 2 (q_key_off q - nd_key ?n)"
          "le_field 2 (q_key_len q)" "le_field 2 (value_end bs ?n - q_off q)" "le_field 2 (q_len q)" "take es ws"
          "take l ws @ drop (es + l) ws"]
      by (simp add: apfs_create_toc_entry_def Let_def mk_entry_def del: store_fields.simps
          flip: p_def l_def)
  qed
qed


section \<open>The records of a node\<close>

definition entry_holds :: "int \<Rightarrow> apfs_node \<Rightarrow> byte list \<Rightarrow> byte list \<times> byte list \<Rightarrow> bool" where
  "entry_holds bs node e kv \<longleftrightarrow>
     (\<exists>ko. entry_key bs node e = (int (length (fst kv)), ko) \<and> nd_key node \<le> ko \<and>
        ko + int (length (fst kv)) \<le> nd_free node \<and>
        rd_bytes (nd_data node) ko (int (length (fst kv))) = Inr (fst kv)) \<and>
     (\<exists>vo. entry_val bs node e = (int (length (snd kv)), vo) \<and>
        (snd kv = [] \<or> nd_val node \<le> vo \<and> vo + int (length (snd kv)) \<le> value_end bs node \<and>
           rd_bytes (nd_data node) vo (int (length (snd kv))) = Inr (snd kv)))"

text \<open>The records that fit the kind of a node: its table of contents has to be able to describe them.\<close>

definition fits_kind :: "apfs_node \<Rightarrow> byte list \<times> byte list \<Rightarrow> bool" where
  "fits_kind node kv \<longleftrightarrow>
     (if apfs_node_has_fixed_kv_size node then
        length (fst kv) = (if nd_tree_type node = APFS_OBJECT_TYPE_OMAP_SNAPSHOT then 8 else 16) \<and>
        (if nd_tree_type node = APFS_OBJECT_TYPE_FREE_QUEUE then length (snd kv) \<in> {0, 8}
         else length (snd kv) = (if apfs_node_is_leaf node then 16 else 8))
      else True)"

definition node_repr :: "int \<Rightarrow> apfs_node \<Rightarrow> (byte list \<times> byte list) list \<Rightarrow> bool" where
  "node_repr bs node rs \<longleftrightarrow>
     int (length (nd_data node)) = bs \<and> bs \<le> 65536 \<and> length rs = nd_records node \<and>
     56 + toc_entry_size node * int (length rs) \<le> nd_key node \<and> nd_key node \<le> nd_free node \<and>
     nd_free node \<le> nd_val node \<and> nd_val node \<le> value_end bs node \<and>
     (\<forall>r \<in> set rs. fits_kind node r) \<and>
     (\<forall>i < length rs. \<exists>e. toc_entry node (int i) = Inr e \<and> entry_holds bs node e (rs ! i))"

lemma value_end_le: "value_end bs node \<le> bs"
  by (simp add: value_end_def)

lemma le_field_u16: "0 \<le> x \<Longrightarrow> x < 65536 \<Longrightarrow> int (le_val (le_field 2 x)) = x"
  by simp

lemma entry_key_mk:
  assumes "fits_kind (q_node q) (k, v)" "q_key_len q = int (length k)" "56 \<le> nd_key (q_node q)"
    "nd_key (q_node q) \<le> q_key_off q" "q_key_off q + int (length k) \<le> bs" "bs \<le> 65536"
  shows "entry_key bs (q_node q) (mk_entry bs q) = (int (length k), q_key_off q)"
  using assms le_field_u16 [of "q_key_off q - nd_key (q_node q)"]
  by (auto simp: entry_key_def mk_entry_def fits_kind_def Let_def split: if_splits)

lemma entry_val_mk:
  assumes "fits_kind (q_node q) (k, v)" "q_len q = int (length v)"
    "v \<noteq> [] \<Longrightarrow> 56 \<le> q_off q \<and> q_off q + int (length v) \<le> value_end bs (q_node q)" "bs \<le> 65536"
  shows "\<exists>vo. entry_val bs (q_node q) (mk_entry bs q) = (int (length v), vo) \<and> (v = [] \<or> vo = q_off q)"
proof (cases "v = []")
  case True
  then show ?thesis
    using assms by (auto simp: entry_val_def mk_entry_def fits_kind_def Let_def split: if_splits)
next
  case False
  then have "0 < length v" by simp
  with assms(3) False value_end_le [of bs "q_node q"]
  have "0 \<le> value_end bs (q_node q) - q_off q" "value_end bs (q_node q) - q_off q < 65535"
    "q_off q + int (length v) \<le> bs" "0 \<le> q_off q" "int (length v) < 65536"
    using assms(4) by auto
  then show ?thesis
    using assms(1,2,4) False le_field_u16 [of "value_end bs (q_node q) - q_off q"]
    by (auto simp: entry_val_def mk_entry_def fits_kind_def Let_def split: if_splits)
qed

lemma nth_insert_at:
  assumes "i \<le> length xs" "j \<le> length xs"
  shows "insert_at i x xs ! j = (if j < i then xs ! j else if j = i then x else xs ! (j - 1))"
  using assms by (auto simp: insert_at_def nth_append nth_Cons' min_def)

lemma set_insert_at: "set (insert_at i x xs) = insert x (set xs)"
  by (simp add: insert_at_def) (metis append_take_drop_id set_append)

lemma entry_same_header:
  assumes "nd_tree_type n' = nd_tree_type n" "nd_flags n' = nd_flags n" "nd_key n' = nd_key n"
  shows "entry_key bs n' e = entry_key bs n e" "entry_val bs n' e = entry_val bs n e"
    "toc_entry_size n' = toc_entry_size n" "value_end bs n' = value_end bs n"
    "apfs_node_is_root n' = apfs_node_is_root n" "apfs_node_is_leaf n' = apfs_node_is_leaf n"
    "apfs_node_has_fixed_kv_size n' = apfs_node_has_fixed_kv_size n"
    "fits_kind n' kv = fits_kind n kv"
  using assms
  by (simp_all add: entry_key_def entry_val_def toc_entry_size_def value_end_def fits_kind_def
      apfs_node_is_root_def apfs_node_is_leaf_def apfs_node_has_fixed_kv_size_def cong: if_cong)

text \<open>The records do not depend on the gap between the key and the value areas.\<close>

lemma entry_holds_frame:
  assumes holds: "entry_holds bs n e kv"
    and hdr: "nd_tree_type n' = nd_tree_type n" "nd_flags n' = nd_flags n" "nd_key n' = nd_key n"
    and gap: "nd_free n \<le> nd_free n'" "nd_val n' \<le> nd_val n"
    and keys: "\<And>off len. nd_key n \<le> off \<Longrightarrow> off + len \<le> nd_free n \<Longrightarrow>
      rd_bytes (nd_data n') off len = rd_bytes (nd_data n) off len"
    and vals: "\<And>off len. nd_val n \<le> off \<Longrightarrow> rd_bytes (nd_data n') off len = rd_bytes (nd_data n) off len"
  shows "entry_holds bs n' e kv"
proof -
  obtain ko where ko: "entry_key bs n e = (int (length (fst kv)), ko)" "nd_key n \<le> ko"
      "ko + int (length (fst kv)) \<le> nd_free n" "rd_bytes (nd_data n) ko (int (length (fst kv))) = Inr (fst kv)"
    using holds by (auto simp: entry_holds_def)
  obtain vo where vo: "entry_val bs n e = (int (length (snd kv)), vo)"
      "snd kv = [] \<or> nd_val n \<le> vo \<and> vo + int (length (snd kv)) \<le> value_end bs n \<and>
         rd_bytes (nd_data n) vo (int (length (snd kv))) = Inr (snd kv)"
    using holds by (auto simp: entry_holds_def)
  have "rd_bytes (nd_data n') ko (int (length (fst kv))) = Inr (fst kv)"
    using keys ko by simp
  moreover have "snd kv = [] \<or> rd_bytes (nd_data n') vo (int (length (snd kv))) = Inr (snd kv)"
    using vals vo by auto
  ultimately show ?thesis
    unfolding entry_holds_def entry_same_header [OF hdr] using ko vo gap hdr by auto
qed

lemma toc_bytes_nonneg: "0 \<le> toc_entry_size n * int c"
  by (intro mult_nonneg_nonneg) simp_all

lemma node_repr_key: "node_repr bs n rs \<Longrightarrow> 56 \<le> nd_key n"
  using toc_bytes_nonneg [of n "length rs"] unfolding node_repr_def by linarith

lemma node_repr_frame:
  assumes repr: "node_repr bs n rs"
    and hdr: "nd_tree_type n' = nd_tree_type n" "nd_flags n' = nd_flags n" "nd_key n' = nd_key n"
      "nd_records n' = nd_records n"
    and gap: "nd_free n \<le> nd_free n'" "nd_free n' \<le> nd_val n'" "nd_val n' \<le> nd_val n"
    and len: "length (nd_data n') = length (nd_data n)"
    and keys: "\<And>off len. 56 \<le> off \<Longrightarrow> off + len \<le> nd_free n \<Longrightarrow>
      rd_bytes (nd_data n') off len = rd_bytes (nd_data n) off len"
    and vals: "\<And>off len. nd_val n \<le> off \<Longrightarrow> rd_bytes (nd_data n') off len = rd_bytes (nd_data n) off len"
  shows "node_repr bs n' rs"
proof -
  have b: "int (length (nd_data n)) = bs" "bs \<le> 65536" "length rs = nd_records n"
    "56 + toc_entry_size n * int (length rs) \<le> nd_key n" "nd_key n \<le> nd_free n" "nd_free n \<le> nd_val n"
    "nd_val n \<le> value_end bs n" "\<And>r. r \<in> set rs \<Longrightarrow> fits_kind n r"
    using repr by (auto simp: node_repr_def)
  have "\<exists>e. toc_entry n' (int i) = Inr e \<and> entry_holds bs n' e (rs ! i)" if i: "i < length rs" for i
  proof -
    obtain e where e: "toc_entry n (int i) = Inr e" "entry_holds bs n e (rs ! i)"
      using repr i by (auto simp: node_repr_def)
    have "toc_entry_size n * (int i + 1) \<le> toc_entry_size n * int (length rs)"
      using i by (intro mult_left_mono) auto
    then have "56 + toc_entry_size n * int i + toc_entry_size n \<le> nd_free n"
      using b by (simp add: algebra_simps)
    then have "toc_entry n' (int i) = toc_entry n (int i)"
      unfolding toc_entry_def entry_same_header [OF hdr(1-3)] by (intro keys) auto
    moreover have "entry_holds bs n' e (rs ! i)"
      using node_repr_key [OF repr] by (intro entry_holds_frame [OF e(2) hdr(1-3) gap(1,3) _ vals]) (auto intro!: keys)
    ultimately show ?thesis using e by auto
  qed
  then show ?thesis
    using b gap len hdr unfolding node_repr_def entry_same_header [OF hdr(1-3)] by auto
qed


lemma node_repr_bounds:
  assumes "node_repr bs n rs"
  shows "int (length (nd_data n)) = bs" "bs \<le> 65536" "nd_records n = length rs"
    "56 + toc_entry_size n * int (length rs) \<le> nd_key n" "nd_key n \<le> nd_free n" "nd_free n \<le> nd_val n"
    "nd_val n \<le> value_end bs n" "nd_val n \<le> bs" "\<And>r. r \<in> set rs \<Longrightarrow> fits_kind n r"
  using assms value_end_le [of bs n] by (auto simp: node_repr_def)

lemma node_repr_records: 
  assumes "node_repr bs n rs"
  shows "length rs < 16384"
proof -
  have "4 * int (length rs) \<le> toc_entry_size n * int (length rs)"
    by (intro mult_right_mono) simp_all
  then show ?thesis
    using node_repr_bounds [OF assms] node_repr_key [OF assms] by linarith
qed

text \<open>A new entry for a key and a value that are already in the areas of the node.\<close>

lemma create_toc_entry_repr:
  assumes repr: "node_repr bs (q_node q) rs"
    and idx: "q_index q = int i" "i \<le> length rs"
    and room: "56 + toc_entry_size (q_node q) * (int (length rs) + 1) \<le> nd_key (q_node q)"
    and kind: "fits_kind (q_node q) (k, v)"
    and key: "q_key_len q = int (length k)" "nd_key (q_node q) \<le> q_key_off q"
      "q_key_off q + int (length k) \<le> nd_free (q_node q)"
      "rd_bytes (nd_data (q_node q)) (q_key_off q) (int (length k)) = Inr k"
    and val: "q_len q = int (length v)" "v \<noteq> [] \<Longrightarrow> nd_val (q_node q) \<le> q_off q \<and>
      q_off q + int (length v) \<le> value_end bs (q_node q) \<and>
      rd_bytes (nd_data (q_node q)) (q_off q) (int (length v)) = Inr v"
  shows "\<exists>d. apfs_create_toc_entry bs q = Inr (q\<lparr>q_node := (q_node q)\<lparr>nd_data := d,
      nd_records := Suc (nd_records (q_node q))\<rparr>\<rparr>) \<and>
    node_repr bs ((q_node q)\<lparr>nd_data := d, nd_records := Suc (nd_records (q_node q))\<rparr>) (insert_at i (k, v) rs)"
proof -
  let ?n = "q_node q" let ?es = "toc_entry_size ?n" and ?e = "mk_entry bs q"
  note b = node_repr_bounds [OF repr] and key56 = node_repr_key [OF repr]
  define p l where "p = nat (56 + ?es * int i)" and "l = nat (?es * (int (length rs) - int i))"
  have nn: "0 \<le> ?es * int i" "0 \<le> ?es * (int (length rs) - int i)"
    using idx by (auto intro!: mult_nonneg_nonneg)
  then have p: "int p = 56 + ?es * int i" and l: "int l = ?es * (int (length rs) - int i)"
    by (simp_all add: p_def l_def)
  have le: "int (length ?e) = ?es" by (rule length_mk_entry)
  have ple: "int (p + l + length ?e) \<le> nd_key ?n"
    using room p l le by (simp add: algebra_simps)
  then have pd: "p + l + length ?e \<le> length (nd_data ?n)"
    using b by linarith
  define d where "d = shift_in p l ?e (nd_data ?n)"
  define n' where "n' = ?n\<lparr>nd_data := d, nd_records := Suc (nd_records ?n)\<rparr>"
  have hdr: "nd_tree_type n' = nd_tree_type ?n" "nd_flags n' = nd_flags ?n" "nd_key n' = nd_key ?n"
    and n': "nd_data n' = d" "nd_free n' = nd_free ?n" "nd_val n' = nd_val ?n" "nd_records n' = Suc (length rs)"
    by (simp_all add: n'_def b)
  have rest: "rd_bytes d off len = rd_bytes (nd_data ?n) off len" if "nd_key ?n \<le> off" for off len
    unfolding d_def using that ple pd by (intro rd_shift_in_after) auto
  have keep: "entry_holds bs ?n e kv \<Longrightarrow> entry_holds bs n' e kv" for e kv
    by (erule entry_holds_frame [OF _ hdr]) (use n' rest b in auto)
  have old: "\<exists>e. toc_entry ?n (int j) = Inr e \<and> entry_holds bs n' e (rs ! j)" if "j < length rs" for j
    using repr that keep unfolding node_repr_def by blast
  have new: "entry_holds bs n' ?e (k, v)"
  proof -
    have "entry_key bs n' ?e = (int (length k), q_key_off q)"
      unfolding entry_same_header [OF hdr] using kind key key56 b by (intro entry_key_mk) auto
    moreover obtain vo where "entry_val bs n' ?e = (int (length v), vo)" "v = [] \<or> vo = q_off q"
      unfolding entry_same_header [OF hdr]
      using entry_val_mk [OF kind val(1) _ b(2)] val(2) key56 b by fastforce
    ultimately show ?thesis
      using key val n' rest b entry_same_header [OF hdr] hdr by (auto simp: entry_holds_def)
  qed
  have "\<exists>e. toc_entry n' (int j) = Inr e \<and> entry_holds bs n' e (insert_at i (k, v) rs ! j)"
    if j: "j \<le> length rs" for j
  proof -
    note nth = nth_insert_at [OF idx(2) j, of "(k, v)"] and toc = toc_entry_def entry_same_header [OF hdr] n'
    consider "j < i" | "j = i" | "i < j" by linarith
    then show ?thesis
    proof cases
      case 1
      have "?es * (int j + 1) \<le> ?es * int i"
        using 1 by (intro mult_left_mono) auto
      then have "toc_entry n' (int j) = toc_entry ?n (int j)"
        unfolding toc d_def using p pd by (intro rd_shift_in_before) (auto simp: algebra_simps)
      then show ?thesis
        using old [of j] 1 idx nth by simp
    next
      case 2
      then have "toc_entry n' (int j) = Inr ?e"
        unfolding toc d_def using rd_shift_in_new [OF pd] p le by simp
      then show ?thesis using 2 nth new by auto
    next
      case 3
      then have j1: "int j = int (j - 1) + 1" by simp
      have "?es * (int (j - 1) + 1) \<le> ?es * int (length rs)" "?es * int i \<le> ?es * int (j - 1)"
        using 3 j by (auto intro!: mult_left_mono)
      then have "rd_bytes d (56 + ?es * int (j - 1) + int (length ?e)) ?es =
          rd_bytes (nd_data ?n) (56 + ?es * int (j - 1)) ?es"
        unfolding d_def using p l pd by (intro rd_shift_in_moved) (auto simp: algebra_simps)
      then have "toc_entry n' (int j) = toc_entry ?n (int (j - 1))"
        unfolding toc j1 le by (simp add: algebra_simps)
      then show ?thesis
        using old [of "j - 1"] 3 j nth by simp
    qed
  qed
  then have "node_repr bs n' (insert_at i (k, v) rs)"
    using b room kind length_shift_in [OF pd] unfolding node_repr_def entry_same_header [OF hdr] hdr n' d_def
    by (auto simp: less_Suc_eq_le add.commute set_insert_at)
  moreover have "nat (to_u32 (int (nd_records ?n) + 1)) = Suc (nd_records ?n)"
    using node_repr_records [OF repr] b by (simp add: to_u32_def)
  then have "apfs_create_toc_entry bs q = Inr (q\<lparr>q_node := n'\<rparr>)"
    using create_toc_entry_data [of q bs] idx b room key56 le ple
    by (simp add: n'_def d_def p_def l_def)
  ultimately show ?thesis
    unfolding n'_def by blast
qed


lemma node_repr_locate:
  assumes repr: "node_repr bs n rs" and i: "i < length rs" and kv: "rs ! i = (k, v)"
  obtains ko vo where
    "\<And>off. apfs_node_locate_key bs n (int i) off = Inr (int (length k), ko)"
    "nd_key n \<le> ko" "ko + int (length k) \<le> nd_free n" "rd_bytes (nd_data n) ko (int (length k)) = Inr k"
    "\<And>off. apfs_node_locate_value bs n (int i) off = Inr (int (length v), vo)"
    "rd_bytes (nd_data n) vo (int (length v)) = Inr v"
proof -
  obtain e where e: "toc_entry n (int i) = Inr e" "entry_holds bs n e (k, v)"
    using repr i kv unfolding node_repr_def by fastforce
  have ib: "\<not> index_out_of_bounds n (int i)"
    using node_repr_records [OF repr] node_repr_bounds [OF repr] i by (subst in_bounds_index) auto
  obtain ko where "entry_key bs n e = (int (length k), ko)" "nd_key n \<le> ko"
      "ko + int (length k) \<le> nd_free n" "rd_bytes (nd_data n) ko (int (length k)) = Inr k"
    using e(2) by (auto simp: entry_holds_def)
  moreover obtain vo where "entry_val bs n e = (int (length v), vo)"
      "rd_bytes (nd_data n) vo (int (length v)) = Inr v"
    using e(2) by (auto simp: entry_holds_def rd_bytes_def)
  ultimately show thesis
    using that locate_key_entry [OF ib e(1)] locate_value_entry [OF ib e(1)] by simp
qed

text \<open>The key and the value of a new record at the two ends of the gap.\<close>

lemma store_record_repr:
  assumes repr: "node_repr bs n rs" and gap: "nd_free n + int (length k) + int (length v) \<le> nd_val n"
  obtains d1 d2 where "memcpy (nd_data n) (nd_free n) k = Inr d1"
    "memcpy d1 (nd_val n - int (length v)) v = Inr d2"
    "rd_bytes d2 (nd_free n) (int (length k)) = Inr k"
    "rd_bytes d2 (nd_val n - int (length v)) (int (length v)) = Inr v"
    "node_repr bs (n\<lparr>nd_data := d2, nd_free := nd_free n + int (length k), nd_val := nd_val n - int (length v)\<rparr>) rs"
proof -
  note b = node_repr_bounds [OF repr] node_repr_key [OF repr]
  obtain d1 where d1: "memcpy (nd_data n) (nd_free n) k = Inr d1" "length d1 = length (nd_data n)"
    using memcpy_ok [of "nd_free n" k "nd_data n"] b gap by auto
  obtain d2 where d2: "memcpy d1 (nd_val n - int (length v)) v = Inr d2" "length d2 = length (nd_data n)"
    using memcpy_ok [of "nd_val n - int (length v)" v d1] d1(2) b gap by auto
  have frame: "rd_bytes d2 off len = rd_bytes (nd_data n) off len"
    if "off + len \<le> nd_free n \<or> nd_val n \<le> off" for off len
    using rd_bytes_memcpy_other [OF d2(1), of off len] rd_bytes_memcpy_other [OF d1(1), of off len] that gap
    by auto
  have "rd_bytes d2 (nd_free n) (int (length k)) = Inr k"
    using rd_bytes_memcpy_other [OF d2(1), of "nd_free n" "int (length k)"]
      rd_bytes_memcpy_same [OF d1(1)] gap by simp
  moreover have "node_repr bs (n\<lparr>nd_data := d2, nd_free := nd_free n + int (length k),
      nd_val := nd_val n - int (length v)\<rparr>) rs"
    by (rule node_repr_frame [OF repr]) (use gap d2 frame in auto)
  ultimately show thesis
    using that d1(1) d2(1) rd_bytes_memcpy_same [OF d2(1)] by blast
qed

section \<open>Copying a range of records\<close>

definition key_bytes :: "(byte list \<times> byte list) list \<Rightarrow> int" where
  "key_bytes rs = (\<Sum>r\<leftarrow>rs. int (length (fst r)))"

definition val_bytes :: "(byte list \<times> byte list) list \<Rightarrow> int" where
  "val_bytes rs = (\<Sum>r\<leftarrow>rs. int (length (snd r)))"

lemma rec_bytes_simps [simp]:
  "key_bytes [] = 0" "val_bytes [] = 0"
  "key_bytes (r # rs) = int (length (fst r)) + key_bytes rs"
  "val_bytes (r # rs) = int (length (snd r)) + val_bytes rs"
  "key_bytes (xs @ ys) = key_bytes xs + key_bytes ys"
  "val_bytes (xs @ ys) = val_bytes xs + val_bytes ys"
  by (simp_all add: key_bytes_def val_bytes_def)

lemma rec_bytes_nonneg [simp]: "0 \<le> key_bytes rs" "0 \<le> val_bytes rs"
  by (induction rs) auto

lemma insert_at_length: "insert_at (length xs) x xs = xs @ [x]"
  by (simp add: insert_at_def)

lemma drop_eq_Cons:
  assumes "drop i xs = y # ys"
  shows "i < length xs" "xs ! i = y" "drop (Suc i) xs = ys"
proof -
  show i: "i < length xs"
    using assms by (metis drop_all list.distinct(1) not_le)
  show "xs ! i = y" "drop (Suc i) xs = ys"
    using assms Cons_nth_drop_Suc [OF i] by simp_all
qed

lemma copy_record_loop_repr:
  assumes src: "node_repr bs src rs" and rng: "start \<le> i" "drop i rs = ts @ us"
    and dest: "node_repr bs (q_node q) ds" "length ds = i - start"
    and kind: "\<And>r. r \<in> set ts \<Longrightarrow> fits_kind (q_node q) r"
    and room: "56 + toc_entry_size (q_node q) * (int (length ds) + int (length ts)) \<le> nd_key (q_node q)"
    and gap: "nd_free (q_node q) + key_bytes ts + val_bytes ts \<le> nd_val (q_node q)"
  shows "\<exists>q' d. copy_record_loop bs src (int start) (int i) (int (i + length ts)) q = Inr q' \<and>
    q_node q' = (q_node q)\<lparr>nd_data := d, nd_records := length (ds @ ts),
      nd_free := nd_free (q_node q) + key_bytes ts, nd_val := nd_val (q_node q) - val_bytes ts\<rparr> \<and>
    node_repr bs (q_node q') (ds @ ts)"
  using rng dest kind room gap
proof (induction ts arbitrary: i ds q)
  case Nil
  then have "q_node q = (q_node q)\<lparr>nd_records := length ds\<rparr>"
    using node_repr_bounds(3) [of bs "q_node q" ds] by simp
  then show ?case
    using Nil by (subst copy_record_loop.simps) (auto intro!: exI [of _ "nd_data (q_node q)"])
next
  case (Cons t ts)
  let ?n = "q_node q"
  obtain k v where t: "t = (k, v)" by (cases t)
  have dr: "i < length rs" "rs ! i = (k, v)" "drop (Suc i) rs = ts @ us"
    using drop_eq_Cons [of i rs t "ts @ us"] Cons.prems(2) t by auto
  obtain ko vo where loc: "\<And>off. apfs_node_locate_key bs src (int i) off = Inr (int (length k), ko)"
      "rd_bytes (nd_data src) ko (int (length k)) = Inr k"
      "\<And>off. apfs_node_locate_value bs src (int i) off = Inr (int (length v), vo)"
      "rd_bytes (nd_data src) vo (int (length v)) = Inr v"
    using node_repr_locate [OF src dr(1,2)] by metis
  have gap': "nd_free ?n + int (length k) + int (length v) + key_bytes ts + val_bytes ts \<le> nd_val ?n"
    using Cons.prems(7) t by simp
  then have gap1: "nd_free ?n + int (length k) + int (length v) \<le> nd_val ?n"
    using rec_bytes_nonneg [of ts] by linarith
  obtain d1 d2 where d: "memcpy (nd_data ?n) (nd_free ?n) k = Inr d1"
      "memcpy d1 (nd_val ?n - int (length v)) v = Inr d2"
      "rd_bytes d2 (nd_free ?n) (int (length k)) = Inr k"
      "rd_bytes d2 (nd_val ?n - int (length v)) (int (length v)) = Inr v"
    and repr2: "node_repr bs (?n\<lparr>nd_data := d2, nd_free := nd_free ?n + int (length k),
        nd_val := nd_val ?n - int (length v)\<rparr>) ds"
    using store_record_repr [OF Cons.prems(3) gap1] by metis
  define n2 where "n2 = ?n\<lparr>nd_data := d2, nd_free := nd_free ?n + int (length k),
      nd_val := nd_val ?n - int (length v)\<rparr>"
  define q2 where "q2 = q\<lparr>q_node := n2, q_key_off := nd_free ?n, q_key_len := int (length k),
      q_off := nd_val ?n - int (length v), q_len := int (length v), q_index := int i - int start\<rparr>"
  note b = node_repr_bounds [OF Cons.prems(3)] node_repr_key [OF Cons.prems(3)]
  have hdr: "nd_tree_type n2 = nd_tree_type ?n" "nd_flags n2 = nd_flags ?n" "nd_key n2 = nd_key ?n"
    by (simp_all add: n2_def)
  have q2: "q_node q2 = n2" by (simp add: q2_def)
  have es: "toc_entry_size ?n * (int (length ds) + 1) \<le> toc_entry_size ?n * (int (length ds) + int (length (t # ts)))"
    by (intro mult_left_mono) auto
  have "\<exists>d. apfs_create_toc_entry bs q2 = Inr (q2\<lparr>q_node := (q_node q2)\<lparr>nd_data := d,
        nd_records := Suc (nd_records (q_node q2))\<rparr>\<rparr>) \<and>
      node_repr bs ((q_node q2)\<lparr>nd_data := d, nd_records := Suc (nd_records (q_node q2))\<rparr>)
        (insert_at (length ds) (k, v) ds)"
  proof (rule create_toc_entry_repr)
    show "fits_kind (q_node q2) (k, v)"
      using Cons.prems(5) t unfolding q2 entry_same_header [OF hdr] by auto
    show "node_repr bs (q_node q2) ds" using repr2 by (simp add: q2 n2_def)
    show "56 + toc_entry_size (q_node q2) * (int (length ds) + 1) \<le> nd_key (q_node q2)"
      using Cons.prems(6) es unfolding q2 entry_same_header [OF hdr] hdr by linarith
    show "q_index q2 = int (length ds)" using Cons.prems(1,4) by (simp add: q2_def)
    show "v \<noteq> [] \<Longrightarrow> nd_val (q_node q2) \<le> q_off q2 \<and> q_off q2 + int (length v) \<le> value_end bs (q_node q2) \<and>
        rd_bytes (nd_data (q_node q2)) (q_off q2) (int (length v)) = Inr v"
      using d b unfolding q2 entry_same_header [OF hdr] by (simp add: q2_def n2_def)
  qed (use d b in \<open>simp_all add: q2_def n2_def\<close>)
  then obtain d3 where d3: "apfs_create_toc_entry bs q2 = Inr (q2\<lparr>q_node := n2\<lparr>nd_data := d3,
        nd_records := Suc (nd_records n2)\<rparr>\<rparr>)"
      "node_repr bs (n2\<lparr>nd_data := d3, nd_records := Suc (nd_records n2)\<rparr>) (ds @ [(k, v)])"
    by (auto simp: q2 insert_at_length)
  define q3 where "q3 = q2\<lparr>q_node := n2\<lparr>nd_data := d3, nd_records := Suc (nd_records n2)\<rparr>\<rparr>"
  have q2eq: "q\<lparr>q_key_off := nd_free ?n, q_key_len := int (length k), q_off := nd_val ?n - int (length v),
      q_len := int (length v), q_index := int i - int start,
      q_node := ?n\<lparr>nd_free := nd_free ?n + int (length k), nd_val := nd_val ?n - int (length v),
        nd_data := d2\<rparr>\<rparr> = q2"
    by (simp add: q2_def n2_def)
  have step: "copy_record_loop bs src (int start) (int i) (int (i + length (t # ts))) q =
      copy_record_loop bs src (int start) (int (Suc i)) (int (Suc i + length ts)) q3"
    using gap1 b loc d d3(1) q2eq by (subst copy_record_loop.simps) (simp add: Let_def q3_def [symmetric] add.commute [of "int i" 1])
  have "\<exists>q' d. copy_record_loop bs src (int start) (int (Suc i)) (int (Suc i + length ts)) q3 = Inr q' \<and>
    q_node q' = (q_node q3)\<lparr>nd_data := d, nd_records := length ((ds @ [(k, v)]) @ ts),
      nd_free := nd_free (q_node q3) + key_bytes ts, nd_val := nd_val (q_node q3) - val_bytes ts\<rparr> \<and>
    node_repr bs (q_node q') ((ds @ [(k, v)]) @ ts)"
  proof (rule Cons.IH)
    have q3: "q_node q3 = n2\<lparr>nd_data := d3, nd_records := Suc (nd_records n2)\<rparr>" by (simp add: q3_def)
    have hdr3: "nd_tree_type (q_node q3) = nd_tree_type ?n" "nd_flags (q_node q3) = nd_flags ?n"
        "nd_key (q_node q3) = nd_key ?n"
      by (simp_all add: q3 n2_def)
    show "node_repr bs (q_node q3) (ds @ [(k, v)])" using d3(2) by (simp add: q3)
    show "fits_kind (q_node q3) r" if "r \<in> set ts" for r
      unfolding entry_same_header [OF hdr3] using that Cons.prems(5) by simp
    show "56 + toc_entry_size (q_node q3) * (int (length (ds @ [(k, v)])) + int (length ts)) \<le> nd_key (q_node q3)"
      unfolding entry_same_header [OF hdr3] hdr3 using Cons.prems(6) by (simp add: ac_simps)
    show "nd_free (q_node q3) + key_bytes ts + val_bytes ts \<le> nd_val (q_node q3)"
      using gap' by (simp add: q3 n2_def)
  qed (use dr Cons.prems in auto)
  then obtain q' d' where q': "copy_record_loop bs src (int start) (int (Suc i)) (int (Suc i + length ts)) q3 = Inr q'"
      "q_node q' = (q_node q3)\<lparr>nd_data := d', nd_records := length ((ds @ [(k, v)]) @ ts),
         nd_free := nd_free (q_node q3) + key_bytes ts, nd_val := nd_val (q_node q3) - val_bytes ts\<rparr>"
      "node_repr bs (q_node q') ((ds @ [(k, v)]) @ ts)"
    by blast
  have "q_node q' = ?n\<lparr>nd_data := d', nd_records := length (ds @ t # ts),
      nd_free := nd_free ?n + key_bytes (t # ts), nd_val := nd_val ?n - val_bytes (t # ts)\<rparr>"
    using q'(2) by (simp add: q3_def n2_def t algebra_simps)
  then show ?case
    unfolding step using q'(1,3) t by auto
qed

text \<open>The size that \<open>apfs_copy_record_range\<close> gives to the table of contents.\<close>

definition copy_toc :: "int \<Rightarrow> apfs_node \<Rightarrow> int \<Rightarrow> int" where
  "copy_toc bs src count =
     (let m = apfs_node_min_table_size bs (nd_tree_type src) (nd_flags src)
      in if m < toc_entry_size src * count then toc_entry_size src * round_up count 8 else m)"

lemma copy_toc_ge: "toc_entry_size src * count \<le> copy_toc bs src count"
  using round_up_8(1) [of count] mult_left_mono [of count "round_up count 8" "toc_entry_size src"]
  by (auto simp: copy_toc_def Let_def)

lemma apfs_copy_record_range_toc:
  "apfs_copy_record_range bs dest src start stop =
     bind_res (copy_record_loop bs src start start stop
         (apfs_alloc_query (dest\<lparr>nd_key := 56 + copy_toc bs src (stop - start),
            nd_free := 56 + copy_toc bs src (stop - start), nd_val := value_end bs dest\<rparr>) None))
       (\<lambda>query. Inr (q_node query))"
  by (simp add: apfs_copy_record_range_def copy_toc_def Let_def)

lemma copy_record_range_repr:
  assumes src: "node_repr bs src rs" and rng: "rs = as @ ts @ us"
    "start = int (length as)" "stop = start + int (length ts)"
    and dest: "nd_records dest = 0" "int (length (nd_data dest)) = bs"
    and same: "apfs_node_has_fixed_kv_size dest = apfs_node_has_fixed_kv_size src"
    and kind: "\<And>r. r \<in> set ts \<Longrightarrow> fits_kind dest r"
    and gap: "56 + copy_toc bs src (int (length ts)) + key_bytes ts + val_bytes ts \<le> value_end bs dest"
  shows "\<exists>d. apfs_copy_record_range bs dest src start stop =
      Inr (dest\<lparr>nd_data := d, nd_records := length ts,
        nd_key := 56 + copy_toc bs src (int (length ts)),
        nd_free := 56 + copy_toc bs src (int (length ts)) + key_bytes ts,
        nd_val := value_end bs dest - val_bytes ts\<rparr>) \<and>
    node_repr bs (dest\<lparr>nd_data := d, nd_records := length ts,
        nd_key := 56 + copy_toc bs src (int (length ts)),
        nd_free := 56 + copy_toc bs src (int (length ts)) + key_bytes ts,
        nd_val := value_end bs dest - val_bytes ts\<rparr>) ts"
proof -
  let ?t = "copy_toc bs src (int (length ts))"
  have es: "toc_entry_size dest = toc_entry_size src"
    using same by (simp add: toc_entry_size_def)
  have tpos: "0 \<le> ?t"
    using copy_toc_ge [of src "int (length ts)" bs] toc_bytes_nonneg [of src "length ts"] by linarith
  define n0 where "n0 = dest\<lparr>nd_key := 56 + ?t, nd_free := 56 + ?t, nd_val := value_end bs dest\<rparr>"
  have sel: "apfs_node_has_fixed_kv_size n0 = apfs_node_has_fixed_kv_size dest"
    "value_end bs n0 = value_end bs dest" "apfs_node_is_leaf n0 = apfs_node_is_leaf dest"
    by (simp_all add: n0_def apfs_node_has_fixed_kv_size_def apfs_node_is_leaf_def apfs_node_is_root_def
        value_end_def)
  then have sel': "toc_entry_size n0 = toc_entry_size dest" "\<And>r. fits_kind n0 r = fits_kind dest r"
    by (simp_all add: toc_entry_size_def fits_kind_def) (simp add: n0_def)
  have "56 + ?t \<le> value_end bs dest"
    using gap rec_bytes_nonneg(1) [of ts] rec_bytes_nonneg(2) [of ts] by linarith
  then have repr0: "node_repr bs n0 []"
    using dest tpos node_repr_bounds(2) [OF src] unfolding node_repr_def sel by (simp add: n0_def)
  let ?q = "apfs_alloc_query n0 None"
  have q: "q_node ?q = n0" by (simp add: apfs_alloc_query_def)
  have "\<exists>q' d. copy_record_loop bs src (int (length as)) (int (length as)) (int (length as + length ts)) ?q = Inr q' \<and>
    q_node q' = (q_node ?q)\<lparr>nd_data := d, nd_records := length ([] @ ts),
      nd_free := nd_free (q_node ?q) + key_bytes ts, nd_val := nd_val (q_node ?q) - val_bytes ts\<rparr> \<and>
    node_repr bs (q_node q') ([] @ ts)"
  proof (rule copy_record_loop_repr [OF src])
    show "node_repr bs (q_node ?q) []" using repr0 q by simp
    show "56 + toc_entry_size (q_node ?q) * (int (length []) + int (length ts)) \<le> nd_key (q_node ?q)"
      using copy_toc_ge [of src "int (length ts)" bs] es by (simp add: q sel') (simp add: n0_def)
    show "nd_free (q_node ?q) + key_bytes ts + val_bytes ts \<le> nd_val (q_node ?q)"
      unfolding q using gap by (simp add: n0_def)
    show "drop (length as) rs = ts @ us" using rng(1) by simp
  qed (use kind q sel' in auto)
  then obtain q' d where q': "copy_record_loop bs src (int (length as)) (int (length as)) (int (length as + length ts)) ?q = Inr q'"
    "q_node q' = n0\<lparr>nd_data := d, nd_records := length ts, nd_free := 56 + ?t + key_bytes ts,
       nd_val := value_end bs dest - val_bytes ts\<rparr>" "node_repr bs (q_node q') ts"
    unfolding q by (auto simp: n0_def)
  have "apfs_copy_record_range bs dest src start stop = Inr (q_node q')"
    unfolding apfs_copy_record_range_toc using q'(1) rng(2,3) by (simp add: n0_def)
  moreover have "q_node q' = dest\<lparr>nd_data := d, nd_records := length ts, nd_key := 56 + ?t,
      nd_free := 56 + ?t + key_bytes ts, nd_val := value_end bs dest - val_bytes ts\<rparr>"
    using q'(2) by (simp add: n0_def)
  ultimately show ?thesis using q'(3) by metis
qed


section \<open>The header on disk\<close>

definition node_fields :: "apfs_node \<Rightarrow> nat \<Rightarrow> nat \<Rightarrow> nat \<Rightarrow> nat \<Rightarrow> (int \<times> byte list) list" where
  "node_fields node o_type table_off key_head val_head =
     [(8, le_field 8 (uint (nd_oid node))),
      (24, le_field 4 (uint ((if apfs_node_is_root node then of_nat 2 else of_nat 3) OR ((of_nat o_type :: u32) AND 0xffff0000)))),
      (28, le_field 4 (int (nd_tree_type node))),
      (32, le_field 2 (uint (nd_flags node))),
      (36, le_field 4 (int (nd_records node))),
      (42, le_field 2 (nd_key node - (56 + int table_off))),
      (44, le_field 2 (nd_free node - nd_key node)),
      (46, le_field 2 (nd_val node - nd_free node)),
      (48, le_field 2 (if to_u16 (nd_key_free_list_len node) = 0 then 0xffff else int key_head)),
      (50, le_field 2 (to_u16 (nd_key_free_list_len node))),
      (52, le_field 2 (if to_u16 (nd_val_free_list_len node) = 0 then 0xffff else int val_head)),
      (54, le_field 2 (to_u16 (nd_val_free_list_len node)))]"

lemma apfs_update_node_fields:
  assumes "56 \<le> length (nd_data node)"
  obtains d o_type table_off key_head val_head where
    "apfs_update_node node = Inr (node\<lparr>nd_data := d\<rparr>)"
    "rd16 (nd_data node) 40 = Inr table_off"
    "store_fields (nd_data node) (node_fields node o_type table_off key_head val_head) = Inr d"
    "fields_asc 8 (node_fields node o_type table_off key_head val_head) 56"
proof -
  obtain o_type table_off key_head val_head where rd: "rd32 (nd_data node) 24 = Inr o_type"
      "rd16 (nd_data node) 40 = Inr table_off" "rd16 (nd_data node) 48 = Inr key_head"
      "rd16 (nd_data node) 52 = Inr val_head"
    using assms rd_le_ok [of 24 4 "nd_data node"] rd_le_ok [of 40 2 "nd_data node"]
      rd_le_ok [of 48 2 "nd_data node"] rd_le_ok [of 52 2 "nd_data node"] by auto
  have asc: "fields_asc 8 (node_fields node o_type table_off key_head val_head) 56"
    by (simp add: node_fields_def)
  then obtain d where d: "store_fields (nd_data node) (node_fields node o_type table_off key_head val_head) = Inr d"
    using store_fields_ok [OF asc, of "nd_data node"] assms by auto
  have "apfs_update_node node = Inr (node\<lparr>nd_data := d\<rparr>)"
    using d unfolding apfs_update_node_def node_fields_def by (simp only: Let_def rd bind_res_Inr)
  then show thesis using that rd(2) d asc by metis
qed

lemma apfs_update_node_frame:
  assumes "56 \<le> length (nd_data node)"
  obtains d where "apfs_update_node node = Inr (node\<lparr>nd_data := d\<rparr>)" "length d = length (nd_data node)"
    "\<And>off len. 56 \<le> off \<Longrightarrow> rd_bytes d off len = rd_bytes (nd_data node) off len"
proof -
  obtain d o_type table_off key_head val_head where
    d: "apfs_update_node node = Inr (node\<lparr>nd_data := d\<rparr>)"
    and st: "store_fields (nd_data node) (node_fields node o_type table_off key_head val_head) = Inr d"
    and asc: "fields_asc 8 (node_fields node o_type table_off key_head val_head) 56"
    using apfs_update_node_fields [OF assms] by metis
  have "rd_bytes d off len = rd_bytes (nd_data node) off len" if "56 \<le> off" for off len
    using st by (rule store_fields_frame) (use fields_asc_after [OF asc] that in fastforce)
  then show thesis
    using that [OF d] store_fields_length [OF st] by blast
qed

lemma apfs_update_node_repr:
  assumes "node_repr bs n rs"
  shows "\<exists>d. apfs_update_node n = Inr (n\<lparr>nd_data := d\<rparr>) \<and> node_repr bs (n\<lparr>nd_data := d\<rparr>) rs"
proof -
  note b = node_repr_bounds [OF assms] node_repr_key [OF assms]
  then have "56 \<le> length (nd_data n)" by linarith
  then obtain d where d: "apfs_update_node n = Inr (n\<lparr>nd_data := d\<rparr>)" "length d = length (nd_data n)"
    "\<And>off len. 56 \<le> off \<Longrightarrow> rd_bytes d off len = rd_bytes (nd_data n) off len"
    using apfs_update_node_frame by metis
  have "node_repr bs (n\<lparr>nd_data := d\<rparr>) rs"
    by (rule node_repr_frame [OF assms]) (use d b in auto)
  with d show ?thesis by blast
qed

text \<open>Reading a node back from its block gives the in-memory header that was written there.\<close>

lemma le_field_read:
  assumes "store_fields b fs = Inr b'" "fields_asc lo fs hi" "(p, le_field n x) \<in> set fs" "0 \<le> x" "x < 256 ^ n"
  shows "rd_le n b' p = Inr (nat x)"
  using store_fields_read [OF assms(2,1,3)] assms(4,5) rd_le_of_bytes [of b' p n "le_field n x"] by simp

lemma update_node_roundtrip:
  assumes "apfs_update_node n = Inr n'" "56 \<le> length (nd_data n)"
    and "nd_tree_type n < 2 ^ 32" "nd_records n < 2 ^ 32" "rd16 (nd_data n) 40 = Inr table_off"
    and "56 + int table_off \<le> nd_key n" "nd_key n \<le> nd_free n" "nd_free n \<le> nd_val n" "nd_val n \<le> 65536"
    and "0 \<le> nd_key_free_list_len n" "nd_key_free_list_len n < 65536"
    and "0 \<le> nd_val_free_list_len n" "nd_val_free_list_len n < 65536"
  shows "node_of_raw (nd_oid n') (nd_block_nr n') (nd_data n') = Inr n'"
proof -
  obtain d o_type key_head val_head where
    d: "n' = n\<lparr>nd_data := d\<rparr>"
    and st: "store_fields (nd_data n) (node_fields n o_type table_off key_head val_head) = Inr d"
    and asc: "fields_asc 8 (node_fields n o_type table_off key_head val_head) 56"
    using apfs_update_node_fields [OF assms(2)] assms(1,5) by (metis sum.inject(2))
  note rd = le_field_read [OF st asc]
  have u16: "to_u16 x = x" if "0 \<le> x" "x < 65536" for x
    using that by (simp add: to_u16_def)
  have "rd32 d 28 = Inr (nd_tree_type n)" "rd32 d 36 = Inr (nd_records n)"
    using rd [of 28 4 "int (nd_tree_type n)"] rd [of 36 4 "int (nd_records n)"] assms(3,4)
    by (simp_all add: node_fields_def)
  moreover have "rd16 d 32 = Inr (unat (nd_flags n))"
    using rd [of 32 2 "uint (nd_flags n)"] unsigned_less [of "nd_flags n", where ?'a = int]
    by (simp add: node_fields_def)
  moreover have "rd_bytes d 40 2 = rd_bytes (nd_data n) 40 2"
    using st by (rule store_fields_frame) (auto simp: node_fields_def)
  then have "rd16 d 40 = Inr table_off"
    using assms(5) by (simp add: rd_le_def)
  moreover have "rd16 d 42 = Inr (nat (nd_key n - (56 + int table_off)))"
    "rd16 d 44 = Inr (nat (nd_free n - nd_key n))" "rd16 d 46 = Inr (nat (nd_val n - nd_free n))"
    using assms by (auto intro!: rd simp: node_fields_def)
  moreover have "rd16 d 50 = Inr (nat (nd_key_free_list_len n))" "rd16 d 54 = Inr (nat (nd_val_free_list_len n))"
    using assms u16 by (auto intro!: rd simp: node_fields_def)
  ultimately show ?thesis
    using assms d by (simp add: node_of_raw_def Let_def)
qed


section \<open>Defragmentation\<close>

definition defragged :: "int \<Rightarrow> apfs_node \<Rightarrow> (byte list \<times> byte list) list \<Rightarrow> buffer \<Rightarrow> apfs_node" where
  "defragged bs n rs d = n\<lparr>nd_data := d, nd_records := length rs,
     nd_key := 56 + copy_toc bs n (int (length rs)),
     nd_free := 56 + copy_toc bs n (int (length rs)) + key_bytes rs,
     nd_val := value_end bs n - val_bytes rs, nd_key_free_list_len := 0, nd_val_free_list_len := 0\<rparr>"

lemma defragment_node_repr:
  assumes repr: "node_repr bs n rs"
    and gap: "56 + copy_toc bs n (int (length rs)) + key_bytes rs + val_bytes rs \<le> value_end bs n"
  shows "\<exists>d. apfs_defragment_node bs n = Inr (defragged bs n rs d) \<and> node_repr bs (defragged bs n rs d) rs"
proof -
  define dest where "dest = n\<lparr>nd_records := 0, nd_key_free_list_len := 0, nd_val_free_list_len := 0\<rparr>"
  have hdr: "nd_tree_type dest = nd_tree_type n" "nd_flags dest = nd_flags n" "nd_key dest = nd_key n"
    by (simp_all add: dest_def)
  note b = node_repr_bounds [OF repr]
  have "\<exists>d. apfs_copy_record_range bs dest n 0 (int (length rs)) =
      Inr (dest\<lparr>nd_data := d, nd_records := length rs, nd_key := 56 + copy_toc bs n (int (length rs)),
        nd_free := 56 + copy_toc bs n (int (length rs)) + key_bytes rs,
        nd_val := value_end bs dest - val_bytes rs\<rparr>) \<and>
    node_repr bs (dest\<lparr>nd_data := d, nd_records := length rs, nd_key := 56 + copy_toc bs n (int (length rs)),
        nd_free := 56 + copy_toc bs n (int (length rs)) + key_bytes rs,
        nd_val := value_end bs dest - val_bytes rs\<rparr>) rs"
  proof (rule copy_record_range_repr [OF repr])
    show "56 + copy_toc bs n (int (length rs)) + key_bytes rs + val_bytes rs \<le> value_end bs dest"
      unfolding entry_same_header [OF hdr] by (rule gap)
    show "fits_kind dest r" if "r \<in> set rs" for r
      unfolding entry_same_header [OF hdr] using that by (rule b(9))
    show "apfs_node_has_fixed_kv_size dest = apfs_node_has_fixed_kv_size n"
      by (rule entry_same_header [OF hdr])
    show "rs = [] @ rs @ []" by simp
  qed (use b in \<open>simp_all add: dest_def\<close>)
  moreover have eq: "dest\<lparr>nd_data := d, nd_records := length rs, nd_key := 56 + copy_toc bs n (int (length rs)),
        nd_free := 56 + copy_toc bs n (int (length rs)) + key_bytes rs,
        nd_val := value_end bs dest - val_bytes rs\<rparr> = defragged bs n rs d" for d
    unfolding entry_same_header(4) [OF hdr] by (simp add: defragged_def dest_def)
  ultimately obtain d1 where d1: "apfs_copy_record_range bs dest n 0 (int (length rs)) = Inr (defragged bs n rs d1)"
      "node_repr bs (defragged bs n rs d1) rs"
    unfolding eq by blast
  obtain d2 where d2: "apfs_update_node (defragged bs n rs d1) = Inr ((defragged bs n rs d1)\<lparr>nd_data := d2\<rparr>)"
      "node_repr bs ((defragged bs n rs d1)\<lparr>nd_data := d2\<rparr>) rs"
    using apfs_update_node_repr [OF d1(2)] by blast
  have "(defragged bs n rs d1)\<lparr>nd_data := d2\<rparr> = defragged bs n rs d2"
    by (simp add: defragged_def)
  then show ?thesis
    using d1 d2 b(3) by (auto simp: apfs_defragment_node_def dest_def)
qed

section \<open>Expanding the table of contents\<close>

lemma rd_bytes_memmove_dst:
  assumes "memmove b dst src len = Inr b'" "0 \<le> x" "0 \<le> l" "x + l \<le> len"
  shows "rd_bytes b' (dst + x) l = rd_bytes b (src + x) l"
proof (cases "l = 0")
  case True
  then show ?thesis by (simp add: rd_bytes_def)
next
  case False
  then have len: "0 < len" using assms by linarith
  obtain bs where bs: "rd_bytes b src len = Inr bs" "memcpy b dst bs = Inr b'"
    using assms(1) by (auto simp: memmove_def bind_res_eq_Inr)
  have src: "0 \<le> src" "src + len \<le> int (length b)" "bs = take (nat len) (drop (nat src) b)" "length bs = nat len"
    using bs(1) len by (auto simp: rd_bytes_def split: if_splits)
  have dst: "0 \<le> dst" "dst + len \<le> int (length b)" "b' = take (nat dst) b @ bs @ drop (nat dst + length bs) b"
    using bs(2) len src by (auto simp: memcpy_def split: if_splits)
  have n: "nat (dst + x) = nat dst + nat x" "nat (src + x) = nat x + nat src" "nat l + nat x \<le> nat len"
    "nat l \<le> nat len - nat x" "nat dst \<le> length b" "nat x \<le> length bs"
    using assms(2-4) src(1,2,4) dst(1,2) len by linarith+
  have "take (nat l) (drop (nat (dst + x)) b') = take (nat l) (drop (nat x) bs)"
    using n src(4) unfolding dst(3) n(1) by simp
  also have "\<dots> = take (nat l) (drop (nat (src + x)) b)"
    using n by (simp add: src(3) drop_take min_absorb1)
  finally show ?thesis
    using False assms src dst memcpy_length [OF bs(2)] by (simp add: rd_bytes_def)
qed

lemma rd_bytes_memmove_other:
  assumes "memmove b dst src len = Inr b'" "off + l \<le> dst \<or> dst + len \<le> off" "0 \<le> len"
  shows "rd_bytes b' off l = rd_bytes b off l"
proof -
  obtain bs where bs: "rd_bytes b src len = Inr bs" "memcpy b dst bs = Inr b'"
    using assms(1) by (auto simp: memmove_def bind_res_eq_Inr)
  then show ?thesis
    using rd_bytes_memcpy_other [OF bs(2), of off l] rd_bytes_length [OF bs(1)] assms(2,3) by simp
qed

lemma node_expand_toc_repr:
  assumes repr: "node_repr bs (q_node q) rs"
    and gap: "nd_free (q_node q) + 8 * toc_entry_size (q_node q) \<le> nd_val (q_node q)"
  shows "\<exists>d. node_expand_toc q = Inr (q\<lparr>q_node := (q_node q)\<lparr>nd_data := d,
        nd_key := nd_key (q_node q) + 8 * toc_entry_size (q_node q),
        nd_free := nd_free (q_node q) + 8 * toc_entry_size (q_node q)\<rparr>,
      q_key_off := q_key_off q + 8 * toc_entry_size (q_node q)\<rparr>) \<and>
    node_repr bs ((q_node q)\<lparr>nd_data := d, nd_key := nd_key (q_node q) + 8 * toc_entry_size (q_node q),
        nd_free := nd_free (q_node q) + 8 * toc_entry_size (q_node q)\<rparr>) rs"
proof -
  let ?n = "q_node q" let ?es = "toc_entry_size ?n" let ?inc = "8 * ?es"
  note b = node_repr_bounds [OF repr] node_repr_key [OF repr]
  have inc: "0 < ?inc" by simp
  obtain d where d: "memmove (nd_data ?n) (nd_key ?n + ?inc) (nd_key ?n) (nd_free ?n - nd_key ?n) = Inr d"
      "length d = length (nd_data ?n)"
    using b gap inc by (elim memmove_ok [of "nd_free ?n - nd_key ?n" "nd_key ?n + ?inc" "nd_data ?n" "nd_key ?n", rotated -1])
      linarith+
  define n' where "n' = ?n\<lparr>nd_data := d, nd_key := nd_key ?n + ?inc, nd_free := nd_free ?n + ?inc\<rparr>"
  have sel: "toc_entry_size n' = ?es" "value_end bs n' = value_end bs ?n" "fits_kind n' r = fits_kind ?n r"
    "entry_val bs n' e = entry_val bs ?n e" "nd_data n' = d" "nd_key n' = nd_key ?n + ?inc"
    "nd_free n' = nd_free ?n + ?inc" "nd_val n' = nd_val ?n" "nd_records n' = nd_records ?n" for r e
    by (simp_all add: n'_def toc_entry_size_def value_end_def fits_kind_def apfs_node_has_fixed_kv_size_def
        apfs_node_is_root_def apfs_node_is_leaf_def entry_val_def cong: if_cong)
  have "\<exists>e. toc_entry n' (int i) = Inr e \<and> entry_holds bs n' e (rs ! i)" if i: "i < length rs" for i
  proof -
    obtain e where e: "toc_entry ?n (int i) = Inr e" "entry_holds bs ?n e (rs ! i)"
      using repr i by (auto simp: node_repr_def)
    have "?es * (int i + 1) \<le> ?es * int (length rs)"
      using i by (intro mult_left_mono) auto
    then have "56 + ?es * int i + ?es \<le> nd_key ?n + ?inc"
      using b(4) inc unfolding distrib_left by linarith
    then have "toc_entry n' (int i) = toc_entry ?n (int i)"
      unfolding toc_entry_def sel using b(5) by (intro rd_bytes_memmove_other [OF d(1)]) simp_all
    moreover have "entry_holds bs n' e (rs ! i)"
    proof -
      let ?k = "fst (rs ! i)" and ?v = "snd (rs ! i)"
      obtain ko where ko: "entry_key bs ?n e = (int (length ?k), ko)" "nd_key ?n \<le> ko"
          "ko + int (length ?k) \<le> nd_free ?n" "rd_bytes (nd_data ?n) ko (int (length ?k)) = Inr ?k"
        using e(2) by (auto simp: entry_holds_def)
      obtain c where c: "?inc = c" "0 < c" using inc by blast
      have "entry_key bs n' e = (int (length ?k), ko + ?inc)"
        using ko(1-3) b(8) gap c(2) unfolding n'_def c(1)
        by (auto simp: entry_key_def Let_def apfs_node_has_fixed_kv_size_def split: if_splits)
      moreover have "rd_bytes d (ko + ?inc) (int (length ?k)) = Inr ?k"
        using rd_bytes_memmove_dst [OF d(1), of "ko - nd_key ?n" "int (length ?k)"] ko by (simp add: algebra_simps)
      moreover have "rd_bytes d vo l = rd_bytes (nd_data ?n) vo l" if "nd_val ?n \<le> vo" for vo l
        using that gap b by (intro rd_bytes_memmove_other [OF d(1)]) auto
      ultimately show ?thesis
        using ko e(2) unfolding entry_holds_def sel by auto
    qed
    ultimately show ?thesis using e by auto
  qed
  moreover have "56 + ?es * int (length rs) \<le> nd_key ?n + ?inc"
    using b(4) inc by linarith
  ultimately have "node_repr bs n' rs"
    using b gap d unfolding node_repr_def sel by auto
  then show ?thesis
    using d by (auto simp: node_expand_toc_def n'_def Let_def)
qed


section \<open>Insertion\<close>

text \<open>A ghost record, which has no value, counts as a record with the empty value.\<close>

definition val_of :: "byte list option \<Rightarrow> byte list" where
  "val_of val = (case val of None \<Rightarrow> [] | Some v \<Rightarrow> v)"

lemma toc_full_repr:
  assumes "node_repr bs n rs"
  shows "toc_full n \<longleftrightarrow> nd_key n < 56 + toc_entry_size n * (int (length rs) + 1)"
proof -
  have "(int (length rs) + 1) * toc_entry_size n \<le> 16384 * 8"
    using node_repr_records [OF assms] by (intro mult_mono) auto
  moreover have "0 \<le> (int (length rs) + 1) * toc_entry_size n"
    by (intro mult_nonneg_nonneg) auto
  ultimately have "to_u32 ((int (length rs) + 1) * toc_entry_size n) = (int (length rs) + 1) * toc_entry_size n"
    by (simp add: to_u32_def)
  then show ?thesis
    using node_repr_bounds(3) [OF assms] by (auto simp: toc_full_def mult.commute)
qed

text \<open>The end of an insertion, with the key and the value at the two ends of the gap.\<close>

lemma node_insert_finish_repr:
  assumes repr: "node_repr bs n rs" and i: "q_index q = int i - 1" "i \<le> length rs"
    and room: "\<not> toc_full n" and kind: "fits_kind n (k, val_of val)"
    and gap: "nd_free n + int (length k) + int (length (val_of val)) \<le> nd_val n"
    and node: "q_node q = n\<lparr>nd_free := nd_free n + int (length k), nd_val := nd_val n - int (length (val_of val))\<rparr>"
    and off: "val \<noteq> None \<Longrightarrow> off = nd_val n - int (length (val_of val))"
  shows "\<exists>q' d. node_insert_finish bs q k (nd_free n) val off = Inr q' \<and> q_index q' = int i \<and>
    q_node q' = (q_node q)\<lparr>nd_data := d, nd_records := Suc (length rs)\<rparr> \<and>
    node_repr bs (q_node q') (insert_at i (k, val_of val) rs)"
proof -
  let ?v = "val_of val"
  note b = node_repr_bounds [OF repr] node_repr_key [OF repr]
  obtain d1 d2 where d: "memcpy (nd_data n) (nd_free n) k = Inr d1"
      "memcpy d1 (nd_val n - int (length ?v)) ?v = Inr d2"
      "rd_bytes d2 (nd_free n) (int (length k)) = Inr k"
      "rd_bytes d2 (nd_val n - int (length ?v)) (int (length ?v)) = Inr ?v"
    and repr2: "node_repr bs (n\<lparr>nd_data := d2, nd_free := nd_free n + int (length k),
        nd_val := nd_val n - int (length ?v)\<rparr>) rs"
    using store_record_repr [OF repr gap] by metis
  define n2 where "n2 = n\<lparr>nd_data := d2, nd_free := nd_free n + int (length k),
      nd_val := nd_val n - int (length ?v)\<rparr>"
  have hdr: "nd_tree_type n2 = nd_tree_type n" "nd_flags n2 = nd_flags n" "nd_key n2 = nd_key n"
    by (simp_all add: n2_def)
  have n2: "(q_node q)\<lparr>nd_data := d2\<rparr> = n2" by (simp add: node n2_def)
  define q2 where "q2 = q\<lparr>q_key_len := int (length k), q_key_off := nd_free n,
      q_len := (case val of None \<Rightarrow> 0 | Some v \<Rightarrow> int (length v)),
      q_off := (case val of None \<Rightarrow> 0 | Some v \<Rightarrow> off), q_index := q_index q + 1, q_node := n2\<rparr>"
  have q2: "q_node q2 = n2" "q_len q2 = int (length ?v)" "?v \<noteq> [] \<Longrightarrow> q_off q2 = nd_val n - int (length ?v)"
    using off by (auto simp: q2_def val_of_def split: option.splits)
  have "\<exists>d. apfs_create_toc_entry bs q2 = Inr (q2\<lparr>q_node := (q_node q2)\<lparr>nd_data := d,
        nd_records := Suc (nd_records (q_node q2))\<rparr>\<rparr>) \<and>
      node_repr bs ((q_node q2)\<lparr>nd_data := d, nd_records := Suc (nd_records (q_node q2))\<rparr>) (insert_at i (k, ?v) rs)"
  proof (rule create_toc_entry_repr)
    show "node_repr bs (q_node q2) rs" using repr2 by (simp add: q2 n2_def)
    show "fits_kind (q_node q2) (k, ?v)" using kind unfolding q2 entry_same_header [OF hdr] .
    show "56 + toc_entry_size (q_node q2) * (int (length rs) + 1) \<le> nd_key (q_node q2)"
      using room toc_full_repr [OF repr] unfolding q2 entry_same_header [OF hdr] hdr by auto
    show "?v \<noteq> [] \<Longrightarrow> nd_val (q_node q2) \<le> q_off q2 \<and> q_off q2 + int (length ?v) \<le> value_end bs (q_node q2) \<and>
        rd_bytes (nd_data (q_node q2)) (q_off q2) (int (length ?v)) = Inr ?v"
      using q2(3) d b unfolding q2(1) entry_same_header [OF hdr] by (simp add: n2_def)
    show "q_len q2 = int (length ?v)" by (rule q2)
  qed (use i d b in \<open>simp_all add: q2_def n2_def\<close>)
  then obtain d3 where d3: "apfs_create_toc_entry bs q2 = Inr (q2\<lparr>q_node := n2\<lparr>nd_data := d3,
        nd_records := Suc (length rs)\<rparr>\<rparr>)"
      "node_repr bs (n2\<lparr>nd_data := d3, nd_records := Suc (length rs)\<rparr>) (insert_at i (k, ?v) rs)"
    using b(3) unfolding q2 by (auto simp: n2_def)
  define n3 where "n3 = n2\<lparr>nd_data := d3, nd_records := Suc (length rs)\<rparr>"
  obtain d4 where d4: "apfs_update_node n3 = Inr (n3\<lparr>nd_data := d4\<rparr>)"
      "node_repr bs (n3\<lparr>nd_data := d4\<rparr>) (insert_at i (k, ?v) rs)"
    using apfs_update_node_repr [OF d3(2)] by (auto simp: n3_def)
  have vcpy: "(case val of None \<Rightarrow> Inr d1 | Some v \<Rightarrow> memcpy d1 off v) = Inr d2"
    using d(2) off by (cases val) (simp_all add: val_of_def memcpy_def)
  have "node_insert_finish bs q k (nd_free n) val off = Inr (q2\<lparr>q_node := n3\<lparr>nd_data := d4\<rparr>\<rparr>)"
  proof -
    have "nd_data (q_node q) = nd_data n" by (simp add: node)
    then show ?thesis
      using d(1) vcpy d3(1) d4(1) unfolding node_insert_finish_def Let_def
      by (simp add: n2 flip: q2_def n3_def)
  qed
  moreover have "n3\<lparr>nd_data := d4\<rparr> = (q_node q)\<lparr>nd_data := d4, nd_records := Suc (length rs)\<rparr>"
    by (simp add: n3_def n2_def node)
  ultimately show ?thesis
    using d4(2) i by (auto simp: q2_def)
qed


text \<open>Both allocations take the room from the gap when it is large enough.\<close>

lemma node_alloc_gap:
  assumes "nd_free n + int (length k) + int (length v) \<le> nd_val n" "nd_val n \<le> 65536"
    "0 < nd_free n"
  shows "apfs_node_alloc_key bs n (to_u16 (int (length k))) =
      Inr (nd_free n, n\<lparr>nd_free := nd_free n + int (length k)\<rparr>)"
    "apfs_node_alloc_val bs (n\<lparr>nd_free := nd_free n + int (length k)\<rparr>) (to_u16 (int (length v))) =
      Inr (nd_val n - int (length v),
        n\<lparr>nd_free := nd_free n + int (length k), nd_val := nd_val n - int (length v)\<rparr>)"
proof -
  have "to_u16 (int (length k)) = int (length k)" "to_u16 (int (length v)) = int (length v)"
    using assms by (simp_all add: to_u16_def)
  then show "apfs_node_alloc_key bs n (to_u16 (int (length k))) =
      Inr (nd_free n, n\<lparr>nd_free := nd_free n + int (length k)\<rparr>)"
    "apfs_node_alloc_val bs (n\<lparr>nd_free := nd_free n + int (length k)\<rparr>) (to_u16 (int (length v))) =
      Inr (nd_val n - int (length v),
        n\<lparr>nd_free := nd_free n + int (length k), nd_val := nd_val n - int (length v)\<rparr>)"
    using assms by (simp_all add: apfs_node_alloc_key_def apfs_node_alloc_val_def)
qed

definition insert_room :: "apfs_node \<Rightarrow> byte list \<Rightarrow> byte list option \<Rightarrow> int" where
  "insert_room n k val = (if toc_full n then 8 * toc_entry_size n else 0) + int (length k) + int (length (val_of val))"

lemma insert_into_gap:
  assumes repr: "node_repr bs (q_node q) rs" and i: "q_index q = int i - 1" "i \<le> length rs"
    and full: "\<not> toc_full (q_node q)" and kind: "fits_kind (q_node q) (k, val_of val)"
    and gap: "nd_free (q_node q) + int (length k) + int (length (val_of val)) \<le> nd_val (q_node q)"
  shows "\<exists>q' d. node_insert_try bs defrag k val q = Inr q' \<and> q_index q' = int i \<and>
    q_node q' = (q_node q)\<lparr>nd_data := d, nd_records := Suc (length rs), nd_free := nd_free (q_node q) + int (length k),
      nd_val := nd_val (q_node q) - int (length (val_of val))\<rparr> \<and>
    node_repr bs (q_node q') (insert_at i (k, val_of val) rs)"
proof -
  let ?n = "q_node q" let ?v = "val_of val"
  note b = node_repr_bounds [OF repr] node_repr_key [OF repr]
  define n2 where "n2 = ?n\<lparr>nd_free := nd_free ?n + int (length k), nd_val := nd_val ?n - int (length ?v)\<rparr>"
  define q2 where "q2 = q\<lparr>q_node := n2\<rparr>"
  note alloc = node_alloc_gap [OF gap]
  have fin: "\<exists>q' d. node_insert_finish bs q2 k (nd_free ?n) val off = Inr q' \<and> q_index q' = int i \<and>
      q_node q' = (q_node q2)\<lparr>nd_data := d, nd_records := Suc (length rs)\<rparr> \<and>
      node_repr bs (q_node q') (insert_at i (k, ?v) rs)"
    if "val \<noteq> None \<Longrightarrow> off = nd_val ?n - int (length ?v)" for off
    using that by (intro node_insert_finish_repr [OF repr _ i(2) full kind gap]) (auto simp: q2_def n2_def i)
  have "node_insert_try bs defrag k val q =
      node_insert_finish bs q2 k (nd_free ?n) val (if val = None then 0 else nd_val ?n - int (length ?v))"
  proof (cases val)
    case None
    then have "q\<lparr>q_node := ?n\<lparr>nd_free := nd_free ?n + int (length k)\<rparr>\<rparr> = q2"
      by (simp add: q2_def n2_def val_of_def)
    then show ?thesis
      using full alloc(1) [of bs] b None by (simp add: node_insert_try_def Let_def)
  next
    case (Some v)
    then show ?thesis
      using full alloc [of bs] b by (simp add: node_insert_try_def Let_def val_of_def q2_def n2_def)
  qed
  moreover have "(q_node q2)\<lparr>nd_data := d, nd_records := Suc (length rs)\<rparr> = ?n\<lparr>nd_data := d,
      nd_records := Suc (length rs), nd_free := nd_free ?n + int (length k), nd_val := nd_val ?n - int (length ?v)\<rparr>" for d
    by (simp add: q2_def n2_def)
  ultimately show ?thesis
    using fin [of "if val = None then 0 else nd_val ?n - int (length ?v)"] by auto
qed

definition same_shape :: "apfs_node \<Rightarrow> apfs_node \<Rightarrow> bool" where
  "same_shape n' n \<longleftrightarrow> nd_tree_type n' = nd_tree_type n \<and> nd_flags n' = nd_flags n"

lemma same_shape_sel:
  assumes "same_shape n' n"
  shows "value_end bs n' = value_end bs n" "copy_toc bs n' c = copy_toc bs n c"
    "toc_entry_size n' = toc_entry_size n" "fits_kind n' r = fits_kind n r"
  using assms by (simp_all add: same_shape_def value_end_def copy_toc_def toc_entry_size_def fits_kind_def
      apfs_node_is_root_def apfs_node_is_leaf_def apfs_node_has_fixed_kv_size_def cong: if_cong)

text \<open>The table of contents is expanded first if it is full.\<close>

lemma insert_expanded:
  assumes repr: "node_repr bs (q_node q) rs" and full: "toc_full (q_node q)"
    and gap: "nd_free (q_node q) + 8 * toc_entry_size (q_node q) \<le> nd_val (q_node q)"
  obtains q1 n1 where "\<And>defrag k val. node_insert_try bs defrag k val q = node_insert_try bs defrag k val q1"
    "q_node q1 = n1" "q_index q1 = q_index q" "\<not> toc_full n1" "node_repr bs n1 rs" "same_shape n1 (q_node q)"
    "nd_free n1 = nd_free (q_node q) + 8 * toc_entry_size (q_node q)" "nd_val n1 = nd_val (q_node q)"
    "nd_key_free_list_len n1 = nd_key_free_list_len (q_node q)"
    "nd_val_free_list_len n1 = nd_val_free_list_len (q_node q)"
proof -
  let ?n = "q_node q" let ?inc = "8 * toc_entry_size ?n"
  obtain d where ex: "node_expand_toc q = Inr (q\<lparr>q_node := ?n\<lparr>nd_data := d, nd_key := nd_key ?n + ?inc,
        nd_free := nd_free ?n + ?inc\<rparr>, q_key_off := q_key_off q + ?inc\<rparr>)"
    and repr1: "node_repr bs (?n\<lparr>nd_data := d, nd_key := nd_key ?n + ?inc, nd_free := nd_free ?n + ?inc\<rparr>) rs"
    using node_expand_toc_repr [OF repr gap] by blast
  define n1 where "n1 = ?n\<lparr>nd_data := d, nd_key := nd_key ?n + ?inc, nd_free := nd_free ?n + ?inc\<rparr>"
  define q1 where "q1 = q\<lparr>q_node := n1, q_key_off := q_key_off q + ?inc\<rparr>"
  have q1: "q_node q1 = n1" "q_index q1 = q_index q" by (simp_all add: q1_def)
  have shape: "same_shape n1 ?n" by (simp add: n1_def same_shape_def)
  have full1: "\<not> toc_full n1"
  proof -
    have "56 + toc_entry_size ?n * (int (length rs) + 1) \<le> nd_key ?n + ?inc"
      using node_repr_bounds(4) [OF repr] toc_entry_size_pos(1) [of ?n] unfolding distrib_left by linarith
    then show ?thesis
      using toc_full_repr [of bs n1 rs] repr1 same_shape_sel [OF shape] by (auto simp: n1_def)
  qed
  have "node_insert_try bs defrag k val q = node_insert_try bs defrag k val q1" for defrag k val
    using full full1 ex gap by (simp add: node_insert_try_def Let_def q1 flip: n1_def q1_def)
  then show thesis
    using that [OF _ q1 full1 _ shape] repr1 by (simp add: n1_def)
qed

lemma node_insert_try_repr:
  assumes repr: "node_repr bs (q_node q) rs" and i: "q_index q = int i - 1" "i \<le> length rs"
    and kind: "fits_kind (q_node q) (k, val_of val)"
    and gap: "nd_free (q_node q) + insert_room (q_node q) k val \<le> nd_val (q_node q)"
  shows "\<exists>q'. node_insert_try bs defrag k val q = Inr q' \<and> q_index q' = int i \<and>
    apfs_node_total_room (q_node q') = apfs_node_total_room (q_node q) - insert_room (q_node q) k val \<and>
    node_repr bs (q_node q') (insert_at i (k, val_of val) rs)"
proof (cases "toc_full (q_node q)")
  case False
  then show ?thesis
    using insert_into_gap [OF repr i False kind, of defrag] gap
    by (auto simp: insert_room_def apfs_node_total_room_def)
next
  case True
  let ?n = "q_node q" let ?inc = "8 * toc_entry_size ?n"
  have gap1: "nd_free ?n + ?inc + int (length k) + int (length (val_of val)) \<le> nd_val ?n"
    using gap True by (simp add: insert_room_def)
  then have "nd_free ?n + ?inc \<le> nd_val ?n" by linarith
  then obtain q1 n1 where q1: "\<And>defrag k val. node_insert_try bs defrag k val q = node_insert_try bs defrag k val q1"
      "q_node q1 = n1" "q_index q1 = q_index q" "\<not> toc_full n1" "node_repr bs n1 rs" "same_shape n1 ?n"
      "nd_free n1 = nd_free ?n + ?inc" "nd_val n1 = nd_val ?n"
      "nd_key_free_list_len n1 = nd_key_free_list_len ?n" "nd_val_free_list_len n1 = nd_val_free_list_len ?n"
    using insert_expanded [OF repr True] by metis
  have "\<exists>q' d. node_insert_try bs defrag k val q1 = Inr q' \<and> q_index q' = int i \<and>
    q_node q' = (q_node q1)\<lparr>nd_data := d, nd_records := Suc (length rs), nd_free := nd_free (q_node q1) + int (length k),
      nd_val := nd_val (q_node q1) - int (length (val_of val))\<rparr> \<and>
    node_repr bs (q_node q') (insert_at i (k, val_of val) rs)"
    using q1 gap1 kind i same_shape_sel [OF q1(6)] by (intro insert_into_gap) auto
  then show ?thesis
    unfolding q1(1) using True q1
    by (auto simp: apfs_node_total_room_def insert_room_def)
qed

section \<open>Insertion after a defragmentation\<close>

text \<open>The free lists are too short for the new key and the new value.\<close>

definition lists_short :: "apfs_node \<Rightarrow> byte list \<Rightarrow> byte list option \<Rightarrow> bool" where
  "lists_short n k val \<longleftrightarrow> nd_key_free_list_len n < int (length k) \<and>
     (val_of val \<noteq> [] \<longrightarrow> nd_val_free_list_len n < int (length (val_of val)))"

lemma insert_no_gap:
  assumes repr: "node_repr bs (q_node q) rs" and short: "lists_short (q_node q) k val"
    and len: "length k < 65536" "length (val_of val) < 65536" and full: "\<not> toc_full (q_node q)"
    and gap: "nd_val (q_node q) < nd_free (q_node q) + int (length k) + int (length (val_of val))"
  shows "\<exists>q2. node_insert_try bs defrag k val q = defrag q2 \<and> node_repr bs (q_node q2) rs \<and>
    same_shape (q_node q2) (q_node q) \<and> q_index q2 = q_index q"
proof -
  let ?n = "q_node q"
  have u16: "to_u16 (int (length k)) = int (length k)"
    "to_u16 (int (length (val_of val))) = int (length (val_of val))"
    using len by (simp_all add: to_u16_def)
  show ?thesis
  proof (cases "nd_free ?n + int (length k) \<le> nd_val ?n")
    case False
    then have "node_insert_try bs defrag k val q = defrag q"
      using full short u16
      by (simp add: node_insert_try_def Let_def apfs_node_alloc_key_def apfs_node_free_list_alloc_def lists_short_def)
    then show ?thesis using repr by (auto simp: same_shape_def)
  next
    case True
    then have "val_of val \<noteq> []"
      using gap by auto
    then obtain v where v: "val = Some v" "v \<noteq> []" "val_of val = v"
      by (cases val) (auto simp: val_of_def)
    let ?n2 = "?n\<lparr>nd_free := nd_free ?n + int (length k)\<rparr>"
    have "node_insert_try bs defrag k val q = defrag (q\<lparr>q_node := ?n2\<rparr>)"
      using full True short gap u16 v
      by (simp add: node_insert_try_def Let_def apfs_node_alloc_key_def apfs_node_alloc_val_def
          apfs_node_free_list_alloc_def lists_short_def)
    moreover have "node_repr bs ?n2 rs"
      by (rule node_repr_frame [OF repr]) (use True in auto)
    ultimately show ?thesis by (auto simp: same_shape_def)
  qed
qed

lemma node_insert_try_defrag:
  assumes repr: "node_repr bs (q_node q) rs" and short: "lists_short (q_node q) k val"
    and len: "length k < 65536" "length (val_of val) < 65536"
    and gap: "nd_val (q_node q) < nd_free (q_node q) + insert_room (q_node q) k val"
  shows "\<exists>q2. node_insert_try bs defrag k val q = defrag q2 \<and> node_repr bs (q_node q2) rs \<and>
    same_shape (q_node q2) (q_node q) \<and> q_index q2 = q_index q"
proof (cases "toc_full (q_node q)")
  case False
  then show ?thesis
    using insert_no_gap [OF repr short len False] gap by (simp add: insert_room_def)
next
  case True
  let ?n = "q_node q" let ?inc = "8 * toc_entry_size ?n"
  show ?thesis
  proof (cases "nd_free ?n + ?inc \<le> nd_val ?n")
    case False
    then have "node_insert_try bs defrag k val q = defrag q"
      using True by (simp add: node_insert_try_def Let_def)
    then show ?thesis using repr by (auto simp: same_shape_def)
  next
    case fits: True
    obtain n1 q1 where q1: "node_insert_try bs defrag k val q = node_insert_try bs defrag k val q1"
        "q_node q1 = n1" "q_index q1 = q_index q" "\<not> toc_full n1" "node_repr bs n1 rs" "same_shape n1 ?n"
        "nd_free n1 = nd_free ?n + ?inc" "nd_val n1 = nd_val ?n"
        "nd_key_free_list_len n1 = nd_key_free_list_len ?n" "nd_val_free_list_len n1 = nd_val_free_list_len ?n"
      using insert_expanded [OF repr True fits] by metis
    then have "\<exists>q2. node_insert_try bs defrag k val q1 = defrag q2 \<and> node_repr bs (q_node q2) rs \<and>
        same_shape (q_node q2) (q_node q1) \<and> q_index q2 = q_index q1"
      using short gap True len by (intro insert_no_gap) (auto simp: lists_short_def insert_room_def)
    then show ?thesis
      using q1 by (auto simp: same_shape_def)
  qed
qed

text \<open>The room of a node with these records after a defragmentation.\<close>

definition defrag_room :: "int \<Rightarrow> apfs_node \<Rightarrow> (byte list \<times> byte list) list \<Rightarrow> int" where
  "defrag_room bs n rs = value_end bs n - 56 - copy_toc bs n (int (length rs)) - key_bytes rs - val_bytes rs"

lemma apfs_node_insert_repr:
  assumes repr: "node_repr bs (q_node q) rs" and i: "q_index q = int i - 1" "i \<le> length rs"
    and kind: "fits_kind (q_node q) (k, val_of val)"
    and room: "insert_room (q_node q) k val \<le> nd_val (q_node q) - nd_free (q_node q) \<or>
      lists_short (q_node q) k val \<and>
      8 * toc_entry_size (q_node q) + int (length k) + int (length (val_of val)) \<le> defrag_room bs (q_node q) rs"
  shows "\<exists>q'. apfs_node_insert bs q k val = Inr q' \<and> q_index q' = int i \<and>
    node_repr bs (q_node q') (insert_at i (k, val_of val) rs)"
proof (cases "insert_room (q_node q) k val \<le> nd_val (q_node q) - nd_free (q_node q)")
  case True
  then show ?thesis
    unfolding apfs_node_insert_def using node_insert_try_repr [OF repr i kind] by fastforce
next
  case False
  let ?n = "q_node q"
  let ?retry = "\<lambda>query. bind_res (apfs_defragment_node bs (q_node query)) (\<lambda>node.
          node_insert_try bs (\<lambda>_. Inl EFSCORRUPTED) k val (query\<lparr>q_node := node\<rparr>))"
  have dr: "8 * toc_entry_size ?n + int (length k) + int (length (val_of val)) \<le> defrag_room bs ?n rs"
    and short: "lists_short ?n k val"
    using room False by auto
  have toc: "0 \<le> copy_toc bs ?n (int (length rs))"
    using copy_toc_ge [of ?n "int (length rs)" bs] toc_bytes_nonneg [of ?n "length rs"] by linarith
  have "int (length k) + int (length (val_of val)) < 65536"
    using dr node_repr_bounds(2) [OF repr] value_end_le [of bs ?n] rec_bytes_nonneg [of rs]
      toc_entry_size_pos(1) [of ?n] toc unfolding defrag_room_def by linarith
  then have "\<exists>q2. node_insert_try bs ?retry k val q = ?retry q2 \<and> node_repr bs (q_node q2) rs \<and>
      same_shape (q_node q2) ?n \<and> q_index q2 = q_index q"
    using False by (intro node_insert_try_defrag [OF repr short]) auto
  then obtain q2 where q2: "node_insert_try bs ?retry k val q = ?retry q2" "node_repr bs (q_node q2) rs"
      "same_shape (q_node q2) ?n" "q_index q2 = q_index q"
    by blast
  note shape = same_shape_sel [OF q2(3)]
  have "56 + copy_toc bs (q_node q2) (int (length rs)) + key_bytes rs + val_bytes rs \<le> value_end bs (q_node q2)"
    unfolding shape using dr toc_entry_size_pos(1) [of ?n] unfolding defrag_room_def by linarith
  then obtain d where df: "apfs_defragment_node bs (q_node q2) = Inr (defragged bs (q_node q2) rs d)"
      "node_repr bs (defragged bs (q_node q2) rs d) rs"
    using defragment_node_repr [OF q2(2)] by blast
  define q3 where "q3 = q2\<lparr>q_node := defragged bs (q_node q2) rs d\<rparr>"
  have n3: "q_node q3 = defragged bs (q_node q2) rs d" by (simp add: q3_def)
  have shape3: "same_shape (q_node q3) ?n"
    using q2(3) by (simp add: n3 defragged_def same_shape_def)
  have "insert_room (q_node q3) k val \<le> 8 * toc_entry_size ?n + int (length k) + int (length (val_of val))"
    unfolding insert_room_def same_shape_sel [OF shape3] by simp
  moreover have "nd_val (q_node q3) - nd_free (q_node q3) = defrag_room bs ?n rs"
    by (simp add: n3 defragged_def defrag_room_def shape)
  ultimately have "nd_free (q_node q3) + insert_room (q_node q3) k val \<le> nd_val (q_node q3)"
    using dr by linarith
  moreover have "node_repr bs (q_node q3) rs" "q_index q3 = int i - 1"
    using df(2) i q2(4) by (simp_all add: q3_def)
  moreover have "fits_kind (q_node q3) (k, val_of val)"
    using kind unfolding same_shape_sel(4) [OF shape3] .
  ultimately obtain q' where "node_insert_try bs (\<lambda>_. Inl EFSCORRUPTED) k val q3 = Inr q'" "q_index q' = int i"
      "node_repr bs (q_node q') (insert_at i (k, val_of val) rs)"
    using node_insert_try_repr i(2) by metis
  then show ?thesis
    unfolding apfs_node_insert_def using q2(1) df(1) by (auto simp: q3_def)
qed

section \<open>Properties\<close>

text \<open>A node for the concrete instances: an empty leaf of the catalog, with blocks of 256 bytes.\<close>

definition sample_node :: apfs_node where
  "sample_node = \<lparr>nd_tree_type = 14, nd_flags = 2, nd_records = 0, nd_key = 120, nd_free = 120, nd_val = 256,
     nd_key_free_list_len = 0, nd_val_free_list_len = 0, nd_block_nr = 9, nd_oid = 7,
     nd_data = replicate 256 0\<rparr>"

lemma sample_node_sel:
  "\<not> apfs_node_is_root sample_node" "\<not> apfs_node_has_fixed_kv_size sample_node" "toc_entry_size sample_node = 8"
  "value_end 256 sample_node = 256" "apfs_node_is_leaf sample_node"
  by (simp_all add: sample_node_def apfs_node_is_root_def apfs_node_has_fixed_kv_size_def
      apfs_node_is_leaf_def toc_entry_size_def value_end_def node_flags)

lemma sample_node_repr: "node_repr 256 sample_node []" "apfs_node_is_valid 256 sample_node"
  using sample_node_sel by (simp_all add: node_repr_def apfs_node_is_valid_def sample_node_def)

lemma sample_record_of:
  assumes "0 < length k" "length k + length v \<le> 100"
  obtains n where "node_repr 256 n [(k, v)]" "nd_tree_type n = 14" "nd_flags n = 2"
proof -
  let ?q = "(apfs_alloc_query sample_node None)\<lparr>q_index := - 1\<rparr>"
  have n: "q_node ?q = sample_node" by (simp add: apfs_alloc_query_def)
  have "\<exists>q' d. node_insert_try 256 Inr k (Some v) ?q = Inr q' \<and> q_index q' = int 0 \<and>
    q_node q' = (q_node ?q)\<lparr>nd_data := d, nd_records := Suc (length ([] :: (byte list \<times> byte list) list)),
      nd_free := nd_free (q_node ?q) + int (length k),
      nd_val := nd_val (q_node ?q) - int (length (val_of (Some v)))\<rparr> \<and>
    node_repr 256 (q_node q') (insert_at 0 (k, val_of (Some v)) [])"
    by (rule insert_into_gap)
      (use assms in \<open>simp_all add: n sample_node_repr fits_kind_def sample_node_sel toc_full_def to_u32_def val_of_def\<close>,
       use assms in \<open>simp_all add: sample_node_def\<close>)
  then obtain q' :: apfs_query and d where q': "node_repr 256 (q_node q') (insert_at 0 (k, val_of (Some v)) [])"
    "q_node q' = (q_node ?q)\<lparr>nd_data := d, nd_records := Suc (length ([] :: (byte list \<times> byte list) list)),
      nd_free := nd_free (q_node ?q) + int (length k),
      nd_val := nd_val (q_node ?q) - int (length (val_of (Some v)))\<rparr>"
    by blast
  show thesis
    using that [of "q_node q'"] q' unfolding n by (simp add: insert_at_def val_of_def) (simp add: sample_node_def)
qed

lemma sample_record:
  obtains n where "node_repr 256 n [([1, 2, 3, 4, 5, 6, 7, 8], [9])]" "nd_tree_type n = 14" "nd_flags n = 2"
  by (rule sample_record_of [of "[1, 2, 3, 4, 5, 6, 7, 8]" "[9]"]) simp_all

text \<open>
  In a node that passed \<open>apfs_node_is_valid\<close>, whatever else its bytes are, \<open>apfs_node_locate_key\<close>
  and \<open>apfs_node_locate_value\<close> read nothing outside of the block for any \<open>int\<close> index, negative ones
  included, and a range they return with a positive length lies inside of the block.
\<close>

theorem node_locate_in_bounds:
  assumes "apfs_node_is_valid bs node" "int (length (nd_data node)) = bs" "- (2 ^ 31) \<le> i" "i < 2 ^ 31"
  shows "\<exists>klen koff vlen voff.
    apfs_node_locate_key bs node i off = Inr (klen, koff) \<and> 0 \<le> klen \<and>
    (0 < klen \<longrightarrow> nd_key node \<le> koff \<and> koff + klen \<le> bs) \<and>
    apfs_node_locate_value bs node i off = Inr (vlen, voff) \<and> 0 \<le> vlen \<and>
    (0 < vlen \<longrightarrow> 0 \<le> voff \<and> voff + vlen \<le> bs)"
  using locate_key_bounds [OF assms, of off] locate_value_bounds [OF assms, of off] by blast

theorem node_locate_in_bounds_witness:
  "\<exists>klen koff vlen voff. apfs_node_locate_key 256 sample_node (- 1) 0 = Inr (klen, koff) \<and> 0 \<le> klen \<and>
     apfs_node_locate_value 256 sample_node (- 1) 0 = Inr (vlen, voff) \<and> 0 \<le> vlen"
  using node_locate_in_bounds [OF sample_node_repr(2), of "- 1" 0] by (auto simp: sample_node_def)

text \<open>
  \<open>apfs_copy_record_range\<close> copies exactly the records with the indices \<open>start\<close> to \<open>stop - 1\<close>,
  in order, to the destination, if they fit there with a table of contents of the size the code
  chooses; the destination then has no fragmentation.
\<close>

theorem copy_record_range_copies:
  assumes "node_repr bs src (as @ ts @ us)" "start = int (length as)" "stop = start + int (length ts)"
    and "nd_records dest = 0" "int (length (nd_data dest)) = bs" "same_shape dest src"
    and "56 + copy_toc bs src (int (length ts)) + key_bytes ts + val_bytes ts \<le> value_end bs dest"
  shows "\<exists>dest'. apfs_copy_record_range bs dest src start stop = Inr dest' \<and> node_repr bs dest' ts \<and>
    nd_val dest' - nd_free dest' = value_end bs dest - 56 - copy_toc bs src (int (length ts)) - key_bytes ts - val_bytes ts"
proof -
  have "fits_kind dest r" if "r \<in> set ts" for r
    using node_repr_bounds(9) [OF assms(1)] that same_shape_sel(4) [OF assms(6)] by auto
  moreover have "apfs_node_has_fixed_kv_size dest = apfs_node_has_fixed_kv_size src"
    using assms(6) by (simp add: same_shape_def apfs_node_has_fixed_kv_size_def)
  ultimately show ?thesis
    using copy_record_range_repr [OF assms(1) refl assms(2-5) _ _ assms(7)] by fastforce
qed

theorem copy_record_range_copies_witness:
  "\<exists>src dest'. node_repr 256 src [([1, 2, 3, 4, 5, 6, 7, 8], [9])] \<and>
     apfs_copy_record_range 256 sample_node src 0 1 = Inr dest' \<and>
     node_repr 256 dest' [([1, 2, 3, 4, 5, 6, 7, 8], [9])]"
proof -
  obtain src where src: "node_repr 256 src [([1, 2, 3, 4, 5, 6, 7, 8], [9])]" "nd_tree_type src = 14" "nd_flags src = 2"
    by (rule sample_record)
  then have shape: "same_shape sample_node src" by (simp add: same_shape_def sample_node_def)
  have "copy_toc 256 src 1 = 64"
    using same_shape_sel(3) [OF shape] sample_node_sel src
    by (simp add: copy_toc_def apfs_node_min_table_size_def round_up_def)
  then have "\<exists>dest'. apfs_copy_record_range 256 sample_node src 0 1 = Inr dest' \<and>
      node_repr 256 dest' [([1, 2, 3, 4, 5, 6, 7, 8], [9])]"
    using copy_record_range_copies [of 256 src "[]" "[([1, 2, 3, 4, 5, 6, 7, 8], [9])]" "[]" 0 1 sample_node] src(1)
      shape sample_node_sel by (auto simp: sample_node_def)
  with src(1) show ?thesis by blast
qed

text \<open>
  (C6) \<open>apfs_defragment_node\<close> keeps the records of a node and their order, empties both free lists
  and makes all free space contiguous.
\<close>

theorem defragment_keeps_records:
  assumes "node_repr bs n rs" "0 \<le> defrag_room bs n rs"
  shows "\<exists>n'. apfs_defragment_node bs n = Inr n' \<and> node_repr bs n' rs \<and>
    nd_key_free_list_len n' = 0 \<and> nd_val_free_list_len n' = 0 \<and> apfs_node_total_room n' = defrag_room bs n rs"
proof -
  have "56 + copy_toc bs n (int (length rs)) + key_bytes rs + val_bytes rs \<le> value_end bs n"
    using assms(2) by (simp add: defrag_room_def)
  then show ?thesis
    using defragment_node_repr [OF assms(1)]
    by (fastforce simp: defragged_def apfs_node_total_room_def defrag_room_def)
qed

theorem defragment_keeps_records_witness:
  "\<exists>n'. apfs_defragment_node 256 sample_node = Inr n' \<and> node_repr 256 n' [] \<and> apfs_node_total_room n' = 136"
proof -
  have "defrag_room 256 sample_node [] = 136"
    using sample_node_sel by (simp add: defrag_room_def copy_toc_def apfs_node_min_table_size_def)
      (simp add: sample_node_def)
  then show ?thesis
    using defragment_keeps_records [OF sample_node_repr(1)] by auto
qed

text \<open>
  (C7) \<open>apfs_node_insert\<close> inserts a record right after the one the query points to and leaves all
  other records as they were, if the gap of the node has room for it or if, with free lists too short
  to serve, the defragmented node has: the table of contents is expanded as needed.
\<close>

theorem node_insert_inserts:
  assumes "node_repr bs (q_node q) rs" "q_index q = int i - 1" "i \<le> length rs"
    and "fits_kind (q_node q) (k, val_of val)"
    and "insert_room (q_node q) k val \<le> nd_val (q_node q) - nd_free (q_node q) \<or>
      lists_short (q_node q) k val \<and>
      8 * toc_entry_size (q_node q) + int (length k) + int (length (val_of val)) \<le> defrag_room bs (q_node q) rs"
  shows "\<exists>q'. apfs_node_insert bs q k val = Inr q' \<and> q_index q' = int i \<and>
    node_repr bs (q_node q') (insert_at i (k, val_of val) rs)"
  using apfs_node_insert_repr [OF assms] .

theorem node_insert_inserts_witness:
  "\<exists>q'. apfs_node_insert 256 ((apfs_alloc_query sample_node None)\<lparr>q_index := - 1\<rparr>) [1, 2, 3, 4] (Some [5]) = Inr q' \<and>
     q_index q' = 0 \<and> node_repr 256 (q_node q') [([1, 2, 3, 4], [5])]"
proof -
  let ?q = "(apfs_alloc_query sample_node None)\<lparr>q_index := - 1\<rparr>"
  have n: "q_node ?q = sample_node" by (simp add: apfs_alloc_query_def)
  have "insert_room sample_node [1, 2, 3, 4] (Some [5]) \<le> nd_val sample_node - nd_free sample_node"
    using sample_node_sel by (simp add: insert_room_def toc_full_def to_u32_def val_of_def) (simp add: sample_node_def)
  moreover have "fits_kind sample_node r" for r
    using sample_node_sel by (simp add: fits_kind_def)
  ultimately have "\<exists>q'. apfs_node_insert 256 ?q [1, 2, 3, 4] (Some [5]) = Inr q' \<and> q_index q' = int 0 \<and>
    node_repr 256 (q_node q') (insert_at 0 ([1, 2, 3, 4], val_of (Some [5])) [])"
    using sample_node_repr(1) by (intro node_insert_inserts) (simp_all add: n)
  then show ?thesis by (simp add: insert_at_def val_of_def)
qed

text \<open>
  The header that \<open>apfs_update_node\<close> writes is the one \<open>apfs_read_node\<close> reads back: the
  in-memory node survives the round trip through its block.
\<close>

theorem node_header_roundtrip:
  assumes "node_repr bs n rs" "nd_tree_type n < 2 ^ 32" "rd16 (nd_data n) 40 = Inr 0"
    and "0 \<le> nd_key_free_list_len n" "nd_key_free_list_len n < 65536"
    and "0 \<le> nd_val_free_list_len n" "nd_val_free_list_len n < 65536"
  shows "\<exists>n'. apfs_update_node n = Inr n' \<and> node_of_raw (nd_oid n) (nd_block_nr n) (nd_data n') = Inr n' \<and>
    node_repr bs n' rs"
proof -
  obtain d where d: "apfs_update_node n = Inr (n\<lparr>nd_data := d\<rparr>)" "node_repr bs (n\<lparr>nd_data := d\<rparr>) rs"
    using apfs_update_node_repr [OF assms(1)] by blast
  note b = node_repr_bounds [OF assms(1)] node_repr_key [OF assms(1)] node_repr_records [OF assms(1)]
  have "node_of_raw (nd_oid (n\<lparr>nd_data := d\<rparr>)) (nd_block_nr (n\<lparr>nd_data := d\<rparr>)) (nd_data (n\<lparr>nd_data := d\<rparr>)) =
      Inr (n\<lparr>nd_data := d\<rparr>)"
    by (rule update_node_roundtrip [OF d(1) _ assms(2) _ assms(3)]) (use b assms in simp_all)
  with d show ?thesis by auto
qed

theorem node_header_roundtrip_witness:
  "\<exists>n'. apfs_update_node sample_node = Inr n' \<and> node_of_raw 7 9 (nd_data n') = Inr n' \<and> node_repr 256 n' []"
proof -
  have "rd16 (nd_data sample_node) 40 = Inr 0"
    unfolding sample_node_def by simp code_simp
  then show ?thesis
    using node_header_roundtrip [OF sample_node_repr(1)] by (simp add: sample_node_def)
qed

end
