(* ===== verification/NodeFree.thy ===== *)
theory NodeFree
  imports NodeRecords
begin

text \<open>
  The free lists of a node and the nodes the driver creates.  The allocation of free segments is
  shown to be safe and to end on arbitrary bytes, and the blocks written for new roots are shown to
  be empty nodes.  A crafted header shows what the check of a node that was read leaves open.
\<close>

section \<open>Free lists\<close>

lemma free_list_head_cases: "free_list_head in_vals = 48 \<or> free_list_head in_vals = 52"
  by (simp add: free_list_head_def)

lemma free_list_add_ok:
  assumes "int (length (nd_data node)) = bs" "56 \<le> bs" "0 \<le> off" "4 \<le> len \<Longrightarrow> off + len \<le> bs"
  shows "\<exists>node'. apfs_node_free_list_add bs node off len = Inr node' \<and> length (nd_data node') = length (nd_data node)"
proof (cases "len < 4")
  case True
  then show ?thesis by (simp add: apfs_node_free_list_add_def Let_def)
next
  case False
  let ?v = "off \<ge> nd_val node"
  let ?head = "free_list_head ?v"
  have h: "0 \<le> ?head" "?head + 2 \<le> int (length (nd_data node))"
    using assms free_list_head_cases [of ?v] by auto
  then obtain ho where ho: "rd16 (nd_data node) ?head = Inr ho"
    using rd_le_ok [of ?head 2 "nd_data node"] by auto
  have "\<exists>raw. store_fields (nd_data node) [(off, le_field 2 a), (off + 2, le_field 2 b), (?head, le_field 2 c)] = Inr raw"
    for a b c
  proof -
    obtain d1 where d1: "memcpy (nd_data node) off (le_field 2 a) = Inr d1" "length d1 = length (nd_data node)"
      using memcpy_ok [of off "le_field 2 a" "nd_data node"] False assms by auto
    obtain d2 where d2: "memcpy d1 (off + 2) (le_field 2 b) = Inr d2" "length d2 = length (nd_data node)"
      using memcpy_ok [of "off + 2" "le_field 2 b" d1] d1(2) False assms by auto
    obtain d3 where "memcpy d2 ?head (le_field 2 c) = Inr d3"
      using memcpy_ok [of ?head "le_field 2 c" d2] d2(2) h by auto
    with d1 d2 show ?thesis by simp
  qed
  then obtain raw where raw: "store_fields (nd_data node) [(off, le_field 2 (int ho)), (off + 2, le_field 2 len),
      (?head, le_field 2 (if ?v then apfs_off_to_val_off bs node off else apfs_off_to_key_off node off))] = Inr raw"
    by blast
  then show ?thesis
    using False ho store_fields_length [OF raw]
    by (auto simp: apfs_node_free_list_add_def Let_def simp del: store_fields.simps)
qed

text \<open>
  The allocation from a free list is safe on arbitrary bytes, terminates for every list, even a
  circular one, and yields a range inside of the block.
\<close>

lemma free_list_loop_ok:
  assumes "int (length (nd_data node)) = bs" "56 \<le> bs" "bs \<le> 65536" "0 \<le> len" "0 \<le> prev" "prev + 4 \<le> bs"
  shows "(\<exists>off node'. free_list_loop bound bs node len in_vals prev = Inr (off, node') \<and>
      0 \<le> off \<and> off + len \<le> bs \<and> length (nd_data node') = length (nd_data node)) \<or>
    free_list_loop bound bs node len in_vals prev \<in> {Inl ENOSPC, Inl EFSCORRUPTED}"
  using assms(5,6)
proof (induction bound arbitrary: prev)
  case 0
  then show ?case by simp
next
  case (Suc bound)
  obtain co where co: "rd16 (nd_data node) prev = Inr co"
    using rd_le_ok [of prev 2 "nd_data node"] Suc.prems assms(1) by auto
  define a where "a = (if in_vals then apfs_val_off_to_off bs node (int co) else apfs_key_off_to_off node (int co))"
  have a0: "0 \<le> a"
    by (simp add: a_def apfs_val_off_to_off_def apfs_off_to_val_off_def apfs_key_off_to_off_def to_u16_def)
  show ?case
  proof (cases "int co = 0xffff \<or> a + 4 > bs")
    case True
    then show ?thesis using co by (auto simp: Let_def a_def)
  next
    case False
    then obtain cl where cl: "rd16 (nd_data node) (a + 2) = Inr cl"
      using rd_le_ok [of "a + 2" 2 "nd_data node"] a0 assms(1) by auto
    note step = co cl False a_def [symmetric]
    show ?thesis
    proof (cases "int cl \<ge> len")
      case more: False
      then have "free_list_loop (Suc bound) bs node len in_vals prev = free_list_loop bound bs node len in_vals a"
        using step by (simp add: Let_def)
      then show ?thesis using Suc.IH [of a] False a0 by simp
    next
      case fits: True
      show ?thesis
      proof (cases "a + int cl > bs")
        case True
        then show ?thesis using step fits by (simp add: Let_def)
      next
        case in_block: False
        define node1 where "node1 = (if in_vals then node\<lparr>nd_val_free_list_len := nd_val_free_list_len node - int cl\<rparr>
          else node\<lparr>nd_key_free_list_len := nd_key_free_list_len node - int cl\<rparr>)"
        have n1: "nd_data node1 = nd_data node" by (simp add: node1_def)
        obtain nx where nx: "rd16 (nd_data node) a = Inr nx"
          using rd_le_ok [of a 2 "nd_data node"] a0 False assms(1) by auto
        obtain raw where raw: "wr16 (nd_data node) prev (int nx) = Inr raw"
          using wr_le_ok [of prev 2 "nd_data node"] Suc.prems assms(1) by auto
        have unlink: "apfs_node_free_list_unlink (nd_data node1) prev a = Inr raw"
          using nx raw n1 by (simp add: apfs_node_free_list_unlink_def)
        let ?node2 = "node1\<lparr>nd_data := raw\<rparr>"
        have cl16: "int cl < 65536" using rd_le_bound [OF cl] by simp
        have u: "to_u16 (int cl - len) = int cl - len"
          using fits assms(4) cl16 by (simp add: to_u16_def)
        have "to_u16 (a + len) = a + len" if "4 \<le> int cl - len"
          using that in_block assms(3,4) a0 by (simp add: to_u16_def)
        moreover have "0 \<le> to_u16 (a + len)" by (simp add: to_u16_def)
        ultimately obtain node3 where "apfs_node_free_list_add bs ?node2 (to_u16 (a + len)) (to_u16 (int cl - len)) = Inr node3"
            "length (nd_data node3) = length raw"
          using free_list_add_ok [of ?node2 bs "to_u16 (a + len)" "int cl - len"] u wr_le_length [OF raw] assms in_block
          by auto
        then have "free_list_loop (Suc bound) bs node len in_vals prev = Inr (a, node3)"
          using step fits in_block unlink by (simp add: Let_def flip: node1_def)
        then show ?thesis
          using a0 fits in_block \<open>length (nd_data node3) = length raw\<close> wr_le_length [OF raw] by auto
      qed
    qed
  qed
qed

lemma free_list_alloc_ok:
  assumes "int (length (nd_data node)) = bs" "56 \<le> bs" "bs \<le> 65536" "0 \<le> len"
  shows "(\<exists>off node'. apfs_node_free_list_alloc bs node len in_vals = Inr (off, node') \<and>
      0 \<le> off \<and> off + len \<le> bs \<and> length (nd_data node') = length (nd_data node)) \<or>
    apfs_node_free_list_alloc bs node len in_vals \<in> {Inl ENOSPC, Inl EFSCORRUPTED}"
  using free_list_loop_ok [OF assms, of "free_list_head in_vals" "nat bs" in_vals] free_list_head_cases [of in_vals] assms(2)
  by (auto simp: apfs_node_free_list_alloc_def)


section \<open>Nodes that the driver creates\<close>

lemma store_fields_in_bounds:
  assumes "\<And>p bs. (p, bs) \<in> set fs \<Longrightarrow> 0 \<le> p \<and> p + int (length bs) \<le> int (length b)"
  shows "\<exists>b'. store_fields b fs = Inr b' \<and> length b' = length b"
  using assms
proof (induction fs arbitrary: b)
  case Nil
  then show ?case by simp
next
  case (Cons f fs)
  obtain p c where f: "f = (p, c)" by (cases f)
  then obtain b1 where b1: "memcpy b p c = Inr b1" "length b1 = length b"
    using memcpy_ok [of p c b] Cons.prems by auto
  moreover have "\<exists>b'. store_fields b1 fs = Inr b' \<and> length b' = length b1"
    using Cons.prems b1(2) by (intro Cons.IH) auto
  ultimately show ?case using f by auto
qed

lemma set_empty_btree_info_ok:
  assumes "0 \<le> info" "info + 40 \<le> int (length raw)"
  shows "\<exists>raw'. apfs_set_empty_btree_info bs raw info subtype = Inr raw' \<and> length raw' = length raw \<and>
    (\<forall>off len. off + len \<le> info \<longrightarrow> rd_bytes raw' off len = rd_bytes raw off len) \<and>
    rd64 raw' (info + 24) = Inr 0 \<and> rd64 raw' (info + 32) = Inr 1"
proof -
  obtain r0 where r0: "memset raw info 0 40 = Inr r0" "length r0 = length raw"
    using memset_ok [of 40 info raw 0] assms by auto
  have f0: "rd_bytes r0 off len = rd_bytes raw off len" if "off + len \<le> info" for off len
    using rd_bytes_memcpy_other [of raw info "replicate 40 0" r0 off len] r0(1) that by (simp add: memset_def)
  let ?fs1 = "[(info, le_field 4 (if subtype = 15 then 0x50 else 0x10)), (info + 4, le_field 4 bs),
    (info + 24, le_field 8 0), (info + 32, le_field 8 1)]"
  obtain r1 where r1: "store_fields r0 ?fs1 = Inr r1" "length r1 = length raw"
    using store_fields_in_bounds [of ?fs1 r0] r0 assms by fastforce
  have asc: "fields_asc info ?fs1 (info + 40)" by simp
  have c1: "rd64 r1 (info + 24) = Inr 0" "rd64 r1 (info + 32) = Inr 1"
    using le_field_read [OF r1(1) asc, of "info + 24" 8 0] le_field_read [OF r1(1) asc, of "info + 32" 8 1] by simp_all
  have f1: "rd_bytes r1 off len = rd_bytes r0 off len" if "off + len \<le> info" for off len
    using that by (intro store_fields_frame [OF r1(1)]) auto
  let ?fs2 = "[(info + 8, le_field 4 8), (info + 16, le_field 4 8), (info + 12, le_field 4 16), (info + 20, le_field 4 16)]"
  obtain r2 where r2: "store_fields r1 ?fs2 = Inr r2" "length r2 = length raw"
    using store_fields_in_bounds [of ?fs2 r1] r1 assms by fastforce
  have f2: "rd_bytes r2 off len = rd_bytes r1 off len" if "off + len \<le> info \<or> info + 24 \<le> off" for off len
    using that by (intro store_fields_frame [OF r2(1)]) auto
  have c2: "rd64 r2 (info + 24) = Inr 0" "rd64 r2 (info + 32) = Inr 1"
    using c1 f2 by (simp_all add: rd_le_def)
  show ?thesis
  proof (cases "subtype = 15")
    case True
    then have "apfs_set_empty_btree_info bs raw info subtype = Inr r1"
      using r0(1) r1(1) by (simp add: apfs_set_empty_btree_info_def del: store_fields.simps)
    then show ?thesis using r1(2) c1 f0 f1 by auto
  next
    case False
    then have "apfs_set_empty_btree_info bs raw info subtype = Inr r2"
      using r0(1) r1(1) r2(1) by (simp add: apfs_set_empty_btree_info_def del: store_fields.simps)
    then show ?thesis using r2(2) c2 f0 f1 f2 by auto
  qed
qed


definition root_flags :: "nat \<Rightarrow> u16" where
  "root_flags subtype = (if subtype = 19 then 7 else 3)"

lemma root_toc_bounds:
  assumes "4096 \<le> bs" "bs \<le> 65536"
  shows "0 \<le> apfs_node_min_table_size bs subtype flags" "apfs_node_min_table_size bs subtype flags \<le> bs - 96"
    "4 dvd apfs_node_min_table_size bs subtype flags"
proof -
  have d: "0 \<le> (bs - 56) div (k + v + 4) * 4" "(bs - 56) div (k + v + 4) * 4 \<le> bs - 96" if "16 \<le> k + v" for k v
  proof -
    show "0 \<le> (bs - 56) div (k + v + 4) * 4" using that assms by (simp add: pos_imp_zdiv_nonneg_iff)
    have "(bs - 56) div (k + v + 4) \<le> (bs - 56) div 20"
      using that assms by (intro zdiv_mono2) auto
    then show "(bs - 56) div (k + v + 4) * 4 \<le> bs - 96" using assms by linarith
  qed
  show "0 \<le> apfs_node_min_table_size bs subtype flags" "apfs_node_min_table_size bs subtype flags \<le> bs - 96"
    using d [of 16 16] d [of 16 8] d [of 8 16] d [of 8 8] assms pos_imp_zdiv_nonneg_iff [of 36 "bs - 56"]
      pos_imp_zdiv_nonneg_iff [of 28 "bs - 56"] pos_imp_zdiv_nonneg_iff [of 20 "bs - 56"]
    by (simp_all add: apfs_node_min_table_size_def Let_def)
  show "4 dvd apfs_node_min_table_size bs subtype flags"
    by (simp add: apfs_node_min_table_size_def Let_def)
qed

lemma make_empty_btree_root_ok:
  assumes bs: "4096 \<le> bs" "bs \<le> 65536" "int (length raw) = bs" and sub: "subtype \<in> {15, 19}"
  shows "\<exists>raw' node. apfs_make_empty_btree_root bs subtype bno xid raw = Inr raw' \<and>
    node_of_raw bno bno raw' = Inr node \<and> apfs_node_is_valid bs node \<and> node_repr bs node [] \<and>
    apfs_node_is_root node \<and> apfs_node_is_leaf node \<and> nd_tree_type node = subtype \<and>
    rd64 raw' (bs - 40 + 24) = Inr 0 \<and> rd64 raw' (bs - 40 + 32) = Inr 1"
proof -
  let ?fl = "root_flags subtype"
  define toc where "toc = apfs_node_min_table_size bs subtype ?fl"
  have toc: "0 \<le> toc" "toc \<le> bs - 96"
    using root_toc_bounds [OF bs(1,2)] by (simp_all add: toc_def)
  have fl: "(if subtype = 19 then APFS_BTNODE_ROOT OR APFS_BTNODE_LEAF OR APFS_BTNODE_FIXED_KV_SIZE
      else APFS_BTNODE_ROOT OR APFS_BTNODE_LEAF) = ?fl"
    by (simp add: root_flags_def node_flags)
  let ?fs1 = "[(32, le_field 2 (uint ?fl)), (34, le_field 2 0), (36, le_field 4 0),
              (40, le_field 2 0), (42, le_field 2 toc), (44, le_field 2 0), (46, le_field 2 (bs - 56 - toc - 40)),
              (48, le_field 2 0xffff), (50, le_field 2 0), (52, le_field 2 0xffff), (54, le_field 2 0)]"
  have asc1: "fields_asc 32 ?fs1 56" by simp
  obtain r1 where r1: "store_fields raw ?fs1 = Inr r1"
    using store_fields_ok [OF asc1, of raw] bs by auto
  have l1: "int (length r1) = bs" using store_fields_length [OF r1] bs by simp
  obtain r2 where r2: "apfs_set_empty_btree_info bs r1 (bs - 40) subtype = Inr r2" "length r2 = length r1"
      "\<And>off len. off + len \<le> bs - 40 \<Longrightarrow> rd_bytes r2 off len = rd_bytes r1 off len"
      "rd64 r2 (bs - 40 + 24) = Inr 0" "rd64 r2 (bs - 40 + 32) = Inr 1"
    using set_empty_btree_info_ok [of "bs - 40" r1 bs subtype] l1 bs by auto
  let ?fs3 = "[(8, le_field 8 (uint bno)), (16, le_field 8 (uint xid)),
              (24, le_field 4 (int (2 + 0x40000000))), (28, le_field 4 (int subtype))]"
  have asc3: "fields_asc 8 ?fs3 32" by simp
  obtain r3 where r3: "store_fields r2 ?fs3 = Inr r3"
    using store_fields_ok [OF asc3, of r2] l1 r2(2) bs by auto
  have l3: "int (length r3) = bs" using store_fields_length [OF r3] r2(2) l1 by simp
  have f3: "rd_le n r3 off = rd_le n r2 off" if "32 \<le> off" for n off
  proof -
    have "rd_bytes r3 off (int n) = rd_bytes r2 off (int n)"
      using that by (intro store_fields_frame [OF r3]) auto
    then show ?thesis by (simp add: rd_le_def)
  qed
  have f2: "rd_le n r2 off = rd_le n r1 off" if "off + int n \<le> bs - 40" for n off
    using r2(3) that by (simp add: rd_le_def)
  have hd: "rd_le n r3 p = Inr (nat x)" if "(p, le_field n x) \<in> set ?fs1" "0 \<le> x" "x < 256 ^ n" for p n x
  proof -
    have "32 \<le> p" "p + int n \<le> bs - 40" using fields_asc_after [OF asc1 that(1)] bs by auto
    then show ?thesis using f3 f2 le_field_read [OF r1 asc1 that] by simp
  qed
  have ufl: "uint ?fl < 65536" "of_nat (nat (uint ?fl)) = ?fl"
    by (simp_all add: root_flags_def)
  have st: "rd32 r3 28 = Inr subtype"
    using le_field_read [OF r3 asc3, of 28 4 "int subtype"] sub by auto
  have rest: "rd16 r3 32 = Inr (nat (uint ?fl))" "rd32 r3 36 = Inr 0" "rd16 r3 40 = Inr 0" "rd16 r3 42 = Inr (nat toc)"
    "rd16 r3 44 = Inr 0" "rd16 r3 46 = Inr (nat (bs - 56 - toc - 40))" "rd16 r3 50 = Inr 0" "rd16 r3 54 = Inr 0"
    using hd [of 32 2 "uint ?fl"] hd [of 36 4 0] hd [of 40 2 0] hd [of 42 2 toc] hd [of 44 2 0]
      hd [of 46 2 "bs - 56 - toc - 40"] hd [of 50 2 0] hd [of 54 2 0] ufl toc bs by simp_all
  define node where "node = \<lparr>nd_tree_type = subtype, nd_flags = ?fl, nd_records = 0, nd_key = 56 + toc,
      nd_free = 56 + toc, nd_val = bs - 40, nd_key_free_list_len = 0, nd_val_free_list_len = 0,
      nd_block_nr = bno, nd_oid = bno, nd_data = r3\<rparr>"
  have "node_of_raw bno bno r3 = Inr node"
    using st rest toc ufl(2) by (simp add: node_of_raw_def Let_def node_def)
  moreover have root: "apfs_node_is_root node" "apfs_node_is_leaf node"
    by (simp_all add: node_def apfs_node_is_root_def apfs_node_is_leaf_def root_flags_def node_flags)
  moreover have "apfs_node_is_valid bs node"
    using toc by (simp add: node_def apfs_node_is_valid_def)
  moreover have "value_end bs node = bs - 40" using root by (simp add: value_end_def)
  then have "node_repr bs node []"
    using toc l3 bs by (simp add: node_repr_def) (simp add: node_def)
  moreover have "apfs_make_empty_btree_root bs subtype bno xid raw = Inr r3"
    using r1 r2(1) r3 unfolding apfs_make_empty_btree_root_def fl Let_def toc_def [symmetric]
    by (simp del: store_fields.simps)
  moreover have "rd64 r3 (bs - 40 + 24) = Inr 0" "rd64 r3 (bs - 40 + 32) = Inr 1"
    using f3 r2(4,5) bs by simp_all
  ultimately show ?thesis
    by (auto simp: node_def)
qed

section \<open>Properties\<close>

text \<open>
  \<open>apfs_node_free_list_alloc\<close> on arbitrary bytes, with free lists that may be corrupted or
  circular, always returns: with \<open>ENOSPC\<close>, with \<open>EFSCORRUPTED\<close>, or with a range of the wanted length
  inside of the block, and it never accesses memory outside of the block.
\<close>

theorem free_list_alloc_in_block:
  assumes "int (length (nd_data node)) = bs" "56 \<le> bs" "bs \<le> 65536" "0 \<le> len"
  shows "(\<exists>off node'. apfs_node_free_list_alloc bs node len in_vals = Inr (off, node') \<and>
      0 \<le> off \<and> off + len \<le> bs \<and> length (nd_data node') = length (nd_data node)) \<or>
    apfs_node_free_list_alloc bs node len in_vals \<in> {Inl ENOSPC, Inl EFSCORRUPTED}"
  using free_list_alloc_ok [OF assms] .

theorem free_list_alloc_in_block_witness:
  "safe (apfs_node_free_list_alloc 256 (sample_node\<lparr>nd_val_free_list_len := 9\<rparr>) 5 True)"
  using free_list_alloc_in_block [of "sample_node\<lparr>nd_val_free_list_len := 9\<rparr>" 256 5 True]
  by (auto simp: safe_def) (simp_all add: sample_node_def)

text \<open>
  The root that \<open>apfs_make_empty_btree_root\<close> writes for the extent reference tree or for the
  snapshot tree of an object map is read back as a valid root and leaf with no records, and its
  footer counts one node and no keys.
\<close>

theorem make_empty_btree_root_is_empty:
  assumes "4096 \<le> bs" "bs \<le> 65536" "int (length raw) = bs" "subtype \<in> {15, 19}"
  shows "\<exists>raw' node. apfs_make_empty_btree_root bs subtype bno xid raw = Inr raw' \<and>
    node_of_raw bno bno raw' = Inr node \<and> apfs_node_is_valid bs node \<and> node_repr bs node [] \<and>
    apfs_node_is_root node \<and> apfs_node_is_leaf node \<and> nd_tree_type node = subtype \<and>
    rd64 raw' (bs - 40 + 24) = Inr 0 \<and> rd64 raw' (bs - 40 + 32) = Inr 1"
  using make_empty_btree_root_ok [OF assms] .

theorem make_empty_btree_root_is_empty_witness:
  "\<exists>raw' node. apfs_make_empty_btree_root 4096 19 5 1 (replicate 4096 170) = Inr raw' \<and>
     node_of_raw 5 5 raw' = Inr node \<and> apfs_node_is_valid 4096 node \<and> node_repr 4096 node []"
proof -
  have "int (length (replicate 4096 (170 :: byte))) = 4096" "(19 :: nat) \<in> {15, 19}" "(4096 :: int) \<le> 4096" "(4096 :: int) \<le> 65536"
    by simp_all
  from make_empty_btree_root_is_empty [OF this(3,4,1,2), of 5 1] show ?thesis by blast
qed

text \<open>
  (C8) The check of \<open>apfs_read_node\<close> bounds the table of contents but neither the free space nor the
  value area.  A crafted node whose free space starts at the end of the block passes it, and the
  insertion of a record into its alleged free space then writes outside of the block.
\<close>

theorem crafted_node_insert_out_of_block:
  assumes "apfs_node_is_valid bs (q_node q)" "int (length (nd_data (q_node q))) = bs"
    and "bs \<le> nd_free (q_node q)" "nd_free (q_node q) + int (length k) \<le> nd_val (q_node q)"
    and "\<not> toc_full (q_node q)" "k \<noteq> []" "length k < 65536"
  shows "apfs_node_insert bs q k None = Inl UB"
proof -
  have "to_u16 (int (length k)) = int (length k)"
    using assms(7) by (simp add: to_u16_def)
  moreover have "bs < nd_free (q_node q) + int (length k)"
    using assms(3,6) by (cases k) auto
  then have "memcpy (nd_data (q_node q)) (nd_free (q_node q)) k = Inl UB"
    using assms(2,6) by (simp add: memcpy_def)
  ultimately show ?thesis
    using assms by (simp add: apfs_node_insert_def node_insert_try_def node_insert_finish_def Let_def apfs_node_alloc_key_def)
qed

theorem crafted_node_insert_out_of_block_witness:
  "apfs_node_insert 256
     ((apfs_alloc_query (sample_node\<lparr>nd_free := 300, nd_val := 400\<rparr>) None)\<lparr>q_index := - 1\<rparr>) [1, 2, 3, 4] None = Inl UB"
proof -
  let ?n = "sample_node\<lparr>nd_free := 300, nd_val := 400\<rparr>" let ?q = "(apfs_alloc_query ?n None)\<lparr>q_index := - 1\<rparr>"
  have n: "q_node ?q = ?n" by (simp add: apfs_alloc_query_def)
  have es: "toc_entry_size ?n = 8"
    by (simp add: toc_entry_size_def apfs_node_has_fixed_kv_size_def node_flags sample_node_def)
  show ?thesis
    by (rule crafted_node_insert_out_of_block)
      (simp_all add: n es apfs_node_is_valid_def toc_full_def to_u32_def, simp_all add: sample_node_def)
qed

end
