(* ===== verification/NodeQuery.thy ===== *)
theory NodeQuery
  imports NodeFree
begin

text \<open>
  Queries on a single node (\<open>apfs_key_from_query\<close>, \<open>apfs_node_prev\<close>, \<open>apfs_node_next\<close>,
  \<open>apfs_node_query\<close> and \<open>apfs_omap_map_from_query\<close> of \<open>node.c\<close>).

  A query operation returns its error code with the new state of the query, since the callers go on
  with the query after some errors, for instance to insert a record that was not found.
  The parameter \<open>hashed\<close> is \<open>apfs_is_normalization_insensitive(sb)\<close>.
\<close>

section \<open>The key of the current record\<close>

type_synonym qresult = "errno option \<times> apfs_query"

text \<open>The bytes from a pointer into the block to the end of the block.\<close>

definition raw_at :: "buffer \<Rightarrow> int \<Rightarrow> buffer" where
  "raw_at raw off = (if 0 \<le> off then drop (nat off) raw else [])"

definition apfs_key_from_query :: "bool \<Rightarrow> apfs_query \<Rightarrow> apfs_key result" where
  "apfs_key_from_query hashed query =
     (let raw_key = raw_at (nd_data (q_node query)) (q_key_off query);
          key_len = q_key_len query;
          tree = q_flags query AND APFS_QUERY_TREE_MASK
      in bind_res
        (if tree = APFS_QUERY_CAT then apfs_read_cat_key raw_key key_len hashed
         else if tree = APFS_QUERY_OMAP then apfs_read_omap_key raw_key key_len
         else if tree = APFS_QUERY_FREE_QUEUE then apfs_read_free_queue_key raw_key key_len
         else if tree = APFS_QUERY_EXTENTREF then apfs_read_extentref_key raw_key key_len
         else if tree = APFS_QUERY_FEXT then apfs_read_fext_key raw_key key_len
         else if tree = APFS_QUERY_SNAP_META then apfs_read_snap_meta_key raw_key key_len
         else if tree = APFS_QUERY_OMAP_SNAP then apfs_read_omap_snap_key raw_key key_len
         else Inl EOPNOTSUPP)
        (\<lambda>key.
          let key = (if has_flag query APFS_QUERY_ANY_NAME then key\<lparr>k_name := None\<rparr> else key);
              key = (if has_flag query APFS_QUERY_ANY_NUMBER then key\<lparr>k_number := 0\<rparr> else key)
          in Inr key))"

section \<open>Neighbours of a record\<close>

definition apfs_node_prev :: "int \<Rightarrow> apfs_query \<Rightarrow> qresult" where
  "apfs_node_prev bs query =
     (if to_u32 (q_index query + 1) = int (nd_records (q_node query)) then (Some EAGAIN, query)
      else
        let query = query\<lparr>q_index := q_index query + 1\<rparr> in
        case apfs_node_locate_key bs (q_node query) (q_index query) (q_key_off query) of
          Inl e \<Rightarrow> (Some e, query)
        | Inr (key_len, key_off) \<Rightarrow>
            let query = query\<lparr>q_key_len := key_len, q_key_off := key_off\<rparr> in
            if key_len = 0 then (Some EFSCORRUPTED, query)
            else case apfs_node_locate_value bs (q_node query) (q_index query) (q_off query) of
              Inl e \<Rightarrow> (Some e, query)
            | Inr (len, off) \<Rightarrow>
                let query = query\<lparr>q_len := len, q_off := off\<rparr> in
                if len = 0 then (Some EFSCORRUPTED, query) else (None, query))"

text \<open>The key at the index of the query, and the query that points to it.\<close>

definition query_at :: "int \<Rightarrow> bool \<Rightarrow> apfs_query \<Rightarrow> (apfs_query \<times> apfs_key result) result" where
  "query_at bs hashed query =
     bind_res (apfs_node_locate_key bs (q_node query) (q_index query) (q_key_off query)) (\<lambda>(key_len, key_off).
       let query = query\<lparr>q_key_len := key_len, q_key_off := key_off\<rparr>
       in Inr (query, apfs_key_from_query hashed query))"

definition apfs_node_next :: "int \<Rightarrow> bool \<Rightarrow> apfs_query \<Rightarrow> qresult" where
  "apfs_node_next bs hashed query =
     (if has_flag query APFS_QUERY_DONE then (Some ENODATA, query)
      else if q_index query = 0 then (Some EAGAIN, query)
      else
        let query = query\<lparr>q_index := q_index query - 1\<rparr> in
        case query_at bs hashed query of
          Inl e \<Rightarrow> (Some e, query)
        | Inr (query, Inl e) \<Rightarrow> (Some e, query)
        | Inr (query, Inr curr_key) \<Rightarrow>
            let cmp = apfs_keycmp curr_key (q_key query) in
            if cmp > 0 then (Some EFSCORRUPTED, query)
            else if cmp \<noteq> 0 \<and> apfs_node_is_leaf (q_node query) \<and> has_flag query APFS_QUERY_EXACT
            then (Some ENODATA, query)
            else case apfs_node_locate_value bs (q_node query) (q_index query) (q_off query) of
              Inl e \<Rightarrow> (Some e, query)
            | Inr (len, off) \<Rightarrow>
                let query = query\<lparr>q_len := len, q_off := off\<rparr> in
                if len = 0 then (Some EFSCORRUPTED, query)
                else (None, if cmp \<noteq> 0 then query\<lparr>q_flags := q_flags query OR APFS_QUERY_DONE\<rparr> else query))"

section \<open>Search by bisection\<close>

text \<open>
  The loop of \<open>apfs_node_query\<close>: \<open>cmp\<close>, \<open>left\<close> and \<open>right\<close> are its variables at the start of an
  iteration.  The result is either the return from inside of the loop (\<open>Inl\<close>) or the last comparison
  with the query (\<open>Inr\<close>).  A loop that does not end has the value \<open>None\<close>.
\<close>

partial_function (option) bisect_loop ::
  "int \<Rightarrow> bool \<Rightarrow> int \<Rightarrow> int \<Rightarrow> int \<Rightarrow> apfs_query \<Rightarrow> (qresult + int \<times> apfs_query) option" where
  "bisect_loop bs hashed cmp left right query =
     (let right = (if cmp > 0 then q_index query - 1 else right) in
      if cmp > 0 \<and> right < left then Some (Inl (Some ENODATA, query\<lparr>q_index := - 1\<rparr>))
      else
        let left = (if cmp > 0 then left else q_index query);
            query = query\<lparr>q_index := if cmp > 0 then (left + right) div 2 else DIV_ROUND_UP (left + right) 2\<rparr>
        in case query_at bs hashed query of
             Inl e \<Rightarrow> Some (Inl (Some e, query))
           | Inr (query, Inl e) \<Rightarrow> Some (Inl (Some e, query))
           | Inr (query, Inr curr_key) \<Rightarrow>
               let cmp = apfs_keycmp curr_key (q_key query) in
               if cmp = 0 \<and> \<not> has_flag query APFS_QUERY_MULTIPLE \<or> left = right then Some (Inr (cmp, query))
               else bisect_loop bs hashed cmp left right query)"

text \<open>The rest of \<open>apfs_node_query\<close> after the loop.\<close>

definition node_query_found :: "int \<Rightarrow> int \<Rightarrow> apfs_query \<Rightarrow> qresult" where
  "node_query_found bs cmp query =
     (if cmp > 0 then (Some ENODATA, query\<lparr>q_index := - 1\<rparr>)
      else if cmp \<noteq> 0 \<and> apfs_node_is_leaf (q_node query) \<and> has_flag query APFS_QUERY_EXACT
      then (Some ENODATA, query)
      else
        let query =
          (if has_flag query APFS_QUERY_MULTIPLE then
             let query = (if cmp \<noteq> 0 then query\<lparr>q_flags := q_flags query OR APFS_QUERY_DONE\<rparr> else query)
             in query\<lparr>q_flags := q_flags query OR APFS_QUERY_NEXT\<rparr>
           else query)
        in case apfs_node_locate_value bs (q_node query) (q_index query) (q_off query) of
             Inl e \<Rightarrow> (Some e, query)
           | Inr (len, off) \<Rightarrow> (None, query\<lparr>q_len := len, q_off := off\<rparr>))"

definition apfs_node_query :: "int \<Rightarrow> bool \<Rightarrow> apfs_query \<Rightarrow> qresult option" where
  "apfs_node_query bs hashed query =
     (if has_flag query APFS_QUERY_PREV then Some (apfs_node_prev bs query)
      else if has_flag query APFS_QUERY_NEXT then Some (apfs_node_next bs hashed query)
      else case bisect_loop bs hashed 1 0 0 query of
             None \<Rightarrow> None
           | Some (Inl r) \<Rightarrow> Some r
           | Some (Inr (cmp, query)) \<Rightarrow> Some (node_query_found bs cmp query))"

definition apfs_node_query_first :: "int \<Rightarrow> apfs_query \<Rightarrow> apfs_query result" where
  "apfs_node_query_first bs query =
     (let query = query\<lparr>q_index := 0\<rparr> in
      bind_res (apfs_node_locate_key bs (q_node query) 0 (q_key_off query)) (\<lambda>(key_len, key_off).
      bind_res (apfs_node_locate_value bs (q_node query) 0 (q_off query)) (\<lambda>(len, off).
      Inr (query\<lparr>q_key_len := key_len, q_key_off := key_off, q_len := len, q_off := off\<rparr>))))"

section \<open>Mappings of an object map\<close>

record apfs_omap_map =
  map_xid :: u64
  map_bno :: u64
  map_flags :: u32

definition apfs_omap_map_from_query :: "int \<Rightarrow> apfs_query \<Rightarrow> apfs_omap_map result" where
  "apfs_omap_map_from_query bs query =
     (let raw = nd_data (q_node query) in
      if q_len query \<noteq> 16 \<or> q_key_len query \<noteq> 16 then Inl EFSCORRUPTED
      else bind_res (rd32 raw (q_off query + 4)) (\<lambda>ov_size.
        if int ov_size \<noteq> bs then Inl EOPNOTSUPP
        else bind_res (rd64 raw (q_key_off query + 8)) (\<lambda>ok_xid.
             bind_res (rd64 raw (q_off query + 8)) (\<lambda>ov_paddr.
             bind_res (rd32 raw (q_off query)) (\<lambda>ov_flags.
             Inr \<lparr>map_xid = of_nat ok_xid, map_bno = of_nat ov_paddr, map_flags = of_nat ov_flags\<rparr>)))))"


section \<open>Memory safety of the parsing of keys\<close>

lemma apfs_key_from_query_safe:
  assumes "q_key_len query \<le> int (length (raw_at (nd_data (q_node query)) (q_key_off query)))"
  shows "safe (apfs_key_from_query hashed query)"
proof -
  note parsers = apfs_read_cat_key_safe [OF assms] apfs_read_snap_meta_key_safe [OF assms]
    fixed_key_readers_safe [OF assms]
  show ?thesis
    unfolding apfs_key_from_query_def Let_def by (rule safe_bind) (simp_all add: parsers)
qed

lemma query_at_ok:
  assumes "apfs_node_is_valid bs (q_node q)" "int (length (nd_data (q_node q))) = bs"
    "- (2 ^ 31) \<le> q_index q" "q_index q < 2 ^ 31"
  shows "\<exists>len off k. query_at bs hashed q = Inr (q\<lparr>q_key_len := len, q_key_off := off\<rparr>, k) \<and> safe k"
proof -
  obtain len off where loc: "apfs_node_locate_key bs (q_node q) (q_index q) (q_key_off q) = Inr (len, off)"
      "0 \<le> len" "0 < len \<longrightarrow> nd_key (q_node q) \<le> off \<and> off + len \<le> bs"
    using locate_key_bounds [OF assms] by blast
  let ?q = "q\<lparr>q_key_len := len, q_key_off := off\<rparr>"
  have "len \<le> int (length (raw_at (nd_data (q_node q)) off))"
  proof (cases "len = 0")
    case False
    then show ?thesis using loc valid_key [OF assms(1)] assms(2) by (auto simp: raw_at_def)
  qed simp
  then have "safe (apfs_key_from_query hashed ?q)"
    by (intro apfs_key_from_query_safe) simp
  then show ?thesis using loc(1) by (auto simp: query_at_def Let_def)
qed

section \<open>The search ends\<close>

text \<open>The queries that differ only in where they point to.\<close>

definition same_query :: "apfs_query \<Rightarrow> apfs_query \<Rightarrow> bool" where
  "same_query q' q \<longleftrightarrow> q_node q' = q_node q \<and> q_key q' = q_key q \<and> q_flags q' = q_flags q \<and>
     q_off q' = q_off q \<and> q_len q' = q_len q \<and> q_depth q' = q_depth q"

lemma same_query_simps [simp]:
  "same_query q q"
  "same_query (q'\<lparr>q_index := i\<rparr>) q \<longleftrightarrow> same_query q' q"
  "same_query (q'\<lparr>q_key_len := l\<rparr>) q \<longleftrightarrow> same_query q' q"
  "same_query (q'\<lparr>q_key_off := p\<rparr>) q \<longleftrightarrow> same_query q' q"
  by (auto simp: same_query_def)

text \<open>
  The new values of \<open>left\<close>, \<open>right\<close> and the index in an iteration, and the number that decreases with
  each iteration: with a comparison above zero it is the distance of the index from \<open>left\<close>, and
  otherwise its distance from \<open>right\<close>.
\<close>

definition bisect_right :: "int \<Rightarrow> int \<Rightarrow> int \<Rightarrow> int" where
  "bisect_right cmp right i = (if cmp > 0 then i - 1 else right)"

definition bisect_left :: "int \<Rightarrow> int \<Rightarrow> int \<Rightarrow> int" where
  "bisect_left cmp left i = (if cmp > 0 then left else i)"

definition bisect_index :: "int \<Rightarrow> int \<Rightarrow> int \<Rightarrow> int" where
  "bisect_index cmp left right = (if cmp > 0 then (left + right) div 2 else DIV_ROUND_UP (left + right) 2)"

definition bisect_measure :: "int \<Rightarrow> int \<Rightarrow> int \<Rightarrow> int \<Rightarrow> nat" where
  "bisect_measure cmp left right i = nat (if cmp > 0 then 2 * (i - left) else 2 * (right - i) + 1)"

lemma bisect_loop_step:
  "bisect_loop bs hashed cmp left right q =
     (let r = bisect_right cmp right (q_index q);
          l = bisect_left cmp left (q_index q)
      in if r < l \<and> cmp > 0 then Some (Inl (Some ENODATA, q\<lparr>q_index := - 1\<rparr>))
         else case query_at bs hashed (q\<lparr>q_index := bisect_index cmp l r\<rparr>) of
             Inl e \<Rightarrow> Some (Inl (Some e, q\<lparr>q_index := bisect_index cmp l r\<rparr>))
           | Inr (q', Inl e) \<Rightarrow> Some (Inl (Some e, q'))
           | Inr (q', Inr k) \<Rightarrow>
               let c = apfs_keycmp k (q_key q') in
               if c = 0 \<and> \<not> has_flag q' APFS_QUERY_MULTIPLE \<or> l = r then Some (Inr (c, q'))
               else bisect_loop bs hashed c l r q')"
  by (subst bisect_loop.simps)
    (auto simp: bisect_right_def bisect_left_def bisect_index_def Let_def split: sum.splits prod.splits)

lemma bisect_loop_at:
  assumes "l = bisect_left cmp left (q_index q)" "r = bisect_right cmp right (q_index q)" "i' = bisect_index cmp l r"
    and "\<not> (r < l \<and> cmp > 0)" "query_at bs hashed (q\<lparr>q_index := i'\<rparr>) = Inr (q', k)"
  shows "bisect_loop bs hashed cmp left right q =
    (case k of Inl e \<Rightarrow> Some (Inl (Some e, q'))
     | Inr k \<Rightarrow> if apfs_keycmp k (q_key q') = 0 \<and> \<not> has_flag q' APFS_QUERY_MULTIPLE \<or> l = r
         then Some (Inr (apfs_keycmp k (q_key q'), q'))
         else bisect_loop bs hashed (apfs_keycmp k (q_key q')) l r q')"
  by (subst bisect_loop_step)
    (simp only: Let_def assms(1-3) [symmetric] if_not_P [OF assms(4)] assms(5) sum.case prod.case)

text \<open>At the top of the loop, after the first iteration, the index is between \<open>left\<close> and \<open>right\<close>.\<close>

definition bisect_inv :: "int \<Rightarrow> int \<Rightarrow> int \<Rightarrow> int \<Rightarrow> bool" where
  "bisect_inv cmp left right i \<longleftrightarrow> 0 \<le> left \<and> (cmp > 0 \<or> left \<le> i \<and> i \<le> right)"

lemma bisect_bounds:
  assumes "bisect_inv cmp left right i" "\<not> (bisect_right cmp right i < bisect_left cmp left i \<and> cmp > 0)"
    "l = bisect_left cmp left i" "r = bisect_right cmp right i" "i' = bisect_index cmp l r"
  shows "0 \<le> l" "l \<le> i'" "i' \<le> r" "left \<le> l" "r \<le> max right i" "cmp > 0 \<Longrightarrow> r = i - 1"
    "cmp \<le> 0 \<Longrightarrow> r = right"
    "l \<noteq> r \<Longrightarrow> bisect_inv c l r i' \<and> bisect_measure c l r i' < bisect_measure cmp left right i"
proof -
  have lr: "0 \<le> l" "l \<le> r"
    using assms by (auto simp: bisect_inv_def bisect_left_def bisect_right_def split: if_splits)
  have i': "cmp > 0 \<Longrightarrow> i' = (l + r) div 2" "cmp \<le> 0 \<Longrightarrow> i' = (l + r + 1) div 2"
    using assms(5) by (simp_all add: bisect_index_def DIV_ROUND_UP_def)
  show "0 \<le> l" by (rule lr)
  show b: "l \<le> i'" "i' \<le> r"
    using lr i' by (cases "cmp > 0"; linarith)+
  show "left \<le> l" "r \<le> max right i" "cmp > 0 \<Longrightarrow> r = i - 1" "cmp \<le> 0 \<Longrightarrow> r = right"
    using assms by (auto simp: bisect_inv_def bisect_left_def bisect_right_def split: if_splits)
  assume ne: "l \<noteq> r"
  then have strict: "cmp > 0 \<Longrightarrow> i' < r" "cmp \<le> 0 \<Longrightarrow> l < i'"
    using lr i' by (auto; linarith)+
  have "bisect_measure c l r i' < bisect_measure cmp left right i"
  proof (cases "cmp > 0")
    case True
    then have "l = left" "r = i - 1" using assms(3,4) by (simp_all add: bisect_left_def bisect_right_def)
    then show ?thesis
      using True b strict(1) lr by (auto simp: bisect_measure_def)
  next
    case False
    then have "l = i" "r = right" using assms(3,4) by (simp_all add: bisect_left_def bisect_right_def)
    then show ?thesis
      using False b strict(2) lr by (auto simp: bisect_measure_def)
  qed
  then show "bisect_inv c l r i' \<and> bisect_measure c l r i' < bisect_measure cmp left right i"
    using lr b by (simp add: bisect_inv_def)
qed


lemma bisect_loop_total:
  assumes valid: "apfs_node_is_valid bs (q_node q)" "int (length (nd_data (q_node q))) = bs"
    and inv: "bisect_inv cmp left right (q_index q)" "cmp > 0 \<Longrightarrow> q_index q \<le> hi" "cmp \<le> 0 \<Longrightarrow> right < hi" "hi \<le> 2 ^ 31"
  shows "(\<exists>e q'. bisect_loop bs hashed cmp left right q = Some (Inl (Some e, q')) \<and> e \<noteq> UB \<and> same_query q' q) \<or>
    (\<exists>c q'. bisect_loop bs hashed cmp left right q = Some (Inr (c, q')) \<and> same_query q' q \<and>
       0 \<le> q_index q' \<and> q_index q' < hi)"
  using assms
proof (induction "bisect_measure cmp left right (q_index q)" arbitrary: cmp left right q rule: less_induct)
  case less
  define l r where "l = bisect_left cmp left (q_index q)" and "r = bisect_right cmp right (q_index q)"
  define i' where "i' = bisect_index cmp l r"
  show ?case
  proof (cases "r < l \<and> cmp > 0")
    case True
    then show ?thesis
      by (subst (1 2) bisect_loop_step) (simp add: l_def r_def Let_def)
  next
    case False
    note b = bisect_bounds [OF less.prems(3) False [unfolded l_def r_def] l_def r_def i'_def]
    have r31: "r < hi"
      using b(6,7) less.prems(4,5) by (cases "cmp > 0") auto
    let ?q1 = "q\<lparr>q_index := i'\<rparr>"
    obtain len off k where at: "query_at bs hashed ?q1 = Inr (?q1\<lparr>q_key_len := len, q_key_off := off\<rparr>, k)" "safe k"
      using query_at_ok [of bs ?q1 hashed] less.prems(1,2,6) b r31 by auto
    let ?q2 = "?q1\<lparr>q_key_len := len, q_key_off := off\<rparr>"
    have q2: "q_node ?q2 = q_node q" "q_index ?q2 = i'" "q_key ?q2 = q_key q" by simp_all
    note loop = bisect_loop_at [OF l_def r_def i'_def False at(1)]
    show ?thesis
    proof (cases k)
      case (Inl e)
      then show ?thesis using loop at(2) by simp
    next
      case (Inr ck)
      let ?c = "apfs_keycmp ck (q_key ?q2)"
      show ?thesis
      proof (cases "?c = 0 \<and> \<not> has_flag ?q2 APFS_QUERY_MULTIPLE \<or> l = r")
        case True
        then have "bisect_loop bs hashed cmp left right q = Some (Inr (?c, ?q2))"
          unfolding loop Inr sum.case by (rule if_P)
        then show ?thesis using b r31 by simp
      next
        case rec: False
        then have eq: "bisect_loop bs hashed cmp left right q = bisect_loop bs hashed ?c l r ?q2"
          unfolding loop Inr sum.case by (rule if_not_P)
        have "l \<noteq> r" using rec by blast
        note b8 = b(8) [OF this, of ?c]
        have "(\<exists>e q'. bisect_loop bs hashed ?c l r ?q2 = Some (Inl (Some e, q')) \<and> e \<noteq> UB \<and> same_query q' ?q2) \<or>
          (\<exists>c q'. bisect_loop bs hashed ?c l r ?q2 = Some (Inr (c, q')) \<and> same_query q' ?q2 \<and>
             0 \<le> q_index q' \<and> q_index q' < hi)"
          by (rule less.hyps) (use b8 b less.prems r31 in simp_all)
        then show ?thesis unfolding eq by (simp add: same_query_def)
      qed
    qed
  qed
qed

text \<open>A query on a node that passed the check always ends, without an access outside of the block.\<close>

lemma node_locate_value_ok:
  assumes "apfs_node_is_valid bs node" "int (length (nd_data node)) = bs" "- (2 ^ 31) \<le> i" "i < 2 ^ 31"
  shows "\<exists>len off'. apfs_node_locate_value bs node i off = Inr (len, off')"
  using locate_value_bounds [OF assms] by blast

lemma apfs_node_query_total:
  assumes "apfs_node_is_valid bs (q_node q)" "int (length (nd_data (q_node q))) = bs"
    "- (2 ^ 31) < q_index q" "q_index q < 2 ^ 31 - 1"
  shows "\<exists>e q'. apfs_node_query bs hashed q = Some (e, q') \<and> e \<noteq> Some UB \<and> q_node q' = q_node q \<and> q_key q' = q_key q"
proof -
  note val = node_locate_value_ok [OF assms(1,2)]
  consider "has_flag q APFS_QUERY_PREV" | "\<not> has_flag q APFS_QUERY_PREV" "has_flag q APFS_QUERY_NEXT"
    | "\<not> has_flag q APFS_QUERY_PREV" "\<not> has_flag q APFS_QUERY_NEXT" by blast
  then show ?thesis
  proof cases
    case 1
    obtain len off where "apfs_node_locate_key bs (q_node q) (q_index q + 1) (q_key_off q) = Inr (len, off)"
      using locate_key_bounds [OF assms(1,2), of "q_index q + 1" "q_key_off q"] assms(3,4) by auto
    moreover obtain vlen voff where "apfs_node_locate_value bs (q_node q) (q_index q + 1) (q_off q) = Inr (vlen, voff)"
      using val [of "q_index q + 1" "q_off q"] assms(3,4) by auto
    ultimately show ?thesis
      using 1 by (simp add: apfs_node_query_def apfs_node_prev_def Let_def)
  next
    case 2
    obtain len off k where "query_at bs hashed (q\<lparr>q_index := q_index q - 1\<rparr>) =
        Inr (q\<lparr>q_index := q_index q - 1, q_key_len := len, q_key_off := off\<rparr>, k)" "safe k"
      using query_at_ok [of bs "q\<lparr>q_index := q_index q - 1\<rparr>" hashed] assms by auto
    moreover obtain vlen voff where "apfs_node_locate_value bs (q_node q) (q_index q - 1) (q_off q) = Inr (vlen, voff)"
      using val [of "q_index q - 1" "q_off q"] assms(3,4) by auto
    ultimately show ?thesis
      using 2 by (cases k) (simp_all add: apfs_node_query_def apfs_node_next_def Let_def)
  next
    case 3
    have "(\<exists>e q'. bisect_loop bs hashed 1 0 0 q = Some (Inl (Some e, q')) \<and> e \<noteq> UB \<and> same_query q' q) \<or>
      (\<exists>c q'. bisect_loop bs hashed 1 0 0 q = Some (Inr (c, q')) \<and> same_query q' q \<and>
        0 \<le> q_index q' \<and> q_index q' < 2 ^ 31)"
      using assms by (intro bisect_loop_total) (simp_all add: bisect_inv_def)
    then show ?thesis
    proof (elim disjE exE conjE)
      fix e q'
      assume "bisect_loop bs hashed 1 0 0 q = Some (Inl (Some e, q'))" "e \<noteq> UB" "same_query q' q"
      then show ?thesis using 3 by (simp add: apfs_node_query_def same_query_def)
    next
      fix c q'
      assume q': "bisect_loop bs hashed 1 0 0 q = Some (Inr (c, q'))" "same_query q' q"
        "0 \<le> q_index q'" "q_index q' < 2 ^ 31"
      obtain vlen voff where "apfs_node_locate_value bs (q_node q') (q_index q') (q_off q') = Inr (vlen, voff)"
        using val [of "q_index q'" "q_off q'"] q' by (auto simp: same_query_def)
      then show ?thesis
        using 3 q' by (simp add: apfs_node_query_def node_query_found_def Let_def same_query_def)
    qed
  qed
qed


section \<open>The search finds the right record\<close>

text \<open>The key of the record with index \<open>i\<close>, as the query sees it.\<close>

definition node_key_at :: "int \<Rightarrow> bool \<Rightarrow> apfs_query \<Rightarrow> int \<Rightarrow> apfs_key result" where
  "node_key_at bs hashed q i =
     bind_res (apfs_node_locate_key bs (q_node q) i 0) (\<lambda>(len, off).
       apfs_key_from_query hashed (q\<lparr>q_key_len := len, q_key_off := off\<rparr>))"

lemma key_from_query_cong:
  assumes "q_node q' = q_node q" "q_flags q' = q_flags q" "q_key_len q' = q_key_len q" "q_key_off q' = q_key_off q"
  shows "apfs_key_from_query hashed q' = apfs_key_from_query hashed q"
  using assms by (simp add: apfs_key_from_query_def has_flag_def cong: if_cong)

lemma locate_key_off_irrelevant:
  "\<not> index_out_of_bounds node i \<Longrightarrow> apfs_node_locate_key bs node i off = apfs_node_locate_key bs node i off'"
  by (simp add: apfs_node_locate_key_def)

lemma query_at_key:
  assumes "node_key_at bs hashed q0 (q_index q) = Inr k" "same_query q q0" "\<not> index_out_of_bounds (q_node q) (q_index q)"
  shows "\<exists>len off. query_at bs hashed q = Inr (q\<lparr>q_key_len := len, q_key_off := off\<rparr>, Inr k)"
proof -
  have nf: "q_node q = q_node q0" "q_flags q = q_flags q0" using assms(2) by (auto simp: same_query_def)
  obtain len off where loc: "apfs_node_locate_key bs (q_node q) (q_index q) (q_key_off q) = Inr (len, off)"
    and k: "apfs_key_from_query hashed (q0\<lparr>q_key_len := len, q_key_off := off\<rparr>) = Inr k"
    using assms(1) locate_key_off_irrelevant [OF assms(3), of bs "q_key_off q" 0] nf(1)
    by (auto simp: node_key_at_def bind_res_eq_Inr)
  have "apfs_key_from_query hashed (q\<lparr>q_key_len := len, q_key_off := off\<rparr>) = Inr k"
    using k key_from_query_cong [of "q\<lparr>q_key_len := len, q_key_off := off\<rparr>" "q0\<lparr>q_key_len := len, q_key_off := off\<rparr>"] nf
    by simp
  then show ?thesis using loc by (auto simp: query_at_def)
qed

text \<open>
  The comparison of the query with the record \<open>i\<close> is \<open>c i\<close>; the records are sorted, so once it is
  above zero it stays so.
\<close>

lemma bisect_loop_finds:
  fixes c :: "int \<Rightarrow> int" and n :: int and q0 :: apfs_query
  assumes keys: "\<And>i. 0 \<le> i \<Longrightarrow> i < n \<Longrightarrow> \<exists>k. node_key_at bs hashed q0 i = Inr k \<and> c i = apfs_keycmp k (q_key q0)"
    and n: "n = int (nd_records (q_node q0))" "n < 2 ^ 31"
    and mono: "\<And>i j. 0 \<le> i \<Longrightarrow> i \<le> j \<Longrightarrow> j < n \<Longrightarrow> c i > 0 \<Longrightarrow> c j > 0"
    and inv: "bisect_inv cmp left right (q_index q)" "same_query q q0" "left = 0 \<or> left < n \<and> c left \<le> 0"
    and pos: "cmp > 0 \<Longrightarrow> q_index q \<le> n \<and> (\<forall>j. q_index q \<le> j \<and> j < n \<longrightarrow> c j > 0)"
    and neg: "cmp \<le> 0 \<Longrightarrow> right < n \<and> c (q_index q) \<le> 0 \<and> (\<forall>j. right < j \<and> j < n \<longrightarrow> c j > 0)"
  shows "(\<exists>q'. bisect_loop bs hashed cmp left right q = Some (Inl (Some ENODATA, q')) \<and> same_query q' q0 \<and>
      q_index q' = - 1 \<and> (\<forall>j. 0 \<le> j \<and> j < n \<longrightarrow> c j > 0)) \<or>
    (\<exists>q' m. bisect_loop bs hashed cmp left right q = Some (Inr (c m, q')) \<and> same_query q' q0 \<and>
      q_index q' = m \<and> 0 \<le> m \<and> m < n \<and>
      (if c m > 0 then \<forall>j. 0 \<le> j \<and> j < n \<longrightarrow> c j > 0
       else (c m = 0 \<and> \<not> has_flag q0 APFS_QUERY_MULTIPLE) \<or> (\<forall>j. m < j \<and> j < n \<longrightarrow> c j > 0)))"
  using inv pos neg
proof (induction "bisect_measure cmp left right (q_index q)" arbitrary: cmp left right q rule: less_induct)
  case less
  define l r where "l = bisect_left cmp left (q_index q)" and "r = bisect_right cmp right (q_index q)"
  define i' where "i' = bisect_index cmp l r"
  have above: "\<forall>j. r < j \<and> j < n \<longrightarrow> c j > 0"
    using less.prems(4,5) by (cases "cmp > 0") (auto simp: r_def bisect_right_def)
  have l0: "l = 0 \<or> l < n \<and> c l \<le> 0"
    using less.prems(1,3,5) by (cases "cmp > 0") (auto simp: l_def bisect_left_def bisect_inv_def)
  show ?case
  proof (cases "r < l \<and> cmp > 0")
    case True
    then have "bisect_loop bs hashed cmp left right q = Some (Inl (Some ENODATA, q\<lparr>q_index := - 1\<rparr>))"
      by (subst bisect_loop_step) (simp add: l_def r_def Let_def)
    moreover have "\<forall>j. 0 \<le> j \<and> j < n \<longrightarrow> c j > 0"
      using True l0 above by fastforce
    ultimately show ?thesis using less.prems(2) by simp
  next
    case False
    note b = bisect_bounds [OF less.prems(1) False [unfolded l_def r_def] l_def r_def i'_def]
    have rn: "r < n"
      using b(6,7) less.prems(4,5) by (cases "cmp > 0") auto
    let ?q1 = "q\<lparr>q_index := i'\<rparr>"
    obtain k where k: "node_key_at bs hashed q0 i' = Inr k" "c i' = apfs_keycmp k (q_key q0)"
      using keys [of i'] b rn by auto
    have ib: "\<not> index_out_of_bounds (q_node q) i'"
      using b rn n less.prems(2) by (auto simp: index_out_of_bounds_def to_u32_def same_query_def)
    have "same_query ?q1 q0" using less.prems(2) by simp
    with k(1) ib obtain len off where at: "query_at bs hashed ?q1 = Inr (?q1\<lparr>q_key_len := len, q_key_off := off\<rparr>, Inr k)"
      using query_at_key [of bs hashed q0 ?q1 k] by auto
    let ?q2 = "?q1\<lparr>q_key_len := len, q_key_off := off\<rparr>"
    have sq: "same_query ?q2 q0" using less.prems(2) by simp
    have flag: "has_flag ?q2 APFS_QUERY_MULTIPLE = has_flag q0 APFS_QUERY_MULTIPLE" and key: "q_key q = q_key q0"
      using less.prems(2) by (simp_all add: has_flag_def same_query_def)
    have loop: "bisect_loop bs hashed cmp left right q =
        (if c i' = 0 \<and> \<not> has_flag q0 APFS_QUERY_MULTIPLE \<or> l = r then Some (Inr (c i', ?q2))
         else bisect_loop bs hashed (c i') l r ?q2)"
      using bisect_loop_at [OF l_def r_def i'_def False at] key unfolding flag k(2) by simp
    show ?thesis
    proof (cases "c i' = 0 \<and> \<not> has_flag q0 APFS_QUERY_MULTIPLE \<or> l = r")
      case True
      have "if c i' > 0 then \<forall>j. 0 \<le> j \<and> j < n \<longrightarrow> c j > 0
        else (c i' = 0 \<and> \<not> has_flag q0 APFS_QUERY_MULTIPLE) \<or> (\<forall>j. i' < j \<and> j < n \<longrightarrow> c j > 0)"
      proof (cases "c i' > 0")
        case True
        with \<open>c i' = 0 \<and> \<not> has_flag q0 APFS_QUERY_MULTIPLE \<or> l = r\<close> have "l = r" "i' = l" using b by auto
        then have "l = 0" using l0 True by auto
        then show ?thesis using True mono [of 0] \<open>i' = l\<close> by auto
      next
        case False
        then show ?thesis using True above b by force
      qed
      then show ?thesis
        using loop True b rn sq by (intro disjI2 exI [of _ ?q2] exI [of _ i']) simp
    next
      case rec: False
      then have eq: "bisect_loop bs hashed cmp left right q = bisect_loop bs hashed (c i') l r ?q2"
        unfolding loop by (rule if_not_P)
      have "l \<noteq> r" using rec by blast
      note b8 = b(8) [OF this, of "c i'"]
      show ?thesis
        unfolding eq
        by (rule less.hyps) (use b8 b rn l0 above sq mono [of i'] in \<open>auto simp: \<close>)
    qed
  qed
qed


lemma keycmp_sorted_mono:
  assumes "named_by N a" "named_by N b" "apfs_keycmp a b \<le> 0" "apfs_keycmp a key > 0"
  shows "apfs_keycmp b key > 0"
  using apfs_keycmp_le_trans [OF assms(1,2,3), of key] assms(4) by (cases "apfs_keycmp b key \<le> 0") auto

lemma keycmp_sorted_strict:
  assumes "named_by N a" "named_by N b" "named_by N key" "apfs_keycmp a b < 0" "apfs_keycmp a key = 0"
  shows "apfs_keycmp b key > 0"
  using apfs_keycmp_eq_0 [OF assms(1,3,5)] assms(4) apfs_keycmp_swap [of a b] by simp

lemma node_query_found_le:
  assumes "cmp \<le> 0" "apfs_node_locate_value bs (q_node q) (q_index q) (q_off q) = Inr (vlen, voff)"
  obtains e and q'' :: apfs_query where "node_query_found bs cmp q = (e, q'')"
    "e = (if cmp \<noteq> 0 \<and> apfs_node_is_leaf (q_node q) \<and> has_flag q APFS_QUERY_EXACT then Some ENODATA else None)"
    "q_index q'' = q_index q" "q_node q'' = q_node q" "q_key q'' = q_key q" "q_depth q'' = q_depth q"
    "\<not> has_flag q APFS_QUERY_MULTIPLE \<longrightarrow> q_flags q'' = q_flags q"
    "e = None \<longrightarrow> q_len q'' = vlen \<and> q_off q'' = voff"
proof (cases "cmp \<noteq> 0 \<and> apfs_node_is_leaf (q_node q) \<and> has_flag q APFS_QUERY_EXACT")
  case True
  then show ?thesis
    using assms by (intro that [of "Some ENODATA" q]) (simp_all add: node_query_found_def)
next
  case False
  let ?q1 = "if has_flag q APFS_QUERY_MULTIPLE then
      let q = (if cmp \<noteq> 0 then q\<lparr>q_flags := q_flags q OR APFS_QUERY_DONE\<rparr> else q)
      in q\<lparr>q_flags := q_flags q OR APFS_QUERY_NEXT\<rparr> else q"
  have q1: "q_index ?q1 = q_index q" "q_node ?q1 = q_node q" "q_key ?q1 = q_key q" "q_depth ?q1 = q_depth q"
    "q_off ?q1 = q_off q" "\<not> has_flag q APFS_QUERY_MULTIPLE \<longrightarrow> q_flags ?q1 = q_flags q"
    by (simp_all add: Let_def)
  have c: "\<not> cmp > 0" using assms(1) by simp
  have "node_query_found bs cmp q = (None, ?q1\<lparr>q_len := vlen, q_off := voff\<rparr>)"
    unfolding node_query_found_def if_not_P [OF False] if_not_P [OF c] Let_def
    using q1(1,2,5) assms(2) by (simp add: Let_def)
  then show ?thesis
    using q1 False by (intro that [of None "?q1\<lparr>q_len := vlen, q_off := voff\<rparr>"]) simp_all
qed

lemma apfs_node_query_finds:
  fixes K :: "int \<Rightarrow> apfs_key"
  assumes valid: "apfs_node_is_valid bs (q_node q)" "int (length (nd_data (q_node q))) = bs"
    and flags: "\<not> has_flag q APFS_QUERY_PREV" "\<not> has_flag q APFS_QUERY_NEXT"
    and start: "q_index q = n" "n = int (nd_records (q_node q))"
    and keys: "\<And>i. 0 \<le> i \<Longrightarrow> i < n \<Longrightarrow> node_key_at bs hashed q i = Inr (K i) \<and> named_by N (K i)"
    and key: "named_by N (q_key q)"
    and sorted: "\<And>i j. 0 \<le> i \<Longrightarrow> i < j \<Longrightarrow> j < n \<Longrightarrow> apfs_keycmp (K i) (K j) \<le> 0 \<and>
      (has_flag q APFS_QUERY_MULTIPLE \<or> apfs_keycmp (K i) (K j) < 0)"
  shows "\<exists>e q'. apfs_node_query bs hashed q = Some (e, q') \<and>
    q_node q' = q_node q \<and> q_key q' = q_key q \<and> q_depth q' = q_depth q \<and>
    (\<not> has_flag q APFS_QUERY_MULTIPLE \<longrightarrow> q_flags q' = q_flags q) \<and>
    ((\<forall>i. 0 \<le> i \<and> i < n \<longrightarrow> apfs_keycmp (K i) (q_key q) > 0) \<and> e = Some ENODATA \<and> q_index q' = - 1 \<or>
     (\<exists>m. 0 \<le> m \<and> m < n \<and> apfs_keycmp (K m) (q_key q) \<le> 0 \<and>
        (\<forall>i. m < i \<and> i < n \<longrightarrow> apfs_keycmp (K i) (q_key q) > 0) \<and> q_index q' = m \<and>
        e = (if apfs_keycmp (K m) (q_key q) \<noteq> 0 \<and> apfs_node_is_leaf (q_node q) \<and> has_flag q APFS_QUERY_EXACT
             then Some ENODATA else None) \<and>
        (e = None \<longrightarrow> apfs_node_locate_value bs (q_node q) m (q_off q) = Inr (q_len q', q_off q'))))"
proof -
  define c where "c i = apfs_keycmp (K i) (q_key q)" for i
  have n31: "n < 2 ^ 31" using start valid_records [OF valid(1)] by simp
  have mono: "c j > 0" if "0 \<le> i" "i \<le> j" "j < n" "c i > 0" for i j
  proof (cases "i = j")
    case False
    then show ?thesis
      using that sorted [of i j] keys keycmp_sorted_mono [of N "K i" "K j" "q_key q"] by (simp add: c_def)
  qed (use that in simp)
  have strict: "c j > 0" if "0 \<le> i" "i < j" "j < n" "c i = 0" "\<not> has_flag q APFS_QUERY_MULTIPLE" for i j
    using that sorted [of i j] keys key keycmp_sorted_strict [of N "K i" "K j" "q_key q"] by (simp add: c_def)
  have "(\<exists>q'. bisect_loop bs hashed 1 0 0 q = Some (Inl (Some ENODATA, q')) \<and> same_query q' q \<and>
      q_index q' = - 1 \<and> (\<forall>j. 0 \<le> j \<and> j < n \<longrightarrow> c j > 0)) \<or>
    (\<exists>q' m. bisect_loop bs hashed 1 0 0 q = Some (Inr (c m, q')) \<and> same_query q' q \<and>
      q_index q' = m \<and> 0 \<le> m \<and> m < n \<and>
      (if c m > 0 then \<forall>j. 0 \<le> j \<and> j < n \<longrightarrow> c j > 0
       else (c m = 0 \<and> \<not> has_flag q APFS_QUERY_MULTIPLE) \<or> (\<forall>j. m < j \<and> j < n \<longrightarrow> c j > 0)))"
    using keys mono start n31 by (intro bisect_loop_finds) (auto simp: c_def bisect_inv_def)
  then show ?thesis
  proof (elim disjE exE conjE)
    fix q'
    assume "bisect_loop bs hashed 1 0 0 q = Some (Inl (Some ENODATA, q'))" "q_index q' = - 1" "\<forall>j. 0 \<le> j \<and> j < n \<longrightarrow> c j > 0"
      "same_query q' q"
    then show ?thesis using flags by (simp add: apfs_node_query_def c_def same_query_def)
  next
    fix q' m
    assume q': "bisect_loop bs hashed 1 0 0 q = Some (Inr (c m, q'))" "same_query q' q" "q_index q' = m" "0 \<le> m" "m < n"
      and cm: "if c m > 0 then \<forall>j. 0 \<le> j \<and> j < n \<longrightarrow> c j > 0
       else (c m = 0 \<and> \<not> has_flag q APFS_QUERY_MULTIPLE) \<or> (\<forall>j. m < j \<and> j < n \<longrightarrow> c j > 0)"
    have node: "q_node q' = q_node q" "q_flags q' = q_flags q" "q_key q' = q_key q" "q_depth q' = q_depth q"
      "q_off q' = q_off q"
      using q'(2) by (auto simp: same_query_def)
    obtain vlen voff where v: "apfs_node_locate_value bs (q_node q) m (q_off q) = Inr (vlen, voff)"
      using node_locate_value_ok [OF valid, of m "q_off q"] q' n31 by auto
    have run: "apfs_node_query bs hashed q = Some (node_query_found bs (c m) q')"
      using q'(1) flags by (simp add: apfs_node_query_def)
    show ?thesis
    proof (cases "c m > 0")
      case True
      then show ?thesis using run cm node by (simp add: node_query_found_def c_def)
    next
      case False
      then have "\<forall>j. m < j \<and> j < n \<longrightarrow> c j > 0"
        using cm strict [OF q'(4)] by auto
      moreover have le: "c m \<le> 0" using False by simp
      moreover have v': "apfs_node_locate_value bs (q_node q') (q_index q') (q_off q') = Inr (vlen, voff)"
        using v q'(3) node by simp
      moreover have hf: "has_flag q' = has_flag q"
        using node(2) by (simp add: has_flag_def fun_eq_iff)
      moreover obtain e q'' where q'': "node_query_found bs (c m) q' = (e, q'')"
          "e = (if c m \<noteq> 0 \<and> apfs_node_is_leaf (q_node q) \<and> has_flag q APFS_QUERY_EXACT then Some ENODATA else None)"
          "q_index q'' = m" "q_node q'' = q_node q" "q_key q'' = q_key q" "q_depth q'' = q_depth q"
          "\<not> has_flag q APFS_QUERY_MULTIPLE \<longrightarrow> q_flags q'' = q_flags q"
          "e = None \<longrightarrow> q_len q'' = vlen \<and> q_off q'' = voff"
        by (rule node_query_found_le [OF le v', unfolded node q'(3) hf])
      ultimately show ?thesis
        using run False q'(4,5) v
        by (intro exI [of _ e] exI [of _ q''] conjI disjI2 exI [of _ m]) (auto simp: c_def)
    qed
  qed
qed

text \<open>The query that the bisection returns has located the key it compared last.\<close>

definition located :: "int \<Rightarrow> apfs_query \<Rightarrow> bool" where
  "located bs q \<longleftrightarrow> (\<exists>off. apfs_node_locate_key bs (q_node q) (q_index q) off = Inr (q_key_len q, q_key_off q))"

lemma query_at_located: "query_at bs hashed q = Inr (q', k) \<Longrightarrow> located bs q'"
  by (auto simp: query_at_def located_def Let_def bind_res_eq_Inr)

lemma bisect_loop_located:
  assumes "bisect_loop bs hashed cmp left right q = Some r"
  shows "case r of Inl (e, q') \<Rightarrow> e \<noteq> None | Inr (c, q') \<Rightarrow> located bs q'"
proof (rule bisect_loop.raw_induct [OF _ assms], goal_cases)
  case (1 loop bs hashed cmp left right q r)
  from 1(2) consider e q' where "r = Inl (Some e, q')"
    | c q1 q2 k where "query_at bs hashed q1 = Inr (q2, Inr k)" "r = Inr (c, q2)"
    | cmp left right q2 where "loop bs hashed cmp left right q2 = Some r"
    by (fastforce simp: Let_def split: if_splits sum.splits prod.splits)
  then show ?case
    by cases (use 1(1) query_at_located in auto)
qed

lemma node_query_found_located:
  "node_query_found bs cmp q = (None, q') \<Longrightarrow> q_node q' = q_node q \<and> q_index q' = q_index q \<and>
    q_key_len q' = q_key_len q \<and> q_key_off q' = q_key_off q"
  by (auto simp: node_query_found_def Let_def split: if_splits sum.splits)

lemma node_query_located:
  assumes "apfs_node_query bs hashed q = Some (None, q')" "\<not> has_flag q APFS_QUERY_PREV" "\<not> has_flag q APFS_QUERY_NEXT"
  shows "located bs q'"
  using assms
  by (auto simp: apfs_node_query_def located_def split: option.splits sum.splits
      dest!: node_query_found_located bisect_loop_located)


section \<open>Properties\<close>

lemma node_repr_valid: "node_repr bs n rs \<Longrightarrow> apfs_node_is_valid bs n"
  using node_repr_bounds [of bs n rs] node_repr_records [of bs n rs]
  by (simp add: apfs_node_is_valid_def mult.commute)

lemma rd_le_raw_at:
  assumes "0 \<le> off" "rd_bytes raw off len = Inr bs" "int n \<le> len" "0 < n"
  shows "rd_le n (raw_at raw off) 0 = Inr (le_val (take n bs))"
proof -
  have "bs = take (nat len) (drop (nat off) raw)" "off + len \<le> int (length raw)"
    using assms by (auto simp: rd_bytes_def split: if_splits)
  then show ?thesis
    using assms by (simp add: raw_at_def rd_le_Inr min_absorb1)
qed

text \<open>
  A query on a node that passed \<open>apfs_node_is_valid\<close>, whatever else its bytes are and whatever
  the kind of the query and its flags, always returns: the bisection ends, and it accesses no memory
  outside of the block.
\<close>

theorem node_query_returns_safely:
  assumes "apfs_node_is_valid bs (q_node q)" "int (length (nd_data (q_node q))) = bs"
    "- (2 ^ 31) < q_index q" "q_index q < 2 ^ 31 - 1"
  shows "\<exists>e q'. apfs_node_query bs hashed q = Some (e, q') \<and> e \<noteq> Some UB \<and> q_node q' = q_node q \<and> q_key q' = q_key q"
  using apfs_node_query_total [OF assms] .

theorem node_query_returns_safely_witness:
  "\<exists>e q'. apfs_node_query 256 True ((apfs_alloc_query (sample_node\<lparr>nd_records := 8\<rparr>) None)\<lparr>q_flags := APFS_QUERY_CAT\<rparr>) =
     Some (e, q') \<and> e \<noteq> Some UB"
proof -
  let ?n = "sample_node\<lparr>nd_records := 8\<rparr>" let ?q = "(apfs_alloc_query ?n None)\<lparr>q_flags := APFS_QUERY_CAT\<rparr>"
  have n: "q_node ?q = ?n" "q_index ?q = 8"
    by (simp_all add: apfs_alloc_query_def sample_node_def)
  have "toc_entry_size ?n = 8"
    by (simp add: toc_entry_size_def apfs_node_has_fixed_kv_size_def node_flags sample_node_def)
  then have "apfs_node_is_valid 256 ?n" "int (length (nd_data ?n)) = 256"
    by (simp_all add: apfs_node_is_valid_def) (simp_all add: sample_node_def)
  then show ?thesis
    using node_query_returns_safely [of 256 ?q True] unfolding n by auto
qed

text \<open>
  (C9) On a node with sorted keys, \<open>apfs_node_query\<close> finds the last record whose key is not above the
  wanted key: with no such record it returns \<open>ENODATA\<close> and the index \<open>-1\<close>; otherwise it points to
  that record, and returns \<open>ENODATA\<close> only if an exact match was wanted in a leaf and the keys differ.
  For queries for multiple records the sorted keys may have equal neighbours.
\<close>

theorem node_query_finds_last_not_above:
  fixes K :: "int \<Rightarrow> apfs_key"
  assumes "apfs_node_is_valid bs (q_node q)" "int (length (nd_data (q_node q))) = bs"
    and "\<not> has_flag q APFS_QUERY_PREV" "\<not> has_flag q APFS_QUERY_NEXT"
    and "q_index q = n" "n = int (nd_records (q_node q))"
    and "\<And>i. 0 \<le> i \<Longrightarrow> i < n \<Longrightarrow> node_key_at bs hashed q i = Inr (K i) \<and> named_by N (K i)"
    and "named_by N (q_key q)"
    and "\<And>i j. 0 \<le> i \<Longrightarrow> i < j \<Longrightarrow> j < n \<Longrightarrow> apfs_keycmp (K i) (K j) \<le> 0 \<and>
      (has_flag q APFS_QUERY_MULTIPLE \<or> apfs_keycmp (K i) (K j) < 0)"
  shows "\<exists>e q'. apfs_node_query bs hashed q = Some (e, q') \<and>
    ((\<forall>i. 0 \<le> i \<and> i < n \<longrightarrow> apfs_keycmp (K i) (q_key q) > 0) \<and> e = Some ENODATA \<and> q_index q' = - 1 \<or>
     (\<exists>m. 0 \<le> m \<and> m < n \<and> apfs_keycmp (K m) (q_key q) \<le> 0 \<and>
        (\<forall>i. m < i \<and> i < n \<longrightarrow> apfs_keycmp (K i) (q_key q) > 0) \<and> q_index q' = m \<and>
        e = (if apfs_keycmp (K m) (q_key q) \<noteq> 0 \<and> apfs_node_is_leaf (q_node q) \<and> has_flag q APFS_QUERY_EXACT
             then Some ENODATA else None)))"
  using apfs_node_query_finds [OF assms] by blast

theorem node_query_finds_last_not_above_witness:
  "\<exists>node q'. node_repr 256 node [([1, 2, 3, 4, 5, 6, 7, 8], [9])] \<and>
     apfs_node_query 256 True ((apfs_alloc_query node None)\<lparr>q_flags := APFS_QUERY_CAT,
       q_key := apfs_init_xattr_key 0xfffffffffffffff None\<rparr>) = Some (None, q') \<and> q_index q' = 0"
proof -
  obtain node where node: "node_repr 256 node [([1, 2, 3, 4, 5, 6, 7, 8], [9])]" "nd_tree_type node = 14" "nd_flags node = 2"
    by (rule sample_record)
  let ?k = "[1, 2, 3, 4, 5, 6, 7, 8] :: byte list" let ?key = "apfs_init_xattr_key 0xfffffffffffffff None"
  let ?q = "(apfs_alloc_query node None)\<lparr>q_flags := APFS_QUERY_CAT, q_key := ?key\<rparr>"
  note b = node_repr_bounds [OF node(1)]
  have q: "q_node ?q = node" "q_index ?q = 1" "q_key ?q = ?key" "q_flags ?q = APFS_QUERY_CAT"
    using b(3) by (simp_all add: apfs_alloc_query_def)
  obtain ko vo where loc: "\<And>off. apfs_node_locate_key 256 node (int 0) off = Inr (int (length ?k), ko)"
      "nd_key node \<le> ko" "ko + int (length ?k) \<le> nd_free node" "rd_bytes (nd_data node) ko (int (length ?k)) = Inr ?k"
      "\<And>off. apfs_node_locate_value 256 node (int 0) off = Inr (int (length [9 :: byte]), vo)"
      "rd_bytes (nd_data node) vo (int (length [9 :: byte])) = Inr [9]"
    by (rule node_repr_locate [OF node(1), of 0 ?k "[9]"]) simp_all
  then have ko: "apfs_node_locate_key 256 node 0 0 = Inr (8, ko)" "0 \<le> ko" "rd_bytes (nd_data node) ko 8 = Inr ?k"
    using loc(1) [of 0] loc(2,4) node_repr_key [OF node(1)] by simp_all
  let ?K = "\<lparr>k_id = 0x807060504030201, k_number = 0, k_name = None, k_type = 0\<rparr>"
  have "rd64 (raw_at (nd_data node) ko) 0 = Inr 0x807060504030201"
    using rd_le_raw_at [OF ko(2,3), of 8] by simp
  moreover have "q_node (apfs_alloc_query node None) = node"
    by (simp add: apfs_alloc_query_def)
  ultimately have K: "node_key_at 256 True ?q 0 = Inr ?K"
    using ko(1) by (simp add: node_key_at_def apfs_key_from_query_def Let_def has_flag_def query_flags
        apfs_read_cat_key_def apfs_cat_cnid_def apfs_cat_type_def APFS_OBJ_ID_MASK_def APFS_OBJ_TYPE_MASK_def
        APFS_OBJ_TYPE_SHIFT_def)
  have "\<exists>e q'. apfs_node_query 256 True ?q = Some (e, q') \<and>
    ((\<forall>i :: int. 0 \<le> i \<and> i < 1 \<longrightarrow> apfs_keycmp ?K (q_key ?q) > 0) \<and> e = Some ENODATA \<and> q_index q' = - 1 \<or>
     (\<exists>m. 0 \<le> m \<and> m < 1 \<and> apfs_keycmp ?K (q_key ?q) \<le> 0 \<and>
        (\<forall>i. m < i \<and> i < 1 \<longrightarrow> apfs_keycmp ?K (q_key ?q) > 0) \<and> q_index q' = m \<and>
        e = (if apfs_keycmp ?K (q_key ?q) \<noteq> 0 \<and> apfs_node_is_leaf (q_node ?q) \<and> has_flag ?q APFS_QUERY_EXACT
             then Some ENODATA else None)))"
  proof (rule node_query_finds_last_not_above [of 256 ?q 1 True "\<lambda>_. ?K" "{}"])
    show "node_key_at 256 True ?q i = Inr ?K \<and> named_by {} ?K" if "0 \<le> i" "i < 1" for i :: int
    proof -
      have "i = 0" using that by simp
      then show ?thesis using K by (simp add: named_by_def)
    qed
    show "apfs_node_is_valid 256 (q_node ?q)" unfolding q by (rule node_repr_valid [OF node(1)])
  qed (use b q in \<open>simp_all add: has_flag_def query_flags named_by_def apfs_init_xattr_key_def\<close>)
  moreover have "apfs_keycmp ?K (q_key ?q) \<le> 0" "\<not> has_flag ?q APFS_QUERY_EXACT"
    by (simp_all add: q apfs_keycmp_def apfs_init_xattr_key_def has_flag_def query_flags)
  ultimately show ?thesis
    using node(1) by (intro exI [of _ node]) fastforce
qed

end
