(* ===== verification/Btree.thy ===== *)
theory Btree
  imports NodeQuery Interfaces
begin

text \<open>
  Queries on a whole b-tree and the object map (\<open>btree.c\<close>, and the part of \<open>apfs_read_node\<close> and
  \<open>apfs_read_object_block\<close> that reads without write access).

  A chain of queries is a list, from the query of the current node up to the query of the root, in
  place of the pointers \<open>parent\<close>.  The device is the function from block numbers to contents that
  \<open>apfs_sb_bread\<close> implements, with \<open>None\<close> for a block that cannot be read.
\<close>

section \<open>Reading nodes\<close>

record apfs_dev =
  d_bs :: int
  d_block :: "u64 \<Rightarrow> buffer option"
  d_trans :: "u64 \<Rightarrow> bool"
  d_check_nodes :: bool
  d_eph_list :: "ephemeral_object_info list"
  d_hashed :: bool
  d_sealed :: bool
  d_nx_xid :: u64
  d_snap_xid :: u64

datatype obj_storage = APFS_OBJ_VIRTUAL | APFS_OBJ_PHYSICAL_STORAGE | APFS_OBJ_EPHEMERAL | BAD_STORAGE

definition apfs_query_storage :: "apfs_query \<Rightarrow> obj_storage" where
  "apfs_query_storage query =
     (if has_flag query APFS_QUERY_OMAP then APFS_OBJ_PHYSICAL_STORAGE
      else if has_flag query APFS_QUERY_CAT then APFS_OBJ_VIRTUAL
      else if has_flag query APFS_QUERY_FEXT then APFS_OBJ_PHYSICAL_STORAGE
      else if has_flag query APFS_QUERY_FREE_QUEUE then APFS_OBJ_EPHEMERAL
      else if has_flag query APFS_QUERY_EXTENTREF then APFS_OBJ_PHYSICAL_STORAGE
      else if has_flag query APFS_QUERY_SNAP_META then APFS_OBJ_PHYSICAL_STORAGE
      else if has_flag query APFS_QUERY_OMAP_SNAP then APFS_OBJ_PHYSICAL_STORAGE
      else BAD_STORAGE)"

text \<open>\<open>apfs_read_object_block\<close> with \<open>write\<close> false.\<close>

definition apfs_read_object_block :: "apfs_dev \<Rightarrow> u64 \<Rightarrow> buffer result" where
  "apfs_read_object_block dev bno =
     (case d_block dev bno of
        None \<Rightarrow> Inl EIO
      | Some raw \<Rightarrow>
          if d_check_nodes dev
          then bind_res (apfs_obj_verify_csum (d_bs dev) (d_trans dev bno) raw) (\<lambda>ok.
                 if ok then Inr raw else Inl EFSBADCRC)
          else Inr raw)"

text \<open>
  \<open>apfs_read_node\<close> with \<open>write\<close> false; \<open>lookup\<close> is \<open>apfs_omap_lookup_block\<close> on the object map of the
  volume, which only virtual nodes need.
\<close>

definition apfs_read_node :: "apfs_dev \<Rightarrow> (u64 \<Rightarrow> u64 result) \<Rightarrow> obj_storage \<Rightarrow> u64 \<Rightarrow> apfs_node result" where
  "apfs_read_node dev lookup storage oid =
     (case storage of
        APFS_OBJ_VIRTUAL \<Rightarrow>
          bind_res (lookup oid) (\<lambda>bno.
          bind_res (apfs_read_object_block dev bno) (\<lambda>raw.
          apfs_read_node_raw (d_bs dev) (d_check_nodes dev) False (d_trans dev bno) oid bno raw))
      | APFS_OBJ_PHYSICAL_STORAGE \<Rightarrow>
          bind_res (apfs_read_object_block dev oid) (\<lambda>raw.
          apfs_read_node_raw (d_bs dev) (d_check_nodes dev) False (d_trans dev oid) oid oid raw)
      | APFS_OBJ_EPHEMERAL \<Rightarrow>
          bind_res (apfs_ephemeral_object_lookup (d_eph_list dev) oid) (\<lambda>i.
          if uint (eph_size (d_eph_list dev ! i)) \<noteq> d_bs dev then Inl EOPNOTSUPP
          else apfs_read_node_raw (d_bs dev) (d_check_nodes dev) True False oid 0 (eph_object (d_eph_list dev ! i)))
      | BAD_STORAGE \<Rightarrow> Inl EINVAL)"

section \<open>Chains of queries\<close>

type_synonym chain = "apfs_query list"

definition apfs_query_root :: "chain \<Rightarrow> apfs_node" where
  "apfs_query_root chain = q_node (last chain)"

definition apfs_catalog_base_oid :: "chain \<Rightarrow> u64" where
  "apfs_catalog_base_oid chain = nd_oid (q_node (last chain))"

definition apfs_child_from_query :: "bool \<Rightarrow> chain \<Rightarrow> u64 result" where
  "apfs_child_from_query sealed chain =
     (let query = hd chain; raw = nd_data (q_node query) in
      if has_flag query APFS_QUERY_CAT \<and> sealed then
        if q_len query \<noteq> 40 then Inl EFSCORRUPTED
        else bind_res (rd64 raw (q_off query)) (\<lambda>oid. Inr (of_nat oid + apfs_catalog_base_oid chain))
      else if q_len query \<noteq> 8 then Inl EFSCORRUPTED
      else bind_res (rd64 raw (q_off query)) (\<lambda>oid. Inr (of_nat oid)))"

lemma alloc_query_sel [simp]:
  "q_node (apfs_alloc_query node p) = node"
  "q_depth (apfs_alloc_query node (Some q)) = q_depth q + 1" "q_depth (apfs_alloc_query node None) = 0"
  "q_key (apfs_alloc_query node (Some q)) = q_key q"
  by (simp_all add: apfs_alloc_query_def split: option.split)

lemma node_query_first_depth:
  "apfs_node_query_first bs q = Inr q' \<Longrightarrow> q_depth q' = q_depth q \<and> q_node q' = q_node q \<and> q_key q' = q_key q \<and>
    q_flags q' = q_flags q"
  by (auto simp: apfs_node_query_first_def Let_def bind_res_eq_Inr)

text \<open>
  The descent of \<open>apfs_query_set_before_first\<close> to the leftmost leaf.  The reader of child nodes is
  \<open>rd\<close>, which is \<open>apfs_read_node\<close> for the storage of the tree.  The chain is returned with the error.
\<close>

type_synonym chain_result = "errno option \<times> chain"

function apfs_query_set_before_first ::
  "apfs_dev \<Rightarrow> (u64 \<Rightarrow> apfs_node result) \<Rightarrow> chain \<Rightarrow> chain_result" where
  "apfs_query_set_before_first dev rd chain =
     (if q_depth (hd chain) < 12 then
        if apfs_node_is_leaf (q_node (hd chain)) then (None, (hd chain)\<lparr>q_index := - 1\<rparr> # tl chain)
        else case apfs_node_query_first (d_bs dev) (hd chain) of
          Inl e \<Rightarrow> (Some e, chain)
        | Inr query \<Rightarrow>
            (case bind_res (apfs_child_from_query (d_sealed dev) (query # tl chain)) rd of
               Inl e \<Rightarrow> (Some e, query # tl chain)
             | Inr node \<Rightarrow>
                 apfs_query_set_before_first dev rd (apfs_alloc_query node (Some query) # query # tl chain))
      else (Some EFSCORRUPTED, chain))"
  by pat_completeness auto
termination
  by (relation "measure (\<lambda>(dev, rd, chain). nat (12 - q_depth (hd chain)))")
    (auto dest: node_query_first_depth)

declare apfs_query_set_before_first.simps [simp del]

text \<open>The exit of \<open>apfs_btree_query\<close> with an error.\<close>

definition btree_query_fail :: "errno \<Rightarrow> chain \<Rightarrow> chain_result" where
  "btree_query_fail e chain = (Some e, (hd chain)\<lparr>q_key_len := 0, q_len := 0\<rparr> # tl chain)"

text \<open>
  The loop of \<open>apfs_btree_query\<close> around its label \<open>next_node\<close>; \<open>None\<close> stands for a loop that does not
  end.
\<close>

partial_function (option) apfs_btree_query ::
  "apfs_dev \<Rightarrow> (u64 \<Rightarrow> apfs_node result) \<Rightarrow> chain \<Rightarrow> chain_result option" where
  "apfs_btree_query dev rd chain =
     (if q_depth (hd chain) \<ge> 12 then Some (btree_query_fail EFSCORRUPTED chain)
      else case apfs_node_query (d_bs dev) (d_hashed dev) (hd chain) of
        None \<Rightarrow> None
      | Some (err, query) \<Rightarrow>
          let chain = query # tl chain in
          if err = Some ENODATA \<and> tl chain = [] \<and> q_index query = - 1 then
            (case apfs_query_set_before_first dev rd chain of
               (Some e, chain) \<Rightarrow> Some (btree_query_fail e chain)
             | (None, chain) \<Rightarrow> Some (btree_query_fail ENODATA chain))
          else if err = Some EAGAIN then
            if tl chain = [] then Some (btree_query_fail ENODATA chain)
            else apfs_btree_query dev rd (tl chain)
          else
            (case err of
               Some e \<Rightarrow> Some (btree_query_fail e chain)
             | None \<Rightarrow>
                 if apfs_node_is_leaf (q_node query) then Some (None, chain)
                 else
                   (case bind_res (apfs_child_from_query (d_sealed dev) chain) rd of
                      Inl e \<Rightarrow> Some (btree_query_fail e chain)
                    | Inr node \<Rightarrow> apfs_btree_query dev rd (apfs_alloc_query node (Some query) # chain))))"

definition apfs_query_direct_forward :: "chain \<Rightarrow> chain" where
  "apfs_query_direct_forward chain =
     (if has_flag (hd chain) APFS_QUERY_PREV then chain
      else map (\<lambda>query. query\<lparr>q_flags := q_flags query OR APFS_QUERY_PREV\<rparr>) chain)"

section \<open>The counts in the footer of the root\<close>

definition update_root :: "(buffer \<Rightarrow> buffer result) \<Rightarrow> chain \<Rightarrow> chain result" where
  "update_root f chain =
     (let query = last chain; root = q_node query in
      bind_res (f (nd_data root)) (\<lambda>raw.
      Inr (butlast chain @ [query\<lparr>q_node := root\<lparr>nd_data := raw\<rparr>\<rparr>])))"

definition le64_add_cpu :: "buffer \<Rightarrow> int \<Rightarrow> int \<Rightarrow> buffer result" where
  "le64_add_cpu raw off change = bind_res (rd64 raw off) (\<lambda>x. wr64 raw off (int x + change))"

definition apfs_btree_change_rec_count :: "int \<Rightarrow> chain \<Rightarrow> int \<Rightarrow> int \<Rightarrow> int \<Rightarrow> chain result" where
  "apfs_btree_change_rec_count bs chain change key_len val_len =
     update_root (\<lambda>raw.
       let info = bs - sizeof_btree_info in
       bind_res (rd32 raw (info + 16)) (\<lambda>longest_key.
       bind_res (if to_u32 key_len > int longest_key then wr32 raw (info + 16) key_len else Inr raw) (\<lambda>raw.
       bind_res (rd32 raw (info + 20)) (\<lambda>longest_val.
       bind_res (if to_u32 val_len > int longest_val then wr32 raw (info + 20) val_len else Inr raw) (\<lambda>raw.
       le64_add_cpu raw (info + 24) change))))) chain"

definition apfs_btree_change_node_count :: "int \<Rightarrow> chain \<Rightarrow> int \<Rightarrow> chain result" where
  "apfs_btree_change_node_count bs chain change =
     update_root (\<lambda>raw. le64_add_cpu raw (bs - sizeof_btree_info + 32) change) chain"

section \<open>The object map\<close>

record apfs_omap_cache =
  oc_recs :: "(u64 \<times> u64) list"
  oc_disabled :: bool

record apfs_omap =
  omap_root :: apfs_node
  omap_cache :: apfs_omap_cache
  omap_latest_snap :: u64

definition omap_cache_slot :: "u64 \<Rightarrow> nat" where
  "omap_cache_slot oid = unat (oid AND 127)"

definition apfs_omap_cache_lookup :: "apfs_omap_cache \<Rightarrow> u64 \<Rightarrow> u64 option" where
  "apfs_omap_cache_lookup cache oid =
     (if oc_disabled cache then None
      else if oid = 0 then None
      else let record = oc_recs cache ! omap_cache_slot oid
           in if fst record = oid then Some (snd record) else None)"

definition apfs_omap_cache_save :: "u64 \<Rightarrow> u64 \<Rightarrow> apfs_omap_cache \<Rightarrow> apfs_omap_cache" where
  "apfs_omap_cache_save oid bno cache =
     (if oc_disabled cache then cache
      else cache\<lparr>oc_recs := (oc_recs cache)[omap_cache_slot oid := (oid, bno)]\<rparr>)"

definition apfs_omap_cache_delete :: "u64 \<Rightarrow> apfs_omap_cache \<Rightarrow> apfs_omap_cache" where
  "apfs_omap_cache_delete oid cache =
     (if oc_disabled cache then cache
      else if fst (oc_recs cache ! omap_cache_slot oid) = oid
      then cache\<lparr>oc_recs := (oc_recs cache)[omap_cache_slot oid := (0, 0)]\<rparr> else cache)"

definition apfs_mounted_xid :: "apfs_dev \<Rightarrow> u64" where
  "apfs_mounted_xid dev = (if d_snap_xid dev \<noteq> 0 then d_snap_xid dev else d_nx_xid dev)"

definition apfs_xid_in_snapshot :: "apfs_omap \<Rightarrow> u64 \<Rightarrow> bool" where
  "apfs_xid_in_snapshot omap xid \<longleftrightarrow> xid \<le> omap_latest_snap omap"

text \<open>The query of the object map itself, behind its cache.\<close>

definition omap_query_block :: "apfs_dev \<Rightarrow> apfs_node \<Rightarrow> u64 \<Rightarrow> u64 \<Rightarrow> u64 result option" where
  "omap_query_block dev root oid xid =
     (let query = (apfs_alloc_query root None)\<lparr>q_key := apfs_init_omap_key oid xid\<rparr>;
          query = query\<lparr>q_flags := q_flags query OR APFS_QUERY_OMAP\<rparr>;
          rd = apfs_read_node dev (\<lambda>_. Inl EINVAL) APFS_OBJ_PHYSICAL_STORAGE
      in case apfs_btree_query dev rd [query] of
           None \<Rightarrow> None
         | Some (Some e, chain) \<Rightarrow> Some (Inl e)
         | Some (None, chain) \<Rightarrow>
             Some (bind_res (apfs_omap_map_from_query (d_bs dev) (hd chain)) (\<lambda>m. Inr (map_bno m))))"

text \<open>\<open>apfs_omap_lookup_block_with_xid\<close> with \<open>write\<close> false, with the object map as the state.\<close>

definition apfs_omap_lookup_block_with_xid ::
  "apfs_dev \<Rightarrow> apfs_omap \<Rightarrow> u64 \<Rightarrow> u64 \<Rightarrow> (u64 result \<times> apfs_omap) option" where
  "apfs_omap_lookup_block_with_xid dev omap oid xid =
     (case apfs_omap_cache_lookup (omap_cache omap) oid of
        Some bno \<Rightarrow> Some (Inr bno, omap)
      | None \<Rightarrow>
          (case omap_query_block dev (omap_root omap) oid xid of
             None \<Rightarrow> None
           | Some (Inl e) \<Rightarrow> Some (Inl e, omap)
           | Some (Inr bno) \<Rightarrow>
               Some (Inr bno, omap\<lparr>omap_cache := apfs_omap_cache_save oid bno (omap_cache omap)\<rparr>)))"

definition apfs_omap_lookup_block :: "apfs_dev \<Rightarrow> apfs_omap \<Rightarrow> u64 \<Rightarrow> (u64 result \<times> apfs_omap) option" where
  "apfs_omap_lookup_block dev omap oid = apfs_omap_lookup_block_with_xid dev omap oid (apfs_mounted_xid dev)"

definition apfs_omap_lookup_newest_block :: "apfs_dev \<Rightarrow> apfs_omap \<Rightarrow> u64 \<Rightarrow> (u64 result \<times> apfs_omap) option" where
  "apfs_omap_lookup_newest_block dev omap oid = apfs_omap_lookup_block_with_xid dev omap oid (- 1)"


section \<open>Sorted trees\<close>

text \<open>
  The keys of a tree, in order.  The key in an index node is the first key of the child.  The keys
  depend on the kind of tree, which is part of the flags of the query, and the ids of the children of a
  sealed catalog are relative to the id \<open>base\<close> of the root.
\<close>

definition key_at :: "apfs_dev \<Rightarrow> u32 \<Rightarrow> apfs_node \<Rightarrow> nat \<Rightarrow> apfs_key result" where
  "key_at dev fl node i = node_key_at (d_bs dev) (d_hashed dev) ((apfs_alloc_query node None)\<lparr>q_flags := fl\<rparr>) (int i)"

definition node_keys :: "apfs_dev \<Rightarrow> u32 \<Rightarrow> u8 set \<Rightarrow> apfs_node \<Rightarrow> apfs_key list \<Rightarrow> bool" where
  "node_keys dev fl names node ks \<longleftrightarrow>
     apfs_node_is_valid (d_bs dev) node \<and> int (length (nd_data node)) = d_bs dev \<and>
     length ks = nd_records node \<and> (\<forall>k \<in> set ks. named_by names k) \<and>
     (\<forall>i < length ks. key_at dev fl node i = Inr (ks ! i))"

definition child_oid :: "apfs_dev \<Rightarrow> u32 \<Rightarrow> u64 \<Rightarrow> apfs_node \<Rightarrow> nat \<Rightarrow> u64 result" where
  "child_oid dev fl base node i =
     bind_res (apfs_node_locate_value (d_bs dev) node (int i) 0) (\<lambda>(len, off).
       if fl AND APFS_QUERY_CAT \<noteq> 0 \<and> d_sealed dev then
         if len \<noteq> 40 then Inl EFSCORRUPTED
         else bind_res (rd64 (nd_data node) off) (\<lambda>oid. Inr (of_nat oid + base))
       else if len \<noteq> 8 then Inl EFSCORRUPTED
       else bind_res (rd64 (nd_data node) off) (\<lambda>oid. Inr (of_nat oid)))"

inductive btree ::
  "apfs_dev \<Rightarrow> (u64 \<Rightarrow> apfs_node result) \<Rightarrow> u32 \<Rightarrow> u8 set \<Rightarrow> u64 \<Rightarrow> nat \<Rightarrow> apfs_node \<Rightarrow> apfs_key list \<Rightarrow> bool"
  for dev rd fl names base where
  btree_leaf: "apfs_node_is_leaf node \<Longrightarrow> node_keys dev fl names node ks \<Longrightarrow> btree dev rd fl names base 0 node ks"
| btree_index: "\<not> apfs_node_is_leaf node \<Longrightarrow> node_keys dev fl names node (map hd kss) \<Longrightarrow> kss \<noteq> [] \<Longrightarrow>
    (\<And>i. i < length kss \<Longrightarrow> kss ! i \<noteq> [] \<and>
       (\<exists>oid child. child_oid dev fl base node i = Inr oid \<and> rd oid = Inr child \<and>
          btree dev rd fl names base h child (kss ! i))) \<Longrightarrow>
    btree dev rd fl names base (Suc h) node (concat kss)"

text \<open>The leaves that the pointers of a node lead to.\<close>

inductive leaf_below :: "apfs_dev \<Rightarrow> (u64 \<Rightarrow> apfs_node result) \<Rightarrow> u32 \<Rightarrow> u64 \<Rightarrow> apfs_node \<Rightarrow> apfs_node \<Rightarrow> bool"
  for dev rd fl base where
  leaf_itself: "apfs_node_is_leaf node \<Longrightarrow> leaf_below dev rd fl base node node"
| leaf_child: "\<not> apfs_node_is_leaf node \<Longrightarrow> i < nd_records node \<Longrightarrow> child_oid dev fl base node i = Inr oid \<Longrightarrow> rd oid = Inr child \<Longrightarrow>
    leaf_below dev rd fl base child leaf \<Longrightarrow> leaf_below dev rd fl base node leaf"

definition sorted_keys :: "apfs_key list \<Rightarrow> bool" where
  "sorted_keys ks \<longleftrightarrow> sorted_wrt (\<lambda>a b. apfs_keycmp a b < 0) ks"

text \<open>The flags of a query for one record by its key.\<close>

definition plain_flags :: "u32 \<Rightarrow> bool" where
  "plain_flags fl \<longleftrightarrow> fl AND (APFS_QUERY_PREV OR APFS_QUERY_MULTIPLE OR APFS_QUERY_DONE OR APFS_QUERY_NEXT) = 0"


lemma plain_flagsD:
  assumes "plain_flags fl"
  shows "fl AND APFS_QUERY_PREV = 0" "fl AND APFS_QUERY_NEXT = 0" "fl AND APFS_QUERY_MULTIPLE = 0"
    "fl AND NOT (APFS_QUERY_DONE OR APFS_QUERY_NEXT) = fl"
proof -
  have bits: "\<not> (bit fl n \<and> (bit APFS_QUERY_PREV n \<or> bit APFS_QUERY_MULTIPLE n \<or> bit APFS_QUERY_DONE n \<or> bit APFS_QUERY_NEXT n))"
    for n
    using assms unfolding plain_flags_def by (metis bit_and_iff bit_or_iff bit_0_eq bot_apply bot_bool_def)
  then show "fl AND APFS_QUERY_PREV = 0" "fl AND APFS_QUERY_NEXT = 0" "fl AND APFS_QUERY_MULTIPLE = 0"
    by (intro bit_eqI; simp add: bit_simps; blast)+
  show "fl AND NOT (APFS_QUERY_DONE OR APFS_QUERY_NEXT) = fl"
    by (rule bit_eqI) (use bits in \<open>auto simp: bit_simps\<close>)
qed

lemma node_key_at_cong:
  "q_node q' = q_node q \<Longrightarrow> q_flags q' = q_flags q \<Longrightarrow> node_key_at bs hashed q' i = node_key_at bs hashed q i"
  unfolding node_key_at_def by (intro bind_res_cong; auto intro!: key_from_query_cong)

lemma sorted_keys_nth: "sorted_keys ks \<Longrightarrow> i < j \<Longrightarrow> j < length ks \<Longrightarrow> apfs_keycmp (ks ! i) (ks ! j) < 0"
  by (simp add: sorted_keys_def sorted_wrt_iff_nth_less)

lemma node_keysD:
  assumes "node_keys dev fl names node ks"
  shows "apfs_node_is_valid (d_bs dev) node" "int (length (nd_data node)) = d_bs dev"
    "nd_records node = length ks" "length ks \<le> 2 ^ 16" "\<And>k. k \<in> set ks \<Longrightarrow> named_by names k"
    "\<And>i. i < length ks \<Longrightarrow> key_at dev fl node i = Inr (ks ! i)"
  using assms valid_records [of "d_bs dev" node] by (auto simp: node_keys_def)


lemma node_keys_query:
  assumes nk: "node_keys dev fl names node ks" and fl: "plain_flags fl" and srt: "sorted_keys ks"
    and q: "q_node q = node" "q_flags q = fl" "q_index q = int (nd_records node)" "named_by names (q_key q)"
  obtains e and q' :: apfs_query where "apfs_node_query (d_bs dev) (d_hashed dev) q = Some (e, q')"
    "q_node q' = node" "q_key q' = q_key q" "q_depth q' = q_depth q" "q_flags q' = fl"
    "\<forall>k \<in> set ks. apfs_keycmp k (q_key q) > 0" "e = Some ENODATA" "q_index q' = - 1"
  | e m and q' :: apfs_query where "apfs_node_query (d_bs dev) (d_hashed dev) q = Some (e, q')"
    "q_node q' = node" "q_key q' = q_key q" "q_depth q' = q_depth q" "q_flags q' = fl"
    "m < length ks" "apfs_keycmp (ks ! m) (q_key q) \<le> 0"
    "\<And>i. m < i \<Longrightarrow> i < length ks \<Longrightarrow> apfs_keycmp (ks ! i) (q_key q) > 0" "q_index q' = int m"
    "e = (if apfs_keycmp (ks ! m) (q_key q) \<noteq> 0 \<and> apfs_node_is_leaf node \<and> fl AND APFS_QUERY_EXACT \<noteq> 0
          then Some ENODATA else None)"
    "e = None \<Longrightarrow> apfs_node_locate_value (d_bs dev) node (int m) 0 = Inr (q_len q', q_off q')"
proof -
  note nk' = node_keysD [OF nk]
  note fl' = plain_flagsD [OF fl]
  let ?K = "\<lambda>i. ks ! nat i" and ?n = "int (length ks)"
  have keys: "node_key_at (d_bs dev) (d_hashed dev) q i = Inr (?K i) \<and> named_by names (?K i)" if "0 \<le> i" "i < ?n" for i
    using that nk'(6) [of "nat i"] nk'(5) q
    by (simp add: key_at_def node_key_at_cong [of q "(apfs_alloc_query node None)\<lparr>q_flags := fl\<rparr>"])
  have srt': "apfs_keycmp (?K i) (?K j) \<le> 0 \<and> (has_flag q APFS_QUERY_MULTIPLE \<or> apfs_keycmp (?K i) (?K j) < 0)"
    if "0 \<le> i" "i < j" "j < ?n" for i j
    using sorted_keys_nth [OF srt, of "nat i" "nat j"] that by (simp add: nat_less_iff less_imp_le)
  have "apfs_node_is_valid (d_bs dev) (q_node q)" "int (length (nd_data (q_node q))) = d_bs dev"
    "\<not> has_flag q APFS_QUERY_PREV" "\<not> has_flag q APFS_QUERY_NEXT" "q_index q = ?n" "?n = int (nd_records (q_node q))"
    using nk' q fl' by (simp_all add: has_flag_def)
  from apfs_node_query_finds [OF this keys q(4) srt'] obtain e q' where
    run: "apfs_node_query (d_bs dev) (d_hashed dev) q = Some (e, q')" "q_node q' = node" "q_key q' = q_key q"
      "q_depth q' = q_depth q" "q_flags q' = fl"
    and res: "(\<forall>i. 0 \<le> i \<and> i < ?n \<longrightarrow> apfs_keycmp (?K i) (q_key q) > 0) \<and> e = Some ENODATA \<and> q_index q' = - 1 \<or>
     (\<exists>m. 0 \<le> m \<and> m < ?n \<and> apfs_keycmp (?K m) (q_key q) \<le> 0 \<and>
        (\<forall>i. m < i \<and> i < ?n \<longrightarrow> apfs_keycmp (?K i) (q_key q) > 0) \<and> q_index q' = m \<and>
        e = (if apfs_keycmp (?K m) (q_key q) \<noteq> 0 \<and> apfs_node_is_leaf node \<and> has_flag q APFS_QUERY_EXACT
             then Some ENODATA else None) \<and>
        (e = None \<longrightarrow> apfs_node_locate_value (d_bs dev) node m (q_off q) = Inr (q_len q', q_off q')))"
    using q fl' by (auto simp: has_flag_def)
  from res show ?thesis
  proof (elim disjE exE conjE)
    assume *: "\<forall>i. 0 \<le> i \<and> i < ?n \<longrightarrow> apfs_keycmp (?K i) (q_key q) > 0" "e = Some ENODATA" "q_index q' = - 1"
    have "apfs_keycmp k (q_key q) > 0" if "k \<in> set ks" for k
    proof -
      obtain i where "i < length ks" "k = ks ! i" using \<open>k \<in> set ks\<close> by (auto simp: in_set_conv_nth)
      then show ?thesis using *(1) [rule_format, of "int i"] by simp
    qed
    then show ?thesis using run * by (intro that(1)) auto
  next
    fix m
    assume *: "0 \<le> m" "m < ?n" "apfs_keycmp (?K m) (q_key q) \<le> 0"
        "\<forall>i. m < i \<and> i < ?n \<longrightarrow> apfs_keycmp (?K i) (q_key q) > 0" "q_index q' = m"
        "e = (if apfs_keycmp (?K m) (q_key q) \<noteq> 0 \<and> apfs_node_is_leaf node \<and> has_flag q APFS_QUERY_EXACT
             then Some ENODATA else None)"
        "e = None \<longrightarrow> apfs_node_locate_value (d_bs dev) node m (q_off q) = Inr (q_len q', q_off q')"
    have above: "apfs_keycmp (ks ! i) (q_key q) > 0" if "nat m < i" "i < length ks" for i
      using *(4) [rule_format, of "int i"] that *(1) by simp
    have "\<not> index_out_of_bounds node m"
      using *(1,2) nk'(3,4) by (simp add: index_out_of_bounds_def to_u32_def)
    then have "apfs_node_locate_value (d_bs dev) node m (q_off q) = apfs_node_locate_value (d_bs dev) node m 0"
      by (simp add: apfs_node_locate_value_def)
    then show ?thesis using run * above q(2) by (intro that(2) [of e q' "nat m"]) (auto simp: has_flag_def)
  qed
qed

lemma sorted_keys_append [simp]:
  "sorted_keys (xs @ ys) \<longleftrightarrow> sorted_keys xs \<and> sorted_keys ys \<and> (\<forall>x \<in> set xs. \<forall>y \<in> set ys. apfs_keycmp x y < 0)"
  by (simp add: sorted_keys_def sorted_wrt_append)

lemma sorted_keys_concat:
  "sorted_keys (concat kss) \<Longrightarrow> ks \<in> set kss \<Longrightarrow> sorted_keys ks"
  by (induction kss) auto

lemma sorted_keys_map_hd:
  "sorted_keys (concat kss) \<Longrightarrow> \<forall>ks \<in> set kss. ks \<noteq> [] \<Longrightarrow> sorted_keys (map hd kss)"
proof (induction kss)
  case (Cons ks kss)
  have "apfs_keycmp (hd ks) (hd ks') < 0" if "ks' \<in> set kss" for ks'
    using Cons.prems that hd_in_set [of ks] hd_in_set [of ks'] by auto
  then show ?case
    using Cons by (simp add: sorted_keys_def sorted_wrt_append)
qed (simp add: sorted_keys_def)

lemma sorted_keys_above_hd:
  assumes "sorted_keys ks" "\<forall>k \<in> set ks. named_by names k" "ks \<noteq> []" "apfs_keycmp (hd ks) key > 0" "k \<in> set ks"
  shows "apfs_keycmp k key > 0"
proof (cases ks)
  case (Cons x xs)
  then have "k = x \<or> apfs_keycmp x k < 0" using assms(1,5) by (auto simp: sorted_keys_def)
  then show ?thesis using keycmp_sorted_mono [of names x k key] assms Cons by auto
qed (use assms in simp)

lemma btree_named: "btree dev rd fl names base h node ks \<Longrightarrow> \<forall>k \<in> set ks. named_by names k"
  by (induction rule: btree.induct) (auto simp: node_keys_def in_set_conv_nth, metis nth_mem)


lemma child_from_query:
  assumes "child_oid dev fl base (q_node q) i = Inr oid" "q_flags q = fl"
    "apfs_node_locate_value (d_bs dev) (q_node q) (int i) 0 = Inr (q_len q, q_off q)"
    "base = nd_oid (q_node (last (q # rest)))"
  shows "apfs_child_from_query (d_sealed dev) (q # rest) = Inr oid"
  using assms by (simp add: child_oid_def apfs_child_from_query_def apfs_catalog_base_oid_def has_flag_def Let_def
      split: if_splits)

lemma set_before_first_ok:
  assumes "btree dev rd fl names base h node ks" "q_node q = node" "q_flags q = fl"
    "q_depth q + int h < 12" "base = nd_oid (q_node (last (q # rest)))"
    "fl AND NOT (APFS_QUERY_DONE OR APFS_QUERY_NEXT) = fl"
  shows "\<exists>q' rest'. apfs_query_set_before_first dev rd (q # rest) = (None, q' # rest') \<and>
    apfs_node_is_leaf (q_node q') \<and> q_index q' = - 1 \<and> length rest' = length rest + h"
  using assms
proof (induction arbitrary: q rest rule: btree.induct)
  case (btree_leaf node ks)
  then show ?case
    by (subst apfs_query_set_before_first.simps) simp
next
  case (btree_index node kss h)
  have nk: "apfs_node_is_valid (d_bs dev) node" "int (length (nd_data node)) = d_bs dev" "0 < nd_records node"
    using btree_index.hyps(2,3) length_greater_0_conv [of kss] by (simp_all add: node_keys_def)
  obtain oid child where child: "child_oid dev fl base node 0 = Inr oid" "rd oid = Inr child"
    and IH: "\<And>q rest. q_node q = child \<Longrightarrow> q_flags q = fl \<Longrightarrow> q_depth q + int h < 12 \<Longrightarrow>
      base = nd_oid (q_node (last (q # rest))) \<Longrightarrow> fl AND NOT (APFS_QUERY_DONE OR APFS_QUERY_NEXT) = fl \<Longrightarrow>
      \<exists>q' rest'. apfs_query_set_before_first dev rd (q # rest) = (None, q' # rest') \<and>
        apfs_node_is_leaf (q_node q') \<and> q_index q' = - 1 \<and> length rest' = length rest + h"
    using btree_index.hyps(3) btree_index.IH [of 0] by auto
  have oob: "\<not> index_out_of_bounds node 0"
    using nk valid_records [OF nk(1)] by (simp add: index_out_of_bounds_def to_u32_def)
  obtain kl ko where k: "apfs_node_locate_key (d_bs dev) node 0 (q_key_off q) = Inr (kl, ko)"
    using locate_key_bounds [OF nk(1,2), of 0 "q_key_off q"] by auto
  obtain vl vo where v: "apfs_node_locate_value (d_bs dev) node 0 0 = Inr (vl, vo)"
    using locate_value_bounds [OF nk(1,2), of 0 0] by auto
  then have v': "apfs_node_locate_value (d_bs dev) node 0 (q_off q) = Inr (vl, vo)"
    using oob by (simp add: apfs_node_locate_value_def)
  let ?q = "q\<lparr>q_index := 0, q_key_len := kl, q_key_off := ko, q_len := vl, q_off := vo\<rparr>"
  have first: "apfs_node_query_first (d_bs dev) q = Inr ?q"
    using k v' btree_index.prems(1) by (simp add: apfs_node_query_first_def Let_def)
  have c: "apfs_child_from_query (d_sealed dev) (?q # rest) = Inr oid"
    by (rule child_from_query [of dev fl base _ 0]) (use child v btree_index.prems in auto)
  let ?c = "apfs_alloc_query child (Some ?q)"
  have "q_flags ?c = fl" "q_depth ?c + int h < 12" "base = nd_oid (q_node (last (?c # ?q # rest)))" "q_node ?c = child"
    using btree_index.prems by (simp_all add: apfs_alloc_query_def)
  then obtain q' rest' where "apfs_query_set_before_first dev rd (?c # ?q # rest) = (None, q' # rest')"
    "apfs_node_is_leaf (q_node q')" "q_index q' = - 1" "length rest' = Suc (length rest) + h"
    using IH [of ?c "?q # rest"] btree_index.prems(5) by auto
  then show ?case
    using first c child btree_index.prems btree_index.hyps(1)
    by (subst apfs_query_set_before_first.simps) simp
qed


section \<open>Queries on sorted trees\<close>

text \<open>
  What a query for one record finds in a tree with the keys \<open>ks\<close>: nothing and a position before the
  first leaf, if all of the keys are above the wanted one, or else a leaf record with the last key
  that is not above it.
\<close>

definition record_found :: "apfs_dev \<Rightarrow> u32 \<Rightarrow> apfs_key \<Rightarrow> apfs_key \<Rightarrow> errno option \<Rightarrow> apfs_query \<Rightarrow> bool" where
  "record_found dev fl key k e q \<longleftrightarrow> apfs_keycmp k key \<le> 0 \<and>
     (\<exists>m. q_index q = int m \<and> m < nd_records (q_node q) \<and> key_at dev fl (q_node q) m = Inr k \<and>
        e = (if apfs_keycmp k key \<noteq> 0 \<and> fl AND APFS_QUERY_EXACT \<noteq> 0 then Some ENODATA else None) \<and>
        (e = None \<longrightarrow> located (d_bs dev) q \<and>
           apfs_node_locate_value (d_bs dev) (q_node q) (int m) 0 = Inr (q_len q, q_off q)))"

definition btree_found :: "apfs_dev \<Rightarrow> u32 \<Rightarrow> apfs_key list \<Rightarrow> apfs_key \<Rightarrow> errno option \<Rightarrow> apfs_query \<Rightarrow> bool" where
  "btree_found dev fl ks key e q \<longleftrightarrow> apfs_node_is_leaf (q_node q) \<and>
     ((\<forall>k \<in> set ks. apfs_keycmp k key > 0) \<and> e = Some ENODATA \<and> q_index q = - 1 \<or>
      (\<exists>pre k post. ks = pre @ k # post \<and> (\<forall>k' \<in> set post. apfs_keycmp k' key > 0) \<and> record_found dev fl key k e q))"

lemma btree_query_descend:
  assumes "q_depth q < 12" "apfs_node_query (d_bs dev) (d_hashed dev) q = Some (None, q')"
    "\<not> apfs_node_is_leaf (q_node q')" "apfs_child_from_query (d_sealed dev) (q' # rest) = Inr oid" "rd oid = Inr child"
  shows "apfs_btree_query dev rd (q # rest) = apfs_btree_query dev rd (apfs_alloc_query child (Some q') # q' # rest)"
  using assms by (subst apfs_btree_query.simps) simp

lemma btree_query_leaf:
  assumes "q_depth q < 12" "apfs_node_query (d_bs dev) (d_hashed dev) q = Some (e, q')"
    "apfs_node_is_leaf (q_node q')" "e = None \<or> e = Some ENODATA \<and> q_index q' \<noteq> - 1"
  shows "apfs_btree_query dev rd (q # rest) =
    Some (e, (if e = None then q' else q'\<lparr>q_key_len := 0, q_len := 0\<rparr>) # rest)"
  using assms by (subst apfs_btree_query.simps) (auto simp: btree_query_fail_def)

lemma btree_query_before_first:
  assumes "q_depth q < 12" "apfs_node_query (d_bs dev) (d_hashed dev) q = Some (Some ENODATA, q')"
    "q_index q' = - 1" "apfs_query_set_before_first dev rd [q'] = (None, q'' # rest)"
  shows "apfs_btree_query dev rd [q] = Some (Some ENODATA, q''\<lparr>q_key_len := 0, q_len := 0\<rparr> # rest)"
  using assms by (subst apfs_btree_query.simps) (simp add: btree_query_fail_def)

lemma concat_split_nth: "i < length xss \<Longrightarrow> concat xss = concat (take i xss) @ xss ! i @ concat (drop (Suc i) xss)"
  by (metis concat.simps(2) concat_append id_take_nth_drop)

lemma btree_query_from:
  assumes "btree dev rd fl names base h node ks" "plain_flags fl" "sorted_keys ks"
    "q_node q = node" "q_flags q = fl" "q_index q = int (nd_records node)" "named_by names (q_key q)"
    "q_depth q + int h < 12" "base = nd_oid (q_node (last (q # rest)))"
    "rest = [] \<or> ks \<noteq> [] \<and> apfs_keycmp (hd ks) (q_key q) \<le> 0"
  shows "\<exists>e q' rest'. apfs_btree_query dev rd (q # rest) = Some (e, q' # rest') \<and> btree_found dev fl ks (q_key q) e q' \<and>
    (e = None \<longrightarrow> leaf_below dev rd fl base node (q_node q'))"
  using assms
proof (induction arbitrary: q rest rule: btree.induct)
  case (btree_leaf node ks)
  have d: "q_depth q < 12" using btree_leaf.prems(7) by simp
  from node_keys_query [OF btree_leaf.hyps(2) btree_leaf.prems(1,2,3,4,5,6)] show ?case
  proof cases
    case (1 e q')
    then have rest: "rest = []" using btree_leaf.prems(9) hd_in_set [of ks] by fastforce
    have "apfs_query_set_before_first dev rd [q'] = (None, [q'\<lparr>q_index := - 1\<rparr>])"
      using d 1 btree_leaf.hyps(1) by (subst apfs_query_set_before_first.simps) simp
    from btree_query_before_first [OF d 1(1) [unfolded 1(7)] 1(8) this] show ?thesis
      using 1 rest btree_leaf.hyps(1) by (simp add: btree_found_def)
  next
    case (2 e m q')
    have l: "apfs_node_is_leaf (q_node q')" "e = None \<or> e = Some ENODATA \<and> q_index q' \<noteq> - 1"
      using 2 btree_leaf.hyps(1) by auto
    have "ks = take m ks @ ks ! m # drop (Suc m) ks" using 2(6) by (simp add: id_take_nth_drop)
    moreover have "\<forall>k' \<in> set (drop (Suc m) ks). apfs_keycmp k' (q_key q) > 0"
      using 2(6,8) by (auto simp: in_set_conv_nth)
    moreover have "e = None \<Longrightarrow> located (d_bs dev) q'"
      using node_query_located 2(1) plain_flagsD [OF btree_leaf.prems(1)] btree_leaf.prems(4) by (simp add: has_flag_def)
    ultimately have "btree_found dev fl ks (q_key q) e (if e = None then q' else q'\<lparr>q_key_len := 0, q_len := 0\<rparr>)"
      using 2 l(1) node_keysD [OF btree_leaf.hyps(2)] btree_leaf.hyps(1) unfolding btree_found_def record_found_def
      by (intro conjI disjI2 exI [of _ "take m ks"] exI [of _ "ks ! m"] exI [of _ "drop (Suc m) ks"] exI [of _ m]) auto
    moreover have "leaf_below dev rd fl base node (q_node q')" using 2 btree_leaf.hyps(1) leaf_itself by simp
    ultimately show ?thesis using btree_query_leaf [OF d 2(1) l, of rd rest] by auto
  qed
next
  case (btree_index node kss h)
  have d: "q_depth q < 12" using btree_index.prems(7) by simp
  have ne: "\<forall>ks \<in> set kss. ks \<noteq> []" using btree_index.IH by (auto simp: in_set_conv_nth)
  have srt: "sorted_keys (map hd kss)" using sorted_keys_map_hd [OF btree_index.prems(2) ne] .
  have fl: "fl AND NOT (APFS_QUERY_DONE OR APFS_QUERY_NEXT) = fl" using plain_flagsD(4) [OF btree_index.prems(1)] .
  have tree: "btree dev rd fl names base (Suc h) node (concat kss)"
    using btree_index.IH by (intro btree.btree_index [OF btree_index.hyps(1,2,3)]) blast
  have above: "apfs_keycmp k (q_key q) > 0"
    if "i < length kss" "k \<in> set (kss ! i)" "apfs_keycmp (hd (kss ! i)) (q_key q) > 0" for i k
    using sorted_keys_above_hd [of "kss ! i" names "q_key q" k] that ne btree_named [OF tree]
      sorted_keys_concat [OF btree_index.prems(2)] by (force simp: nth_mem)
  from node_keys_query [OF btree_index.hyps(2) btree_index.prems(1) srt btree_index.prems(3,4,5,6)] show ?case
  proof cases
    case (1 e q')
    have all: "\<forall>k \<in> set (concat kss). apfs_keycmp k (q_key q) > 0"
      using above 1(6) by (force simp: in_set_conv_nth)
    then have rest: "rest = []" using btree_index.prems(9) hd_in_set [of "concat kss"] by fastforce
    obtain q'' rest' where "apfs_query_set_before_first dev rd [q'] = (None, q'' # rest')"
      "apfs_node_is_leaf (q_node q'')" "q_index q'' = - 1"
      using set_before_first_ok [OF tree 1(2,5), of "[]"] 1(2,4) btree_index.prems rest fl by auto
    then show ?thesis
      using btree_query_before_first [OF d 1(1) [unfolded 1(7)] 1(8)] all rest by (auto simp: btree_found_def)
  next
    case (2 e m q')
    have m: "m < length kss" and e: "e = None" using 2(6,10) btree_index.hyps(1) by auto
    obtain oid child where child: "child_oid dev fl base node m = Inr oid" "rd oid = Inr child"
      and IH: "\<And>q rest. plain_flags fl \<Longrightarrow> sorted_keys (kss ! m) \<Longrightarrow> q_node q = child \<Longrightarrow> q_flags q = fl \<Longrightarrow>
        q_index q = int (nd_records child) \<Longrightarrow> named_by names (q_key q) \<Longrightarrow> q_depth q + int h < 12 \<Longrightarrow>
        base = nd_oid (q_node (last (q # rest))) \<Longrightarrow> rest = [] \<or> kss ! m \<noteq> [] \<and> apfs_keycmp (hd (kss ! m)) (q_key q) \<le> 0 \<Longrightarrow>
        \<exists>e q' rest'. apfs_btree_query dev rd (q # rest) = Some (e, q' # rest') \<and> btree_found dev fl (kss ! m) (q_key q) e q' \<and>
          (e = None \<longrightarrow> leaf_below dev rd fl base child (q_node q'))"
      using btree_index.IH [OF m] by blast
    have c: "apfs_child_from_query (d_sealed dev) (q' # rest) = Inr oid"
      by (rule child_from_query [of dev fl base _ m]) (use child 2 e btree_index.prems in auto)
    let ?c = "apfs_alloc_query child (Some q')"
    have qc: "q_node ?c = child" "q_flags ?c = fl" "q_index ?c = int (nd_records child)" "q_key ?c = q_key q" "q_depth ?c = q_depth q + 1"
      using 2 fl plain_flagsD(1) [OF btree_index.prems(1)] by (simp_all add: apfs_alloc_query_def)
    have "\<exists>e q'' rest'. apfs_btree_query dev rd (?c # q' # rest) = Some (e, q'' # rest') \<and> btree_found dev fl (kss ! m) (q_key ?c) e q'' \<and>
        (e = None \<longrightarrow> leaf_below dev rd fl base child (q_node q''))"
      by (rule IH) (use btree_index.prems qc 2 m ne sorted_keys_concat [OF btree_index.prems(2), of "kss ! m"] in auto)
    then obtain e' q'' rest' where run: "apfs_btree_query dev rd (?c # q' # rest) = Some (e', q'' # rest')"
      and found: "btree_found dev fl (kss ! m) (q_key q) e' q''" and below: "e' = None \<longrightarrow> leaf_below dev rd fl base child (q_node q'')"
      unfolding qc(4) by blast
    have leaf: "e' = None \<longrightarrow> leaf_below dev rd fl base node (q_node q'')"
      using below leaf_child [where rd = rd, OF btree_index.hyps(1) _ child] m node_keysD(3) [OF btree_index.hyps(2)] by auto
    have hd: "apfs_keycmp (hd (kss ! m)) (q_key q) \<le> 0" "kss ! m \<noteq> []"
      using 2(7) m ne by auto
    have later: "\<forall>k \<in> set (concat (drop (Suc m) kss)). apfs_keycmp k (q_key q) > 0"
    proof
      fix k
      assume "k \<in> set (concat (drop (Suc m) kss))"
      then obtain ks where "ks \<in> set (drop (Suc m) kss)" "k \<in> set ks" by auto
      then obtain j where "j < length kss - Suc m" "k \<in> set (kss ! (Suc m + j))"
        by (auto simp: in_set_conv_nth [of ks])
      then show "apfs_keycmp k (q_key q) > 0"
        using above [of "Suc m + j" k] 2(8) [of "Suc m + j"] by simp
    qed
    have "btree_found dev fl (concat kss) (q_key q) e' q''"
    proof -
      have "\<not> (\<forall>k \<in> set (kss ! m). apfs_keycmp k (q_key q) > 0)" using hd hd_in_set [of "kss ! m"] by fastforce
      then obtain pre k post where k: "kss ! m = pre @ k # post" "\<forall>k' \<in> set post. apfs_keycmp k' (q_key q) > 0"
          "record_found dev fl (q_key q) k e' q''" "apfs_node_is_leaf (q_node q'')"
        using found unfolding btree_found_def by blast
      then have "concat kss = (concat (take m kss) @ pre) @ k # (post @ concat (drop (Suc m) kss))"
        and "\<forall>k' \<in> set (post @ concat (drop (Suc m) kss)). apfs_keycmp k' (q_key q) > 0"
        using concat_split_nth [OF m] later by auto
      then show ?thesis using k(3,4) unfolding btree_found_def by blast
    qed
    moreover have "apfs_btree_query dev rd (q # rest) = apfs_btree_query dev rd (?c # q' # rest)"
      using btree_query_descend [of q dev q' rest oid rd child] d 2(1,2) e c child(2) btree_index.hyps(1) by simp
    ultimately show ?thesis using run leaf by auto
  qed
qed

section \<open>The cache of the object map\<close>

definition omap_cache_ok :: "apfs_omap_cache \<Rightarrow> bool" where
  "omap_cache_ok cache \<longleftrightarrow> length (oc_recs cache) = 128"

lemma omap_cache_slot_less: "omap_cache_slot oid < 128"
proof -
  have "oid AND 127 \<le> 127" by (rule word_and_le1)
  then have "unat (oid AND 127) \<le> unat (127 :: u64)" by (simp add: word_le_nat_alt)
  then show ?thesis by (simp add: omap_cache_slot_def)
qed

interpretation omap_cache: map_cache apfs_omap_cache_lookup apfs_omap_cache_save apfs_omap_cache_delete omap_cache_ok
  using omap_cache_slot_less
  by unfold_locales
    (auto simp: apfs_omap_cache_lookup_def apfs_omap_cache_save_def apfs_omap_cache_delete_def omap_cache_ok_def
      Let_def nth_list_update split: if_splits)

text \<open>The map behind the cache: the blocks that the queries of the object map find.\<close>

definition omap_blocks :: "apfs_dev \<Rightarrow> apfs_node \<Rightarrow> u64 \<Rightarrow> u64 \<Rightarrow> u64 option" where
  "omap_blocks dev root xid oid =
     (case omap_query_block dev root oid xid of Some (Inr bno) \<Rightarrow> Some bno | _ \<Rightarrow> None)"

definition omap_coherent :: "apfs_dev \<Rightarrow> u64 \<Rightarrow> apfs_omap \<Rightarrow> bool" where
  "omap_coherent dev xid omap \<longleftrightarrow> omap_cache_ok (omap_cache omap) \<and>
     (\<forall>oid bno. apfs_omap_cache_lookup (omap_cache omap) oid = Some bno \<longrightarrow>
        omap_query_block dev (omap_root omap) oid xid = Some (Inr bno))"

lemma omap_blocks_Some [simp]:
  "omap_blocks dev root xid oid = Some bno \<longleftrightarrow> omap_query_block dev root oid xid = Some (Inr bno)"
  by (auto simp: omap_blocks_def split: option.split sum.split)

lemma omap_coherent_iff:
  "omap_coherent dev xid omap \<longleftrightarrow> omap_cache.coherent (omap_cache omap) (omap_blocks dev (omap_root omap) xid)"
  by (simp add: omap_coherent_def omap_cache.coherent_def)

lemma omap_lookup_cached:
  assumes "omap_query_block dev (omap_root omap) oid xid = Some r" "omap_coherent dev xid omap"
  shows "apfs_omap_lookup_block_with_xid dev omap oid xid = Some (r, omap\<lparr>omap_cache :=
    snd (omap_cache.cached (omap_blocks dev (omap_root omap) xid) oid (omap_cache omap))\<rparr>)"
proof (cases "apfs_omap_cache_lookup (omap_cache omap) oid")
  case None
  then show ?thesis
    using assms(1)
    by (cases r) (simp_all add: apfs_omap_lookup_block_with_xid_def omap_cache.cached_def omap_blocks_def)
next
  case (Some bno)
  then show ?thesis
    using assms by (simp add: apfs_omap_lookup_block_with_xid_def omap_cache.cached_def omap_coherent_def)
qed

lemma omap_lookup_transparent:
  assumes "omap_coherent dev xid omap"
  shows "map_option fst (apfs_omap_lookup_block_with_xid dev omap oid xid) = omap_query_block dev (omap_root omap) oid xid"
    "apfs_omap_lookup_block_with_xid dev omap oid xid = Some (r, omap') \<Longrightarrow>
      omap_coherent dev xid omap' \<and> omap_root omap' = omap_root omap"
proof -
  show "map_option fst (apfs_omap_lookup_block_with_xid dev omap oid xid) = omap_query_block dev (omap_root omap) oid xid"
    using assms by (auto simp: apfs_omap_lookup_block_with_xid_def omap_coherent_def split: option.split sum.split)
  assume run: "apfs_omap_lookup_block_with_xid dev omap oid xid = Some (r, omap')"
  have "\<exists>r. omap_query_block dev (omap_root omap) oid xid = Some r"
    using run assms by (auto simp: apfs_omap_lookup_block_with_xid_def omap_coherent_def split: option.splits)
  then show "omap_coherent dev xid omap' \<and> omap_root omap' = omap_root omap"
    using omap_lookup_cached [OF _ assms] run assms omap_cache.cached_transparent by (auto simp: omap_coherent_iff)
qed

text \<open>A run of lookups, with their results.\<close>

fun omap_lookups :: "apfs_dev \<Rightarrow> u64 \<Rightarrow> u64 list \<Rightarrow> apfs_omap \<Rightarrow> u64 result option list" where
  "omap_lookups dev xid [] omap = []"
| "omap_lookups dev xid (oid # oids) omap =
     (case apfs_omap_lookup_block_with_xid dev omap oid xid of
        None \<Rightarrow> [None]
      | Some (r, omap') \<Rightarrow> Some r # omap_lookups dev xid oids omap')"


lemma omap_lookups_transparent:
  assumes "omap_coherent dev xid omap" "\<forall>oid \<in> set oids. omap_query_block dev (omap_root omap) oid xid \<noteq> None"
  shows "omap_lookups dev xid oids omap = map (\<lambda>oid. omap_query_block dev (omap_root omap) oid xid) oids"
  using assms
proof (induction oids arbitrary: omap)
  case (Cons oid oids)
  obtain r where r: "omap_query_block dev (omap_root omap) oid xid = Some r" using Cons.prems(2) by auto
  then obtain omap' where run: "apfs_omap_lookup_block_with_xid dev omap oid xid = Some (r, omap')"
    using omap_lookup_cached [OF r Cons.prems(1)] by blast
  then show ?case
    using Cons.IH [of omap'] Cons.prems(2) omap_lookup_transparent(2) [OF Cons.prems(1) run] r by simp
qed simp

section \<open>Lookups in the object map\<close>

text \<open>The query flags of a lookup.\<close>

lemma omap_flags: "plain_flags APFS_QUERY_OMAP" "APFS_QUERY_OMAP AND APFS_QUERY_EXACT = 0"
  by (simp_all add: plain_flags_def query_flags)

lemma omap_key_at:
  assumes "key_at dev APFS_QUERY_OMAP node i = Inr k"
  shows "k_type k = 0 \<and> k_name k = None"
proof -
  obtain q where "apfs_key_from_query (d_hashed dev) q = Inr k" "q_flags q = APFS_QUERY_OMAP"
    using assms by (auto simp: key_at_def node_key_at_def bind_res_eq_Inr)
  then show ?thesis
    by (auto simp: apfs_key_from_query_def Let_def bind_res_eq_Inr apfs_read_omap_key_def query_flags split: if_splits)
qed

lemma omap_btree_keys:
  "btree dev rd APFS_QUERY_OMAP names base h node ks \<Longrightarrow> \<forall>k \<in> set ks. k_type k = 0 \<and> k_name k = None"
proof (induction rule: btree.induct)
  case (btree_leaf node ks)
  then show ?case using omap_key_at [of dev node] by (fastforce simp: node_keys_def in_set_conv_nth)
next
  case (btree_index node kss h)
  then have "\<forall>k \<in> set (kss ! i). k_type k = 0 \<and> k_name k = None" if "i < length kss" for i using that by blast
  then show ?case by (fastforce simp: in_set_conv_nth [of _ kss])
qed

lemma omap_keycmp:
  assumes "k_type k = 0"
  shows "apfs_keycmp k (apfs_init_omap_key oid xid) \<le> 0 \<longleftrightarrow> k_id k < oid \<or> k_id k = oid \<and> k_number k \<le> xid"
  using assms by (auto simp: apfs_keycmp_def apfs_init_omap_key_def split: option.split)

lemma omap_query_block_finds:
  assumes tree: "btree dev (apfs_read_node dev (\<lambda>_. Inl EINVAL) APFS_OBJ_PHYSICAL_STORAGE) APFS_QUERY_OMAP {} (nd_oid root) h root ks"
    and "sorted_keys ks" "h < 12"
  obtains (none) "omap_query_block dev root oid xid = Some (Inl ENODATA)"
      "\<forall>k \<in> set ks. \<not> (k_id k < oid \<or> k_id k = oid \<and> k_number k \<le> xid)"
  | (found) pre k post q where "ks = pre @ k # post" "record_found dev APFS_QUERY_OMAP (apfs_init_omap_key oid xid) k None q"
      "omap_query_block dev root oid xid = Some (bind_res (apfs_omap_map_from_query (d_bs dev) q) (\<lambda>m. Inr (map_bno m)))"
      "k_id k < oid \<or> k_id k = oid \<and> k_number k \<le> xid"
      "\<forall>k' \<in> set post. \<not> (k_id k' < oid \<or> k_id k' = oid \<and> k_number k' \<le> xid)"
proof -
  let ?key = "apfs_init_omap_key oid xid"
  let ?q = "(apfs_alloc_query root None)\<lparr>q_key := ?key, q_flags := APFS_QUERY_OMAP\<rparr>"
  let ?rd = "apfs_read_node dev (\<lambda>_. Inl EINVAL) APFS_OBJ_PHYSICAL_STORAGE"
  have ty: "\<forall>k \<in> set ks. k_type k = 0" using omap_btree_keys [OF tree] by simp
  have q: "q_index ?q = int (nd_records root)" "q_depth ?q = 0" "q_flags (apfs_alloc_query root None) = 0"
    by (simp_all add: apfs_alloc_query_def)
  have "\<exists>e q' rest'. apfs_btree_query dev ?rd [?q] = Some (e, q' # rest') \<and> btree_found dev APFS_QUERY_OMAP ks (q_key ?q) e q' \<and>
      (e = None \<longrightarrow> leaf_below dev ?rd APFS_QUERY_OMAP (nd_oid root) root (q_node q'))"
    by (rule btree_query_from [OF tree omap_flags(1) assms(2)])
      (use q assms(3) in \<open>simp_all add: named_by_def apfs_init_omap_key_def\<close>)
  then obtain e q' rest' where run: "apfs_btree_query dev ?rd [?q] = Some (e, q' # rest')"
    and bf: "btree_found dev APFS_QUERY_OMAP ks ?key e q'" by auto
  have block: "omap_query_block dev root oid xid =
      Some (case e of Some e \<Rightarrow> Inl e | None \<Rightarrow> bind_res (apfs_omap_map_from_query (d_bs dev) q') (\<lambda>m. Inr (map_bno m)))"
    using run q(3) by (simp add: omap_query_block_def Let_def split: option.split)
  from bf consider "\<forall>k \<in> set ks. apfs_keycmp k ?key > 0" "e = Some ENODATA"
    | pre k post where "ks = pre @ k # post" "\<forall>k' \<in> set post. apfs_keycmp k' ?key > 0" "record_found dev APFS_QUERY_OMAP ?key k e q'"
    unfolding btree_found_def by blast
  then show thesis
  proof cases
    case 1
    then show ?thesis using none block ty omap_keycmp [of _ oid xid] by (auto simp: not_le [symmetric])
  next
    case 2
    have e: "e = None" and le: "apfs_keycmp k ?key \<le> 0" using 2(3) omap_flags(2) by (auto simp: record_found_def)
    show ?thesis
      using found [OF 2(1) 2(3) [unfolded e]] block e le 2(1,2) ty omap_keycmp [of _ oid xid] by (auto simp: not_le [symmetric])
  qed
qed


section \<open>Properties\<close>

text \<open>A device for the concrete instances, and an object map whose root is a leaf with one mapping.\<close>

definition sample_dev :: apfs_dev where
  "sample_dev = \<lparr>d_bs = 256, d_block = (\<lambda>_. None), d_trans = (\<lambda>_. False), d_check_nodes = True, d_eph_list = [],
     d_hashed = True, d_sealed = False, d_nx_xid = 9, d_snap_xid = 0\<rparr>"

lemma raw_at_split:
  assumes "0 \<le> off" "rd_bytes raw off (int (length bs)) = Inr bs"
  obtains rest where "raw_at raw off = bs @ rest"
proof -
  have "bs = take (length bs) (drop (nat off) raw)"
    using assms by (auto simp: rd_bytes_def split: if_splits)
  then have "raw_at raw off = bs @ drop (length bs) (drop (nat off) raw)"
    using assms(1) by (metis append_take_drop_id raw_at_def)
  then show thesis by (rule that)
qed

lemma read_omap_raw_key: "apfs_read_omap_key (omap_raw_key oid xid @ rest) 16 = Inr (apfs_init_omap_key oid xid)"
proof -
  have "rd64 (omap_raw_key oid xid @ rest) 0 = Inr (le_val (le_bytes 8 (unat oid)))"
    using rd_le_append [of 0 "[]" 8 "le_bytes 8 (unat oid)"] by (simp add: omap_raw_key_def)
  moreover have "rd64 (omap_raw_key oid xid @ rest) 8 = Inr (le_val (le_bytes 8 (unat xid)))"
    using rd_le_append [of 8 "le_bytes 8 (unat oid)" 8 "le_bytes 8 (unat xid)" rest] by (simp add: omap_raw_key_def)
  ultimately show ?thesis
    by (simp add: apfs_read_omap_key_def apfs_init_omap_key_def word_unat_eq_iff unat_of_nat)
qed

lemma omap_repr_key_at:
  assumes "node_repr (d_bs dev) node rs" "i < length rs" "rs ! i = (omap_raw_key oid xid, v)"
  shows "key_at dev APFS_QUERY_OMAP node i = Inr (apfs_init_omap_key oid xid)"
proof -
  let ?k = "omap_raw_key oid xid"
  have len: "length ?k = 16" by (simp add: omap_raw_key_def)
  obtain ko vo where loc: "\<And>off. apfs_node_locate_key (d_bs dev) node (int i) off = Inr (int (length ?k), ko)"
      "nd_key node \<le> ko" "rd_bytes (nd_data node) ko (int (length ?k)) = Inr ?k"
    using node_repr_locate [OF assms] by metis
  have ko: "0 \<le> ko" using loc(2) node_repr_key [OF assms(1)] by simp
  obtain rest where "raw_at (nd_data node) ko = ?k @ rest"
    using raw_at_split [OF ko loc(3)] by blast
  then have "apfs_read_omap_key (raw_at (nd_data node) ko) 16 = Inr (apfs_init_omap_key oid xid)"
    by (simp add: read_omap_raw_key)
  then show ?thesis
    using loc(1) len by (simp add: key_at_def node_key_at_def apfs_key_from_query_def Let_def query_flags has_flag_def
        apfs_read_omap_key_def apfs_init_omap_key_def)
qed


definition sample_omap_value :: "byte list" where
  "sample_omap_value = le_bytes 4 0 @ le_bytes 4 256 @ le_bytes 8 77"

lemma sample_omap:
  obtains root where "node_repr 256 root [(omap_raw_key 5 3, sample_omap_value)]"
    "btree sample_dev rd APFS_QUERY_OMAP {} (nd_oid root) 0 root [apfs_init_omap_key 5 3]"
proof -
  obtain root where root: "node_repr 256 root [(omap_raw_key 5 3, sample_omap_value)]" "nd_flags root = 2"
    by (rule sample_record_of [of "omap_raw_key 5 3" sample_omap_value])
      (simp_all add: omap_raw_key_def sample_omap_value_def)
  have dev: "d_bs sample_dev = 256" by (simp add: sample_dev_def)
  have "key_at sample_dev APFS_QUERY_OMAP root 0 = Inr (apfs_init_omap_key 5 3)"
    using omap_repr_key_at [of sample_dev root _ 0] root(1) dev by simp
  then have "node_keys sample_dev APFS_QUERY_OMAP {} root [apfs_init_omap_key 5 3]"
    using node_repr_valid [OF root(1)] node_repr_bounds [OF root(1)] dev
    by (simp add: node_keys_def named_by_def apfs_init_omap_key_def)
  moreover have "apfs_node_is_leaf root" using root(2) by (simp add: apfs_node_is_leaf_def node_flags)
  ultimately show thesis using that root(1) btree_leaf by blast
qed

text \<open>
  (C10) A query for one record on a sorted tree of fewer than twelve levels always returns.  If all of the
  keys of the tree are above the wanted one, it reports \<open>ENODATA\<close> with a position before the first
  record of the first leaf; otherwise it ends in the leaf with the last key that is not above the wanted
  one and points to that record, and it reports \<open>ENODATA\<close> only if an exact match was asked for and the
  keys differ.
\<close>

theorem btree_query_finds_last_not_above:
  assumes "btree dev rd fl names (nd_oid root) h root ks" "sorted_keys ks" "h < 12"
    and "plain_flags fl" "named_by names key"
  shows "\<exists>e q rest. apfs_btree_query dev rd [(apfs_alloc_query root None)\<lparr>q_key := key, q_flags := fl\<rparr>] =
    Some (e, q # rest) \<and> btree_found dev fl ks key e q"
  using btree_query_from [OF assms(1,4,2), of "(apfs_alloc_query root None)\<lparr>q_key := key, q_flags := fl\<rparr>" "[]"] assms
  by (auto simp: apfs_alloc_query_def)

theorem btree_query_finds_last_not_above_witness:
  "\<exists>root e q rest. node_repr 256 root [(omap_raw_key 5 3, sample_omap_value)] \<and>
     apfs_btree_query sample_dev (\<lambda>_. Inl EIO)
       [(apfs_alloc_query root None)\<lparr>q_key := apfs_init_omap_key 5 8, q_flags := APFS_QUERY_OMAP\<rparr>] = Some (e, q # rest) \<and>
     btree_found sample_dev APFS_QUERY_OMAP [apfs_init_omap_key 5 3] (apfs_init_omap_key 5 8) e q"
proof -
  obtain root where root: "node_repr 256 root [(omap_raw_key 5 3, sample_omap_value)]"
    "btree sample_dev (\<lambda>_. Inl EIO) APFS_QUERY_OMAP {} (nd_oid root) 0 root [apfs_init_omap_key 5 3]"
    by (rule sample_omap)
  have "sorted_keys [apfs_init_omap_key 5 3]" "named_by {} (apfs_init_omap_key 5 8)"
    by (simp_all add: sorted_keys_def named_by_def apfs_init_omap_key_def)
  with btree_query_finds_last_not_above [OF root(2) this(1) _ omap_flags(1) this(2)] root(1) show ?thesis
    by auto
qed

text \<open>
  (C11) A lookup in the object map finds the newest version of an object that is not newer than the
  transaction it asks for: if the tree has such a version, the lookup returns, and its block comes from
  the record of this id with the largest transaction up to the wanted one.
\<close>

theorem omap_lookup_newest_version:
  assumes "btree dev (apfs_read_node dev (\<lambda>_. Inl EINVAL) APFS_OBJ_PHYSICAL_STORAGE) APFS_QUERY_OMAP {} (nd_oid root) h root ks"
    and "sorted_keys ks" "h < 12"
    and "k0 \<in> set ks" "k_id k0 = oid" "k_number k0 \<le> xid"
  shows "\<exists>q k. omap_query_block dev root oid xid =
      Some (bind_res (apfs_omap_map_from_query (d_bs dev) q) (\<lambda>m. Inr (map_bno m))) \<and>
    record_found dev APFS_QUERY_OMAP (apfs_init_omap_key oid xid) k None q \<and>
    k \<in> set ks \<and> k_id k = oid \<and> k_number k \<le> xid \<and>
    (\<forall>k' \<in> set ks. k_id k' = oid \<and> k_number k' \<le> xid \<longrightarrow> k_number k' \<le> k_number k)"
proof (rule omap_query_block_finds [OF assms(1-3), of oid xid])
  assume "\<forall>k \<in> set ks. \<not> (k_id k < oid \<or> k_id k = oid \<and> k_number k \<le> xid)"
  then show ?thesis using assms(4-6) by blast
next
  fix pre k post q
  assume ks: "ks = pre @ k # post" "k_id k < oid \<or> k_id k = oid \<and> k_number k \<le> xid"
      "\<forall>k' \<in> set post. \<not> (k_id k' < oid \<or> k_id k' = oid \<and> k_number k' \<le> xid)"
    and q: "record_found dev APFS_QUERY_OMAP (apfs_init_omap_key oid xid) k None q"
      "omap_query_block dev root oid xid = Some (bind_res (apfs_omap_map_from_query (d_bs dev) q) (\<lambda>m. Inr (map_bno m)))"
  have ty: "\<forall>k \<in> set ks. k_type k = 0" using omap_btree_keys [OF assms(1)] by simp
  have below: "k_id k' < k_id k \<or> k_id k' = k_id k \<and> k_number k' \<le> k_number k" if "k' \<in> set ks" "k_id k' = oid" "k_number k' \<le> xid" for k'
  proof (cases "k' = k")
    case False
    then have "k' \<in> set pre" using that ks by auto
    then have "apfs_keycmp k' k < 0" using assms(2) ks(1) by simp
    then show ?thesis using ty that(1) ks(1) by (auto simp: apfs_keycmp_def split: if_splits)
  qed simp
  have "k_id k = oid" using below [OF assms(4-6)] assms(5) ks(2) by auto
  then show ?thesis using q below ks by (intro exI [of _ q] exI [of _ k]) auto
qed

theorem omap_lookup_newest_version_witness:
  "\<exists>root q k. node_repr 256 root [(omap_raw_key 5 3, sample_omap_value)] \<and>
     omap_query_block sample_dev root 5 8 =
       Some (bind_res (apfs_omap_map_from_query 256 q) (\<lambda>m. Inr (map_bno m))) \<and>
     record_found sample_dev APFS_QUERY_OMAP (apfs_init_omap_key 5 8) k None q \<and> k_id k = 5 \<and> k_number k \<le> 8"
proof -
  let ?rd = "apfs_read_node sample_dev (\<lambda>_. Inl EINVAL) APFS_OBJ_PHYSICAL_STORAGE" and ?k = "apfs_init_omap_key 5 3"
  obtain root where root: "node_repr 256 root [(omap_raw_key 5 3, sample_omap_value)]"
    "btree sample_dev ?rd APFS_QUERY_OMAP {} (nd_oid root) 0 root [?k]"
    by (rule sample_omap)
  have "sorted_keys [?k]" "?k \<in> set [?k]" "k_id ?k = 5" "k_number ?k \<le> 8"
    by (simp_all add: sorted_keys_def apfs_init_omap_key_def)
  from omap_lookup_newest_version [OF root(2) this(1) _ this(2,3,4)] root(1) show ?thesis
    by (auto simp: sample_dev_def)
qed

text \<open>
  (C12) The cache in front of the object map is transparent: as long as each of its entries agrees with the
  tree, a run of lookups for any ids, with all of the evictions it causes, yields the same blocks and
  errors as queries of the tree.
\<close>

theorem omap_cache_transparent:
  assumes "omap_coherent dev xid omap" "\<forall>oid \<in> set oids. omap_query_block dev (omap_root omap) oid xid \<noteq> None"
  shows "omap_lookups dev xid oids omap = map (\<lambda>oid. omap_query_block dev (omap_root omap) oid xid) oids"
  using omap_lookups_transparent [OF assms] .

theorem omap_cache_transparent_witness:
  "\<exists>omap. oc_disabled (omap_cache omap) = False \<and>
     omap_lookups sample_dev 8 [5, 5] omap = map (\<lambda>oid. omap_query_block sample_dev (omap_root omap) oid 8) [5, 5]"
proof -
  obtain root where root: "node_repr 256 root [(omap_raw_key 5 3, sample_omap_value)]"
    "btree sample_dev (apfs_read_node sample_dev (\<lambda>_. Inl EINVAL) APFS_OBJ_PHYSICAL_STORAGE)
       APFS_QUERY_OMAP {} (nd_oid root) 0 root [apfs_init_omap_key 5 3]"
    by (rule sample_omap)
  let ?omap = "\<lparr>omap_root = root, omap_cache = \<lparr>oc_recs = replicate 128 (0, 0), oc_disabled = False\<rparr>, omap_latest_snap = 0\<rparr>"
  have "omap_query_block sample_dev root 5 8 \<noteq> None"
    by (rule omap_query_block_finds [OF root(2), of 5 8]) (simp_all add: sorted_keys_def)
  moreover have "omap_coherent sample_dev 8 ?omap"
    using omap_cache_slot_less by (simp add: omap_coherent_def omap_cache_ok_def apfs_omap_cache_lookup_def Let_def)
  ultimately show ?thesis
    using omap_cache_transparent [of sample_dev 8 ?omap "[5, 5]"] by (intro exI [of _ ?omap]) simp
qed

end
