(* ===== verification/BtreeChange.thy ===== *)
theory BtreeChange
  imports Btree
begin

text \<open>
  Changes of a whole b-tree: insertion, replacement and removal of records with the splits of nodes
  they cause (\<open>btree.c\<close> and the split of \<open>node.c\<close>), for any kind of storage of the nodes.

  The state is the part of the file system that these operations change.  A node in a chain of
  queries is a value with a copy of the contents of its block; each change of a node is also put back
  to the storage, where later reads find it.  The storage is an argument: the creation, the deletion
  and the copy-on-write of nodes differ between virtual, physical and ephemeral trees.

  An operation that fails with an error other than \<open>EAGAIN\<close> makes the driver abort the transaction,
  which drops all of its changes; such a result has no state.  The retry with \<open>EAGAIN\<close> keeps it.
  \<open>None\<close> stands for an operation that does not end.
\<close>

section \<open>State\<close>

record ip_bitmap_block_info =
  ipb_dirty :: bool
  ipb_block :: buffer

text \<open>
  The raw space manager \<open>sm_raw\<close> is a copy of the ephemeral object that the source shares; the commit of a transaction
  brings both together (\<open>sm_store\<close> and \<open>sm_load\<close>).
\<close>

record apfs_spaceman =
  sm_raw :: buffer
  sm_size :: nat
  sm_blocks_per_chunk :: nat
  sm_chunks_per_cib :: nat
  sm_block_count :: u64
  sm_chunk_count :: u64
  sm_cib_count :: nat
  sm_free_count :: u64
  sm_addr_offset :: nat
  sm_main_fq_nodes :: u64
  sm_free_cache_base :: u64
  sm_free_cache_blkcnt :: u64
  sm_ip_bmaps_shift :: nat
  sm_ip_bmaps_mask :: u64
  sm_ip_bmaps :: "ip_bitmap_block_info list"

record apfs_fs =
  fs_dev :: apfs_dev
  fs_next_oid :: u64
  fs_alloc_count :: u64
  fs_blocks_alloced :: u64
  fs_blocks_freed :: u64
  fs_sm :: apfs_spaceman
  fs_omap :: apfs_omap

abbreviation fs_bs :: "apfs_fs \<Rightarrow> int" where "fs_bs fs \<equiv> d_bs (fs_dev fs)"
abbreviation fs_xid :: "apfs_fs \<Rightarrow> u64" where "fs_xid fs \<equiv> d_nx_xid (fs_dev fs)"

record tree_ops =
  t_storage :: obj_storage
  t_read :: "apfs_fs \<Rightarrow> u64 \<Rightarrow> apfs_node result"
  t_read_write :: "apfs_fs \<Rightarrow> u64 \<Rightarrow> (apfs_node \<times> apfs_fs) result option"
  t_create :: "apfs_fs \<Rightarrow> (apfs_node \<times> apfs_fs) result option"
  t_delete :: "apfs_node \<Rightarrow> apfs_fs \<Rightarrow> apfs_fs result option"

text \<open>Sequences of operations that may fail or not end.\<close>

definition bindo :: "'a result option \<Rightarrow> ('a \<Rightarrow> 'b result option) \<Rightarrow> 'b result option" where
  "bindo m f = (case m of None \<Rightarrow> None | Some (Inl e) \<Rightarrow> Some (Inl e) | Some (Inr x) \<Rightarrow> f x)"

lemma bindo_simps [simp]:
  "bindo None f = None" "bindo (Some (Inl e)) f = Some (Inl e)" "bindo (Some (Inr x)) f = f x"
  by (simp_all add: bindo_def)

lemma bindo_eq_Some_Inr: "bindo m f = Some (Inr y) \<longleftrightarrow> (\<exists>x. m = Some (Inr x) \<and> f x = Some (Inr y))"
  by (auto simp: bindo_def split: option.split sum.split)

lemma bindo_mono [partial_function_mono]:
  assumes "mono_option M" "\<And>x. mono_option (\<lambda>f. N x f)"
  shows "mono_option (\<lambda>f. bindo (M f) (\<lambda>x. N x f))"
proof (rule monotoneI)
  fix f g :: "'a \<Rightarrow> 'b option"
  assume fg: "fun_ord option_ord f g"
  have "option_ord (M f) (M g)" using monotoneD [of _ _ _ f g, OF assms(1) fg] .
  moreover have "option_ord (N x f) (N x g)" for x using monotoneD [of _ _ _ f g, OF assms(2) fg] .
  ultimately show "option_ord (bindo (M f) (\<lambda>x. N x f)) (bindo (M g) (\<lambda>x. N x g))"
    by (cases "M f = None") (auto simp: flat_ord_def bindo_def split: option.split sum.split)
qed

text \<open>The contents of a node, put back to where it is stored.\<close>

fun eph_put :: "u64 \<Rightarrow> buffer \<Rightarrow> ephemeral_object_info list \<Rightarrow> ephemeral_object_info list" where
  "eph_put oid raw [] = []"
| "eph_put oid raw (info # infos) =
     (if eph_oid info = oid then info\<lparr>eph_object := raw\<rparr> # infos else info # eph_put oid raw infos)"

definition put_node :: "tree_ops \<Rightarrow> apfs_node \<Rightarrow> apfs_fs \<Rightarrow> apfs_fs" where
  "put_node ops node fs =
     (let dev = fs_dev fs in
      if t_storage ops = APFS_OBJ_EPHEMERAL
      then fs\<lparr>fs_dev := dev\<lparr>d_eph_list := eph_put (nd_oid node) (nd_data node) (d_eph_list dev)\<rparr>\<rparr>
      else fs\<lparr>fs_dev := dev\<lparr>d_block := (d_block dev)(nd_block_nr node \<mapsto> nd_data node)\<rparr>\<rparr>)"

abbreviation chain_root :: "chain \<Rightarrow> apfs_node" where "chain_root chain \<equiv> q_node (last chain)"

definition put_root :: "tree_ops \<Rightarrow> chain \<Rightarrow> apfs_fs \<Rightarrow> apfs_fs" where
  "put_root ops chain = put_node ops (chain_root chain)"

section \<open>Splitting nodes\<close>

text \<open>
  \<open>apfs_query_join_transaction\<close> up to the update of the parent, which is due when the returned flag is
  set.
\<close>

definition join_node :: "tree_ops \<Rightarrow> apfs_query \<Rightarrow> apfs_fs \<Rightarrow> (apfs_query \<times> bool \<times> apfs_fs) result option" where
  "join_node ops query fs =
     (let node = q_node query in
      if t_storage ops = APFS_OBJ_EPHEMERAL then
        Some (bind_res (wr64 (nd_data node) 16 (uint (fs_xid fs))) (\<lambda>raw.
          let node = node\<lparr>nd_data := raw\<rparr>
          in Inr (query\<lparr>q_node := node\<rparr>, False, put_node ops node fs)))
      else if d_trans (fs_dev fs) (nd_block_nr node) then Some (Inr (query, False, fs))
      else bindo (t_read_write ops fs (nd_oid node)) (\<lambda>(node, fs).
        Some (Inr (query\<lparr>q_node := node\<rparr>, t_storage ops = APFS_OBJ_PHYSICAL_STORAGE, fs))))"

definition le16_add_cpu :: "buffer \<Rightarrow> int \<Rightarrow> int \<Rightarrow> buffer result" where
  "le16_add_cpu raw off change = bind_res (rd16 raw off) (\<lambda>x. wr16 raw off (int x + change))"

text \<open>
  The new child of \<open>apfs_btree_inc_height\<close>: all of the records of the root, without the info footer.
\<close>

definition inc_height_child :: "int \<Rightarrow> apfs_node \<Rightarrow> apfs_node \<Rightarrow> apfs_node result" where
  "inc_height_child bs root new_node =
     (let new_node = new_node\<lparr>nd_flags := nd_flags root AND NOT APFS_BTNODE_ROOT, nd_tree_type := nd_tree_type root,
            nd_records := nd_records root, nd_key := nd_key root, nd_free := nd_free root,
            nd_val := nd_val root + sizeof_btree_info,
            nd_key_free_list_len := nd_key_free_list_len root, nd_val_free_list_len := nd_val_free_list_len root\<rparr>
      in bind_res (rd_bytes (nd_data root) 32 (nd_free root - 32)) (\<lambda>head.
         bind_res (memcpy (nd_data new_node) 32 head) (\<lambda>raw.
         bind_res (rd_bytes (nd_data root) (nd_val root) (bs - nd_val new_node)) (\<lambda>vals.
         bind_res (memcpy raw (nd_val new_node) vals) (\<lambda>raw.
         apfs_update_node (new_node\<lparr>nd_data := raw\<rparr>))))))"

text \<open>The new root of \<open>apfs_btree_inc_height\<close>, with the child as its only record.\<close>

definition inc_height_root :: "int \<Rightarrow> apfs_query \<Rightarrow> apfs_node \<Rightarrow> apfs_query result" where
  "inc_height_root bs query new_node =
     (let root = q_node query;
          root_query = (apfs_alloc_query root None)\<lparr>q_key := q_key query, q_flags := q_flags query\<rparr>
      in bind_res (apfs_node_locate_key bs root 0 (q_key_off root_query)) (\<lambda>(key_len, key_off).
         if key_len = 0 then Inl EFSCORRUPTED
         else
           let key = sizeof_node_hdr +
                 apfs_node_min_table_size bs (nd_tree_type root) (nd_flags root AND NOT APFS_BTNODE_LEAF);
               val = bs - sizeof_btree_info - 8
           in bind_res (memmove (nd_data root) key key_off key_len) (\<lambda>raw.
              bind_res (wr64 raw val (uint (nd_oid new_node))) (\<lambda>raw.
              let root = root\<lparr>nd_data := raw, nd_key := key, nd_free := key + key_len, nd_val := val,
                    nd_flags := nd_flags root AND NOT APFS_BTNODE_LEAF, nd_records := 0\<rparr>;
                  root_query = root_query\<lparr>q_node := root, q_key_len := key_len, q_key_off := key,
                    q_off := val, q_len := 8, q_index := 0\<rparr>
              in bind_res (apfs_create_toc_entry bs root_query) (\<lambda>root_query.
                 let root = (q_node root_query)\<lparr>nd_key_free_list_len := 0, nd_val_free_list_len := 0\<rparr> in
                 bind_res (le64_add_cpu (nd_data root) (bs - sizeof_btree_info + 32) 1) (\<lambda>raw.
                 bind_res (le16_add_cpu raw 34 1) (\<lambda>raw.
                 bind_res (apfs_update_node (root\<lparr>nd_data := raw\<rparr>)) (\<lambda>root.
                 Inr (root_query\<lparr>q_node := root\<rparr>)))))))))"

definition apfs_btree_inc_height :: "tree_ops \<Rightarrow> chain \<Rightarrow> apfs_fs \<Rightarrow> (chain \<times> apfs_fs) result option" where
  "apfs_btree_inc_height ops chain fs =
     (let query = hd chain; bs = fs_bs fs in
      if tl chain \<noteq> [] \<or> q_depth query \<noteq> 0 then Some (Inl EFSCORRUPTED)
      else bindo (t_create ops fs) (\<lambda>(new_node, fs).
        Some (bind_res (inc_height_child bs (q_node query) new_node) (\<lambda>new_node.
          bind_res (inc_height_root bs query new_node) (\<lambda>root_query.
          Inr ([query\<lparr>q_off := q_off query + sizeof_btree_info, q_node := new_node, q_depth := 1\<rparr>, root_query],
               put_node ops (q_node root_query) (put_node ops new_node fs)))))))"

text \<open>
  \<open>apfs_node_split\<close> up to the attachment of the new node: the query and its parents (after a split
  of the root there is one more), the temporary copy of the node, the new node with the second half of
  the records, and its first key.
\<close>

definition split_counts :: "apfs_node \<Rightarrow> int \<times> int" where
  "split_counts node =
     (let record_count = int (nd_records node); new_rec_count = record_count div 2
      in (record_count - new_rec_count, record_count))"

definition new_node_fields :: "apfs_node \<Rightarrow> apfs_node \<Rightarrow> apfs_node" where
  "new_node_fields old_node new_node =
     new_node\<lparr>nd_tree_type := nd_tree_type old_node, nd_flags := nd_flags old_node, nd_records := 0,
       nd_key_free_list_len := 0, nd_val_free_list_len := 0\<rparr>"

definition copy_level :: "buffer \<Rightarrow> buffer \<Rightarrow> buffer result" where
  "copy_level old_raw new_raw = bind_res (rd16 old_raw 34) (\<lambda>level. wr16 new_raw 34 (int level))"

text \<open>The first key of a node, as \<open>apfs_attach_child\<close> reads it.\<close>

definition child_key :: "int \<Rightarrow> apfs_node \<Rightarrow> byte list result" where
  "child_key bs child =
     bind_res (apfs_node_locate_key bs child 0 0) (\<lambda>(key_len, key_off).
     if key_len = 0 then Inl EFSCORRUPTED else rd_bytes (nd_data child) key_off key_len)"

definition split_new_node :: "int \<Rightarrow> apfs_node \<Rightarrow> apfs_node \<Rightarrow> apfs_node result" where
  "split_new_node bs old_node new_node =
     (let (old_rec_count, record_count) = split_counts old_node in
      bind_res (apfs_copy_record_range bs (new_node_fields old_node new_node) old_node old_rec_count record_count) (\<lambda>new_node.
      bind_res (copy_level (nd_data old_node) (nd_data new_node)) (\<lambda>raw.
      apfs_update_node (new_node\<lparr>nd_data := raw\<rparr>))))"

definition split_prepare ::
  "tree_ops \<Rightarrow> chain \<Rightarrow> apfs_fs \<Rightarrow> (apfs_query \<times> apfs_node \<times> byte list \<times> chain \<times> apfs_fs) result option" where
  "split_prepare ops chain fs =
     bindo (if apfs_node_is_root (q_node (hd chain)) then apfs_btree_inc_height ops chain fs
            else if tl chain = [] then Some (Inl EFSCORRUPTED) else Some (Inr (chain, fs))) (\<lambda>(chain, fs).
     let query = hd chain; old_node = q_node query; bs = fs_bs fs in
     if nd_records old_node = 1 then Some (Inl EFSCORRUPTED)
     else bindo (t_create ops fs) (\<lambda>(new_node, fs).
       Some (bind_res (split_new_node bs old_node new_node) (\<lambda>new_node.
         bind_res (child_key bs new_node) (\<lambda>key.
         Inr (query, new_node, key, tl chain, put_node ops new_node fs))))))"

text \<open>The rest of \<open>apfs_node_split\<close>, once the new node is attached to the parent.\<close>

definition split_old_node :: "int \<Rightarrow> apfs_node \<Rightarrow> apfs_node result" where
  "split_old_node bs old_node =
     bind_res (apfs_copy_record_range bs
         (old_node\<lparr>nd_records := 0, nd_key_free_list_len := 0, nd_val_free_list_len := 0\<rparr>)
         old_node 0 (fst (split_counts old_node)))
       apfs_update_node"

definition split_finish ::
  "tree_ops \<Rightarrow> apfs_query \<Rightarrow> apfs_node \<Rightarrow> chain \<Rightarrow> apfs_fs \<Rightarrow> (apfs_query \<times> apfs_node \<times> apfs_fs) result" where
  "split_finish ops query new_node parents fs =
     (let bs = fs_bs fs; old_node = q_node query; old_rec_count = fst (split_counts old_node) in
      bind_res (apfs_btree_change_node_count bs parents 1) (\<lambda>parents.
      bind_res (split_old_node bs old_node) (\<lambda>old_node.
      Inr (if q_index query \<ge> old_rec_count
           then query\<lparr>q_node := new_node, q_index := q_index query - old_rec_count\<rparr>
           else query\<lparr>q_node := old_node\<rparr>,
           chain_root parents, put_node ops old_node (put_root ops parents fs)))))"

text \<open>\<open>apfs_create_single_rec_node\<close> up to the attachment of the new node.\<close>

definition single_rec_prepare ::
  "tree_ops \<Rightarrow> apfs_query \<Rightarrow> byte list \<Rightarrow> byte list option \<Rightarrow> apfs_fs \<Rightarrow> (apfs_query \<times> byte list \<times> apfs_fs) result option" where
  "single_rec_prepare ops query key val fs =
     (let prev_node = q_node query; bs = fs_bs fs in
      if nd_tree_type prev_node \<noteq> APFS_OBJECT_TYPE_FSTREE then Some (Inl EFSCORRUPTED)
      else if apfs_node_is_root prev_node \<or> \<not> apfs_node_is_leaf prev_node then Some (Inl EFSCORRUPTED)
      else bindo (t_create ops fs) (\<lambda>(new_node, fs).
        let new_node = (new_node_fields prev_node new_node)
              \<lparr>nd_key := sizeof_node_hdr, nd_free := sizeof_node_hdr, nd_val := bs\<rparr>
        in Some (bind_res (copy_level (nd_data prev_node) (nd_data new_node)) (\<lambda>raw.
           bind_res (apfs_update_node (new_node\<lparr>nd_data := raw\<rparr>)) (\<lambda>new_node.
           bind_res (apfs_node_insert bs (query\<lparr>q_node := new_node, q_index := - 1\<rparr>) key val) (\<lambda>query.
           bind_res (child_key bs (q_node query)) (\<lambda>child_key.
           Inr (query, child_key, put_node ops (q_node query) fs))))))))"


section \<open>Inserting and replacing records\<close>

text \<open>
  \<open>__apfs_btree_insert\<close> and \<open>__apfs_btree_replace\<close>, which call each other on the parents of a node.
  The flag of the result is set for \<open>EAGAIN\<close>.  The chain that is returned loses its ancestors in a
  split, so that the root is a result of its own.
\<close>

datatype tree_change =
    Insert "byte list" "byte list option"
  | Replace "byte list option" "byte list option"

type_synonym change_result = "(bool \<times> chain \<times> apfs_node \<times> apfs_fs) result option"

definition opt_len :: "byte list option \<Rightarrow> int" where
  "opt_len x = (case x of None \<Rightarrow> 0 | Some bs \<Rightarrow> int (length bs))"

definition change_has_room :: "tree_change \<Rightarrow> apfs_query \<Rightarrow> bool" where
  "change_has_room change query =
     (case change of
        Insert key val \<Rightarrow> apfs_node_has_room (q_node query) (int (length key) + opt_len val) False
      | Replace key val \<Rightarrow>
          apfs_node_has_room (q_node query)
            (opt_len key + opt_len val - (if key \<noteq> None then q_key_len query else 0)
               - (if val \<noteq> None then q_len query else 0)) True)"

text \<open>The new key of the parent record, if the first key of the node changes.\<close>

definition change_first_key :: "tree_change \<Rightarrow> apfs_query \<Rightarrow> byte list option" where
  "change_first_key change query =
     (case change of
        Insert key val \<Rightarrow> if q_index query = - 1 then Some key else None
      | Replace key val \<Rightarrow> if q_index query = 0 then key else None)"

definition change_node :: "int \<Rightarrow> tree_change \<Rightarrow> apfs_query \<Rightarrow> apfs_query result" where
  "change_node bs change query =
     (case change of
        Insert key val \<Rightarrow> apfs_node_insert bs query key val
      | Replace key val \<Rightarrow> apfs_node_replace bs query key val)"

definition oid_bytes :: "u64 \<Rightarrow> byte list" where
  "oid_bytes oid = le_bytes 8 (unat oid)"

definition change_finish :: "tree_ops \<Rightarrow> tree_change \<Rightarrow> chain \<Rightarrow> apfs_fs \<Rightarrow> change_result" where
  "change_finish ops change chain fs =
     Some (bind_res (change_node (fs_bs fs) change (hd chain)) (\<lambda>query.
       let chain = query # tl chain
       in Inr (False, chain, chain_root chain, put_node ops (q_node query) fs)))"

definition single_rec_finish :: "tree_ops \<Rightarrow> apfs_query \<Rightarrow> chain \<Rightarrow> apfs_fs \<Rightarrow> change_result" where
  "single_rec_finish ops query parents fs =
     Some (bind_res (apfs_btree_change_node_count (fs_bs fs) parents 1) (\<lambda>parents.
       Inr (False, query # parents, chain_root parents, put_root ops parents fs)))"

partial_function (option) btree_change ::
  "tree_ops \<Rightarrow> tree_change \<Rightarrow> chain \<Rightarrow> apfs_fs \<Rightarrow> change_result" where
  "btree_change ops change chain fs =
     (case chain of
        [] \<Rightarrow> Some (Inl UB)
      | query # parents \<Rightarrow>
          bindo (join_node ops query fs) (\<lambda>(query, moved, fs).
          bindo (if moved \<and> parents \<noteq> []
                 then btree_change ops (Replace None (Some (oid_bytes (nd_block_nr (q_node query))))) parents fs
                 else Some (Inr (False, parents, chain_root (query # parents), fs))) (\<lambda>(again, parents, root, fs).
          if again then Some (Inr (True, query # parents, root, fs))
          else if \<not> change_has_room change query then
            if nd_records (q_node query) = 1 then
              (case change of
                 Replace key val \<Rightarrow> Some (Inl EFSCORRUPTED)
               | Insert key val \<Rightarrow>
                   bindo (single_rec_prepare ops query key val fs) (\<lambda>(new_query, first_key, fs).
                   bindo (btree_change ops (Insert first_key (Some (oid_bytes (nd_oid (q_node new_query))))) parents fs)
                     (\<lambda>(again, parents, root, fs).
                   if again then
                     bindo (t_delete ops (q_node new_query) fs) (\<lambda>fs.
                     Some (Inr (True, new_query\<lparr>q_node := q_node query\<rparr> # parents, root, fs)))
                   else single_rec_finish ops new_query parents fs)))
            else
              bindo (split_prepare ops (query # parents) fs) (\<lambda>(query, new_node, first_key, parents, fs).
              bindo (btree_change ops (Insert first_key (Some (oid_bytes (nd_oid new_node)))) parents fs)
                (\<lambda>(again, parents, root, fs).
              if again then
                bindo (t_delete ops new_node fs) (\<lambda>fs. Some (Inr (True, query # parents, root, fs)))
              else
                bindo (Some (split_finish ops query new_node parents fs)) (\<lambda>(query, root, fs).
                Some (Inr (True, [query], root, fs)))))
          else
            bindo (if parents \<noteq> [] \<and> change_first_key change query \<noteq> None
                   then btree_change ops (Replace (change_first_key change query) None) parents fs
                   else Some (Inr (False, parents, root, fs))) (\<lambda>(again, parents, root, fs).
            if again then Some (Inr (True, query # parents, root, fs))
            else change_finish ops change (query # parents) fs))))"

definition apfs_query_refresh ::
  "tree_ops \<Rightarrow> chain \<Rightarrow> apfs_node \<Rightarrow> bool \<Rightarrow> apfs_fs \<Rightarrow> chain result option" where
  "apfs_query_refresh ops chain root nodata fs =
     (let old_query = hd chain in
      if \<not> apfs_node_is_leaf (q_node old_query) then Some (Inl EFSCORRUPTED)
      else if apfs_node_is_root (q_node old_query) then Some (Inl EFSCORRUPTED)
      else
        let new_query = (apfs_alloc_query root None)\<lparr>q_key := q_key old_query,
              q_flags := q_flags old_query AND NOT (APFS_QUERY_DONE OR APFS_QUERY_NEXT)\<rparr>
        in case apfs_btree_query (fs_dev fs) (t_read ops fs) [new_query] of
             None \<Rightarrow> None
           | Some (err, new_chain) \<Rightarrow>
               if \<not> nodata \<and> err = Some ENODATA then Some (Inl EFSCORRUPTED)
               else if err \<noteq> None \<and> err \<noteq> Some ENODATA then Some (Inl (the err))
               else
                 let new_query = hd new_chain
                 in Some (Inr (old_query\<lparr>q_index := q_index new_query, q_key_off := q_key_off new_query,
                      q_key_len := q_key_len new_query, q_off := q_off new_query, q_len := q_len new_query,
                      q_depth := q_depth new_query\<rparr> # tl new_chain)))"

text \<open>The loops of \<open>apfs_btree_insert\<close> and \<open>apfs_btree_replace\<close>.\<close>

partial_function (option) btree_change_loop ::
  "tree_ops \<Rightarrow> tree_change \<Rightarrow> bool \<Rightarrow> chain \<Rightarrow> apfs_fs \<Rightarrow> (chain \<times> apfs_fs) result option" where
  "btree_change_loop ops change nodata chain fs =
     bindo (btree_change ops change chain fs) (\<lambda>(again, chain, root, fs).
     if \<not> again then Some (Inr (chain, fs))
     else bindo (apfs_query_refresh ops chain root nodata fs) (\<lambda>chain.
       btree_change_loop ops change nodata chain fs))"

definition change_rec_count ::
  "tree_ops \<Rightarrow> int \<Rightarrow> int \<Rightarrow> int \<Rightarrow> chain \<times> apfs_fs \<Rightarrow> (chain \<times> apfs_fs) result option" where
  "change_rec_count ops change key_len val_len = (\<lambda>(chain, fs).
     Some (bind_res (apfs_btree_change_rec_count (fs_bs fs) chain change key_len val_len) (\<lambda>chain.
       Inr (chain, put_root ops chain fs))))"

definition apfs_btree_insert ::
  "tree_ops \<Rightarrow> chain \<Rightarrow> byte list \<Rightarrow> byte list option \<Rightarrow> apfs_fs \<Rightarrow> (chain \<times> apfs_fs) result option" where
  "apfs_btree_insert ops chain key val fs =
     bindo (btree_change_loop ops (Insert key val) True chain fs)
       (change_rec_count ops 1 (int (length key)) (opt_len val))"

definition apfs_btree_replace ::
  "tree_ops \<Rightarrow> chain \<Rightarrow> byte list option \<Rightarrow> byte list option \<Rightarrow> apfs_fs \<Rightarrow> (chain \<times> apfs_fs) result option" where
  "apfs_btree_replace ops chain key val fs =
     bindo (btree_change_loop ops (Replace key val) False chain fs)
       (change_rec_count ops 0 (opt_len key) (opt_len val))"

section \<open>Removing records\<close>

text \<open>The part of \<open>__apfs_btree_remove\<close> that changes the node itself.\<close>

definition node_remove :: "int \<Rightarrow> int \<Rightarrow> apfs_query \<Rightarrow> apfs_query result" where
  "node_remove bs later_entries query =
     (let node = q_node query; esize = toc_entry_size node;
          entry = sizeof_node_hdr + esize * q_index query
      in bind_res (memmove (nd_data node) entry (entry + esize) (later_entries * esize)) (\<lambda>raw.
         bind_res (apfs_node_free_range bs (node\<lparr>nd_data := raw\<rparr>) (to_u16 (q_key_off query)) (to_u16 (q_key_len query))) (\<lambda>node.
         bind_res (apfs_node_free_range bs node (to_u16 (q_off query)) (to_u16 (q_len query))) (\<lambda>node.
         let node = node\<lparr>nd_records := nat (to_u32 (int (nd_records node) - 1))\<rparr> in
         bind_res (if nd_records node = 0
                   then bind_res (wr16 (nd_data node) 34 0) (\<lambda>raw.
                        Inr (node\<lparr>nd_data := raw, nd_flags := nd_flags node OR APFS_BTNODE_LEAF\<rparr>))
                   else Inr node) (\<lambda>node.
         bind_res (apfs_update_node node) (\<lambda>node.
         Inr (query\<lparr>q_node := node, q_index := q_index query - 1\<rparr>)))))))"

text \<open>The key of the second record, which becomes the first one.\<close>

definition second_key :: "int \<Rightarrow> apfs_node \<Rightarrow> byte list result" where
  "second_key bs node =
     bind_res (apfs_node_locate_key bs node 1 0) (\<lambda>(key_len, key_off).
     if key_len = 0 then Inl EFSCORRUPTED else rd_bytes (nd_data node) key_off key_len)"

partial_function (option) btree_remove ::
  "tree_ops \<Rightarrow> chain \<Rightarrow> apfs_fs \<Rightarrow> change_result" where
  "btree_remove ops chain fs =
     (case chain of
        [] \<Rightarrow> Some (Inl UB)
      | query # parents \<Rightarrow>
          let later_entries = int (nd_records (q_node query)) - q_index query - 1 in
          bindo (join_node ops query fs) (\<lambda>(query, moved, fs).
          bindo (if moved \<and> parents \<noteq> []
                 then btree_change ops (Replace None (Some (oid_bytes (nd_block_nr (q_node query))))) parents fs
                 else Some (Inr (False, parents, chain_root (query # parents), fs))) (\<lambda>(again, parents, root, fs).
          if again then Some (Inr (True, query # parents, root, fs))
          else if parents \<noteq> [] \<and> nd_records (q_node query) = 1 then
            bindo (btree_remove ops parents fs) (\<lambda>(again, parents, root, fs).
            if again then Some (Inr (True, query # parents, root, fs))
            else bindo (Some (apfs_btree_change_node_count (fs_bs fs) (query # parents) (- 1))) (\<lambda>chain.
              bindo (t_delete ops (q_node query) (put_root ops chain fs)) (\<lambda>fs.
              Some (Inr (False, chain, chain_root chain, fs)))))
          else
            bindo (if parents \<noteq> [] \<and> q_index query = 0
                   then bindo (Some (second_key (fs_bs fs) (q_node query))) (\<lambda>key.
                        btree_change ops (Replace (Some key) None) parents fs)
                   else Some (Inr (False, parents, root, fs))) (\<lambda>(again, parents, root, fs).
            if again then Some (Inr (True, query # parents, root, fs))
            else bindo (Some (node_remove (fs_bs fs) later_entries query)) (\<lambda>query.
              let chain = query # parents
              in Some (Inr (False, chain, chain_root chain, put_node ops (q_node query) fs)))))))"

partial_function (option) btree_remove_loop ::
  "tree_ops \<Rightarrow> chain \<Rightarrow> apfs_fs \<Rightarrow> (chain \<times> apfs_fs) result option" where
  "btree_remove_loop ops chain fs =
     bindo (btree_remove ops chain fs) (\<lambda>(again, chain, root, fs).
     if \<not> again then Some (Inr (chain, fs))
     else bindo (apfs_query_refresh ops chain root False fs) (\<lambda>chain. btree_remove_loop ops chain fs))"

definition apfs_btree_remove :: "tree_ops \<Rightarrow> chain \<Rightarrow> apfs_fs \<Rightarrow> (chain \<times> apfs_fs) result option" where
  "apfs_btree_remove ops chain fs =
     bindo (btree_remove_loop ops chain fs) (change_rec_count ops (- 1) 0 0)"

end
