(* ===== verification/Bitmap.thy ===== *)
theory Bitmap
  imports Prelude
begin

text \<open>
  Bitmaps in little-endian order, with the operations of the kernel that the space manager uses:
  \<open>__set_bit_le\<close>, \<open>__clear_bit_le\<close>, \<open>__test_and_clear_bit_le\<close> and \<open>find_next_zero_bit_le\<close>.
  A bit outside of the buffer is an access outside of memory.
\<close>

section \<open>Operations\<close>

definition buf_bit :: "buffer \<Rightarrow> nat \<Rightarrow> bool" where
  "buf_bit b n \<longleftrightarrow> bit (b ! (n div 8)) (n mod 8)"

definition set_bit_le :: "nat \<Rightarrow> buffer \<Rightarrow> buffer result" where
  "set_bit_le n b =
     (if n div 8 < length b then Inr (b[n div 8 := set_bit (n mod 8) (b ! (n div 8))]) else Inl UB)"

definition clear_bit_le :: "nat \<Rightarrow> buffer \<Rightarrow> buffer result" where
  "clear_bit_le n b =
     (if n div 8 < length b then Inr (b[n div 8 := unset_bit (n mod 8) (b ! (n div 8))]) else Inl UB)"

definition test_and_clear_bit_le :: "nat \<Rightarrow> buffer \<Rightarrow> (bool \<times> buffer) result" where
  "test_and_clear_bit_le n b = bind_res (clear_bit_le n b) (\<lambda>b'. Inr (buf_bit b n, b'))"

fun find_zero_from :: "buffer \<Rightarrow> nat \<Rightarrow> nat \<Rightarrow> nat" where
  "find_zero_from b n 0 = n"
| "find_zero_from b n (Suc k) = (if buf_bit b n then find_zero_from b (Suc n) k else n)"

text \<open>The position of the first zero bit, or the size if there is none.\<close>

definition find_zero_bit_le :: "buffer \<Rightarrow> nat \<Rightarrow> nat result" where
  "find_zero_bit_le b cnt = (if cnt \<le> 8 * length b then Inr (find_zero_from b 0 cnt) else Inl UB)"

section \<open>Bitmaps as sets\<close>

definition bits_set :: "buffer \<Rightarrow> nat set" where
  "bits_set b = {n. n < 8 * length b \<and> buf_bit b n}"

lemma finite_bits_set [simp]: "finite (bits_set b)"
  by (simp add: bits_set_def)

lemma bits_set_bound: "n \<in> bits_set b \<Longrightarrow> n < 8 * length b"
  by (simp add: bits_set_def)

lemma div_mod_8_eq: "n div 8 = m div 8 \<Longrightarrow> n mod 8 = m mod 8 \<Longrightarrow> n = (m :: nat)"
  by (metis div_mult_mod_eq)

lemma buf_bit_update:
  assumes "n div 8 < length b"
  shows "buf_bit (b[n div 8 := set_bit (n mod 8) (b ! (n div 8))]) m \<longleftrightarrow> m = n \<or> buf_bit b m"
    "buf_bit (b[n div 8 := unset_bit (n mod 8) (b ! (n div 8))]) m \<longleftrightarrow> m \<noteq> n \<and> buf_bit b m"
proof -
  have n: "m = n \<longleftrightarrow> m div 8 = n div 8 \<and> m mod 8 = n mod 8" using div_mod_8_eq [of m n] by blast
  have "bit (set_bit (n mod 8) x) k \<longleftrightarrow> k = n mod 8 \<or> bit x k" "bit (unset_bit (n mod 8) x) k \<longleftrightarrow> k \<noteq> n mod 8 \<and> bit x k"
    for x :: byte and k
    by (auto simp: bit_set_bit_iff bit_unset_bit_iff)
  note bits = this
  show "buf_bit (b[n div 8 := set_bit (n mod 8) (b ! (n div 8))]) m \<longleftrightarrow> m = n \<or> buf_bit b m"
    unfolding buf_bit_def n by (cases "m div 8 = n div 8") (use assms bits in auto)
  show "buf_bit (b[n div 8 := unset_bit (n mod 8) (b ! (n div 8))]) m \<longleftrightarrow> m \<noteq> n \<and> buf_bit b m"
    unfolding buf_bit_def n by (cases "m div 8 = n div 8") (use assms bits in auto)
qed

lemma set_bit_le_ok:
  assumes "n < 8 * length b"
  obtains b' where "set_bit_le n b = Inr b'" "length b' = length b" "bits_set b' = insert n (bits_set b)"
proof (rule that)
  have n: "n div 8 < length b" using assms by simp
  then show "set_bit_le n b = Inr (b[n div 8 := set_bit (n mod 8) (b ! (n div 8))])" by (simp add: set_bit_le_def)
  show "bits_set (b[n div 8 := set_bit (n mod 8) (b ! (n div 8))]) = insert n (bits_set b)"
    unfolding bits_set_def buf_bit_update(1) [OF n] using assms by auto
qed simp

lemma clear_bit_le_ok:
  assumes "n < 8 * length b"
  obtains b' where "clear_bit_le n b = Inr b'" "length b' = length b" "bits_set b' = bits_set b - {n}"
proof (rule that)
  have n: "n div 8 < length b" using assms by simp
  then show "clear_bit_le n b = Inr (b[n div 8 := unset_bit (n mod 8) (b ! (n div 8))])" by (simp add: clear_bit_le_def)
  show "bits_set (b[n div 8 := unset_bit (n mod 8) (b ! (n div 8))]) = bits_set b - {n}"
    unfolding bits_set_def buf_bit_update(2) [OF n] by auto
qed simp

lemma test_and_clear_bit_le_ok:
  assumes "n < 8 * length b"
  obtains b' where "test_and_clear_bit_le n b = Inr (n \<in> bits_set b, b')" "length b' = length b"
    "bits_set b' = bits_set b - {n}"
proof -
  obtain b' where "clear_bit_le n b = Inr b'" "length b' = length b" "bits_set b' = bits_set b - {n}"
    using clear_bit_le_ok [OF assms] .
  then show thesis
    using assms that by (simp add: test_and_clear_bit_le_def bits_set_def)
qed

lemma find_zero_from_spec:
  "n \<le> find_zero_from b n k \<and> find_zero_from b n k \<le> n + k \<and>
   (\<forall>m. n \<le> m \<and> m < find_zero_from b n k \<longrightarrow> buf_bit b m) \<and>
   (find_zero_from b n k < n + k \<longrightarrow> \<not> buf_bit b (find_zero_from b n k))"
proof (induction k arbitrary: n)
  case (Suc k)
  show ?case
  proof (cases "buf_bit b n")
    case True
    have "buf_bit b m" if "n \<le> m" "m < find_zero_from b (Suc n) k" for m
      using that True Suc [of "Suc n"] by (cases "m = n") auto
    then show ?thesis using True Suc [of "Suc n"] by simp
  qed auto
qed auto

text \<open>The search returns a clear bit below the size exactly if there is one.\<close>

lemma find_zero_bit_le_cases:
  assumes "cnt \<le> 8 * length b"
  obtains (found) n where "find_zero_bit_le b cnt = Inr n" "n < cnt" "n \<notin> bits_set b" "\<And>m. m < n \<Longrightarrow> m \<in> bits_set b"
  | (full) "find_zero_bit_le b cnt = Inr cnt" "{..<cnt} \<subseteq> bits_set b"
proof -
  let ?n = "find_zero_from b 0 cnt"
  note spec = find_zero_from_spec [of 0 b cnt]
  have run: "find_zero_bit_le b cnt = Inr ?n" using assms by (simp add: find_zero_bit_le_def)
  have below: "m \<in> bits_set b" if "m < ?n" for m
    using spec that assms by (simp add: bits_set_def)
  show thesis
  proof (cases "?n < cnt")
    case True
    then show ?thesis using found [of ?n] run below spec by (simp add: bits_set_def)
  next
    case False
    then have "?n = cnt" using spec by simp
    then show ?thesis using full run below by auto
  qed
qed

lemma bits_set_zero [simp]: "bits_set (replicate n 0) = {}"
  by (auto simp: bits_set_def buf_bit_def)

lemma card_bits_set: "card (bits_set b) \<le> 8 * length b"
proof -
  have "bits_set b \<subseteq> {..<8 * length b}" by (auto dest: bits_set_bound)
  then show ?thesis by (metis card_lessThan card_mono finite_lessThan)
qed

end
