(* ===== verification/Spaceman.thy ===== *)
theory Spaceman
  imports BtreeChange Bitmap
begin

text \<open>
  The space manager (\<open>spaceman.c\<close>): the bitmaps of the chunks, which tell the blocks in use, the
  internal pool where these bitmaps live, with bitmaps and a list of free bitmap blocks of its own, and
  the free queues, b-trees of the block ranges that later transactions may reuse.

  The on-disk space manager is the buffer \<open>sm_raw\<close>; the list of ephemeral objects holds the nodes of
  the free queues.  The buffer cache is the function \<open>d_block\<close> of the device.
\<close>

section \<open>Ephemeral trees\<close>

definition APFS_EPHEMERAL_LIST_LIMIT :: nat where "APFS_EPHEMERAL_LIST_LIMIT = 32768 div 24"

abbreviation (input) APFS_OBJ_EPHEMERAL_FLAG :: nat where "APFS_OBJ_EPHEMERAL_FLAG \<equiv> 0x80000000"

definition fs_set_eph :: "ephemeral_object_info list \<Rightarrow> apfs_fs \<Rightarrow> apfs_fs" where
  "fs_set_eph l fs = fs\<lparr>fs_dev := (fs_dev fs)\<lparr>d_eph_list := l\<rparr>\<rparr>"

definition eph_read :: "apfs_fs \<Rightarrow> u64 \<Rightarrow> apfs_node result" where
  "eph_read fs = apfs_read_node (fs_dev fs) (\<lambda>_. Inl EINVAL) APFS_OBJ_EPHEMERAL"

text \<open>\<open>apfs_read_node\<close> for ephemeral nodes with write access.\<close>

definition eph_read_write :: "apfs_fs \<Rightarrow> u64 \<Rightarrow> (apfs_node \<times> apfs_fs) result" where
  "eph_read_write fs oid =
     (let l = d_eph_list (fs_dev fs); bs = fs_bs fs in
      bind_res (apfs_ephemeral_object_lookup l oid) (\<lambda>i.
      if uint (eph_size (l ! i)) \<noteq> bs then Inl EOPNOTSUPP
      else bind_res (wr64 (eph_object (l ! i)) 16 (uint (fs_xid fs))) (\<lambda>raw.
        bind_res (apfs_read_node_raw bs (d_check_nodes (fs_dev fs)) True False oid 0 raw) (\<lambda>node.
        Inr (node, fs_set_eph (l[i := (l ! i)\<lparr>eph_object := raw\<rparr>]) fs)))))"

text \<open>
  \<open>apfs_create_node\<close> for ephemeral nodes.  The fields of the in-memory node that the caller has to set
  are zero.
\<close>

definition eph_create :: "apfs_fs \<Rightarrow> (apfs_node \<times> apfs_fs) result" where
  "eph_create fs =
     (let l = d_eph_list (fs_dev fs); bs = fs_bs fs; oid = fs_next_oid fs in
      if length l \<ge> APFS_EPHEMERAL_LIST_LIMIT then Inl EOPNOTSUPP
      else bind_res (create_node_raw bs APFS_OBJ_EPHEMERAL_FLAG oid (fs_xid fs) (replicate (nat bs) 0)) (\<lambda>raw.
        Inr (\<lparr>nd_tree_type = 0, nd_flags = 0, nd_records = 0, nd_key = 0, nd_free = 0, nd_val = 0,
               nd_key_free_list_len = 0, nd_val_free_list_len = 0, nd_block_nr = 0, nd_oid = oid, nd_data = raw\<rparr>,
             (fs_set_eph (l @ [\<lparr>eph_oid = oid, eph_size = of_int bs, eph_object = raw\<rparr>]) fs)\<lparr>fs_next_oid := oid + 1\<rparr>)))"

text \<open>
  \<open>apfs_delete_node\<close> for the nodes of a free queue.  It clears the pointer in the list entry after the
  last one in use, which lies outside of the list if it is full.
\<close>

definition eph_delete :: "apfs_node \<Rightarrow> apfs_fs \<Rightarrow> apfs_fs result" where
  "eph_delete node fs =
     (let l = d_eph_list (fs_dev fs) in
      bind_res (apfs_ephemeral_object_lookup l (nd_oid node)) (\<lambda>i.
      if length l \<ge> APFS_EPHEMERAL_LIST_LIMIT then Inl UB
      else Inr (fs_set_eph (take i l @ drop (Suc i) l) fs)))"

definition eph_ops :: tree_ops where
  "eph_ops = \<lparr>t_storage = APFS_OBJ_EPHEMERAL, t_read = eph_read,
     t_read_write = (\<lambda>fs oid. Some (eph_read_write fs oid)), t_create = (\<lambda>fs. Some (eph_create fs)),
     t_delete = (\<lambda>node fs. Some (eph_delete node fs))\<rparr>"

section \<open>The space manager object\<close>

abbreviation (input) sizeof_cib :: int where "sizeof_cib \<equiv> 40"
abbreviation (input) sizeof_chunk_info :: int where "sizeof_chunk_info \<equiv> 32"

definition fs_set_sm :: "(apfs_spaceman \<Rightarrow> apfs_spaceman) \<Rightarrow> apfs_fs \<Rightarrow> apfs_fs" where
  "fs_set_sm f fs = fs\<lparr>fs_sm := f (fs_sm fs)\<rparr>"

abbreviation fs_raw :: "apfs_fs \<Rightarrow> buffer" where "fs_raw fs \<equiv> sm_raw (fs_sm fs)"

definition fs_set_raw :: "buffer \<Rightarrow> apfs_fs \<Rightarrow> apfs_fs" where
  "fs_set_raw raw = fs_set_sm (sm_raw_update (\<lambda>_. raw))"

text \<open>The conversion of a \<open>u64\<close> to an \<open>int\<close> parameter.\<close>

definition to_s32 :: "int \<Rightarrow> int" where
  "to_s32 x = (x + 0x80000000) mod 0x100000000 - 0x80000000"

definition cib_addr_off :: "apfs_spaceman \<Rightarrow> int \<Rightarrow> int" where
  "cib_addr_off sm index = to_u32 (int (sm_addr_offset sm) + index * 8)"

definition apfs_spaceman_read_cib_addr :: "apfs_spaceman \<Rightarrow> int \<Rightarrow> u64 result" where
  "apfs_spaceman_read_cib_addr sm index =
     bind_res (rd64 (sm_raw sm) (cib_addr_off sm index)) (\<lambda>addr. Inr (of_nat addr))"

definition apfs_spaceman_write_cib_addr :: "int \<Rightarrow> u64 \<Rightarrow> apfs_spaceman \<Rightarrow> apfs_spaceman result" where
  "apfs_spaceman_write_cib_addr index addr sm =
     bind_res (wr64 (sm_raw sm) (cib_addr_off sm index) (uint addr)) (\<lambda>raw. Inr (sm\<lparr>sm_raw := raw\<rparr>))"

definition apfs_max_chunks_per_cib :: "int \<Rightarrow> int" where
  "apfs_max_chunks_per_cib bs = (bs - sizeof_cib) div sizeof_chunk_info"

text \<open>The device \<open>APFS_SD_MAIN\<close> starts at the offset 48 of the space manager.\<close>

definition apfs_read_spaceman_dev :: "apfs_spaceman \<Rightarrow> apfs_spaceman result" where
  "apfs_read_spaceman_dev sm =
     (let raw = sm_raw sm in
      bind_res (rd32 raw 68) (\<lambda>cab_count.
      if cab_count \<noteq> 0 then Inl EINVAL
      else bind_res (rd64 raw 48) (\<lambda>block_count.
      bind_res (rd64 raw 56) (\<lambda>chunk_count.
      bind_res (rd32 raw 64) (\<lambda>cib_count.
      bind_res (rd64 raw 72) (\<lambda>free_count.
      bind_res (rd32 raw 80) (\<lambda>addr_offset.
      if addr_offset + cib_count * 8 > sm_size sm then Inl EFSCORRUPTED
      else Inr (sm\<lparr>sm_block_count := of_nat block_count, sm_chunk_count := of_nat chunk_count,
             sm_cib_count := cib_count, sm_free_count := of_nat free_count, sm_addr_offset := addr_offset\<rparr>))))))))"

text \<open>The pointers of \<open>apfs_spaceman_get_16\<close> and \<open>apfs_spaceman_get_64\<close> as offsets.\<close>

definition apfs_spaceman_get_16 :: "apfs_spaceman \<Rightarrow> int \<Rightarrow> int option" where
  "apfs_spaceman_get_16 sm off = (if off + 2 > int (sm_size sm) then None else Some off)"

definition apfs_spaceman_get_64 :: "apfs_spaceman \<Rightarrow> int \<Rightarrow> int option" where
  "apfs_spaceman_get_64 sm off = (if off + 8 > int (sm_size sm) then None else Some off)"

section \<open>Blocks for the bitmaps of the internal pool\<close>

abbreviation (input) IP_BM_INDEX_INVALID :: int where "IP_BM_INDEX_INVALID \<equiv> 0xffff"

text \<open>The offset of the list link of a bitmap block.\<close>

definition free_next_off :: "apfs_spaceman \<Rightarrow> nat \<Rightarrow> int result" where
  "free_next_off sm n = bind_res (rd32 (sm_raw sm) 332) (\<lambda>off. Inr (to_u32 (int off + int n * 2)))"

definition apfs_allocate_ip_bitmap :: "apfs_spaceman \<Rightarrow> (nat \<times> apfs_spaceman) result" where
  "apfs_allocate_ip_bitmap sm =
     (let raw = sm_raw sm in
      bind_res (rd16 raw 320) (\<lambda>free_head.
      bind_res (rd32 raw 164) (\<lambda>block_count.
      bind_res (free_next_off sm free_head) (\<lambda>old_head_off.
      case apfs_spaceman_get_16 sm old_head_off of
        None \<Rightarrow> Inl EFSCORRUPTED
      | Some old_head \<Rightarrow>
          bind_res (rd16 raw old_head) (\<lambda>new_head.
          bind_res (wr16 raw 320 (int new_head)) (\<lambda>raw.
          bind_res (wr16 raw old_head IP_BM_INDEX_INVALID) (\<lambda>raw.
          let blkcnt = block_count mod 65536 in
          if new_head \<ge> blkcnt \<or> free_head \<ge> blkcnt then Inl EFSCORRUPTED
          else Inr (free_head, sm\<lparr>sm_raw := raw\<rparr>))))))))"

definition apfs_free_ip_bitmap :: "nat \<Rightarrow> apfs_spaceman \<Rightarrow> apfs_spaceman result" where
  "apfs_free_ip_bitmap offset sm =
     (let raw = sm_raw sm in
      bind_res (rd16 raw 322) (\<lambda>free_tail.
      bind_res (free_next_off sm free_tail) (\<lambda>old_tail_off.
      case apfs_spaceman_get_16 sm old_tail_off of
        None \<Rightarrow> Inl EFSCORRUPTED
      | Some old_tail \<Rightarrow>
          bind_res (wr16 raw old_tail (int offset)) (\<lambda>raw.
          bind_res (wr16 raw 322 (int offset)) (\<lambda>raw. Inr (sm\<lparr>sm_raw := raw\<rparr>))))))"

text \<open>\<open>apfs_reallocate_ip_bitmap\<close> with the offset of the field that holds the bitmap block.\<close>

definition apfs_reallocate_ip_bitmap :: "int \<Rightarrow> apfs_spaceman \<Rightarrow> (nat \<times> apfs_spaceman) result" where
  "apfs_reallocate_ip_bitmap offset_p sm =
     bind_res (rd16 (sm_raw sm) offset_p) (\<lambda>offset.
     bind_res (apfs_free_ip_bitmap offset sm) (\<lambda>sm.
     bind_res (apfs_allocate_ip_bitmap sm) (\<lambda>(offset, sm).
     bind_res (wr16 (sm_raw sm) offset_p (int offset)) (\<lambda>raw.
     Inr (offset, sm\<lparr>sm_raw := raw\<rparr>)))))"

section \<open>Buffers\<close>

definition apfs_sb_bread :: "apfs_fs \<Rightarrow> u64 \<Rightarrow> buffer result" where
  "apfs_sb_bread fs bno = (case d_block (fs_dev fs) bno of None \<Rightarrow> Inl EIO | Some b \<Rightarrow> Inr b)"

definition put_block :: "u64 \<Rightarrow> buffer \<Rightarrow> apfs_fs \<Rightarrow> apfs_fs" where
  "put_block bno b fs = fs\<lparr>fs_dev := (fs_dev fs)\<lparr>d_block := (d_block (fs_dev fs))(bno \<mapsto> b)\<rparr>\<rparr>"

text \<open>A buffer that will be overwritten in full; only block numbers outside of the device fail.\<close>

definition apfs_getblk :: "apfs_fs \<Rightarrow> u64 \<Rightarrow> unit result" where
  "apfs_getblk fs bno = (case d_block (fs_dev fs) bno of None \<Rightarrow> Inl EIO | Some b \<Rightarrow> Inr ())"

definition apfs_transaction_join :: "u64 \<Rightarrow> apfs_fs \<Rightarrow> apfs_fs" where
  "apfs_transaction_join bno fs = fs\<lparr>fs_dev := (fs_dev fs)\<lparr>d_trans := (d_trans (fs_dev fs))(bno := True)\<rparr>\<rparr>"

section \<open>The bitmaps of the internal pool\<close>

definition apfs_write_single_ip_bitmap :: "nat \<Rightarrow> apfs_fs \<Rightarrow> apfs_fs result" where
  "apfs_write_single_ip_bitmap idx fs =
     (let sm = fs_sm fs; raw = sm_raw sm in
      bind_res (rd64 raw 168) (\<lambda>ip_bm_base.
      bind_res (rd32 raw 324) (\<lambda>xid_offset.
      case apfs_spaceman_get_64 sm (to_u32 (int xid_offset + int idx * 8)) of
        None \<Rightarrow> Inl EFSCORRUPTED
      | Some xid_p \<Rightarrow>
          bind_res (wr64 raw xid_p (uint (fs_xid fs))) (\<lambda>raw.
          bind_res (rd32 raw 328) (\<lambda>bitmap_offset.
          case apfs_spaceman_get_16 sm (to_u32 (int bitmap_offset + int idx * 2)) of
            None \<Rightarrow> Inl EFSCORRUPTED
          | Some ip_bitmap_p \<Rightarrow>
              bind_res (apfs_reallocate_ip_bitmap ip_bitmap_p (sm\<lparr>sm_raw := raw\<rparr>)) (\<lambda>(offset, sm).
              let bno = of_nat ip_bm_base + of_nat offset; info = sm_ip_bmaps sm ! idx in
              bind_res (apfs_getblk fs bno) (\<lambda>_.
              Inr (apfs_transaction_join bno (put_block bno (ipb_block info)
                (fs\<lparr>fs_sm := sm\<lparr>sm_ip_bmaps := (sm_ip_bmaps sm)[idx := info\<lparr>ipb_dirty := False\<rparr>]\<rparr>\<rparr>))))))))))"

fun write_ip_bitmaps_from :: "nat \<Rightarrow> nat \<Rightarrow> apfs_fs \<Rightarrow> apfs_fs result" where
  "write_ip_bitmaps_from i 0 fs = Inr fs"
| "write_ip_bitmaps_from i (Suc n) fs =
     bind_res (if ipb_dirty (sm_ip_bmaps (fs_sm fs) ! i) then apfs_write_single_ip_bitmap i fs else Inr fs)
       (write_ip_bitmaps_from (Suc i) n)"

definition apfs_write_ip_bitmaps :: "apfs_fs \<Rightarrow> apfs_fs result" where
  "apfs_write_ip_bitmaps fs = write_ip_bitmaps_from 0 (length (sm_ip_bmaps (fs_sm fs))) fs"

definition apfs_read_single_ip_bitmap :: "nat \<Rightarrow> apfs_fs \<Rightarrow> apfs_fs result" where
  "apfs_read_single_ip_bitmap idx fs =
     (let sm = fs_sm fs; raw = sm_raw sm in
      bind_res (rd64 raw 168) (\<lambda>ip_bm_base.
      bind_res (rd32 raw 328) (\<lambda>bitmap_offset.
      case apfs_spaceman_get_16 sm (to_u32 (int bitmap_offset + int idx * 2)) of
        None \<Rightarrow> Inl EFSCORRUPTED
      | Some ip_bitmap_p \<Rightarrow>
          bind_res (rd16 raw ip_bitmap_p) (\<lambda>offset.
          bind_res (apfs_sb_bread fs (of_nat ip_bm_base + of_nat offset)) (\<lambda>bitmap.
          Inr (fs_set_sm (sm_ip_bmaps_update (\<lambda>l. l[idx := \<lparr>ipb_dirty = False, ipb_block = bitmap\<rparr>])) fs))))))"

fun read_ip_bitmaps_from :: "nat \<Rightarrow> nat \<Rightarrow> apfs_fs \<Rightarrow> apfs_fs result" where
  "read_ip_bitmaps_from i 0 fs = Inr fs"
| "read_ip_bitmaps_from i (Suc n) fs =
     bind_res (apfs_read_single_ip_bitmap i fs) (read_ip_bitmaps_from (Suc i) n)"

definition apfs_read_ip_bitmaps :: "apfs_fs \<Rightarrow> apfs_fs result" where
  "apfs_read_ip_bitmaps fs = read_ip_bitmaps_from 0 (length (sm_ip_bmaps (fs_sm fs))) fs"

definition apfs_block_in_ip :: "apfs_spaceman \<Rightarrow> u64 \<Rightarrow> bool result" where
  "apfs_block_in_ip sm bno =
     bind_res (rd64 (sm_raw sm) 176) (\<lambda>ip_base.
     bind_res (rd64 (sm_raw sm) 152) (\<lambda>ip_block_count.
     let start = of_nat ip_base; stop = start + of_nat ip_block_count
     in Inr (start \<le> bno \<and> bno < stop)))"

text \<open>The change of one bit of the bitmaps of the internal pool.\<close>

definition ip_mark :: "(nat \<Rightarrow> buffer \<Rightarrow> buffer result) \<Rightarrow> u64 \<Rightarrow> apfs_spaceman \<Rightarrow> apfs_spaceman result" where
  "ip_mark change bno sm =
     bind_res (rd64 (sm_raw sm) 176) (\<lambda>ip_base.
     let off = bno - of_nat ip_base; i = unat (drop_bit (sm_ip_bmaps_shift sm) off) in
     if i \<ge> length (sm_ip_bmaps sm) then Inl UB
     else bind_res (change (unat (off AND sm_ip_bmaps_mask sm)) (ipb_block (sm_ip_bmaps sm ! i))) (\<lambda>b.
       Inr (sm\<lparr>sm_ip_bmaps := (sm_ip_bmaps sm)[i := \<lparr>ipb_dirty = True, ipb_block = b\<rparr>]\<rparr>)))"

definition apfs_ip_mark_free :: "u64 \<Rightarrow> apfs_spaceman \<Rightarrow> apfs_spaceman result" where
  "apfs_ip_mark_free = ip_mark clear_bit_le"

definition apfs_ip_mark_used :: "u64 \<Rightarrow> apfs_spaceman \<Rightarrow> apfs_spaceman result" where
  "apfs_ip_mark_used = ip_mark set_bit_le"

text \<open>The loop of \<open>apfs_ip_find_free\<close>; the result zero is the failure.\<close>

fun ip_find_free_from :: "int \<Rightarrow> nat \<Rightarrow> nat \<Rightarrow> u64 \<Rightarrow> nat \<Rightarrow> ip_bitmap_block_info list \<Rightarrow> u64 result" where
  "ip_find_free_from bs shift full_bitcnt ip_base i [] = Inr 0"
| "ip_find_free_from bs shift full_bitcnt ip_base i (info # infos) =
     bind_res (find_zero_bit_le (ipb_block info) (nat (bs * 8))) (\<lambda>off.
     if int off \<ge> bs * 8 then ip_find_free_from bs shift full_bitcnt ip_base (Suc i) infos
     else
       let off_in_ip = nat (to_u32 (int (push_bit shift i))) + off in
       if off_in_ip \<ge> full_bitcnt then Inr 0 else Inr (ip_base + of_nat off_in_ip))"

definition apfs_ip_find_free :: "int \<Rightarrow> apfs_spaceman \<Rightarrow> u64 result" where
  "apfs_ip_find_free bs sm =
     bind_res (rd64 (sm_raw sm) 152) (\<lambda>full_bitcnt.
     bind_res (rd64 (sm_raw sm) 176) (\<lambda>ip_base.
     ip_find_free_from bs (sm_ip_bmaps_shift sm) full_bitcnt (of_nat ip_base) 0 (sm_ip_bmaps sm)))"


section \<open>The bitmaps of the chunks\<close>

definition bit_in_chunk :: "int \<Rightarrow> u64 \<Rightarrow> nat" where
  "bit_in_chunk bs bno = unat (bno AND of_int (bs * 8 - 1))"

definition apfs_chunk_find_free :: "int \<Rightarrow> buffer \<Rightarrow> u64 \<Rightarrow> u64 result" where
  "apfs_chunk_find_free bs bitmap addr =
     bind_res (find_zero_bit_le bitmap (nat (bs * 8))) (\<lambda>bno.
     if int bno \<ge> bs * 8 then Inr 0 else Inr (addr + of_nat bno))"

definition apfs_chunk_mark_used :: "int \<Rightarrow> buffer \<Rightarrow> u64 \<Rightarrow> buffer result" where
  "apfs_chunk_mark_used bs bitmap bno = set_bit_le (bit_in_chunk bs bno) bitmap"

definition apfs_chunk_mark_free :: "int \<Rightarrow> buffer \<Rightarrow> u64 \<Rightarrow> (bool \<times> buffer) result" where
  "apfs_chunk_mark_free bs bitmap bno = test_and_clear_bit_le (bit_in_chunk bs bno) bitmap"

section \<open>Insertion into the free queues\<close>

abbreviation (input) APFS_SFQ_IP :: nat where "APFS_SFQ_IP \<equiv> 0"
abbreviation (input) APFS_SFQ_MAIN :: nat where "APFS_SFQ_MAIN \<equiv> 1"

text \<open>The offset of a free queue in the space manager.\<close>

definition fq_off :: "nat \<Rightarrow> int" where
  "fq_off qid = 200 + 40 * int qid"

definition bno_qid :: "apfs_spaceman \<Rightarrow> u64 \<Rightarrow> nat result" where
  "bno_qid sm bno = bind_res (apfs_block_in_ip sm bno) (\<lambda>ip. Inr (if ip then APFS_SFQ_IP else APFS_SFQ_MAIN))"

definition root_node_count :: "int \<Rightarrow> apfs_node \<Rightarrow> nat result" where
  "root_node_count bs root = rd64 (nd_data root) (bs - sizeof_btree_info + 32)"

text \<open>The counters of the queue after an insertion.\<close>

definition fq_count_insert :: "int \<Rightarrow> u64 \<Rightarrow> u64 \<Rightarrow> buffer \<Rightarrow> buffer result" where
  "fq_count_insert fq xid count raw =
     bind_res (rd64 raw (fq + 16)) (\<lambda>oldest.
     bind_res (if oldest = 0 then wr64 raw (fq + 16) (uint xid) else Inr raw) (\<lambda>raw.
     le64_add_cpu raw fq (uint count)))"

definition apfs_free_queue_try_insert :: "u64 \<Rightarrow> u64 \<Rightarrow> apfs_fs \<Rightarrow> apfs_fs result option" where
  "apfs_free_queue_try_insert bno count fs =
     (let bs = fs_bs fs; xid = fs_xid fs; ghost = (count = 1) in
      bindo (Some (bno_qid (fs_sm fs) bno)) (\<lambda>qid.
      bindo (Some (rd64 (fs_raw fs) (fq_off qid + 8))) (\<lambda>tree_oid.
      bindo (Some (eph_read_write fs (of_nat tree_oid))) (\<lambda>(fq_root, fs).
      let query = (apfs_alloc_query fq_root None)\<lparr>q_key := apfs_init_free_queue_key xid bno, q_flags := APFS_QUERY_FREE_QUEUE\<rparr>
      in case apfs_btree_query (fs_dev fs) (eph_read fs) [query] of
           None \<Rightarrow> None
         | Some (err, chain) \<Rightarrow>
             if err \<noteq> None \<and> err \<noteq> Some ENODATA then Some (Inl (the err))
             else
               bindo (Some (root_node_count bs (chain_root chain))) (\<lambda>node_count.
               bindo (Some (rd16 (fs_raw fs) (fq_off qid + 24))) (\<lambda>node_limit.
               if node_count = node_limit \<and> \<not> apfs_node_has_room (q_node (hd chain)) (if ghost then 16 else 24) False
               then Some (Inl ENOSPC)
               else
                 bindo (apfs_btree_insert eph_ops chain (free_queue_raw_key xid bno)
                     (if ghost then None else Some (le_bytes 8 (unat count))) fs) (\<lambda>(chain, fs).
                 bindo (Some (fq_count_insert (fq_off qid) xid count (fs_raw fs))) (\<lambda>raw.
                 let fs = fs_set_raw raw fs in
                 if qid = APFS_SFQ_MAIN then
                   bindo (Some (root_node_count bs (chain_root chain))) (\<lambda>n.
                   Some (Inr (fs_set_sm (sm_main_fq_nodes_update (\<lambda>_. of_nat n)) fs)))
                 else Some (Inr fs)))))))))"

definition apfs_free_queue_insert_nocache :: "u64 \<Rightarrow> u64 \<Rightarrow> apfs_fs \<Rightarrow> apfs_fs result option" where
  "apfs_free_queue_insert_nocache bno count fs =
     map_option (\<lambda>r. case r of Inl e \<Rightarrow> Inl (if e = ENOSPC then EFSCORRUPTED else e) | Inr fs \<Rightarrow> Inr fs)
       (apfs_free_queue_try_insert bno count fs)"

definition set_free_cache :: "u64 \<Rightarrow> u64 \<Rightarrow> apfs_fs \<Rightarrow> apfs_fs" where
  "set_free_cache base blkcnt = fs_set_sm (\<lambda>sm. sm\<lparr>sm_free_cache_base := base, sm_free_cache_blkcnt := blkcnt\<rparr>)"

definition apfs_free_queue_insert :: "u64 \<Rightarrow> u64 \<Rightarrow> apfs_fs \<Rightarrow> apfs_fs result option" where
  "apfs_free_queue_insert bno count fs =
     (let sm = fs_sm fs; base = sm_free_cache_base sm; blkcnt = sm_free_cache_blkcnt sm in
      if base = 0 then Some (Inr (set_free_cache bno count fs))
      else
        bindo (Some (apfs_block_in_ip sm bno)) (\<lambda>ip.
        bindo (Some (apfs_block_in_ip sm base)) (\<lambda>cache_ip.
        if ip = cache_ip \<and> bno = base + blkcnt then Some (Inr (set_free_cache base (blkcnt + count) fs))
        else if ip = cache_ip \<and> bno + count = base then Some (Inr (set_free_cache (base - count) (blkcnt + count) fs))
        else bindo (apfs_free_queue_insert_nocache base blkcnt fs) (\<lambda>fs.
          Some (Inr (set_free_cache bno count fs))))))"

section \<open>Allocating and freeing blocks\<close>

text \<open>The offset of the description of a chunk in its chunk-info block.\<close>

definition ci_off :: "nat \<Rightarrow> int" where
  "ci_off index = sizeof_cib + sizeof_chunk_info * int index"

definition ip_find_free_nonzero :: "apfs_fs \<Rightarrow> u64 result" where
  "ip_find_free_nonzero fs =
     bind_res (apfs_ip_find_free (fs_bs fs) (fs_sm fs)) (\<lambda>bno. if bno = 0 then Inl EFSCORRUPTED else Inr bno)"

text \<open>
  A copy of the block \<open>bno\<close> in a new block of the internal pool, for the current transaction; the old
  block is put into the free queue.
\<close>

definition ip_cow :: "u64 \<Rightarrow> buffer \<Rightarrow> apfs_fs \<Rightarrow> (u64 \<times> apfs_fs) result option" where
  "ip_cow bno b fs =
     bindo (Some (ip_find_free_nonzero fs)) (\<lambda>new_bno.
     bindo (Some (apfs_getblk fs new_bno)) (\<lambda>_.
     bindo (apfs_free_queue_insert bno 1 (put_block new_bno b fs)) (\<lambda>fs.
     Some (Inr (new_bno, fs)))))"

definition fs_ip_mark_used :: "u64 \<Rightarrow> apfs_fs \<Rightarrow> apfs_fs result" where
  "fs_ip_mark_used bno fs = bind_res (apfs_ip_mark_used bno (fs_sm fs)) (\<lambda>sm. Inr (fs\<lparr>fs_sm := sm\<rparr>))"

text \<open>The bitmap of the chunk, in a block that the current transaction may change.\<close>

definition chunk_bitmap :: "u64 \<Rightarrow> nat \<Rightarrow> bool \<Rightarrow> apfs_fs \<Rightarrow> (u64 \<times> apfs_fs) result option" where
  "chunk_bitmap cib_bno index is_alloc fs =
     bindo (Some (apfs_sb_bread fs cib_bno)) (\<lambda>cib.
     bindo (Some (rd64 cib (ci_off index))) (\<lambda>ci_xid.
     bindo (Some (rd64 cib (ci_off index + 24))) (\<lambda>bitmap_addr.
     if bitmap_addr = 0 then
       if \<not> is_alloc then Some (Inl EFSCORRUPTED)
       else bindo (Some (ip_find_free_nonzero fs)) (\<lambda>bmap_bno.
         bindo (Some (apfs_sb_bread fs bmap_bno)) (\<lambda>_.
         Some (Inr (bmap_bno, put_block bmap_bno (replicate (nat (fs_bs fs)) 0) fs))))
     else bindo (Some (apfs_sb_bread fs (of_nat bitmap_addr))) (\<lambda>bmap.
       if of_nat ci_xid < fs_xid fs then ip_cow (of_nat bitmap_addr) bmap fs
       else Some (Inr (of_nat bitmap_addr, fs))))))"

text \<open>
  The chunk-info block, in a block that the current transaction may change; \<open>old_cib\<close> tells if it is from an
  earlier one.
\<close>

definition chunk_cib :: "bool \<Rightarrow> u64 \<Rightarrow> apfs_fs \<Rightarrow> (u64 \<times> apfs_fs) result option" where
  "chunk_cib old_cib cib_bno fs =
     (if old_cib then
        bindo (Some (apfs_sb_bread fs cib_bno)) (\<lambda>cib.
        bindo (ip_cow cib_bno cib fs) (\<lambda>(new_cib_bno, fs).
        bindo (Some (bind_res (wr64 cib 8 (uint new_cib_bno)) (\<lambda>cib. wr64 cib 16 (uint (fs_xid fs))))) (\<lambda>cib.
        bindo (Some (fs_ip_mark_used new_cib_bno (put_block new_cib_bno cib (apfs_transaction_join new_cib_bno fs)))) (\<lambda>fs.
        Some (Inr (new_cib_bno, fs))))))
      else Some (Inr (cib_bno, fs)))"

text \<open>The update of the description of the chunk and of its bitmap.\<close>

definition chunk_info_update :: "nat \<Rightarrow> u64 \<Rightarrow> u64 \<Rightarrow> bool \<Rightarrow> buffer \<Rightarrow> buffer result" where
  "chunk_info_update index xid bmap_bno is_alloc cib =
     bind_res (wr64 cib (ci_off index) (uint xid)) (\<lambda>cib.
     bind_res (rd32 cib (ci_off index + 20)) (\<lambda>free_count.
     bind_res (wr32 cib (ci_off index + 20) (int free_count + (if is_alloc then - 1 else 1))) (\<lambda>cib.
     wr64 cib (ci_off index + 24) (uint bmap_bno))))"

definition chunk_bit_update :: "int \<Rightarrow> bool \<Rightarrow> u64 \<Rightarrow> u64 \<Rightarrow> buffer \<Rightarrow> (u64 \<times> buffer) result" where
  "chunk_bit_update bs is_alloc addr bno bmap =
     (if is_alloc then
        bind_res (apfs_chunk_find_free bs bmap addr) (\<lambda>bno.
        if bno = 0 then Inl EFSCORRUPTED
        else bind_res (apfs_chunk_mark_used bs bmap bno) (\<lambda>bmap. Inr (bno, bmap)))
      else
        bind_res (apfs_chunk_mark_free bs bmap bno) (\<lambda>(was_used, bmap).
        if was_used then Inr (bno, bmap) else Inl EFSCORRUPTED))"

definition chunk_finish :: "u64 \<Rightarrow> nat \<Rightarrow> u64 \<Rightarrow> u64 \<Rightarrow> bool \<Rightarrow> apfs_fs \<Rightarrow> (u64 \<times> u64 \<times> apfs_fs) result" where
  "chunk_finish cib_bno index bmap_bno bno is_alloc fs =
     bind_res (apfs_sb_bread fs cib_bno) (\<lambda>cib.
     bind_res (chunk_info_update index (fs_xid fs) bmap_bno is_alloc cib) (\<lambda>cib.
     bind_res (rd64 cib (ci_off index + 8)) (\<lambda>addr.
     let fs = put_block cib_bno cib fs in
     bind_res (apfs_sb_bread fs bmap_bno) (\<lambda>bmap.
     bind_res (chunk_bit_update (fs_bs fs) is_alloc (of_nat addr) bno bmap) (\<lambda>(bno, bmap).
     Inr (cib_bno, bno,
       fs_set_sm (sm_free_count_update (\<lambda>n. if is_alloc then n - 1 else n + 1)) (put_block bmap_bno bmap fs)))))))"

text \<open>
  \<open>apfs_chunk_alloc_free\<close>: the block number of the chunk-info block, which may have moved, and the
  block that was allocated or freed.
\<close>

definition apfs_chunk_alloc_free :: "u64 \<Rightarrow> nat \<Rightarrow> u64 \<Rightarrow> bool \<Rightarrow> apfs_fs \<Rightarrow> (u64 \<times> u64 \<times> apfs_fs) result option" where
  "apfs_chunk_alloc_free cib_bno index bno is_alloc fs =
     bindo (Some (apfs_sb_bread fs cib_bno)) (\<lambda>cib.
     bindo (Some (rd64 cib 16)) (\<lambda>cib_xid.
     bindo (Some (rd32 cib (ci_off index + 20))) (\<lambda>free_count.
     let old_cib = of_nat cib_xid < fs_xid fs in
     if is_alloc \<and> free_count < 1 then Some (Inl ENOSPC)
     else
       bindo (chunk_bitmap cib_bno index is_alloc fs) (\<lambda>(bmap_bno, fs).
       bindo (Some (fs_ip_mark_used bmap_bno fs)) (\<lambda>fs.
       bindo (chunk_cib old_cib cib_bno fs) (\<lambda>(cib_bno, fs).
       Some (chunk_finish cib_bno index bmap_bno bno is_alloc fs)))))))"

definition apfs_chunk_allocate_block :: "u64 \<Rightarrow> nat \<Rightarrow> apfs_fs \<Rightarrow> (u64 \<times> u64 \<times> apfs_fs) result option" where
  "apfs_chunk_allocate_block cib_bno index fs = apfs_chunk_alloc_free cib_bno index 0 True fs"

definition apfs_chunk_free :: "u64 \<Rightarrow> nat \<Rightarrow> u64 \<Rightarrow> apfs_fs \<Rightarrow> (u64 \<times> u64 \<times> apfs_fs) result option" where
  "apfs_chunk_free cib_bno index bno fs = apfs_chunk_alloc_free cib_bno index bno False fs"

text \<open>The loop over a list of indices that goes on at \<open>ENOSPC\<close>.\<close>

fun first_with_space :: "('i \<Rightarrow> 'r result option) \<Rightarrow> 'i list \<Rightarrow> 'r result option" where
  "first_with_space alloc [] = Some (Inl ENOSPC)"
| "first_with_space alloc (i # is) =
     (case alloc i of
        Some (Inl ENOSPC) \<Rightarrow> first_with_space alloc is
      | r \<Rightarrow> r)"

definition search_order :: "bool \<Rightarrow> nat \<Rightarrow> nat list" where
  "search_order backwards n = (if backwards then rev [0..<n] else [0..<n])"

definition apfs_cib_allocate_block :: "u64 \<Rightarrow> bool \<Rightarrow> apfs_fs \<Rightarrow> (u64 \<times> u64 \<times> apfs_fs) result option" where
  "apfs_cib_allocate_block cib_bno backwards fs =
     bindo (Some (apfs_sb_bread fs cib_bno)) (\<lambda>cib.
     bindo (if d_check_nodes (fs_dev fs) then Some (apfs_obj_verify_csum (fs_bs fs) (d_trans (fs_dev fs) cib_bno) cib)
            else Some (Inr True)) (\<lambda>csum_ok.
     if \<not> csum_ok then Some (Inl EFSBADCRC)
     else bindo (Some (rd32 cib 36)) (\<lambda>chunk_count.
       if chunk_count > sm_chunks_per_cib (fs_sm fs) then Some (Inl EFSCORRUPTED)
       else first_with_space (\<lambda>index. apfs_chunk_allocate_block cib_bno index fs) (search_order backwards chunk_count))))"

text \<open>The assertion of \<open>apfs_write_spaceman\<close> is not part of the function.\<close>

definition apfs_write_spaceman :: "apfs_spaceman \<Rightarrow> apfs_spaceman result" where
  "apfs_write_spaceman sm = bind_res (wr64 (sm_raw sm) 72 (uint (sm_free_count sm))) (\<lambda>raw. Inr (sm\<lparr>sm_raw := raw\<rparr>))"

text \<open>The new address of a chunk-info block and the number of free blocks, written to the space manager.\<close>

definition spaceman_update_cib :: "int \<Rightarrow> u64 \<Rightarrow> apfs_fs \<Rightarrow> apfs_fs result" where
  "spaceman_update_cib index cib_bno fs =
     bind_res (apfs_spaceman_write_cib_addr index cib_bno (fs_sm fs)) (\<lambda>sm.
     bind_res (apfs_write_spaceman sm) (\<lambda>sm. Inr (fs\<lparr>fs_sm := sm\<rparr>)))"

definition apfs_spaceman_allocate_block :: "bool \<Rightarrow> apfs_fs \<Rightarrow> (u64 \<times> apfs_fs) result option" where
  "apfs_spaceman_allocate_block backwards fs =
     first_with_space (\<lambda>index.
       bindo (Some (apfs_spaceman_read_cib_addr (fs_sm fs) (int index))) (\<lambda>cib_bno.
       bindo (apfs_cib_allocate_block cib_bno backwards fs) (\<lambda>(cib_bno, bno, fs).
       bindo (Some (spaceman_update_cib (int index) cib_bno fs)) (\<lambda>fs.
       Some (Inr (bno, fs))))))
       (search_order backwards (sm_cib_count (fs_sm fs)))"

text \<open>\<open>apfs_main_free\<close> without the restart of the cleanup of orphans, which works on inodes.\<close>

definition apfs_main_free :: "u64 \<Rightarrow> apfs_fs \<Rightarrow> apfs_fs result option" where
  "apfs_main_free bno fs =
     (let sm = fs_sm fs in
      bindo (Some (rd32 (sm_raw sm) 36)) (\<lambda>raw_blocks_per_chunk.
      bindo (Some (rd32 (sm_raw sm) 40)) (\<lambda>raw_chunks_per_cib.
      if raw_blocks_per_chunk = 0 \<or> raw_chunks_per_cib = 0 then Some (Inl EINVAL)
      else if sm_blocks_per_chunk sm = 0 \<or> sm_chunks_per_cib sm = 0 then Some (Inl UB)
      else
        let chunk = unat bno div sm_blocks_per_chunk sm;
            cib_idx = to_s32 (int (chunk div sm_chunks_per_cib sm));
            chunk_idx = chunk mod sm_chunks_per_cib sm
        in bindo (Some (apfs_spaceman_read_cib_addr sm cib_idx)) (\<lambda>cib_bno.
           bindo (apfs_chunk_free cib_bno chunk_idx bno fs) (\<lambda>(cib_bno, bno, fs).
           Some (spaceman_update_cib cib_idx cib_bno fs))))))"


section \<open>Flushing the free queues\<close>

record apfs_fq_rec =
  fq_xid :: u64
  fq_bno :: u64
  fq_len :: u64

definition apfs_fq_rec_from_query :: "apfs_query \<Rightarrow> apfs_fq_rec result" where
  "apfs_fq_rec_from_query query =
     (let raw = nd_data (q_node query) in
      if q_key_len query \<noteq> sizeof_free_queue_key then Inl EFSCORRUPTED
      else bind_res (rd64 raw (q_key_off query)) (\<lambda>xid.
        bind_res (rd64 raw (q_key_off query + 8)) (\<lambda>paddr.
        if q_len query = 0 then Inr \<lparr>fq_xid = of_nat xid, fq_bno = of_nat paddr, fq_len = 1\<rparr>
        else if q_len query = 8 then
          bind_res (rd64 raw (q_off query)) (\<lambda>len.
          Inr \<lparr>fq_xid = of_nat xid, fq_bno = of_nat paddr, fq_len = of_nat len\<rparr>)
        else Inl EFSCORRUPTED)))"

definition free_block :: "u64 \<Rightarrow> apfs_fs \<Rightarrow> apfs_fs result option" where
  "free_block bno fs =
     bindo (Some (apfs_block_in_ip (fs_sm fs) bno)) (\<lambda>ip.
     if ip then Some (bind_res (apfs_ip_mark_free bno (fs_sm fs)) (\<lambda>sm. Inr (fs\<lparr>fs_sm := sm\<rparr>)))
     else apfs_main_free bno fs)"

text \<open>The loop over the blocks of a record; the number of turns comes from its condition.\<close>

fun free_blocks :: "nat \<Rightarrow> u64 \<Rightarrow> apfs_fs \<Rightarrow> apfs_fs result option" where
  "free_blocks 0 bno fs = Some (Inr fs)"
| "free_blocks (Suc n) bno fs = bindo (free_block bno fs) (free_blocks n (bno + 1))"

definition fq_blocks :: "apfs_fq_rec \<Rightarrow> nat" where
  "fq_blocks rec = unat (fq_bno rec + fq_len rec) - unat (fq_bno rec)"

definition apfs_flush_fq_rec :: "apfs_node \<Rightarrow> u64 \<Rightarrow> apfs_fs \<Rightarrow> (u64 \<times> apfs_node \<times> apfs_fs) result option" where
  "apfs_flush_fq_rec root xid fs =
     (let query = (apfs_alloc_query root None)\<lparr>q_key := apfs_init_free_queue_key xid 0,
            q_flags := APFS_QUERY_FREE_QUEUE OR APFS_QUERY_ANY_NUMBER OR APFS_QUERY_EXACT\<rparr>
      in case apfs_btree_query (fs_dev fs) (eph_read fs) [query] of
           None \<Rightarrow> None
         | Some (Some e, chain) \<Rightarrow> Some (Inl e)
         | Some (None, chain) \<Rightarrow>
             bindo (Some (apfs_fq_rec_from_query (hd chain))) (\<lambda>rec.
             bindo (free_blocks (fq_blocks rec) (fq_bno rec) fs) (\<lambda>fs.
             bindo (apfs_btree_remove eph_ops chain fs) (\<lambda>(chain, fs).
             Some (Inr (fq_len rec, chain_root chain, fs))))))"

definition apfs_free_queue_oldest_xid :: "int \<Rightarrow> apfs_node \<Rightarrow> u64 result" where
  "apfs_free_queue_oldest_xid bs root =
     (if nd_records root = 0 then Inr 0
      else bind_res (apfs_node_locate_key bs root 0 0) (\<lambda>(len, off).
        if len \<noteq> sizeof_free_queue_key then Inr 0
        else bind_res (rd64 (nd_data root) off) (\<lambda>xid. Inr (of_nat xid))))"

text \<open>The inner loop of \<open>apfs_flush_free_queue\<close>, over the records of one transaction.\<close>

partial_function (option) flush_xid ::
  "nat \<Rightarrow> u64 \<Rightarrow> apfs_node \<Rightarrow> apfs_fs \<Rightarrow> (apfs_node \<times> apfs_fs) result option" where
  "flush_xid qid xid root fs =
     (case apfs_flush_fq_rec root xid fs of
        None \<Rightarrow> None
      | Some (Inl e) \<Rightarrow> if e = ENODATA then Some (Inr (root, fs)) else Some (Inl e)
      | Some (Inr (count, root, fs)) \<Rightarrow>
          bindo (Some (le64_add_cpu (fs_raw fs) (fq_off qid) (- uint count))) (\<lambda>raw.
          flush_xid qid xid root (fs_set_raw raw fs)))"

partial_function (option) flush_queue ::
  "nat \<Rightarrow> u64 \<Rightarrow> apfs_node \<Rightarrow> apfs_fs \<Rightarrow> (apfs_node \<times> apfs_fs) result option" where
  "flush_queue qid oldest root fs =
     (if oldest = 0 \<or> oldest = fs_xid fs then Some (Inr (root, fs))
      else
        bindo (flush_xid qid oldest root fs) (\<lambda>(root, fs).
        bindo (Some (apfs_free_queue_oldest_xid (fs_bs fs) root)) (\<lambda>oldest.
        bindo (Some (wr64 (fs_raw fs) (fq_off qid + 16) (uint oldest))) (\<lambda>raw.
        flush_queue qid oldest root (fs_set_raw raw fs)))))"

text \<open>
  \<open>apfs_flush_free_queue\<close>.  When the loop body never runs, the source returns a variable without a
  value; the model returns zero, as kernels do that initialise the variables on the stack.
\<close>

definition apfs_flush_free_queue :: "nat \<Rightarrow> apfs_fs \<Rightarrow> apfs_fs result option" where
  "apfs_flush_free_queue qid fs =
     bindo (Some (rd64 (fs_raw fs) (fq_off qid + 16))) (\<lambda>oldest.
     bindo (Some (rd64 (fs_raw fs) (fq_off qid + 8))) (\<lambda>tree_oid.
     bindo (Some (eph_read_write fs (of_nat tree_oid))) (\<lambda>(root, fs).
     bindo (flush_queue qid (of_nat oldest) root fs) (\<lambda>(root, fs).
     if qid = APFS_SFQ_MAIN then
       bindo (Some (root_node_count (fs_bs fs) root)) (\<lambda>n.
       if n \<noteq> 1 then Some (Inl EFSCORRUPTED)
       else Some (Inr (fs_set_sm (sm_main_fq_nodes_update (\<lambda>_. of_nat n)) fs)))
     else Some (Inr fs)))))"

section \<open>Reading the space manager\<close>

text \<open>The number of bits of a bitmap block, as a power of two.\<close>

fun order_base_2 :: "nat \<Rightarrow> nat" where
  "order_base_2 n = (if n \<le> 1 then 0 else Suc (order_base_2 ((n + 1) div 2)))"

declare order_base_2.simps [simp del]

text \<open>
  \<open>apfs_allocate_spaceman\<close> when no space manager was read before; all of the other fields start as
  zero.
\<close>

definition apfs_allocate_spaceman :: "buffer \<Rightarrow> nat \<Rightarrow> apfs_fs \<Rightarrow> apfs_fs result" where
  "apfs_allocate_spaceman raw raw_size fs =
     bind_res (rd32 raw 160) (\<lambda>bmap_cnt.
     if bmap_cnt > 200 then Inl EFSCORRUPTED
     else apfs_read_ip_bitmaps (fs\<lparr>fs_sm :=
       \<lparr>sm_raw = raw, sm_size = raw_size, sm_blocks_per_chunk = 0, sm_chunks_per_cib = 0, sm_block_count = 0,
        sm_chunk_count = 0, sm_cib_count = 0, sm_free_count = 0, sm_addr_offset = 0, sm_main_fq_nodes = 0,
        sm_free_cache_base = 0, sm_free_cache_blkcnt = 0,
        sm_ip_bmaps_shift = order_base_2 (nat (fs_bs fs * 8)), sm_ip_bmaps_mask = of_int (fs_bs fs * 8 - 1),
        sm_ip_bmaps = replicate bmap_cnt \<lparr>ipb_dirty = False, ipb_block = []\<rparr>\<rparr>\<rparr>))"

text \<open>
  \<open>apfs_read_spaceman\<close> on a writable mount.  \<open>present\<close> tells if a former transaction has already
  allocated the in-memory space manager.
\<close>

definition apfs_read_spaceman :: "u64 \<Rightarrow> bool \<Rightarrow> apfs_fs \<Rightarrow> apfs_fs result option" where
  "apfs_read_spaceman oid present fs =
     (let l = d_eph_list (fs_dev fs); bs = fs_bs fs in
      bindo (Some (apfs_ephemeral_object_lookup l oid)) (\<lambda>i.
      bindo (Some (wr64 (if present then fs_raw fs else eph_object (l ! i)) 16 (uint (fs_xid fs)))) (\<lambda>raw.
      bindo (Some (if present then Inr (fs_set_raw raw fs)
                   else apfs_allocate_spaceman raw (unat (eph_size (l ! i))) fs)) (\<lambda>fs.
      let fs = set_free_cache 0 0 fs in
      bindo (Some (apfs_read_spaceman_dev (fs_sm fs))) (\<lambda>sm.
      bindo (Some (rd32 (sm_raw sm) 36)) (\<lambda>blocks_per_chunk.
      bindo (Some (rd32 (sm_raw sm) 40)) (\<lambda>chunks_per_cib.
      if int chunks_per_cib > apfs_max_chunks_per_cib bs then Some (Inl EFSCORRUPTED)
      else
        let sm = sm\<lparr>sm_blocks_per_chunk := blocks_per_chunk, sm_chunks_per_cib := chunks_per_cib\<rparr> in
        bindo (apfs_flush_free_queue APFS_SFQ_IP (fs\<lparr>fs_sm := sm\<rparr>)) (apfs_flush_free_queue APFS_SFQ_MAIN))))))))"

text \<open>
  In the source \<open>sm_raw\<close> points to the buffer of the ephemeral object of the space manager.  Here both
  are copies of it, and \<open>sm_raw\<close> has the current contents while a transaction is open.  \<open>sm_store\<close> copies
  them to the object, before the list of the objects is written, and \<open>sm_load\<close> takes them back, with the header
  that the commit has set.
\<close>

definition sm_store :: "u64 \<Rightarrow> apfs_fs \<Rightarrow> apfs_fs" where
  "sm_store oid fs =
     (let l = d_eph_list (fs_dev fs) in
      case apfs_ephemeral_object_lookup l oid of
        Inl e \<Rightarrow> fs
      | Inr i \<Rightarrow> fs_set_eph (l[i := (l ! i)\<lparr>eph_object := fs_raw fs\<rparr>]) fs)"

definition sm_load :: "u64 \<Rightarrow> apfs_fs \<Rightarrow> apfs_fs" where
  "sm_load oid fs =
     (let l = d_eph_list (fs_dev fs) in
      case apfs_ephemeral_object_lookup l oid of
        Inl e \<Rightarrow> fs
      | Inr i \<Rightarrow> fs_set_raw (eph_object (l ! i)) fs)"

text \<open>The list of the objects is the one with the current space manager in it, as \<open>sm_store\<close> makes it.\<close>

definition apfs_spaceman_get_free_blkcnt :: "ephemeral_object_info list \<Rightarrow> u64 \<Rightarrow> u64 result" where
  "apfs_spaceman_get_free_blkcnt l oid =
     bind_res (apfs_ephemeral_object_lookup l oid) (\<lambda>i.
     bind_res (rd64 (eph_object (l ! i)) 72) (\<lambda>main_free.
     bind_res (rd64 (eph_object (l ! i)) 120) (\<lambda>tier2_free.
     Inr (of_nat main_free + of_nat tier2_free))))"

end
