(* ===== verification/BtreeRecords.thy ===== *)
theory BtreeRecords
  imports Spaceman
begin

text \<open>
  What the changes of a tree do to the records of its nodes: a split deals them out to two nodes, and a
  removal takes one of them away.
\<close>

section \<open>Writes to the header of a node\<close>

lemma node_repr_header_write:
  assumes "node_repr bs n rs" "wr_le k (nd_data n) off x = Inr d" "off + int k \<le> 56"
  shows "node_repr bs (n\<lparr>nd_data := d\<rparr>) rs"
proof (rule node_repr_frame [OF assms(1)])
  note b = node_repr_bounds [OF assms(1)] node_repr_key [OF assms(1)]
  show "rd_bytes (nd_data (n\<lparr>nd_data := d\<rparr>)) off' len = rd_bytes (nd_data n) off' len" if "56 \<le> off'" for off' len
    using rd_bytes_wr_le_other [OF assms(2), of off' len] assms(3) that by simp
  show "rd_bytes (nd_data (n\<lparr>nd_data := d\<rparr>)) off' len = rd_bytes (nd_data n) off' len" if "nd_val n \<le> off'" for off' len
    using rd_bytes_wr_le_other [OF assms(2), of off' len] assms(3) that b by simp
  show "length (nd_data (n\<lparr>nd_data := d\<rparr>)) = length (nd_data n)"
    using assms(2) by (simp add: wr_le_def memcpy_length)
qed (use node_repr_bounds [OF assms(1)] in auto)

lemma copy_level_repr:
  assumes "node_repr bs n rs" "int (length old) = bs"
  obtains d where "copy_level old (nd_data n) = Inr d" "node_repr bs (n\<lparr>nd_data := d\<rparr>) rs"
proof -
  note b = node_repr_bounds [OF assms(1)] node_repr_key [OF assms(1)]
  obtain lv where lv: "rd16 old 34 = Inr lv" using rd_le_ok [of 34 2 old] assms(2) b by auto
  obtain d where d: "wr16 (nd_data n) 34 (int lv) = Inr d" using wr_le_ok [of 34 2 "nd_data n" "int lv"] b by auto
  then show thesis using that lv node_repr_header_write [OF assms(1) d] by (simp add: copy_level_def)
qed

section \<open>Splitting a node\<close>

text \<open>The number of records that stay, and the room that some of the records need in a new node.\<close>

definition kept :: "(byte list \<times> byte list) list \<Rightarrow> nat" where
  "kept rs = length rs - length rs div 2"

definition records_fit :: "int \<Rightarrow> apfs_node \<Rightarrow> (byte list \<times> byte list) list \<Rightarrow> bool" where
  "records_fit bs n ts \<longleftrightarrow> 56 + copy_toc bs n (int (length ts)) + key_bytes ts + val_bytes ts \<le> value_end bs n"

lemma kept_le: "kept rs \<le> length rs"
  by (simp add: kept_def)

lemma kept_less: "2 \<le> length rs \<Longrightarrow> kept rs < length rs"
  unfolding kept_def by linarith

lemma split_counts_repr:
  "node_repr bs n rs \<Longrightarrow> split_counts n = (int (kept rs), int (length rs))"
  using node_repr_bounds(3) [of bs n rs] by (simp add: split_counts_def kept_def Let_def of_nat_diff zdiv_int)

lemma copy_half_repr:
  assumes repr: "node_repr bs n (as @ ts @ us)" and dest: "nd_records dest = 0" "int (length (nd_data dest)) = bs"
    and shape: "same_shape dest n" and fit: "records_fit bs n ts"
  obtains d where "apfs_copy_record_range bs dest n (int (length as)) (int (length as) + int (length ts)) = Inr d"
    "node_repr bs d ts" "nd_oid d = nd_oid dest" "nd_block_nr d = nd_block_nr dest" "same_shape d n"
proof -
  have kind: "fits_kind dest r" if "r \<in> set ts" for r
    using node_repr_bounds(9) [OF repr] that same_shape_sel(4) [OF shape] by auto
  have fixd: "apfs_node_has_fixed_kv_size dest = apfs_node_has_fixed_kv_size n"
    using shape by (simp add: same_shape_def apfs_node_has_fixed_kv_size_def)
  have "value_end bs dest = value_end bs n" using same_shape_sel [OF shape] by simp
  then have gap: "56 + copy_toc bs n (int (length ts)) + key_bytes ts + val_bytes ts \<le> value_end bs dest"
    using fit by (simp add: records_fit_def)
  from copy_record_range_repr [OF repr refl refl refl dest fixd kind gap] obtain d where
    d: "apfs_copy_record_range bs dest n (int (length as)) (int (length as) + int (length ts)) =
      Inr (dest\<lparr>nd_data := d, nd_records := length ts, nd_key := 56 + copy_toc bs n (int (length ts)),
        nd_free := 56 + copy_toc bs n (int (length ts)) + key_bytes ts, nd_val := value_end bs dest - val_bytes ts\<rparr>)"
      "node_repr bs (dest\<lparr>nd_data := d, nd_records := length ts, nd_key := 56 + copy_toc bs n (int (length ts)),
        nd_free := 56 + copy_toc bs n (int (length ts)) + key_bytes ts, nd_val := value_end bs dest - val_bytes ts\<rparr>) ts"
    by auto
  from that [OF d] show thesis using shape by (simp add: same_shape_def)
qed

lemma split_old_node_repr:
  assumes repr: "node_repr bs n rs" and fit: "records_fit bs n (take (kept rs) rs)"
  obtains n' where "split_old_node bs n = Inr n'" "node_repr bs n' (take (kept rs) rs)"
proof -
  let ?d = "n\<lparr>nd_records := 0, nd_key_free_list_len := 0, nd_val_free_list_len := 0\<rparr>" and ?ts = "take (kept rs) rs"
  have shape: "same_shape ?d n" by (simp add: same_shape_def)
  have "node_repr bs n ([] @ ?ts @ drop (kept rs) rs)" using repr by simp
  from copy_half_repr [OF this _ _ shape fit] obtain d where
    d: "apfs_copy_record_range bs ?d n 0 (int (kept rs)) = Inr d" "node_repr bs d ?ts"
    using node_repr_bounds(1) [OF repr] kept_le [of rs] by (auto simp: min_absorb2)
  then show thesis
    using that apfs_update_node_repr [OF d(2)] split_counts_repr [OF repr] by (auto simp: split_old_node_def)
qed

lemma split_new_node_repr:
  assumes repr: "node_repr bs n rs" and new: "int (length (nd_data new)) = bs"
    and fit: "records_fit bs n (drop (kept rs) rs)"
  obtains n' where "split_new_node bs n new = Inr n'" "node_repr bs n' (drop (kept rs) rs)"
    "nd_oid n' = nd_oid new" "nd_block_nr n' = nd_block_nr new"
proof -
  let ?d = "new_node_fields n new" and ?ts = "drop (kept rs) rs" and ?as = "take (kept rs) rs"
  have shape: "same_shape ?d n" by (simp add: same_shape_def new_node_fields_def)
  have "node_repr bs n (?as @ ?ts @ [])" using repr by simp
  from copy_half_repr [OF this _ _ shape fit] obtain d where
    d: "apfs_copy_record_range bs ?d n (int (kept rs)) (int (length rs)) = Inr d" "node_repr bs d ?ts"
      "nd_oid d = nd_oid new" "nd_block_nr d = nd_block_nr new"
    using new kept_le [of rs] by (auto simp: min_absorb2 new_node_fields_def)
  obtain d1 where d1: "copy_level (nd_data n) (nd_data d) = Inr d1" "node_repr bs (d\<lparr>nd_data := d1\<rparr>) ?ts"
    using copy_level_repr [OF d(2) node_repr_bounds(1) [OF repr]] .
  obtain d2 where "apfs_update_node (d\<lparr>nd_data := d1\<rparr>) = Inr (d\<lparr>nd_data := d2\<rparr>)" "node_repr bs (d\<lparr>nd_data := d2\<rparr>) ?ts"
    using apfs_update_node_repr [OF d1(2)] by auto
  then show thesis
    using that [of "d\<lparr>nd_data := d2\<rparr>"] d d1 split_counts_repr [OF repr] by (simp add: split_new_node_def)
qed

lemma child_key_repr:
  assumes "node_repr bs n ((k, v) # rs)" "k \<noteq> []"
  shows "child_key bs n = Inr k"
proof -
  obtain ko vo where "\<And>off. apfs_node_locate_key bs n (int 0) off = Inr (int (length k), ko)"
      "nd_key n \<le> ko" "ko + int (length k) \<le> nd_free n" "rd_bytes (nd_data n) ko (int (length k)) = Inr k"
      "\<And>off. apfs_node_locate_value bs n (int 0) off = Inr (int (length v), vo)"
      "rd_bytes (nd_data n) vo (int (length v)) = Inr v"
    by (rule node_repr_locate [OF assms(1), of 0 k v]) simp_all
  then show ?thesis using assms(2) by (simp add: child_key_def)
qed


section \<open>Freeing a range of a node\<close>

text \<open>The fields of a node that tell how its table of contents is read.\<close>

definition same_toc :: "apfs_node \<Rightarrow> apfs_node \<Rightarrow> bool" where
  "same_toc n' n \<longleftrightarrow> nd_tree_type n' = nd_tree_type n \<and> nd_flags n' = nd_flags n \<and> nd_key n' = nd_key n \<and>
     nd_records n' = nd_records n \<and> length (nd_data n') = length (nd_data n) \<and> nd_oid n' = nd_oid n \<and>
     nd_block_nr n' = nd_block_nr n"

lemma free_list_add_frame:
  assumes "int (length (nd_data n)) = bs" "56 \<le> bs" "4 \<le> len \<Longrightarrow> 56 \<le> off \<and> off + len \<le> bs"
  obtains n' where "apfs_node_free_list_add bs n off len = Inr n'" "same_toc n' n"
    "nd_free n' = nd_free n" "nd_val n' = nd_val n"
    "\<And>o' l. 56 \<le> o' \<Longrightarrow> o' + l \<le> off \<or> off + len \<le> o' \<Longrightarrow> rd_bytes (nd_data n') o' l = rd_bytes (nd_data n) o' l"
    "len < 4 \<Longrightarrow> nd_data n' = nd_data n"
proof (cases "len < 4")
  case True
  then show ?thesis
    by (intro that [of "if nd_val n \<le> off then n\<lparr>nd_val_free_list_len := nd_val_free_list_len n + len\<rparr>
          else n\<lparr>nd_key_free_list_len := nd_key_free_list_len n + len\<rparr>"])
      (simp_all add: apfs_node_free_list_add_def Let_def same_toc_def)
next
  case False
  define v where "v \<longleftrightarrow> nd_val n \<le> off"
  define n1 where "n1 = (if v then n\<lparr>nd_val_free_list_len := nd_val_free_list_len n + len\<rparr>
          else n\<lparr>nd_key_free_list_len := nd_key_free_list_len n + len\<rparr>)"
  define rel where "rel = (if v then apfs_off_to_val_off bs n off else apfs_off_to_key_off n off)"
  have n1: "nd_data n1 = nd_data n" "nd_free n1 = nd_free n" "nd_val n1 = nd_val n" "same_toc n1 n"
    by (simp_all add: n1_def same_toc_def)
  have h: "free_list_head v = 48 \<or> free_list_head v = 52" by (rule free_list_head_cases)
  have off: "56 \<le> off" "off + len \<le> bs" using assms(3) False by auto
  obtain ho where ho: "rd16 (nd_data n) (free_list_head v) = Inr ho"
    using rd_le_ok [of "free_list_head v" 2 "nd_data n"] h assms(1,2) by auto
  let ?fs = "[(off, le_field 2 (int ho)), (off + 2, le_field 2 len), (free_list_head v, le_field 2 rel)]"
  have "0 \<le> p \<and> p + int (length b) \<le> int (length (nd_data n))" if "(p, b) \<in> set ?fs" for p b
    using that off h assms(1,2) False by auto
  then obtain d where d: "store_fields (nd_data n) ?fs = Inr d" "length d = length (nd_data n)"
    using store_fields_in_bounds by metis
  have frame: "rd_bytes d o' l = rd_bytes (nd_data n) o' l" if "56 \<le> o'" "o' + l \<le> off \<or> off + len \<le> o'" for o' l
    using d(1) by (rule store_fields_frame) (use that off h False in auto)
  have "apfs_node_free_list_add bs n off len = Inr (n1\<lparr>nd_data := d\<rparr>)"
    unfolding apfs_node_free_list_add_def Let_def v_def [symmetric] n1_def [symmetric] rel_def [symmetric]
    using False ho d(1) n1(1) by simp
  then show ?thesis
    using n1 d(2) frame False by (intro that [of "n1\<lparr>nd_data := d\<rparr>"]) (simp_all add: same_toc_def)
qed

lemma free_range_frame:
  assumes "int (length (nd_data n)) = bs" "56 \<le> bs" "4 \<le> len \<Longrightarrow> 56 \<le> off \<and> off + len \<le> bs"
  obtains n' where "apfs_node_free_range bs n off len = Inr n'" "same_toc n' n"
    "nd_val n' = (if off = nd_val n then nd_val n + len else nd_val n)"
    "nd_free n' = (if off \<noteq> nd_val n \<and> off + len = nd_free n then nd_free n - len else nd_free n)"
    "\<And>o' l. 56 \<le> o' \<Longrightarrow> o' + l \<le> off \<or> off + len \<le> o' \<Longrightarrow> rd_bytes (nd_data n') o' l = rd_bytes (nd_data n) o' l"
    "len < 4 \<Longrightarrow> nd_data n' = nd_data n"
proof (cases "off = nd_val n \<or> off + len = nd_free n")
  case True
  then show ?thesis
    by (intro that [of "if off = nd_val n then n\<lparr>nd_val := nd_val n + len\<rparr> else n\<lparr>nd_free := nd_free n - len\<rparr>"])
      (auto simp: apfs_node_free_range_def same_toc_def)
next
  case False
  from free_list_add_frame [OF assms] obtain n' where "apfs_node_free_list_add bs n off len = Inr n'" "same_toc n' n"
    "nd_free n' = nd_free n" "nd_val n' = nd_val n"
    "\<And>o' l. 56 \<le> o' \<Longrightarrow> o' + l \<le> off \<or> off + len \<le> o' \<Longrightarrow> rd_bytes (nd_data n') o' l = rd_bytes (nd_data n) o' l"
    "len < 4 \<Longrightarrow> nd_data n' = nd_data n"
    by metis
  then show ?thesis using False that [of n'] by (simp add: apfs_node_free_range_def)
qed


section \<open>Removing a record\<close>

definition remove_at :: "nat \<Rightarrow> 'a list \<Rightarrow> 'a list" where
  "remove_at i xs = take i xs @ drop (Suc i) xs"

lemma length_remove_at [simp]: "i < length xs \<Longrightarrow> length (remove_at i xs) = length xs - 1"
  by (simp add: remove_at_def)

lemma nth_remove_at: "i < length xs \<Longrightarrow> j < length xs - 1 \<Longrightarrow> remove_at i xs ! j = xs ! (if j < i then j else Suc j)"
  by (simp add: remove_at_def nth_append min_absorb2)

lemma set_remove_at: "set (remove_at i xs) \<subseteq> set xs"
  by (auto simp: remove_at_def dest: in_set_takeD in_set_dropD)

text \<open>The key and the value of a record overlap no other record.\<close>

definition record_apart :: "int \<Rightarrow> apfs_node \<Rightarrow> nat \<Rightarrow> bool" where
  "record_apart bs n i \<longleftrightarrow> (\<forall>j < nd_records n. j \<noteq> i \<longrightarrow>
     (\<forall>kl ko kl' ko'. apfs_node_locate_key bs n (int i) 0 = Inr (kl, ko) \<and> apfs_node_locate_key bs n (int j) 0 = Inr (kl', ko') \<longrightarrow>
        0 < kl' \<and> (ko + kl \<le> ko' \<or> ko' + kl' \<le> ko)) \<and>
     (\<forall>vl vo vl' vo'. apfs_node_locate_value bs n (int i) 0 = Inr (vl, vo) \<and> apfs_node_locate_value bs n (int j) 0 = Inr (vl', vo') \<longrightarrow>
        vl = 0 \<or> vl' = 0 \<or> vo + vl \<le> vo' \<or> vo' + vl' \<le> vo))"

text \<open>The entry of the table of contents is taken out.\<close>

lemma toc_remove:
  assumes repr: "node_repr bs n rs" and i: "i < length rs"
  obtains d where "memmove (nd_data n) (56 + toc_entry_size n * int i) (56 + toc_entry_size n * int i + toc_entry_size n)
      ((int (length rs) - int i - 1) * toc_entry_size n) = Inr d" "length d = length (nd_data n)"
    "\<And>j. j < length rs - 1 \<Longrightarrow> rd_bytes d (56 + toc_entry_size n * int j) (toc_entry_size n) =
      toc_entry n (int (if j < i then j else Suc j))"
    "\<And>off l. nd_key n \<le> off \<Longrightarrow> rd_bytes d off l = rd_bytes (nd_data n) off l"
proof -
  let ?es = "toc_entry_size n" let ?p = "56 + ?es * int i" let ?len = "(int (length rs) - int i - 1) * ?es"
  note b = node_repr_bounds [OF repr]
  obtain c where c: "?es = c" "0 < c" by simp
  have l0: "0 \<le> ?len" using i c by (intro mult_nonneg_nonneg) auto
  have p0: "0 \<le> c * int i" using c by simp
  have top: "?p + ?es + ?len = 56 + ?es * int (length rs)" by (simp add: algebra_simps)
  obtain d where d: "memmove (nd_data n) ?p (?p + ?es) ?len = Inr d" "length d = length (nd_data n)"
    by (rule memmove_ok [of ?len ?p "nd_data n" "?p + ?es"]) (use l0 p0 top b c in auto)
  have toc: "rd_bytes d (56 + ?es * int j) ?es = toc_entry n (int (if j < i then j else Suc j))" if j: "j < length rs - 1" for j
  proof (cases "j < i")
    case True
    then have "c * (int j + 1) \<le> c * int i" using c by (intro mult_left_mono) auto
    then have "56 + ?es * int j + ?es \<le> ?p" using c by (simp add: algebra_simps)
    then show ?thesis
      using True rd_bytes_memmove_other [OF d(1) _ l0, of "56 + ?es * int j" ?es] by (simp add: toc_entry_def)
  next
    case False
    have "0 \<le> c * (int j - int i)" using False c by (intro mult_nonneg_nonneg) auto
    moreover have "c * (int j - int i + 1) \<le> c * (int (length rs) - int i - 1)" using j c by (intro mult_left_mono) auto
    ultimately have "rd_bytes d (?p + ?es * (int j - int i)) ?es = rd_bytes (nd_data n) (?p + ?es + ?es * (int j - int i)) ?es"
      using c by (intro rd_bytes_memmove_dst [OF d(1)]) (auto simp: algebra_simps)
    then show ?thesis using False by (simp add: toc_entry_def algebra_simps)
  qed
  have "rd_bytes d off l = rd_bytes (nd_data n) off l" if "nd_key n \<le> off" for off l
    by (rule rd_bytes_memmove_other [OF d(1) _ l0]) (use b(4) top c that in linarith)
  then show thesis using that [OF d toc] by blast
qed

text \<open>A record stays in place if the bytes of its key and its value do.\<close>

lemma entry_holds_kept:
  assumes holds: "entry_holds bs n e kv"
    and hdr: "nd_tree_type n' = nd_tree_type n" "nd_flags n' = nd_flags n" "nd_key n' = nd_key n"
    and keys: "\<And>ko. entry_key bs n e = (int (length (fst kv)), ko) \<Longrightarrow> ko + int (length (fst kv)) \<le> nd_free n' \<and>
      rd_bytes (nd_data n') ko (int (length (fst kv))) = rd_bytes (nd_data n) ko (int (length (fst kv)))"
    and vals: "\<And>vo. snd kv \<noteq> [] \<Longrightarrow> entry_val bs n e = (int (length (snd kv)), vo) \<Longrightarrow> nd_val n' \<le> vo \<and>
      rd_bytes (nd_data n') vo (int (length (snd kv))) = rd_bytes (nd_data n) vo (int (length (snd kv)))"
  shows "entry_holds bs n' e kv"
  using assms unfolding entry_holds_def entry_same_header [OF hdr] by (auto simp: hdr(3))


lemma entry_holds_records: "entry_holds bs (n\<lparr>nd_records := c\<rparr>) e kv = entry_holds bs n e kv"
proof -
  have "nd_tree_type (n\<lparr>nd_records := c\<rparr>) = nd_tree_type n" "nd_flags (n\<lparr>nd_records := c\<rparr>) = nd_flags n"
    "nd_key (n\<lparr>nd_records := c\<rparr>) = nd_key n" by simp_all
  from entry_same_header [OF this] show ?thesis by (simp add: entry_holds_def)
qed

lemma node_repr_entry:
  assumes repr: "node_repr bs n rs" and i: "i < length rs"
  obtains e ko vo where "toc_entry n (int i) = Inr e" "entry_holds bs n e (rs ! i)"
    "entry_key bs n e = (int (length (fst (rs ! i))), ko)" "nd_key n \<le> ko" "ko + int (length (fst (rs ! i))) \<le> nd_free n"
    "entry_val bs n e = (int (length (snd (rs ! i))), vo)"
    "snd (rs ! i) \<noteq> [] \<longrightarrow> nd_val n \<le> vo \<and> vo + int (length (snd (rs ! i))) \<le> value_end bs n"
    "apfs_node_locate_key bs n (int i) 0 = Inr (int (length (fst (rs ! i))), ko)"
    "apfs_node_locate_value bs n (int i) 0 = Inr (int (length (snd (rs ! i))), vo)"
proof -
  obtain e where e: "toc_entry n (int i) = Inr e" "entry_holds bs n e (rs ! i)"
    using repr i by (auto simp: node_repr_def)
  have "\<not> index_out_of_bounds n (int i)"
    using i node_repr_bounds(3) [OF repr] node_repr_records [OF repr] by (simp add: index_out_of_bounds_def to_u32_def)
  note loc = locate_key_entry [OF this e(1)] locate_value_entry [OF this e(1)]
  from e(2) show thesis unfolding entry_holds_def using e loc by (elim exE conjE) (rule that, auto)
qed

lemma free_record_repr:
  assumes repr: "node_repr bs n rs" and i: "i < length rs"
    and loc: "apfs_node_locate_key bs n (int i) 0 = Inr (kl, ko)" "apfs_node_locate_value bs n (int i) 0 = Inr (vl, vo)"
    and apart: "record_apart bs n i" and ne: "fst (rs ! i) \<noteq> []"
    and d: "length d = length (nd_data n)" "\<And>off l. nd_key n \<le> off \<Longrightarrow> rd_bytes d off l = rd_bytes (nd_data n) off l"
  obtains n1 n2 where "apfs_node_free_range bs (n\<lparr>nd_data := d\<rparr>) (to_u16 ko) (to_u16 kl) = Inr n1"
    "apfs_node_free_range bs n1 (to_u16 vo) (to_u16 vl) = Inr n2" "same_toc n2 n"
    "nd_key n \<le> nd_free n2" "nd_free n2 \<le> nd_val n2" "nd_val n2 \<le> value_end bs n"
    "\<forall>off l. 56 \<le> off \<longrightarrow> off + l \<le> nd_key n \<longrightarrow> rd_bytes (nd_data n2) off l = rd_bytes d off l"
    "\<forall>j e. j < length rs \<longrightarrow> j \<noteq> i \<longrightarrow> toc_entry n (int j) = Inr e \<longrightarrow> entry_holds bs n2 e (rs ! j)"
proof -
  note b = node_repr_bounds [OF repr] node_repr_key [OF repr] value_end_le [of bs n]
  obtain ko' vo' where r: "kl = int (length (fst (rs ! i)))" "nd_key n \<le> ko" "ko + kl \<le> nd_free n"
      "vl = int (length (snd (rs ! i)))" "snd (rs ! i) \<noteq> [] \<Longrightarrow> nd_val n \<le> vo \<and> vo + vl \<le> value_end bs n"
    using loc by (rule_tac node_repr_entry [OF repr i]) auto
  have kl0: "0 < kl" using ne r(1) by simp
  have "0 \<le> ko" "ko < 65536" "kl < 65536" using kl0 r(2,3) b by linarith+
  then have kl: "0 < kl" "to_u16 ko = ko" "to_u16 kl = kl"
    using kl0 by (simp_all add: to_u16_def)
  have v0: "0 < vl \<Longrightarrow> nd_val n \<le> vo \<and> vo + vl \<le> value_end bs n" "0 \<le> vl" using r(4,5) by auto
  have "vl < 65536" "0 < vl \<Longrightarrow> 0 \<le> vo \<and> vo < 65536" using v0 b by linarith+
  then have vl: "0 \<le> vl" "to_u16 vl = vl" "0 < vl \<Longrightarrow> to_u16 vo = vo \<and> nd_val n \<le> vo \<and> vo + vl \<le> value_end bs n"
    using v0 by (simp_all add: to_u16_def)
  let ?n0 = "n\<lparr>nd_data := d\<rparr>"
  obtain n1 where n1: "apfs_node_free_range bs ?n0 ko kl = Inr n1" "same_toc n1 ?n0" "nd_val n1 = nd_val n"
      "nd_free n1 = (if ko + kl = nd_free n then nd_free n - kl else nd_free n)"
      "\<And>o' l. 56 \<le> o' \<Longrightarrow> o' + l \<le> ko \<or> ko + kl \<le> o' \<Longrightarrow> rd_bytes (nd_data n1) o' l = rd_bytes d o' l"
    by (rule free_range_frame [of ?n0 bs kl ko]) (use b d(1) r kl in \<open>auto split: if_splits\<close>)
  let ?v = "to_u16 vo"
  obtain n2 where n2: "apfs_node_free_range bs n1 ?v vl = Inr n2" "same_toc n2 n1"
      "nd_val n2 = (if ?v = nd_val n1 then nd_val n1 + vl else nd_val n1)"
      "nd_free n2 = (if ?v \<noteq> nd_val n1 \<and> ?v + vl = nd_free n1 then nd_free n1 - vl else nd_free n1)"
      "\<And>o' l. 56 \<le> o' \<Longrightarrow> o' + l \<le> ?v \<or> ?v + vl \<le> o' \<Longrightarrow> rd_bytes (nd_data n2) o' l = rd_bytes (nd_data n1) o' l"
      "vl < 4 \<Longrightarrow> nd_data n2 = nd_data n1"
  proof (rule free_range_frame [of n1 bs vl ?v])
    show "int (length (nd_data n1)) = bs" using n1(2) d(1) b(1) by (simp add: same_toc_def)
    show "56 \<le> bs" using b by linarith
    show "56 \<le> ?v \<and> ?v + vl \<le> bs" if "4 \<le> vl" using vl(3) that b by auto
  qed blast
  have toc: "same_toc n2 n" using n1(2) n2(2) d(1) by (simp add: same_toc_def)
  have free1: "nd_key n \<le> nd_free n1" "nd_free n1 \<le> nd_free n" using n1(4) r kl(1) by auto
  have val2: "nd_val n \<le> nd_val n2" "nd_val n2 \<le> value_end bs n" using n2(3) n1(3) vl b by (cases "vl = 0"; auto split: if_splits)+
  have free2: "nd_free n2 = nd_free n1" using n2(4) n1(3) vl free1 b by (cases "vl = 0") auto
  have low: "rd_bytes (nd_data n2) off l = rd_bytes d off l" if "56 \<le> off" "off + l \<le> nd_free n" "off + l \<le> ko \<or> ko + kl \<le> off" for off l
  proof -
    have "rd_bytes (nd_data n2) off l = rd_bytes (nd_data n1) off l"
    proof (cases "vl = 0")
      case True
      then show ?thesis using n2(6) by simp
    next
      case False
      then show ?thesis using n2(5) [OF that(1), of l] vl that(2) b by auto
    qed
    then show ?thesis using n1(5) [OF that(1,3)] by simp
  qed
  have high: "rd_bytes (nd_data n2) off l = rd_bytes d off l" if "nd_val n \<le> off" "vl = 0 \<or> off + l \<le> vo \<or> vo + vl \<le> off" for off l
  proof -
    have o56: "56 \<le> off" using that b by linarith
    have "rd_bytes (nd_data n2) off l = rd_bytes (nd_data n1) off l"
    proof (cases "vl = 0")
      case True
      then show ?thesis using n2(6) by simp
    next
      case False
      then show ?thesis using n2(5) [OF o56, of l] vl that(2) by auto
    qed
    then show ?thesis using n1(5) [OF o56, of l] r(3) that(1) b by simp
  qed
  have other: "entry_holds bs n2 e (rs ! j)" if j: "j < length rs" "j \<noteq> i" "toc_entry n (int j) = Inr e" for j e
  proof -
    obtain e' ko' vo' where e': "toc_entry n (int j) = Inr e'" "entry_holds bs n e' (rs ! j)"
        "entry_key bs n e' = (int (length (fst (rs ! j))), ko')"
        "nd_key n \<le> ko'" "ko' + int (length (fst (rs ! j))) \<le> nd_free n" "entry_val bs n e' = (int (length (snd (rs ! j))), vo')"
        "snd (rs ! j) \<noteq> [] \<longrightarrow> nd_val n \<le> vo' \<and> vo' + int (length (snd (rs ! j))) \<le> value_end bs n"
        "apfs_node_locate_key bs n (int j) 0 = Inr (int (length (fst (rs ! j))), ko')"
        "apfs_node_locate_value bs n (int j) 0 = Inr (int (length (snd (rs ! j))), vo')"
      by (rule node_repr_entry [OF repr j(1)])
    have "e' = e" using e'(1) j(3) by simp
    note e = e'(2-9) [unfolded this]
    have k: "0 < int (length (fst (rs ! j)))" "ko + kl \<le> ko' \<or> ko' + int (length (fst (rs ! j))) \<le> ko"
      and v: "vl = 0 \<or> snd (rs ! j) = [] \<or> vo + vl \<le> vo' \<or> vo' + int (length (snd (rs ! j))) \<le> vo"
    proof -
      have "j < nd_records n" using j(1) b(3) by simp
      note a = apart [unfolded record_apart_def, rule_format, OF this j(2)]
      show "0 < int (length (fst (rs ! j)))" "ko + kl \<le> ko' \<or> ko' + int (length (fst (rs ! j))) \<le> ko"
        using conjunct1 [OF a, rule_format, of kl ko "int (length (fst (rs ! j)))" ko'] loc(1) e(7) by simp_all
      show "vl = 0 \<or> snd (rs ! j) = [] \<or> vo + vl \<le> vo' \<or> vo' + int (length (snd (rs ! j))) \<le> vo"
        using conjunct2 [OF a, rule_format, of vl vo "int (length (snd (rs ! j)))" vo'] loc(2) e(8) by simp
    qed
    show ?thesis
    proof (rule entry_holds_kept [OF e(1)])
      show "nd_tree_type n2 = nd_tree_type n" "nd_flags n2 = nd_flags n" "nd_key n2 = nd_key n"
        using toc by (simp_all add: same_toc_def)
      show "x + int (length (fst (rs ! j))) \<le> nd_free n2 \<and>
          rd_bytes (nd_data n2) x (int (length (fst (rs ! j)))) = rd_bytes (nd_data n) x (int (length (fst (rs ! j))))"
        if "entry_key bs n e = (int (length (fst (rs ! j))), x)" for x
      proof -
        have x: "x = ko'" using that e(2) by simp
        have "x + int (length (fst (rs ! j))) \<le> nd_free n2"
          using free2 n1(4) e(4) k kl(1) unfolding x by (cases "ko + kl = nd_free n"; simp only: if_True if_False simp_thms; linarith)
        then show ?thesis using low [of x "int (length (fst (rs ! j)))"] d(2) [of x] e(3,4) k(2) b x by auto
      qed
      show "nd_val n2 \<le> x \<and>
          rd_bytes (nd_data n2) x (int (length (snd (rs ! j)))) = rd_bytes (nd_data n) x (int (length (snd (rs ! j))))"
        if "snd (rs ! j) \<noteq> []" "entry_val bs n e = (int (length (snd (rs ! j))), x)" for x
      proof -
        have x: "x = vo'" using that e(5) by simp
        have len: "0 < int (length (snd (rs ! j)))" using that(1) by simp
        have "nd_val n2 \<le> x"
          using n2(3) n1(3) e(6) [rule_format, OF that(1)] v that(1) vl x len
          by (cases "vl = 0"; cases "vo = nd_val n"; cases "vo + vl \<le> vo'"; simp; linarith)
        then show ?thesis
          using high [of x "int (length (snd (rs ! j)))"] d(2) [of x] e(6) [rule_format, OF that(1)] v that(1) b x by auto
      qed
    qed
  qed
  show thesis
    by (rule that [of n1 n2]) (use n1 n2 kl vl toc free1 free2 val2 b low other r in auto)
qed


text \<open>A node without records is described by the bounds of its areas alone.\<close>

lemma node_repr_empty:
  assumes "int (length (nd_data n)) = bs" "bs \<le> 65536" "nd_records n = 0" "56 \<le> nd_key n" "nd_key n \<le> nd_free n"
    "nd_free n \<le> nd_val n" "nd_val n \<le> value_end bs n"
  shows "node_repr bs n []"
  using assms by (simp add: node_repr_def)

lemma value_end_leaf: "value_end bs (n\<lparr>nd_flags := nd_flags n OR APFS_BTNODE_LEAF\<rparr>) = value_end bs n"
proof -
  have "(nd_flags n OR 2) AND 1 = nd_flags n AND 1" by (rule bit_eqI) (auto simp: bit_simps bit_1_iff)
  then show ?thesis by (simp add: value_end_def apfs_node_is_root_def node_flags)
qed

lemma node_remove_repr:
  assumes repr: "node_repr bs (q_node q) rs" and i: "q_index q = int i" "i < length rs"
    and loc: "apfs_node_locate_key bs (q_node q) (int i) 0 = Inr (q_key_len q, q_key_off q)"
      "apfs_node_locate_value bs (q_node q) (int i) 0 = Inr (q_len q, q_off q)"
    and apart: "record_apart bs (q_node q) i" and ne: "fst (rs ! i) \<noteq> []"
  obtains q' where "node_remove bs (int (length rs) - int i - 1) q = Inr q'" "q_index q' = int i - 1"
    "node_repr bs (q_node q') (remove_at i rs)"
proof -
  let ?n = "q_node q" let ?es = "toc_entry_size ?n"
  note b = node_repr_bounds [OF repr] node_repr_key [OF repr]
  obtain d where d: "memmove (nd_data ?n) (56 + ?es * int i) (56 + ?es * int i + ?es)
      ((int (length rs) - int i - 1) * ?es) = Inr d" "length d = length (nd_data ?n)"
    "\<And>j. j < length rs - 1 \<Longrightarrow> rd_bytes d (56 + ?es * int j) ?es = toc_entry ?n (int (if j < i then j else Suc j))"
    "\<And>off l. nd_key ?n \<le> off \<Longrightarrow> rd_bytes d off l = rd_bytes (nd_data ?n) off l"
    by (rule toc_remove [OF repr i(2)]) blast
  obtain n1 n2 :: apfs_node where n2: "apfs_node_free_range bs (?n\<lparr>nd_data := d\<rparr>) (to_u16 (q_key_off q)) (to_u16 (q_key_len q)) = Inr n1"
    "apfs_node_free_range bs n1 (to_u16 (q_off q)) (to_u16 (q_len q)) = Inr n2" "same_toc n2 ?n"
    "nd_key ?n \<le> nd_free n2" "nd_free n2 \<le> nd_val n2" "nd_val n2 \<le> value_end bs ?n"
    "\<forall>off l. 56 \<le> off \<longrightarrow> off + l \<le> nd_key ?n \<longrightarrow> rd_bytes (nd_data n2) off l = rd_bytes d off l"
    "\<forall>j e. j < length rs \<longrightarrow> j \<noteq> i \<longrightarrow> toc_entry ?n (int j) = Inr e \<longrightarrow> entry_holds bs n2 e (rs ! j)"
    by (rule free_record_repr [OF repr i(2) loc apart ne d(2)]) (rule d(4))
  define n3 where "n3 = n2\<lparr>nd_records := length rs - 1\<rparr>"
  have hdr: "nd_tree_type n3 = nd_tree_type ?n" "nd_flags n3 = nd_flags ?n" "nd_key n3 = nd_key ?n"
    and len3: "int (length (nd_data n3)) = bs"
    using n2(3) b(1) by (simp_all add: n3_def same_toc_def)
  have recs: "to_u32 (int (nd_records n2) - 1) = int (length rs - 1)"
  proof -
    have "nd_records n2 = length rs" using n2(3) b(3) by (simp add: same_toc_def)
    moreover have "(int (length rs) - 1) mod 4294967296 = int (length rs) - 1"
      using i(2) node_repr_records [OF repr] by (intro mod_pos_pos_trivial) auto
    ultimately show ?thesis using i(2) by (simp add: to_u32_def)
  qed
  have "\<exists>e. toc_entry n3 (int j) = Inr e \<and> entry_holds bs n3 e (remove_at i rs ! j)" if j: "j < length rs - 1" for j
  proof -
    let ?j = "if j < i then j else Suc j"
    have j': "?j < length rs" "?j \<noteq> i" using j by auto
    obtain e where e: "toc_entry ?n (int ?j) = Inr e" using repr j'(1) by (auto simp: node_repr_def)
    have "?es * (int j + 1) \<le> ?es * int (length rs)" using j by (intro mult_left_mono) auto
    then have "56 + ?es * int j + ?es \<le> nd_key ?n" using b(4) by (simp add: algebra_simps)
    moreover have "0 \<le> ?es * int j" by (rule toc_bytes_nonneg)
    ultimately have "toc_entry n3 (int j) = toc_entry ?n (int ?j)"
      using n2(7) [rule_format, of "56 + ?es * int j" ?es] d(3) [OF j]
      by (simp add: toc_entry_def entry_same_header [OF hdr]) (simp add: n3_def)
    moreover have "entry_holds bs n3 e (rs ! ?j)"
      using n2(8) [rule_format, OF j' e] by (simp only: n3_def entry_holds_records)
    ultimately show ?thesis using e nth_remove_at [OF i(2) j] by auto
  qed
  moreover have "56 + ?es * int (length rs - 1) \<le> nd_key ?n"
  proof -
    have "?es * int (length rs - 1) \<le> ?es * int (length rs)"
      using toc_bytes_nonneg [of ?n 1] by (intro mult_left_mono) auto
    then show ?thesis using b(4) by linarith
  qed
  moreover have "fits_kind n3 r" if "r \<in> set (remove_at i rs)" for r
    using b(9) [OF subsetD [OF set_remove_at that]] by (simp only: entry_same_header [OF hdr])
  ultimately have repr3: "node_repr bs n3 (remove_at i rs)"
    unfolding node_repr_def entry_same_header [OF hdr] using n2(4-6) len3 b(2) i(2) hdr(3) by (auto simp: n3_def)
  have run: "node_remove bs (int (length rs) - int i - 1) q =
      bind_res (if length rs - 1 = 0
                then bind_res (wr16 (nd_data n3) 34 0) (\<lambda>raw. Inr (n3\<lparr>nd_data := raw, nd_flags := nd_flags n3 OR APFS_BTNODE_LEAF\<rparr>))
                else Inr n3) (\<lambda>node.
      bind_res (apfs_update_node node) (\<lambda>node. Inr (q\<lparr>q_node := node, q_index := int i - 1\<rparr>)))"
    unfolding node_remove_def Let_def using d(1) n2(1,2) i(1) recs by (simp add: n3_def nat_diff_distrib')
  obtain n4 where n4: "(if length rs - 1 = 0
                then bind_res (wr16 (nd_data n3) 34 0) (\<lambda>raw. Inr (n3\<lparr>nd_data := raw, nd_flags := nd_flags n3 OR APFS_BTNODE_LEAF\<rparr>))
                else Inr n3) = Inr n4" "node_repr bs n4 (remove_at i rs)"
  proof (cases "length rs - 1 = 0")
    case True
    then have empty: "remove_at i rs = []" using i(2) by (simp add: remove_at_def)
    obtain raw where raw: "wr16 (nd_data n3) 34 0 = Inr raw" "length raw = length (nd_data n3)"
      using wr_le_ok [of 34 2 "nd_data n3" 0] len3 b by (auto simp: wr_le_def memcpy_length)
    let ?n4 = "n3\<lparr>nd_data := raw, nd_flags := nd_flags n3 OR APFS_BTNODE_LEAF\<rparr>"
    have ve: "value_end bs ?n4 = value_end bs ?n"
      using value_end_leaf [of bs n3] entry_same_header(4) [OF hdr] by (simp add: value_end_def apfs_node_is_root_def)
    have "node_repr bs ?n4 []"
      by (rule node_repr_empty) (use ve raw len3 b n2(4-6) True hdr(3) in \<open>auto simp: n3_def\<close>)
    then show ?thesis using that [of ?n4] True raw empty by simp
  qed (use repr3 that in simp)
  obtain d5 where "apfs_update_node n4 = Inr (n4\<lparr>nd_data := d5\<rparr>)" "node_repr bs (n4\<lparr>nd_data := d5\<rparr>) (remove_at i rs)"
    using apfs_update_node_repr [OF n4(2)] by blast
  then show thesis
    using that [of "q\<lparr>q_node := n4\<lparr>nd_data := d5\<rparr>, q_index := int i - 1\<rparr>"] run n4(1) by simp
qed


section \<open>The identity of a node\<close>

text \<open>The fields that no change of the records of a node touches.\<close>

definition same_ident :: "apfs_node \<Rightarrow> apfs_node \<Rightarrow> bool" where
  "same_ident n' n \<longleftrightarrow> nd_tree_type n' = nd_tree_type n \<and> nd_flags n' = nd_flags n \<and>
     nd_oid n' = nd_oid n \<and> nd_block_nr n' = nd_block_nr n"

lemma same_ident_refl [simp]: "same_ident n n"
  by (simp add: same_ident_def)

lemma same_ident_trans: "same_ident n' n \<Longrightarrow> same_ident n n0 \<Longrightarrow> same_ident n' n0"
  by (simp add: same_ident_def)

lemma same_ident_root: "same_ident n' n \<Longrightarrow> apfs_node_is_root n' = apfs_node_is_root n"
  by (simp add: same_ident_def apfs_node_is_root_def)

lemma apfs_update_node_ident: "apfs_update_node n = Inr n' \<Longrightarrow> same_ident n' n"
  by (auto simp: apfs_update_node_def bind_res_eq_Inr Let_def same_ident_def)

lemma create_toc_entry_ident: "apfs_create_toc_entry bs q = Inr q' \<Longrightarrow> same_ident (q_node q') (q_node q)"
  by (auto simp: apfs_create_toc_entry_def bind_res_eq_Inr Let_def same_ident_def)

lemma free_list_add_ident: "apfs_node_free_list_add bs n off len = Inr n' \<Longrightarrow> same_ident n' n"
  by (auto simp: apfs_node_free_list_add_def bind_res_eq_Inr Let_def same_ident_def split: if_splits)

lemma free_range_ident: "apfs_node_free_range bs n off len = Inr n' \<Longrightarrow> same_ident n' n"
  by (auto simp: apfs_node_free_range_def same_ident_def free_list_add_ident [unfolded same_ident_def] split: if_splits)

lemma free_list_loop_ident: "free_list_loop bound bs n len in_vals prev = Inr (off, n') \<Longrightarrow> same_ident n' n"
proof (induction bound arbitrary: prev)
  case (Suc bound)
  then show ?case
    by (auto simp: bind_res_eq_Inr Let_def same_ident_def split: if_splits
        dest!: free_list_add_ident [unfolded same_ident_def])
qed simp

lemma alloc_ident:
  "apfs_node_alloc_key bs n len = Inr (off, n') \<Longrightarrow> same_ident n' n"
  "apfs_node_alloc_val bs n len = Inr (off, n') \<Longrightarrow> same_ident n' n"
  by (auto simp: apfs_node_alloc_key_def apfs_node_alloc_val_def apfs_node_free_list_alloc_def split: if_splits
      dest: free_list_loop_ident) (simp_all add: same_ident_def)

lemma copy_record_loop_ident:
  "copy_record_loop bs src start i stop q = Inr q' \<Longrightarrow> same_ident (q_node q') (q_node q)"
proof (induction "nat (stop - i)" arbitrary: i q)
  case 0
  then show ?case by (simp add: copy_record_loop.simps)
next
  case (Suc n)
  have "n = nat (stop - (i + 1))" using Suc(2) by linarith
  note ih = Suc(1) [OF this, unfolded same_ident_def]
  from Suc(3) show ?case
    unfolding copy_record_loop.simps [of bs src start i stop q]
    by (auto simp: bind_res_eq_Inr Let_def same_ident_def split: if_splits
        dest!: create_toc_entry_ident [unfolded same_ident_def] ih)
qed

lemma defragment_ident: "apfs_defragment_node bs n = Inr n' \<Longrightarrow> same_ident n' n"
  by (auto simp: apfs_defragment_node_def apfs_copy_record_range_def bind_res_eq_Inr Let_def apfs_alloc_query_def same_ident_def
      dest!: apfs_update_node_ident [unfolded same_ident_def] copy_record_loop_ident [unfolded same_ident_def])

lemma node_insert_finish_ident: "node_insert_finish bs q k ko v vo = Inr q' \<Longrightarrow> same_ident (q_node q') (q_node q)"
  by (auto simp: node_insert_finish_def bind_res_eq_Inr Let_def same_ident_def
      dest!: apfs_update_node_ident [unfolded same_ident_def] create_toc_entry_ident [unfolded same_ident_def])

lemma node_insert_try_cases:
  assumes "node_insert_try bs defrag k val q = Inr q'"
  obtains (defrag) q1 where "defrag q1 = Inr q'" "same_ident (q_node q1) (q_node q)"
  | (finish) q1 ko v vo where "node_insert_finish bs q1 k ko v vo = Inr q'" "same_ident (q_node q1) (q_node q)"
proof -
  define query where "query = (if toc_full (q_node q) then node_expand_toc q else Inr q)"
  have same: "same_ident (q_node q1) (q_node q)" if "query = Inr q1" for q1
    using that by (auto simp: query_def node_expand_toc_def bind_res_eq_Inr Let_def same_ident_def split: if_splits)
  consider "defrag q = Inr q'" | q1 where "query = Inr q1"
      "(case apfs_node_alloc_key bs (q_node q1) (to_u16 (int (length k))) of
              Inl e \<Rightarrow> if e = ENOSPC then defrag q1 else Inl e
            | Inr (key_off, node') \<Rightarrow>
                (case val of
                   None \<Rightarrow> node_insert_finish bs (q1\<lparr>q_node := node'\<rparr>) k key_off None 0
                 | Some v \<Rightarrow>
                     (case apfs_node_alloc_val bs node' (to_u16 (int (length v))) of
                        Inl e \<Rightarrow> if e = ENOSPC then defrag (q1\<lparr>q_node := node'\<rparr>) else Inl e
                      | Inr (val_off, node) \<Rightarrow>
                          node_insert_finish bs (q1\<lparr>q_node := node', q_node := node\<rparr>) k key_off (Some v) val_off))) = Inr q'"
    using assms unfolding node_insert_try_def Let_def query_def [symmetric]
    by (cases "toc_full (q_node q) \<and> nd_free (q_node q) + 8 * toc_entry_size (q_node q) > nd_val (q_node q)")
      (auto simp: bind_res_eq_Inr)
  then show thesis
  proof cases
    case 1
    then show thesis using defrag by simp
  next
    case (2 q1)
    note s1 = same [OF 2(1)]
    show thesis
    proof (cases "apfs_node_alloc_key bs (q_node q1) (to_u16 (int (length k)))")
      case (Inl e)
      then show thesis using 2(2) defrag [OF _ s1] by (simp split: if_splits)
    next
      case (Inr r)
      obtain ko n where r: "r = (ko, n)" by (cases r)
      then have sn: "same_ident n (q_node q)" using same_ident_trans [OF alloc_ident(1) s1] Inr by simp
      show thesis
      proof (cases val)
        case None
        then show thesis using 2(2) Inr r finish sn by simp
      next
        case (Some v)
        show thesis
        proof (cases "apfs_node_alloc_val bs n (to_u16 (int (length v)))")
          case (Inl e)
          then show thesis using 2(2) Inr r Some defrag [of "q1\<lparr>q_node := n\<rparr>"] sn by (simp split: if_splits)
        next
          case Inr': (Inr r')
          obtain vo n' where r': "r' = (vo, n')" by (cases r')
          have "same_ident n' (q_node q)" using same_ident_trans [OF alloc_ident(2) sn] Inr' r' by simp
          then show thesis using 2(2) Inr r Some Inr' r' finish [of "q1\<lparr>q_node := n, q_node := n'\<rparr>"] by simp
        qed
      qed
    qed
  qed
qed

lemma node_insert_try_ident:
  assumes "node_insert_try bs defrag k val q = Inr q'"
    "\<And>q q'. defrag q = Inr q' \<Longrightarrow> same_ident (q_node q') (q_node q)"
  shows "same_ident (q_node q') (q_node q)"
  using assms(1)
proof (cases rule: node_insert_try_cases)
  case (defrag q1)
  then show ?thesis using assms(2) same_ident_trans by blast
next
  case (finish q1 ko v vo)
  then show ?thesis using node_insert_finish_ident same_ident_trans by blast
qed

lemma apfs_node_insert_ident:
  assumes "apfs_node_insert bs q k val = Inr q'"
  shows "same_ident (q_node q') (q_node q)"
  using assms unfolding apfs_node_insert_def
proof (rule node_insert_try_ident)
  fix q q'
  assume "bind_res (apfs_defragment_node bs (q_node q)) (\<lambda>node. node_insert_try bs (\<lambda>_. Inl EFSCORRUPTED) k val (q\<lparr>q_node := node\<rparr>)) = Inr q'"
  then obtain n where n: "apfs_defragment_node bs (q_node q) = Inr n"
      "node_insert_try bs (\<lambda>_. Inl EFSCORRUPTED) k val (q\<lparr>q_node := n\<rparr>) = Inr q'"
    by (auto simp: bind_res_eq_Inr)
  from n(2) have "same_ident (q_node q') (q_node (q\<lparr>q_node := n\<rparr>))" by (rule node_insert_try_ident) simp
  with defragment_ident [OF n(1)] show "same_ident (q_node q') (q_node q)" by (auto intro: same_ident_trans)
qed

lemma node_remove_ident:
  assumes "node_remove bs later q = Inr q'"
  shows "nd_oid (q_node q') = nd_oid (q_node q)" "apfs_node_is_root (q_node q') = apfs_node_is_root (q_node q)"
proof -
  have root: "(f OR 2) AND 1 = f AND 1" for f :: u16 by (rule bit_eqI) (auto simp: bit_simps bit_1_iff)
  have "nd_oid (q_node q') = nd_oid (q_node q) \<and> apfs_node_is_root (q_node q') = apfs_node_is_root (q_node q)"
    using assms unfolding node_remove_def Let_def
    by (auto simp: bind_res_eq_Inr same_ident_def apfs_node_is_root_def node_flags root split: if_splits
        dest!: free_range_ident [unfolded same_ident_def] apfs_update_node_ident [unfolded same_ident_def])
  then show "nd_oid (q_node q') = nd_oid (q_node q)" "apfs_node_is_root (q_node q') = apfs_node_is_root (q_node q)" by simp_all
qed

section \<open>The footer of the root\<close>

lemma node_repr_vals_frame:
  assumes repr: "node_repr bs n rs" and len: "length d = length (nd_data n)"
    and same: "\<And>off l. 56 \<le> off \<Longrightarrow> off + l \<le> value_end bs n \<Longrightarrow> rd_bytes d off l = rd_bytes (nd_data n) off l"
  shows "node_repr bs (n\<lparr>nd_data := d\<rparr>) rs"
proof -
  let ?n = "n\<lparr>nd_data := d\<rparr>"
  note b = node_repr_bounds [OF repr] node_repr_key [OF repr]
  have hdr: "nd_tree_type ?n = nd_tree_type n" "nd_flags ?n = nd_flags n" "nd_key ?n = nd_key n" by simp_all
  have "\<exists>e. toc_entry ?n (int i) = Inr e \<and> entry_holds bs ?n e (rs ! i)" if i: "i < length rs" for i
  proof -
    obtain e ko vo where e: "toc_entry n (int i) = Inr e" "entry_holds bs n e (rs ! i)"
      "entry_key bs n e = (int (length (fst (rs ! i))), ko)" "nd_key n \<le> ko" "ko + int (length (fst (rs ! i))) \<le> nd_free n"
      "entry_val bs n e = (int (length (snd (rs ! i))), vo)"
      "snd (rs ! i) \<noteq> [] \<longrightarrow> nd_val n \<le> vo \<and> vo + int (length (snd (rs ! i))) \<le> value_end bs n"
      by (rule node_repr_entry [OF repr i])
    have "toc_entry_size n * (int i + 1) \<le> toc_entry_size n * int (length rs)" using i by (intro mult_left_mono) auto
    then have "56 + toc_entry_size n * int i + toc_entry_size n \<le> nd_key n" using b(4) by (simp add: algebra_simps)
    moreover have "0 \<le> toc_entry_size n * int i" by (rule toc_bytes_nonneg)
    ultimately have "toc_entry ?n (int i) = toc_entry n (int i)"
      unfolding toc_entry_def entry_same_header [OF hdr] using b by (simp add: same)
    moreover have "entry_holds bs ?n e (rs ! i)"
      by (rule entry_holds_kept [OF e(2) hdr]) (use e b same in auto)
    ultimately show ?thesis using e(1) by auto
  qed
  then show ?thesis
    using repr len unfolding node_repr_def entry_same_header [OF hdr] by auto
qed

lemma rec_count_repr:
  assumes repr: "node_repr bs (q_node q) rs" and root: "apfs_node_is_root (q_node q)"
  obtains d where "apfs_btree_change_rec_count bs [q] change kl vl = Inr [q\<lparr>q_node := (q_node q)\<lparr>nd_data := d\<rparr>\<rparr>]"
    "node_repr bs ((q_node q)\<lparr>nd_data := d\<rparr>) rs"
proof -
  let ?n = "q_node q" let ?i = "bs - 40"
  note b = node_repr_bounds [OF repr] node_repr_key [OF repr]
  have ve: "value_end bs ?n = bs - 40" using root by (simp add: value_end_def)
  have i: "56 \<le> ?i" "?i + 40 \<le> bs" using b ve by linarith+
  have step: "\<exists>d'. (if c then wr_le k d off x else Inr d) = Inr d' \<and> length d' = length d \<and>
      (\<forall>o' l. o' + l \<le> ?i \<longrightarrow> rd_bytes d' o' l = rd_bytes d o' l)"
    if "int (length d) = bs" "?i \<le> off" "off + int k \<le> bs" for d c k off x
  proof (cases c)
    case True
    have "0 \<le> off" "off + int k \<le> int (length d)" using that i by linarith+
    from wr_le_ok [OF this] obtain d' where d': "wr_le k d off x = Inr d'" by blast
    then show ?thesis
      using True rd_bytes_wr_le_other [OF d'] that(2) by (auto simp: wr_le_def memcpy_length)
  qed simp
  obtain lk where lk: "rd32 (nd_data ?n) (?i + 16) = Inr lk" using rd_le_ok [of "?i + 16" 4 "nd_data ?n"] b i by auto
  obtain d1 where d1: "(if to_u32 kl > int lk then wr32 (nd_data ?n) (?i + 16) kl else Inr (nd_data ?n)) = Inr d1"
      "length d1 = length (nd_data ?n)" "\<forall>o' l. o' + l \<le> ?i \<longrightarrow> rd_bytes d1 o' l = rd_bytes (nd_data ?n) o' l"
    using step [of "nd_data ?n" "?i + 16" 4 "to_u32 kl > int lk" kl] b by auto
  obtain lv where lv: "rd32 d1 (?i + 20) = Inr lv" using rd_le_ok [of "?i + 20" 4 d1] b i d1(2) by auto
  obtain d2 where d2: "(if to_u32 vl > int lv then wr32 d1 (?i + 20) vl else Inr d1) = Inr d2"
      "length d2 = length d1" "\<forall>o' l. o' + l \<le> ?i \<longrightarrow> rd_bytes d2 o' l = rd_bytes d1 o' l"
    using step [of d1 "?i + 20" 4 "to_u32 vl > int lv" vl] b d1(2) by auto
  obtain c where c: "rd64 d2 (?i + 24) = Inr c" using rd_le_ok [of "?i + 24" 8 d2] b i d1(2) d2(2) by auto
  obtain d3 where d3: "wr64 d2 (?i + 24) (int c + change) = Inr d3"
      "length d3 = length d2" "\<forall>o' l. o' + l \<le> ?i \<longrightarrow> rd_bytes d3 o' l = rd_bytes d2 o' l"
    using step [of d2 "?i + 24" 8 True "int c + change"] b d1(2) d2(2) by auto
  have "apfs_btree_change_rec_count bs [q] change kl vl = Inr [q\<lparr>q_node := ?n\<lparr>nd_data := d3\<rparr>\<rparr>]"
    unfolding apfs_btree_change_rec_count_def update_root_def Let_def
    by (simp only: last.simps butlast.simps if_True refl lk d1(1) lv d2(1) c d3(1) le64_add_cpu_def bind_res_Inr append_Nil)
  moreover have "node_repr bs (?n\<lparr>nd_data := d3\<rparr>) rs"
    by (rule node_repr_vals_frame [OF repr]) (use d1 d2 d3 ve in auto)
  ultimately show thesis by (rule that)
qed


section \<open>A tree that is one leaf\<close>

lemma eph_put_twice [simp]: "eph_put oid a (eph_put oid b l) = eph_put oid a l"
  by (induction l) auto

lemma put_node_twice:
  assumes "t_storage ops = APFS_OBJ_EPHEMERAL" "nd_oid n = nd_oid m"
  shows "put_node ops n (put_node ops m fs) = put_node ops n fs"
  using assms by (simp add: put_node_def Let_def)

lemma put_node_bs [simp]: "fs_bs (put_node ops n fs) = fs_bs fs"
  by (simp add: put_node_def Let_def)

lemma eph_join_repr:
  assumes "t_storage ops = APFS_OBJ_EPHEMERAL" "node_repr bs (q_node q) rs"
  obtains d where "join_node ops q fs =
      Some (Inr (q\<lparr>q_node := (q_node q)\<lparr>nd_data := d\<rparr>\<rparr>, False, put_node ops ((q_node q)\<lparr>nd_data := d\<rparr>) fs))"
    "node_repr bs ((q_node q)\<lparr>nd_data := d\<rparr>) rs"
proof -
  note b = node_repr_bounds [OF assms(2)] node_repr_key [OF assms(2)]
  obtain d where d: "wr64 (nd_data (q_node q)) 16 (uint (fs_xid fs)) = Inr d"
    using wr_le_ok [of 16 8 "nd_data (q_node q)" "uint (fs_xid fs)"] b by auto
  then show thesis
    using that node_repr_header_write [OF assms(2) d] assms(1) by (simp add: join_node_def Let_def)
qed

lemma toc_data [simp]:
  "toc_full (n\<lparr>nd_data := d\<rparr>) = toc_full n" "toc_entry_size (n\<lparr>nd_data := d\<rparr>) = toc_entry_size n"
  by (simp_all add: toc_full_def toc_entry_size_def apfs_node_has_fixed_kv_size_def)

lemma has_room_data: "apfs_node_has_room (n\<lparr>nd_data := d\<rparr>) len r = apfs_node_has_room n len r"
  by (simp add: apfs_node_has_room_def apfs_node_total_room_def)

lemma eph_leaf_change:
  assumes st: "t_storage ops = APFS_OBJ_EPHEMERAL" and bs: "fs_bs fs = bs" and repr: "node_repr bs (q_node q) rs"
    and root: "apfs_node_is_root (q_node q)"
    and room: "change_has_room change q"
    and node: "\<And>d. node_repr bs ((q_node q)\<lparr>nd_data := d\<rparr>) rs \<Longrightarrow>
      \<exists>q'. change_node bs change (q\<lparr>q_node := (q_node q)\<lparr>nd_data := d\<rparr>\<rparr>) = Inr q' \<and> Q q' \<and>
        same_ident (q_node q') (q_node q) \<and> node_repr bs (q_node q') rs'"
    and Q: "\<And>q' n. Q q' \<Longrightarrow> Q (q'\<lparr>q_node := n\<rparr>)"
  obtains q' where "bindo (btree_change_loop ops change nodata [q] fs) (change_rec_count ops c kl vl) =
      Some (Inr ([q'], put_node ops (q_node q') fs))"
    "Q q'" "node_repr bs (q_node q') rs'"
proof -
  let ?n = "q_node q"
  obtain d where d: "join_node ops q fs =
      Some (Inr (q\<lparr>q_node := ?n\<lparr>nd_data := d\<rparr>\<rparr>, False, put_node ops (?n\<lparr>nd_data := d\<rparr>) fs))"
      "node_repr bs (?n\<lparr>nd_data := d\<rparr>) rs"
    by (rule eph_join_repr [OF st repr])
  let ?q = "q\<lparr>q_node := ?n\<lparr>nd_data := d\<rparr>\<rparr>"
  obtain q1 where q1: "change_node bs change ?q = Inr q1" "Q q1" "same_ident (q_node q1) ?n" "node_repr bs (q_node q1) rs'"
    using node [OF d(2)] by auto
  have room': "change_has_room change ?q"
  proof -
    have sel: "q_node ?q = ?n\<lparr>nd_data := d\<rparr>" "q_key_len ?q = q_key_len q" "q_len ?q = q_len q" by simp_all
    show ?thesis using room unfolding change_has_room_def sel has_room_data .
  qed
  have fs: "put_node ops (q_node q1) (put_node ops (?n\<lparr>nd_data := d\<rparr>) fs) = put_node ops (q_node q1) fs"
    using q1(3) by (intro put_node_twice [OF st]) (simp add: same_ident_def)
  have "btree_change ops change [q] fs = Some (Inr (False, [q1], q_node q1, put_node ops (q_node q1) fs))"
    unfolding btree_change.simps [of ops change "[q]" fs] using d(1) room' q1(1) fs bs by (simp add: change_finish_def)
  then have "btree_change_loop ops change nodata [q] fs = Some (Inr ([q1], put_node ops (q_node q1) fs))"
    by (simp add: btree_change_loop.simps)
  moreover obtain d2 where d2: "apfs_btree_change_rec_count bs [q1] c kl vl = Inr [q1\<lparr>q_node := (q_node q1)\<lparr>nd_data := d2\<rparr>\<rparr>]"
      "node_repr bs ((q_node q1)\<lparr>nd_data := d2\<rparr>) rs'"
    using rec_count_repr [OF q1(4)] root same_ident_root [OF q1(3)] by blast
  moreover have "put_node ops ((q_node q1)\<lparr>nd_data := d2\<rparr>) (put_node ops (q_node q1) fs) =
      put_node ops ((q_node q1)\<lparr>nd_data := d2\<rparr>) fs"
    by (intro put_node_twice [OF st]) simp
  ultimately show thesis
    using that [of "q1\<lparr>q_node := (q_node q1)\<lparr>nd_data := d2\<rparr>\<rparr>"] Q [OF q1(2)] bs
    by (simp add: change_rec_count_def put_root_def)
qed


text \<open>A write to the header of a node moves none of its records.\<close>

lemma header_write_locate:
  assumes "wr_le k (nd_data n) off x = Inr d" "off + int k \<le> 56" "0 \<le> j"
  shows "apfs_node_locate_key bs (n\<lparr>nd_data := d\<rparr>) j o' = apfs_node_locate_key bs n j o'"
    "apfs_node_locate_value bs (n\<lparr>nd_data := d\<rparr>) j o' = apfs_node_locate_value bs n j o'"
proof -
  have rd: "rd16 d y = rd16 (nd_data n) y" if "56 \<le> y" for y
    using rd_bytes_wr_le_other [OF assms(1), of y 2] that assms(2) by (simp add: rd_le_def)
  then show "apfs_node_locate_key bs (n\<lparr>nd_data := d\<rparr>) j o' = apfs_node_locate_key bs n j o'"
    using assms(3) by (simp add: apfs_node_locate_key_def apfs_node_has_fixed_kv_size_def index_out_of_bounds_def)
  show "apfs_node_locate_value bs (n\<lparr>nd_data := d\<rparr>) j o' = apfs_node_locate_value bs n j o'"
    using assms(3) rd by (simp add: apfs_node_locate_value_def apfs_node_has_fixed_kv_size_def index_out_of_bounds_def
        value_end_def apfs_node_is_root_def apfs_node_is_leaf_def cong: if_cong)
qed

lemma eph_leaf_remove:
  assumes st: "t_storage ops = APFS_OBJ_EPHEMERAL" and bs: "fs_bs fs = bs" and repr: "node_repr bs (q_node q) rs"
    and root: "apfs_node_is_root (q_node q)"
    and i: "q_index q = int i" "i < length rs"
    and loc: "apfs_node_locate_key bs (q_node q) (int i) 0 = Inr (q_key_len q, q_key_off q)"
      "apfs_node_locate_value bs (q_node q) (int i) 0 = Inr (q_len q, q_off q)"
    and apart: "record_apart bs (q_node q) i" and ne: "fst (rs ! i) \<noteq> []"
  obtains q' where "apfs_btree_remove ops [q] fs = Some (Inr ([q'], put_node ops (q_node q') fs))"
    "q_index q' = int i - 1" "node_repr bs (q_node q') (remove_at i rs)"
proof -
  let ?n = "q_node q"
  note b = node_repr_bounds [OF repr] node_repr_key [OF repr]
  obtain d where wr: "wr64 (nd_data ?n) 16 (uint (fs_xid fs)) = Inr d"
    using wr_le_ok [of 16 8 "nd_data ?n" "uint (fs_xid fs)"] b by auto
  let ?q = "q\<lparr>q_node := ?n\<lparr>nd_data := d\<rparr>\<rparr>"
  note same = header_write_locate [OF wr, of "int j" for j]
  have join: "join_node ops q fs = Some (Inr (?q, False, put_node ops (?n\<lparr>nd_data := d\<rparr>) fs))"
    using st wr by (simp add: join_node_def Let_def)
  have "record_apart bs (?n\<lparr>nd_data := d\<rparr>) i" using apart by (simp add: record_apart_def same)
  moreover have "node_repr bs (?n\<lparr>nd_data := d\<rparr>) rs" by (rule node_repr_header_write [OF repr wr]) simp
  ultimately obtain q1 where q1: "node_remove bs (int (length rs) - int i - 1) ?q = Inr q1" "q_index q1 = int i - 1"
      "node_repr bs (q_node q1) (remove_at i rs)"
    using node_remove_repr [of bs ?q rs i] i loc ne same [of i] by auto
  note ident = node_remove_ident [OF q1(1)]
  have fs: "put_node ops (q_node q1) (put_node ops (?n\<lparr>nd_data := d\<rparr>) fs) = put_node ops (q_node q1) fs"
    using ident(1) by (intro put_node_twice [OF st]) simp
  have "btree_remove ops [q] fs = Some (Inr (False, [q1], q_node q1, put_node ops (q_node q1) fs))"
    unfolding btree_remove.simps [of ops "[q]" fs] using join q1(1) fs bs b(3) i(1) by simp
  then have "btree_remove_loop ops [q] fs = Some (Inr ([q1], put_node ops (q_node q1) fs))"
    by (simp add: btree_remove_loop.simps)
  moreover obtain d2 where d2: "apfs_btree_change_rec_count bs [q1] (- 1) 0 0 = Inr [q1\<lparr>q_node := (q_node q1)\<lparr>nd_data := d2\<rparr>\<rparr>]"
      "node_repr bs ((q_node q1)\<lparr>nd_data := d2\<rparr>) (remove_at i rs)"
  proof -
    have "apfs_node_is_root (q_node q1)" using root ident(2) by (simp add: apfs_node_is_root_def)
    from rec_count_repr [OF q1(3) this, of "- 1" 0 0] that show thesis .
  qed
  moreover have "put_node ops ((q_node q1)\<lparr>nd_data := d2\<rparr>) (put_node ops (q_node q1) fs) =
      put_node ops ((q_node q1)\<lparr>nd_data := d2\<rparr>) fs"
    by (intro put_node_twice [OF st]) simp
  ultimately show thesis
    using that [of "q1\<lparr>q_node := (q_node q1)\<lparr>nd_data := d2\<rparr>\<rparr>"] q1(2) bs
    by (simp add: apfs_btree_remove_def change_rec_count_def put_root_def)
qed

section \<open>Properties\<close>

text \<open>Nodes for the concrete instances: a leaf with two records, and an empty tree.\<close>

lemma sample_insert:
  assumes "node_repr bs n rs" "i \<le> length rs" "\<not> toc_full n" "fits_kind n (k, v)"
    "nd_free n + int (length k) + int (length v) \<le> nd_val n"
  obtains d where "node_repr bs (n\<lparr>nd_data := d, nd_records := Suc (length rs), nd_free := nd_free n + int (length k),
      nd_val := nd_val n - int (length v)\<rparr>) (insert_at i (k, v) rs)"
proof -
  let ?q = "(apfs_alloc_query n None)\<lparr>q_index := int i - 1\<rparr>"
  have n: "q_node ?q = n" by (simp add: apfs_alloc_query_def)
  have "\<exists>q' d. node_insert_try bs Inr k (Some v) ?q = Inr q' \<and> q_index q' = int i \<and>
    q_node q' = (q_node ?q)\<lparr>nd_data := d, nd_records := Suc (length rs), nd_free := nd_free (q_node ?q) + int (length k),
      nd_val := nd_val (q_node ?q) - int (length (val_of (Some v)))\<rparr> \<and>
    node_repr bs (q_node q') (insert_at i (k, val_of (Some v)) rs)"
    by (rule insert_into_gap) (use assms in \<open>simp_all add: n val_of_def\<close>)
  then show thesis using that unfolding n by (auto simp: val_of_def)
qed

lemma sample_two_records:
  obtains n where "node_repr 256 n [([1, 2, 3, 4], [5]), ([6, 7, 8, 9], [10])]" "same_shape n sample_node"
proof -
  obtain d where d: "node_repr 256 (sample_node\<lparr>nd_data := d, nd_records := 1, nd_free := 124, nd_val := 255\<rparr>) [([6, 7, 8, 9], [10])]"
    by (rule sample_insert [OF sample_node_repr(1), of 0 "[6, 7, 8, 9]" "[10]"])
      (simp_all add: insert_at_def fits_kind_def sample_node_sel toc_full_def to_u32_def, simp_all add: sample_node_def)
  let ?n = "sample_node\<lparr>nd_data := d, nd_records := 1, nd_free := 124, nd_val := 255\<rparr>"
  have n: "\<not> apfs_node_has_fixed_kv_size ?n" "toc_entry_size ?n = 8"
    by (simp_all add: toc_entry_size_def apfs_node_has_fixed_kv_size_def sample_node_def node_flags)
  have "nd_key sample_node = 120" by (simp add: sample_node_def)
  then have "\<not> toc_full ?n" unfolding toc_full_def n(2) by (simp add: to_u32_def)
  from sample_insert [OF d, of 0 "[1, 2, 3, 4]" "[5]", OF _ this] n obtain d' where
    "node_repr 256 (?n\<lparr>nd_data := d', nd_records := 2, nd_free := 128, nd_val := 254\<rparr>) [([1, 2, 3, 4], [5]), ([6, 7, 8, 9], [10])]"
    by (auto simp: insert_at_def fits_kind_def numeral_2_eq_2)
  then show thesis by (rule that) (simp add: same_shape_def)
qed

text \<open>
  The split of a node deals its records out: the node keeps the first half of them (the larger one
  for an odd number), the new node gets the rest, both in order, and the key under which the new node is
  attached to the parent is the first of its keys.
\<close>

theorem node_split_halves:
  assumes "node_repr bs n rs" "2 \<le> length rs" "int (length (nd_data new)) = bs"
    and "records_fit bs n (take (kept rs) rs)" "records_fit bs n (drop (kept rs) rs)" "fst (rs ! kept rs) \<noteq> []"
  shows "\<exists>old' new'. split_old_node bs n = Inr old' \<and> node_repr bs old' (take (kept rs) rs) \<and>
    split_new_node bs n new = Inr new' \<and> node_repr bs new' (drop (kept rs) rs) \<and> nd_oid new' = nd_oid new \<and>
    child_key bs new' = Inr (fst (rs ! kept rs))"
proof -
  obtain old' where old': "split_old_node bs n = Inr old'" "node_repr bs old' (take (kept rs) rs)"
    by (rule split_old_node_repr [OF assms(1,4)])
  obtain new' where new': "split_new_node bs n new = Inr new'" "node_repr bs new' (drop (kept rs) rs)" "nd_oid new' = nd_oid new"
    by (rule split_new_node_repr [OF assms(1,3,5)])
  have "drop (kept rs) rs = rs ! kept rs # drop (Suc (kept rs)) rs"
    using kept_less [OF assms(2)] by (simp add: Cons_nth_drop_Suc)
  then have "child_key bs new' = Inr (fst (rs ! kept rs))"
    using child_key_repr [of bs new' "fst (rs ! kept rs)" "snd (rs ! kept rs)"] new'(2) assms(6) by simp
  with old' new' show ?thesis by blast
qed

lemma sample_copy_toc: "copy_toc 256 sample_node 1 = 64"
  using sample_node_sel(3) by (simp add: copy_toc_def apfs_node_min_table_size_def) (simp add: sample_node_def)

theorem node_split_halves_witness:
  "\<exists>n old' new'. node_repr 256 n [([1, 2, 3, 4], [5]), ([6, 7, 8, 9], [10])] \<and>
     split_old_node 256 n = Inr old' \<and> node_repr 256 old' [([1, 2, 3, 4], [5])] \<and>
     split_new_node 256 n sample_node = Inr new' \<and> node_repr 256 new' [([6, 7, 8, 9], [10])] \<and>
     child_key 256 new' = Inr [6, 7, 8, 9]"
proof -
  obtain n where n: "node_repr 256 n [([1, 2, 3, 4], [5]), ([6, 7, 8, 9], [10])]" "same_shape n sample_node"
    by (rule sample_two_records)
  have kept: "kept [([1, 2, 3, 4 :: byte], [5 :: byte]), ([6, 7, 8, 9], [10])] = 1" by (simp add: kept_def)
  have "records_fit 256 n [([1, 2, 3, 4], [5])]" "records_fit 256 n [([6, 7, 8, 9], [10])]"
    using sample_node_sel(3,4)
    by (simp_all add: records_fit_def same_shape_sel [OF n(2)] key_bytes_def val_bytes_def sample_copy_toc)
  then show ?thesis
    using node_split_halves [OF n(1), of sample_node] n(1) kept by (auto simp: sample_node_def)
qed


text \<open>An empty tree in memory, with a root of 256 bytes, and a file system for it.\<close>

definition sample_root :: apfs_node where
  "sample_root = sample_node\<lparr>nd_flags := 3, nd_val := 216\<rparr>"

definition sample_fs :: apfs_fs where
  "sample_fs = \<lparr>fs_dev = sample_dev\<lparr>d_eph_list := [\<lparr>eph_oid = 7, eph_size = 256, eph_object = replicate 256 0\<rparr>]\<rparr>,
     fs_next_oid = 8, fs_alloc_count = 0, fs_blocks_alloced = 0, fs_blocks_freed = 0,
     fs_sm = \<lparr>sm_raw = [], sm_size = 0, sm_blocks_per_chunk = 0, sm_chunks_per_cib = 0, sm_block_count = 0,
        sm_chunk_count = 0, sm_cib_count = 0, sm_free_count = 0, sm_addr_offset = 0, sm_main_fq_nodes = 0,
        sm_free_cache_base = 0, sm_free_cache_blkcnt = 0, sm_ip_bmaps_shift = 0, sm_ip_bmaps_mask = 0, sm_ip_bmaps = []\<rparr>,
     fs_omap = \<lparr>omap_root = sample_node, omap_cache = \<lparr>oc_recs = [], oc_disabled = True\<rparr>, omap_latest_snap = 0\<rparr>\<rparr>"

lemma sample_root_sel:
  "apfs_node_is_root sample_root" "\<not> apfs_node_has_fixed_kv_size sample_root" "toc_entry_size sample_root = 8"
  "value_end 256 sample_root = 216" "nd_key sample_root = 120" "nd_free sample_root = 120" "nd_val sample_root = 216"
  "nd_records sample_root = 0" "nd_key_free_list_len sample_root = 0" "nd_val_free_list_len sample_root = 0"
  by (simp_all add: sample_root_def sample_node_def apfs_node_is_root_def apfs_node_has_fixed_kv_size_def
      toc_entry_size_def value_end_def node_flags)

lemma sample_root_repr: "node_repr 256 sample_root []" "\<not> toc_full sample_root"
  using sample_root_sel by (simp_all add: node_repr_def toc_full_def to_u32_def) (simp add: sample_root_def sample_node_def)

lemma eph_ops_storage: "t_storage eph_ops = APFS_OBJ_EPHEMERAL"
  by (simp add: eph_ops_def)

text \<open>
  (C13) \<open>apfs_btree_insert\<close> on a tree of ephemeral nodes that is a single leaf, with room for the record:
  it returns without a split, the record is in the root right after the position of the query, with all
  of the older records around it, and the root in the list of ephemeral objects is the one of the query.
\<close>

theorem eph_btree_insert_leaf:
  assumes "node_repr bs (q_node q) rs" "fs_bs fs = bs" "apfs_node_is_root (q_node q)"
    and "q_index q = int i - 1" "i \<le> length rs" "fits_kind (q_node q) (k, val_of val)"
    and "insert_room (q_node q) k val \<le> nd_val (q_node q) - nd_free (q_node q)"
      "0 \<le> nd_key_free_list_len (q_node q) + nd_val_free_list_len (q_node q)"
  shows "\<exists>q'. apfs_btree_insert eph_ops [q] k val fs = Some (Inr ([q'], put_node eph_ops (q_node q') fs)) \<and>
    q_index q' = int i \<and> node_repr bs (q_node q') (insert_at i (k, val_of val) rs)"
proof -
  have len: "opt_len val = int (length (val_of val))" by (simp add: opt_len_def val_of_def split: option.split)
  have room: "change_has_room (Insert k val) q"
    using assms(7,8) by (auto simp: change_has_room_def apfs_node_has_room_def apfs_node_total_room_def insert_room_def len)
  obtain q' where "bindo (btree_change_loop eph_ops (Insert k val) True [q] fs)
      (change_rec_count eph_ops 1 (int (length k)) (opt_len val)) = Some (Inr ([q'], put_node eph_ops (q_node q') fs))"
      "q_index q' = int i" "node_repr bs (q_node q') (insert_at i (k, val_of val) rs)"
  proof (rule eph_leaf_change [where Q = "\<lambda>q'. q_index q' = int i" and rs' = "insert_at i (k, val_of val) rs",
      OF eph_ops_storage assms(2,1,3) room])
    fix d
    let ?q = "q\<lparr>q_node := (q_node q)\<lparr>nd_data := d\<rparr>\<rparr>"
    assume repr: "node_repr bs ((q_node q)\<lparr>nd_data := d\<rparr>) rs"
    have "fits_kind (q_node ?q) (k, val_of val)" "insert_room (q_node ?q) k val = insert_room (q_node q) k val"
      using assms(6) same_shape_sel(4) [of "(q_node q)\<lparr>nd_data := d\<rparr>" "q_node q"]
      by (simp_all add: insert_room_def same_shape_def)
    then have "\<exists>q'. apfs_node_insert bs ?q k val = Inr q' \<and> q_index q' = int i \<and>
        node_repr bs (q_node q') (insert_at i (k, val_of val) rs)"
      using repr assms(4,5,7) by (intro apfs_node_insert_repr) simp_all
    then show "\<exists>q'. change_node bs (Insert k val) ?q = Inr q' \<and> q_index q' = int i \<and>
        same_ident (q_node q') (q_node q) \<and> node_repr bs (q_node q') (insert_at i (k, val_of val) rs)"
      using apfs_node_insert_ident [of bs ?q k val] by (auto simp: change_node_def same_ident_def)
  qed auto
  then show ?thesis unfolding apfs_btree_insert_def by blast
qed

theorem eph_btree_insert_leaf_witness:
  "\<exists>q'. apfs_btree_insert eph_ops [(apfs_alloc_query sample_root None)\<lparr>q_index := - 1\<rparr>] [1, 2, 3, 4] (Some [5]) sample_fs =
       Some (Inr ([q'], put_node eph_ops (q_node q') sample_fs)) \<and>
     q_index q' = 0 \<and> node_repr 256 (q_node q') [([1, 2, 3, 4], [5])]"
proof -
  let ?q = "(apfs_alloc_query sample_root None)\<lparr>q_index := - 1\<rparr>"
  have n: "q_node ?q = sample_root" by (simp add: apfs_alloc_query_def)
  have bs: "fs_bs sample_fs = 256" by (simp add: sample_fs_def sample_dev_def)
  show ?thesis
    using eph_btree_insert_leaf [of 256 ?q "[]" sample_fs 0 "[1, 2, 3, 4]" "Some [5]"] sample_root_sel sample_root_repr bs
    unfolding n by (simp add: fits_kind_def insert_room_def val_of_def insert_at_def)
qed

text \<open>
  (C14) \<open>apfs_btree_remove\<close> on a tree of ephemeral nodes that is a single leaf: it returns, and the root
  holds all of the records but the one of the query, which shares no bytes with the others.
\<close>

theorem eph_btree_remove_leaf:
  assumes "node_repr bs (q_node q) rs" "fs_bs fs = bs" "apfs_node_is_root (q_node q)"
    and "q_index q = int i" "i < length rs" "fst (rs ! i) \<noteq> []" "record_apart bs (q_node q) i"
    and "apfs_node_locate_key bs (q_node q) (int i) 0 = Inr (q_key_len q, q_key_off q)"
      "apfs_node_locate_value bs (q_node q) (int i) 0 = Inr (q_len q, q_off q)"
  shows "\<exists>q'. apfs_btree_remove eph_ops [q] fs = Some (Inr ([q'], put_node eph_ops (q_node q') fs)) \<and>
    q_index q' = int i - 1 \<and> node_repr bs (q_node q') (remove_at i rs)"
  using eph_leaf_remove [OF eph_ops_storage assms(2,1,3-5,8,9,7,6)] by metis

theorem eph_btree_remove_leaf_witness:
  "\<exists>q q'. node_repr 256 (q_node q) [([1, 2, 3, 4], [5])] \<and>
     apfs_btree_remove eph_ops [q] sample_fs = Some (Inr ([q'], put_node eph_ops (q_node q') sample_fs)) \<and>
     node_repr 256 (q_node q') []"
proof -
  let ?rs = "[([1, 2, 3, 4 :: byte], [5 :: byte])]"
  obtain d where "node_repr 256 (sample_root\<lparr>nd_data := d, nd_records := 1, nd_free := 124, nd_val := 215\<rparr>) ?rs"
    by (rule sample_insert [OF sample_root_repr(1), of 0 "[1, 2, 3, 4]" "[5]"])
      (simp_all add: insert_at_def fits_kind_def sample_root_sel sample_root_repr)
  then obtain n where n: "node_repr 256 n ?rs" "apfs_node_is_root n" "nd_records n = 1"
  proof (rule that)
    show "apfs_node_is_root (sample_root\<lparr>nd_data := d, nd_records := 1, nd_free := 124, nd_val := 215\<rparr>)"
      using sample_root_sel(1) by (simp add: apfs_node_is_root_def)
  qed simp
  obtain ko vo where loc: "apfs_node_locate_key 256 n 0 0 = Inr (4, ko)" "apfs_node_locate_value 256 n 0 0 = Inr (1, vo)"
    by (rule node_repr_entry [OF n(1), of 0]) auto
  let ?q = "(apfs_alloc_query n None)\<lparr>q_index := 0, q_key_len := 4, q_key_off := ko, q_len := 1, q_off := vo\<rparr>"
  have sel: "q_node ?q = n" by (simp add: apfs_alloc_query_def)
  have bs: "fs_bs sample_fs = 256" by (simp add: sample_fs_def sample_dev_def)
  have apart: "record_apart 256 n 0" using n(3) by (simp add: record_apart_def)
  have "\<exists>q'. apfs_btree_remove eph_ops [?q] sample_fs = Some (Inr ([q'], put_node eph_ops (q_node q') sample_fs)) \<and>
    q_index q' = int 0 - 1 \<and> node_repr 256 (q_node q') (remove_at 0 ?rs)"
    using n loc apart bs by (intro eph_btree_remove_leaf) (simp_all add: sel)
  then obtain q' where "apfs_btree_remove eph_ops [?q] sample_fs = Some (Inr ([q'], put_node eph_ops (q_node q') sample_fs))"
      "node_repr 256 (q_node q') []"
    by (auto simp: remove_at_def)
  then show ?thesis using n(1) sel by (intro exI [of _ ?q] exI [of _ q']) simp
qed

end
