(* ===== verification/SpacePool.thy ===== *)
theory SpacePool
  imports BtreeRecords
begin

text \<open>
  The internal pool of the space manager: the list of free bitmap blocks is a queue, and the bitmaps
  are a set of blocks in use.
\<close>

section \<open>The list of free bitmap blocks\<close>

text \<open>
  The links of the list, from the head to the tail; the link of the tail is not used.  The array of
  links lies after the fields of the space manager.
\<close>

definition bm_repr :: "apfs_spaceman \<Rightarrow> nat list \<Rightarrow> bool" where
  "bm_repr sm xs \<longleftrightarrow> xs \<noteq> [] \<and> distinct xs \<and> sm_size sm \<le> length (sm_raw sm) \<and> sm_size sm < 2 ^ 32 \<and>
     (\<exists>foff cnt. rd32 (sm_raw sm) 332 = Inr foff \<and> rd32 (sm_raw sm) 164 = Inr cnt \<and> 336 \<le> foff \<and>
        foff + 2 * (cnt mod 65536) \<le> sm_size sm \<and> (\<forall>x \<in> set xs. x < cnt mod 65536) \<and>
        rd16 (sm_raw sm) 320 = Inr (hd xs) \<and> rd16 (sm_raw sm) 322 = Inr (last xs) \<and>
        (\<forall>i. Suc i < length xs \<longrightarrow> rd16 (sm_raw sm) (int (foff + 2 * (xs ! i))) = Inr (xs ! Suc i)))"

text \<open>
  The part of the space manager that the operations on the list leave alone: its layout, and the fields of
  16 bits outside of the array of links.
\<close>

definition bm_apart :: "nat result \<Rightarrow> nat result \<Rightarrow> int \<Rightarrow> bool" where
  "bm_apart foff cnt p \<longleftrightarrow> 336 \<le> p \<and>
     (\<forall>f c. foff = Inr f \<and> cnt = Inr c \<longrightarrow> p + 2 \<le> int f \<or> int (f + 2 * (c mod 65536)) \<le> p)"

definition bm_view :: "apfs_spaceman \<Rightarrow> nat result \<times> nat result \<times> nat \<times> nat \<times> (int \<Rightarrow> nat result option)" where
  "bm_view sm =
     (let foff = rd32 (sm_raw sm) 332; cnt = rd32 (sm_raw sm) 164
      in (foff, cnt, sm_size sm, length (sm_raw sm),
          \<lambda>p. if bm_apart foff cnt p then Some (rd16 (sm_raw sm) p) else None))"

fun bm_fits :: "nat result \<times> nat result \<times> nat \<times> nat \<times> (int \<Rightarrow> nat result option) \<Rightarrow> nat \<Rightarrow> bool" where
  "bm_fits (foff, cnt, _) x \<longleftrightarrow> (\<exists>c. cnt = Inr c \<and> x < c mod 65536)"

lemma bm_view_eq:
  assumes "rd32 raw' 332 = rd32 (sm_raw sm) 332" "rd32 raw' 164 = rd32 (sm_raw sm) 164" "length raw' = length (sm_raw sm)"
    and "\<And>p. bm_apart (rd32 (sm_raw sm) 332) (rd32 (sm_raw sm) 164) p \<Longrightarrow> rd16 raw' p = rd16 (sm_raw sm) p"
  shows "bm_view (sm\<lparr>sm_raw := raw'\<rparr>) = bm_view sm"
  using assms by (auto simp: bm_view_def Let_def)

lemma bm_link_off:
  assumes "rd32 (sm_raw sm) 332 = Inr foff" "foff + 2 * c \<le> sm_size sm" "x < c" "sm_size sm < 2 ^ 32"
  shows "free_next_off sm x = Inr (int (foff + 2 * x))" "apfs_spaceman_get_16 sm (int (foff + 2 * x)) = Some (int (foff + 2 * x))"
proof -
  have "int foff + int x * 2 < 4294967296" using assms by simp
  then show "free_next_off sm x = Inr (int (foff + 2 * x))"
    using assms(1) by (simp add: free_next_off_def to_u32_def mult.commute)
  show "apfs_spaceman_get_16 sm (int (foff + 2 * x)) = Some (int (foff + 2 * x))"
    using assms by (simp add: apfs_spaceman_get_16_def)
qed

text \<open>Two writes of 16 bits, and what they leave.\<close>

lemma two_writes:
  assumes "0 \<le> p" "p + 2 \<le> int (length raw)" "0 \<le> q" "q + 2 \<le> int (length raw)" "p + 2 \<le> q \<or> q + 2 \<le> p"
    and "x < 65536" "y < 65536"
  obtains raw1 raw2 where "wr16 raw p (int x) = Inr raw1" "wr16 raw1 q (int y) = Inr raw2" "length raw2 = length raw"
    "rd16 raw2 p = Inr x" "rd16 raw2 q = Inr y"
    "\<And>off n. (off + int n \<le> p \<or> p + 2 \<le> off) \<Longrightarrow> (off + int n \<le> q \<or> q + 2 \<le> off) \<Longrightarrow> rd_le n raw2 off = rd_le n raw off"
proof -
  obtain raw1 where 1: "wr16 raw p (int x) = Inr raw1" using wr_le_ok [of p 2 raw "int x"] assms by auto
  have l1: "length raw1 = length raw" using wr_le_length [OF 1] .
  obtain raw2 where 2: "wr16 raw1 q (int y) = Inr raw2" using wr_le_ok [of q 2 raw1 "int y"] assms l1 by auto
  have "rd16 raw1 p = Inr x" using rd_le_wr_le_same [OF 1] assms by simp
  then have "rd16 raw2 p = Inr x" using rd_le_wr_le_other [OF 2, of p 2] assms by simp
  moreover have "rd16 raw2 q = Inr y" using rd_le_wr_le_same [OF 2] assms by simp
  moreover have "rd_le n raw2 off = rd_le n raw off"
    if "off + int n \<le> p \<or> p + 2 \<le> off" "off + int n \<le> q \<or> q + 2 \<le> off" for off n
    using rd_le_wr_le_other [OF 1, of off n] rd_le_wr_le_other [OF 2, of off n] that by simp
  ultimately show thesis using that 1 2 wr_le_length [OF 2] l1 by metis
qed

lemma bm_enq:
  assumes repr: "bm_repr sm xs" and x: "x \<notin> set xs" "bm_fits (bm_view sm) x"
  shows "\<exists>sm'. apfs_free_ip_bitmap x sm = Inr sm' \<and> bm_repr sm' (xs @ [x]) \<and> bm_view sm' = bm_view sm"
proof -
  let ?raw = "sm_raw sm"
  obtain foff cnt where r: "xs \<noteq> []" "distinct xs" "sm_size sm \<le> length ?raw" "sm_size sm < 2 ^ 32"
    "rd32 ?raw 332 = Inr foff" "rd32 ?raw 164 = Inr cnt" "336 \<le> foff" "foff + 2 * (cnt mod 65536) \<le> sm_size sm"
    "\<forall>x \<in> set xs. x < cnt mod 65536" "rd16 ?raw 320 = Inr (hd xs)" "rd16 ?raw 322 = Inr (last xs)"
    "\<forall>i. Suc i < length xs \<longrightarrow> rd16 ?raw (int (foff + 2 * (xs ! i))) = Inr (xs ! Suc i)"
    using repr by (auto simp: bm_repr_def)
  have x': "x < cnt mod 65536" using x(2) r(6) by (auto simp: bm_view_def Let_def)
  let ?p = "int (foff + 2 * last xs)"
  have l: "last xs < cnt mod 65536" using r(1,9) by simp
  have p: "336 \<le> ?p" "?p + 2 \<le> int (length ?raw)" using l r(3,7,8) by linarith+
  obtain raw1 raw2 where w: "wr16 ?raw ?p (int x) = Inr raw1" "wr16 raw1 322 (int x) = Inr raw2" "length raw2 = length ?raw"
    "rd16 raw2 ?p = Inr x" "rd16 raw2 322 = Inr x"
    "\<And>off n. (off + int n \<le> ?p \<or> ?p + 2 \<le> off) \<Longrightarrow> (off + int n \<le> 322 \<or> 322 + 2 \<le> off) \<Longrightarrow> rd_le n raw2 off = rd_le n ?raw off"
    by (rule two_writes [of ?p ?raw 322 x x]) (use p x' in auto)
  let ?sm = "sm\<lparr>sm_raw := raw2\<rparr>"
  have run: "apfs_free_ip_bitmap x sm = Inr ?sm"
    unfolding apfs_free_ip_bitmap_def Let_def using r(11) bm_link_off [OF r(5,8) l r(4)] w(1,2) by simp
  have same: "rd32 raw2 332 = Inr foff" "rd32 raw2 164 = Inr cnt" "rd16 raw2 320 = Inr (hd xs)"
    using w(6) [of 332 4] w(6) [of 164 4] w(6) [of 320 2] p r(5,6,10) by simp_all
  have links: "rd16 raw2 (int (foff + 2 * ((xs @ [x]) ! i))) = Inr ((xs @ [x]) ! Suc i)" if i: "Suc i < length (xs @ [x])" for i
  proof (cases "Suc i = length xs")
    case True
    then have "xs ! i = last xs" using r(1) by (simp add: last_conv_nth flip: True)
    then show ?thesis using True w(4) by (simp add: nth_append)
  next
    case False
    then have i': "Suc i < length xs" using i by simp
    have "xs ! i \<noteq> last xs" using r(1,2) i' by (simp add: last_conv_nth nth_eq_iff_index_eq)
    then have "rd16 raw2 (int (foff + 2 * (xs ! i))) = rd16 ?raw (int (foff + 2 * (xs ! i)))"
      using r(7) by (intro w(6)) auto
    then show ?thesis using r(12) i' by (simp add: nth_append)
  qed
  have "bm_repr ?sm (xs @ [x])"
    unfolding bm_repr_def using r x x' w(3,5) same links by (intro conjI exI [of _ foff] exI [of _ cnt]) auto
  moreover have "bm_view ?sm = bm_view sm"
    by (rule bm_view_eq) (use same r(5,6) w(3) l in \<open>auto simp: bm_apart_def intro!: w(6)\<close>)
  ultimately show ?thesis using run by blast
qed

lemma bm_deq:
  assumes repr: "bm_repr sm (x # xs)" and ne: "xs \<noteq> []"
  shows "\<exists>sm'. apfs_allocate_ip_bitmap sm = Inr (x, sm') \<and> bm_repr sm' xs \<and> bm_view sm' = bm_view sm"
proof -
  let ?raw = "sm_raw sm"
  obtain foff cnt where r: "distinct (x # xs)" "sm_size sm \<le> length ?raw" "sm_size sm < 2 ^ 32"
    "rd32 ?raw 332 = Inr foff" "rd32 ?raw 164 = Inr cnt" "336 \<le> foff" "foff + 2 * (cnt mod 65536) \<le> sm_size sm"
    "\<forall>y \<in> set (x # xs). y < cnt mod 65536" "rd16 ?raw 320 = Inr x" "rd16 ?raw 322 = Inr (last xs)"
    "\<forall>i. Suc i < length (x # xs) \<longrightarrow> rd16 ?raw (int (foff + 2 * ((x # xs) ! i))) = Inr ((x # xs) ! Suc i)"
    using repr ne by (auto simp: bm_repr_def)
  let ?p = "int (foff + 2 * x)"
  have l: "x < cnt mod 65536" "hd xs < cnt mod 65536" using r(8) ne by auto
  have p: "336 \<le> ?p" "?p + 2 \<le> int (length ?raw)" using l r(2,6,7) by linarith+
  have next': "rd16 ?raw ?p = Inr (hd xs)" using r(11) ne by (auto simp: hd_conv_nth dest: spec [of _ 0])
  obtain raw1 raw2 where w: "wr16 ?raw 320 (int (hd xs)) = Inr raw1" "wr16 raw1 ?p (int 65535) = Inr raw2" "length raw2 = length ?raw"
    "rd16 raw2 320 = Inr (hd xs)"
    "\<And>off n. (off + int n \<le> 320 \<or> 320 + 2 \<le> off) \<Longrightarrow> (off + int n \<le> ?p \<or> ?p + 2 \<le> off) \<Longrightarrow> rd_le n raw2 off = rd_le n ?raw off"
    by (rule two_writes [of 320 ?raw ?p "hd xs" 65535]) (use p l in auto)
  let ?sm = "sm\<lparr>sm_raw := raw2\<rparr>"
  have run: "apfs_allocate_ip_bitmap sm = Inr (x, ?sm)"
    unfolding apfs_allocate_ip_bitmap_def Let_def
    using r(5,9) bm_link_off [OF r(4,7) l(1) r(3)] w(1,2) next' l by simp
  have same: "rd32 raw2 332 = Inr foff" "rd32 raw2 164 = Inr cnt" "rd16 raw2 322 = Inr (last xs)"
    using w(5) [of 332 4] w(5) [of 164 4] w(5) [of 322 2] p r(4,5,10) by simp_all
  have links: "rd16 raw2 (int (foff + 2 * (xs ! i))) = Inr (xs ! Suc i)" if i: "Suc i < length xs" for i
  proof -
    have "xs ! i \<noteq> x" using r(1) i by (metis Suc_lessD distinct.simps(2) nth_mem)
    then have "rd16 raw2 (int (foff + 2 * (xs ! i))) = rd16 ?raw (int (foff + 2 * (xs ! i)))"
      using r(6) by (intro w(5)) auto
    then show ?thesis using r(11) [rule_format, of "Suc i"] i by simp
  qed
  have "bm_repr ?sm xs"
    unfolding bm_repr_def using r ne w(3,4) same links by (intro conjI exI [of _ foff] exI [of _ cnt]) auto
  moreover have "bm_view ?sm = bm_view sm"
    by (rule bm_view_eq) (use same r(4,5) w(3) l in \<open>auto simp: bm_apart_def intro!: w(5)\<close>)
  ultimately show ?thesis using run by blast
qed

interpretation ip_bitmaps: fifo bm_repr bm_view bm_fits apfs_free_ip_bitmap apfs_allocate_ip_bitmap
proof unfold_locales
  show "\<exists>s'. apfs_free_ip_bitmap x s = Inr s' \<and> bm_repr s' (xs @ [x]) \<and> bm_view s' = bm_view s"
    if "bm_repr s xs" "x \<notin> set xs" "bm_fits (bm_view s) x" for s xs x using that by (rule bm_enq)
  show "\<exists>s'. apfs_allocate_ip_bitmap s = Inr (x, s') \<and> bm_repr s' xs \<and> bm_view s' = bm_view s"
    if "bm_repr s (x # xs)" "xs \<noteq> []" for s x xs using that by (rule bm_deq)
qed (simp add: bm_repr_def)


text \<open>A field that holds the block of a bitmap, outside of the list of the free ones.\<close>

definition bm_field :: "apfs_spaceman \<Rightarrow> int \<Rightarrow> nat \<Rightarrow> bool" where
  "bm_field sm p x \<longleftrightarrow> bm_apart (rd32 (sm_raw sm) 332) (rd32 (sm_raw sm) 164) p \<and> p + 2 \<le> int (length (sm_raw sm)) \<and>
     rd16 (sm_raw sm) p = Inr x"

lemma bm_field_view:
  assumes "bm_view sm' = bm_view sm"
  shows "bm_field sm' p x = bm_field sm p x"
proof -
  have "rd32 (sm_raw sm') 332 = rd32 (sm_raw sm) 332" "rd32 (sm_raw sm') 164 = rd32 (sm_raw sm) 164"
    "length (sm_raw sm') = length (sm_raw sm)"
    "(if bm_apart (rd32 (sm_raw sm) 332) (rd32 (sm_raw sm) 164) p then Some (rd16 (sm_raw sm') p) else None) =
     (if bm_apart (rd32 (sm_raw sm) 332) (rd32 (sm_raw sm) 164) p then Some (rd16 (sm_raw sm) p) else None)"
    using assms by (auto simp: bm_view_def Let_def dest: fun_cong [where x = p])
  then show ?thesis by (auto simp: bm_field_def)
qed

lemma bm_field_write:
  assumes repr: "bm_repr sm xs" and f: "bm_field sm p x" and y: "y < 65536"
  obtains raw where "wr16 (sm_raw sm) p (int y) = Inr raw" "bm_repr (sm\<lparr>sm_raw := raw\<rparr>) xs"
    "bm_field (sm\<lparr>sm_raw := raw\<rparr>) p y" "\<And>c. bm_fits (bm_view (sm\<lparr>sm_raw := raw\<rparr>)) c = bm_fits (bm_view sm) c"
    "\<And>p' z. p' + 2 \<le> p \<or> p + 2 \<le> p' \<Longrightarrow> bm_field (sm\<lparr>sm_raw := raw\<rparr>) p' z = bm_field sm p' z"
proof -
  let ?raw = "sm_raw sm"
  obtain foff cnt where r: "rd32 ?raw 332 = Inr foff" "rd32 ?raw 164 = Inr cnt" "336 \<le> foff" "\<forall>x \<in> set xs. x < cnt mod 65536"
    using repr by (auto simp: bm_repr_def)
  have p: "336 \<le> p" "p + 2 \<le> int (length ?raw)" "p + 2 \<le> int foff \<or> int (foff + 2 * (cnt mod 65536)) \<le> p"
    using f r(1,2) by (auto simp: bm_field_def bm_apart_def)
  obtain raw where w: "wr16 ?raw p (int y) = Inr raw" using wr_le_ok [of p 2 ?raw "int y"] p by auto
  have other: "rd_le n raw off = rd_le n ?raw off" if "off + int n \<le> p \<or> p + 2 \<le> off" for off n
    using rd_le_wr_le_other [OF w] that by simp
  have len: "length raw = length ?raw" using wr_le_length [OF w] .
  have same: "rd32 raw 332 = rd32 ?raw 332" "rd32 raw 164 = rd32 ?raw 164" "rd16 raw 320 = rd16 ?raw 320" "rd16 raw 322 = rd16 ?raw 322"
    using p(1) by (auto intro!: other)
  have links: "rd16 raw (int (foff + 2 * (xs ! i))) = rd16 ?raw (int (foff + 2 * (xs ! i)))" if "i < length xs" for i
  proof (rule other)
    have "xs ! i < cnt mod 65536" using r(4) nth_mem [OF that] by blast
    then show "int (foff + 2 * (xs ! i)) + int 2 \<le> p \<or> p + 2 \<le> int (foff + 2 * (xs ! i))" using p(3) by linarith
  qed
  have "bm_repr (sm\<lparr>sm_raw := raw\<rparr>) xs"
    using repr len same links unfolding bm_repr_def by (auto simp: r(1,2))
  moreover have "rd16 raw p = Inr y" using rd_le_wr_le_same [OF w] y by simp
  then have "bm_field (sm\<lparr>sm_raw := raw\<rparr>) p y" using f len same by (simp add: bm_field_def)
  moreover have "bm_fits (bm_view (sm\<lparr>sm_raw := raw\<rparr>)) c = bm_fits (bm_view sm) c" for c
    using same by (simp add: bm_view_def Let_def)
  moreover have "bm_field (sm\<lparr>sm_raw := raw\<rparr>) p' z = bm_field sm p' z" if "p' + 2 \<le> p \<or> p + 2 \<le> p'" for p' z
    using len same other [of p' 2] that by (auto simp: bm_field_def)
  ultimately show thesis using that w by blast
qed

lemma reallocate_repr:
  assumes repr: "bm_repr sm xs" and f: "bm_field sm p x" "x \<notin> set xs" "bm_fits (bm_view sm) x"
  obtains sm' where "apfs_reallocate_ip_bitmap p sm = Inr (hd xs, sm')" "bm_repr sm' (tl xs @ [x])"
    "bm_field sm' p (hd xs)" "bm_fits (bm_view sm') = bm_fits (bm_view sm)"
    "\<And>p' z. p' + 2 \<le> p \<or> p + 2 \<le> p' \<Longrightarrow> bm_field sm' p' z = bm_field sm p' z"
proof -
  obtain sm1 where sm1: "ip_bitmaps.rotate x sm = Inr (hd xs, sm1)" "bm_repr sm1 (tl xs @ [x])" "bm_view sm1 = bm_view sm"
    using ip_bitmaps.rotate_repr [OF repr f(2,3)] by blast
  have "xs \<noteq> []" "\<forall>y \<in> set xs. y < 65536" using repr by (auto simp: bm_repr_def intro: less_trans)
  then have h: "hd xs < 65536" by simp
  have f1: "bm_field sm1 p x" using f(1) bm_field_view [OF sm1(3)] by simp
  obtain raw where raw: "wr16 (sm_raw sm1) p (int (hd xs)) = Inr raw" "bm_repr (sm1\<lparr>sm_raw := raw\<rparr>) (tl xs @ [x])"
    "bm_field (sm1\<lparr>sm_raw := raw\<rparr>) p (hd xs)" "\<And>c. bm_fits (bm_view (sm1\<lparr>sm_raw := raw\<rparr>)) c = bm_fits (bm_view sm1) c"
    "\<And>p' z. p' + 2 \<le> p \<or> p + 2 \<le> p' \<Longrightarrow> bm_field (sm1\<lparr>sm_raw := raw\<rparr>) p' z = bm_field sm1 p' z"
    using bm_field_write [OF sm1(2) f1 h] by metis
  have "apfs_reallocate_ip_bitmap p sm = Inr (hd xs, sm1\<lparr>sm_raw := raw\<rparr>)"
    using f(1) sm1(1) raw(1)
    by (auto simp: apfs_reallocate_ip_bitmap_def bm_field_def ip_bitmaps.rotate_def bind_res_eq_Inr)
  then show thesis
    using raw sm1(3) bm_field_view [OF sm1(3)] by (intro that [of "sm1\<lparr>sm_raw := raw\<rparr>"]) auto
qed

text \<open>The reallocation of several bitmaps, one after the other.\<close>

fun reallocate_all :: "int list \<Rightarrow> apfs_spaceman \<Rightarrow> (nat list \<times> apfs_spaceman) result" where
  "reallocate_all [] sm = Inr ([], sm)"
| "reallocate_all (p # ps) sm =
     bind_res (apfs_reallocate_ip_bitmap p sm) (\<lambda>(x, sm).
     bind_res (reallocate_all ps sm) (\<lambda>(xs, sm). Inr (x # xs, sm)))"

fun fields_apart :: "int list \<Rightarrow> bool" where
  "fields_apart [] = True"
| "fields_apart (p # ps) \<longleftrightarrow> (\<forall>p' \<in> set ps. p' + 2 \<le> p \<or> p + 2 \<le> p') \<and> fields_apart ps"

lemma reallocate_all_repr:
  assumes "bm_repr sm xs" "list_all2 (bm_field sm) ps os" "fields_apart ps" "distinct (xs @ os)"
    "\<forall>x \<in> set os. bm_fits (bm_view sm) x"
  shows "\<exists>sm'. reallocate_all ps sm = Inr (take (length ps) (xs @ os), sm') \<and> bm_repr sm' (drop (length ps) (xs @ os)) \<and>
    list_all2 (bm_field sm') ps (take (length ps) (xs @ os)) \<and>
    (\<forall>p z. (\<forall>p' \<in> set ps. p + 2 \<le> p' \<or> p' + 2 \<le> p) \<longrightarrow> bm_field sm' p z = bm_field sm p z)"
  using assms
proof (induction ps arbitrary: sm xs os)
  case (Cons p ps)
  obtain o' os' where os: "os = o' # os'" "bm_field sm p o'" "list_all2 (bm_field sm) ps os'"
    using Cons.prems(2) by (auto simp: list_all2_Cons1)
  obtain y ys where xs: "xs = y # ys" using Cons.prems(1) by (cases xs) (auto simp: bm_repr_def)
  obtain sm1 where sm1: "apfs_reallocate_ip_bitmap p sm = Inr (y, sm1)" "bm_repr sm1 (ys @ [o'])"
    "bm_field sm1 p y" "bm_fits (bm_view sm1) = bm_fits (bm_view sm)"
    "\<And>p' z. p' + 2 \<le> p \<or> p + 2 \<le> p' \<Longrightarrow> bm_field sm1 p' z = bm_field sm p' z"
    using reallocate_repr [OF Cons.prems(1) os(2)] Cons.prems(4,5) os(1) xs by auto
  have fields: "list_all2 (bm_field sm1) ps os'"
    using os(3) sm1(5) Cons.prems(3) by (auto simp: list_all2_conv_all_nth)
  have dist: "distinct ((ys @ [o']) @ os')" using Cons.prems(4) xs os(1) by auto
  from Cons.IH [OF sm1(2) fields _ dist] Cons.prems(3,5) sm1(4) os(1) obtain sm' where sm':
    "reallocate_all ps sm1 = Inr (take (length ps) (ys @ o' # os'), sm')" "bm_repr sm' (drop (length ps) (ys @ o' # os'))"
    "list_all2 (bm_field sm') ps (take (length ps) (ys @ o' # os'))"
    "\<forall>p z. (\<forall>p' \<in> set ps. p + 2 \<le> p' \<or> p' + 2 \<le> p) \<longrightarrow> bm_field sm' p z = bm_field sm1 p z"
    by auto
  have "bm_field sm' p y" using sm'(4) sm1(3) Cons.prems(3) by auto
  then show ?case using sm' sm1(1,5) xs os(1) by auto
qed auto

section \<open>The internal pool as a set of used blocks\<close>

text \<open>The blocks of the pool that are in use, as offsets from its first block.\<close>

definition ip_used :: "apfs_spaceman \<Rightarrow> nat set" where
  "ip_used sm = {off. off div 2 ^ sm_ip_bmaps_shift sm < length (sm_ip_bmaps sm) \<and>
     off mod 2 ^ sm_ip_bmaps_shift sm \<in> bits_set (ipb_block (sm_ip_bmaps sm ! (off div 2 ^ sm_ip_bmaps_shift sm)))}"

definition bmaps_ok :: "int \<Rightarrow> apfs_spaceman \<Rightarrow> bool" where
  "bmaps_ok bs sm \<longleftrightarrow> 2 ^ sm_ip_bmaps_shift sm = nat (bs * 8) \<and> sm_ip_bmaps_shift sm < 32 \<and>
     sm_ip_bmaps_mask sm = mask (sm_ip_bmaps_shift sm) \<and>
     length (sm_ip_bmaps sm) * 2 ^ sm_ip_bmaps_shift sm < 2 ^ 32 \<and>
     (\<forall>info \<in> set (sm_ip_bmaps sm). length (ipb_block info) = nat bs)"

text \<open>The first block of the pool and the number of its blocks.\<close>

definition pool_ok :: "int \<Rightarrow> apfs_spaceman \<Rightarrow> nat \<Rightarrow> nat \<Rightarrow> bool" where
  "pool_ok bs sm base cnt \<longleftrightarrow> bmaps_ok bs sm \<and> rd64 (sm_raw sm) 176 = Inr base \<and> rd64 (sm_raw sm) 152 = Inr cnt \<and>
     0 < base \<and> base + cnt < 2 ^ 64 \<and> cnt \<le> length (sm_ip_bmaps sm) * 2 ^ sm_ip_bmaps_shift sm"

lemma ip_index:
  fixes off shift :: nat
  assumes "off < 2 ^ 64" "shift < 64"
  shows "unat (drop_bit shift (of_nat off :: u64)) = off div 2 ^ shift"
    "unat ((of_nat off :: u64) AND mask shift) = off mod 2 ^ shift"
proof -
  have off: "unat (of_nat off :: u64) = off" using assms(1) by (simp add: unat_of_nat)
  show "unat (drop_bit shift (of_nat off :: u64)) = off div 2 ^ shift"
    unfolding unat_drop_bit_eq off by (rule drop_bit_eq_div)
  show "unat ((of_nat off :: u64) AND mask shift) = off mod 2 ^ shift"
    unfolding take_bit_eq_mask [symmetric] unsigned_take_bit_eq off by (rule take_bit_eq_mod)
qed


lemma ip_offset: "(of_nat (base + off) :: u64) - of_nat base = of_nat off"
  by simp

text \<open>A change of the bit of one block of the pool.\<close>

lemma ip_mark_repr:
  assumes ok: "pool_ok bs sm base cnt" and off: "off < cnt"
    and change: "\<And>n b. n < 8 * length b \<Longrightarrow> \<exists>b'. change n b = Inr b' \<and> length b' = length b \<and> bits_set b' = f n (bits_set b)"
    and f: "\<And>n m A. m \<noteq> n \<Longrightarrow> (m \<in> f n A) = (m \<in> A)" "\<And>n A. (n \<in> f n A) = c"
  shows "\<exists>sm'. ip_mark change (of_nat (base + off)) sm = Inr sm' \<and> pool_ok bs sm' base cnt \<and>
    ip_used sm' = f off (ip_used sm) \<and> ipb_dirty (sm_ip_bmaps sm' ! (off div 2 ^ sm_ip_bmaps_shift sm))"
proof -
  let ?B = "2 ^ sm_ip_bmaps_shift sm :: nat" let ?i = "off div ?B" and ?j = "off mod ?B"
  have ok': "?B = nat (bs * 8)" "sm_ip_bmaps_shift sm < 32" "sm_ip_bmaps_mask sm = mask (sm_ip_bmaps_shift sm)"
    "length (sm_ip_bmaps sm) * ?B < 2 ^ 32" "\<And>info. info \<in> set (sm_ip_bmaps sm) \<Longrightarrow> length (ipb_block info) = nat bs"
    "rd64 (sm_raw sm) 176 = Inr base" "base + cnt < 2 ^ 64" "cnt \<le> length (sm_ip_bmaps sm) * ?B"
    using ok by (auto simp: pool_ok_def bmaps_ok_def)
  have i: "?i < length (sm_ip_bmaps sm)" using off ok'(8) by (simp add: less_mult_imp_div_less)
  let ?info = "sm_ip_bmaps sm ! ?i"
  have len: "length (ipb_block ?info) = nat bs" using ok'(5) i by simp
  have bits: "?B = 8 * nat bs" unfolding ok'(1) by linarith
  have j: "?j < 8 * length (ipb_block ?info)" unfolding len bits [symmetric] by simp
  from change [OF j] obtain b' where b': "change ?j (ipb_block ?info) = Inr b'" "length b' = length (ipb_block ?info)"
      "bits_set b' = f ?j (bits_set (ipb_block ?info))"
    by blast
  let ?bmaps = "(sm_ip_bmaps sm)[?i := \<lparr>ipb_dirty = True, ipb_block = b'\<rparr>]"
  let ?sm = "sm\<lparr>sm_ip_bmaps := ?bmaps\<rparr>"
  have "off < 2 ^ 64" using off ok'(7) by linarith
  note idx = ip_index [OF this, of "sm_ip_bmaps_shift sm"]
  have run: "ip_mark change (of_nat (base + off)) sm = Inr ?sm"
    unfolding ip_mark_def ok'(6) bind_res_Inr Let_def ip_offset ok'(3)
    using idx ok'(2) i b'(1) by simp
  have used: "ip_used ?sm = f off (ip_used sm)"
  proof (rule set_eqI)
    fix m
    show "m \<in> ip_used ?sm \<longleftrightarrow> m \<in> f off (ip_used sm)"
    proof (cases "m = off")
      case True
      then show ?thesis using i b'(3) by (simp add: ip_used_def f(2))
    next
      case False
      show ?thesis
      proof (cases "m div ?B = ?i")
        case True
        then have "m mod ?B \<noteq> ?j" using False by (metis div_mult_mod_eq)
        then show ?thesis using True False i b'(3) by (simp add: ip_used_def f(1))
      qed (use False in \<open>simp add: ip_used_def f(1)\<close>)
    qed
  qed
  have "length (ipb_block x) = nat bs" if "x \<in> set ?bmaps" for x
    using subsetD [OF set_update_subset_insert that] ok'(5) b'(2) len by auto
  then have "pool_ok bs ?sm base cnt" using ok by (auto simp: pool_ok_def bmaps_ok_def)
  then show ?thesis using run used i by (intro exI [of _ ?sm]) simp
qed

lemma ip_mark_used_repr:
  assumes "pool_ok bs sm base cnt" "off < cnt"
  obtains sm' where "apfs_ip_mark_used (of_nat (base + off)) sm = Inr sm'" "pool_ok bs sm' base cnt"
    "ip_used sm' = insert off (ip_used sm)"
proof -
  have "\<exists>b'. set_bit_le n b = Inr b' \<and> length b' = length b \<and> bits_set b' = insert n (bits_set b)" if "n < 8 * length b" for n b
    using set_bit_le_ok [OF that] by metis
  from ip_mark_repr [where change = set_bit_le and f = insert and c = True, OF assms this]
  show thesis using that by (auto simp: apfs_ip_mark_used_def)
qed

lemma ip_mark_free_repr:
  assumes "pool_ok bs sm base cnt" "off < cnt"
  obtains sm' where "apfs_ip_mark_free (of_nat (base + off)) sm = Inr sm'" "pool_ok bs sm' base cnt"
    "ip_used sm' = ip_used sm - {off}"
proof -
  have "\<exists>b'. clear_bit_le n b = Inr b' \<and> length b' = length b \<and> bits_set b' = bits_set b - {n}" if "n < 8 * length b" for n b
    using clear_bit_le_ok [OF that] by metis
  from ip_mark_repr [where change = clear_bit_le and f = "\<lambda>n A. A - {n}" and c = False, OF assms this]
  show thesis using that by (auto simp: apfs_ip_mark_free_def)
qed


text \<open>The search for a free block, from the bitmap with the index \<open>i\<close> on.\<close>

definition used_from :: "nat \<Rightarrow> nat \<Rightarrow> ip_bitmap_block_info list \<Rightarrow> nat set" where
  "used_from b i infos = {off. i * b \<le> off \<and> off div b - i < length infos \<and>
     off mod b \<in> bits_set (ipb_block (infos ! (off div b - i)))}"

lemma used_from_first:
  assumes "0 < b" "n < b"
  shows "i * b + n \<in> used_from b i (info # infos) \<longleftrightarrow> n \<in> bits_set (ipb_block info)"
  using assms by (simp add: used_from_def)

lemma used_from_rest:
  assumes "0 < b" "Suc i * b \<le> off"
  shows "off \<in> used_from b i (info # infos) \<longleftrightarrow> off \<in> used_from b (Suc i) infos"
proof -
  have "Suc i \<le> off div b" using assms by (metis div_le_mono nonzero_mult_div_cancel_right less_not_refl)
  then have "off div b - i = Suc (off div b - Suc i)" by simp
  then show ?thesis using assms by (simp add: used_from_def)
qed

lemma ip_find_free_from_cases:
  assumes "0 < bs" "2 ^ shift = nat (bs * 8)" "(i + length infos) * 2 ^ shift < 2 ^ 32"
    and "\<forall>info \<in> set infos. length (ipb_block info) = nat bs"
  obtains (found) n where "ip_find_free_from bs shift cnt base i infos = Inr (base + of_nat n)" "n < cnt"
      "i * 2 ^ shift \<le> n" "n < (i + length infos) * 2 ^ shift" "n \<notin> used_from (2 ^ shift) i infos"
      "\<forall>m. i * 2 ^ shift \<le> m \<and> m < n \<longrightarrow> m \<in> used_from (2 ^ shift) i infos"
  | (full) "ip_find_free_from bs shift cnt base i infos = Inr 0"
      "\<forall>m. i * 2 ^ shift \<le> m \<and> m < (i + length infos) * 2 ^ shift \<and> m < cnt \<longrightarrow> m \<in> used_from (2 ^ shift) i infos"
  using assms(3,4)
proof (induction infos arbitrary: i thesis)
  case Nil
  show ?case by (rule Nil.prems(2)) auto
next
  case (Cons info infos)
  let ?b = "2 ^ shift :: nat"
  have b: "0 < ?b" "int ?b = bs * 8" using assms(1,2) by simp_all
  have len: "nat (bs * 8) \<le> 8 * length (ipb_block info)" using Cons.prems(4) assms(1) by (simp add: nat_mult_distrib)
  have lim: "(i + length (info # infos)) * ?b = i * ?b + ?b + length infos * ?b" by (simp add: algebra_simps)
  have pos: "nat (to_u32 (int (push_bit shift i))) = i * ?b"
    using Cons.prems(3) lim by (simp add: push_bit_eq_mult to_u32_def nat_mult_distrib nat_mod_distrib flip: of_nat_mult)
  from len show ?case
  proof (cases rule: find_zero_bit_le_cases)
    case (found n)
    have n: "n < ?b" using found(2) unfolding assms(2) .
    have below: "m \<in> used_from ?b i (info # infos)" if "i * ?b \<le> m" "m < i * ?b + n" for m
      using used_from_first [OF b(1), of "m - i * ?b" i info infos] found(4) [of "m - i * ?b"] that n by simp
    have notin: "i * ?b + n \<notin> used_from ?b i (info # infos)" using used_from_first [OF b(1) n] found(3) by simp
    have run: "ip_find_free_from bs shift cnt base i (info # infos) =
        (if i * ?b + n \<ge> cnt then Inr 0 else Inr (base + of_nat (i * ?b + n)))"
    proof -
      have "\<not> bs * 8 \<le> int n" using n b(2) by linarith
      then show ?thesis using found(1) pos by (simp add: Let_def)
    qed
    show ?thesis
    proof (cases "i * ?b + n \<ge> cnt")
      case True
      then show ?thesis using run below by (intro Cons.prems(2)) auto
    next
      case False
      then show ?thesis using run below notin n lim by (intro Cons.prems(1) [of "i * ?b + n"]) auto
    qed
  next
    case full
    have run: "ip_find_free_from bs shift cnt base i (info # infos) = ip_find_free_from bs shift cnt base (Suc i) infos"
      using full(1) assms(1) by simp
    have first: "m \<in> used_from ?b i (info # infos)" if "i * ?b \<le> m" "m < Suc i * ?b" for m
    proof -
      have "m - i * ?b < ?b" using that by simp
      moreover from this have "m - i * ?b \<in> bits_set (ipb_block info)" using full(2) unfolding assms(2) by auto
      ultimately show ?thesis using used_from_first [OF b(1), of "m - i * ?b" i info infos] that(1) by simp
    qed
    have rest: "m \<in> used_from ?b i (info # infos) \<longleftrightarrow> m \<in> used_from ?b (Suc i) infos" if "Suc i * ?b \<le> m" for m
      using used_from_rest [OF b(1) that] .
    have lim': "(Suc i + length infos) * ?b = (i + length (info # infos)) * ?b" by simp
    show ?thesis
    proof (rule Cons.IH [of "Suc i"])
      show "(Suc i + length infos) * ?b < 2 ^ 32" using Cons.prems(3) lim' by simp
      show "\<forall>info \<in> set infos. length (ipb_block info) = nat bs" using Cons.prems(4) by simp
    next
      fix n
      assume n: "ip_find_free_from bs shift cnt base (Suc i) infos = Inr (base + of_nat n)" "n < cnt"
        "Suc i * ?b \<le> n" "n < (Suc i + length infos) * ?b" "n \<notin> used_from ?b (Suc i) infos"
        "\<forall>m. Suc i * ?b \<le> m \<and> m < n \<longrightarrow> m \<in> used_from ?b (Suc i) infos"
      have "m \<in> used_from ?b i (info # infos)" if "i * ?b \<le> m" "m < n" for m
        using n(6) first rest that by (cases "m < Suc i * ?b") auto
      then show ?thesis
        using n rest run lim' by (intro Cons.prems(1) [of n]) auto
    next
      assume f: "ip_find_free_from bs shift cnt base (Suc i) infos = Inr 0"
        "\<forall>m. Suc i * ?b \<le> m \<and> m < (Suc i + length infos) * ?b \<and> m < cnt \<longrightarrow> m \<in> used_from ?b (Suc i) infos"
      have "m \<in> used_from ?b i (info # infos)" if "i * ?b \<le> m" "m < (i + length (info # infos)) * ?b" "m < cnt" for m
        using f(2) first rest that lim' by (cases "m < Suc i * ?b") auto
      then show ?thesis using f(1) run by (intro Cons.prems(2)) auto
    qed
  qed
qed


lemma used_from_0: "used_from (2 ^ sm_ip_bmaps_shift sm) 0 (sm_ip_bmaps sm) = ip_used sm"
  by (simp add: used_from_def ip_used_def)

lemma ip_find_free_cases:
  assumes ok: "pool_ok bs sm base cnt"
  obtains (found) off where "apfs_ip_find_free bs sm = Inr (of_nat (base + off))" "off < cnt" "off \<notin> ip_used sm" "{..<off} \<subseteq> ip_used sm"
  | (full) "apfs_ip_find_free bs sm = Inr 0" "{..<cnt} \<subseteq> ip_used sm"
proof -
  let ?B = "2 ^ sm_ip_bmaps_shift sm :: nat"
  have ok': "?B = nat (bs * 8)" "length (sm_ip_bmaps sm) * ?B < 2 ^ 32"
    "\<forall>info \<in> set (sm_ip_bmaps sm). length (ipb_block info) = nat bs"
    "rd64 (sm_raw sm) 176 = Inr base" "rd64 (sm_raw sm) 152 = Inr cnt" "cnt \<le> length (sm_ip_bmaps sm) * ?B"
    using ok by (auto simp: pool_ok_def bmaps_ok_def)
  have "0 < ?B" by simp
  then have bs: "0 < bs" unfolding ok'(1) by simp
  have run: "apfs_ip_find_free bs sm =
      ip_find_free_from bs (sm_ip_bmaps_shift sm) cnt (of_nat base) 0 (sm_ip_bmaps sm)"
    using ok'(4,5) by (simp add: apfs_ip_find_free_def)
  have lim: "(0 + length (sm_ip_bmaps sm)) * ?B < 2 ^ 32" using ok'(2) by simp
  show thesis
  proof (rule ip_find_free_from_cases [OF bs ok'(1) lim ok'(3), of cnt "of_nat base"])
    fix n
    assume "ip_find_free_from bs (sm_ip_bmaps_shift sm) cnt (of_nat base) 0 (sm_ip_bmaps sm) = Inr (of_nat base + of_nat n)"
      "n < cnt" "n \<notin> used_from ?B 0 (sm_ip_bmaps sm)"
      "\<forall>m. 0 * ?B \<le> m \<and> m < n \<longrightarrow> m \<in> used_from ?B 0 (sm_ip_bmaps sm)"
    then show thesis using found [of n] run by (auto simp: used_from_0)
  next
    assume "ip_find_free_from bs (sm_ip_bmaps_shift sm) cnt (of_nat base) 0 (sm_ip_bmaps sm) = Inr 0"
      "\<forall>m. 0 * ?B \<le> m \<and> m < (0 + length (sm_ip_bmaps sm)) * ?B \<and> m < cnt \<longrightarrow> m \<in> used_from ?B 0 (sm_ip_bmaps sm)"
    then have "apfs_ip_find_free bs sm = Inr 0" "{..<cnt} \<subseteq> ip_used sm" using run ok'(6) by (auto simp: used_from_0)
    then show thesis by (rule full)
  qed
qed

section \<open>Reading the bitmaps\<close>

lemma order_base_2_power: "order_base_2 (2 ^ k) = k"
proof (induction k)
  case (Suc k)
  have "(2 ^ Suc k + 1) div 2 = (2 ^ k :: nat)" by simp
  moreover have "1 < (2 ^ Suc k :: nat)" by (rule one_less_power) simp_all
  ultimately show ?case using Suc by (subst order_base_2.simps) simp
qed (simp add: order_base_2.simps)

text \<open>The bitmap \<open>i\<close> on disk, at the place the raw structure gives for it.\<close>

definition ip_bitmap_on_disk :: "buffer \<Rightarrow> apfs_dev \<Rightarrow> nat \<Rightarrow> buffer \<Rightarrow> bool" where
  "ip_bitmap_on_disk raw dev i b \<longleftrightarrow> (\<exists>base bmoff off. rd64 raw 168 = Inr base \<and> rd32 raw 328 = Inr bmoff \<and>
     rd16 raw (to_u32 (int bmoff + 2 * int i)) = Inr off \<and>
     d_block dev (of_nat base + of_nat off) = Some b)"

lemma read_single_ip_bitmap_sel:
  assumes "apfs_read_single_ip_bitmap i fs = Inr fs'"
  obtains b where "ip_bitmap_on_disk (sm_raw (fs_sm fs)) (fs_dev fs) i b"
    "fs' = fs_set_sm (sm_ip_bmaps_update (\<lambda>l. l[i := \<lparr>ipb_dirty = False, ipb_block = b\<rparr>])) fs"
  using assms
  by (auto simp: apfs_read_single_ip_bitmap_def Let_def bind_res_eq_Inr apfs_sb_bread_def ip_bitmap_on_disk_def
      apfs_spaceman_get_16_def mult.commute split: option.splits if_splits)

lemma read_ip_bitmaps_from_sel:
  assumes "read_ip_bitmaps_from i n fs = Inr fs'" "i + n = length (sm_ip_bmaps (fs_sm fs))"
    "\<forall>j < i. \<not> ipb_dirty (sm_ip_bmaps (fs_sm fs) ! j) \<and>
       ip_bitmap_on_disk (sm_raw (fs_sm fs)) (fs_dev fs) j (ipb_block (sm_ip_bmaps (fs_sm fs) ! j))"
  shows "fs_dev fs' = fs_dev fs \<and> (\<exists>l. fs_sm fs' = (fs_sm fs)\<lparr>sm_ip_bmaps := l\<rparr> \<and> length l = i + n \<and>
    (\<forall>j < i + n. \<not> ipb_dirty (l ! j) \<and> ip_bitmap_on_disk (sm_raw (fs_sm fs)) (fs_dev fs) j (ipb_block (l ! j))))"
  using assms
proof (induction n arbitrary: i fs)
  case 0
  then show ?case by (intro conjI exI [of _ "sm_ip_bmaps (fs_sm fs)"]) auto
next
  case (Suc n)
  obtain fs1 where fs1: "apfs_read_single_ip_bitmap i fs = Inr fs1" "read_ip_bitmaps_from (Suc i) n fs1 = Inr fs'"
    using Suc.prems(1) by (auto simp: bind_res_eq_Inr)
  obtain b where b: "ip_bitmap_on_disk (sm_raw (fs_sm fs)) (fs_dev fs) i b"
      "fs1 = fs_set_sm (sm_ip_bmaps_update (\<lambda>l. l[i := \<lparr>ipb_dirty = False, ipb_block = b\<rparr>])) fs"
    by (rule read_single_ip_bitmap_sel [OF fs1(1)])
  have sel: "fs_dev fs1 = fs_dev fs" "sm_ip_bmaps (fs_sm fs1) = (sm_ip_bmaps (fs_sm fs))[i := \<lparr>ipb_dirty = False, ipb_block = b\<rparr>]"
    "sm_raw (fs_sm fs1) = sm_raw (fs_sm fs)" "\<And>l. (fs_sm fs1)\<lparr>sm_ip_bmaps := l\<rparr> = (fs_sm fs)\<lparr>sm_ip_bmaps := l\<rparr>"
    by (simp_all add: b(2) fs_set_sm_def)
  have "fs_dev fs' = fs_dev fs1 \<and> (\<exists>l. fs_sm fs' = (fs_sm fs1)\<lparr>sm_ip_bmaps := l\<rparr> \<and> length l = Suc i + n \<and>
    (\<forall>j < Suc i + n. \<not> ipb_dirty (l ! j) \<and> ip_bitmap_on_disk (sm_raw (fs_sm fs1)) (fs_dev fs1) j (ipb_block (l ! j))))"
    using Suc.prems(2,3) sel b(1) by (intro Suc.IH [OF fs1(2)]) (auto simp: nth_list_update less_Suc_eq)
  then show ?case using sel by simp
qed

lemma allocate_spaceman_ok:
  assumes "apfs_allocate_spaceman raw sz fs = Inr fs'" "fs_bs fs = 2 ^ k" "k \<le> 16"
    and "\<forall>bno b. d_block (fs_dev fs) bno = Some b \<longrightarrow> int (length b) = fs_bs fs"
  shows "bmaps_ok (fs_bs fs) (fs_sm fs') \<and> fs_dev fs' = fs_dev fs \<and> sm_raw (fs_sm fs') = raw \<and> sm_size (fs_sm fs') = sz \<and>
    rd32 raw 160 = Inr (length (sm_ip_bmaps (fs_sm fs'))) \<and>
    (\<forall>i < length (sm_ip_bmaps (fs_sm fs')). \<not> ipb_dirty (sm_ip_bmaps (fs_sm fs') ! i) \<and>
       ip_bitmap_on_disk raw (fs_dev fs) i (ipb_block (sm_ip_bmaps (fs_sm fs') ! i)))"
proof -
  define sm0 where "sm0 n =
       \<lparr>sm_raw = raw, sm_size = sz, sm_blocks_per_chunk = 0, sm_chunks_per_cib = 0, sm_block_count = 0,
        sm_chunk_count = 0, sm_cib_count = 0, sm_free_count = 0, sm_addr_offset = 0, sm_main_fq_nodes = 0,
        sm_free_cache_base = 0, sm_free_cache_blkcnt = 0,
        sm_ip_bmaps_shift = order_base_2 (nat (fs_bs fs * 8)), sm_ip_bmaps_mask = of_int (fs_bs fs * 8 - 1),
        sm_ip_bmaps = replicate n \<lparr>ipb_dirty = False, ipb_block = []\<rparr>\<rparr>" for n
  obtain n where n: "rd32 raw 160 = Inr n" "n \<le> 200" "apfs_read_ip_bitmaps (fs\<lparr>fs_sm := sm0 n\<rparr>) = Inr fs'"
    using assms(1) unfolding apfs_allocate_spaceman_def sm0_def [symmetric] by (auto simp: bind_res_eq_Inr split: if_splits)
  have bits: "nat (fs_bs fs * 8) = 2 ^ (k + 3)" using assms(2) by (simp add: power_add nat_mult_distrib nat_power_eq)
  have shift: "order_base_2 (nat (fs_bs fs * 8)) = k + 3" unfolding bits by (rule order_base_2_power)
  have mask: "(of_int (fs_bs fs * 8 - 1) :: u64) = mask (k + 3)"
    using assms(2) by (simp add: mask_eq_exp_minus_1 power_add)
  have "fs_dev fs' = fs_dev fs \<and> (\<exists>l. fs_sm fs' = (sm0 n)\<lparr>sm_ip_bmaps := l\<rparr> \<and> length l = 0 + n \<and>
    (\<forall>j < 0 + n. \<not> ipb_dirty (l ! j) \<and> ip_bitmap_on_disk raw (fs_dev fs) j (ipb_block (l ! j))))"
    using read_ip_bitmaps_from_sel [of 0 n "fs\<lparr>fs_sm := sm0 n\<rparr>" fs'] n(3)
    by (simp add: apfs_read_ip_bitmaps_def sm0_def)
  then obtain l where l: "fs_dev fs' = fs_dev fs" "fs_sm fs' = (sm0 n)\<lparr>sm_ip_bmaps := l\<rparr>" "length l = n"
    "\<forall>j < n. \<not> ipb_dirty (l ! j) \<and> ip_bitmap_on_disk raw (fs_dev fs) j (ipb_block (l ! j))"
    by auto
  have "length (ipb_block info) = nat (fs_bs fs)" if "info \<in> set l" for info
    using l(3,4) assms(4) that by (fastforce simp: in_set_conv_nth ip_bitmap_on_disk_def)
  note len = this
  have "length l * 2 ^ (k + 3) \<le> 200 * 2 ^ 19" using n(2) assms(3) l(3) by (intro mult_le_mono power_increasing) auto
  then have "bmaps_ok (fs_bs fs) (fs_sm fs')"
    unfolding bmaps_ok_def l(2) using len bits shift mask assms(3) by (simp add: sm0_def)
  then show ?thesis using l n(1) by (simp add: sm0_def)
qed

section \<open>Properties\<close>

text \<open>
  (C15) The reallocation of the blocks of several bitmaps of the internal pool, as one transaction does it:
  with a well formed list of free blocks it always succeeds, the bitmaps get the blocks that are free for
  the longest time, in order, and the blocks they leave join the end of the list.  So a block that was left
  is not used again as long as there are at least as many free blocks as bitmaps, which keeps the bitmaps
  of the last checkpoint intact.
\<close>

theorem reallocate_ip_bitmaps_fifo:
  assumes "bm_repr sm xs" "list_all2 (bm_field sm) ps os" "fields_apart ps" "distinct (xs @ os)"
    and "\<forall>x \<in> set os. bm_fits (bm_view sm) x"
  shows "\<exists>sm'. reallocate_all ps sm = Inr (take (length ps) (xs @ os), sm') \<and>
    bm_repr sm' (drop (length ps) (xs @ os)) \<and> list_all2 (bm_field sm') ps (take (length ps) (xs @ os)) \<and>
    (length ps \<le> length xs \<longrightarrow> set os \<inter> set (take (length ps) (xs @ os)) = {})"
proof -
  have "set os \<inter> set (take (length ps) (xs @ os)) = {}" if "length ps \<le> length xs"
    using that assms(4) by (auto dest: in_set_takeD)
  then show ?thesis using reallocate_all_repr [OF assms] by blast
qed


text \<open>A space manager with a pool of three bitmap blocks, of which two are free.\<close>

definition sample_sm :: apfs_spaceman where
  "sample_sm = (fs_sm sample_fs)\<lparr>sm_size := 344,
     sm_raw := replicate 164 0 @ [3, 0, 0, 0] @ replicate 152 0 @ [1, 0, 2, 0] @ replicate 8 0 @ [80, 1, 0, 0] @
       [255, 255, 2, 0, 255, 255] @ [0, 0]\<rparr>"

lemma sample_sm_reads:
  "rd32 (sm_raw sample_sm) 332 = Inr 336" "rd32 (sm_raw sample_sm) 164 = Inr 3" "rd16 (sm_raw sample_sm) 320 = Inr 1"
  "rd16 (sm_raw sample_sm) 322 = Inr 2" "rd16 (sm_raw sample_sm) 338 = Inr 2" "rd16 (sm_raw sample_sm) 342 = Inr 0"
  "length (sm_raw sample_sm) = 344" "sm_size sample_sm = 344"
  unfolding sample_sm_def by (simp_all, code_simp+)

theorem reallocate_ip_bitmaps_fifo_witness:
  "\<exists>sm'. reallocate_all [342] sample_sm = Inr ([1], sm') \<and> bm_repr sm' [2, 0] \<and> list_all2 (bm_field sm') [342] [1]"
proof -
  have "bm_repr sample_sm [1, 2]"
    unfolding bm_repr_def using sample_sm_reads by (auto simp: less_Suc_eq)
  moreover have "list_all2 (bm_field sample_sm) [342] [0]" "bm_fits (bm_view sample_sm) 0"
    using sample_sm_reads by (simp_all add: bm_field_def bm_apart_def bm_view_def)
  ultimately show ?thesis
    using reallocate_ip_bitmaps_fifo [of sample_sm "[1, 2]" "[342]" "[0]"] by auto
qed


text \<open>
  (C16) A block that \<open>apfs_ip_find_free\<close> returns lies in the internal pool and is not in use, no block
  before it is free, \<open>apfs_ip_mark_used\<close> adds exactly this block to the used ones, and
  \<open>apfs_ip_mark_free\<close> takes exactly this block out again; the result zero means that the whole pool is in
  use.
\<close>

theorem ip_pool_alloc_free:
  assumes "pool_ok bs sm base cnt"
  shows "(apfs_ip_find_free bs sm = Inr 0 \<and> {..<cnt} \<subseteq> ip_used sm) \<or>
    (\<exists>off sm1 sm2. apfs_ip_find_free bs sm = Inr (of_nat (base + off)) \<and> off < cnt \<and> off \<notin> ip_used sm \<and>
       {..<off} \<subseteq> ip_used sm \<and> apfs_ip_mark_used (of_nat (base + off)) sm = Inr sm1 \<and> pool_ok bs sm1 base cnt \<and>
       ip_used sm1 = insert off (ip_used sm) \<and> apfs_ip_mark_free (of_nat (base + off)) sm1 = Inr sm2 \<and>
       pool_ok bs sm2 base cnt \<and> ip_used sm2 = ip_used sm)"
  using assms
proof (cases rule: ip_find_free_cases)
  case (found off)
  obtain sm1 where sm1: "apfs_ip_mark_used (of_nat (base + off)) sm = Inr sm1" "pool_ok bs sm1 base cnt"
    "ip_used sm1 = insert off (ip_used sm)"
    by (rule ip_mark_used_repr [OF assms found(2)])
  obtain sm2 where "apfs_ip_mark_free (of_nat (base + off)) sm1 = Inr sm2" "pool_ok bs sm2 base cnt"
    "ip_used sm2 = ip_used sm1 - {off}"
    by (rule ip_mark_free_repr [OF sm1(2) found(2)])
  with found sm1 show ?thesis by (intro disjI2 exI [of _ off] exI [of _ sm1] exI [of _ sm2]) auto
next
  case full
  then show ?thesis by simp
qed


text \<open>A pool of three blocks that starts at the block 5, none of them in use.\<close>

definition sample_pool :: apfs_spaceman where
  "sample_pool = (fs_sm sample_fs)\<lparr>sm_size := 344, sm_ip_bmaps_shift := 11, sm_ip_bmaps_mask := mask 11,
     sm_ip_bmaps := [\<lparr>ipb_dirty = False, ipb_block = replicate 256 0\<rparr>],
     sm_raw := replicate 152 0 @ [3, 0, 0, 0, 0, 0, 0, 0] @ [1, 0, 0, 0] @ replicate 12 0 @ [5, 0, 0, 0, 0, 0, 0, 0] @ replicate 160 0\<rparr>"

lemma sample_pool_reads:
  "rd64 (sm_raw sample_pool) 176 = Inr 5" "rd64 (sm_raw sample_pool) 152 = Inr 3" "rd32 (sm_raw sample_pool) 160 = Inr 1"
  "rd64 (sm_raw sample_pool) 168 = Inr 0" "rd32 (sm_raw sample_pool) 328 = Inr 0" "rd16 (sm_raw sample_pool) 0 = Inr 0"
  unfolding sample_pool_def by (simp_all, code_simp+)

lemma sample_pool_ok: "pool_ok 256 sample_pool 5 3" "ip_used sample_pool = {}"
  using sample_pool_reads(1,2) by (simp_all add: pool_ok_def bmaps_ok_def ip_used_def) (simp_all add: sample_pool_def)

theorem ip_pool_alloc_free_witness:
  "\<exists>sm1 sm2. apfs_ip_find_free 256 sample_pool = Inr 5 \<and>
     apfs_ip_mark_used 5 sample_pool = Inr sm1 \<and> ip_used sm1 = {0} \<and>
     apfs_ip_mark_free 5 sm1 = Inr sm2 \<and> ip_used sm2 = {}"
  using ip_pool_alloc_free [OF sample_pool_ok(1)] sample_pool_ok(2) by (auto simp: lessThan_empty_iff)

text \<open>
  \<open>apfs_allocate_spaceman\<close> establishes the invariant of the bitmaps of the internal pool: if it
  succeeds there are as many bitmaps as the raw structure says, the bitmap \<open>i\<close> is the block on disk at the
  base of the bitmaps plus the entry \<open>i\<close> of the array of offsets, and the shift and the mask split the
  offset of a block into a bitmap and a bit.
\<close>

theorem allocate_spaceman_bitmaps:
  assumes "apfs_allocate_spaceman raw sz fs = Inr fs'" "fs_bs fs = 2 ^ k" "k \<le> 16"
    and "\<forall>bno b. d_block (fs_dev fs) bno = Some b \<longrightarrow> int (length b) = fs_bs fs"
  shows "bmaps_ok (fs_bs fs) (fs_sm fs') \<and> fs_dev fs' = fs_dev fs \<and> sm_raw (fs_sm fs') = raw \<and> sm_size (fs_sm fs') = sz \<and>
    rd32 raw 160 = Inr (length (sm_ip_bmaps (fs_sm fs'))) \<and>
    (\<forall>i < length (sm_ip_bmaps (fs_sm fs')). \<not> ipb_dirty (sm_ip_bmaps (fs_sm fs') ! i) \<and>
       ip_bitmap_on_disk raw (fs_dev fs) i (ipb_block (sm_ip_bmaps (fs_sm fs') ! i)))"
  using allocate_spaceman_ok [OF assms] .

definition pool_fs :: apfs_fs where
  "pool_fs = sample_fs\<lparr>fs_dev := sample_dev\<lparr>d_block := \<lambda>_. Some (replicate 256 0)\<rparr>\<rparr>"

theorem allocate_spaceman_bitmaps_witness:
  "\<exists>fs'. apfs_allocate_spaceman (sm_raw sample_pool) 344 pool_fs = Inr fs' \<and> bmaps_ok 256 (fs_sm fs')"
proof -
  have bs: "fs_bs pool_fs = 2 ^ 8" "fs_bs pool_fs = 256" by (simp_all add: pool_fs_def sample_dev_def)
  have "\<exists>fs'. apfs_allocate_spaceman (sm_raw sample_pool) 344 pool_fs = Inr fs'"
    using sample_pool_reads
    by (simp add: apfs_allocate_spaceman_def apfs_read_ip_bitmaps_def apfs_read_single_ip_bitmap_def
        apfs_spaceman_get_16_def apfs_sb_bread_def to_u32_def pool_fs_def)
  then obtain fs' where fs': "apfs_allocate_spaceman (sm_raw sample_pool) 344 pool_fs = Inr fs'" by blast
  have "bmaps_ok (fs_bs pool_fs) (fs_sm fs')"
    using allocate_spaceman_bitmaps [OF fs' bs(1)] by (simp add: pool_fs_def sample_dev_def)
  then show ?thesis using fs' bs(2) by auto
qed

end
