(* ===== verification/SpaceFrame.thy ===== *)
theory SpaceFrame
  imports SpacePool
begin

text \<open>
  What the insertion into a free queue may change: the nodes of the queue, which are ephemeral objects, the
  next object id, the counters of the queues in the space manager, and its cache of one range.  It changes no
  block of the device and no bitmap.
\<close>

section \<open>Conditions on the results of operations\<close>

definition succ :: "('a \<Rightarrow> bool) \<Rightarrow> 'a result option \<Rightarrow> bool" where
  "succ R m \<longleftrightarrow> (\<forall>x. m = Some (Inr x) \<longrightarrow> R x)"

named_theorems succ_intros

lemma succ_simps [simp]: "succ R None" "succ R (Some (Inl e))" "succ R (Some (Inr x)) \<longleftrightarrow> R x"
  by (simp_all add: succ_def)

lemma succ_bindo [succ_intros]: "succ R m \<Longrightarrow> (\<And>x. R x \<Longrightarrow> succ S (f x)) \<Longrightarrow> succ S (bindo m f)"
  by (auto simp: succ_def bindo_eq_Some_Inr)

lemma succ_res: "(\<And>x. r = Inr x \<Longrightarrow> succ S (f x)) \<Longrightarrow> succ S (bindo (Some r) f)"
  by (cases r) auto

lemma succ_bind_res: "(\<And>x. r = Inr x \<Longrightarrow> succ S (Some (f x))) \<Longrightarrow> succ S (Some (bind_res r f))"
  by (cases r) auto

lemma succ_if [succ_intros]: "(c \<Longrightarrow> succ R a) \<Longrightarrow> (\<not> c \<Longrightarrow> succ R b) \<Longrightarrow> succ R (if c then a else b)"
  by simp

lemma succ_mono: "succ R m \<Longrightarrow> (\<And>x. R x \<Longrightarrow> S x) \<Longrightarrow> succ S m"
  by (auto simp: succ_def)

section \<open>Trees of ephemeral nodes\<close>

text \<open>The file system without its ephemeral objects.\<close>

definition eph_rest :: "apfs_fs \<Rightarrow> apfs_fs" where
  "eph_rest fs = fs\<lparr>fs_dev := (fs_dev fs)\<lparr>d_eph_list := []\<rparr>, fs_next_oid := 0\<rparr>"

lemma eph_rest_simps [simp]:
  "eph_rest (put_node eph_ops n fs) = eph_rest fs" "eph_rest (put_root eph_ops chain fs) = eph_rest fs"
  "eph_rest (fs_set_eph l fs) = eph_rest fs" "eph_rest (fs\<lparr>fs_next_oid := oid\<rparr>) = eph_rest fs"
  by (simp_all add: eph_rest_def put_root_def put_node_def eph_ops_def fs_set_eph_def Let_def)

lemma eph_ops_frame:
  "t_create eph_ops fs = Some (Inr (n, fs')) \<Longrightarrow> eph_rest fs' = eph_rest fs"
  "t_delete eph_ops n fs = Some (Inr fs') \<Longrightarrow> eph_rest fs' = eph_rest fs"
  "eph_read_write fs oid = Inr (n, fs') \<Longrightarrow> eph_rest fs' = eph_rest fs"
  by (auto simp: eph_ops_def eph_create_def eph_delete_def eph_read_write_def Let_def bind_res_eq_Inr split: if_splits)

lemma join_node_frame: "join_node eph_ops q fs = Some (Inr (q', m, fs')) \<Longrightarrow> eph_rest fs' = eph_rest fs \<and> \<not> m"
  by (auto simp: join_node_def eph_ops_storage Let_def bind_res_eq_Inr)

lemma inc_height_frame: "apfs_btree_inc_height eph_ops chain fs = Some (Inr (chain', fs')) \<Longrightarrow> eph_rest fs' = eph_rest fs"
  by (auto simp: apfs_btree_inc_height_def Let_def bindo_eq_Some_Inr bind_res_eq_Inr split: if_splits dest: eph_ops_frame)

lemma split_frame:
  "split_prepare eph_ops chain fs = Some (Inr (q, n, k, ps, fs')) \<Longrightarrow> eph_rest fs' = eph_rest fs"
  "split_finish eph_ops q n ps fs = Inr (q', r, fs') \<Longrightarrow> eph_rest fs' = eph_rest fs"
  by (auto simp: split_prepare_def split_finish_def Let_def bindo_eq_Some_Inr bind_res_eq_Inr split: if_splits
      dest!: eph_ops_frame inc_height_frame)

lemma single_rec_frame:
  "single_rec_prepare eph_ops q k v fs = Some (Inr (q', k', fs')) \<Longrightarrow> eph_rest fs' = eph_rest fs"
  "single_rec_finish eph_ops q ps fs = Some (Inr (a, c, r, fs')) \<Longrightarrow> eph_rest fs' = eph_rest fs"
  "change_finish eph_ops ch chain fs = Some (Inr (a, c, r, fs')) \<Longrightarrow> eph_rest fs' = eph_rest fs"
  by (auto simp: single_rec_prepare_def single_rec_finish_def change_finish_def Let_def bindo_eq_Some_Inr bind_res_eq_Inr
      split: if_splits dest!: eph_ops_frame)

lemma succ_D: "m = Some (Inr x) \<Longrightarrow> succ R m \<Longrightarrow> R x"
  by simp

text \<open>The results of the changes of a tree keep the rest of the file system.\<close>

definition kept_rest :: "apfs_fs \<Rightarrow> bool \<times> chain \<times> apfs_node \<times> apfs_fs \<Rightarrow> bool" where
  "kept_rest fs = (\<lambda>(again, chain, root, fs'). eph_rest fs' = eph_rest fs)"

lemma kept_rest_simps [simp]: "kept_rest fs (again, chain, root, fs') \<longleftrightarrow> eph_rest fs' = eph_rest fs"
  by (simp add: kept_rest_def)

lemma succ_bindo_eq: "(\<And>x. m = Some (Inr x) \<Longrightarrow> succ S (f x)) \<Longrightarrow> succ S (bindo m f)"
  by (auto simp: succ_def bindo_eq_Some_Inr)

text \<open>The three ways in which a change of a tree goes on, for any function that does the rest.\<close>

lemma change_parts:
  assumes g: "\<And>change chain fs again chain' root fs'. g eph_ops change chain fs = Some (Inr (again, chain', root, fs')) \<Longrightarrow>
      eph_rest fs' = eph_rest fs"
    and rest: "eph_rest fs1 = eph_rest fs"
  shows single_rec_part: "succ (kept_rest fs)
      (bindo (single_rec_prepare eph_ops query key val fs1) (\<lambda>(new_query, first_key, fs).
       bindo (g eph_ops (Insert first_key (Some (oid_bytes (nd_oid (q_node new_query))))) parents fs)
         (\<lambda>(again, parents, root, fs).
       if again then
         bindo (t_delete eph_ops (q_node new_query) fs) (\<lambda>fs.
         Some (Inr (True, new_query\<lparr>q_node := q_node query\<rparr> # parents, root, fs)))
       else single_rec_finish eph_ops new_query parents fs)))"
    and split_part: "succ (kept_rest fs)
      (bindo (split_prepare eph_ops chain fs1) (\<lambda>(query, new_node, first_key, parents, fs).
       bindo (g eph_ops (Insert first_key (Some (oid_bytes (nd_oid new_node)))) parents fs)
         (\<lambda>(again, parents, root, fs).
       if again then
         bindo (t_delete eph_ops new_node fs) (\<lambda>fs. Some (Inr (True, query # parents, root, fs)))
       else
         bindo (Some (split_finish eph_ops query new_node parents fs)) (\<lambda>(query, root, fs).
         Some (Inr (True, [query], root, fs))))))"
    and room_part: "succ (kept_rest fs)
      (bindo (if c then g eph_ops change' parents fs1 else Some (Inr (False, parents, root, fs1))) (\<lambda>(again, parents, root, fs).
       if again then Some (Inr (True, query # parents, root, fs))
       else change_finish eph_ops change (query # parents) fs))"
proof -
  note frames = single_rec_frame split_frame eph_ops_frame(1,2) g
  show "succ (kept_rest fs)
      (bindo (single_rec_prepare eph_ops query key val fs1) (\<lambda>(new_query, first_key, fs).
       bindo (g eph_ops (Insert first_key (Some (oid_bytes (nd_oid (q_node new_query))))) parents fs)
         (\<lambda>(again, parents, root, fs).
       if again then
         bindo (t_delete eph_ops (q_node new_query) fs) (\<lambda>fs.
         Some (Inr (True, new_query\<lparr>q_node := q_node query\<rparr> # parents, root, fs)))
       else single_rec_finish eph_ops new_query parents fs)))"
    using rest by (auto simp: succ_def bindo_eq_Some_Inr split: if_splits dest!: frames)
  show "succ (kept_rest fs)
      (bindo (split_prepare eph_ops chain fs1) (\<lambda>(query, new_node, first_key, parents, fs).
       bindo (g eph_ops (Insert first_key (Some (oid_bytes (nd_oid new_node)))) parents fs)
         (\<lambda>(again, parents, root, fs).
       if again then
         bindo (t_delete eph_ops new_node fs) (\<lambda>fs. Some (Inr (True, query # parents, root, fs)))
       else
         bindo (Some (split_finish eph_ops query new_node parents fs)) (\<lambda>(query, root, fs).
         Some (Inr (True, [query], root, fs))))))"
    using rest by (auto simp: succ_def bindo_eq_Some_Inr split: if_splits dest!: frames)
  show "succ (kept_rest fs)
      (bindo (if c then g eph_ops change' parents fs1 else Some (Inr (False, parents, root, fs1))) (\<lambda>(again, parents, root, fs).
       if again then Some (Inr (True, query # parents, root, fs))
       else change_finish eph_ops change (query # parents) fs))"
    using rest by (auto simp: succ_def bindo_eq_Some_Inr split: if_splits dest!: frames)
qed

lemma btree_change_frame: "succ (kept_rest fs) (btree_change eph_ops change chain fs)"
proof -
  have "ops = eph_ops \<longrightarrow> succ (kept_rest fs) (Some y)" if "btree_change ops change chain fs = Some y" for ops y
  proof (rule btree_change.raw_induct [OF _ that], goal_cases)
    case (1 g ops change chain fs y)
    show ?case
    proof
      assume ops: "ops = eph_ops"
      have g: "eph_rest fs' = eph_rest fs" if "g eph_ops change chain fs = Some (Inr (again, chain', root, fs'))"
        for change chain fs again chain' root fs'
        using 1(1) [OF that] by simp
      show "succ (kept_rest fs) (Some y)"
        unfolding 1(2) [symmetric] unfolding ops
      proof (cases chain, goal_cases)
        case (2 query parents)
        show ?case
          unfolding 2 list.case
        proof (rule succ_bindo_eq, clarify, drule join_node_frame, clarify, goal_cases)
          case (1 query m fs1)
          then have rest: "eph_rest fs1 = eph_rest fs" and m: "m = False" by simp_all
          show ?case
            unfolding m simp_thms if_False bindo_simps prod.case
            by (intro succ_if room_part [OF g rest] split_part [OF g rest]; (cases change)?;
                simp add: single_rec_part [OF g rest])
        qed
      qed simp
    qed
  qed
  then show ?thesis by (cases "btree_change eph_ops change chain fs") auto
qed


lemma btree_change_loop_frame:
  "succ (\<lambda>(chain, fs'). eph_rest fs' = eph_rest fs) (btree_change_loop eph_ops change nodata chain fs)"
proof -
  have "ops = eph_ops \<longrightarrow> succ (\<lambda>(chain, fs'). eph_rest fs' = eph_rest fs) (Some y)"
    if "btree_change_loop ops change nodata chain fs = Some y" for ops y
  proof (rule btree_change_loop.raw_induct [OF _ that], goal_cases)
    case (1 g ops change nodata chain fs y)
    have g: "succ (\<lambda>(chain, fs'). eph_rest fs' = eph_rest fs) (g eph_ops change nodata c fs)" for change nodata c fs
      using 1(1) [of eph_ops change nodata c fs] by (cases "g eph_ops change nodata c fs") auto
    have "succ (\<lambda>(chain, fs'). eph_rest fs' = eph_rest fs) (Some y)" if ops: "ops = eph_ops"
      unfolding 1(2) [symmetric] unfolding ops
    proof (rule succ_bindo [OF btree_change_frame], clarify, goal_cases)
      case (1 again chain1 root fs1)
      then have "eph_rest fs1 = eph_rest fs" by simp
      then show ?case using g [of fs1] by (auto intro!: succ_if succ_bindo_eq)
    qed
    then show ?case by simp
  qed
  then show ?thesis by (cases "btree_change_loop eph_ops change nodata chain fs") auto
qed


lemma btree_insert_frame: "apfs_btree_insert eph_ops chain k v fs = Some (Inr (chain', fs')) \<Longrightarrow> eph_rest fs' = eph_rest fs"
  using btree_change_loop_frame [of fs "Insert k v" True chain]
  by (auto simp: apfs_btree_insert_def change_rec_count_def bindo_eq_Some_Inr bind_res_eq_Inr succ_def)

section \<open>The free queues\<close>

text \<open>The file system without what belongs to the free queues.\<close>

definition fq_rest :: "apfs_fs \<Rightarrow> apfs_fs" where
  "fq_rest fs = (eph_rest fs)\<lparr>fs_sm := (fs_sm fs)\<lparr>sm_raw := [], sm_main_fq_nodes := 0, sm_free_cache_base := 0,
     sm_free_cache_blkcnt := 0\<rparr>\<rparr>"

definition fq_frame :: "apfs_fs \<Rightarrow> apfs_fs \<Rightarrow> bool" where
  "fq_frame fs' fs \<longleftrightarrow> fq_rest fs' = fq_rest fs \<and> length (fs_raw fs') = length (fs_raw fs) \<and>
     (\<forall>off n. off + int n \<le> 200 \<or> 280 \<le> off \<longrightarrow> rd_le n (fs_raw fs') off = rd_le n (fs_raw fs) off)"

lemma fq_frame_refl [simp]: "fq_frame fs fs"
  by (simp add: fq_frame_def)

lemma fq_frame_trans: "fq_frame fs2 fs1 \<Longrightarrow> fq_frame fs1 fs \<Longrightarrow> fq_frame fs2 fs"
  by (simp add: fq_frame_def)

lemma fq_frame_eph:
  assumes "eph_rest fs' = eph_rest fs"
  shows "fq_frame fs' fs"
proof -
  have "fs_sm fs' = fs_sm fs" using arg_cong [OF assms, of fs_sm] by (simp add: eph_rest_def)
  moreover have "fq_rest fs' = fq_rest fs" using assms calculation by (simp add: fq_rest_def)
  ultimately show ?thesis by (simp add: fq_frame_def)
qed

lemma fq_frame_set [simp]:
  "fq_frame (set_free_cache base cnt fs) fs0 \<longleftrightarrow> fq_frame fs fs0"
  "fq_frame (fs_set_sm (sm_main_fq_nodes_update f) fs) fs0 \<longleftrightarrow> fq_frame fs fs0"
  by (simp_all add: fq_frame_def fq_rest_def eph_rest_def set_free_cache_def fs_set_sm_def)

lemma wr_frame:
  assumes "wr_le k raw off x = Inr raw'" "200 \<le> off" "off + int k \<le> 280"
  shows "length raw' = length raw \<and> (\<forall>o' n. o' + int n \<le> 200 \<or> 280 \<le> o' \<longrightarrow> rd_le n raw' o' = rd_le n raw o')"
proof -
  have "rd_le n raw' o' = rd_le n raw o'" if "o' + int n \<le> 200 \<or> 280 \<le> o'" for o' n
    using rd_le_wr_le_other [OF assms(1), of o' n] that assms(2,3) by linarith
  then show ?thesis using wr_le_length [OF assms(1)] by blast
qed

lemma fq_count_frame:
  assumes "fq_count_insert (fq_off qid) xid count raw = Inr raw'" "qid \<le> 1"
  shows "length raw' = length raw \<and> (\<forall>o' n. o' + int n \<le> 200 \<or> 280 \<le> o' \<longrightarrow> rd_le n raw' o' = rd_le n raw o')"
proof -
  have off: "fq_off qid = 200 \<or> fq_off qid = 240" using assms(2) by (auto simp: fq_off_def le_Suc_eq)
  obtain n c :: nat and raw1 where raw1: "(if n = 0 then wr64 raw (fq_off qid + 16) (uint xid) else Inr raw) = Inr raw1"
    "wr64 raw1 (fq_off qid) (int c + uint count) = Inr raw'"
    using assms(1) by (auto simp: fq_count_insert_def le64_add_cpu_def bind_res_eq_Inr)
  have "length raw1 = length raw \<and> (\<forall>o' n. o' + int n \<le> 200 \<or> 280 \<le> o' \<longrightarrow> rd_le n raw1 o' = rd_le n raw o')"
  proof (cases "n = 0")
    case True
    then show ?thesis using wr_frame [of 8 raw "fq_off qid + 16" "uint xid" raw1] raw1(1) off by auto
  qed (use raw1(1) in auto)
  moreover have "length raw' = length raw1 \<and> (\<forall>o' n. o' + int n \<le> 200 \<or> 280 \<le> o' \<longrightarrow> rd_le n raw' o' = rd_le n raw1 o')"
    using wr_frame [OF raw1(2)] off by auto
  ultimately show ?thesis by auto
qed

lemma succ_query:
  "(\<And>err c. r = Some (err, c) \<Longrightarrow> succ R (h err c)) \<Longrightarrow> succ R (case r of None \<Rightarrow> None | Some (err, c) \<Rightarrow> h err c)"
  by (cases r) auto

lemma fq_insert_finish:
  assumes "apfs_btree_insert eph_ops chain k v fs1 = Some (Inr (chain', fs2))" "eph_rest fs1 = eph_rest fs"
    "fq_count_insert (fq_off qid) xid count (fs_raw fs2) = Inr raw" "qid \<le> 1"
  shows "fq_frame (fs_set_raw raw fs2) fs"
proof -
  have "fq_frame fs2 fs" using btree_insert_frame [OF assms(1)] assms(2) by (intro fq_frame_eph) simp
  moreover have "fq_frame (fs_set_raw raw fs2) fs2"
    using fq_count_frame [OF assms(3,4)] by (simp add: fq_frame_def fq_rest_def eph_rest_def fs_set_raw_def fs_set_sm_def)
  ultimately show ?thesis using fq_frame_trans by blast
qed

lemma try_insert_frame: "succ (\<lambda>fs'. fq_frame fs' fs) (apfs_free_queue_try_insert bno count fs)"
  unfolding apfs_free_queue_try_insert_def Let_def
proof (rule succ_res, rule succ_res, rule succ_res, clarify, goal_cases)
  case (1 qid tree_oid root fs1)
  have rest: "eph_rest fs1 = eph_rest fs" using eph_ops_frame(3) [OF 1(3)] .
  have q: "qid \<le> 1" using 1(1) by (auto simp: bno_qid_def bind_res_eq_Inr)
  show ?case
    by (rule succ_query, rule succ_if, simp, rule succ_res, rule succ_res, rule succ_if, simp, rule succ_bindo_eq, clarify,
        rule succ_res, rule succ_if, rule succ_res)
      (use fq_insert_finish [OF _ rest _ q] in simp_all)
qed

lemma free_queue_insert_frame: "succ (\<lambda>fs'. fq_frame fs' fs) (apfs_free_queue_insert bno count fs)"
proof -
  have "succ (\<lambda>fs'. fq_frame fs' fs) (apfs_free_queue_insert_nocache b c fs)" for b c
    using try_insert_frame [of fs b c]
    by (cases "apfs_free_queue_try_insert b c fs") (auto simp: apfs_free_queue_insert_nocache_def succ_def split: sum.splits)
  note nocache = this
  show ?thesis
    unfolding apfs_free_queue_insert_def Let_def
    by (intro succ_if succ_res) (auto intro!: succ_bindo [OF nocache])
qed

end
