(* ===== verification/SpaceAlloc.thy ===== *)
theory SpaceAlloc
  imports SpaceFrame
begin

text \<open>
  The allocation and the freeing of single blocks in a chunk, with the copy-on-write of the bitmap of the
  chunk and of the chunk-info block into fresh blocks of the internal pool.
\<close>

section \<open>The state of a chunk\<close>

definition blocks_ok :: "apfs_fs \<Rightarrow> bool" where
  "blocks_ok fs \<longleftrightarrow> 0 < fs_bs fs \<and> (\<forall>bno b. d_block (fs_dev fs) bno = Some b \<longrightarrow> int (length b) = fs_bs fs)"

abbreviation fs_pool :: "apfs_fs \<Rightarrow> nat \<Rightarrow> nat \<Rightarrow> bool" where
  "fs_pool fs base cnt \<equiv> pool_ok (fs_bs fs) (fs_sm fs) base cnt"

text \<open>The blocks of the internal pool that are in use.\<close>

definition in_use :: "nat \<Rightarrow> nat \<Rightarrow> apfs_fs \<Rightarrow> u64 \<Rightarrow> bool" where
  "in_use base cnt fs bno \<longleftrightarrow> (\<exists>off < cnt. bno = of_nat (base + off) \<and> off \<in> ip_used (fs_sm fs))"

text \<open>The blocks of the internal pool.\<close>

definition in_pool :: "nat \<Rightarrow> nat \<Rightarrow> u64 \<Rightarrow> bool" where
  "in_pool base cnt bno \<longleftrightarrow> (\<exists>off < cnt. bno = of_nat (base + off))"

lemma in_use_in_pool: "in_use base cnt fs bno \<Longrightarrow> in_pool base cnt bno"
  by (auto simp: in_use_def in_pool_def)

text \<open>
  A chunk: the number of its first block, of its free blocks, and the set of the blocks in use, as offsets
  from the first one.  A chunk without a bitmap has no block in use.
\<close>

definition chunk_bits :: "apfs_fs \<Rightarrow> nat \<Rightarrow> nat set" where
  "chunk_bits fs bitmap_addr =
     (if bitmap_addr = 0 then {}
      else case d_block (fs_dev fs) (of_nat bitmap_addr) of None \<Rightarrow> {} | Some b \<Rightarrow> bits_set b)"

definition chunk_is :: "apfs_fs \<Rightarrow> u64 \<Rightarrow> nat \<Rightarrow> nat \<Rightarrow> nat \<Rightarrow> nat \<Rightarrow> nat set \<Rightarrow> bool" where
  "chunk_is fs cib_bno index addr free_count bitmap_addr used \<longleftrightarrow>
     (\<exists>cib. d_block (fs_dev fs) cib_bno = Some cib \<and> rd64 cib (ci_off index + 8) = Inr addr \<and>
        rd32 cib (ci_off index + 20) = Inr free_count \<and> rd64 cib (ci_off index + 24) = Inr bitmap_addr \<and>
        used = chunk_bits fs bitmap_addr)"

text \<open>Both of the blocks that describe a chunk are blocks of the pool in use.\<close>

definition chunk_ok :: "nat \<Rightarrow> nat \<Rightarrow> apfs_fs \<Rightarrow> u64 \<Rightarrow> nat \<Rightarrow> bool" where
  "chunk_ok base cnt fs cib_bno bitmap_addr \<longleftrightarrow>
     in_use base cnt fs cib_bno \<and>
     (bitmap_addr \<noteq> 0 \<longrightarrow> in_use base cnt fs (of_nat bitmap_addr) \<and> of_nat bitmap_addr \<noteq> cib_bno)"

section \<open>Frames\<close>

lemma fq_frame_dev:
  assumes "fq_frame fs' fs"
  shows "d_block (fs_dev fs') = d_block (fs_dev fs)" "fs_bs fs' = fs_bs fs" "fs_xid fs' = fs_xid fs"
    "sm_ip_bmaps (fs_sm fs') = sm_ip_bmaps (fs_sm fs)" "sm_ip_bmaps_shift (fs_sm fs') = sm_ip_bmaps_shift (fs_sm fs)"
    "sm_ip_bmaps_mask (fs_sm fs') = sm_ip_bmaps_mask (fs_sm fs)" "sm_free_count (fs_sm fs') = sm_free_count (fs_sm fs)"
proof -
  have r: "fq_rest fs' = fq_rest fs" using assms by (simp add: fq_frame_def)
  show "d_block (fs_dev fs') = d_block (fs_dev fs)" using arg_cong [OF r, of "\<lambda>fs. d_block (fs_dev fs)"] by (simp add: fq_rest_def eph_rest_def)
  show "fs_bs fs' = fs_bs fs" using arg_cong [OF r, of fs_bs] by (simp add: fq_rest_def eph_rest_def)
  show "fs_xid fs' = fs_xid fs" using arg_cong [OF r, of fs_xid] by (simp add: fq_rest_def eph_rest_def)
  show "sm_ip_bmaps (fs_sm fs') = sm_ip_bmaps (fs_sm fs)" using arg_cong [OF r, of "\<lambda>fs. sm_ip_bmaps (fs_sm fs)"] by (simp add: fq_rest_def)
  show "sm_ip_bmaps_shift (fs_sm fs') = sm_ip_bmaps_shift (fs_sm fs)" using arg_cong [OF r, of "\<lambda>fs. sm_ip_bmaps_shift (fs_sm fs)"] by (simp add: fq_rest_def)
  show "sm_ip_bmaps_mask (fs_sm fs') = sm_ip_bmaps_mask (fs_sm fs)" using arg_cong [OF r, of "\<lambda>fs. sm_ip_bmaps_mask (fs_sm fs)"] by (simp add: fq_rest_def)
  show "sm_free_count (fs_sm fs') = sm_free_count (fs_sm fs)" using arg_cong [OF r, of "\<lambda>fs. sm_free_count (fs_sm fs)"] by (simp add: fq_rest_def)
qed

lemma fq_frame_pool:
  assumes "fq_frame fs' fs"
  shows "fs_pool fs' base cnt = fs_pool fs base cnt" "ip_used (fs_sm fs') = ip_used (fs_sm fs)"
proof -
  have "rd64 (fs_raw fs') 176 = rd64 (fs_raw fs) 176" "rd64 (fs_raw fs') 152 = rd64 (fs_raw fs) 152"
    using assms by (auto simp: fq_frame_def)
  then show "fs_pool fs' base cnt = fs_pool fs base cnt" "ip_used (fs_sm fs') = ip_used (fs_sm fs)"
    using fq_frame_dev [OF assms] by (simp_all add: pool_ok_def bmaps_ok_def ip_used_def)
qed

lemma put_block_sel [simp]:
  "d_block (fs_dev (put_block bno b fs)) = (d_block (fs_dev fs))(bno \<mapsto> b)" "fs_bs (put_block bno b fs) = fs_bs fs"
  "fs_xid (put_block bno b fs) = fs_xid fs" "fs_sm (put_block bno b fs) = fs_sm fs"
  "d_block (fs_dev (apfs_transaction_join bno fs)) = d_block (fs_dev fs)" "fs_bs (apfs_transaction_join bno fs) = fs_bs fs"
  "fs_xid (apfs_transaction_join bno fs) = fs_xid fs" "fs_sm (apfs_transaction_join bno fs) = fs_sm fs"
  by (simp_all add: put_block_def apfs_transaction_join_def)

lemma apfs_sb_bread_Inr [simp]: "apfs_sb_bread fs bno = Inr b \<longleftrightarrow> d_block (fs_dev fs) bno = Some b"
  by (simp add: apfs_sb_bread_def split: option.split)

lemma apfs_sb_bread_Some [simp]: "d_block (fs_dev fs) bno = Some b \<Longrightarrow> apfs_sb_bread fs bno = Inr b"
  by simp

text \<open>What the steps of an allocation keep: the sizes, the transaction and the layout of the pool.\<close>

definition alloc_frame :: "nat \<Rightarrow> nat \<Rightarrow> apfs_fs \<Rightarrow> apfs_fs \<Rightarrow> bool" where
  "alloc_frame base cnt fs' fs \<longleftrightarrow> fs_pool fs' base cnt \<and> fs_bs fs' = fs_bs fs \<and> fs_xid fs' = fs_xid fs \<and>
     sm_free_count (fs_sm fs') = sm_free_count (fs_sm fs)"

section \<open>Fresh blocks of the pool\<close>

lemma fresh_not_in_use:
  assumes "fs_pool fs base cnt" "off < cnt" "off \<notin> ip_used (fs_sm fs)" "in_use base cnt fs bno"
  shows "bno \<noteq> of_nat (base + off)"
proof
  assume eq: "bno = of_nat (base + off)"
  obtain off' where off': "off' < cnt" "bno = of_nat (base + off')" "off' \<in> ip_used (fs_sm fs)"
    using assms(4) by (auto simp: in_use_def)
  have lim: "base + cnt < 2 ^ 64" using assms(1) by (simp add: pool_ok_def)
  have "unat (of_nat (base + off) :: u64) = base + off" "unat (of_nat (base + off') :: u64) = base + off'"
    using lim assms(2) off'(1) by (simp_all only: unat_of_nat) simp_all
  then have "off = off'" using eq off'(2) by (metis add_left_cancel)
  then show False using off'(3) assms(3) by simp
qed

lemma ip_find_free_nonzero_fresh:
  assumes "fs_pool fs base cnt" "ip_find_free_nonzero fs = Inr bno"
  obtains off where "off < cnt" "off \<notin> ip_used (fs_sm fs)" "bno = of_nat (base + off)"
  using assms(1)
proof (cases rule: ip_find_free_cases)
  case (found off)
  then show thesis using assms(2) by (intro that [of off]) (auto simp: ip_find_free_nonzero_def split: if_splits)
next
  case full
  then show thesis using assms(2) by (simp add: ip_find_free_nonzero_def)
qed

lemma ip_cow_fresh:
  assumes pool: "fs_pool fs base cnt" and run: "ip_cow bno b fs = Some (Inr (new, fs'))"
  obtains off where "off < cnt" "off \<notin> ip_used (fs_sm fs)" "new = of_nat (base + off)"
    "d_block (fs_dev fs') = (d_block (fs_dev fs))(new \<mapsto> b)" "alloc_frame base cnt fs' fs" "ip_used (fs_sm fs') = ip_used (fs_sm fs)"
proof -
  have f: "ip_find_free_nonzero fs = Inr new" and ins: "apfs_free_queue_insert bno 1 (put_block new b fs) = Some (Inr fs')"
    using run by (auto simp: ip_cow_def bindo_eq_Some_Inr)
  obtain off where off: "off < cnt" "off \<notin> ip_used (fs_sm fs)" "new = of_nat (base + off)"
    by (rule ip_find_free_nonzero_fresh [OF pool f])
  have fr: "fq_frame fs' (put_block new b fs)"
    using free_queue_insert_frame [of "put_block new b fs" bno 1] ins by simp
  show thesis
    using fq_frame_dev [OF fr] fq_frame_pool [OF fr] pool by (intro that [OF off]) (auto simp: alloc_frame_def)
qed


section \<open>The bitmap of the chunk and the chunk-info block\<close>

text \<open>
  The block with the bitmap that may be changed: the old one, or a fresh one with the same bits.
\<close>

lemma chunk_bitmap_ready:
  assumes pool: "fs_pool fs base cnt" and ok: "blocks_ok fs" and chunk: "chunk_ok base cnt fs cib_bno ba"
    and cib: "d_block (fs_dev fs) cib_bno = Some cib" "rd64 cib (ci_off index + 24) = Inr ba"
    and run: "chunk_bitmap cib_bno index is_alloc fs = Some (Inr (bmap_bno, fs'))"
  obtains off b where "off < cnt" "bmap_bno = of_nat (base + off)" "bmap_bno \<noteq> cib_bno"
    "d_block (fs_dev fs') = (d_block (fs_dev fs))(bmap_bno \<mapsto> b)" "int (length b) = fs_bs fs" "bits_set b = chunk_bits fs ba"
    "alloc_frame base cnt fs' fs" "ip_used (fs_sm fs') = ip_used (fs_sm fs)"
    "off \<notin> ip_used (fs_sm fs) \<or> bmap_bno = of_nat ba \<and> ba \<noteq> 0"
proof (cases "ba = 0")
  case True
  obtain b0 where f: "ip_find_free_nonzero fs = Inr bmap_bno" "d_block (fs_dev fs) bmap_bno = Some b0"
    and fs': "fs' = put_block bmap_bno (replicate (nat (fs_bs fs)) 0) fs"
    using run cib True by (auto simp: chunk_bitmap_def bindo_eq_Some_Inr split: if_splits)
  obtain off where off: "off < cnt" "off \<notin> ip_used (fs_sm fs)" "bmap_bno = of_nat (base + off)"
    by (rule ip_find_free_nonzero_fresh [OF pool f(1)])
  have "bmap_bno \<noteq> cib_bno" using fresh_not_in_use [OF pool off(1,2), of cib_bno] chunk off(3) by (auto simp: chunk_ok_def)
  moreover have "0 < fs_bs fs" using ok by (simp add: blocks_ok_def)
  ultimately show thesis
    using off pool True by (intro that [of off "replicate (nat (fs_bs fs)) 0"]) (auto simp: fs' alloc_frame_def chunk_bits_def)
next
  case False
  obtain b x where b: "d_block (fs_dev fs) (of_nat ba) = Some b"
    and c: "(if x then ip_cow (of_nat ba) b fs else Some (Inr (of_nat ba, fs))) = Some (Inr (bmap_bno, fs'))"
    using run cib False by (auto simp: chunk_bitmap_def bindo_eq_Some_Inr)
  have len: "int (length b) = fs_bs fs" using ok b by (auto simp: blocks_ok_def)
  have bits: "bits_set b = chunk_bits fs ba" using False b by (simp add: chunk_bits_def)
  have use: "in_use base cnt fs (of_nat ba)" "of_nat ba \<noteq> cib_bno" "in_use base cnt fs cib_bno"
    using chunk False by (auto simp: chunk_ok_def)
  show thesis
  proof (cases x)
    case True
    then obtain off where off: "off < cnt" "off \<notin> ip_used (fs_sm fs)" "bmap_bno = of_nat (base + off)"
      and fs': "d_block (fs_dev fs') = (d_block (fs_dev fs))(bmap_bno \<mapsto> b)" "alloc_frame base cnt fs' fs"
        "ip_used (fs_sm fs') = ip_used (fs_sm fs)"
      using ip_cow_fresh [OF pool, of "of_nat ba" b bmap_bno fs'] c by auto
    have "bmap_bno \<noteq> cib_bno" using fresh_not_in_use [OF pool off(1,2) use(3)] off(3) by simp
    then show thesis using that off fs' len bits by blast
  next
    case False
    then have fs': "fs' = fs" "bmap_bno = of_nat ba" using c by auto
    obtain off where "off < cnt" "of_nat ba = (of_nat (base + off) :: u64)" using use(1) by (auto simp: in_use_def)
    then show thesis
      using that [of off b] fs' len bits use(2) b pool \<open>ba \<noteq> 0\<close> by (auto simp: alloc_frame_def fun_upd_idem)
  qed
qed

lemma fs_ip_mark_used_pool:
  assumes "fs_pool fs base cnt" "off < cnt" "fs_ip_mark_used (of_nat (base + off)) fs = Inr fs'"
  shows "alloc_frame base cnt fs' fs" "ip_used (fs_sm fs') = insert off (ip_used (fs_sm fs))" "fs_dev fs' = fs_dev fs"
proof -
  obtain sm' where sm': "apfs_ip_mark_used (of_nat (base + off)) (fs_sm fs) = Inr sm'" "pool_ok (fs_bs fs) sm' base cnt"
    "ip_used sm' = insert off (ip_used (fs_sm fs))"
    by (rule ip_mark_used_repr [OF assms(1,2)])
  have fs': "fs' = fs\<lparr>fs_sm := sm'\<rparr>" using assms(3) sm'(1) by (simp add: fs_ip_mark_used_def)
  have "sm_free_count sm' = sm_free_count (fs_sm fs)"
    using sm'(1) by (auto simp: apfs_ip_mark_used_def ip_mark_def Let_def bind_res_eq_Inr split: if_splits)
  then show "alloc_frame base cnt fs' fs" "ip_used (fs_sm fs') = insert off (ip_used (fs_sm fs))" "fs_dev fs' = fs_dev fs"
    using sm' by (simp_all add: fs' alloc_frame_def)
qed

text \<open>The chunk-info block that may be changed has the same descriptions of chunks.\<close>

lemma chunk_cib_ready:
  assumes pool: "fs_pool fs base cnt" and cib: "d_block (fs_dev fs) cib_bno = Some cib"
    and run: "chunk_cib old_cib cib_bno fs = Some (Inr (cib_bno', fs'))"
  obtains cib' where "d_block (fs_dev fs') = (d_block (fs_dev fs))(cib_bno' \<mapsto> cib')" "length cib' = length cib"
    "\<forall>off n. 24 \<le> off \<longrightarrow> rd_le n cib' off = rd_le n cib off" "alloc_frame base cnt fs' fs"
    "ip_used (fs_sm fs) \<subseteq> ip_used (fs_sm fs')" "cib_bno' = cib_bno \<or> (\<forall>bno. in_use base cnt fs bno \<longrightarrow> bno \<noteq> cib_bno')"
    "cib_bno' = cib_bno \<or> in_pool base cnt cib_bno'"
proof -
  show thesis
  proof (cases old_cib)
    case True
    obtain fs1 c1 cib' where cow: "ip_cow cib_bno cib fs = Some (Inr (cib_bno', fs1))"
      and w: "wr64 cib 8 (uint cib_bno') = Inr c1" "wr64 c1 16 (uint (fs_xid fs1)) = Inr cib'"
      and m: "fs_ip_mark_used cib_bno' (put_block cib_bno' cib' (apfs_transaction_join cib_bno' fs1)) = Inr fs'"
      using run cib True by (auto simp: chunk_cib_def bindo_eq_Some_Inr bind_res_eq_Inr)
    obtain off where off: "off < cnt" "off \<notin> ip_used (fs_sm fs)" "cib_bno' = of_nat (base + off)"
      and fs1: "d_block (fs_dev fs1) = (d_block (fs_dev fs))(cib_bno' \<mapsto> cib)" "alloc_frame base cnt fs1 fs"
        "ip_used (fs_sm fs1) = ip_used (fs_sm fs)"
      by (rule ip_cow_fresh [OF pool cow])
    let ?fs2 = "put_block cib_bno' cib' (apfs_transaction_join cib_bno' fs1)"
    have "fs_pool ?fs2 base cnt" using fs1(2) by (auto simp: alloc_frame_def)
    note mark = fs_ip_mark_used_pool [OF this off(1), of fs'] m [unfolded off(3)]
    have "d_block (fs_dev fs') = (d_block (fs_dev fs))(cib_bno' \<mapsto> cib')" using mark fs1(1) off(3) by simp
    moreover have "length cib' = length cib" using wr_le_length [OF w(1)] wr_le_length [OF w(2)] by simp
    moreover have "rd_le n cib' o' = rd_le n cib o'" if "24 \<le> o'" for o' n
      using rd_le_wr_le_other [OF w(1), of o' n] rd_le_wr_le_other [OF w(2), of o' n] that by simp
    moreover have "alloc_frame base cnt fs' fs" using mark fs1(2) off(3) by (auto simp: alloc_frame_def)
    moreover have "ip_used (fs_sm fs) \<subseteq> ip_used (fs_sm fs')" using mark fs1(3) off(3) by auto
    moreover have "\<forall>bno. in_use base cnt fs bno \<longrightarrow> bno \<noteq> cib_bno'" using fresh_not_in_use [OF pool off(1,2)] off(3) by auto
    moreover have "in_pool base cnt cib_bno'" using off by (auto simp: in_pool_def)
    ultimately show thesis using that by blast
  next
    case False
    then have "cib_bno' = cib_bno" "fs' = fs" using run cib by (auto simp: chunk_cib_def)
    then show thesis using that [of cib] cib pool by (auto simp: alloc_frame_def fun_upd_idem)
  qed
qed


section \<open>The update of the chunk\<close>

lemma bit_in_chunk_mod:
  assumes "bs = 2 ^ k" "k \<le> 16"
  shows "bit_in_chunk bs bno = unat bno mod (8 * nat bs)"
proof -
  have "(of_int (bs * 8 - 1) :: u64) = mask (k + 3)" using assms(1) by (simp add: mask_eq_exp_minus_1 power_add)
  then have "bit_in_chunk bs bno = unat (take_bit (k + 3) bno)" by (simp add: bit_in_chunk_def take_bit_eq_mask)
  also have "\<dots> = take_bit (k + 3) (unat bno)" by (rule unsigned_take_bit_eq)
  also have "\<dots> = unat bno mod 2 ^ (k + 3)" by (rule take_bit_eq_mod)
  also have "(2 :: nat) ^ (k + 3) = 8 * nat bs" using assms(1) by (simp add: power_add nat_power_eq)
  finally show ?thesis .
qed

text \<open>The bit of the bitmap that is set by an allocation and cleared by a free.\<close>

lemma chunk_bit_update_ok:
  assumes bs: "bs = 2 ^ k" "k \<le> 16" and len: "int (length b) = bs" and addr: "8 * nat bs dvd addr" "addr + 8 * nat bs \<le> 2 ^ 64"
    and run: "chunk_bit_update bs is_alloc (of_nat addr) bno b = Inr (bno', b')"
  obtains n where "n < 8 * nat bs" "n = bit_in_chunk bs bno'" "is_alloc \<longrightarrow> unat bno' = addr + n" "\<not> is_alloc \<longrightarrow> bno' = bno"
    "n \<in> bits_set b \<longleftrightarrow> \<not> is_alloc" "length b' = length b"
    "bits_set b' = (if is_alloc then insert n (bits_set b) else bits_set b - {n})"
proof -
  have bits: "nat (bs * 8) = 8 * nat bs" "8 * nat bs = 8 * length b" "0 < 8 * nat bs" using len bs(1) by auto
  note mod = bit_in_chunk_mod [OF bs]
  show thesis
  proof (cases is_alloc)
    case True
    obtain bno1 where bno1: "apfs_chunk_find_free bs b (of_nat addr) = Inr bno1" "bno1 \<noteq> 0" "bno' = bno1"
      and set: "apfs_chunk_mark_used bs b bno' = Inr b'"
      using run True by (auto simp: chunk_bit_update_def bind_res_eq_Inr split: if_splits)
    have "nat (bs * 8) \<le> 8 * length b" using bits by simp
    then obtain n where n: "n < 8 * nat bs" "n \<notin> bits_set b" "bno' = of_nat (addr + n)"
    proof (cases rule: find_zero_bit_le_cases)
      case (found n)
      then show thesis using bno1 bits by (intro that [of n]) (auto simp: apfs_chunk_find_free_def split: if_splits)
    next
      case full
      then show thesis using bno1 bs(1) by (auto simp: apfs_chunk_find_free_def)
    qed
    have u: "unat bno' = addr + n" using n(1,3) addr(2) by (simp only: unat_of_nat) simp
    have bit: "bit_in_chunk bs bno' = n" unfolding mod u using addr(1) n(1) by (auto simp: mod_add_left_eq elim!: dvdE)
    obtain b1 where b1: "set_bit_le n b = Inr b1" "length b1 = length b" "bits_set b1 = insert n (bits_set b)"
      using set_bit_le_ok [of n b] n(1) bits(2) by auto
    then have "b' = b1" using set bit by (simp add: apfs_chunk_mark_used_def)
    then show thesis by (intro that [of n]) (use n(1,2) u bit b1 True in simp_all)
  next
    case False
    let ?n = "bit_in_chunk bs bno"
    have n: "?n < 8 * nat bs" unfolding mod using bits(3) by simp
    obtain b1 where b1: "test_and_clear_bit_le ?n b = Inr (?n \<in> bits_set b, b1)" "length b1 = length b" "bits_set b1 = bits_set b - {?n}"
      using test_and_clear_bit_le_ok [of ?n b] n bits(2) by auto
    have "?n \<in> bits_set b \<and> bno' = bno \<and> b' = b1"
      using run False b1(1) by (simp add: chunk_bit_update_def apfs_chunk_mark_free_def split: if_splits)
    then show thesis by (intro that [of ?n]) (use n b1 False in simp_all)
  qed
qed

lemma chunk_info_update_ok:
  assumes run: "chunk_info_update index xid bmap_bno is_alloc cib = Inr cib'"
    and fields: "rd64 cib (ci_off index + 8) = Inr addr" "rd32 cib (ci_off index + 20) = Inr free"
  shows "length cib' = length cib" "rd64 cib' (ci_off index + 8) = Inr addr"
    "rd32 cib' (ci_off index + 20) = Inr (nat ((int free + (if is_alloc then - 1 else 1)) mod 2 ^ 32))"
    "rd64 cib' (ci_off index + 24) = Inr (unat bmap_bno)"
proof -
  let ?x = "int free + (if is_alloc then - 1 else 1)"
  obtain c1 f c2 where w: "wr64 cib (ci_off index) (uint xid) = Inr c1" "rd32 c1 (ci_off index + 20) = Inr f"
      "wr32 c1 (ci_off index + 20) (int f + (if is_alloc then - 1 else 1)) = Inr c2"
      "wr64 c2 (ci_off index + 24) (uint bmap_bno) = Inr cib'"
    using run by (auto simp: chunk_info_update_def bind_res_eq_Inr)
  have f: "f = free" using w(2) rd_le_wr_le_other [OF w(1), of "ci_off index + 20" 4] fields(2) by simp
  show "length cib' = length cib" using wr_le_length [OF w(1)] wr_le_length [OF w(3)] wr_le_length [OF w(4)] by simp
  show "rd64 cib' (ci_off index + 8) = Inr addr"
    using fields(1) rd_le_wr_le_other [OF w(1), of "ci_off index + 8" 8] rd_le_wr_le_other [OF w(3), of "ci_off index + 8" 8]
      rd_le_wr_le_other [OF w(4), of "ci_off index + 8" 8] by simp
  have "rd32 c2 (ci_off index + 20) = Inr (nat (?x mod 2 ^ 32))"
    using rd_le_wr_le_same [OF w(3)] f by simp
  then show "rd32 cib' (ci_off index + 20) = Inr (nat (?x mod 2 ^ 32))"
    using rd_le_wr_le_other [OF w(4), of "ci_off index + 20" 4] by simp
  have "uint bmap_bno mod 256 ^ 8 = uint bmap_bno"
    using uint_bounded [of bmap_bno] by (intro mod_pos_pos_trivial) simp_all
  then show "rd64 cib' (ci_off index + 24) = Inr (unat bmap_bno)"
    using rd_le_wr_le_same [OF w(4)] by (simp only: unat_eq_nat_uint)
qed


text \<open>
  What an allocation or a free of a block in a chunk has done when it succeeds.  The chunk may be described
  by other blocks after it.
\<close>

definition chunk_changed :: "bool \<Rightarrow> int \<Rightarrow> nat \<Rightarrow> nat \<Rightarrow> nat set \<Rightarrow> u64 \<Rightarrow> apfs_fs \<Rightarrow> u64 \<Rightarrow> nat \<Rightarrow> bool" where
  "chunk_changed is_alloc bs addr free used bno fs' cib_bno' index \<longleftrightarrow>
     (\<exists>n bitmap_addr'. n = unat bno mod (8 * nat bs) \<and> n < 8 * nat bs \<and> (n \<in> used \<longleftrightarrow> \<not> is_alloc) \<and>
        (is_alloc \<longrightarrow> unat bno = addr + n) \<and>
        chunk_is fs' cib_bno' index addr (nat ((int free + (if is_alloc then - 1 else 1)) mod 2 ^ 32)) bitmap_addr'
          (if is_alloc then insert n used else used - {n}))"

lemma chunk_finish_frame:
  assumes "chunk_finish cib_bno index bmap_bno bno is_alloc fs = Inr (cib_bno', bno', fs')"
  shows "fs_pool fs' base cnt = fs_pool fs base cnt" "fs_bs fs' = fs_bs fs" "fs_xid fs' = fs_xid fs"
proof -
  obtain b1 b2 f where fs': "fs' = fs_set_sm (sm_free_count_update f) (put_block bmap_bno b2 (put_block cib_bno b1 fs))"
    using assms by (auto simp: chunk_finish_def Let_def bind_res_eq_Inr)
  show "fs_pool fs' base cnt = fs_pool fs base cnt" "fs_bs fs' = fs_bs fs" "fs_xid fs' = fs_xid fs"
    by (simp_all add: fs' fs_set_sm_def pool_ok_def bmaps_ok_def)
qed

lemma chunk_finish_ok:
  assumes cib: "d_block (fs_dev fs) cib_bno = Some cib" "rd64 cib (ci_off index + 8) = Inr addr" "rd32 cib (ci_off index + 20) = Inr free"
    and b: "d_block (fs_dev fs) bmap_bno = Some b" "int (length b) = fs_bs fs" "bmap_bno \<noteq> cib_bno" "bmap_bno \<noteq> 0"
    and bs: "fs_bs fs = 2 ^ k" "k \<le> 16" and addr: "8 * nat (fs_bs fs) dvd addr" "addr + 8 * nat (fs_bs fs) \<le> 2 ^ 64"
    and run: "chunk_finish cib_bno index bmap_bno bno is_alloc fs = Inr (cib_bno', bno', fs')"
  shows "cib_bno' = cib_bno" "\<not> is_alloc \<Longrightarrow> bno' = bno"
    "chunk_changed is_alloc (fs_bs fs) addr free (bits_set b) bno' fs' cib_bno' index"
    "\<And>x. x \<noteq> cib_bno \<Longrightarrow> x \<noteq> bmap_bno \<Longrightarrow> d_block (fs_dev fs') x = d_block (fs_dev fs) x"
    "sm_free_count (fs_sm fs') = (if is_alloc then sm_free_count (fs_sm fs) - 1 else sm_free_count (fs_sm fs) + 1)"
proof -
  obtain cib1 where c1: "chunk_info_update index (fs_xid fs) bmap_bno is_alloc cib = Inr cib1"
    using run cib(1) by (auto simp: chunk_finish_def bind_res_eq_Inr)
  note c = chunk_info_update_ok [OF c1 cib(2,3)]
  obtain b' where b': "chunk_bit_update (fs_bs fs) is_alloc (of_nat addr) bno b = Inr (bno', b')"
    and fs': "cib_bno' = cib_bno" "fs' = fs_set_sm (sm_free_count_update (\<lambda>n. if is_alloc then n - 1 else n + 1))
        (put_block bmap_bno b' (put_block cib_bno cib1 fs))"
    using run cib(1) c1 c(2) b(1,3) by (auto simp: chunk_finish_def bind_res_eq_Inr)
  obtain n where n: "n < 8 * nat (fs_bs fs)" "n = bit_in_chunk (fs_bs fs) bno'" "is_alloc \<longrightarrow> unat bno' = addr + n"
    "\<not> is_alloc \<longrightarrow> bno' = bno" "n \<in> bits_set b \<longleftrightarrow> \<not> is_alloc" "length b' = length b"
    "bits_set b' = (if is_alloc then insert n (bits_set b) else bits_set b - {n})"
    by (rule chunk_bit_update_ok [OF bs b(2) addr b'])
  have blocks: "d_block (fs_dev fs') = (d_block (fs_dev fs))(cib_bno \<mapsto> cib1, bmap_bno \<mapsto> b')"
    by (simp add: fs'(2) fs_set_sm_def put_block_def)
  have "chunk_bits fs' (unat bmap_bno) = bits_set b'"
    using b(4) blocks by (simp add: chunk_bits_def unat_eq_zero)
  then have "chunk_is fs' cib_bno index addr (nat ((int free + (if is_alloc then - 1 else 1)) mod 2 ^ 32)) (unat bmap_bno)
      (if is_alloc then insert n (bits_set b) else bits_set b - {n})"
    using c(2-4) b(3) n(7) blocks by (auto simp: chunk_is_def)
  then show "chunk_changed is_alloc (fs_bs fs) addr free (bits_set b) bno' fs' cib_bno' index"
    unfolding chunk_changed_def fs'(1) using n(1,3,5) n(2) [unfolded bit_in_chunk_mod [OF bs]] by blast
  show "cib_bno' = cib_bno" by (rule fs'(1))
  show "\<not> is_alloc \<Longrightarrow> bno' = bno" using n(4) by blast
  show "d_block (fs_dev fs') x = d_block (fs_dev fs) x" if "x \<noteq> cib_bno" "x \<noteq> bmap_bno" for x using that blocks by simp
  show "sm_free_count (fs_sm fs') = (if is_alloc then sm_free_count (fs_sm fs) - 1 else sm_free_count (fs_sm fs) + 1)"
    by (simp add: fs'(2) fs_set_sm_def)
qed

lemma chunk_alloc_free_ok:
  assumes pool: "fs_pool fs base cnt" and ok: "blocks_ok fs" and chunk: "chunk_ok base cnt fs cib_bno ba"
    and ch: "chunk_is fs cib_bno index addr free ba used"
    and bs: "fs_bs fs = 2 ^ k" "k \<le> 16" and addr: "8 * nat (fs_bs fs) dvd addr" "addr + 8 * nat (fs_bs fs) \<le> 2 ^ 64"
    and run: "apfs_chunk_alloc_free cib_bno index bno is_alloc fs = Some (Inr (cib_bno', bno', fs'))"
  shows "(\<not> is_alloc \<longrightarrow> bno' = bno) \<and> (is_alloc \<longrightarrow> 0 < free) \<and>
    chunk_changed is_alloc (fs_bs fs) addr free used bno' fs' cib_bno' index \<and>
    sm_free_count (fs_sm fs') = (if is_alloc then sm_free_count (fs_sm fs) - 1 else sm_free_count (fs_sm fs) + 1) \<and>
    fs_pool fs' base cnt \<and> fs_bs fs' = fs_bs fs \<and> fs_xid fs' = fs_xid fs \<and>
    (\<forall>x. \<not> in_pool base cnt x \<or> in_use base cnt fs x \<and> x \<noteq> cib_bno \<and> (ba = 0 \<or> x \<noteq> of_nat ba) \<longrightarrow>
       d_block (fs_dev fs') x = d_block (fs_dev fs) x)"
proof -
  obtain cib where cib: "d_block (fs_dev fs) cib_bno = Some cib" "rd64 cib (ci_off index + 8) = Inr addr"
    "rd32 cib (ci_off index + 20) = Inr free" "rd64 cib (ci_off index + 24) = Inr ba" "used = chunk_bits fs ba"
    using ch by (auto simp: chunk_is_def)
  have free: "is_alloc \<longrightarrow> 0 < free" using run cib(1,3) by (auto simp: apfs_chunk_alloc_free_def bindo_eq_Some_Inr Let_def split: if_splits)
  obtain bmap_bno fs1 fs2 fs3 cib_bno2 old_cib where steps: "chunk_bitmap cib_bno index is_alloc fs = Some (Inr (bmap_bno, fs1))"
      "fs_ip_mark_used bmap_bno fs1 = Inr fs2" "chunk_cib old_cib cib_bno fs2 = Some (Inr (cib_bno2, fs3))"
      "chunk_finish cib_bno2 index bmap_bno bno is_alloc fs3 = Inr (cib_bno', bno', fs')"
    using run cib(1,3) by (auto simp: apfs_chunk_alloc_free_def bindo_eq_Some_Inr Let_def split: if_splits)
  obtain off b where off: "off < cnt" "bmap_bno = of_nat (base + off)" "bmap_bno \<noteq> cib_bno"
    and b: "d_block (fs_dev fs1) = (d_block (fs_dev fs))(bmap_bno \<mapsto> b)" "int (length b) = fs_bs fs" "bits_set b = chunk_bits fs ba"
    and fr1: "alloc_frame base cnt fs1 fs" "ip_used (fs_sm fs1) = ip_used (fs_sm fs)"
    and new: "off \<notin> ip_used (fs_sm fs) \<or> bmap_bno = of_nat ba \<and> ba \<noteq> 0"
    by (rule chunk_bitmap_ready [OF pool ok chunk cib(1,4) steps(1)])
  have pool1: "fs_pool fs1 base cnt" using fr1(1) by (auto simp: alloc_frame_def)
  note mark = fs_ip_mark_used_pool [OF pool1 off(1) steps(2) [unfolded off(2)]]
  have pool2: "fs_pool fs2 base cnt" using mark(1) by (auto simp: alloc_frame_def)
  have cib2: "d_block (fs_dev fs2) cib_bno = Some cib" using cib(1) mark(3) b(1) off(3) by simp
  obtain cib' where c: "d_block (fs_dev fs3) = (d_block (fs_dev fs2))(cib_bno2 \<mapsto> cib')" "length cib' = length cib"
      "\<forall>o' n. 24 \<le> o' \<longrightarrow> rd_le n cib' o' = rd_le n cib o'" "alloc_frame base cnt fs3 fs2"
      "ip_used (fs_sm fs2) \<subseteq> ip_used (fs_sm fs3)" "cib_bno2 = cib_bno \<or> (\<forall>bno. in_use base cnt fs2 bno \<longrightarrow> bno \<noteq> cib_bno2)"
      "cib_bno2 = cib_bno \<or> in_pool base cnt cib_bno2"
    by (rule chunk_cib_ready [OF pool2 cib2 steps(3)])
  have use2: "in_use base cnt fs2 bmap_bno" using mark(2) off by (auto simp: in_use_def)
  have ne: "bmap_bno \<noteq> cib_bno2" using c(6) use2 off(3) by auto
  have lim: "0 < base" "base + cnt < 2 ^ 64" using pool by (simp_all add: pool_ok_def)
  have nz: "bmap_bno \<noteq> 0"
  proof -
    have "unat (of_nat (base + off) :: u64) = base + off" using lim off(1) by (simp only: unat_of_nat) simp
    then show ?thesis using lim(1) off(2) by (metis add_is_0 not_less_zero unat_0)
  qed
  have pool3: "fs_pool fs3 base cnt" using c(4) by (auto simp: alloc_frame_def)
  have fs3: "fs_xid fs3 = fs_xid fs" "fs_bs fs3 = fs_bs fs" "sm_free_count (fs_sm fs3) = sm_free_count (fs_sm fs)"
    using c(4) mark(1) fr1(1) by (simp_all add: alloc_frame_def)
  have o24: "24 \<le> ci_off index + 8" "24 \<le> ci_off index + 20" by (simp_all add: ci_off_def)
  have cib3: "d_block (fs_dev fs3) cib_bno2 = Some cib'" "rd64 cib' (ci_off index + 8) = Inr addr" "rd32 cib' (ci_off index + 20) = Inr free"
    using c(1) c(3) [rule_format, OF o24(1), of 8] c(3) [rule_format, OF o24(2), of 4] cib(2,3) by simp_all
  have b3: "d_block (fs_dev fs3) bmap_bno = Some b" using c(1) ne mark(3) b(1) by simp
  note fin = chunk_finish_ok [OF cib3 b3 _ ne nz _ bs(2) _ _ steps(4), unfolded fs3(2,3)]
  have outside: "d_block (fs_dev fs') x = d_block (fs_dev fs) x" if x: "\<not> in_pool base cnt x" for x
  proof -
    have "x \<noteq> bmap_bno" using x off(1,2) by (auto simp: in_pool_def)
    moreover have "x \<noteq> cib_bno2" using x c(7) chunk by (auto simp: chunk_ok_def dest: in_use_in_pool)
    ultimately show ?thesis using fin(4) [of x] b(2) bs addr c(1) mark(3) b(1) by simp
  qed
  have others: "d_block (fs_dev fs') x = d_block (fs_dev fs) x"
    if x: "in_use base cnt fs x" "x \<noteq> cib_bno" "ba = 0 \<or> x \<noteq> of_nat ba" for x
  proof -
    have "x \<noteq> bmap_bno" using new fresh_not_in_use [OF pool off(1) _ x(1)] off(2) x(3) by auto
    moreover have "in_use base cnt fs2 x" using x(1) mark(2) fr1(2) by (auto simp: in_use_def)
    then have "x \<noteq> cib_bno2" using c(6) x(2) by auto
    ultimately show ?thesis using fin(4) [of x] b(2) bs addr c(1) mark(3) b(1) by simp
  qed
  have kept: "fs_pool fs' base cnt" "fs_bs fs' = fs_bs fs" "fs_xid fs' = fs_xid fs"
    using chunk_finish_frame [OF steps(4)] fs3 pool3 by simp_all
  show ?thesis using fin(1,2,3,5) b(2,3) bs addr cib(5) free kept others outside by (auto simp del: if_split)
qed


section \<open>Success within a transaction\<close>

lemma chunk_info_update_total:
  assumes "ci_off index + 32 \<le> int (length cib)"
  obtains cib' where "chunk_info_update index xid bmap_bno is_alloc cib = Inr cib'"
proof -
  have o0: "0 \<le> ci_off index" by (simp add: ci_off_def)
  obtain c1 where c1: "wr64 cib (ci_off index) (uint xid) = Inr c1" using wr_le_ok [of "ci_off index" 8 cib] o0 assms by auto
  have l1: "length c1 = length cib" using wr_le_length [OF c1] .
  obtain f where f: "rd32 c1 (ci_off index + 20) = Inr f" using rd_le_ok [of "ci_off index + 20" 4 c1] o0 assms l1 by auto
  obtain c2 where c2: "wr32 c1 (ci_off index + 20) (int f + (if is_alloc then - 1 else 1)) = Inr c2"
    using wr_le_ok [of "ci_off index + 20" 4 c1] o0 assms l1 by fastforce
  have l2: "length c2 = length c1" using wr_le_length [OF c2] .
  obtain c3 where "wr64 c2 (ci_off index + 24) (uint bmap_bno) = Inr c3"
    using wr_le_ok [of "ci_off index + 24" 8 c2] o0 assms l1 l2 by fastforce
  then show thesis using that c1 f c2 by (simp add: chunk_info_update_def)
qed

lemma chunk_bit_update_total:
  assumes bs: "bs = 2 ^ k" "k \<le> 16" and len: "int (length b) = bs"
    and addr: "8 * nat bs dvd addr" "addr + 8 * nat bs \<le> 2 ^ 64" "0 < addr" and free: "\<not> {..<8 * nat bs} \<subseteq> bits_set b"
  obtains bno' b' where "chunk_bit_update bs True (of_nat addr) bno b = Inr (bno', b')"
proof -
  have bits: "nat (bs * 8) = 8 * nat bs" "8 * nat bs = 8 * length b" using len bs(1) by auto
  have "nat (bs * 8) \<le> 8 * length b" using bits by simp
  then obtain n where n: "n < 8 * nat bs" "apfs_chunk_find_free bs b (of_nat addr) = Inr (of_nat (addr + n))"
  proof (cases rule: find_zero_bit_le_cases)
    case (found n)
    then show thesis using bits bs(1) by (intro that [of n]) (auto simp: apfs_chunk_find_free_def)
  next
    case full
    then show thesis using free bits(1) by simp
  qed
  have u: "unat (of_nat (addr + n) :: u64) = addr + n" using n(1) addr(2) by (simp only: unat_of_nat) simp
  have "(of_nat (addr + n) :: u64) \<noteq> 0" using u addr(3) by (metis add_is_0 less_irrefl unat_0)
  moreover have "bit_in_chunk bs (of_nat (addr + n)) < 8 * length b"
    unfolding bit_in_chunk_mod [OF bs] bits(2) using n(1) bits(2) by (intro mod_less_divisor) linarith
  then obtain b' where "apfs_chunk_mark_used bs b (of_nat (addr + n)) = Inr b'"
    unfolding apfs_chunk_mark_used_def using set_bit_le_ok by metis
  ultimately show thesis using that n(2) by (simp add: chunk_bit_update_def)
qed

lemma chunk_alloc_total:
  assumes pool: "fs_pool fs base cnt" and ok: "blocks_ok fs" and chunk: "chunk_ok base cnt fs cib_bno ba"
    and cib: "d_block (fs_dev fs) cib_bno = Some cib" "rd64 cib (ci_off index + 8) = Inr addr"
      "rd32 cib (ci_off index + 20) = Inr free" "rd64 cib (ci_off index + 24) = Inr ba"
    and xid: "rd64 cib 16 = Inr cib_xid" "rd64 cib (ci_off index) = Inr ci_xid" "fs_xid fs \<le> of_nat cib_xid" "fs_xid fs \<le> of_nat ci_xid"
    and ba: "ba \<noteq> 0" "d_block (fs_dev fs) (of_nat ba) = Some b" and free: "0 < free" "\<not> {..<8 * nat (fs_bs fs)} \<subseteq> bits_set b"
    and idx: "ci_off index + 32 \<le> fs_bs fs"
    and bs: "fs_bs fs = 2 ^ k" "k \<le> 16" and addr: "8 * nat (fs_bs fs) dvd addr" "addr + 8 * nat (fs_bs fs) \<le> 2 ^ 64" "0 < addr"
  shows "\<exists>bno fs'. apfs_chunk_alloc_free cib_bno index bno0 True fs = Some (Inr (cib_bno, bno, fs')) \<and>
    fs_raw fs' = fs_raw fs \<and> sm_addr_offset (fs_sm fs') = sm_addr_offset (fs_sm fs)"
proof -
  obtain off where off: "off < cnt" "of_nat ba = (of_nat (base + off) :: u64)" "of_nat ba \<noteq> cib_bno"
    using chunk ba(1) by (auto simp: chunk_ok_def in_use_def)
  obtain sm' where sm': "apfs_ip_mark_used (of_nat ba) (fs_sm fs) = Inr sm'"
    using ip_mark_used_repr [OF pool off(1)] off(2) by metis
  then have "sm_raw sm' = fs_raw fs" "sm_addr_offset sm' = sm_addr_offset (fs_sm fs)"
    by (auto simp: apfs_ip_mark_used_def ip_mark_def Let_def bind_res_eq_Inr split: if_splits)
  then obtain fs2 where fs2: "fs_ip_mark_used (of_nat ba) fs = Inr fs2" "fs_dev fs2 = fs_dev fs" "fs_raw fs2 = fs_raw fs"
      "sm_addr_offset (fs_sm fs2) = sm_addr_offset (fs_sm fs)"
    using sm' by (simp add: fs_ip_mark_used_def)
  have len: "int (length cib) = fs_bs fs" "int (length b) = fs_bs fs" using ok cib(1) ba(2) by (auto simp: blocks_ok_def)
  obtain cib1 where c1: "chunk_info_update index (fs_xid fs) (of_nat ba) True cib = Inr cib1"
    using chunk_info_update_total [of index cib] idx len(1) by metis
  obtain bno b' where b': "chunk_bit_update (fs_bs fs) True (of_nat addr) bno0 b = Inr (bno, b')"
    using chunk_bit_update_total [OF bs len(2) addr free(2)] by metis
  have bm: "chunk_bitmap cib_bno index True fs = Some (Inr (of_nat ba, fs))"
    using cib(1,4) xid(2) leD [OF xid(4)] ba by (simp add: chunk_bitmap_def)
  have cc: "chunk_cib (of_nat cib_xid < fs_xid fs) cib_bno fs2 = Some (Inr (cib_bno, fs2))"
    using leD [OF xid(3)] by (simp add: chunk_cib_def)
  have "\<exists>fs'. chunk_finish cib_bno index (of_nat ba) bno0 True fs2 = Inr (cib_bno, bno, fs') \<and>
      fs_raw fs' = fs_raw fs \<and> sm_addr_offset (fs_sm fs') = sm_addr_offset (fs_sm fs)"
    using cib(1) c1 chunk_info_update_ok(2) [OF c1 cib(2,3)] b' fs2 ba(2) off(3) by (simp add: chunk_finish_def fs_set_sm_def)
  then show ?thesis
    using cib(1,3) xid(1) free(1) bm fs2(1) cc by (simp add: apfs_chunk_alloc_free_def Let_def) blast
qed


section \<open>Properties\<close>

text \<open>
  A file system for the concrete instances, with blocks of 256 bytes and an internal pool of three blocks: the
  chunk-info block 5 describes one chunk, which starts at the block 2048, and the block 6 is its bitmap.  The
  first block of the chunk is in use.
\<close>

definition chunk_fs :: apfs_fs where
  "chunk_fs = sample_fs\<lparr>
     fs_dev := sample_dev\<lparr>d_block := [
       5 \<mapsto> replicate 16 0 @ [9, 0, 0, 0, 0, 0, 0, 0] @ replicate 16 0 @
         [9, 0, 0, 0, 0, 0, 0, 0] @ [0, 8, 0, 0, 0, 0, 0, 0] @ [0, 0, 0, 0] @ [7, 0, 0, 0] @ [6, 0, 0, 0, 0, 0, 0, 0] @ replicate 184 0,
       6 \<mapsto> 1 # replicate 255 0]\<rparr>,
     fs_sm := sample_pool\<lparr>sm_ip_bmaps := [\<lparr>ipb_dirty = False, ipb_block = 3 # replicate 255 0\<rparr>]\<rparr>\<rparr>"

abbreviation chunk_cib_block :: buffer where "chunk_cib_block \<equiv> the (d_block (fs_dev chunk_fs) 5)"

lemma chunk_fs_blocks:
  "d_block (fs_dev chunk_fs) 5 = Some chunk_cib_block" "d_block (fs_dev chunk_fs) 6 = Some (1 # replicate 255 0)"
  "rd64 chunk_cib_block 16 = Inr 9" "rd64 chunk_cib_block (ci_off 0) = Inr 9" "rd64 chunk_cib_block (ci_off 0 + 8) = Inr 2048"
  "rd32 chunk_cib_block (ci_off 0 + 20) = Inr 7" "rd64 chunk_cib_block (ci_off 0 + 24) = Inr 6"
  unfolding chunk_fs_def by (simp_all add: ci_off_def, code_simp+)

lemma bits_set_byte: "bits_set (x # replicate m 0) = {n. n < 8 \<and> bit x n}"
proof (rule set_eqI)
  fix n :: nat
  show "n \<in> bits_set (x # replicate m 0) \<longleftrightarrow> n \<in> {n. n < 8 \<and> bit x n}"
  proof (cases "n < 8")
    case False
    then have "n div 8 \<noteq> 0" by simp
    then show ?thesis using False by (auto simp: bits_set_def buf_bit_def nth_Cons' less_mult_imp_div_less)
  qed (simp add: bits_set_def buf_bit_def)
qed

lemma bits_1_3: "bits_set (1 # replicate m 0) = {0}" "bits_set (3 # replicate m 0) = {0, 1}"
proof -
  have "bit (3 :: byte) n \<longleftrightarrow> n = 0 \<or> n = 1" if "n < 8" for n
  proof -
    have "n \<in> {0, 1, 2, 3, 4, 5, 6, 7}" using that by auto
    then show ?thesis by (elim insertE) simp_all
  qed
  note three = this
  have "n < 8 \<and> bit (3 :: byte) n \<longleftrightarrow> n \<in> {0, 1}" for n
    using three [of n] by auto
  then show "bits_set (3 # replicate m 0) = {0, 1}" unfolding bits_set_byte by blast
qed (auto simp: bits_set_byte bit_1_iff)

lemma chunk_fs_ok:
  "fs_bs chunk_fs = 256" "blocks_ok chunk_fs" "fs_pool chunk_fs 5 3" "chunk_ok 5 3 chunk_fs 5 6" "fs_xid chunk_fs = 9"
  "chunk_is chunk_fs 5 0 2048 7 6 {0}"
proof -
  show bs: "fs_bs chunk_fs = 256" and "fs_xid chunk_fs = 9" by (simp_all add: chunk_fs_def sample_dev_def)
  show "blocks_ok chunk_fs" by (simp add: blocks_ok_def chunk_fs_def sample_dev_def)
  show "fs_pool chunk_fs 5 3"
    using sample_pool_ok(1) by (simp add: pool_ok_def bmaps_ok_def bs) (simp add: chunk_fs_def sample_pool_def)
  have used: "ip_used (fs_sm chunk_fs) = {0, 1}"
    by (auto simp: ip_used_def chunk_fs_def bits_1_3 sample_pool_def)
  show "chunk_ok 5 3 chunk_fs 5 6"
  proof -
    have "in_use 5 3 chunk_fs 5" unfolding in_use_def used by (intro exI [of _ 0]) simp
    moreover have "in_use 5 3 chunk_fs 6" unfolding in_use_def used by (intro exI [of _ 1]) simp
    ultimately show ?thesis by (simp add: chunk_ok_def)
  qed
  show "chunk_is chunk_fs 5 0 2048 7 6 {0}"
    unfolding chunk_is_def using chunk_fs_blocks by (intro exI [of _ chunk_cib_block]) (simp add: chunk_bits_def bits_1_3)
qed

text \<open>
  (C17) When \<open>apfs_chunk_alloc_free\<close> succeeds, with or without the copy-on-write of the bitmap and of the
  chunk-info block: an allocation returns a block of the chunk that was not in use, and only in a chunk that
  counts a free block; the set of blocks in use grows by exactly this block, and a free shrinks it by exactly
  the given block, which was in use; the counters of free blocks follow; the invariant of the pool holds; the
  new blocks for the metadata are fresh ones, so that neither a block outside of the internal pool nor another
  block of the pool in use is written.
\<close>

theorem chunk_alloc_free_correct:
  assumes "fs_pool fs base cnt" "blocks_ok fs" "chunk_ok base cnt fs cib_bno ba" "chunk_is fs cib_bno index addr free ba used"
    and "fs_bs fs = 2 ^ k" "k \<le> 16" "8 * nat (fs_bs fs) dvd addr" "addr + 8 * nat (fs_bs fs) \<le> 2 ^ 64"
    and "apfs_chunk_alloc_free cib_bno index bno is_alloc fs = Some (Inr (cib_bno', bno', fs'))"
  shows "(\<not> is_alloc \<longrightarrow> bno' = bno) \<and> (is_alloc \<longrightarrow> 0 < free) \<and>
    chunk_changed is_alloc (fs_bs fs) addr free used bno' fs' cib_bno' index \<and>
    sm_free_count (fs_sm fs') = (if is_alloc then sm_free_count (fs_sm fs) - 1 else sm_free_count (fs_sm fs) + 1) \<and>
    fs_pool fs' base cnt \<and> fs_bs fs' = fs_bs fs \<and> fs_xid fs' = fs_xid fs \<and>
    (\<forall>x. \<not> in_pool base cnt x \<or> in_use base cnt fs x \<and> x \<noteq> cib_bno \<and> (ba = 0 \<or> x \<noteq> of_nat ba) \<longrightarrow>
       d_block (fs_dev fs') x = d_block (fs_dev fs) x)"
  using chunk_alloc_free_ok [OF assms] .

lemma chunk_fs_alloc: "\<exists>bno fs'. apfs_chunk_alloc_free 5 0 0 True chunk_fs = Some (Inr (5, bno, fs')) \<and>
    fs_raw fs' = fs_raw chunk_fs \<and> sm_addr_offset (fs_sm fs') = sm_addr_offset (fs_sm chunk_fs)"
proof -
  have nf: "\<not> {..<2048 :: nat} \<subseteq> {0}"
  proof -
    have "(1 :: nat) \<in> {..<2048}" "(1 :: nat) \<notin> {0}" by simp_all
    then show ?thesis by blast
  qed
  show ?thesis
    by (rule chunk_alloc_total [where k = 8 and b = "1 # replicate 255 0", OF chunk_fs_ok(3,2,4) chunk_fs_blocks(1,5,6,7) chunk_fs_blocks(3,4)])
      (use chunk_fs_ok chunk_fs_blocks nf in \<open>simp_all add: bits_1_3 ci_off_def\<close>)
qed

theorem chunk_alloc_free_correct_witness:
  "\<exists>bno fs'. apfs_chunk_alloc_free 5 0 0 True chunk_fs = Some (Inr (5, bno, fs')) \<and>
     chunk_changed True 256 2048 7 {0} bno fs' 5 0"
proof -
  obtain bno fs' where run: "apfs_chunk_alloc_free 5 0 0 True chunk_fs = Some (Inr (5, bno, fs'))"
    using chunk_fs_alloc by blast
  then show ?thesis
    using chunk_alloc_free_correct [OF chunk_fs_ok(3,2,4,6), of 8 0 True] chunk_fs_ok(1) by auto
qed


text \<open>
  An allocation in a chunk whose metadata already belongs to the current transaction does return a
  block if the chunk counts a free block and has a clear bit in its bitmap.
\<close>

theorem chunk_alloc_returns:
  assumes "fs_pool fs base cnt" "blocks_ok fs" "chunk_ok base cnt fs cib_bno ba"
    and "d_block (fs_dev fs) cib_bno = Some cib" "rd64 cib (ci_off index + 8) = Inr addr"
      "rd32 cib (ci_off index + 20) = Inr free" "rd64 cib (ci_off index + 24) = Inr ba"
    and "rd64 cib 16 = Inr cib_xid" "rd64 cib (ci_off index) = Inr ci_xid" "fs_xid fs \<le> of_nat cib_xid" "fs_xid fs \<le> of_nat ci_xid"
    and "ba \<noteq> 0" "d_block (fs_dev fs) (of_nat ba) = Some b" "0 < free" "\<not> {..<8 * nat (fs_bs fs)} \<subseteq> bits_set b"
    and "ci_off index + 32 \<le> fs_bs fs"
    and "fs_bs fs = 2 ^ k" "k \<le> 16" "8 * nat (fs_bs fs) dvd addr" "addr + 8 * nat (fs_bs fs) \<le> 2 ^ 64" "0 < addr"
  shows "\<exists>bno fs'. apfs_chunk_allocate_block cib_bno index fs = Some (Inr (cib_bno, bno, fs'))"
  unfolding apfs_chunk_allocate_block_def using chunk_alloc_total [OF assms] by blast

theorem chunk_alloc_returns_witness:
  "\<exists>bno fs'. apfs_chunk_allocate_block 5 0 chunk_fs = Some (Inr (5, bno, fs'))"
proof -
  have "(1 :: nat) \<in> {..<2048}" "(1 :: nat) \<notin> {0}" by simp_all
  then have nf: "\<not> {..<2048 :: nat} \<subseteq> {0}" by blast
  show ?thesis
    by (rule chunk_alloc_returns [where k = 8 and b = "1 # replicate 255 0", OF chunk_fs_ok(3,2,4) chunk_fs_blocks(1,5,6,7) chunk_fs_blocks(3,4)])
      (use chunk_fs_ok chunk_fs_blocks nf in \<open>simp_all add: bits_1_3 ci_off_def\<close>)
qed


text \<open>The blocks that the cache in front of the free queues holds.\<close>

definition cached_blocks :: "apfs_fs \<Rightarrow> nat set" where
  "cached_blocks fs =
     (let base = unat (sm_free_cache_base (fs_sm fs)); n = unat (sm_free_cache_blkcnt (fs_sm fs))
      in if base = 0 then {} else {base ..< base + n})"

lemma cached_set:
  assumes "base \<noteq> 0"
  shows "cached_blocks (set_free_cache base n fs) = {unat base ..< unat base + unat n}"
  using assms by (simp add: cached_blocks_def set_free_cache_def fs_set_sm_def unat_eq_zero Let_def)

text \<open>
  No freed block gets lost in the cache of \<open>apfs_free_queue_insert\<close>: either the cache covers exactly the
  blocks that it covered before and the new ones, and nothing else has changed, or the old range was put into
  its free queue and the cache covers exactly the new blocks.
\<close>

theorem free_queue_cache_keeps_blocks:
  assumes "apfs_free_queue_insert bno count fs = Some (Inr fs')" "bno \<noteq> 0" "unat bno + unat count < 2 ^ 64"
    and "unat (sm_free_cache_base (fs_sm fs)) + unat (sm_free_cache_blkcnt (fs_sm fs)) + unat count < 2 ^ 64"
  shows "(cached_blocks fs' = cached_blocks fs \<union> {unat bno ..< unat bno + unat count} \<and> (\<exists>b n. fs' = set_free_cache b n fs)) \<or>
    (\<exists>fs1. apfs_free_queue_insert_nocache (sm_free_cache_base (fs_sm fs)) (sm_free_cache_blkcnt (fs_sm fs)) fs = Some (Inr fs1) \<and>
       fs' = set_free_cache bno count fs1 \<and> cached_blocks fs' = {unat bno ..< unat bno + unat count})"
proof -
  define base where "base = sm_free_cache_base (fs_sm fs)"
  define n where "n = sm_free_cache_blkcnt (fs_sm fs)"
  have sum: "unat (n + count) = unat n + unat count" "unat (base + n) = unat base + unat n" "unat (bno + count) = unat bno + unat count"
    using assms(3,4) by (simp_all add: unat_word_ariths base_def n_def)
  have c: "cached_blocks fs = (if base = 0 then {} else {unat base ..< unat base + unat n})"
    by (simp add: cached_blocks_def base_def n_def unat_eq_zero Let_def)
  consider "base = 0" "fs' = set_free_cache bno count fs"
    | "base \<noteq> 0" "bno = base + n" "fs' = set_free_cache base (n + count) fs"
    | "base \<noteq> 0" "bno + count = base" "fs' = set_free_cache (base - count) (n + count) fs"
    | fs1 where "apfs_free_queue_insert_nocache base n fs = Some (Inr fs1)" "fs' = set_free_cache bno count fs1"
    using assms(1) unfolding apfs_free_queue_insert_def Let_def base_def [symmetric] n_def [symmetric]
    by (auto simp: bindo_eq_Some_Inr split: if_splits)
  then show ?thesis
  proof cases
    case 1
    then show ?thesis using cached_set [OF assms(2), of count fs] c by auto
  next
    case 2
    have "{unat base ..< unat base + unat n} \<union> {unat bno ..< unat bno + unat count} = {unat base ..< unat base + unat (n + count)}"
      using 2(2) sum by auto
    then show ?thesis using cached_set [OF 2(1), of "n + count" fs] c 2(1,3) by auto
  next
    case 3
    have b: "base - count = bno" using 3(2) by (simp add: algebra_simps)
    have "{unat base ..< unat base + unat n} \<union> {unat bno ..< unat bno + unat count} = {unat bno ..< unat bno + unat (n + count)}"
      using 3(2) sum by auto
    then show ?thesis using cached_set [OF assms(2), of "n + count" fs] c 3(1,3) b by auto
  next
    case (4 fs1)
    then show ?thesis using cached_set [OF assms(2), of count fs1] by (auto simp: base_def n_def)
  qed
qed

theorem free_queue_cache_keeps_blocks_witness:
  "\<exists>fs'. apfs_free_queue_insert 7 2 (set_free_cache 5 2 chunk_fs) = Some (Inr fs') \<and> cached_blocks fs' = {5 ..< 9}"
proof -
  let ?fs = "set_free_cache 5 2 chunk_fs"
  have sm: "sm_free_cache_base (fs_sm ?fs) = 5" "sm_free_cache_blkcnt (fs_sm ?fs) = 2" "sm_raw (fs_sm ?fs) = sm_raw sample_pool"
    by (simp_all add: set_free_cache_def fs_set_sm_def chunk_fs_def)
  have ip: "apfs_block_in_ip (fs_sm ?fs) x = Inr (5 \<le> x \<and> x < 8)" for x
    using sample_pool_reads(1,2) by (simp add: apfs_block_in_ip_def sm)
  have run: "apfs_free_queue_insert 7 2 ?fs = Some (Inr (set_free_cache 5 4 ?fs))"
    by (simp add: apfs_free_queue_insert_def sm ip Let_def)
  have "(cached_blocks (set_free_cache 5 4 ?fs) = cached_blocks ?fs \<union> {unat (7 :: u64) ..< unat (7 :: u64) + unat (2 :: u64)}) \<or>
      cached_blocks (set_free_cache 5 4 ?fs) = {unat (7 :: u64) ..< unat (7 :: u64) + unat (2 :: u64)}"
    using free_queue_cache_keeps_blocks [OF run] sm by auto
  then have "cached_blocks (set_free_cache 5 4 ?fs) = {5 ..< 9}"
    using cached_set [of 5 4 ?fs] by simp
  then show ?thesis using run by blast
qed

text \<open>
  The freeing of a block of the main device takes the place of its chunk-info block in the address array
  from the block number alone.  A record of a free queue with a block number after the last chunk of the
  device, which nothing excludes on a crafted image, makes it read outside of the space manager.
\<close>

theorem crafted_main_free_out_of_bounds:
  assumes "rd32 (fs_raw fs) 36 = Inr x" "rd32 (fs_raw fs) 40 = Inr y" "0 < x" "0 < y"
    and "0 < sm_blocks_per_chunk (fs_sm fs)" "0 < sm_chunks_per_cib (fs_sm fs)"
    and "int (length (fs_raw fs)) - 8 <
      cib_addr_off (fs_sm fs) (to_s32 (int (unat bno div sm_blocks_per_chunk (fs_sm fs) div sm_chunks_per_cib (fs_sm fs))))"
  shows "apfs_main_free bno fs = Some (Inl UB)"
proof -
  have "rd64 (fs_raw fs) (cib_addr_off (fs_sm fs)
      (to_s32 (int (unat bno div sm_blocks_per_chunk (fs_sm fs) div sm_chunks_per_cib (fs_sm fs))))) = Inl UB"
    using assms(7) by (simp add: rd_le_def rd_bytes_def)
  then show ?thesis
    using assms(1-6) by (simp add: apfs_main_free_def Let_def apfs_spaceman_read_cib_addr_def)
qed


text \<open>A space manager with one chunk-info block, whose address is at its end.\<close>

definition crafted_fs :: apfs_fs where
  "crafted_fs = chunk_fs\<lparr>fs_sm := sample_pool\<lparr>sm_raw := replicate 36 0 @ [0, 8, 0, 0] @ [126, 0, 0, 0] @ replicate 300 0,
     sm_blocks_per_chunk := 2048, sm_chunks_per_cib := 126, sm_cib_count := 1, sm_addr_offset := 336\<rparr>\<rparr>"

theorem crafted_main_free_out_of_bounds_witness: "apfs_main_free 258048 crafted_fs = Some (Inl UB)"
proof -
  have "rd32 (fs_raw crafted_fs) 36 = Inr 2048" "rd32 (fs_raw crafted_fs) 40 = Inr 126"
    unfolding crafted_fs_def by (simp_all, code_simp+)
  then show ?thesis
    by (rule crafted_main_free_out_of_bounds) (simp_all add: crafted_fs_def cib_addr_off_def to_s32_def to_u32_def)
qed

end
