(* ===== verification/BtreeSafe.thy ===== *)
theory BtreeSafe
  imports Btree
begin

text \<open>
  Queries on a whole b-tree of any image: nodes that only passed the check of \<open>apfs_node_is_valid\<close>, in any
  order and with any pointers between them.  The query ends, whatever its kind, and stays inside of the blocks.
\<close>

section \<open>Progress in one node\<close>

definition node_fits :: "int \<Rightarrow> apfs_node \<Rightarrow> bool" where
  "node_fits bs node \<longleftrightarrow> apfs_node_is_valid bs node \<and> int (length (nd_data node)) = bs"

definition query_fits :: "int \<Rightarrow> apfs_query \<Rightarrow> bool" where
  "query_fits bs q \<longleftrightarrow> node_fits bs (q_node q) \<and> - 1 \<le> q_index q \<and> q_index q \<le> 2 ^ 16"

text \<open>The number of records that the query may still visit in its node.\<close>

definition query_rem :: "apfs_query \<Rightarrow> nat" where
  "query_rem q = nat (if has_flag q APFS_QUERY_PREV then int (nd_records (q_node q)) - 1 - q_index q else q_index q)"

text \<open>The key and the value of the record lie in the block.\<close>

definition record_fits :: "int \<Rightarrow> apfs_query \<Rightarrow> bool" where
  "record_fits bs q \<longleftrightarrow> 0 \<le> q_len q \<and> (0 < q_len q \<longrightarrow> 0 \<le> q_off q \<and> q_off q + q_len q \<le> bs) \<and>
     0 \<le> q_key_len q \<and> (0 < q_key_len q \<longrightarrow> 0 \<le> q_key_off q \<and> q_key_off q + q_key_len q \<le> bs)"

lemma flags_or_PREV [simp]:
  "(fl OR APFS_QUERY_DONE) AND APFS_QUERY_PREV = fl AND APFS_QUERY_PREV" "(fl OR APFS_QUERY_NEXT) AND APFS_QUERY_PREV = fl AND APFS_QUERY_PREV"
  "fl AND NOT (APFS_QUERY_DONE OR APFS_QUERY_NEXT) AND APFS_QUERY_PREV = fl AND APFS_QUERY_PREV" for fl :: u32
  by (simp_all add: query_flags bit.conj_disj_distrib2 and.assoc)

lemma located_value:
  assumes "node_fits bs node" "- (2 ^ 31) \<le> i" "i < 2 ^ 31" "apfs_node_locate_value bs node i off = Inr (len, off')"
  shows "0 \<le> len" "0 < len \<longrightarrow> 0 \<le> off' \<and> off' + len \<le> bs" "len \<noteq> 0 \<Longrightarrow> 0 \<le> i \<and> i < int (nd_records node)"
proof -
  show "0 \<le> len" "0 < len \<longrightarrow> 0 \<le> off' \<and> off' + len \<le> bs"
    using locate_value_bounds [of bs node i off] assms by (auto simp: node_fits_def)
  show "0 \<le> i \<and> i < int (nd_records node)" if "len \<noteq> 0"
  proof (rule ccontr)
    assume "\<not> ?thesis"
    then have "index_out_of_bounds node i"
      using in_bounds_index [of i node] assms(1-3) valid_records [of bs node] by (auto simp: node_fits_def)
    then show False using assms(4) that by (simp add: apfs_node_locate_value_def)
  qed
qed

lemma located_key:
  assumes "node_fits bs node" "- (2 ^ 31) \<le> i" "i < 2 ^ 31" "apfs_node_locate_key bs node i off = Inr (len, off')"
  shows "0 \<le> len \<and> (0 < len \<longrightarrow> 0 \<le> off' \<and> off' + len \<le> bs)"
  using locate_key_bounds [of bs node i off] valid_key [of bs node] assms by (auto simp: node_fits_def)

lemma node_prev_step:
  assumes "query_fits bs q" "has_flag q APFS_QUERY_PREV" "apfs_node_prev bs q = (e, q')"
  shows "e \<noteq> Some UB \<and> q_node q' = q_node q \<and> q_depth q' = q_depth q \<and> q_flags q' = q_flags q \<and>
    (e = None \<longrightarrow> query_fits bs q' \<and> query_rem q' < query_rem q \<and> record_fits bs q')"
proof (cases "to_u32 (q_index q + 1) = int (nd_records (q_node q))")
  case True
  then show ?thesis using assms(3) by (auto simp: apfs_node_prev_def)
next
  case False
  have fit: "node_fits bs (q_node q)" "- (2 ^ 31) \<le> q_index q + 1" "q_index q + 1 < 2 ^ 31"
    using assms(1) by (auto simp: query_fits_def)
  obtain kl ko where k: "apfs_node_locate_key bs (q_node q) (q_index q + 1) (q_key_off q) = Inr (kl, ko)"
    using locate_key_bounds [of bs "q_node q" "q_index q + 1" "q_key_off q"] fit by (auto simp: node_fits_def)
  obtain len off where v: "apfs_node_locate_value bs (q_node q) (q_index q + 1) (q_off q) = Inr (len, off)"
    using locate_value_bounds [of bs "q_node q" "q_index q + 1" "q_off q"] fit by (auto simp: node_fits_def)
  have rec: "nd_records (q_node q) \<le> 2 ^ 16" using fit(1) valid_records by (auto simp: node_fits_def)
  show ?thesis
    using assms False k v located_value [OF fit v] located_key [OF fit k] rec
    by (auto simp: apfs_node_prev_def Let_def query_fits_def query_rem_def record_fits_def has_flag_def split: if_splits)
qed

lemma node_next_step:
  assumes "query_fits bs q" "\<not> has_flag q APFS_QUERY_PREV" "apfs_node_next bs hashed q = (e, q')"
  shows "e \<noteq> Some UB \<and> q_node q' = q_node q \<and> q_depth q' = q_depth q \<and> \<not> has_flag q' APFS_QUERY_PREV \<and>
    (e = None \<longrightarrow> query_fits bs q' \<and> query_rem q' < query_rem q \<and> record_fits bs q')"
proof (cases "has_flag q APFS_QUERY_DONE \<or> q_index q = 0")
  case True
  then show ?thesis using assms(2,3) by (auto simp: apfs_node_next_def split: if_splits)
next
  case False
  have fit: "node_fits bs (q_node q)" "- (2 ^ 31) \<le> q_index q - 1" "q_index q - 1 < 2 ^ 31"
    using assms(1) by (auto simp: query_fits_def)
  obtain kl ko k where k: "query_at bs hashed (q\<lparr>q_index := q_index q - 1\<rparr>) =
      Inr (q\<lparr>q_index := q_index q - 1, q_key_len := kl, q_key_off := ko\<rparr>, k)" "safe k"
    using query_at_ok [of bs "q\<lparr>q_index := q_index q - 1\<rparr>" hashed] fit by (auto simp: node_fits_def)
  obtain len off where v: "apfs_node_locate_value bs (q_node q) (q_index q - 1) (q_off q) = Inr (len, off)"
    using locate_value_bounds [of bs "q_node q" "q_index q - 1" "q_off q"] fit by (auto simp: node_fits_def)
  have rec: "nd_records (q_node q) \<le> 2 ^ 16" using fit(1) valid_records by (auto simp: node_fits_def)
  have key: "0 \<le> kl \<and> (0 < kl \<longrightarrow> 0 \<le> ko \<and> ko + kl \<le> bs)"
    using located_key [OF fit] query_at_located [OF k(1)] by (auto simp: located_def)
  show ?thesis
    using assms False k v located_value [OF fit v] key rec
    by (cases k) (auto simp: apfs_node_next_def Let_def query_fits_def query_rem_def record_fits_def has_flag_def split: if_splits)
qed

lemma node_query_found_sel:
  assumes "apfs_node_locate_value bs (q_node q) (q_index q) (q_off q) = Inr (len, off)" "node_query_found bs c q = (e, q')"
  shows "e \<noteq> Some UB" "q_node q' = q_node q" "q_depth q' = q_depth q" "has_flag q' APFS_QUERY_PREV = has_flag q APFS_QUERY_PREV"
    "e = None \<Longrightarrow> q_index q' = q_index q \<and> q_len q' = len \<and> q_off q' = off \<and> q_key_len q' = q_key_len q \<and> q_key_off q' = q_key_off q"
  using assms by (auto simp: node_query_found_def Let_def has_flag_def split: if_splits)

lemma node_bisect_step:
  assumes "query_fits bs q" "\<not> has_flag q APFS_QUERY_PREV" "\<not> has_flag q APFS_QUERY_NEXT"
  shows "\<exists>e q'. apfs_node_query bs hashed q = Some (e, q') \<and> e \<noteq> Some UB \<and> q_node q' = q_node q \<and> q_depth q' = q_depth q \<and>
    \<not> has_flag q' APFS_QUERY_PREV \<and> (e = None \<longrightarrow> query_fits bs q' \<and> query_rem q' < query_rem q \<and> record_fits bs q')"
proof -
  have fit: "node_fits bs (q_node q)" "q_index q \<le> 2 ^ 16" using assms(1) by (auto simp: query_fits_def)
  have "(\<exists>e q'. bisect_loop bs hashed 1 0 0 q = Some (Inl (Some e, q')) \<and> e \<noteq> UB \<and> same_query q' q) \<or>
      (\<exists>c q'. bisect_loop bs hashed 1 0 0 q = Some (Inr (c, q')) \<and> same_query q' q \<and> 0 \<le> q_index q' \<and> q_index q' < q_index q)"
    using fit by (intro bisect_loop_total) (simp_all add: bisect_inv_def node_fits_def)
  then show ?thesis
  proof (elim disjE exE conjE)
    fix e q'
    assume "bisect_loop bs hashed 1 0 0 q = Some (Inl (Some e, q'))" "e \<noteq> UB" "same_query q' q"
    then show ?thesis using assms(2,3) by (simp add: apfs_node_query_def same_query_def has_flag_def)
  next
    fix c q1
    assume q1: "bisect_loop bs hashed 1 0 0 q = Some (Inr (c, q1))" "same_query q1 q" "0 \<le> q_index q1" "q_index q1 < q_index q"
    have fit1: "node_fits bs (q_node q1)" "- (2 ^ 31) \<le> q_index q1" "q_index q1 < 2 ^ 31"
      using q1 fit by (auto simp: same_query_def)
    obtain len off where v: "apfs_node_locate_value bs (q_node q1) (q_index q1) (q_off q1) = Inr (len, off)"
      using locate_value_bounds [of bs "q_node q1" "q_index q1" "q_off q1"] fit1 by (auto simp: node_fits_def)
    obtain e q' where f: "node_query_found bs c q1 = (e, q')" by (cases "node_query_found bs c q1") simp
    note sel = node_query_found_sel [OF v f]
    have same: "q_node q1 = q_node q" "q_depth q1 = q_depth q" "has_flag q1 APFS_QUERY_PREV = has_flag q APFS_QUERY_PREV"
      using q1(2) by (simp_all add: same_query_def has_flag_def)
    have "located bs q1" using bisect_loop_located [OF q1(1)] by simp
    then have key: "0 \<le> q_key_len q1 \<and> (0 < q_key_len q1 \<longrightarrow> 0 \<le> q_key_off q1 \<and> q_key_off q1 + q_key_len q1 \<le> bs)"
      using located_key [OF fit1] by (auto simp: located_def)
    have "query_fits bs q' \<and> query_rem q' < query_rem q \<and> record_fits bs q'" if "e = None"
      using sel(2-4) sel(5) [OF that] same located_value [OF fit1 v] key q1(3,4) fit assms(2)
      by (simp add: query_fits_def query_rem_def record_fits_def)
    moreover have "apfs_node_query bs hashed q = Some (e, q')" using q1(1) f assms(2,3) by (simp add: apfs_node_query_def)
    moreover have "q_node q' = q_node q" "q_depth q' = q_depth q" "\<not> has_flag q' APFS_QUERY_PREV" using sel(2-4) same assms(2) by simp_all
    ultimately show ?thesis using sel(1) by blast
  qed
qed

lemma node_query_step:
  assumes "query_fits bs q"
  obtains e q' where "apfs_node_query bs hashed q = Some (e, q')" "e \<noteq> Some UB" "q_node q' = q_node q" "q_depth q' = q_depth q"
    "e = None \<longrightarrow> query_fits bs q' \<and> query_rem q' < query_rem q \<and> record_fits bs q'"
proof -
  consider (prev) "has_flag q APFS_QUERY_PREV" | (nxt) "\<not> has_flag q APFS_QUERY_PREV" "has_flag q APFS_QUERY_NEXT"
    | (bisect) "\<not> has_flag q APFS_QUERY_PREV" "\<not> has_flag q APFS_QUERY_NEXT" by blast
  then show thesis
  proof cases
    case prev
    obtain e q' where p: "apfs_node_prev bs q = (e, q')" by (cases "apfs_node_prev bs q") simp
    show thesis
      by (rule that [of e q']) (use node_prev_step [OF assms prev p] p prev in \<open>simp_all add: apfs_node_query_def\<close>)
  next
    case nxt
    obtain e q' where n: "apfs_node_next bs hashed q = (e, q')" by (cases "apfs_node_next bs hashed q") simp
    show thesis
      by (rule that [of e q']) (use node_next_step [OF assms nxt(1) n] n nxt in \<open>simp_all add: apfs_node_query_def\<close>)
  next
    case bisect
    then show thesis using node_bisect_step [OF assms, of hashed] that by blast
  qed
qed

section \<open>The descent\<close>

text \<open>A chain of queries from some node up to the root, with their depths.\<close>

fun chain_fits :: "int \<Rightarrow> chain \<Rightarrow> bool" where
  "chain_fits bs [] \<longleftrightarrow> True"
| "chain_fits bs (q # chain) \<longleftrightarrow> query_fits bs q \<and> q_depth q = int (length chain) \<and> chain_fits bs chain"

text \<open>The reader of child nodes only returns nodes that fit and never accesses memory out of bounds.\<close>

definition reader_fits :: "int \<Rightarrow> (u64 \<Rightarrow> apfs_node result) \<Rightarrow> bool" where
  "reader_fits bs rd \<longleftrightarrow> (\<forall>oid. rd oid \<noteq> Inl UB \<and> (\<forall>node. rd oid = Inr node \<longrightarrow> node_fits bs node))"

lemma child_fits:
  assumes "record_fits bs (hd chain)" "node_fits bs (q_node (hd chain))" "reader_fits bs rd"
  shows "bind_res (apfs_child_from_query sealed chain) rd \<noteq> Inl UB \<and>
    (\<forall>node. bind_res (apfs_child_from_query sealed chain) rd = Inr node \<longrightarrow> node_fits bs node)"
proof -
  have "apfs_child_from_query sealed chain \<noteq> Inl UB"
    using assms(1,2) rd_le_ok [of "q_off (hd chain)" 8 "nd_data (q_node (hd chain))"]
    by (auto simp: apfs_child_from_query_def Let_def record_fits_def node_fits_def)
  then show ?thesis
    using assms(3) by (cases "apfs_child_from_query sealed chain") (auto simp: reader_fits_def)
qed

lemma alloc_query_fits:
  assumes "node_fits bs node"
  shows "query_fits bs (apfs_alloc_query node p)" "query_rem (apfs_alloc_query node p) \<le> 2 ^ 16"
  using assms valid_records [of bs node]
  by (auto simp: query_fits_def query_rem_def apfs_alloc_query_def Let_def has_flag_def node_fits_def split: option.splits)

text \<open>
  A number that decreases with each turn of the query: each level of the tree counts more than all of the
  records that can be visited below it.
\<close>

definition level_weight :: "int \<Rightarrow> nat" where
  "level_weight d = (2 ^ 17) ^ nat (12 - d)"

definition chain_weight :: "chain \<Rightarrow> nat" where
  "chain_weight chain = sum_list (map (\<lambda>q. (query_rem q + 1) * level_weight (q_depth q)) chain)"

lemma level_weight_Suc: "d < 12 \<Longrightarrow> level_weight d = 2 ^ 17 * level_weight (d + 1)"
proof -
  assume "d < 12"
  then have "nat (12 - d) = Suc (nat (12 - (d + 1)))" by simp
  then show ?thesis by (simp add: level_weight_def)
qed

lemma weight_up: "chain_weight chain < chain_weight (q # chain)"
  by (simp add: chain_weight_def level_weight_def)

lemma weight_down:
  assumes "query_rem q' < query_rem q" "q_depth q' = q_depth q" "q_depth q < 12" "query_rem c \<le> 2 ^ 16" "q_depth c = q_depth q + 1"
  shows "chain_weight (c # q' # chain) < chain_weight (q # chain)"
proof -
  let ?w = "level_weight (q_depth q + 1)"
  have w: "level_weight (q_depth q) = 2 ^ 17 * ?w" "0 < ?w" using level_weight_Suc [OF assms(3)] by (simp_all add: level_weight_def)
  have "(query_rem c + 1) * ?w \<le> (2 ^ 16 + 1) * ?w" using assms(4) by (intro mult_right_mono) simp_all
  also have "\<dots> < level_weight (q_depth q)" using w by simp
  finally have "(query_rem c + 1) * ?w + (query_rem q' + 1) * level_weight (q_depth q) < (query_rem q' + 2) * level_weight (q_depth q)"
    by simp
  also have "\<dots> \<le> (query_rem q + 1) * level_weight (q_depth q)" using assms(1) by (intro mult_right_mono) simp_all
  finally show ?thesis using assms(2,5) by (simp add: chain_weight_def)
qed

lemma node_query_first_fits:
  assumes "node_fits bs (q_node q)"
  obtains q' where "apfs_node_query_first bs q = Inr q'" "q_node q' = q_node q" "record_fits bs q'"
proof -
  obtain kl ko where k: "apfs_node_locate_key bs (q_node q) 0 (q_key_off q) = Inr (kl, ko)"
    using locate_key_bounds [of bs "q_node q" 0 "q_key_off q"] assms by (auto simp: node_fits_def)
  moreover note located_key [OF assms _ _ k]
  moreover obtain len off where "apfs_node_locate_value bs (q_node q) 0 (q_off q) = Inr (len, off)" "0 \<le> len"
      "0 < len \<longrightarrow> 0 \<le> off \<and> off + len \<le> bs"
    using locate_value_bounds [of bs "q_node q" 0 "q_off q"] assms by (auto simp: node_fits_def)
  ultimately show thesis using that by (simp add: apfs_node_query_first_def record_fits_def Let_def)
qed

lemma set_before_first_safe:
  assumes "node_fits (d_bs dev) (q_node (hd chain))" "reader_fits (d_bs dev) rd"
  shows "fst (apfs_query_set_before_first dev rd chain) \<noteq> Some UB"
  using assms
proof (induction dev rd chain rule: apfs_query_set_before_first.induct)
  case (1 dev rd chain)
  obtain q where q: "apfs_node_query_first (d_bs dev) (hd chain) = Inr q" "q_node q = q_node (hd chain)" "record_fits (d_bs dev) q"
    by (rule node_query_first_fits [OF 1(2)])
  note child = child_fits [of "d_bs dev" "q # tl chain" rd "d_sealed dev", simplified, OF q(3) _ 1(3), unfolded q(2), OF 1(2)]
  show ?case
  proof (cases "bind_res (apfs_child_from_query (d_sealed dev) (q # tl chain)) rd")
    case (Inl e)
    then show ?thesis using child q(1) by (subst apfs_query_set_before_first.simps) auto
  next
    case (Inr node)
    then have "fst (apfs_query_set_before_first dev rd (apfs_alloc_query node (Some q) # q # tl chain)) \<noteq> Some UB"
      if "q_depth (hd chain) < 12" "\<not> apfs_node_is_leaf (q_node (hd chain))"
      using 1(1) [OF that q(1) Inr] 1(3) child by simp
    then show ?thesis using q(1) Inr by (subst apfs_query_set_before_first.simps) auto
  qed
qed

lemma btree_query_total:
  assumes "chain_fits (d_bs dev) chain" "chain \<noteq> []" "reader_fits (d_bs dev) rd"
  shows "\<exists>e c. apfs_btree_query dev rd chain = Some (e, c) \<and> e \<noteq> Some UB \<and>
    (e = None \<longrightarrow> chain_fits (d_bs dev) c \<and> c \<noteq> [] \<and> apfs_node_is_leaf (q_node (hd c)) \<and> record_fits (d_bs dev) (hd c) \<and>
       chain_weight c < chain_weight chain)"
  using assms(1,2)
proof (induction "chain_weight chain" arbitrary: chain rule: less_induct)
  case less
  obtain q ps where chain: "chain = q # ps" using less.prems(2) by (cases chain) auto
  have fit: "query_fits (d_bs dev) q" "q_depth q = int (length ps)" "chain_fits (d_bs dev) ps" using less.prems(1) chain by simp_all
  show ?case
  proof (cases "q_depth q \<ge> 12")
    case True
    then show ?thesis by (simp add: chain apfs_btree_query.simps btree_query_fail_def)
  next
    case False
    obtain e q' where run: "apfs_node_query (d_bs dev) (d_hashed dev) q = Some (e, q')" "e \<noteq> Some UB" "q_node q' = q_node q"
        "q_depth q' = q_depth q" "e = None \<longrightarrow> query_fits (d_bs dev) q' \<and> query_rem q' < query_rem q \<and> record_fits (d_bs dev) q'"
      by (rule node_query_step [OF fit(1)])
    have nf: "node_fits (d_bs dev) (q_node q')" using fit(1) run(3) by (simp add: query_fits_def)
    consider (first) "e = Some ENODATA" "ps = []" "q_index q' = - 1" | (up) "e = Some EAGAIN" "ps \<noteq> []" | (root) "e = Some EAGAIN" "ps = []"
      | (err) x where "e = Some x" "x \<noteq> EAGAIN" "\<not> (x = ENODATA \<and> ps = [] \<and> q_index q' = - 1)" | (found) "e = None"
      by (cases e) auto
    then show ?thesis
    proof cases
      case first
      obtain r c where r: "apfs_query_set_before_first dev rd [q'] = (r, c)" by (cases "apfs_query_set_before_first dev rd [q']")
      then have "r \<noteq> Some UB" using set_before_first_safe [of dev "[q']" rd] nf assms(3) by simp
      then show ?thesis using False run(1) first r
        by (cases r) (simp_all add: chain apfs_btree_query.simps [of dev rd "[q]"] btree_query_fail_def)
    next
      case up
      have "chain_weight ps < chain_weight chain" by (simp add: chain weight_up)
      from less.hyps [OF this fit(3) up(2)] show ?thesis
        using False run(1) up \<open>chain_weight ps < chain_weight chain\<close> by (fastforce simp: chain apfs_btree_query.simps [of dev rd "q # ps"])
    next
      case root
      then show ?thesis using False run(1) by (simp add: chain apfs_btree_query.simps [of dev rd "[q]"] btree_query_fail_def)
    next
      case (err x)
      then have "apfs_btree_query dev rd (q # ps) = Some (btree_query_fail x (q' # ps))"
        using False run(1) by (simp add: apfs_btree_query.simps [of dev rd "q # ps"] Let_def) blast
      then show ?thesis using run(2) err(1) by (simp add: chain btree_query_fail_def)
    next
      case found
      then have q': "query_fits (d_bs dev) q'" "query_rem q' < query_rem q" "record_fits (d_bs dev) q'" using run(5) by simp_all
      note child = child_fits [of "d_bs dev" "q' # ps" rd "d_sealed dev", simplified, OF q'(3) nf assms(3)]
      show ?thesis
      proof (cases "apfs_node_is_leaf (q_node q')")
        case True
        have "chain_weight (q' # ps) < chain_weight (q # ps)" using q'(2) run(4) by (simp add: chain_weight_def level_weight_def)
        with True show ?thesis using False run(1,4) found q' fit by (simp add: chain apfs_btree_query.simps [of dev rd "q # ps"])
      next
        case index: False
        show ?thesis
        proof (cases "bind_res (apfs_child_from_query (d_sealed dev) (q' # ps)) rd")
          case (Inl x)
          then show ?thesis using child False run(1) found index
            by (simp add: chain apfs_btree_query.simps [of dev rd "q # ps"] btree_query_fail_def)
        next
          case (Inr node)
          let ?c = "apfs_alloc_query node (Some q')"
          have node: "node_fits (d_bs dev) node" using child Inr by simp
          have "chain_weight (?c # q' # ps) < chain_weight chain"
            unfolding chain using False run(4) alloc_query_fits(2) [OF node] by (intro weight_down [OF q'(2) run(4)]) simp_all
          moreover have "chain_fits (d_bs dev) (?c # q' # ps)"
            using alloc_query_fits(1) [OF node] q'(1) fit run(4) by simp
          ultimately show ?thesis
            using less.hyps [of "?c # q' # ps"] False run(1) found index Inr
            by (fastforce simp: chain apfs_btree_query.simps [of dev rd "q # ps"])
        qed
      qed
    qed
  qed
qed

section \<open>The readers of nodes\<close>

definition dev_fits :: "apfs_dev \<Rightarrow> bool" where
  "dev_fits dev \<longleftrightarrow> 56 \<le> d_bs dev \<and> (\<forall>bno b. d_block dev bno = Some b \<longrightarrow> int (length b) = d_bs dev) \<and>
     (\<forall>e \<in> set (d_eph_list dev). uint (eph_size e) = d_bs dev \<longrightarrow> int (length (eph_object e)) = d_bs dev)"

lemma verify_csum_safe: "int (length raw) = bs \<Longrightarrow> 8 \<le> bs \<Longrightarrow> \<exists>ok. apfs_obj_verify_csum bs in_trans raw = Inr ok"
  by (simp add: apfs_obj_verify_csum_def apfs_multiblock_verify_csum_def rd_le_Inr rd_bytes_Inr) blast

lemma read_node_raw_fits:
  assumes "int (length raw) = bs" "56 \<le> bs"
  shows "apfs_read_node_raw bs check eph in_trans oid bno raw \<noteq> Inl UB"
    "apfs_read_node_raw bs check eph in_trans oid bno raw = Inr node \<Longrightarrow> node_fits bs node"
proof -
  obtain n where n: "node_of_raw oid bno raw = Inr n" "nd_data n = raw"
    using assms by (simp add: node_of_raw_def rd_le_Inr Let_def)
  obtain ok where ok: "(if \<not> eph \<and> check then apfs_obj_verify_csum bs in_trans raw else Inr True) = Inr ok"
    using verify_csum_safe [OF assms(1), of in_trans] assms(2) by (cases "\<not> eph \<and> check") auto
  show "apfs_read_node_raw bs check eph in_trans oid bno raw \<noteq> Inl UB"
    "apfs_read_node_raw bs check eph in_trans oid bno raw = Inr node \<Longrightarrow> node_fits bs node"
    using n ok assms(1) by (auto simp: apfs_read_node_raw_def node_fits_def split: if_splits)
qed

lemma read_node_fits:
  assumes dev: "dev_fits dev" and lookup: "\<forall>oid. lookup oid \<noteq> Inl UB"
  shows "reader_fits (d_bs dev) (apfs_read_node dev lookup storage)"
proof -
  have block: "apfs_read_object_block dev bno \<noteq> Inl UB" "apfs_read_object_block dev bno = Inr raw \<Longrightarrow> int (length raw) = d_bs dev" for bno raw
  proof -
    have ok: "\<exists>ok. apfs_obj_verify_csum (d_bs dev) (d_trans dev bno) b = Inr ok" if "d_block dev bno = Some b" for b
      using verify_csum_safe that dev by (auto simp: dev_fits_def)
    show "apfs_read_object_block dev bno \<noteq> Inl UB"
    proof (cases "d_block dev bno")
      case (Some b)
      then show ?thesis using ok [OF Some] by (auto simp: apfs_read_object_block_def split: if_splits)
    qed (simp add: apfs_read_object_block_def)
    show "int (length raw) = d_bs dev" if "apfs_read_object_block dev bno = Inr raw"
      using that dev by (auto simp: apfs_read_object_block_def dev_fits_def bind_res_eq_Inr split: option.splits if_splits)
  qed
  have raw: "apfs_read_node_raw (d_bs dev) c e t oid bno raw \<noteq> Inl UB" "apfs_read_node_raw (d_bs dev) c e t oid bno raw = Inr node \<Longrightarrow> node_fits (d_bs dev) node"
    if "int (length raw) = d_bs dev" for c e t oid bno raw node
    using read_node_raw_fits [OF that] dev by (auto simp: dev_fits_def)
  have phys: "bind_res (apfs_read_object_block dev bno) (apfs_read_node_raw (d_bs dev) c e t oid bno) \<noteq> Inl UB"
    "bind_res (apfs_read_object_block dev bno) (apfs_read_node_raw (d_bs dev) c e t oid bno) = Inr node \<Longrightarrow> node_fits (d_bs dev) node"
    for c e t oid bno node
    using block [of bno] raw by (cases "apfs_read_object_block dev bno"; auto)+
  have eph: "apfs_read_node dev lookup APFS_OBJ_EPHEMERAL oid \<noteq> Inl UB"
    "apfs_read_node dev lookup APFS_OBJ_EPHEMERAL oid = Inr node \<Longrightarrow> node_fits (d_bs dev) node" for oid node
  proof -
    have len: "int (length (eph_object (d_eph_list dev ! i))) = d_bs dev"
      if "apfs_ephemeral_object_lookup (d_eph_list dev) oid = Inr i" "uint (eph_size (d_eph_list dev ! i)) = d_bs dev" for i
      using that eph_lookup_from_Inr [of 0 "d_eph_list dev" oid i] dev by (auto simp: apfs_ephemeral_object_lookup_def dev_fits_def)
    have "apfs_ephemeral_object_lookup (d_eph_list dev) oid \<noteq> Inl UB"
      by (simp add: apfs_ephemeral_object_lookup_def eph_lookup_from_Inl)
    then show "apfs_read_node dev lookup APFS_OBJ_EPHEMERAL oid \<noteq> Inl UB"
      "apfs_read_node dev lookup APFS_OBJ_EPHEMERAL oid = Inr node \<Longrightarrow> node_fits (d_bs dev) node"
      using len raw by (cases "apfs_ephemeral_object_lookup (d_eph_list dev) oid"; auto simp: apfs_read_node_def split: if_splits)+
  qed
  show ?thesis
  proof (cases storage)
    case APFS_OBJ_VIRTUAL
    have "apfs_read_node dev lookup storage oid \<noteq> Inl UB \<and>
        (\<forall>node. apfs_read_node dev lookup storage oid = Inr node \<longrightarrow> node_fits (d_bs dev) node)" for oid
      using phys lookup [rule_format, of oid] by (cases "lookup oid") (auto simp: apfs_read_node_def APFS_OBJ_VIRTUAL)
    then show ?thesis by (simp add: reader_fits_def)
  qed (use phys eph in \<open>auto simp: reader_fits_def apfs_read_node_def\<close>)
qed

section \<open>Lookups in the object map\<close>

lemma new_query_fits:
  assumes "node_fits bs root"
  shows "chain_fits bs [(apfs_alloc_query root None)\<lparr>q_key := key, q_flags := flags\<rparr>]"
  using alloc_query_fits(1) [OF assms, of None] by (simp add: query_fits_def)

lemma omap_map_safe:
  assumes "record_fits bs q" "int (length (nd_data (q_node q))) = bs"
  shows "apfs_omap_map_from_query bs q \<noteq> Inl UB"
proof (cases "q_len q = 16 \<and> q_key_len q = 16")
  case True
  then have "0 \<le> q_off q" "q_off q + 16 \<le> bs" "0 \<le> q_key_off q" "q_key_off q + 16 \<le> bs"
    using assms(1) by (auto simp: record_fits_def)
  then show ?thesis using assms(2) True by (simp add: apfs_omap_map_from_query_def Let_def rd_le_Inr)
qed (auto simp: apfs_omap_map_from_query_def Let_def)

lemma omap_query_block_total:
  assumes "dev_fits dev" "node_fits (d_bs dev) root"
  shows "\<exists>r. omap_query_block dev root oid xid = Some r \<and> r \<noteq> Inl UB"
proof -
  let ?q = "(apfs_alloc_query root None)\<lparr>q_key := apfs_init_omap_key oid xid, q_flags := APFS_QUERY_OMAP\<rparr>"
  let ?rd = "apfs_read_node dev (\<lambda>_. Inl EINVAL) APFS_OBJ_PHYSICAL_STORAGE"
  have eq: "?q = ((apfs_alloc_query root None)\<lparr>q_key := apfs_init_omap_key oid xid\<rparr>)\<lparr>q_flags :=
      q_flags ((apfs_alloc_query root None)\<lparr>q_key := apfs_init_omap_key oid xid\<rparr>) OR APFS_QUERY_OMAP\<rparr>"
    by (simp add: apfs_alloc_query_def)
  obtain e c where run: "apfs_btree_query dev ?rd [?q] = Some (e, c)" "e \<noteq> Some UB"
      "e = None \<longrightarrow> chain_fits (d_bs dev) c \<and> c \<noteq> [] \<and> record_fits (d_bs dev) (hd c)"
    using btree_query_total [OF new_query_fits [OF assms(2)] _ read_node_fits [OF assms(1), of "\<lambda>_. Inl EINVAL"]] by blast
  have "apfs_omap_map_from_query (d_bs dev) (hd c) \<noteq> Inl UB" if "e = None"
  proof (rule omap_map_safe)
    show "record_fits (d_bs dev) (hd c)" using run(3) that by simp
    show "int (length (nd_data (q_node (hd c)))) = d_bs dev"
      using run(3) that by (cases c) (auto simp: query_fits_def node_fits_def)
  qed
  then show ?thesis
    using run(1,2) unfolding omap_query_block_def Let_def eq [symmetric]
    by (cases "apfs_omap_map_from_query (d_bs dev) (hd c)"; cases e) auto
qed

section \<open>Properties\<close>

text \<open>
  (C19) A query on a b-tree of any image always returns, for every kind of tree and every combination of flags:
  for single records, for all of the records with a key, and for the walk over the records in their order.  The
  nodes may point to each other in any way, even in cycles.  The query accesses no memory outside of the
  blocks, and the record that it finds lies in its block, so that the query can be continued from there.
\<close>

theorem btree_query_returns_on_any_image:
  assumes "dev_fits dev" "\<forall>oid. lookup oid \<noteq> Inl UB" "chain_fits (d_bs dev) chain" "chain \<noteq> []"
  shows "\<exists>e c. apfs_btree_query dev (apfs_read_node dev lookup storage) chain = Some (e, c) \<and> e \<noteq> Some UB \<and>
    (e = None \<longrightarrow> chain_fits (d_bs dev) c \<and> c \<noteq> [] \<and> apfs_node_is_leaf (q_node (hd c)) \<and> record_fits (d_bs dev) (hd c))"
  using btree_query_total [OF assms(3,4) read_node_fits [OF assms(1,2)]] by blast

theorem btree_query_returns_on_any_image_witness:
  "\<exists>e c. apfs_btree_query sample_dev (apfs_read_node sample_dev (\<lambda>_. Inl EINVAL) APFS_OBJ_VIRTUAL)
     [(apfs_alloc_query sample_node None)\<lparr>q_key := zero_key, q_flags := APFS_QUERY_CAT OR APFS_QUERY_PREV\<rparr>] = Some (e, c) \<and>
     e \<noteq> Some UB"
proof -
  have "node_fits 256 sample_node" using sample_node_repr(2) by (simp add: node_fits_def) (simp add: sample_node_def)
  then have "chain_fits (d_bs sample_dev) [(apfs_alloc_query sample_node None)\<lparr>q_key := zero_key, q_flags := APFS_QUERY_CAT OR APFS_QUERY_PREV\<rparr>]"
    by (intro new_query_fits) (simp add: sample_dev_def)
  moreover have "dev_fits sample_dev" by (simp add: dev_fits_def sample_dev_def)
  ultimately show ?thesis
    using btree_query_returns_on_any_image [of sample_dev "\<lambda>_. Inl EINVAL"] by fastforce
qed

end
