(* ===== verification/Storage.thy ===== *)
theory Storage
  imports SpaceAlloc BtreeSafe
begin

text \<open>
  Write access to the objects on disk (\<open>object.c\<close>, \<open>btree.c\<close> and \<open>node.c\<close>): the copy-on-write of blocks,
  the records of the object map that follow the copies, and the storage of the nodes of physical and of
  virtual trees.

  The object map of the volume is part of the state.  Its root is in memory, and each change of the tree
  leaves the new root there.
\<close>

section \<open>Copy-on-write of blocks\<close>

abbreviation (input) APFS_OBJ_PHYSICAL_FLAG :: nat where "APFS_OBJ_PHYSICAL_FLAG \<equiv> 0x40000000"
abbreviation (input) APFS_OBJECT_TYPE_FS :: nat where "APFS_OBJECT_TYPE_FS \<equiv> 13"

text \<open>The counts of blocks in the superblock of the volume.\<close>

definition count_alloced :: "apfs_fs \<Rightarrow> apfs_fs" where
  "count_alloced fs = fs\<lparr>fs_alloc_count := fs_alloc_count fs + 1, fs_blocks_alloced := fs_blocks_alloced fs + 1\<rparr>"

definition count_freed :: "apfs_fs \<Rightarrow> apfs_fs" where
  "count_freed fs = fs\<lparr>fs_alloc_count := fs_alloc_count fs - 1, fs_blocks_freed := fs_blocks_freed fs + 1\<rparr>"

text \<open>The header of the copy of an object.\<close>

definition cow_header :: "nat \<Rightarrow> u64 \<Rightarrow> u64 \<Rightarrow> buffer \<Rightarrow> buffer result" where
  "cow_header type new_bno xid raw =
     bind_res (if bit type 30 then wr64 raw 8 (uint new_bno) else Inr raw) (\<lambda>raw. wr64 raw 16 (uint xid))"

text \<open>
  \<open>apfs_read_object_block\<close> with \<open>write\<close> true: the block number of the object, which may have moved, and its
  contents.
\<close>

definition read_object_block_write :: "u64 \<Rightarrow> bool \<Rightarrow> apfs_fs \<Rightarrow> (u64 \<times> buffer \<times> apfs_fs) result option" where
  "read_object_block_write bno preserve fs =
     bindo (Some (apfs_read_object_block (fs_dev fs) bno)) (\<lambda>raw.
     bindo (Some (rd32 raw 24)) (\<lambda>type.
     bindo (Some (rd64 raw 16)) (\<lambda>o_xid.
     if of_nat o_xid = fs_xid fs then Some (Inr (bno, raw, fs))
     else
       bindo (apfs_spaceman_allocate_block True fs) (\<lambda>(new_bno, fs).
       bindo (Some (apfs_getblk fs new_bno)) (\<lambda>_.
       let fs = put_block new_bno raw fs in
       bindo (if \<not> preserve then apfs_free_queue_insert bno 1 fs
              else if type mod 65536 \<noteq> APFS_OBJECT_TYPE_FS then Some (Inr (count_alloced fs))
              else Some (Inr fs)) (\<lambda>fs.
       bindo (Some (cow_header type new_bno (fs_xid fs) raw)) (\<lambda>raw.
       Some (Inr (new_bno, raw, put_block new_bno raw (apfs_transaction_join new_bno fs))))))))))"

section \<open>Physical trees\<close>

definition phys_read :: "apfs_fs \<Rightarrow> u64 \<Rightarrow> apfs_node result" where
  "phys_read fs = apfs_read_node (fs_dev fs) (\<lambda>_. Inl EINVAL) APFS_OBJ_PHYSICAL_STORAGE"

definition phys_read_write :: "apfs_fs \<Rightarrow> u64 \<Rightarrow> (apfs_node \<times> apfs_fs) result option" where
  "phys_read_write fs oid =
     bindo (read_object_block_write oid False fs) (\<lambda>(bno, raw, fs).
     let dev = fs_dev fs in
     Some (bind_res (apfs_read_node_raw (d_bs dev) (d_check_nodes dev) False (d_trans dev bno) bno bno raw) (\<lambda>node.
       Inr (node, fs))))"

text \<open>
  The end of \<open>apfs_create_node\<close> for a node on disk, in the new block \<open>bno\<close>.  The old bytes of the block stay
  below the new header.
\<close>

definition disk_node :: "nat \<Rightarrow> u64 \<Rightarrow> u64 \<Rightarrow> apfs_fs \<Rightarrow> (apfs_node \<times> apfs_fs) result" where
  "disk_node storage oid bno fs =
     bind_res (case d_block (fs_dev fs) bno of None \<Rightarrow> Inl EIO | Some b \<Rightarrow> Inr b) (\<lambda>old.
     bind_res (create_node_raw (fs_bs fs) storage oid (fs_xid fs) old) (\<lambda>raw.
     Inr (\<lparr>nd_tree_type = 0, nd_flags = 0, nd_records = 0, nd_key = 0, nd_free = 0, nd_val = 0,
            nd_key_free_list_len = 0, nd_val_free_list_len = 0, nd_block_nr = bno, nd_oid = oid, nd_data = raw\<rparr>,
          put_block bno raw (apfs_transaction_join bno fs))))"

definition phys_create :: "apfs_fs \<Rightarrow> (apfs_node \<times> apfs_fs) result option" where
  "phys_create fs =
     bindo (apfs_spaceman_allocate_block True fs) (\<lambda>(bno, fs).
     Some (disk_node APFS_OBJ_PHYSICAL_FLAG bno bno (count_alloced fs)))"

definition phys_delete :: "apfs_node \<Rightarrow> apfs_fs \<Rightarrow> apfs_fs result option" where
  "phys_delete node fs =
     bindo (apfs_free_queue_insert (nd_block_nr node) 1 fs) (\<lambda>fs. Some (Inr (count_freed fs)))"

definition phys_ops :: tree_ops where
  "phys_ops = \<lparr>t_storage = APFS_OBJ_PHYSICAL_STORAGE, t_read = phys_read, t_read_write = phys_read_write,
     t_create = phys_create, t_delete = phys_delete\<rparr>"

section \<open>Records of the object map\<close>

definition omap_query :: "u64 \<Rightarrow> u64 \<Rightarrow> apfs_fs \<Rightarrow> (errno option \<times> chain) option" where
  "omap_query oid xid fs =
     (let query = (apfs_alloc_query (omap_root (fs_omap fs)) None)\<lparr>q_key := apfs_init_omap_key oid xid\<rparr>;
          query = query\<lparr>q_flags := q_flags query OR APFS_QUERY_OMAP\<rparr>
      in apfs_btree_query (fs_dev fs) (phys_read fs) [query])"

definition set_omap_root :: "apfs_node \<Rightarrow> apfs_fs \<Rightarrow> apfs_fs" where
  "set_omap_root root fs = fs\<lparr>fs_omap := (fs_omap fs)\<lparr>omap_root := root\<rparr>\<rparr>"

definition set_omap_cache :: "(apfs_omap_cache \<Rightarrow> apfs_omap_cache) \<Rightarrow> apfs_fs \<Rightarrow> apfs_fs" where
  "set_omap_cache f fs = fs\<lparr>fs_omap := (fs_omap fs)\<lparr>omap_cache := f (omap_cache (fs_omap fs))\<rparr>\<rparr>"

definition omap_raw_val :: "nat \<Rightarrow> int \<Rightarrow> u64 \<Rightarrow> byte list" where
  "omap_raw_val flags bs bno = le_bytes 4 flags @ le_field 4 bs @ le_bytes 8 (unat bno)"

text \<open>\<open>apfs_omap_lookup_block_with_xid\<close> with \<open>write\<close> true.\<close>

definition omap_lookup_write :: "u64 \<Rightarrow> u64 \<Rightarrow> apfs_fs \<Rightarrow> (u64 \<times> apfs_fs) result option" where
  "omap_lookup_write oid xid fs =
     (case omap_query oid xid fs of
        None \<Rightarrow> None
      | Some (Some e, chain) \<Rightarrow> Some (Inl e)
      | Some (None, chain) \<Rightarrow>
          bindo (Some (apfs_omap_map_from_query (fs_bs fs) (hd chain))) (\<lambda>map.
          let preserve = apfs_xid_in_snapshot (fs_omap fs) (map_xid map) in
          bindo (read_object_block_write (map_bno map) preserve fs) (\<lambda>(bno, raw, fs).
          let key = omap_raw_key oid (fs_xid fs); val = omap_raw_val (unat (map_flags map)) (fs_bs fs) bno in
          bindo (if preserve then apfs_btree_insert phys_ops chain key (Some val) fs
                 else apfs_btree_replace phys_ops chain (Some key) (Some val) fs) (\<lambda>(chain, fs).
          Some (Inr (bno, set_omap_cache (apfs_omap_cache_save oid bno) (set_omap_root (chain_root chain) fs)))))))"

definition apfs_create_omap_rec :: "u64 \<Rightarrow> u64 \<Rightarrow> apfs_fs \<Rightarrow> apfs_fs result option" where
  "apfs_create_omap_rec oid bno fs =
     (case omap_query oid (fs_xid fs) fs of
        None \<Rightarrow> None
      | Some (err, chain) \<Rightarrow>
          if err \<noteq> None \<and> err \<noteq> Some ENODATA then Some (Inl (the err))
          else
            bindo (apfs_btree_insert phys_ops chain (omap_raw_key oid (fs_xid fs)) (Some (omap_raw_val 0 (fs_bs fs) bno)) fs)
              (\<lambda>(chain, fs).
            Some (Inr (set_omap_cache (apfs_omap_cache_save oid bno) (set_omap_root (chain_root chain) fs)))))"

definition apfs_delete_omap_rec :: "u64 \<Rightarrow> apfs_fs \<Rightarrow> apfs_fs result option" where
  "apfs_delete_omap_rec oid fs =
     (case omap_query oid (fs_xid fs) fs of
        None \<Rightarrow> None
      | Some (Some e, chain) \<Rightarrow> Some (Inl (if e = ENODATA then EFSCORRUPTED else e))
      | Some (None, chain) \<Rightarrow>
          bindo (apfs_btree_remove phys_ops chain fs) (\<lambda>(chain, fs).
          Some (Inr (set_omap_cache (apfs_omap_cache_delete oid) (set_omap_root (chain_root chain) fs)))))"

section \<open>Virtual trees\<close>

text \<open>
  The lookup of the block of a virtual node without write access.  What the lookup puts into the cache of the
  object map is left out here, since readers return no state; a full cache and an empty one give the same
  results.  The query of the object map always returns, so that the value for \<open>None\<close> does not occur.
\<close>

definition virt_lookup :: "apfs_fs \<Rightarrow> u64 \<Rightarrow> u64 result" where
  "virt_lookup fs oid =
     (case apfs_omap_lookup_block (fs_dev fs) (fs_omap fs) oid of
        None \<Rightarrow> Inl UB
      | Some (r, omap) \<Rightarrow> r)"

definition virt_read :: "apfs_fs \<Rightarrow> u64 \<Rightarrow> apfs_node result" where
  "virt_read fs = apfs_read_node (fs_dev fs) (virt_lookup fs) APFS_OBJ_VIRTUAL"

definition virt_read_write :: "apfs_fs \<Rightarrow> u64 \<Rightarrow> (apfs_node \<times> apfs_fs) result option" where
  "virt_read_write fs oid =
     bindo (omap_lookup_write oid (apfs_mounted_xid (fs_dev fs)) fs) (\<lambda>(bno, fs).
     bindo (read_object_block_write bno False fs) (\<lambda>(bno, raw, fs).
     let dev = fs_dev fs in
     Some (bind_res (apfs_read_node_raw (d_bs dev) (d_check_nodes dev) False (d_trans dev bno) oid bno raw) (\<lambda>node.
       Inr (node, fs)))))"

definition virt_create :: "apfs_fs \<Rightarrow> (apfs_node \<times> apfs_fs) result option" where
  "virt_create fs =
     bindo (apfs_spaceman_allocate_block True fs) (\<lambda>(bno, fs).
     let oid = fs_next_oid fs; fs = (count_alloced fs)\<lparr>fs_next_oid := oid + 1\<rparr> in
     bindo (apfs_create_omap_rec oid bno fs) (\<lambda>fs.
     Some (disk_node 0 oid bno fs)))"

definition virt_delete :: "apfs_node \<Rightarrow> apfs_fs \<Rightarrow> apfs_fs result option" where
  "virt_delete node fs =
     bindo (apfs_free_queue_insert (nd_block_nr node) 1 fs) (\<lambda>fs.
     bindo (apfs_delete_omap_rec (nd_oid node) fs) (\<lambda>fs.
     Some (Inr (count_freed fs))))"

definition virt_ops :: tree_ops where
  "virt_ops = \<lparr>t_storage = APFS_OBJ_VIRTUAL, t_read = virt_read, t_read_write = virt_read_write,
     t_create = virt_create, t_delete = virt_delete\<rparr>"

text \<open>The lookups in the object map return, so that the reader of virtual nodes does.\<close>

lemma virt_lookup_safe:
  assumes "dev_fits (fs_dev fs)" "node_fits (fs_bs fs) (omap_root (fs_omap fs))"
  shows "virt_lookup fs oid \<noteq> Inl UB"
proof -
  obtain r where r: "omap_query_block (fs_dev fs) (omap_root (fs_omap fs)) oid (apfs_mounted_xid (fs_dev fs)) = Some r" "r \<noteq> Inl UB"
    using omap_query_block_total [OF assms] by blast
  then show ?thesis
    by (cases r) (auto simp: virt_lookup_def apfs_omap_lookup_block_def apfs_omap_lookup_block_with_xid_def split: option.splits)
qed

section \<open>Allocation in the whole space manager\<close>

text \<open>The chunk \<open>j\<close> of the chunk-info block \<open>i\<close>.\<close>

definition sm_chunk :: "apfs_fs \<Rightarrow> nat \<Rightarrow> nat \<Rightarrow> u64 \<Rightarrow> nat \<Rightarrow> nat \<Rightarrow> nat \<Rightarrow> nat set \<Rightarrow> bool" where
  "sm_chunk fs i j cib_bno addr free ba used \<longleftrightarrow>
     i < sm_cib_count (fs_sm fs) \<and> apfs_spaceman_read_cib_addr (fs_sm fs) (int i) = Inr cib_bno \<and>
     (\<exists>cib n. d_block (fs_dev fs) cib_bno = Some cib \<and> rd32 cib 36 = Inr n \<and> j < n) \<and>
     chunk_is fs cib_bno j addr free ba used"

definition space_ok :: "nat \<Rightarrow> nat \<Rightarrow> apfs_fs \<Rightarrow> bool" where
  "space_ok base cnt fs \<longleftrightarrow> fs_pool fs base cnt \<and> blocks_ok fs \<and> (\<exists>k \<le> 16. fs_bs fs = 2 ^ k) \<and>
     (\<forall>i j cib_bno addr free ba used. sm_chunk fs i j cib_bno addr free ba used \<longrightarrow>
        chunk_ok base cnt fs cib_bno ba \<and> 8 * nat (fs_bs fs) dvd addr \<and> addr + 8 * nat (fs_bs fs) \<le> 2 ^ 64)"

text \<open>A block that some chunk describes as free.\<close>

definition block_free :: "apfs_fs \<Rightarrow> u64 \<Rightarrow> bool" where
  "block_free fs bno \<longleftrightarrow> (\<exists>i j cib_bno addr free ba used. sm_chunk fs i j cib_bno addr free ba used \<and> 0 < free \<and>
     addr \<le> unat bno \<and> unat bno < addr + 8 * nat (fs_bs fs) \<and> unat bno - addr \<notin> used)"

lemma first_with_space_found:
  assumes "first_with_space alloc is = Some (Inr r)"
  obtains i where "i \<in> set is" "alloc i = Some (Inr r)"
  using assms by (induction "is") (auto split: option.splits sum.splits errno.splits)

lemma search_order_set [simp]: "set (search_order backwards n) = {..<n}"
  by (auto simp: search_order_def)

lemma rd_le_range: "rd_le n b off = Inr x \<Longrightarrow> 0 < n \<Longrightarrow> 0 \<le> off \<and> off + int n \<le> int (length b)"
  by (auto simp: rd_le_def rd_bytes_def bind_res_eq_Inr split: if_splits)

lemma chunk_alloc_is:
  assumes "blocks_ok fs" "apfs_chunk_alloc_free cib_bno j bno is_alloc fs = Some (Inr r)"
  obtains addr free ba used where "chunk_is fs cib_bno j addr free ba used"
proof -
  obtain cib free ba where cib: "d_block (fs_dev fs) cib_bno = Some cib" "rd32 cib (ci_off j + 20) = Inr free"
    "rd64 cib (ci_off j + 24) = Inr ba"
    using assms(2) by (auto simp: apfs_chunk_alloc_free_def chunk_bitmap_def bindo_eq_Some_Inr Let_def split: if_splits)
  obtain addr where "rd64 cib (ci_off j + 8) = Inr addr"
    using rd_le_range [OF cib(3)] rd_le_ok [of "ci_off j + 8" 8 cib] by (auto simp: ci_off_def)
  then show thesis using cib that by (auto simp: chunk_is_def)
qed

lemma cib_allocate_found:
  assumes "apfs_cib_allocate_block cib_bno backwards fs = Some (Inr (cib_bno', bno, fs'))"
  obtains cib n j where "d_block (fs_dev fs) cib_bno = Some cib" "rd32 cib 36 = Inr n" "j < n"
    "apfs_chunk_alloc_free cib_bno j 0 True fs = Some (Inr (cib_bno', bno, fs'))"
proof -
  obtain cib n where cib: "d_block (fs_dev fs) cib_bno = Some cib" "rd32 cib 36 = Inr n"
    and f: "first_with_space (\<lambda>index. apfs_chunk_allocate_block cib_bno index fs) (search_order backwards n) = Some (Inr (cib_bno', bno, fs'))"
    using assms by (auto simp: apfs_cib_allocate_block_def bindo_eq_Some_Inr split: if_splits)
  show thesis
    by (rule first_with_space_found [OF f]) (use that cib in \<open>auto simp: apfs_chunk_allocate_block_def\<close>)
qed

lemma spaceman_update_cib_frame:
  assumes "spaceman_update_cib i cib_bno fs = Inr fs'"
  shows "fs_dev fs' = fs_dev fs" "fs_xid fs' = fs_xid fs" "fs_omap fs' = fs_omap fs"
  using assms by (auto simp: spaceman_update_cib_def bind_res_eq_Inr)

lemma spaceman_allocate_ok:
  assumes ok: "space_ok base cnt fs" and run: "apfs_spaceman_allocate_block backwards fs = Some (Inr (bno, fs'))"
  shows "block_free fs bno" "fs_bs fs' = fs_bs fs" "fs_xid fs' = fs_xid fs"
    "\<And>x. \<not> in_pool base cnt x \<Longrightarrow> d_block (fs_dev fs') x = d_block (fs_dev fs) x"
proof -
  obtain i cib_bno cib_bno' fs1 where i: "i < sm_cib_count (fs_sm fs)" "apfs_spaceman_read_cib_addr (fs_sm fs) (int i) = Inr cib_bno"
    "apfs_cib_allocate_block cib_bno backwards fs = Some (Inr (cib_bno', bno, fs1))" "spaceman_update_cib (int i) cib_bno' fs1 = Inr fs'"
    by (rule first_with_space_found [OF run [unfolded apfs_spaceman_allocate_block_def]]) (auto simp: bindo_eq_Some_Inr)
  obtain cib n j where j: "d_block (fs_dev fs) cib_bno = Some cib" "rd32 cib 36 = Inr n" "j < n"
    "apfs_chunk_alloc_free cib_bno j 0 True fs = Some (Inr (cib_bno', bno, fs1))"
    by (rule cib_allocate_found [OF i(3)])
  have blk: "blocks_ok fs" and pool: "fs_pool fs base cnt" using ok by (auto simp: space_ok_def)
  obtain k where k: "fs_bs fs = 2 ^ k" "k \<le> 16" using ok by (auto simp: space_ok_def)
  obtain addr free ba used where ch: "chunk_is fs cib_bno j addr free ba used" by (rule chunk_alloc_is [OF blk j(4)])
  have sm: "sm_chunk fs i j cib_bno addr free ba used" using i(1,2) j(1-3) ch by (auto simp: sm_chunk_def)
  then have c: "chunk_ok base cnt fs cib_bno ba" "8 * nat (fs_bs fs) dvd addr" "addr + 8 * nat (fs_bs fs) \<le> 2 ^ 64"
    using ok unfolding space_ok_def by blast+
  note res = chunk_alloc_free_ok [OF pool blk c(1) ch k c(2,3) j(4)]
  then obtain m where "m < 8 * nat (fs_bs fs)" "m \<notin> used" "unat bno = addr + m" by (auto simp: chunk_changed_def)
  then have "0 < free \<and> addr \<le> unat bno \<and> unat bno < addr + 8 * nat (fs_bs fs) \<and> unat bno - addr \<notin> used" using res by simp
  then show "block_free fs bno" unfolding block_free_def using sm by blast
  note fr = spaceman_update_cib_frame [OF i(4)]
  show "fs_bs fs' = fs_bs fs" "fs_xid fs' = fs_xid fs" using res fr by simp_all
  show "d_block (fs_dev fs') x = d_block (fs_dev fs) x" if "\<not> in_pool base cnt x" for x using res fr that by simp
qed

section \<open>Properties\<close>

lemma nat_uint_mod64: "nat (uint (x :: u64) mod 18446744073709551616) = unat x"
  using uint_lt2p [of x] by (simp add: nat_uint_eq)

lemma cow_header_ok:
  assumes "cow_header type new xid raw = Inr raw'"
  shows "length raw' = length raw" "rd64 raw' 16 = Inr (unat xid)"
    "rd64 raw' 8 = (if bit type 30 then Inr (unat new) else rd64 raw 8)"
    "off + int n \<le> 8 \<or> 24 \<le> off \<Longrightarrow> rd_le n raw' off = rd_le n raw off"
proof -
  obtain raw1 where raw1: "(if bit type 30 then wr64 raw 8 (uint new) else Inr raw) = Inr raw1" "wr64 raw1 16 (uint xid) = Inr raw'"
    using assms by (auto simp: cow_header_def bind_res_eq_Inr)
  have len: "length raw1 = length raw" using raw1(1) by (auto simp: wr_le_length split: if_splits)
  show "length raw' = length raw" using len wr_le_length [OF raw1(2)] by simp
  show "rd64 raw' 16 = Inr (unat xid)" using rd_le_wr_le_same [OF raw1(2)] by (simp add: nat_uint_mod64)
  have "rd64 raw' 8 = rd64 raw1 8" using rd_le_wr_le_other [OF raw1(2), of 8 8] by simp
  then show "rd64 raw' 8 = (if bit type 30 then Inr (unat new) else rd64 raw 8)"
    using raw1(1) rd_le_wr_le_same [of 8 raw 8 "uint new" raw1] by (auto simp: nat_uint_mod64 split: if_splits)
  show "rd_le n raw' off = rd_le n raw off" if "off + int n \<le> 8 \<or> 24 \<le> off"
    using that raw1(1) rd_le_wr_le_other [OF raw1(2), of off n] rd_le_wr_le_other [of 8 raw 8 "uint new" raw1 off n]
    by (auto split: if_splits)
qed

lemma free_queue_insert_dev:
  assumes "apfs_free_queue_insert bno count fs = Some (Inr fs')"
  shows "d_block (fs_dev fs') = d_block (fs_dev fs)" "fs_xid fs' = fs_xid fs"
  using free_queue_insert_frame [of fs bno count] assms fq_frame_dev by auto

text \<open>
  A file system for the concrete instances: the space manager has one chunk-info block, the block 5, with one
  chunk, which starts at the block 2048; this block holds an object of an older transaction.
\<close>

definition cow_object :: buffer where
  "cow_object = replicate 8 0 @ [0, 8, 0, 0, 0, 0, 0, 0] @ [3, 0, 0, 0, 0, 0, 0, 0] @ [2, 0, 0, 64] @ replicate 228 7"

definition cow_cib :: buffer where
  "cow_cib = replicate 16 0 @ [9, 0, 0, 0, 0, 0, 0, 0] @ replicate 12 0 @ [1, 0, 0, 0] @
     [9, 0, 0, 0, 0, 0, 0, 0] @ [0, 8, 0, 0, 0, 0, 0, 0] @ [0, 0, 0, 0] @ [7, 0, 0, 0] @ [6, 0, 0, 0, 0, 0, 0, 0] @ replicate 184 0"

definition cow_fs :: apfs_fs where
  "cow_fs = chunk_fs\<lparr>
     fs_dev := (fs_dev chunk_fs)\<lparr>d_check_nodes := False,
       d_block := ((\<lambda>_. Some (replicate 256 0))(5 \<mapsto> cow_cib, 6 \<mapsto> 1 # replicate 255 0, 2048 \<mapsto> cow_object))\<rparr>,
     fs_sm := (fs_sm chunk_fs)\<lparr>sm_raw := sm_raw sample_pool @ [5, 0, 0, 0, 0, 0, 0, 0], sm_addr_offset := 344,
       sm_cib_count := 1, sm_chunks_per_cib := 1\<rparr>\<rparr>"

lemma cow_reads:
  "rd64 cow_cib 16 = Inr 9" "rd32 cow_cib 36 = Inr 1" "rd64 cow_cib (ci_off 0) = Inr 9" "rd64 cow_cib (ci_off 0 + 8) = Inr 2048"
  "rd32 cow_cib (ci_off 0 + 20) = Inr 7" "rd64 cow_cib (ci_off 0 + 24) = Inr 6"
  "rd64 cow_object 16 = Inr 3"
  by (simp_all add: ci_off_def, code_simp+)

lemma cow_object_type: "rd32 cow_object 24 = Inr 1073741826"
proof -
  have "rd_bytes cow_object 24 4 = Inr [2, 0, 0, 64]" by code_simp
  then show ?thesis by (simp add: rd_le_def)
qed

lemma cow_raw_reads:
  "rd64 (fs_raw cow_fs) 176 = Inr 5" "rd64 (fs_raw cow_fs) 152 = Inr 3" "rd64 (fs_raw cow_fs) 344 = Inr 5" "length (fs_raw cow_fs) = 352"
  unfolding cow_fs_def sample_pool_def by (simp_all, code_simp+)

lemma cow_fs_sel:
  "fs_bs cow_fs = 256" "fs_xid cow_fs = 9" "d_check_nodes (fs_dev cow_fs) = False" "sm_cib_count (fs_sm cow_fs) = 1"
  "sm_chunks_per_cib (fs_sm cow_fs) = 1" "sm_addr_offset (fs_sm cow_fs) = 344"
  "d_block (fs_dev cow_fs) 5 = Some cow_cib" "d_block (fs_dev cow_fs) 6 = Some (1 # replicate 255 0)"
  "d_block (fs_dev cow_fs) 2048 = Some cow_object"
  by (simp_all add: cow_fs_def chunk_fs_def sample_dev_def)

lemma cow_cib_addr: "apfs_spaceman_read_cib_addr (fs_sm cow_fs) 0 = Inr 5"
  using cow_raw_reads(3) by (simp add: apfs_spaceman_read_cib_addr_def cib_addr_off_def cow_fs_sel to_u32_def)

lemma cow_chunk: "sm_chunk cow_fs i j cib_bno addr free ba used \<longleftrightarrow> i = 0 \<and> j = 0 \<and> cib_bno = 5 \<and> addr = 2048 \<and> free = 7 \<and>
    ba = 6 \<and> used = {0}"
proof -
  have bits: "chunk_bits cow_fs 6 = {0}" by (simp add: chunk_bits_def cow_fs_sel bits_1_3)
  have "chunk_is cow_fs 5 0 addr free ba used \<longleftrightarrow> addr = 2048 \<and> free = 7 \<and> ba = 6 \<and> used = {0}"
    unfolding chunk_is_def cow_fs_sel option.inject simp_thms cow_reads sum.inject using bits by (metis)
  then show ?thesis
    unfolding sm_chunk_def cow_fs_sel using cow_cib_addr cow_reads(2) cow_fs_sel(7) by (cases "i = 0") auto
qed

lemma cow_pool: "fs_pool cow_fs 5 3" "chunk_ok 5 3 cow_fs 5 6"
proof -
  show "fs_pool cow_fs 5 3"
    using sample_pool_ok(1) cow_raw_reads
    by (simp add: pool_ok_def bmaps_ok_def cow_fs_sel) (simp add: cow_fs_def chunk_fs_def sample_pool_def)
  show "chunk_ok 5 3 cow_fs 5 6"
    using chunk_fs_ok(4) by (simp add: chunk_ok_def in_use_def ip_used_def cow_fs_def)
qed

lemma cow_fs_ok: "space_ok 5 3 cow_fs"
proof -
  have "blocks_ok cow_fs" by (simp add: blocks_ok_def cow_fs_sel) (simp add: cow_fs_def cow_object_def cow_cib_def)
  moreover have "\<exists>k \<le> 16. (256 :: int) = 2 ^ k" by (intro exI [of _ 8]) simp
  ultimately show ?thesis using cow_pool by (auto simp: space_ok_def cow_chunk cow_fs_sel)
qed

lemma update_cib_total:
  assumes "0 \<le> cib_addr_off (fs_sm fs) i" "cib_addr_off (fs_sm fs) i + 8 \<le> int (length (fs_raw fs))" "80 \<le> length (fs_raw fs)"
  shows "\<exists>fs'. spaceman_update_cib i bno fs = Inr fs'"
proof -
  obtain raw1 where raw1: "wr64 (fs_raw fs) (cib_addr_off (fs_sm fs) i) (uint bno) = Inr raw1"
    using wr_le_ok [of "cib_addr_off (fs_sm fs) i" 8 "fs_raw fs"] assms(1,2) by auto
  then obtain raw2 where "wr64 raw1 72 (uint (sm_free_count (fs_sm fs))) = Inr raw2"
    using wr_le_ok [of 72 8 raw1] wr_le_length [OF raw1] assms(3) by auto
  then show ?thesis using raw1 by (simp add: spaceman_update_cib_def apfs_spaceman_write_cib_addr_def apfs_write_spaceman_def)
qed

lemma cow_alloc: "\<exists>bno fs'. apfs_spaceman_allocate_block True cow_fs = Some (Inr (bno, fs'))"
proof -
  have "(1 :: nat) \<in> {..<2048}" "(1 :: nat) \<notin> {0}" by simp_all
  then have nf: "\<not> {..<2048 :: nat} \<subseteq> {0}" by blast
  have ok: "blocks_ok cow_fs" using cow_fs_ok by (simp add: space_ok_def)
  have "\<exists>bno fs'. apfs_chunk_alloc_free 5 0 0 True cow_fs = Some (Inr (5, bno, fs')) \<and>
      fs_raw fs' = fs_raw cow_fs \<and> sm_addr_offset (fs_sm fs') = sm_addr_offset (fs_sm cow_fs)"
    by (rule chunk_alloc_total [where k = 8 and b = "1 # replicate 255 0", OF cow_pool(1) ok cow_pool(2) cow_fs_sel(7) cow_reads(4,5,6,1,3)])
      (simp_all add: cow_fs_sel bits_1_3 nf ci_off_def)
  then obtain bno fs' where run: "apfs_chunk_alloc_free 5 0 0 True cow_fs = Some (Inr (5, bno, fs'))"
    "fs_raw fs' = fs_raw cow_fs" "sm_addr_offset (fs_sm fs') = 344"
    by (auto simp: cow_fs_sel)
  have so: "search_order True 1 = [0]" by (simp add: search_order_def)
  have cib: "apfs_cib_allocate_block 5 True cow_fs = Some (Inr (5, bno, fs'))"
    by (simp add: apfs_cib_allocate_block_def cow_fs_sel cow_reads so [simplified] apfs_chunk_allocate_block_def run(1))
  obtain fs2 where "spaceman_update_cib 0 5 fs' = Inr fs2"
    using update_cib_total [of fs' 0 5] run(2,3) cow_raw_reads(4) by (auto simp: cib_addr_off_def to_u32_def)
  then show ?thesis
    using cib cow_cib_addr by (simp add: apfs_spaceman_allocate_block_def cow_fs_sel so [simplified])
qed

text \<open>
  The allocation of a block searches all of the chunks.  When it succeeds, the block is one that its chunk
  describes as free, and no block outside of the internal pool has been written.
\<close>

theorem spaceman_allocates_free_block:
  assumes "space_ok base cnt fs" "apfs_spaceman_allocate_block backwards fs = Some (Inr (bno, fs'))"
  shows "block_free fs bno \<and> (\<forall>x. \<not> in_pool base cnt x \<longrightarrow> d_block (fs_dev fs') x = d_block (fs_dev fs) x)"
  using spaceman_allocate_ok [OF assms] by blast

theorem spaceman_allocates_free_block_witness:
  "\<exists>bno fs'. apfs_spaceman_allocate_block True cow_fs = Some (Inr (bno, fs')) \<and> block_free cow_fs bno"
  using cow_alloc spaceman_allocates_free_block [OF cow_fs_ok] by blast

text \<open>
  (C18) Write access to an object is copy-on-write.  An object of the current transaction stays where it is.
  Any other one is copied to a block that was free, and the old block, which a crash must leave intact, is
  still the same; the copy has the number of the transaction, physical objects have the new block number as
  their id, and the rest of the object is the old one.  No other block outside of the internal pool is written.
  The old block is put into the free queue, unless it belongs to a snapshot.
\<close>

theorem object_copy_on_write:
  assumes "space_ok base cnt fs" "\<not> in_pool base cnt bno" "\<not> block_free fs bno"
    and "d_block (fs_dev fs) bno = Some raw" "rd32 raw 24 = Inr type"
    and "read_object_block_write bno preserve fs = Some (Inr (new, raw', fs'))"
  shows "rd64 raw 16 = Inr (unat (fs_xid fs)) \<and> new = bno \<and> raw' = raw \<and> fs' = fs \<or>
    block_free fs new \<and> new \<noteq> bno \<and> d_block (fs_dev fs') new = Some raw' \<and> d_trans (fs_dev fs') new \<and>
    length raw' = length raw \<and> rd64 raw' 16 = Inr (unat (fs_xid fs)) \<and>
    rd64 raw' 8 = (if bit type 30 then Inr (unat new) else rd64 raw 8) \<and>
    (\<forall>off n. off + int n \<le> 8 \<or> 24 \<le> off \<longrightarrow> rd_le n raw' off = rd_le n raw off) \<and>
    (\<forall>x. \<not> in_pool base cnt x \<and> x \<noteq> new \<longrightarrow> d_block (fs_dev fs') x = d_block (fs_dev fs) x) \<and>
    (\<exists>fs1. apfs_spaceman_allocate_block True fs = Some (Inr (new, fs1)) \<and>
       (if preserve then fs_sm fs' = fs_sm fs1
        else \<exists>fs2. apfs_free_queue_insert bno 1 (put_block new raw fs1) = Some (Inr fs2) \<and> fs_sm fs' = fs_sm fs2))"
proof -
  have rd: "apfs_read_object_block (fs_dev fs) bno = Inr raw"
    using assms(4,6)
    by (auto simp: read_object_block_write_def apfs_read_object_block_def bindo_eq_Some_Inr bind_res_eq_Inr split: if_splits)
  obtain o_xid where xid: "rd64 raw 16 = Inr o_xid"
    using assms(5,6) rd by (auto simp: read_object_block_write_def bindo_eq_Some_Inr)
  show ?thesis
  proof (cases "of_nat o_xid = fs_xid fs")
    case True
    have "unat (of_nat o_xid :: u64) = o_xid" using rd_le_bound [OF xid] by (simp add: unat_of_nat)
    then show ?thesis
      using True assms(5,6) rd xid by (auto simp: read_object_block_write_def)
  next
    case False
    then obtain fs1 fs2 where alloc: "apfs_spaceman_allocate_block True fs = Some (Inr (new, fs1))"
      and q: "(if \<not> preserve then apfs_free_queue_insert bno 1 (put_block new raw fs1)
              else if type mod 65536 \<noteq> APFS_OBJECT_TYPE_FS then Some (Inr (count_alloced (put_block new raw fs1)))
              else Some (Inr (put_block new raw fs1))) = Some (Inr fs2)"
      and h: "cow_header type new (fs_xid fs2) raw = Inr raw'"
      and fs': "fs' = put_block new raw' (apfs_transaction_join new fs2)"
      using assms(5,6) xid rd False
      by (simp add: read_object_block_write_def bindo_eq_Some_Inr Let_def del: if_split split: prod.splits) (elim exE conjE, blast)
    note al = spaceman_allocate_ok [OF assms(1) alloc]
    have fs2: "d_block (fs_dev fs2) = (d_block (fs_dev fs1))(new \<mapsto> raw)" "fs_xid fs2 = fs_xid fs"
      using q al(3) free_queue_insert_dev [of bno 1 "put_block new raw fs1" fs2] by (auto simp: count_alloced_def split: if_splits)
    have ne: "new \<noteq> bno" using al(1) assms(3) by auto
    have sm: "if preserve then fs_sm fs' = fs_sm fs1
        else \<exists>fs2. apfs_free_queue_insert bno 1 (put_block new raw fs1) = Some (Inr fs2) \<and> fs_sm fs' = fs_sm fs2"
      using q by (auto simp: fs' count_alloced_def split: if_splits)
    have blocks: "d_block (fs_dev fs') x = d_block (fs_dev fs) x" if "\<not> in_pool base cnt x" "x \<noteq> new" for x
      using al(4) [OF that(1)] that(2) fs2(1) by (simp add: fs')
    have dev: "d_block (fs_dev fs') new = Some raw'" "d_trans (fs_dev fs') new"
      by (simp_all add: fs' put_block_def apfs_transaction_join_def)
    note hdr = cow_header_ok [OF h, unfolded fs2(2)]
    show ?thesis using al(1) ne dev hdr(1-3) hdr(4) blocks alloc sm by blast
  qed
qed

lemma in_pool_bound: "in_pool base cnt x \<Longrightarrow> unat x < base + cnt"
  unfolding in_pool_def unat_of_nat by (metis (no_types) add_less_cancel_left mod_less_eq_dividend order_le_less_trans unat_of_nat)

lemma cow_run: "\<exists>new raw' fs'. read_object_block_write 2048 True cow_fs = Some (Inr (new, raw', fs'))"
proof -
  obtain new fs1 where alloc: "apfs_spaceman_allocate_block True cow_fs = Some (Inr (new, fs1))" using cow_alloc by blast
  note al = spaceman_allocate_ok [OF cow_fs_ok alloc]
  have "2048 \<le> unat new" using al(1) by (auto simp: block_free_def cow_chunk)
  then have "\<not> in_pool 5 3 new" using in_pool_bound [of 5 3 new] by auto
  moreover have "\<exists>b. d_block (fs_dev cow_fs) new = Some b" by (simp add: cow_fs_def)
  ultimately obtain b where b: "d_block (fs_dev fs1) new = Some b" using al(4) by auto
  have len: "length cow_object = 256" by (simp add: cow_object_def)
  obtain raw1 where "wr64 cow_object 8 (uint new) = Inr raw1" using wr_le_ok [of 8 8 cow_object] len by auto
  moreover obtain raw2 where "wr64 raw1 16 9 = Inr raw2" using wr_le_ok [of 16 8 raw1] wr_le_length [OF calculation] len by auto
  ultimately have "cow_header 1073741826 new 9 cow_object = Inr raw2" by (simp add: cow_header_def bit_simps)
  then show ?thesis
    using alloc b cow_reads(7) cow_object_type al(3)
    by (simp add: read_object_block_write_def apfs_read_object_block_def cow_fs_sel apfs_getblk_def count_alloced_def Let_def)
qed

theorem object_copy_on_write_witness:
  "\<exists>new raw' fs'. read_object_block_write 2048 True cow_fs = Some (Inr (new, raw', fs')) \<and> new \<noteq> 2048 \<and>
     rd64 raw' 8 = Inr (unat new) \<and> d_block (fs_dev fs') 2048 = Some cow_object"
proof -
  obtain new raw' fs' where run: "read_object_block_write 2048 True cow_fs = Some (Inr (new, raw', fs'))"
    using cow_run by blast
  have "\<not> in_pool 5 3 2048" using in_pool_bound [of 5 3 2048] by auto
  moreover have "\<not> block_free cow_fs 2048" by (simp add: block_free_def cow_chunk)
  moreover have "bit (1073741826 :: nat) 30" by (simp add: bit_simps)
  ultimately show ?thesis
    using object_copy_on_write [OF cow_fs_ok _ _ cow_fs_sel(9) cow_object_type run] cow_fs_sel(2,9) cow_reads(7) run by auto
qed

text \<open>
  A query on the catalog of any image returns without an access outside of the blocks.  The nodes of the
  catalog are found with queries on a second tree, the object map, whose bytes are arbitrary as well.
\<close>

theorem catalog_query_returns_on_any_image:
  assumes "dev_fits (fs_dev fs)" "node_fits (fs_bs fs) (omap_root (fs_omap fs))" "node_fits (fs_bs fs) cat_root"
  shows "\<exists>e c. apfs_btree_query (fs_dev fs) (virt_read fs)
      [(apfs_alloc_query cat_root None)\<lparr>q_key := key, q_flags := flags\<rparr>] = Some (e, c) \<and> e \<noteq> Some UB \<and>
    (e = None \<longrightarrow> c \<noteq> [] \<and> apfs_node_is_leaf (q_node (hd c)) \<and> record_fits (fs_bs fs) (hd c))"
proof -
  have "reader_fits (fs_bs fs) (virt_read fs)"
    unfolding virt_read_def using virt_lookup_safe [OF assms(1,2)] by (intro read_node_fits [OF assms(1)]) blast
  from btree_query_total [OF new_query_fits [OF assms(3)] _ this] show ?thesis by blast
qed

theorem catalog_query_returns_on_any_image_witness:
  "\<exists>e c. apfs_btree_query (fs_dev sample_fs) (virt_read sample_fs)
     [(apfs_alloc_query sample_node None)\<lparr>q_key := zero_key, q_flags := APFS_QUERY_CAT\<rparr>] = Some (e, c) \<and> e \<noteq> Some UB"
proof -
  have "node_fits 256 sample_node" using sample_node_repr(2) by (simp add: node_fits_def) (simp add: sample_node_def)
  moreover have "dev_fits (fs_dev sample_fs)" by (simp add: dev_fits_def sample_fs_def sample_dev_def)
  moreover have "fs_bs sample_fs = 256" "omap_root (fs_omap sample_fs) = sample_node" by (simp_all add: sample_fs_def sample_dev_def)
  ultimately show ?thesis using catalog_query_returns_on_any_image [of sample_fs sample_node APFS_QUERY_CAT zero_key] by auto
qed

end
