(* ===== verification/Catalog.thy ===== *)
theory Catalog
  imports Storage
begin

text \<open>
  Queries for single records of the catalog of a mounted volume and of the extents of a sealed one.  They are
  shared by the readers of extents, attributes and directory entries.

  The state of a volume adds to the state of the file system the root of the catalog, which is in memory, and the
  root of the tree of sealed extents.  The abstraction of a tree is the list of its keys in their order and the raw
  record of each key.
\<close>

section \<open>State\<close>

record apfs_sb_info =
  s_fs :: apfs_fs
  s_cat_root :: apfs_node
  s_fext_tree_oid :: u64

abbreviation s_dev :: "apfs_sb_info \<Rightarrow> apfs_dev" where "s_dev sbi \<equiv> fs_dev (s_fs sbi)"
abbreviation s_blocksize :: "apfs_sb_info \<Rightarrow> int" where "s_blocksize sbi \<equiv> d_bs (fs_dev (s_fs sbi))"
abbreviation apfs_is_sealed :: "apfs_sb_info \<Rightarrow> bool" where "apfs_is_sealed sbi \<equiv> d_sealed (fs_dev (s_fs sbi))"

text \<open>A new query on the catalog for the record of a key.\<close>

definition cat_query :: "apfs_sb_info \<Rightarrow> apfs_key \<Rightarrow> u32 \<Rightarrow> chain_result option" where
  "cat_query sbi key flags =
     apfs_btree_query (s_dev sbi) (virt_read (s_fs sbi)) [(apfs_alloc_query (s_cat_root sbi) None)\<lparr>q_key := key, q_flags := flags\<rparr>]"

section \<open>Queries on arbitrary images\<close>

text \<open>\<open>keepso P r\<close>: the computation returns, it is safe, and its result satisfies \<open>P\<close>.\<close>

definition keepso :: "('a \<Rightarrow> bool) \<Rightarrow> 'a result option \<Rightarrow> bool" where
  "keepso P r \<longleftrightarrow> (case r of None \<Rightarrow> False | Some r \<Rightarrow> keeps P r)"

lemma keepso_simps [simp]: "\<not> keepso P None" "keepso P (Some r) \<longleftrightarrow> keeps P r"
  by (simp_all add: keepso_def)

lemma keepso_bind: "keepso P r \<Longrightarrow> (\<And>x. r = Some (Inr x) \<Longrightarrow> P x \<Longrightarrow> keepso Q (f x)) \<Longrightarrow> keepso Q (bindo r f)"
  by (cases r; cases "the r") auto

lemma keepso_bind_some: "keeps P r \<Longrightarrow> (\<And>x. r = Inr x \<Longrightarrow> P x \<Longrightarrow> keepso Q (f x)) \<Longrightarrow> keepso Q (bindo (Some r) f)"
  by (rule keepso_bind [of P]) simp_all

lemma keeps_rd: "0 \<le> off \<Longrightarrow> off + int n \<le> int (length b) \<Longrightarrow> keeps (\<lambda>_. True) (rd_le n b off)"
  using rd_le_ok [of off n b] by auto

definition vol_fits :: "apfs_sb_info \<Rightarrow> bool" where
  "vol_fits sbi \<longleftrightarrow> dev_fits (s_dev sbi) \<and> node_fits (s_blocksize sbi) (omap_root (fs_omap (s_fs sbi))) \<and>
     node_fits (s_blocksize sbi) (s_cat_root sbi)"

definition found_fits :: "int \<Rightarrow> apfs_query \<Rightarrow> bool" where
  "found_fits bs q \<longleftrightarrow> record_fits bs q \<and> int (length (nd_data (q_node q))) = bs"

text \<open>Each record that a chain of queries finds brings it closer to its end.\<close>

lemma query_continues:
  assumes "reader_fits (d_bs dev) rd" "chain_fits (d_bs dev) chain" "chain \<noteq> []"
  obtains e c where "apfs_btree_query dev rd chain = Some (e, c)" "e \<noteq> Some UB"
    "e = None \<longrightarrow> found_fits (d_bs dev) (hd c) \<and> chain_fits (d_bs dev) c \<and> c \<noteq> [] \<and> chain_weight c < chain_weight chain"
proof -
  obtain e c where run: "apfs_btree_query dev rd chain = Some (e, c)" "e \<noteq> Some UB"
    "e = None \<longrightarrow> chain_fits (d_bs dev) c \<and> c \<noteq> [] \<and> record_fits (d_bs dev) (hd c) \<and> chain_weight c < chain_weight chain"
    using btree_query_total [OF assms(2,3,1)] by blast
  have "e = None \<longrightarrow> found_fits (d_bs dev) (hd c)"
    using run(3) by (cases c) (auto simp: found_fits_def query_fits_def node_fits_def)
  with run show thesis using that by blast
qed

lemma query_returns:
  assumes "reader_fits (d_bs dev) rd" "node_fits (d_bs dev) root"
  obtains e c where "apfs_btree_query dev rd [(apfs_alloc_query root None)\<lparr>q_key := key, q_flags := flags\<rparr>] = Some (e, c)" "e \<noteq> Some UB"
    "e = None \<longrightarrow> found_fits (d_bs dev) (hd c)"
  by (rule query_continues [OF assms(1) new_query_fits [OF assms(2)], of flags key]) (use that in auto)

lemma vol_readers:
  assumes "vol_fits sbi"
  shows "reader_fits (s_blocksize sbi) (virt_read (s_fs sbi))" "reader_fits (s_blocksize sbi) (phys_read (s_fs sbi))"
proof -
  have fits: "dev_fits (s_dev sbi)" "node_fits (s_blocksize sbi) (omap_root (fs_omap (s_fs sbi)))" using assms by (simp_all add: vol_fits_def)
  show "reader_fits (s_blocksize sbi) (virt_read (s_fs sbi))"
    unfolding virt_read_def using virt_lookup_safe [OF fits] by (intro read_node_fits [OF fits(1)]) blast
  show "reader_fits (s_blocksize sbi) (phys_read (s_fs sbi))" unfolding phys_read_def by (rule read_node_fits [OF fits(1)]) simp
qed

lemma cat_query_returns:
  assumes "vol_fits sbi"
  obtains e c where "cat_query sbi key flags = Some (e, c)" "e \<noteq> Some UB" "e = None \<longrightarrow> found_fits (s_blocksize sbi) (hd c)"
  unfolding cat_query_def
  by (rule query_returns [OF vol_readers(1) [OF assms], of "s_cat_root sbi" flags key]) (use assms that in \<open>auto simp: vol_fits_def\<close>)

text \<open>A field of the key or of the value of the record that was found.\<close>

lemma found_fits_rd:
  assumes "found_fits bs q"
  shows "0 \<le> i \<Longrightarrow> i + int n \<le> q_len q \<Longrightarrow> 0 < n \<Longrightarrow> \<exists>x. rd_le n (nd_data (q_node q)) (q_off q + i) = Inr x"
    "0 \<le> i \<Longrightarrow> i + int n \<le> q_key_len q \<Longrightarrow> 0 < n \<Longrightarrow> \<exists>x. rd_le n (nd_data (q_node q)) (q_key_off q + i) = Inr x"
  using assms by (auto intro!: rd_le_ok simp: found_fits_def record_fits_def)

section \<open>Records of sorted trees\<close>

text \<open>The raw key and the raw value of a record of a node, and of the record that a query has found.\<close>

definition record_bytes :: "int \<Rightarrow> apfs_node \<Rightarrow> nat \<Rightarrow> (byte list \<times> byte list) result" where
  "record_bytes bs node i =
     bind_res (apfs_node_locate_key bs node (int i) 0) (\<lambda>(klen, koff).
     bind_res (rd_bytes (nd_data node) koff klen) (\<lambda>k.
     bind_res (apfs_node_locate_value bs node (int i) 0) (\<lambda>(vlen, voff).
     bind_res (rd_bytes (nd_data node) voff vlen) (\<lambda>v.
     Inr (k, v)))))"

definition found_bytes :: "apfs_query \<Rightarrow> (byte list \<times> byte list) result" where
  "found_bytes q =
     bind_res (rd_bytes (nd_data (q_node q)) (q_key_off q) (q_key_len q)) (\<lambda>k.
     bind_res (rd_bytes (nd_data (q_node q)) (q_off q) (q_len q)) (\<lambda>v.
     Inr (k, v)))"

definition tree_map ::
  "apfs_dev \<Rightarrow> (u64 \<Rightarrow> apfs_node result) \<Rightarrow> u32 \<Rightarrow> u8 set \<Rightarrow> apfs_node \<Rightarrow> apfs_key list \<Rightarrow> (apfs_key \<Rightarrow> byte list \<times> byte list) \<Rightarrow> bool" where
  "tree_map dev rd tree names root ks recs \<longleftrightarrow> (\<exists>h < 12. btree dev rd tree names (nd_oid root) h root ks) \<and> sorted_keys ks \<and>
     (\<forall>leaf i k. leaf_below dev rd tree (nd_oid root) root leaf \<longrightarrow> i < nd_records leaf \<longrightarrow> key_at dev tree leaf i = Inr k \<longrightarrow>
        record_bytes (d_bs dev) leaf i = Inr (recs k))"

lemma locate_key_off:
  assumes "\<not> index_out_of_bounds node i"
  shows "apfs_node_locate_key bs node i off = apfs_node_locate_key bs node i 0"
  using assms by (simp add: apfs_node_locate_key_def)

lemma located_zero:
  assumes "q_index q = int m" "m < nd_records (q_node q)" "located bs q"
  shows "apfs_node_locate_key bs (q_node q) (int m) 0 = Inr (q_key_len q, q_key_off q)"
proof -
  have "\<not> index_out_of_bounds (q_node q) (int m)" using assms(2) zmod_le_nonneg_dividend [of "int m" "2 ^ 32"] by (simp add: index_out_of_bounds_def to_u32_def)
  then show ?thesis using assms(1,3) locate_key_off by (metis located_def)
qed

lemma found_bytes_eq:
  assumes "q_index q = int m" "m < nd_records (q_node q)" "located bs q"
    "apfs_node_locate_value bs (q_node q) (int m) 0 = Inr (q_len q, q_off q)"
  shows "found_bytes q = record_bytes bs (q_node q) m"
  using located_zero [OF assms(1-3)] assms(4) by (simp add: found_bytes_def record_bytes_def)

text \<open>
  A query finds the last record whose key is not above the wanted one.  It reports \<open>ENODATA\<close> if there is none, or
  if an exact match was asked for and the keys differ.
\<close>

lemma tree_map_query:
  assumes tm: "tree_map dev rd fl names root ks recs" and "plain_flags fl" "named_by names key"
  obtains (none) c where "apfs_btree_query dev rd [(apfs_alloc_query root None)\<lparr>q_key := key, q_flags := fl\<rparr>] = Some (Some ENODATA, c)"
      "\<forall>k \<in> set ks. apfs_keycmp k key > 0"
    | (differs) c where "apfs_btree_query dev rd [(apfs_alloc_query root None)\<lparr>q_key := key, q_flags := fl\<rparr>] = Some (Some ENODATA, c)"
      "fl AND APFS_QUERY_EXACT \<noteq> 0" "\<forall>k \<in> set ks. apfs_keycmp k key \<noteq> 0"
    | (found) pre k post q c where "apfs_btree_query dev rd [(apfs_alloc_query root None)\<lparr>q_key := key, q_flags := fl\<rparr>] = Some (None, q # c)"
      "ks = pre @ k # post" "apfs_keycmp k key \<le> 0" "\<forall>k' \<in> set post. apfs_keycmp k' key > 0"
      "fl AND APFS_QUERY_EXACT \<noteq> 0 \<Longrightarrow> apfs_keycmp k key = 0" "found_bytes q = Inr (recs k)"
      "apfs_key_from_query (d_hashed dev) (q\<lparr>q_flags := fl\<rparr>) = Inr k"
proof -
  let ?q = "(apfs_alloc_query root None)\<lparr>q_key := key, q_flags := fl\<rparr>"
  obtain h where h: "h < 12" "btree dev rd fl names (nd_oid root) h root ks" and srt: "sorted_keys ks"
    using tm by (auto simp: tree_map_def)
  have q: "q_index ?q = int (nd_records root)" "q_depth ?q = 0" by (simp_all add: apfs_alloc_query_def)
  have "\<exists>e q' rest'. apfs_btree_query dev rd [?q] = Some (e, q' # rest') \<and> btree_found dev fl ks (q_key ?q) e q' \<and>
      (e = None \<longrightarrow> leaf_below dev rd fl (nd_oid root) root (q_node q'))"
    by (rule btree_query_from [OF h(2) assms(2) srt]) (use q h(1) assms(3) in simp_all)
  then obtain e q' rest where run: "apfs_btree_query dev rd [?q] = Some (e, q' # rest)" and bf: "btree_found dev fl ks key e q'"
    and leaf: "e = None \<longrightarrow> leaf_below dev rd fl (nd_oid root) root (q_node q')" by auto
  from bf consider "\<forall>k \<in> set ks. apfs_keycmp k key > 0" "e = Some ENODATA"
    | pre k post where "ks = pre @ k # post" "\<forall>k' \<in> set post. apfs_keycmp k' key > 0" "record_found dev fl key k e q'"
    unfolding btree_found_def by blast
  then show thesis
  proof cases
    case 1
    then show thesis using none run by simp
  next
    case 2
    show thesis
    proof (cases e)
      case None
      obtain m where m: "q_index q' = int m" "m < nd_records (q_node q')" "key_at dev fl (q_node q') m = Inr k" "located (d_bs dev) q'"
        "apfs_node_locate_value (d_bs dev) (q_node q') (int m) 0 = Inr (q_len q', q_off q')" "apfs_keycmp k key \<le> 0"
        "fl AND APFS_QUERY_EXACT \<noteq> 0 \<Longrightarrow> apfs_keycmp k key = 0"
        using 2(3) None by (auto simp: record_found_def split: if_splits)
      have "record_bytes (d_bs dev) (q_node q') m = Inr (recs k)" using tm leaf None m(2,3) by (auto simp: tree_map_def)
      then have "found_bytes q' = Inr (recs k)" using found_bytes_eq [OF m(1,2,4,5)] by simp
      moreover have "apfs_key_from_query (d_hashed dev) (q'\<lparr>q_flags := fl\<rparr>) = Inr k"
      proof -
        let ?q = "(apfs_alloc_query (q_node q') None)\<lparr>q_flags := fl, q_key_len := q_key_len q', q_key_off := q_key_off q'\<rparr>"
        have "q_node ?q = q_node q'" by (simp add: apfs_alloc_query_def)
        then have "apfs_key_from_query (d_hashed dev) ?q = Inr k"
          using m(3) located_zero [OF m(1,2,4)] by (simp add: key_at_def node_key_at_def)
        then show ?thesis using key_from_query_cong [of "q'\<lparr>q_flags := fl\<rparr>" ?q] \<open>q_node ?q = q_node q'\<close> by simp
      qed
      ultimately show thesis using m 2 found run None by blast
    next
      case (Some err)
      then have e: "e = Some ENODATA" "apfs_keycmp k key \<noteq> 0" "fl AND APFS_QUERY_EXACT \<noteq> 0" "apfs_keycmp k key \<le> 0"
        using 2(3) by (auto simp: record_found_def split: if_splits)
      have "apfs_keycmp k' key \<noteq> 0" if "k' \<in> set ks" for k'
      proof
        assume k': "apfs_keycmp k' key = 0"
        have named: "named_by names k'" "named_by names k" using btree_named [OF h(2)] that 2(1) by auto
        have "apfs_keycmp k' k < 0" if "k' \<in> set pre" using that srt 2(1) by (auto simp: sorted_keys_def sorted_wrt_append)
        moreover have "apfs_keycmp key k \<le> 0 \<Longrightarrow> apfs_keycmp k key = 0" using e(4) apfs_keycmp_swap [of key k] by simp
        moreover have "apfs_keycmp k k' \<le> 0"
          using apfs_keycmp_le_trans [OF named(2) assms(3) e(4), of k'] k' apfs_keycmp_swap [of key k'] by simp
        moreover have "k' \<noteq> k" using e(2) k' by auto
        ultimately have "k' \<in> set post" using that 2(1) apfs_keycmp_swap [of k k'] by auto
        then show False using 2(2) k' by auto
      qed
      then show thesis using differs run e(1,3) by blast
    qed
  qed
qed

text \<open>The records of a tree do not depend on whether a query asks for an exact match.\<close>

lemma flags_exact:
  "(fl OR APFS_QUERY_EXACT) AND APFS_QUERY_TREE_MASK = fl AND APFS_QUERY_TREE_MASK"
  "(fl OR APFS_QUERY_EXACT) AND APFS_QUERY_CAT = fl AND APFS_QUERY_CAT"
  "(fl OR APFS_QUERY_EXACT) AND APFS_QUERY_ANY_NAME = fl AND APFS_QUERY_ANY_NAME"
  "(fl OR APFS_QUERY_EXACT) AND APFS_QUERY_ANY_NUMBER = fl AND APFS_QUERY_ANY_NUMBER" for fl :: u32
  by (simp_all add: query_flags bit.conj_disj_distrib2)

lemma key_at_exact: "key_at dev (fl OR APFS_QUERY_EXACT) = key_at dev fl"
  by (intro ext) (simp add: key_at_def node_key_at_def apfs_key_from_query_def flags_exact has_flag_def)

lemma child_oid_exact: "child_oid dev (fl OR APFS_QUERY_EXACT) = child_oid dev fl"
  by (intro ext) (simp add: child_oid_def flags_exact)

lemma leaf_below_exact: "leaf_below dev rd (fl OR APFS_QUERY_EXACT) base node leaf \<Longrightarrow> leaf_below dev rd fl base node leaf"
  by (induction rule: leaf_below.induct) (auto intro: leaf_itself leaf_child simp: child_oid_exact)

lemma btree_exact: "btree dev rd fl names base h node ks \<Longrightarrow> btree dev rd (fl OR APFS_QUERY_EXACT) names base h node ks"
proof (induction rule: btree.induct)
  case (btree_leaf node ks)
  then show ?case by (intro btree.btree_leaf) (simp_all add: node_keys_def key_at_exact)
next
  case (btree_index node kss h)
  have "node_keys dev (fl OR APFS_QUERY_EXACT) names node (map hd kss)"
    using btree_index.hyps(2) by (simp add: node_keys_def key_at_exact)
  with btree_index show ?case by (intro btree.btree_index) (auto simp: child_oid_exact, blast)
qed

lemma tree_map_exact:
  assumes "tree_map dev rd fl names root ks recs"
  shows "tree_map dev rd (fl OR APFS_QUERY_EXACT) names root ks recs"
  using assms btree_exact leaf_below_exact unfolding tree_map_def key_at_exact by blast

section \<open>The catalog\<close>

definition catalog :: "apfs_sb_info \<Rightarrow> apfs_key list \<Rightarrow> (apfs_key \<Rightarrow> byte list \<times> byte list) \<Rightarrow> bool" where
  "catalog sbi ks recs \<longleftrightarrow>
     tree_map (s_dev sbi) (virt_read (s_fs sbi)) APFS_QUERY_CAT {APFS_TYPE_XATTR, APFS_TYPE_DIR_REC} (s_cat_root sbi) ks recs"

lemma cat_flags: "plain_flags APFS_QUERY_CAT" "plain_flags (APFS_QUERY_CAT OR APFS_QUERY_EXACT)"
  "APFS_QUERY_CAT AND APFS_QUERY_EXACT = 0" "(APFS_QUERY_CAT OR APFS_QUERY_EXACT) AND APFS_QUERY_EXACT \<noteq> 0"
  by (simp_all add: plain_flags_def query_flags)

lemma catalogD:
  assumes "catalog sbi ks recs"
  shows "sorted_keys ks" "\<And>k. k \<in> set ks \<Longrightarrow> named_by {APFS_TYPE_XATTR, APFS_TYPE_DIR_REC} k"
  using assms btree_named by (auto simp: catalog_def tree_map_def)

text \<open>A query for an exact key finds its record.\<close>

lemma cat_query_exact:
  assumes "catalog sbi ks recs" "named_by {APFS_TYPE_XATTR, APFS_TYPE_DIR_REC} key"
  shows "key \<notin> set ks \<Longrightarrow> \<exists>c. cat_query sbi key (APFS_QUERY_CAT OR APFS_QUERY_EXACT) = Some (Some ENODATA, c)"
    "key \<in> set ks \<Longrightarrow> \<exists>q c. cat_query sbi key (APFS_QUERY_CAT OR APFS_QUERY_EXACT) = Some (None, q # c) \<and> found_bytes q = Inr (recs key)"
proof -
  have eq: "k = key" if "k \<in> set ks" "apfs_keycmp k key = 0" for k
    using apfs_keycmp_eq_0 [OF catalogD(2) [OF assms(1) that(1)] assms(2) that(2)] .
  note q = tree_map_query [OF tree_map_exact [OF assms(1) [unfolded catalog_def]] cat_flags(2) assms(2), folded cat_query_def]
  show "\<exists>c. cat_query sbi key (APFS_QUERY_CAT OR APFS_QUERY_EXACT) = Some (Some ENODATA, c)" if none: "key \<notin> set ks"
  proof (rule q)
    fix pre k post q c
    assume "ks = pre @ k # post" "(APFS_QUERY_CAT OR APFS_QUERY_EXACT) AND APFS_QUERY_EXACT \<noteq> 0 \<Longrightarrow> apfs_keycmp k key = 0"
    then have "k = key" "k \<in> set ks" using cat_flags(4) eq [of k] by simp_all
    with none show ?thesis by simp
  qed blast+
  show "\<exists>q c. cat_query sbi key (APFS_QUERY_CAT OR APFS_QUERY_EXACT) = Some (None, q # c) \<and> found_bytes q = Inr (recs key)" if some: "key \<in> set ks"
  proof (rule q)
    fix pre k post q c
    assume k: "cat_query sbi key (APFS_QUERY_CAT OR APFS_QUERY_EXACT) = Some (None, q # c)" "ks = pre @ k # post"
      "(APFS_QUERY_CAT OR APFS_QUERY_EXACT) AND APFS_QUERY_EXACT \<noteq> 0 \<Longrightarrow> apfs_keycmp k key = 0" "found_bytes q = Inr (recs k)"
    then have "k = key" using cat_flags(4) eq [of k] by simp
    with k show ?thesis by blast
  qed (use some in force)+
qed

section \<open>Volumes for concrete instances\<close>

text \<open>A volume whose catalog is the given root node; the device has a block of equal bytes under each number.\<close>

definition small_vol :: "apfs_node \<Rightarrow> apfs_sb_info" where
  "small_vol root = \<lparr>s_fs = sample_fs\<lparr>fs_dev := sample_dev\<lparr>d_block := \<lambda>bno. Some (replicate 256 (ucast bno))\<rparr>\<rparr>, s_cat_root = root, s_fext_tree_oid = 0\<rparr>"

lemma small_vol_sel [simp]:
  "s_cat_root (small_vol root) = root" "s_blocksize (small_vol root) = 256" "d_sealed (s_dev (small_vol root)) = False"
  "d_block (s_dev (small_vol root)) bno = Some (replicate 256 (ucast bno))" "d_hashed (s_dev (small_vol root)) = True"
  by (simp_all add: small_vol_def sample_dev_def)

lemma small_vol_fits: "node_fits 256 root \<Longrightarrow> vol_fits (small_vol root)"
  using sample_node_repr(2) by (simp add: vol_fits_def dev_fits_def) (simp add: node_fits_def small_vol_def sample_fs_def sample_dev_def sample_node_def)

lemma one_record_catalog:
  assumes "0 < length k" "length k + length v \<le> 100" "\<And>rest. apfs_read_cat_key (k @ rest) (int (length k)) True = Inr key"
    and named: "named_by {APFS_TYPE_XATTR, APFS_TYPE_DIR_REC} key"
  obtains root where "vol_fits (small_vol root)" "catalog (small_vol root) [key] (\<lambda>_. (k, v))"
proof -
  obtain root where root: "node_repr 256 root [(k, v)]" "nd_flags root = 2" by (rule sample_record_of [OF assms(1,2)])
  have leaf: "apfs_node_is_leaf root" using root(2) by (simp add: apfs_node_is_leaf_def node_flags)
  have n: "apfs_node_is_valid 256 root" "int (length (nd_data root)) = 256" "nd_records root = 1"
    using node_repr_valid [OF root(1)] root(1) by (simp_all add: node_repr_def)
  obtain ko vo where loc: "\<And>off. apfs_node_locate_key 256 root 0 off = Inr (int (length k), ko)"
      "nd_key root \<le> ko" "rd_bytes (nd_data root) ko (int (length k)) = Inr k"
      "\<And>off. apfs_node_locate_value 256 root 0 off = Inr (int (length v), vo)" "rd_bytes (nd_data root) vo (int (length v)) = Inr v"
    by (rule node_repr_locate [OF root(1), of 0 k v]) (use that in simp_all)
  have ko: "0 \<le> ko" using loc(2) node_repr_key [OF root(1)] by simp
  obtain rest where "raw_at (nd_data root) ko = k @ rest" using raw_at_split [OF ko loc(3)] by blast
  then have key: "key_at (s_dev (small_vol root)) APFS_QUERY_CAT root 0 = Inr key"
    using loc(1) assms(3) by (simp add: key_at_def node_key_at_def apfs_key_from_query_def Let_def query_flags has_flag_def apfs_alloc_query_def)
  have "node_keys (s_dev (small_vol root)) APFS_QUERY_CAT {APFS_TYPE_XATTR, APFS_TYPE_DIR_REC} root [key]"
    using n key named by (simp add: node_keys_def)
  then have "btree (s_dev (small_vol root)) (virt_read (s_fs (small_vol root))) APFS_QUERY_CAT {APFS_TYPE_XATTR, APFS_TYPE_DIR_REC} (nd_oid root) 0 root [key]"
    using leaf by (rule btree_leaf [rotated])
  moreover have "record_bytes 256 root 0 = Inr (k, v)" using loc by (simp add: record_bytes_def)
  moreover have "leaf' = root" if "leaf_below dev rd fl base root leaf'" for dev rd fl base leaf'
    using that by (cases rule: leaf_below.cases) (use leaf in auto)
  ultimately have "catalog (small_vol root) [key] (\<lambda>_. (k, v))"
    unfolding catalog_def tree_map_def using n(3)
    by (intro conjI exI [of _ 0]) (auto simp: sorted_keys_def, metis less_Suc0)
  moreover have "vol_fits (small_vol root)" using n by (intro small_vol_fits) (simp add: node_fits_def)
  ultimately show thesis using that by blast
qed

end
