(* ===== verification/ExtentRead.thy ===== *)
theory ExtentRead
  imports Catalog
begin

text \<open>
  Reading of data streams (\<open>extents.c\<close>): the extent that covers a block of a stream, with the cache of the last
  extent, the mapping of blocks of a stream to blocks of the device, and the read of a range of bytes.

  Addresses and lengths are 64-bit words.  The block size is a power of two, so that shifts by its logarithm and
  masks with its predecessor are products, quotients and remainders.
\<close>

section \<open>State\<close>

record apfs_file_extent =
  fe_logical_addr :: u64
  fe_phys_block_num :: u64
  fe_len :: u64
  fe_crypto_id :: u64

record apfs_dstream_info =
  ds_id :: u64
  ds_size :: u64
  ds_sparse_bytes :: u64
  ds_cached_ext :: apfs_file_extent
  ds_ext_dirty :: bool
  ds_shared :: bool

abbreviation (input) APFS_FILE_EXTENT_LEN_MASK :: u64 where "APFS_FILE_EXTENT_LEN_MASK \<equiv> 0x00ffffffffffffff"
abbreviation (input) APFS_MAX_FILE_SIZE :: u64 where "APFS_MAX_FILE_SIZE \<equiv> 0x00ffffffffff0000"

definition apfs_ext_is_hole :: "apfs_file_extent \<Rightarrow> bool" where
  "apfs_ext_is_hole extent \<longleftrightarrow> fe_phys_block_num extent = 0"

definition apfs_size_to_blocks :: "int \<Rightarrow> u64 \<Rightarrow> u64" where
  "apfs_size_to_blocks bs s = (s + of_int bs - 1) div of_int bs"

section \<open>The extent that covers a block\<close>

definition apfs_extent_from_query :: "bool \<Rightarrow> int \<Rightarrow> apfs_query \<Rightarrow> apfs_file_extent result" where
  "apfs_extent_from_query sealed bs query =
     (let raw = nd_data (q_node query) in
      bind_res
        (if \<not> sealed then
           if q_len query \<noteq> 24 \<or> q_key_len query \<noteq> 16 then Inl EFSCORRUPTED
           else
             bind_res (rd64 raw (q_off query)) (\<lambda>len_and_flags.
             bind_res (rd64 raw (q_key_off query + 8)) (\<lambda>logical_addr.
             bind_res (rd64 raw (q_off query + 8)) (\<lambda>phys_block_num.
             bind_res (rd64 raw (q_off query + 16)) (\<lambda>crypto_id.
             Inr (of_nat len_and_flags AND APFS_FILE_EXTENT_LEN_MASK, of_nat logical_addr, of_nat phys_block_num, of_nat crypto_id)))))
         else
           if q_len query \<noteq> 16 \<or> q_key_len query \<noteq> 16 then Inl EFSCORRUPTED
           else
             bind_res (rd64 raw (q_off query)) (\<lambda>len_and_flags.
             bind_res (rd64 raw (q_key_off query + 8)) (\<lambda>logical_addr.
             bind_res (rd64 raw (q_off query + 8)) (\<lambda>phys_block_num.
             Inr (of_nat len_and_flags AND APFS_FILE_EXTENT_LEN_MASK, of_nat logical_addr, of_nat phys_block_num, 0)))))
        (\<lambda>(ext_len, logical_addr, phys_block_num, crypto_id).
          if ext_len mod of_int bs \<noteq> 0 then Inl EFSCORRUPTED
          else Inr \<lparr>fe_logical_addr = logical_addr, fe_phys_block_num = phys_block_num, fe_len = ext_len, fe_crypto_id = crypto_id\<rparr>))"

text \<open>The query of \<open>apfs_extent_read\<close>, on the catalog or on the tree of extents of a sealed volume.\<close>

definition extent_query :: "apfs_sb_info \<Rightarrow> u64 \<Rightarrow> u64 \<Rightarrow> chain_result result option" where
  "extent_query sbi oid iaddr =
     (if \<not> apfs_is_sealed sbi then
        map_option Inr (cat_query sbi (apfs_init_file_extent_key oid iaddr) APFS_QUERY_CAT)
      else
        bindo (Some (phys_read (s_fs sbi) (s_fext_tree_oid sbi))) (\<lambda>root.
        map_option Inr (apfs_btree_query (s_dev sbi) (phys_read (s_fs sbi))
          [(apfs_alloc_query root None)\<lparr>q_key := apfs_init_fext_key oid iaddr, q_flags := APFS_QUERY_FEXT\<rparr>])))"

definition ext_covers :: "apfs_file_extent \<Rightarrow> u64 \<Rightarrow> bool" where
  "ext_covers ext iaddr \<longleftrightarrow> fe_logical_addr ext \<le> iaddr \<and> iaddr < fe_logical_addr ext + fe_len ext"

definition apfs_extent_read ::
  "apfs_sb_info \<Rightarrow> apfs_dstream_info \<Rightarrow> u64 \<Rightarrow> (apfs_file_extent \<times> apfs_dstream_info) result option" where
  "apfs_extent_read sbi dstream dsblock =
     (let iaddr = dsblock * of_int (s_blocksize sbi); cache = ds_cached_ext dstream in
      if ext_covers cache iaddr then Some (Inr (cache, dstream))
      else
        bindo (extent_query sbi (ds_id dstream) iaddr) (\<lambda>(ret, chain).
        case ret of
          Some e \<Rightarrow> Some (Inl (if e = ENODATA then EFSCORRUPTED else e))
        | None \<Rightarrow>
            bindo (Some (apfs_extent_from_query (apfs_is_sealed sbi) (s_blocksize sbi) (hd chain))) (\<lambda>extent.
            if \<not> ext_covers extent iaddr then Some (Inl EFSCORRUPTED)
            else Some (Inr (extent, if ds_ext_dirty dstream then dstream else dstream\<lparr>ds_cached_ext := extent\<rparr>)))))"

definition apfs_logic_to_phys_bno ::
  "apfs_sb_info \<Rightarrow> apfs_dstream_info \<Rightarrow> u64 \<Rightarrow> (u64 \<times> apfs_dstream_info) result option" where
  "apfs_logic_to_phys_bno sbi dstream dsblock =
     bindo (apfs_extent_read sbi dstream dsblock) (\<lambda>(ext, dstream).
     if apfs_ext_is_hole ext then Some (Inr (0, dstream))
     else
       let blk_off = dsblock - fe_logical_addr ext div of_int (s_blocksize sbi) in
       Some (Inr (fe_phys_block_num ext + blk_off, dstream)))"

text \<open>
  \<open>__apfs_get_block\<close> without \<open>create\<close>: the size of the mapping and the block that the buffer head is mapped to, if
  any.
\<close>

definition apfs_get_block ::
  "apfs_sb_info \<Rightarrow> apfs_dstream_info \<Rightarrow> u64 \<Rightarrow> u64 \<Rightarrow> (u64 \<times> u64 option \<times> apfs_dstream_info) result option" where
  "apfs_get_block sbi dstream dsblock b_size =
     (if apfs_size_to_blocks (s_blocksize sbi) (ds_size dstream) \<le> dsblock then Some (Inr (b_size, None, dstream))
      else
        bindo (apfs_extent_read sbi dstream dsblock) (\<lambda>(ext, dstream).
        let bs = of_int (s_blocksize sbi);
            blk_off = dsblock - fe_logical_addr ext div bs;
            map_len = fe_len ext - blk_off * bs;
            b_size = (if b_size > map_len then map_len else b_size)
        in Some (Inr (b_size, if apfs_ext_is_hole ext then None else Some (fe_phys_block_num ext + blk_off), dstream))))"

section \<open>Reading bytes of a stream\<close>

text \<open>The first loop of \<open>apfs_nonsparse_dstream_read\<close>, which finds the blocks.\<close>

fun dstream_bnos :: "apfs_sb_info \<Rightarrow> apfs_dstream_info \<Rightarrow> u64 \<Rightarrow> nat \<Rightarrow> (u64 list \<times> apfs_dstream_info) result option" where
  "dstream_bnos sbi dstream log_bno 0 = Some (Inr ([], dstream))"
| "dstream_bnos sbi dstream log_bno (Suc n) =
     bindo (apfs_logic_to_phys_bno sbi dstream log_bno) (\<lambda>(bno, dstream).
     if bno = 0 then Some (Inl EFSCORRUPTED)
     else
       bindo (dstream_bnos sbi dstream (log_bno + 1) n) (\<lambda>(bnos, dstream).
       Some (Inr (bno # bnos, dstream))))"

text \<open>The second loop, which copies from the blocks.  The numbers do not overflow, since both are below the maximal size of a file.\<close>

fun dstream_copy :: "apfs_dev \<Rightarrow> nat \<Rightarrow> nat \<Rightarrow> nat \<Rightarrow> nat \<Rightarrow> nat \<Rightarrow> u64 list \<Rightarrow> buffer result" where
  "dstream_copy dev count offset start stop log_bno [] = Inr []"
| "dstream_copy dev count offset start stop log_bno (bno # bnos) =
     (case d_block dev bno of
        None \<Rightarrow> Inl EIO
      | Some b \<Rightarrow>
          let bs = d_bs dev;
              off_in_block = (if log_bno = start then int offset mod bs else 0);
              left_in_block = (if int log_bno = int stop - 1 then int count + int offset - int log_bno * bs - off_in_block else bs - off_in_block)
          in bind_res (rd_bytes b off_in_block left_in_block) (\<lambda>x.
             bind_res (dstream_copy dev count offset start stop (Suc log_bno) bnos) (\<lambda>y.
             Inr (x @ y))))"

definition apfs_nonsparse_dstream_read ::
  "apfs_sb_info \<Rightarrow> apfs_dstream_info \<Rightarrow> u64 \<Rightarrow> u64 \<Rightarrow> (buffer \<times> apfs_dstream_info) result option" where
  "apfs_nonsparse_dstream_read sbi dstream count offset =
     (if count \<ge> APFS_MAX_FILE_SIZE \<or> offset \<ge> APFS_MAX_FILE_SIZE then Some (Inl EFBIG)
      else if offset + count > ds_size dstream then Some (Inl EFSCORRUPTED)
      else
        let bs = nat (s_blocksize sbi);
            start = unat offset div bs;
            stop = (unat offset + unat count + bs - 1) div bs
        in bindo (dstream_bnos sbi dstream (of_nat start) (stop - start)) (\<lambda>(bnos, dstream).
           bindo (Some (dstream_copy (s_dev sbi) (unat count) (unat offset) start stop start bnos)) (\<lambda>data.
           Some (Inr (data, dstream)))))"

text \<open>
  \<open>apfs_nonsparse_dstream_preread\<close>: the blocks that it asks the device for, up to the first hole or error; it leaves
  the last extent in the cache.
\<close>

fun preread_blocks :: "apfs_sb_info \<Rightarrow> apfs_dstream_info \<Rightarrow> u64 \<Rightarrow> nat \<Rightarrow> (u64 list \<times> apfs_dstream_info) option" where
  "preread_blocks sbi dstream log_bno 0 = Some ([], dstream)"
| "preread_blocks sbi dstream log_bno (Suc n) =
     (case apfs_logic_to_phys_bno sbi dstream log_bno of
        None \<Rightarrow> None
      | Some (Inl e) \<Rightarrow> Some ([], dstream)
      | Some (Inr (bno, dstream)) \<Rightarrow>
          if bno = 0 then Some ([], dstream)
          else map_option (\<lambda>(bnos, dstream). (bno # bnos, dstream)) (preread_blocks sbi dstream (log_bno + 1) n))"

definition apfs_nonsparse_dstream_preread :: "apfs_sb_info \<Rightarrow> apfs_dstream_info \<Rightarrow> (u64 list \<times> apfs_dstream_info) option" where
  "apfs_nonsparse_dstream_preread sbi dstream =
     preread_blocks sbi dstream 0 (unat (apfs_size_to_blocks (s_blocksize sbi) (ds_size dstream)))"

end
