(* ===== verification/ExtentSafe.thy ===== *)
theory ExtentSafe
  imports ExtentRead
begin

text \<open>
  Reads of data streams on arbitrary images: they return, they stay inside of the blocks, and they yield as many bytes
  as the caller asked for.
\<close>

section \<open>Reading on arbitrary images\<close>

lemma extent_from_query_safe:
  assumes "found_fits bs q"
  shows "keeps (\<lambda>_. True) (apfs_extent_from_query sealed bs q)"
proof -
  note rd = found_fits_rd [OF assms]
  have keeps: "keeps (\<lambda>_. True) (if c then Inl EFSCORRUPTED else Inr x)" for c and x :: apfs_file_extent by simp
  show ?thesis
    using rd(1) [of 0 8] rd(1) [of 8 8] rd(1) [of 16 8] rd(2) [of 8 8]
    by (auto simp: apfs_extent_from_query_def Let_def)
qed

lemma extent_query_returns:
  assumes "vol_fits sbi"
  shows "keepso (\<lambda>(e, c). e \<noteq> Some UB \<and> (e = None \<longrightarrow> found_fits (s_blocksize sbi) (hd c))) (extent_query sbi oid iaddr)"
proof (cases "apfs_is_sealed sbi")
  case False
  then show ?thesis
    by (cases rule: cat_query_returns [OF assms, of "apfs_init_file_extent_key oid iaddr" APFS_QUERY_CAT]) (simp add: extent_query_def)
next
  case True
  note rd = vol_readers(2) [OF assms]
  show ?thesis
  proof (cases "phys_read (s_fs sbi) (s_fext_tree_oid sbi)")
    case (Inl e)
    then show ?thesis using rd True by (auto simp: extent_query_def reader_fits_def)
  next
    case (Inr root)
    then have "node_fits (s_blocksize sbi) root" using rd by (auto simp: reader_fits_def)
    then show ?thesis
      by (cases rule: query_returns [OF rd, of root APFS_QUERY_FEXT "apfs_init_fext_key oid iaddr"]) (simp_all add: extent_query_def True Inr)
  qed
qed

definition same_stream :: "apfs_dstream_info \<Rightarrow> apfs_dstream_info \<Rightarrow> bool" where
  "same_stream ds ds' \<longleftrightarrow> (\<exists>ext. ds' = ds\<lparr>ds_cached_ext := ext\<rparr>)"

lemma same_stream_refl [simp]: "same_stream ds ds"
  unfolding same_stream_def by (rule exI [of _ "ds_cached_ext ds"]) simp

lemma same_stream_cache [simp]: "same_stream ds (ds\<lparr>ds_cached_ext := ext\<rparr>)"
  by (auto simp: same_stream_def)

lemma same_stream_trans: "same_stream a b \<Longrightarrow> same_stream b c \<Longrightarrow> same_stream a c"
  by (auto simp: same_stream_def)

lemma extent_read_returns:
  assumes "vol_fits sbi"
  shows "keepso (\<lambda>(ext, ds'). ext_covers ext (dsblock * of_int (s_blocksize sbi)) \<and> same_stream ds ds') (apfs_extent_read sbi ds dsblock)"
proof -
  let ?iaddr = "dsblock * of_int (s_blocksize sbi)"
  have "keepso (\<lambda>(ext, ds'). ext_covers ext ?iaddr \<and> same_stream ds ds')
      (bindo (extent_query sbi (ds_id ds) ?iaddr) (\<lambda>(ret, chain).
        case ret of
          Some e \<Rightarrow> Some (Inl (if e = ENODATA then EFSCORRUPTED else e))
        | None \<Rightarrow>
            bindo (Some (apfs_extent_from_query (apfs_is_sealed sbi) (s_blocksize sbi) (hd chain))) (\<lambda>extent.
            if \<not> ext_covers extent ?iaddr then Some (Inl EFSCORRUPTED)
            else Some (Inr (extent, if ds_ext_dirty ds then ds else ds\<lparr>ds_cached_ext := extent\<rparr>)))))"
  proof (rule keepso_bind [OF extent_query_returns [OF assms]], clarsimp, goal_cases)
    case (1 ret chain)
    show ?case
    proof (cases ret)
      case None
      then have "keeps (\<lambda>_. True) (apfs_extent_from_query (apfs_is_sealed sbi) (s_blocksize sbi) (hd chain))"
        using extent_from_query_safe 1 by blast
      then show ?thesis
        by (cases "apfs_extent_from_query (apfs_is_sealed sbi) (s_blocksize sbi) (hd chain)")
          (auto simp: None)
    qed (use 1 in auto)
  qed
  then show ?thesis by (auto simp: apfs_extent_read_def Let_def)
qed

lemma logic_to_phys_returns:
  assumes "vol_fits sbi"
  shows "keepso (\<lambda>(bno, ds'). same_stream ds ds') (apfs_logic_to_phys_bno sbi ds dsblock)"
  unfolding apfs_logic_to_phys_bno_def
  by (rule keepso_bind [OF extent_read_returns [OF assms]]) (auto simp: Let_def)

lemma dstream_bnos_returns:
  assumes "vol_fits sbi"
  shows "keepso (\<lambda>(bnos, ds'). length bnos = n \<and> same_stream ds ds') (dstream_bnos sbi ds log_bno n)"
proof (induction n arbitrary: ds log_bno)
  case (Suc n)
  show ?case unfolding dstream_bnos.simps
  proof (rule keepso_bind [OF logic_to_phys_returns [OF assms]], clarsimp, goal_cases)
    case (1 bno ds')
    show ?case
      by (rule keepso_bind [OF Suc.IH]) (use 1 same_stream_trans in \<open>auto\<close>)
  qed
qed simp

text \<open>The position in the stream from which the block \<open>l\<close> is copied.\<close>

definition copy_from :: "nat \<Rightarrow> nat \<Rightarrow> nat \<Rightarrow> nat" where
  "copy_from bs offset l = (if l = offset div bs then offset else l * bs)"

lemma dstream_piece:
  fixes bs offset count l :: nat
  assumes bs: "0 < bs" and l: "offset div bs \<le> l" "l < (offset + count + bs - 1) div bs"
  defines "off_in \<equiv> if l = offset div bs then int offset mod int bs else 0"
  defines "left_in \<equiv> if int l = int ((offset + count + bs - 1) div bs) - 1 then int count + int offset - int l * int bs - off_in else int bs - off_in"
  shows "off_in = int (copy_from bs offset l - l * bs)" "l * bs \<le> copy_from bs offset l"
    "copy_from bs offset l - l * bs < bs"
    "left_in = int (if Suc l = (offset + count + bs - 1) div bs then offset + count - copy_from bs offset l else Suc l * bs - copy_from bs offset l)"
    "0 \<le> left_in" "off_in + left_in \<le> int bs" "copy_from bs offset l \<le> offset + count"
    "Suc l < (offset + count + bs - 1) div bs \<Longrightarrow> Suc l * bs < offset + count"
proof -
  let ?stop = "(offset + count + bs - 1) div bs"
  have stop: "?stop * bs < offset + count + bs" "offset + count \<le> ?stop * bs"
    using bs div_times_less_eq_dividend [of "offset + count + bs - 1" bs] dividend_less_div_times [OF bs, of "offset + count + bs - 1"]
    by linarith+
  have upto: "Suc j * bs \<le> ?stop * bs" if "Suc j \<le> ?stop" for j using that by (rule mult_le_mono1)
  have lb: "l * bs < offset + count" using upto [of l] l(2) stop by simp
  have off: "offset div bs * bs + offset mod bs = offset" "offset mod bs < bs" using bs by simp_all
  have "int offset mod int bs = int offset - int (offset div bs) * int bs"
    by (simp add: minus_div_mult_eq_mod zdiv_int)
  moreover have "offset - offset div bs * bs < bs" using off by linarith
  ultimately show org: "off_in = int (copy_from bs offset l - l * bs)" "l * bs \<le> copy_from bs offset l" "copy_from bs offset l - l * bs < bs"
    using bs by (auto simp: off_in_def copy_from_def of_nat_diff)
  show fin: "copy_from bs offset l \<le> offset + count" using lb by (simp add: copy_from_def)
  show step: "Suc l * bs < offset + count" if "Suc l < ?stop" using upto [of "Suc l"] that stop by simp
  have lst: "offset + count \<le> l * bs + bs" if "Suc l = ?stop" using stop(2) unfolding that [symmetric] by simp
  show left: "left_in = int (if Suc l = ?stop then offset + count - copy_from bs offset l else Suc l * bs - copy_from bs offset l)"
    using org fin by (auto simp: left_in_def of_nat_diff)
  show "0 \<le> left_in" using left by simp
  show "off_in + left_in \<le> int bs"
  proof (cases "Suc l = ?stop")
    case True
    have "int (offset + count) \<le> int (l * bs + bs)" using lst [OF True] by (simp only: of_nat_le_iff)
    then show ?thesis using org fin True by (simp add: left of_nat_diff)
  qed (use org fin in \<open>simp add: left of_nat_diff\<close>)
qed

lemma keeps_append:
  "length x = a \<Longrightarrow> keeps (\<lambda>d. length d = b) r \<Longrightarrow> a + b = c \<Longrightarrow> keeps (\<lambda>d. length d = c) (bind_res r (\<lambda>y. Inr (x @ y)))"
  by (cases r) auto

lemma dstream_copy_returns:
  assumes "dev_fits dev" "d_bs dev = int bs" "0 < bs" "offset div bs \<le> l" "length bnos = (offset + count + bs - 1) div bs - l" "l \<le> (offset + count + bs - 1) div bs"
  shows "keeps (\<lambda>d. length d = (if bnos = [] then 0 else offset + count - copy_from bs offset l))
    (dstream_copy dev count offset (offset div bs) ((offset + count + bs - 1) div bs) l bnos)"
  using assms(4-)
proof (induction bnos arbitrary: l)
  case (Cons bno bnos)
  let ?stop = "(offset + count + bs - 1) div bs"
  have l: "l < ?stop" using Cons.prems(2) by auto
  note piece = dstream_piece [OF assms(3) Cons.prems(1) l]
  show ?case
  proof (cases "d_block dev bno")
    case (Some b)
    have len: "length b = bs" using assms(1,2) Some by (auto simp: dev_fits_def)
    let ?off = "if l = offset div bs then int offset mod int bs else 0"
    let ?left = "if int l = int ?stop - 1 then int count + int offset - int l * int bs - ?off else int bs - ?off"
    have rd: "rd_bytes b ?off ?left = Inr (take (nat ?left) (drop (nat ?off) b))"
      using piece(1,5,6) len by (intro rd_bytes_Inr) simp_all
    have eq: "dstream_copy dev count offset (offset div bs) ?stop l (bno # bnos) = bind_res (rd_bytes b ?off ?left) (\<lambda>x.
        bind_res (dstream_copy dev count offset (offset div bs) ?stop (Suc l) bnos) (\<lambda>y. Inr (x @ y)))"
      by (simp only: dstream_copy.simps Some option.case Let_def assms(2))
    have nx: "copy_from bs offset (Suc l) = Suc l * bs" using Cons.prems(1) by (simp add: copy_from_def)
    have "keeps (\<lambda>d. length d = (if bnos = [] then 0 else offset + count - Suc l * bs))
        (dstream_copy dev count offset (offset div bs) ?stop (Suc l) bnos)"
      using Cons.IH [of "Suc l"] Cons.prems l unfolding nx by simp
    moreover have last: "bnos = [] \<longleftrightarrow> Suc l = ?stop" using Cons.prems(2) l by (cases bnos) simp_all
    moreover have "length (take (nat ?left) (drop (nat ?off) b)) = nat ?left" using piece(1,5,6) len by simp
    moreover have "nat ?left + (if bnos = [] then 0 else offset + count - Suc l * bs) = offset + count - copy_from bs offset l"
    proof (cases "bnos = []")
      case False
      have "Suc l * bs < offset + count" using piece(8) False last l by simp
      moreover have "copy_from bs offset l \<le> Suc l * bs" using piece(2,3) by simp
      moreover have "Suc l \<noteq> ?stop" using False last by simp
      ultimately show ?thesis using False unfolding piece(4) by (simp only: if_False nat_int)
    next
      case True
      then have "Suc l = ?stop" using last by simp
      then show ?thesis using True unfolding piece(4) by (simp only: nat_int) simp
    qed
    ultimately have "keeps (\<lambda>d. length d = offset + count - copy_from bs offset l)
        (dstream_copy dev count offset (offset div bs) ?stop l (bno # bnos))"
      unfolding eq rd bind_res_Inr by (intro keeps_append)
    then show ?thesis by simp
  qed simp
qed simp

lemma max_file_size_less: "x < APFS_MAX_FILE_SIZE \<Longrightarrow> unat x < 2 ^ 56" for x :: u64
  by (simp add: word_less_nat_alt)

lemma nonsparse_read_returns:
  assumes "vol_fits sbi"
  shows "keepso (\<lambda>(data, ds'). length data = unat count \<and> same_stream ds ds') (apfs_nonsparse_dstream_read sbi ds count offset)"
proof -
  obtain bs where bs: "s_blocksize sbi = int bs" "0 < bs" using assms by (cases "s_blocksize sbi") (auto simp: vol_fits_def dev_fits_def)
  let ?start = "unat offset div bs" and ?stop = "(unat offset + unat count + bs - 1) div bs"
  have le: "?start \<le> ?stop" using bs(2) by (intro div_le_mono) linarith
  have copy: "keeps (\<lambda>d. length d = unat count) (dstream_copy (s_dev sbi) (unat count) (unat offset) ?start ?stop ?start bnos)"
    if "length bnos = ?stop - ?start" for bnos
  proof -
    have "unat count = (if bnos = [] then 0 else unat offset + unat count - copy_from bs (unat offset) ?start)"
    proof (cases "bnos = []")
      case True
      then have "?stop = ?start" using that le by simp
      moreover have "unat offset + unat count \<le> ?stop * bs"
        using bs(2) dividend_less_div_times [of bs "unat offset + unat count + bs - 1"] by linarith
      moreover have "?start * bs \<le> unat offset" by simp
      ultimately have "unat offset + unat count \<le> unat offset" by (metis order_trans)
      then show ?thesis using True by simp
    qed (simp add: copy_from_def)
    then show ?thesis
      using dstream_copy_returns [of "s_dev sbi" bs "unat offset" ?start bnos "unat count"] bs that le assms by (simp add: vol_fits_def)
  qed
  have "keepso (\<lambda>(data, ds'). length data = unat count \<and> same_stream ds ds')
      (bindo (dstream_bnos sbi ds (of_nat ?start) (?stop - ?start)) (\<lambda>(bnos, dstream).
         bindo (Some (dstream_copy (s_dev sbi) (unat count) (unat offset) ?start ?stop ?start bnos)) (\<lambda>data.
         Some (Inr (data, dstream)))))"
  proof (rule keepso_bind [OF dstream_bnos_returns [OF assms]], clarsimp, goal_cases)
    case (1 bnos ds')
    show ?case
      by (rule keepso_bind [of "\<lambda>d. length d = unat count"]) (use copy [of bnos] 1 in auto)
  qed
  then show ?thesis by (simp add: apfs_nonsparse_dstream_read_def Let_def bs(1))
qed

end
