(* ===== verification/ExtentMap.thy ===== *)
theory ExtentMap
  imports ExtentSafe
begin

text \<open>
  What the reads of a data stream return on a well-formed volume: the extents of a stream are the records of its id
  in the catalog, or in the tree of extents of a sealed volume, and they do not overlap.
\<close>

section \<open>The extents of a stream\<close>

definition ext_key :: "apfs_sb_info \<Rightarrow> u64 \<Rightarrow> u64 \<Rightarrow> apfs_key" where
  "ext_key sbi oid addr = (if apfs_is_sealed sbi then apfs_init_fext_key oid addr else apfs_init_file_extent_key oid addr)"

definition extent_tree :: "apfs_sb_info \<Rightarrow> apfs_key list \<Rightarrow> (apfs_key \<Rightarrow> byte list \<times> byte list) \<Rightarrow> bool" where
  "extent_tree sbi ks recs \<longleftrightarrow>
     (if apfs_is_sealed sbi
      then \<exists>root. phys_read (s_fs sbi) (s_fext_tree_oid sbi) = Inr root \<and> tree_map (s_dev sbi) (phys_read (s_fs sbi)) APFS_QUERY_FEXT {} root ks recs
      else catalog sbi ks recs)"

text \<open>The extent in the value of a record.\<close>

definition val_ext :: "bool \<Rightarrow> u64 \<Rightarrow> byte list \<Rightarrow> apfs_file_extent" where
  "val_ext sealed addr v = \<lparr>fe_logical_addr = addr, fe_phys_block_num = of_nat (le_val (take 8 (drop 8 v))),
     fe_len = of_nat (le_val (take 8 v)) AND APFS_FILE_EXTENT_LEN_MASK,
     fe_crypto_id = (if sealed then 0 else of_nat (le_val (take 8 (drop 16 v))))\<rparr>"

definition stream_ext :: "apfs_sb_info \<Rightarrow> apfs_key list \<Rightarrow> (apfs_key \<Rightarrow> byte list \<times> byte list) \<Rightarrow> u64 \<Rightarrow> u64 \<Rightarrow> apfs_file_extent \<Rightarrow> bool" where
  "stream_ext sbi ks recs oid addr ext \<longleftrightarrow> ext_key sbi oid addr \<in> set ks \<and>
     ext = val_ext (apfs_is_sealed sbi) addr (snd (recs (ext_key sbi oid addr)))"

definition extents_wf :: "apfs_sb_info \<Rightarrow> apfs_key list \<Rightarrow> (apfs_key \<Rightarrow> byte list \<times> byte list) \<Rightarrow> u64 \<Rightarrow> bool" where
  "extents_wf sbi ks recs oid \<longleftrightarrow> (\<forall>addr ext. stream_ext sbi ks recs oid addr ext \<longrightarrow>
     length (snd (recs (ext_key sbi oid addr))) = (if apfs_is_sealed sbi then 16 else 24) \<and>
     int (unat addr) mod s_blocksize sbi = 0 \<and> fe_len ext mod of_int (s_blocksize sbi) = 0 \<and> unat addr + unat (fe_len ext) < 2 ^ 64 \<and>
     (\<forall>addr' ext'. stream_ext sbi ks recs oid addr' ext' \<longrightarrow> addr < addr' \<longrightarrow> unat addr + unat (fe_len ext) \<le> unat addr'))"

lemma val_ext_addr [simp]: "fe_logical_addr (val_ext sealed addr v) = addr"
  by (simp add: val_ext_def)

lemma ext_covers_wf:
  assumes "unat (fe_logical_addr ext) + unat (fe_len ext) < 2 ^ 64"
  shows "ext_covers ext iaddr \<longleftrightarrow> fe_logical_addr ext \<le> iaddr \<and> unat iaddr < unat (fe_logical_addr ext) + unat (fe_len ext)"
  using assms by (simp add: ext_covers_def word_less_nat_alt unat_word_ariths)

lemma ext_key_between:
  assumes "named_by N k" "N \<inter> {0, APFS_TYPE_FILE_EXTENT} = {}" "apfs_keycmp (ext_key sbi oid a) k \<le> 0" "apfs_keycmp k (ext_key sbi oid b) \<le> 0"
  shows "k = ext_key sbi oid (k_number k)" "a \<le> k_number k" "k_number k \<le> b"
proof -
  have ty: "k_id k = oid" "k_type k = (if apfs_is_sealed sbi then 0 else APFS_TYPE_FILE_EXTENT)"
    using assms(3,4) by (auto simp: apfs_keycmp_def ext_key_def apfs_init_fext_key_def apfs_init_file_extent_key_def split: if_splits)
  moreover have "k_name k = None" using assms(1,2) ty by (auto simp: named_by_def split: if_splits)
  ultimately show eq: "k = ext_key sbi oid (k_number k)"
    by (auto simp: ext_key_def apfs_init_fext_key_def apfs_init_file_extent_key_def intro!: apfs_key.equality)
  show "a \<le> k_number k" "k_number k \<le> b"
    using assms(3,4) ty by (auto simp: apfs_keycmp_def ext_key_def apfs_init_fext_key_def apfs_init_file_extent_key_def split: if_splits)
qed

lemma rd_le_slice:
  assumes "rd_bytes b off len = Inr v" "0 < n" "i + n \<le> length v"
  shows "rd_le n b (off + int i) = Inr (le_val (take n (drop i v)))"
proof -
  have b: "v = take (nat len) (drop (nat off) b)" "0 \<le> off" "off + len \<le> int (length b)" "0 < len"
    using assms by (auto simp: rd_bytes_def split: if_splits)
  moreover from this have "i + n \<le> nat len" "i + n + nat off \<le> length b" using assms(3) by simp_all
  ultimately have "take n (drop (nat (off + int i)) b) = take n (drop i v)"
    by (simp add: nat_add_distrib drop_take add.commute)
  then show ?thesis using b assms(2,3) by (subst rd_le_Inr) auto
qed

lemma rd_le_raw_at_Inr:
  assumes "rd_le n (raw_at b off) i = Inr x" "0 < n"
  shows "rd_le n b (off + i) = Inr x"
  using assms
  by (auto simp: rd_le_def rd_bytes_def raw_at_def bind_res_eq_Inr nat_add_distrib add.commute split: if_splits)

lemma found_extent_key:
  assumes "apfs_key_from_query hashed (q\<lparr>q_flags := if apfs_is_sealed sbi then APFS_QUERY_FEXT else APFS_QUERY_CAT\<rparr>) = Inr (ext_key sbi oid addr)"
  shows "q_key_len q = 16" "\<exists>n. rd64 (nd_data (q_node q)) (q_key_off q + 8) = Inr n \<and> of_nat n = addr"
proof -
  have "q_key_len q = 16 \<and> (\<exists>n. rd64 (raw_at (nd_data (q_node q)) (q_key_off q)) 8 = Inr n \<and> of_nat n = addr)"
  proof (cases "apfs_is_sealed sbi")
    case True
    then show ?thesis using assms
      by (auto simp: apfs_key_from_query_def ext_key_def apfs_init_fext_key_def apfs_read_fext_key_def bind_res_eq_Inr query_flags has_flag_def Let_def
          split: if_splits)
  next
    case False
    then show ?thesis using assms
      by (auto simp: apfs_key_from_query_def ext_key_def apfs_init_file_extent_key_def apfs_read_cat_key_def bind_res_eq_Inr query_flags has_flag_def Let_def
          split: if_splits)
  qed
  then show "q_key_len q = 16" "\<exists>n. rd64 (nd_data (q_node q)) (q_key_off q + 8) = Inr n \<and> of_nat n = addr"
    using rd_le_raw_at_Inr [of 8 "nd_data (q_node q)" "q_key_off q" 8] by auto
qed

lemma found_extent:
  assumes "apfs_key_from_query hashed (q\<lparr>q_flags := if apfs_is_sealed sbi then APFS_QUERY_FEXT else APFS_QUERY_CAT\<rparr>) = Inr (ext_key sbi oid addr)"
    and "found_bytes q = Inr (k, v)" "length v = (if apfs_is_sealed sbi then 16 else 24)"
    and "fe_len (val_ext (apfs_is_sealed sbi) addr v) mod of_int bs = 0"
  shows "apfs_extent_from_query (apfs_is_sealed sbi) bs q = Inr (val_ext (apfs_is_sealed sbi) addr v)"
proof -
  have v: "rd_bytes (nd_data (q_node q)) (q_off q) (q_len q) = Inr v" using assms(2) by (auto simp: found_bytes_def bind_res_eq_Inr)
  note len = rd_bytes_length [OF v]
  note key = found_extent_key [OF assms(1)]
  obtain n where n: "rd64 (nd_data (q_node q)) (q_key_off q + 8) = Inr n" "of_nat n = addr" using key(2) by blast
  note rd = rd_le_slice [OF v, of 8 0] rd_le_slice [OF v, of 8 8] rd_le_slice [OF v, of 8 16]
  have qlen: "q_len q = (if apfs_is_sealed sbi then 16 else 24)" using len assms(3) by (auto split: if_splits)
  have "apfs_extent_from_query (apfs_is_sealed sbi) bs q =
      (if fe_len (val_ext (apfs_is_sealed sbi) addr v) mod of_int bs \<noteq> 0 then Inl EFSCORRUPTED else Inr (val_ext (apfs_is_sealed sbi) addr v))"
    using key(1) n rd assms(3) qlen by (cases "apfs_is_sealed sbi") (simp_all add: apfs_extent_from_query_def Let_def val_ext_def)
  then show ?thesis unfolding assms(4) by simp
qed

text \<open>A query for an address in an extent of the stream finds this extent.\<close>

lemma extent_query_finds:
  assumes tree: "extent_tree sbi ks recs" and wf: "extents_wf sbi ks recs oid"
    and ext: "stream_ext sbi ks recs oid addr ext" "ext_covers ext iaddr"
  obtains q c where "extent_query sbi oid iaddr = Some (Inr (None, q # c))"
    "apfs_extent_from_query (apfs_is_sealed sbi) (s_blocksize sbi) q = Inr ext"
proof -
  let ?key = "ext_key sbi oid iaddr" and ?fl = "if apfs_is_sealed sbi then APFS_QUERY_FEXT else APFS_QUERY_CAT"
  let ?names = "if apfs_is_sealed sbi then {} else {APFS_TYPE_XATTR, APFS_TYPE_DIR_REC} :: u8 set"
  have ex: "ext_key sbi oid addr \<in> set ks" "ext = val_ext (apfs_is_sealed sbi) addr (snd (recs (ext_key sbi oid addr)))"
    using ext(1) by (simp_all add: stream_ext_def)
  have w: "length (snd (recs (ext_key sbi oid addr))) = (if apfs_is_sealed sbi then 16 else 24)"
      "fe_len ext mod of_int (s_blocksize sbi) = 0" "unat addr + unat (fe_len ext) < 2 ^ 64"
      "\<And>addr' ext'. stream_ext sbi ks recs oid addr' ext' \<Longrightarrow> addr < addr' \<Longrightarrow> unat addr + unat (fe_len ext) \<le> unat addr'"
    using wf ext(1) unfolding extents_wf_def by blast+
  have cov: "addr \<le> iaddr" "unat iaddr < unat addr + unat (fe_len ext)"
    using ext(2) ext_covers_wf [of ext iaddr] w(3) ex(2) by auto
  obtain rd root where tm: "tree_map (s_dev sbi) rd ?fl ?names root ks recs"
    and run: "extent_query sbi oid iaddr = map_option Inr (apfs_btree_query (s_dev sbi) rd [(apfs_alloc_query root None)\<lparr>q_key := ?key, q_flags := ?fl\<rparr>])"
    using tree by (auto simp: extent_tree_def catalog_def extent_query_def cat_query_def ext_key_def split: if_splits)
  have fl: "plain_flags ?fl" "?fl AND APFS_QUERY_EXACT = 0" by (simp_all add: plain_flags_def query_flags)
  have nm: "named_by ?names (ext_key sbi oid a)" for a
    by (simp add: named_by_def ext_key_def apfs_init_fext_key_def apfs_init_file_extent_key_def)
  have le: "apfs_keycmp (ext_key sbi oid addr) ?key \<le> 0"
    using cov(1) by (auto simp: apfs_keycmp_def ext_key_def apfs_init_fext_key_def apfs_init_file_extent_key_def)
  show thesis
  proof (cases rule: tree_map_query [OF tm fl(1) nm [of iaddr], case_names none differs found])
    case (none c)
    then show ?thesis using le ex(1) by force
  next
    case (differs c)
    then show ?thesis using fl(2) by simp
  next
    case (found pre k post q c)
    have srt: "sorted_keys ks" and nk: "named_by ?names k"
      using tm btree_named found(2) by (fastforce simp: tree_map_def)+
    have "ext_key sbi oid addr \<notin> set post" using found(4) le by force
    then have "apfs_keycmp (ext_key sbi oid addr) k \<le> 0" using ex(1) found(2) srt by (auto simp: sorted_keys_def sorted_wrt_append order.strict_implies_order)
    then have k: "k = ext_key sbi oid (k_number k)" "addr \<le> k_number k" "k_number k \<le> iaddr"
      using ext_key_between [OF nk, of sbi oid addr iaddr] found(3) by auto
    have "\<not> addr < k_number k"
    proof
      assume less: "addr < k_number k"
      have "stream_ext sbi ks recs oid (k_number k) (val_ext (apfs_is_sealed sbi) (k_number k) (snd (recs (ext_key sbi oid (k_number k)))))"
        using k(1) found(2) by (simp add: stream_ext_def)
      from w(4) [OF this less] show False using cov(2) k(3) by (simp add: word_le_nat_alt)
    qed
    then have "k_number k = addr" using k(2) by simp
    with k(1) have key: "k = ext_key sbi oid addr" by simp
    obtain kr v where kv: "recs (ext_key sbi oid addr) = (kr, v)" by fastforce
    have "apfs_extent_from_query (apfs_is_sealed sbi) (s_blocksize sbi) q = Inr (val_ext (apfs_is_sealed sbi) addr v)"
      by (rule found_extent) (use found(6,7) w(1,2) ex(2) in \<open>simp_all add: key kv\<close>)
    then show ?thesis using that run found(1) ex(2) by (simp add: kv)
  qed
qed

section \<open>Reads through the cache\<close>

definition cache_ok :: "apfs_sb_info \<Rightarrow> apfs_key list \<Rightarrow> (apfs_key \<Rightarrow> byte list \<times> byte list) \<Rightarrow> apfs_dstream_info \<Rightarrow> bool" where
  "cache_ok sbi ks recs ds \<longleftrightarrow> fe_len (ds_cached_ext ds) = 0 \<or> (\<exists>addr. stream_ext sbi ks recs (ds_id ds) addr (ds_cached_ext ds))"

lemma stream_ext_unique:
  assumes "extents_wf sbi ks recs oid" "stream_ext sbi ks recs oid a e" "ext_covers e iaddr" "stream_ext sbi ks recs oid a' e'" "ext_covers e' iaddr"
  shows "e = e'"
proof -
  have ends: "unat b + unat (fe_len x) < 2 ^ 64" "fe_logical_addr x = b" if "stream_ext sbi ks recs oid b x" for b x
    using that assms(1) by (auto simp: extents_wf_def stream_ext_def)
  have less: "unat b + unat (fe_len x) \<le> unat b'" if "stream_ext sbi ks recs oid b x" "stream_ext sbi ks recs oid b' x'" "b < b'" for b x b' x'
    using that assms(1) unfolding extents_wf_def by blast
  have cov: "b \<le> iaddr" "unat iaddr < unat b + unat (fe_len x)" if "stream_ext sbi ks recs oid b x" "ext_covers x iaddr" for b x
    using that ends [OF that(1)] ext_covers_wf [of x iaddr] by auto
  have "\<not> a < a'" "\<not> a' < a"
    using less [OF assms(2,4)] less [OF assms(4,2)] cov [OF assms(2,3)] cov [OF assms(4,5)] by (auto simp: word_le_nat_alt)
  then have "a = a'" by simp
  then show ?thesis using assms(2,4) by (simp add: stream_ext_def)
qed

lemma extent_read_finds:
  assumes "extent_tree sbi ks recs" "extents_wf sbi ks recs (ds_id ds)" "cache_ok sbi ks recs ds"
    and ext: "stream_ext sbi ks recs (ds_id ds) addr ext" "ext_covers ext (dsblock * of_int (s_blocksize sbi))"
  shows "\<exists>ds'. apfs_extent_read sbi ds dsblock = Some (Inr (ext, ds')) \<and> same_stream ds ds' \<and> cache_ok sbi ks recs ds'"
proof (cases "ext_covers (ds_cached_ext ds) (dsblock * of_int (s_blocksize sbi))")
  case True
  then have "fe_len (ds_cached_ext ds) \<noteq> 0" by (auto simp: ext_covers_def)
  then have "ds_cached_ext ds = ext" using assms(3) stream_ext_unique [OF assms(2) _ True ext] by (auto simp: cache_ok_def)
  with True show ?thesis using assms(3) by (simp add: apfs_extent_read_def)
next
  case False
  obtain q c where "extent_query sbi (ds_id ds) (dsblock * of_int (s_blocksize sbi)) = Some (Inr (None, q # c))"
    "apfs_extent_from_query (apfs_is_sealed sbi) (s_blocksize sbi) q = Inr ext"
    by (rule extent_query_finds [OF assms(1,2) ext])
  with False ext show ?thesis using assms(3) by (auto simp: apfs_extent_read_def Let_def cache_ok_def)
qed

text \<open>The block of the device with the block \<open>n\<close> of a stream.\<close>

definition stream_bno :: "apfs_sb_info \<Rightarrow> apfs_key list \<Rightarrow> (apfs_key \<Rightarrow> byte list \<times> byte list) \<Rightarrow> u64 \<Rightarrow> u64 \<Rightarrow> u64 \<Rightarrow> bool" where
  "stream_bno sbi ks recs oid n bno \<longleftrightarrow> (\<exists>addr ext. stream_ext sbi ks recs oid addr ext \<and> ext_covers ext (n * of_int (s_blocksize sbi)) \<and>
     bno = (if apfs_ext_is_hole ext then 0 else fe_phys_block_num ext + (n - addr div of_int (s_blocksize sbi))))"

lemma logic_to_phys_finds:
  assumes "extent_tree sbi ks recs" "extents_wf sbi ks recs (ds_id ds)" "cache_ok sbi ks recs ds" "stream_bno sbi ks recs (ds_id ds) n bno"
  shows "\<exists>ds'. apfs_logic_to_phys_bno sbi ds n = Some (Inr (bno, ds')) \<and> same_stream ds ds' \<and> cache_ok sbi ks recs ds'"
proof -
  obtain addr ext where ext: "stream_ext sbi ks recs (ds_id ds) addr ext" "ext_covers ext (n * of_int (s_blocksize sbi))"
    "bno = (if apfs_ext_is_hole ext then 0 else fe_phys_block_num ext + (n - addr div of_int (s_blocksize sbi)))"
    using assms(4) by (auto simp: stream_bno_def)
  have "fe_logical_addr ext = addr" using ext(1) by (auto simp: stream_ext_def)
  then show ?thesis using extent_read_finds [OF assms(1-3) ext(1,2)] ext(3) by (auto simp: apfs_logic_to_phys_bno_def Let_def)
qed

lemma dstream_bnos_finds:
  assumes "extent_tree sbi ks recs" "extents_wf sbi ks recs (ds_id ds)" "cache_ok sbi ks recs ds"
    and "\<forall>i < n. stream_bno sbi ks recs (ds_id ds) (of_nat (start + i)) (bno (start + i)) \<and> bno (start + i) \<noteq> 0"
  shows "\<exists>ds'. dstream_bnos sbi ds (of_nat start) n = Some (Inr (map bno [start..<start + n], ds')) \<and> same_stream ds ds' \<and> cache_ok sbi ks recs ds'"
  using assms(2-)
proof (induction n arbitrary: ds start)
  case (Suc n)
  obtain ds1 where ds1: "apfs_logic_to_phys_bno sbi ds (of_nat start) = Some (Inr (bno start, ds1))" "same_stream ds ds1" "cache_ok sbi ks recs ds1"
    using logic_to_phys_finds [OF assms(1) Suc.prems(1,2), of "of_nat start" "bno start"] Suc.prems(3) by force
  have oid: "ds_id ds1 = ds_id ds" using ds1(2) by (auto simp: same_stream_def)
  have "\<forall>i < n. stream_bno sbi ks recs (ds_id ds1) (of_nat (Suc start + i)) (bno (Suc start + i)) \<and> bno (Suc start + i) \<noteq> 0"
    using Suc.prems(3) unfolding oid by (metis Suc_less_eq add_Suc_shift)
  then obtain ds2 where "dstream_bnos sbi ds1 (of_nat (Suc start)) n = Some (Inr (map bno [Suc start..<Suc start + n], ds2))" "same_stream ds1 ds2"
      "cache_ok sbi ks recs ds2"
    using Suc.IH [of ds1 "Suc start"] Suc.prems(1) ds1(3) oid by auto
  moreover have "bno start \<noteq> 0" using Suc.prems(3) by force
  ultimately show ?case using ds1 same_stream_trans by (auto simp: upt_rec add.commute)
qed simp

lemma dstream_copy_eq:
  fixes offset count bs l :: nat
  defines "stop \<equiv> (offset + count + bs - 1) div bs"
  assumes bs: "d_bs dev = int bs" "0 < bs" and "offset div bs \<le> l" "l \<le> stop"
    and blk: "\<forall>i \<in> {l..<stop}. d_block dev (bno i) = Some (blk i) \<and> length (blk i) = bs"
  shows "dstream_copy dev count offset (offset div bs) stop l (map bno [l..<stop]) =
    Inr (take (offset + count - copy_from bs offset l) (drop (copy_from bs offset l - l * bs) (concat (map blk [l..<stop]))))"
  using assms(4-)
proof (induction "stop - l" arbitrary: l)
  case 0
  then show ?case by simp
next
  case (Suc n)
  have l: "l < stop" using Suc.hyps(2) by simp
  note piece = dstream_piece [OF bs(2) Suc.prems(1) l [unfolded stop_def], folded stop_def]
  let ?off = "if l = offset div bs then int offset mod int bs else 0"
  let ?left = "if int l = int stop - 1 then int count + int offset - int l * int bs - ?off else int bs - ?off"
  let ?cf = "copy_from bs offset l" and ?C = "concat (map blk [Suc l..<stop])"
  have b: "d_block dev (bno l) = Some (blk l)" "length (blk l) = bs" using Suc.prems(3) l by auto
  have cf: "copy_from bs offset (Suc l) = Suc l * bs" using Suc.prems(1) by (simp add: copy_from_def)
  have up: "[l..<stop] = l # [Suc l..<stop]" using l by (simp add: upt_rec)
  have rd: "rd_bytes (blk l) ?off ?left = Inr (take (nat ?left) (drop (nat ?off) (blk l)))"
    using piece(1,5,6) b(2) by (intro rd_bytes_Inr) simp_all
  have rest: "dstream_copy dev count offset (offset div bs) stop (Suc l) (map bno [Suc l..<stop]) = Inr (take (offset + count - Suc l * bs) ?C)"
    using Suc.hyps(1) [of "Suc l"] Suc.hyps(2) Suc.prems l unfolding cf by simp
  have no: "nat ?off = ?cf - l * bs" by (simp only: piece(1) nat_int)
  have nl: "nat ?left = (if Suc l = stop then offset + count - ?cf else Suc l * bs - ?cf)" by (simp only: piece(4) nat_int)
  have "take (nat ?left) (drop (nat ?off) (blk l)) @ take (offset + count - Suc l * bs) ?C = take (offset + count - ?cf) (drop (?cf - l * bs) (blk l @ ?C))"
  proof (cases "Suc l = stop")
    case True
    then have "?C = []" by simp
    then show ?thesis unfolding no nl using True by simp
  next
    case False
    then have step: "Suc l * bs < offset + count" using piece(8) l by simp
    let ?A = "drop (?cf - l * bs) (blk l)"
    have A: "length ?A = Suc l * bs - ?cf" "drop (?cf - l * bs) (blk l @ ?C) = ?A @ ?C" using piece(2,3) b(2) by simp_all
    have d: "offset + count - ?cf - (Suc l * bs - ?cf) = offset + count - Suc l * bs" "Suc l * bs - ?cf \<le> offset + count - ?cf"
      using piece(2,3) step by auto
    have "take (offset + count - ?cf) (?A @ ?C) = ?A @ take (offset + count - Suc l * bs) ?C"
      using d A(1) unfolding take_append by (metis take_all)
    moreover have "take (Suc l * bs - ?cf) ?A = ?A" using A(1) by simp
    ultimately show ?thesis unfolding no nl A(2) using False by (simp only: if_False)
  qed
  moreover have "dstream_copy dev count offset (offset div bs) stop l (bno l # map bno [Suc l..<stop]) = bind_res (rd_bytes (blk l) ?off ?left) (\<lambda>x.
      bind_res (dstream_copy dev count offset (offset div bs) stop (Suc l) (map bno [Suc l..<stop])) (\<lambda>y. Inr (x @ y)))"
    by (simp only: dstream_copy.simps b(1) option.case Let_def bs(1))
  ultimately show ?case unfolding up by (simp only: list.map rd rest bind_res_Inr concat.simps)
qed

lemma drop_blocks:
  assumes "\<forall>i < l. length (blk i) = bs" "l \<le> n"
  shows "drop (l * bs) (concat (map blk [0..<n])) = concat (map blk [l..<n])"
proof -
  have "[0..<n] = [0..<l] @ [l..<n]" using assms(2) upt_add_eq_append [of 0 l "n - l"] by simp
  moreover have "length (concat (map blk [0..<l])) = l * bs" using assms(1) by (induction l) simp_all
  ultimately show ?thesis by simp
qed

lemma nonsparse_read_eq:
  fixes bs :: nat
  assumes vol: "extent_tree sbi ks recs" "extents_wf sbi ks recs (ds_id ds)" "cache_ok sbi ks recs ds" "s_blocksize sbi = int bs" "0 < bs"
    and range: "count < APFS_MAX_FILE_SIZE" "offset < APFS_MAX_FILE_SIZE" "unat offset + unat count \<le> unat (ds_size ds)" "unat (ds_size ds) \<le> n * bs"
    and blocks: "\<forall>i < n. stream_bno sbi ks recs (ds_id ds) (of_nat i) (bno i) \<and> bno i \<noteq> 0 \<and> d_block (s_dev sbi) (bno i) = Some (blk i) \<and> length (blk i) = bs"
  shows "\<exists>ds'. apfs_nonsparse_dstream_read sbi ds count offset = Some (Inr (take (unat count) (drop (unat offset) (concat (map blk [0..<n]))), ds')) \<and>
    same_stream ds ds' \<and> cache_ok sbi ks recs ds'"
proof -
  let ?start = "unat offset div bs" and ?stop = "(unat offset + unat count + bs - 1) div bs"
  have le: "?start \<le> ?stop" using vol(5) by (intro div_le_mono) linarith
  have "?stop \<le> (n * bs + bs - 1) div bs" using range(3,4) by (intro div_le_mono) linarith
  also have "n * bs + bs - 1 = (bs - 1) + n * bs" using vol(5) by simp
  also have "\<dots> div bs = n" using vol(5) by (subst div_mult_self1) simp_all
  finally have stop: "?stop \<le> n" .
  have b: "stream_bno sbi ks recs (ds_id ds) (of_nat i) (bno i)" "bno i \<noteq> 0" "d_block (s_dev sbi) (bno i) = Some (blk i)" "length (blk i) = bs"
    if "i < ?stop" for i using blocks that stop by simp_all
  obtain ds' where ds': "dstream_bnos sbi ds (of_nat ?start) (?stop - ?start) = Some (Inr (map bno [?start..<?start + (?stop - ?start)], ds'))"
      "same_stream ds ds'" "cache_ok sbi ks recs ds'"
  proof -
    have "\<forall>i < ?stop - ?start. stream_bno sbi ks recs (ds_id ds) (of_nat (?start + i)) (bno (?start + i)) \<and> bno (?start + i) \<noteq> 0"
      by (intro allI impI conjI b(1,2)) linarith+
    from dstream_bnos_finds [OF vol(1-3) this] show thesis using that by blast
  qed
  have up: "?start + (?stop - ?start) = ?stop" using le by simp
  have "dstream_copy (s_dev sbi) (unat count) (unat offset) ?start ?stop ?start (map bno [?start..<?stop]) =
      Inr (take (unat offset + unat count - copy_from bs (unat offset) ?start)
        (drop (copy_from bs (unat offset) ?start - ?start * bs) (concat (map blk [?start..<?stop]))))"
    using dstream_copy_eq [of "s_dev sbi" bs "unat offset" ?start "unat count" bno blk] vol(4,5) le b(3,4) by simp
  also have "take (unat offset + unat count - copy_from bs (unat offset) ?start)
        (drop (copy_from bs (unat offset) ?start - ?start * bs) (concat (map blk [?start..<?stop]))) =
      take (unat count) (drop (unat offset) (concat (map blk [0..<n])))"
  proof -
    have cf: "copy_from bs (unat offset) ?start = unat offset" by (simp add: copy_from_def)
    have st: "drop (?start * bs) (concat (map blk [0..<?stop])) = concat (map blk [?start..<?stop])"
      using b(4) le by (intro drop_blocks) simp_all
    have off: "?start * bs + (unat offset - ?start * bs) = unat offset" by simp
    have "drop (unat offset - ?start * bs) (concat (map blk [?start..<?stop])) = drop (unat offset) (concat (map blk [0..<?stop]))"
      unfolding st [symmetric] drop_drop using off by (simp add: add.commute)
    moreover have "concat (map blk [0..<n]) = concat (map blk [0..<?stop]) @ concat (map blk [?stop..<n])"
      using upt_add_eq_append [of 0 ?stop "n - ?stop"] stop by simp
    moreover have "length (concat (map blk [0..<j])) = j * bs" if "j \<le> ?stop" for j
      using that b(4) by (induction j) simp_all
    moreover have "unat offset + unat count \<le> ?stop * bs"
      using vol(5) dividend_less_div_times [of bs "unat offset + unat count + bs - 1"] by linarith
    ultimately show ?thesis unfolding cf by simp
  qed
  finally have copy: "dstream_copy (s_dev sbi) (unat count) (unat offset) ?start ?stop ?start (map bno [?start..<?stop]) =
      Inr (take (unat count) (drop (unat offset) (concat (map blk [0..<n]))))" .
  have "unat offset + unat count < 2 ^ 64" using max_file_size_less [OF range(1)] max_file_size_less [OF range(2)] by simp
  then have "\<not> offset + count > ds_size ds" using range(3) by (simp add: word_less_nat_alt unat_word_ariths)
  then show ?thesis
    using ds' copy range(1,2) vol(4) unfolding up by (simp add: apfs_nonsparse_dstream_read_def Let_def not_le)
qed

section \<open>Properties\<close>

text \<open>
  A read of a data stream without holes returns on any image, whatever the bytes of the catalog and of the
  object map, without an access outside of the blocks.  A successful read yields exactly as many bytes as were asked
  for, so that it stays inside of the buffer of its caller.
\<close>

theorem dstream_read_on_any_image:
  assumes "vol_fits sbi"
  shows "\<exists>r. apfs_nonsparse_dstream_read sbi ds count offset = Some r \<and> r \<noteq> Inl UB \<and>
    (\<forall>data ds'. r = Inr (data, ds') \<longrightarrow> length data = unat count)"
  using nonsparse_read_returns [OF assms, of count ds offset]
  by (cases "apfs_nonsparse_dstream_read sbi ds count offset") (auto simp: keeps_def split: sum.splits)

definition small_stream :: apfs_dstream_info where
  "small_stream = \<lparr>ds_id = 20, ds_size = 300, ds_sparse_bytes = 0,
     ds_cached_ext = \<lparr>fe_logical_addr = 0, fe_phys_block_num = 0, fe_len = 0, fe_crypto_id = 0\<rparr>, ds_ext_dirty = False, ds_shared = False\<rparr>"

theorem dstream_read_on_any_image_witness:
  "\<exists>r. apfs_nonsparse_dstream_read (small_vol sample_node) small_stream 40 240 = Some r \<and> r \<noteq> Inl UB \<and>
     (\<forall>data ds'. r = Inr (data, ds') \<longrightarrow> length data = 40)"
proof -
  have "node_fits 256 sample_node" using sample_node_repr(2) by (simp add: node_fits_def) (simp add: sample_node_def)
  from dstream_read_on_any_image [OF small_vol_fits [OF this], of small_stream 40 240] show ?thesis by simp
qed

text \<open>
  (C23) A read of a data stream returns the bytes of the stream.  The extents of the stream are the records of its id
  in the catalog, or in the tree of extents of a sealed volume; they start at block boundaries and do not overlap.
  If the extents map each block \<open>i\<close> of the stream to a block with the contents \<open>blk i\<close>, a read inside of the stream
  succeeds and yields the wanted range of the concatenated blocks.  The cached extent of an earlier read does not
  change the result, and the read leaves a valid extent in the cache.
\<close>

theorem dstream_read_returns_stream:
  assumes "extent_tree sbi ks recs" "extents_wf sbi ks recs (ds_id ds)" "cache_ok sbi ks recs ds" "s_blocksize sbi = int bs" "0 < bs"
    and "count < APFS_MAX_FILE_SIZE" "offset < APFS_MAX_FILE_SIZE" "unat offset + unat count \<le> unat (ds_size ds)" "unat (ds_size ds) \<le> n * bs"
    and "\<forall>i < n. stream_bno sbi ks recs (ds_id ds) (of_nat i) (bno i) \<and> bno i \<noteq> 0 \<and> d_block (s_dev sbi) (bno i) = Some (blk i) \<and> length (blk i) = bs"
  shows "\<exists>ds'. apfs_nonsparse_dstream_read sbi ds count offset =
      Some (Inr (take (unat count) (drop (unat offset) (concat (map blk [0..<n]))), ds')) \<and> cache_ok sbi ks recs ds'"
  using nonsparse_read_eq [OF assms] by blast

text \<open>The raw records of extents for the concrete instances: two blocks from block 77 on.\<close>

definition ext_raw_key :: "u64 \<Rightarrow> byte list" where
  "ext_raw_key oid = le_bytes 8 (unat (oid OR 0x8000000000000000)) @ le_bytes 8 0"

definition ext_raw_val :: "byte list" where
  "ext_raw_val = le_bytes 8 512 @ le_bytes 8 77 @ le_bytes 8 0"

lemma rd_le_bytes_append: "rd_le n (le_bytes n x @ rest) 0 = Inr (x mod 256 ^ n)"
  by (simp add: rd_le_Inr)

lemma read_ext_raw_key:
  assumes "oid AND APFS_OBJ_ID_MASK = oid"
  shows "apfs_read_cat_key (ext_raw_key oid @ rest) 16 True = Inr (apfs_init_file_extent_key oid 0)"
proof -
  have "rd64 (ext_raw_key oid @ rest) 0 = Inr (unat (oid OR 0x8000000000000000) mod 256 ^ 8)"
    unfolding ext_raw_key_def append_assoc by (rule rd_le_bytes_append)
  also have "unat (oid OR 0x8000000000000000) mod 256 ^ 8 = unat (oid OR 0x8000000000000000)"
    using unsigned_less [of "oid OR 0x8000000000000000"] by (intro mod_less) (simp flip: of_nat_less_iff)
  finally have "rd64 (ext_raw_key oid @ rest) 0 = Inr (unat (oid OR 0x8000000000000000))" .
  moreover have "rd64 (ext_raw_key oid @ rest) 8 = Inr 0"
    by (simp add: ext_raw_key_def rd_le_Inr)
  moreover have "(oid OR 0x8000000000000000) AND APFS_OBJ_ID_MASK = oid"
    using assms by (simp add: bit.conj_disj_distrib2 APFS_OBJ_ID_MASK_def)
  moreover have "ucast (drop_bit APFS_OBJ_TYPE_SHIFT ((oid OR 0x8000000000000000) AND APFS_OBJ_TYPE_MASK)) = APFS_TYPE_FILE_EXTENT"
  proof -
    have "oid AND APFS_OBJ_TYPE_MASK = (oid AND APFS_OBJ_ID_MASK) AND APFS_OBJ_TYPE_MASK" using assms by simp
    also have "\<dots> = 0" by (simp add: and.assoc APFS_OBJ_ID_MASK_def APFS_OBJ_TYPE_MASK_def)
    finally show ?thesis by (simp add: bit.conj_disj_distrib2 APFS_OBJ_TYPE_MASK_def APFS_OBJ_TYPE_SHIFT_def drop_bit_eq_div)
  qed
  ultimately show ?thesis by (simp add: apfs_read_cat_key_def apfs_cat_cnid_def apfs_cat_type_def apfs_init_file_extent_key_def)
qed

lemma ext_record_vol:
  assumes "oid AND APFS_OBJ_ID_MASK = oid"
  obtains root where "vol_fits (small_vol root)" "catalog (small_vol root) [apfs_init_file_extent_key oid 0] (\<lambda>_. (ext_raw_key oid, ext_raw_val))"
  by (rule one_record_catalog [of "ext_raw_key oid" ext_raw_val "apfs_init_file_extent_key oid 0"])
    (use read_ext_raw_key [OF assms] that in
      \<open>simp_all add: ext_raw_key_def ext_raw_val_def named_by_def apfs_init_file_extent_key_def\<close>)

lemma ext_raw_val_ext: "val_ext False 0 ext_raw_val = \<lparr>fe_logical_addr = 0, fe_phys_block_num = 77, fe_len = 512, fe_crypto_id = 0\<rparr>"
  by (simp add: val_ext_def ext_raw_val_def del: le_bytes.simps)

lemma ext_vol_stream:
  "stream_ext (small_vol root) [apfs_init_file_extent_key oid 0] (\<lambda>_. (k, ext_raw_val)) oid addr ext \<longleftrightarrow>
     addr = 0 \<and> ext = \<lparr>fe_logical_addr = 0, fe_phys_block_num = 77, fe_len = 512, fe_crypto_id = 0\<rparr>"
  by (auto simp: stream_ext_def ext_key_def apfs_init_file_extent_key_def ext_raw_val_ext)

theorem dstream_read_returns_stream_witness:
  "\<exists>root ds'. apfs_nonsparse_dstream_read (small_vol root) small_stream 40 240 = Some (Inr (replicate 16 77 @ replicate 24 78, ds'))"
proof -
  obtain root where root: "catalog (small_vol root) [apfs_init_file_extent_key 20 0] (\<lambda>_. (ext_raw_key 20, ext_raw_val))"
    by (rule ext_record_vol [of 20]) (simp_all add: APFS_OBJ_ID_MASK_def)
  let ?ks = "[apfs_init_file_extent_key 20 0]" and ?recs = "\<lambda>_ :: apfs_key. (ext_raw_key 20, ext_raw_val)"
  let ?bno = "\<lambda>i :: nat. of_nat (77 + i) :: u64" and ?blk = "\<lambda>i :: nat. replicate 256 (of_nat (77 + i) :: byte)"
  have "extents_wf (small_vol root) ?ks ?recs 20" by (auto simp: extents_wf_def ext_vol_stream) (simp add: ext_raw_val_def)
  moreover have "stream_bno (small_vol root) ?ks ?recs 20 (of_nat i) (?bno i)" "?bno i \<noteq> 0"
      "replicate 256 (ucast (?bno i)) = ?blk i" if "i < 2" for i
    using that by (auto simp: stream_bno_def ext_vol_stream ext_covers_def apfs_ext_is_hole_def less_2_cases_iff)
  moreover have "extent_tree (small_vol root) ?ks ?recs" using root by (simp add: extent_tree_def)
  moreover have "cache_ok (small_vol root) ?ks ?recs small_stream" by (simp add: cache_ok_def small_stream_def)
  ultimately have "\<exists>ds'. apfs_nonsparse_dstream_read (small_vol root) small_stream 40 240 =
      Some (Inr (take (unat (40 :: u64)) (drop (unat (240 :: u64)) (concat (map ?blk [0..<2]))), ds')) \<and> cache_ok (small_vol root) ?ks ?recs ds'"
    by (intro dstream_read_returns_stream [of _ _ _ _ 256 _ _ 2 ?bno]) (simp_all add: small_stream_def)
  moreover have "take (unat (40 :: u64)) (drop (unat (240 :: u64)) (concat (map ?blk [0..<2]))) = replicate 16 77 @ replicate 24 78"
    by (simp add: upt_rec)
  ultimately show ?thesis by auto
qed

text \<open>
  (C24) \<open>apfs_extent_read\<close> does not check that the record it finds is one of the stream.  The catalog of this volume
  has one record, an extent of the stream 19; a read of the stream 20, which has no extents at all, succeeds and
  yields the blocks of the other stream.
\<close>

theorem extent_read_crosses_streams:
  "\<exists>root. catalog (small_vol root) [apfs_init_file_extent_key 19 0] (\<lambda>_. (ext_raw_key 19, ext_raw_val)) \<and>
     (\<exists>ds'. apfs_extent_read (small_vol root) small_stream 0 =
        Some (Inr (\<lparr>fe_logical_addr = 0, fe_phys_block_num = 77, fe_len = 512, fe_crypto_id = 0\<rparr>, ds')))"
proof -
  obtain root where root: "catalog (small_vol root) [apfs_init_file_extent_key 19 0] (\<lambda>_. (ext_raw_key 19, ext_raw_val))"
    by (rule ext_record_vol [of 19]) (simp_all add: APFS_OBJ_ID_MASK_def)
  have key: "named_by {APFS_TYPE_XATTR, APFS_TYPE_DIR_REC} (apfs_init_file_extent_key 20 0)" by (simp add: named_by_def apfs_init_file_extent_key_def)
  have less: "apfs_keycmp (apfs_init_file_extent_key 19 0) (apfs_init_file_extent_key 20 0) = - 1"
    by (simp add: apfs_keycmp_def apfs_init_file_extent_key_def)
  obtain q c where q: "cat_query (small_vol root) (apfs_init_file_extent_key 20 0) APFS_QUERY_CAT = Some (None, q # c)"
      "found_bytes q = Inr (ext_raw_key 19, ext_raw_val)" "apfs_key_from_query True (q\<lparr>q_flags := APFS_QUERY_CAT\<rparr>) = Inr (apfs_init_file_extent_key 19 0)"
    using root [unfolded catalog_def]
    by (cases rule: tree_map_query [OF _ cat_flags(1) key]) (use less cat_flags(3) in \<open>auto simp: cat_query_def Cons_eq_append_conv\<close>)
  have "apfs_extent_from_query (apfs_is_sealed (small_vol root)) 256 q = Inr (val_ext (apfs_is_sealed (small_vol root)) 0 ext_raw_val)"
    by (rule found_extent [where oid = 19]) (use q in \<open>simp_all add: ext_key_def ext_raw_val_ext\<close>, simp add: ext_raw_val_def)
  then have "\<exists>ds'. apfs_extent_read (small_vol root) small_stream 0 =
        Some (Inr (\<lparr>fe_logical_addr = 0, fe_phys_block_num = 77, fe_len = 512, fe_crypto_id = 0\<rparr>, ds'))"
    using q(1) by (simp add: apfs_extent_read_def Let_def extent_query_def small_stream_def ext_covers_def ext_raw_val_ext)
  with root show ?thesis by blast
qed

end
