(* ===== verification/Xattr.thy ===== *)
theory Xattr
  imports ExtentMap
begin

text \<open>
  Extended attributes (\<open>xattr.c\<close>) and the targets of symbolic links (\<open>symlink.c\<close>), which are attributes as well.  The
  value of an attribute is in its catalog record, or in a data stream that the record names.

  The data of a record is on disk; the model takes the bytes of the name and of the value out of the block when
  the record is read.  A null buffer of a caller, which asks for the size only, is \<open>None\<close>.
\<close>

section \<open>State\<close>

record apfs_xattr =
  xa_name :: "byte list"
  xa_xdata :: "byte list"
  xa_has_dstream :: bool

datatype compressed_source = Cd_dstream apfs_dstream_info | Cd_data buffer

record apfs_compressed_data =
  cd_size :: u64
  cd_source :: compressed_source

abbreviation (input) XATTR_SIZE_MAX :: int where "XATTR_SIZE_MAX \<equiv> 65536"
abbreviation (input) APFS_XATTR_MAX_EMBEDDED_SIZE :: nat where "APFS_XATTR_MAX_EMBEDDED_SIZE \<equiv> 3804"

text \<open>The bytes of a string constant of the source, without its terminating NUL.\<close>

definition c_bytes :: "string \<Rightarrow> byte list" where
  "c_bytes s = map (\<lambda>c. of_nat (of_char c)) s"

definition APFS_XATTR_NAME_SYMLINK :: "byte list" where "APFS_XATTR_NAME_SYMLINK = c_bytes ''com.apple.fs.symlink''"
definition APFS_XATTR_NAME_COMPRESSED :: "byte list" where "APFS_XATTR_NAME_COMPRESSED = c_bytes ''com.apple.decmpfs''"
definition APFS_XATTR_NAME_RSRC_FORK :: "byte list" where "APFS_XATTR_NAME_RSRC_FORK = c_bytes ''com.apple.ResourceFork''"
definition XATTR_MAC_OSX_PREFIX :: "byte list" where "XATTR_MAC_OSX_PREFIX = c_bytes ''osx.''"

section \<open>Records\<close>

definition apfs_xattr_from_query :: "apfs_query \<Rightarrow> apfs_xattr result" where
  "apfs_xattr_from_query query =
     (let raw = nd_data (q_node query); datalen = q_len query - 4; namelen = q_key_len query - 10 in
      if namelen < 1 \<or> datalen < 0 then Inl EFSCORRUPTED
      else
        bind_res (rd16 raw (q_key_off query + 8)) (\<lambda>name_len.
        if namelen \<noteq> int name_len then Inl EFSCORRUPTED
        else
          bind_res (rd8 raw (q_key_off query + 10 + namelen - 1)) (\<lambda>c.
          if c \<noteq> 0 then Inl EFSCORRUPTED
          else
            bind_res (rd16 raw (q_off query)) (\<lambda>flags.
            let has_dstream = odd flags in
            if has_dstream \<and> datalen \<noteq> 48 then Inl EFSCORRUPTED
            else
              bind_res (rd16 raw (q_off query + 2)) (\<lambda>xdata_len.
              if \<not> has_dstream \<and> datalen \<noteq> int xdata_len then Inl EFSCORRUPTED
              else
                bind_res (rd_bytes raw (q_key_off query + 10) (namelen - 1)) (\<lambda>name.
                bind_res (rd_bytes raw (q_off query + 4) datalen) (\<lambda>xdata.
                Inr \<lparr>xa_name = name, xa_xdata = xdata, xa_has_dstream = has_dstream\<rparr>)))))))"

definition apfs_dstream_from_xattr :: "apfs_xattr \<Rightarrow> apfs_dstream_info result" where
  "apfs_dstream_from_xattr xattr =
     bind_res (rd64 (xa_xdata xattr) 0) (\<lambda>oid.
     bind_res (rd64 (xa_xdata xattr) 8) (\<lambda>s.
     Inr \<lparr>ds_id = of_nat oid, ds_size = of_nat s, ds_sparse_bytes = 0,
          ds_cached_ext = \<lparr>fe_logical_addr = 0, fe_phys_block_num = 0, fe_len = 0, fe_crypto_id = 0\<rparr>,
          ds_ext_dirty = False, ds_shared = False\<rparr>))"

text \<open>The encoders of records.  The length of a name is cut to sixteen bits.\<close>

definition apfs_build_xattr_key :: "byte list \<Rightarrow> u64 \<Rightarrow> byte list" where
  "apfs_build_xattr_key name ino =
     (let namelen = (length name + 1) mod 65536 in
      apfs_key_set_hdr (ucast APFS_TYPE_XATTR) ino @ le_bytes 2 namelen @ (if namelen = 0 then [] else take (namelen - 1) name @ [0]))"

definition apfs_alloced_size :: "int \<Rightarrow> apfs_dstream_info \<Rightarrow> u64" where
  "apfs_alloced_size bs dstream = (ds_size dstream + of_int bs - 1) div of_int bs * of_int bs"

definition apfs_build_dstream_xattr_val :: "int \<Rightarrow> bool \<Rightarrow> apfs_dstream_info \<Rightarrow> byte list" where
  "apfs_build_dstream_xattr_val bs encrypted dstream =
     le_bytes 2 1 @ le_bytes 2 48 @ le_bytes 8 (unat (ds_id dstream)) @ le_bytes 8 (unat (ds_size dstream)) @
     le_bytes 8 (unat (apfs_alloced_size bs dstream)) @ le_bytes 8 (if encrypted then unat (ds_id dstream) else 0) @ le_bytes 16 0"

definition apfs_build_inline_xattr_val :: "byte list \<Rightarrow> byte list" where
  "apfs_build_inline_xattr_val val = le_bytes 2 2 @ le_bytes 2 (length val) @ val"

section \<open>Reading the value of an attribute\<close>

text \<open>The length of the value and the bytes that are copied to the buffer of the caller.\<close>

definition apfs_xattr_extents_read ::
  "apfs_sb_info \<Rightarrow> apfs_xattr \<Rightarrow> u64 option \<Rightarrow> bool \<Rightarrow> (int \<times> buffer) result option" where
  "apfs_xattr_extents_read sbi xattr buf only_whole =
     bindo (Some (apfs_dstream_from_xattr xattr)) (\<lambda>dstream.
     let len = to_s32 (uint (ds_size dstream)) in
     if len < 0 \<or> len < uint (ds_size dstream) then Some (Inl E2BIG)
     else case buf of
       None \<Rightarrow> Some (Inr (len, []))
     | Some s \<Rightarrow>
         if only_whole \<and> len > uint s then Some (Inl ERANGE)
         else
           let len = (if len > uint s then to_s32 (uint s) else len) in
           bindo (apfs_nonsparse_dstream_read sbi dstream (of_int len) 0) (\<lambda>(data, dstream).
           Some (Inr (len, data))))"

definition apfs_xattr_inline_read :: "apfs_xattr \<Rightarrow> u64 option \<Rightarrow> bool \<Rightarrow> (int \<times> buffer) result" where
  "apfs_xattr_inline_read xattr buf only_whole =
     (let len = int (length (xa_xdata xattr)) in
      case buf of
        None \<Rightarrow> Inr (len, [])
      | Some s \<Rightarrow>
          if only_whole \<and> len > uint s then Inl ERANGE
          else
            let len = (if len > uint s then to_s32 (uint s) else len) in
            bind_res (rd_bytes (xa_xdata xattr) 0 len) (\<lambda>data. Inr (len, data)))"

definition xattr_query :: "apfs_sb_info \<Rightarrow> u64 \<Rightarrow> byte list \<Rightarrow> chain_result option" where
  "xattr_query sbi cnid name = cat_query sbi (apfs_init_xattr_key cnid (Some name)) (APFS_QUERY_CAT OR APFS_QUERY_EXACT)"

text \<open>\<open>____apfs_xattr_get\<close>, and the two functions around it.\<close>

definition xattr_get :: "apfs_sb_info \<Rightarrow> u64 \<Rightarrow> byte list \<Rightarrow> u64 option \<Rightarrow> bool \<Rightarrow> (int \<times> buffer) result option" where
  "xattr_get sbi cnid name buf only_whole =
     (case xattr_query sbi cnid name of
        None \<Rightarrow> None
      | Some (Some e, c) \<Rightarrow> Some (Inl e)
      | Some (None, c) \<Rightarrow>
          bindo (Some (apfs_xattr_from_query (hd c))) (\<lambda>xattr.
          if xa_has_dstream xattr then apfs_xattr_extents_read sbi xattr buf only_whole
          else Some (apfs_xattr_inline_read xattr buf only_whole)))"

definition apfs_xattr_get :: "apfs_sb_info \<Rightarrow> u64 \<Rightarrow> byte list \<Rightarrow> u64 option \<Rightarrow> (int \<times> buffer) result option" where
  "apfs_xattr_get sbi cnid name buf =
     bindo (xattr_get sbi cnid name buf True) (\<lambda>(ret, data).
     if ret > XATTR_SIZE_MAX then Some (Inl E2BIG) else Some (Inr (ret, data)))"

section \<open>Compressed data\<close>

definition apfs_xattr_get_compressed_data :: "apfs_sb_info \<Rightarrow> u64 \<Rightarrow> byte list \<Rightarrow> apfs_compressed_data result option" where
  "apfs_xattr_get_compressed_data sbi cnid name =
     (case xattr_query sbi cnid name of
        None \<Rightarrow> None
      | Some (Some e, c) \<Rightarrow> Some (Inl e)
      | Some (None, c) \<Rightarrow>
          bindo (Some (apfs_xattr_from_query (hd c))) (\<lambda>xattr.
          if xa_has_dstream xattr then
            bindo (Some (apfs_dstream_from_xattr xattr)) (\<lambda>dstream.
            Some (Inr \<lparr>cd_size = ds_size dstream, cd_source = Cd_dstream dstream\<rparr>))
          else if length (xa_xdata xattr) > APFS_XATTR_MAX_EMBEDDED_SIZE then Some (Inl EFSCORRUPTED)
          else Some (Inr \<lparr>cd_size = of_nat (length (xa_xdata xattr)), cd_source = Cd_data (xa_xdata xattr)\<rparr>)))"

definition apfs_compressed_data_read ::
  "apfs_sb_info \<Rightarrow> apfs_compressed_data \<Rightarrow> u64 \<Rightarrow> u64 \<Rightarrow> (buffer \<times> apfs_compressed_data) result option" where
  "apfs_compressed_data_read sbi cdata count offset =
     (case cd_source cdata of
        Cd_dstream dstream \<Rightarrow>
          bindo (apfs_nonsparse_dstream_read sbi dstream count offset) (\<lambda>(data, dstream).
          Some (Inr (data, cdata\<lparr>cd_source := Cd_dstream dstream\<rparr>)))
      | Cd_data b \<Rightarrow>
          if offset > cd_size cdata \<or> count > cd_size cdata - offset then Some (Inl EFSCORRUPTED)
          else bindo (Some (rd_bytes b (uint offset) (uint count))) (\<lambda>data. Some (Inr (data, cdata))))"

section \<open>The list of attributes\<close>

text \<open>
  The loop of \<open>apfs_listxattr\<close>.  The position in the buffer is the number of bytes that are not free any more.
\<close>

partial_function (option) listxattr_loop ::
  "apfs_sb_info \<Rightarrow> u64 \<Rightarrow> chain \<Rightarrow> u64 \<Rightarrow> buffer option \<Rightarrow> (u64 \<times> buffer option) result option" where
  "listxattr_loop sbi total_size chain free buf =
     (case apfs_btree_query (s_dev sbi) (virt_read (s_fs sbi)) chain of
        None \<Rightarrow> None
      | Some (Some e, c) \<Rightarrow> if e = ENODATA then Some (Inr (total_size - free, buf)) else Some (Inl e)
      | Some (None, c) \<Rightarrow>
          bindo (Some (apfs_xattr_from_query (hd c))) (\<lambda>xattr.
          let needed = of_nat (length (xa_name xattr)) + 4 + 1 in
          case buf of
            None \<Rightarrow> listxattr_loop sbi total_size c (free - needed) None
          | Some b \<Rightarrow>
              if needed > free then Some (Inl ERANGE)
              else
                bindo (Some (memcpy b (uint (total_size - free)) XATTR_MAC_OSX_PREFIX)) (\<lambda>b.
                bindo (Some (memcpy b (uint (total_size - free) + 4) (xa_name xattr @ [0]))) (\<lambda>b.
                listxattr_loop sbi total_size c (free - needed) (Some b)))))"

definition apfs_listxattr :: "apfs_sb_info \<Rightarrow> u64 \<Rightarrow> buffer option \<Rightarrow> u64 \<Rightarrow> (u64 \<times> buffer option) result option" where
  "apfs_listxattr sbi cnid buf total_size =
     listxattr_loop sbi total_size
       [(apfs_alloc_query (s_cat_root sbi) None)\<lparr>q_key := apfs_init_xattr_key cnid None,
          q_flags := APFS_QUERY_CAT OR APFS_QUERY_MULTIPLE OR APFS_QUERY_EXACT\<rparr>]
       total_size buf"

section \<open>Symbolic links\<close>

text \<open>\<open>apfs_get_link\<close>: the target with its terminating NUL.\<close>

definition apfs_get_link :: "apfs_sb_info \<Rightarrow> u64 \<Rightarrow> buffer result option" where
  "apfs_get_link sbi ino =
     bindo (xattr_get sbi ino APFS_XATTR_NAME_SYMLINK None True) (\<lambda>(s, _).
     bindo (xattr_get sbi ino APFS_XATTR_NAME_SYMLINK (Some (of_int s)) True) (\<lambda>(s, target).
     if s = 0 then Some (Inl EFSCORRUPTED)
     else
       bindo (Some (rd8 target (s - 1))) (\<lambda>c.
       if c \<noteq> 0 then Some (Inl EFSCORRUPTED) else Some (Inr target))))"

section \<open>Attributes on arbitrary images\<close>

lemma found_fits_bytes:
  assumes "found_fits bs q"
  shows "0 \<le> i \<Longrightarrow> 0 \<le> n \<Longrightarrow> i + n \<le> q_len q \<Longrightarrow> \<exists>v. rd_bytes (nd_data (q_node q)) (q_off q + i) n = Inr v \<and> length v = nat n"
    "0 \<le> i \<Longrightarrow> 0 \<le> n \<Longrightarrow> i + n \<le> q_key_len q \<Longrightarrow> \<exists>v. rd_bytes (nd_data (q_node q)) (q_key_off q + i) n = Inr v \<and> length v = nat n"
proof -
  have "\<exists>v. rd_bytes b (off + i) n = Inr v \<and> length v = nat n"
    if "0 \<le> i" "0 \<le> n" "i + n \<le> len" "0 < len \<longrightarrow> 0 \<le> off \<and> off + len \<le> int (length b)" for b off i n len
    using that by (cases "n = 0") (auto simp: rd_bytes_def)
  then show "0 \<le> i \<Longrightarrow> 0 \<le> n \<Longrightarrow> i + n \<le> q_len q \<Longrightarrow> \<exists>v. rd_bytes (nd_data (q_node q)) (q_off q + i) n = Inr v \<and> length v = nat n"
    "0 \<le> i \<Longrightarrow> 0 \<le> n \<Longrightarrow> i + n \<le> q_key_len q \<Longrightarrow> \<exists>v. rd_bytes (nd_data (q_node q)) (q_key_off q + i) n = Inr v \<and> length v = nat n"
    using assms by (auto simp: found_fits_def record_fits_def)
qed

lemma found_fits_rd8:
  assumes "found_fits bs q" "0 \<le> i" "i < q_key_len q"
  shows "\<exists>c. rd8 (nd_data (q_node q)) (q_key_off q + i) = Inr c"
  using assms by (auto simp: found_fits_def record_fits_def rd8_def)

definition xattr_ok :: "apfs_xattr \<Rightarrow> bool" where
  "xattr_ok x \<longleftrightarrow> (xa_has_dstream x \<longrightarrow> length (xa_xdata x) = 48) \<and> length (xa_name x) < 2 ^ 16 \<and> length (xa_xdata x) < 2 ^ 31"

lemma xattr_from_query_safe:
  assumes "found_fits bs q" "bs \<le> 65536"
  shows "keeps xattr_ok (apfs_xattr_from_query q)"
proof (cases "q_key_len q - 10 < 1 \<or> q_len q - 4 < 0")
  case False
  note rd = found_fits_rd [OF assms(1)] and bytes = found_fits_bytes [OF assms(1)]
  have lens: "q_len q \<le> 65536" "q_key_len q \<le> 65536"
    using assms by (auto simp: found_fits_def record_fits_def)
  obtain name_len where 1: "rd16 (nd_data (q_node q)) (q_key_off q + 8) = Inr name_len" using rd(2) [of 8 2] False by auto
  obtain c where 2: "rd8 (nd_data (q_node q)) (q_key_off q + 10 + (q_key_len q - 10) - 1) = Inr c"
    using found_fits_rd8 [OF assms(1), of "q_key_len q - 1"] False by (auto simp: algebra_simps)
  obtain flags where 3: "rd16 (nd_data (q_node q)) (q_off q) = Inr flags" using rd(1) [of 0 2] False by auto
  obtain xdata_len where 4: "rd16 (nd_data (q_node q)) (q_off q + 2) = Inr xdata_len" using rd(1) [of 2 2] False by auto
  obtain name where 5: "rd_bytes (nd_data (q_node q)) (q_key_off q + 10) (q_key_len q - 10 - 1) = Inr name" "length name = nat (q_key_len q - 11)"
    using bytes(2) [of 10 "q_key_len q - 10 - 1"] False by auto
  obtain xdata where 6: "rd_bytes (nd_data (q_node q)) (q_off q + 4) (q_len q - 4) = Inr xdata" "length xdata = nat (q_len q - 4)"
    using bytes(1) [of 4 "q_len q - 4"] False by auto
  show ?thesis
    using False 5(2) 6(2) lens unfolding apfs_xattr_from_query_def Let_def 1 2 3 4 5(1) 6(1) bind_res_Inr by (auto simp: xattr_ok_def)
qed (auto simp: apfs_xattr_from_query_def Let_def)

lemma dstream_from_xattr_safe: "xattr_ok x \<Longrightarrow> xa_has_dstream x \<Longrightarrow> keeps (\<lambda>_. True) (apfs_dstream_from_xattr x)"
  using rd_le_ok [of 0 8 "xa_xdata x"] rd_le_ok [of 8 8 "xa_xdata x"] by (auto simp: xattr_ok_def apfs_dstream_from_xattr_def)

text \<open>A value that fits into the buffer of the caller.\<close>

definition value_fits :: "u64 option \<Rightarrow> int \<times> buffer \<Rightarrow> bool" where
  "value_fits buf r \<longleftrightarrow> 0 \<le> fst r \<and> fst r < 2 ^ 31 \<and>
     (case buf of None \<Rightarrow> snd r = [] | Some s \<Rightarrow> fst r \<le> uint s \<and> int (length (snd r)) = fst r)"

lemma to_s32_range: "- (2 ^ 31) \<le> to_s32 x" "to_s32 x < 2 ^ 31" "0 \<le> x \<Longrightarrow> x < 2 ^ 31 \<Longrightarrow> to_s32 x = x"
  by (simp_all add: to_s32_def)

lemma xattr_read_safe:
  assumes "vol_fits sbi" "xattr_ok x"
  shows "xa_has_dstream x \<Longrightarrow> keepso (value_fits buf) (apfs_xattr_extents_read sbi x buf only_whole)"
    "keeps (value_fits buf) (apfs_xattr_inline_read x buf only_whole)"
proof -
  show "keepso (value_fits buf) (apfs_xattr_extents_read sbi x buf only_whole)" if dst: "xa_has_dstream x"
    unfolding apfs_xattr_extents_read_def
  proof (rule keepso_bind [of "\<lambda>_. True"], goal_cases)
    case 1
    then show ?case using dstream_from_xattr_safe [OF assms(2) dst] by simp
  next
    case (2 ds)
    let ?len = "to_s32 (uint (ds_size ds))"
    show ?case
    proof (cases "?len < 0 \<or> ?len < uint (ds_size ds)")
      case False
      show ?thesis
      proof (cases buf)
        case None
        then show ?thesis using False to_s32_range(2) by (simp add: Let_def value_fits_def)
      next
        case (Some s)
        let ?l = "if ?len > uint s then to_s32 (uint s) else ?len"
        have l: "0 \<le> ?l" "?l < 2 ^ 31" "?l \<le> uint s"
          using False to_s32_range(2) [of "uint (ds_size ds)"] to_s32_range(3) [of "uint s"] by auto
        have cnt: "int (unat (of_int ?l :: u64)) = ?l" using l by (simp add: uint_word_of_int take_bit_int_eq_self)
        have "keepso (value_fits buf) (bindo (apfs_nonsparse_dstream_read sbi ds (of_int ?l) 0) (\<lambda>(data, dstream). Some (Inr (?l, data))))"
          by (rule keepso_bind [OF nonsparse_read_returns [OF assms(1)]]) (use l cnt Some in \<open>auto simp: value_fits_def simp del: of_nat_unat\<close>)
        then show ?thesis using False Some by (simp add: Let_def)
      qed
    qed (simp add: Let_def)
  qed
  show "keeps (value_fits buf) (apfs_xattr_inline_read x buf only_whole)"
  proof (cases buf)
    case (Some s)
    let ?n = "int (length (xa_xdata x))"
    let ?l = "if ?n > uint s then to_s32 (uint s) else ?n"
    have l: "0 \<le> ?l" "?l < 2 ^ 31" "?l \<le> uint s" "?l \<le> ?n"
      using assms(2) to_s32_range(3) [of "uint s"] by (auto simp: xattr_ok_def)
    then have "rd_bytes (xa_xdata x) 0 ?l = Inr (take (nat ?l) (xa_xdata x))" using rd_bytes_Inr [of 0 ?l "xa_xdata x"] by simp
    then show ?thesis using l Some by (simp add: apfs_xattr_inline_read_def Let_def value_fits_def)
  qed (use assms(2) in \<open>simp add: apfs_xattr_inline_read_def Let_def value_fits_def xattr_ok_def\<close>)
qed

lemma xattr_get_safe:
  assumes "vol_fits sbi" "s_blocksize sbi \<le> 65536"
  shows "keepso (value_fits buf) (xattr_get sbi cnid name buf only_whole)"
proof (cases rule: cat_query_returns [OF assms(1), of "apfs_init_xattr_key cnid (Some name)" "APFS_QUERY_CAT OR APFS_QUERY_EXACT"])
  case (1 e c)
  show ?thesis
  proof (cases e)
    case None
    have "keepso (value_fits buf) (bindo (Some (apfs_xattr_from_query (hd c))) (\<lambda>xattr.
          if xa_has_dstream xattr then apfs_xattr_extents_read sbi xattr buf only_whole
          else Some (apfs_xattr_inline_read xattr buf only_whole)))"
      by (rule keepso_bind [of xattr_ok]) (use xattr_from_query_safe [of _ "hd c"] 1(3) None assms xattr_read_safe [OF assms(1)] in auto)
    then show ?thesis using 1(1) None by (simp add: xattr_get_def xattr_query_def)
  qed (use 1 in \<open>simp add: xattr_get_def xattr_query_def\<close>)
qed

lemma listxattr_loop_safe:
  assumes vol: "vol_fits sbi" "s_blocksize sbi \<le> 65536"
    and "chain_fits (s_blocksize sbi) chain" "chain \<noteq> []" "free \<le> tot" "buf = Some b" "length b = unat tot"
  shows "keepso (\<lambda>(n, buf'). \<exists>b'. buf' = Some b' \<and> length b' = unat tot \<and> n \<le> tot) (listxattr_loop sbi tot chain free buf)"
  using assms(3-)
proof (induction "chain_weight chain" arbitrary: chain free buf b rule: less_induct)
  case less
  obtain e c where run: "apfs_btree_query (s_dev sbi) (virt_read (s_fs sbi)) chain = Some (e, c)" "e \<noteq> Some UB"
    "e = None \<longrightarrow> found_fits (s_blocksize sbi) (hd c) \<and> chain_fits (s_blocksize sbi) c \<and> c \<noteq> [] \<and> chain_weight c < chain_weight chain"
    by (rule query_continues [OF vol_readers(1) [OF vol(1)] less.prems(1,2)])
  show ?case
  proof (cases e)
    case (Some x)
    have "tot - free \<le> tot" using less.prems(3) by (simp add: word_sub_le)
    then show ?thesis using run(1,2) Some less.prems(4,5) by (subst listxattr_loop.simps) simp
  next
    case None
    let ?cont = "\<lambda>xattr. let needed = of_nat (length (xa_name xattr)) + 4 + 1 in
              if needed > free then Some (Inl ERANGE)
              else
                bindo (Some (memcpy b (uint (tot - free)) XATTR_MAC_OSX_PREFIX)) (\<lambda>b.
                bindo (Some (memcpy b (uint (tot - free) + 4) (xa_name xattr @ [0]))) (\<lambda>b.
                listxattr_loop sbi tot c (free - needed) (Some b)))"
    have "keepso (\<lambda>(n, buf'). \<exists>b'. buf' = Some b' \<and> length b' = unat tot \<and> n \<le> tot) (bindo (Some (apfs_xattr_from_query (hd c))) ?cont)"
    proof (rule keepso_bind [of xattr_ok], goal_cases)
      case 1
      then show ?case using xattr_from_query_safe [of "s_blocksize sbi" "hd c"] run(3) None vol(2) by simp
    next
      case (2 x)
      let ?needed = "of_nat (length (xa_name x)) + 4 + 1 :: u64"
      show ?case
      proof (cases "?needed > free")
        case False
        have n: "unat ?needed = length (xa_name x) + 5"
          using 2(2) by (simp add: xattr_ok_def unat_word_ariths unat_of_nat take_bit_nat_eq_self)
        have pos: "uint (tot - free) = int (unat tot) - int (unat free)" using less.prems(3) by (simp add: uint_sub_if' word_le_def)
        have le: "length (xa_name x) + 5 \<le> unat free" "unat free \<le> unat tot" using False n less.prems(3) by (simp_all add: not_less word_le_nat_alt)
        then have room: "uint (tot - free) \<ge> 0" "uint (tot - free) + int (length (xa_name x)) + 5 \<le> int (unat tot)"
          unfolding pos by linarith+
        have pre: "length XATTR_MAC_OSX_PREFIX = 4" by (simp add: XATTR_MAC_OSX_PREFIX_def c_bytes_def)
        obtain b1 where b1: "memcpy b (uint (tot - free)) XATTR_MAC_OSX_PREFIX = Inr b1"
          using memcpy_safe [of XATTR_MAC_OSX_PREFIX "uint (tot - free)" b] room pre less.prems(5) by auto
        have len1: "length b1 = unat tot" using memcpy_length [OF b1] less.prems(5) by simp
        obtain b2 where b2: "memcpy b1 (uint (tot - free) + 4) (xa_name x @ [0]) = Inr b2"
          using memcpy_safe [of "xa_name x @ [0]" "uint (tot - free) + 4" b1] room len1 by auto
        have len2: "length b2 = unat tot" using memcpy_length [OF b2] len1 by simp
        have "free - ?needed \<le> tot" using False less.prems(3) by (meson not_less order_trans word_sub_le)
        from less.hyps [of c, OF _ _ _ this refl len2] show ?thesis using run(3) None False b1 b2 by (simp add: Let_def)
      qed (simp add: Let_def)
    qed
    then show ?thesis using run(1) None less.prems(4) by (subst listxattr_loop.simps) simp
  qed
qed

section \<open>Attributes of the catalog\<close>

text \<open>A part of a range of bytes that was read.\<close>

lemma rd_bytes_slice:
  assumes "rd_bytes b off len = Inr v" "i + n \<le> length v" "off' = off + int i" "m = int n"
  shows "rd_bytes b off' m = Inr (take n (drop i v))"
proof (cases "n = 0")
  case False
  have b: "v = take (nat len) (drop (nat off) b)" "0 \<le> off" "off + len \<le> int (length b)" "0 < len"
    using assms False by (auto simp: rd_bytes_def split: if_splits)
  then have "i + n \<le> nat len" using assms(2) by simp
  with b have "take n (drop (nat (off + int i)) b) = take n (drop i v)"
    by (simp add: nat_add_distrib drop_take add.commute)
  moreover have "off + int i + int n \<le> int (length b)" using b \<open>i + n \<le> nat len\<close> by linarith
  ultimately show ?thesis using rd_bytes_Inr [of "off + int i" "int n" b] b(2) assms(3,4) by simp
qed (use assms in \<open>simp add: rd_bytes_def\<close>)

lemma rd8_slice:
  assumes "rd_bytes b off len = Inr v" "i < length v" "off' = off + int i"
  shows "rd8 b off' = Inr (v ! i)"
  using assms by (auto simp: rd_bytes_def rd8_def nat_add_distrib split: if_splits)

lemma build_xattr_key_eq:
  assumes "length name < 65535"
  shows "apfs_build_xattr_key name ino = apfs_key_set_hdr (ucast APFS_TYPE_XATTR) ino @ le_bytes 2 (length name + 1) @ name @ [0]"
  using assms by (simp add: apfs_build_xattr_key_def Let_def)

lemma key_hdr_length: "length (apfs_key_set_hdr ty ino) = 8"
  by (simp add: apfs_key_set_hdr_def)

text \<open>The record of an attribute is parsed to its name and its data.\<close>

lemma xattr_from_built:
  assumes q: "found_bytes q = Inr (apfs_build_xattr_key name ino, le_bytes 2 flags @ le_bytes 2 xlen @ xdata)"
    and name: "length name < 65535" and len: "flags < 65536" "xlen < 65536" "if odd flags then length xdata = 48 else length xdata = xlen"
  shows "apfs_xattr_from_query q = Inr \<lparr>xa_name = name, xa_xdata = xdata, xa_has_dstream = odd flags\<rparr>"
proof -
  let ?k = "apfs_build_xattr_key name ino" and ?v = "le_bytes 2 flags @ le_bytes 2 xlen @ xdata"
  let ?raw = "nd_data (q_node q)"
  have k: "rd_bytes ?raw (q_key_off q) (q_key_len q) = Inr ?k" and v: "rd_bytes ?raw (q_off q) (q_len q) = Inr ?v"
    using q by (auto simp: found_bytes_def bind_res_eq_Inr)
  have kl: "q_key_len q = int (length name) + 11" using rd_bytes_length [OF k] by (simp add: build_xattr_key_eq [OF name] key_hdr_length)
  have vl: "q_len q = int (length xdata) + 4" using rd_bytes_length [OF v] by simp
  have 1: "rd16 ?raw (q_key_off q + 8) = Inr (length name + 1)"
    using rd_le_slice [OF k, of 2 8] name by (simp add: build_xattr_key_eq [OF name] key_hdr_length)
  have 2: "rd8 ?raw (q_key_off q + 10 + (q_key_len q - 10) - 1) = Inr 0"
  proof -
    have "?k ! (length name + 10) = 0" "length ?k = length name + 11"
      by (simp_all add: build_xattr_key_eq [OF name] key_hdr_length nth_append)
    then show ?thesis using rd8_slice [OF k, of "length name + 10"] kl by (simp add: add.commute add.left_commute)
  qed
  have 3: "rd16 ?raw (q_off q) = Inr flags" using rd_le_slice [OF v, of 2 0] len(1) by simp
  have 4: "rd16 ?raw (q_off q + 2) = Inr xlen" using rd_le_slice [OF v, of 2 2] len(2) by simp
  have 5: "rd_bytes ?raw (q_key_off q + 10) (q_key_len q - 10 - 1) = Inr name"
    using rd_bytes_slice [OF k, of 10 "length name", OF _ refl refl] kl by (simp add: build_xattr_key_eq [OF name] key_hdr_length)
  have 6: "rd_bytes ?raw (q_off q + 4) (q_len q - 4) = Inr xdata"
    using rd_bytes_slice [OF v, of 4 "length xdata", OF _ refl refl] vl by simp
  have "\<not> (q_key_len q - 10 < 1 \<or> q_len q - 4 < 0)" "q_key_len q - 10 = int (length name + 1)" "q_len q - 4 = int (length xdata)" using kl vl by simp_all
  then show ?thesis
    using len(3) unfolding apfs_xattr_from_query_def Let_def 1 2 3 4 5 6 bind_res_Inr by (cases "odd flags") auto
qed

text \<open>The attribute that a lookup finds in the catalog.\<close>

abbreviation cat_named :: "apfs_key \<Rightarrow> bool" where
  "cat_named \<equiv> named_by {APFS_TYPE_XATTR, APFS_TYPE_DIR_REC}"

lemma xattr_key_named: "cat_named (apfs_init_xattr_key ino (Some name))"
  by (simp add: named_by_def apfs_init_xattr_key_def)

lemma xattr_get_absent:
  assumes "catalog sbi ks recs" "apfs_init_xattr_key cnid (Some name) \<notin> set ks"
  shows "xattr_get sbi cnid name buf only_whole = Some (Inl ENODATA)"
  using cat_query_exact(1) [OF assms(1) xattr_key_named assms(2)] by (auto simp: xattr_get_def xattr_query_def)

lemma xattr_get_present:
  assumes "catalog sbi ks recs" "apfs_init_xattr_key cnid (Some name) \<in> set ks"
    and "recs (apfs_init_xattr_key cnid (Some name)) = (apfs_build_xattr_key name cnid, le_bytes 2 flags @ le_bytes 2 xlen @ xdata)"
    and "length name < 65535" "flags < 65536" "xlen < 65536" "if odd flags then length xdata = 48 else length xdata = xlen"
  shows "xattr_get sbi cnid name buf only_whole =
    (let xattr = \<lparr>xa_name = name, xa_xdata = xdata, xa_has_dstream = odd flags\<rparr> in
     if odd flags then apfs_xattr_extents_read sbi xattr buf only_whole else Some (apfs_xattr_inline_read xattr buf only_whole))"
proof -
  obtain q c where q: "xattr_query sbi cnid name = Some (None, q # c)"
      "found_bytes q = Inr (apfs_build_xattr_key name cnid, le_bytes 2 flags @ le_bytes 2 xlen @ xdata)"
    using cat_query_exact(2) [OF assms(1) xattr_key_named assms(2)] assms(3) by (auto simp: xattr_query_def)
  show ?thesis using q(1) xattr_from_built [OF q(2) assms(4-7)] by (simp add: xattr_get_def Let_def)
qed

lemma inline_read_whole:
  "apfs_xattr_inline_read \<lparr>xa_name = name, xa_xdata = val, xa_has_dstream = d\<rparr> buf True =
    (case buf of None \<Rightarrow> Inr (int (length val), []) | Some s \<Rightarrow> if int (length val) > uint s then Inl ERANGE else Inr (int (length val), val))"
  using rd_bytes_Inr [of 0 "int (length val)" val] by (simp add: apfs_xattr_inline_read_def Let_def split: option.split)

definition stream_of :: "u64 \<Rightarrow> u64 \<Rightarrow> apfs_dstream_info" where
  "stream_of oid s = \<lparr>ds_id = oid, ds_size = s, ds_sparse_bytes = 0,
     ds_cached_ext = \<lparr>fe_logical_addr = 0, fe_phys_block_num = 0, fe_len = 0, fe_crypto_id = 0\<rparr>, ds_ext_dirty = False, ds_shared = False\<rparr>"

lemma unat_mod_u64: "unat (x :: u64) mod 18446744073709551616 = unat x"
  using unsigned_less [of x] by (intro mod_less) (simp flip: of_nat_less_iff)

lemma dstream_from_built:
  assumes "apfs_build_dstream_xattr_val bs encrypted dstream = le_bytes 2 1 @ le_bytes 2 48 @ xdata"
  shows "apfs_dstream_from_xattr \<lparr>xa_name = name, xa_xdata = xdata, xa_has_dstream = d\<rparr> = Inr (stream_of (ds_id dstream) (ds_size dstream))"
proof -
  have x: "xdata = le_bytes 8 (unat (ds_id dstream)) @ le_bytes 8 (unat (ds_size dstream)) @
     le_bytes 8 (unat (apfs_alloced_size bs dstream)) @ le_bytes 8 (if encrypted then unat (ds_id dstream) else 0) @ le_bytes 16 0"
    using assms by (simp add: apfs_build_dstream_xattr_val_def del: le_bytes.simps)
  have "rd64 xdata 0 = Inr (unat (ds_id dstream))" "rd64 xdata 8 = Inr (unat (ds_size dstream))"
    unfolding x by (simp_all add: rd_le_Inr unat_mod_u64 del: le_bytes.simps)
  then show ?thesis by (simp add: apfs_dstream_from_xattr_def stream_of_def)
qed

section \<open>Properties\<close>

text \<open>
  (C27) A lookup of an attribute and a resolution of a symbolic link return on any image and access no memory
  outside of the blocks and buffers.  A value that is returned is complete and fits into the buffer of the caller;
  the target of a link ends with a NUL.
\<close>

theorem xattr_get_on_any_image:
  assumes "vol_fits sbi" "s_blocksize sbi \<le> 65536"
  shows "(\<exists>r. apfs_xattr_get sbi cnid name (Some s) = Some r \<and> r \<noteq> Inl UB \<and>
      (\<forall>len data. r = Inr (len, data) \<longrightarrow> int (length data) = len \<and> len \<le> uint s \<and> len \<le> 65536)) \<and>
    (\<exists>r. apfs_get_link sbi cnid = Some r \<and> r \<noteq> Inl UB \<and> (\<forall>target. r = Inr target \<longrightarrow> target \<noteq> [] \<and> target ! (length target - 1) = 0))"
proof -
  note get = xattr_get_safe [OF assms]
  have "keepso (\<lambda>(len, data). int (length data) = len \<and> len \<le> uint s \<and> len \<le> 65536) (apfs_xattr_get sbi cnid name (Some s))"
    unfolding apfs_xattr_get_def by (rule keepso_bind [OF get]) (auto simp: value_fits_def)
  moreover have "keepso (\<lambda>target. target \<noteq> [] \<and> target ! (length target - 1) = 0) (apfs_get_link sbi cnid)"
    unfolding apfs_get_link_def
  proof (rule keepso_bind [OF get [where buf = None]], clarify, rule keepso_bind [OF get], clarify)
    fix s1 :: int and b s2 target
    assume "value_fits (Some (of_int s1)) (s2, target)"
    then have "int (length target) = s2" by (simp add: value_fits_def)
    then show "keepso (\<lambda>target. target \<noteq> [] \<and> target ! (length target - 1) = 0)
        (if s2 = 0 then Some (Inl EFSCORRUPTED)
         else bindo (Some (rd8 target (s2 - 1))) (\<lambda>c. if c \<noteq> 0 then Some (Inl EFSCORRUPTED) else Some (Inr target)))"
      by (auto simp: rd8_def nat_diff_distrib)
  qed
  ultimately show ?thesis
    by (auto simp: keepso_def keeps_def split: option.splits sum.splits)
qed

theorem xattr_get_on_any_image_witness:
  "(\<exists>r. apfs_xattr_get (small_vol sample_node) 20 [97] (Some 64) = Some r \<and> r \<noteq> Inl UB \<and>
      (\<forall>len data. r = Inr (len, data) \<longrightarrow> int (length data) = len \<and> len \<le> 64 \<and> len \<le> 65536)) \<and>
    (\<exists>r. apfs_get_link (small_vol sample_node) 20 = Some r \<and> r \<noteq> Inl UB \<and> (\<forall>target. r = Inr target \<longrightarrow> target \<noteq> [] \<and> target ! (length target - 1) = 0))"
proof -
  have "node_fits 256 sample_node" using sample_node_repr(2) by (simp add: node_fits_def) (simp add: sample_node_def)
  from xattr_get_on_any_image [OF small_vol_fits [OF this], of 20 "[97]" 64] show ?thesis by simp
qed

text \<open>
  (C28) The list of the attributes of an inode returns on any image: the loop over the records of the catalog ends,
  whatever their bytes are.  The names are only written into the buffer of the caller, and the length that is
  returned is not above its size.
\<close>

theorem listxattr_on_any_image:
  assumes "vol_fits sbi" "s_blocksize sbi \<le> 65536" "length b = unat s"
  shows "\<exists>r. apfs_listxattr sbi cnid (Some b) s = Some r \<and> r \<noteq> Inl UB \<and>
    (\<forall>n b'. r = Inr (n, b') \<longrightarrow> n \<le> s \<and> (\<exists>b''. b' = Some b'' \<and> length b'' = length b))"
proof -
  have root: "node_fits (s_blocksize sbi) (s_cat_root sbi)" using assms(1) by (simp add: vol_fits_def)
  have "keepso (\<lambda>(n, buf'). \<exists>b'. buf' = Some b' \<and> length b' = unat s \<and> n \<le> s) (apfs_listxattr sbi cnid (Some b) s)"
    unfolding apfs_listxattr_def
    by (rule listxattr_loop_safe [OF assms(1,2) new_query_fits [OF root]]) (use assms(3) in simp_all)
  then show ?thesis using assms(3) by (auto simp: keepso_def keeps_def split: option.splits sum.splits)
qed

theorem listxattr_on_any_image_witness:
  "\<exists>r. apfs_listxattr (small_vol sample_node) 20 (Some (replicate 64 0)) 64 = Some r \<and> r \<noteq> Inl UB \<and>
    (\<forall>n b'. r = Inr (n, b') \<longrightarrow> n \<le> 64 \<and> (\<exists>b''. b' = Some b'' \<and> length b'' = 64))"
proof -
  have "node_fits 256 sample_node" using sample_node_repr(2) by (simp add: node_fits_def) (simp add: sample_node_def)
  from listxattr_on_any_image [OF small_vol_fits [OF this], of "replicate 64 0" 64 20] show ?thesis by simp
qed

text \<open>
  (C25) An attribute that is stored in its record is read back.  If the catalog has the record that the driver builds
  for the name and the value, a lookup yields the value; a buffer that is too small for it is refused with
  \<open>ERANGE\<close>, and a lookup without a buffer yields the length.  A name without a record is reported as \<open>ENODATA\<close>.
\<close>

theorem xattr_get_returns_value:
  assumes "catalog sbi ks recs" "length name < 65535" "length val < 65536"
  shows "(apfs_init_xattr_key cnid (Some name) \<notin> set ks \<longrightarrow> apfs_xattr_get sbi cnid name buf = Some (Inl ENODATA)) \<and>
    (apfs_init_xattr_key cnid (Some name) \<in> set ks \<longrightarrow>
     recs (apfs_init_xattr_key cnid (Some name)) = (apfs_build_xattr_key name cnid, apfs_build_inline_xattr_val val) \<longrightarrow>
     apfs_xattr_get sbi cnid name buf =
       Some (case buf of None \<Rightarrow> Inr (int (length val), [])
             | Some s \<Rightarrow> if int (length val) > uint s then Inl ERANGE else Inr (int (length val), val)))"
proof (intro conjI impI, goal_cases)
  case 1
  then show ?case using xattr_get_absent [OF assms(1)] by (simp add: apfs_xattr_get_def)
next
  case 2
  have "xattr_get sbi cnid name buf True = Some (apfs_xattr_inline_read \<lparr>xa_name = name, xa_xdata = val, xa_has_dstream = False\<rparr> buf True)"
    using xattr_get_present [OF assms(1) 2(1), of 2 "length val" val] 2(2) assms(2,3) by (simp add: apfs_build_inline_xattr_val_def Let_def)
  then show ?case using assms(3) by (simp add: apfs_xattr_get_def inline_read_whole split: option.split)
qed

text \<open>
  (C26) An attribute that is stored in a data stream is read back.  If the catalog has the record that the driver
  builds for the stream, and the extents of the stream map its blocks, a lookup with a buffer that is large enough
  yields the bytes of the stream.
\<close>

theorem xattr_get_returns_stream:
  assumes "catalog sbi ks recs" "apfs_init_xattr_key cnid (Some name) \<in> set ks" "length name < 65535"
    and "recs (apfs_init_xattr_key cnid (Some name)) = (apfs_build_xattr_key name cnid, apfs_build_dstream_xattr_val (int bs) encrypted ds)"
    and "extent_tree sbi ks' recs'" "extents_wf sbi ks' recs' (ds_id ds)" "s_blocksize sbi = int bs" "0 < bs"
    and "\<forall>i < n. stream_bno sbi ks' recs' (ds_id ds) (of_nat i) (bno i) \<and> bno i \<noteq> 0 \<and> d_block (s_dev sbi) (bno i) = Some (blk i) \<and> length (blk i) = bs"
    and "unat (ds_size ds) \<le> n * bs" "ds_size ds \<le> 65536" "ds_size ds \<le> s"
  shows "apfs_xattr_get sbi cnid name (Some s) = Some (Inr (uint (ds_size ds), take (unat (ds_size ds)) (concat (map blk [0..<n]))))"
proof -
  define xdata where "xdata = le_bytes 8 (unat (ds_id ds)) @ le_bytes 8 (unat (ds_size ds)) @
     le_bytes 8 (unat (apfs_alloced_size (int bs) ds)) @ le_bytes 8 (if encrypted then unat (ds_id ds) else 0) @ le_bytes 16 0"
  have val: "apfs_build_dstream_xattr_val (int bs) encrypted ds = le_bytes 2 1 @ le_bytes 2 48 @ xdata"
    by (simp only: apfs_build_dstream_xattr_val_def xdata_def)
  have "length xdata = 48" by (simp add: xdata_def)
  let ?x = "\<lparr>xa_name = name, xa_xdata = xdata, xa_has_dstream = True\<rparr>"
  have get: "xattr_get sbi cnid name (Some s) True = apfs_xattr_extents_read sbi ?x (Some s) True"
    using xattr_get_present [OF assms(1,2), of 1 48 xdata] assms(3,4) val \<open>length xdata = 48\<close> by (simp add: Let_def)
  have sz: "uint (ds_size ds) \<le> 65536" "uint (ds_size ds) \<le> uint s" using assms(11,12) by (simp_all add: word_le_def)
  have "ds_size ds < APFS_MAX_FILE_SIZE" using assms(11) by (rule le_less_trans) simp
  then obtain ds' where rd: "apfs_nonsparse_dstream_read sbi (stream_of (ds_id ds) (ds_size ds)) (ds_size ds) 0 =
      Some (Inr (take (unat (ds_size ds)) (concat (map blk [0..<n])), ds'))"
    using nonsparse_read_eq [of sbi ks' recs' "stream_of (ds_id ds) (ds_size ds)" bs "ds_size ds" 0 n bno blk] assms(5-10)
    by (auto simp: stream_of_def cache_ok_def)
  have "to_s32 (uint (ds_size ds)) = uint (ds_size ds)" using sz(1) by (intro to_s32_range(3)) simp_all
  then show ?thesis
    using sz rd unfolding apfs_xattr_get_def get apfs_xattr_extents_read_def dstream_from_built [OF val]
    by (simp add: Let_def stream_of_def)
qed

section \<open>Concrete instances\<close>

text \<open>A node and a catalog with the given records.\<close>

lemma sample_records:
  assumes "length rs \<le> 8" "sum_list (map (\<lambda>(k, v). length k + length v) rs) \<le> 136" "\<forall>(k, v) \<in> set rs. 0 < length k"
  shows "\<exists>d. node_repr 256 (sample_node\<lparr>nd_data := d, nd_records := length rs, nd_free := 120 + int (sum_list (map (length \<circ> fst) rs)),
      nd_val := 256 - int (sum_list (map (length \<circ> snd) rs))\<rparr>) rs"
  using assms
proof (induction rs rule: rev_induct)
  case Nil
  have "sample_node\<lparr>nd_data := nd_data sample_node, nd_records := 0, nd_free := 120, nd_val := 256\<rparr> = sample_node"
    by (simp add: sample_node_def)
  then show ?case using sample_node_repr(1) by (intro exI [of _ "nd_data sample_node"]) simp
next
  case (snoc r rs)
  obtain k v where r: "r = (k, v)" by force
  have sums: "sum_list (map (\<lambda>(k, v). length k + length v) rs) = sum_list (map (length \<circ> fst) rs) + sum_list (map (length \<circ> snd) rs)"
    by (induction rs) auto
  let ?n = "\<lambda>d rs. sample_node\<lparr>nd_data := d, nd_records := length rs, nd_free := 120 + int (sum_list (map (length \<circ> fst) rs)),
      nd_val := 256 - int (sum_list (map (length \<circ> snd) rs))\<rparr>"
  obtain d where d: "node_repr 256 (?n d rs) rs" using snoc by fastforce
  let ?q = "(apfs_alloc_query (?n d rs) None)\<lparr>q_index := int (length rs) - 1\<rparr>"
  have n: "q_node ?q = ?n d rs" by (simp add: apfs_alloc_query_def)
  have sel: "toc_entry_size (?n d rs) = 8" "\<not> apfs_node_has_fixed_kv_size (?n d rs)"
    using sample_node_sel by (simp_all add: toc_entry_size_def apfs_node_has_fixed_kv_size_def)
  have "\<exists>q' d'. node_insert_try 256 Inr k (Some v) ?q = Inr q' \<and> q_index q' = int (length rs) \<and>
    q_node q' = (q_node ?q)\<lparr>nd_data := d', nd_records := Suc (length rs), nd_free := nd_free (q_node ?q) + int (length k),
      nd_val := nd_val (q_node ?q) - int (length (val_of (Some v)))\<rparr> \<and>
    node_repr 256 (q_node q') (insert_at (length rs) (k, val_of (Some v)) rs)"
    by (rule insert_into_gap)
      (use snoc.prems r d sums in \<open>simp_all add: n fits_kind_def sel toc_full_def to_u32_def val_of_def\<close>,
       use snoc.prems r sums in \<open>simp_all add: sample_node_def\<close>)
  then obtain q' :: apfs_query and d' where q': "node_repr 256 (q_node q') (insert_at (length rs) (k, val_of (Some v)) rs)"
    "q_node q' = (q_node ?q)\<lparr>nd_data := d', nd_records := Suc (length rs), nd_free := nd_free (q_node ?q) + int (length k),
      nd_val := nd_val (q_node ?q) - int (length (val_of (Some v)))\<rparr>" by blast
  have "q_node q' = ?n d' (rs @ [r])" unfolding q'(2) n r by (simp add: val_of_def)
  moreover have "insert_at (length rs) (k, val_of (Some v)) rs = rs @ [r]" by (simp add: insert_at_def val_of_def r)
  ultimately have "node_repr 256 (?n d' (rs @ [r])) (rs @ [r])" using q'(1) by metis
  then show ?case by (rule exI)
qed

lemma small_catalog:
  assumes rs: "length rs \<le> 8" "sum_list (map (\<lambda>(k, v). length k + length v) rs) \<le> 136" "\<forall>(k, v) \<in> set rs. 0 < length k"
    and ks: "length ks = length rs" "\<forall>i < length rs. \<forall>rest. apfs_read_cat_key (fst (rs ! i) @ rest) (int (length (fst (rs ! i)))) True = Inr (ks ! i)"
      "\<forall>k \<in> set ks. cat_named k" "sorted_keys ks" "\<forall>i < length rs. recs (ks ! i) = rs ! i"
  obtains root where "vol_fits (small_vol root)" "catalog (small_vol root) ks recs"
proof -
  obtain d where d: "node_repr 256 (sample_node\<lparr>nd_data := d, nd_records := length rs, nd_free := 120 + int (sum_list (map (length \<circ> fst) rs)),
      nd_val := 256 - int (sum_list (map (length \<circ> snd) rs))\<rparr>) rs" (is "node_repr 256 ?root rs")
    using sample_records [OF rs] by blast
  define root where "root = ?root"
  note root = d [folded root_def]
  have leaf: "apfs_node_is_leaf root" using sample_node_sel(5) by (simp add: root_def apfs_node_is_leaf_def)
  have n: "apfs_node_is_valid 256 root" "int (length (nd_data root)) = 256" "nd_records root = length rs"
    using node_repr_valid [OF root] root by (simp_all add: node_repr_def)
  have at: "key_at (s_dev (small_vol root)) APFS_QUERY_CAT root i = Inr (ks ! i) \<and> record_bytes 256 root i = Inr (rs ! i)" if i: "i < length rs" for i
  proof -
    obtain k v where kv: "rs ! i = (k, v)" by force
    obtain ko vo where loc: "\<And>off. apfs_node_locate_key 256 root (int i) off = Inr (int (length k), ko)"
        "nd_key root \<le> ko" "rd_bytes (nd_data root) ko (int (length k)) = Inr k"
        "\<And>off. apfs_node_locate_value 256 root (int i) off = Inr (int (length v), vo)" "rd_bytes (nd_data root) vo (int (length v)) = Inr v"
      by (rule node_repr_locate [OF root i kv]) (use that in simp_all)
    have ko: "0 \<le> ko" using loc(2) node_repr_key [OF root] by simp
    obtain rest where "raw_at (nd_data root) ko = k @ rest" using raw_at_split [OF ko loc(3)] by blast
    then have "key_at (s_dev (small_vol root)) APFS_QUERY_CAT root i = Inr (ks ! i)"
      using loc(1) ks(2) i kv by (fastforce simp: key_at_def node_key_at_def apfs_key_from_query_def Let_def query_flags has_flag_def apfs_alloc_query_def)
    moreover have "record_bytes 256 root i = Inr (k, v)" using loc by (simp add: record_bytes_def)
    ultimately show ?thesis using kv by simp
  qed
  have "node_keys (s_dev (small_vol root)) APFS_QUERY_CAT {APFS_TYPE_XATTR, APFS_TYPE_DIR_REC} root ks"
    using n at ks(1,3) by (simp add: node_keys_def)
  then have "btree (s_dev (small_vol root)) (virt_read (s_fs (small_vol root))) APFS_QUERY_CAT {APFS_TYPE_XATTR, APFS_TYPE_DIR_REC} (nd_oid root) 0 root ks"
    using leaf by (rule btree_leaf [rotated])
  moreover have "leaf' = root" if "leaf_below dev rd fl base root leaf'" for dev rd fl base leaf'
    using that by (cases rule: leaf_below.cases) (use leaf in auto)
  moreover have "record_bytes 256 root i = Inr (recs k)" if "i < nd_records root" "key_at (s_dev (small_vol root)) APFS_QUERY_CAT root i = Inr k" for i k
    using that at [of i] n(3) ks(5) by auto
  ultimately have "catalog (small_vol root) ks recs"
    unfolding catalog_def tree_map_def using ks(4) by (intro conjI exI [of _ 0]) (simp_all, metis)
  moreover have "vol_fits (small_vol root)" using n by (intro small_vol_fits) (simp add: node_fits_def)
  ultimately show thesis using that by blast
qed

text \<open>The key that the driver builds for an attribute is read back.\<close>

lemma read_xattr_key:
  assumes "ino AND APFS_OBJ_ID_MASK = ino" "length name < 65535" "0 \<notin> set name"
  shows "apfs_read_cat_key (apfs_build_xattr_key name ino @ rest) (int (length (apfs_build_xattr_key name ino))) True =
    Inr (apfs_init_xattr_key ino (Some name))"
proof -
  let ?h = "ino OR push_bit APFS_OBJ_TYPE_SHIFT (ucast APFS_TYPE_XATTR)"
  let ?raw = "apfs_build_xattr_key name ino @ rest"
  have raw: "?raw = le_bytes 8 (unat ?h) @ (le_bytes 2 (length name + 1) @ name @ 0 # rest)"
    by (simp add: build_xattr_key_eq [OF assms(2)] apfs_key_set_hdr_def)
  have len: "length (apfs_build_xattr_key name ino) = length name + 11" by (simp add: build_xattr_key_eq [OF assms(2)] key_hdr_length)
  have "rd64 ?raw 0 = Inr (unat ?h)" unfolding raw rd_le_bytes_append by (simp add: unat_mod_u64)
  moreover have "?h AND APFS_OBJ_ID_MASK = ino"
    using assms(1) by (simp add: bit.conj_disj_distrib2 APFS_OBJ_ID_MASK_def APFS_OBJ_TYPE_SHIFT_def push_bit_eq_mult)
  moreover have "ucast (drop_bit APFS_OBJ_TYPE_SHIFT (?h AND APFS_OBJ_TYPE_MASK)) = APFS_TYPE_XATTR"
  proof -
    have "ino AND APFS_OBJ_TYPE_MASK = (ino AND APFS_OBJ_ID_MASK) AND APFS_OBJ_TYPE_MASK" using assms(1) by simp
    also have "\<dots> = 0" by (simp add: and.assoc APFS_OBJ_ID_MASK_def APFS_OBJ_TYPE_MASK_def)
    finally show ?thesis by (simp add: bit.conj_disj_distrib2 APFS_OBJ_TYPE_MASK_def APFS_OBJ_TYPE_SHIFT_def drop_bit_eq_div push_bit_eq_mult)
  qed
  moreover have "rd8 ?raw (10 + int (length name)) = Inr 0"
    unfolding raw by (simp add: rd8_def nth_append nat_add_distrib del: le_bytes.simps)
  moreover have "c_string ?raw 10 = Inr name"
  proof -
    have "drop 10 ?raw = name @ 0 # rest" unfolding raw by (simp del: le_bytes.simps)
    moreover have "takeWhile (\<lambda>c. c \<noteq> 0) (name @ 0 # rest) = name" using assms(3) by (subst takeWhile_append2) auto
    ultimately show ?thesis by (simp add: c_string_def)
  qed
  ultimately show ?thesis
    by (simp add: apfs_read_cat_key_def apfs_cat_cnid_def apfs_cat_type_def apfs_init_xattr_key_def bad_name_key_def len)
qed

definition small_xattr_key :: apfs_key where "small_xattr_key = apfs_init_xattr_key 19 (Some [97])"

lemma read_small_keys:
  "apfs_read_cat_key (apfs_build_xattr_key [97] 19 @ rest) (int (length (apfs_build_xattr_key [97] 19))) True = Inr small_xattr_key"
  "apfs_read_cat_key (ext_raw_key 20 @ rest) (int (length (ext_raw_key 20))) True = Inr (apfs_init_file_extent_key 20 0)"
proof -
  show "apfs_read_cat_key (apfs_build_xattr_key [97] 19 @ rest) (int (length (apfs_build_xattr_key [97] 19))) True = Inr small_xattr_key"
    unfolding small_xattr_key_def by (rule read_xattr_key) (simp_all add: APFS_OBJ_ID_MASK_def)
  show "apfs_read_cat_key (ext_raw_key 20 @ rest) (int (length (ext_raw_key 20))) True = Inr (apfs_init_file_extent_key 20 0)"
    using read_ext_raw_key [of 20 rest] by (simp add: APFS_OBJ_ID_MASK_def) (simp add: ext_raw_key_def)
qed

theorem xattr_get_returns_value_witness:
  "\<exists>root. apfs_xattr_get (small_vol root) 19 [97] (Some 64) = Some (Inr (3, [1, 2, 3])) \<and>
     apfs_xattr_get (small_vol root) 19 [97] (Some 2) = Some (Inl ERANGE) \<and>
     apfs_xattr_get (small_vol root) 19 [98] (Some 64) = Some (Inl ENODATA)"
proof -
  let ?rs = "[(apfs_build_xattr_key [97] 19, apfs_build_inline_xattr_val [1, 2, 3])]"
  have key: "length (apfs_build_xattr_key [97] 19) = 12" "apfs_build_xattr_key [97] 19 \<noteq> []" by (simp_all add: build_xattr_key_eq key_hdr_length)
  obtain root where root: "catalog (small_vol root) [small_xattr_key] (\<lambda>_. hd ?rs)"
    by (rule small_catalog [of ?rs "[small_xattr_key]" "\<lambda>_. hd ?rs"])
      (use read_small_keys(1) xattr_key_named key in \<open>simp_all add: apfs_build_inline_xattr_val_def sorted_keys_def small_xattr_key_def\<close>)
  have "apfs_init_xattr_key 19 (Some [98]) \<noteq> small_xattr_key" by (simp add: apfs_init_xattr_key_def small_xattr_key_def)
  then show ?thesis
    using xattr_get_returns_value [OF root, of "[97]" "[1, 2, 3]" 19 "Some 64"] xattr_get_returns_value [OF root, of "[97]" "[1, 2, 3]" 19 "Some 2"]
      xattr_get_returns_value [OF root, of "[98]" "[]" 19 "Some 64"]
    by (intro exI [of _ root]) (simp add: small_xattr_key_def)
qed

theorem xattr_get_returns_stream_witness:
  "\<exists>root. apfs_xattr_get (small_vol root) 19 [97] (Some 400) = Some (Inr (300, replicate 256 77 @ replicate 44 78))"
proof -
  let ?val = "apfs_build_dstream_xattr_val 256 False small_stream"
  let ?rs = "[(apfs_build_xattr_key [97] 19, ?val), (ext_raw_key 20, ext_raw_val)]"
  let ?ks = "[small_xattr_key, apfs_init_file_extent_key 20 0]"
  let ?recs = "\<lambda>k. if k = small_xattr_key then hd ?rs else ?rs ! 1"
  have ne: "apfs_init_file_extent_key 20 0 \<noteq> small_xattr_key" by (simp add: small_xattr_key_def apfs_init_xattr_key_def apfs_init_file_extent_key_def)
  have srt: "sorted_keys ?ks"
    by (simp add: sorted_keys_def small_xattr_key_def apfs_init_xattr_key_def apfs_init_file_extent_key_def apfs_keycmp_def)
  have len: "length (apfs_build_xattr_key [97] 19) = 12" "length ?val = 52" "length (ext_raw_key 20) = 16" "length ext_raw_val = 24"
    by (simp_all add: build_xattr_key_eq key_hdr_length apfs_build_dstream_xattr_val_def ext_raw_key_def ext_raw_val_def)
  obtain root where root: "catalog (small_vol root) ?ks ?recs"
  proof (rule small_catalog [of ?rs ?ks ?recs])
    show "\<forall>i < length ?rs. \<forall>rest. apfs_read_cat_key (fst (?rs ! i) @ rest) (int (length (fst (?rs ! i)))) True = Inr (?ks ! i)"
      using read_small_keys by (auto simp: less_Suc_eq)
    show "\<forall>k \<in> set ?ks. cat_named k" using xattr_key_named by (auto simp: small_xattr_key_def named_by_def apfs_init_file_extent_key_def)
    show "\<forall>i < length ?rs. ?recs (?ks ! i) = ?rs ! i" using ne by (auto simp: less_Suc_eq)
  qed (use srt len in auto)
  let ?bno = "\<lambda>i :: nat. of_nat (77 + i) :: u64" and ?blk = "\<lambda>i :: nat. replicate 256 (of_nat (77 + i) :: byte)"
  have str: "stream_ext (small_vol root) ?ks ?recs 20 addr ext \<longleftrightarrow>
     addr = 0 \<and> ext = \<lparr>fe_logical_addr = 0, fe_phys_block_num = 77, fe_len = 512, fe_crypto_id = 0\<rparr>" for addr ext
    using ne ext_raw_val_ext by (auto simp: stream_ext_def ext_key_def apfs_init_file_extent_key_def small_xattr_key_def apfs_init_xattr_key_def)
  have "extents_wf (small_vol root) ?ks ?recs 20" using ne len(4) by (auto simp: extents_wf_def str ext_key_def)
  moreover have "stream_bno (small_vol root) ?ks ?recs 20 (of_nat i) (?bno i)" "?bno i \<noteq> 0"
      "replicate 256 (ucast (?bno i)) = ?blk i" if "i < 2" for i
    using that by (auto simp: stream_bno_def str ext_covers_def apfs_ext_is_hole_def less_2_cases_iff)
  moreover have "extent_tree (small_vol root) ?ks ?recs" using root by (simp add: extent_tree_def)
  ultimately have "apfs_xattr_get (small_vol root) 19 [97] (Some 400) =
      Some (Inr (uint (ds_size small_stream), take (unat (ds_size small_stream)) (concat (map ?blk [0..<2]))))"
    by (intro xattr_get_returns_stream [where bs = 256 and bno = ?bno and encrypted = False and ks' = ?ks and recs' = ?recs, OF root])
      (simp_all add: small_stream_def small_xattr_key_def)
  moreover have "take (unat (ds_size small_stream)) (concat (map ?blk [0..<2])) = replicate 256 77 @ replicate 44 78"
    by (simp add: upt_rec small_stream_def)
  ultimately show ?thesis by (auto simp: small_stream_def)
qed

end
