(* ===== verification/Checkpoint.thy ===== *)
theory Checkpoint
  imports Spaceman
begin

text \<open>
  Checkpoints (\<open>transaction.c\<close>, and the search for the latest checkpoint in \<open>super.c\<close>).  The ephemeral objects
  are kept in memory and written to disk with each transaction, into the checkpoint data area; mapping blocks in
  the checkpoint descriptor area tell where they are, and the container superblock of the checkpoint follows them.
  Both areas are rings of blocks, and a checkpoint follows the previous one in them.

  The state is the file system, the raw container superblock, the block number of the next superblock, and the
  buffers whose checksum is set by the commit.  The list of ephemeral objects is in memory, so that the branches of
  the source for a missing list do not occur; reading starts with the empty list.
\<close>

section \<open>State\<close>

record apfs_nx =
  nx_fs :: apfs_fs
  nx_raw :: buffer
  nx_bno :: u64
  nx_csum :: "u64 \<Rightarrow> bool"

abbreviation nx_eph_list :: "apfs_nx \<Rightarrow> ephemeral_object_info list" where
  "nx_eph_list nx \<equiv> d_eph_list (fs_dev (nx_fs nx))"

abbreviation (input) APFS_NX_MAGIC :: nat where "APFS_NX_MAGIC \<equiv> 0x4253584e"

text \<open>A position in a ring of \<open>blks\<close> blocks; the sum is one of 32-bit numbers.\<close>

definition ring_bno :: "nat \<Rightarrow> nat \<Rightarrow> nat \<Rightarrow> nat \<Rightarrow> u64 result" where
  "ring_bno base blks idx i =
     (if blks = 0 then Inl UB else Inr (of_nat base + of_nat ((idx + i) mod 2 ^ 32 mod blks)))"

section \<open>Reading the ephemeral objects\<close>

text \<open>The loop over the blocks of an object, which may wrap around the end of the data area.\<close>

fun read_eph_blocks :: "(u64 \<Rightarrow> buffer option) \<Rightarrow> nat \<Rightarrow> nat \<Rightarrow> int \<Rightarrow> nat \<Rightarrow> buffer result" where
  "read_eph_blocks blk data_base data_blks data_idx 0 = Inr []"
| "read_eph_blocks blk data_base data_blks data_idx (Suc n) =
     (case blk (of_nat data_base + of_int data_idx) of
        None \<Rightarrow> Inl EIO
      | Some b \<Rightarrow>
          let idx = to_s32 (data_idx + 1); idx = (if to_u32 idx = int data_blks then 0 else idx) in
          bind_res (read_eph_blocks blk data_base data_blks idx n) (\<lambda>bs. Inr (b @ bs)))"

definition apfs_read_single_ephemeral_object ::
  "int \<Rightarrow> (u64 \<Rightarrow> buffer option) \<Rightarrow> buffer \<Rightarrow> nat \<times> nat \<times> nat \<Rightarrow> ephemeral_object_info list \<Rightarrow>
   ephemeral_object_info list result" where
  "apfs_read_single_ephemeral_object bs blk raw_sb cm l =
     (case cm of (oid, bno, osize) \<Rightarrow>
      bind_res (rd64 raw_sb 120) (\<lambda>data_base.
      bind_res (rd32 raw_sb 108) (\<lambda>data_blks.
      if length l \<ge> APFS_EPHEMERAL_LIST_LIMIT then Inl EOPNOTSUPP
      else if int osize > bs * 2 then Inl EOPNOTSUPP
      else if osize = 0 \<or> int osize mod bs \<noteq> 0 then Inl EFSCORRUPTED
      else
        bind_res (read_eph_blocks blk data_base data_blks (to_s32 (int bno - int data_base)) (nat (int osize div bs))) (\<lambda>object.
        bind_res (apfs_multiblock_verify_csum object (int osize)) (\<lambda>ok.
        if \<not> ok then Inl EFSBADCRC
        else Inr (l @ [\<lparr>eph_oid = of_nat oid, eph_size = of_nat osize, eph_object = object\<rparr>]))))))"

text \<open>The loop over the mappings of a block.\<close>

fun read_cpm_maps ::
  "int \<Rightarrow> (u64 \<Rightarrow> buffer option) \<Rightarrow> buffer \<Rightarrow> buffer \<Rightarrow> nat \<Rightarrow> nat \<Rightarrow> ephemeral_object_info list \<Rightarrow>
   ephemeral_object_info list result" where
  "read_cpm_maps bs blk raw_sb cpm i 0 l = Inr l"
| "read_cpm_maps bs blk raw_sb cpm i (Suc n) l =
     bind_res (cpoint_map_at cpm i) (\<lambda>cm.
     bind_res (apfs_read_single_ephemeral_object bs blk raw_sb cm l) (read_cpm_maps bs blk raw_sb cpm (Suc i) n))"

text \<open>
  A block without mappings makes the source return the value of a variable that is not initialised, which is
  undefined.
\<close>

definition apfs_read_single_cpm_block ::
  "int \<Rightarrow> (u64 \<Rightarrow> buffer option) \<Rightarrow> (u64 \<Rightarrow> bool) \<Rightarrow> buffer \<Rightarrow> u64 \<Rightarrow> ephemeral_object_info list \<Rightarrow>
   ephemeral_object_info list result" where
  "apfs_read_single_cpm_block bs blk in_trans raw_sb cpm_bno l =
     (case blk cpm_bno of
        None \<Rightarrow> Inl EIO
      | Some cpm \<Rightarrow>
          bind_res (apfs_obj_verify_csum bs (in_trans cpm_bno) cpm) (\<lambda>ok.
          if \<not> ok then Inl EFSBADCRC
          else bind_res (rd32 cpm 36) (\<lambda>map_count.
            if int map_count > apfs_max_maps_per_block bs then Inl EFSCORRUPTED
            else if map_count = 0 then Inl UB
            else read_cpm_maps bs blk raw_sb cpm 0 map_count l)))"

fun read_cpm_blocks ::
  "int \<Rightarrow> (u64 \<Rightarrow> buffer option) \<Rightarrow> (u64 \<Rightarrow> bool) \<Rightarrow> buffer \<Rightarrow> nat \<Rightarrow> nat \<Rightarrow> nat \<Rightarrow> nat \<Rightarrow> nat \<Rightarrow>
   ephemeral_object_info list \<Rightarrow> ephemeral_object_info list result" where
  "read_cpm_blocks bs blk in_trans raw_sb base blks idx i 0 l = Inr l"
| "read_cpm_blocks bs blk in_trans raw_sb base blks idx i (Suc n) l =
     bind_res (ring_bno base blks idx i) (\<lambda>cpm_bno.
     bind_res (apfs_read_single_cpm_block bs blk in_trans raw_sb cpm_bno l)
       (read_cpm_blocks bs blk in_trans raw_sb base blks idx (Suc i) n))"

text \<open>
  \<open>apfs_read_ephemeral_objects\<close> on the blocks \<open>blk\<close>, for the container superblock \<open>raw_sb\<close>.  The number of
  mapping blocks is a difference of 32-bit numbers.
\<close>

definition apfs_read_ephemeral_objects ::
  "int \<Rightarrow> (u64 \<Rightarrow> buffer option) \<Rightarrow> (u64 \<Rightarrow> bool) \<Rightarrow> buffer \<Rightarrow> ephemeral_object_info list result" where
  "apfs_read_ephemeral_objects bs blk in_trans raw_sb =
     bind_res (rd64 raw_sb 112) (\<lambda>desc_base.
     bind_res (rd32 raw_sb 136) (\<lambda>desc_index.
     bind_res (rd32 raw_sb 104) (\<lambda>desc_blks.
     bind_res (rd32 raw_sb 140) (\<lambda>desc_len.
     read_cpm_blocks bs blk in_trans raw_sb desc_base desc_blks desc_index 0 (nat (to_u32 (int desc_len - 1))) []))))"

section \<open>Writing the ephemeral objects\<close>

text \<open>The loop over the blocks of an object.\<close>

fun write_eph_blocks :: "nat \<Rightarrow> nat \<Rightarrow> int \<Rightarrow> buffer \<Rightarrow> int \<Rightarrow> nat \<Rightarrow> apfs_fs \<Rightarrow> apfs_fs result" where
  "write_eph_blocks data_base data_blks data_idx obj off 0 fs = Inr fs"
| "write_eph_blocks data_base data_blks data_idx obj off (Suc n) fs =
     (let bno = of_nat data_base + of_int data_idx in
      bind_res (apfs_getblk fs bno) (\<lambda>_.
      bind_res (rd_bytes obj off (fs_bs fs)) (\<lambda>b.
      let fs = put_block bno b (apfs_transaction_join bno fs);
          idx = to_s32 (data_idx + 1); idx = (if to_u32 idx = int data_blks then 0 else idx) in
      write_eph_blocks data_base data_blks idx obj (off + fs_bs fs) n fs)))"

text \<open>\<open>apfs_write_single_ephemeral_object\<close> for the object \<open>i\<close> of the list.\<close>

definition apfs_write_single_ephemeral_object :: "nat \<Rightarrow> nat \<times> nat \<times> nat \<Rightarrow> apfs_nx \<Rightarrow> apfs_nx result" where
  "apfs_write_single_ephemeral_object i cm nx =
     (case cm of (oid, bno, osize) \<Rightarrow>
      let fs = nx_fs nx; l = nx_eph_list nx in
      bind_res (rd64 (nx_raw nx) 120) (\<lambda>data_base.
      bind_res (rd32 (nx_raw nx) 108) (\<lambda>data_blks.
      bind_res (wr64 (eph_object (l ! i)) 16 (uint (fs_xid fs))) (\<lambda>obj.
      bind_res (apfs_multiblock_set_csum obj (int osize)) (\<lambda>obj.
      bind_res (write_eph_blocks data_base data_blks (to_s32 (int bno - int data_base)) obj 0 (nat (int osize div fs_bs fs))
        (fs_set_eph (l[i := (l ! i)\<lparr>eph_object := obj\<rparr>]) fs)) (\<lambda>fs.
      Inr (nx\<lparr>nx_fs := fs\<rparr>)))))))"

text \<open>The parts of the loop of \<open>apfs_write_ephemeral_objects\<close> that work on a block of mappings.\<close>

definition new_cpm_block :: "u64 \<Rightarrow> apfs_nx \<Rightarrow> apfs_nx result" where
  "new_cpm_block bno nx =
     (let fs = nx_fs nx in
      bind_res (apfs_getblk fs bno) (\<lambda>_.
      bind_res (apfs_create_cpm_block (fs_bs fs) (fs_xid fs) bno) (\<lambda>cpm.
      Inr (nx\<lparr>nx_fs := put_block bno cpm (apfs_transaction_join bno fs), nx_csum := (nx_csum nx)(bno := True)\<rparr>))))"

definition cpm_add_map :: "u64 \<Rightarrow> nat \<Rightarrow> u64 \<Rightarrow> apfs_nx \<Rightarrow> apfs_nx result" where
  "cpm_add_map cpm_bno i bno nx =
     (let fs = nx_fs nx; info = nx_eph_list nx ! i in
      bind_res (apfs_sb_bread fs cpm_bno) (\<lambda>cpm.
      bind_res (apfs_create_cpoint_map (fs_bs fs) cpm (eph_object info) bno (eph_size info)) (\<lambda>cpm.
      Inr (nx\<lparr>nx_fs := put_block cpm_bno cpm fs\<rparr>))))"

definition cpm_not_last :: "u64 \<Rightarrow> apfs_nx \<Rightarrow> apfs_nx result" where
  "cpm_not_last cpm_bno nx =
     bind_res (apfs_sb_bread (nx_fs nx) cpm_bno) (\<lambda>cpm.
     bind_res (wr32 cpm 32 0) (\<lambda>cpm.
     Inr (nx\<lparr>nx_fs := put_block cpm_bno cpm (nx_fs nx)\<rparr>)))"

definition cpm_write_object :: "u64 \<Rightarrow> nat \<Rightarrow> nat \<Rightarrow> apfs_nx \<Rightarrow> apfs_nx result" where
  "cpm_write_object cpm_bno k i nx =
     bind_res (apfs_sb_bread (nx_fs nx) cpm_bno) (\<lambda>cpm.
     bind_res (cpoint_map_at cpm k) (\<lambda>cm. apfs_write_single_ephemeral_object i cm nx))"

text \<open>The local variables of \<open>apfs_write_ephemeral_objects\<close> that do not change.\<close>

record xp_areas =
  xp_desc_base :: nat
  xp_desc_blks :: nat
  xp_desc_index :: nat
  xp_data_base :: nat
  xp_data_blks :: nat
  xp_data_index :: nat

definition new_xp_areas :: "buffer \<Rightarrow> xp_areas result" where
  "new_xp_areas raw_sb =
     bind_res (rd32 raw_sb 128) (\<lambda>desc_next.
     bind_res (rd64 raw_sb 112) (\<lambda>desc_base.
     bind_res (rd32 raw_sb 104) (\<lambda>desc_blks.
     bind_res (rd32 raw_sb 132) (\<lambda>data_next.
     bind_res (rd64 raw_sb 120) (\<lambda>data_base.
     bind_res (rd32 raw_sb 108) (\<lambda>data_blks.
     Inr \<lparr>xp_desc_base = desc_base, xp_desc_blks = desc_blks, xp_desc_index = desc_next,
          xp_data_base = data_base, xp_data_blks = data_blks, xp_data_index = data_next\<rparr>))))))"

text \<open>
  The loop itself.  The current block of mappings, if there is one, comes with the index of its first object.  A
  full block sends the loop back to the same object, with no current block.
\<close>

partial_function (option) write_eph_loop ::
  "xp_areas \<Rightarrow> nat \<Rightarrow> (u64 \<times> nat) option \<Rightarrow> nat \<Rightarrow> nat \<Rightarrow> apfs_nx \<Rightarrow> (nat \<times> nat \<times> apfs_nx) result option" where
  "write_eph_loop xp i cpm desc_len data_len nx =
     (if \<not> i < length (nx_eph_list nx) then Some (Inr (desc_len, data_len, nx))
      else if data_len = xp_data_blks xp div 4 then Some (Inl EFSCORRUPTED)
      else
        bindo (case cpm of
            Some c \<Rightarrow> Some (Inr (c, desc_len, nx))
          | None \<Rightarrow>
              if desc_len = xp_desc_blks xp div 4 then Some (Inl EFSCORRUPTED)
              else bindo (Some (ring_bno (xp_desc_base xp) (xp_desc_blks xp) (xp_desc_index xp) desc_len)) (\<lambda>cpm_bno.
                bindo (Some (new_cpm_block cpm_bno nx)) (\<lambda>nx.
                Some (Inr ((cpm_bno, i), desc_len + 1, nx))))) (\<lambda>((cpm_bno, cpm_start), desc_len, nx).
        bindo (Some (ring_bno (xp_data_base xp) (xp_data_blks xp) (xp_data_index xp) data_len)) (\<lambda>bno.
        case cpm_add_map cpm_bno i bno nx of
          Inl e \<Rightarrow>
            if e = ENOSPC
            then bindo (Some (cpm_not_last cpm_bno nx)) (write_eph_loop xp i None desc_len data_len)
            else Some (Inl e)
        | Inr nx \<Rightarrow>
            let obj_blkcnt = unat (eph_size (nx_eph_list nx ! i)) div nat (fs_bs (nx_fs nx)) in
            bindo (Some (cpm_write_object cpm_bno (i - cpm_start) i nx))
              (write_eph_loop xp (Suc i) (Some (cpm_bno, cpm_start)) desc_len (data_len + obj_blkcnt)))))"

text \<open>The fields of the superblock at the end.\<close>

definition new_xp_fields :: "xp_areas \<Rightarrow> nat \<Rightarrow> nat \<Rightarrow> buffer \<Rightarrow> buffer result" where
  "new_xp_fields xp desc_len data_len raw_sb =
     (if xp_desc_blks xp = 0 \<or> xp_data_blks xp = 0 then Inl UB
      else
        bind_res (wr32 raw_sb 128 (int ((xp_desc_index xp + desc_len) mod 2 ^ 32 mod xp_desc_blks xp))) (\<lambda>raw_sb.
        bind_res (wr32 raw_sb 136 (int (xp_desc_index xp))) (\<lambda>raw_sb.
        bind_res (wr32 raw_sb 140 (int desc_len)) (\<lambda>raw_sb.
        bind_res (wr32 raw_sb 132 (int ((xp_data_index xp + data_len) mod 2 ^ 32 mod xp_data_blks xp))) (\<lambda>raw_sb.
        bind_res (wr32 raw_sb 144 (int (xp_data_index xp))) (\<lambda>raw_sb.
        wr32 raw_sb 148 (int data_len)))))))"

definition apfs_write_ephemeral_objects :: "apfs_nx \<Rightarrow> apfs_nx result option" where
  "apfs_write_ephemeral_objects nx =
     bindo (Some (new_xp_areas (nx_raw nx))) (\<lambda>xp.
     bindo (write_eph_loop xp 0 None 0 0 nx) (\<lambda>(desc_len, data_len, nx).
     bindo (Some (ring_bno (xp_desc_base xp) (xp_desc_blks xp) (xp_desc_index xp) desc_len)) (\<lambda>bno.
     bindo (Some (new_xp_fields xp (desc_len + 1) data_len (nx_raw nx))) (\<lambda>raw_sb.
     Some (Inr (nx\<lparr>nx_bno := bno, nx_raw := raw_sb\<rparr>))))))"

section \<open>The end of a checkpoint\<close>

text \<open>
  The loop of \<open>apfs_transaction_commit_nx\<close> over the buffers of the transaction: the blocks that are written to
  disk, each with its checksum if it has one.
\<close>

definition seal_buffer :: "int \<Rightarrow> bool \<Rightarrow> buffer \<Rightarrow> buffer" where
  "seal_buffer bs csum b = (if csum then case apfs_obj_set_csum bs b of Inl e \<Rightarrow> b | Inr b' \<Rightarrow> b' else b)"

definition commit_buffers :: "apfs_nx \<Rightarrow> u64 \<Rightarrow> buffer option" where
  "commit_buffers nx bno =
     (let dev = fs_dev (nx_fs nx) in
      if d_trans dev bno then map_option (seal_buffer (d_bs dev) (nx_csum nx bno)) (d_block dev bno) else None)"

definition checkpoint_super :: "apfs_nx \<Rightarrow> buffer result" where
  "checkpoint_super nx =
     bind_res (wr64 (nx_raw nx) 16 (uint (fs_xid (nx_fs nx)))) (apfs_obj_set_csum (fs_bs (nx_fs nx)))"

section \<open>The latest checkpoint\<close>

text \<open>
  The loop of \<open>apfs_read_main_super\<close> over the checkpoint descriptors: the number of the transaction, the block
  number and the contents of the superblock.
\<close>

fun find_super :: "int \<Rightarrow> (u64 \<Rightarrow> buffer option) \<Rightarrow> nat \<Rightarrow> nat \<Rightarrow> nat \<Rightarrow> nat \<times> u64 \<times> buffer \<Rightarrow> (nat \<times> u64 \<times> buffer) result" where
  "find_super bs blk desc_base i 0 best = Inr best"
| "find_super bs blk desc_base i (Suc n) (xid, bno, raw) =
     (let desc_bno = of_nat desc_base + of_nat i in
      case blk desc_bno of
        None \<Rightarrow> Inl EINVAL
      | Some desc_raw \<Rightarrow>
          bind_res (rd32 desc_raw 32) (\<lambda>magic.
          bind_res (rd64 desc_raw 16) (\<lambda>desc_xid.
          bind_res (apfs_obj_verify_csum bs False desc_raw) (\<lambda>ok.
          find_super bs blk desc_base (Suc i) n
            (if magic \<noteq> APFS_NX_MAGIC \<or> desc_xid \<le> xid \<or> \<not> ok then (xid, bno, raw)
             else (desc_xid, desc_bno, desc_raw))))))"

text \<open>\<open>apfs_read_main_super\<close> from the copy of the superblock in block zero on, up to the checks of features.\<close>

definition apfs_read_main_super :: "int \<Rightarrow> (u64 \<Rightarrow> buffer option) \<Rightarrow> (nat \<times> u64 \<times> buffer) result" where
  "apfs_read_main_super bs blk =
     (case blk 0 of
        None \<Rightarrow> Inl EINVAL
      | Some msb_raw \<Rightarrow>
          bind_res (rd64 msb_raw 112) (\<lambda>desc_base.
          if desc_base div 2 ^ 63 \<noteq> 0 then Inl EINVAL
          else bind_res (rd32 msb_raw 104) (\<lambda>desc_blocks.
            if desc_blocks > 10000 then Inl EFSCORRUPTED
            else bind_res (rd64 msb_raw 16) (\<lambda>xid.
              find_super bs blk desc_base 0 desc_blocks (xid, 0, msb_raw)))))"

section \<open>Rings of blocks\<close>

definition ring :: "nat \<Rightarrow> nat \<Rightarrow> nat \<Rightarrow> u64" where
  "ring base blks k = of_nat (base + k mod blks)"

definition ring_set :: "nat \<Rightarrow> nat \<Rightarrow> nat \<Rightarrow> nat \<Rightarrow> u64 set" where
  "ring_set base blks idx n = (\<lambda>j. ring base blks (idx + j)) ` {..<n}"

definition area_ok :: "nat \<Rightarrow> nat \<Rightarrow> nat \<Rightarrow> bool" where
  "area_ok base blks idx \<longleftrightarrow> 0 < base \<and> 0 < blks \<and> blks < 2 ^ 31 \<and> base + blks \<le> 2 ^ 63 \<and> idx < blks"

lemma ring_bno_ok: "area_ok base blks idx \<Longrightarrow> i < 2 ^ 31 \<Longrightarrow> ring_bno base blks idx i = Inr (ring base blks (idx + i))"
  by (simp add: ring_bno_def ring_def area_ok_def)

lemma unat_ring: "0 < blks \<Longrightarrow> base + blks \<le> 2 ^ 63 \<Longrightarrow> unat (ring base blks k) = base + k mod blks"
proof -
  assume "0 < blks" "base + blks \<le> 2 ^ 63"
  moreover from this have "k mod blks < blks" by simp
  ultimately have "base + k mod blks < 2 ^ 64" by simp
  then show ?thesis unfolding ring_def by (simp add: unat_of_nat take_bit_nat_eq_self del: of_nat_add)
qed

lemma ring_inj:
  assumes "0 < blks" "base + blks \<le> 2 ^ 63" "i < blks" "j < blks" "ring base blks (idx + i) = ring base blks (idx + j)"
  shows "i = j"
proof -
  have "(idx + i) mod blks = (idx + j) mod blks"
    using assms(5) unat_ring [OF assms(1,2), of "idx + i"] unat_ring [OF assms(1,2), of "idx + j"] by simp
  moreover have False if "(idx + i) mod blks = (idx + j) mod blks" "i < j" "j < blks" for i j
  proof -
    have "blks dvd (idx + j) - (idx + i)" using that(1,2) by (subst mod_eq_dvd_iff_nat [symmetric]) simp_all
    then show False using that(2,3) by (auto dest: dvd_imp_le)
  qed
  ultimately show ?thesis using assms(3,4) by (metis linorder_less_linear)
qed

lemma ring_bounds:
  assumes "area_ok base blks idx"
  shows "base \<le> unat (ring base blks k)" "unat (ring base blks k) < base + blks"
  using assms unat_ring [of blks base k] by (simp_all add: area_ok_def)

lemma ring_set_bounds: "area_ok base blks idx \<Longrightarrow> b \<in> ring_set base blks i n \<Longrightarrow> base \<le> unat b \<and> unat b < base + blks"
  using ring_bounds by (auto simp: ring_set_def)

lemma ring_set_Suc: "ring_set base blks idx (Suc n) = insert (ring base blks (idx + n)) (ring_set base blks idx n)"
  by (auto simp: ring_set_def lessThan_Suc)

lemma ring_set_0 [simp]: "ring_set base blks idx 0 = {}"
  by (simp add: ring_set_def)

lemma ring_set_add: "ring_set base blks idx (m + n) = ring_set base blks idx m \<union> ring_set base blks (idx + m) n"
  by (induction n) (simp_all add: ring_set_Suc add.assoc)

lemma ring_not_in:
  assumes "area_ok base blks idx" "n \<le> i" "i < blks"
  shows "ring base blks (idx + i) \<notin> ring_set base blks idx n"
proof
  assume "ring base blks (idx + i) \<in> ring_set base blks idx n"
  then obtain j where "j < n" "ring base blks (idx + i) = ring base blks (idx + j)" by (auto simp: ring_set_def)
  then show False using ring_inj [of blks base i j idx] assms by (simp add: area_ok_def)
qed

text \<open>Blocks of an object in the ring.\<close>

definition block_of :: "nat \<Rightarrow> buffer \<Rightarrow> nat \<Rightarrow> buffer" where
  "block_of B obj j = take B (drop (j * B) obj)"

lemma block_of_Suc: "block_of B (drop m obj) (Suc j) = block_of B (drop (m + B) obj) j"
  by (simp add: block_of_def algebra_simps)

lemma blocks_concat: "length obj = n * B \<Longrightarrow> concat (map (block_of B obj) [0..<n]) = obj"
proof (induction n arbitrary: obj)
  case (Suc n)
  have "map (block_of B obj) [0..<Suc n] = block_of B obj 0 # map (block_of B (drop B obj)) [0..<n]"
    by (simp add: upt_conv_Cons map_Suc_upt [symmetric] block_of_def drop_drop add.commute del: upt_Suc)
  then have "concat (map (block_of B obj) [0..<Suc n]) = take B obj @ concat (map (block_of B (drop B obj)) [0..<n])"
    by (simp only: concat.simps) (simp add: block_of_def)
  also have "\<dots> = obj" using Suc.IH [of "drop B obj"] Suc.prems by simp
  finally show ?case .
qed simp

lemma ring_step:
  assumes "0 < blks" "blks < 2 ^ 31"
  shows "(let idx = to_s32 (int (k mod blks) + 1) in if to_u32 idx = int blks then 0 else idx) = int (Suc k mod blks)"
proof -
  have k: "k mod blks < blks" using assms by simp
  then have "int (k mod blks) + 1 \<le> int blks" "int blks < 2147483648" using assms(2) by simp_all
  then have "to_s32 (int (k mod blks) + 1) = int (k mod blks) + 1" "to_u32 (int (k mod blks) + 1) = int (k mod blks) + 1"
    by (simp_all add: to_s32_def to_u32_def)
  then show ?thesis using k by (auto simp: mod_Suc Let_def)
qed

lemma read_eph_blocks_ring:
  assumes "0 < blks" "blks < 2 ^ 31" "\<And>j. j < n \<Longrightarrow> blk (ring base blks (k + j)) = Some (f j)"
  shows "read_eph_blocks blk base blks (int (k mod blks)) n = Inr (concat (map f [0..<n]))"
  using assms(3)
proof (induction n arbitrary: k f)
  case (Suc n)
  have "read_eph_blocks blk base blks (int (Suc k mod blks)) n = Inr (concat (map (\<lambda>j. f (Suc j)) [0..<n]))"
    using Suc.prems [of "Suc _"] by (intro Suc.IH) simp
  moreover have "blk (of_nat base + of_nat (k mod blks)) = Some (f 0)" using Suc.prems [of 0] by (simp add: ring_def)
  moreover have "map f [0..<Suc n] = f 0 # map (\<lambda>j. f (Suc j)) [0..<n]"
    by (simp add: upt_conv_Cons map_Suc_upt [symmetric] comp_def del: upt_Suc)
  ultimately show ?case using ring_step [OF assms(1,2), of k] by (simp add: Let_def del: upt_Suc)
qed simp

text \<open>\<open>fs'\<close> differs from \<open>fs\<close> in the contents of blocks and in the set of the blocks of the transaction.\<close>

definition blocks_only :: "apfs_fs \<Rightarrow> apfs_fs \<Rightarrow> bool" where
  "blocks_only fs' fs \<longleftrightarrow> (\<exists>blk tr. fs' = fs\<lparr>fs_dev := (fs_dev fs)\<lparr>d_block := blk, d_trans := tr\<rparr>\<rparr>)"

lemma blocks_only_refl [simp]: "blocks_only fs fs"
  unfolding blocks_only_def by (intro exI [of _ "d_block (fs_dev fs)"] exI [of _ "d_trans (fs_dev fs)"]) simp

lemma blocks_only_trans: "blocks_only fs2 fs1 \<Longrightarrow> blocks_only fs1 fs \<Longrightarrow> blocks_only fs2 fs"
  unfolding blocks_only_def by (elim exE) (auto intro!: exI)

lemma blocks_only_put [simp]: "blocks_only (put_block bno b fs) fs" "blocks_only (apfs_transaction_join bno fs) fs"
  unfolding blocks_only_def put_block_def apfs_transaction_join_def
  by (intro exI [of _ "(d_block (fs_dev fs))(bno \<mapsto> b)"] exI [of _ "d_trans (fs_dev fs)"], simp)
    (intro exI [of _ "d_block (fs_dev fs)"] exI [of _ "(d_trans (fs_dev fs))(bno := True)"], simp)

lemma blocks_only_sel:
  assumes "blocks_only fs' fs"
  shows "fs_bs fs' = fs_bs fs" "fs_xid fs' = fs_xid fs" "d_eph_list (fs_dev fs') = d_eph_list (fs_dev fs)"
    "fs_sm fs' = fs_sm fs" "fs_omap fs' = fs_omap fs"
  using assms by (auto simp: blocks_only_def)

lemma blocks_only_set_eph:
  assumes "blocks_only fs' (fs_set_eph l fs)"
  shows "blocks_only (fs_set_eph l' fs') (fs_set_eph l' fs)"
proof -
  obtain blk tr where "fs' = (fs_set_eph l fs)\<lparr>fs_dev := (fs_dev (fs_set_eph l fs))\<lparr>d_block := blk, d_trans := tr\<rparr>\<rparr>"
    using assms by (auto simp: blocks_only_def)
  then show ?thesis unfolding blocks_only_def by (intro exI [of _ blk] exI [of _ tr]) (simp add: fs_set_eph_def)
qed

text \<open>The blocks that the loop over an object writes.\<close>

lemma write_eph_blocks_ring:
  assumes "area_ok base blks k0" "n \<le> blks" "fs_bs fs = int B" "length obj = m + n * B"
    and "\<And>j. j < n \<Longrightarrow> d_block (fs_dev fs) (ring base blks (k + j)) \<noteq> None"
  obtains fs' where "write_eph_blocks base blks (int (k mod blks)) obj (int m) n fs = Inr fs'" "blocks_only fs' fs"
    "\<forall>j < n. d_block (fs_dev fs') (ring base blks (k + j)) = Some (block_of B (drop m obj) j)"
    "\<forall>b. b \<notin> ring_set base blks k n \<longrightarrow> d_block (fs_dev fs') b = d_block (fs_dev fs) b"
    "\<forall>b. d_trans (fs_dev fs') b \<longleftrightarrow> d_trans (fs_dev fs) b \<or> b \<in> ring_set base blks k n"
  using assms(2-)
proof (induction n arbitrary: thesis fs k m)
  case 0
  show ?case by (rule 0(1) [of fs]) simp_all
next
  case (Suc n)
  let ?b = "ring base blks k"
  let ?fs = "put_block ?b (block_of B (drop m obj) 0) (apfs_transaction_join ?b fs)"
  have area: "0 < blks" "blks < 2 ^ 31" "base + blks \<le> 2 ^ 63" using assms(1) by (simp_all add: area_ok_def)
  have b: "of_nat base + of_int (int (k mod blks)) = ?b" by (simp add: ring_def)
  have get: "apfs_getblk fs ?b = Inr ()" using Suc.prems(5) [of 0] by (auto simp: apfs_getblk_def)
  have rd: "rd_bytes obj (int m) (int B) = Inr (block_of B (drop m obj) 0)"
    using Suc.prems(4) by (subst rd_bytes_Inr) (simp_all add: block_of_def)
  have dev: "d_block (fs_dev ?fs) = (d_block (fs_dev fs))(?b \<mapsto> block_of B (drop m obj) 0)"
      "d_trans (fs_dev ?fs) = (d_trans (fs_dev fs))(?b := True)" "fs_bs ?fs = int B"
    using Suc.prems(3) by (simp_all add: put_block_def apfs_transaction_join_def)
  obtain fs' where fs': "write_eph_blocks base blks (int (Suc k mod blks)) obj (int (m + B)) n ?fs = Inr fs'" "blocks_only fs' ?fs"
      "\<forall>j < n. d_block (fs_dev fs') (ring base blks (Suc k + j)) = Some (block_of B (drop (m + B) obj) j)"
      "\<forall>b. b \<notin> ring_set base blks (Suc k) n \<longrightarrow> d_block (fs_dev fs') b = d_block (fs_dev ?fs) b"
      "\<forall>b. d_trans (fs_dev fs') b \<longleftrightarrow> d_trans (fs_dev ?fs) b \<or> b \<in> ring_set base blks (Suc k) n"
  proof (rule Suc.IH)
    show "length obj = m + B + n * B" using Suc.prems(4) by simp
    show "d_block (fs_dev ?fs) (ring base blks (Suc k + j)) \<noteq> None" if "j < n" for j
      using Suc.prems(5) [of "Suc j"] that by (simp add: dev(1))
  qed (use Suc.prems(2) dev(3) in simp_all)
  have run: "write_eph_blocks base blks (int (k mod blks)) obj (int m) (Suc n) fs = Inr fs'"
    using fs'(1) get rd b ring_step [OF area(1,2), of k] Suc.prems(3) dev(3) by (simp add: Let_def add.commute)
  have not_in: "?b \<notin> ring_set base blks (Suc k) n"
  proof
    assume "?b \<in> ring_set base blks (Suc k) n"
    then obtain j where "j < n" "ring base blks (k + 0) = ring base blks (k + Suc j)" by (auto simp: ring_set_def)
    then show False using ring_inj [of blks base 0 "Suc j" k] area Suc.prems(2) by simp
  qed
  have set: "ring_set base blks k (Suc n) = insert ?b (ring_set base blks (Suc k) n)"
    using ring_set_add [of base blks k 1 n] by (simp add: ring_set_Suc)
  show ?case
  proof (rule Suc.prems(1) [OF run])
    show "blocks_only fs' fs" using fs'(2) blocks_only_trans blocks_only_put by blast
    show "\<forall>j < Suc n. d_block (fs_dev fs') (ring base blks (k + j)) = Some (block_of B (drop m obj) j)"
    proof (intro allI impI)
      fix j
      assume "j < Suc n"
      then show "d_block (fs_dev fs') (ring base blks (k + j)) = Some (block_of B (drop m obj) j)"
        using fs'(3,4) not_in by (cases j) (simp_all add: dev(1) block_of_Suc)
    qed
  qed (use fs'(4,5) set dev in auto)
qed

section \<open>Checkpoints on disk\<close>

text \<open>What holds of the ephemeral objects, and what a commit does to them.\<close>

definition info_ok :: "nat \<Rightarrow> ephemeral_object_info \<Rightarrow> bool" where
  "info_ok B info \<longleftrightarrow> (unat (eph_size info) = B \<or> unat (eph_size info) = 2 * B) \<and>
     length (eph_object info) = unat (eph_size info) \<and> rd64 (eph_object info) 8 = Inr (unat (eph_oid info))"

definition seal_eph :: "u64 \<Rightarrow> ephemeral_object_info \<Rightarrow> ephemeral_object_info" where
  "seal_eph xid info =
     (case bind_res (wr64 (eph_object info) 16 (uint xid)) (\<lambda>obj. apfs_multiblock_set_csum obj (int (unat (eph_size info)))) of
        Inl e \<Rightarrow> info
      | Inr obj \<Rightarrow> info\<lparr>eph_object := obj\<rparr>)"

lemma seal_eph_sel [simp]: "eph_oid (seal_eph xid info) = eph_oid info" "eph_size (seal_eph xid info) = eph_size info"
  by (simp_all add: seal_eph_def split: sum.split)

lemma multiblock_set_csum_frame:
  assumes "apfs_multiblock_set_csum obj osize = Inr obj'"
  shows "length obj' = length obj" "8 \<le> off \<Longrightarrow> rd_bytes obj' off len = rd_bytes obj off len"
  using assms by (auto simp: apfs_multiblock_set_csum_def bind_res_eq_Inr wr_le_length rd_bytes_wr_le_other)

lemma seal_eph_ok:
  assumes "info_ok B info" "32 \<le> B"
  shows "bind_res (wr64 (eph_object info) 16 (uint xid)) (\<lambda>obj. apfs_multiblock_set_csum obj (int (unat (eph_size info)))) =
      Inr (eph_object (seal_eph xid info))"
    "info_ok B (seal_eph xid info)"
    "apfs_multiblock_verify_csum (eph_object (seal_eph xid info)) (int (unat (eph_size info))) = Inr True"
proof -
  have len: "32 \<le> length (eph_object info)" using assms by (auto simp: info_ok_def)
  obtain o1 where o1: "wr64 (eph_object info) 16 (uint xid) = Inr o1" using wr_le_ok [of 16 8 "eph_object info"] len by auto
  have l1: "length o1 = unat (eph_size info)" using wr_le_length [OF o1] assms(1) by (simp add: info_ok_def)
  have "8 \<le> int (unat (eph_size info))" using l1 len wr_le_length [OF o1] by linarith
  then obtain o2 where o2: "apfs_multiblock_set_csum o1 (int (unat (eph_size info))) = Inr o2"
    using apfs_multiblock_csum_ok l1 by (metis order_refl)
  have seal: "seal_eph xid info = info\<lparr>eph_object := o2\<rparr>" using o1 o2 by (simp add: seal_eph_def)
  show "bind_res (wr64 (eph_object info) 16 (uint xid)) (\<lambda>obj. apfs_multiblock_set_csum obj (int (unat (eph_size info)))) =
      Inr (eph_object (seal_eph xid info))"
    using o1 o2 seal by simp
  have "rd_le 8 o2 8 = rd_le 8 o1 8" using multiblock_set_csum_frame(2) [OF o2] by (simp add: rd_le_def)
  also have "\<dots> = rd64 (eph_object info) 8" using o1 by (intro rd_le_wr_le_other) auto
  finally show "info_ok B (seal_eph xid info)"
    using assms(1) multiblock_set_csum_frame(1) [OF o2] l1 seal by (simp add: info_ok_def)
  show "apfs_multiblock_verify_csum (eph_object (seal_eph xid info)) (int (unat (eph_size info))) = Inr True"
    using apfs_multiblock_csum_roundtrip [OF o2] seal by simp
qed

text \<open>The number of blocks of a list of objects.\<close>

definition blkcnt :: "nat \<Rightarrow> ephemeral_object_info \<Rightarrow> nat" where
  "blkcnt B info = unat (eph_size info) div B"

definition eph_blocks :: "nat \<Rightarrow> ephemeral_object_info list \<Rightarrow> nat" where
  "eph_blocks B l = sum_list (map (blkcnt B) l)"

lemma blkcnt_ok: "info_ok B info \<Longrightarrow> 0 < B \<Longrightarrow> unat (eph_size info) = blkcnt B info * B \<and> length (eph_object info) = blkcnt B info * B"
  by (auto simp: info_ok_def blkcnt_def)

lemma blkcnt_seal [simp]: "blkcnt B (seal_eph xid info) = blkcnt B info"
  by (simp add: blkcnt_def)

lemma eph_blocks_append [simp]: "eph_blocks B (l @ l') = eph_blocks B l + eph_blocks B l'"
  by (simp add: eph_blocks_def)

lemma eph_blocks_seal [simp]: "eph_blocks B (map (seal_eph xid) l) = eph_blocks B l"
  by (simp add: eph_blocks_def comp_def)

lemma eph_blocks_simps [simp]: "eph_blocks B [] = 0" "eph_blocks B (x # l) = blkcnt B x + eph_blocks B l"
  by (simp_all add: eph_blocks_def)

text \<open>The objects in the data area, one after the other.\<close>

definition object_at :: "xp_areas \<Rightarrow> nat \<Rightarrow> (u64 \<Rightarrow> buffer option) \<Rightarrow> nat \<Rightarrow> ephemeral_object_info \<Rightarrow> bool" where
  "object_at xp B blk k info \<longleftrightarrow>
     (\<forall>j < blkcnt B info. blk (ring (xp_data_base xp) (xp_data_blks xp) (xp_data_index xp + k + j)) = Some (block_of B (eph_object info) j))"

fun objects_at :: "xp_areas \<Rightarrow> nat \<Rightarrow> (u64 \<Rightarrow> buffer option) \<Rightarrow> nat \<Rightarrow> ephemeral_object_info list \<Rightarrow> bool" where
  "objects_at xp B blk k [] \<longleftrightarrow> True"
| "objects_at xp B blk k (x # l) \<longleftrightarrow> object_at xp B blk k x \<and> objects_at xp B blk (k + blkcnt B x) l"

definition data_set :: "xp_areas \<Rightarrow> nat \<Rightarrow> u64 set" where
  "data_set xp n = ring_set (xp_data_base xp) (xp_data_blks xp) (xp_data_index xp) n"

lemma objects_at_append: "objects_at xp B blk k (l @ l') \<longleftrightarrow> objects_at xp B blk k l \<and> objects_at xp B blk (k + eph_blocks B l) l'"
  by (induction l arbitrary: k) (auto simp: add.assoc)

lemma objects_at_cong:
  assumes "objects_at xp B blk k l" "\<forall>b \<in> data_set xp (k + eph_blocks B l). blk' b = blk b"
  shows "objects_at xp B blk' k l"
  using assms
proof (induction l arbitrary: k)
  case (Cons x l)
  have "blk' (ring (xp_data_base xp) (xp_data_blks xp) (xp_data_index xp + k + j)) =
      blk (ring (xp_data_base xp) (xp_data_blks xp) (xp_data_index xp + k + j))" if "j < blkcnt B x" for j
    using Cons.prems(2) that unfolding data_set_def ring_set_def by (fastforce simp: add.assoc)
  then show ?case using Cons by (auto simp: object_at_def add.assoc)
qed simp

text \<open>The mappings of the objects, and the blocks that hold them.\<close>

definition entry :: "xp_areas \<Rightarrow> nat \<Rightarrow> ephemeral_object_info \<Rightarrow> nat \<times> nat \<times> nat" where
  "entry xp k info = (unat (eph_oid info), xp_data_base xp + (xp_data_index xp + k) mod xp_data_blks xp, unat (eph_size info))"

fun entries :: "xp_areas \<Rightarrow> nat \<Rightarrow> nat \<Rightarrow> ephemeral_object_info list \<Rightarrow> (nat \<times> nat \<times> nat) list" where
  "entries xp B k [] = []"
| "entries xp B k (x # l) = entry xp k x # entries xp B (k + blkcnt B x) l"

lemma entries_append: "entries xp B k (l @ l') = entries xp B k l @ entries xp B (k + eph_blocks B l) l'"
  by (induction l arbitrary: k) (auto simp: add.assoc)

lemma entries_seal [simp]: "entries xp B k (map (seal_eph xid) l) = entries xp B k l"
  by (induction l arbitrary: k) (auto simp: entry_def)

lemma length_entries [simp]: "length (entries xp B k l) = length l"
  by (induction l arbitrary: k) simp_all

definition cpm_holds :: "nat \<Rightarrow> buffer \<Rightarrow> (nat \<times> nat \<times> nat) list \<Rightarrow> bool" where
  "cpm_holds B cpm ms \<longleftrightarrow> length cpm = B \<and> rd32 cpm 36 = Inr (length ms) \<and> int (length ms) \<le> apfs_max_maps_per_block (int B) \<and>
     (\<forall>i < length ms. cpoint_map_at cpm i = Inr (ms ! i)) \<and> (rd32 cpm 32 = Inr 0 \<or> rd32 cpm 32 = Inr 1)"

definition desc_bno :: "xp_areas \<Rightarrow> nat \<Rightarrow> u64" where
  "desc_bno xp k = ring (xp_desc_base xp) (xp_desc_blks xp) (xp_desc_index xp + k)"

definition desc_set :: "xp_areas \<Rightarrow> nat \<Rightarrow> u64 set" where
  "desc_set xp n = ring_set (xp_desc_base xp) (xp_desc_blks xp) (xp_desc_index xp) n"

lemma desc_in_set [simp]: "k < n \<Longrightarrow> desc_bno xp k \<in> desc_set xp n"
  by (simp add: desc_bno_def desc_set_def ring_set_def)

lemma desc_set_Suc: "desc_set xp (Suc n) = insert (desc_bno xp n) (desc_set xp n)"
  by (simp add: desc_set_def desc_bno_def ring_set_Suc)

definition cpms_on :: "xp_areas \<Rightarrow> nat \<Rightarrow> (u64 \<Rightarrow> buffer option) \<Rightarrow> (nat \<times> nat \<times> nat) list list \<Rightarrow> bool" where
  "cpms_on xp B blk mss \<longleftrightarrow> (\<forall>k < length mss. \<exists>c. blk (desc_bno xp k) = Some c \<and> cpm_holds B c (mss ! k))"

lemma cpms_on_cong: "cpms_on xp B blk mss \<Longrightarrow> \<forall>b \<in> desc_set xp (length mss). blk' b = blk b \<Longrightarrow> cpms_on xp B blk' mss"
  by (simp add: cpms_on_def)

definition xp_ok :: "xp_areas \<Rightarrow> bool" where
  "xp_ok xp \<longleftrightarrow> area_ok (xp_desc_base xp) (xp_desc_blks xp) (xp_desc_index xp) \<and>
     area_ok (xp_data_base xp) (xp_data_blks xp) (xp_data_index xp) \<and>
     (xp_desc_base xp + xp_desc_blks xp \<le> xp_data_base xp \<or> xp_data_base xp + xp_data_blks xp \<le> xp_desc_base xp)"

lemma desc_bno_inj: "xp_ok xp \<Longrightarrow> i < xp_desc_blks xp \<Longrightarrow> j < xp_desc_blks xp \<Longrightarrow> desc_bno xp i = desc_bno xp j \<longleftrightarrow> i = j"
  using ring_inj [of "xp_desc_blks xp" "xp_desc_base xp" i j "xp_desc_index xp"] by (auto simp: xp_ok_def area_ok_def desc_bno_def)

lemma desc_not_in: "xp_ok xp \<Longrightarrow> n \<le> i \<Longrightarrow> i < xp_desc_blks xp \<Longrightarrow> desc_bno xp i \<notin> desc_set xp n"
  unfolding desc_bno_def desc_set_def using ring_not_in by (simp add: xp_ok_def)

lemma rings_disjoint:
  assumes "xp_ok xp" "b \<in> ring_set (xp_desc_base xp) (xp_desc_blks xp) i m"
  shows "b \<notin> ring_set (xp_data_base xp) (xp_data_blks xp) j n"
  using ring_set_bounds [of "xp_desc_base xp" "xp_desc_blks xp" "xp_desc_index xp" b i m]
    ring_set_bounds [of "xp_data_base xp" "xp_data_blks xp" "xp_data_index xp" b j n] assms
  by (auto simp: xp_ok_def)

lemma areas_disjoint: "xp_ok xp \<Longrightarrow> b \<in> desc_set xp m \<Longrightarrow> b \<notin> data_set xp n"
  unfolding desc_set_def data_set_def by (rule rings_disjoint)

lemma cpms_on_append:
  assumes "cpms_on xp B blk mss" "cpm_holds B c ms" "xp_ok xp" "length mss < xp_desc_blks xp"
  shows "cpms_on xp B (blk(desc_bno xp (length mss) \<mapsto> c)) (mss @ [ms])"
  using assms by (auto simp: cpms_on_def nth_append desc_bno_inj less_Suc_eq)

lemma cpms_on_last:
  assumes "cpms_on xp B blk (mss @ [ms])" "cpm_holds B c ms'" "xp_ok xp" "length mss < xp_desc_blks xp"
  shows "cpms_on xp B (blk(desc_bno xp (length mss) \<mapsto> c)) (mss @ [ms'])"
proof (rule cpms_on_append [OF _ assms(2-4)])
  show "cpms_on xp B blk mss"
    unfolding cpms_on_def
  proof (intro allI impI)
    fix k
    assume "k < length mss"
    then show "\<exists>c. blk (desc_bno xp k) = Some c \<and> cpm_holds B c (mss ! k)"
      using assms(1) [unfolded cpms_on_def, rule_format, of k] by (simp add: nth_append)
  qed
qed

end
