(* ===== verification/Volume.thy ===== *)
theory Volume
  imports Catalog Checkpoint
begin

text \<open>
  Volumes (\<open>super.c\<close>, and the mount of snapshots in \<open>snapshot.c\<close>): the volume superblock, found through the object map
  of the container, the object map of the volume and the root of its catalog, without write access for a mount and
  with write access for a transaction.

  The state of a mounted volume is the state of the container with the number of the volume, the options of the
  mount, and the superblock of the volume, whose buffer stays mapped.  The counters of the superblock that change
  all the time are fields of \<open>apfs_fs\<close>: they are loaded when the superblock is mapped, and \<open>vsb_sync\<close> puts them back
  into the block.
\<close>

section \<open>State\<close>

record apfs_vol =
  v_nx :: apfs_nx
  v_vol_nr :: nat
  v_snap_name :: "byte list option"
  v_rdonly :: bool
  v_vsb_bno :: u64
  v_vsb_raw :: buffer
  v_cat_root :: apfs_node

abbreviation v_fs :: "apfs_vol \<Rightarrow> apfs_fs" where "v_fs v \<equiv> nx_fs (v_nx v)"
abbreviation v_dev :: "apfs_vol \<Rightarrow> apfs_dev" where "v_dev v \<equiv> fs_dev (nx_fs (v_nx v))"
abbreviation v_bs :: "apfs_vol \<Rightarrow> int" where "v_bs v \<equiv> d_bs (fs_dev (nx_fs (v_nx v)))"

definition set_fs :: "apfs_fs \<Rightarrow> apfs_vol \<Rightarrow> apfs_vol" where
  "set_fs fs v = v\<lparr>v_nx := (v_nx v)\<lparr>nx_fs := fs\<rparr>\<rparr>"

definition set_nx_raw :: "buffer \<Rightarrow> apfs_vol \<Rightarrow> apfs_vol" where
  "set_nx_raw raw v = v\<lparr>v_nx := (v_nx v)\<lparr>nx_raw := raw\<rparr>\<rparr>"

abbreviation (input) APFS_NX_MAX_FILE_SYSTEMS :: nat where "APFS_NX_MAX_FILE_SYSTEMS \<equiv> 100"
abbreviation (input) APFS_MAGIC :: nat where "APFS_MAGIC \<equiv> 0x42535041"
abbreviation (input) APFS_SNAP_MAX_NAMELEN :: nat where "APFS_SNAP_MAX_NAMELEN \<equiv> 255"

section \<open>The volume superblock\<close>

definition apfs_is_normalization_insensitive :: "nat \<Rightarrow> bool" where
  "apfs_is_normalization_insensitive features \<longleftrightarrow> bit features 0 \<or> bit features 3"

text \<open>A superblock that is mapped: its features rule the keys of the catalog, and its counters are loaded.\<close>

definition use_vsb :: "u64 \<Rightarrow> buffer \<Rightarrow> apfs_vol \<Rightarrow> apfs_vol result" where
  "use_vsb bno raw v =
     bind_res (rd64 raw 56) (\<lambda>features.
     bind_res (rd64 raw 88) (\<lambda>alloc_count.
     bind_res (rd64 raw 176) (\<lambda>next_oid.
     bind_res (rd64 raw 224) (\<lambda>alloced.
     bind_res (rd64 raw 232) (\<lambda>freed.
     let dev = (v_dev v)\<lparr>d_hashed := apfs_is_normalization_insensitive features, d_sealed := bit features 5\<rparr>;
         fs = (v_fs v)\<lparr>fs_dev := dev, fs_next_oid := of_nat next_oid, fs_alloc_count := of_nat alloc_count,
                fs_blocks_alloced := of_nat alloced, fs_blocks_freed := of_nat freed\<rparr> in
     Inr ((set_fs fs v)\<lparr>v_vsb_bno := bno, v_vsb_raw := raw\<rparr>))))))"

definition apfs_map_volume_super_bno :: "u64 \<Rightarrow> bool \<Rightarrow> apfs_vol \<Rightarrow> apfs_vol result" where
  "apfs_map_volume_super_bno bno check v =
     (case d_block (v_dev v) bno of
        None \<Rightarrow> Inl EINVAL
      | Some raw \<Rightarrow>
          bind_res (rd32 raw 32) (\<lambda>magic.
          if magic \<noteq> APFS_MAGIC then Inl EINVAL
          else
            bind_res (if check then apfs_obj_verify_csum (v_bs v) (d_trans (v_dev v) bno) raw else Inr True) (\<lambda>ok.
            if \<not> ok then Inl EFSBADCRC else use_vsb bno raw v)))"

definition vsb_sync :: "apfs_vol \<Rightarrow> apfs_vol result" where
  "vsb_sync v =
     (let fs = v_fs v in
      bind_res (wr64 (v_vsb_raw v) 88 (uint (fs_alloc_count fs))) (\<lambda>raw.
      bind_res (wr64 raw 176 (uint (fs_next_oid fs))) (\<lambda>raw.
      bind_res (wr64 raw 224 (uint (fs_blocks_alloced fs))) (\<lambda>raw.
      bind_res (wr64 raw 232 (uint (fs_blocks_freed fs))) (\<lambda>raw.
      Inr ((set_fs (put_block (v_vsb_bno v) raw fs) v)\<lparr>v_vsb_raw := raw\<rparr>))))))"

text \<open>A new object map in memory, as \<open>apfs_alloc_omap\<close> makes it: all of its fields are zero.\<close>

definition apfs_alloc_omap :: "apfs_node \<Rightarrow> apfs_omap" where
  "apfs_alloc_omap root =
     \<lparr>omap_root = root, omap_cache = \<lparr>oc_recs = replicate 128 (0, 0), oc_disabled = False\<rparr>, omap_latest_snap = 0\<rparr>"

definition vol_id :: "apfs_vol \<Rightarrow> u64 result" where
  "vol_id v =
     (if v_vol_nr v \<ge> APFS_NX_MAX_FILE_SYSTEMS then Inl EINVAL
      else bind_res (rd64 (nx_raw (v_nx v)) (184 + 8 * int (v_vol_nr v))) (\<lambda>id.
        if id = 0 then Inl EINVAL else Inr (of_nat id)))"

text \<open>\<open>apfs_map_volume_super\<close> with \<open>write\<close> false.\<close>

definition apfs_map_volume_super :: "apfs_vol \<Rightarrow> apfs_vol result option" where
  "apfs_map_volume_super v =
     bindo (Some (vol_id v)) (\<lambda>id.
     bindo (Some (rd64 (nx_raw (v_nx v)) 160)) (\<lambda>omap_oid.
     bindo (Some (apfs_read_object_block (v_dev v) (of_nat omap_oid))) (\<lambda>msb_omap_raw.
     bindo (Some (rd64 msb_omap_raw 48)) (\<lambda>tree_oid.
     bindo (Some (phys_read (v_fs v) (of_nat tree_oid))) (\<lambda>vnode.
     case apfs_omap_lookup_block (v_dev v) (apfs_alloc_omap vnode) id of
       None \<Rightarrow> None
     | Some (r, _) \<Rightarrow>
         bindo (Some r) (\<lambda>vsb. Some (apfs_map_volume_super_bno vsb (v_snap_name v = None) v)))))))"

text \<open>
  \<open>apfs_map_volume_super\<close> with \<open>write\<close> true.  The object map of the container takes the place of that of the volume for
  the lookup.
\<close>

definition map_volume_super_write :: "apfs_vol \<Rightarrow> apfs_vol result option" where
  "map_volume_super_write v =
     bindo (Some (vol_id v)) (\<lambda>id.
     bindo (Some (rd64 (nx_raw (v_nx v)) 160)) (\<lambda>omap_oid.
     bindo (read_object_block_write (of_nat omap_oid) False (v_fs v)) (\<lambda>(bno, msb_omap_raw, fs).
     bindo (Some (wr64 (nx_raw (v_nx v)) 160 (uint bno))) (\<lambda>nx_raw.
     bindo (Some (rd64 msb_omap_raw 48)) (\<lambda>tree_oid.
     bindo (phys_read_write fs (of_nat tree_oid)) (\<lambda>(vnode, fs).
     bindo (Some (wr64 msb_omap_raw 48 (uint (nd_block_nr vnode)))) (\<lambda>msb_omap_raw.
     let omap = fs_omap fs; fs = (put_block bno msb_omap_raw fs)\<lparr>fs_omap := apfs_alloc_omap vnode\<rparr> in
     bindo (omap_lookup_write id (apfs_mounted_xid (fs_dev fs)) fs) (\<lambda>(vsb, fs).
     Some (apfs_map_volume_super_bno vsb False (set_nx_raw nx_raw (set_fs (fs\<lparr>fs_omap := omap\<rparr>) v)))))))))))"

section \<open>The object map of the volume and the catalog\<close>

definition set_omap :: "apfs_node \<Rightarrow> nat \<Rightarrow> apfs_fs \<Rightarrow> apfs_fs" where
  "set_omap root latest_snap fs = fs\<lparr>fs_omap := (fs_omap fs)\<lparr>omap_root := root, omap_latest_snap := of_nat latest_snap\<rparr>\<rparr>"

text \<open>\<open>apfs_read_omap\<close> and \<open>apfs_read_catalog\<close>, each with \<open>write\<close> false and with \<open>write\<close> true.\<close>

definition apfs_read_omap :: "apfs_vol \<Rightarrow> apfs_vol result" where
  "apfs_read_omap v =
     bind_res (rd64 (v_vsb_raw v) 128) (\<lambda>omap_blk.
     bind_res (apfs_read_object_block (v_dev v) (of_nat omap_blk)) (\<lambda>omap_raw.
     bind_res (rd64 omap_raw 48) (\<lambda>tree_oid.
     bind_res (phys_read (v_fs v) (of_nat tree_oid)) (\<lambda>omap_root.
     bind_res (rd64 omap_raw 64) (\<lambda>latest_snap.
     Inr (set_fs (set_omap omap_root latest_snap (v_fs v)) v))))))"

definition read_omap_write :: "apfs_vol \<Rightarrow> apfs_vol result option" where
  "read_omap_write v =
     bindo (Some (rd64 (v_vsb_raw v) 128)) (\<lambda>omap_blk.
     bindo (read_object_block_write (of_nat omap_blk) False (v_fs v)) (\<lambda>(bno, omap_raw, fs).
     bindo (Some (wr64 (v_vsb_raw v) 128 (uint bno))) (\<lambda>vsb_raw.
     let fs = put_block (v_vsb_bno v) vsb_raw fs in
     bindo (Some (rd64 omap_raw 48)) (\<lambda>tree_oid.
     bindo (phys_read_write fs (of_nat tree_oid)) (\<lambda>(omap_root, fs).
     bindo (Some (wr64 omap_raw 48 (uint (nd_block_nr omap_root)))) (\<lambda>omap_raw.
     bindo (Some (rd64 omap_raw 64)) (\<lambda>latest_snap.
     let fs = set_omap omap_root latest_snap (put_block bno omap_raw fs) in
     Some (Inr ((set_fs fs v)\<lparr>v_vsb_raw := vsb_raw\<rparr>)))))))))"

definition apfs_read_catalog :: "apfs_vol \<Rightarrow> apfs_vol result" where
  "apfs_read_catalog v =
     bind_res (rd64 (v_vsb_raw v) 136) (\<lambda>root_oid.
     bind_res (virt_read (v_fs v) (of_nat root_oid)) (\<lambda>root_node. Inr (v\<lparr>v_cat_root := root_node\<rparr>)))"

definition read_catalog_write :: "apfs_vol \<Rightarrow> apfs_vol result option" where
  "read_catalog_write v =
     bindo (Some (rd64 (v_vsb_raw v) 136)) (\<lambda>root_oid.
     bindo (virt_read_write (v_fs v) (of_nat root_oid)) (\<lambda>(root_node, fs).
     Some (Inr ((set_fs fs v)\<lparr>v_cat_root := root_node\<rparr>))))"

section \<open>Features\<close>

definition apfs_check_nx_features :: "bool \<Rightarrow> bool \<Rightarrow> buffer \<Rightarrow> bool result" where
  "apfs_check_nx_features tier2 rdonly msb_raw =
     bind_res (rd64 msb_raw 64) (\<lambda>incompat.
     if (of_nat incompat :: u64) AND NOT 0x102 \<noteq> 0 then Inl EINVAL
     else
       let fusion = bit incompat 8 in
       if fusion \<noteq> tier2 then Inl EINVAL
       else
         let rdonly = rdonly \<or> fusion in
         bind_res (rd64 msb_raw 56) (\<lambda>rocompat.
         if rocompat \<noteq> 0 \<and> \<not> rdonly then Inl EINVAL else Inr rdonly))"

definition apfs_check_vol_features :: "apfs_vol \<Rightarrow> unit result" where
  "apfs_check_vol_features v =
     bind_res (rd64 (v_vsb_raw v) 56) (\<lambda>incompat.
     if (of_nat incompat :: u64) AND NOT 0x1ff \<noteq> 0 then Inl EINVAL
     else if bit incompat 1 \<and> \<not> v_rdonly v then Inl EINVAL
     else if bit incompat 2 then Inl EINVAL
     else if bit incompat 4 then Inl EINVAL
     else if bit incompat 6 then Inl EINVAL
     else if bit incompat 8 then Inl EINVAL
     else if bit incompat 5 \<and> \<not> v_rdonly v then Inl EINVAL
     else
       bind_res (rd64 (v_vsb_raw v) 48) (\<lambda>rocompat.
       if rocompat \<noteq> 0 \<and> \<not> v_rdonly v then Inl EINVAL else Inr ()))"

section \<open>Snapshots\<close>

definition apfs_snap_xid_from_query :: "apfs_query \<Rightarrow> u64 result" where
  "apfs_snap_xid_from_query query =
     (if q_len query \<noteq> 8 then Inl EFSCORRUPTED
      else bind_res (rd64 (nd_data (q_node query)) (q_off query)) (\<lambda>xid. Inr (of_nat xid)))"

definition snap_query :: "apfs_fs \<Rightarrow> apfs_node \<Rightarrow> apfs_key \<Rightarrow> chain_result option" where
  "snap_query fs snap_root key =
     apfs_btree_query (fs_dev fs) (phys_read fs)
       [(apfs_alloc_query snap_root None)\<lparr>q_key := key, q_flags := APFS_QUERY_SNAP_META OR APFS_QUERY_EXACT\<rparr>]"

definition apfs_snapshot_name_to_xid :: "apfs_fs \<Rightarrow> apfs_node \<Rightarrow> byte list \<Rightarrow> u64 result option" where
  "apfs_snapshot_name_to_xid fs snap_root name =
     (case snap_query fs snap_root (apfs_init_snap_name_key (Some name)) of
        None \<Rightarrow> None
      | Some (Some e, c) \<Rightarrow> Some (Inl e)
      | Some (None, c) \<Rightarrow> Some (apfs_snap_xid_from_query (hd c)))"

definition apfs_snap_sblock_from_query :: "apfs_query \<Rightarrow> u64 result" where
  "apfs_snap_sblock_from_query query =
     (if q_len query < 50 then Inl EFSCORRUPTED
      else
        bind_res (rd32 (nd_data (q_node query)) (q_off query + 44)) (\<lambda>flags.
        if bit flags 0 then Inl EOPNOTSUPP
        else bind_res (rd64 (nd_data (q_node query)) (q_off query + 8)) (\<lambda>oid. Inr (of_nat oid))))"

definition apfs_snapshot_xid_to_sblock :: "apfs_fs \<Rightarrow> apfs_node \<Rightarrow> u64 \<Rightarrow> u64 result option" where
  "apfs_snapshot_xid_to_sblock fs snap_root xid =
     (case snap_query fs snap_root (apfs_init_snap_metadata_key xid) of
        None \<Rightarrow> None
      | Some (Some e, c) \<Rightarrow> Some (Inl e)
      | Some (None, c) \<Rightarrow> Some (apfs_snap_sblock_from_query (hd c)))"

definition apfs_switch_to_snapshot :: "byte list \<Rightarrow> apfs_vol \<Rightarrow> apfs_vol result option" where
  "apfs_switch_to_snapshot name v =
     (if length name > APFS_SNAP_MAX_NAMELEN then Some (Inl EINVAL)
      else
        bindo (Some (rd64 (v_vsb_raw v) 152)) (\<lambda>snap_oid.
        bindo (Some (phys_read (v_fs v) (of_nat snap_oid))) (\<lambda>snap_root.
        bindo (apfs_snapshot_name_to_xid (v_fs v) snap_root name) (\<lambda>xid.
        let v = set_fs ((v_fs v)\<lparr>fs_dev := (v_dev v)\<lparr>d_snap_xid := xid\<rparr>\<rparr>) v in
        bindo (apfs_snapshot_xid_to_sblock (v_fs v) snap_root xid) (\<lambda>sblock_oid.
        Some (apfs_map_volume_super_bno sblock_oid (d_check_nodes (v_dev v)) v))))))"

section \<open>The mount of a volume\<close>

text \<open>
  The part of \<open>apfs_fill_super\<close> that reads the disk, up to the inodes.  The object map in memory starts empty, as in
  \<open>apfs_first_read_omap\<close> for the first mount of a volume.
\<close>

definition mount_volume :: "apfs_vol \<Rightarrow> apfs_vol result option" where
  "mount_volume v =
     bindo (apfs_map_volume_super v) (\<lambda>v.
     bindo (Some (apfs_check_vol_features v)) (\<lambda>_.
     let fs = v_fs v; v = set_fs (fs\<lparr>fs_omap := apfs_alloc_omap (omap_root (fs_omap fs))\<rparr>) v in
     bindo (Some (apfs_read_omap v)) (\<lambda>v.
     bindo (case v_snap_name v of None \<Rightarrow> Some (Inr v) | Some name \<Rightarrow> apfs_switch_to_snapshot name v) (\<lambda>v.
     Some (apfs_read_catalog v)))))"

section \<open>Mounts of arbitrary images\<close>

text \<open>The container before the mount: a device with blocks of one size, and the superblock of a checkpoint.\<close>

definition nx_fits :: "int \<Rightarrow> apfs_vol \<Rightarrow> bool" where
  "nx_fits bs v \<longleftrightarrow> dev_fits (v_dev v) \<and> v_bs v = bs \<and> int (length (nx_raw (v_nx v))) = bs"

definition vsb_fits :: "int \<Rightarrow> apfs_vol \<Rightarrow> bool" where
  "vsb_fits bs v \<longleftrightarrow> nx_fits bs v \<and> int (length (v_vsb_raw v)) = bs"

definition omap_fits :: "int \<Rightarrow> apfs_vol \<Rightarrow> bool" where
  "omap_fits bs v \<longleftrightarrow> vsb_fits bs v \<and> node_fits bs (omap_root (fs_omap (v_fs v)))"

definition mounted :: "apfs_vol \<Rightarrow> apfs_sb_info result" where
  "mounted v =
     bind_res (rd64 (v_vsb_raw v) 1032) (\<lambda>fext.
     Inr \<lparr>s_fs = v_fs v, s_cat_root = v_cat_root v, s_fext_tree_oid = of_nat fext\<rparr>)"

lemmas keeps_rd64 = keeps_rd [where n = 8] and keeps_rd32 = keeps_rd [where n = 4]

lemma read_object_block_safe:
  assumes "dev_fits dev"
  shows "keeps (\<lambda>raw. int (length raw) = d_bs dev) (apfs_read_object_block dev bno)"
proof (cases "d_block dev bno")
  case (Some b)
  then have len: "int (length b) = d_bs dev" "8 \<le> d_bs dev" using assms by (auto simp: dev_fits_def)
  obtain ok where "apfs_obj_verify_csum (d_bs dev) (d_trans dev bno) b = Inr ok" using verify_csum_safe [OF len] by blast
  then show ?thesis using Some len by (simp add: apfs_read_object_block_def)
qed (simp add: apfs_read_object_block_def)

lemma phys_read_safe:
  assumes "dev_fits (fs_dev fs)"
  shows "keeps (node_fits (fs_bs fs)) (phys_read fs oid)"
proof -
  have "reader_fits (fs_bs fs) (phys_read fs)" unfolding phys_read_def by (rule read_node_fits [OF assms]) simp
  then show ?thesis by (auto simp: reader_fits_def keeps_def split: sum.splits)
qed

lemma map_super_bno_safe:
  assumes "nx_fits bs v" "1040 \<le> bs"
  shows "keeps (\<lambda>v'. vsb_fits bs v' \<and> fs_omap (v_fs v') = fs_omap (v_fs v)) (apfs_map_volume_super_bno bno check v)"
proof (cases "d_block (v_dev v) bno")
  case (Some raw)
  have len: "int (length raw) = bs" using assms(1) Some by (auto simp: nx_fits_def dev_fits_def)
  note rd = keeps_rd64 [of _ raw] keeps_rd32 [of _ raw]
  have csum: "keeps (\<lambda>_. True) (if check then apfs_obj_verify_csum (v_bs v) (d_trans (v_dev v) bno) raw else Inr True)"
    using verify_csum_safe [of raw bs "d_trans (v_dev v) bno"] assms len by (auto simp: nx_fits_def)
  have fits: "vsb_fits bs ((set_fs ((v_fs v)\<lparr>fs_dev := (v_dev v)\<lparr>d_hashed := h, d_sealed := s\<rparr>, fs_next_oid := a, fs_alloc_count := b,
                fs_blocks_alloced := c, fs_blocks_freed := d\<rparr>) v)\<lparr>v_vsb_bno := bno, v_vsb_raw := raw\<rparr>)" for h s a b c d
    using assms(1) len by (simp add: vsb_fits_def nx_fits_def dev_fits_def set_fs_def)
  have use: "keeps (\<lambda>v'. vsb_fits bs v' \<and> fs_omap (v_fs v') = fs_omap (v_fs v)) (use_vsb bno raw v)"
    unfolding use_vsb_def Let_def
    by (rule keeps_bind [OF rd(1)], use assms(2) len in simp, use assms(2) len in simp)+
      (use fits in \<open>simp add: set_fs_def\<close>)
  have "keeps (\<lambda>v'. vsb_fits bs v' \<and> fs_omap (v_fs v') = fs_omap (v_fs v))
      (bind_res (rd32 raw 32) (\<lambda>magic.
          if magic \<noteq> APFS_MAGIC then Inl EINVAL
          else
            bind_res (if check then apfs_obj_verify_csum (v_bs v) (d_trans (v_dev v) bno) raw else Inr True) (\<lambda>ok.
            if \<not> ok then Inl EFSBADCRC else use_vsb bno raw v)))"
  proof (rule keeps_bind [OF rd(2)])
    fix magic
    have "keeps (\<lambda>v'. vsb_fits bs v' \<and> fs_omap (v_fs v') = fs_omap (v_fs v))
       (bind_res (if check then apfs_obj_verify_csum (v_bs v) (d_trans (v_dev v) bno) raw else Inr True) (\<lambda>ok.
            if \<not> ok then Inl EFSBADCRC else use_vsb bno raw v))"
      by (rule keeps_bind [OF csum]) (use use in simp)
    then show "keeps (\<lambda>v'. vsb_fits bs v' \<and> fs_omap (v_fs v') = fs_omap (v_fs v)) (if magic \<noteq> APFS_MAGIC then Inl EINVAL
       else bind_res (if check then apfs_obj_verify_csum (v_bs v) (d_trans (v_dev v) bno) raw else Inr True) (\<lambda>ok.
            if \<not> ok then Inl EFSBADCRC else use_vsb bno raw v))" by simp
  qed (use assms(2) len in simp_all)
  then show ?thesis using Some by (simp add: apfs_map_volume_super_bno_def)
qed (simp add: apfs_map_volume_super_bno_def)

lemma omap_lookup_safe:
  assumes "dev_fits dev" "node_fits (d_bs dev) (omap_root omap)"
  obtains r omap' where "apfs_omap_lookup_block dev omap oid = Some (r, omap')" "r \<noteq> Inl UB"
proof -
  obtain q where q: "omap_query_block dev (omap_root omap) oid (apfs_mounted_xid dev) = Some q" "q \<noteq> Inl UB"
    using omap_query_block_total [OF assms] by blast
  have "\<exists>r omap'. apfs_omap_lookup_block dev omap oid = Some (r, omap') \<and> r \<noteq> Inl UB"
    using q by (cases "apfs_omap_cache_lookup (omap_cache omap) oid"; cases q)
      (simp_all add: apfs_omap_lookup_block_def apfs_omap_lookup_block_with_xid_def)
  then show thesis using that by blast
qed

lemma map_volume_super_safe:
  assumes "nx_fits bs v" "1040 \<le> bs"
  shows "keepso (vsb_fits bs) (apfs_map_volume_super v)"
  unfolding apfs_map_volume_super_def
proof (rule keepso_bind_some [of "\<lambda>_. True"], goal_cases)
  case 1
  show ?case
  proof (cases "v_vol_nr v < 100")
    case True
    then have "keeps (\<lambda>_. True) (rd64 (nx_raw (v_nx v)) (184 + 8 * int (v_vol_nr v)))"
      using assms by (intro keeps_rd64) (auto simp: nx_fits_def)
    then show ?thesis using True by (auto simp: vol_id_def keeps_def split: sum.splits)
  qed (simp add: vol_id_def)
next
  case (2 vid)
  have dev: "dev_fits (v_dev v)" "v_bs v = bs" using assms(1) by (simp_all add: nx_fits_def)
  show ?case
  proof (rule keepso_bind_some [OF keeps_rd64], goal_cases)
    case (3 omap_oid)
    show ?case
    proof (rule keepso_bind_some [OF read_object_block_safe [OF dev(1)]], rule keepso_bind_some [OF keeps_rd64], goal_cases)
      case (3 omap_raw tree_oid)
      show ?case
      proof (rule keepso_bind_some [OF phys_read_safe [OF dev(1)]], goal_cases)
        case (1 vnode)
        have "node_fits (d_bs (v_dev v)) (omap_root (apfs_alloc_omap vnode))" using 1(2) by (simp add: apfs_alloc_omap_def)
        then obtain r' omap' where r': "apfs_omap_lookup_block (v_dev v) (apfs_alloc_omap vnode) vid = Some (r', omap')" "r' \<noteq> Inl UB"
          by (rule omap_lookup_safe [OF dev(1)])
        have bno: "keeps (vsb_fits bs) (apfs_map_volume_super_bno vsb check v)" for vsb check
          using map_super_bno_safe [OF assms, of vsb check] by (auto simp: keeps_def split: sum.splits)
        have "keepso (vsb_fits bs) (bindo (Some r') (\<lambda>vsb. Some (apfs_map_volume_super_bno vsb (v_snap_name v = None) v)))"
          by (rule keepso_bind_some [of "\<lambda>_. True"]) (use r'(2) bno in \<open>auto simp: keeps_def split: sum.split\<close>)
        then show ?case using r'(1) by simp
      qed
    qed (use assms dev in auto)
  qed (use assms dev in \<open>auto simp: nx_fits_def\<close>)
qed

lemma read_omap_safe:
  assumes "vsb_fits bs v" "1040 \<le> bs"
  shows "keeps (\<lambda>v'. omap_fits bs v' \<and> v_snap_name v' = v_snap_name v) (apfs_read_omap v)"
proof -
  have dev: "dev_fits (v_dev v)" "v_bs v = bs" "int (length (v_vsb_raw v)) = bs" using assms(1) by (simp_all add: vsb_fits_def nx_fits_def)
  have fits: "omap_fits bs (set_fs (set_omap root snap (v_fs v)) v)" if "node_fits bs root" for root snap
    using that assms(1) by (simp add: omap_fits_def vsb_fits_def nx_fits_def set_fs_def set_omap_def)
  show ?thesis
    unfolding apfs_read_omap_def
  proof (rule keeps_bind [OF keeps_rd64], goal_cases)
    case (3 omap_blk)
    show ?case
    proof (rule keeps_bind [OF read_object_block_safe [OF dev(1)]], rule keeps_bind [OF keeps_rd64], goal_cases)
      case (3 omap_raw tree_oid)
      show ?case
        by (rule keeps_bind [OF phys_read_safe [OF dev(1)]], rule keeps_bind [OF keeps_rd64])
          (use 3 dev assms(2) fits in \<open>auto simp: set_fs_def\<close>)
    qed (use assms dev in auto)
  qed (use assms dev in auto)
qed

lemma snap_query_returns:
  assumes "dev_fits (fs_dev fs)" "node_fits (fs_bs fs) root"
  obtains e c where "snap_query fs root key = Some (e, c)" "e \<noteq> Some UB" "e = None \<longrightarrow> found_fits (fs_bs fs) (hd c)"
proof -
  have "reader_fits (d_bs (fs_dev fs)) (phys_read fs)" unfolding phys_read_def by (rule read_node_fits [OF assms(1)]) simp
  from query_returns [OF this assms(2), of "APFS_QUERY_SNAP_META OR APFS_QUERY_EXACT" key] show thesis
    using that unfolding snap_query_def by metis
qed

lemma snap_lookups_safe:
  assumes "dev_fits (fs_dev fs)" "node_fits (fs_bs fs) root"
  shows "keepso (\<lambda>_. True) (apfs_snapshot_name_to_xid fs root name)" "keepso (\<lambda>_. True) (apfs_snapshot_xid_to_sblock fs root xid)"
proof -
  show "keepso (\<lambda>_. True) (apfs_snapshot_name_to_xid fs root name)"
  proof (rule snap_query_returns [OF assms, of "apfs_init_snap_name_key (Some name)"])
    fix e c assume q: "snap_query fs root (apfs_init_snap_name_key (Some name)) = Some (e, c)" "e \<noteq> Some UB" "e = None \<longrightarrow> found_fits (fs_bs fs) (hd c)"
    then show ?thesis
      using found_fits_rd(1) [of "fs_bs fs" "hd c" 0 8]
      by (cases e) (auto simp: apfs_snapshot_name_to_xid_def apfs_snap_xid_from_query_def)
  qed
  show "keepso (\<lambda>_. True) (apfs_snapshot_xid_to_sblock fs root xid)"
  proof (rule snap_query_returns [OF assms, of "apfs_init_snap_metadata_key xid"])
    fix e c assume q: "snap_query fs root (apfs_init_snap_metadata_key xid) = Some (e, c)" "e \<noteq> Some UB" "e = None \<longrightarrow> found_fits (fs_bs fs) (hd c)"
    then show ?thesis
      using found_fits_rd(1) [of "fs_bs fs" "hd c" 44 4] found_fits_rd(1) [of "fs_bs fs" "hd c" 8 8]
      by (cases e) (auto simp: apfs_snapshot_xid_to_sblock_def apfs_snap_sblock_from_query_def)
  qed
qed

lemma switch_to_snapshot_safe:
  assumes "omap_fits bs v" "1040 \<le> bs"
  shows "keepso (omap_fits bs) (apfs_switch_to_snapshot name v)"
proof (cases "length name > 255")
  case False
  have dev: "dev_fits (v_dev v)" "v_bs v = bs" "int (length (v_vsb_raw v)) = bs" "nx_fits bs v"
    using assms(1) by (simp_all add: omap_fits_def vsb_fits_def nx_fits_def)
  have "keepso (omap_fits bs) (bindo (Some (rd64 (v_vsb_raw v) 152)) (\<lambda>snap_oid.
        bindo (Some (phys_read (v_fs v) (of_nat snap_oid))) (\<lambda>snap_root.
        bindo (apfs_snapshot_name_to_xid (v_fs v) snap_root name) (\<lambda>xid.
        let v = set_fs ((v_fs v)\<lparr>fs_dev := (v_dev v)\<lparr>d_snap_xid := xid\<rparr>\<rparr>) v in
        bindo (apfs_snapshot_xid_to_sblock (v_fs v) snap_root xid) (\<lambda>sblock_oid.
        Some (apfs_map_volume_super_bno sblock_oid (d_check_nodes (v_dev v)) v))))))"
  proof (rule keepso_bind_some [OF keeps_rd64], goal_cases)
    case (3 snap_oid)
    show ?case
    proof (rule keepso_bind_some [OF phys_read_safe [OF dev(1)]], rule keepso_bind [OF snap_lookups_safe(1) [OF dev(1)]], goal_cases)
      case (2 root xid)
      define w where "w = set_fs ((v_fs v)\<lparr>fs_dev := (v_dev v)\<lparr>d_snap_xid := xid\<rparr>\<rparr>) v"
      have w: "nx_fits bs w" "dev_fits (v_dev w)" "node_fits (v_bs w) root" "fs_omap (v_fs w) = fs_omap (v_fs v)"
        using dev 2(2) by (simp_all add: w_def nx_fits_def set_fs_def dev_fits_def)
      have "keepso (omap_fits bs) (bindo (apfs_snapshot_xid_to_sblock (v_fs w) root xid) (\<lambda>sblock_oid.
          Some (apfs_map_volume_super_bno sblock_oid (d_check_nodes (v_dev w)) w)))"
      proof (rule keepso_bind [OF snap_lookups_safe(2) [OF w(2,3)]])
        fix sblock_oid
        have "keeps (\<lambda>v'. vsb_fits bs v' \<and> fs_omap (v_fs v') = fs_omap (v_fs w)) (apfs_map_volume_super_bno sblock_oid (d_check_nodes (v_dev w)) w)"
          by (rule map_super_bno_safe [OF w(1) assms(2)])
        then show "keepso (omap_fits bs) (Some (apfs_map_volume_super_bno sblock_oid (d_check_nodes (v_dev w)) w))"
          using assms(1) w(4) by (auto simp: keeps_def omap_fits_def split: sum.splits)
      qed
      then show ?case unfolding w_def Let_def .
    qed
  qed (use assms(2) dev in auto)
  then show ?thesis using False by (simp add: apfs_switch_to_snapshot_def)
qed (simp add: apfs_switch_to_snapshot_def)

lemma read_catalog_safe:
  assumes "omap_fits bs v" "1040 \<le> bs"
  shows "keeps (\<lambda>v'. omap_fits bs v' \<and> node_fits bs (v_cat_root v')) (apfs_read_catalog v)"
proof -
  have dev: "dev_fits (v_dev v)" "v_bs v = bs" "int (length (v_vsb_raw v)) = bs" "node_fits (fs_bs (v_fs v)) (omap_root (fs_omap (v_fs v)))"
    using assms(1) by (simp_all add: omap_fits_def vsb_fits_def nx_fits_def)
  have rd: "reader_fits bs (virt_read (v_fs v))"
    unfolding virt_read_def using virt_lookup_safe [OF dev(1,4)] dev(2) read_node_fits [OF dev(1)] by metis
  have virt: "keeps (node_fits bs) (virt_read (v_fs v) oid)" for oid
    using rd by (auto simp: reader_fits_def keeps_def split: sum.splits)
  show ?thesis
    unfolding apfs_read_catalog_def
  proof (rule keeps_bind [OF keeps_rd64], goal_cases)
    case (3 root_oid)
    show ?case
      by (rule keeps_bind [OF virt]) (use assms(1) in \<open>simp add: omap_fits_def vsb_fits_def nx_fits_def\<close>)
  qed (use assms(2) dev in auto)
qed

lemma check_vol_features_safe:
  assumes "vsb_fits bs v" "1040 \<le> bs"
  shows "keeps (\<lambda>_. True) (apfs_check_vol_features v)"
proof -
  have "0 \<le> (56 :: int) \<and> 56 + int 8 \<le> int (length (v_vsb_raw v))" "48 + int 8 \<le> int (length (v_vsb_raw v))"
    using assms by (simp_all add: vsb_fits_def)
  then obtain a b where "rd64 (v_vsb_raw v) 56 = Inr a" "rd64 (v_vsb_raw v) 48 = Inr b" using rd_le_ok [of 56 8] rd_le_ok [of 48 8] by force
  then show ?thesis by (simp add: apfs_check_vol_features_def)
qed

lemma mount_volume_safe:
  assumes "nx_fits bs v" "1040 \<le> bs"
  shows "keepso (\<lambda>v'. omap_fits bs v' \<and> node_fits bs (v_cat_root v')) (mount_volume v)"
  unfolding mount_volume_def
proof (rule keepso_bind [OF map_volume_super_safe [OF assms]], rule keepso_bind_some [OF check_vol_features_safe [OF _ assms(2)]], assumption, goal_cases)
  case (1 v)
  let ?v = "set_fs ((v_fs v)\<lparr>fs_omap := apfs_alloc_omap (omap_root (fs_omap (v_fs v)))\<rparr>) v"
  have v: "vsb_fits bs ?v" using 1(2) by (simp add: vsb_fits_def nx_fits_def set_fs_def)
  show ?case
    unfolding Let_def
  proof (rule keepso_bind_some [OF read_omap_safe [OF v assms(2)]], goal_cases)
    case (1 w)
    have "keepso (omap_fits bs) (case v_snap_name w of None \<Rightarrow> Some (Inr w) | Some name \<Rightarrow> apfs_switch_to_snapshot name w)"
      using 1 switch_to_snapshot_safe [OF _ assms(2)] by (auto split: option.split)
    then show ?case by (rule keepso_bind) (use read_catalog_safe [OF _ assms(2)] in auto)
  qed
qed

section \<open>Properties\<close>

text \<open>
  (C33) A mount of a volume, or of a snapshot of it, returns on any image and accesses no memory outside of the
  blocks, if these are large enough for the superblocks.  A volume that is mounted has a catalog and an object map
  with nodes that fit into their blocks, which is what the reads of streams, attributes and names rely on.
\<close>

theorem mount_on_any_image:
  assumes "dev_fits (v_dev v)" "1040 \<le> v_bs v" "int (length (nx_raw (v_nx v))) = v_bs v"
  shows "\<exists>r. mount_volume v = Some r \<and> r \<noteq> Inl UB \<and>
    (\<forall>v'. r = Inr v' \<longrightarrow> (\<exists>sbi. mounted v' = Inr sbi \<and> vol_fits sbi))"
proof -
  have "keepso (\<lambda>v'. omap_fits (v_bs v) v' \<and> node_fits (v_bs v) (v_cat_root v')) (mount_volume v)"
    by (rule mount_volume_safe) (use assms in \<open>simp_all add: nx_fits_def\<close>)
  then obtain r where r: "mount_volume v = Some r" "r \<noteq> Inl UB" "\<And>v'. r = Inr v' \<Longrightarrow> omap_fits (v_bs v) v' \<and> node_fits (v_bs v) (v_cat_root v')"
    by (cases "mount_volume v") (auto simp: keeps_def split: sum.splits)
  have "\<exists>sbi. mounted v' = Inr sbi \<and> vol_fits sbi" if "r = Inr v'" for v'
  proof -
    have fits: "vsb_fits (v_bs v) v'" "node_fits (v_bs v) (omap_root (fs_omap (v_fs v')))" "node_fits (v_bs v) (v_cat_root v')"
      using r(3) [OF that] by (simp_all add: omap_fits_def)
    then have "int (length (v_vsb_raw v')) = v_bs v" "dev_fits (v_dev v')" "v_bs v' = v_bs v" by (simp_all add: vsb_fits_def nx_fits_def)
    moreover from this obtain fext where "rd64 (v_vsb_raw v') 1032 = Inr fext" using rd_le_ok [of 1032 8 "v_vsb_raw v'"] assms(2) by auto
    ultimately show ?thesis using fits by (simp add: mounted_def vol_fits_def)
  qed
  with r(1,2) show ?thesis by blast
qed

definition empty_vol :: "buffer \<Rightarrow> apfs_vol" where
  "empty_vol b = \<lparr>v_nx = \<lparr>nx_fs = sample_fs\<lparr>fs_dev := sample_dev\<lparr>d_bs := 4096, d_block := \<lambda>_. Some b\<rparr>\<rparr>, nx_raw = b, nx_bno = 1, nx_csum = \<lambda>_. False\<rparr>,
     v_vol_nr = 0, v_snap_name = None, v_rdonly = True, v_vsb_bno = 0, v_vsb_raw = [], v_cat_root = sample_node\<rparr>"

theorem mount_on_any_image_witness:
  "\<exists>r. mount_volume (empty_vol (replicate 4096 7)) = Some r \<and> r \<noteq> Inl UB \<and>
    (\<forall>v'. r = Inr v' \<longrightarrow> (\<exists>sbi. mounted v' = Inr sbi \<and> vol_fits sbi))"
  by (rule mount_on_any_image) (simp_all add: empty_vol_def dev_fits_def sample_dev_def)

end
