(* ===== verification/Transaction.thy ===== *)
theory Transaction
  imports Volume
begin

text \<open>
  Transactions (\<open>transaction.c\<close>).  An operation that changes the file system takes the lock of the container with
  \<open>apfs_transaction_start\<close> and releases it with \<open>apfs_transaction_commit\<close> or \<open>apfs_transaction_abort\<close>.  Several operations
  join in one transaction, and a commit writes all of their changes.  The commit may be left to a worker, which
  runs later.  While a commit flushes the inodes, it releases the lock for a moment for each of them.

  The container has one mounted volume.  The number of the transaction, which the source keeps in \<open>nx_xid\<close>, is the
  field \<open>x_xid\<close>; the operations on blocks get a copy of it.  The list of the buffers of the transaction is the predicate
  \<open>d_trans\<close> on blocks, and the contents of the disk are apart from those of the buffers.  After an error, the volume is
  the one before the operation that failed: an abort makes it read-only, and its buffers are never written.
\<close>

section \<open>State\<close>

datatype apfs_trans_kind = APFS_TRANS_REG | APFS_TRANS_DEL | APFS_TRANS_SYNC

text \<open>The bits of \<open>t_state\<close>.\<close>

abbreviation (input) TRANS_FORCE_COMMIT :: nat where "TRANS_FORCE_COMMIT \<equiv> 0"
abbreviation (input) TRANS_DEFER_COMMIT :: nat where "TRANS_DEFER_COMMIT \<equiv> 1"
abbreviation (input) TRANS_COMMITTING :: nat where "TRANS_COMMITTING \<equiv> 2"
abbreviation (input) TRANS_INCOMPLETE_BLOCK :: nat where "TRANS_INCOMPLETE_BLOCK \<equiv> 3"

record apfs_nx_transaction =
  t_state :: u32
  t_work_sb :: bool
  t_inodes :: "u64 list"
  t_starts_count :: int

record apfs_tx =
  x_vol :: apfs_vol
  x_xid :: u64
  x_rdonly :: bool
  x_trans :: apfs_nx_transaction
  x_buffers_max :: int
  x_eph_read :: bool
  x_sm_read :: bool
  x_disk :: "u64 \<Rightarrow> buffer option"

definition set_trans :: "(apfs_nx_transaction \<Rightarrow> apfs_nx_transaction) \<Rightarrow> apfs_tx \<Rightarrow> apfs_tx" where
  "set_trans f x = x\<lparr>x_trans := f (x_trans x)\<rparr>"

definition or_state :: "nat \<Rightarrow> apfs_tx \<Rightarrow> apfs_tx" where
  "or_state n = set_trans (\<lambda>t. t\<lparr>t_state := set_bit n (t_state t)\<rparr>)"

text \<open>The volume with the number of the current transaction.\<close>

definition cur_vol :: "apfs_tx \<Rightarrow> apfs_vol" where
  "cur_vol x = set_fs ((v_fs (x_vol x))\<lparr>fs_dev := (v_dev (x_vol x))\<lparr>d_nx_xid := x_xid x\<rparr>\<rparr>) (x_vol x)"

definition apfs_transaction_init :: apfs_nx_transaction where
  "apfs_transaction_init = \<lparr>t_state = 0, t_work_sb = False, t_inodes = [], t_starts_count = 0\<rparr>"

section \<open>Decisions\<close>

definition apfs_transaction_has_room :: "apfs_trans_kind \<Rightarrow> apfs_tx \<Rightarrow> bool" where
  "apfs_transaction_has_room kind x =
     (let max_blks = (case kind of
        APFS_TRANS_REG \<Rightarrow> 128 | APFS_TRANS_DEL \<Rightarrow> 20
      | APFS_TRANS_SYNC \<Rightarrow> if t_starts_count (x_trans x) = 0 then 6 else 0)
      in max_blks \<le> sm_free_count (fs_sm (v_fs (x_vol x))))"

definition t_buffers_count :: "apfs_tx \<Rightarrow> u64" where
  "t_buffers_count x = of_nat (card {bno. d_trans (v_dev (x_vol x)) bno})"

text \<open>The limits for a transaction, from the raw space manager.\<close>

definition trans_too_large :: "apfs_tx \<Rightarrow> bool result" where
  "trans_too_large x =
     (let sm = fs_sm (v_fs (x_vol x)); trans = x_trans x; incomplete = bit (t_state trans) TRANS_INCOMPLETE_BLOCK;
          buffers_max = x_buffers_max x + (if incomplete then 50 else 0);
          starts_max = 65536 + (if incomplete then 50 else 0);
          mq_max = 10000 + (if incomplete then 20 else 0) in
      if t_buffers_count x > of_int buffers_max then Inr True
      else if t_starts_count trans > starts_max then Inr True
      else
        bind_res (rd64 (sm_raw sm) (fq_off APFS_SFQ_IP)) (\<lambda>ip_count.
        bind_res (rd64 (sm_raw sm) 152) (\<lambda>ip_blocks.
        if (of_nat ip_count * 3 :: u64) > of_nat ip_blocks then Inr True
        else
          bind_res (rd64 (sm_raw sm) (fq_off APFS_SFQ_MAIN)) (\<lambda>main_count.
          if main_count > mq_max then Inr True
          else
            bind_res (rd16 (sm_raw sm) (fq_off APFS_SFQ_MAIN + 24)) (\<lambda>node_limit.
            let maxnodes = (node_limit + 1) div 2 in
            Inr (sm_main_fq_nodes sm > 1 \<and> sm_main_fq_nodes sm \<ge> of_nat maxnodes))))))"

definition apfs_transaction_need_commit :: "apfs_tx \<Rightarrow> (bool \<times> apfs_nx_transaction) result" where
  "apfs_transaction_need_commit x =
     (let trans = x_trans x in
      if bit (t_state trans) TRANS_DEFER_COMMIT then Inr (False, trans\<lparr>t_state := unset_bit TRANS_DEFER_COMMIT (t_state trans)\<rparr>)
      else if bit (t_state trans) TRANS_COMMITTING then Inr (False, trans)
      else if bit (t_state trans) TRANS_FORCE_COMMIT then Inr (True, trans\<lparr>t_state := 0\<rparr>)
      else if x_sm_read x then bind_res (trans_too_large x) (\<lambda>large. Inr (large, trans))
      else Inr (False, trans))"

section \<open>The abort of a transaction\<close>

definition apfs_force_readonly :: "apfs_tx \<Rightarrow> apfs_tx" where
  "apfs_force_readonly x = x\<lparr>x_rdonly := True\<rparr>"

text \<open>The buffers of the transaction, once they are written or given up.\<close>

definition drop_buffers :: "apfs_vol \<Rightarrow> apfs_vol" where
  "drop_buffers v =
     (let fs = v_fs v; dev = (fs_dev fs)\<lparr>d_trans := \<lambda>_. False\<rparr> in
      v\<lparr>v_nx := (v_nx v)\<lparr>nx_fs := fs\<lparr>fs_dev := dev\<rparr>, nx_csum := \<lambda>_. False\<rparr>\<rparr>)"

definition apfs_transaction_abort :: "apfs_tx \<Rightarrow> apfs_tx" where
  "apfs_transaction_abort x =
     (if x_rdonly x then x
      else
        let x = set_trans (\<lambda>t. t\<lparr>t_state := 0\<rparr>) x; x = x\<lparr>x_xid := x_xid x - 1, x_vol := drop_buffers (x_vol x)\<rparr> in
        set_trans (\<lambda>t. t\<lparr>t_inodes := []\<rparr>) (apfs_force_readonly x))"

section \<open>The start of a transaction\<close>

text \<open>
  The start succeeds with the lock held, it fails with the lock released, or it finds no room and goes on to the
  commit of the transaction, after which it fails with \<open>ENOSPC\<close>.
\<close>

datatype start_result = Started | Start_failed errno | Start_commit

text \<open>
  The ephemeral objects are read once; the list of them stays in memory.  If they cannot be read,
  \<open>apfs_read_ephemeral_objects\<close> makes the container read-only, which the start does below.
\<close>

definition start_read_eph :: "apfs_tx \<Rightarrow> apfs_tx result" where
  "start_read_eph x =
     (if x_eph_read x then Inr x
      else
        let v = cur_vol x; dev = v_dev v in
        bind_res (apfs_read_ephemeral_objects (d_bs dev) (d_block dev) (d_trans dev) (nx_raw (v_nx v))) (\<lambda>l.
        Inr (x\<lparr>x_vol := set_fs (fs_set_eph l (v_fs v)) v, x_eph_read := True\<rparr>)))"

text \<open>The first start of a transaction takes a new number and reads the space manager.\<close>

definition start_new_xid :: "apfs_tx \<Rightarrow> apfs_tx" where
  "start_new_xid x =
     (let xid = x_xid x + 1; v = x_vol x in
      x\<lparr>x_xid := xid,
        x_vol := (case wr64 (nx_raw (v_nx v)) 96 (uint (xid + 1)) of Inl e \<Rightarrow> v | Inr raw \<Rightarrow> set_nx_raw raw v)\<rparr>)"

definition start_read_sm :: "apfs_tx \<Rightarrow> apfs_tx result option" where
  "start_read_sm x =
     (let v = cur_vol x in
      bindo (Some (rd64 (nx_raw (v_nx v)) 152)) (\<lambda>sm_oid.
      bindo (apfs_read_spaceman (of_nat sm_oid) (x_sm_read x) (v_fs v)) (\<lambda>fs.
      Some (Inr (x\<lparr>x_vol := set_fs fs v, x_sm_read := True\<rparr>)))))"

text \<open>The copies of the volume superblock, of the object map and of the root of the catalog.\<close>

definition start_map_volume :: "apfs_tx \<Rightarrow> apfs_tx result option" where
  "start_map_volume x =
     bindo (map_volume_super_write (cur_vol x)) (\<lambda>v.
     bindo (read_omap_write v) (\<lambda>v.
     bindo (read_catalog_write v) (\<lambda>v.
     Some (Inr (x\<lparr>x_vol := v\<rparr>)))))"

definition start_failed :: "errno \<Rightarrow> apfs_tx \<Rightarrow> start_result \<times> apfs_tx" where
  "start_failed e x = (Start_failed e, apfs_transaction_abort x)"

definition apfs_transaction_start :: "apfs_trans_kind \<Rightarrow> apfs_tx \<Rightarrow> (start_result \<times> apfs_tx) option" where
  "apfs_transaction_start kind x =
     (if x_rdonly x then Some (Start_failed EROFS, x)
      else case start_read_eph x of
        Inl e \<Rightarrow> Some (Start_failed e, apfs_force_readonly x)
      | Inr x \<Rightarrow>
          let first = (t_starts_count (x_trans x) = 0); x = (if first then start_new_xid x else x) in
          (case (if first then start_read_sm x else Some (Inr x)) of
             None \<Rightarrow> None
           | Some (Inl e) \<Rightarrow> Some (start_failed e x)
           | Some (Inr x) \<Rightarrow>
               if \<not> apfs_transaction_has_room kind x then Some (Start_commit, or_state TRANS_FORCE_COMMIT x)
               else
                 (case (if first then start_map_volume x else Some (Inr x)) of
                    None \<Rightarrow> None
                  | Some (Inl e) \<Rightarrow> Some (start_failed e x)
                  | Some (Inr x) \<Rightarrow> Some (Started, set_trans (\<lambda>t. t\<lparr>t_starts_count := t_starts_count t + 1\<rparr>) x))))"

section \<open>The commit of a transaction\<close>

definition apfs_inode_join_transaction :: "u64 \<Rightarrow> apfs_tx \<Rightarrow> apfs_tx" where
  "apfs_inode_join_transaction ino x =
     (if ino \<in> set (t_inodes (x_trans x)) then x else set_trans (\<lambda>t. t\<lparr>t_inodes := ino # t_inodes t\<rparr>) x)"

text \<open>
  What becomes of the writes of a commit: which of the buffers reach the disk if some of them fail, whether the
  superblock does, and the error that the block layer reports for the superblock.
\<close>

record trans_io =
  io_wrote :: "u64 \<Rightarrow> bool"
  io_ok :: bool
  io_super :: bool
  io_err :: "errno option"

text \<open>The copy of the space manager to or from its ephemeral object, once it was read.\<close>

definition sm_sync :: "(u64 \<Rightarrow> apfs_fs \<Rightarrow> apfs_fs) \<Rightarrow> apfs_tx \<Rightarrow> apfs_nx \<Rightarrow> apfs_nx" where
  "sm_sync copy x nx =
     (case rd64 (nx_raw nx) 152 of
        Inl e \<Rightarrow> nx
      | Inr sm_oid \<Rightarrow> if x_sm_read x then nx\<lparr>nx_fs := copy (of_nat sm_oid) (nx_fs nx)\<rparr> else nx)"

text \<open>The part of \<open>apfs_transaction_commit_nx\<close> before the writes, from the flush of the cache of the free queues on.\<close>

definition commit_prepare :: "apfs_tx \<Rightarrow> apfs_tx result option" where
  "commit_prepare x =
     (let v = cur_vol x; fs = v_fs v; base = sm_free_cache_base (fs_sm fs) in
      bindo (if base \<noteq> 0
             then bindo (apfs_free_queue_insert_nocache base (sm_free_cache_blkcnt (fs_sm fs)) fs) (\<lambda>fs. Some (Inr (set_free_cache 0 0 fs)))
             else Some (Inr fs)) (\<lambda>fs.
      bindo (Some (apfs_write_ip_bitmaps fs)) (\<lambda>fs.
      bindo (Some (vsb_sync (set_fs fs v))) (\<lambda>v.
      bindo (apfs_write_ephemeral_objects (sm_sync sm_store x (v_nx v))) (\<lambda>nx.
      Some (Inr (x\<lparr>x_vol := v\<lparr>v_nx := sm_sync sm_load x nx\<rparr>\<rparr>)))))))"

text \<open>The buffers of the cache after the commit has set their checksums.\<close>

definition seal_buffers :: "apfs_vol \<Rightarrow> apfs_vol" where
  "seal_buffers v =
     (let fs = v_fs v; dev = (fs_dev fs)\<lparr>d_block := d_block (fs_dev fs) ++ commit_buffers (v_nx v)\<rparr> in set_fs (fs\<lparr>fs_dev := dev\<rparr>) v)"

definition write_buffers :: "trans_io \<Rightarrow> apfs_tx \<Rightarrow> u64 \<Rightarrow> buffer option" where
  "write_buffers io x b =
     (if io_ok io \<or> io_wrote io b then (x_disk x ++ commit_buffers (v_nx (x_vol x))) b else x_disk x b)"

text \<open>\<open>apfs_checkpoint_end\<close>: the error, whether the superblock reaches the disk, and the new state.\<close>

definition apfs_checkpoint_end :: "trans_io \<Rightarrow> apfs_tx \<Rightarrow> errno option \<times> bool \<times> apfs_tx" where
  "apfs_checkpoint_end io x =
     (let nx = v_nx (x_vol x) in
      case checkpoint_super nx of
        Inl e \<Rightarrow> (Some e, False, x)
      | Inr sb \<Rightarrow>
          let on_disk = io_super io \<or> io_err io = None;
              x = x\<lparr>x_vol := set_nx_raw sb (x_vol x), x_disk := if on_disk then (x_disk x)(nx_bno nx \<mapsto> sb) else x_disk x\<rparr> in
          (io_err io, on_disk, x))"

definition commit_write :: "trans_io \<Rightarrow> apfs_tx \<Rightarrow> (errno option \<times> bool \<times> apfs_tx) option" where
  "commit_write io x =
     (case commit_prepare x of
        None \<Rightarrow> None
      | Some (Inl e) \<Rightarrow> Some (Some e, False, x)
      | Some (Inr x) \<Rightarrow>
          let x = x\<lparr>x_disk := write_buffers io x\<rparr> in
          if \<not> io_ok io then Some (Some EIO, False, x)
          else
            let x = x\<lparr>x_vol := drop_buffers (seal_buffers (x_vol x))\<rparr> in
            (case apfs_checkpoint_end io x of
               (Some e, on_disk, x) \<Rightarrow> Some (Some e, on_disk, x)
             | (None, on_disk, x) \<Rightarrow> Some (None, on_disk, set_trans (\<lambda>t. t\<lparr>t_starts_count := 0\<rparr>) x)))"

end
