(* ===== verification/TransSteps.thy ===== *)
theory TransSteps
  imports Transaction
begin

text \<open>
  The interleavings of transactions.  Each thread is at one of the points of \<open>tpc\<close>: outside of the file system, in
  an operation or a commit with the lock held, in the flush of the inodes, or in the gap of a flush in which the lock
  is released; the worker of the queued commits reads \<open>t_work_sb\<close> before it takes the lock.  The log of the
  machine is the list of the numbers of the checkpoints on disk.

  What an operation does to the volume is left open, so that the steps cover all operations of the driver.  With
  \<open>careful\<close> the machine has fewer interleavings, not other code: the worker does not take the lock with a value of
  \<open>t_work_sb\<close> that has changed since it was read, and no snapshot flushes the inodes in the gap of another flush.
\<close>

section \<open>Steps\<close>

datatype flush_for = For_commit | For_snapshot

datatype tpc = Idle | In_op | Commit_now | Flushing flush_for "errno option" | Evicting flush_for "errno option" | Work bool

record trans_sys =
  s_tx :: apfs_tx
  s_lock :: "nat option"
  s_pc :: "nat \<Rightarrow> tpc"
  s_log :: "u64 list"

definition enter :: "nat \<Rightarrow> tpc \<Rightarrow> apfs_tx \<Rightarrow> trans_sys \<Rightarrow> trans_sys" where
  "enter t p x s = s\<lparr>s_tx := x, s_lock := Some t, s_pc := (s_pc s)(t := p)\<rparr>"

definition leave :: "nat \<Rightarrow> tpc \<Rightarrow> apfs_tx \<Rightarrow> trans_sys \<Rightarrow> trans_sys" where
  "leave t p x s = s\<lparr>s_tx := x, s_lock := None, s_pc := (s_pc s)(t := p)\<rparr>"

fun evicting :: "tpc \<Rightarrow> bool" where
  "evicting (Evicting c err) = True" | "evicting _ = False"

fun flushing :: "tpc \<Rightarrow> bool" where
  "flushing (Flushing c err) = True" | "flushing _ = False"

fun holds :: "tpc \<Rightarrow> bool" where
  "holds In_op = True" | "holds Commit_now = True" | "holds (Flushing c err) = True" | "holds _ = False"

text \<open>
  The changes of an operation.  It may change the volume, set the bits of the state that ask for a commit or against
  one, and add inodes; the number of the transaction, the disk and the bit for a commit in progress are not its own.
\<close>

definition op_change :: "apfs_tx \<Rightarrow> apfs_tx \<Rightarrow> bool" where
  "op_change x x' \<longleftrightarrow> x_xid x' = x_xid x \<and> x_rdonly x' = x_rdonly x \<and> x_disk x' = x_disk x \<and>
     t_work_sb (x_trans x') = t_work_sb (x_trans x) \<and> t_starts_count (x_trans x') = t_starts_count (x_trans x) \<and>
     bit (t_state (x_trans x')) TRANS_COMMITTING = bit (t_state (x_trans x)) TRANS_COMMITTING"

text \<open>The update of an inode by a flush: the list of the inodes and the bits of the state stay as they are.\<close>

definition inode_change :: "apfs_tx \<Rightarrow> apfs_tx \<Rightarrow> bool" where
  "inode_change x x' \<longleftrightarrow> op_change x x' \<and> t_inodes (x_trans x') = t_inodes (x_trans x) \<and> t_state (x_trans x') = t_state (x_trans x)"

inductive trans_step :: "bool \<Rightarrow> trans_sys \<Rightarrow> trans_sys \<Rightarrow> bool" for careful where
  start_ok: "s_pc s t = Idle \<Longrightarrow> s_lock s = None \<Longrightarrow> apfs_transaction_start kind (s_tx s) = Some (Started, x) \<Longrightarrow>
     trans_step careful s (enter t In_op x s)"
| start_full: "s_pc s t = Idle \<Longrightarrow> s_lock s = None \<Longrightarrow> apfs_transaction_start kind (s_tx s) = Some (Start_commit, x) \<Longrightarrow>
     trans_step careful s (enter t Commit_now x s)"
| start_error: "s_pc s t = Idle \<Longrightarrow> s_lock s = None \<Longrightarrow> apfs_transaction_start kind (s_tx s) = Some (Start_failed e, x) \<Longrightarrow>
     trans_step careful s (s\<lparr>s_tx := x\<rparr>)"
| op_work: "s_pc s t = In_op \<Longrightarrow> op_change (s_tx s) x \<Longrightarrow> trans_step careful s (s\<lparr>s_tx := x\<rparr>)"
| op_error: "s_pc s t = In_op \<Longrightarrow> trans_step careful s (leave t Idle (apfs_transaction_abort (s_tx s)) s)"
| op_done: "s_pc s t = In_op \<Longrightarrow> trans_step careful s (s\<lparr>s_pc := (s_pc s)(t := Commit_now)\<rparr>)"
| commit_later: "s_pc s t = Commit_now \<Longrightarrow> apfs_transaction_need_commit (s_tx s) = Inr (False, tr) \<Longrightarrow>
     trans_step careful s (leave t Idle ((s_tx s)\<lparr>x_trans := tr\<lparr>t_work_sb := True\<rparr>\<rparr>) s)"
| commit_begin: "s_pc s t = Commit_now \<Longrightarrow> apfs_transaction_need_commit (s_tx s) = Inr (True, tr) \<Longrightarrow>
     trans_step careful s (enter t (Flushing For_commit None) ((s_tx s)\<lparr>x_trans := tr\<rparr>) s)"
| snapshot_flush: "s_pc s t = In_op \<Longrightarrow> (careful \<Longrightarrow> \<forall>u. \<not> evicting (s_pc s u)) \<Longrightarrow>
     trans_step careful s (s\<lparr>s_pc := (s_pc s)(t := Flushing For_snapshot None)\<rparr>)"
| flush_inode: "s_pc s t = Flushing c err \<Longrightarrow> t_inodes (x_trans (s_tx s)) = i # is \<Longrightarrow> inode_change (s_tx s) x \<Longrightarrow>
     err' = err \<or> err' = Some e \<Longrightarrow>
     trans_step careful s (leave t (Evicting c err') (or_state TRANS_COMMITTING (set_trans (\<lambda>tr. tr\<lparr>t_inodes := is\<rparr>) x)) s)"
| evicted: "s_pc s t = Evicting c err \<Longrightarrow> s_lock s = None \<Longrightarrow> \<not> x_rdonly (s_tx s) \<Longrightarrow>
     trans_step careful s (enter t (Flushing c err) (set_trans (\<lambda>tr. tr\<lparr>t_state := 0\<rparr>) (s_tx s)) s)"
| evicted_rdonly: "s_pc s t = Evicting c err \<Longrightarrow> s_lock s = None \<Longrightarrow> x_rdonly (s_tx s) \<Longrightarrow>
     trans_step careful s (leave t Idle (apfs_transaction_abort (set_trans (\<lambda>tr. tr\<lparr>t_state := 0\<rparr>) (s_tx s))) s)"
| flush_error: "s_pc s t = Flushing c (Some e) \<Longrightarrow> t_inodes (x_trans (s_tx s)) = [] \<Longrightarrow>
     trans_step careful s (leave t Idle (apfs_transaction_abort (s_tx s)) s)"
| snapshot_flushed: "s_pc s t = Flushing For_snapshot None \<Longrightarrow> t_inodes (x_trans (s_tx s)) = [] \<Longrightarrow>
     trans_step careful s (s\<lparr>s_pc := (s_pc s)(t := In_op)\<rparr>)"
| commit_ok: "s_pc s t = Flushing For_commit None \<Longrightarrow> t_inodes (x_trans (s_tx s)) = [] \<Longrightarrow>
     commit_write io (s_tx s) = Some (None, True, x) \<Longrightarrow>
     trans_step careful s ((leave t Idle (set_trans (\<lambda>tr. tr\<lparr>t_work_sb := False\<rparr>) x) s)\<lparr>s_log := s_log s @ [x_xid (s_tx s)]\<rparr>)"
| commit_error: "s_pc s t = Flushing For_commit None \<Longrightarrow> t_inodes (x_trans (s_tx s)) = [] \<Longrightarrow>
     commit_write io (s_tx s) = Some (Some e, on_disk, x) \<Longrightarrow>
     trans_step careful s ((leave t Idle (apfs_transaction_abort x) s)\<lparr>s_log := s_log s @ (if on_disk then [x_xid (s_tx s)] else [])\<rparr>)"
| work_read: "s_pc s t = Idle \<Longrightarrow> trans_step careful s (s\<lparr>s_pc := (s_pc s)(t := Work (t_work_sb (x_trans (s_tx s))))\<rparr>)"
| work_skip: "s_pc s t = Work b \<Longrightarrow> s_lock s = None \<Longrightarrow> \<not> b \<or> x_rdonly (s_tx s) \<Longrightarrow>
     trans_step careful s (s\<lparr>s_pc := (s_pc s)(t := Idle)\<rparr>)"
| work_lock: "s_pc s t = Work True \<Longrightarrow> s_lock s = None \<Longrightarrow> \<not> x_rdonly (s_tx s) \<Longrightarrow>
     (careful \<Longrightarrow> t_work_sb (x_trans (s_tx s))) \<Longrightarrow>
     trans_step careful s (enter t Commit_now (or_state TRANS_FORCE_COMMIT (s_tx s)) s)"

definition trans_init :: "trans_sys \<Rightarrow> bool" where
  "trans_init s \<longleftrightarrow> x_trans (s_tx s) = apfs_transaction_init \<and> s_lock s = None \<and> (\<forall>t. s_pc s t = Idle) \<and> s_log s = [x_xid (s_tx s)]"

abbreviation trans_reach :: "bool \<Rightarrow> trans_sys \<Rightarrow> trans_sys \<Rightarrow> bool" where
  "trans_reach careful \<equiv> (trans_step careful)\<^sup>*\<^sup>*"

section \<open>What the parts of a transaction change\<close>

lemma set_trans_sel [simp]:
  "x_vol (set_trans f x) = x_vol x" "x_xid (set_trans f x) = x_xid x" "x_rdonly (set_trans f x) = x_rdonly x"
  "x_trans (set_trans f x) = f (x_trans x)" "x_disk (set_trans f x) = x_disk x" "x_eph_read (set_trans f x) = x_eph_read x"
  "x_sm_read (set_trans f x) = x_sm_read x" "x_buffers_max (set_trans f x) = x_buffers_max x"
  by (simp_all add: set_trans_def)

lemma abort_sel [simp]:
  "x_rdonly (apfs_transaction_abort x)" "x_disk (apfs_transaction_abort x) = x_disk x"
  by (simp_all add: apfs_transaction_abort_def Let_def apfs_force_readonly_def)

lemma start_read_eph_sel: "start_read_eph x = Inr x' \<Longrightarrow> x_xid x' = x_xid x \<and> x_rdonly x' = x_rdonly x \<and> x_trans x' = x_trans x \<and> x_disk x' = x_disk x"
  by (auto simp: start_read_eph_def Let_def bind_res_eq_Inr split: if_splits)

lemma bindo_eq_Inr: "bindo m f = Some (Inr y) \<longleftrightarrow> (\<exists>x. m = Some (Inr x) \<and> f x = Some (Inr y))"
  by (auto simp: bindo_def split: option.splits sum.splits)

lemma start_read_sm_sel: "start_read_sm x = Some (Inr x') \<Longrightarrow> x_xid x' = x_xid x \<and> x_rdonly x' = x_rdonly x \<and> x_trans x' = x_trans x \<and> x_disk x' = x_disk x"
  by (auto simp: start_read_sm_def Let_def bindo_eq_Inr)

lemma start_map_volume_sel: "start_map_volume x = Some (Inr x') \<Longrightarrow> x_xid x' = x_xid x \<and> x_rdonly x' = x_rdonly x \<and> x_trans x' = x_trans x \<and> x_disk x' = x_disk x"
  by (auto simp: start_map_volume_def bindo_eq_Inr)

lemma start_new_xid_sel [simp]:
  "x_xid (start_new_xid x) = x_xid x + 1" "x_rdonly (start_new_xid x) = x_rdonly x" "x_trans (start_new_xid x) = x_trans x"
  "x_disk (start_new_xid x) = x_disk x"
  by (simp_all add: start_new_xid_def Let_def)

text \<open>The three ends of a start.\<close>

definition start_post :: "apfs_tx \<Rightarrow> start_result \<Rightarrow> apfs_tx \<Rightarrow> bool" where
  "start_post x r x' \<longleftrightarrow> x_disk x' = x_disk x \<and>
     (case r of
        Start_failed e \<Rightarrow> x' = x \<or> x_rdonly x'
      | Started \<Rightarrow> \<not> x_rdonly x \<and> \<not> x_rdonly x' \<and> x_xid x' = x_xid x + (if t_starts_count (x_trans x) = 0 then 1 else 0) \<and>
          x_trans x' = (x_trans x)\<lparr>t_starts_count := t_starts_count (x_trans x) + 1\<rparr>
      | Start_commit \<Rightarrow> \<not> x_rdonly x \<and> \<not> x_rdonly x' \<and> x_xid x' = x_xid x + (if t_starts_count (x_trans x) = 0 then 1 else 0) \<and>
          x_trans x' = (x_trans x)\<lparr>t_state := set_bit TRANS_FORCE_COMMIT (t_state (x_trans x))\<rparr>)"

lemma start_result: "apfs_transaction_start kind x = Some (r, x') \<Longrightarrow> start_post x r x'"
  unfolding apfs_transaction_start_def
  by (auto simp: Let_def start_post_def start_failed_def or_state_def apfs_force_readonly_def
      split: if_splits sum.splits option.splits
      dest!: start_read_eph_sel start_read_sm_sel start_map_volume_sel)

lemma commit_prepare_sel: "commit_prepare x = Some (Inr x') \<Longrightarrow> x_xid x' = x_xid x \<and> x_rdonly x' = x_rdonly x \<and> x_trans x' = x_trans x \<and> x_disk x' = x_disk x"
  unfolding commit_prepare_def Let_def bindo_eq_Inr by force

lemma checkpoint_end_sel:
  "apfs_checkpoint_end io x = (e, on_disk, x') \<Longrightarrow> x_xid x' = x_xid x \<and> x_rdonly x' = x_rdonly x \<and> x_trans x' = x_trans x \<and> (e = None \<longrightarrow> on_disk)"
  by (auto simp: apfs_checkpoint_end_def Let_def split: sum.splits)

lemma commit_write_result:
  assumes "commit_write io x = Some (e, on_disk, x')"
  shows "x_xid x' = x_xid x \<and> x_rdonly x' = x_rdonly x \<and>
    (e = None \<longrightarrow> on_disk \<and> x_trans x' = (x_trans x)\<lparr>t_starts_count := 0\<rparr>)"
  using assms unfolding commit_write_def Let_def
  by (auto split: option.splits sum.splits if_splits prod.splits dest!: commit_prepare_sel checkpoint_end_sel)

lemma need_commit_result:
  assumes "apfs_transaction_need_commit x = Inr (b, tr)"
  shows "t_work_sb tr = t_work_sb (x_trans x) \<and> t_inodes tr = t_inodes (x_trans x) \<and> t_starts_count tr = t_starts_count (x_trans x) \<and> \<not> bit (t_state tr) 1 \<and>
    (b \<longrightarrow> \<not> bit (t_state (x_trans x)) 1 \<and> \<not> bit (t_state (x_trans x)) 2 \<and> \<not> bit (t_state tr) 2) \<and>
    (\<not> b \<longrightarrow> bit (t_state tr) 2 = bit (t_state (x_trans x)) 2 \<and>
      (bit (t_state (x_trans x)) 0 \<longrightarrow> bit (t_state (x_trans x)) 1 \<or> bit (t_state (x_trans x)) 2))"
  using assms unfolding apfs_transaction_need_commit_def Let_def
  by (auto simp: bind_res_eq_Inr bit_unset_bit_iff split: if_splits)

end
