(* ===== verification/TransInv.thy ===== *)
theory TransInv
  imports TransSteps
begin

section \<open>The lock\<close>

definition lock_inv :: "trans_sys \<Rightarrow> bool" where
  "lock_inv s \<longleftrightarrow> (\<forall>t. holds (s_pc s t) \<longleftrightarrow> s_lock s = Some t) \<and> (x_rdonly (s_tx s) \<longrightarrow> s_lock s = None)"

lemmas step_defs = enter_def leave_def or_state_def

lemma op_change_sel:
  "op_change x x' \<Longrightarrow> x_xid x' = x_xid x" "op_change x x' \<Longrightarrow> x_rdonly x' = x_rdonly x" "op_change x x' \<Longrightarrow> x_disk x' = x_disk x"
  "inode_change x x' \<Longrightarrow> op_change x x'"
  by (simp_all add: op_change_def inode_change_def)

lemma holds_lock: "lock_inv s \<Longrightarrow> holds (s_pc s t) \<Longrightarrow> s_lock s = Some t \<and> \<not> x_rdonly (s_tx s) \<and> (\<forall>u. holds (s_pc s u) \<longrightarrow> u = t)"
  by (auto simp: lock_inv_def)

text \<open>The ways in which a step changes the lock.\<close>

lemma lock_move: "lock_inv s \<Longrightarrow> holds (s_pc s t) = holds p \<Longrightarrow> lock_inv (s\<lparr>s_pc := (s_pc s)(t := p)\<rparr>)"
  by (simp add: lock_inv_def)

lemma lock_tx: "lock_inv s \<Longrightarrow> (x_rdonly x \<longrightarrow> s_lock s = None) \<Longrightarrow> lock_inv (s\<lparr>s_tx := x\<rparr>)"
  by (simp add: lock_inv_def)

lemma lock_log: "lock_inv (s\<lparr>s_log := l\<rparr>) \<longleftrightarrow> lock_inv s"
  by (simp add: lock_inv_def)

lemma lock_enter: "lock_inv s \<Longrightarrow> s_lock s = None \<Longrightarrow> holds p \<Longrightarrow> \<not> x_rdonly x \<Longrightarrow> lock_inv (enter t p x s)"
  by (auto simp: lock_inv_def enter_def)

lemma lock_keep: "lock_inv s \<Longrightarrow> holds (s_pc s t) \<Longrightarrow> holds p \<Longrightarrow> \<not> x_rdonly x \<Longrightarrow> lock_inv (enter t p x s)"
  by (auto simp: lock_inv_def enter_def)

lemma lock_leave: "lock_inv s \<Longrightarrow> holds (s_pc s t) \<or> s_lock s = None \<Longrightarrow> \<not> holds p \<Longrightarrow> lock_inv (leave t p x s)"
  by (auto simp: lock_inv_def leave_def)

lemma lock_inv_step: "trans_step careful s s' \<Longrightarrow> lock_inv s \<Longrightarrow> lock_inv s'"
proof (induction rule: trans_step.induct)
  case (start_ok s t kind x)
  then show ?case using start_result [OF start_ok(3)] by (intro lock_enter) (simp_all add: start_post_def)
next
  case (start_full s t kind x)
  then show ?case using start_result [OF start_full(3)] by (intro lock_enter) (simp_all add: start_post_def)
next
  case (op_work s t x)
  then show ?case using op_change_sel(2) [OF op_work(2)] holds_lock [of s t] by (intro lock_tx) simp_all
next
  case (commit_begin s t tr)
  then show ?case using holds_lock [of s t] by (intro lock_keep) simp_all
qed (auto intro!: lock_tx lock_move lock_leave lock_enter simp: lock_log or_state_def)

section \<open>The numbers of the transactions\<close>

fun busy :: "tpc \<Rightarrow> bool" where
  "busy (Flushing c err) = True" | "busy (Evicting c err) = True" | "busy _ = False"

definition log_ok :: "u64 list \<Rightarrow> bool" where
  "log_ok l \<longleftrightarrow> l \<noteq> [] \<and> (\<forall>i. Suc i < length l \<longrightarrow> l ! Suc i = l ! i + 1)"

lemma log_ok_append: "log_ok l \<Longrightarrow> x = last l + 1 \<Longrightarrow> log_ok (l @ [x])"
proof -
  assume l: "log_ok l" "x = last l + 1"
  have "last l = l ! i" if "Suc i = length l" for i using that last_conv_nth [of l] by (metis Suc_length_conv diff_Suc_1 list.distinct(1))
  with l show ?thesis by (auto simp: log_ok_def nth_append less_Suc_eq)
qed

lemma evicting_other: "evicting (f u) \<Longrightarrow> \<not> evicting (f t) \<Longrightarrow> \<exists>u. u \<noteq> t \<and> (u \<noteq> t \<longrightarrow> evicting (f u))"
  by (rule exI [of _ u]) auto

text \<open>
  The invariant of a container that is writable.  No commit is deferred while it is made; the bit for a
  commit in progress is set exactly in the gap of a flush, and there is at most one flush; and each transaction
  that is open has one number more than the last checkpoint.
\<close>

definition live_inv :: "trans_sys \<Rightarrow> bool" where
  "live_inv s \<longleftrightarrow> (let tr = x_trans (s_tx s); n = t_starts_count tr in
     0 \<le> n \<and>
     (bit (t_state tr) 1 \<longrightarrow> (n = 0 \<longrightarrow> s_lock s \<noteq> None) \<and> (\<forall>t e. s_pc s t \<noteq> Flushing For_commit e)) \<and>
     (bit (t_state tr) 2 \<longleftrightarrow> (\<exists>t. evicting (s_pc s t))) \<and>
     (\<forall>t u. busy (s_pc s t) \<and> busy (s_pc s u) \<longrightarrow> t = u) \<and>
     (n = 0 \<longrightarrow> t_inodes tr = [] \<and> \<not> t_work_sb tr \<and> (\<forall>t. s_pc s t \<noteq> In_op \<and> \<not> evicting (s_pc s t) \<and> (\<forall>e. s_pc s t \<noteq> Flushing For_snapshot e)) \<and>
       ((\<exists>t. s_pc s t = Commit_now) \<longrightarrow> bit (t_state tr) 0 \<and> \<not> bit (t_state tr) 1)) \<and>
     x_xid (s_tx s) = last (s_log s) + (if n > 0 \<or> s_lock s \<noteq> None then 1 else 0))"

definition trans_inv :: "trans_sys \<Rightarrow> bool" where
  "trans_inv s \<longleftrightarrow> lock_inv s \<and> log_ok (s_log s) \<and> (\<not> x_rdonly (s_tx s) \<longrightarrow> live_inv s)"

lemma trans_invI: "lock_inv s \<Longrightarrow> log_ok (s_log s) \<Longrightarrow> (\<not> x_rdonly (s_tx s) \<Longrightarrow> live_inv s) \<Longrightarrow> trans_inv s"
  by (simp add: trans_inv_def)

lemma live_invD:
  assumes "live_inv s"
  shows "0 \<le> t_starts_count (x_trans (s_tx s))"
    "bit (t_state (x_trans (s_tx s))) 1 \<Longrightarrow> (t_starts_count (x_trans (s_tx s)) = 0 \<longrightarrow> s_lock s \<noteq> None) \<and> s_pc s t \<noteq> Flushing For_commit e"
    "bit (t_state (x_trans (s_tx s))) 2 \<longleftrightarrow> (\<exists>t. evicting (s_pc s t))"
    "busy (s_pc s t) \<Longrightarrow> busy (s_pc s u) \<Longrightarrow> t = u"
    "t_starts_count (x_trans (s_tx s)) = 0 \<Longrightarrow> t_inodes (x_trans (s_tx s)) = [] \<and> \<not> t_work_sb (x_trans (s_tx s)) \<and>
       s_pc s t \<noteq> In_op \<and> \<not> evicting (s_pc s t) \<and> s_pc s t \<noteq> Flushing For_snapshot e"
    "t_starts_count (x_trans (s_tx s)) = 0 \<Longrightarrow> s_pc s t = Commit_now \<Longrightarrow> bit (t_state (x_trans (s_tx s))) 0 \<and> \<not> bit (t_state (x_trans (s_tx s))) 1"
    "x_xid (s_tx s) = last (s_log s) + (if t_starts_count (x_trans (s_tx s)) > 0 \<or> s_lock s \<noteq> None then 1 else 0)"
  using assms unfolding live_inv_def Let_def by blast+

lemma no_busy:
  assumes "lock_inv s" "holds (s_pc s t)" "\<not> busy (s_pc s t)" "\<forall>u. \<not> evicting (s_pc s u)"
  shows "\<not> busy (s_pc s u)"
proof
  assume u: "busy (s_pc s u)"
  then have "holds (s_pc s u)" using assms(4) by (cases "s_pc s u") (auto, metis evicting.simps(1))
  then have "u = t" using holds_lock [OF assms(1,2)] by blast
  then show False using u assms(3) by simp
qed

lemma others_free: "lock_inv s \<Longrightarrow> holds (s_pc s t) \<Longrightarrow> u \<noteq> t \<Longrightarrow> \<not> holds (s_pc s u)"
  using holds_lock by blast

lemma trans_inv_step: "trans_step True s s' \<Longrightarrow> trans_inv s \<Longrightarrow> trans_inv s'"
proof (rule trans_invI)
  assume "trans_step True s s'" "trans_inv s"
  then show "lock_inv s'" using lock_inv_step by (simp add: trans_inv_def)
next
  assume "trans_step True s s'" "trans_inv s"
  then show "log_ok (s_log s')"
  proof (induction rule: trans_step.induct)
    case (commit_ok s t io x)
    then have "s_lock s = Some t" "\<not> x_rdonly (s_tx s)" using holds_lock [of s t] by (simp_all add: trans_inv_def)
    then show ?case using commit_ok live_invD(7) [of s] by (auto simp: trans_inv_def step_defs intro!: log_ok_append)
  next
    case (commit_error s t io e on_disk x)
    then have "s_lock s = Some t" "\<not> x_rdonly (s_tx s)" using holds_lock [of s t] by (simp_all add: trans_inv_def)
    then show ?case using commit_error live_invD(7) [of s] by (auto simp: trans_inv_def step_defs intro!: log_ok_append)
  qed (auto simp: trans_inv_def step_defs)
next
  assume "trans_step True s s'" "trans_inv s" "\<not> x_rdonly (s_tx s')"
  then show "live_inv s'"
  proof (induction rule: trans_step.induct)
    case (start_ok s t kind x)
    have p: "\<not> x_rdonly (s_tx s)" "x_xid x = x_xid (s_tx s) + (if t_starts_count (x_trans (s_tx s)) = 0 then 1 else 0)"
        "x_trans x = (x_trans (s_tx s))\<lparr>t_starts_count := t_starts_count (x_trans (s_tx s)) + 1\<rparr>"
      using start_result [OF start_ok(3)] by (simp_all add: start_post_def)
    have "live_inv s" using start_ok p(1) by (simp add: trans_inv_def)
    note I = live_invD [OF this]
    show ?case unfolding live_inv_def Let_def step_defs using start_ok(1,2) p I(1-4,7)
      by (auto split: if_splits intro!: evicting_other)
  next
    case (start_full s t kind x)
    have p: "\<not> x_rdonly (s_tx s)" "x_xid x = x_xid (s_tx s) + (if t_starts_count (x_trans (s_tx s)) = 0 then 1 else 0)"
        "x_trans x = (x_trans (s_tx s))\<lparr>t_state := set_bit 0 (t_state (x_trans (s_tx s)))\<rparr>"
      using start_result [OF start_full(3)] by (simp_all add: start_post_def)
    have "live_inv s" using start_full p(1) by (simp add: trans_inv_def)
    note I = live_invD [OF this]
    show ?case unfolding live_inv_def Let_def step_defs using start_full(1,2) p I(1-5,7)
      by (auto simp: bit_set_bit_iff split: if_splits intro!: evicting_other)
  next
    case (start_error s t kind e x)
    have "x = s_tx s \<or> x_rdonly x" using start_result [OF start_error(3)] by (simp add: start_post_def)
    then show ?case using start_error by (auto simp: trans_inv_def)
  next
    case (op_work s t x)
    have "live_inv s" using op_work op_change_sel by (simp add: trans_inv_def)
    note I = live_invD [OF this]
    have free: "s_pc s u \<noteq> Flushing c e" for u c e
      using others_free [of s t u] op_work(1,3) by (cases "u = t") (auto simp: trans_inv_def)
    show ?case unfolding live_inv_def Let_def using op_work(1,2) I(1,3-7) free by (auto simp: op_change_def)
  next
    case (op_done s t)
    have "live_inv s" using op_done by (simp add: trans_inv_def)
    note I = live_invD [OF this]
    show ?case unfolding live_inv_def Let_def using op_done(1) I by (auto split: if_splits intro!: evicting_other)
  next
    case (commit_later s t tr)
    have "live_inv s" using commit_later by (simp add: trans_inv_def step_defs)
    note I = live_invD [OF this]
    note r = need_commit_result [OF commit_later(2)]
    have "t_starts_count (x_trans (s_tx s)) \<noteq> 0" using I(3,5) I(6) [of t] commit_later(1) r by auto
    then show ?case unfolding live_inv_def Let_def step_defs using commit_later(1) I(1,3-5,7) r by (auto split: if_splits intro!: evicting_other)
  next
    case (commit_begin s t tr)
    have "live_inv s" "lock_inv s" "s_lock s = Some t" using commit_begin holds_lock [of s t] by (simp_all add: trans_inv_def step_defs)
    note I = live_invD [OF this(1)]
    note r = need_commit_result [OF commit_begin(2)]
    have ev: "\<not> evicting (s_pc s u)" for u using I(3) r by auto
    then have nobody: "\<not> busy (s_pc s u)" for u using no_busy [OF \<open>lock_inv s\<close>, of t] commit_begin(1) by simp
    have free: "s_pc s u \<noteq> Commit_now \<and> s_pc s u \<noteq> In_op" if "u \<noteq> t" for u
      using others_free [OF \<open>lock_inv s\<close> _ that] commit_begin(1) by (metis holds.simps(1,2))
    show ?case unfolding live_inv_def Let_def step_defs using \<open>s_lock s = Some t\<close> commit_begin(1) I(1,5,7) r ev nobody free by auto
  next
    case (snapshot_flush s t)
    have "live_inv s" "lock_inv s" using snapshot_flush by (simp_all add: trans_inv_def)
    note I = live_invD [OF this(1)]
    have nobody: "\<not> busy (s_pc s u)" for u using no_busy [OF \<open>lock_inv s\<close>, of t] snapshot_flush(1,2) by simp
    show ?case unfolding live_inv_def Let_def using snapshot_flush(1,2) I(1-3,5,7) nobody by auto
  next
    case (flush_inode s t c err i "is" x err' e)
    have "live_inv s" using flush_inode op_change_sel(2) [OF op_change_sel(4) [OF flush_inode(3)]] by (simp add: trans_inv_def step_defs)
    note I = live_invD [OF this]
    show ?case unfolding live_inv_def Let_def step_defs using flush_inode(1,2,3) I by (auto simp: inode_change_def op_change_def bit_set_bit_iff)
  next
    case (evicted s t c err)
    have "live_inv s" using evicted by (simp add: trans_inv_def)
    note I = live_invD [OF this]
    have alone: "\<not> evicting (s_pc s u)" if "u \<noteq> t" for u using I(4) [of u t] evicted(1) that by (cases "s_pc s u") auto
    have "t_starts_count (x_trans (s_tx s)) \<noteq> 0" using I(5) [of t] evicted(1) by auto
    then show ?case unfolding live_inv_def Let_def step_defs using evicted(1,2) I(1,4,7) alone by auto
  next
    case (snapshot_flushed s t)
    have "live_inv s" using snapshot_flushed by (simp add: trans_inv_def)
    note I = live_invD [OF this]
    show ?case unfolding live_inv_def Let_def using snapshot_flushed(1,2) I by (auto intro!: evicting_other)
  next
    case (commit_ok s t io x)
    note r = commit_write_result [OF commit_ok(3)]
    have "live_inv s" "lock_inv s" "s_lock s = Some t" using commit_ok r holds_lock [of s t] by (simp_all add: trans_inv_def step_defs)
    note I = live_invD [OF this(1)]
    have ev: "\<not> evicting (s_pc s u)" for u using I(4) [of u t] commit_ok(1) by (cases "s_pc s u") auto
    have free: "\<not> holds (s_pc s u)" if "u \<noteq> t" for u using others_free [OF \<open>lock_inv s\<close> _ that] commit_ok(1) by simp
    then have free: "s_pc s u \<noteq> Commit_now \<and> s_pc s u \<noteq> In_op \<and> s_pc s u \<noteq> Flushing c e" if "u \<noteq> t" for u c e
      using that by (metis holds.simps(1-3))
    have "\<not> bit (t_state (x_trans (s_tx s))) 1" "\<not> bit (t_state (x_trans (s_tx s))) 2" using I(2) [of t None] I(3) commit_ok(1) ev by auto
    then show ?case unfolding live_inv_def Let_def step_defs
      using \<open>s_lock s = Some t\<close> commit_ok(1,2) I(4,7) r ev free by (auto split: if_splits)
  next
    case (work_read s t)
    have "live_inv s" using work_read by (simp add: trans_inv_def)
    note I = live_invD [OF this]
    show ?case unfolding live_inv_def Let_def using work_read(1) I by (auto intro!: evicting_other)
  next
    case (work_skip s t b)
    have "live_inv s" using work_skip by (simp add: trans_inv_def)
    note I = live_invD [OF this]
    show ?case unfolding live_inv_def Let_def using work_skip(1,2) I by (auto intro!: evicting_other)
  next
    case (work_lock s t)
    have "live_inv s" using work_lock by (simp add: trans_inv_def)
    note I = live_invD [OF this]
    show ?case unfolding live_inv_def Let_def step_defs using work_lock(1,2,4) I by (auto simp: bit_set_bit_iff intro!: evicting_other)
  qed (simp_all add: step_defs)
qed

lemma trans_init_inv: "trans_init s \<Longrightarrow> trans_inv s"
  by (auto simp: trans_init_def trans_inv_def lock_inv_def log_ok_def live_inv_def Let_def apfs_transaction_init_def)

lemma trans_reach_inv: "trans_reach True s s' \<Longrightarrow> trans_inv s \<Longrightarrow> trans_inv s'"
  by (induction rule: rtranclp_induct) (auto intro: trans_inv_step)

lemma lock_reach_inv: "trans_reach careful s s' \<Longrightarrow> lock_inv s \<Longrightarrow> lock_inv s'"
  by (induction rule: rtranclp_induct) (auto intro: lock_inv_step)

text \<open>A container that is read-only is never written again.\<close>

lemma rdonly_step:
  assumes "trans_step careful s s'" "lock_inv s" "x_rdonly (s_tx s)"
  shows "x_rdonly (s_tx s') \<and> x_disk (s_tx s') = x_disk (s_tx s) \<and> s_log s' = s_log s"
proof -
  have free: "\<not> holds (s_pc s t)" for t using assms(2,3) by (auto simp: lock_inv_def)
  show ?thesis using assms(1,3) free
  proof (induction rule: trans_step.induct)
    case (start_ok s t kind x)
    then show ?case using start_result [OF start_ok(3)] by (simp add: start_post_def)
  next
    case (start_full s t kind x)
    then show ?case using start_result [OF start_full(3)] by (simp add: start_post_def)
  next
    case (start_error s t kind e x)
    then show ?case using start_result [OF start_error(3)] by (auto simp: start_post_def)
  next
    case (op_work s t x)
    then show ?case by (metis holds.simps(1))
  next
    case (op_error s t)
    then show ?case by (metis holds.simps(1))
  next
    case (commit_later s t tr)
    then show ?case by (metis holds.simps(2))
  next
    case (commit_begin s t tr)
    then show ?case by (metis holds.simps(2))
  next
    case (flush_inode s t c err i "is" x err' e)
    then show ?case by (metis holds.simps(3))
  next
    case (flush_error s t c e)
    then show ?case by (metis holds.simps(3))
  next
    case (commit_ok s t io x)
    then show ?case by (metis holds.simps(3))
  next
    case (commit_error s t io e on_disk x)
    then show ?case by (metis holds.simps(3))
  qed (simp_all add: step_defs)
qed

lemma rdonly_reach:
  "trans_reach careful s s' \<Longrightarrow> lock_inv s \<Longrightarrow> x_rdonly (s_tx s) \<Longrightarrow>
   x_rdonly (s_tx s') \<and> x_disk (s_tx s') = x_disk (s_tx s) \<and> s_log s' = s_log s"
proof (induction rule: rtranclp_induct)
  case (step y z)
  then show ?case using rdonly_step [of careful y z] lock_reach_inv [of careful s y] by auto
qed simp

end
