(* ===== verification/CheckpointWrite.thy ===== *)
theory CheckpointWrite
  imports Checkpoint
begin

text \<open>
  What \<open>apfs_write_ephemeral_objects\<close> leaves in the buffers.  The invariant of its loop tells where the mappings and
  the objects are that have been written so far, and that all other blocks are unchanged; the loop ends, and it
  fails only at the limits of the two areas.
\<close>

section \<open>The invariant of the loop\<close>

abbreviation nx_blk :: "apfs_nx \<Rightarrow> u64 \<Rightarrow> buffer option" where "nx_blk nx \<equiv> d_block (fs_dev (nx_fs nx))"
abbreviation nx_trans :: "apfs_nx \<Rightarrow> u64 \<Rightarrow> bool" where "nx_trans nx \<equiv> d_trans (fs_dev (nx_fs nx))"
abbreviation nx_xid :: "apfs_nx \<Rightarrow> u64" where "nx_xid nx \<equiv> fs_xid (nx_fs nx)"

definition eph_pre :: "xp_areas \<Rightarrow> nat \<Rightarrow> apfs_nx \<Rightarrow> bool" where
  "eph_pre xp B nx \<longleftrightarrow> xp_ok xp \<and> fs_bs (nx_fs nx) = int B \<and> 80 \<le> B \<and> B \<le> 65536 \<and>
     (\<forall>x \<in> set (nx_eph_list nx). info_ok B x) \<and> eph_blocks B (nx_eph_list nx) \<le> xp_data_blks xp \<and>
     rd64 (nx_raw nx) 120 = Inr (xp_data_base xp) \<and> rd32 (nx_raw nx) 108 = Inr (xp_data_blks xp) \<and>
     (\<forall>k. nx_blk nx (ring (xp_desc_base xp) (xp_desc_blks xp) k) \<noteq> None) \<and>
     (\<forall>k. nx_blk nx (ring (xp_data_base xp) (xp_data_blks xp) k) \<noteq> None)"

definition eph_inv :: "xp_areas \<Rightarrow> nat \<Rightarrow> apfs_nx \<Rightarrow> nat \<Rightarrow> (nat \<times> nat \<times> nat) list list \<Rightarrow> apfs_nx \<Rightarrow> bool" where
  "eph_inv xp B nx0 i mss nx \<longleftrightarrow>
     (let l = nx_eph_list nx0; n = eph_blocks B (take i l); w = desc_set xp (length mss) \<union> data_set xp n in
      nx_raw nx = nx_raw nx0 \<and>
      blocks_only (nx_fs nx) (fs_set_eph (map (seal_eph (nx_xid nx0)) (take i l) @ drop i l) (nx_fs nx0)) \<and>
      concat mss = entries xp B 0 (take i l) \<and> cpms_on xp B (nx_blk nx) mss \<and>
      objects_at xp B (nx_blk nx) 0 (map (seal_eph (nx_xid nx0)) (take i l)) \<and>
      (\<forall>b. b \<notin> w \<longrightarrow> nx_blk nx b = nx_blk nx0 b) \<and> (\<forall>b. nx_trans nx b \<longleftrightarrow> nx_trans nx0 b \<or> b \<in> w) \<and>
      (\<forall>b. nx_csum nx b \<longleftrightarrow> nx_csum nx0 b \<or> b \<in> desc_set xp (length mss)))"

lemma eph_invD:
  assumes "eph_inv xp B nx0 i mss nx"
  shows "nx_raw nx = nx_raw nx0"
    "blocks_only (nx_fs nx) (fs_set_eph (map (seal_eph (nx_xid nx0)) (take i (nx_eph_list nx0)) @ drop i (nx_eph_list nx0)) (nx_fs nx0))"
    "concat mss = entries xp B 0 (take i (nx_eph_list nx0))" "cpms_on xp B (nx_blk nx) mss"
    "objects_at xp B (nx_blk nx) 0 (map (seal_eph (nx_xid nx0)) (take i (nx_eph_list nx0)))"
    "b \<notin> desc_set xp (length mss) \<Longrightarrow> b \<notin> data_set xp (eph_blocks B (take i (nx_eph_list nx0))) \<Longrightarrow> nx_blk nx b = nx_blk nx0 b"
    "nx_trans nx b \<longleftrightarrow> nx_trans nx0 b \<or> b \<in> desc_set xp (length mss) \<union> data_set xp (eph_blocks B (take i (nx_eph_list nx0)))"
    "nx_csum nx b \<longleftrightarrow> nx_csum nx0 b \<or> b \<in> desc_set xp (length mss)"
  using assms unfolding eph_inv_def Let_def by blast+

lemma eph_inv_sel:
  assumes "eph_inv xp B nx0 i mss nx"
  shows "fs_bs (nx_fs nx) = fs_bs (nx_fs nx0)" "nx_xid nx = nx_xid nx0"
    "nx_eph_list nx = map (seal_eph (nx_xid nx0)) (take i (nx_eph_list nx0)) @ drop i (nx_eph_list nx0)"
  using blocks_only_sel [OF eph_invD(2) [OF assms]] by (simp_all add: fs_set_eph_def)

lemma eph_inv_len: "eph_inv xp B nx0 i mss nx \<Longrightarrow> length (nx_eph_list nx) = length (nx_eph_list nx0)"
  by (simp add: eph_inv_sel(3))

lemma eph_inv_at: "eph_inv xp B nx0 i mss nx \<Longrightarrow> i < length (nx_eph_list nx0) \<Longrightarrow> nx_eph_list nx ! i = nx_eph_list nx0 ! i"
  by (simp add: eph_inv_sel(3) nth_append Cons_nth_drop_Suc [symmetric])

lemma eph_preD:
  assumes "eph_pre xp B nx"
  shows "xp_ok xp" "fs_bs (nx_fs nx) = int B" "80 \<le> B" "B \<le> 65536" "x \<in> set (nx_eph_list nx) \<Longrightarrow> info_ok B x"
    "eph_blocks B (nx_eph_list nx) \<le> xp_data_blks xp" "rd64 (nx_raw nx) 120 = Inr (xp_data_base xp)"
    "rd32 (nx_raw nx) 108 = Inr (xp_data_blks xp)" "nx_blk nx (ring (xp_desc_base xp) (xp_desc_blks xp) k) \<noteq> None"
    "nx_blk nx (ring (xp_data_base xp) (xp_data_blks xp) k) \<noteq> None"
  using assms unfolding eph_pre_def by blast+

section \<open>New blocks of mappings\<close>

lemma create_cpm_block_holds:
  assumes "40 \<le> B"
  obtains c where "apfs_create_cpm_block (int B) xid bno = Inr c" "cpm_holds B c []"
proof -
  let ?fs = "[(8, le_field 8 (uint bno)), (16, le_field 8 (uint xid)), (24, le_field 4 (1073741824 + 12)), (28, le_field 4 0),
    (32, le_field 4 1), (36, le_field 4 0)] :: (int \<times> byte list) list"
  have asc: "fields_asc 8 ?fs 40" by simp
  obtain c where c: "store_fields (replicate B 0) ?fs = Inr c" using store_fields_ok [OF asc, of "replicate B 0"] assms by auto
  have rd: "rd_bytes c 36 4 = Inr (le_field 4 0)" "rd_bytes c 32 4 = Inr (le_field 4 1)"
    using store_fields_read [OF asc c, of 36 "le_field 4 0"] store_fields_read [OF asc c, of 32 "le_field 4 1"] by simp_all
  have "cpm_holds B c []"
    using store_fields_length [OF c] rd assms by (simp add: cpm_holds_def rd_le_def apfs_max_maps_per_block_def)
  with c show thesis using that by (simp add: apfs_create_cpm_block_def)
qed

lemma new_cpm_step:
  assumes pre: "eph_pre xp B nx0" and inv: "eph_inv xp B nx0 i mss nx" and room: "length mss < xp_desc_blks xp"
  obtains nx' where "new_cpm_block (desc_bno xp (length mss)) nx = Inr nx'" "eph_inv xp B nx0 i (mss @ [[]]) nx'"
proof -
  let ?bno = "desc_bno xp (length mss)" and ?n = "eph_blocks B (take i (nx_eph_list nx0))"
  note pre = eph_preD [OF pre] and sel = eph_inv_sel [OF inv] and D = eph_invD [OF inv]
  have new: "?bno \<notin> desc_set xp (length mss)" "?bno \<notin> data_set xp ?n"
    using desc_not_in [OF pre(1) order_refl room] areas_disjoint [OF pre(1) desc_in_set [of "length mss" "Suc (length mss)"]] by auto
  then have "nx_blk nx ?bno = nx_blk nx0 ?bno" by (rule D(6))
  then have get: "apfs_getblk (nx_fs nx) ?bno = Inr ()" using pre(9) [of "xp_desc_index xp + length mss"] by (auto simp: apfs_getblk_def desc_bno_def)
  have "40 \<le> B" using pre(3) by simp
  then obtain c where c: "apfs_create_cpm_block (int B) (nx_xid nx) ?bno = Inr c" "cpm_holds B c []"
    by (rule create_cpm_block_holds)
  let ?nx = "nx\<lparr>nx_fs := put_block ?bno c (apfs_transaction_join ?bno (nx_fs nx)), nx_csum := (nx_csum nx)(?bno := True)\<rparr>"
  have dev: "nx_blk ?nx = (nx_blk nx)(?bno \<mapsto> c)" "nx_trans ?nx = (nx_trans nx)(?bno := True)"
    by (simp_all add: put_block_def apfs_transaction_join_def)
  have data: "\<forall>b \<in> data_set xp ?n. nx_blk ?nx b = nx_blk nx b" unfolding dev(1) using new(2) by auto
  have only: "blocks_only (nx_fs ?nx) (nx_fs nx)" using blocks_only_trans [OF blocks_only_put(1,2)] by simp
  have "eph_inv xp B nx0 i (mss @ [[]]) ?nx"
    unfolding eph_inv_def Let_def
  proof (intro conjI allI)
    show "blocks_only (nx_fs ?nx) (fs_set_eph (map (seal_eph (nx_xid nx0)) (take i (nx_eph_list nx0)) @ drop i (nx_eph_list nx0)) (nx_fs nx0))"
      using blocks_only_trans [OF only D(2)] .
    show "cpms_on xp B (nx_blk ?nx) (mss @ [[]])" unfolding dev(1) using cpms_on_append [OF D(4) c(2) pre(1) room] .
    show "objects_at xp B (nx_blk ?nx) 0 (map (seal_eph (nx_xid nx0)) (take i (nx_eph_list nx0)))"
      using objects_at_cong [OF D(5)] data by simp
  qed (use D dev in \<open>auto simp: desc_set_Suc\<close>)
  moreover have "new_cpm_block ?bno nx = Inr ?nx" using get c(1) sel(1) pre(2) by (simp add: new_cpm_block_def Let_def)
  ultimately show thesis using that by blast
qed

section \<open>One object\<close>

lemma create_cpoint_map_frame:
  assumes "apfs_create_cpoint_map bs cpm obj bno osize = Inr b"
  shows "length b = length cpm" "rd32 b 32 = rd32 cpm 32"
proof -
  obtain x ty st oi where fs: "store_fields cpm [(36, le_field 4 (int x + 1)), (40 + int x * 40, ty), (44 + int x * 40, st),
      (48 + int x * 40, le_field 4 (uint osize)), (52 + int x * 40, le_field 4 0), (56 + int x * 40, le_field 8 0),
      (64 + int x * 40, oi), (72 + int x * 40, le_field 8 (uint bno))] = Inr b" (is "store_fields cpm ?fs = _")
    using assms by (auto simp: apfs_create_cpoint_map_def bind_res_eq_Inr Let_def simp del: store_fields.simps split: if_splits)
  show "length b = length cpm" by (rule store_fields_length [OF fs])
  have "rd_bytes b 32 4 = rd_bytes cpm 32 4" by (intro store_fields_frame [OF fs]) auto
  then show "rd32 b 32 = rd32 cpm 32" by (simp add: rd_le_def)
qed

lemma add_map_holds:
  assumes "cpm_holds B c ms" "32 \<le> B" "B \<le> 65536" "int (length ms) < apfs_max_maps_per_block (int B)" "info_ok B info"
  obtains c' where "apfs_create_cpoint_map (int B) c (eph_object info) bno (eph_size info) = Inr c'"
    "cpm_holds B c' (ms @ [(unat (eph_oid info), unat bno, unat (eph_size info))])"
proof -
  have c: "int (length c) = int B" "rd32 c 36 = Inr (length ms)" using assms(1) by (simp_all add: cpm_holds_def)
  have info: "rd64 (eph_object info) 8 = Inr (unat (eph_oid info))" "32 \<le> length (eph_object info)"
    using assms(2,5) by (auto simp: info_ok_def)
  have "int B \<le> 65536" using assms(3) by simp
  from apfs_create_cpoint_map_store [OF c(1) this c(2) assms(4) info]
  obtain c' where c': "apfs_create_cpoint_map (int B) c (eph_object info) bno (eph_size info) = Inr c'" "rd32 c' 36 = Inr (Suc (length ms))"
      "cpoint_map_at c' (length ms) = Inr (unat (eph_oid info), unat bno, unat (eph_size info))"
      "\<And>i. i < length ms \<Longrightarrow> cpoint_map_at c' i = cpoint_map_at c i" by metis
  have "cpm_holds B c' (ms @ [(unat (eph_oid info), unat bno, unat (eph_size info))])"
    using assms(1,4) c'(2-4) create_cpoint_map_frame [OF c'(1)] by (auto simp: cpm_holds_def nth_append less_Suc_eq)
  with c'(1) show thesis using that by blast
qed

lemma to_s32_small: "k < 2 ^ 31 \<Longrightarrow> to_s32 (int k) = int k"
  by (simp add: to_s32_def)

lemma write_single_object:
  assumes pre: "eph_pre xp B nx0" and nx: "fs_bs (nx_fs nx) = int B" "nx_raw nx = nx_raw nx0" "nx_eph_list nx ! i = info" "i < length (nx_eph_list nx)"
    and info: "info_ok B info" "n + blkcnt B info \<le> xp_data_blks xp"
    and blk: "\<And>j. j < blkcnt B info \<Longrightarrow> nx_blk nx (ring (xp_data_base xp) (xp_data_blks xp) (xp_data_index xp + n + j)) \<noteq> None"
  obtains nx' where "apfs_write_single_ephemeral_object i (entry xp n info) nx = Inr nx'" "nx_raw nx' = nx_raw nx" "nx_csum nx' = nx_csum nx"
    "blocks_only (nx_fs nx') (fs_set_eph ((nx_eph_list nx)[i := seal_eph (nx_xid nx) info]) (nx_fs nx))"
    "object_at xp B (nx_blk nx') n (seal_eph (nx_xid nx) info)"
    "\<forall>b. b \<notin> ring_set (xp_data_base xp) (xp_data_blks xp) (xp_data_index xp + n) (blkcnt B info) \<longrightarrow> nx_blk nx' b = nx_blk nx b"
    "\<forall>b. nx_trans nx' b \<longleftrightarrow> nx_trans nx b \<or> b \<in> ring_set (xp_data_base xp) (xp_data_blks xp) (xp_data_index xp + n) (blkcnt B info)"
proof -
  note pre = eph_preD [OF pre]
  let ?base = "xp_data_base xp" and ?blks = "xp_data_blks xp" and ?k = "xp_data_index xp + n"
  let ?s = "seal_eph (nx_xid nx) info" and ?fs = "fs_set_eph ((nx_eph_list nx)[i := seal_eph (nx_xid nx) info]) (nx_fs nx)"
  have area: "area_ok ?base ?blks (xp_data_index xp)" using pre(1) by (simp add: xp_ok_def)
  have B: "0 < B" "32 \<le> B" using pre(3) by simp_all
  note seal = seal_eph_ok [OF info(1) B(2), of "nx_xid nx"]
  have len: "length (eph_object ?s) = 0 + blkcnt B info * B" using blkcnt_ok [OF seal(2) B(1)] by simp
  have blk': "d_block (fs_dev ?fs) (ring ?base ?blks (?k + j)) \<noteq> None" if "j < blkcnt B info" for j
    using blk [OF that] by (simp add: fs_set_eph_def)
  have "fs_bs ?fs = int B" "blkcnt B info \<le> ?blks" using nx(1) info(2) by (simp_all add: fs_set_eph_def)
  from write_eph_blocks_ring [OF area this(2,1) len blk']
  obtain fs' where fs': "write_eph_blocks ?base ?blks (int (?k mod ?blks)) (eph_object ?s) (int 0) (blkcnt B info) ?fs = Inr fs'"
      "blocks_only fs' ?fs" "\<forall>j < blkcnt B info. d_block (fs_dev fs') (ring ?base ?blks (?k + j)) = Some (block_of B (drop 0 (eph_object ?s)) j)"
      "\<forall>b. b \<notin> ring_set ?base ?blks ?k (blkcnt B info) \<longrightarrow> d_block (fs_dev fs') b = d_block (fs_dev ?fs) b"
      "\<forall>b. d_trans (fs_dev fs') b \<longleftrightarrow> d_trans (fs_dev ?fs) b \<or> b \<in> ring_set ?base ?blks ?k (blkcnt B info)" by metis
  have idx: "to_s32 (int (?base + ?k mod ?blks) - int ?base) = int (?k mod ?blks)"
  proof -
    have "?k mod ?blks < ?blks" "?blks < 2 ^ 31" using area by (simp_all add: area_ok_def)
    then show ?thesis using to_s32_small [of "?k mod ?blks"] by simp
  qed
  have cnt: "nat (int (unat (eph_size info)) div int B) = blkcnt B info" by (simp add: blkcnt_def zdiv_int [symmetric] del: of_nat_unat)
  obtain o1 where o1: "wr64 (eph_object info) 16 (uint (nx_xid nx)) = Inr o1"
      "apfs_multiblock_set_csum o1 (int (unat (eph_size info))) = Inr (eph_object ?s)"
    using seal(1) by (auto simp: bind_res_eq_Inr)
  define ob where "ob = eph_object ?s"
  have upd: "?s = info\<lparr>eph_object := ob\<rparr>" by (cases info) (simp add: ob_def seal_eph_def split: sum.split)
  have run: "apfs_write_single_ephemeral_object i (entry xp n info) nx = Inr (nx\<lparr>nx_fs := fs'\<rparr>)"
    using fs'(1) [folded ob_def, unfolded upd] idx cnt o1 [folded ob_def] pre(7,8) nx(1,2,3)
    by (simp add: apfs_write_single_ephemeral_object_def entry_def Let_def del: of_nat_unat of_nat_add)
  show thesis
  proof (rule that [OF run])
    show "object_at xp B (nx_blk (nx\<lparr>nx_fs := fs'\<rparr>)) n ?s" using fs'(3) by (simp add: object_at_def)
  qed (use fs'(2,4,5) in \<open>simp_all add: fs_set_eph_def\<close>)
qed

text \<open>The blocks of the next object are not in use yet.\<close>

lemma next_data_free:
  assumes "eph_pre xp B nx0" "eph_inv xp B nx0 i mss nx" "n = eph_blocks B (take i (nx_eph_list nx0))" "n + j < xp_data_blks xp"
  shows "ring (xp_data_base xp) (xp_data_blks xp) (xp_data_index xp + n + j) \<notin> data_set xp n"
    "ring (xp_data_base xp) (xp_data_blks xp) (xp_data_index xp + n + j) \<notin> desc_set xp m"
    "nx_blk nx (ring (xp_data_base xp) (xp_data_blks xp) (xp_data_index xp + n + j)) \<noteq> None"
proof -
  note pre = eph_preD [OF assms(1)]
  let ?b = "ring (xp_data_base xp) (xp_data_blks xp) (xp_data_index xp + n + j)"
  show n: "?b \<notin> data_set xp n"
    using ring_not_in [of "xp_data_base xp" "xp_data_blks xp" "xp_data_index xp" n "n + j"] pre(1) assms(4)
    by (simp add: data_set_def xp_ok_def add.assoc)
  have "?b \<in> data_set xp (n + j + 1)" by (simp add: data_set_def ring_set_Suc add.assoc)
  then show d: "?b \<notin> desc_set xp m" for m using areas_disjoint [OF pre(1)] by blast
  show "nx_blk nx ?b \<noteq> None" using eph_invD(6) [OF assms(2), of ?b] d n pre(10) [of "xp_data_index xp + n + j"] unfolding assms(3) by simp
qed

lemma object_step:
  assumes pre: "eph_pre xp B nx0" and inv: "eph_inv xp B nx0 i (mss @ [ms]) nx" and i: "i < length (nx_eph_list nx0)"
    and room: "length mss < xp_desc_blks xp" "int (length ms) < apfs_max_maps_per_block (int B)"
  defines "info \<equiv> nx_eph_list nx0 ! i" and "n \<equiv> eph_blocks B (take i (nx_eph_list nx0))"
  obtains nx1 nx2 where
    "cpm_add_map (desc_bno xp (length mss)) i (ring (xp_data_base xp) (xp_data_blks xp) (xp_data_index xp + n)) nx = Inr nx1"
    "cpm_write_object (desc_bno xp (length mss)) (length ms) i nx1 = Inr nx2"
    "eph_inv xp B nx0 (Suc i) (mss @ [ms @ [entry xp n info]]) nx2"
    "eph_size (nx_eph_list nx1 ! i) = eph_size info" "fs_bs (nx_fs nx1) = int B"
proof -
  let ?l = "nx_eph_list nx0" and ?bno = "desc_bno xp (length mss)" and ?base = "xp_data_base xp" and ?blks = "xp_data_blks xp"
  let ?paddr = "ring ?base ?blks (xp_data_index xp + n)"
  note preD = eph_preD [OF pre] and sel = eph_inv_sel [OF inv] and D = eph_invD [OF inv]
  have neq: "n = eph_blocks B (take i ?l)" by (simp add: n_def)
  have B: "32 \<le> B" using preD(3) by simp
  have info: "info_ok B info" using preD(5) i by (simp add: info_def)
  have at: "nx_eph_list nx ! i = info" using eph_inv_at [OF inv i] by (simp add: info_def)
  have split: "take (Suc i) ?l = take i ?l @ [info]" "drop i ?l = info # drop (Suc i) ?l"
    using i by (simp_all add: info_def take_Suc_conv_app_nth Cons_nth_drop_Suc)
  have "eph_blocks B ?l = n + blkcnt B info + eph_blocks B (drop (Suc i) ?l)"
    unfolding n_def using arg_cong [OF append_take_drop_id [of i ?l], of "eph_blocks B", symmetric] split(2) by simp
  then have fits: "n + blkcnt B info \<le> ?blks" using preD(6) by simp
  obtain c where c: "nx_blk nx ?bno = Some c" "cpm_holds B c ms"
    using D(4) [unfolded cpms_on_def, rule_format, of "length mss"] by auto
  have area: "0 < ?blks" "?base + ?blks \<le> 2 ^ 63" using preD(1) by (simp_all add: xp_ok_def area_ok_def)
  have ent: "(unat (eph_oid info), unat ?paddr, unat (eph_size info)) = entry xp n info"
    using unat_ring [OF area] by (simp add: entry_def)
  obtain c' where c': "apfs_create_cpoint_map (int B) c (eph_object info) ?paddr (eph_size info) = Inr c'"
      "cpm_holds B c' (ms @ [entry xp n info])"
    using add_map_holds [OF c(2) B preD(4) room(2) info, of ?paddr] ent by metis
  define nx1 where "nx1 = nx\<lparr>nx_fs := put_block ?bno c' (nx_fs nx)\<rparr>"
  have add: "cpm_add_map ?bno i ?paddr nx = Inr nx1"
    using c(1) c'(1) at sel(1) preD(2) by (simp add: cpm_add_map_def apfs_sb_bread_def nx1_def Let_def)
  have nx1: "nx_blk nx1 = (nx_blk nx)(?bno \<mapsto> c')" "nx_trans nx1 = nx_trans nx" "nx_eph_list nx1 = nx_eph_list nx"
      "fs_bs (nx_fs nx1) = int B" "nx_raw nx1 = nx_raw nx0" "nx_csum nx1 = nx_csum nx" "nx_xid nx1 = nx_xid nx0"
      "blocks_only (nx_fs nx1) (nx_fs nx)"
    using sel D(1) preD(2) by (simp_all add: nx1_def put_block_def) (simp add: nx1_def put_block_def [symmetric])
  have len: "i < length (nx_eph_list nx1)" using eph_inv_len [OF inv] i nx1(3) by simp
  have exists: "nx_blk nx1 (ring ?base ?blks (xp_data_index xp + n + j)) \<noteq> None" if "j < blkcnt B info" for j
    using next_data_free(3) [OF pre inv neq, of j] that fits by (simp add: nx1(1))
  from write_single_object [OF pre nx1(4,5) _ len info fits exists] at nx1(3)
  obtain nx2 where nx2: "apfs_write_single_ephemeral_object i (entry xp n info) nx1 = Inr nx2" "nx_raw nx2 = nx_raw nx1" "nx_csum nx2 = nx_csum nx1"
      "blocks_only (nx_fs nx2) (fs_set_eph ((nx_eph_list nx1)[i := seal_eph (nx_xid nx1) info]) (nx_fs nx1))"
      "object_at xp B (nx_blk nx2) n (seal_eph (nx_xid nx1) info)"
      "\<forall>b. b \<notin> ring_set ?base ?blks (xp_data_index xp + n) (blkcnt B info) \<longrightarrow> nx_blk nx2 b = nx_blk nx1 b"
      "\<forall>b. nx_trans nx2 b \<longleftrightarrow> nx_trans nx1 b \<or> b \<in> ring_set ?base ?blks (xp_data_index xp + n) (blkcnt B info)" by metis
  have wrt: "cpm_write_object ?bno (length ms) i nx1 = Inr nx2"
    using nx1(1) c'(2) nx2(1) by (simp add: cpm_write_object_def apfs_sb_bread_def cpm_holds_def)
  let ?w = "ring_set ?base ?blks (xp_data_index xp + n) (blkcnt B info)"
  have W: "data_set xp (n + blkcnt B info) = data_set xp n \<union> ?w" by (simp add: data_set_def ring_set_add)
  have w: "b \<notin> data_set xp n" "b \<notin> desc_set xp m" if "b \<in> ?w" for b m
    using that next_data_free(1,2) [OF pre inv neq] fits by (auto simp: ring_set_def)
  have bno: "?bno \<notin> data_set xp k" "?bno \<notin> ?w" for k
    using areas_disjoint [OF preD(1) desc_in_set [OF lessI]] w(2) [of ?bno "Suc (length mss)"] by auto
  have sealed: "(nx_eph_list nx1)[i := seal_eph (nx_xid nx1) info] = map (seal_eph (nx_xid nx0)) (take (Suc i) ?l) @ drop (Suc i) ?l"
    using sel(3) split i nx1(3,7) by (simp add: list_update_append)
  have "eph_inv xp B nx0 (Suc i) (mss @ [ms @ [entry xp n info]]) nx2"
    unfolding eph_inv_def Let_def
  proof (intro conjI allI)
    show "nx_raw nx2 = nx_raw nx0" using nx2(2) nx1(5) by simp
    have "blocks_only (fs_set_eph L (nx_fs nx1)) (fs_set_eph L (nx_fs nx0))" for L
      using blocks_only_set_eph [OF blocks_only_trans [OF nx1(8) D(2)]] .
    then show "blocks_only (nx_fs nx2) (fs_set_eph (map (seal_eph (nx_xid nx0)) (take (Suc i) ?l) @ drop (Suc i) ?l) (nx_fs nx0))"
      using blocks_only_trans [OF nx2(4)] sealed by metis
    show "concat (mss @ [ms @ [entry xp n info]]) = entries xp B 0 (take (Suc i) ?l)"
      using D(3) by (simp add: split(1) entries_append n_def)
    have "cpms_on xp B (nx_blk nx1) (mss @ [ms @ [entry xp n info]])"
      unfolding nx1(1) using cpms_on_last [OF D(4) c'(2) preD(1) room(1)] .
    then show "cpms_on xp B (nx_blk nx2) (mss @ [ms @ [entry xp n info]])"
      by (rule cpms_on_cong) (use nx2(6) w(2) in blast)
    have "objects_at xp B (nx_blk nx2) 0 (map (seal_eph (nx_xid nx0)) (take i ?l))"
    proof (rule objects_at_cong [OF D(5)], intro ballI)
      fix b
      assume "b \<in> data_set xp (0 + eph_blocks B (map (seal_eph (nx_xid nx0)) (take i ?l)))"
      then have "b \<in> data_set xp n" by (simp add: n_def)
      then have "b \<notin> ?w" "b \<noteq> ?bno" using w(1) bno(1) by blast+
      then show "nx_blk nx2 b = nx_blk nx b" using nx2(6) nx1(1) by simp
    qed
    then show "objects_at xp B (nx_blk nx2) 0 (map (seal_eph (nx_xid nx0)) (take (Suc i) ?l))"
      using nx2(5) nx1(7) by (simp add: split(1) objects_at_append n_def)
  next
    fix b
    have n': "eph_blocks B (take (Suc i) ?l) = n + blkcnt B info" by (simp add: split(1) n_def)
    show "b \<notin> desc_set xp (length (mss @ [ms @ [entry xp n info]])) \<union> data_set xp (eph_blocks B (take (Suc i) ?l)) \<longrightarrow> nx_blk nx2 b = nx_blk nx0 b"
      using nx2(6) D(6) [of b, folded n_def] unfolding n' W nx1(1) by (auto simp: desc_set_Suc)
    show "nx_trans nx2 b \<longleftrightarrow> nx_trans nx0 b \<or> b \<in> desc_set xp (length (mss @ [ms @ [entry xp n info]])) \<union> data_set xp (eph_blocks B (take (Suc i) ?l))"
      using nx2(7) D(7) [of b, folded n_def] unfolding n' W nx1(2) by auto
    show "nx_csum nx2 b \<longleftrightarrow> nx_csum nx0 b \<or> b \<in> desc_set xp (length (mss @ [ms @ [entry xp n info]]))"
      using D(8) [of b] by (simp add: nx2(3) nx1(6))
  qed
  with add wrt show thesis using that at nx1(3,4) by simp
qed

lemma full_block_step:
  assumes pre: "eph_pre xp B nx0" and inv: "eph_inv xp B nx0 i (mss @ [ms]) nx" and i: "i < length (nx_eph_list nx0)"
    and full: "length mss < xp_desc_blks xp" "\<not> int (length ms) < apfs_max_maps_per_block (int B)"
  obtains nx' where "cpm_add_map (desc_bno xp (length mss)) i paddr nx = Inl ENOSPC"
    "cpm_not_last (desc_bno xp (length mss)) nx = Inr nx'" "eph_inv xp B nx0 i (mss @ [ms]) nx'"
proof -
  let ?bno = "desc_bno xp (length mss)" and ?n = "eph_blocks B (take i (nx_eph_list nx0))"
  note pre = eph_preD [OF pre] and sel = eph_inv_sel [OF inv] and D = eph_invD [OF inv]
  obtain c where c: "nx_blk nx ?bno = Some c" "cpm_holds B c ms"
    using D(4) [unfolded cpms_on_def, rule_format, of "length mss"] by auto
  have "apfs_create_cpoint_map (int B) c obj bno osize = Inl ENOSPC" for obj bno osize
    using c(2) full(2) by (simp add: apfs_create_cpoint_map_def cpm_holds_def)
  then have add: "cpm_add_map ?bno i paddr nx = Inl ENOSPC"
    using c(1) sel(1) pre(2) by (simp add: cpm_add_map_def apfs_sb_bread_def Let_def)
  have len: "length c = B" using c(2) by (simp add: cpm_holds_def)
  obtain c' where c': "wr32 c 32 0 = Inr c'" using wr_le_ok [of 32 4 c 0] len pre(3) by auto
  have other: "rd_le m c' off = rd_le m c off" if "36 \<le> off" for m off using that by (intro rd_le_wr_le_other [OF c']) simp
  have "rd_bytes c' 32 4 = Inr (le_field 4 0)" using rd_bytes_memcpy_same [OF c' [unfolded wr_le_def]] by simp
  then have "rd32 c' 32 = Inr 0" by (simp add: rd_le_def)
  then have holds: "cpm_holds B c' ms"
    using c(2) other wr_le_length [OF c'] by (simp add: cpm_holds_def cpoint_map_at_def)
  let ?nx = "nx\<lparr>nx_fs := put_block ?bno c' (nx_fs nx)\<rparr>"
  have dev: "nx_blk ?nx = (nx_blk nx)(?bno \<mapsto> c')" "nx_trans ?nx = nx_trans nx" by (simp_all add: put_block_def)
  have "?bno \<notin> data_set xp ?n" using areas_disjoint [OF pre(1) desc_in_set [of "length mss" "Suc (length mss)"]] by simp
  then have data: "\<forall>b \<in> data_set xp ?n. nx_blk ?nx b = nx_blk nx b" unfolding dev(1) by auto
  have "eph_inv xp B nx0 i (mss @ [ms]) ?nx"
    unfolding eph_inv_def Let_def
  proof (intro conjI allI)
    show "blocks_only (nx_fs ?nx) (fs_set_eph (map (seal_eph (nx_xid nx0)) (take i (nx_eph_list nx0)) @ drop i (nx_eph_list nx0)) (nx_fs nx0))"
      using blocks_only_trans [OF _ D(2)] by simp
    show "cpms_on xp B (nx_blk ?nx) (mss @ [ms])" unfolding dev(1) using cpms_on_last [OF D(4) holds pre(1) full(1)] .
    show "objects_at xp B (nx_blk ?nx) 0 (map (seal_eph (nx_xid nx0)) (take i (nx_eph_list nx0)))"
      using objects_at_cong [OF D(5)] data by simp
  qed (use D dev in \<open>auto simp: desc_set_Suc\<close>)
  with add c c' show thesis using that by (simp add: cpm_not_last_def apfs_sb_bread_def)
qed

section \<open>The loop\<close>

text \<open>
  The result of the loop from the object \<open>i\<close> on.  If it succeeds, no object starts exactly at the limit for
  the data blocks.
\<close>

definition loop_done :: "xp_areas \<Rightarrow> nat \<Rightarrow> apfs_nx \<Rightarrow> nat \<Rightarrow> (nat \<times> nat \<times> apfs_nx) result option \<Rightarrow> bool" where
  "loop_done xp B nx0 i0 m \<longleftrightarrow>
     m = Some (Inl EFSCORRUPTED) \<and> (\<exists>i < length (nx_eph_list nx0). eph_blocks B (take i (nx_eph_list nx0)) = xp_data_blks xp div 4 \<or> xp_desc_blks xp div 4 \<le> i) \<or>
     (\<exists>mss nx. m = Some (Inr (length mss, eph_blocks B (nx_eph_list nx0), nx)) \<and>
        eph_inv xp B nx0 (length (nx_eph_list nx0)) mss nx \<and> [] \<notin> set mss \<and> length mss \<le> xp_desc_blks xp div 4 \<and>
        (\<forall>j. i0 \<le> j \<and> j < length (nx_eph_list nx0) \<longrightarrow> eph_blocks B (take j (nx_eph_list nx0)) \<noteq> xp_data_blks xp div 4))"

lemma loop_done_Suc:
  assumes "loop_done xp B nx0 (Suc i) m" "eph_blocks B (take i (nx_eph_list nx0)) \<noteq> xp_data_blks xp div 4"
  shows "loop_done xp B nx0 i m"
  using assms unfolding loop_done_def by (metis Suc_leI le_neq_implies_less)

definition cpm_current :: "xp_areas \<Rightarrow> nat \<Rightarrow> (nat \<times> nat \<times> nat) list list \<Rightarrow> (u64 \<times> nat) option \<Rightarrow> bool" where
  "cpm_current xp i mss cpm \<longleftrightarrow>
     (case cpm of None \<Rightarrow> [] \<notin> set mss | Some (bno, st) \<Rightarrow> [] \<notin> set mss \<and> mss \<noteq> [] \<and> bno = desc_bno xp (length mss - 1) \<and> i = st + length (last mss))"

lemma concat_length_ge: "[] \<notin> set xss \<Longrightarrow> length xss \<le> length (concat xss)"
proof (induction xss)
  case (Cons xs xss)
  then show ?case by (cases xs) auto
qed simp

lemma desc_blks_bounds:
  assumes "eph_pre xp B nx0" "n \<le> xp_desc_blks xp div 4"
  shows "n < xp_desc_blks xp" "n < 2 ^ 31"
proof -
  have "0 < xp_desc_blks xp" "xp_desc_blks xp < 2 ^ 31" using eph_preD(1) [OF assms(1)] by (simp_all add: xp_ok_def area_ok_def)
  then show "n < xp_desc_blks xp" "n < 2 ^ 31" using assms(2) by (auto intro: le_less_trans div_less_dividend)
qed

lemma data_ring_bno:
  assumes "eph_pre xp B nx0" "n \<le> eph_blocks B (nx_eph_list nx0)"
  shows "ring_bno (xp_data_base xp) (xp_data_blks xp) (xp_data_index xp) n = Inr (ring (xp_data_base xp) (xp_data_blks xp) (xp_data_index xp + n))"
  using eph_preD(1,6) [OF assms(1)] assms(2) by (intro ring_bno_ok) (simp_all add: xp_ok_def area_ok_def)

lemma eph_blocks_take_le: "eph_blocks B (take i l) \<le> eph_blocks B l"
  by (metis append_take_drop_id eph_blocks_append le_add1)

lemma write_eph_loop_done:
  assumes pre: "eph_pre xp B nx0"
  shows "eph_inv xp B nx0 i mss nx \<Longrightarrow> i \<le> length (nx_eph_list nx0) \<Longrightarrow> length mss \<le> xp_desc_blks xp div 4 \<Longrightarrow> cpm_current xp i mss cpm \<Longrightarrow>
    loop_done xp B nx0 i (write_eph_loop xp i cpm (length mss) (eph_blocks B (take i (nx_eph_list nx0))) nx)"
proof (induction "length (nx_eph_list nx0) - i" arbitrary: i mss nx cpm)
  case 0
  then have "i = length (nx_eph_list nx0)" by simp
  then show ?case
    using 0 eph_inv_len [OF 0(2)] by (subst write_eph_loop.simps) (auto simp: loop_done_def cpm_current_def split: option.splits)
next
  case (Suc d)
  let ?l = "nx_eph_list nx0" and ?lim = "xp_desc_blks xp div 4"
  let ?n = "\<lambda>i. eph_blocks B (take i ?l)"
  have i: "i < length ?l" using Suc(2) by simp
  have cap: "int 0 < apfs_max_maps_per_block (int B)" using eph_preD(3) [OF pre] by (simp add: apfs_max_maps_per_block_def)
  note data = data_ring_bno [OF pre eph_blocks_take_le [of B i ?l]]
  have n': "?n i + unat (eph_size (?l ! i)) div B = ?n (Suc i)" using i by (simp add: take_Suc_conv_app_nth blkcnt_def)
  have nB: "nat (int B) = B" by simp
  text \<open>An object that fits into the current block.\<close>
  have fits: "loop_done xp B nx0 i (case cpm_add_map (desc_bno xp (length mss)) i (ring (xp_data_base xp) (xp_data_blks xp) (xp_data_index xp + ?n i)) nx of
          Inl e \<Rightarrow> if e = ENOSPC then bindo (Some (cpm_not_last (desc_bno xp (length mss)) nx)) (write_eph_loop xp i None (Suc (length mss)) (?n i)) else Some (Inl e)
        | Inr nx1 \<Rightarrow> bindo (Some (cpm_write_object (desc_bno xp (length mss)) (i - st) i nx1))
            (write_eph_loop xp (Suc i) (Some (desc_bno xp (length mss), st)) (Suc (length mss)) (?n i + unat (eph_size (nx_eph_list nx1 ! i)) div nat (fs_bs (nx_fs nx1)))))"
    if inv: "eph_inv xp B nx0 i (mss @ [ms]) nx" and len: "length mss < ?lim" "int (length ms) < apfs_max_maps_per_block (int B)"
      and st: "[] \<notin> set mss" "i = st + length ms" and ne: "?n i \<noteq> xp_data_blks xp div 4" for mss ms nx st
  proof -
    obtain nx1 nx2 where nx: "cpm_add_map (desc_bno xp (length mss)) i (ring (xp_data_base xp) (xp_data_blks xp) (xp_data_index xp + ?n i)) nx = Inr nx1"
        "cpm_write_object (desc_bno xp (length mss)) (length ms) i nx1 = Inr nx2"
        "eph_inv xp B nx0 (Suc i) (mss @ [ms @ [entry xp (?n i) (?l ! i)]]) nx2"
        "eph_size (nx_eph_list nx1 ! i) = eph_size (?l ! i)" "fs_bs (nx_fs nx1) = int B"
      by (rule object_step [OF pre inv i desc_blks_bounds(1) [OF pre less_imp_le [OF len(1)]] len(2)])
    have "loop_done xp B nx0 (Suc i) (write_eph_loop xp (Suc i) (Some (desc_bno xp (length mss), st)) (length (mss @ [ms @ [entry xp (?n i) (?l ! i)]])) (?n (Suc i)) nx2)"
      by (rule Suc(1) [OF _ nx(3)]) (use Suc(2) i len st in \<open>simp_all add: cpm_current_def\<close>)
    from loop_done_Suc [OF this ne] show ?thesis using nx st(2) n' by (simp add: Let_def)
  qed
  text \<open>No current block.\<close>
  have none: "loop_done xp B nx0 i (write_eph_loop xp i None (length mss) (?n i) nx)"
    if inv: "eph_inv xp B nx0 i mss nx" and len: "length mss \<le> ?lim" and st: "[] \<notin> set mss" for mss nx
  proof (cases "?n i = xp_data_blks xp div 4 \<or> length mss = ?lim")
    case True
    then have "write_eph_loop xp i None (length mss) (?n i) nx = Some (Inl EFSCORRUPTED)"
      using i eph_inv_len [OF inv] by (subst write_eph_loop.simps) auto
    moreover have "length mss \<le> i"
      using eph_invD(3) [OF inv] st arg_cong [of "concat mss" _ length] concat_length_ge [of mss] i by simp
    ultimately show ?thesis using True i unfolding loop_done_def by auto
  next
    case False
    obtain nx1 where nx1: "new_cpm_block (desc_bno xp (length mss)) nx = Inr nx1" "eph_inv xp B nx0 i (mss @ [[]]) nx1"
      by (rule new_cpm_step [OF pre inv desc_blks_bounds(1) [OF pre len]])
    have bno: "ring_bno (xp_desc_base xp) (xp_desc_blks xp) (xp_desc_index xp) (length mss) = Inr (desc_bno xp (length mss))"
      unfolding desc_bno_def using eph_preD(1) [OF pre] desc_blks_bounds(2) [OF pre len] by (intro ring_bno_ok) (simp_all add: xp_ok_def)
    show ?thesis
      using fits [of mss "[]" nx1 i] nx1 len st cap False data bno i eph_inv_len [OF inv]
      by (subst write_eph_loop.simps) (simp add: Let_def cong: sum.case_cong)
  qed
  show ?case
  proof (cases "cpm")
    case None
    then show ?thesis using none Suc.prems by (simp add: cpm_current_def)
  next
    case (Some p)
    obtain bno st where p: "p = (bno, st)" by (cases p)
    then obtain mss' ms where mss: "mss = mss' @ [ms]" "bno = desc_bno xp (length mss')" "i = st + length ms" "[] \<notin> set mss"
      using Suc.prems(4) Some by (cases mss rule: rev_cases) (auto simp: cpm_current_def)
    have lt: "length mss' < ?lim" using Suc.prems(3) mss(1) by simp
    have unf: "write_eph_loop xp i cpm (length mss) (?n i) nx =
        (case cpm_add_map bno i (ring (xp_data_base xp) (xp_data_blks xp) (xp_data_index xp + ?n i)) nx of
          Inl e \<Rightarrow> if e = ENOSPC then bindo (Some (cpm_not_last bno nx)) (write_eph_loop xp i None (length mss) (?n i)) else Some (Inl e)
        | Inr nx1 \<Rightarrow> bindo (Some (cpm_write_object bno (i - st) i nx1))
            (write_eph_loop xp (Suc i) (Some (bno, st)) (length mss) (?n i + unat (eph_size (nx_eph_list nx1 ! i)) div nat (fs_bs (nx_fs nx1)))))"
      if "?n i \<noteq> xp_data_blks xp div 4"
      using that Some p data i eph_inv_len [OF Suc.prems(1)] by (subst write_eph_loop.simps) (simp add: Let_def cong: sum.case_cong)
    show ?thesis
    proof (cases "?n i = xp_data_blks xp div 4")
      case True
      then have "write_eph_loop xp i cpm (length mss) (?n i) nx = Some (Inl EFSCORRUPTED)"
        using i eph_inv_len [OF Suc.prems(1)] by (subst write_eph_loop.simps) simp
      then show ?thesis using True i unfolding loop_done_def by auto
    next
      case False
      note inv = Suc.prems(1) [unfolded mss(1)]
      show ?thesis
      proof (cases "int (length ms) < apfs_max_maps_per_block (int B)")
        case True
        have len: "length mss = Suc (length mss')" using mss(1) by simp
        show ?thesis unfolding unf [OF False, unfolded mss(2) len] len by (rule fits [OF inv lt True _ mss(3) False]) (use mss(1,4) in auto)
      next
        case full: False
        obtain nx' where "cpm_add_map bno i (ring (xp_data_base xp) (xp_data_blks xp) (xp_data_index xp + ?n i)) nx = Inl ENOSPC"
            "cpm_not_last bno nx = Inr nx'" "eph_inv xp B nx0 i mss nx'"
          using full_block_step [OF pre inv i desc_blks_bounds(1) [OF pre less_imp_le [OF lt]] full] mss by metis
        then show ?thesis unfolding unf [OF False] using none [of mss nx'] Suc.prems(3) mss(4) by simp
      qed
    qed
  qed
qed

end
