(* ===== verification/CheckpointRead.thy ===== *)
theory CheckpointRead
  imports CheckpointWrite Storage
begin

text \<open>
  The shape of a checkpoint on disk, what \<open>apfs_read_ephemeral_objects\<close> reads from it, and which superblock the
  search of \<open>apfs_read_main_super\<close> finds.
\<close>

section \<open>Reading a checkpoint\<close>

definition obj_verified :: "ephemeral_object_info \<Rightarrow> bool" where
  "obj_verified info \<longleftrightarrow> apfs_multiblock_verify_csum (eph_object info) (int (unat (eph_size info))) = Inr True"

definition checkpoint :: "nat \<Rightarrow> (u64 \<Rightarrow> buffer option) \<Rightarrow> xp_areas \<Rightarrow> nat \<Rightarrow> ephemeral_object_info list \<Rightarrow> bool" where
  "checkpoint B blk xp dl objs \<longleftrightarrow> xp_ok xp \<and> 80 \<le> B \<and> (\<forall>x \<in> set objs. info_ok B x \<and> obj_verified x) \<and> length objs \<le> APFS_EPHEMERAL_LIST_LIMIT \<and>
     (\<exists>mss. length mss = dl \<and> [] \<notin> set mss \<and> concat mss = entries xp B 0 objs \<and> cpms_on xp B blk mss) \<and>
     (\<forall>k < dl. \<forall>c. blk (desc_bno xp k) = Some c \<longrightarrow> apfs_multiblock_verify_csum c (int B) = Inr True) \<and>
     objects_at xp B blk 0 objs"

lemma checkpoint_cong:
  assumes "checkpoint B blk xp dl objs" "\<forall>b \<in> desc_set xp dl \<union> data_set xp (eph_blocks B objs). blk' b = blk b"
  shows "checkpoint B blk' xp dl objs"
proof -
  obtain mss where mss: "length mss = dl" "[] \<notin> set mss" "concat mss = entries xp B 0 objs" "cpms_on xp B blk mss"
    using assms(1) by (auto simp: checkpoint_def)
  have "cpms_on xp B blk' mss" using cpms_on_cong [OF mss(4)] mss(1) assms(2) by simp
  moreover have "objects_at xp B blk' 0 objs" using objects_at_cong [of xp B blk 0 objs blk'] assms by (simp add: checkpoint_def)
  ultimately show ?thesis using assms mss(1-3) unfolding checkpoint_def by auto
qed

definition super_fields :: "buffer \<Rightarrow> xp_areas \<Rightarrow> nat \<Rightarrow> bool" where
  "super_fields raw xp dl \<longleftrightarrow> rd64 raw 112 = Inr (xp_desc_base xp) \<and> rd32 raw 104 = Inr (xp_desc_blks xp) \<and> rd32 raw 136 = Inr (xp_desc_index xp) \<and>
     rd32 raw 140 = Inr (Suc dl) \<and> rd64 raw 120 = Inr (xp_data_base xp) \<and> rd32 raw 108 = Inr (xp_data_blks xp)"

lemma read_single_object:
  assumes "xp_ok xp" "32 \<le> B" "info_ok B info" "obj_verified info" "object_at xp B blk k info" "length l < APFS_EPHEMERAL_LIST_LIMIT"
    and "super_fields raw xp dl"
  shows "apfs_read_single_ephemeral_object (int B) blk raw (entry xp k info) l = Inr (l @ [info])"
proof -
  let ?base = "xp_data_base xp" and ?blks = "xp_data_blks xp" and ?k = "xp_data_index xp + k"
  have area: "0 < ?blks" "?blks < 2 ^ 31" using assms(1) by (simp_all add: xp_ok_def area_ok_def)
  have B: "0 < B" using assms(2) by simp
  note cnt = blkcnt_ok [OF assms(3) B]
  have "read_eph_blocks blk ?base ?blks (int (?k mod ?blks)) (blkcnt B info) = Inr (concat (map (block_of B (eph_object info)) [0..<blkcnt B info]))"
    using assms(5) by (intro read_eph_blocks_ring area) (simp add: object_at_def)
  then have rd: "read_eph_blocks blk ?base ?blks (int (?k mod ?blks)) (blkcnt B info) = Inr (eph_object info)"
    using blocks_concat [of "eph_object info" "blkcnt B info" B] cnt by simp
  have "?k mod ?blks < 2 ^ 31" using area by (meson less_trans mod_less_divisor)
  then have idx: "to_s32 (int (?base + ?k mod ?blks) - int ?base) = int (?k mod ?blks)" using to_s32_small [of "?k mod ?blks"] by simp
  have n: "nat (int (unat (eph_size info)) div int B) = blkcnt B info" by (simp add: blkcnt_def zdiv_int [symmetric] del: of_nat_unat)
  have sz: "int (unat (eph_size info)) \<le> int B * 2" "unat (eph_size info) \<noteq> 0" "int (unat (eph_size info)) mod int B = 0"
    using assms(3) B by (auto simp: info_ok_def simp del: of_nat_unat)
  have "\<lparr>eph_oid = of_nat (unat (eph_oid info)), eph_size = of_nat (unat (eph_size info)), eph_object = eph_object info\<rparr> = info"
    by (cases info) simp
  then show ?thesis
    using assms(4,6,7) rd idx n sz unfolding apfs_read_single_ephemeral_object_def entry_def super_fields_def obj_verified_def
    by (simp del: of_nat_unat of_nat_add)
qed

lemma read_cpm_maps_holds:
  assumes "xp_ok xp" "32 \<le> B" "super_fields raw xp dl" "cpm_holds B cpm ms"
  shows "\<forall>x \<in> set os. info_ok B x \<and> obj_verified x \<Longrightarrow> objects_at xp B blk k os \<Longrightarrow> drop i ms = entries xp B k os \<Longrightarrow>
    length l + length os \<le> APFS_EPHEMERAL_LIST_LIMIT \<Longrightarrow> read_cpm_maps (int B) blk raw cpm i (length os) l = Inr (l @ os)"
proof (induction os arbitrary: k i l)
  case (Cons x os)
  have i: "i < length ms" using Cons.prems(3) by (metis drop_all list.distinct(1) entries.simps(2) not_le)
  have "drop i ms = ms ! i # drop (Suc i) ms" using i by (simp add: Cons_nth_drop_Suc)
  then have at: "ms ! i = entry xp k x" "drop (Suc i) ms = entries xp B (k + blkcnt B x) os" using Cons.prems(3) by simp_all
  have "cpoint_map_at cpm i = Inr (entry xp k x)" using assms(4) i at(1) by (simp add: cpm_holds_def)
  moreover have "apfs_read_single_ephemeral_object (int B) blk raw (entry xp k x) l = Inr (l @ [x])"
    using Cons.prems(1,2,4) by (intro read_single_object [OF assms(1,2) _ _ _ _ assms(3)]) auto
  moreover have "read_cpm_maps (int B) blk raw cpm (Suc i) (length os) (l @ [x]) = Inr ((l @ [x]) @ os)"
    by (rule Cons.IH [OF _ _ at(2)]) (use Cons.prems in auto)
  ultimately show ?case by simp
qed simp

lemma read_cpm_blocks_holds:
  assumes "xp_ok xp" "32 \<le> B" "super_fields raw xp dl" "cpms_on xp B blk mss" "length mss < 2 ^ 31"
    and "\<forall>k < length mss. \<forall>c. blk (desc_bno xp k) = Some c \<longrightarrow> apfs_multiblock_verify_csum c (int B) = Inr True"
  shows "\<forall>x \<in> set os. info_ok B x \<and> obj_verified x \<Longrightarrow> objects_at xp B blk k os \<Longrightarrow> concat (drop i mss) = entries xp B k os \<Longrightarrow>
    [] \<notin> set mss \<Longrightarrow> i + n = length mss \<Longrightarrow> length l + length os \<le> APFS_EPHEMERAL_LIST_LIMIT \<Longrightarrow>
    read_cpm_blocks (int B) blk tr raw (xp_desc_base xp) (xp_desc_blks xp) (xp_desc_index xp) i n l = Inr (l @ os)"
proof (induction n arbitrary: os k i l)
  case 0
  then have "entries xp B k os = []" by simp
  then show ?case by (cases os) auto
next
  case (Suc n)
  have i: "i < length mss" using Suc.prems(5) by simp
  let ?ms = "mss ! i"
  define os1 where "os1 = take (length ?ms) os"
  define os2 where "os2 = drop (length ?ms) os"
  have os: "os = os1 @ os2" by (simp add: os1_def os2_def)
  have cc: "?ms @ concat (drop (Suc i) mss) = entries xp B k os1 @ entries xp B (k + eph_blocks B os1) os2"
    using Suc.prems(3) i os by (simp add: Cons_nth_drop_Suc [symmetric] entries_append)
  have "length ?ms \<le> length os"
    using arg_cong [OF Suc.prems(3), of length] i by (simp add: Cons_nth_drop_Suc [symmetric])
  then have len: "length ?ms = length os1" by (simp add: os1_def)
  then have ms: "?ms = entries xp B k os1" "concat (drop (Suc i) mss) = entries xp B (k + eph_blocks B os1) os2"
    using cc by (simp_all add: append_eq_append_conv)
  obtain c where c: "blk (desc_bno xp i) = Some c" "cpm_holds B c ?ms" using assms(4) i by (auto simp: cpms_on_def)
  have ver: "apfs_obj_verify_csum (int B) (tr (desc_bno xp i)) c = Inr True"
    using assms(6) i c(1) by (simp add: apfs_obj_verify_csum_def)
  have bno: "ring_bno (xp_desc_base xp) (xp_desc_blks xp) (xp_desc_index xp) i = Inr (desc_bno xp i)"
    unfolding desc_bno_def using assms(1,5) i by (intro ring_bno_ok) (simp_all add: xp_ok_def)
  have "?ms \<noteq> []" using Suc.prems(4) i by (metis nth_mem)
  moreover have maps: "read_cpm_maps (int B) blk raw c 0 (length os1) l = Inr (l @ os1)"
    by (rule read_cpm_maps_holds [OF assms(1-3) c(2), of os1 blk k]) (use Suc.prems os ms(1) in \<open>auto simp: objects_at_append\<close>)
  ultimately have "apfs_read_single_cpm_block (int B) blk tr raw (desc_bno xp i) l = Inr (l @ os1)"
    using c ver len by (auto simp: apfs_read_single_cpm_block_def cpm_holds_def)
  moreover have "read_cpm_blocks (int B) blk tr raw (xp_desc_base xp) (xp_desc_blks xp) (xp_desc_index xp) (Suc i) n (l @ os1) = Inr ((l @ os1) @ os2)"
    by (rule Suc.IH [OF _ _ ms(2)]) (use Suc.prems os in \<open>auto simp: objects_at_append\<close>)
  ultimately show ?case using bno os by simp
qed

lemma checkpoint_read:
  assumes "checkpoint B blk xp dl objs" "super_fields raw xp dl" "dl < 2 ^ 31"
  shows "apfs_read_ephemeral_objects (int B) blk tr raw = Inr objs"
proof -
  obtain mss where mss: "length mss = dl" "[] \<notin> set mss" "concat mss = entries xp B 0 objs" "cpms_on xp B blk mss"
    using assms(1) by (auto simp: checkpoint_def)
  have "read_cpm_blocks (int B) blk tr raw (xp_desc_base xp) (xp_desc_blks xp) (xp_desc_index xp) 0 dl [] = Inr ([] @ objs)"
    by (rule read_cpm_blocks_holds [where mss = mss and k = 0]) (use assms mss in \<open>auto simp: checkpoint_def\<close>)
  moreover have "nat (to_u32 (int (Suc dl) - 1)) = dl" using assms(3) by (simp add: to_u32_def)
  ultimately show ?thesis using assms(2) by (simp add: apfs_read_ephemeral_objects_def super_fields_def)
qed

section \<open>The search for the latest checkpoint\<close>

text \<open>A valid superblock in a block, with its transaction number.\<close>

definition valid_super :: "int \<Rightarrow> buffer \<Rightarrow> nat \<Rightarrow> bool" where
  "valid_super bs raw xid \<longleftrightarrow> rd32 raw 32 = Inr APFS_NX_MAGIC \<and> rd64 raw 16 = Inr xid \<and> apfs_obj_verify_csum bs False raw = Inr True"

definition slot :: "nat \<Rightarrow> nat \<Rightarrow> u64" where
  "slot base i = of_nat base + of_nat i"

text \<open>The winner of the search: the first of the superblocks with the largest number.\<close>

definition super_wins :: "int \<Rightarrow> (u64 \<Rightarrow> buffer option) \<Rightarrow> nat \<Rightarrow> nat \<Rightarrow> nat \<Rightarrow> nat \<times> u64 \<times> buffer \<Rightarrow> nat \<times> u64 \<times> buffer \<Rightarrow> bool" where
  "super_wins bs blk base i n start best \<longleftrightarrow>
     (case best of (xid, bno, raw) \<Rightarrow>
       (\<forall>j c x. i \<le> j \<and> j < i + n \<and> blk (slot base j) = Some c \<and> valid_super bs c x \<longrightarrow> x \<le> xid) \<and>
       (best = start \<or> fst start < xid \<and> (\<exists>j. i \<le> j \<and> j < i + n \<and> bno = slot base j \<and> blk bno = Some raw \<and> valid_super bs raw xid \<and>
          (\<forall>j' c. i \<le> j' \<and> j' < j \<and> blk (slot base j') = Some c \<longrightarrow> \<not> valid_super bs c xid))))"

lemma valid_super_unique: "valid_super bs raw x \<Longrightarrow> valid_super bs raw y \<Longrightarrow> x = y"
  by (simp add: valid_super_def)

lemma super_wins_unique:
  assumes "super_wins bs blk base i n start best" "super_wins bs blk base i n start best'"
  shows "best = best'"
proof -
  obtain x b r x' b' r' where best: "best = (x, b, r)" "best' = (x', b', r')" by (cases best, cases best') auto
  note w = assms [unfolded super_wins_def best, simplified]
  have le: "x' \<le> x" if "best' \<noteq> start" using w that best by blast
  have le': "x \<le> x'" if "best \<noteq> start" using w that best by blast
  consider "best = start" "best' = start" | "best \<noteq> start" "best' = start" | "best = start" "best' \<noteq> start" | "best \<noteq> start" "best' \<noteq> start" by blast
  then show ?thesis
  proof cases
    case 2
    then have "fst start = x'" "fst start < x" using w best by auto
    then show ?thesis using le' 2 by simp
  next
    case 3
    then have "fst start = x" "fst start < x'" using w best by auto
    then show ?thesis using le 3 by simp
  next
    case 4
    then have x: "x = x'" using le le' by simp
    obtain j where j: "i \<le> j" "j < i + n" "b = slot base j" "blk b = Some r" "valid_super bs r x"
        "\<forall>j' c. i \<le> j' \<and> j' < j \<and> blk (slot base j') = Some c \<longrightarrow> \<not> valid_super bs c x"
      using w(1) 4(1) best(1) by auto
    obtain j' where j': "i \<le> j'" "j' < i + n" "b' = slot base j'" "blk b' = Some r'" "valid_super bs r' x"
        "\<forall>j c. i \<le> j \<and> j < j' \<and> blk (slot base j) = Some c \<longrightarrow> \<not> valid_super bs c x"
      using w(2) 4(2) best(2) x by auto
    have "j = j'" using j j' by (metis linorder_neqE_nat)
    then show ?thesis using j(3,4) j'(3,4) x best by simp
  qed simp
qed

lemma super_wins_step:
  assumes "blk (slot base i) = Some c" "rd32 c 32 = Inr m" "rd64 c 16 = Inr x" "apfs_obj_verify_csum bs False c = Inr ok"
    and "super_wins bs blk base (Suc i) n (if m \<noteq> APFS_NX_MAGIC \<or> x \<le> xid \<or> \<not> ok then (xid, bno, raw) else (x, slot base i, c)) best"
  shows "super_wins bs blk base i (Suc n) (xid, bno, raw) best"
proof -
  obtain X b r where best: "best = (X, b, r)" by (cases best) auto
  have valid: "valid_super bs c y \<longleftrightarrow> m = APFS_NX_MAGIC \<and> ok \<and> y = x" for y using assms(2-4) by (auto simp: valid_super_def)
  note w = assms(5) [unfolded super_wins_def best, simplified]
  show ?thesis
  proof (cases "m \<noteq> APFS_NX_MAGIC \<or> x \<le> xid \<or> \<not> ok")
    case True
    then have w': "\<forall>j c x. Suc i \<le> j \<and> j < Suc (i + n) \<and> blk (slot base j) = Some c \<and> valid_super bs c x \<longrightarrow> x \<le> X"
        "(X, b, r) = (xid, bno, raw) \<or> xid < X \<and> (\<exists>j. Suc i \<le> j \<and> j < Suc (i + n) \<and> b = slot base j \<and> blk b = Some r \<and> valid_super bs r X \<and>
          (\<forall>j' c. Suc i \<le> j' \<and> j' < j \<and> blk (slot base j') = Some c \<longrightarrow> \<not> valid_super bs c X))"
      using w by auto
    have le: "xid \<le> X" using w'(2) by auto
    have all: "y \<le> X" if "i \<le> j" "j < i + Suc n" "blk (slot base j) = Some d" "valid_super bs d y" for j d y
    proof (cases "j = i")
      case j: True
      then have "y = x" "m = APFS_NX_MAGIC" "ok" using that(3,4) assms(1) valid by auto
      then show ?thesis using True le by simp
    qed (use that w'(1) [rule_format, of j d y] in simp)
    have first: "\<not> valid_super bs d X" if "xid < X" "blk (slot base i) = Some d" for d
      using that assms(1) valid True by auto
    show ?thesis
      unfolding super_wins_def best prod.case
    proof (intro conjI allI impI)
      show "(X, b, r) = (xid, bno, raw) \<or> fst (xid, bno, raw) < X \<and> (\<exists>j. i \<le> j \<and> j < i + Suc n \<and> b = slot base j \<and> blk b = Some r \<and> valid_super bs r X \<and>
          (\<forall>j' c. i \<le> j' \<and> j' < j \<and> blk (slot base j') = Some c \<longrightarrow> \<not> valid_super bs c X))"
        using w'(2)
      proof
        assume "xid < X \<and> (\<exists>j. Suc i \<le> j \<and> j < Suc (i + n) \<and> b = slot base j \<and> blk b = Some r \<and> valid_super bs r X \<and>
          (\<forall>j' c. Suc i \<le> j' \<and> j' < j \<and> blk (slot base j') = Some c \<longrightarrow> \<not> valid_super bs c X))"
        then obtain j where j: "xid < X" "Suc i \<le> j" "j < Suc (i + n)" "b = slot base j" "blk b = Some r" "valid_super bs r X"
            "\<forall>j' c. Suc i \<le> j' \<and> j' < j \<and> blk (slot base j') = Some c \<longrightarrow> \<not> valid_super bs c X" by blast
        have "\<forall>j' c. i \<le> j' \<and> j' < j \<and> blk (slot base j') = Some c \<longrightarrow> \<not> valid_super bs c X"
          using j(7) first [OF j(1)] by (auto simp: le_eq_less_or_eq [of i] Suc_le_eq)
        then show ?thesis using j by (intro disjI2 conjI exI [of _ j]) auto
      qed simp
    qed (use all in blast)
  next
    case False
    then have v: "valid_super bs c x" "xid < x" using valid by auto
    have w': "\<forall>j c y. Suc i \<le> j \<and> j < Suc (i + n) \<and> blk (slot base j) = Some c \<and> valid_super bs c y \<longrightarrow> y \<le> X"
        "(X, b, r) = (x, slot base i, c) \<or> x < X \<and> (\<exists>j. Suc i \<le> j \<and> j < Suc (i + n) \<and> b = slot base j \<and> blk b = Some r \<and> valid_super bs r X \<and>
          (\<forall>j' c. Suc i \<le> j' \<and> j' < j \<and> blk (slot base j') = Some c \<longrightarrow> \<not> valid_super bs c X))"
      using w False by auto
    have le: "x \<le> X" using w'(2) by auto
    have all: "y \<le> X" if "i \<le> j" "j < i + Suc n" "blk (slot base j) = Some d" "valid_super bs d y" for j d y
      using that w'(1) [rule_format, of j d y] le valid assms(1) by (cases "j = i") auto
    show ?thesis
      unfolding super_wins_def best prod.case
    proof (intro conjI allI impI)
      show "(X, b, r) = (xid, bno, raw) \<or> fst (xid, bno, raw) < X \<and> (\<exists>j. i \<le> j \<and> j < i + Suc n \<and> b = slot base j \<and> blk b = Some r \<and> valid_super bs r X \<and>
          (\<forall>j' c. i \<le> j' \<and> j' < j \<and> blk (slot base j') = Some c \<longrightarrow> \<not> valid_super bs c X))"
        using w'(2)
      proof
        assume "(X, b, r) = (x, slot base i, c)"
        then show ?thesis using v assms(1) by (intro disjI2 conjI exI [of _ i]) auto
      next
        assume "x < X \<and> (\<exists>j. Suc i \<le> j \<and> j < Suc (i + n) \<and> b = slot base j \<and> blk b = Some r \<and> valid_super bs r X \<and>
          (\<forall>j' c. Suc i \<le> j' \<and> j' < j \<and> blk (slot base j') = Some c \<longrightarrow> \<not> valid_super bs c X))"
        then obtain j where j: "x < X" "Suc i \<le> j" "j < Suc (i + n)" "b = slot base j" "blk b = Some r" "valid_super bs r X"
            "\<forall>j' c. Suc i \<le> j' \<and> j' < j \<and> blk (slot base j') = Some c \<longrightarrow> \<not> valid_super bs c X" by blast
        have "\<not> valid_super bs d X" if "blk (slot base i) = Some d" for d using that assms(1) valid j(1) by auto
        then have "\<forall>j' c. i \<le> j' \<and> j' < j \<and> blk (slot base j') = Some c \<longrightarrow> \<not> valid_super bs c X"
          using j(7) by (auto simp: le_eq_less_or_eq [of i] Suc_le_eq)
        then show ?thesis using j v(2) by (intro disjI2 conjI exI [of _ j]) auto
      qed
    qed (use all in blast)
  qed
qed

lemma find_super_wins:
  assumes "\<forall>j < n. \<exists>c. blk (slot base (i + j)) = Some c \<and> int (length c) = bs" "40 \<le> bs"
  shows "\<exists>best. find_super bs blk base i n start = Inr best \<and> super_wins bs blk base i n start best"
  using assms(1)
proof (induction n arbitrary: i start)
  case 0
  then show ?case by (cases start) (simp add: super_wins_def)
next
  case (Suc n)
  obtain xid bno raw where start: "start = (xid, bno, raw)" by (cases start) auto
  obtain c where c: "blk (slot base i) = Some c" "int (length c) = bs" using Suc.prems [rule_format, of 0] by auto
  obtain m where m: "rd32 c 32 = Inr m" using rd_le_ok [of 32 4 c] c(2) assms(2) by auto
  obtain x where x: "rd64 c 16 = Inr x" using rd_le_ok [of 16 8 c] c(2) assms(2) by auto
  obtain ok where ok: "apfs_obj_verify_csum bs False c = Inr ok" using verify_csum_safe [OF c(2), of False] assms(2) by auto
  have "\<forall>j < n. \<exists>c. blk (slot base (Suc i + j)) = Some c \<and> int (length c) = bs"
    using Suc.prems by (metis Suc_less_eq add_Suc_shift)
  from Suc.IH [OF this, of "if m \<noteq> APFS_NX_MAGIC \<or> x \<le> xid \<or> \<not> ok then (xid, bno, raw) else (x, slot base i, c)"]
  obtain best where best: "find_super bs blk base (Suc i) n (if m \<noteq> APFS_NX_MAGIC \<or> x \<le> xid \<or> \<not> ok then (xid, bno, raw) else (x, slot base i, c)) = Inr best"
      "super_wins bs blk base (Suc i) n (if m \<noteq> APFS_NX_MAGIC \<or> x \<le> xid \<or> \<not> ok then (xid, bno, raw) else (x, slot base i, c)) best" by blast
  show ?case
    using best(1) super_wins_step [OF c(1) m x ok best(2)] c(1) m x ok unfolding start
    by (intro exI [of _ best]) (auto simp: slot_def Let_def split: if_splits)
qed

lemma find_super_eq:
  assumes "\<forall>j < n. \<exists>c. blk (slot base j) = Some c \<and> int (length c) = bs" "40 \<le> bs" "super_wins bs blk base 0 n start best"
  shows "find_super bs blk base 0 n start = Inr best"
proof -
  obtain best' where "find_super bs blk base 0 n start = Inr best'" "super_wins bs blk base 0 n start best'"
    using find_super_wins [of n blk base 0 bs start] assms(1,2) by auto
  then show ?thesis using super_wins_unique [OF assms(3)] by simp
qed

end
