(* ===== verification/CheckpointCommit.thy ===== *)
theory CheckpointCommit
  imports CheckpointRead
begin

text \<open>
  The writes of a commit and the checkpoints that a mount finds before, during and after them: a commit is atomic
  if the two checkpoints fit into the areas.  An example shows that the limit of the source does not ensure this.
\<close>

section \<open>The latest checkpoint of a disk\<close>

definition latest_checkpoint ::
  "nat \<Rightarrow> (u64 \<Rightarrow> buffer option) \<Rightarrow> nat \<Rightarrow> u64 \<Rightarrow> buffer \<Rightarrow> xp_areas \<Rightarrow> nat \<Rightarrow> ephemeral_object_info list \<Rightarrow> bool" where
  "latest_checkpoint B disk xid bno raw xp dl objs \<longleftrightarrow>
     apfs_read_main_super (int B) disk = Inr (xid, bno, raw) \<and>
     (\<exists>raw0. disk 0 = Some raw0 \<and> int (length raw0) = int B \<and> rd64 raw0 112 = Inr (xp_desc_base xp) \<and> rd32 raw0 104 = Inr (xp_desc_blks xp)) \<and>
     (\<forall>k. \<exists>c. disk (ring (xp_desc_base xp) (xp_desc_blks xp) k) = Some c \<and> length c = B) \<and>
     super_fields raw xp dl \<and> checkpoint B disk xp dl objs \<and> dl \<le> xp_desc_blks xp div 4 \<and> xp_desc_blks xp \<le> 10000 \<and>
     (bno = 0 \<or> bno = desc_bno xp dl)"

lemma ring_slot: "ring base blks k = slot base (k mod blks)"
  by (simp add: ring_def slot_def)

lemma desc_slots:
  assumes "\<forall>k. \<exists>c. disk (ring base blks k) = Some c \<and> length c = B" "j < blks"
  shows "\<exists>c. disk (slot base j) = Some c \<and> int (length c) = int B"
proof -
  obtain c where "disk (ring base blks j) = Some c" "length c = B" using assms(1) by blast
  then show ?thesis using assms(2) by (simp add: ring_slot)
qed

lemma read_main_super_eq:
  assumes "disk 0 = Some raw0" "rd64 raw0 112 = Inr base" "rd32 raw0 104 = Inr blks" "rd64 raw0 16 = Inr x" "base < 2 ^ 63" "blks \<le> 10000"
  shows "apfs_read_main_super bs disk = find_super bs disk base 0 blks (x, 0, raw0)"
  using assms by (simp add: apfs_read_main_super_def)

lemma super_wins_mono:
  assumes "super_wins bs disk base 0 n start (xid, bno, raw)" "disk' bno = disk bno"
    and "\<And>j c x. j < n \<Longrightarrow> disk' (slot base j) = Some c \<Longrightarrow> valid_super bs c x \<Longrightarrow> disk (slot base j) = Some c"
  shows "super_wins bs disk' base 0 n start (xid, bno, raw)"
proof -
  note w = assms(1) [unfolded super_wins_def prod.case]
  have all: "x \<le> xid" if "j < n" "disk' (slot base j) = Some c" "valid_super bs c x" for j c x
    using w that assms(3) [OF that] by auto
  show ?thesis
  proof (cases "(xid, bno, raw) = start")
    case False
    then obtain j where j: "fst start < xid" "j < n" "bno = slot base j" "disk bno = Some raw" "valid_super bs raw xid"
        "\<forall>j' c. j' < j \<and> disk (slot base j') = Some c \<longrightarrow> \<not> valid_super bs c xid" using w by auto
    have "\<not> valid_super bs c xid" if "j' < j" "disk' (slot base j') = Some c" for j' c
      using assms(3) [of j' c xid] j(2,6) that by auto
    then show ?thesis unfolding super_wins_def prod.case using all j assms(2) by auto
  qed (use all in \<open>auto simp: super_wins_def\<close>)
qed

lemma super_wins_new:
  assumes "super_wins bs disk base 0 n start (xid, bno, raw)" "xid < X" "k < n" "disk' (slot base k) = Some sb" "valid_super bs sb X"
    and "\<And>j c x. j < n \<Longrightarrow> j \<noteq> k \<Longrightarrow> disk' (slot base j) = Some c \<Longrightarrow> valid_super bs c x \<Longrightarrow> disk (slot base j) = Some c"
  shows "super_wins bs disk' base 0 n start (X, slot base k, sb)"
proof -
  note w = assms(1) [unfolded super_wins_def prod.case]
  have all: "x \<le> xid" if "j < n" "j \<noteq> k" "disk' (slot base j) = Some c" "valid_super bs c x" for j c x
    using w that assms(6) [OF that] by auto
  have ge: "x \<le> X" if "j < n" "disk' (slot base j) = Some c" "valid_super bs c x" for j c x
    using all [of j c x] valid_super_unique [of bs c x X] assms(2,4,5) that by (cases "j = k") auto
  have "fst start < X" using w assms(2) by auto
  moreover have "\<not> valid_super bs c X" if "j < k" "disk' (slot base j) = Some c" for j c
    using all [of j c X] that assms(2,3) by auto
  ultimately show ?thesis using ge assms(3-5) unfolding super_wins_def prod.case by auto
qed

text \<open>Some of a set of writes have reached the disk.\<close>

definition torn_write :: "(u64 \<Rightarrow> buffer option) \<Rightarrow> (u64 \<Rightarrow> buffer option) \<Rightarrow> (u64 \<Rightarrow> buffer option) \<Rightarrow> bool" where
  "torn_write disk w disk' \<longleftrightarrow> (\<forall>b. disk' b = disk b \<or> b \<in> dom w \<and> disk' b = w b)"

lemma latest_torn_write:
  assumes latest: "latest_checkpoint B disk xid bno raw xp dl objs" and torn: "torn_write disk w disk'"
    and away: "0 \<notin> dom w" "dom w \<inter> desc_set xp (Suc dl) = {}" "dom w \<inter> data_set xp (eph_blocks B objs) = {}"
    and other: "\<And>k c. w (ring (xp_desc_base xp) (xp_desc_blks xp) k) = Some c \<Longrightarrow> length c = B \<and> (\<forall>x. \<not> valid_super (int B) c x)"
  shows "latest_checkpoint B disk' xid bno raw xp dl objs"
proof -
  let ?base = "xp_desc_base xp" and ?blks = "xp_desc_blks xp"
  have L: "apfs_read_main_super (int B) disk = Inr (xid, bno, raw)" "super_fields raw xp dl" "checkpoint B disk xp dl objs" "dl \<le> ?blks div 4"
      "?blks \<le> 10000" "bno = 0 \<or> bno = desc_bno xp dl" and desc: "\<forall>k. \<exists>c. disk (ring ?base ?blks k) = Some c \<and> length c = B"
    using latest by (simp_all add: latest_checkpoint_def)
  obtain raw0 where raw0: "disk 0 = Some raw0" "int (length raw0) = int B" "rd64 raw0 112 = Inr ?base" "rd32 raw0 104 = Inr ?blks"
    using latest by (auto simp: latest_checkpoint_def)
  have ok: "xp_ok xp" "80 \<le> B" using L(3) by (simp_all add: checkpoint_def)
  then have area: "0 < ?blks" "?base < 2 ^ 63" by (simp_all add: xp_ok_def area_ok_def)
  obtain x0 where x0: "rd64 raw0 16 = Inr x0" using rd_le_ok [of 16 8 raw0] raw0(2) ok(2) by auto
  have same: "disk' b = disk b" if "b \<notin> dom w" for b using torn that by (auto simp: torn_write_def)
  have desc': "\<forall>k. \<exists>c. disk' (ring ?base ?blks k) = Some c \<and> length c = B"
  proof
    fix k
    show "\<exists>c. disk' (ring ?base ?blks k) = Some c \<and> length c = B"
      using torn [unfolded torn_write_def, rule_format, of "ring ?base ?blks k"] desc other by (metis domD)
  qed
  have valid: "disk (slot ?base j) = Some c" if "j < ?blks" "disk' (slot ?base j) = Some c" "valid_super (int B) c x" for j c x
    using torn [unfolded torn_write_def, rule_format, of "slot ?base j"] other [of j c] that by (auto simp: ring_slot)
  have bno: "disk' bno = disk bno" using L(6) away by (intro same) auto
  have "find_super (int B) disk ?base 0 ?blks (x0, 0, raw0) = Inr (xid, bno, raw)"
    using L(1) read_main_super_eq [of disk, OF raw0(1,3,4) x0 area(2) L(5)] by simp
  then have wins: "super_wins (int B) disk ?base 0 ?blks (x0, 0, raw0) (xid, bno, raw)"
    using find_super_wins [of ?blks disk ?base 0 "int B" "(x0, 0, raw0)"] desc_slots [OF desc] ok(2) by auto
  have "find_super (int B) disk' ?base 0 ?blks (x0, 0, raw0) = Inr (xid, bno, raw)"
    using desc_slots [OF desc'] ok(2) by (intro find_super_eq super_wins_mono [where disk' = disk', OF wins bno valid]) auto
  then have "apfs_read_main_super (int B) disk' = Inr (xid, bno, raw)"
    using read_main_super_eq [of disk', OF _ raw0(3,4) x0 area(2) L(5)] raw0(1) same [OF away(1)] by simp
  moreover have "checkpoint B disk' xp dl objs"
  proof (rule checkpoint_cong [OF L(3)], intro ballI same)
    have "desc_set xp dl \<subseteq> desc_set xp (Suc dl)" by (auto simp: desc_set_Suc)
    then show "b \<notin> dom w" if "b \<in> desc_set xp dl \<union> data_set xp (eph_blocks B objs)" for b using that away(2,3) by blast
  qed
  ultimately show ?thesis using L(2,4-6) raw0 same [OF away(1)] desc' unfolding latest_checkpoint_def by auto
qed

section \<open>The result of a commit\<close>

lemma new_xp_fields_ok:
  assumes "152 \<le> length raw" "xp_ok xp" "rd64 raw 112 = Inr (xp_desc_base xp)" "rd32 raw 104 = Inr (xp_desc_blks xp)"
    "rd64 raw 120 = Inr (xp_data_base xp)" "rd32 raw 108 = Inr (xp_data_blks xp)" "Suc dl < 2 ^ 31"
  obtains raw' where "new_xp_fields xp (dl + 1) n raw = Inr raw'" "length raw' = length raw" "super_fields raw' xp dl" "rd32 raw' 148 = Inr (n mod 2 ^ 32)"
    "\<And>m off. off + int m \<le> 128 \<Longrightarrow> rd_le m raw' off = rd_le m raw off"
proof -
  have pos: "xp_desc_blks xp \<noteq> 0" "xp_data_blks xp \<noteq> 0" "xp_desc_index xp < 2 ^ 31" using assms(2) by (auto simp: xp_ok_def area_ok_def)
  obtain r1 where r1: "wr32 raw 128 (int ((xp_desc_index xp + (dl + 1)) mod 2 ^ 32 mod xp_desc_blks xp)) = Inr r1"
    using wr_le_ok [of 128 4 raw] assms(1) by auto
  obtain r2 where r2: "wr32 r1 136 (int (xp_desc_index xp)) = Inr r2" using wr_le_ok [of 136 4 r1] wr_le_length [OF r1] assms(1) by auto
  obtain r3 where r3: "wr32 r2 140 (int (dl + 1)) = Inr r3" using wr_le_ok [of 140 4 r2] wr_le_length [OF r1] wr_le_length [OF r2] assms(1) by auto
  obtain r4 where r4: "wr32 r3 132 (int ((xp_data_index xp + n) mod 2 ^ 32 mod xp_data_blks xp)) = Inr r4"
    using wr_le_ok [of 132 4 r3] wr_le_length [OF r1] wr_le_length [OF r2] wr_le_length [OF r3] assms(1) by auto
  obtain r5 where r5: "wr32 r4 144 (int (xp_data_index xp)) = Inr r5"
    using wr_le_ok [of 144 4 r4] wr_le_length [OF r1] wr_le_length [OF r2] wr_le_length [OF r3] wr_le_length [OF r4] assms(1) by auto
  obtain r6 where r6: "wr32 r5 148 (int n) = Inr r6"
    using wr_le_ok [of 148 4 r5] wr_le_length [OF r1] wr_le_length [OF r2] wr_le_length [OF r3] wr_le_length [OF r4] wr_le_length [OF r5] assms(1) by auto
  note rs = r1 r2 r3 r4 r5 r6
  have run: "new_xp_fields xp (dl + 1) n raw = Inr r6" using rs pos by (simp add: new_xp_fields_def)
  have len: "length r6 = length raw" using rs [THEN wr_le_length] by simp
  have low: "rd_le m r6 off = rd_le m raw off" if "off + int m \<le> 128" for m off
    using rs [THEN rd_le_wr_le_other, of off m] that by simp
  have "rd_bytes r2 136 4 = Inr (le_field 4 (int (xp_desc_index xp)))" using rd_bytes_memcpy_same [OF r2 [unfolded wr_le_def]] by simp
  then have "rd32 r2 136 = Inr (xp_desc_index xp)" using pos(3) by (simp add: rd_le_def)
  then have i: "rd32 r6 136 = Inr (xp_desc_index xp)" using rs(3-) [THEN rd_le_wr_le_other, of 136 4] by simp
  have "rd_bytes r3 140 4 = Inr (le_field 4 (int (dl + 1)))" using rd_bytes_memcpy_same [OF r3 [unfolded wr_le_def]] by simp
  moreover have "nat (int (dl + 1) mod 256 ^ 4) = Suc dl" using assms(7) by (simp add: nat_mod_distrib)
  ultimately have "rd32 r3 140 = Inr (Suc dl)" by (simp add: rd_le_def)
  then have l: "rd32 r6 140 = Inr (Suc dl)" using rs(4-) [THEN rd_le_wr_le_other, of 140 4] by simp
  have "super_fields r6 xp dl"
    using low [of 112 8] low [of 104 4] low [of 120 8] low [of 108 4] i l assms(3-6) by (simp add: super_fields_def)
  moreover have "rd32 r6 148 = Inr (n mod 2 ^ 32)" using rd_le_wr_le_same [OF r6] by (simp add: nat_mod_distrib)
  ultimately show thesis using that [OF run len] low by blast
qed

text \<open>
  \<open>apfs_write_ephemeral_objects\<close> returns, and it fails only if the areas are too small for the limit of a
  quarter.
\<close>

lemma write_ephemeral_objects_result:
  assumes pre: "eph_pre xp B nx" and xp: "new_xp_areas (nx_raw nx) = Inr xp" "152 \<le> length (nx_raw nx)"
  shows "apfs_write_ephemeral_objects nx = Some (Inl EFSCORRUPTED) \<and>
      (\<exists>i < length (nx_eph_list nx). eph_blocks B (take i (nx_eph_list nx)) = xp_data_blks xp div 4 \<or> xp_desc_blks xp div 4 \<le> i) \<or>
    (\<exists>mss nx1 raw'. apfs_write_ephemeral_objects nx = Some (Inr (nx1\<lparr>nx_bno := desc_bno xp (length mss), nx_raw := raw'\<rparr>)) \<and>
      eph_inv xp B nx (length (nx_eph_list nx)) mss nx1 \<and> [] \<notin> set mss \<and> length mss \<le> xp_desc_blks xp div 4 \<and>
      length raw' = length (nx_raw nx) \<and> super_fields raw' xp (length mss) \<and> rd32 raw' 32 = rd32 (nx_raw nx) 32 \<and>
      rd32 raw' 148 = Inr (eph_blocks B (nx_eph_list nx) mod 2 ^ 32) \<and>
      (\<forall>i < length (nx_eph_list nx). eph_blocks B (take i (nx_eph_list nx)) \<noteq> xp_data_blks xp div 4))"
proof -
  note ok = eph_preD [OF pre]
  have inv: "eph_inv xp B nx 0 [] nx" by (simp add: eph_inv_def cpms_on_def desc_set_def data_set_def fs_set_eph_def)
  have "loop_done xp B nx 0 (write_eph_loop xp 0 None (length ([] :: (nat \<times> nat \<times> nat) list list)) (eph_blocks B (take 0 (nx_eph_list nx))) nx)"
    by (rule write_eph_loop_done [OF pre inv]) (simp_all add: cpm_current_def)
  then consider "write_eph_loop xp 0 None 0 0 nx = Some (Inl EFSCORRUPTED)"
        "\<exists>i < length (nx_eph_list nx). eph_blocks B (take i (nx_eph_list nx)) = xp_data_blks xp div 4 \<or> xp_desc_blks xp div 4 \<le> i"
    | mss nx1 where "write_eph_loop xp 0 None 0 0 nx = Some (Inr (length mss, eph_blocks B (nx_eph_list nx), nx1))"
        "eph_inv xp B nx (length (nx_eph_list nx)) mss nx1" "[] \<notin> set mss" "length mss \<le> xp_desc_blks xp div 4"
        "\<forall>i < length (nx_eph_list nx). eph_blocks B (take i (nx_eph_list nx)) \<noteq> xp_data_blks xp div 4"
    by (auto simp: loop_done_def)
  then show ?thesis
  proof cases
    case 1
    then show ?thesis using xp(1) by (simp add: apfs_write_ephemeral_objects_def)
  next
    case (2 mss nx1)
    note bounds = desc_blks_bounds [OF pre 2(4)]
    have bno: "ring_bno (xp_desc_base xp) (xp_desc_blks xp) (xp_desc_index xp) (length mss) = Inr (desc_bno xp (length mss))"
      unfolding desc_bno_def using ok(1) bounds(2) by (intro ring_bno_ok) (simp_all add: xp_ok_def)
    have raw: "rd64 (nx_raw nx) 112 = Inr (xp_desc_base xp)" "rd32 (nx_raw nx) 104 = Inr (xp_desc_blks xp)"
      using xp(1) by (auto simp: new_xp_areas_def bind_res_eq_Inr)
    have "xp_desc_blks xp < 2 ^ 31" using ok(1) by (simp add: xp_ok_def area_ok_def)
    then have len: "Suc (length mss) < 2 ^ 31" using bounds(1) by simp
    obtain raw' where raw': "new_xp_fields xp (length mss + 1) (eph_blocks B (nx_eph_list nx)) (nx_raw nx) = Inr raw'" "length raw' = length (nx_raw nx)"
        "super_fields raw' xp (length mss)" "rd32 raw' 148 = Inr (eph_blocks B (nx_eph_list nx) mod 2 ^ 32)" "\<And>m off. off + int m \<le> 128 \<Longrightarrow> rd_le m raw' off = rd_le m (nx_raw nx) off"
      using new_xp_fields_ok [OF xp(2) ok(1) raw ok(7,8) len] by metis
    have "apfs_write_ephemeral_objects nx = Some (Inr (nx1\<lparr>nx_bno := desc_bno xp (length mss), nx_raw := raw'\<rparr>))"
      using xp(1) 2(1) bno raw'(1) eph_invD(1) [OF 2(2)] by (simp add: apfs_write_ephemeral_objects_def)
    then show ?thesis using 2(2-5) raw'(2-4) raw'(5) [of 32 4] by auto
  qed
qed

lemma seal_buffer_cpm:
  assumes "cpm_holds B c ms" "8 \<le> B"
  shows "cpm_holds B (seal_buffer (int B) True c) ms" "apfs_multiblock_verify_csum (seal_buffer (int B) True c) (int B) = Inr True"
proof -
  have len: "length c = B" using assms(1) by (simp add: cpm_holds_def)
  obtain c' where c': "apfs_multiblock_set_csum c (int B) = Inr c'" using apfs_multiblock_csum_ok [of "int B" c] len assms(2) by auto
  then have seal: "seal_buffer (int B) True c = c'" by (simp add: seal_buffer_def apfs_obj_set_csum_def)
  have rd: "rd_le m c' off = rd_le m c off" if "8 \<le> off" for m off
    using multiblock_set_csum_frame(2) [OF c' that] by (simp add: rd_le_def)
  show "cpm_holds B (seal_buffer (int B) True c) ms"
    using assms(1) rd multiblock_set_csum_frame(1) [OF c'] unfolding seal by (simp add: cpm_holds_def cpoint_map_at_def)
  show "apfs_multiblock_verify_csum (seal_buffer (int B) True c) (int B) = Inr True"
    unfolding seal by (rule apfs_multiblock_csum_roundtrip [OF c'])
qed

lemma cpm_not_super: "cpm_holds B c ms \<Longrightarrow> \<not> valid_super bs c x"
  by (auto simp: cpm_holds_def valid_super_def)

lemma objects_at_exist:
  "objects_at xp B blk k os \<Longrightarrow> b \<in> data_set xp (k + eph_blocks B os) \<Longrightarrow> b \<notin> data_set xp k \<Longrightarrow> blk b \<noteq> None"
proof (induction os arbitrary: k)
  case (Cons x os)
  show ?case
  proof (cases "b \<in> data_set xp (k + blkcnt B x)")
    case True
    then obtain j where "j < blkcnt B x" "b = ring (xp_data_base xp) (xp_data_blks xp) (xp_data_index xp + k + j)"
      using Cons.prems(3) by (auto simp: data_set_def ring_set_add) (auto simp: ring_set_def)
    then show ?thesis using Cons.prems(1) by (simp add: object_at_def)
  next
    case False
    show ?thesis by (rule Cons.IH [OF _ _ False]) (use Cons.prems in \<open>simp_all add: add.assoc\<close>)
  qed
qed simp

text \<open>The blocks that the commit writes hold the new checkpoint.\<close>

lemma commit_checkpoint:
  assumes pre: "eph_pre xp B nx" and inv: "eph_inv xp B nx (length (nx_eph_list nx)) mss nx1" and mss: "[] \<notin> set mss"
    and csum: "\<forall>b \<in> data_set xp (eph_blocks B (nx_eph_list nx)). \<not> nx_csum nx b"
    and limit: "length (nx_eph_list nx) \<le> APFS_EPHEMERAL_LIST_LIMIT" and dev: "\<forall>b. disk' b = (disk ++ commit_buffers nx1) b \<or> b = desc_bno xp (length mss)"
    and len: "length mss < xp_desc_blks xp"
  shows "checkpoint B disk' xp (length mss) (map (seal_eph (nx_xid nx)) (nx_eph_list nx))"
proof -
  let ?l = "nx_eph_list nx" and ?seal = "seal_eph (nx_xid nx)" and ?n = "eph_blocks B (nx_eph_list nx)"
  note ok = eph_preD [OF pre] and D = eph_invD [OF inv] and sel = eph_inv_sel [OF inv]
  have l: "take (length ?l) ?l = ?l" by simp
  have w: "commit_buffers nx1 b = map_option (seal_buffer (int B) (nx_csum nx1 b)) (nx_blk nx1 b)"
      if "b \<in> desc_set xp (length mss) \<union> data_set xp ?n" for b
    using D(7) [of b] that sel(1) ok(2) by (auto simp: commit_buffers_def Let_def)
  have new: "desc_bno xp (length mss) \<notin> desc_set xp (length mss)" "desc_bno xp (length mss) \<notin> data_set xp ?n"
    using desc_not_in [OF ok(1) order_refl len] areas_disjoint [OF ok(1) desc_in_set [of "length mss" "Suc (length mss)"]] by auto
  have desc: "disk' (desc_bno xp k) = Some (seal_buffer (int B) True c)" if "k < length mss" "nx_blk nx1 (desc_bno xp k) = Some c" for k c
  proof -
    have k: "desc_bno xp k \<in> desc_set xp (length mss)" using that(1) by simp
    then have "nx_csum nx1 (desc_bno xp k)" using D(8) by simp
    then have "commit_buffers nx1 (desc_bno xp k) = Some (seal_buffer (int B) True c)" using w k that(2) by simp
    moreover have "desc_bno xp k \<noteq> desc_bno xp (length mss)" using new(1) k by metis
    ultimately show ?thesis using dev by (metis map_add_find_right)
  qed
  have "disk' b = nx_blk nx1 b" if "b \<in> data_set xp ?n" "nx_blk nx1 b \<noteq> None" for b
  proof -
    have "b \<notin> desc_set xp (length mss)" using areas_disjoint [OF ok(1)] that(1) by blast
    then have "\<not> nx_csum nx1 b" using D(8) csum that(1) by simp
    then have "commit_buffers nx1 b = nx_blk nx1 b" using w that by (auto simp: seal_buffer_def)
    moreover have "b \<noteq> desc_bno xp (length mss)" using new(2) that(1) by blast
    ultimately show ?thesis using dev that(2) by (metis map_add_find_right not_None_eq)
  qed
  note data = this
  have objs: "objects_at xp B (nx_blk nx1) 0 (map ?seal ?l)" using D(5) by simp
  have exists: "nx_blk nx1 b \<noteq> None" if "b \<in> data_set xp ?n" for b
    using objects_at_exist [OF objs, of b] that by (simp add: data_set_def)
  have objs': "objects_at xp B disk' 0 (map ?seal ?l)"
    by (rule objects_at_cong [OF objs]) (use data exists in simp)
  have cpms: "cpms_on xp B disk' mss"
    unfolding cpms_on_def
  proof (intro allI impI)
    fix k
    assume k: "k < length mss"
    then obtain c where "nx_blk nx1 (desc_bno xp k) = Some c" "cpm_holds B c (mss ! k)" using D(4) by (auto simp: cpms_on_def)
    then show "\<exists>c. disk' (desc_bno xp k) = Some c \<and> cpm_holds B c (mss ! k)" using desc [OF k] seal_buffer_cpm(1) ok(3) by auto
  qed
  have ver: "apfs_multiblock_verify_csum c (int B) = Inr True" if k: "k < length mss" "disk' (desc_bno xp k) = Some c" for k c
  proof -
    obtain c0 where "nx_blk nx1 (desc_bno xp k) = Some c0" "cpm_holds B c0 (mss ! k)" using D(4) k(1) by (auto simp: cpms_on_def)
    then show ?thesis using desc [OF k(1)] seal_buffer_cpm(2) [of B c0] ok(3) k(2) by auto
  qed
  have "info_ok B x \<and> obj_verified x" if "x \<in> set (map ?seal ?l)" for x
  proof -
    obtain y where "y \<in> set ?l" "x = ?seal y" using \<open>x \<in> _\<close> by auto
    then show ?thesis using seal_eph_ok [of B y "nx_xid nx"] ok(3) ok(5) [of y] by (simp add: obj_verified_def del: of_nat_unat)
  qed
  then show ?thesis
    using ok(1,3) limit D(3) mss cpms ver objs' unfolding checkpoint_def by (auto simp: l intro!: exI [of _ mss])
qed

section \<open>Atomic commits\<close>

text \<open>The areas of the checkpoint that follows one with \<open>m\<close> descriptor and \<open>n\<close> data blocks.\<close>

definition next_areas :: "xp_areas \<Rightarrow> nat \<Rightarrow> nat \<Rightarrow> xp_areas" where
  "next_areas xp m n = xp\<lparr>xp_desc_index := (xp_desc_index xp + m) mod xp_desc_blks xp, xp_data_index := (xp_data_index xp + n) mod xp_data_blks xp\<rparr>"

lemma next_areas_sel [simp]:
  "xp_desc_base (next_areas xp m n) = xp_desc_base xp" "xp_desc_blks (next_areas xp m n) = xp_desc_blks xp"
  "xp_data_base (next_areas xp m n) = xp_data_base xp" "xp_data_blks (next_areas xp m n) = xp_data_blks xp"
  by (simp_all add: next_areas_def)

lemma ring_set_mod: "ring_set base blks (i mod blks) n = ring_set base blks i n"
  by (simp add: ring_set_def ring_def mod_add_left_eq)

lemma ring_set_disjoint:
  assumes "area_ok base blks i0" "m + n \<le> blks"
  shows "ring_set base blks i m \<inter> ring_set base blks (i + m) n = {}"
proof -
  have "ring base blks (i + j) \<noteq> ring base blks (i + (m + j'))" if "j < m" "j' < n" for j j'
    using ring_inj [of blks base j "m + j'" i] assms that by (auto simp: area_ok_def)
  then show ?thesis by (auto simp: ring_set_def add.assoc)
qed

lemma next_sets_disjoint:
  assumes "xp_ok xp" "Suc dl + m \<le> xp_desc_blks xp" "n + k \<le> xp_data_blks xp"
  shows "desc_set xp (Suc dl) \<inter> desc_set (next_areas xp (Suc dl) n) m = {}" "data_set xp n \<inter> data_set (next_areas xp (Suc dl) n) k = {}"
  using ring_set_disjoint [of "xp_desc_base xp" "xp_desc_blks xp" "xp_desc_index xp" "Suc dl" m "xp_desc_index xp"]
    ring_set_disjoint [of "xp_data_base xp" "xp_data_blks xp" "xp_data_index xp" n k "xp_data_index xp"] assms
  by (simp_all add: desc_set_def data_set_def next_areas_def ring_set_mod xp_ok_def)

lemma checkpoint_super_ok:
  assumes "checkpoint_super nx = Inr sb" "fs_bs (nx_fs nx) = int B" "length (nx_raw nx) = B" "rd32 (nx_raw nx) 32 = Inr APFS_NX_MAGIC"
    "super_fields (nx_raw nx) xp dl"
  shows "valid_super (int B) sb (unat (nx_xid nx))" "length sb = B" "super_fields sb xp dl"
proof -
  obtain raw where raw: "wr64 (nx_raw nx) 16 (uint (nx_xid nx)) = Inr raw" "apfs_multiblock_set_csum raw (int B) = Inr sb"
    using assms(1,2) by (auto simp: checkpoint_super_def bind_res_eq_Inr apfs_obj_set_csum_def)
  have "rd64 raw 16 = Inr (unat (nx_xid nx))" using rd_le_wr_le_same [OF raw(1)] by (simp add: nat_uint_mod64)
  then have x: "rd64 sb 16 = Inr (unat (nx_xid nx))" using multiblock_set_csum_frame(2) [OF raw(2), of 16 8] by (simp add: rd_le_def)
  have hi: "rd_le m sb off = rd_le m (nx_raw nx) off" if "24 \<le> off" for m off
    using multiblock_set_csum_frame(2) [OF raw(2), of off] rd_le_wr_le_other [OF raw(1), of off m] that by (simp add: rd_le_def)
  then have "rd32 sb 32 = Inr APFS_NX_MAGIC" using assms(4) hi [of 32 4] by simp
  then show "valid_super (int B) sb (unat (nx_xid nx))"
    using x apfs_multiblock_csum_roundtrip [OF raw(2)] by (simp add: valid_super_def apfs_obj_verify_csum_def)
  show "length sb = B" using multiblock_set_csum_frame(1) [OF raw(2)] wr_le_length [OF raw(1)] assms(3) by simp
  show "super_fields sb xp dl" using assms(5) hi by (simp add: super_fields_def)
qed

definition commit_ready :: "nat \<Rightarrow> xp_areas \<Rightarrow> apfs_nx \<Rightarrow> bool" where
  "commit_ready B xp nx \<longleftrightarrow> new_xp_areas (nx_raw nx) = Inr xp \<and> eph_pre xp B nx \<and> length (nx_raw nx) = B \<and> 152 \<le> B \<and>
     rd32 (nx_raw nx) 32 = Inr APFS_NX_MAGIC \<and> length (nx_eph_list nx) \<le> APFS_EPHEMERAL_LIST_LIMIT \<and> \<not> nx_trans nx 0 \<and>
     (\<forall>k. \<not> nx_trans nx (ring (xp_desc_base xp) (xp_desc_blks xp) k)) \<and>
     (\<forall>k. \<not> nx_trans nx (ring (xp_data_base xp) (xp_data_blks xp) k) \<and> \<not> nx_csum nx (ring (xp_data_base xp) (xp_data_blks xp) k))"

text \<open>
  The limit is compared for equality.  A list whose objects do not step over it, from below the limit to above it,
  is written only if it stays within the limit.
\<close>

definition no_step_over :: "nat \<Rightarrow> nat \<Rightarrow> ephemeral_object_info list \<Rightarrow> bool" where
  "no_step_over B lim l \<longleftrightarrow> (\<forall>i < length l. eph_blocks B (take i l) < lim \<longrightarrow> eph_blocks B (take (Suc i) l) \<le> lim)"

lemma no_step_over_limit:
  assumes "no_step_over B lim l" "\<forall>i < length l. eph_blocks B (take i l) \<noteq> lim"
  shows "eph_blocks B l \<le> lim"
proof -
  have "i \<le> length l \<Longrightarrow> eph_blocks B (take i l) \<le> lim" for i
  proof (induction i)
    case (Suc i)
    then have "eph_blocks B (take i l) < lim" using assms(2) by (simp add: le_neq_implies_less)
    then show ?case using assms(1) Suc.prems by (simp add: no_step_over_def)
  qed simp
  from this [of "length l"] show ?thesis by simp
qed

lemma commit_within_limit:
  assumes "commit_ready B xp nx" "apfs_write_ephemeral_objects nx = Some (Inr nx')"
    "no_step_over B (xp_data_blks xp div 4) (nx_eph_list nx)"
  shows "eph_blocks B (nx_eph_list nx) \<le> xp_data_blks xp div 4"
proof -
  have "eph_pre xp B nx" "new_xp_areas (nx_raw nx) = Inr xp" "152 \<le> length (nx_raw nx)"
    using assms(1) by (simp_all add: commit_ready_def)
  then have "\<forall>i < length (nx_eph_list nx). eph_blocks B (take i (nx_eph_list nx)) \<noteq> xp_data_blks xp div 4"
    using write_ephemeral_objects_result [of xp B nx] assms(2) by auto
  with assms(3) show ?thesis by (rule no_step_over_limit)
qed

lemma commit_atomic:
  assumes latest: "latest_checkpoint B disk xid0 bno0 raw0 xp0 dl0 objs0"
    and ready: "commit_ready B (next_areas xp0 (Suc dl0) (eph_blocks B objs0)) nx"
    and room: "eph_blocks B objs0 + eph_blocks B (nx_eph_list nx) \<le> xp_data_blks xp0" and xid: "xid0 < unat (nx_xid nx)"
    and run: "apfs_write_ephemeral_objects nx = Some (Inr nx')" and sb: "checkpoint_super nx' = Inr sb"
  shows "torn_write disk (commit_buffers nx') disk' \<Longrightarrow> latest_checkpoint B disk' xid0 bno0 raw0 xp0 dl0 objs0"
    "\<exists>dl. latest_checkpoint B ((disk ++ commit_buffers nx')(nx_bno nx' \<mapsto> sb)) (unat (nx_xid nx)) (nx_bno nx') sb
      (next_areas xp0 (Suc dl0) (eph_blocks B objs0)) dl (map (seal_eph (nx_xid nx)) (nx_eph_list nx))"
proof -
  let ?xp = "next_areas xp0 (Suc dl0) (eph_blocks B objs0)" and ?l = "nx_eph_list nx"
  let ?base = "xp_desc_base xp0" and ?blks = "xp_desc_blks xp0"
  have R: "new_xp_areas (nx_raw nx) = Inr ?xp" "eph_pre ?xp B nx" "length (nx_raw nx) = B" "152 \<le> B" "rd32 (nx_raw nx) 32 = Inr APFS_NX_MAGIC"
      "length ?l \<le> APFS_EPHEMERAL_LIST_LIMIT" "\<not> nx_trans nx 0"
    and T: "\<And>k. \<not> nx_trans nx (ring ?base ?blks k)"
      "\<And>k. \<not> nx_trans nx (ring (xp_data_base xp0) (xp_data_blks xp0) k)" "\<And>k. \<not> nx_csum nx (ring (xp_data_base xp0) (xp_data_blks xp0) k)"
    using ready by (simp_all add: commit_ready_def)
  note ok = eph_preD [OF R(2)]
  obtain mss nx1 raw' where nx': "nx' = nx1\<lparr>nx_bno := desc_bno ?xp (length mss), nx_raw := raw'\<rparr>" and inv: "eph_inv ?xp B nx (length ?l) mss nx1"
      and mss: "[] \<notin> set mss" "length mss \<le> ?blks div 4" and raw': "length raw' = B" "super_fields raw' ?xp (length mss)" "rd32 raw' 32 = Inr APFS_NX_MAGIC"
    using write_ephemeral_objects_result [OF R(2,1)] R(3-5) run by auto
  note D = eph_invD [OF inv] and sel = eph_inv_sel [OF inv]
  let ?n = "eph_blocks B ?l" and ?dl = "length mss"
  have L: "apfs_read_main_super (int B) disk = Inr (xid0, bno0, raw0)" "checkpoint B disk xp0 dl0 objs0" "dl0 \<le> ?blks div 4" "?blks \<le> 10000"
    and desc: "\<forall>k. \<exists>c. disk (ring ?base ?blks k) = Some c \<and> length c = B"
    using latest by (simp_all add: latest_checkpoint_def)
  obtain z where z: "disk 0 = Some z" "int (length z) = int B" "rd64 z 112 = Inr ?base" "rd32 z 104 = Inr ?blks"
    using latest by (auto simp: latest_checkpoint_def)
  have xp0: "xp_ok xp0" "80 \<le> B" using L(2) by (simp_all add: checkpoint_def)
  then have pos: "0 < ?blks" "0 < ?base" "?base + ?blks \<le> 2 ^ 63" "0 < xp_data_base xp0" "area_ok ?base ?blks (xp_desc_index xp0)"
      "area_ok (xp_data_base xp0) (xp_data_blks xp0) (xp_data_index xp0)" by (simp_all add: xp_ok_def area_ok_def)
  let ?w = "commit_buffers nx1"
  have w: "commit_buffers nx' = ?w" by (rule ext) (simp add: nx' commit_buffers_def Let_def)
  have dom: "nx_trans nx b \<or> b \<in> desc_set ?xp ?dl \<or> b \<in> data_set ?xp ?n" if "b \<in> dom ?w" for b
    using that D(7) [of b] by (auto simp: commit_buffers_def Let_def split: if_splits)
  have trans: "b \<notin> desc_set xp k" "b \<notin> data_set xp k" if "nx_trans nx b" "xp = xp0 \<or> xp = ?xp" for b xp k
    using that T(1,2) by (auto simp: desc_set_def data_set_def ring_set_def)
  have "Suc dl0 + ?dl \<le> ?blks" using mss(2) L(3) pos(1) by linarith
  note disj = next_sets_disjoint [OF xp0(1) this room]
  have cross: "b \<notin> data_set xp0 k" if "b \<in> desc_set ?xp m" for b k m
    using rings_disjoint [OF xp0(1)] that unfolding desc_set_def data_set_def next_areas_sel by blast
  have cross': "b \<notin> desc_set xp0 k" if "b \<in> data_set ?xp m" for b k m
    using rings_disjoint [OF xp0(1)] that unfolding desc_set_def data_set_def next_areas_sel by blast
  have zero: "0 \<notin> dom ?w"
  proof
    assume "0 \<in> dom ?w"
    then have "0 \<in> desc_set ?xp ?dl \<or> 0 \<in> data_set ?xp ?n" using dom R(7) by blast
    then show False
      using ring_set_bounds [OF pos(5), of 0 "xp_desc_index ?xp" ?dl] ring_set_bounds [OF pos(6), of 0 "xp_data_index ?xp" ?n] pos(2,4)
      by (auto simp: desc_set_def data_set_def)
  qed
  have cpm: "\<exists>ms. cpm_holds B c ms" if wb: "?w (ring ?base ?blks k) = Some c" for k c
  proof -
    let ?b = "ring ?base ?blks k"
    have "?b \<in> ring_set ?base ?blks k 1" by (simp add: ring_set_def)
    then have "?b \<notin> data_set ?xp ?n" using rings_disjoint [OF xp0(1)] unfolding data_set_def next_areas_sel by blast
    then have b: "?b \<in> desc_set ?xp ?dl" using dom [of ?b] T(1) [of k] wb by auto
    then obtain j where j: "j < ?dl" "?b = desc_bno ?xp j" by (auto simp: desc_set_def ring_set_def desc_bno_def)
    then obtain c0 where c0: "nx_blk nx1 ?b = Some c0" "cpm_holds B c0 (mss ! j)" using D(4) by (auto simp: cpms_on_def)
    have "nx_csum nx1 ?b" using D(8) b by blast
    then have "c = seal_buffer (int B) True c0" using wb c0(1) sel(1) ok(2) by (auto simp: commit_buffers_def Let_def split: if_splits)
    then show ?thesis using seal_buffer_cpm(1) [OF c0(2)] xp0(2) by auto
  qed
  show "latest_checkpoint B disk' xid0 bno0 raw0 xp0 dl0 objs0" if "torn_write disk (commit_buffers nx') disk'"
  proof (rule latest_torn_write [OF latest that [unfolded w] zero])
    show "dom ?w \<inter> desc_set xp0 (Suc dl0) = {}" using dom trans(1) disj(1) cross' by blast
    show "dom ?w \<inter> data_set xp0 (eph_blocks B objs0) = {}" using dom trans(2) disj(2) cross by blast
    show "length c = B \<and> (\<forall>x. \<not> valid_super (int B) c x)" if "?w (ring ?base ?blks k) = Some c" for k c
      using cpm [OF that] cpm_not_super by (auto simp: cpm_holds_def)
  qed
  let ?disk = "(disk ++ ?w)(desc_bno ?xp ?dl \<mapsto> sb)"
  have sup: "valid_super (int B) sb (unat (nx_xid nx))" "length sb = B" "super_fields sb ?xp ?dl"
    using checkpoint_super_ok [OF sb, of B ?xp ?dl] raw' sel ok(2) by (simp_all add: nx')
  have lt: "?dl < ?blks" using desc_blks_bounds(1) [OF R(2)] mss(2) by simp
  let ?k = "(xp_desc_index ?xp + ?dl) mod ?blks"
  have k: "?k < ?blks" "slot ?base ?k = desc_bno ?xp ?dl" using pos(1) by (simp_all add: desc_bno_def ring_slot)
  have desc'': "\<forall>k. \<exists>c. ?disk (ring ?base ?blks k) = Some c \<and> length c = B"
  proof
    fix k
    show "\<exists>c. ?disk (ring ?base ?blks k) = Some c \<and> length c = B"
      using cpm [of k] desc sup(2) by (cases "?w (ring ?base ?blks k)") (auto simp: map_add_def cpm_holds_def)
  qed
  obtain x0 where x0: "rd64 z 16 = Inr x0" using rd_le_ok [of 16 8 z] z(2) xp0(2) by auto
  have b63: "?base < 2 ^ 63" using pos by simp
  have "find_super (int B) disk ?base 0 ?blks (x0, 0, z) = Inr (xid0, bno0, raw0)"
    using L(1) read_main_super_eq [of disk, OF z(1,3,4) x0 b63 L(4)] by simp
  then have wins: "super_wins (int B) disk ?base 0 ?blks (x0, 0, z) (xid0, bno0, raw0)"
    using find_super_wins [of ?blks disk ?base 0 "int B" "(x0, 0, z)"] desc_slots [OF desc] xp0(2) by auto
  have others: "disk (slot ?base j) = Some c" if "j < ?blks" "j \<noteq> ?k" "?disk (slot ?base j) = Some c" "valid_super (int B) c x" for j c x
  proof -
    have ne: "slot ?base j \<noteq> desc_bno ?xp ?dl"
      using ring_inj [of ?blks ?base j ?k 0] that(1,2) k pos by (auto simp: ring_slot)
    have "?w (slot ?base j) = None"
    proof (rule ccontr)
      assume "?w (slot ?base j) \<noteq> None"
      then obtain c' where c': "?w (slot ?base j) = Some c'" by auto
      then have "c = c'" using that(3) ne by (simp add: map_add_def)
      then show False using cpm [of j c'] c' that(1,4) cpm_not_super by (auto simp: ring_slot)
    qed
    then show ?thesis using that(3) ne by (simp add: map_add_def)
  qed
  have at: "?disk (slot ?base ?k) = Some sb" using k(2) by simp
  have "super_wins (int B) ?disk ?base 0 ?blks (x0, 0, z) (unat (nx_xid nx), slot ?base ?k, sb)"
    using super_wins_new [where disk' = ?disk, OF wins xid k(1) at sup(1) others] .
  then have "find_super (int B) ?disk ?base 0 ?blks (x0, 0, z) = Inr (unat (nx_xid nx), slot ?base ?k, sb)"
    using desc_slots [OF desc''] xp0(2) by (intro find_super_eq) auto
  moreover have zero': "?disk 0 = Some z"
  proof -
    have "desc_bno ?xp ?dl \<noteq> 0" using ring_bounds [OF pos(5), of "xp_desc_index ?xp + ?dl"] pos(2) by (auto simp: desc_bno_def)
    then show ?thesis using z(1) zero by (auto simp: map_add_def split: option.split)
  qed
  ultimately have main: "apfs_read_main_super (int B) ?disk = Inr (unat (nx_xid nx), desc_bno ?xp ?dl, sb)"
    using read_main_super_eq [of ?disk, OF zero' z(3,4) x0 b63 L(4)] k(2) by simp
  have "checkpoint B ?disk ?xp ?dl (map (seal_eph (nx_xid nx)) ?l)"
    by (rule commit_checkpoint [OF R(2) inv mss(1) _ R(6)]) (use T(3) lt in \<open>auto simp: data_set_def ring_set_def\<close>)
  then have "latest_checkpoint B ?disk (unat (nx_xid nx)) (desc_bno ?xp ?dl) sb ?xp ?dl (map (seal_eph (nx_xid nx)) ?l)"
    unfolding latest_checkpoint_def using main zero' z desc'' sup(3) mss(2) L(4) by auto
  then show "\<exists>dl. latest_checkpoint B ((disk ++ commit_buffers nx')(nx_bno nx' \<mapsto> sb)) (unat (nx_xid nx)) (nx_bno nx') sb ?xp dl (map (seal_eph (nx_xid nx)) ?l)"
    by (auto simp: w) (auto simp: nx')
qed

section \<open>Examples\<close>

text \<open>A container with forty descriptor blocks from 1 on and eight data blocks from 64 on, and objects of one or two blocks.\<close>

definition ck_super :: "nat \<Rightarrow> nat \<Rightarrow> buffer" where
  "ck_super data_index data_len = replicate 16 0 @ le_bytes 8 5 @ replicate 8 0 @ [0x4e, 0x58, 0x53, 0x42] @ replicate 68 0 @
     le_bytes 4 40 @ le_bytes 4 8 @ le_bytes 8 1 @ le_bytes 8 64 @ le_bytes 4 1 @ le_bytes 4 0 @
     le_bytes 4 0 @ le_bytes 4 1 @ le_bytes 4 data_index @ le_bytes 4 data_len @ replicate 8 0"

definition ck_object :: "u64 \<Rightarrow> nat \<Rightarrow> ephemeral_object_info" where
  "ck_object oid n = \<lparr>eph_oid = oid, eph_size = of_nat (n * 160), eph_object = replicate 8 0 @ le_bytes 8 (unat oid) @ replicate (n * 160 - 16) 0\<rparr>"

definition ck_nx :: "buffer \<Rightarrow> ephemeral_object_info list \<Rightarrow> apfs_nx" where
  "ck_nx raw l = \<lparr>nx_fs = sample_fs\<lparr>fs_dev := (fs_dev sample_fs)\<lparr>d_bs := 160, d_block := (\<lambda>_. Some (replicate 160 0)), d_trans := (\<lambda>_. False),
      d_nx_xid := 6, d_eph_list := l\<rparr>\<rparr>, nx_raw = raw, nx_bno = 0, nx_csum = (\<lambda>_. False)\<rparr>"

definition ck_areas :: "nat \<Rightarrow> xp_areas" where
  "ck_areas desc_index = \<lparr>xp_desc_base = 1, xp_desc_blks = 40, xp_desc_index = desc_index, xp_data_base = 64, xp_data_blks = 8, xp_data_index = 0\<rparr>"

definition ck_disk :: "u64 \<Rightarrow> buffer option" where
  "ck_disk b = Some (if b = 0 then ck_super 0 0 else replicate 160 0)"

lemma ck_super_reads:
  "length (ck_super i n) = 160" "rd64 (ck_super i n) 16 = Inr 5" "rd32 (ck_super i n) 32 = Inr 0x4253584e"
  "rd32 (ck_super i n) 104 = Inr 40" "rd32 (ck_super i n) 108 = Inr 8" "rd64 (ck_super i n) 112 = Inr 1" "rd64 (ck_super i n) 120 = Inr 64"
  "rd32 (ck_super i n) 128 = Inr 1" "rd32 (ck_super i n) 132 = Inr 0" "rd32 (ck_super i n) 136 = Inr 0" "rd32 (ck_super i n) 140 = Inr 1"
  by (simp_all add: ck_super_def rd_le_def rd_bytes_def)

lemma ck_super_data: "rd32 (ck_super 6 2) 144 = Inr 6" "rd32 (ck_super 6 2) 148 = Inr 2"
  by (simp_all add: ck_super_def rd_le_def rd_bytes_def)

lemma ck_nx_sel [simp]:
  "nx_eph_list (ck_nx raw l) = l" "fs_bs (nx_fs (ck_nx raw l)) = 160" "nx_blk (ck_nx raw l) b = Some (replicate 160 0)" "\<not> nx_trans (ck_nx raw l) b"
  "\<not> nx_csum (ck_nx raw l) b" "nx_raw (ck_nx raw l) = raw" "nx_xid (ck_nx raw l) = 6"
  by (simp_all add: ck_nx_def)

lemma ck_object_ok: "n = 1 \<or> n = 2 \<Longrightarrow> info_ok 160 (ck_object oid n)" "n = 1 \<or> n = 2 \<Longrightarrow> blkcnt 160 (ck_object oid n) = n"
proof -
  assume n: "n = 1 \<or> n = 2"
  then have sz: "unat (eph_size (ck_object oid n)) = n * 160" by (auto simp: ck_object_def unat_of_nat)
  have "rd_le 8 (replicate 8 0 @ le_bytes 8 (unat oid) @ replicate (n * 160 - 16) 0) 8 = Inr (le_val (le_bytes 8 (unat oid)))"
    by (rule rd_le_append) simp_all
  moreover have "unat oid < 256 ^ 8" using unsigned_less [of oid, where ?'a = nat] by simp
  ultimately have "rd64 (eph_object (ck_object oid n)) 8 = Inr (unat oid)" by (simp add: ck_object_def)
  moreover have "length (eph_object (ck_object oid n)) = n * 160" using n by (auto simp: ck_object_def)
  ultimately show "info_ok 160 (ck_object oid n)" using n sz by (auto simp: info_ok_def ck_object_def)
  show "blkcnt 160 (ck_object oid n) = n" using sz by (simp add: blkcnt_def)
qed

lemma ck_areas_ok: "xp_ok (ck_areas 0)" "xp_ok (ck_areas 1)" "next_areas (ck_areas 0) (Suc 0) 0 = ck_areas 1"
  by (simp_all add: xp_ok_def area_ok_def ck_areas_def next_areas_def)

lemma ck_ready:
  assumes "\<forall>x \<in> set l. info_ok 160 x" "eph_blocks 160 l \<le> 8" "length l \<le> 100"
  shows "commit_ready 160 (ck_areas 1) (ck_nx (ck_super i n) l)"
proof -
  have "new_xp_areas (ck_super i n) = Inr (ck_areas 1)" by (simp add: new_xp_areas_def ck_super_reads ck_areas_def)
  moreover have "length l \<le> APFS_EPHEMERAL_LIST_LIMIT" using assms(3) by (simp add: APFS_EPHEMERAL_LIST_LIMIT_def)
  moreover have "eph_pre (ck_areas 1) 160 (ck_nx (ck_super i n) l)"
    using assms(1,2) ck_areas_ok(2) by (simp add: eph_pre_def ck_super_reads) (simp add: ck_areas_def)
  ultimately show ?thesis by (simp add: commit_ready_def ck_super_reads)
qed

lemma le_val_replicate: "le_val (replicate n 0) = 0"
  by (induction n) simp_all

lemma ck_latest: "latest_checkpoint 160 ck_disk 5 0 (ck_super 0 0) (ck_areas 0) 0 []"
proof -
  have slots: "ck_disk (slot 1 j) = Some (replicate 160 0)" if "j < 40" for j
  proof -
    have "unat (slot 1 j) = 1 + j" using unat_ring [of 40 1 j] that by (simp add: ring_slot)
    then have "slot 1 j \<noteq> 0" by auto
    then show ?thesis by (simp add: ck_disk_def)
  qed
  have zero: "\<not> valid_super 160 (replicate 160 0) x" for x by (simp add: valid_super_def rd_le_def rd_bytes_def le_val_replicate)
  have "super_wins 160 ck_disk 1 0 40 (5, 0, ck_super 0 0) (5, 0, ck_super 0 0)"
    using slots zero by (auto simp: super_wins_def)
  then have "find_super 160 ck_disk 1 0 40 (5, 0, ck_super 0 0) = Inr (5, 0, ck_super 0 0)"
    using slots by (intro find_super_eq) auto
  moreover have "ck_disk 0 = Some (ck_super 0 0)" by (simp add: ck_disk_def)
  ultimately have "apfs_read_main_super 160 ck_disk = Inr (5, 0, ck_super 0 0)"
    using read_main_super_eq [of ck_disk "ck_super 0 0" 1 40 5 160] ck_super_reads by simp
  moreover have "super_fields (ck_super 0 0) (ck_areas 0) 0" by (simp add: super_fields_def ck_super_reads ck_areas_def)
  moreover have "checkpoint 160 ck_disk (ck_areas 0) 0 []" using ck_areas_ok(1) by (simp add: checkpoint_def cpms_on_def)
  ultimately show ?thesis by (auto simp: latest_checkpoint_def ck_disk_def ck_super_reads ck_areas_def)
qed

section \<open>Properties\<close>

text \<open>
  (C21) A commit is atomic, if no object of it steps over the limit for the data blocks of a checkpoint, a quarter of
  the data area.  The code compares the limit for equality, so it is kept only under this condition
  (\<open>no_step_over\<close>), which a container whose objects all have one block meets and which C22 violates.  Let the
  container hold a checkpoint within the limit, and let the areas of the transaction follow those of that checkpoint
  (\<open>commit_ready\<close>, which also asks for well formed objects that together fit into the data area, and for no dirty
  buffers of the transaction in both areas).  If the objects are written, then they stay within the limit; if power
  fails while the buffers of the transaction are written, with any subset of them on disk, the next mount finds the
  superblock and all of the ephemeral objects of the previous checkpoint; and once the new superblock is on disk, the
  mount finds it, it reads back the ephemeral objects of the transaction, and the container again holds a checkpoint
  within the limit.
\<close>

theorem commit_is_atomic:
  assumes "latest_checkpoint B disk xid0 bno0 raw0 xp0 dl0 objs0" "eph_blocks B objs0 \<le> xp_data_blks xp0 div 4"
    and "commit_ready B (next_areas xp0 (Suc dl0) (eph_blocks B objs0)) nx" "xid0 < unat (nx_xid nx)"
    and "no_step_over B (xp_data_blks xp0 div 4) (nx_eph_list nx)"
    and "apfs_write_ephemeral_objects nx = Some (Inr nx')" "checkpoint_super nx' = Inr sb"
  shows "(\<forall>disk'. torn_write disk (commit_buffers nx') disk' \<longrightarrow>
      apfs_read_main_super (int B) disk' = Inr (xid0, bno0, raw0) \<and>
      apfs_read_ephemeral_objects (int B) disk' (\<lambda>_. False) raw0 = Inr objs0) \<and>
    (let disk' = (disk ++ commit_buffers nx')(nx_bno nx' \<mapsto> sb); objs = map (seal_eph (nx_xid nx)) (nx_eph_list nx) in
      apfs_read_main_super (int B) disk' = Inr (unat (nx_xid nx), nx_bno nx', sb) \<and>
      apfs_read_ephemeral_objects (int B) disk' (\<lambda>_. False) sb = Inr objs \<and>
      eph_blocks B objs \<le> xp_data_blks xp0 div 4 \<and>
      (\<exists>dl. latest_checkpoint B disk' (unat (nx_xid nx)) (nx_bno nx') sb (next_areas xp0 (Suc dl0) (eph_blocks B objs0)) dl objs))"
proof -
  have limit: "eph_blocks B (nx_eph_list nx) \<le> xp_data_blks xp0 div 4"
    using commit_within_limit [OF assms(3,6)] assms(5) by simp
  then have "eph_blocks B objs0 + eph_blocks B (nx_eph_list nx) \<le> xp_data_blks xp0"
    using assms(2) by linarith
  note atomic = commit_atomic [OF assms(1,3) this assms(4,6,7)]
  have sealed: "eph_blocks B (map (seal_eph (nx_xid nx)) (nx_eph_list nx)) = eph_blocks B (nx_eph_list nx)"
    by simp
  have reads: "apfs_read_main_super (int B) d = Inr (x, b, r)" "apfs_read_ephemeral_objects (int B) d (\<lambda>_. False) r = Inr os"
    if "latest_checkpoint B d x b r xp dl os" for d x b r xp dl os
  proof -
    have "xp_desc_blks xp \<le> 10000" "dl \<le> xp_desc_blks xp div 4" using that by (auto simp: latest_checkpoint_def)
    then have "dl < 2 ^ 31" by simp
    then show "apfs_read_main_super (int B) d = Inr (x, b, r)" "apfs_read_ephemeral_objects (int B) d (\<lambda>_. False) r = Inr os"
      using that checkpoint_read [of B d xp dl os r] by (auto simp: latest_checkpoint_def)
  qed
  show ?thesis unfolding Let_def sealed using atomic reads limit by blast
qed

lemma ck_written:
  assumes "commit_ready 160 (ck_areas 1) (ck_nx raw l)" "\<forall>i < length l. eph_blocks 160 (take i l) \<noteq> 2 \<and> i < 10"
  obtains mss nx1 raw' where "apfs_write_ephemeral_objects (ck_nx raw l) = Some (Inr (nx1\<lparr>nx_bno := desc_bno (ck_areas 1) (length mss), nx_raw := raw'\<rparr>))"
    "eph_inv (ck_areas 1) 160 (ck_nx raw l) (length l) mss nx1" "length raw' = 160" "rd32 raw' 148 = Inr (eph_blocks 160 l mod 2 ^ 32)"
proof -
  have areas: "xp_data_blks (ck_areas 1) div 4 = 2" "xp_desc_blks (ck_areas 1) div 4 = 10" by (simp_all add: ck_areas_def)
  have no: "\<not> (\<exists>i < length (nx_eph_list (ck_nx raw l)). eph_blocks 160 (take i (nx_eph_list (ck_nx raw l))) = xp_data_blks (ck_areas 1) div 4 \<or> xp_desc_blks (ck_areas 1) div 4 \<le> i)"
    unfolding areas using assms(2) by (auto simp: not_le)
  have ready: "eph_pre (ck_areas 1) 160 (ck_nx raw l)" "new_xp_areas (nx_raw (ck_nx raw l)) = Inr (ck_areas 1)" "152 \<le> length (nx_raw (ck_nx raw l))"
      "length raw = 160"
    using assms(1) by (simp_all add: commit_ready_def)
  show thesis using write_ephemeral_objects_result [OF ready(1-3)] no ready(4) that by auto
qed

theorem commit_is_atomic_witness:
  "\<exists>nx' sb. apfs_write_ephemeral_objects (ck_nx (ck_super 0 0) [ck_object 1024 1]) = Some (Inr nx') \<and> checkpoint_super nx' = Inr sb \<and>
     apfs_read_ephemeral_objects 160 ((ck_disk ++ commit_buffers nx')(nx_bno nx' \<mapsto> sb)) (\<lambda>_. False) sb = Inr [seal_eph 6 (ck_object 1024 1)] \<and>
     apfs_read_main_super 160 (ck_disk ++ commit_buffers nx') = Inr (5, 0, ck_super 0 0)"
proof -
  let ?l = "[ck_object 1024 1]" and ?nx = "ck_nx (ck_super 0 0) [ck_object 1024 1]"
  have ready: "commit_ready 160 (ck_areas 1) ?nx" using ck_object_ok [of 1 1024] by (intro ck_ready) simp_all
  obtain mss nx1 raw' where w: "apfs_write_ephemeral_objects ?nx = Some (Inr (nx1\<lparr>nx_bno := desc_bno (ck_areas 1) (length mss), nx_raw := raw'\<rparr>))"
      "eph_inv (ck_areas 1) 160 ?nx (length ?l) mss nx1" "length raw' = 160" "rd32 raw' 148 = Inr (eph_blocks 160 ?l mod 2 ^ 32)"
    by (rule ck_written [OF ready]) simp_all
  let ?nx' = "nx1\<lparr>nx_bno := desc_bno (ck_areas 1) (length mss), nx_raw := raw'\<rparr>"
  obtain r where r: "wr64 raw' 16 (uint (nx_xid nx1)) = Inr r" using wr_le_ok [of 16 8 raw'] w(3) by auto
  obtain sb where "apfs_multiblock_set_csum r 160 = Inr sb" using apfs_multiblock_csum_ok [of 160 r] wr_le_length [OF r] w(3) by auto
  then have sb: "checkpoint_super ?nx' = Inr sb" using r eph_inv_sel(1) [OF w(2)] by (simp add: checkpoint_super_def apfs_obj_set_csum_def)
  have ready': "commit_ready 160 (next_areas (ck_areas 0) (Suc 0) (eph_blocks 160 [])) ?nx" using ready ck_areas_ok(3) by simp
  have "no_step_over 160 (xp_data_blks (ck_areas 0) div 4) (nx_eph_list ?nx)"
    using ck_object_ok(2) [of 1 1024] by (simp add: no_step_over_def ck_areas_def)
  note atomic = commit_is_atomic [OF ck_latest _ ready' _ this w(1) sb]
  have "torn_write ck_disk (commit_buffers ?nx') (ck_disk ++ commit_buffers ?nx')"
    by (auto simp: torn_write_def map_add_def split: option.split)
  with atomic show ?thesis using w(1) sb by (auto simp: Let_def simp del: fun_upd_apply)
qed

text \<open>
  (C22) The limit for the data blocks of a checkpoint, which is meant to keep the ring from overwriting itself,
  is not enforced: it is compared for equality, and an object of two blocks steps over it.  Four objects of a
  container with eight data blocks, where the limit is two blocks, are written to seven blocks.  The last one of
  them, block 70, belongs to the data of the previous checkpoint, which takes the blocks 70 and 71.
\<close>

theorem checkpoint_data_limit_skipped:
  "rd32 (ck_super 6 2) 108 = Inr 8 \<and> rd64 (ck_super 6 2) 120 = Inr 64 \<and> rd32 (ck_super 6 2) 144 = Inr 6 \<and> rd32 (ck_super 6 2) 148 = Inr 2 \<and>
   (\<exists>nx'. apfs_write_ephemeral_objects (ck_nx (ck_super 6 2) [ck_object 1024 1, ck_object 1025 2, ck_object 1026 2, ck_object 1027 2]) = Some (Inr nx') \<and>
     rd32 (nx_raw nx') 148 = Inr 7 \<and> commit_buffers nx' 70 \<noteq> None)"
proof -
  let ?l = "[ck_object 1024 1, ck_object 1025 2, ck_object 1026 2, ck_object 1027 2]"
  let ?nx = "ck_nx (ck_super 6 2) ?l"
  have cnt: "blkcnt 160 (ck_object 1024 1) = 1" "blkcnt 160 (ck_object 1025 2) = 2" "blkcnt 160 (ck_object 1026 2) = 2" "blkcnt 160 (ck_object 1027 2) = 2"
    using ck_object_ok(2) by auto
  have ready: "commit_ready 160 (ck_areas 1) ?nx" using cnt by (intro ck_ready) (auto intro: ck_object_ok(1))
  have limit: "\<forall>i < length ?l. eph_blocks 160 (take i ?l) \<noteq> 2 \<and> i < 10"
  proof (intro allI impI)
    fix i
    assume "i < length ?l"
    then consider "i = 0" | "i = 1" | "i = 2" | "i = 3" by (auto simp: less_Suc_eq)
    then show "eph_blocks 160 (take i ?l) \<noteq> 2 \<and> i < 10" by cases (use cnt in \<open>simp_all add: numeral_eq_Suc\<close>)
  qed
  obtain mss nx1 raw' where w: "apfs_write_ephemeral_objects ?nx = Some (Inr (nx1\<lparr>nx_bno := desc_bno (ck_areas 1) (length mss), nx_raw := raw'\<rparr>))"
      "eph_inv (ck_areas 1) 160 ?nx (length ?l) mss nx1" "length raw' = 160" "rd32 raw' 148 = Inr (eph_blocks 160 ?l mod 2 ^ 32)"
    by (rule ck_written [OF ready limit])
  have total: "eph_blocks 160 (take (length ?l) ?l) = 7" "eph_blocks 160 ?l = 7" using cnt by simp_all
  have "70 \<in> data_set (ck_areas 1) 7" unfolding data_set_def ring_set_def by (rule image_eqI [of _ _ 6]) (simp_all add: ring_def ck_areas_def)
  then have "nx_trans nx1 70" using eph_invD(7) [OF w(2), of 70] total by simp
  moreover have "nx_blk nx1 70 \<noteq> None"
    using objects_at_exist [OF eph_invD(5) [OF w(2)], of 70] \<open>70 \<in> _\<close> total by (simp add: data_set_def)
  ultimately have "commit_buffers (nx1\<lparr>nx_bno := desc_bno (ck_areas 1) (length mss), nx_raw := raw'\<rparr>) 70 \<noteq> None"
    by (simp add: commit_buffers_def Let_def)
  moreover have "rd32 raw' 148 = Inr 7" using w(4) total(2) by simp
  ultimately show ?thesis using w(1) ck_super_reads(5,7) ck_super_data by (auto intro: exI [of _ "nx1\<lparr>nx_bno := desc_bno (ck_areas 1) (length mss), nx_raw := raw'\<rparr>"])
qed

end
