(* ===== verification/TransRace.thy ===== *)
theory TransRace
  imports TransInv CheckpointCommit
begin

text \<open>The properties of the machine of transactions, with concrete runs of it, among them the two races.\<close>

section \<open>Commits that succeed\<close>

abbreviation io_done :: trans_io where
  "io_done \<equiv> \<lparr>io_wrote = \<lambda>_. True, io_ok = True, io_super = True, io_err = None\<rparr>"

lemma sm_sync_sel [simp]:
  "nx_raw (sm_sync f x nx) = nx_raw nx" "nx_bno (sm_sync f x nx) = nx_bno nx" "nx_csum (sm_sync f x nx) = nx_csum nx"
  "fs_bs (nx_fs (sm_sync sm_store x nx)) = fs_bs (nx_fs nx)" "nx_blk (sm_sync sm_store x nx) = nx_blk nx"
  "fs_dev (nx_fs (sm_sync sm_load x nx)) = fs_dev (nx_fs nx)"
  by (auto simp: sm_sync_def sm_store_def sm_load_def Let_def fs_set_eph_def fs_set_raw_def fs_set_sm_def split: sum.splits)

lemma sm_store_put_block:
  "nx_eph_list (sm_sync sm_store x (nx\<lparr>nx_fs := put_block b r (nx_fs nx)\<rparr>)) = nx_eph_list (sm_sync sm_store x nx)"
  by (auto simp: sm_sync_def sm_store_def Let_def fs_set_eph_def put_block_def split: sum.splits)

text \<open>The objects and the superblock of a commit whose objects keep clear of the limits.\<close>

lemma objects_written:
  assumes pre: "eph_pre xp B nx" "new_xp_areas (nx_raw nx) = Inr xp" "152 \<le> length (nx_raw nx)" "length (nx_raw nx) = B"
    and limits: "\<forall>i < length (nx_eph_list nx). eph_blocks B (take i (nx_eph_list nx)) \<noteq> xp_data_blks xp div 4 \<and> i < xp_desc_blks xp div 4"
  shows "\<exists>nx' sb. apfs_write_ephemeral_objects nx = Some (Inr nx') \<and> checkpoint_super nx' = Inr sb"
proof -
  obtain nx1 mss raw' where w: "apfs_write_ephemeral_objects nx = Some (Inr (nx1\<lparr>nx_bno := desc_bno xp (length mss), nx_raw := raw'\<rparr>))"
      "eph_inv xp B nx (length (nx_eph_list nx)) mss nx1" "length raw' = B"
    using write_ephemeral_objects_result [OF pre(1-3)] pre(4) limits by (auto simp: not_le)
  let ?nx' = "nx1\<lparr>nx_bno := desc_bno xp (length mss), nx_raw := raw'\<rparr>"
  obtain r where r: "wr64 raw' 16 (uint (fs_xid (nx_fs nx1))) = Inr r" using wr_le_ok [of 16 8 raw'] w(3) pre(3,4) by auto
  obtain sb where "apfs_multiblock_set_csum r (int B) = Inr sb"
    using apfs_multiblock_csum_ok [of "int B" r] wr_le_length [OF r] w(3) pre(3,4) by auto
  then have "checkpoint_super ?nx' = Inr sb"
    using r eph_inv_sel(1) [OF w(2)] eph_preD(2) [OF pre(1)] by (simp add: checkpoint_super_def apfs_obj_set_csum_def)
  with w(1) show ?thesis by blast
qed

lemma vsb_sync_ok: "240 \<le> length (v_vsb_raw v) \<Longrightarrow> \<exists>raw. vsb_sync v = Inr ((set_fs (put_block (v_vsb_bno v) raw (v_fs v)) v)\<lparr>v_vsb_raw := raw\<rparr>)"
  by (simp add: vsb_sync_def Let_def wr_le_def memcpy_Inr) (rule exI, rule refl)

lemma commit_run:
  fixes x :: apfs_tx
  defines "nx \<equiv> sm_sync sm_store x (v_nx (cur_vol x))"
  assumes sm: "sm_free_cache_base (fs_sm (v_fs (x_vol x))) = 0" "sm_ip_bmaps (fs_sm (v_fs (x_vol x))) = []"
    and vsb: "240 \<le> length (v_vsb_raw (x_vol x))"
    and pre: "eph_pre xp B nx" "new_xp_areas (nx_raw nx) = Inr xp" "152 \<le> length (nx_raw nx)" "length (nx_raw nx) = B"
    and limits: "\<forall>i < length (nx_eph_list nx). eph_blocks B (take i (nx_eph_list nx)) \<noteq> xp_data_blks xp div 4 \<and> i < xp_desc_blks xp div 4"
  obtains x' where "commit_write io_done x = Some (None, True, x')"
    "x_trans x' = (x_trans x)\<lparr>t_starts_count := 0\<rparr>" "x_xid x' = x_xid x" "x_rdonly x' = x_rdonly x"
proof -
  let ?v = "cur_vol x"
  have v: "fs_sm (v_fs ?v) = fs_sm (v_fs (x_vol x))" "v_vsb_raw ?v = v_vsb_raw (x_vol x)" by (simp_all add: cur_vol_def set_fs_def)
  obtain raw where raw: "vsb_sync ?v = Inr ((set_fs (put_block (v_vsb_bno ?v) raw (v_fs ?v)) ?v)\<lparr>v_vsb_raw := raw\<rparr>)"
    using vsb_sync_ok [of ?v] vsb v by auto
  define v' where "v' = (set_fs (put_block (v_vsb_bno ?v) raw (v_fs ?v)) ?v)\<lparr>v_vsb_raw := raw\<rparr>"
  define nx1 where "nx1 = sm_sync sm_store x (v_nx v')"
  have nx1: "nx_eph_list nx1 = nx_eph_list nx" "nx_raw nx1 = nx_raw nx" "fs_bs (nx_fs nx1) = fs_bs (nx_fs nx)"
      "\<And>b. nx_blk nx b \<noteq> None \<Longrightarrow> nx_blk nx1 b \<noteq> None"
    unfolding nx1_def v'_def nx_def using sm_store_put_block [where x = x and nx = "v_nx (cur_vol x)"] by (auto simp: set_fs_def put_block_def)
  have "eph_pre xp B nx1" using pre(1) nx1 unfolding eph_pre_def by auto
  then obtain nx' sb where nx': "apfs_write_ephemeral_objects nx1 = Some (Inr nx')" "checkpoint_super nx' = Inr sb"
    using objects_written [of xp B nx1] pre(2-4) limits nx1 by auto
  have same: "set_fs (v_fs ?v) ?v = ?v" by (simp add: set_fs_def)
  have prep: "commit_prepare x = Some (Inr (x\<lparr>x_vol := v'\<lparr>v_nx := sm_sync sm_load x nx'\<rparr>\<rparr>))"
    using nx'(1) by (simp add: commit_prepare_def Let_def sm v apfs_write_ip_bitmaps_def same raw v'_def [symmetric] nx1_def)
  have "checkpoint_super (v_nx (drop_buffers (seal_buffers (v'\<lparr>v_nx := sm_sync sm_load x nx'\<rparr>)))) = Inr sb"
    using nx'(2) by (simp add: checkpoint_super_def drop_buffers_def seal_buffers_def set_fs_def Let_def)
  then obtain x' where x': "commit_write io_done x = Some (None, True, x')"
    by (simp add: commit_write_def prep Let_def apfs_checkpoint_end_def)
  with commit_write_result [OF this] show thesis by (auto intro: that)
qed

section \<open>A container with an open transaction\<close>

definition race_vol :: apfs_vol where
  "race_vol = \<lparr>v_nx = (ck_nx (ck_super 0 0) [])\<lparr>nx_fs := (nx_fs (ck_nx (ck_super 0 0) []))\<lparr>fs_sm := (fs_sm sample_fs)\<lparr>sm_free_count := 200\<rparr>\<rparr>\<rparr>,
     v_vol_nr = 0, v_snap_name = None, v_rdonly = False, v_vsb_bno = 2000, v_vsb_raw = replicate 240 0, v_cat_root = sample_node\<rparr>"

definition race_tx :: "u32 \<Rightarrow> bool \<Rightarrow> u64 list \<Rightarrow> int \<Rightarrow> apfs_tx" where
  "race_tx st work inodes n = \<lparr>x_vol = race_vol, x_xid = 6, x_rdonly = False,
     x_trans = \<lparr>t_state = st, t_work_sb = work, t_inodes = inodes, t_starts_count = n\<rparr>,
     x_buffers_max = 100, x_eph_read = True, x_sm_read = True, x_disk = ck_disk\<rparr>"

definition race_sys :: "apfs_tx \<Rightarrow> nat option \<Rightarrow> (nat \<Rightarrow> tpc) \<Rightarrow> trans_sys" where
  "race_sys x l pc = \<lparr>s_tx = x, s_lock = l, s_pc = pc, s_log = [5]\<rparr>"

lemma race_tx_sel [simp]:
  "x_vol (race_tx st work inodes n) = race_vol" "x_xid (race_tx st work inodes n) = 6" "\<not> x_rdonly (race_tx st work inodes n)"
  "x_trans (race_tx st work inodes n) = \<lparr>t_state = st, t_work_sb = work, t_inodes = inodes, t_starts_count = n\<rparr>"
  "x_eph_read (race_tx st work inodes n)" "x_disk (race_tx st work inodes n) = ck_disk"
  by (simp_all add: race_tx_def)

lemma race_sys_sel [simp]:
  "s_tx (race_sys x l pc) = x" "s_lock (race_sys x l pc) = l" "s_pc (race_sys x l pc) = pc" "s_log (race_sys x l pc) = [5]"
  by (simp_all add: race_sys_def)

lemma race_moves [simp]:
  "enter t p x' (race_sys x l pc) = race_sys x' (Some t) (pc(t := p))" "leave t p x' (race_sys x l pc) = race_sys x' None (pc(t := p))"
  "(race_sys x l pc)\<lparr>s_tx := x'\<rparr> = race_sys x' l pc" "(race_sys x l pc)\<lparr>s_pc := pc'\<rparr> = race_sys x l pc'"
  "set_trans f (race_tx st work inodes n) = (race_tx st work inodes n)\<lparr>x_trans := f (x_trans (race_tx st work inodes n))\<rparr>"
  by (simp_all add: enter_def leave_def race_sys_def set_trans_def race_tx_def)

lemma race_upd [simp]:
  "(race_tx st work inodes n)\<lparr>x_trans := \<lparr>t_state = st', t_work_sb = work', t_inodes = inodes', t_starts_count = n'\<rparr>\<rparr> = race_tx st' work' inodes' n'"
  "or_state m (race_tx st work inodes n) = race_tx (set_bit m st) work inodes n"
  by (simp_all add: race_tx_def or_state_def set_trans_def)

lemma race_start: "n > 0 \<Longrightarrow> apfs_transaction_start APFS_TRANS_REG (race_tx st work inodes n) = Some (Started, race_tx st work inodes (n + 1))"
  by (simp add: apfs_transaction_start_def start_read_eph_def Let_def apfs_transaction_has_room_def race_vol_def)

lemma race_need_commit:
  "bit st 0 \<Longrightarrow> \<not> bit st 1 \<Longrightarrow> \<not> bit st 2 \<Longrightarrow>
   apfs_transaction_need_commit (race_tx st work inodes n) = Inr (True, \<lparr>t_state = 0, t_work_sb = work, t_inodes = inodes, t_starts_count = n\<rparr>)"
  by (simp add: apfs_transaction_need_commit_def Let_def)

lemma race_op_change: "bit st' 2 = bit st 2 \<Longrightarrow> op_change (race_tx st work inodes n) (race_tx st' work inodes' n)"
  by (simp add: op_change_def)

text \<open>The commit of this container succeeds: there are no ephemeral objects to write.\<close>

lemma race_commit:
  obtains x where "commit_write io_done (race_tx st work inodes n) = Some (None, True, x)"
    "x_trans x = \<lparr>t_state = st, t_work_sb = work, t_inodes = inodes, t_starts_count = 0\<rparr>" "x_xid x = 6" "\<not> x_rdonly x"
proof -
  let ?x = "race_tx st work inodes n"
  define nx where "nx = sm_sync sm_store ?x (v_nx (cur_vol ?x))"
  have sel: "nx_raw nx = ck_super 0 0" "nx_eph_list nx = []" "fs_bs (nx_fs nx) = 160" "nx_blk nx b = Some (replicate 160 0)" for b
    by (auto simp: nx_def cur_vol_def race_vol_def set_fs_def sm_sync_def sm_store_def apfs_ephemeral_object_lookup_def ck_nx_def split: sum.splits)
  have areas: "new_xp_areas (nx_raw nx) = Inr (ck_areas 1)" by (simp add: sel new_xp_areas_def ck_super_reads ck_areas_def)
  have pre: "eph_pre (ck_areas 1) 160 nx"
    unfolding eph_pre_def sel using ck_areas_ok(2) ck_super_reads by simp (simp add: ck_areas_def)
  have "sm_free_cache_base (fs_sm (v_fs (x_vol ?x))) = 0" "sm_ip_bmaps (fs_sm (v_fs (x_vol ?x))) = []" "240 \<le> length (v_vsb_raw (x_vol ?x))"
    "152 \<le> length (nx_raw nx)" "length (nx_raw nx) = 160"
    by (simp_all add: sel ck_super_reads) (simp_all add: race_vol_def sample_fs_def)
  moreover have "\<forall>i < length (nx_eph_list nx). eph_blocks 160 (take i (nx_eph_list nx)) \<noteq> xp_data_blks (ck_areas 1) div 4 \<and> i < xp_desc_blks (ck_areas 1) div 4"
    by (simp add: sel)
  ultimately obtain x where "commit_write io_done ?x = Some (None, True, x)" "x_trans x = (x_trans ?x)\<lparr>t_starts_count := 0\<rparr>"
      "x_xid x = x_xid ?x" "x_rdonly x = x_rdonly ?x"
    using commit_run [of ?x "ck_areas 1" 160, folded nx_def, OF _ _ _ pre areas] by blast
  then show thesis by (intro that) simp_all
qed

lemma reach_step: "trans_step careful a b \<Longrightarrow> trans_reach careful b c \<Longrightarrow> trans_reach careful a c"
  by (rule converse_rtranclp_into_rtranclp)

text \<open>Steps of this container.\<close>

lemma race_steps:
  "pc t = In_op \<Longrightarrow> bit st' 2 = bit st 2 \<Longrightarrow> trans_step False (race_sys (race_tx st work inodes n) l pc) (race_sys (race_tx st' work inodes' n) l pc)"
  "pc t = In_op \<Longrightarrow> trans_step False (race_sys x l pc) (race_sys x l (pc(t := Commit_now)))"
  "pc t = Commit_now \<Longrightarrow> bit st 0 \<Longrightarrow> \<not> bit st 1 \<Longrightarrow> \<not> bit st 2 \<Longrightarrow>
     trans_step False (race_sys (race_tx st work inodes n) l pc) (race_sys (race_tx 0 work inodes n) (Some t) (pc(t := Flushing For_commit None)))"
  "pc t = Idle \<Longrightarrow> n > 0 \<Longrightarrow>
     trans_step False (race_sys (race_tx st work inodes n) None pc) (race_sys (race_tx st work inodes (n + 1)) (Some t) (pc(t := In_op)))"
  "pc t = Flushing c None \<Longrightarrow>
     trans_step False (race_sys (race_tx st work (i # is) n) l pc) (race_sys (race_tx (set_bit 2 st) work is n) None (pc(t := Evicting c None)))"
  "pc t = Evicting c None \<Longrightarrow>
     trans_step False (race_sys (race_tx st work inodes n) None pc) (race_sys (race_tx 0 work inodes n) (Some t) (pc(t := Flushing c None)))"
  "pc t = In_op \<Longrightarrow> trans_step False (race_sys x l pc) (race_sys x l (pc(t := Flushing For_snapshot None)))"
  "pc t = Flushing For_snapshot None \<Longrightarrow> trans_step False (race_sys (race_tx st work [] n) l pc) (race_sys (race_tx st work [] n) l (pc(t := In_op)))"
proof goal_cases
  case 1
  then show ?case using trans_step.op_work [of "race_sys (race_tx st work inodes n) l pc" t "race_tx st' work inodes' n" False] race_op_change by simp
next
  case 2
  then show ?case using trans_step.op_done [of "race_sys x l pc" t False] by simp
next
  case 3
  note need = race_need_commit [OF 3(2-4), of work inodes n]
  then show ?case using 3(1) trans_step.commit_begin [of "race_sys (race_tx st work inodes n) l pc" t _ False, unfolded race_sys_sel, OF 3(1) need] by simp
next
  case 4
  then show ?case using trans_step.start_ok [of "race_sys (race_tx st work inodes n) None pc" t APFS_TRANS_REG _ False] race_start by simp
next
  case 5
  have "inode_change (race_tx st work (i # is) n) (race_tx st work (i # is) n)" by (simp add: inode_change_def op_change_def)
  then show ?case using 5 trans_step.flush_inode [of "race_sys (race_tx st work (i # is) n) l pc" t c None i "is" "race_tx st work (i # is) n" None _ False] by simp
next
  case 6
  then show ?case using trans_step.evicted [of "race_sys (race_tx st work inodes n) None pc" t c None False] by simp
next
  case 7
  then show ?case using trans_step.snapshot_flush [of "race_sys x l pc" t False] by simp
next
  case 8
  then show ?case using trans_step.snapshot_flushed [of "race_sys (race_tx st work [] n) l pc" t False] by simp
qed




section \<open>A container without room\<close>

text \<open>
  A container with the checkpoint 6, sixteen data blocks and three ephemeral objects, the space manager and the roots
  of the two free queues, which are empty.  No block is free, so that a start has no room and commits.
\<close>

definition full_super :: buffer where
  "full_super = replicate 16 0 @ le_bytes 8 6 @ replicate 8 0 @ [0x4e, 0x58, 0x53, 0x42] @ replicate 68 0 @
     le_bytes 4 40 @ le_bytes 4 16 @ le_bytes 8 1 @ le_bytes 8 64 @ le_bytes 4 1 @ le_bytes 4 0 @
     le_bytes 4 0 @ le_bytes 4 1 @ le_bytes 4 0 @ le_bytes 4 0 @ le_bytes 8 1024"

definition full_sm :: buffer where
  "full_sm = replicate 8 0 @ le_bytes 8 1024 @ replicate 192 0 @ le_bytes 8 1025 @ replicate 32 0 @ le_bytes 8 1026 @ replicate 64 0"

definition empty_queue :: "nat \<Rightarrow> buffer" where
  "empty_queue oid = replicate 8 0 @ le_bytes 8 oid @ replicate 136 0 @ le_bytes 8 1"

definition full_objects :: "buffer \<Rightarrow> buffer \<Rightarrow> buffer \<Rightarrow> ephemeral_object_info list" where
  "full_objects sm ip main = [\<lparr>eph_oid = 1024, eph_size = 320, eph_object = sm\<rparr>,
     \<lparr>eph_oid = 1025, eph_size = 160, eph_object = ip\<rparr>, \<lparr>eph_oid = 1026, eph_size = 160, eph_object = main\<rparr>]"

definition full_tx :: apfs_tx where
  "full_tx = \<lparr>x_vol = \<lparr>v_nx = ck_nx full_super (full_objects full_sm (empty_queue 1025) (empty_queue 1026)),
       v_vol_nr = 0, v_snap_name = None, v_rdonly = False, v_vsb_bno = 2000, v_vsb_raw = replicate 240 0, v_cat_root = sample_node\<rparr>,
     x_xid = 6, x_rdonly = False, x_trans = apfs_transaction_init, x_buffers_max = 100, x_eph_read = True, x_sm_read = False,
     x_disk = (\<lambda>b. Some (if b = 0 then full_super else replicate 160 0))\<rparr>"

lemma full_super_reads:
  "length full_super = 160" "rd64 full_super 152 = Inr 1024" "rd32 full_super 128 = Inr 1" "rd64 full_super 112 = Inr 1"
  "rd32 full_super 104 = Inr 40" "rd32 full_super 132 = Inr 0" "rd64 full_super 120 = Inr 64" "rd32 full_super 108 = Inr 16"
  by (simp_all add: full_super_def rd_le_def rd_bytes_def)

lemma full_sm_reads:
  "length full_sm = 320" "rd64 full_sm 8 = Inr 1024" "rd32 full_sm 160 = Inr 0" "rd32 full_sm 68 = Inr 0" "rd64 full_sm 48 = Inr 0" "rd64 full_sm 56 = Inr 0"
  "rd32 full_sm 64 = Inr 0" "rd64 full_sm 72 = Inr 0" "rd32 full_sm 80 = Inr 0" "rd32 full_sm 36 = Inr 0" "rd32 full_sm 40 = Inr 0"
  "rd64 full_sm 216 = Inr 0" "rd64 full_sm 208 = Inr 1025" "rd64 full_sm 256 = Inr 0" "rd64 full_sm 248 = Inr 1026"
  by (simp_all add: full_sm_def rd_le_def rd_bytes_def le_val_replicate)

lemma empty_queue_reads:
  "length (empty_queue oid) = 160" "oid < 2 ^ 64 \<Longrightarrow> rd64 (empty_queue oid) 8 = Inr oid" "rd64 (empty_queue oid) 152 = Inr 1" "rd32 (empty_queue oid) 28 = Inr 0" "rd16 (empty_queue oid) 32 = Inr 0"
  "rd32 (empty_queue oid) 36 = Inr 0" "rd16 (empty_queue oid) 40 = Inr 0" "rd16 (empty_queue oid) 42 = Inr 0" "rd16 (empty_queue oid) 44 = Inr 0"
  "rd16 (empty_queue oid) 46 = Inr 0" "rd16 (empty_queue oid) 50 = Inr 0" "rd16 (empty_queue oid) 54 = Inr 0"
  by (simp_all add: empty_queue_def rd_le_def rd_bytes_def le_val_replicate)

text \<open>The root of an empty queue for write access.\<close>

lemma empty_queue_root:
  obtains raw node where "wr64 (empty_queue oid) 16 x = Inr raw" "length raw = 160" "rd64 raw 8 = rd64 (empty_queue oid) 8"
    "\<And>b. apfs_read_node_raw 160 b True False n 0 raw = Inr node" "root_node_count 160 node = Inr 1"
proof -
  obtain raw where raw: "wr64 (empty_queue oid) 16 x = Inr raw" using wr_le_ok [of 16 8 "empty_queue oid"] empty_queue_reads(1) by auto
  have rd: "rd_le m raw off = rd_le m (empty_queue oid) off" if "off + int m \<le> 16 \<or> 24 \<le> off" for m off
    using rd_le_wr_le_other [OF raw, of off m] that by simp
  have "\<exists>node. node_of_raw n 0 raw = Inr node \<and> apfs_node_is_valid 160 node \<and> nd_data node = raw"
    using rd [of 28 4] rd [of 32 2] rd [of 36 4] rd [of 40 2] rd [of 42 2] rd [of 44 2] rd [of 46 2] rd [of 50 2] rd [of 54 2] empty_queue_reads
    by (simp add: node_of_raw_def Let_def apfs_node_is_valid_def)
  then obtain node where node: "node_of_raw n 0 raw = Inr node" "apfs_node_is_valid 160 node" "nd_data node = raw" by blast
  show thesis
    using that [of raw node] raw wr_le_length [OF raw] rd [of 8 8] rd [of 152 8] node empty_queue_reads
    by (simp add: apfs_read_node_raw_def root_node_count_def)
qed

lemma full_objects_lookup [simp]:
  "apfs_ephemeral_object_lookup (full_objects a b c) 1024 = Inr 0" "apfs_ephemeral_object_lookup (full_objects a b c) 1025 = Inr 1"
  "apfs_ephemeral_object_lookup (full_objects a b c) 1026 = Inr 2"
  by (simp_all add: apfs_ephemeral_object_lookup_def full_objects_def)

lemma full_objects_nth [simp]:
  "full_objects a b c ! 0 = \<lparr>eph_oid = 1024, eph_size = 320, eph_object = a\<rparr>" "full_objects a b c ! 1 = \<lparr>eph_oid = 1025, eph_size = 160, eph_object = b\<rparr>"
  "full_objects a b c ! Suc 0 = \<lparr>eph_oid = 1025, eph_size = 160, eph_object = b\<rparr>"
  "full_objects a b c ! 2 = \<lparr>eph_oid = 1026, eph_size = 160, eph_object = c\<rparr>"
  "(full_objects a b c)[0 := \<lparr>eph_oid = 1024, eph_size = 320, eph_object = a'\<rparr>] = full_objects a' b c"
  "(full_objects a b c)[Suc 0 := \<lparr>eph_oid = 1025, eph_size = 160, eph_object = b'\<rparr>] = full_objects a b' c"
  "(full_objects a b c)[2 := \<lparr>eph_oid = 1026, eph_size = 160, eph_object = c'\<rparr>] = full_objects a b c'"
  by (simp_all add: full_objects_def numeral_eq_Suc)

lemma flush_empty:
  assumes "rd64 (fs_raw fs) (fq_off qid + 16) = Inr 0" "rd64 (fs_raw fs) (fq_off qid + 8) = Inr oid" "eph_read_write fs (of_nat oid) = Inr (root, fs')"
    "root_node_count (fs_bs fs') root = Inr 1"
  shows "apfs_flush_free_queue qid fs = Some (Inr (if qid = APFS_SFQ_MAIN then fs_set_sm (sm_main_fq_nodes_update (\<lambda>_. 1)) fs' else fs'))"
  using assms by (simp add: apfs_flush_free_queue_def flush_queue.simps)

text \<open>The space manager of this container is read for the first time.\<close>

lemma full_read_spaceman:
  assumes "d_eph_list (fs_dev fs) = full_objects full_sm (empty_queue 1025) (empty_queue 1026)" "fs_bs fs = 160"
  obtains fs' sm ip main where "apfs_read_spaceman 1024 False fs = Some (Inr fs')" "fs_dev fs' = (fs_dev fs)\<lparr>d_eph_list := full_objects full_sm ip main\<rparr>"
    "fs_raw fs' = sm" "length sm = 320" "rd64 sm 8 = Inr 1024" "length ip = 160" "rd64 ip 8 = Inr 1025" "length main = 160" "rd64 main 8 = Inr 1026"
    "sm_free_cache_base (fs_sm fs') = 0" "sm_ip_bmaps (fs_sm fs') = []" "sm_free_count (fs_sm fs') = 0"
proof -
  obtain sm where sm: "wr64 full_sm 16 (uint (fs_xid fs)) = Inr sm" using wr_le_ok [of 16 8 full_sm] full_sm_reads(1) by auto
  have rd: "rd_le m sm off = rd_le m full_sm off" if "off + int m \<le> 16 \<or> 24 \<le> off" for m off
    using rd_le_wr_le_other [OF sm, of off m] that by simp
  obtain ip n1 where ip: "wr64 (empty_queue 1025) 16 (uint (fs_xid fs)) = Inr ip" "length ip = 160" "rd64 ip 8 = rd64 (empty_queue 1025) 8"
      "\<And>b. apfs_read_node_raw 160 b True False 1025 0 ip = Inr n1" "root_node_count 160 n1 = Inr 1"
    using empty_queue_root [of 1025 "uint (fs_xid fs)" 1025] by metis
  obtain main n2 where main: "wr64 (empty_queue 1026) 16 (uint (fs_xid fs)) = Inr main" "length main = 160" "rd64 main 8 = rd64 (empty_queue 1026) 8"
      "\<And>b. apfs_read_node_raw 160 b True False 1026 0 main = Inr n2" "root_node_count 160 n2 = Inr 1"
    using empty_queue_root [of 1026 "uint (fs_xid fs)" 1026] by metis
  define sm0 where "sm0 = \<lparr>sm_raw = sm, sm_size = 320, sm_blocks_per_chunk = 0, sm_chunks_per_cib = 0, sm_block_count = 0,
        sm_chunk_count = 0, sm_cib_count = 0, sm_free_count = 0, sm_addr_offset = 0, sm_main_fq_nodes = 0,
        sm_free_cache_base = 0, sm_free_cache_blkcnt = 0,
        sm_ip_bmaps_shift = order_base_2 1280, sm_ip_bmaps_mask = 1279, sm_ip_bmaps = []\<rparr>"
  have alloc: "apfs_allocate_spaceman sm 320 fs = Inr (fs\<lparr>fs_sm := sm0\<rparr>)"
    using rd [of 160 4] full_sm_reads assms(2) by (simp add: apfs_allocate_spaceman_def apfs_read_ip_bitmaps_def sm0_def)
  have dev: "apfs_read_spaceman_dev sm0 = Inr sm0" "rd32 sm 36 = Inr 0" "rd32 sm 40 = Inr 0"
    using rd [of 68 4] rd [of 48 8] rd [of 56 8] rd [of 64 4] rd [of 72 8] rd [of 80 4] rd [of 36 4] rd [of 40 4] full_sm_reads
    by (simp_all add: apfs_read_spaceman_dev_def sm0_def)
  let ?fs1 = "fs\<lparr>fs_sm := sm0\<rparr>"
  let ?fs2 = "fs_set_eph (full_objects full_sm ip (empty_queue 1026)) ?fs1"
  let ?fs3 = "fs_set_eph (full_objects full_sm ip main) ?fs2"
  have f1: "apfs_flush_free_queue 0 ?fs1 = Some (Inr ?fs2)"
    using flush_empty [of ?fs1 0 1025 n1 ?fs2] rd [of 216 8] rd [of 208 8] full_sm_reads ip assms
    by (simp add: fq_off_def sm0_def eph_read_write_def fs_set_eph_def)
  have f2: "apfs_flush_free_queue 1 ?fs2 = Some (Inr (fs_set_sm (sm_main_fq_nodes_update (\<lambda>_. 1)) ?fs3))"
    using flush_empty [of ?fs2 1 1026 n2 ?fs3] rd [of 256 8] rd [of 248 8] full_sm_reads main assms
    by (simp add: fq_off_def sm0_def eph_read_write_def fs_set_eph_def)
  have free: "set_free_cache 0 0 ?fs1 = ?fs1" by (simp add: set_free_cache_def fs_set_sm_def sm0_def)
  have sm0_sel: "sm_raw sm0 = sm" "sm0\<lparr>sm_blocks_per_chunk := 0, sm_chunks_per_cib := 0\<rparr> = sm0" by (simp_all add: sm0_def)
  have run: "apfs_read_spaceman 1024 False fs = Some (Inr (fs_set_sm (sm_main_fq_nodes_update (\<lambda>_. 1)) ?fs3))"
    using sm alloc dev f1 f2 assms free
    by (simp add: apfs_read_spaceman_def Let_def apfs_max_chunks_per_cib_def sm0_sel)
  show thesis
    by (rule that [OF run, of ip main sm]) (use rd [of 8 8] wr_le_length [OF sm] ip main full_sm_reads empty_queue_reads(2) in \<open>simp_all add: fs_set_sm_def fs_set_eph_def sm0_def\<close>)
qed

lemma full_objects_blocks:
  "eph_blocks 160 (full_objects a b c) = 4" "length (full_objects a b c) = 3" "i < 3 \<Longrightarrow> eph_blocks 160 (take i (full_objects a b c)) < 4"
proof -
  assume "i < 3"
  then consider "i = 0" | "i = Suc 0" | "i = Suc (Suc 0)" by linarith
  then show "eph_blocks 160 (take i (full_objects a b c)) < 4" by cases (simp_all add: full_objects_def blkcnt_def)
qed (simp_all add: full_objects_def blkcnt_def)

definition full_areas :: xp_areas where
  "full_areas = \<lparr>xp_desc_base = 1, xp_desc_blks = 40, xp_desc_index = 1, xp_data_base = 64, xp_data_blks = 16, xp_data_index = 0\<rparr>"

lemma full_start:
  obtains x where "apfs_transaction_start APFS_TRANS_REG full_tx = Some (Start_commit, x)" "x_xid x = 7" "\<not> x_rdonly x" "x_sm_read x"
    "x_trans x = \<lparr>t_state = 1, t_work_sb = False, t_inodes = [], t_starts_count = 0\<rparr>"
    "\<And>y. x_vol y = x_vol x \<Longrightarrow> x_xid y = x_xid x \<Longrightarrow> x_sm_read y = x_sm_read x \<Longrightarrow> \<exists>x'. commit_write io_done y = Some (None, True, x')"
proof -
  let ?x1 = "start_new_xid full_tx"
  obtain raw where raw: "wr64 full_super 96 8 = Inr raw" using wr_le_ok [of 96 8 full_super] full_super_reads(1) by auto
  have rd: "rd_le m raw off = rd_le m full_super off" if "104 \<le> off" for m off
    using rd_le_wr_le_other [OF raw, of off m] that by simp
  have len: "length raw = 160" using wr_le_length [OF raw] full_super_reads(1) by simp
  define v where "v = cur_vol ?x1"
  have nx: "nx_raw (v_nx v) = raw" "v_vsb_raw v = replicate 240 0" "v_fs v = (nx_fs (v_nx (x_vol full_tx)))\<lparr>fs_dev := (fs_dev (nx_fs (v_nx (x_vol full_tx))))\<lparr>d_nx_xid := 7\<rparr>\<rparr>"
    using raw by (simp_all add: v_def cur_vol_def start_new_xid_def full_tx_def Let_def set_fs_def set_nx_raw_def)
  have fs: "d_eph_list (v_dev v) = full_objects full_sm (empty_queue 1025) (empty_queue 1026)" "v_bs v = 160" "d_block (v_dev v) b = Some (replicate 160 0)" for b
    unfolding nx(3) by (simp_all add: full_tx_def ck_nx_def)
  obtain fs' sm ip main where sm: "apfs_read_spaceman 1024 False (v_fs v) = Some (Inr fs')" "fs_dev fs' = (v_dev v)\<lparr>d_eph_list := full_objects full_sm ip main\<rparr>"
    "fs_raw fs' = sm" "length sm = 320" "rd64 sm 8 = Inr 1024" "length ip = 160" "rd64 ip 8 = Inr 1025" "length main = 160" "rd64 main 8 = Inr 1026"
    "sm_free_cache_base (fs_sm fs') = 0" "sm_ip_bmaps (fs_sm fs') = []" "sm_free_count (fs_sm fs') = 0"
    using fs(1,2) by (rule full_read_spaceman)
  define x where "x = or_state 0 (?x1\<lparr>x_vol := set_fs fs' v, x_sm_read := True\<rparr>)"
  have read: "start_read_sm ?x1 = Some (Inr (?x1\<lparr>x_vol := set_fs fs' v, x_sm_read := True\<rparr>))"
    using sm(1) nx(1) rd [of 152 8] full_super_reads(2) by (simp add: start_read_sm_def Let_def v_def) (simp add: start_new_xid_def Let_def full_tx_def)
  have "apfs_transaction_start APFS_TRANS_REG full_tx = Some (Start_commit, x)"
    using read sm(12)
    by (simp add: apfs_transaction_start_def start_read_eph_def apfs_transaction_has_room_def Let_def x_def)
      (simp add: full_tx_def apfs_transaction_init_def set_fs_def)
  moreover have "x_xid x = 7" "\<not> x_rdonly x" "x_sm_read x" "x_trans x = \<lparr>t_state = 1, t_work_sb = False, t_inodes = [], t_starts_count = 0\<rparr>"
    by (simp_all add: x_def or_state_def) (simp_all add: full_tx_def apfs_transaction_init_def set_bit_eq_or)
  moreover have "\<exists>x'. commit_write io_done y = Some (None, True, x')" if y: "x_vol y = x_vol x" "x_xid y = x_xid x" "x_sm_read y = x_sm_read x" for y
  proof -
    have vol: "x_vol y = set_fs fs' v" using y(1) by (simp add: x_def or_state_def)
    define nx where "nx = sm_sync sm_store y (v_nx (cur_vol y))"
    have sel: "nx_raw nx = raw" "nx_eph_list nx = full_objects sm ip main" "fs_bs (nx_fs nx) = 160" "nx_blk nx b = Some (replicate 160 0)" for b
      using nx(1) sm(2,3) fs(2,3) y(3) rd [of 152 8] full_super_reads(2)
      by (simp_all add: nx_def vol cur_vol_def set_fs_def x_def or_state_def sm_sync_def sm_store_def fs_set_eph_def Let_def)
    have objs: "info_ok 160 e" if "e \<in> set (full_objects sm ip main)" for e
      using that sm(4-9) by (auto simp: full_objects_def info_ok_def)
    note cnt = full_objects_blocks [where a = sm and b = ip and c = main]
    have areas: "new_xp_areas raw = Inr full_areas" "rd64 raw 120 = Inr 64" "rd32 raw 108 = Inr 16"
      using rd [of 128 4] rd [of 112 8] rd [of 104 4] rd [of 132 4] rd [of 120 8] rd [of 108 4] full_super_reads
      by (simp_all add: new_xp_areas_def full_areas_def)
    have pre: "eph_pre full_areas 160 nx"
      unfolding eph_pre_def sel cnt using objs areas by (simp add: full_areas_def xp_ok_def area_ok_def)
    have limits: "\<forall>i < length (nx_eph_list nx). eph_blocks 160 (take i (nx_eph_list nx)) \<noteq> xp_data_blks full_areas div 4 \<and> i < xp_desc_blks full_areas div 4"
      unfolding sel cnt(2) by (auto simp: full_areas_def dest!: cnt(3))
    have "sm_free_cache_base (fs_sm (v_fs (x_vol y))) = 0" "sm_ip_bmaps (fs_sm (v_fs (x_vol y))) = []" "240 \<le> length (v_vsb_raw (x_vol y))"
      "new_xp_areas (nx_raw nx) = Inr full_areas" "152 \<le> length (nx_raw nx)" "length (nx_raw nx) = 160"
      using sm(10,11) nx(2) areas(1) len sel(1) by (simp_all add: vol set_fs_def)
    then show ?thesis using commit_run [of y full_areas 160, folded nx_def, OF _ _ _ pre _ _ _ limits] by blast
  qed
  ultimately show thesis by (rule that)
qed

definition full_sys :: trans_sys where
  "full_sys = \<lparr>s_tx = full_tx, s_lock = None, s_pc = \<lambda>_. Idle, s_log = [6]\<rparr>"

text \<open>The run of a start in this container: the start, the commit it leads to, and its end.\<close>

lemma full_run:
  obtains s s' where "trans_init full_sys" "trans_reach careful full_sys s" "s_pc s 0 = Flushing For_commit None" "s_lock s = Some 0" "s_log s = [6]"
    "\<not> x_rdonly (s_tx s)" "trans_reach careful s s'" "s_log s' = [6, 7]" "s_lock s' = None" "\<not> x_rdonly (s_tx s')"
    "t_starts_count (x_trans (s_tx s')) = 0"
proof -
  obtain x where x: "apfs_transaction_start APFS_TRANS_REG full_tx = Some (Start_commit, x)" "x_xid x = 7" "\<not> x_rdonly x" "x_sm_read x"
    "x_trans x = \<lparr>t_state = 1, t_work_sb = False, t_inodes = [], t_starts_count = 0\<rparr>"
    "\<And>y. x_vol y = x_vol x \<Longrightarrow> x_xid y = x_xid x \<Longrightarrow> x_sm_read y = x_sm_read x \<Longrightarrow> \<exists>x'. commit_write io_done y = Some (None, True, x')"
    using full_start by blast
  let ?tr = "\<lparr>t_state = 0, t_work_sb = False, t_inodes = [], t_starts_count = 0\<rparr>"
  define s1 where "s1 = enter 0 Commit_now x full_sys"
  have s1: "s_pc s1 0 = Commit_now" "s_tx s1 = x" "s_log s1 = [6]" by (simp_all add: s1_def enter_def full_sys_def)
  have 1: "trans_step careful full_sys s1"
    unfolding s1_def by (rule trans_step.start_full [where kind = APFS_TRANS_REG]) (use x(1) in \<open>simp_all add: full_sys_def\<close>)
  have "apfs_transaction_need_commit (s_tx s1) = Inr (True, ?tr)"
    using x(5) by (simp add: s1 apfs_transaction_need_commit_def Let_def bit_1_iff)
  note 2 = trans_step.commit_begin [OF s1(1) this, of careful]
  define s2 where "s2 = enter 0 (Flushing For_commit None) ((s_tx s1)\<lparr>x_trans := ?tr\<rparr>) s1"
  have s2: "s_pc s2 0 = Flushing For_commit None" "s_tx s2 = x\<lparr>x_trans := ?tr\<rparr>" "s_log s2 = [6]" "s_lock s2 = Some 0"
    by (simp_all add: s2_def enter_def s1)
  obtain x' where x': "commit_write io_done (s_tx s2) = Some (None, True, x')" using x(6) [of "s_tx s2"] by (auto simp: s2)
  have "t_inodes (x_trans (s_tx s2)) = []" by (simp add: s2)
  note 3 = trans_step.commit_ok [OF s2(1) this x', of careful]
  show thesis
  proof (rule that [of s2 "(leave 0 Idle (set_trans (\<lambda>tr. tr\<lparr>t_work_sb := False\<rparr>) x') s2)\<lparr>s_log := s_log s2 @ [x_xid (s_tx s2)]\<rparr>"])
    show "trans_init full_sys" by (simp add: trans_init_def full_sys_def full_tx_def)
    show "trans_reach careful full_sys s2" using 1 2 [folded s2_def] by (meson rtranclp.rtrancl_refl rtranclp.rtrancl_into_rtrancl)
    show "trans_reach careful s2 ((leave 0 Idle (set_trans (\<lambda>tr. tr\<lparr>t_work_sb := False\<rparr>) x') s2)\<lparr>s_log := s_log s2 @ [x_xid (s_tx s2)]\<rparr>)"
      using 3 by blast
  qed (use s2 x(2,3) commit_write_result [OF x'] in \<open>simp_all add: leave_def\<close>)
qed

section \<open>Properties\<close>



text \<open>
  (C29) Without the two races below, the transactions are serial: at most one thread is in a flush or in the gap of
  one, so that commits are not nested, and each checkpoint on disk has the number of the one before it plus one.
  A transaction that is open has the number after the last checkpoint, and the worker of the queued commits never
  commits a transaction that has not started.
\<close>

theorem checkpoints_consecutive:
  assumes "trans_init s0" "trans_reach True s0 s"
  shows "(\<forall>i. Suc i < length (s_log s) \<longrightarrow> s_log s ! Suc i = s_log s ! i + 1) \<and>
    (\<not> x_rdonly (s_tx s) \<longrightarrow>
      (\<forall>t u. busy (s_pc s t) \<and> busy (s_pc s u) \<longrightarrow> t = u) \<and>
      (t_starts_count (x_trans (s_tx s)) > 0 \<or> s_lock s \<noteq> None \<longrightarrow> x_xid (s_tx s) = last (s_log s) + 1) \<and>
      (t_work_sb (x_trans (s_tx s)) \<longrightarrow> t_starts_count (x_trans (s_tx s)) > 0))"
proof -
  have inv: "lock_inv s" "log_ok (s_log s)" "\<not> x_rdonly (s_tx s) \<Longrightarrow> live_inv s"
    using trans_reach_inv [OF assms(2) trans_init_inv [OF assms(1)]] by (simp_all add: trans_inv_def)
  have "t_starts_count (x_trans (s_tx s)) > 0" if "\<not> x_rdonly (s_tx s)" "t_work_sb (x_trans (s_tx s))"
    using live_invD(1,5) [OF inv(3) [OF that(1)]] that(2) by fastforce
  moreover have "\<forall>i. Suc i < length (s_log s) \<longrightarrow> s_log s ! Suc i = s_log s ! i + 1" using inv(2) by (simp add: log_ok_def)
  moreover have "\<forall>t u. busy (s_pc s t) \<and> busy (s_pc s u) \<longrightarrow> t = u" if "\<not> x_rdonly (s_tx s)" using live_invD(4) [OF inv(3) [OF that]] by blast
  moreover have "t_starts_count (x_trans (s_tx s)) > 0 \<or> s_lock s \<noteq> None \<longrightarrow> x_xid (s_tx s) = last (s_log s) + 1" if "\<not> x_rdonly (s_tx s)"
    using live_invD(7) [OF inv(3) [OF that]] by presburger
  ultimately show ?thesis by blast
qed

theorem checkpoints_consecutive_witness:
  "\<exists>s s'. trans_init full_sys \<and> trans_reach True full_sys s \<and> s_pc s 0 = Flushing For_commit None \<and> s_log s = [6] \<and> x_xid (s_tx s) = 7 \<and>
     trans_reach True s s' \<and> s_log s' = [6, 7] \<and> s_log s' ! Suc 0 = s_log s' ! 0 + 1 \<and> \<not> t_work_sb (x_trans (s_tx s'))"
proof -
  obtain s s' where run: "trans_init full_sys" "trans_reach True full_sys s" "s_pc s 0 = Flushing For_commit None" "s_lock s = Some 0" "s_log s = [6]"
    "\<not> x_rdonly (s_tx s)" "trans_reach True s s'" "s_log s' = [6, 7]" "s_lock s' = None" "\<not> x_rdonly (s_tx s')" "t_starts_count (x_trans (s_tx s')) = 0"
    by (rule full_run)
  have "trans_reach True full_sys s'" using run(2,7) by (rule rtranclp_trans)
  note ok = checkpoints_consecutive [OF run(1,2)] and ok' = checkpoints_consecutive [OF run(1) this]
  have "x_xid (s_tx s) = 7" using ok run(4-6) by simp
  moreover have "s_log s' ! Suc 0 = s_log s' ! 0 + 1" using ok' run(8) by simp
  moreover have "\<not> t_work_sb (x_trans (s_tx s'))" using ok' run(10,11) by simp
  ultimately show ?thesis using run by blast
qed

text \<open>
  (C31) The worker of the queued commits reads \<open>t_work_sb\<close> before it takes the lock.  If another thread commits the
  transaction in between, the worker goes on to a commit although no transaction has started: the checkpoint it
  writes has the number of the one that is on disk already.
\<close>

theorem stale_worker_commits_again:
  "\<exists>s s'. trans_inv s \<and> trans_reach False s s' \<and> s_pc s' 0 = Flushing For_commit None \<and> t_starts_count (x_trans (s_tx s')) = 0 \<and>
     t_inodes (x_trans (s_tx s')) = [] \<and> x_xid (s_tx s') = last (s_log s')"
proof -
  let ?pc = "\<lambda>u :: nat. if u = 1 then In_op else Idle"
  let ?s = "race_sys (race_tx 0 True [] 1) (Some 1) ?pc"
  obtain x where x: "commit_write io_done (race_tx 0 True [] 1) = Some (None, True, x)"
    "x_trans x = \<lparr>t_state = 0, t_work_sb = True, t_inodes = [], t_starts_count = 0\<rparr>" "x_xid x = 6" "\<not> x_rdonly x"
    by (rule race_commit)
  have inv: "trans_inv ?s"
    by (auto simp: trans_inv_def lock_inv_def log_ok_def live_inv_def)
  have 1: "trans_step False ?s (race_sys (race_tx 0 True [] 1) (Some 1) (?pc(0 := Work True)))"
    using trans_step.work_read [of ?s 0 False] by simp
  have 2: "trans_step False (race_sys (race_tx 0 True [] 1) (Some 1) (?pc(0 := Work True))) (race_sys (race_tx 1 True [] 1) (Some 1) (?pc(0 := Work True)))"
    by (rule race_steps(1) [where t = 1]) (simp_all add: bit_1_iff)
  have 3: "trans_step False (race_sys (race_tx 1 True [] 1) (Some 1) (?pc(0 := Work True))) (race_sys (race_tx 1 True [] 1) (Some 1) (?pc(0 := Work True, 1 := Commit_now)))"
    by (rule race_steps(2)) simp
  let ?pc3 = "?pc(0 := Work True, 1 := Commit_now, 1 := Flushing For_commit None)"
  have 4: "trans_step False (race_sys (race_tx 1 True [] 1) (Some 1) (?pc(0 := Work True, 1 := Commit_now))) (race_sys (race_tx 0 True [] 1) (Some 1) ?pc3)"
    by (rule race_steps(3)) (simp_all add: bit_1_iff)
  let ?s5 = "(race_sys (x\<lparr>x_trans := (x_trans x)\<lparr>t_work_sb := False\<rparr>\<rparr>) None (?pc3(1 := Idle)))\<lparr>s_log := [5, 6]\<rparr>"
  have 5: "trans_step False (race_sys (race_tx 0 True [] 1) (Some 1) ?pc3) ?s5"
  proof -
    let ?s4 = "race_sys (race_tx 0 True [] 1) (Some 1) ?pc3"
    have "commit_write io_done (s_tx ?s4) = Some (None, True, x)" using x(1) by simp
    from trans_step.commit_ok [of ?s4 1, OF _ _ this, of False] show ?thesis by (simp add: set_trans_def)
  qed
  let ?x6 = "x\<lparr>x_trans := \<lparr>t_state = 1, t_work_sb = False, t_inodes = [], t_starts_count = 0\<rparr>\<rparr>"
  have 6: "trans_step False ?s5 (enter 0 Commit_now ?x6 ?s5)"
    using trans_step.work_lock [of ?s5 0 False] x by (simp add: or_state_def set_trans_def set_bit_eq_or)
  define s6 where "s6 = enter 0 Commit_now ?x6 ?s5"
  let ?tr = "\<lparr>t_state = 0, t_work_sb = False, t_inodes = [], t_starts_count = 0\<rparr>"
  have s6: "s_pc s6 0 = Commit_now" "s_tx s6 = ?x6" "s_log s6 = [5, 6]" by (simp_all add: s6_def enter_def)
  then have "apfs_transaction_need_commit (s_tx s6) = Inr (True, ?tr)" by (simp add: apfs_transaction_need_commit_def Let_def bit_1_iff)
  note 7 = trans_step.commit_begin [OF s6(1) this, of False]
  have "trans_reach False ?s (enter 0 (Flushing For_commit None) ((s_tx s6)\<lparr>x_trans := ?tr\<rparr>) s6)"
    by (rule reach_step [OF 1 reach_step [OF 2 reach_step [OF 3 reach_step [OF 4 reach_step [OF 5 reach_step [OF 6 [folded s6_def]
      reach_step [OF 7 rtranclp.rtrancl_refl]]]]]]])
  then show ?thesis using inv s6 x(3) by (intro exI conjI) (assumption | simp add: enter_def)+
qed

text \<open>
  (C32) The creation of a snapshot flushes the inodes as well, and it clears the bit for a commit in progress at the end
  of its gap.  In the gap of a commit of another thread, this lets the snapshot begin a second commit inside of the
  first one.
\<close>

theorem snapshot_nests_commits:
  "\<exists>s s'. trans_inv s \<and> trans_reach False s s' \<and> s_pc s' 1 = Evicting For_commit None \<and> s_pc s' 2 = Flushing For_commit None"
proof -
  let ?pc = "\<lambda>u :: nat. if u = 1 then Flushing For_commit None else Idle"
  let ?s = "race_sys (race_tx 0 True [21] 1) (Some 1) ?pc"
  have inv: "trans_inv ?s"
    by (auto simp: trans_inv_def lock_inv_def log_ok_def live_inv_def split: if_splits)
  let ?p1 = "?pc(1 := Evicting For_commit None)"
  let ?p2 = "?p1(2 := In_op)"
  let ?p3 = "?p2(2 := Flushing For_snapshot None)"
  let ?p4 = "?p3(2 := Evicting For_snapshot None)"
  let ?p5 = "?p4(2 := Flushing For_snapshot None)"
  let ?p6 = "?p5(2 := In_op)"
  let ?p7 = "?p6(2 := Commit_now)"
  let ?p8 = "?p7(2 := Flushing For_commit None)"
  let ?c = "set_bit 2 0 :: u32"
  have 1: "trans_step False ?s (race_sys (race_tx ?c True [] 1) None ?p1)" by (rule race_steps(5)) simp
  have 2: "trans_step False (race_sys (race_tx ?c True [] 1) None ?p1) (race_sys (race_tx ?c True [] (1 + 1)) (Some 2) ?p2)" by (rule race_steps(4)) simp_all
  have 3: "trans_step False (race_sys (race_tx ?c True [] (1 + 1)) (Some 2) ?p2) (race_sys (race_tx ?c True [22] (1 + 1)) (Some 2) ?p2)"
    by (rule race_steps(1) [where t = 2]) simp_all
  have 4: "trans_step False (race_sys (race_tx ?c True [22] (1 + 1)) (Some 2) ?p2) (race_sys (race_tx ?c True [22] (1 + 1)) (Some 2) ?p3)"
    by (rule race_steps(7)) simp
  have 5: "trans_step False (race_sys (race_tx ?c True [22] (1 + 1)) (Some 2) ?p3) (race_sys (race_tx (set_bit 2 ?c) True [] (1 + 1)) None ?p4)"
    by (rule race_steps(5)) simp
  have 6: "trans_step False (race_sys (race_tx (set_bit 2 ?c) True [] (1 + 1)) None ?p4) (race_sys (race_tx 0 True [] (1 + 1)) (Some 2) ?p5)"
    by (rule race_steps(6)) simp
  have 7: "trans_step False (race_sys (race_tx 0 True [] (1 + 1)) (Some 2) ?p5) (race_sys (race_tx 0 True [] (1 + 1)) (Some 2) ?p6)"
    by (rule race_steps(8)) simp
  have 8: "trans_step False (race_sys (race_tx 0 True [] (1 + 1)) (Some 2) ?p6) (race_sys (race_tx 1 True [] (1 + 1)) (Some 2) ?p6)"
    by (rule race_steps(1) [where t = 2]) (simp_all add: bit_1_iff)
  have 9: "trans_step False (race_sys (race_tx 1 True [] (1 + 1)) (Some 2) ?p6) (race_sys (race_tx 1 True [] (1 + 1)) (Some 2) ?p7)"
    by (rule race_steps(2)) simp
  have 10: "trans_step False (race_sys (race_tx 1 True [] (1 + 1)) (Some 2) ?p7) (race_sys (race_tx 0 True [] (1 + 1)) (Some 2) ?p8)"
    by (rule race_steps(3)) (simp_all add: bit_1_iff)
  have "trans_reach False ?s (race_sys (race_tx 0 True [] (1 + 1)) (Some 2) ?p8)"
    by (rule reach_step [OF 1 reach_step [OF 2 reach_step [OF 3 reach_step [OF 4 reach_step [OF 5 reach_step [OF 6 reach_step [OF 7 reach_step [OF 8
      reach_step [OF 9 reach_step [OF 10 rtranclp.rtrancl_refl]]]]]]]]]])
  moreover have "s_pc (race_sys (race_tx 0 True [] (1 + 1)) (Some 2) ?p8) 1 = Evicting For_commit None"
    "s_pc (race_sys (race_tx 0 True [] (1 + 1)) (Some 2) ?p8) 2 = Flushing For_commit None" by simp_all
  ultimately show ?thesis using inv by blast
qed

end
