(* ===== verification/Compress.thy ===== *)
theory Compress
  imports Xattr Zbitmap
begin

text \<open>
  Reads of compressed files (\<open>compress.c\<close>).  The attribute \<open>com.apple.decmpfs\<close> of a file has a header with the
  algorithm and the size of the file; the compressed blocks of 64 KiB are in the rest of that attribute or in the
  resource fork.  An open file keeps one decompressed block in a buffer.

  The decoder of LZBITMAP is the one of the driver.  The decoder of zlib is the one of the kernel, and the decoders of
  LZVN and LZFSE are bundled from elsewhere: they are parameters, as is the memory allocator.  A decoder that fails may
  leave anything in the part of the buffer that it was given.  Offsets in files are not negative.
\<close>

section \<open>Decoders\<close>

text \<open>
  A decoder gets the buffer, the number of bytes it may write, and the compressed data.  It yields an error or the
  number of bytes, and the new buffer.
\<close>

type_synonym decoder = "buffer \<Rightarrow> nat \<Rightarrow> buffer \<Rightarrow> nat result \<times> buffer"

record decoders =
  dec_zlib :: decoder
  dec_lzvn :: decoder
  dec_lzfse :: decoder
  dec_residue :: "buffer \<Rightarrow> buffer \<Rightarrow> nat \<Rightarrow> byte"
  kvmalloc_ok :: "u64 \<Rightarrow> bool"

text \<open>What the driver relies on: a decoder writes no more than the bytes it may, and counts those it writes.\<close>

locale block_decoder =
  fixes dec :: decoder
  assumes length_kept: "n \<le> length tmp \<Longrightarrow> length (snd (dec tmp n src)) = length tmp"
    and result_fits: "n \<le> length tmp \<Longrightarrow> keeps (\<lambda>m. m \<le> n) (fst (dec tmp n src))"

definition zbm_block :: "decoders \<Rightarrow> decoder" where
  "zbm_block dec tmp n src =
     (case zbm_decompress (Some (take n tmp)) src of
        Some (Inr (out, len)) \<Rightarrow> (Inr (nat len), out @ drop n tmp)
      | Some (Inl e) \<Rightarrow> (Inl e, map (dec_residue dec tmp src) [0..<n] @ drop n tmp)
      | None \<Rightarrow> (Inl UB, tmp))"

section \<open>State\<close>

record apfs_compress_hdr =
  hdr_signature :: u32
  hdr_algo :: u32
  hdr_size :: u64

record apfs_compress_file_data =
  fd_hdr :: apfs_compress_hdr
  fd_buf :: buffer
  fd_bufblk :: "u64 option"
  fd_bufsize :: u64
  fd_cdata :: apfs_compressed_data

abbreviation (input) APFS_COMPRESS_ZLIB_ATTR :: u32 where "APFS_COMPRESS_ZLIB_ATTR \<equiv> 3"
abbreviation (input) APFS_COMPRESS_ZLIB_RSRC :: u32 where "APFS_COMPRESS_ZLIB_RSRC \<equiv> 4"
abbreviation (input) APFS_COMPRESS_LZVN_ATTR :: u32 where "APFS_COMPRESS_LZVN_ATTR \<equiv> 7"
abbreviation (input) APFS_COMPRESS_LZVN_RSRC :: u32 where "APFS_COMPRESS_LZVN_RSRC \<equiv> 8"
abbreviation (input) APFS_COMPRESS_PLAIN_ATTR :: u32 where "APFS_COMPRESS_PLAIN_ATTR \<equiv> 9"
abbreviation (input) APFS_COMPRESS_PLAIN_RSRC :: u32 where "APFS_COMPRESS_PLAIN_RSRC \<equiv> 10"
abbreviation (input) APFS_COMPRESS_LZFSE_ATTR :: u32 where "APFS_COMPRESS_LZFSE_ATTR \<equiv> 11"
abbreviation (input) APFS_COMPRESS_LZFSE_RSRC :: u32 where "APFS_COMPRESS_LZFSE_RSRC \<equiv> 12"
abbreviation (input) APFS_COMPRESS_LZBITMAP_ATTR :: u32 where "APFS_COMPRESS_LZBITMAP_ATTR \<equiv> 13"
abbreviation (input) APFS_COMPRESS_LZBITMAP_RSRC :: u32 where "APFS_COMPRESS_LZBITMAP_RSRC \<equiv> 14"
abbreviation (input) APFS_COMPRESS_BLOCK :: u64 where "APFS_COMPRESS_BLOCK \<equiv> 0x10000"
abbreviation (input) MAX_NON_LFS :: int where "MAX_NON_LFS \<equiv> 0x7fffffff"
abbreviation (input) PAGE_SIZE :: nat where "PAGE_SIZE \<equiv> 4096"

definition apfs_compress_is_rsrc :: "u32 \<Rightarrow> bool" where
  "apfs_compress_is_rsrc algo \<longleftrightarrow> algo AND 1 = 0"

definition apfs_compress_is_supported :: "u32 \<Rightarrow> bool" where
  "apfs_compress_is_supported algo \<longleftrightarrow>
     algo \<in> {APFS_COMPRESS_ZLIB_RSRC, APFS_COMPRESS_ZLIB_ATTR, APFS_COMPRESS_LZVN_RSRC, APFS_COMPRESS_LZVN_ATTR,
             APFS_COMPRESS_PLAIN_RSRC, APFS_COMPRESS_PLAIN_ATTR, APFS_COMPRESS_LZFSE_RSRC, APFS_COMPRESS_LZFSE_ATTR,
             APFS_COMPRESS_LZBITMAP_RSRC, APFS_COMPRESS_LZBITMAP_ATTR}"

definition compress_hdr :: "buffer \<Rightarrow> apfs_compress_hdr result" where
  "compress_hdr b =
     bind_res (rd32 b 0) (\<lambda>signature. bind_res (rd32 b 4) (\<lambda>algo. bind_res (rd64 b 8) (\<lambda>sz.
     Inr \<lparr>hdr_signature = of_nat signature, hdr_algo = of_nat algo, hdr_size = of_nat sz\<rparr>)))"

section \<open>Open files\<close>

text \<open>
  \<open>buf\<close> is the block of memory that is allocated for the file.  The result is \<open>None\<close> if the function returns zero but
  has not set the private data of the file.
\<close>

definition apfs_compress_file_open ::
  "apfs_sb_info \<Rightarrow> u64 \<Rightarrow> bool \<Rightarrow> bool \<Rightarrow> int \<Rightarrow> buffer \<Rightarrow> apfs_compress_file_data option result option" where
  "apfs_compress_file_open sbi ino fmode_write o_largefile i_size buf =
     (if fmode_write then Some (Inl EOPNOTSUPP)
      else if \<not> o_largefile \<and> i_size > MAX_NON_LFS then Some (Inl EOVERFLOW)
      else
        bindo (xattr_get sbi ino APFS_XATTR_NAME_COMPRESSED (Some 16) False) (\<lambda>(res, raw).
        if res \<noteq> 16 then Some (if res > 0 then Inl EINVAL else Inr None)
        else
          bindo (Some (compress_hdr raw)) (\<lambda>hdr.
          if \<not> apfs_compress_is_supported (hdr_algo hdr) then Some (Inl EOPNOTSUPP)
          else
            bindo (apfs_xattr_get_compressed_data sbi ino
                (if apfs_compress_is_rsrc (hdr_algo hdr) then APFS_XATTR_NAME_RSRC_FORK else APFS_XATTR_NAME_COMPRESSED)) (\<lambda>cdata.
            Some (Inr (Some \<lparr>fd_hdr = hdr, fd_buf = buf, fd_bufblk = None, fd_bufsize = 0, fd_cdata = cdata\<rparr>))))))"

text \<open>\<open>None\<close> is the return value \<open>1\<close>.\<close>

definition apfs_compress_get_size :: "apfs_sb_info \<Rightarrow> u64 \<Rightarrow> u64 option result option" where
  "apfs_compress_get_size sbi ino =
     bindo (xattr_get sbi ino APFS_XATTR_NAME_COMPRESSED (Some 16) False) (\<lambda>(res, raw).
     if res \<noteq> 16 then Some (Inr None)
     else
       bindo (Some (compress_hdr raw)) (\<lambda>hdr.
       if \<not> apfs_compress_is_supported (hdr_algo hdr) then Some (Inr None) else Some (Inr (Some (hdr_size hdr)))))"

section \<open>Blocks\<close>

definition rd_be32 :: "buffer \<Rightarrow> int \<Rightarrow> u32 result" where
  "rd_be32 b off = bind_res (rd_bytes b off 4) (\<lambda>x. Inr (of_nat (le_val (rev x))))"

definition block_size :: "apfs_compress_hdr \<Rightarrow> u64 \<Rightarrow> u64" where
  "block_size hdr block = (let bsize = hdr_size hdr - block * APFS_COMPRESS_BLOCK in if bsize > APFS_COMPRESS_BLOCK then APFS_COMPRESS_BLOCK else bsize)"

text \<open>
  The first part of \<open>apfs_compress_file_read_block\<close>: the size of the compressed data, the size of the block, and the
  offset of the data; \<open>None\<close> if the table of the resource fork does not have the block.
\<close>

definition block_pos ::
  "apfs_sb_info \<Rightarrow> apfs_compress_file_data \<Rightarrow> u64 \<Rightarrow> ((u64 \<times> u64 \<times> u64) option \<times> apfs_compressed_data) result option" where
  "block_pos sbi fd block =
     (let algo = hdr_algo (fd_hdr fd); comp_data = fd_cdata fd in
      if apfs_compress_is_rsrc algo \<and> algo \<noteq> APFS_COMPRESS_LZBITMAP_RSRC \<and> algo \<noteq> APFS_COMPRESS_LZVN_RSRC \<and> algo \<noteq> APFS_COMPRESS_LZFSE_RSRC then
        bindo (apfs_compressed_data_read sbi comp_data 16 0) (\<lambda>(hdr, comp_data).
        bindo (Some (rd_be32 hdr 0)) (\<lambda>doffs.
        bindo (apfs_compressed_data_read sbi comp_data 8 (ucast doffs)) (\<lambda>(cd, comp_data).
        bindo (Some (rd32 cd 4)) (\<lambda>num.
        if block \<ge> of_nat num then Some (Inr (None, comp_data))
        else
          let blk_off = ucast (ucast doffs + 8 + 8 * block) :: u32 in
          bindo (apfs_compressed_data_read sbi comp_data 8 (ucast blk_off)) (\<lambda>(blk, comp_data).
          bindo (Some (rd32 blk 0)) (\<lambda>offs.
          bindo (Some (rd32 blk 4)) (\<lambda>csize.
          Some (Inr (Some (of_nat csize, block_size (fd_hdr fd) block, ucast (doffs + (of_nat offs + 4))), comp_data)))))))))
      else if apfs_compress_is_rsrc algo then
        let blk_off = ucast (4 * block) :: u32 in
        bindo (apfs_compressed_data_read sbi comp_data 8 (ucast blk_off)) (\<lambda>(blks, comp_data).
        bindo (Some (rd32 blks 0)) (\<lambda>coffs.
        bindo (Some (rd32 blks 4)) (\<lambda>next_offs.
        Some (Inr (Some (ucast (of_nat next_offs - of_nat coffs :: u32), block_size (fd_hdr fd) block, of_nat coffs), comp_data)))))
      else if block \<noteq> 0 \<or> hdr_size (fd_hdr fd) > APFS_COMPRESS_BLOCK then Some (Inl EFSCORRUPTED)
      else Some (Inr (Some (cd_size comp_data - 16, hdr_size (fd_hdr fd), 16), comp_data)))"

text \<open>A block that is stored as it is, after a byte that marks it.\<close>

definition stored_block :: "buffer \<Rightarrow> u64 \<Rightarrow> buffer \<Rightarrow> u64 option result \<times> buffer" where
  "stored_block tmp csize cdata =
     (case bind_res (rd_bytes cdata 1 (uint (csize - 1))) (memcpy tmp 0) of
        Inl e \<Rightarrow> (Inl e, tmp)
      | Inr tmp \<Rightarrow> (Inr (Some (csize - 1)), tmp))"

text \<open>
  The second part: the decompressed size and the new buffer.  The result is \<open>None\<close> if zlib yields no bytes, which
  ends the function without an error and without a new block.
\<close>

definition decompress_block :: "decoders \<Rightarrow> u32 \<Rightarrow> buffer \<Rightarrow> u64 \<Rightarrow> u64 \<Rightarrow> buffer \<Rightarrow> u64 option result \<times> buffer" where
  "decompress_block dec algo tmp bsize csize cdata =
     (if algo \<in> {APFS_COMPRESS_PLAIN_RSRC, APFS_COMPRESS_PLAIN_ATTR} then stored_block tmp csize cdata
      else if \<not> apfs_compress_is_supported algo then (Inl EINVAL, tmp)
      else case rd8 cdata 0 of
        Inl e \<Rightarrow> (Inl e, tmp)
      | Inr c \<Rightarrow>
          if algo \<in> {APFS_COMPRESS_ZLIB_RSRC, APFS_COMPRESS_ZLIB_ATTR} then
            if c = 0x78 \<and> csize \<ge> 2 then
              let (res, tmp) = dec_zlib dec tmp (unat bsize) (drop 2 cdata)
              in (bind_res res (\<lambda>n. Inr (if n = 0 then None else Some (of_nat n))), tmp)
            else if c AND 0x0F = 0x0F then stored_block tmp csize cdata
            else (Inl EINVAL, tmp)
          else if algo \<in> {APFS_COMPRESS_LZVN_RSRC, APFS_COMPRESS_LZVN_ATTR} then
            if c = 0x06 then stored_block tmp csize cdata
            else
              let (res, tmp) = dec_lzvn dec tmp (unat bsize) cdata
              in (bind_res res (\<lambda>n. Inr (Some (of_nat n))), tmp)
          else if algo \<in> {APFS_COMPRESS_LZBITMAP_RSRC, APFS_COMPRESS_LZBITMAP_ATTR} then
            if c = 0x5a then
              let (res, tmp) = zbm_block dec tmp (unat bsize) cdata
              in (bind_res res (\<lambda>n. Inr (Some (of_nat n))), tmp)
            else if c AND 0x0F = 0x0F then stored_block tmp csize cdata
            else (Inl EINVAL, tmp)
          else
            if c = 0x62 \<and> csize \<ge> 2 then
              let (res, tmp) = dec_lzfse dec tmp (unat bsize) cdata
              in (bind_res res (\<lambda>n. if n = 0 then Inl EINVAL else Inr (Some (of_nat n))), tmp)
            else stored_block tmp csize cdata)"

definition apfs_compress_file_read_block ::
  "decoders \<Rightarrow> apfs_sb_info \<Rightarrow> apfs_compress_file_data \<Rightarrow> u64 \<Rightarrow> (errno option \<times> apfs_compress_file_data) option" where
  "apfs_compress_file_read_block dec sbi fd block =
     (case block_pos sbi fd block of
        None \<Rightarrow> None
      | Some (Inl e) \<Rightarrow> Some (Some e, fd)
      | Some (Inr (None, comp_data)) \<Rightarrow> Some (None, fd\<lparr>fd_cdata := comp_data\<rparr>)
      | Some (Inr (Some (csize, bsize, offs), comp_data)) \<Rightarrow>
          if \<not> kvmalloc_ok dec csize then Some (Some ENOMEM, fd\<lparr>fd_cdata := comp_data\<rparr>)
          else case apfs_compressed_data_read sbi comp_data csize offs of
            None \<Rightarrow> None
          | Some (Inl e) \<Rightarrow> Some (Some e, fd\<lparr>fd_cdata := comp_data\<rparr>)
          | Some (Inr (cdata, comp_data)) \<Rightarrow>
              case decompress_block dec (hdr_algo (fd_hdr fd)) (fd_buf fd) bsize csize cdata of
                (Inl e, tmp) \<Rightarrow> Some (Some e, fd\<lparr>fd_cdata := comp_data, fd_buf := tmp\<rparr>)
              | (Inr None, tmp) \<Rightarrow> Some (None, fd\<lparr>fd_cdata := comp_data, fd_buf := tmp\<rparr>)
              | (Inr (Some n), tmp) \<Rightarrow> Some (None, fd\<lparr>fd_cdata := comp_data, fd_buf := tmp, fd_bufblk := Some block, fd_bufsize := n\<rparr>))"

section \<open>Reads\<close>

definition compress_preread :: "apfs_sb_info \<Rightarrow> apfs_compress_file_data \<Rightarrow> u64 \<Rightarrow> apfs_compress_file_data option" where
  "compress_preread sbi fd off =
     (case cd_source (fd_cdata fd) of
        Cd_dstream dstream \<Rightarrow>
          if off = 0 then
            map_option (\<lambda>(_, dstream). fd\<lparr>fd_cdata := (fd_cdata fd)\<lparr>cd_source := Cd_dstream dstream\<rparr>\<rparr>) (apfs_nonsparse_dstream_preread sbi dstream)
          else Some fd
      | Cd_data b \<Rightarrow> Some fd)"

text \<open>The end of a read: the bytes are copied from the buffer.\<close>

definition read_from_buf :: "apfs_compress_file_data \<Rightarrow> u64 \<Rightarrow> u64 \<Rightarrow> buffer result" where
  "read_from_buf fd sz off =
     (let bsize = fd_bufsize fd in
      if bsize < off then Inr []
      else rd_bytes (fd_buf fd) (uint off) (uint (if sz > bsize - off then bsize - off else sz)))"

definition apfs_compress_file_read_from_block ::
  "decoders \<Rightarrow> apfs_sb_info \<Rightarrow> apfs_compress_file_data \<Rightarrow> u64 \<Rightarrow> u64 \<Rightarrow> (buffer result \<times> apfs_compress_file_data) option" where
  "apfs_compress_file_read_from_block dec sbi fd sz off =
     (case compress_preread sbi fd off of
        None \<Rightarrow> None
      | Some fd \<Rightarrow>
          let file_size = hdr_size (fd_hdr fd) in
          if off \<ge> file_size then Some (Inr [], fd)
          else
            let sz = (if sz > file_size - off then file_size - off else sz);
                block = off div APFS_COMPRESS_BLOCK;
                off = off - block * APFS_COMPRESS_BLOCK
            in case (if fd_bufblk fd = Some block then Some (None, fd) else apfs_compress_file_read_block dec sbi fd block) of
                 None \<Rightarrow> None
               | Some (Some e, fd) \<Rightarrow> Some (Inl e, fd)
               | Some (None, fd) \<Rightarrow> Some (read_from_buf fd sz off, fd))"

text \<open>The loop of \<open>apfs_compress_file_read_page\<close>; \<open>done\<close> are the bytes that are in the page.\<close>

function read_page_loop ::
  "decoders \<Rightarrow> apfs_sb_info \<Rightarrow> apfs_compress_file_data \<Rightarrow> u64 \<Rightarrow> buffer \<Rightarrow> (buffer result \<times> apfs_compress_file_data) option" where
  "read_page_loop dec sbi fd off page =
     (let step = length page in
      if step < PAGE_SIZE then
        let block = 0x10000 - unat ((off + of_nat step) AND 0xffff);
            block = (if block > PAGE_SIZE - step then PAGE_SIZE - step else block)
        in case apfs_compress_file_read_from_block dec sbi fd (of_nat block) (off + of_nat step) of
             None \<Rightarrow> None
           | Some (Inl e, fd) \<Rightarrow> Some (if e = UB \<or> step = 0 then Inl e else Inr page, fd)
           | Some (Inr data, fd) \<Rightarrow>
               if length data < block then Some (Inr (page @ data), fd)
               else read_page_loop dec sbi fd off (page @ data)
      else Some (Inr page, fd))"
  by pat_completeness auto
termination
proof (relation "measure (\<lambda>(dec, sbi, fd, off, page). PAGE_SIZE - length page)", goal_cases)
  case (2 dec sbi fd off page step b block)
  have "unat ((off + of_nat (length page)) AND 0xffff) \<le> 0xffff"
    using word_and_le1 [of "off + of_nat (length page)" "0xffff"] by (simp add: word_le_nat_alt)
  with 2 show ?case by (auto simp: not_less split: if_splits)
qed simp

declare read_page_loop.simps [simp del]

definition apfs_compress_file_read_page ::
  "decoders \<Rightarrow> apfs_sb_info \<Rightarrow> apfs_compress_file_data \<Rightarrow> u64 \<Rightarrow> (buffer result \<times> apfs_compress_file_data) option" where
  "apfs_compress_file_read_page dec sbi fd off = read_page_loop dec sbi fd off []"

definition apfs_compress_read_folio ::
  "decoders \<Rightarrow> apfs_sb_info \<Rightarrow> apfs_compress_file_data \<Rightarrow> u64 \<Rightarrow> (buffer result \<times> apfs_compress_file_data) option" where
  "apfs_compress_read_folio dec sbi fd index =
     map_option (\<lambda>(ret, fd). (bind_res ret (\<lambda>page. Inr (page @ replicate (PAGE_SIZE - length page) 0)), fd))
       (apfs_compress_file_read_page dec sbi fd (push_bit 12 index))"

section \<open>Reads on arbitrary images\<close>

interpretation zbm: block_decoder "zbm_block dec" for dec
proof
  fix n and tmp src :: buffer
  assume n: "n \<le> length tmp"
  obtain r where r: "zbm_decompress (Some (take n tmp)) src = Some r" "r \<noteq> Inl UB"
      "\<forall>out len. r = Inr (out, len) \<longrightarrow> length out = length (take n tmp) \<and> 0 \<le> len \<and> len \<le> int (length (take n tmp))"
    using zbm_decompress_total by blast
  show "length (snd (zbm_block dec tmp n src)) = length tmp"
    using r n by (auto simp: zbm_block_def split: sum.split)
  show "keeps (\<lambda>m. m \<le> n) (fst (zbm_block dec tmp n src))"
    using r n by (auto simp: zbm_block_def split: sum.split)
qed

definition decoders_ok :: "decoders \<Rightarrow> bool" where
  "decoders_ok dec \<longleftrightarrow> block_decoder (dec_zlib dec) \<and> block_decoder (dec_lzvn dec) \<and> block_decoder (dec_lzfse dec)"

definition cdata_ok :: "apfs_compressed_data \<Rightarrow> bool" where
  "cdata_ok c \<longleftrightarrow> (case cd_source c of Cd_dstream _ \<Rightarrow> True | Cd_data b \<Rightarrow> cd_size c = of_nat (length b) \<and> length b < 2 ^ 31)"

definition fd_ok :: "apfs_compress_file_data \<Rightarrow> bool" where
  "fd_ok fd \<longleftrightarrow> length (fd_buf fd) = 0x10000 \<and> fd_bufsize fd \<le> 0x10000 \<and> cdata_ok (fd_cdata fd)"

lemma compressed_read_safe:
  assumes "vol_fits sbi" "cdata_ok c"
  shows "keepso (\<lambda>(data, c'). length data = unat count \<and> cdata_ok c') (apfs_compressed_data_read sbi c count offset)"
proof (cases "cd_source c")
  case (Cd_dstream ds)
  have "keepso (\<lambda>(data, c'). length data = unat count \<and> cdata_ok c')
      (bindo (apfs_nonsparse_dstream_read sbi ds count offset) (\<lambda>(data, ds'). Some (Inr (data, c\<lparr>cd_source := Cd_dstream ds'\<rparr>))))"
    by (rule keepso_bind [OF nonsparse_read_returns [OF assms(1)]]) (auto simp: cdata_ok_def)
  then show ?thesis using Cd_dstream by (simp add: apfs_compressed_data_read_def)
next
  case (Cd_data b)
  have sz: "uint (cd_size c) = int (length b)"
    using assms(2) Cd_data by (simp add: cdata_ok_def unsigned_of_nat take_bit_nat_eq_self)
  have "keeps (\<lambda>data. length data = unat count) (rd_bytes b (uint offset) (uint count))"
    if "\<not> (offset > cd_size c \<or> count > cd_size c - offset)"
  proof -
    have "uint offset + uint count \<le> int (length b)" using that sz by (simp add: word_less_def not_less uint_sub_if' word_le_def split: if_splits)
    then show ?thesis using rd_bytes_ok [of "uint offset" "uint count" b] by auto
  qed
  then show ?thesis using Cd_data assms(2)
    by (auto simp: apfs_compressed_data_read_def intro!: keepso_bind_some)
qed

lemma block_size_le: "block_size hdr block \<le> 0x10000"
  by (simp add: block_size_def Let_def not_less)

definition pos_ok :: "(u64 \<times> u64 \<times> u64) option \<times> apfs_compressed_data \<Rightarrow> bool" where
  "pos_ok r \<longleftrightarrow> cdata_ok (snd r) \<and> (case fst r of None \<Rightarrow> True | Some (csize, bsize, offs) \<Rightarrow> bsize \<le> 0x10000)"

lemma rd_be32_keeps: "0 \<le> off \<Longrightarrow> off + 4 \<le> int (length b) \<Longrightarrow> keeps (\<lambda>_. True) (rd_be32 b off)"
  using rd_bytes_ok [of off 4 b] by (auto simp: rd_be32_def)

lemma block_pos_safe:
  assumes "vol_fits sbi" "cdata_ok (fd_cdata fd)"
  shows "keepso pos_ok (block_pos sbi fd block)"
proof -
  let ?algo = "hdr_algo (fd_hdr fd)"
  note rd = compressed_read_safe [OF assms(1)]
  have rd32: "keeps (\<lambda>_. True) (rd32 b 0)" "keeps (\<lambda>_. True) (rd32 b 4)" if "length b = 8" for b
    using keeps_rd [of 0 4 b] keeps_rd [of 4 4 b] that by simp_all
  consider "apfs_compress_is_rsrc ?algo \<and> ?algo \<noteq> 14 \<and> ?algo \<noteq> 8 \<and> ?algo \<noteq> 12"
    | "apfs_compress_is_rsrc ?algo" "\<not> (?algo \<noteq> 14 \<and> ?algo \<noteq> 8 \<and> ?algo \<noteq> 12)"
    | "\<not> apfs_compress_is_rsrc ?algo" by blast
  then show ?thesis
  proof cases
    case 1
    have num: "keepso pos_ok
       (if block \<ge> of_nat num then Some (Inr (None, c))
        else let blk_off = ucast (ucast doffs + 8 + 8 * block) :: u32 in
          bindo (apfs_compressed_data_read sbi c 8 (ucast blk_off)) (\<lambda>(blk, comp_data).
          bindo (Some (rd32 blk 0)) (\<lambda>offs.
          bindo (Some (rd32 blk 4)) (\<lambda>csize.
          Some (Inr (Some (of_nat csize, block_size (fd_hdr fd) block, ucast (doffs + (of_nat offs + 4))), comp_data))))))"
      if c: "cdata_ok c" for c num and doffs :: u32
    proof (cases "block \<ge> of_nat num")
      case False
      show ?thesis unfolding Let_def if_not_P [OF False]
        by (rule keepso_bind [OF rd [OF c]], clarify, intro keepso_bind_some [OF rd32(1)] keepso_bind_some [OF rd32(2)])
          (simp_all add: pos_ok_def block_size_le)
    qed (use c in \<open>simp add: pos_ok_def\<close>)
    show ?thesis
      unfolding block_pos_def Let_def if_P [OF 1]
    proof (rule keepso_bind [OF rd [OF assms(2)]], clarify, rule keepso_bind_some [OF rd_be32_keeps], simp, simp, goal_cases)
      case (1 hdr c doffs)
      show ?case
        by (rule keepso_bind [OF rd [OF 1(3)]], clarify, rule keepso_bind_some [OF rd32(2)], simp, rule num [unfolded Let_def])
    qed
  next
    case 2
    have "keepso pos_ok
       (bindo (apfs_compressed_data_read sbi (fd_cdata fd) 8 (ucast (ucast (4 * block) :: u32))) (\<lambda>(blks, comp_data).
        bindo (Some (rd32 blks 0)) (\<lambda>coffs.
        bindo (Some (rd32 blks 4)) (\<lambda>next_offs.
        Some (Inr (Some (ucast (of_nat next_offs - of_nat coffs :: u32), block_size (fd_hdr fd) block, of_nat coffs), comp_data))))))"
      by (rule keepso_bind [OF rd [OF assms(2)]], clarify, intro keepso_bind_some [OF rd32(1)] keepso_bind_some [OF rd32(2)])
        (simp_all add: pos_ok_def block_size_le)
    moreover have "\<not> (apfs_compress_is_rsrc ?algo \<and> ?algo \<noteq> 14 \<and> ?algo \<noteq> 8 \<and> ?algo \<noteq> 12)" using 2 by blast
    ultimately show ?thesis unfolding block_pos_def Let_def using 2(1) by (simp only: if_False if_True)
  next
    case 3
    then show ?thesis using assms(2) by (simp add: block_pos_def Let_def pos_ok_def not_less)
  qed
qed

lemma rd_bytes_tail: "b \<noteq> [] \<Longrightarrow> rd_bytes b 1 (int (length b - 1)) = Inr (drop 1 b)"
  by (cases b) (auto simp: rd_bytes_def)

text \<open>The copy of a stored block is within its bounds if the block has the byte that marks it and at most 64 KiB.\<close>

lemma stored_block_eq:
  assumes "length tmp = 0x10000" "length cdata = unat csize"
  shows "csize \<noteq> 0 \<Longrightarrow> csize \<le> 0x10001 \<Longrightarrow> stored_block tmp csize cdata = (Inr (Some (csize - 1)), drop 1 cdata @ drop (unat csize - 1) tmp)"
    "csize = 0 \<or> csize > 0x10001 \<Longrightarrow> stored_block tmp csize cdata = (Inl UB, tmp)"
proof -
  show "stored_block tmp csize cdata = (Inr (Some (csize - 1)), drop 1 cdata @ drop (unat csize - 1) tmp)" if "csize \<noteq> 0" "csize \<le> 0x10001"
  proof -
    have c: "unat (csize - 1) = unat csize - 1" "0 < unat csize" "unat csize \<le> 0x10001"
      using that unat_minus_one [of csize] by (simp_all add: unat_gt_0 word_le_nat_alt)
    then have "uint (csize - 1) = int (length cdata - 1)" "cdata \<noteq> []" using assms(2) by (auto simp: uint_nat simp del: of_nat_unat)
    then have "rd_bytes cdata 1 (uint (csize - 1)) = Inr (drop 1 cdata)" using rd_bytes_tail [of cdata] by simp
    moreover have "memcpy tmp 0 (drop 1 cdata) = Inr (drop 1 cdata @ drop (unat csize - 1) tmp)" using assms c by (auto simp: memcpy_def simp del: of_nat_unat)
    ultimately show ?thesis by (simp add: stored_block_def)
  qed
  show "stored_block tmp csize cdata = (Inl UB, tmp)" if bad: "csize = 0 \<or> csize > 0x10001"
  proof (cases "csize = 0")
    case True
    then show ?thesis using assms(2) by (simp add: stored_block_def rd_bytes_def unsigned_minus_1_eq_mask mask_eq_exp_minus_1)
  next
    case False
    then have c: "unat (csize - 1) = unat csize - 1" "0x10001 < unat csize"
      using bad unat_minus_one [of csize] by (simp_all add: word_less_nat_alt)
    then have "uint (csize - 1) = int (length cdata - 1)" "cdata \<noteq> []" using assms(2) by (auto simp: uint_nat simp del: of_nat_unat)
    then have "rd_bytes cdata 1 (uint (csize - 1)) = Inr (drop 1 cdata)" using rd_bytes_tail [of cdata] by simp
    moreover have "memcpy tmp 0 (drop 1 cdata) = Inl UB" using assms c by (auto simp: memcpy_def simp del: of_nat_unat)
    ultimately show ?thesis by (simp add: stored_block_def)
  qed
qed

definition block_result :: "u64 \<Rightarrow> u64 option result \<times> buffer \<Rightarrow> bool" where
  "block_result csize r \<longleftrightarrow> length (snd r) = 0x10000 \<and>
     (fst r = Inl UB \<longrightarrow> csize = 0 \<or> csize > 0x10001) \<and> (\<forall>n. fst r = Inr (Some n) \<longrightarrow> n \<le> 0x10000)"

lemma stored_block_result: "length tmp = 0x10000 \<Longrightarrow> length cdata = unat csize \<Longrightarrow> block_result csize (stored_block tmp csize cdata)"
proof (cases "csize = 0 \<or> csize > 0x10001")
  case False
  assume a: "length tmp = 0x10000" "length cdata = unat csize"
  have c: "0 < unat csize" "unat csize \<le> 0x10001" "unat (csize - 1) = unat csize - 1"
    using False unat_minus_one [of csize] by (simp_all add: unat_gt_0 word_le_nat_alt not_less)
  then show ?thesis using stored_block_eq(1) [OF a] False a by (simp add: block_result_def word_le_nat_alt not_less)
qed (simp add: block_result_def stored_block_eq)

context block_decoder
begin

lemma decoder_result:
  assumes "length tmp = 0x10000" "unat bsize \<le> 0x10000"
    and "\<And>n. n \<le> 0x10000 \<Longrightarrow> f n \<noteq> Inl UB \<and> (\<forall>m. f n = Inr (Some m) \<longrightarrow> m = of_nat n)"
  shows "block_result csize (case dec tmp (unat bsize) src of (res, tmp) \<Rightarrow> (bind_res res f, tmp))"
proof -
  have le: "unat bsize \<le> length tmp" using assms(1,2) by simp
  obtain res tmp' where r: "dec tmp (unat bsize) src = (res, tmp')" by force
  have "length tmp' = 0x10000" using length_kept [OF le, of src] r assms(1) by simp
  moreover have res: "keeps (\<lambda>m. m \<le> 0x10000) res" using result_fits [OF le, of src] r assms(2) by (cases res) auto
  moreover have "of_nat n \<le> (0x10000 :: u64)" if "n \<le> 0x10000" for n
    using that by (simp add: word_le_nat_alt unsigned_of_nat take_bit_nat_eq_self)
  ultimately show ?thesis using assms(3) r by (cases res) (auto simp: block_result_def)
qed

end

lemma decompress_block_result:
  assumes dec: "decoders_ok dec" and tmp: "length tmp = 0x10000" and cdata: "length cdata = unat csize" and bsize: "bsize \<le> 0x10000"
  shows "block_result csize (decompress_block dec algo tmp bsize csize cdata)"
proof -
  have b: "unat bsize \<le> 0x10000" using bsize by (simp add: word_le_nat_alt)
  note stored = stored_block_result [OF tmp cdata]
  have err: "block_result csize (Inl EINVAL, tmp)" using tmp by (simp add: block_result_def)
  note d = block_decoder.decoder_result [OF _ tmp b]
  have dec: "block_decoder (dec_zlib dec)" "block_decoder (dec_lzvn dec)" "block_decoder (dec_lzfse dec)" "block_decoder (zbm_block dec)"
    using dec zbm.block_decoder_axioms by (simp_all add: decoders_ok_def)
  show ?thesis
  proof (cases "rd8 cdata 0")
    case (Inl e)
    then have "cdata = []" "e = UB" by (auto simp: rd8_def split: if_splits)
    then have "csize = 0" using cdata by (simp add: unat_eq_0)
    then have "block_result csize (Inl e, tmp)" using tmp \<open>e = UB\<close> by (simp add: block_result_def)
    then show ?thesis unfolding decompress_block_def Inl using stored err by simp
  next
    case (Inr c)
    have "block_result csize (case dec_zlib dec tmp (unat bsize) src of (res, tmp) \<Rightarrow> (bind_res res (\<lambda>n. Inr (if n = 0 then None else Some (of_nat n))), tmp))"
      "block_result csize (case dec_lzvn dec tmp (unat bsize) src of (res, tmp) \<Rightarrow> (bind_res res (\<lambda>n. Inr (Some (of_nat n))), tmp))"
      "block_result csize (case zbm_block dec tmp (unat bsize) src of (res, tmp) \<Rightarrow> (bind_res res (\<lambda>n. Inr (Some (of_nat n))), tmp))"
      "block_result csize (case dec_lzfse dec tmp (unat bsize) src of (res, tmp) \<Rightarrow> (bind_res res (\<lambda>n. if n = 0 then Inl EINVAL else Inr (Some (of_nat n))), tmp))"
      for src by (rule d [OF dec(1)] d [OF dec(2)] d [OF dec(4)] d [OF dec(3)]; simp)+
    note runs = this
    show ?thesis unfolding decompress_block_def Inr Let_def sum.case by (simp add: runs stored err del: insert_iff)
  qed
qed

lemma read_block_returns:
  assumes "vol_fits sbi" "decoders_ok dec" "fd_ok fd"
  shows "\<exists>e fd'. apfs_compress_file_read_block dec sbi fd block = Some (e, fd') \<and> fd_ok fd' \<and> fd_hdr fd' = fd_hdr fd \<and>
    (e = Some UB \<longrightarrow> (\<exists>csize bsize offs c. block_pos sbi fd block = Some (Inr (Some (csize, bsize, offs), c)) \<and> (csize = 0 \<or> csize > 0x10001)))"
proof -
  have fd: "length (fd_buf fd) = 0x10000" "cdata_ok (fd_cdata fd)" "fd_bufsize fd \<le> 0x10000" using assms(3) by (simp_all add: fd_ok_def)
  have pos: "keepso pos_ok (block_pos sbi fd block)" by (rule block_pos_safe [OF assms(1) fd(2)])
  then obtain r where r: "block_pos sbi fd block = Some r" "keeps pos_ok r" by (cases "block_pos sbi fd block") auto
  show ?thesis
  proof (cases r)
    case (Inl e)
    then show ?thesis using r assms(3) by (simp add: apfs_compress_file_read_block_def)
  next
    case (Inr p)
    obtain o' c where p: "p = (o', c)" by force
    have c: "cdata_ok c" using r(2) Inr p by (simp add: pos_ok_def)
    show ?thesis
    proof (cases o')
      case None
      then show ?thesis using r(1) Inr p c fd by (simp add: apfs_compress_file_read_block_def fd_ok_def)
    next
      case (Some t)
      obtain csize bsize offs where t: "t = (csize, bsize, offs)" by (cases t)
      have bsize: "bsize \<le> 0x10000" using r(2) Inr p Some t by (simp add: pos_ok_def)
      have rd: "keepso (\<lambda>(data, c'). length data = unat csize \<and> cdata_ok c') (apfs_compressed_data_read sbi c csize offs)"
        by (rule compressed_read_safe [OF assms(1) c])
      show ?thesis
      proof (cases "kvmalloc_ok dec csize")
        case False
        then show ?thesis using r(1) Inr p Some t c fd by (simp add: apfs_compress_file_read_block_def fd_ok_def)
      next
        case True
        from rd obtain r' where r': "apfs_compressed_data_read sbi c csize offs = Some r'" "keeps (\<lambda>(data, c'). length data = unat csize \<and> cdata_ok c') r'"
          by (cases "apfs_compressed_data_read sbi c csize offs") auto
        show ?thesis
        proof (cases r')
          case (Inl e)
          then show ?thesis using r' r(1) Inr p Some t True c fd by (simp add: apfs_compress_file_read_block_def fd_ok_def)
        next
          case (Inr data)
          obtain cdata c' where d: "data = (cdata, c')" by force
          have cd: "length cdata = unat csize" "cdata_ok c'" using r'(2) Inr d by simp_all
          obtain res tmp where dc: "decompress_block dec (hdr_algo (fd_hdr fd)) (fd_buf fd) bsize csize cdata = (res, tmp)" by force
          have "block_result csize (res, tmp)" using decompress_block_result [OF assms(2) fd(1) cd(1) bsize, of "hdr_algo (fd_hdr fd)"] dc by simp
          then show ?thesis
            using r'(1) r(1) \<open>r = Inr p\<close> p Some t True Inr d dc cd fd
            by (auto simp: apfs_compress_file_read_block_def fd_ok_def block_result_def split: sum.split option.split)
        qed
      qed
    qed
  qed
qed

lemma preread_returns:
  assumes "vol_fits sbi"
  shows "\<exists>bnos ds'. preread_blocks sbi ds bno n = Some (bnos, ds')"
proof (induction n arbitrary: ds bno)
  case (Suc n)
  obtain r where r: "apfs_logic_to_phys_bno sbi ds bno = Some r"
    using logic_to_phys_returns [OF assms, of ds bno] by (cases "apfs_logic_to_phys_bno sbi ds bno") auto
  show ?case
  proof (cases r)
    case (Inr p)
    obtain b ds' where "p = (b, ds')" by force
    then show ?thesis using r Inr Suc.IH [of ds' "bno + 1"] by auto
  qed (use r in simp)
qed simp

lemma compress_preread_returns:
  assumes "vol_fits sbi" "fd_ok fd"
  obtains fd' where "compress_preread sbi fd off = Some fd'" "fd_ok fd'" "fd_hdr fd' = fd_hdr fd"
proof (cases "cd_source (fd_cdata fd)")
  case (Cd_dstream ds)
  obtain bnos ds' where "apfs_nonsparse_dstream_preread sbi ds = Some (bnos, ds')"
    unfolding apfs_nonsparse_dstream_preread_def using preread_returns [OF assms(1)] by blast
  then show thesis using that assms(2) Cd_dstream by (cases "off = 0") (auto simp: compress_preread_def fd_ok_def cdata_ok_def)
qed (use that assms(2) in \<open>auto simp: compress_preread_def\<close>)

lemma read_from_buf_safe:
  assumes "fd_ok fd"
  shows "keeps (\<lambda>data. length data \<le> unat sz) (read_from_buf fd sz off)"
proof (cases "fd_bufsize fd < off")
  case False
  let ?n = "if sz > fd_bufsize fd - off then fd_bufsize fd - off else sz"
  have buf: "length (fd_buf fd) = 0x10000" "unat (fd_bufsize fd) \<le> 0x10000" using assms by (simp_all add: fd_ok_def word_le_nat_alt)
  have "unat (fd_bufsize fd - off) = unat (fd_bufsize fd) - unat off" "unat off \<le> unat (fd_bufsize fd)"
    using False by (simp_all add: unat_sub word_le_nat_alt not_less)
  then have n: "unat off + unat ?n \<le> 0x10000" "unat ?n \<le> unat sz" using buf(2) by (auto simp: word_less_nat_alt)
  have "keeps (\<lambda>data. length data = unat ?n) (rd_bytes (fd_buf fd) (uint off) (uint ?n))"
    using rd_bytes_ok [of "uint off" "uint ?n" "fd_buf fd"] n(1) buf(1) by (auto simp: uint_nat simp del: of_nat_unat)
  then show ?thesis using False n(2) unfolding read_from_buf_def Let_def if_not_P [OF False]
    by (cases "rd_bytes (fd_buf fd) (uint off) (uint ?n)") auto
qed (simp add: read_from_buf_def)

end
