(* ===== verification/CompressRead.thy ===== *)
theory CompressRead
  imports Compress
begin

text \<open>
  What the reads of compressed files return: the bytes of the file if its data is in the attribute and decodes to
  them, on any image no access outside of the buffers but for two kinds of stored blocks, and two cases in which
  the driver does not return what the file has.
\<close>

section \<open>Files in one attribute\<close>

lemma unat_u64: "n < 2 ^ 64 \<Longrightarrow> unat (of_nat n :: u64) = n"
  by (simp add: unsigned_of_nat take_bit_nat_eq_self)

text \<open>The value of the attribute: a header and the compressed data.\<close>

definition decmpfs_val :: "u32 \<Rightarrow> u64 \<Rightarrow> byte list \<Rightarrow> byte list" where
  "decmpfs_val algo sz payload = le_bytes 4 0x636d7066 @ le_bytes 4 (unat algo) @ le_bytes 8 (unat sz) @ payload"

lemma length_decmpfs_val [simp]: "length (decmpfs_val algo sz payload) = length payload + 16"
  by (simp add: decmpfs_val_def)

lemma compress_hdr_decmpfs:
  "compress_hdr (take 16 (decmpfs_val algo sz payload)) = Inr \<lparr>hdr_signature = 0x636d7066, hdr_algo = algo, hdr_size = sz\<rparr>"
proof -
  let ?b = "le_bytes 4 0x636d7066 @ le_bytes 4 (unat algo) @ le_bytes 8 (unat sz)"
  have b: "take 16 (decmpfs_val algo sz payload) = ?b" by (simp add: decmpfs_val_def)
  have "rd32 ?b 0 = Inr 0x636d7066" "rd32 ?b 4 = Inr (unat algo mod 2 ^ 32)" "rd64 ?b 8 = Inr (unat sz)"
    by (simp_all add: rd_le_Inr unat_mod_u64 del: le_bytes.simps)
  moreover have "unat algo mod 2 ^ 32 = unat algo" using unsigned_less [of algo] by (intro mod_less) (simp flip: of_nat_less_iff)
  ultimately show ?thesis unfolding b by (simp add: compress_hdr_def)
qed

text \<open>The compressed data decodes to the bytes of the file.\<close>

definition decodes :: "decoders \<Rightarrow> u32 \<Rightarrow> byte list \<Rightarrow> byte list \<Rightarrow> bool" where
  "decodes dec algo payload data \<longleftrightarrow>
     (\<forall>tmp. length tmp = 0x10000 \<longrightarrow>
        decompress_block dec algo tmp (of_nat (length data)) (of_nat (length payload)) payload =
          (Inr (Some (of_nat (length data))), data @ drop (length data) tmp))"

text \<open>Data that is stored after the byte that marks it, and LZBITMAP data in chunks that are stored.\<close>

definition is_stored :: "u32 \<Rightarrow> byte \<Rightarrow> bool" where
  "is_stored algo c \<longleftrightarrow> algo = APFS_COMPRESS_PLAIN_ATTR \<or> algo = APFS_COMPRESS_ZLIB_ATTR \<and> c AND 0x0F = 0x0F \<or>
     algo = APFS_COMPRESS_LZVN_ATTR \<and> c = 0x06 \<or> algo = APFS_COMPRESS_LZFSE_ATTR \<and> c \<noteq> 0x62 \<or>
     algo = APFS_COMPRESS_LZBITMAP_ATTR \<and> c AND 0x0F = 0x0F"

lemma stored_decodes:
  assumes "is_stored algo c" "length data \<le> 0x10000"
  shows "decodes dec algo (c # data) data"
  unfolding decodes_def
proof (intro allI impI)
  fix tmp :: buffer
  assume tmp: "length tmp = 0x10000"
  let ?n = "of_nat (length (c # data)) :: u64"
  have n: "unat ?n = length (c # data)" using assms(2) by (simp only: unsigned_of_nat) (simp add: take_bit_nat_eq_self)
  then have st: "stored_block tmp ?n (c # data) = (Inr (Some (of_nat (length data))), data @ drop (length data) tmp)"
    using stored_block_eq(1) [OF tmp, of "c # data" ?n] assms(2) by (simp add: word_le_nat_alt unat_eq_0 [symmetric])
  have c: "c \<noteq> 0x78" "c \<noteq> 0x5a" if "c AND 0x0F = 0x0F" using that by auto
  have "rd8 (c # data) 0 = Inr c" by (simp add: rd8_def)
  then show "decompress_block dec algo tmp (of_nat (length data)) (of_nat (length (c # data))) (c # data) =
      (Inr (Some (of_nat (length data))), data @ drop (length data) tmp)"
    using assms(1) st c unfolding is_stored_def decompress_block_def apfs_compress_is_supported_def by (elim disjE conjE) simp_all
qed

lemma zbm_decodes:
  assumes "\<forall>ch \<in> set chunks. ch \<noteq> [] \<and> length ch \<le> 0x8000" "length (concat chunks) \<le> 0x10000"
  shows "decodes dec APFS_COMPRESS_LZBITMAP_ATTR (zbm_stored chunks) (concat chunks)"
  unfolding decodes_def
proof (intro allI impI)
  fix tmp :: buffer
  assume tmp: "length tmp = 0x10000"
  let ?n = "length (concat chunks)"
  have n: "unat (of_nat ?n :: u64) = ?n" using assms(2) by (simp only: unsigned_of_nat) (simp add: take_bit_nat_eq_self)
  have "zbm_decompress (Some (take ?n tmp)) (zbm_stored chunks) = Some (Inr (concat chunks, int ?n))"
    using zbm_decompress_stored [OF assms(1), of "take ?n tmp"] assms(2) tmp by simp
  then have "zbm_block dec tmp ?n (zbm_stored chunks) = (Inr ?n, concat chunks @ drop ?n tmp)" by (simp add: zbm_block_def)
  moreover have "rd8 (zbm_stored chunks) 0 = Inr 0x5a" by (simp add: zbm_stored_def ZBM_MAGIC_def rd8_def)
  ultimately show "decompress_block dec APFS_COMPRESS_LZBITMAP_ATTR tmp (of_nat ?n) (of_nat (length (zbm_stored chunks))) (zbm_stored chunks) =
      (Inr (Some (of_nat ?n)), concat chunks @ drop ?n tmp)"
    unfolding decompress_block_def apfs_compress_is_supported_def by (simp add: n del: length_concat)
qed

section \<open>Pages of such files\<close>

definition inline_fd :: "u32 \<Rightarrow> byte list \<Rightarrow> byte list \<Rightarrow> apfs_compress_file_data \<Rightarrow> bool" where
  "inline_fd algo payload data fd \<longleftrightarrow>
     fd_hdr fd = \<lparr>hdr_signature = 0x636d7066, hdr_algo = algo, hdr_size = of_nat (length data)\<rparr> \<and>
     fd_cdata fd = \<lparr>cd_size = of_nat (length payload + 16), cd_source = Cd_data (decmpfs_val algo (of_nat (length data)) payload)\<rparr> \<and>
     length (fd_buf fd) = 0x10000 \<and>
     (fd_bufblk fd = None \<or> fd_bufblk fd = Some 0 \<and> fd_bufsize fd = of_nat (length data) \<and> take (length data) (fd_buf fd) = data)"

lemma read_inline_block:
  assumes fd: "inline_fd algo payload data fd" and dec: "decodes dec algo payload data" "kvmalloc_ok dec (of_nat (length payload))"
    and len: "\<not> apfs_compress_is_rsrc algo" "length data \<le> 0x10000" "length payload < 2 ^ 31"
  obtains fd' where "(if fd_bufblk fd = Some 0 then Some (None, fd) else apfs_compress_file_read_block dec sbi fd 0) = Some (None, fd')"
    "inline_fd algo payload data fd'" "fd_bufblk fd' = Some 0"
proof (cases "fd_bufblk fd = Some 0")
  case True
  then show thesis using that fd by simp
next
  case False
  let ?b = "decmpfs_val algo (of_nat (length data)) payload" and ?n = "of_nat (length payload) :: u64"
  have n: "unat ?n = length payload" "unat (?n + 16) = length payload + 16"
    using len(3) unat_u64 [of "length payload"] unat_u64 [of "length payload + 16"] by (simp_all add: add.commute)
  have "\<not> (0x10000 :: u64) < of_nat (length data)" using len(2) by (simp add: word_less_nat_alt unsigned_of_nat take_bit_nat_eq_self)
  then have pos: "block_pos sbi fd 0 = Some (Inr (Some (?n, of_nat (length data), 16), fd_cdata fd))"
    using fd len(1) by (simp add: block_pos_def Let_def inline_fd_def)
  have fits: "\<not> (16 > ?n + 16 \<or> ?n > ?n + 16 - 16)" using n by (simp add: word_less_nat_alt)
  have raw: "rd_bytes ?b 16 (uint ?n) = Inr payload"
  proof -
    have b: "?b = (le_bytes 4 0x636d7066 @ le_bytes 4 (unat algo) @ le_bytes 8 (unat (of_nat (length data) :: u64))) @ payload @ []"
      by (simp add: decmpfs_val_def)
    show ?thesis unfolding b by (rule rd_bytes_append) (use n in \<open>simp_all add: uint_nat del: of_nat_unat\<close>)
  qed
  have src: "cd_source (fd_cdata fd) = Cd_data ?b" "cd_size (fd_cdata fd) = ?n + 16" using fd by (simp_all add: inline_fd_def add.commute)
  have u16: "uint (16 :: u64) = 16" by simp
  have rd: "apfs_compressed_data_read sbi (fd_cdata fd) ?n 16 = Some (Inr (payload, fd_cdata fd))"
    unfolding apfs_compressed_data_read_def src compressed_source.case if_not_P [OF fits] u16 raw by simp
  have buf: "length (fd_buf fd) = 0x10000" "hdr_algo (fd_hdr fd) = algo" using fd by (simp_all add: inline_fd_def)
  have "apfs_compress_file_read_block dec sbi fd 0 =
      Some (None, fd\<lparr>fd_cdata := fd_cdata fd, fd_buf := data @ drop (length data) (fd_buf fd), fd_bufblk := Some 0, fd_bufsize := of_nat (length data)\<rparr>)"
    using pos rd dec buf by (simp add: apfs_compress_file_read_block_def decodes_def)
  then show thesis using that False fd len(2) by (simp add: inline_fd_def)
qed

lemma read_from_inline:
  assumes fd: "inline_fd algo payload data fd" and dec: "decodes dec algo payload data" "kvmalloc_ok dec (of_nat (length payload))"
    and len: "\<not> apfs_compress_is_rsrc algo" "length data \<le> 0x10000" "length payload < 2 ^ 31"
  shows "\<exists>fd'. apfs_compress_file_read_from_block dec sbi fd sz off = Some (Inr (take (unat sz) (drop (unat off) data)), fd') \<and>
    inline_fd algo payload data fd'"
proof -
  let ?s = "of_nat (length data) :: u64"
  have s: "unat ?s = length data" using len(2) by (simp add: unsigned_of_nat take_bit_nat_eq_self)
  have pre: "compress_preread sbi fd off = Some fd" and hs: "hdr_size (fd_hdr fd) = ?s" using fd by (simp_all add: compress_preread_def inline_fd_def)
  show ?thesis
  proof (cases "off \<ge> ?s")
    case True
    then have "length data \<le> unat off" using s by (simp add: word_le_nat_alt)
    then show ?thesis using True pre hs fd by (simp add: apfs_compress_file_read_from_block_def Let_def)
  next
    case False
    then have off: "unat off < length data" using s by (simp add: word_le_nat_alt)
    then have "unat (off div 0x10000) = 0" using len(2) by (simp add: unat_div)
    then have blk: "off div 0x10000 = 0" by (simp only: unat_eq_0)
    let ?sz = "if sz > ?s - off then ?s - off else sz"
    have d: "unat (?s - off) = length data - unat off" using off s by (simp add: unat_sub word_le_nat_alt)
    have sz: "unat ?sz = min (unat sz) (length data - unat off)" using d by (auto simp: word_less_nat_alt min_def)
    obtain fd' where fd': "(if fd_bufblk fd = Some 0 then Some (None, fd) else apfs_compress_file_read_block dec sbi fd 0) = Some (None, fd')"
      "inline_fd algo payload data fd'" "fd_bufblk fd' = Some 0"
      by (rule read_inline_block [OF assms])
    have buf: "fd_bufsize fd' = ?s" "take (length data) (fd_buf fd') = data" "length (fd_buf fd') = 0x10000"
      using fd'(2,3) by (simp_all add: inline_fd_def)
    have "read_from_buf fd' ?sz off = rd_bytes (fd_buf fd') (uint off) (uint ?sz)"
      using False buf(1) by (auto simp: read_from_buf_def Let_def not_le)
    also have "\<dots> = Inr (take (unat ?sz) (drop (unat off) data))"
    proof -
      have "rd_bytes (fd_buf fd') 0 (int (length data)) = Inr data" using buf(2,3) len(2) by (simp add: rd_bytes_def)
      then show ?thesis by (rule rd_bytes_slice) (use sz off in \<open>simp_all add: uint_nat del: of_nat_unat\<close>)
    qed
    finally have "read_from_buf fd' ?sz off = Inr (take (unat sz) (drop (unat off) data))"
      using sz take_take [of "unat sz" "length data - unat off" "drop (unat off) data"] by simp
    moreover have "apfs_compress_file_read_from_block dec sbi fd sz off = Some (read_from_buf fd' ?sz off, fd')"
      unfolding apfs_compress_file_read_from_block_def Let_def pre option.case hs if_not_P [OF False] blk mult_zero_left diff_zero fd'(1) by simp
    ultimately show ?thesis using fd'(2) by auto
  qed
qed

definition page_step :: "u64 \<Rightarrow> nat \<Rightarrow> nat" where
  "page_step pos step = (if 0x10000 - unat (pos AND 0xffff) > 4096 - step then 4096 - step else 0x10000 - unat (pos AND 0xffff))"

lemma read_page_loop_step:
  assumes "length page < 4096" "blk = page_step (off + of_nat (length page)) (length page)"
    and "apfs_compress_file_read_from_block dec sbi fd (of_nat blk) (off + of_nat (length page)) = Some (Inr data, fd')"
  shows "read_page_loop dec sbi fd off page = (if length data < blk then Some (Inr (page @ data), fd') else read_page_loop dec sbi fd' off (page @ data))"
  using assms by (subst read_page_loop.simps) (simp add: Let_def page_step_def)

lemma read_page_inline:
  assumes "inline_fd algo payload data fd" "decodes dec algo payload data" "kvmalloc_ok dec (of_nat (length payload))"
    "\<not> apfs_compress_is_rsrc algo" "length data \<le> 0x10000" "length payload < 2 ^ 31" "unat off < 2 ^ 63"
    and "page = take (length page) (drop (unat off) data)" "length page \<le> 4096"
  shows "\<exists>fd'. read_page_loop dec sbi fd off page = Some (Inr (take 4096 (drop (unat off) data)), fd') \<and> inline_fd algo payload data fd'"
  using assms(1,8,9)
proof (induction "4096 - length page" arbitrary: fd page rule: less_induct)
  case less
  show ?case
  proof (cases "length page < 4096")
    case True
    let ?step = "length page" let ?pos = "off + of_nat ?step"
    define blk where "blk = page_step ?pos ?step"
    have "unat (?pos AND 0xffff) \<le> 0xffff" using word_and_le1 [of ?pos "0xffff"] by (simp add: word_le_nat_alt)
    then have blk: "0 < blk" "blk \<le> 4096 - ?step" using True by (auto simp: blk_def page_step_def)
    have b: "unat (of_nat blk :: u64) = blk" using blk(2) by (intro unat_u64) simp
    have pos: "unat ?pos = unat off + ?step" using assms(7) True unat_u64 [of ?step] by (subst unat_add_lem [THEN iffD1]) simp_all
    let ?d = "take blk (drop (unat off + ?step) data)"
    obtain fd' where fd': "apfs_compress_file_read_from_block dec sbi fd (of_nat blk) ?pos = Some (Inr ?d, fd')" "inline_fd algo payload data fd'"
      using read_from_inline [OF less.prems(1) assms(2-6), of sbi "of_nat blk" ?pos] b pos by auto
    have cat: "page @ ?d = take (?step + blk) (drop (unat off) data)"
    proof -
      have "take (?step + blk) (drop (unat off) data) = take ?step (drop (unat off) data) @ ?d"
        using take_add [of ?step blk "drop (unat off) data"] by (simp add: add.commute)
      then show ?thesis using less.prems(2) by simp
    qed
    note step = read_page_loop_step [OF True blk_def fd'(1)]
    show ?thesis
    proof (cases "length ?d < blk")
      case short: True
      then have "page @ ?d = take 4096 (drop (unat off) data)" unfolding cat using blk(2) True by (intro take_all_iff [THEN iffD2, THEN trans]) auto
      then show ?thesis using fd'(2) unfolding step if_P [OF short] by simp
    next
      case False
      then have l: "length ?d = blk" by simp
      then have "length (page @ ?d) = ?step + blk" by simp
      moreover have more: "4096 - (?step + blk) < 4096 - ?step" "?step + blk \<le> 4096" using blk True by simp_all
      ultimately obtain fd'' where "read_page_loop dec sbi fd' off (page @ ?d) = Some (Inr (take 4096 (drop (unat off) data)), fd'')" "inline_fd algo payload data fd''"
        using less.hyps [of "page @ ?d" fd', OF _ fd'(2)] cat more by auto
      then show ?thesis unfolding step if_not_P [OF False] by blast
    qed
  next
    case False
    then have "length page = 4096" using less.prems(3) by simp
    then show ?thesis using less.prems(1,2) by (subst read_page_loop.simps) simp
  qed
qed

text \<open>The state of the file after it is opened.\<close>

definition compress_key :: "u64 \<Rightarrow> apfs_key" where
  "compress_key ino = apfs_init_xattr_key ino (Some APFS_XATTR_NAME_COMPRESSED)"

definition compress_record :: "u64 \<Rightarrow> byte list \<Rightarrow> byte list \<times> byte list" where
  "compress_record ino val = (apfs_build_xattr_key APFS_XATTR_NAME_COMPRESSED ino, apfs_build_inline_xattr_val val)"

lemma compress_open_eq:
  assumes "catalog sbi ks recs" "compress_key ino \<in> set ks" "recs (compress_key ino) = compress_record ino (decmpfs_val algo sz payload)"
    and "\<not> apfs_compress_is_rsrc algo" "apfs_compress_is_supported algo" "length payload + 16 \<le> 3804"
  shows "apfs_compress_file_open sbi ino False True isz buf =
      Some (Inr (Some \<lparr>fd_hdr = \<lparr>hdr_signature = 0x636d7066, hdr_algo = algo, hdr_size = sz\<rparr>, fd_buf = buf, fd_bufblk = None, fd_bufsize = 0,
        fd_cdata = \<lparr>cd_size = of_nat (length payload + 16), cd_source = Cd_data (decmpfs_val algo sz payload)\<rparr>\<rparr>))"
    "apfs_compress_get_size sbi ino = Some (Inr (Some sz))"
proof -
  let ?v = "decmpfs_val algo sz payload"
  let ?x = "\<lparr>xa_name = APFS_XATTR_NAME_COMPRESSED, xa_xdata = ?v, xa_has_dstream = False\<rparr>"
  have name: "length APFS_XATTR_NAME_COMPRESSED < 65535" by (simp add: APFS_XATTR_NAME_COMPRESSED_def c_bytes_def)
  obtain q c where q: "xattr_query sbi ino APFS_XATTR_NAME_COMPRESSED = Some (None, q # c)"
      "found_bytes q = Inr (apfs_build_xattr_key APFS_XATTR_NAME_COMPRESSED ino, le_bytes 2 2 @ le_bytes 2 (length ?v) @ ?v)"
    using cat_query_exact(2) [OF assms(1) xattr_key_named assms(2) [unfolded compress_key_def]] assms(3)
    by (auto simp: xattr_query_def compress_key_def compress_record_def apfs_build_inline_xattr_val_def)
  have x: "apfs_xattr_from_query q = Inr ?x" using xattr_from_built [OF q(2) name] assms(6) by simp
  have "rd_bytes ?v 0 16 = Inr (take 16 ?v)" by (simp add: rd_bytes_def)
  then have get: "xattr_get sbi ino APFS_XATTR_NAME_COMPRESSED (Some 16) False = Some (Inr (16, take 16 ?v))"
    using q(1) x by (cases payload) (simp_all add: xattr_get_def apfs_xattr_inline_read_def Let_def to_s32_def)
  have cd: "apfs_xattr_get_compressed_data sbi ino APFS_XATTR_NAME_COMPRESSED = Some (Inr \<lparr>cd_size = of_nat (length ?v), cd_source = Cd_data ?v\<rparr>)"
    using q(1) x assms(6) by (simp add: apfs_xattr_get_compressed_data_def)
  show "apfs_compress_file_open sbi ino False True isz buf =
      Some (Inr (Some \<lparr>fd_hdr = \<lparr>hdr_signature = 0x636d7066, hdr_algo = algo, hdr_size = sz\<rparr>, fd_buf = buf, fd_bufblk = None, fd_bufsize = 0,
        fd_cdata = \<lparr>cd_size = of_nat (length payload + 16), cd_source = Cd_data ?v\<rparr>\<rparr>))"
    using get cd assms(4,5) by (simp add: apfs_compress_file_open_def compress_hdr_decmpfs)
  show "apfs_compress_get_size sbi ino = Some (Inr (Some sz))"
    using get assms(5) by (simp add: apfs_compress_get_size_def compress_hdr_decmpfs)
qed

section \<open>Properties\<close>

text \<open>
  (C34) A read of a compressed file returns on any image and keeps the state of the open file.  It accesses no memory
  outside of the buffers, with one exception: a stored block whose compressed size is zero or more than 65537.
\<close>

theorem compressed_reads_on_any_image:
  assumes "vol_fits sbi" "decoders_ok dec" "fd_ok fd"
  shows "\<exists>r fd'. apfs_compress_file_read_from_block dec sbi fd sz off = Some (r, fd') \<and> fd_ok fd' \<and>
    (\<forall>data. r = Inr data \<longrightarrow> length data \<le> unat sz) \<and>
    (r = Inl UB \<longrightarrow> (\<exists>fd1 csize bsize offs c. compress_preread sbi fd off = Some fd1 \<and>
       block_pos sbi fd1 (off div 0x10000) = Some (Inr (Some (csize, bsize, offs), c)) \<and> (csize = 0 \<or> csize > 0x10001)))"
proof -
  obtain fd1 where fd1: "compress_preread sbi fd off = Some fd1" "fd_ok fd1" "fd_hdr fd1 = fd_hdr fd"
    by (rule compress_preread_returns [OF assms(1,3)])
  let ?s = "hdr_size (fd_hdr fd1)" and ?b = "off div 0x10000"
  show ?thesis
  proof (cases "off \<ge> ?s")
    case True
    then show ?thesis using fd1 by (simp add: apfs_compress_file_read_from_block_def Let_def)
  next
    case False
    let ?sz = "if sz > ?s - off then ?s - off else sz"
    let ?blk = "if fd_bufblk fd1 = Some ?b then Some (None, fd1) else apfs_compress_file_read_block dec sbi fd1 ?b"
    obtain e fd2 where blk: "?blk = Some (e, fd2)" "fd_ok fd2"
      "e = Some UB \<longrightarrow> (\<exists>csize bsize offs c. block_pos sbi fd1 ?b = Some (Inr (Some (csize, bsize, offs), c)) \<and> (csize = 0 \<or> csize > 0x10001))"
      using read_block_returns [OF assms(1,2) fd1(2), of ?b] fd1(2) by (cases "fd_bufblk fd1 = Some ?b") auto
    have run: "apfs_compress_file_read_from_block dec sbi fd sz off =
        (case e of None \<Rightarrow> Some (read_from_buf fd2 ?sz (off - ?b * 0x10000), fd2) | Some e \<Rightarrow> Some (Inl e, fd2))"
      unfolding apfs_compress_file_read_from_block_def Let_def fd1(1) option.case if_not_P [OF False] blk(1) by (simp split: option.split)
    have "unat ?sz \<le> unat sz" by (auto simp: word_less_nat_alt)
    then have "keeps (\<lambda>data. length data \<le> unat sz) (read_from_buf fd2 ?sz (off - ?b * 0x10000))"
      using read_from_buf_safe [OF blk(2), of ?sz "off - ?b * 0x10000"] by (cases "read_from_buf fd2 ?sz (off - ?b * 0x10000)") auto
    then show ?thesis using run blk(2,3) fd1(1) by (cases e; cases "read_from_buf fd2 ?sz (off - ?b * 0x10000)") auto
  qed
qed

definition null_decoder :: decoder where
  "null_decoder tmp n src = (Inl EINVAL, tmp)"

definition sample_decoders :: decoders where
  "sample_decoders = \<lparr>dec_zlib = null_decoder, dec_lzvn = null_decoder, dec_lzfse = null_decoder, dec_residue = \<lambda>tmp src i. 0, kvmalloc_ok = \<lambda>n. n < 2 ^ 31\<rparr>"

lemma sample_decoders_ok: "decoders_ok sample_decoders"
proof -
  have "block_decoder null_decoder" by unfold_locales (simp_all add: null_decoder_def)
  then show ?thesis by (simp add: decoders_ok_def sample_decoders_def)
qed

definition sample_fd :: "u32 \<Rightarrow> u64 \<Rightarrow> byte list \<Rightarrow> apfs_compress_file_data" where
  "sample_fd algo sz b = \<lparr>fd_hdr = \<lparr>hdr_signature = 0x636d7066, hdr_algo = algo, hdr_size = sz\<rparr>, fd_buf = replicate 0x10000 0, fd_bufblk = None,
     fd_bufsize = 0, fd_cdata = \<lparr>cd_size = of_nat (length b), cd_source = Cd_data b\<rparr>\<rparr>"

lemma sample_fd_ok: "length b < 2 ^ 31 \<Longrightarrow> fd_ok (sample_fd algo sz b)"
  by (simp add: fd_ok_def cdata_ok_def sample_fd_def)

theorem compressed_reads_on_any_image_witness:
  "\<exists>r fd'. apfs_compress_file_read_from_block sample_decoders (small_vol sample_node) (sample_fd 4 0x20000 [1, 2, 3]) 4096 0x10000 = Some (r, fd') \<and> fd_ok fd'"
proof -
  have "node_fits 256 sample_node" using sample_node_repr(2) by (simp add: node_fits_def) (simp add: sample_node_def)
  moreover have "fd_ok (sample_fd 4 0x20000 [1, 2, 3])" by (rule sample_fd_ok) simp
  ultimately show ?thesis
    using compressed_reads_on_any_image [of "small_vol sample_node" sample_decoders "sample_fd 4 0x20000 [1, 2, 3]" 4096 "0x10000"]
      small_vol_fits sample_decoders_ok by blast
qed

text \<open>
  (C35) A compressed file is read back.  If the catalog has the attribute with the header and the compressed data, and
  the data decodes to the bytes of the file, then the file can be opened, its size is the one of the header, and
  each page is the bytes of the file at its place, with zeroes after the end of the file.  The state of the file stays
  one from which the next page is read in the same way.
\<close>

theorem compressed_file_read_back:
  assumes "catalog sbi ks recs" "compress_key ino \<in> set ks"
    and "recs (compress_key ino) = compress_record ino (decmpfs_val algo (of_nat (length data)) payload)"
    and "\<not> apfs_compress_is_rsrc algo" "apfs_compress_is_supported algo" "length payload + 16 \<le> 3804" "length data \<le> 0x10000"
    and "decodes dec algo payload data" "kvmalloc_ok dec (of_nat (length payload))" "length buf = 0x10000"
  shows "apfs_compress_get_size sbi ino = Some (Inr (Some (of_nat (length data)))) \<and>
    (\<exists>fd. apfs_compress_file_open sbi ino False True isz buf = Some (Inr (Some fd)) \<and> inline_fd algo payload data fd) \<and>
    (\<forall>fd index. inline_fd algo payload data fd \<and> unat index < 2 ^ 51 \<longrightarrow>
      (\<exists>fd'. apfs_compress_read_folio dec sbi fd index =
         Some (Inr (take 4096 (drop (4096 * unat index) data @ replicate 4096 0)), fd') \<and> inline_fd algo payload data fd'))"
proof (intro conjI allI impI)
  show "apfs_compress_get_size sbi ino = Some (Inr (Some (of_nat (length data))))" by (rule compress_open_eq(2) [OF assms(1-6)])
  show "\<exists>fd. apfs_compress_file_open sbi ino False True isz buf = Some (Inr (Some fd)) \<and> inline_fd algo payload data fd"
    using compress_open_eq(1) [OF assms(1-6)] assms(10) by (simp add: inline_fd_def)
  fix fd and index :: u64
  assume "inline_fd algo payload data fd \<and> unat index < 2 ^ 51"
  then have fd: "inline_fd algo payload data fd" and i: "unat index < 2 ^ 51" by simp_all
  have off: "unat (push_bit 12 index) = 4096 * unat index"
    using i by (simp add: push_bit_eq_mult unat_word_ariths)
  let ?page = "take 4096 (drop (4096 * unat index) data)"
  obtain fd' where run: "read_page_loop dec sbi fd (push_bit 12 index) [] = Some (Inr ?page, fd')" "inline_fd algo payload data fd'"
    using read_page_inline [OF fd assms(8,9,4,7), of "push_bit 12 index" "[]" sbi] assms(6) i off by auto
  have "?page @ replicate (4096 - length ?page) 0 = take 4096 (drop (4096 * unat index) data @ replicate 4096 0)"
    by (simp add: min_def)
  then show "\<exists>fd'. apfs_compress_read_folio dec sbi fd index =
      Some (Inr (take 4096 (drop (4096 * unat index) data @ replicate 4096 0)), fd') \<and> inline_fd algo payload data fd'"
    using run by (simp add: apfs_compress_read_folio_def apfs_compress_file_read_page_def)
qed

lemma small_compressed:
  assumes "length payload \<le> 60"
  obtains root where "catalog (small_vol root) [compress_key 19] (\<lambda>_. compress_record 19 (decmpfs_val algo sz payload))"
proof -
  let ?rs = "[compress_record 19 (decmpfs_val algo sz payload)]"
  have name: "length APFS_XATTR_NAME_COMPRESSED = 17" "0 \<notin> set APFS_XATTR_NAME_COMPRESSED"
    by (simp_all add: APFS_XATTR_NAME_COMPRESSED_def c_bytes_def)
  then have key: "length (apfs_build_xattr_key APFS_XATTR_NAME_COMPRESSED 19) = 28"
    by (simp add: build_xattr_key_eq key_hdr_length)
  have rd: "apfs_read_cat_key (apfs_build_xattr_key APFS_XATTR_NAME_COMPRESSED 19 @ rest)
      (int (length (apfs_build_xattr_key APFS_XATTR_NAME_COMPRESSED 19))) True = Inr (compress_key 19)" for rest
    unfolding compress_key_def by (rule read_xattr_key) (use name in \<open>simp_all add: APFS_OBJ_ID_MASK_def\<close>)
  have val: "length (apfs_build_inline_xattr_val (decmpfs_val algo sz payload)) = length payload + 20"
    by (simp add: apfs_build_inline_xattr_val_def)
  show thesis
    by (rule small_catalog [of ?rs "[compress_key 19]" "\<lambda>_. hd ?rs"])
      (use that key rd val xattr_key_named assms in \<open>auto simp: compress_record_def sorted_keys_def compress_key_def simp del: length_greater_0_conv\<close>)
qed

theorem compressed_file_read_back_witness:
  "\<exists>root fd fd'. apfs_compress_file_open (small_vol root) 19 False True 2 (replicate 0x10000 0) = Some (Inr (Some fd)) \<and>
     apfs_compress_read_folio sample_decoders (small_vol root) fd 0 = Some (Inr (take 4096 ([104, 105] @ replicate 4096 0)), fd')"
proof -
  have dec: "decodes sample_decoders 9 [204, 104, 105] [104, 105]" by (rule stored_decodes) (simp_all add: is_stored_def)
  obtain root where root: "catalog (small_vol root) [compress_key 19] (\<lambda>_. compress_record 19 (decmpfs_val 9 (of_nat (length [104, 105 :: byte])) [204, 104, 105]))"
    by (rule small_compressed [of "[204, 104, 105]"]) simp_all
  have kv: "kvmalloc_ok sample_decoders (of_nat (length [204, 104, 105 :: byte]))" by (simp add: sample_decoders_def)
  have pre: "compress_key 19 \<in> set [compress_key 19]" "\<not> apfs_compress_is_rsrc 9" "apfs_compress_is_supported 9"
      "length [204, 104, 105 :: byte] + 16 \<le> 3804" "length [104, 105 :: byte] \<le> 0x10000" "length (replicate 0x10000 (0 :: byte)) = 0x10000"
    by (simp_all add: apfs_compress_is_rsrc_def apfs_compress_is_supported_def)
  note ok = compressed_file_read_back [OF root pre(1) refl pre(2-5) dec kv pre(6), of 2]
  obtain fd where fd: "apfs_compress_file_open (small_vol root) 19 False True 2 (replicate 0x10000 0) = Some (Inr (Some fd))"
      "inline_fd 9 [204, 104, 105] [104, 105] fd" using ok by blast
  have "unat (0 :: u64) < 2 ^ 51" "drop (4096 * unat (0 :: u64)) [104, 105 :: byte] = [104, 105]" by simp_all
  then obtain fd' where "apfs_compress_read_folio sample_decoders (small_vol root) fd 0 = Some (Inr (take 4096 ([104, 105] @ replicate 4096 0)), fd')"
    using ok fd(2) by metis
  with fd(1) show ?thesis by blast
qed

text \<open>
  (C36) A file whose attribute is a header and nothing else can be opened, and the read of its first page copies from
  before the compressed data: the number of bytes is zero minus one.
\<close>

theorem header_only_file_overflows:
  assumes "catalog sbi ks recs" "compress_key ino \<in> set ks"
    and "recs (compress_key ino) = compress_record ino (decmpfs_val APFS_COMPRESS_PLAIN_ATTR sz [])"
    and "0 < sz" "sz \<le> 0x10000" "kvmalloc_ok dec 0" "length buf = 0x10000"
  shows "\<exists>fd. apfs_compress_file_open sbi ino False True isz buf = Some (Inr (Some fd)) \<and>
    apfs_compress_read_folio dec sbi fd 0 = Some (Inl UB, fd)"
proof -
  let ?v = "decmpfs_val 9 sz []"
  define fd where "fd = \<lparr>fd_hdr = \<lparr>hdr_signature = 0x636d7066, hdr_algo = 9, hdr_size = sz\<rparr>, fd_buf = buf, fd_bufblk = None, fd_bufsize = 0,
        fd_cdata = \<lparr>cd_size = 16, cd_source = Cd_data ?v\<rparr>\<rparr>"
  have algo: "\<not> apfs_compress_is_rsrc 9" "apfs_compress_is_supported 9" by (simp_all add: apfs_compress_is_rsrc_def apfs_compress_is_supported_def)
  have op: "apfs_compress_file_open sbi ino False True isz buf = Some (Inr (Some fd))"
    using compress_open_eq(1) [OF assms(1-3) algo] by (simp add: fd_def)
  have "block_pos sbi fd 0 = Some (Inr (Some (0, sz, 16), fd_cdata fd))"
    using algo(1) assms(5) by (simp add: block_pos_def Let_def fd_def not_less)
  moreover have "apfs_compressed_data_read sbi (fd_cdata fd) 0 16 = Some (Inr ([], fd_cdata fd))"
    by (simp add: apfs_compressed_data_read_def fd_def rd_bytes_def)
  moreover have "decompress_block dec 9 buf sz 0 [] = (Inl UB, buf)"
    using stored_block_eq(2) [of buf "[]" 0] assms(7) by (simp add: decompress_block_def)
  ultimately have blk: "apfs_compress_file_read_block dec sbi fd 0 = Some (Some UB, fd)"
    using assms(6) by (simp add: apfs_compress_file_read_block_def fd_def)
  have "apfs_compress_file_read_from_block dec sbi fd n 0 = Some (Inl UB, fd)" for n
    using blk assms(4) by (simp add: apfs_compress_file_read_from_block_def compress_preread_def fd_def not_le)
  then have "apfs_compress_read_folio dec sbi fd 0 = Some (Inl UB, fd)"
    by (simp add: apfs_compress_read_folio_def apfs_compress_file_read_page_def read_page_loop.simps)
  with op show ?thesis by blast
qed

theorem header_only_file_overflows_witness:
  "\<exists>root fd. apfs_compress_file_open (small_vol root) 19 False True 1 (replicate 0x10000 0) = Some (Inr (Some fd)) \<and>
     apfs_compress_read_folio sample_decoders (small_vol root) fd 0 = Some (Inl UB, fd)"
proof -
  obtain root where root: "catalog (small_vol root) [compress_key 19] (\<lambda>_. compress_record 19 (decmpfs_val 9 1 []))"
    by (rule small_compressed [of "[]"]) simp_all
  show ?thesis
    using header_only_file_overflows [OF root _ refl, of sample_decoders "replicate 0x10000 0" 1] by (auto simp: sample_decoders_def)
qed

text \<open>
  (C37) A page of a block that the table of the resource fork does not have is filled from the buffer, whatever block is
  in it.  If the file was just opened the page is zero; after a page of the first block is read, the same page has
  the bytes of the first block.
\<close>

definition short_fork :: "byte list" where
  "short_fork = [0, 0, 0, 16, 0, 0, 0, 0, 0, 0, 0, 0, 0, 0, 0, 0, 0, 0, 0, 0, 1, 0, 0, 0, 12, 0, 0, 0, 2, 0, 0, 0, 0x0f, 7]"

lemma short_fork_reads:
  fixes sbi :: apfs_sb_info
  defines "c \<equiv> \<lparr>cd_size = 34, cd_source = Cd_data short_fork\<rparr>"
  shows "apfs_compressed_data_read sbi c 16 0 = Some (Inr ([0, 0, 0, 16, 0, 0, 0, 0, 0, 0, 0, 0, 0, 0, 0, 0], c))"
    "apfs_compressed_data_read sbi c 8 16 = Some (Inr ([0, 0, 0, 0, 1, 0, 0, 0], c))"
    "apfs_compressed_data_read sbi c 8 24 = Some (Inr ([12, 0, 0, 0, 2, 0, 0, 0], c))"
    "apfs_compressed_data_read sbi c 2 32 = Some (Inr ([0x0f, 7], c))"
  by (simp_all add: apfs_compressed_data_read_def c_def rd_bytes_def short_fork_def)

definition short_fd :: apfs_compress_file_data where
  "short_fd = sample_fd APFS_COMPRESS_ZLIB_RSRC 0x20000 short_fork"

lemma short_fork_pos:
  assumes "fd_hdr fd = fd_hdr short_fd" "fd_cdata fd = fd_cdata short_fd"
  shows "block_pos sbi fd 0 = Some (Inr (Some (2, 0x10000, 32), fd_cdata fd))" "block_pos sbi fd 1 = Some (Inr (None, fd_cdata fd))"
proof -
  have c: "fd_cdata short_fd = \<lparr>cd_size = 34, cd_source = Cd_data short_fork\<rparr>" by (simp add: short_fd_def sample_fd_def) (simp add: short_fork_def)
  have h: "hdr_algo (fd_hdr short_fd) = 4" "block_size (fd_hdr short_fd) 0 = 0x10000" "apfs_compress_is_rsrc 4"
    by (simp_all add: short_fd_def sample_fd_def block_size_def apfs_compress_is_rsrc_def)
  have r: "rd_be32 [0, 0, 0, 16, 0, 0, 0, 0, 0, 0, 0, 0, 0, 0, 0, 0] 0 = Inr 16" "rd32 [0, 0, 0, 0, 1, 0, 0, 0] 4 = Inr 1"
      "rd32 [12, 0, 0, 0, 2, 0, 0, 0] 0 = Inr 12" "rd32 [12, 0, 0, 0, 2, 0, 0, 0] 4 = Inr 2"
    by (simp_all add: rd_be32_def rd_le_def rd_bytes_def)
  show "block_pos sbi fd 0 = Some (Inr (Some (2, 0x10000, 32), fd_cdata fd))"
    unfolding block_pos_def Let_def assms c by (simp add: h short_fork_reads r)
  show "block_pos sbi fd 1 = Some (Inr (None, fd_cdata fd))"
    unfolding block_pos_def Let_def assms c by (simp add: h short_fork_reads r)
qed

lemma short_page:
  assumes fd: "fd_hdr fd = fd_hdr short_fd" "fd_cdata fd = fd_cdata short_fd"
    and blk: "(if fd_bufblk fd = Some (off div 0x10000) then Some (None, fd) else apfs_compress_file_read_block dec sbi fd (off div 0x10000)) = Some (None, fd')"
    and off: "off = 0 \<or> off = 0x10000" and data: "read_from_buf fd' 4096 0 = Inr data" "length data < 4096"
  shows "read_page_loop dec sbi fd off [] = Some (Inr data, fd')"
proof -
  have h: "compress_preread sbi fd off = Some fd" "hdr_size (fd_hdr fd) = 0x20000" using fd by (simp_all add: compress_preread_def short_fd_def sample_fd_def)
  have o': "\<not> off \<ge> 0x20000" "off - off div 0x10000 * 0x10000 = 0" "\<not> 4096 > 0x20000 - off" "page_step off 0 = 4096"
    using off by (auto simp: page_step_def)
  have "apfs_compress_file_read_from_block dec sbi fd 4096 off = Some (Inr data, fd')"
    unfolding apfs_compress_file_read_from_block_def Let_def h option.case if_not_P [OF o'(1)] if_not_P [OF o'(3)] blk o'(2) by (simp add: data)
  moreover have "(4096 :: nat) = page_step (off + of_nat (length [])) (length [])" "off + of_nat (length []) = off" using o'(4) by simp_all
  ultimately have "read_page_loop dec sbi fd off [] = (if length data < 4096 then Some (Inr ([] @ data), fd') else read_page_loop dec sbi fd' off ([] @ data))"
    by (intro read_page_loop_step) simp_all
  then show ?thesis using data(2) by simp
qed

theorem missing_block_reads_stale:
  "\<exists>fd. apfs_compress_read_folio sample_decoders sbi short_fd 16 = Some (Inr (replicate 4096 0), short_fd) \<and>
     apfs_compress_read_folio sample_decoders sbi short_fd 0 = Some (Inr (7 # replicate 4095 0), fd) \<and>
     apfs_compress_read_folio sample_decoders sbi fd 16 = Some (Inr (7 # replicate 4095 0), fd)"
proof -
  let ?d = sample_decoders
  define fd where "fd = short_fd\<lparr>fd_buf := [7] @ replicate 0xffff 0, fd_bufblk := Some 0, fd_bufsize := 1\<rparr>"
  have fd: "fd_hdr fd = fd_hdr short_fd" "fd_cdata fd = fd_cdata short_fd" by (simp_all add: fd_def)
  have miss: "apfs_compress_file_read_block ?d sbi fd' 1 = Some (None, fd')" if "fd_hdr fd' = fd_hdr short_fd" "fd_cdata fd' = fd_cdata short_fd" for fd'
    using short_fork_pos(2) [OF that, of sbi] by (simp add: apfs_compress_file_read_block_def)
  have "fd_cdata short_fd = \<lparr>cd_size = 34, cd_source = Cd_data short_fork\<rparr>" by (simp add: short_fd_def sample_fd_def) (simp add: short_fork_def)
  then have rd: "apfs_compressed_data_read sbi (fd_cdata short_fd) 2 32 = Some (Inr ([0x0f, 7], fd_cdata short_fd))" using short_fork_reads(4) by simp
  have algo: "hdr_algo (fd_hdr short_fd) = 4" "length (fd_buf short_fd) = 0x10000" "fd_buf short_fd = replicate 0x10000 0" by (simp_all add: short_fd_def sample_fd_def)
  have "decompress_block ?d 4 (fd_buf short_fd) 0x10000 2 [0x0f, 7] = stored_block (fd_buf short_fd) 2 [0x0f, 7]"
    by (simp add: decompress_block_def apfs_compress_is_supported_def rd8_def)
  also have "\<dots> = (Inr (Some 1), [7] @ replicate 0xffff 0)"
    using stored_block_eq(1) [of "fd_buf short_fd" "[0x0f, 7]" 2] algo(2,3) by (simp add: drop_replicate)
  finally have one: "apfs_compress_file_read_block ?d sbi short_fd 0 = Some (None, fd)"
    using short_fork_pos(1) [OF refl refl, of sbi] rd algo(1) by (simp add: apfs_compress_file_read_block_def fd_def) (simp add: sample_decoders_def)
  have none: "fd_bufblk short_fd = None" "fd_bufsize short_fd = 0" by (simp_all add: short_fd_def sample_fd_def)
  have buf: "read_from_buf short_fd 4096 0 = Inr []" "read_from_buf fd 4096 0 = Inr [7]"
    using none(2) by (simp_all add: read_from_buf_def rd_bytes_def fd_def)
  have "read_page_loop ?d sbi short_fd 0x10000 [] = Some (Inr [], short_fd)"
    by (rule short_page [OF refl refl]) (use miss [of short_fd] none buf in simp_all)
  moreover have "read_page_loop ?d sbi short_fd 0 [] = Some (Inr [7], fd)"
    by (rule short_page [OF refl refl]) (use one none buf in simp_all)
  moreover have "read_page_loop ?d sbi fd 0x10000 [] = Some (Inr [7], fd)"
    by (rule short_page [OF fd]) (use miss [of fd] fd buf in \<open>simp_all add: fd_def\<close>)
  moreover have "push_bit 12 (16 :: u64) = 0x10000" "push_bit 12 (0 :: u64) = 0" by (simp_all add: push_bit_eq_mult)
  ultimately show ?thesis
    by (intro exI [of _ fd]) (simp add: apfs_compress_read_folio_def apfs_compress_file_read_page_def)
qed

end
