(* ===== verification/Unicode.thy ===== *)
theory Unicode
  imports Catalog
begin

text \<open>
  Normalisation of names (\<open>unicode.c\<close>): the canonical decomposition of the characters, their case folding, and the
  canonical order of combining characters.  A cursor yields the normalised characters of a name one at a time.

  The tables of the file, and the decoder of UTF-8 and the checksum of the kernel, are the fields of an
  environment.  A name is a buffer with a NUL after its last byte.  The number of characters in a name is far below
  the range of the integers that count them.  A failed decoder does not set the character, so that the loop of
  \<open>apfs_normalize_next\<close>, which does not check for the failure, uses a variable without a value.
\<close>

section \<open>Tables\<close>

record unicode_env =
  apfs_nfd_trie :: "nat list"
  apfs_nfd :: "u32 list"
  apfs_cf_trie :: "nat list"
  apfs_cf :: "u32 list"
  apfs_ccc_trie :: "nat list"
  utf8_to_utf32 :: "byte list \<Rightarrow> nat \<Rightarrow> (nat \<times> u32) option"
  crc32c :: "u32 \<Rightarrow> byte list \<Rightarrow> u32"

abbreviation (input) TRIE_HEIGHT :: nat where "TRIE_HEIGHT \<equiv> 5"

fun trie_walk :: "nat list \<Rightarrow> u32 \<Rightarrow> nat \<Rightarrow> nat \<Rightarrow> nat result" where
  "trie_walk trie key 0 node = Inr node"
| "trie_walk trie key (Suc h) node =
     (let child = unat (drop_bit (4 * h) key AND 15); child_index = node * 16 + child in
      if child_index < length trie then
        let node = trie ! child_index in if node = 0 then Inr 0 else trie_walk trie key h node
      else Inl UB)"

text \<open>The length of the value, and the value or its position.\<close>

definition apfs_trie_find :: "nat list \<Rightarrow> u32 \<Rightarrow> bool \<Rightarrow> (nat \<times> nat) result" where
  "apfs_trie_find trie key is_ccc =
     bind_res (trie_walk trie key TRIE_HEIGHT 0) (\<lambda>node.
     Inr (if node = 0 then (0, 0) else if is_ccc then (1, node) else (node mod 8, node div 8)))"

definition arr_slice :: "u32 list \<Rightarrow> nat \<Rightarrow> nat \<Rightarrow> u32 list result" where
  "arr_slice a pos len = (if pos + len \<le> length a then Inr (take len (drop pos a)) else Inl UB)"

section \<open>Single characters\<close>

abbreviation (input) HANGUL_S_BASE :: u32 where "HANGUL_S_BASE \<equiv> 0xac00"
abbreviation (input) HANGUL_L_BASE :: int where "HANGUL_L_BASE \<equiv> 0x1100"
abbreviation (input) HANGUL_V_BASE :: int where "HANGUL_V_BASE \<equiv> 0x1161"
abbreviation (input) HANGUL_T_BASE :: int where "HANGUL_T_BASE \<equiv> 0x11a7"
abbreviation (input) HANGUL_T_COUNT :: int where "HANGUL_T_COUNT \<equiv> 28"
abbreviation (input) HANGUL_N_COUNT :: int where "HANGUL_N_COUNT \<equiv> 588"
abbreviation (input) HANGUL_S_COUNT :: int where "HANGUL_S_COUNT \<equiv> 11172"
abbreviation (input) NORM_END :: u32 where "NORM_END \<equiv> - 1"

definition apfs_is_precomposed_hangul :: "u32 \<Rightarrow> bool" where
  "apfs_is_precomposed_hangul utf32char = (let index = sint (utf32char - HANGUL_S_BASE) in index \<ge> 0 \<and> index < HANGUL_S_COUNT)"

definition apfs_decompose_hangul :: "u32 \<Rightarrow> nat \<Rightarrow> u32" where
  "apfs_decompose_hangul utf32char off =
     (let index = sint (utf32char - HANGUL_S_BASE);
          l = HANGUL_L_BASE + index div HANGUL_N_COUNT;
          v = HANGUL_V_BASE + (index mod HANGUL_N_COUNT) div HANGUL_T_COUNT;
          t = HANGUL_T_BASE + index mod HANGUL_T_COUNT
      in if off = 0 then of_int l else if off = 1 then of_int v
         else if off = 2 \<and> t \<noteq> HANGUL_T_BASE then of_int t else NORM_END)"

fun fold_chars :: "unicode_env \<Rightarrow> u32 list \<Rightarrow> nat \<Rightarrow> u32 result" where
  "fold_chars env [] off = Inr NORM_END"
| "fold_chars env (d # nfd) off =
     bind_res (apfs_trie_find (apfs_cf_trie env) d False) (\<lambda>(ret, pos).
     bind_res (if ret = 0 then Inr [d] else arr_slice (apfs_cf env) pos ret) (\<lambda>cf.
     if off < length cf then Inr (cf ! off) else fold_chars env nfd (off - length cf)))"

definition apfs_normalize_char :: "unicode_env \<Rightarrow> u32 \<Rightarrow> nat \<Rightarrow> bool \<Rightarrow> u32 result" where
  "apfs_normalize_char env utf32char off case_fold =
     (if apfs_is_precomposed_hangul utf32char then Inr (apfs_decompose_hangul utf32char off)
      else
        bind_res (apfs_trie_find (apfs_nfd_trie env) utf32char False) (\<lambda>(ret, pos).
        bind_res (if ret = 0 then Inr [utf32char] else arr_slice (apfs_nfd env) pos ret) (\<lambda>nfd.
        if \<not> case_fold then Inr (if off < length nfd then nfd ! off else NORM_END)
        else fold_chars env nfd off)))"

text \<open>A normalisation has at most seven characters for each of at most seven characters.\<close>

lemma trie_find_length: "apfs_trie_find trie key False = Inr (ret, pos) \<Longrightarrow> ret \<le> 7"
  by (auto simp: apfs_trie_find_def bind_res_eq_Inr split: if_splits)

lemma arr_slice_length: "arr_slice a pos len = Inr xs \<Longrightarrow> length xs = len"
  by (auto simp: arr_slice_def split: if_splits)

lemma folding_length:
  assumes "apfs_trie_find trie d False = Inr (ret, pos)" "(if ret = 0 then Inr [d] else arr_slice a pos ret) = Inr xs"
  shows "length xs \<le> 7"
  using trie_find_length [OF assms(1)] assms(2) arr_slice_length by (fastforce split: if_splits)

lemma fold_chars_end: "7 * length ds \<le> off \<Longrightarrow> fold_chars env ds off = Inr c \<Longrightarrow> c = NORM_END"
proof (induction env ds off rule: fold_chars.induct)
  case (2 env d ds off)
  from "2.prems"(2) obtain ret pos cf where f: "apfs_trie_find (apfs_cf_trie env) d False = Inr (ret, pos)"
      "(if ret = 0 then Inr [d] else arr_slice (apfs_cf env) pos ret) = Inr cf"
      "(if off < length cf then Inr (cf ! off) else fold_chars env ds (off - length cf)) = Inr c"
    by (auto simp: bind_res_eq_Inr)
  have "length cf \<le> 7" by (rule folding_length [OF f(1,2)])
  then show ?case using "2.IH" [OF f(1) refl f(2)] f(3) "2.prems"(1) by auto
qed simp

lemma normalize_char_end:
  assumes "apfs_normalize_char env utf32char off case_fold = Inr c" "49 \<le> off"
  shows "c = NORM_END"
proof (cases "apfs_is_precomposed_hangul utf32char")
  case True
  then show ?thesis using assms by (simp add: apfs_normalize_char_def apfs_decompose_hangul_def Let_def)
next
  case False
  then obtain ret pos nfd where f: "apfs_trie_find (apfs_nfd_trie env) utf32char False = Inr (ret, pos)"
      "(if ret = 0 then Inr [utf32char] else arr_slice (apfs_nfd env) pos ret) = Inr nfd"
      "(if \<not> case_fold then Inr (if off < length nfd then nfd ! off else NORM_END) else fold_chars env nfd off) = Inr c"
    using assms(1) by (auto simp: apfs_normalize_char_def bind_res_eq_Inr)
  have "length nfd \<le> 7" by (rule folding_length [OF f(1,2)])
  then show ?thesis using f(3) assms(2) fold_chars_end [of nfd off env c] by (auto split: if_splits)
qed

text \<open>The characters of the loops over \<open>pos\<close>, and their combining classes.\<close>

function norm_from :: "unicode_env \<Rightarrow> bool \<Rightarrow> u32 \<Rightarrow> nat \<Rightarrow> (u32 \<times> nat) list result" where
  "norm_from env case_fold utf32char pos =
     (case apfs_normalize_char env utf32char pos case_fold of
        Inl e \<Rightarrow> Inl e
      | Inr utf32norm \<Rightarrow>
          if utf32norm = NORM_END then Inr []
          else
            bind_res (apfs_trie_find (apfs_ccc_trie env) utf32norm True) (\<lambda>(ret, ccc).
            bind_res (norm_from env case_fold utf32char (Suc pos)) (\<lambda>rest.
            Inr ((utf32norm, ccc) # rest))))"
  by pat_completeness auto
termination
proof (relation "measure (\<lambda>(env, case_fold, utf32char, pos). 49 - pos)", goal_cases)
  case (2 env case_fold utf32char pos c)
  then show ?case using normalize_char_end [of env utf32char pos case_fold c] by (cases "49 \<le> pos") auto
qed simp

declare norm_from.simps [simp del]

definition char_norm :: "unicode_env \<Rightarrow> bool \<Rightarrow> u32 \<Rightarrow> (u32 \<times> nat) list result" where
  "char_norm env case_fold utf32char = norm_from env case_fold utf32char 0"

section \<open>The cursor\<close>

record apfs_unicursor =
  utf8curr :: int
  total_len :: u32
  cur_length :: int
  last_pos :: int
  last_ccc :: nat

definition apfs_init_unicursor :: "int \<Rightarrow> u32 \<Rightarrow> apfs_unicursor" where
  "apfs_init_unicursor utf8str len = \<lparr>utf8curr = utf8str, total_len = len, cur_length = - 1, last_pos = - 1, last_ccc = 0\<rparr>"

text \<open>The count of one character: whether the next starter is reached.\<close>

fun count_char :: "(u32 \<times> nat) list \<Rightarrow> nat \<Rightarrow> bool \<Rightarrow> nat \<times> bool \<times> bool" where
  "count_char [] norm_len starters_over = (norm_len, starters_over, False)"
| "count_char ((utf32norm, ccc) # xs) norm_len starters_over =
     (if ccc \<noteq> 0 then count_char xs (Suc norm_len) True
      else if starters_over then (norm_len, starters_over, True)
      else count_char xs (Suc norm_len) starters_over)"

definition utf8_at :: "unicode_env \<Rightarrow> buffer \<Rightarrow> int \<Rightarrow> u32 \<Rightarrow> (nat \<times> u32) option result" where
  "utf8_at env name pos len =
     (if 0 \<le> pos \<and> pos < int (length name) then Inr (utf8_to_utf32 env (drop (nat pos) name) (min (unat len) 4)) else Inl UB)"

partial_function (option) apfs_get_normalization_length ::
  "unicode_env \<Rightarrow> buffer \<Rightarrow> bool \<Rightarrow> int \<Rightarrow> u32 \<Rightarrow> nat \<Rightarrow> bool \<Rightarrow> nat result option" where
  "apfs_get_normalization_length env name case_fold utf8str len norm_len starters_over =
     (if len = 0 then Some (Inr norm_len)
      else
        bindo (Some (rd8 name utf8str)) (\<lambda>c.
        if c = 0 then Some (Inr norm_len)
        else
          bindo (Some (utf8_at env name utf8str len)) (\<lambda>r.
          case r of
            None \<Rightarrow> Some (Inr 0)
          | Some (utf8len, utf32char) \<Rightarrow>
              bindo (Some (char_norm env case_fold utf32char)) (\<lambda>xs.
              case count_char xs norm_len starters_over of
                (norm_len, starters_over, over) \<Rightarrow>
                  if over then Some (Inr norm_len)
                  else apfs_get_normalization_length env name case_fold (utf8str + int utf8len) (len - of_nat utf8len) norm_len starters_over))))"

text \<open>
  The search for the next character in the canonical order: the least combining class, and in it the least position,
  after those of the last character.
\<close>

type_synonym best = "u32 \<times> nat \<times> int"

fun scan_char :: "nat \<Rightarrow> int \<Rightarrow> (u32 \<times> nat) list \<Rightarrow> int \<Rightarrow> best \<Rightarrow> int \<times> best" where
  "scan_char lccc lpos [] str_pos best = (str_pos, best)"
| "scan_char lccc lpos ((utf32norm, ccc) # xs) str_pos (utf32min, min_ccc, min_pos) =
     scan_char lccc lpos xs (str_pos + 1)
       (if ccc \<ge> min_ccc \<or> ccc < lccc then (utf32min, min_ccc, min_pos)
        else if ccc > lccc \<or> str_pos > lpos then (utf32norm, ccc, str_pos)
        else (utf32min, min_ccc, min_pos))"

partial_function (option) norm_scan ::
  "unicode_env \<Rightarrow> buffer \<Rightarrow> bool \<Rightarrow> apfs_unicursor \<Rightarrow> int \<Rightarrow> u32 \<Rightarrow> int \<Rightarrow> best \<Rightarrow> (int \<times> u32 \<times> best) result option" where
  "norm_scan env name case_fold cursor utf8str len str_pos best =
     bindo (Some (utf8_at env name utf8str len)) (\<lambda>r.
     case r of
       None \<Rightarrow> Some (Inl UB)
     | Some (utf8len, utf32char) \<Rightarrow>
         bindo (Some (char_norm env case_fold utf32char)) (\<lambda>xs.
         case scan_char (last_ccc cursor) (last_pos cursor) xs str_pos best of
           (str_pos, best) \<Rightarrow>
             if str_pos = cur_length cursor then Some (Inr (utf8str + int utf8len, len - of_nat utf8len, best))
             else norm_scan env name case_fold cursor (utf8str + int utf8len) (len - of_nat utf8len) str_pos best))"

definition tolower_ascii :: "byte \<Rightarrow> byte" where
  "tolower_ascii c = (if 65 \<le> c \<and> c \<le> 90 then c + 32 else c)"

partial_function (option) apfs_normalize_next ::
  "unicode_env \<Rightarrow> buffer \<Rightarrow> bool \<Rightarrow> apfs_unicursor \<Rightarrow> (u32 \<times> apfs_unicursor) result option" where
  "apfs_normalize_next env name case_fold cursor =
     bindo (Some (rd8 name (utf8curr cursor))) (\<lambda>c.
     if c < 128 then
       if total_len cursor = 0 then Some (Inr (0, cursor))
       else Some (Inr (ucast (if case_fold then tolower_ascii c else c), cursor\<lparr>utf8curr := utf8curr cursor + 1, total_len := total_len cursor - 1\<rparr>))
     else
       bindo (if cur_length cursor < 0
              then map_option (\<lambda>r. bind_res r (\<lambda>n. Inr (int n)))
                (apfs_get_normalization_length env name case_fold (utf8curr cursor) (total_len cursor) 0 False)
              else Some (Inr (cur_length cursor))) (\<lambda>n.
       if cur_length cursor < 0 \<and> n = 0 then Some (Inr (0, cursor\<lparr>cur_length := n\<rparr>))
       else
         let cursor = cursor\<lparr>cur_length := n\<rparr> in
         bindo (norm_scan env name case_fold cursor (utf8curr cursor) (total_len cursor) 0 (0, 0xFF, - 1)) (\<lambda>(utf8str, len, utf32min, min_ccc, min_pos).
         if min_ccc \<noteq> 0xFF then Some (Inr (utf32min, cursor\<lparr>last_ccc := min_ccc, last_pos := min_pos\<rparr>))
         else apfs_normalize_next env name case_fold (apfs_init_unicursor utf8str len))))"

end
