(* ===== verification/UnicodeNorm.thy ===== *)
theory UnicodeNorm
  imports Unicode
begin

text \<open>
  The cursor yields the canonical form of a name.  The reference is the canonical ordering of the Unicode standard: the
  characters are decomposed, and each combining character moves before those of a higher class that stand
  right in front of it.  The proofs follow the cursor through one segment of the name after the other, and through the characters of a
  segment in the order of their classes and positions.
\<close>

section \<open>The canonical order\<close>

fun insert_mark :: "u32 \<times> nat \<Rightarrow> (u32 \<times> nat) list \<Rightarrow> (u32 \<times> nat) list" where
  "insert_mark x [] = [x]"
| "insert_mark x (y # ys) = (if snd x \<noteq> 0 \<and> snd y \<noteq> 0 \<and> snd y < snd x then y # insert_mark x ys else x # y # ys)"

definition canon :: "(u32 \<times> nat) list \<Rightarrow> (u32 \<times> nat) list" where
  "canon xs = foldr insert_mark xs []"

lemma canon_Nil [simp]: "canon [] = []" and canon_Cons: "canon (x # xs) = insert_mark x (canon xs)"
  by (simp_all add: canon_def)

lemma insert_starter: "snd x = 0 \<Longrightarrow> insert_mark x ys = x # ys"
  by (cases ys) simp_all

text \<open>A segment: starters, and after them combining characters only.\<close>

definition shape :: "(u32 \<times> nat) list \<Rightarrow> bool" where
  "shape xs \<longleftrightarrow> (\<forall>x \<in> set (dropWhile (\<lambda>x. snd x = 0) xs). snd x \<noteq> 0)"

definition has_mark :: "(u32 \<times> nat) list \<Rightarrow> bool" where
  "has_mark xs \<longleftrightarrow> (\<exists>x \<in> set xs. snd x \<noteq> 0)"

definition at_starter :: "(u32 \<times> nat) list \<Rightarrow> bool" where
  "at_starter xs \<longleftrightarrow> (case xs of [] \<Rightarrow> True | x # _ \<Rightarrow> snd x = 0)"

lemma shape_Cons: "shape (x # xs) \<longleftrightarrow> (if snd x = 0 then shape xs else \<forall>y \<in> set xs. snd y \<noteq> 0)"
  by (auto simp: shape_def)

lemma shape_marks: "\<forall>y \<in> set xs. snd y \<noteq> 0 \<Longrightarrow> shape xs"
  by (cases xs) (auto simp: shape_def)

lemma shape_append: "shape xs \<Longrightarrow> shape ys \<Longrightarrow> (has_mark xs \<Longrightarrow> ys \<noteq> [] \<Longrightarrow> snd (hd ys) \<noteq> 0) \<Longrightarrow> shape (xs @ ys)"
proof (induction xs)
  case (Cons x xs)
  show ?case
  proof (cases "snd x = 0")
    case True
    with Cons show ?thesis by (simp add: shape_Cons has_mark_def)
  next
    case False
    then have "ys \<noteq> [] \<Longrightarrow> snd (hd ys) \<noteq> 0" using Cons.prems(3) by (simp add: has_mark_def)
    then have "\<forall>y \<in> set ys. snd y \<noteq> 0" using Cons.prems(2) by (cases ys) (auto simp: shape_Cons)
    with False Cons.prems(1) show ?thesis by (auto simp: shape_Cons)
  qed
qed simp

lemma insert_mark_insort:
  assumes "at_starter zs" "\<forall>y \<in> set ys. snd y \<noteq> 0" "snd x \<noteq> 0"
  shows "insert_mark x (ys @ zs) = insort_key snd x ys @ zs"
  using assms by (induction ys) (auto simp: at_starter_def split: list.splits)

lemma insort_starter: "snd x = 0 \<Longrightarrow> insort_key snd x ys = x # ys" for x :: "u32 \<times> nat"
  by (cases ys) simp_all

lemma canon_starter: "at_starter (canon xs)" if "at_starter xs"
  using that by (cases xs) (auto simp: at_starter_def canon_Cons insert_starter)

lemma canon_segment: "shape xs \<Longrightarrow> at_starter ys \<Longrightarrow> canon (xs @ ys) = sort_key snd xs @ canon ys"
proof (induction xs)
  case (Cons x xs)
  show ?case
  proof (cases "snd x = 0")
    case True
    with Cons show ?thesis by (simp add: shape_Cons canon_Cons insert_starter insort_starter)
  next
    case False
    then have m: "\<forall>y \<in> set xs. snd y \<noteq> 0" using Cons.prems(1) by (simp add: shape_Cons)
    then have "canon (xs @ ys) = sort_key snd xs @ canon ys" using Cons by (simp add: shape_marks)
    then show ?thesis using insert_mark_insort [OF canon_starter [OF Cons.prems(2)], of "sort_key snd xs" x] m False
      by (simp add: canon_Cons)
  qed
qed simp

section \<open>The order of the positions of a segment\<close>

text \<open>Positions in the order of their classes.\<close>

definition pos_less :: "(nat \<Rightarrow> nat) \<Rightarrow> nat \<Rightarrow> nat \<Rightarrow> bool" where
  "pos_less c i j \<longleftrightarrow> c i < c j \<or> c i = c j \<and> i < j"

lemma insort_pos:
  "sorted_wrt (pos_less c) js \<Longrightarrow> \<forall>j \<in> set js. i < j \<Longrightarrow> sorted_wrt (pos_less c) (insort_key c i js)"
proof (induction js)
  case (Cons j js)
  have "pos_less c j k" if "k \<in> set (insort_key c i js)" "\<not> c i \<le> c j" for k
    using that Cons.prems by (auto simp: pos_less_def set_insort_key)
  then show ?case using Cons by (auto simp: pos_less_def)
qed simp

lemma sort_pos: "sorted_wrt (<) is \<Longrightarrow> sorted_wrt (pos_less c) (sort_key c is)"
  by (induction "is") (simp_all add: insort_pos)

definition canon_order :: "(u32 \<times> nat) list \<Rightarrow> nat list" where
  "canon_order xs = sort_key (\<lambda>i. snd (xs ! i)) [0..<length xs]"

lemma canon_order_sorted: "sorted_wrt (pos_less (\<lambda>i. snd (xs ! i))) (canon_order xs)"
  by (simp add: canon_order_def sort_pos)

lemma set_canon_order [simp]: "set (canon_order xs) = {..<length xs}"
  by (auto simp: canon_order_def)

lemma insort_key_map: "insort_key f (g x) (map g ys) = map g (insort_key (f \<circ> g) x ys)"
  by (induction ys) simp_all

lemma sort_key_map: "sort_key f (map g xs) = map g (sort_key (f \<circ> g) xs)"
  by (induction xs) (simp_all add: insort_key_map comp_def)

lemma sort_by_order: "sort_key snd xs = map ((!) xs) (canon_order xs)" for xs :: "(u32 \<times> nat) list"
  using sort_key_map [of snd "(!) xs" "[0..<length xs]"] by (simp add: canon_order_def map_nth comp_def)

section \<open>One search\<close>

definition after_last :: "nat \<Rightarrow> int \<Rightarrow> (u32 \<times> nat) list \<Rightarrow> nat \<Rightarrow> bool" where
  "after_last lc lp xs i \<longleftrightarrow> lc < snd (xs ! i) \<or> lc = snd (xs ! i) \<and> lp < int i"

definition best_of :: "nat \<Rightarrow> int \<Rightarrow> (u32 \<times> nat) list \<Rightarrow> nat \<Rightarrow> best \<Rightarrow> bool" where
  "best_of lc lp xs n b \<longleftrightarrow>
     (b = (0, 0xFF, - 1) \<and> (\<forall>i < n. \<not> after_last lc lp xs i)) \<or>
     (\<exists>j < n. b = (fst (xs ! j), snd (xs ! j), int j) \<and> after_last lc lp xs j \<and>
        (\<forall>i < n. after_last lc lp xs i \<longrightarrow> i = j \<or> pos_less (\<lambda>i. snd (xs ! i)) j i))"

lemma scan_char_append:
  "scan_char lc lp (xs @ ys) p b = (case scan_char lc lp xs p b of (p, b) \<Rightarrow> scan_char lc lp ys p b)"
  by (induction lc lp xs p b rule: scan_char.induct) (simp_all split: if_splits)

lemma scan_char_pos: "fst (scan_char lc lp xs p b) = p + int (length xs)"
  by (induction lc lp xs p b rule: scan_char.induct) (simp_all split: if_splits)

lemma best_of_step:
  assumes "best_of lc lp xs n (m, mc, mp)" "\<forall>i < length xs. snd (xs ! i) < 0xFF" "n < length xs" "xs ! n = (u, c)"
  shows "best_of lc lp xs (Suc n)
    (if c \<ge> mc \<or> c < lc then (m, mc, mp) else if c > lc \<or> int n > lp then (u, c, int n) else (m, mc, mp))"
proof -
  have c: "snd (xs ! n) = c" "fst (xs ! n) = u" "c < 0xFF" using assms(2-4) by auto
  from assms(1) consider (none) "m = 0" "mc = 0xFF" "mp = - 1" "\<forall>i < n. \<not> after_last lc lp xs i"
    | (some) j where "j < n" "m = fst (xs ! j)" "mc = snd (xs ! j)" "mp = int j" "after_last lc lp xs j"
      "\<forall>i < n. after_last lc lp xs i \<longrightarrow> i = j \<or> pos_less (\<lambda>i. snd (xs ! i)) j i"
    by (auto simp: best_of_def)
  then show ?thesis
  proof cases
    case none
    show ?thesis
    proof (cases "after_last lc lp xs n")
      case True
      then have "\<not> (c \<ge> mc \<or> c < lc)" "c > lc \<or> int n > lp" using c none(2) by (auto simp: after_last_def)
      then show ?thesis using True none c unfolding best_of_def by (intro disjI2 exI [of _ n]) (auto simp: less_Suc_eq)
    next
      case False
      then have "c < lc \<or> \<not> (c > lc \<or> int n > lp)" using c by (auto simp: after_last_def)
      then show ?thesis using False none unfolding best_of_def by (intro disjI1) (auto simp: less_Suc_eq)
    qed
  next
    case some
    show ?thesis
    proof (cases "after_last lc lp xs n \<and> c < mc")
      case True
      then have new: "\<not> (c \<ge> mc \<or> c < lc)" "c > lc \<or> int n > lp" using c by (auto simp: after_last_def)
      have "i = n \<or> pos_less (\<lambda>i. snd (xs ! i)) n i" if "i < Suc n" "after_last lc lp xs i" for i
        using that some True c by (auto simp: less_Suc_eq pos_less_def)
      then show ?thesis using True new c unfolding best_of_def by (intro disjI2 exI [of _ n]) auto
    next
      case False
      then have old: "(c \<ge> mc \<or> c < lc) \<or> \<not> (c > lc \<or> int n > lp)" using c by (auto simp: after_last_def)
      have "i = j \<or> pos_less (\<lambda>i. snd (xs ! i)) j i" if "i < Suc n" "after_last lc lp xs i" for i
        using that some False c by (auto simp: less_Suc_eq pos_less_def)
      then show ?thesis using old some unfolding best_of_def by (intro disjI2 exI [of _ j]) auto
    qed
  qed
qed

lemma scan_best:
  assumes "\<forall>i < length xs. snd (xs ! i) < 0xFF" "best_of lc lp xs n b" "n \<le> length xs"
  shows "best_of lc lp xs (length xs) (snd (scan_char lc lp (drop n xs) (int n) b))"
  using assms(2,3)
proof (induction "length xs - n" arbitrary: n b)
  case (Suc k)
  then have n: "n < length xs" "drop n xs = (xs ! n) # drop (Suc n) xs" by (simp_all add: Cons_nth_drop_Suc)
  obtain u c where uc: "xs ! n = (u, c)" by force
  obtain m mc mp where b: "b = (m, mc, mp)" by (cases b)
  from Suc.hyps(1) [OF _ best_of_step [OF Suc.prems(1) [unfolded b] assms(1) n(1) uc]] Suc.hyps(2) n
  show ?case by (simp add: b uc add.commute)
qed simp

text \<open>After the positions \<open>pre\<close> the search finds the first of the others.\<close>

definition last_is :: "(u32 \<times> nat) list \<Rightarrow> nat list \<Rightarrow> nat \<Rightarrow> int \<Rightarrow> bool" where
  "last_is xs pre lc lp \<longleftrightarrow> (if pre = [] then lc = 0 \<and> lp = - 1 else lc = snd (xs ! last pre) \<and> lp = int (last pre))"

lemma after_order:
  assumes "canon_order xs = pre @ post" "last_is xs pre lc lp" "i < length xs"
  shows "after_last lc lp xs i \<longleftrightarrow> i \<in> set post"
proof -
  have srt: "sorted_wrt (pos_less (\<lambda>i. snd (xs ! i))) (pre @ post)" and i: "i \<in> set pre \<union> set post"
    using canon_order_sorted [of xs] set_canon_order [of xs] assms(1,3) by auto
  show ?thesis
  proof (cases "pre = []")
    case True
    then show ?thesis using assms(2) i by (auto simp: last_is_def after_last_def)
  next
    case False
    let ?l = "last pre"
    have l: "?l \<in> set pre" "pre = butlast pre @ [?l]" using False by simp_all
    have pre: "j = ?l \<or> pos_less (\<lambda>i. snd (xs ! i)) j ?l" if "j \<in> set pre" for j
    proof -
      have "sorted_wrt (pos_less (\<lambda>i. snd (xs ! i))) (butlast pre @ [?l])" using srt l(2) by (simp add: sorted_wrt_append)
      then show ?thesis using that l(2) by (metis (no_types, lifting) Un_iff empty_iff empty_set set_ConsD set_append sorted_wrt_append list.set_intros(1))
    qed
    have post: "pos_less (\<lambda>i. snd (xs ! i)) ?l j" if "j \<in> set post" for j using srt l(1) that by (simp add: sorted_wrt_append)
    show ?thesis using assms(2) False pre [of i] post [of i] i by (auto simp: last_is_def after_last_def pos_less_def)
  qed
qed

lemma scan_finds_next:
  assumes "canon_order xs = pre @ post" "last_is xs pre lc lp" "\<forall>i < length xs. snd (xs ! i) < 0xFF"
  shows "snd (scan_char lc lp xs 0 (0, 0xFF, - 1)) =
    (case post of [] \<Rightarrow> (0, 0xFF, - 1) | i # _ \<Rightarrow> (fst (xs ! i), snd (xs ! i), int i))"
proof -
  have b: "best_of lc lp xs (length xs) (snd (scan_char lc lp xs 0 (0, 0xFF, - 1)))"
    using scan_best [OF assms(3), of lc lp 0 "(0, 0xFF, - 1)"] by (simp add: best_of_def)
  note iff = after_order [OF assms(1,2)]
  have post: "\<forall>i \<in> set post. i < length xs" using set_canon_order [of xs] assms(1) by auto
  show ?thesis
  proof (cases post)
    case Nil
    then show ?thesis using b iff by (auto simp: best_of_def)
  next
    case (Cons i ks)
    have "pos_less (\<lambda>i. snd (xs ! i)) i j" if "j \<in> set ks" for j
      using canon_order_sorted [of xs] assms(1) Cons that by (simp add: sorted_wrt_append)
    then have "j = i" if "j \<in> set post" "\<forall>k \<in> set post. k = j \<or> pos_less (\<lambda>i. snd (xs ! i)) j k" for j
      using that Cons by (fastforce simp: pos_less_def)
    then show ?thesis using b iff post Cons unfolding best_of_def by auto
  qed
qed

section \<open>Names\<close>

text \<open>
  A name as the list of its encoded characters.  The decoder yields each of them, and an ASCII character is encoded
  as itself.
\<close>

type_synonym uname = "(byte list \<times> u32) list"

definition utf8_char :: "unicode_env \<Rightarrow> byte list \<times> u32 \<Rightarrow> bool" where
  "utf8_char env p \<longleftrightarrow> fst p \<noteq> [] \<and> length (fst p) \<le> 4 \<and> hd (fst p) \<noteq> 0 \<and>
     (hd (fst p) < 128 \<longrightarrow> length (fst p) = 1 \<and> snd p = ucast (hd (fst p))) \<and>
     (\<forall>rest n. length (fst p) \<le> n \<and> n \<le> 4 \<longrightarrow> utf8_to_utf32 env (fst p @ rest) n = Some (length (fst p), snd p))"

abbreviation utf8_ok :: "unicode_env \<Rightarrow> uname \<Rightarrow> bool" where
  "utf8_ok env ps \<equiv> list_all (utf8_char env) ps"

definition uname_bytes :: "uname \<Rightarrow> byte list" where
  "uname_bytes ps = concat (map fst ps)"

text \<open>The normalisations of the characters: none is empty, has a starter after a combining character, or ends the name.\<close>

definition norm_char :: "unicode_env \<Rightarrow> bool \<Rightarrow> (u32 \<Rightarrow> (u32 \<times> nat) list) \<Rightarrow> byte list \<times> u32 \<Rightarrow> bool" where
  "norm_char env cfold N p \<longleftrightarrow> char_norm env cfold (snd p) = Inr (N (snd p)) \<and> N (snd p) \<noteq> [] \<and> shape (N (snd p)) \<and>
     (\<forall>x \<in> set (N (snd p)). fst x \<noteq> 0 \<and> snd x < 0xFF) \<and>
     (hd (fst p) < 128 \<longrightarrow> N (snd p) = [(ucast (if cfold then tolower_ascii (hd (fst p)) else hd (fst p)), 0)])"

abbreviation norms_ok :: "unicode_env \<Rightarrow> bool \<Rightarrow> (u32 \<Rightarrow> (u32 \<times> nat) list) \<Rightarrow> uname \<Rightarrow> bool" where
  "norms_ok env cfold N ps \<equiv> list_all (norm_char env cfold N) ps"

definition norm_of :: "(u32 \<Rightarrow> (u32 \<times> nat) list) \<Rightarrow> uname \<Rightarrow> (u32 \<times> nat) list" where
  "norm_of N ps = concat (map (N \<circ> snd) ps)"

lemma uname_simps [simp]:
  "uname_bytes [] = []" "uname_bytes (p # ps) = fst p @ uname_bytes ps" "uname_bytes (ps @ qs) = uname_bytes ps @ uname_bytes qs"
  "norm_of N [] = []" "norm_of N (p # ps) = N (snd p) @ norm_of N ps" "norm_of N (ps @ qs) = norm_of N ps @ norm_of N qs"
  by (simp_all add: uname_bytes_def norm_of_def)

text \<open>The first segment of a name.\<close>

fun seg_split :: "(u32 \<Rightarrow> (u32 \<times> nat) list) \<Rightarrow> bool \<Rightarrow> uname \<Rightarrow> uname \<times> uname" where
  "seg_split N so [] = ([], [])"
| "seg_split N so (p # ps) =
     (if so \<and> snd (hd (N (snd p))) = 0 then ([], p # ps)
      else case seg_split N (so \<or> has_mark (N (snd p))) ps of (qs, rs) \<Rightarrow> (p # qs, rs))"

lemma seg_split_append: "seg_split N so ps = (qs, rs) \<Longrightarrow> ps = qs @ rs"
  by (induction N so ps arbitrary: qs rs rule: seg_split.induct) (auto split: if_splits prod.splits)

lemma seg_split_rest:
  assumes "seg_split N so ps = (qs, rs)" "\<forall>p \<in> set ps. N (snd p) \<noteq> []"
  shows "at_starter (norm_of N rs)"
  using assms
proof (induction N so ps arbitrary: qs rs rule: seg_split.induct)
  case (2 N so p ps)
  then show ?case by (cases "N (snd p)") (auto simp: at_starter_def split: if_splits prod.splits)
qed (simp add: at_starter_def)

lemma seg_split_shape:
  assumes "seg_split N so ps = (qs, rs)" "\<forall>p \<in> set ps. N (snd p) \<noteq> [] \<and> shape (N (snd p))"
  shows "shape (norm_of N qs) \<and> (so \<longrightarrow> qs \<noteq> [] \<longrightarrow> snd (hd (norm_of N qs)) \<noteq> 0)"
  using assms
proof (induction N so ps arbitrary: qs rs rule: seg_split.induct)
  case (2 N so p ps)
  let ?x = "N (snd p)"
  show ?case
  proof (cases "so \<and> snd (hd ?x) = 0")
    case False
    obtain q1 r1 where split: "seg_split N (so \<or> has_mark ?x) ps = (q1, r1)" by force
    then have qs: "qs = p # q1" using "2.prems"(1) False by auto
    have ih: "shape (norm_of N q1)" "so \<or> has_mark ?x \<Longrightarrow> q1 \<noteq> [] \<Longrightarrow> snd (hd (norm_of N q1)) \<noteq> 0"
      using "2.IH" [OF False split] "2.prems"(2) by auto
    have "norm_of N q1 \<noteq> [] \<Longrightarrow> q1 \<noteq> []" by auto
    then have "shape (?x @ norm_of N q1)" using shape_append [of ?x "norm_of N q1"] ih "2.prems"(2) by auto
    moreover have "?x \<noteq> []" using "2.prems"(2) by simp
    ultimately show ?thesis using qs False by auto
  qed (use "2.prems" in \<open>simp add: shape_def\<close>)
qed (simp add: shape_def)

lemma count_char_eq:
  assumes "shape xs" "xs \<noteq> []"
  shows "so \<Longrightarrow> snd (hd xs) = 0 \<Longrightarrow> count_char xs n so = (n, so, True)"
    "\<not> (so \<and> snd (hd xs) = 0) \<Longrightarrow> count_char xs n so = (n + length xs, so \<or> has_mark xs, False)"
proof -
  show "so \<Longrightarrow> snd (hd xs) = 0 \<Longrightarrow> count_char xs n so = (n, so, True)" using assms by (cases xs) auto
  have marks: "count_char ys n True = (n + length ys, True, False)" if "\<forall>y \<in> set ys. snd y \<noteq> 0" for ys n
    using that by (induction ys arbitrary: n) auto
  have "count_char ys n False = (n + length ys, has_mark ys, False)" if "shape ys" for ys n
    using that
  proof (induction ys arbitrary: n)
    case (Cons y ys)
    obtain u c where y: "y = (u, c)" by force
    show ?case using Cons marks [of ys "Suc n"] y by (auto simp: shape_Cons has_mark_def split: if_splits)
  qed (simp add: has_mark_def)
  then show "\<not> (so \<and> snd (hd xs) = 0) \<Longrightarrow> count_char xs n so = (n + length xs, so \<or> has_mark xs, False)"
    using assms marks [of xs n] by (cases so; cases xs) (auto simp: shape_Cons)
qed

section \<open>The cursor\<close>

definition at_name :: "buffer \<Rightarrow> int \<Rightarrow> uname \<Rightarrow> bool" where
  "at_name name pos ps \<longleftrightarrow> 0 \<le> pos \<and> drop (nat pos) name = uname_bytes ps @ [0] \<and> length name < 2 ^ 32"

abbreviation len_of :: "uname \<Rightarrow> u32" where
  "len_of ps \<equiv> of_nat (length (uname_bytes ps))"

abbreviation fresh :: "int \<Rightarrow> uname \<Rightarrow> apfs_unicursor" where
  "fresh pos ps \<equiv> apfs_init_unicursor pos (len_of ps)"

lemma at_name_len:
  assumes "at_name name pos ps"
  shows "unat (len_of ps) = length (uname_bytes ps)" "pos < int (length name)"
proof -
  have "length (drop (nat pos) name) = length (uname_bytes ps) + 1" using assms by (simp add: at_name_def)
  then have "length (uname_bytes ps) < 2 ^ 32" "nat pos < length name" using assms by (auto simp: at_name_def)
  then show "unat (len_of ps) = length (uname_bytes ps)" "pos < int (length name)"
    by (auto simp: unsigned_of_nat take_bit_nat_eq_self)
qed

lemma at_name_append:
  assumes "at_name name pos (ps @ qs)"
  shows "at_name name (pos + int (length (uname_bytes ps))) qs"
proof -
  have "nat (pos + int (length (uname_bytes ps))) = length (uname_bytes ps) + nat pos"
    using assms by (simp add: at_name_def nat_add_distrib)
  then have "drop (nat (pos + int (length (uname_bytes ps)))) name = drop (length (uname_bytes ps)) (drop (nat pos) name)" by simp
  then show ?thesis using assms by (simp add: at_name_def del: drop_drop)
qed

lemma at_name_step: "at_name name pos (p # ps) \<Longrightarrow> at_name name (pos + int (length (fst p))) ps"
  using at_name_append [of name pos "[p]" ps] by simp

lemma at_name_char:
  assumes at: "at_name name pos (p # ps)" and ok: "utf8_char env p"
  shows "rd8 name pos = Inr (hd (fst p))" "hd (fst p) \<noteq> 0" "len_of (p # ps) \<noteq> 0"
    "utf8_at env name pos (len_of (p # ps)) = Inr (Some (length (fst p), snd p))"
    "len_of (p # ps) - of_nat (length (fst p)) = len_of ps"
proof -
  obtain bs c where p: "p = (bs, c)" by force
  have bs: "bs \<noteq> []" "length bs \<le> 4" "hd bs \<noteq> 0" "\<And>rest n. length bs \<le> n \<and> n \<le> 4 \<Longrightarrow> utf8_to_utf32 env (bs @ rest) n = Some (length bs, c)"
    using ok p by (auto simp: utf8_char_def)
  note len = at_name_len [OF at]
  have d: "drop (nat pos) name = bs @ uname_bytes ps @ [0]" "0 \<le> pos" using at p by (simp_all add: at_name_def)
  have "name ! nat pos = hd bs" using d(1) bs(1) len(2) d(2) by (metis hd_append2 hd_drop_conv_nth nat_less_iff)
  then show "rd8 name pos = Inr (hd (fst p))" using d(2) len(2) p by (simp add: rd8_def)
  show "hd (fst p) \<noteq> 0" using bs(3) p by simp
  show "len_of (p # ps) \<noteq> 0" using len(1) p bs(1) by (metis append_is_Nil_conv fst_conv length_0_conv uname_simps(2) unat_0)
  have "length bs \<le> min (unat (len_of (p # ps))) 4" using len(1) p bs(2) by simp
  then have "utf8_to_utf32 env (bs @ (uname_bytes ps @ [0])) (min (unat (len_of (p # ps))) 4) = Some (length bs, c)"
    by (intro bs(4)) simp
  then show "utf8_at env name pos (len_of (p # ps)) = Inr (Some (length (fst p), snd p))"
    using d len(2) p by (simp add: utf8_at_def)
  show "len_of (p # ps) - of_nat (length (fst p)) = len_of ps" by simp
qed

lemma normalization_length_eq:
  assumes "at_name name pos ps" "utf8_ok env ps" "norms_ok env cfold N ps" "seg_split N so ps = (qs, rs)"
  shows "apfs_get_normalization_length env name cfold pos (len_of ps) n so = Some (Inr (n + length (norm_of N qs)))"
  using assms
proof (induction ps arbitrary: pos n so qs)
  case Nil
  then show ?case by (subst apfs_get_normalization_length.simps) simp
next
  case (Cons p ps)
  have ok: "utf8_char env p" "utf8_ok env ps" "norm_char env cfold N p" "norms_ok env cfold N ps"
    using Cons.prems(2,3) by simp_all
  let ?x = "N (snd p)"
  have x: "char_norm env cfold (snd p) = Inr ?x" "?x \<noteq> []" "shape ?x" using ok(3) by (auto simp: norm_char_def)
  note ch = at_name_char [OF Cons.prems(1) ok(1)]
  have run: "apfs_get_normalization_length env name cfold pos (len_of (p # ps)) n so =
      (if over then Some (Inr n1) else apfs_get_normalization_length env name cfold (pos + int (length (fst p))) (len_of ps) n1 so1)"
    if "count_char ?x n so = (n1, so1, over)" for n1 so1 over
    using ch x(1) that by (subst apfs_get_normalization_length.simps) (simp del: uname_simps)
  show ?case
  proof (cases "so \<and> snd (hd ?x) = 0")
    case True
    then show ?thesis using run count_char_eq(1) [OF x(3,2)] Cons.prems(4) by auto
  next
    case False
    obtain q1 r1 where split: "seg_split N (so \<or> has_mark ?x) ps = (q1, r1)" by force
    then have "qs = p # q1" "r1 = rs" using Cons.prems(4) False by auto
    then show ?thesis
      using run [OF count_char_eq(2) [OF x(3,2) False]] Cons.IH [OF at_name_step [OF Cons.prems(1)] ok(2,4), of "so \<or> has_mark ?x" q1] split
      by (simp add: add.assoc)
  qed
qed

lemma norm_scan_eq:
  assumes "at_name name pos (qs @ rs)" "utf8_ok env qs" "norms_ok env cfold N qs" "qs \<noteq> []"
    and "cur_length cursor = p + int (length (norm_of N qs))"
  shows "norm_scan env name cfold cursor pos (len_of (qs @ rs)) p b =
    Some (Inr (pos + int (length (uname_bytes qs)), len_of rs, snd (scan_char (last_ccc cursor) (last_pos cursor) (norm_of N qs) p b)))"
  using assms
proof (induction qs arbitrary: pos p b)
  case (Cons q qs)
  have ok: "utf8_char env q" "utf8_ok env qs" "norm_char env cfold N q" "norms_ok env cfold N qs"
    using Cons.prems(2,3) by simp_all
  let ?x = "N (snd q)"
  have x: "char_norm env cfold (snd q) = Inr ?x" using ok(3) by (auto simp: norm_char_def)
  have at: "at_name name pos (q # (qs @ rs))" using Cons.prems(1) by simp
  note ch = at_name_char [OF at ok(1)]
  obtain p1 b1 where s: "scan_char (last_ccc cursor) (last_pos cursor) ?x p b = (p1, b1)" by (meson surj_pair)
  have p1: "p1 = p + int (length ?x)" using scan_char_pos [of "last_ccc cursor" "last_pos cursor" ?x p b] s by simp
  have run: "norm_scan env name cfold cursor pos (len_of (q # (qs @ rs))) p b =
      (if p1 = cur_length cursor then Some (Inr (pos + int (length (fst q)), len_of (qs @ rs), b1))
       else norm_scan env name cfold cursor (pos + int (length (fst q))) (len_of (qs @ rs)) p1 b1)"
    using ch x s by (subst norm_scan.simps) (simp del: uname_simps)
  show ?case
  proof (cases "qs = []")
    case True
    then show ?thesis using run s p1 Cons.prems(5) by simp
  next
    case False
    then obtain r qs' where qs': "qs = r # qs'" by (cases qs) auto
    have "N (snd r) \<noteq> []" using ok(4) qs' by (auto simp: norm_char_def)
    then have "norm_of N qs \<noteq> []" using qs' by simp
    then have ne: "p1 \<noteq> cur_length cursor" using p1 Cons.prems(5) by simp
    have "norm_scan env name cfold cursor (pos + int (length (fst q))) (len_of (qs @ rs)) p1 b1 =
       Some (Inr (pos + int (length (fst q)) + int (length (uname_bytes qs)), len_of rs,
          snd (scan_char (last_ccc cursor) (last_pos cursor) (norm_of N qs) p1 b1)))"
      by (rule Cons.IH [OF at_name_step [OF at] ok(2,4) False]) (use p1 Cons.prems(5) in simp)
    then show ?thesis using run ne s by (simp add: scan_char_append)
  qed
qed simp

text \<open>The characters that a cursor yields, up to the zero at the end.\<close>

fun yields :: "unicode_env \<Rightarrow> buffer \<Rightarrow> bool \<Rightarrow> apfs_unicursor \<Rightarrow> u32 list \<Rightarrow> bool" where
  "yields env name cfold cursor [] \<longleftrightarrow> (\<exists>cursor'. apfs_normalize_next env name cfold cursor = Some (Inr (0, cursor')))"
| "yields env name cfold cursor (u # us) \<longleftrightarrow>
     (\<exists>cursor'. apfs_normalize_next env name cfold cursor = Some (Inr (u, cursor')) \<and> u \<noteq> 0 \<and> yields env name cfold cursor' us)"

lemma yields_cong: "apfs_normalize_next env name cfold c = apfs_normalize_next env name cfold c' \<Longrightarrow> yields env name cfold c us \<longleftrightarrow> yields env name cfold c' us"
  by (cases us) simp_all

abbreviation in_segment :: "int \<Rightarrow> uname \<Rightarrow> nat \<Rightarrow> nat \<Rightarrow> int \<Rightarrow> apfs_unicursor" where
  "in_segment pos ps n lc lp \<equiv> \<lparr>utf8curr = pos, total_len = len_of ps, cur_length = int n, last_pos = lp, last_ccc = lc\<rparr>"

lemma segment_next:
  assumes at: "at_name name pos (qs @ rs)" and ok: "utf8_ok env qs" "norms_ok env cfold N qs" and qs: "qs \<noteq> []" "\<not> hd (fst (hd qs)) < 128"
    and xs: "xs = norm_of N qs" and order: "canon_order xs = pre @ post" "last_is xs pre lc lp"
  shows "apfs_normalize_next env name cfold (in_segment pos (qs @ rs) (length xs) lc lp) =
    (case post of
       [] \<Rightarrow> apfs_normalize_next env name cfold (fresh (pos + int (length (uname_bytes qs))) rs)
     | i # _ \<Rightarrow> Some (Inr (fst (xs ! i), in_segment pos (qs @ rs) (length xs) (snd (xs ! i)) (int i))))"
proof -
  let ?cur = "in_segment pos (qs @ rs) (length xs) lc lp"
  obtain q qs' where q: "qs = q # qs'" using qs(1) by (cases qs) auto
  have "at_name name pos (q # (qs' @ rs))" "utf8_char env q" using at q ok(1) by simp_all
  then have rd: "rd8 name pos = Inr (hd (fst q))" "\<not> hd (fst q) < 128" using at_name_char(1) qs(2) q by auto
  have small: "\<forall>i < length xs. snd (xs ! i) < 0xFF"
  proof (intro allI impI)
    fix i
    assume "i < length xs"
    then have "xs ! i \<in> set (norm_of N qs)" using xs by simp
    then show "snd (xs ! i) < 0xFF" using ok(2) by (auto simp: norm_of_def norm_char_def list_all_iff)
  qed
  have scan: "norm_scan env name cfold ?cur pos (len_of (qs @ rs)) 0 (0, 0xFF, - 1) =
      Some (Inr (pos + int (length (uname_bytes qs)), len_of rs, snd (scan_char lc lp xs 0 (0, 0xFF, - 1))))"
    using norm_scan_eq [OF at ok qs(1), of ?cur 0 "(0, 0xFF, - 1)"] xs by simp
  note best = scan_finds_next [OF order small]
  have i: "snd (xs ! i) \<noteq> 0xFF" if "i \<in> set post" for i
  proof -
    have "i < length xs" using set_canon_order [of xs] order(1) that by auto
    then show ?thesis using small by fastforce
  qed
  show ?thesis
    using rd scan best i by (subst apfs_normalize_next.simps) (cases post; simp)
qed

lemma segment_yields:
  assumes "at_name name pos (qs @ rs)" "utf8_ok env qs" "norms_ok env cfold N qs" "qs \<noteq> []" "\<not> hd (fst (hd qs)) < 128"
    and "xs = norm_of N qs" "canon_order xs = pre @ post" "last_is xs pre lc lp"
    and "yields env name cfold (fresh (pos + int (length (uname_bytes qs))) rs) us"
  shows "yields env name cfold (in_segment pos (qs @ rs) (length xs) lc lp) (map (\<lambda>i. fst (xs ! i)) post @ us)"
  using assms(7,8)
proof (induction post arbitrary: pre lc lp)
  case Nil
  have "apfs_normalize_next env name cfold (in_segment pos (qs @ rs) (length xs) lc lp) =
      apfs_normalize_next env name cfold (fresh (pos + int (length (uname_bytes qs))) rs)"
    using segment_next [OF assms(1-6) Nil] by simp
  from yields_cong [OF this] show ?case using assms(9) by (simp only: list.map append_Nil)
next
  case (Cons i post)
  have "i < length xs" using set_canon_order [of xs] Cons.prems(1) by auto
  then have "xs ! i \<in> set (norm_of N qs)" using assms(6) by simp
  then have "fst (xs ! i) \<noteq> 0" using assms(3) by (auto simp: norm_of_def norm_char_def list_all_iff)
  moreover have "yields env name cfold (in_segment pos (qs @ rs) (length xs) (snd (xs ! i)) (int i)) (map (\<lambda>i. fst (xs ! i)) post @ us)"
    by (rule Cons.IH [of "pre @ [i]"]) (use Cons.prems(1) in \<open>simp_all add: last_is_def\<close>)
  ultimately show ?case using segment_next [OF assms(1-6) Cons.prems] by simp
qed

lemma fresh_segment:
  assumes "at_name name pos ps" "utf8_ok env ps" "norms_ok env cfold N ps" "ps \<noteq> []" "\<not> hd (fst (hd ps)) < 128" "seg_split N False ps = (qs, rs)"
  shows "apfs_normalize_next env name cfold (fresh pos ps) = apfs_normalize_next env name cfold (in_segment pos ps (length (norm_of N qs)) 0 (- 1))"
proof -
  obtain p ps' where p: "ps = p # ps'" using assms(4) by (cases ps) auto
  have "at_name name pos (p # ps')" "utf8_char env p" using assms(1) p assms(2) by simp_all
  then have rd: "rd8 name pos = Inr (hd (fst p))" "\<not> hd (fst p) < 128" using at_name_char(1) assms(5) p by auto
  have "p \<in> set qs" using assms(6) p by (auto split: prod.splits)
  moreover have "N (snd p) \<noteq> []" using assms(3) p by (auto simp: norm_char_def)
  ultimately have n: "length (norm_of N qs) \<noteq> 0" by (force simp: norm_of_def)
  have "apfs_get_normalization_length env name cfold pos (len_of ps) 0 False = Some (Inr (length (norm_of N qs)))"
    using normalization_length_eq [OF assms(1-3,6), of 0] by simp
  then show ?thesis using rd n by (subst (1 2) apfs_normalize_next.simps) (simp add: apfs_init_unicursor_def)
qed

lemma cursor_canonical:
  assumes "at_name name pos ps" "utf8_ok env ps" "norms_ok env cfold N ps"
  shows "yields env name cfold (fresh pos ps) (map fst (canon (norm_of N ps)))"
  using assms
proof (induction "length ps" arbitrary: ps pos rule: less_induct)
  case less
  show ?case
  proof (cases ps)
    case Nil
    then have "rd8 name pos = Inr 0" using less.prems(1) at_name_len(2) [OF less.prems(1)]
      by (auto simp: at_name_def rd8_def) (metis hd_drop_conv_nth list.sel(1) nat_less_iff)
    then show ?thesis using Nil by (simp, subst apfs_normalize_next.simps) (simp add: apfs_init_unicursor_def)
  next
    case (Cons p ps')
    have at: "at_name name pos (p # ps')" and ok: "utf8_char env p" "utf8_ok env ps'" "norm_char env cfold N p" "norms_ok env cfold N ps'"
      using less.prems(1) Cons less.prems(2,3) by simp_all
    note ch = at_name_char [OF at ok(1)]
    show ?thesis
    proof (cases "hd (fst p) < 128")
      case True
      let ?u = "ucast (if cfold then tolower_ascii (hd (fst p)) else hd (fst p)) :: u32"
      have N: "N (snd p) = [(?u, 0)]" "?u \<noteq> 0" and l: "length (fst p) = 1" using ok(1,3) True by (auto simp: norm_char_def utf8_char_def)
      have "apfs_normalize_next env name cfold (fresh pos ps) = Some (Inr (?u, fresh (pos + 1) ps'))"
        using ch True l Cons by (subst apfs_normalize_next.simps) (simp add: apfs_init_unicursor_def del: uname_simps)
      moreover have "yields env name cfold (fresh (pos + 1) ps') (map fst (canon (norm_of N ps')))"
        using less.hyps [of ps' "pos + 1"] at_name_step [OF at] ok l Cons by simp
      ultimately show ?thesis using N Cons by (simp add: canon_Cons insert_starter)
    next
      case False
      obtain qs rs where split: "seg_split N False ps = (qs, rs)" by force
      have ps: "ps = qs @ rs" by (rule seg_split_append [OF split])
      have q: "qs \<noteq> []" "hd qs = p" using split Cons by (auto split: prod.splits)
      have okN: "\<forall>p \<in> set ps. N (snd p) \<noteq> [] \<and> shape (N (snd p))" using less.prems(3) by (auto simp: norm_char_def list_all_iff)
      have ok': "utf8_ok env qs" "norms_ok env cfold N qs" "utf8_ok env rs" "norms_ok env cfold N rs" using less.prems(2,3) ps by auto
      have at': "at_name name pos (qs @ rs)" using less.prems(1) ps by simp
      have "length rs < length ps" using ps q(1) by simp
      then have rest: "yields env name cfold (fresh (pos + int (length (uname_bytes qs))) rs) (map fst (canon (norm_of N rs)))"
        using less.hyps at_name_append [OF at'] ok'(3,4) by blast
      let ?xs = "norm_of N qs"
      have "yields env name cfold (in_segment pos (qs @ rs) (length ?xs) 0 (- 1)) (map (\<lambda>i. fst (?xs ! i)) (canon_order ?xs) @ map fst (canon (norm_of N rs)))"
        by (rule segment_yields [OF at' ok'(1,2) q(1) _ refl, of "[]"]) (use rest q False in \<open>simp_all add: last_is_def\<close>)
      then have "yields env name cfold (fresh pos ps) (map (\<lambda>i. fst (?xs ! i)) (canon_order ?xs) @ map fst (canon (norm_of N rs)))"
        using yields_cong [OF fresh_segment [OF less.prems _ _ split]] False Cons by (simp only: ps) simp
      moreover have "canon (norm_of N ps) = map ((!) ?xs) (canon_order ?xs) @ canon (norm_of N rs)"
        using canon_segment [of ?xs "norm_of N rs"] seg_split_shape [OF split okN] seg_split_rest [OF split] okN sort_by_order [of ?xs] ps by simp
      ultimately show ?thesis by (simp add: comp_def)
    qed
  qed
qed

end
