(* ===== verification/CharSpec.thy ===== *)
theory CharSpec
  imports UnicodeNorm
begin

text \<open>
  What the normalisation of one character should be, stated without the loops of \<open>unicode.c\<close>: the canonical
  decomposition by the table, or by the arithmetic of the Unicode standard for Hangul syllables, the case folding of each
  character of it, and the combining class of each character of the result.  The lemmas show that
  \<open>apfs_normalize_char\<close>, called for one position after the other, yields this list.
\<close>

section \<open>Specification\<close>

text \<open>
  The value of a character in a trie, along the hexadecimal digits of the character; \<open>None\<close> for a trie with a link
  out of its array.  The tries know the characters of five digits.
\<close>

fun trie_path :: "nat list \<Rightarrow> nat list \<Rightarrow> nat \<Rightarrow> nat option" where
  "trie_path trie [] node = Some node"
| "trie_path trie (d # ds) node =
     (if node * 16 + d < length trie then
        if trie ! (node * 16 + d) = 0 then Some 0 else trie_path trie ds (trie ! (node * 16 + d))
      else None)"

definition hex_digits :: "nat \<Rightarrow> u32 \<Rightarrow> nat list" where
  "hex_digits n c = map (\<lambda>i. unat c div 16 ^ i mod 16) (rev [0..<n])"

text \<open>The characters that a table has for one character; without an entry the character stays as it is.\<close>

definition table_value :: "nat list \<Rightarrow> u32 list \<Rightarrow> u32 \<Rightarrow> u32 list option" where
  "table_value trie vals c =
     (case trie_path trie (hex_digits 5 c) 0 of
        None \<Rightarrow> None
      | Some n \<Rightarrow>
          if n mod 8 = 0 then Some [c]
          else if n div 8 + n mod 8 \<le> length vals then Some (take (n mod 8) (drop (n div 8) vals))
          else None)"

definition hangul_syllable :: "u32 \<Rightarrow> bool" where
  "hangul_syllable c \<longleftrightarrow> 0xAC00 \<le> unat c \<and> unat c < 0xAC00 + 19 * 21 * 28"

text \<open>The decomposition of a Hangul syllable to a leading consonant, a vowel and, if it has one, a trailing consonant.\<close>

definition hangul_parts :: "u32 \<Rightarrow> u32 list" where
  "hangul_parts c =
     (let s = unat c - 0xAC00 in
      map of_nat ([0x1100 + s div (21 * 28), 0x1161 + s mod (21 * 28) div 28] @ (if s mod 28 = 0 then [] else [0x11A7 + s mod 28])))"

definition decomp_spec :: "unicode_env \<Rightarrow> bool \<Rightarrow> u32 \<Rightarrow> u32 list option" where
  "decomp_spec env cfold c =
     (if hangul_syllable c then Some (hangul_parts c)
      else
        Option.bind (table_value (apfs_nfd_trie env) (apfs_nfd env) c) (\<lambda>ds.
        if cfold then map_option concat (those (map (table_value (apfs_cf_trie env) (apfs_cf env)) ds)) else Some ds))"

definition char_spec :: "unicode_env \<Rightarrow> bool \<Rightarrow> u32 \<Rightarrow> (u32 \<times> nat) list option" where
  "char_spec env cfold c =
     Option.bind (decomp_spec env cfold c) (\<lambda>us.
     map_option (zip us) (those (map (\<lambda>u. trie_path (apfs_ccc_trie env) (hex_digits 5 u) 0) us)))"

section \<open>The code computes the specification\<close>

lemma those_map_eq_Some: "those (map f xs) = Some ys \<longleftrightarrow> list_all2 (\<lambda>x y. f x = Some y) xs ys"
  by (induction xs arbitrary: ys) (auto simp: list_all2_Cons1 split: option.splits)

lemma nibble_eq: "unat (drop_bit (4 * h) key AND 15) = unat (key :: u32) div 16 ^ h mod 16"
proof -
  have "(15 :: u32) = mask 4" by (simp add: mask_eq_exp_minus_1)
  then have "drop_bit (4 * h) key AND 15 = take_bit 4 (drop_bit (4 * h) key)" by (simp add: take_bit_eq_mask)
  then have "unat (drop_bit (4 * h) key AND 15) = take_bit 4 (drop_bit (4 * h) (unat key))"
    using unsigned_less [of key, where ?'a = nat] by (simp add: unsigned_take_bit_eq unsigned_drop_bit_eq take_bit_nat_eq_self)
  then show ?thesis by (simp add: take_bit_eq_mod drop_bit_eq_div power_mult)
qed

lemma trie_walk_path:
  "trie_walk trie key h node = (case trie_path trie (hex_digits h key) node of None \<Rightarrow> Inl UB | Some n \<Rightarrow> Inr n)"
proof (induction h arbitrary: node)
  case (Suc h)
  have "hex_digits (Suc h) key = unat key div 16 ^ h mod 16 # hex_digits h key" by (simp add: hex_digits_def)
  then show ?case using Suc by (simp only: trie_walk.simps trie_path.simps nibble_eq Let_def) simp
qed (simp add: hex_digits_def)

lemma ccc_path:
  assumes "trie_path trie (hex_digits 5 u) 0 = Some ccc"
  shows "\<exists>ret. apfs_trie_find trie u True = Inr (ret, ccc)"
  using assms by (simp add: apfs_trie_find_def trie_walk_path)

lemma table_value_find:
  assumes "table_value trie vals c = Some us"
  obtains ret pos where "apfs_trie_find trie c False = Inr (ret, pos)" "(if ret = 0 then Inr [c] else arr_slice vals pos ret) = Inr us"
proof -
  obtain n where n: "trie_path trie (hex_digits 5 c) 0 = Some n" using assms by (auto simp: table_value_def split: option.splits)
  then have "apfs_trie_find trie c False = Inr (n mod 8, n div 8)" by (simp add: apfs_trie_find_def trie_walk_path)
  moreover have "(if n mod 8 = 0 then Inr [c] else arr_slice vals (n div 8) (n mod 8)) = Inr us"
    using assms n by (auto simp: table_value_def arr_slice_def split: if_splits)
  ultimately show thesis by (rule that)
qed

text \<open>The character at one position of the result.\<close>

definition char_at :: "u32 list \<Rightarrow> nat \<Rightarrow> u32" where
  "char_at us off = (if off < length us then us ! off else NORM_END)"

lemma fold_chars_at:
  assumes "list_all2 (\<lambda>d cf. table_value (apfs_cf_trie env) (apfs_cf env) d = Some cf) ds cfs"
  shows "fold_chars env ds off = Inr (char_at (concat cfs) off)"
  using assms
proof (induction ds cfs arbitrary: off rule: list_all2_induct)
  case Nil
  show ?case by (simp add: char_at_def)
next
  case (Cons d ds cf cfs)
  obtain ret pos where "apfs_trie_find (apfs_cf_trie env) d False = Inr (ret, pos)" "(if ret = 0 then Inr [d] else arr_slice (apfs_cf env) pos ret) = Inr cf"
    using Cons.hyps(1) by (rule table_value_find)
  then show ?case using Cons.IH [of "off - length cf"] by (auto simp: char_at_def nth_append)
qed

lemma sint_nonneg: "0 \<le> sint x \<Longrightarrow> sint x = int (unat x)" for x :: u32
proof -
  assume "0 \<le> sint x"
  moreover have "sint x = take_bit 32 (uint x) - 2 ^ 32 * of_bool (bit (uint x) 31)"
    by (simp add: sint_uint signed_take_bit_eq_take_bit_minus)
  moreover have "take_bit 32 (uint x) = uint x" "uint x < 2 ^ 32" using unsigned_less [of x, where ?'a = int] by (simp_all add: take_bit_int_eq_self)
  ultimately have "sint x = uint x" by (cases "bit (uint x) 31") auto
  then show ?thesis by simp
qed

lemma sint_small: "unat x < 2 ^ 31 \<Longrightarrow> sint x = int (unat x)" for x :: u32
proof -
  assume "unat x < 2 ^ 31"
  moreover have x: "uint x = int (unat x)" by simp
  ultimately have "uint x < 2 ^ 31" "- (2 ^ 31) \<le> uint x" by (simp_all del: of_nat_unat)
  then have "sint x = uint x" by (simp add: sint_uint signed_take_bit_int_eq_self)
  then show ?thesis by simp
qed

lemma hangul_iff: "apfs_is_precomposed_hangul c \<longleftrightarrow> hangul_syllable c"
  and hangul_index: "hangul_syllable c \<Longrightarrow> sint (c - HANGUL_S_BASE) = int (unat c - 0xAC00)"
proof -
  show s: "sint (c - HANGUL_S_BASE) = int (unat c - 0xAC00)" if "hangul_syllable c"
  proof -
    have d: "unat (c - 0xAC00) = unat c - 0xAC00" using that by (simp add: hangul_syllable_def unat_sub word_le_nat_alt)
    have "unat (c - 0xAC00) < 2 ^ 31" unfolding d using that by (auto simp: hangul_syllable_def)
    from sint_small [OF this] show ?thesis unfolding d .
  qed
  show "apfs_is_precomposed_hangul c \<longleftrightarrow> hangul_syllable c"
  proof
    assume "apfs_is_precomposed_hangul c"
    then have "sint (c - 0xAC00) = int (unat (c - 0xAC00))" "sint (c - 0xAC00) < 11172"
      using sint_nonneg [of "c - 0xAC00"] by (simp_all add: apfs_is_precomposed_hangul_def Let_def)
    then have d: "unat (c - 0xAC00) < 11172" by (simp del: of_nat_unat)
    have "unat c = unat ((c - 0xAC00) + 0xAC00)" by simp
    also have "\<dots> = unat (c - 0xAC00) + 0xAC00" using d by (subst unat_add_lem [THEN iffD1]) simp_all
    finally show "hangul_syllable c" using d by (simp add: hangul_syllable_def)
  next
    assume "hangul_syllable c"
    then show "apfs_is_precomposed_hangul c"
      using s by (simp add: apfs_is_precomposed_hangul_def hangul_syllable_def Let_def del: of_nat_unat of_nat_diff) linarith
  qed
qed

lemma hangul_at:
  assumes "hangul_syllable c"
  shows "apfs_decompose_hangul c off = char_at (hangul_parts c) off"
proof -
  define s where "s = unat c - 0xAC00"
  have l: "of_int (HANGUL_L_BASE + int s div HANGUL_N_COUNT) = (of_nat (0x1100 + s div 588) :: u32)"
    "of_int (HANGUL_V_BASE + int s mod HANGUL_N_COUNT div HANGUL_T_COUNT) = (of_nat (0x1161 + s mod 588 div 28) :: u32)"
    "of_int (HANGUL_T_BASE + int s mod HANGUL_T_COUNT) = (of_nat (0x11A7 + s mod 28) :: u32)"
    using of_int_of_nat_eq [of "0x1100 + s div 588", where ?'a = u32] of_int_of_nat_eq [of "0x1161 + s mod 588 div 28", where ?'a = u32]
      of_int_of_nat_eq [of "0x11A7 + s mod 28", where ?'a = u32]
    by (simp_all add: zdiv_int zmod_int)
  have t: "HANGUL_T_BASE + int s mod HANGUL_T_COUNT \<noteq> HANGUL_T_BASE \<longleftrightarrow> s mod 28 \<noteq> 0" by presburger
  consider "off = 0" | "off = 1" | "off = 2" | "2 < off" by linarith
  then show ?thesis
    unfolding apfs_decompose_hangul_def hangul_index [OF assms] hangul_parts_def char_at_def Let_def s_def [symmetric] l t
    by cases (simp_all del: of_nat_add)
qed

lemma normalize_char_at:
  assumes "decomp_spec env cfold c = Some us"
  shows "apfs_normalize_char env c off cfold = Inr (char_at us off)"
proof (cases "hangul_syllable c")
  case True
  then show ?thesis using assms hangul_iff hangul_at by (simp add: decomp_spec_def apfs_normalize_char_def)
next
  case False
  then have h: "\<not> apfs_is_precomposed_hangul c" using hangul_iff by blast
  obtain ds where ds: "table_value (apfs_nfd_trie env) (apfs_nfd env) c = Some ds"
      "(if cfold then map_option concat (those (map (table_value (apfs_cf_trie env) (apfs_cf env)) ds)) else Some ds) = Some us"
    using assms False by (auto simp: decomp_spec_def bind_eq_Some_conv)
  obtain ret pos where nfd: "apfs_trie_find (apfs_nfd_trie env) c False = Inr (ret, pos)" "(if ret = 0 then Inr [c] else arr_slice (apfs_nfd env) pos ret) = Inr ds"
    using ds(1) by (rule table_value_find)
  have "fold_chars env ds off = Inr (char_at us off)" if cfold
    using ds(2) that fold_chars_at by (auto simp: those_map_eq_Some)
  then show ?thesis using h nfd ds(2) by (auto simp: apfs_normalize_char_def char_at_def)
qed

lemma char_norm_spec:
  assumes "char_spec env cfold c = Some xs" "NORM_END \<notin> fst ` set xs"
  shows "char_norm env cfold c = Inr xs"
proof -
  obtain us ccs where us: "decomp_spec env cfold c = Some us" "list_all2 (\<lambda>u cc. trie_path (apfs_ccc_trie env) (hex_digits 5 u) 0 = Some cc) us ccs" "xs = zip us ccs"
    using assms(1) by (auto simp: char_spec_def bind_eq_Some_conv those_map_eq_Some)
  note at = normalize_char_at [OF us(1)]
  have len: "length ccs = length us" using us(2) by (simp add: list_all2_lengthD)
  have "pos \<le> length us \<Longrightarrow> norm_from env cfold c pos = Inr (drop pos xs)" for pos
  proof (induction "length us - pos" arbitrary: pos)
    case 0
    then show ?case using at [of pos] len us(3) by (subst norm_from.simps) (simp add: char_at_def)
  next
    case (Suc n)
    then have pos: "pos < length us" by simp
    then have "xs ! pos = (us ! pos, ccs ! pos)" "pos < length xs" using len us(3) by simp_all
    then have drop: "drop pos xs = (us ! pos, ccs ! pos) # drop (Suc pos) xs" "us ! pos \<noteq> NORM_END"
      using assms(2) Cons_nth_drop_Suc [of pos xs] by (auto dest!: nth_mem simp: rev_image_eqI)
    obtain ret where "apfs_trie_find (apfs_ccc_trie env) (us ! pos) True = Inr (ret, ccs ! pos)"
      using ccc_path list_all2_nthD [OF us(2) pos] by blast
    moreover have "norm_from env cfold c (Suc pos) = Inr (drop (Suc pos) xs)" using Suc by simp
    ultimately show ?case using at [of pos] pos drop by (subst norm_from.simps) (simp add: char_at_def)
  qed
  from this [of 0] show ?thesis by (simp add: char_norm_def)
qed

end
