(* ===== verification/Names.thy ===== *)
theory Names
  imports CharSpec
begin

text \<open>
  The comparison of names and the hash of names in the keys of directory entries (\<open>key.c\<close>), for a little-endian
  machine.  The two features of the volume are arguments.
\<close>

section \<open>Comparison\<close>

partial_function (option) filename_cmp_loop ::
  "unicode_env \<Rightarrow> buffer \<Rightarrow> buffer \<Rightarrow> bool \<Rightarrow> apfs_unicursor \<Rightarrow> apfs_unicursor \<Rightarrow> int result option" where
  "filename_cmp_loop env name1 name2 case_fold cursor1 cursor2 =
     bindo (apfs_normalize_next env name1 case_fold cursor1) (\<lambda>(uni1, cursor1).
     bindo (apfs_normalize_next env name2 case_fold cursor2) (\<lambda>(uni2, cursor2).
     if uni1 \<noteq> uni2 then Some (Inr (if uni1 < uni2 then - 1 else 1))
     else if uni1 = 0 then Some (Inr 0)
     else filename_cmp_loop env name1 name2 case_fold cursor1 cursor2))"

definition apfs_filename_cmp ::
  "unicode_env \<Rightarrow> bool \<Rightarrow> bool \<Rightarrow> buffer \<Rightarrow> u32 \<Rightarrow> buffer \<Rightarrow> u32 \<Rightarrow> int result option" where
  "apfs_filename_cmp env norm_insensitive case_fold name1 len1 name2 len2 =
     (if \<not> norm_insensitive then
        if len1 \<noteq> len2 then Some (Inr (- 1))
        else
          bindo (Some (rd_bytes name1 0 (uint len1))) (\<lambda>b1.
          bindo (Some (rd_bytes name2 0 (uint len1))) (\<lambda>b2.
          Some (Inr (strcmp b1 b2))))
      else filename_cmp_loop env name1 name2 case_fold (apfs_init_unicursor 0 len1) (apfs_init_unicursor 0 len2))"

section \<open>Keys of directory entries\<close>

abbreviation (input) APFS_DREC_HASH_SHIFT :: nat where "APFS_DREC_HASH_SHIFT \<equiv> 10"

partial_function (option) drec_hash_loop :: "unicode_env \<Rightarrow> buffer \<Rightarrow> bool \<Rightarrow> apfs_unicursor \<Rightarrow> u32 \<Rightarrow> u32 result option" where
  "drec_hash_loop env name case_fold cursor hash =
     bindo (apfs_normalize_next env name case_fold cursor) (\<lambda>(utf32, cursor).
     if utf32 = 0 then Some (Inr hash)
     else drec_hash_loop env name case_fold cursor (crc32c env hash (le_bytes 4 (unat utf32))))"

text \<open>A query for all names has none.\<close>

definition apfs_init_drec_key ::
  "unicode_env \<Rightarrow> bool \<Rightarrow> bool \<Rightarrow> u64 \<Rightarrow> (buffer \<times> u32) option \<Rightarrow> apfs_key result option" where
  "apfs_init_drec_key env norm_insensitive case_fold ino name =
     (let key = \<lparr>k_id = ino, k_number = 0, k_name = None, k_type = APFS_TYPE_DIR_REC\<rparr> in
      if \<not> norm_insensitive then
        case name of
          None \<Rightarrow> Some (Inr key)
        | Some (b, len) \<Rightarrow> bindo (Some (c_string b 0)) (\<lambda>s. Some (Inr (key\<lparr>k_name := Some s\<rparr>)))
      else case name of
        None \<Rightarrow> Some (Inr key)
      | Some (b, len) \<Rightarrow>
          bindo (drec_hash_loop env b case_fold (apfs_init_unicursor 0 len) 0xFFFFFFFF) (\<lambda>hash.
          Some (Inr (key\<lparr>k_number := ucast (push_bit APFS_DREC_HASH_SHIFT hash)\<rparr>))))"

section \<open>Names with the same canonical form\<close>

text \<open>The order of lists of characters.\<close>

fun chars_cmp :: "u32 list \<Rightarrow> u32 list \<Rightarrow> int" where
  "chars_cmp [] [] = 0"
| "chars_cmp [] (v # vs) = - 1"
| "chars_cmp (u # us) [] = 1"
| "chars_cmp (u # us) (v # vs) = (if u \<noteq> v then if u < v then - 1 else 1 else chars_cmp us vs)"

lemma chars_cmp_eq_0: "chars_cmp us vs = 0 \<longleftrightarrow> us = vs"
  by (induction us vs rule: chars_cmp.induct) auto

lemma filename_cmp_yields:
  assumes "yields env name1 cfold c1 us" "yields env name2 cfold c2 vs"
  shows "filename_cmp_loop env name1 name2 cfold c1 c2 = Some (Inr (chars_cmp us vs))"
  using assms
proof (induction us vs arbitrary: c1 c2 rule: chars_cmp.induct)
  case 1
  then show ?case by (subst filename_cmp_loop.simps) auto
next
  case (2 v vs)
  then show ?case by (subst filename_cmp_loop.simps) (auto simp: word_gt_0)
next
  case (3 u us)
  then show ?case by (subst filename_cmp_loop.simps) auto
next
  case (4 u us v vs)
  then obtain d1 d2 where n: "apfs_normalize_next env name1 cfold c1 = Some (Inr (u, d1))" "apfs_normalize_next env name2 cfold c2 = Some (Inr (v, d2))"
    "u \<noteq> 0" "yields env name1 cfold d1 us" "yields env name2 cfold d2 vs" by auto
  then show ?case using "4.IH" by (subst filename_cmp_loop.simps) auto
qed

lemma drec_hash_yields:
  assumes "yields env name cfold c us"
  shows "drec_hash_loop env name cfold c hash = Some (Inr (foldl (\<lambda>h u. crc32c env h (le_bytes 4 (unat u))) hash us))"
  using assms
proof (induction us arbitrary: c hash)
  case Nil
  then show ?case by (subst drec_hash_loop.simps) auto
next
  case (Cons u us)
  then show ?case by (subst drec_hash_loop.simps) auto
qed

text \<open>
  The characters to which the theorems apply.  They have at most five digits, since the tries ignore the others.
  Their normalisation by the tables is not empty, has only characters and classes in range, and no starter in it follows a
  combining character.  For ASCII it is the character itself, in lower case with folding.
\<close>

definition good_char :: "unicode_env \<Rightarrow> bool \<Rightarrow> byte list \<times> u32 \<Rightarrow> bool" where
  "good_char env cfold p \<longleftrightarrow> unat (snd p) < 0x100000 \<and>
     (case char_spec env cfold (snd p) of
        None \<Rightarrow> False
      | Some xs \<Rightarrow> xs \<noteq> [] \<and> shape xs \<and> (\<forall>x \<in> set xs. fst x \<noteq> 0 \<and> fst x \<noteq> NORM_END \<and> snd x < 0xFF) \<and>
          (hd (fst p) < 128 \<longrightarrow> xs = [(ucast (if cfold then tolower_ascii (hd (fst p)) else hd (fst p)), 0)]))"

definition good_name :: "unicode_env \<Rightarrow> bool \<Rightarrow> uname \<Rightarrow> bool" where
  "good_name env cfold ps \<longleftrightarrow> utf8_ok env ps \<and> list_all (good_char env cfold) ps \<and> length (uname_bytes ps) < 2 ^ 32 - 1"

abbreviation name_buf :: "uname \<Rightarrow> buffer" where
  "name_buf ps \<equiv> uname_bytes ps @ [0]"

text \<open>The canonical form: all characters decomposed and folded, the combining characters in the canonical order.\<close>

definition canonical :: "unicode_env \<Rightarrow> bool \<Rightarrow> uname \<Rightarrow> u32 list" where
  "canonical env cfold ps = map fst (canon (concat (map (\<lambda>p. the (char_spec env cfold (snd p))) ps)))"

lemma good_char_norm: "good_char env cfold p \<Longrightarrow> norm_char env cfold (\<lambda>c. the (char_spec env cfold c)) p"
proof -
  assume p: "good_char env cfold p"
  then obtain xs where xs: "char_spec env cfold (snd p) = Some xs" by (auto simp: good_char_def split: option.splits)
  then have "NORM_END \<notin> fst ` set xs" using p by (auto simp: good_char_def)
  from char_norm_spec [OF xs this] show ?thesis using p xs by (simp add: good_char_def norm_char_def)
qed

lemma good_name_yields:
  assumes "good_name env cfold ps"
  shows "yields env (name_buf ps) cfold (apfs_init_unicursor 0 (len_of ps)) (canonical env cfold ps)"
proof -
  let ?N = "\<lambda>c. the (char_spec env cfold c)"
  have "norms_ok env cfold ?N ps" using assms good_char_norm by (auto simp: good_name_def list_all_iff)
  moreover have "canonical env cfold ps = map fst (canon (norm_of ?N ps))" by (simp add: canonical_def norm_of_def comp_def)
  ultimately show ?thesis
    using assms cursor_canonical [of "name_buf ps" 0 ps env cfold ?N] by (simp add: good_name_def at_name_def)
qed

end
