(* ===== verification/UnicodeTables.thy ===== *)
theory UnicodeTables
  imports Names
begin

text \<open>
  The tables of \<open>unicode.c\<close> in blocks of at most 256 entries, and what they do to concrete names.  A row of a trie is
  half of the children of a node.
\<close>

section \<open>Tables\<close>

definition nfd_trie_0 :: "nat list" where
  "nfd_trie_0 =
   [0x1, 0x2, 0x3, 0x0, 0x0, 0x0, 0x0, 0x0,
    0x0, 0x0, 0x0, 0x0, 0x0, 0x0, 0x0, 0x0,
    0x4, 0x5, 0x6, 0x7, 0x0, 0x0, 0x0, 0x0,
    0x0, 0x0, 0x0, 0x0, 0x0, 0x0, 0x0, 0x8,
    0x0, 0x9, 0x0, 0x0, 0x0, 0x0, 0x0, 0x0,
    0x0, 0x0, 0x0, 0x0, 0x0, 0xa, 0x0, 0x0,
    0x0, 0x0, 0x0, 0x0, 0x0, 0x0, 0x0, 0x0,
    0x0, 0x0, 0x0, 0x0, 0x0, 0x0, 0x0, 0xb,
    0xc, 0xd, 0xe, 0xf, 0x10, 0x0, 0x11, 0x0,
    0x0, 0x12, 0x13, 0x14, 0x15, 0x16, 0x0, 0x17,
    0x18, 0x0, 0x0, 0x0, 0x0, 0x0, 0x0, 0x0,
    0x0, 0x0, 0x0, 0x19, 0x0, 0x0, 0x1a, 0x1b,
    0x1c, 0x1d, 0x1e, 0x1f, 0x0, 0x0, 0x0, 0x0,
    0x0, 0x0, 0x20, 0x0, 0x0, 0x0, 0x0, 0x0,
    0x21, 0x0, 0x0, 0x0, 0x0, 0x0, 0x0, 0x0,
    0x0, 0x0, 0x0, 0x0, 0x0, 0x0, 0x0, 0x0,
    0x0, 0x0, 0x0, 0x0, 0x0, 0x0, 0x0, 0x0,
    0x0, 0x22, 0x23, 0x24, 0x0, 0x0, 0x0, 0x0,
    0x25, 0x26, 0x0, 0x27, 0x28, 0x29, 0x0, 0x0,
    0x0, 0x0, 0x0, 0x0, 0x0, 0x0, 0x0, 0x0,
    0x0, 0x2a, 0x0, 0x0, 0x0, 0x0, 0x0, 0x0,
    0x0, 0x0, 0x0, 0x0, 0x0, 0x0, 0x0, 0x0,
    0x0, 0x0, 0x0, 0x0, 0x0, 0x0, 0x0, 0x0,
    0x2b, 0x2c, 0x2d, 0x0, 0x0, 0x0, 0x0, 0x0,
    0x0, 0x0, 0x0, 0x0, 0x0, 0x0, 0x0, 0x0,
    0x0, 0x0, 0x0, 0x0, 0x2e, 0x2f, 0x30, 0x31,
    0x32, 0x33, 0x34, 0x35, 0x36, 0x37, 0x38, 0x39,
    0x0, 0x0, 0x3a, 0x3b, 0x3c, 0x3d, 0x3e, 0x3f,
    0x40, 0x41, 0x42, 0x43, 0x0, 0x0, 0x0, 0x0,
    0x0, 0x0, 0x0, 0x0, 0x0, 0x0, 0x0, 0x0,
    0x0, 0x0, 0x0, 0x0, 0x44, 0x0, 0x0, 0x45,
    0x46, 0x47, 0x48, 0x49, 0x4a, 0x4b, 0x0, 0x0]"

definition nfd_trie_1 :: "nat list" where
  "nfd_trie_1 =
   [0x4c, 0x4d, 0x0, 0x4e, 0x0, 0x4f, 0x0, 0x50,
    0x0, 0x0, 0x0, 0x0, 0x51, 0x52, 0x53, 0x54,
    0x0, 0x0, 0x55, 0x0, 0x0, 0x0, 0x0, 0x0,
    0x0, 0x0, 0x0, 0x0, 0x56, 0x57, 0x0, 0x0,
    0x0, 0x0, 0x58, 0x59, 0x0, 0x5a, 0x0, 0x0,
    0x0, 0x0, 0x0, 0x0, 0x5b, 0x5c, 0x0, 0x0,
    0x0, 0x0, 0x0, 0x5d, 0x0, 0x5e, 0x0, 0x0,
    0x0, 0x0, 0x0, 0x0, 0x0, 0x0, 0x0, 0x0,
    0x0, 0x0, 0x0, 0x0, 0x5f, 0x60, 0x0, 0x0,
    0x0, 0x61, 0x0, 0x0, 0x62, 0x0, 0x0, 0x0,
    0x0, 0x0, 0x0, 0x0, 0x63, 0x0, 0x0, 0x0,
    0x0, 0x0, 0x0, 0x0, 0x64, 0x0, 0x0, 0x0,
    0x0, 0x0, 0x0, 0x0, 0x65, 0x0, 0x0, 0x0,
    0x0, 0x0, 0x0, 0x0, 0x0, 0x66, 0x0, 0x0,
    0x0, 0x0, 0x0, 0x0, 0x67, 0x68, 0x69, 0x6a,
    0x6b, 0x6c, 0x6d, 0x6e, 0x0, 0x0, 0x0, 0x0,
    0x0, 0x0, 0x6f, 0x0, 0x0, 0x0, 0x0, 0x0,
    0x0, 0x0, 0x0, 0x0, 0x0, 0x0, 0x0, 0x0,
    0x70, 0x71, 0x0, 0x72, 0x73, 0x0, 0x0, 0x0,
    0x0, 0x0, 0x0, 0x0, 0x0, 0x0, 0x0, 0x0,
    0x74, 0x75, 0x76, 0x77, 0x78, 0x79, 0x7a, 0x7b,
    0x7c, 0x7d, 0x7e, 0x7f, 0x80, 0x81, 0x82, 0x83,
    0x84, 0x85, 0x86, 0x87, 0x88, 0x89, 0x8a, 0x8b,
    0x8c, 0x8d, 0x8e, 0x8f, 0x90, 0x91, 0x92, 0x93,
    0x94, 0x0, 0x0, 0x0, 0x0, 0x0, 0x0, 0x0,
    0x0, 0x0, 0x0, 0x0, 0x0, 0x0, 0x0, 0x0,
    0x0, 0x0, 0x95, 0x0, 0x0, 0x0, 0x0, 0x0,
    0x0, 0x96, 0x97, 0x0, 0x98, 0x0, 0x0, 0x0,
    0x99, 0x0, 0x9a, 0x0, 0x9b, 0x0, 0x9c, 0x9d,
    0x9e, 0x0, 0x9f, 0x0, 0x0, 0x0, 0xa0, 0x0,
    0x0, 0x0, 0xa1, 0x0, 0x0, 0x0, 0x0, 0x0,
    0x0, 0x0, 0x0, 0x0, 0x0, 0x0, 0x0, 0x0]"

definition nfd_trie_2 :: "nat list" where
  "nfd_trie_2 =
   [0x0, 0x0, 0x0, 0x0, 0x0, 0x0, 0x0, 0x0,
    0x0, 0x0, 0x0, 0x0, 0x0, 0xa2, 0x0, 0x0,
    0x0, 0x0, 0x0, 0x0, 0xa3, 0xa4, 0xa5, 0xa6,
    0x0, 0xa7, 0xa8, 0xa9, 0xaa, 0xab, 0x0, 0xac,
    0xad, 0xae, 0xaf, 0xb0, 0xb1, 0xb2, 0xb3, 0xb4,
    0xb5, 0xb6, 0xb7, 0xb8, 0xb9, 0xba, 0xbb, 0xbc,
    0xbd, 0xbe, 0xbf, 0xc0, 0xc1, 0xc2, 0xc3, 0xc4,
    0xc5, 0xc6, 0xc7, 0xc8, 0xc9, 0xca, 0x0, 0x0,
    0x0, 0xcb, 0xcc, 0xcd, 0xce, 0x0, 0x0, 0x0,
    0x0, 0x0, 0x0, 0x0, 0x0, 0x0, 0x0, 0x0,
    0x0, 0x0, 0x0, 0x0, 0x0, 0x0, 0x0, 0x0,
    0x0, 0xcf, 0xd0, 0x0, 0x0, 0x0, 0x0, 0x0,
    0x0, 0x0, 0xd1, 0x0, 0x0, 0x0, 0x0, 0x0,
    0x0, 0x0, 0x0, 0x0, 0x0, 0x0, 0x0, 0x0,
    0x0, 0x0, 0x0, 0x0, 0xd2, 0x0, 0x0, 0x0,
    0x0, 0x0, 0x0, 0x0, 0x0, 0x0, 0x0, 0x0,
    0x0, 0x0, 0x0, 0x0, 0x0, 0x0, 0x0, 0x0,
    0x0, 0x0, 0x0, 0xd3, 0x0, 0x0, 0x0, 0x0,
    0x0, 0x0, 0x0, 0x0, 0x0, 0x0, 0x0, 0x0,
    0x0, 0x0, 0x0, 0xd4, 0x0, 0x0, 0x0, 0x0,
    0x0, 0x0, 0x0, 0x0, 0x0, 0xd5, 0xd6, 0x0,
    0x0, 0x0, 0x0, 0xd7, 0xd8, 0x0, 0x0, 0x0,
    0xd9, 0xda, 0xdb, 0xdc, 0xdd, 0xde, 0xdf, 0xe0,
    0xe1, 0xe2, 0xe3, 0xe4, 0xe5, 0xe6, 0xe7, 0xe8,
    0xe9, 0xea, 0xeb, 0xec, 0xed, 0xee, 0xef, 0xf0,
    0xf1, 0xf2, 0xf3, 0xf4, 0xf5, 0xf6, 0xf7, 0xf8,
    0xf9, 0xfa, 0x0, 0x0, 0x0, 0x0, 0x0, 0x0,
    0x0, 0x0, 0x0, 0x0, 0x0, 0x0, 0x0, 0x0,
    0x2, 0x12, 0x22, 0x32, 0x42, 0x52, 0x0, 0x62,
    0x72, 0x82, 0x92, 0xa2, 0xb2, 0xc2, 0xd2, 0xe2,
    0x0, 0xf2, 0x102, 0x112, 0x122, 0x132, 0x142, 0x0,
    0x0, 0x152, 0x162, 0x172, 0x182, 0x192, 0x0, 0x0]"

definition nfd_trie_3 :: "nat list" where
  "nfd_trie_3 =
   [0x1a2, 0x1b2, 0x1c2, 0x1d2, 0x1e2, 0x1f2, 0x0, 0x202,
    0x212, 0x222, 0x232, 0x242, 0x252, 0x262, 0x272, 0x282,
    0x0, 0x292, 0x2a2, 0x2b2, 0x2c2, 0x2d2, 0x2e2, 0x0,
    0x0, 0x2f2, 0x302, 0x312, 0x322, 0x332, 0x0, 0x342,
    0x352, 0x362, 0x372, 0x382, 0x392, 0x3a2, 0x3b2, 0x3c2,
    0x3d2, 0x3e2, 0x3f2, 0x402, 0x412, 0x422, 0x432, 0x442,
    0x0, 0x0, 0x452, 0x462, 0x472, 0x482, 0x492, 0x4a2,
    0x4b2, 0x4c2, 0x4d2, 0x4e2, 0x4f2, 0x502, 0x512, 0x522,
    0x532, 0x542, 0x552, 0x562, 0x572, 0x582, 0x0, 0x0,
    0x592, 0x5a2, 0x5b2, 0x5c2, 0x5d2, 0x5e2, 0x5f2, 0x602,
    0x612, 0x0, 0x0, 0x0, 0x622, 0x632, 0x642, 0x652,
    0x0, 0x662, 0x672, 0x682, 0x692, 0x6a2, 0x6b2, 0x0,
    0x0, 0x0, 0x0, 0x6c2, 0x6d2, 0x6e2, 0x6f2, 0x702,
    0x712, 0x0, 0x0, 0x0, 0x722, 0x732, 0x742, 0x752,
    0x762, 0x772, 0x0, 0x0, 0x782, 0x792, 0x7a2, 0x7b2,
    0x7c2, 0x7d2, 0x7e2, 0x7f2, 0x802, 0x812, 0x822, 0x832,
    0x842, 0x852, 0x862, 0x872, 0x882, 0x892, 0x0, 0x0,
    0x8a2, 0x8b2, 0x8c2, 0x8d2, 0x8e2, 0x8f2, 0x902, 0x912,
    0x922, 0x932, 0x942, 0x952, 0x962, 0x972, 0x982, 0x992,
    0x9a2, 0x9b2, 0x9c2, 0x9d2, 0x9e2, 0x9f2, 0xa02, 0x0,
    0xa12, 0xa22, 0x0, 0x0, 0x0, 0x0, 0x0, 0x0,
    0x0, 0x0, 0x0, 0x0, 0x0, 0x0, 0x0, 0xa32,
    0xa42, 0x0, 0x0, 0x0, 0x0, 0x0, 0x0, 0x0,
    0x0, 0x0, 0x0, 0x0, 0x0, 0x0, 0x0, 0x0,
    0x0, 0x0, 0x0, 0x0, 0x0, 0x0, 0x0, 0x0,
    0x0, 0x0, 0x0, 0x0, 0x0, 0xa52, 0xa62, 0xa72,
    0xa82, 0xa92, 0xaa2, 0xab2, 0xac2, 0xad3, 0xaeb, 0xb03,
    0xb1b, 0xb33, 0xb4b, 0xb63, 0xb7b, 0x0, 0xb93, 0xbab,
    0xbc3, 0xbdb, 0xbf2, 0xc02, 0x0, 0x0, 0xc12, 0xc22,
    0xc32, 0xc42, 0xc52, 0xc62, 0xc73, 0xc8b, 0xca2, 0xcb2,
    0xcc2, 0x0, 0x0, 0x0, 0xcd2, 0xce2, 0x0, 0x0,
    0xcf2, 0xd02, 0xd13, 0xd2b, 0xd42, 0xd52, 0xd62, 0xd72]"

definition nfd_trie_4 :: "nat list" where
  "nfd_trie_4 =
   [0xd82, 0xd92, 0xda2, 0xdb2, 0xdc2, 0xdd2, 0xde2, 0xdf2,
    0xe02, 0xe12, 0xe22, 0xe32, 0xe42, 0xe52, 0xe62, 0xe72,
    0xe82, 0xe92, 0xea2, 0xeb2, 0xec2, 0xed2, 0xee2, 0xef2,
    0xf02, 0xf12, 0xf22, 0xf32, 0x0, 0x0, 0xf42, 0xf52,
    0x0, 0x0, 0x0, 0x0, 0x0, 0x0, 0xf62, 0xf72,
    0xf82, 0xf92, 0xfa3, 0xfbb, 0xfd3, 0xfeb, 0x1002, 0x1012,
    0x1023, 0x103b, 0x1052, 0x1062, 0x0, 0x0, 0x0, 0x0,
    0x0, 0x0, 0x0, 0x0, 0x0, 0x0, 0x0, 0x0,
    0x1071, 0x1079, 0x0, 0x1081, 0x108a, 0x0, 0x0, 0x0,
    0x0, 0x0, 0x0, 0x0, 0x0, 0x0, 0x0, 0x0,
    0x0, 0x0, 0x0, 0x0, 0x1099, 0x0, 0x0, 0x0,
    0x0, 0x0, 0x0, 0x0, 0x0, 0x0, 0x10a1, 0x0,
    0x0, 0x0, 0x0, 0x0, 0x0, 0x10aa, 0x10ba, 0x10c9,
    0x10d2, 0x10e2, 0x10f2, 0x0, 0x1102, 0x0, 0x1112, 0x1122,
    0x1133, 0x0, 0x0, 0x0, 0x0, 0x0, 0x0, 0x0,
    0x0, 0x0, 0x0, 0x0, 0x0, 0x0, 0x0, 0x0,
    0x0, 0x0, 0x0, 0x0, 0x0, 0x0, 0x0, 0x0,
    0x0, 0x0, 0x114a, 0x115a, 0x116a, 0x117a, 0x118a, 0x119a,
    0x11ab, 0x0, 0x0, 0x0, 0x0, 0x0, 0x0, 0x0,
    0x0, 0x0, 0x0, 0x0, 0x0, 0x0, 0x0, 0x0,
    0x0, 0x0, 0x0, 0x0, 0x0, 0x0, 0x0, 0x0,
    0x0, 0x0, 0x11c2, 0x11d2, 0x11e2, 0x11f2, 0x1202, 0x0,
    0x0, 0x0, 0x0, 0x1212, 0x1222, 0x0, 0x0, 0x0,
    0x0, 0x0, 0x0, 0x0, 0x0, 0x0, 0x0, 0x0,
    0x1232, 0x1242, 0x0, 0x1252, 0x0, 0x0, 0x0, 0x1262,
    0x0, 0x0, 0x0, 0x0, 0x1272, 0x1282, 0x1292, 0x0,
    0x0, 0x0, 0x0, 0x0, 0x0, 0x0, 0x0, 0x0,
    0x0, 0x12a2, 0x0, 0x0, 0x0, 0x0, 0x0, 0x0,
    0x0, 0x0, 0x0, 0x0, 0x0, 0x0, 0x0, 0x0,
    0x0, 0x12b2, 0x0, 0x0, 0x0, 0x0, 0x0, 0x0,
    0x12c2, 0x12d2, 0x0, 0x12e2, 0x0, 0x0, 0x0, 0x12f2,
    0x0, 0x0, 0x0, 0x0, 0x1302, 0x1312, 0x1322, 0x0]"

definition nfd_trie_5 :: "nat list" where
  "nfd_trie_5 =
   [0x0, 0x0, 0x0, 0x0, 0x0, 0x0, 0x1332, 0x1342,
    0x0, 0x0, 0x0, 0x0, 0x0, 0x0, 0x0, 0x0,
    0x0, 0x1352, 0x1362, 0x0, 0x0, 0x0, 0x0, 0x0,
    0x0, 0x0, 0x0, 0x0, 0x0, 0x0, 0x0, 0x0,
    0x1372, 0x1382, 0x1392, 0x13a2, 0x0, 0x0, 0x13b2, 0x13c2,
    0x0, 0x0, 0x13d2, 0x13e2, 0x13f2, 0x1402, 0x1412, 0x1422,
    0x0, 0x0, 0x1432, 0x1442, 0x1452, 0x1462, 0x1472, 0x1482,
    0x0, 0x0, 0x1492, 0x14a2, 0x14b2, 0x14c2, 0x14d2, 0x14e2,
    0x14f2, 0x1502, 0x1512, 0x1522, 0x1532, 0x1542, 0x0, 0x0,
    0x1552, 0x1562, 0x0, 0x0, 0x0, 0x0, 0x0, 0x0,
    0x0, 0x0, 0x1572, 0x1582, 0x1592, 0x15a2, 0x15b2, 0x0,
    0x0, 0x0, 0x0, 0x0, 0x0, 0x0, 0x0, 0x0,
    0x15c2, 0x0, 0x15d2, 0x0, 0x0, 0x0, 0x0, 0x0,
    0x0, 0x0, 0x0, 0x0, 0x0, 0x0, 0x0, 0x0,
    0x0, 0x0, 0x0, 0x15e2, 0x0, 0x0, 0x0, 0x0,
    0x0, 0x0, 0x0, 0x0, 0x0, 0x0, 0x0, 0x0,
    0x0, 0x0, 0x0, 0x0, 0x0, 0x0, 0x0, 0x0,
    0x0, 0x15f2, 0x0, 0x0, 0x0, 0x0, 0x0, 0x0,
    0x0, 0x1602, 0x0, 0x0, 0x1612, 0x0, 0x0, 0x0,
    0x0, 0x0, 0x0, 0x0, 0x0, 0x0, 0x0, 0x0,
    0x0, 0x0, 0x0, 0x0, 0x0, 0x0, 0x0, 0x0,
    0x1622, 0x1632, 0x1642, 0x1652, 0x1662, 0x1672, 0x1682, 0x1692,
    0x0, 0x0, 0x0, 0x0, 0x0, 0x0, 0x0, 0x0,
    0x0, 0x0, 0x0, 0x16a2, 0x16b2, 0x0, 0x0, 0x0,
    0x0, 0x0, 0x0, 0x0, 0x0, 0x0, 0x0, 0x0,
    0x0, 0x0, 0x0, 0x0, 0x16c2, 0x16d2, 0x0, 0x16e2,
    0x0, 0x0, 0x0, 0x16f2, 0x0, 0x0, 0x1702, 0x0,
    0x0, 0x0, 0x0, 0x0, 0x0, 0x0, 0x0, 0x0,
    0x0, 0x0, 0x0, 0x0, 0x0, 0x0, 0x0, 0x0,
    0x0, 0x1712, 0x1722, 0x1732, 0x0, 0x0, 0x1742, 0x0,
    0x0, 0x0, 0x0, 0x0, 0x0, 0x0, 0x0, 0x0,
    0x1752, 0x0, 0x0, 0x1762, 0x1772, 0x0, 0x0, 0x0]"

definition nfd_trie_6 :: "nat list" where
  "nfd_trie_6 =
   [0x0, 0x0, 0x0, 0x0, 0x0, 0x0, 0x0, 0x0,
    0x0, 0x0, 0x0, 0x0, 0x1782, 0x1792, 0x0, 0x0,
    0x0, 0x0, 0x0, 0x0, 0x17a2, 0x0, 0x0, 0x0,
    0x0, 0x0, 0x0, 0x0, 0x0, 0x0, 0x0, 0x0,
    0x0, 0x0, 0x0, 0x0, 0x0, 0x0, 0x0, 0x0,
    0x0, 0x0, 0x17b2, 0x17c2, 0x17d2, 0x0, 0x0, 0x0,
    0x0, 0x0, 0x0, 0x0, 0x0, 0x0, 0x0, 0x0,
    0x17e2, 0x0, 0x0, 0x0, 0x0, 0x0, 0x0, 0x0,
    0x17f2, 0x0, 0x0, 0x0, 0x0, 0x0, 0x0, 0x1802,
    0x1812, 0x0, 0x1822, 0x1833, 0x0, 0x0, 0x0, 0x0,
    0x0, 0x0, 0x0, 0x0, 0x0, 0x0, 0x0, 0x0,
    0x0, 0x0, 0x184a, 0x185a, 0x186a, 0x0, 0x0, 0x0,
    0x0, 0x0, 0x0, 0x0, 0x0, 0x0, 0x0, 0x0,
    0x0, 0x0, 0x187a, 0x0, 0x188a, 0x189b, 0x18b2, 0x0,
    0x0, 0x0, 0x0, 0x18c2, 0x0, 0x0, 0x0, 0x0,
    0x0, 0x0, 0x0, 0x0, 0x0, 0x18d2, 0x0, 0x0,
    0x0, 0x0, 0x18e2, 0x0, 0x0, 0x0, 0x0, 0x18f2,
    0x0, 0x0, 0x0, 0x0, 0x1902, 0x0, 0x0, 0x0,
    0x0, 0x0, 0x0, 0x0, 0x0, 0x0, 0x0, 0x0,
    0x0, 0x1912, 0x0, 0x0, 0x0, 0x0, 0x0, 0x0,
    0x0, 0x0, 0x0, 0x1922, 0x0, 0x1932, 0x1942, 0x0,
    0x1952, 0x0, 0x0, 0x0, 0x0, 0x0, 0x0, 0x0,
    0x0, 0x1962, 0x0, 0x0, 0x0, 0x0, 0x0, 0x0,
    0x0, 0x0, 0x0, 0x0, 0x0, 0x0, 0x0, 0x0,
    0x0, 0x0, 0x0, 0x1972, 0x0, 0x0, 0x0, 0x0,
    0x0, 0x0, 0x0, 0x0, 0x0, 0x1982, 0x0, 0x0,
    0x0, 0x0, 0x1992, 0x0, 0x0, 0x0, 0x0, 0x19a2,
    0x0, 0x0, 0x0, 0x0, 0x19b2, 0x0, 0x0, 0x0,
    0x0, 0x0, 0x0, 0x0, 0x0, 0x0, 0x0, 0x0,
    0x0, 0x19c2, 0x0, 0x0, 0x0, 0x0, 0x0, 0x0,
    0x0, 0x0, 0x0, 0x0, 0x0, 0x0, 0x19d2, 0x0,
    0x0, 0x0, 0x0, 0x0, 0x0, 0x0, 0x0, 0x0]"

definition nfd_trie_7 :: "nat list" where
  "nfd_trie_7 =
   [0x0, 0x0, 0x0, 0x0, 0x0, 0x0, 0x19e2, 0x0,
    0x19f2, 0x0, 0x1a02, 0x0, 0x1a12, 0x0, 0x1a22, 0x0,
    0x0, 0x0, 0x1a32, 0x0, 0x0, 0x0, 0x0, 0x0,
    0x0, 0x0, 0x0, 0x0, 0x0, 0x0, 0x0, 0x0,
    0x0, 0x0, 0x0, 0x0, 0x0, 0x0, 0x0, 0x0,
    0x0, 0x0, 0x0, 0x1a42, 0x0, 0x1a52, 0x0, 0x0,
    0x1a62, 0x1a72, 0x0, 0x1a82, 0x0, 0x0, 0x0, 0x0,
    0x0, 0x0, 0x0, 0x0, 0x0, 0x0, 0x0, 0x0,
    0x1a92, 0x1aa2, 0x1ab2, 0x1ac2, 0x1ad2, 0x1ae2, 0x1af2, 0x1b02,
    0x1b13, 0x1b2b, 0x1b42, 0x1b52, 0x1b62, 0x1b72, 0x1b82, 0x1b92,
    0x1ba2, 0x1bb2, 0x1bc2, 0x1bd2, 0x1be3, 0x1bfb, 0x1c13, 0x1c2b,
    0x1c42, 0x1c52, 0x1c62, 0x1c72, 0x1c83, 0x1c9b, 0x1cb2, 0x1cc2,
    0x1cd2, 0x1ce2, 0x1cf2, 0x1d02, 0x1d12, 0x1d22, 0x1d32, 0x1d42,
    0x1d52, 0x1d62, 0x1d72, 0x1d82, 0x1d92, 0x1da2, 0x1db3, 0x1dcb,
    0x1de2, 0x1df2, 0x1e02, 0x1e12, 0x1e22, 0x1e32, 0x1e42, 0x1e52,
    0x1e63, 0x1e7b, 0x1e92, 0x1ea2, 0x1eb2, 0x1ec2, 0x1ed2, 0x1ee2,
    0x1ef2, 0x1f02, 0x1f12, 0x1f22, 0x1f32, 0x1f42, 0x1f52, 0x1f62,
    0x1f72, 0x1f82, 0x1f92, 0x1fa2, 0x1fb3, 0x1fcb, 0x1fe3, 0x1ffb,
    0x2013, 0x202b, 0x2043, 0x205b, 0x2072, 0x2082, 0x2092, 0x20a2,
    0x20b2, 0x20c2, 0x20d2, 0x20e2, 0x20f3, 0x210b, 0x2122, 0x2132,
    0x2142, 0x2152, 0x2162, 0x2172, 0x2183, 0x219b, 0x21b3, 0x21cb,
    0x21e3, 0x21fb, 0x2212, 0x2222, 0x2232, 0x2242, 0x2252, 0x2262,
    0x2272, 0x2282, 0x2292, 0x22a2, 0x22b2, 0x22c2, 0x22d2, 0x22e2,
    0x22f3, 0x230b, 0x2323, 0x233b, 0x2352, 0x2362, 0x2372, 0x2382,
    0x2392, 0x23a2, 0x23b2, 0x23c2, 0x23d2, 0x23e2, 0x23f2, 0x2402,
    0x2412, 0x2422, 0x2432, 0x2442, 0x2452, 0x2462, 0x2472, 0x2482,
    0x2492, 0x24a2, 0x24b2, 0x24c2, 0x24d2, 0x24e2, 0x24f2, 0x2502,
    0x2512, 0x2522, 0x0, 0x2532, 0x0, 0x0, 0x0, 0x0,
    0x2542, 0x2552, 0x2562, 0x2572, 0x2583, 0x259b, 0x25b3, 0x25cb,
    0x25e3, 0x25fb, 0x2613, 0x262b, 0x2643, 0x265b, 0x2673, 0x268b,
    0x26a3, 0x26bb, 0x26d3, 0x26eb, 0x2703, 0x271b, 0x2733, 0x274b,
    0x2762, 0x2772, 0x2782, 0x2792, 0x27a2, 0x27b2, 0x27c3, 0x27db]"

definition nfd_trie_8 :: "nat list" where
  "nfd_trie_8 =
   [0x27f3, 0x280b, 0x2823, 0x283b, 0x2853, 0x286b, 0x2883, 0x289b,
    0x28b2, 0x28c2, 0x28d2, 0x28e2, 0x28f2, 0x2902, 0x2912, 0x2922,
    0x2933, 0x294b, 0x2963, 0x297b, 0x2993, 0x29ab, 0x29c3, 0x29db,
    0x29f3, 0x2a0b, 0x2a23, 0x2a3b, 0x2a53, 0x2a6b, 0x2a83, 0x2a9b,
    0x2ab3, 0x2acb, 0x2ae3, 0x2afb, 0x2b12, 0x2b22, 0x2b32, 0x2b42,
    0x2b53, 0x2b6b, 0x2b83, 0x2b9b, 0x2bb3, 0x2bcb, 0x2be3, 0x2bfb,
    0x2c13, 0x2c2b, 0x2c42, 0x2c52, 0x2c62, 0x2c72, 0x2c82, 0x2c92,
    0x2ca2, 0x2cb2, 0x0, 0x0, 0x0, 0x0, 0x0, 0x0,
    0x2cc2, 0x2cd2, 0x2ce3, 0x2cfb, 0x2d13, 0x2d2b, 0x2d43, 0x2d5b,
    0x2d72, 0x2d82, 0x2d93, 0x2dab, 0x2dc3, 0x2ddb, 0x2df3, 0x2e0b,
    0x2e22, 0x2e32, 0x2e43, 0x2e5b, 0x2e73, 0x2e8b, 0x0, 0x0,
    0x2ea2, 0x2eb2, 0x2ec3, 0x2edb, 0x2ef3, 0x2f0b, 0x0, 0x0,
    0x2f22, 0x2f32, 0x2f43, 0x2f5b, 0x2f73, 0x2f8b, 0x2fa3, 0x2fbb,
    0x2fd2, 0x2fe2, 0x2ff3, 0x300b, 0x3023, 0x303b, 0x3053, 0x306b,
    0x3082, 0x3092, 0x30a3, 0x30bb, 0x30d3, 0x30eb, 0x3103, 0x311b,
    0x3132, 0x3142, 0x3153, 0x316b, 0x3183, 0x319b, 0x31b3, 0x31cb,
    0x31e2, 0x31f2, 0x3203, 0x321b, 0x3233, 0x324b, 0x0, 0x0,
    0x3262, 0x3272, 0x3283, 0x329b, 0x32b3, 0x32cb, 0x0, 0x0,
    0x32e2, 0x32f2, 0x3303, 0x331b, 0x3333, 0x334b, 0x3363, 0x337b,
    0x0, 0x3392, 0x0, 0x33a3, 0x0, 0x33bb, 0x0, 0x33d3,
    0x33ea, 0x33fa, 0x340b, 0x3423, 0x343b, 0x3453, 0x346b, 0x3483,
    0x349a, 0x34aa, 0x34bb, 0x34d3, 0x34eb, 0x3503, 0x351b, 0x3533,
    0x354a, 0x355a, 0x356a, 0x357a, 0x358a, 0x359a, 0x35aa, 0x35ba,
    0x35ca, 0x35da, 0x35ea, 0x35fa, 0x360a, 0x361a, 0x0, 0x0,
    0x362b, 0x3643, 0x365c, 0x367c, 0x369c, 0x36bc, 0x36dc, 0x36fc,
    0x371b, 0x3733, 0x374c, 0x376c, 0x378c, 0x37ac, 0x37cc, 0x37ec,
    0x380b, 0x3823, 0x383c, 0x385c, 0x387c, 0x389c, 0x38bc, 0x38dc,
    0x38fb, 0x3913, 0x392c, 0x394c, 0x396c, 0x398c, 0x39ac, 0x39cc,
    0x39eb, 0x3a03, 0x3a1c, 0x3a3c, 0x3a5c, 0x3a7c, 0x3a9c, 0x3abc,
    0x3adb, 0x3af3, 0x3b0c, 0x3b2c, 0x3b4c, 0x3b6c, 0x3b8c, 0x3bac,
    0x3bca, 0x3bda, 0x3beb, 0x3c02, 0x3c13, 0x0, 0x3c2a, 0x3c3b,
    0x3c52, 0x3c62, 0x3c72, 0x3c82, 0x3c92, 0x0, 0x3ca1, 0x0]"

definition nfd_trie_9 :: "nat list" where
  "nfd_trie_9 =
   [0x0, 0x3caa, 0x3cbb, 0x3cd2, 0x3ce3, 0x0, 0x3cfa, 0x3d0b,
    0x3d22, 0x3d32, 0x3d42, 0x3d52, 0x3d62, 0x3d72, 0x3d82, 0x3d92,
    0x3da2, 0x3db2, 0x3dc3, 0x3ddb, 0x0, 0x0, 0x3df2, 0x3e03,
    0x3e1a, 0x3e2a, 0x3e3a, 0x3e4a, 0x0, 0x3e5a, 0x3e6a, 0x3e7a,
    0x3e8a, 0x3e9a, 0x3eab, 0x3ec3, 0x3eda, 0x3eea, 0x3efa, 0x3f0b,
    0x3f22, 0x3f32, 0x3f42, 0x3f52, 0x3f62, 0x3f72, 0x3f82, 0x3f91,
    0x0, 0x0, 0x3f9b, 0x3fb2, 0x3fc3, 0x0, 0x3fda, 0x3feb,
    0x4002, 0x4012, 0x4022, 0x4032, 0x4042, 0x4051, 0x0, 0x0,
    0x4059, 0x4061, 0x0, 0x0, 0x0, 0x0, 0x0, 0x0,
    0x0, 0x0, 0x0, 0x0, 0x0, 0x0, 0x0, 0x0,
    0x0, 0x0, 0x0, 0x0, 0x0, 0x0, 0x4069, 0x0,
    0x0, 0x0, 0x4071, 0x407a, 0x0, 0x0, 0x0, 0x0,
    0x0, 0x0, 0x0, 0x0, 0x0, 0x0, 0x0, 0x0,
    0x0, 0x0, 0x408a, 0x409a, 0x0, 0x0, 0x0, 0x0,
    0x0, 0x0, 0x0, 0x0, 0x0, 0x0, 0x0, 0x0,
    0x0, 0x0, 0x0, 0x0, 0x0, 0x0, 0x40aa, 0x0,
    0x0, 0x0, 0x0, 0x0, 0x0, 0x0, 0x0, 0x0,
    0x0, 0x0, 0x0, 0x0, 0x0, 0x40ba, 0x40ca, 0x40da,
    0x0, 0x0, 0x0, 0x0, 0x40ea, 0x0, 0x0, 0x0,
    0x0, 0x40fa, 0x0, 0x0, 0x410a, 0x0, 0x0, 0x0,
    0x0, 0x0, 0x0, 0x0, 0x411a, 0x0, 0x412a, 0x0,
    0x0, 0x0, 0x0, 0x0, 0x0, 0x0, 0x0, 0x0,
    0x0, 0x413a, 0x0, 0x0, 0x414a, 0x0, 0x0, 0x415a,
    0x0, 0x416a, 0x0, 0x0, 0x0, 0x0, 0x0, 0x0,
    0x417a, 0x0, 0x418a, 0x0, 0x0, 0x0, 0x0, 0x0,
    0x0, 0x0, 0x0, 0x0, 0x0, 0x419a, 0x41aa, 0x41ba,
    0x41ca, 0x41da, 0x0, 0x0, 0x41ea, 0x41fa, 0x0, 0x0,
    0x420a, 0x421a, 0x0, 0x0, 0x0, 0x0, 0x0, 0x0,
    0x422a, 0x423a, 0x0, 0x0, 0x424a, 0x425a, 0x0, 0x0,
    0x426a, 0x427a, 0x0, 0x0, 0x0, 0x0, 0x0, 0x0,
    0x0, 0x0, 0x0, 0x0, 0x0, 0x0, 0x0, 0x0,
    0x0, 0x0, 0x0, 0x0, 0x428a, 0x429a, 0x42aa, 0x42ba]"

definition nfd_trie_10 :: "nat list" where
  "nfd_trie_10 =
   [0x42ca, 0x42da, 0x42ea, 0x42fa, 0x0, 0x0, 0x0, 0x0,
    0x0, 0x0, 0x430a, 0x431a, 0x432a, 0x433a, 0x0, 0x0,
    0x0, 0x0, 0x0, 0x0, 0x0, 0x0, 0x0, 0x0,
    0x0, 0x4349, 0x4351, 0x0, 0x0, 0x0, 0x0, 0x0,
    0x0, 0x0, 0x0, 0x0, 0x0, 0x0, 0x0, 0x0,
    0x0, 0x0, 0x0, 0x0, 0x435a, 0x0, 0x0, 0x0,
    0x0, 0x0, 0x0, 0x0, 0x0, 0x0, 0x0, 0x0,
    0x0, 0x0, 0x0, 0x0, 0x436a, 0x0, 0x437a, 0x0,
    0x438a, 0x0, 0x439a, 0x0, 0x43aa, 0x0, 0x43ba, 0x0,
    0x43ca, 0x0, 0x43da, 0x0, 0x43ea, 0x0, 0x43fa, 0x0,
    0x440a, 0x0, 0x441a, 0x0, 0x0, 0x442a, 0x0, 0x443a,
    0x0, 0x444a, 0x0, 0x0, 0x0, 0x0, 0x0, 0x0,
    0x445a, 0x446a, 0x0, 0x447a, 0x448a, 0x0, 0x449a, 0x44aa,
    0x0, 0x44ba, 0x44ca, 0x0, 0x44da, 0x44ea, 0x0, 0x0,
    0x0, 0x0, 0x0, 0x0, 0x44fa, 0x0, 0x0, 0x0,
    0x0, 0x0, 0x0, 0x0, 0x0, 0x0, 0x450a, 0x0,
    0x0, 0x0, 0x0, 0x0, 0x0, 0x0, 0x0, 0x0,
    0x0, 0x0, 0x0, 0x0, 0x451a, 0x0, 0x452a, 0x0,
    0x453a, 0x0, 0x454a, 0x0, 0x455a, 0x0, 0x456a, 0x0,
    0x457a, 0x0, 0x458a, 0x0, 0x459a, 0x0, 0x45aa, 0x0,
    0x45ba, 0x0, 0x45ca, 0x0, 0x0, 0x45da, 0x0, 0x45ea,
    0x0, 0x45fa, 0x0, 0x0, 0x0, 0x0, 0x0, 0x0,
    0x460a, 0x461a, 0x0, 0x462a, 0x463a, 0x0, 0x464a, 0x465a,
    0x0, 0x466a, 0x467a, 0x0, 0x468a, 0x469a, 0x0, 0x0,
    0x0, 0x0, 0x0, 0x0, 0x46aa, 0x0, 0x0, 0x46ba,
    0x46ca, 0x46da, 0x46ea, 0x0, 0x0, 0x0, 0x46fa, 0x0,
    0x4709, 0x4711, 0x4719, 0x4721, 0x4729, 0x4731, 0x4739, 0x4741,
    0x4749, 0x4751, 0x4759, 0x4761, 0x4769, 0x4771, 0x4779, 0x4781,
    0x4789, 0x4791, 0x4799, 0x47a1, 0x47a9, 0x47b1, 0x47b9, 0x47c1,
    0x47c9, 0x47d1, 0x47d9, 0x47e1, 0x47e9, 0x47f1, 0x47f9, 0x4801,
    0x4809, 0x4811, 0x4819, 0x4821, 0x4829, 0x4831, 0x4839, 0x4841,
    0x4849, 0x4851, 0x4859, 0x4861, 0x4869, 0x4871, 0x4879, 0x4881]"

definition nfd_trie_11 :: "nat list" where
  "nfd_trie_11 =
   [0x4889, 0x4891, 0x4899, 0x48a1, 0x48a9, 0x48b1, 0x48b9, 0x48c1,
    0x48c9, 0x48d1, 0x48d9, 0x48e1, 0x48e9, 0x48f1, 0x48f9, 0x4901,
    0x4909, 0x4911, 0x4919, 0x4921, 0x4929, 0x4931, 0x4939, 0x4941,
    0x4949, 0x4951, 0x4959, 0x4961, 0x4969, 0x4971, 0x4979, 0x4981,
    0x4989, 0x4991, 0x4999, 0x49a1, 0x49a9, 0x49b1, 0x49b9, 0x49c1,
    0x49c9, 0x49d1, 0x49d9, 0x49e1, 0x49e9, 0x49f1, 0x49f9, 0x4a01,
    0x4a09, 0x4a11, 0x4a19, 0x4a21, 0x4a29, 0x4a31, 0x4a39, 0x4a41,
    0x4a49, 0x4a51, 0x4a59, 0x4a61, 0x4a69, 0x4a71, 0x4a79, 0x4a81,
    0x4a89, 0x4a91, 0x4a99, 0x4aa1, 0x4aa9, 0x4ab1, 0x4ab9, 0x4ac1,
    0x4ac9, 0x4ad1, 0x4ad9, 0x4ae1, 0x4ae9, 0x4af1, 0x4af9, 0x4b01,
    0x4b09, 0x4b11, 0x4b19, 0x4b21, 0x4b29, 0x4b31, 0x4b39, 0x4b41,
    0x4b49, 0x4b51, 0x4b59, 0x4b61, 0x4b69, 0x4b71, 0x4b79, 0x4b81,
    0x4b89, 0x4b91, 0x4b99, 0x4ba1, 0x4ba9, 0x4bb1, 0x4bb9, 0x4bc1,
    0x4bc9, 0x4bd1, 0x4bd9, 0x4be1, 0x4be9, 0x4bf1, 0x4bf9, 0x4c01,
    0x4c09, 0x4c11, 0x4c19, 0x4c21, 0x4c29, 0x4c31, 0x4c39, 0x4c41,
    0x4c49, 0x4c51, 0x4c59, 0x4c61, 0x4c69, 0x4c71, 0x4c79, 0x4c81,
    0x4c89, 0x4c91, 0x4c99, 0x4ca1, 0x4ca9, 0x4cb1, 0x4cb9, 0x4cc1,
    0x4cc9, 0x4cd1, 0x4cd9, 0x4ce1, 0x4ce9, 0x4cf1, 0x4cf9, 0x4d01,
    0x4d09, 0x4d11, 0x4d19, 0x4d21, 0x4d29, 0x4d31, 0x4d39, 0x4d41,
    0x4d49, 0x4d51, 0x4d59, 0x4d61, 0x4d69, 0x4d71, 0x4d79, 0x4d81,
    0x4d89, 0x4d91, 0x4d99, 0x4da1, 0x4da9, 0x4db1, 0x4db9, 0x4dc1,
    0x4dc9, 0x4dd1, 0x4dd9, 0x4de1, 0x4de9, 0x4df1, 0x4df9, 0x4e01,
    0x4e09, 0x4e11, 0x4e19, 0x4e21, 0x4e29, 0x4e31, 0x4e39, 0x4e41,
    0x4e49, 0x4e51, 0x4e59, 0x4e61, 0x4e69, 0x4e71, 0x4e79, 0x4e81,
    0x4e89, 0x4e91, 0x4e99, 0x4ea1, 0x4ea9, 0x4eb1, 0x4eb9, 0x4ec1,
    0x4ec9, 0x4ed1, 0x4ed9, 0x4ee1, 0x4ee9, 0x4ef1, 0x4ef9, 0x4f01,
    0x4f09, 0x4f11, 0x4f19, 0x4f21, 0x4f29, 0x4f31, 0x4f39, 0x4f41,
    0x4f49, 0x4f51, 0x4f59, 0x4f61, 0x4f69, 0x4f71, 0x0, 0x0,
    0x4f79, 0x0, 0x4f81, 0x0, 0x0, 0x4f89, 0x4f91, 0x4f99,
    0x4fa1, 0x4fa9, 0x4fb1, 0x4fb9, 0x4fc1, 0x4fc9, 0x4fd1, 0x0,
    0x4fd9, 0x0, 0x4fe1, 0x0, 0x0, 0x4fe9, 0x4ff1, 0x0,
    0x0, 0x0, 0x4ff9, 0x5001, 0x5009, 0x5011, 0x5019, 0x5021]"

definition nfd_trie_12 :: "nat list" where
  "nfd_trie_12 =
   [0x5029, 0x5031, 0x5039, 0x5041, 0x5049, 0x5051, 0x5059, 0x5061,
    0x5069, 0x5071, 0x5079, 0x5081, 0x5089, 0x5091, 0x5099, 0x50a1,
    0x50a9, 0x50b1, 0x50b9, 0x50c1, 0x50c9, 0x50d1, 0x50d9, 0x50e1,
    0x50e9, 0x50f1, 0x50f9, 0x5101, 0x5109, 0x5111, 0x5119, 0x5121,
    0x5129, 0x5131, 0x5139, 0x5141, 0x5149, 0x5151, 0x5159, 0x5161,
    0x5169, 0x5171, 0x5179, 0x5181, 0x5189, 0x5191, 0x5199, 0x51a1,
    0x51a9, 0x51b1, 0x51b9, 0x51c1, 0x51c9, 0x51d1, 0x51d9, 0x51e1,
    0x51e9, 0x51f1, 0x51f9, 0x5201, 0x5209, 0x5211, 0x0, 0x0,
    0x5219, 0x5221, 0x5229, 0x5231, 0x5239, 0x5241, 0x5249, 0x5251,
    0x5259, 0x5261, 0x5269, 0x5271, 0x5279, 0x5281, 0x5289, 0x5291,
    0x5299, 0x52a1, 0x52a9, 0x52b1, 0x52b9, 0x52c1, 0x52c9, 0x52d1,
    0x52d9, 0x52e1, 0x52e9, 0x52f1, 0x52f9, 0x5301, 0x5309, 0x5311,
    0x5319, 0x5321, 0x5329, 0x5331, 0x5339, 0x5341, 0x5349, 0x5351,
    0x5359, 0x5361, 0x5369, 0x5371, 0x5379, 0x5381, 0x5389, 0x5391,
    0x5399, 0x53a1, 0x53a9, 0x53b1, 0x53b9, 0x53c1, 0x53c9, 0x53d1,
    0x53d9, 0x53e1, 0x53e9, 0x53f1, 0x53f9, 0x5401, 0x5409, 0x5411,
    0x5419, 0x5421, 0x5429, 0x5431, 0x5439, 0x5441, 0x5449, 0x5451,
    0x5459, 0x5461, 0x5469, 0x5471, 0x5479, 0x5481, 0x5489, 0x5491,
    0x5499, 0x54a1, 0x54a9, 0x54b1, 0x54b9, 0x54c1, 0x54c9, 0x54d1,
    0x54d9, 0x54e1, 0x54e9, 0x54f1, 0x54f9, 0x5501, 0x5509, 0x5511,
    0x5519, 0x5521, 0x5529, 0x5531, 0x5539, 0x5541, 0x5549, 0x5551,
    0x5559, 0x5561, 0x0, 0x0, 0x0, 0x0, 0x0, 0x0,
    0x0, 0x0, 0x0, 0x0, 0x0, 0x0, 0x0, 0x0,
    0x0, 0x0, 0x0, 0x0, 0x0, 0x556a, 0x0, 0x557a,
    0x0, 0x0, 0x0, 0x0, 0x0, 0x0, 0x0, 0x0,
    0x0, 0x0, 0x558a, 0x559a, 0x55ab, 0x55c3, 0x55da, 0x55ea,
    0x55fa, 0x560a, 0x561a, 0x562a, 0x563a, 0x564a, 0x565a, 0x0,
    0x566a, 0x567a, 0x568a, 0x569a, 0x56aa, 0x0, 0x56ba, 0x0,
    0x56ca, 0x56da, 0x0, 0x56ea, 0x56fa, 0x0, 0x570a, 0x571a,
    0x572a, 0x573a, 0x574a, 0x575a, 0x576a, 0x577a, 0x578a, 0x0,
    0x0, 0x0, 0x0, 0x0, 0x0, 0x0, 0x0, 0x0,
    0x0, 0x0, 0x579a, 0x0, 0x57aa, 0x0, 0x0, 0x0]"

definition nfd_trie_13 :: "nat list" where
  "nfd_trie_13 =
   [0x0, 0x0, 0x0, 0x0, 0x0, 0x0, 0x0, 0x0,
    0x0, 0x0, 0x0, 0x57ba, 0x0, 0x0, 0x0, 0x0,
    0x0, 0x0, 0x0, 0x0, 0x0, 0x0, 0x0, 0x0,
    0x0, 0x0, 0x0, 0x0, 0x0, 0x0, 0x57ca, 0x57da,
    0x0, 0x0, 0x0, 0x0, 0x0, 0x0, 0x0, 0x0,
    0x0, 0x0, 0x0, 0x57ea, 0x57fa, 0x0, 0x0, 0x0,
    0x0, 0x0, 0x0, 0x0, 0x0, 0x0, 0x0, 0x0,
    0x0, 0x0, 0x0, 0x580a, 0x581a, 0x0, 0x582a, 0x0,
    0x0, 0x0, 0x0, 0x0, 0x0, 0x0, 0x0, 0x0,
    0x0, 0x0, 0x583a, 0x584a, 0x0, 0x0, 0x0, 0x0,
    0x0, 0x0, 0x0, 0x0, 0x0, 0x0, 0x0, 0x0,
    0x0, 0x0, 0x0, 0x0, 0x0, 0x0, 0x585a, 0x586a,
    0x587b, 0x5893, 0x58ab, 0x58c3, 0x58db, 0x0, 0x0, 0x0,
    0x0, 0x0, 0x0, 0x0, 0x0, 0x0, 0x0, 0x0,
    0x0, 0x0, 0x0, 0x0, 0x0, 0x0, 0x0, 0x0,
    0x0, 0x0, 0x0, 0x58f2, 0x5902, 0x5913, 0x592b, 0x5943,
    0x595b, 0x0, 0x0, 0x0, 0x0, 0x0, 0x0, 0x0,
    0x0, 0x0, 0x0, 0x0, 0x0, 0x0, 0x0, 0x0,
    0x5971, 0x5979, 0x5981, 0x5989, 0x5991, 0x5999, 0x59a1, 0x59a9,
    0x59b1, 0x59b9, 0x59c1, 0x59c9, 0x59d1, 0x59d9, 0x59e1, 0x59e9,
    0x59f1, 0x59f9, 0x5a01, 0x5a09, 0x5a11, 0x5a19, 0x5a21, 0x5a29,
    0x5a31, 0x5a39, 0x5a41, 0x5a49, 0x5a51, 0x5a59, 0x5a61, 0x5a69,
    0x5a71, 0x5a79, 0x5a81, 0x5a89, 0x5a91, 0x5a99, 0x5aa1, 0x5aa9,
    0x5ab1, 0x5ab9, 0x5ac1, 0x5ac9, 0x5ad1, 0x5ad9, 0x5ae1, 0x5ae9,
    0x5af1, 0x5af9, 0x5b01, 0x5b09, 0x5b11, 0x5b19, 0x5b21, 0x5b29,
    0x5b31, 0x5b39, 0x5b41, 0x5b49, 0x5b51, 0x5b59, 0x5b61, 0x5b69,
    0x5b71, 0x5b79, 0x5b81, 0x5b89, 0x5b91, 0x5b99, 0x5ba1, 0x5ba9,
    0x5bb1, 0x5bb9, 0x5bc1, 0x5bc9, 0x5bd1, 0x5bd9, 0x5be1, 0x5be9,
    0x5bf1, 0x5bf9, 0x5c01, 0x5c09, 0x5c11, 0x5c19, 0x5c21, 0x5c29,
    0x5c31, 0x5c39, 0x5c41, 0x5c49, 0x5c51, 0x5c59, 0x5c61, 0x5c69,
    0x5c71, 0x5c79, 0x5c81, 0x5c89, 0x5c91, 0x5c99, 0x5ca1, 0x5ca9,
    0x5cb1, 0x5cb9, 0x5cc1, 0x5cc9, 0x5cd1, 0x5cd9, 0x5ce1, 0x5ce9]"

definition nfd_trie_14 :: "nat list" where
  "nfd_trie_14 =
   [0x5cf1, 0x5cf9, 0x5d01, 0x5d09, 0x5d11, 0x5d19, 0x5d21, 0x5d29,
    0x5d31, 0x5d39, 0x5d41, 0x5d49, 0x5d51, 0x5d59, 0x5d61, 0x5d69,
    0x5d71, 0x5d79, 0x5d81, 0x5d89, 0x5d91, 0x5d99, 0x5da1, 0x5da9,
    0x5db1, 0x5db9, 0x5dc1, 0x5dc9, 0x5dd1, 0x5dd9, 0x5de1, 0x5de9,
    0x5df1, 0x5df9, 0x5e01, 0x5e09, 0x5e11, 0x5e19, 0x5e21, 0x5e29,
    0x5e31, 0x5e39, 0x5e41, 0x5e49, 0x5e51, 0x5e59, 0x5e61, 0x5e69,
    0x5e71, 0x5e79, 0x5e81, 0x5e89, 0x5e91, 0x5e99, 0x5ea1, 0x5ea9,
    0x5eb1, 0x5eb9, 0x5ec1, 0x5ec9, 0x5ed1, 0x5ed9, 0x5ee1, 0x5ee9,
    0x5ef1, 0x5ef9, 0x5f01, 0x5f09, 0x5f11, 0x5f19, 0x5f21, 0x5f29,
    0x5f31, 0x5f39, 0x5f41, 0x5f49, 0x5f51, 0x5f59, 0x5f61, 0x5f69,
    0x5f71, 0x5f79, 0x5f81, 0x5f89, 0x5f91, 0x5f99, 0x5fa1, 0x5fa9,
    0x5fb1, 0x5fb9, 0x5fc1, 0x5fc9, 0x5fd1, 0x5fd9, 0x5fe1, 0x5fe9,
    0x5ff1, 0x5ff9, 0x6001, 0x6009, 0x6011, 0x6019, 0x6021, 0x6029,
    0x6031, 0x6039, 0x6041, 0x6049, 0x6051, 0x6059, 0x6061, 0x6069,
    0x6071, 0x6079, 0x6081, 0x6089, 0x6091, 0x6099, 0x60a1, 0x60a9,
    0x60b1, 0x60b9, 0x60c1, 0x60c9, 0x60d1, 0x60d9, 0x60e1, 0x60e9,
    0x60f1, 0x60f9, 0x6101, 0x6109, 0x6111, 0x6119, 0x6121, 0x6129,
    0x6131, 0x6139, 0x6141, 0x6149, 0x6151, 0x6159, 0x6161, 0x6169,
    0x6171, 0x6179, 0x6181, 0x6189, 0x6191, 0x6199, 0x61a1, 0x61a9,
    0x61b1, 0x61b9, 0x61c1, 0x61c9, 0x61d1, 0x61d9, 0x61e1, 0x61e9,
    0x61f1, 0x61f9, 0x6201, 0x6209, 0x6211, 0x6219, 0x6221, 0x6229,
    0x6231, 0x6239, 0x6241, 0x6249, 0x6251, 0x6259, 0x6261, 0x6269,
    0x6271, 0x6279, 0x6281, 0x6289, 0x6291, 0x6299, 0x62a1, 0x62a9,
    0x62b1, 0x62b9, 0x62c1, 0x62c9, 0x62d1, 0x62d9, 0x62e1, 0x62e9,
    0x62f1, 0x62f9, 0x6301, 0x6309, 0x6311, 0x6319, 0x6321, 0x6329,
    0x6331, 0x6339, 0x6341, 0x6349, 0x6351, 0x6359, 0x6361, 0x6369,
    0x6371, 0x6379, 0x6381, 0x6389, 0x6391, 0x6399, 0x63a1, 0x63a9,
    0x63b1, 0x63b9, 0x63c1, 0x63c9, 0x63d1, 0x63d9, 0x63e1, 0x63e9,
    0x63f1, 0x63f9, 0x6401, 0x6409, 0x6411, 0x6419, 0x6421, 0x6429,
    0x6431, 0x6439, 0x6441, 0x6449, 0x6451, 0x6459, 0x6461, 0x6469,
    0x6471, 0x6479, 0x6481, 0x6489, 0x6491, 0x6499, 0x64a1, 0x64a9,
    0x64b1, 0x64b9, 0x64c1, 0x64c9, 0x64d1, 0x64d9, 0x64e1, 0x64e9]"

definition nfd_trie_15 :: "nat list" where
  "nfd_trie_15 =
   [0x64f1, 0x64f9, 0x6501, 0x6509, 0x6511, 0x6519, 0x6521, 0x6529,
    0x6531, 0x6539, 0x6541, 0x6549, 0x6551, 0x6559, 0x6561, 0x6569,
    0x6571, 0x6579, 0x6581, 0x6589, 0x6591, 0x6599, 0x65a1, 0x65a9,
    0x65b1, 0x65b9, 0x65c1, 0x65c9, 0x65d1, 0x65d9, 0x65e1, 0x65e9,
    0x65f1, 0x65f9, 0x6601, 0x6609, 0x6611, 0x6619, 0x6621, 0x6629,
    0x6631, 0x6639, 0x6641, 0x6649, 0x6651, 0x6659, 0x6661, 0x6669,
    0x6671, 0x6679, 0x6681, 0x6689, 0x6691, 0x6699, 0x66a1, 0x66a9,
    0x66b1, 0x66b9, 0x66c1, 0x66c9, 0x66d1, 0x66d9, 0x66e1, 0x66e9,
    0x66f1, 0x66f9, 0x6701, 0x6709, 0x6711, 0x6719, 0x6721, 0x6729,
    0x6731, 0x6739, 0x6741, 0x6749, 0x6751, 0x6759, 0x6761, 0x6769,
    0x6771, 0x6779, 0x6781, 0x6789, 0x6791, 0x6799, 0x67a1, 0x67a9,
    0x67b1, 0x67b9, 0x67c1, 0x67c9, 0x67d1, 0x67d9, 0x67e1, 0x67e9,
    0x67f1, 0x67f9, 0x6801, 0x6809, 0x6811, 0x6819, 0x6821, 0x6829,
    0x6831, 0x6839, 0x6841, 0x6849, 0x6851, 0x6859, 0x6861, 0x6869,
    0x6871, 0x6879, 0x6881, 0x6889, 0x6891, 0x6899, 0x68a1, 0x68a9,
    0x68b1, 0x68b9, 0x68c1, 0x68c9, 0x68d1, 0x68d9, 0x68e1, 0x68e9,
    0x68f1, 0x68f9, 0x6901, 0x6909, 0x6911, 0x6919, 0x6921, 0x6929,
    0x6931, 0x6939, 0x6941, 0x6949, 0x6951, 0x6959, 0x6961, 0x6969,
    0x6971, 0x6979, 0x6981, 0x6989, 0x6991, 0x6999, 0x69a1, 0x69a9,
    0x69b1, 0x69b9, 0x69c1, 0x69c9, 0x69d1, 0x69d9, 0x69e1, 0x69e9,
    0x69f1, 0x69f9, 0x6a01, 0x6a09, 0x6a11, 0x6a19, 0x6a21, 0x6a29,
    0x6a31, 0x6a39, 0x6a41, 0x6a49, 0x6a51, 0x6a59, 0x0, 0x0]"

definition nfd_trie_blocks :: "nat list list" where
  "nfd_trie_blocks = [nfd_trie_0, nfd_trie_1, nfd_trie_2, nfd_trie_3, nfd_trie_4, nfd_trie_5, nfd_trie_6, nfd_trie_7, nfd_trie_8, nfd_trie_9, nfd_trie_10, nfd_trie_11, nfd_trie_12, nfd_trie_13, nfd_trie_14, nfd_trie_15]"

definition nfd_0 :: "u32 list" where
  "nfd_0 =
   [0x41, 0x300, 0x41, 0x301, 0x41, 0x302,
    0x41, 0x303, 0x41, 0x308, 0x41, 0x30a,
    0x43, 0x327, 0x45, 0x300, 0x45, 0x301,
    0x45, 0x302, 0x45, 0x308, 0x49, 0x300,
    0x49, 0x301, 0x49, 0x302, 0x49, 0x308,
    0x4e, 0x303, 0x4f, 0x300, 0x4f, 0x301,
    0x4f, 0x302, 0x4f, 0x303, 0x4f, 0x308,
    0x55, 0x300, 0x55, 0x301, 0x55, 0x302,
    0x55, 0x308, 0x59, 0x301, 0x61, 0x300,
    0x61, 0x301, 0x61, 0x302, 0x61, 0x303,
    0x61, 0x308, 0x61, 0x30a, 0x63, 0x327,
    0x65, 0x300, 0x65, 0x301, 0x65, 0x302,
    0x65, 0x308, 0x69, 0x300, 0x69, 0x301,
    0x69, 0x302, 0x69, 0x308, 0x6e, 0x303,
    0x6f, 0x300, 0x6f, 0x301, 0x6f, 0x302,
    0x6f, 0x303, 0x6f, 0x308, 0x75, 0x300,
    0x75, 0x301, 0x75, 0x302, 0x75, 0x308,
    0x79, 0x301, 0x79, 0x308, 0x41, 0x304,
    0x61, 0x304, 0x41, 0x306, 0x61, 0x306,
    0x41, 0x328, 0x61, 0x328, 0x43, 0x301,
    0x63, 0x301, 0x43, 0x302, 0x63, 0x302,
    0x43, 0x307, 0x63, 0x307, 0x43, 0x30c,
    0x63, 0x30c, 0x44, 0x30c, 0x64, 0x30c,
    0x45, 0x304, 0x65, 0x304, 0x45, 0x306,
    0x65, 0x306, 0x45, 0x307, 0x65, 0x307,
    0x45, 0x328, 0x65, 0x328, 0x45, 0x30c,
    0x65, 0x30c, 0x47, 0x302, 0x67, 0x302,
    0x47, 0x306, 0x67, 0x306, 0x47, 0x307,
    0x67, 0x307, 0x47, 0x327, 0x67, 0x327,
    0x48, 0x302, 0x68, 0x302, 0x49, 0x303,
    0x69, 0x303, 0x49, 0x304, 0x69, 0x304,
    0x49, 0x306, 0x69, 0x306, 0x49, 0x328,
    0x69, 0x328, 0x49, 0x307, 0x4a, 0x302,
    0x6a, 0x302, 0x4b, 0x327, 0x6b, 0x327,
    0x4c, 0x301, 0x6c, 0x301, 0x4c, 0x327,
    0x6c, 0x327, 0x4c, 0x30c, 0x6c, 0x30c,
    0x4e, 0x301, 0x6e, 0x301, 0x4e, 0x327,
    0x6e, 0x327, 0x4e, 0x30c, 0x6e, 0x30c,
    0x4f, 0x304, 0x6f, 0x304, 0x4f, 0x306,
    0x6f, 0x306, 0x4f, 0x30b, 0x6f, 0x30b]"

definition nfd_1 :: "u32 list" where
  "nfd_1 =
   [0x52, 0x301, 0x72, 0x301, 0x52, 0x327,
    0x72, 0x327, 0x52, 0x30c, 0x72, 0x30c,
    0x53, 0x301, 0x73, 0x301, 0x53, 0x302,
    0x73, 0x302, 0x53, 0x327, 0x73, 0x327,
    0x53, 0x30c, 0x73, 0x30c, 0x54, 0x327,
    0x74, 0x327, 0x54, 0x30c, 0x74, 0x30c,
    0x55, 0x303, 0x75, 0x303, 0x55, 0x304,
    0x75, 0x304, 0x55, 0x306, 0x75, 0x306,
    0x55, 0x30a, 0x75, 0x30a, 0x55, 0x30b,
    0x75, 0x30b, 0x55, 0x328, 0x75, 0x328,
    0x57, 0x302, 0x77, 0x302, 0x59, 0x302,
    0x79, 0x302, 0x59, 0x308, 0x5a, 0x301,
    0x7a, 0x301, 0x5a, 0x307, 0x7a, 0x307,
    0x5a, 0x30c, 0x7a, 0x30c, 0x4f, 0x31b,
    0x6f, 0x31b, 0x55, 0x31b, 0x75, 0x31b,
    0x41, 0x30c, 0x61, 0x30c, 0x49, 0x30c,
    0x69, 0x30c, 0x4f, 0x30c, 0x6f, 0x30c,
    0x55, 0x30c, 0x75, 0x30c, 0x55, 0x308,
    0x304, 0x75, 0x308, 0x304, 0x55, 0x308,
    0x301, 0x75, 0x308, 0x301, 0x55, 0x308,
    0x30c, 0x75, 0x308, 0x30c, 0x55, 0x308,
    0x300, 0x75, 0x308, 0x300, 0x41, 0x308,
    0x304, 0x61, 0x308, 0x304, 0x41, 0x307,
    0x304, 0x61, 0x307, 0x304, 0xc6, 0x304,
    0xe6, 0x304, 0x47, 0x30c, 0x67, 0x30c,
    0x4b, 0x30c, 0x6b, 0x30c, 0x4f, 0x328,
    0x6f, 0x328, 0x4f, 0x328, 0x304, 0x6f,
    0x328, 0x304, 0x1b7, 0x30c, 0x292, 0x30c,
    0x6a, 0x30c, 0x47, 0x301, 0x67, 0x301,
    0x4e, 0x300, 0x6e, 0x300, 0x41, 0x30a,
    0x301, 0x61, 0x30a, 0x301, 0xc6, 0x301,
    0xe6, 0x301, 0xd8, 0x301, 0xf8, 0x301,
    0x41, 0x30f, 0x61, 0x30f, 0x41, 0x311,
    0x61, 0x311, 0x45, 0x30f, 0x65, 0x30f,
    0x45, 0x311, 0x65, 0x311, 0x49, 0x30f,
    0x69, 0x30f, 0x49, 0x311, 0x69, 0x311,
    0x4f, 0x30f, 0x6f, 0x30f, 0x4f, 0x311,
    0x6f, 0x311, 0x52, 0x30f, 0x72, 0x30f,
    0x52, 0x311, 0x72, 0x311, 0x55, 0x30f,
    0x75, 0x30f, 0x55, 0x311, 0x75, 0x311]"

definition nfd_2 :: "u32 list" where
  "nfd_2 =
   [0x53, 0x326, 0x73, 0x326, 0x54, 0x326,
    0x74, 0x326, 0x48, 0x30c, 0x68, 0x30c,
    0x41, 0x307, 0x61, 0x307, 0x45, 0x327,
    0x65, 0x327, 0x4f, 0x308, 0x304, 0x6f,
    0x308, 0x304, 0x4f, 0x303, 0x304, 0x6f,
    0x303, 0x304, 0x4f, 0x307, 0x6f, 0x307,
    0x4f, 0x307, 0x304, 0x6f, 0x307, 0x304,
    0x59, 0x304, 0x79, 0x304, 0x300, 0x301,
    0x313, 0x308, 0x301, 0x2b9, 0x3b, 0xa8,
    0x301, 0x391, 0x301, 0xb7, 0x395, 0x301,
    0x397, 0x301, 0x399, 0x301, 0x39f, 0x301,
    0x3a5, 0x301, 0x3a9, 0x301, 0x3b9, 0x308,
    0x301, 0x399, 0x308, 0x3a5, 0x308, 0x3b1,
    0x301, 0x3b5, 0x301, 0x3b7, 0x301, 0x3b9,
    0x301, 0x3c5, 0x308, 0x301, 0x3b9, 0x308,
    0x3c5, 0x308, 0x3bf, 0x301, 0x3c5, 0x301,
    0x3c9, 0x301, 0x3d2, 0x301, 0x3d2, 0x308,
    0x415, 0x300, 0x415, 0x308, 0x413, 0x301,
    0x406, 0x308, 0x41a, 0x301, 0x418, 0x300,
    0x423, 0x306, 0x418, 0x306, 0x438, 0x306,
    0x435, 0x300, 0x435, 0x308, 0x433, 0x301,
    0x456, 0x308, 0x43a, 0x301, 0x438, 0x300,
    0x443, 0x306, 0x474, 0x30f, 0x475, 0x30f,
    0x416, 0x306, 0x436, 0x306, 0x410, 0x306,
    0x430, 0x306, 0x410, 0x308, 0x430, 0x308,
    0x415, 0x306, 0x435, 0x306, 0x4d8, 0x308,
    0x4d9, 0x308, 0x416, 0x308, 0x436, 0x308,
    0x417, 0x308, 0x437, 0x308, 0x418, 0x304,
    0x438, 0x304, 0x418, 0x308, 0x438, 0x308,
    0x41e, 0x308, 0x43e, 0x308, 0x4e8, 0x308,
    0x4e9, 0x308, 0x42d, 0x308, 0x44d, 0x308,
    0x423, 0x304, 0x443, 0x304, 0x423, 0x308,
    0x443, 0x308, 0x423, 0x30b, 0x443, 0x30b,
    0x427, 0x308, 0x447, 0x308, 0x42b, 0x308,
    0x44b, 0x308, 0x627, 0x653, 0x627, 0x654,
    0x648, 0x654, 0x627, 0x655, 0x64a, 0x654,
    0x6d5, 0x654, 0x6c1, 0x654, 0x6d2, 0x654,
    0x928, 0x93c, 0x930, 0x93c, 0x933, 0x93c,
    0x915, 0x93c, 0x916, 0x93c, 0x917, 0x93c,
    0x91c, 0x93c, 0x921, 0x93c, 0x922, 0x93c]"

definition nfd_3 :: "u32 list" where
  "nfd_3 =
   [0x92b, 0x93c, 0x92f, 0x93c, 0x9c7, 0x9be,
    0x9c7, 0x9d7, 0x9a1, 0x9bc, 0x9a2, 0x9bc,
    0x9af, 0x9bc, 0xa32, 0xa3c, 0xa38, 0xa3c,
    0xa16, 0xa3c, 0xa17, 0xa3c, 0xa1c, 0xa3c,
    0xa2b, 0xa3c, 0xb47, 0xb56, 0xb47, 0xb3e,
    0xb47, 0xb57, 0xb21, 0xb3c, 0xb22, 0xb3c,
    0xb92, 0xbd7, 0xbc6, 0xbbe, 0xbc7, 0xbbe,
    0xbc6, 0xbd7, 0xc46, 0xc56, 0xcbf, 0xcd5,
    0xcc6, 0xcd5, 0xcc6, 0xcd6, 0xcc6, 0xcc2,
    0xcc6, 0xcc2, 0xcd5, 0xd46, 0xd3e, 0xd47,
    0xd3e, 0xd46, 0xd57, 0xdd9, 0xdca, 0xdd9,
    0xdcf, 0xdd9, 0xdcf, 0xdca, 0xdd9, 0xddf,
    0xf42, 0xfb7, 0xf4c, 0xfb7, 0xf51, 0xfb7,
    0xf56, 0xfb7, 0xf5b, 0xfb7, 0xf40, 0xfb5,
    0xf71, 0xf72, 0xf71, 0xf74, 0xfb2, 0xf80,
    0xfb3, 0xf80, 0xf71, 0xf80, 0xf92, 0xfb7,
    0xf9c, 0xfb7, 0xfa1, 0xfb7, 0xfa6, 0xfb7,
    0xfab, 0xfb7, 0xf90, 0xfb5, 0x1025, 0x102e,
    0x1b05, 0x1b35, 0x1b07, 0x1b35, 0x1b09, 0x1b35,
    0x1b0b, 0x1b35, 0x1b0d, 0x1b35, 0x1b11, 0x1b35,
    0x1b3a, 0x1b35, 0x1b3c, 0x1b35, 0x1b3e, 0x1b35,
    0x1b3f, 0x1b35, 0x1b42, 0x1b35, 0x41, 0x325,
    0x61, 0x325, 0x42, 0x307, 0x62, 0x307,
    0x42, 0x323, 0x62, 0x323, 0x42, 0x331,
    0x62, 0x331, 0x43, 0x327, 0x301, 0x63,
    0x327, 0x301, 0x44, 0x307, 0x64, 0x307,
    0x44, 0x323, 0x64, 0x323, 0x44, 0x331,
    0x64, 0x331, 0x44, 0x327, 0x64, 0x327,
    0x44, 0x32d, 0x64, 0x32d, 0x45, 0x304,
    0x300, 0x65, 0x304, 0x300, 0x45, 0x304,
    0x301, 0x65, 0x304, 0x301, 0x45, 0x32d,
    0x65, 0x32d, 0x45, 0x330, 0x65, 0x330,
    0x45, 0x327, 0x306, 0x65, 0x327, 0x306,
    0x46, 0x307, 0x66, 0x307, 0x47, 0x304,
    0x67, 0x304, 0x48, 0x307, 0x68, 0x307,
    0x48, 0x323, 0x68, 0x323, 0x48, 0x308,
    0x68, 0x308, 0x48, 0x327, 0x68, 0x327,
    0x48, 0x32e, 0x68, 0x32e, 0x49, 0x330,
    0x69, 0x330, 0x49, 0x308, 0x301, 0x69,
    0x308, 0x301, 0x4b, 0x301, 0x6b, 0x301]"

definition nfd_4 :: "u32 list" where
  "nfd_4 =
   [0x4b, 0x323, 0x6b, 0x323, 0x4b, 0x331,
    0x6b, 0x331, 0x4c, 0x323, 0x6c, 0x323,
    0x4c, 0x323, 0x304, 0x6c, 0x323, 0x304,
    0x4c, 0x331, 0x6c, 0x331, 0x4c, 0x32d,
    0x6c, 0x32d, 0x4d, 0x301, 0x6d, 0x301,
    0x4d, 0x307, 0x6d, 0x307, 0x4d, 0x323,
    0x6d, 0x323, 0x4e, 0x307, 0x6e, 0x307,
    0x4e, 0x323, 0x6e, 0x323, 0x4e, 0x331,
    0x6e, 0x331, 0x4e, 0x32d, 0x6e, 0x32d,
    0x4f, 0x303, 0x301, 0x6f, 0x303, 0x301,
    0x4f, 0x303, 0x308, 0x6f, 0x303, 0x308,
    0x4f, 0x304, 0x300, 0x6f, 0x304, 0x300,
    0x4f, 0x304, 0x301, 0x6f, 0x304, 0x301,
    0x50, 0x301, 0x70, 0x301, 0x50, 0x307,
    0x70, 0x307, 0x52, 0x307, 0x72, 0x307,
    0x52, 0x323, 0x72, 0x323, 0x52, 0x323,
    0x304, 0x72, 0x323, 0x304, 0x52, 0x331,
    0x72, 0x331, 0x53, 0x307, 0x73, 0x307,
    0x53, 0x323, 0x73, 0x323, 0x53, 0x301,
    0x307, 0x73, 0x301, 0x307, 0x53, 0x30c,
    0x307, 0x73, 0x30c, 0x307, 0x53, 0x323,
    0x307, 0x73, 0x323, 0x307, 0x54, 0x307,
    0x74, 0x307, 0x54, 0x323, 0x74, 0x323,
    0x54, 0x331, 0x74, 0x331, 0x54, 0x32d,
    0x74, 0x32d, 0x55, 0x324, 0x75, 0x324,
    0x55, 0x330, 0x75, 0x330, 0x55, 0x32d,
    0x75, 0x32d, 0x55, 0x303, 0x301, 0x75,
    0x303, 0x301, 0x55, 0x304, 0x308, 0x75,
    0x304, 0x308, 0x56, 0x303, 0x76, 0x303,
    0x56, 0x323, 0x76, 0x323, 0x57, 0x300,
    0x77, 0x300, 0x57, 0x301, 0x77, 0x301,
    0x57, 0x308, 0x77, 0x308, 0x57, 0x307,
    0x77, 0x307, 0x57, 0x323, 0x77, 0x323,
    0x58, 0x307, 0x78, 0x307, 0x58, 0x308,
    0x78, 0x308, 0x59, 0x307, 0x79, 0x307,
    0x5a, 0x302, 0x7a, 0x302, 0x5a, 0x323,
    0x7a, 0x323, 0x5a, 0x331, 0x7a, 0x331,
    0x68, 0x331, 0x74, 0x308, 0x77, 0x30a,
    0x79, 0x30a, 0x17f, 0x307, 0x41, 0x323,
    0x61, 0x323, 0x41, 0x309, 0x61, 0x309]"

definition nfd_5 :: "u32 list" where
  "nfd_5 =
   [0x41, 0x302, 0x301, 0x61, 0x302, 0x301,
    0x41, 0x302, 0x300, 0x61, 0x302, 0x300,
    0x41, 0x302, 0x309, 0x61, 0x302, 0x309,
    0x41, 0x302, 0x303, 0x61, 0x302, 0x303,
    0x41, 0x323, 0x302, 0x61, 0x323, 0x302,
    0x41, 0x306, 0x301, 0x61, 0x306, 0x301,
    0x41, 0x306, 0x300, 0x61, 0x306, 0x300,
    0x41, 0x306, 0x309, 0x61, 0x306, 0x309,
    0x41, 0x306, 0x303, 0x61, 0x306, 0x303,
    0x41, 0x323, 0x306, 0x61, 0x323, 0x306,
    0x45, 0x323, 0x65, 0x323, 0x45, 0x309,
    0x65, 0x309, 0x45, 0x303, 0x65, 0x303,
    0x45, 0x302, 0x301, 0x65, 0x302, 0x301,
    0x45, 0x302, 0x300, 0x65, 0x302, 0x300,
    0x45, 0x302, 0x309, 0x65, 0x302, 0x309,
    0x45, 0x302, 0x303, 0x65, 0x302, 0x303,
    0x45, 0x323, 0x302, 0x65, 0x323, 0x302,
    0x49, 0x309, 0x69, 0x309, 0x49, 0x323,
    0x69, 0x323, 0x4f, 0x323, 0x6f, 0x323,
    0x4f, 0x309, 0x6f, 0x309, 0x4f, 0x302,
    0x301, 0x6f, 0x302, 0x301, 0x4f, 0x302,
    0x300, 0x6f, 0x302, 0x300, 0x4f, 0x302,
    0x309, 0x6f, 0x302, 0x309, 0x4f, 0x302,
    0x303, 0x6f, 0x302, 0x303, 0x4f, 0x323,
    0x302, 0x6f, 0x323, 0x302, 0x4f, 0x31b,
    0x301, 0x6f, 0x31b, 0x301, 0x4f, 0x31b,
    0x300, 0x6f, 0x31b, 0x300, 0x4f, 0x31b,
    0x309, 0x6f, 0x31b, 0x309, 0x4f, 0x31b,
    0x303, 0x6f, 0x31b, 0x303, 0x4f, 0x31b,
    0x323, 0x6f, 0x31b, 0x323, 0x55, 0x323,
    0x75, 0x323, 0x55, 0x309, 0x75, 0x309,
    0x55, 0x31b, 0x301, 0x75, 0x31b, 0x301,
    0x55, 0x31b, 0x300, 0x75, 0x31b, 0x300,
    0x55, 0x31b, 0x309, 0x75, 0x31b, 0x309,
    0x55, 0x31b, 0x303, 0x75, 0x31b, 0x303,
    0x55, 0x31b, 0x323, 0x75, 0x31b, 0x323,
    0x59, 0x300, 0x79, 0x300, 0x59, 0x323,
    0x79, 0x323, 0x59, 0x309, 0x79, 0x309,
    0x59, 0x303, 0x79, 0x303, 0x3b1, 0x313,
    0x3b1, 0x314, 0x3b1, 0x313, 0x300, 0x3b1]"

definition nfd_6 :: "u32 list" where
  "nfd_6 =
   [0x314, 0x300, 0x3b1, 0x313, 0x301, 0x3b1,
    0x314, 0x301, 0x3b1, 0x313, 0x342, 0x3b1,
    0x314, 0x342, 0x391, 0x313, 0x391, 0x314,
    0x391, 0x313, 0x300, 0x391, 0x314, 0x300,
    0x391, 0x313, 0x301, 0x391, 0x314, 0x301,
    0x391, 0x313, 0x342, 0x391, 0x314, 0x342,
    0x3b5, 0x313, 0x3b5, 0x314, 0x3b5, 0x313,
    0x300, 0x3b5, 0x314, 0x300, 0x3b5, 0x313,
    0x301, 0x3b5, 0x314, 0x301, 0x395, 0x313,
    0x395, 0x314, 0x395, 0x313, 0x300, 0x395,
    0x314, 0x300, 0x395, 0x313, 0x301, 0x395,
    0x314, 0x301, 0x3b7, 0x313, 0x3b7, 0x314,
    0x3b7, 0x313, 0x300, 0x3b7, 0x314, 0x300,
    0x3b7, 0x313, 0x301, 0x3b7, 0x314, 0x301,
    0x3b7, 0x313, 0x342, 0x3b7, 0x314, 0x342,
    0x397, 0x313, 0x397, 0x314, 0x397, 0x313,
    0x300, 0x397, 0x314, 0x300, 0x397, 0x313,
    0x301, 0x397, 0x314, 0x301, 0x397, 0x313,
    0x342, 0x397, 0x314, 0x342, 0x3b9, 0x313,
    0x3b9, 0x314, 0x3b9, 0x313, 0x300, 0x3b9,
    0x314, 0x300, 0x3b9, 0x313, 0x301, 0x3b9,
    0x314, 0x301, 0x3b9, 0x313, 0x342, 0x3b9,
    0x314, 0x342, 0x399, 0x313, 0x399, 0x314,
    0x399, 0x313, 0x300, 0x399, 0x314, 0x300,
    0x399, 0x313, 0x301, 0x399, 0x314, 0x301,
    0x399, 0x313, 0x342, 0x399, 0x314, 0x342,
    0x3bf, 0x313, 0x3bf, 0x314, 0x3bf, 0x313,
    0x300, 0x3bf, 0x314, 0x300, 0x3bf, 0x313,
    0x301, 0x3bf, 0x314, 0x301, 0x39f, 0x313,
    0x39f, 0x314, 0x39f, 0x313, 0x300, 0x39f,
    0x314, 0x300, 0x39f, 0x313, 0x301, 0x39f,
    0x314, 0x301, 0x3c5, 0x313, 0x3c5, 0x314,
    0x3c5, 0x313, 0x300, 0x3c5, 0x314, 0x300,
    0x3c5, 0x313, 0x301, 0x3c5, 0x314, 0x301,
    0x3c5, 0x313, 0x342, 0x3c5, 0x314, 0x342,
    0x3a5, 0x314, 0x3a5, 0x314, 0x300, 0x3a5,
    0x314, 0x301, 0x3a5, 0x314, 0x342, 0x3c9,
    0x313, 0x3c9, 0x314, 0x3c9, 0x313, 0x300,
    0x3c9, 0x314, 0x300, 0x3c9, 0x313, 0x301,
    0x3c9, 0x314, 0x301, 0x3c9, 0x313, 0x342]"

definition nfd_7 :: "u32 list" where
  "nfd_7 =
   [0x3c9, 0x314, 0x342, 0x3a9, 0x313, 0x3a9,
    0x314, 0x3a9, 0x313, 0x300, 0x3a9, 0x314,
    0x300, 0x3a9, 0x313, 0x301, 0x3a9, 0x314,
    0x301, 0x3a9, 0x313, 0x342, 0x3a9, 0x314,
    0x342, 0x3b1, 0x300, 0x3b1, 0x301, 0x3b5,
    0x300, 0x3b5, 0x301, 0x3b7, 0x300, 0x3b7,
    0x301, 0x3b9, 0x300, 0x3b9, 0x301, 0x3bf,
    0x300, 0x3bf, 0x301, 0x3c5, 0x300, 0x3c5,
    0x301, 0x3c9, 0x300, 0x3c9, 0x301, 0x3b1,
    0x313, 0x345, 0x3b1, 0x314, 0x345, 0x3b1,
    0x313, 0x300, 0x345, 0x3b1, 0x314, 0x300,
    0x345, 0x3b1, 0x313, 0x301, 0x345, 0x3b1,
    0x314, 0x301, 0x345, 0x3b1, 0x313, 0x342,
    0x345, 0x3b1, 0x314, 0x342, 0x345, 0x391,
    0x313, 0x345, 0x391, 0x314, 0x345, 0x391,
    0x313, 0x300, 0x345, 0x391, 0x314, 0x300,
    0x345, 0x391, 0x313, 0x301, 0x345, 0x391,
    0x314, 0x301, 0x345, 0x391, 0x313, 0x342,
    0x345, 0x391, 0x314, 0x342, 0x345, 0x3b7,
    0x313, 0x345, 0x3b7, 0x314, 0x345, 0x3b7,
    0x313, 0x300, 0x345, 0x3b7, 0x314, 0x300,
    0x345, 0x3b7, 0x313, 0x301, 0x345, 0x3b7,
    0x314, 0x301, 0x345, 0x3b7, 0x313, 0x342,
    0x345, 0x3b7, 0x314, 0x342, 0x345, 0x397,
    0x313, 0x345, 0x397, 0x314, 0x345, 0x397,
    0x313, 0x300, 0x345, 0x397, 0x314, 0x300,
    0x345, 0x397, 0x313, 0x301, 0x345, 0x397,
    0x314, 0x301, 0x345, 0x397, 0x313, 0x342,
    0x345, 0x397, 0x314, 0x342, 0x345, 0x3c9,
    0x313, 0x345, 0x3c9, 0x314, 0x345, 0x3c9,
    0x313, 0x300, 0x345, 0x3c9, 0x314, 0x300,
    0x345, 0x3c9, 0x313, 0x301, 0x345, 0x3c9,
    0x314, 0x301, 0x345, 0x3c9, 0x313, 0x342,
    0x345, 0x3c9, 0x314, 0x342, 0x345, 0x3a9,
    0x313, 0x345, 0x3a9, 0x314, 0x345, 0x3a9,
    0x313, 0x300, 0x345, 0x3a9, 0x314, 0x300,
    0x345, 0x3a9, 0x313, 0x301, 0x345, 0x3a9,
    0x314, 0x301, 0x345, 0x3a9, 0x313, 0x342,
    0x345, 0x3a9, 0x314, 0x342, 0x345, 0x3b1,
    0x306, 0x3b1, 0x304, 0x3b1, 0x300, 0x345]"

definition nfd_8 :: "u32 list" where
  "nfd_8 =
   [0x3b1, 0x345, 0x3b1, 0x301, 0x345, 0x3b1,
    0x342, 0x3b1, 0x342, 0x345, 0x391, 0x306,
    0x391, 0x304, 0x391, 0x300, 0x391, 0x301,
    0x391, 0x345, 0x3b9, 0xa8, 0x342, 0x3b7,
    0x300, 0x345, 0x3b7, 0x345, 0x3b7, 0x301,
    0x345, 0x3b7, 0x342, 0x3b7, 0x342, 0x345,
    0x395, 0x300, 0x395, 0x301, 0x397, 0x300,
    0x397, 0x301, 0x397, 0x345, 0x1fbf, 0x300,
    0x1fbf, 0x301, 0x1fbf, 0x342, 0x3b9, 0x306,
    0x3b9, 0x304, 0x3b9, 0x308, 0x300, 0x3b9,
    0x308, 0x301, 0x3b9, 0x342, 0x3b9, 0x308,
    0x342, 0x399, 0x306, 0x399, 0x304, 0x399,
    0x300, 0x399, 0x301, 0x1ffe, 0x300, 0x1ffe,
    0x301, 0x1ffe, 0x342, 0x3c5, 0x306, 0x3c5,
    0x304, 0x3c5, 0x308, 0x300, 0x3c5, 0x308,
    0x301, 0x3c1, 0x313, 0x3c1, 0x314, 0x3c5,
    0x342, 0x3c5, 0x308, 0x342, 0x3a5, 0x306,
    0x3a5, 0x304, 0x3a5, 0x300, 0x3a5, 0x301,
    0x3a1, 0x314, 0xa8, 0x300, 0xa8, 0x301,
    0x60, 0x3c9, 0x300, 0x345, 0x3c9, 0x345,
    0x3c9, 0x301, 0x345, 0x3c9, 0x342, 0x3c9,
    0x342, 0x345, 0x39f, 0x300, 0x39f, 0x301,
    0x3a9, 0x300, 0x3a9, 0x301, 0x3a9, 0x345,
    0xb4, 0x2002, 0x2003, 0x3a9, 0x4b, 0x41,
    0x30a, 0x2190, 0x338, 0x2192, 0x338, 0x2194,
    0x338, 0x21d0, 0x338, 0x21d4, 0x338, 0x21d2,
    0x338, 0x2203, 0x338, 0x2208, 0x338, 0x220b,
    0x338, 0x2223, 0x338, 0x2225, 0x338, 0x223c,
    0x338, 0x2243, 0x338, 0x2245, 0x338, 0x2248,
    0x338, 0x3d, 0x338, 0x2261, 0x338, 0x224d,
    0x338, 0x3c, 0x338, 0x3e, 0x338, 0x2264,
    0x338, 0x2265, 0x338, 0x2272, 0x338, 0x2273,
    0x338, 0x2276, 0x338, 0x2277, 0x338, 0x227a,
    0x338, 0x227b, 0x338, 0x2282, 0x338, 0x2283,
    0x338, 0x2286, 0x338, 0x2287, 0x338, 0x22a2,
    0x338, 0x22a8, 0x338, 0x22a9, 0x338, 0x22ab,
    0x338, 0x227c, 0x338, 0x227d, 0x338, 0x2291,
    0x338, 0x2292, 0x338, 0x22b2, 0x338, 0x22b3,
    0x338, 0x22b4, 0x338, 0x22b5, 0x338, 0x3008,
    0x3009, 0x2add, 0x338, 0x304b, 0x3099, 0x304d]"

definition nfd_9 :: "u32 list" where
  "nfd_9 =
   [0x3099, 0x304f, 0x3099, 0x3051, 0x3099, 0x3053,
    0x3099, 0x3055, 0x3099, 0x3057, 0x3099, 0x3059,
    0x3099, 0x305b, 0x3099, 0x305d, 0x3099, 0x305f,
    0x3099, 0x3061, 0x3099, 0x3064, 0x3099, 0x3066,
    0x3099, 0x3068, 0x3099, 0x306f, 0x3099, 0x306f,
    0x309a, 0x3072, 0x3099, 0x3072, 0x309a, 0x3075,
    0x3099, 0x3075, 0x309a, 0x3078, 0x3099, 0x3078,
    0x309a, 0x307b, 0x3099, 0x307b, 0x309a, 0x3046,
    0x3099, 0x309d, 0x3099, 0x30ab, 0x3099, 0x30ad,
    0x3099, 0x30af, 0x3099, 0x30b1, 0x3099, 0x30b3,
    0x3099, 0x30b5, 0x3099, 0x30b7, 0x3099, 0x30b9,
    0x3099, 0x30bb, 0x3099, 0x30bd, 0x3099, 0x30bf,
    0x3099, 0x30c1, 0x3099, 0x30c4, 0x3099, 0x30c6,
    0x3099, 0x30c8, 0x3099, 0x30cf, 0x3099, 0x30cf,
    0x309a, 0x30d2, 0x3099, 0x30d2, 0x309a, 0x30d5,
    0x3099, 0x30d5, 0x309a, 0x30d8, 0x3099, 0x30d8,
    0x309a, 0x30db, 0x3099, 0x30db, 0x309a, 0x30a6,
    0x3099, 0x30ef, 0x3099, 0x30f0, 0x3099, 0x30f1,
    0x3099, 0x30f2, 0x3099, 0x30fd, 0x3099, 0x8c48,
    0x66f4, 0x8eca, 0x8cc8, 0x6ed1, 0x4e32, 0x53e5,
    0x9f9c, 0x9f9c, 0x5951, 0x91d1, 0x5587, 0x5948,
    0x61f6, 0x7669, 0x7f85, 0x863f, 0x87ba, 0x88f8,
    0x908f, 0x6a02, 0x6d1b, 0x70d9, 0x73de, 0x843d,
    0x916a, 0x99f1, 0x4e82, 0x5375, 0x6b04, 0x721b,
    0x862d, 0x9e1e, 0x5d50, 0x6feb, 0x85cd, 0x8964,
    0x62c9, 0x81d8, 0x881f, 0x5eca, 0x6717, 0x6d6a,
    0x72fc, 0x90ce, 0x4f86, 0x51b7, 0x52de, 0x64c4,
    0x6ad3, 0x7210, 0x76e7, 0x8001, 0x8606, 0x865c,
    0x8def, 0x9732, 0x9b6f, 0x9dfa, 0x788c, 0x797f,
    0x7da0, 0x83c9, 0x9304, 0x9e7f, 0x8ad6, 0x58df,
    0x5f04, 0x7c60, 0x807e, 0x7262, 0x78ca, 0x8cc2,
    0x96f7, 0x58d8, 0x5c62, 0x6a13, 0x6dda, 0x6f0f,
    0x7d2f, 0x7e37, 0x964b, 0x52d2, 0x808b, 0x51dc,
    0x51cc, 0x7a1c, 0x7dbe, 0x83f1, 0x9675, 0x8b80,
    0x62cf, 0x6a02, 0x8afe, 0x4e39, 0x5be7, 0x6012,
    0x7387, 0x7570, 0x5317, 0x78fb, 0x4fbf, 0x5fa9,
    0x4e0d, 0x6ccc, 0x6578, 0x7d22, 0x53c3, 0x585e,
    0x7701, 0x8449, 0x8aaa, 0x6bba, 0x8fb0, 0x6c88,
    0x62fe, 0x82e5, 0x63a0, 0x7565, 0x4eae, 0x5169,
    0x51c9, 0x6881, 0x7ce7, 0x826f, 0x8ad2, 0x91cf]"

definition nfd_10 :: "u32 list" where
  "nfd_10 =
   [0x52f5, 0x5442, 0x5973, 0x5eec, 0x65c5, 0x6ffe,
    0x792a, 0x95ad, 0x9a6a, 0x9e97, 0x9ece, 0x529b,
    0x66c6, 0x6b77, 0x8f62, 0x5e74, 0x6190, 0x6200,
    0x649a, 0x6f23, 0x7149, 0x7489, 0x79ca, 0x7df4,
    0x806f, 0x8f26, 0x84ee, 0x9023, 0x934a, 0x5217,
    0x52a3, 0x54bd, 0x70c8, 0x88c2, 0x8aaa, 0x5ec9,
    0x5ff5, 0x637b, 0x6bae, 0x7c3e, 0x7375, 0x4ee4,
    0x56f9, 0x5be7, 0x5dba, 0x601c, 0x73b2, 0x7469,
    0x7f9a, 0x8046, 0x9234, 0x96f6, 0x9748, 0x9818,
    0x4f8b, 0x79ae, 0x91b4, 0x96b8, 0x60e1, 0x4e86,
    0x50da, 0x5bee, 0x5c3f, 0x6599, 0x6a02, 0x71ce,
    0x7642, 0x84fc, 0x907c, 0x9f8d, 0x6688, 0x962e,
    0x5289, 0x677b, 0x67f3, 0x6d41, 0x6e9c, 0x7409,
    0x7559, 0x786b, 0x7d10, 0x985e, 0x516d, 0x622e,
    0x9678, 0x502b, 0x5d19, 0x6dea, 0x8f2a, 0x5f8b,
    0x6144, 0x6817, 0x7387, 0x9686, 0x5229, 0x540f,
    0x5c65, 0x6613, 0x674e, 0x68a8, 0x6ce5, 0x7406,
    0x75e2, 0x7f79, 0x88cf, 0x88e1, 0x91cc, 0x96e2,
    0x533f, 0x6eba, 0x541d, 0x71d0, 0x7498, 0x85fa,
    0x96a3, 0x9c57, 0x9e9f, 0x6797, 0x6dcb, 0x81e8,
    0x7acb, 0x7b20, 0x7c92, 0x72c0, 0x7099, 0x8b58,
    0x4ec0, 0x8336, 0x523a, 0x5207, 0x5ea6, 0x62d3,
    0x7cd6, 0x5b85, 0x6d1e, 0x66b4, 0x8f3b, 0x884c,
    0x964d, 0x898b, 0x5ed3, 0x5140, 0x55c0, 0x585a,
    0x6674, 0x51de, 0x732a, 0x76ca, 0x793c, 0x795e,
    0x7965, 0x798f, 0x9756, 0x7cbe, 0x7fbd, 0x8612,
    0x8af8, 0x9038, 0x90fd, 0x98ef, 0x98fc, 0x9928,
    0x9db4, 0x90de, 0x96b7, 0x4fae, 0x50e7, 0x514d,
    0x52c9, 0x52e4, 0x5351, 0x559d, 0x5606, 0x5668,
    0x5840, 0x58a8, 0x5c64, 0x5c6e, 0x6094, 0x6168,
    0x618e, 0x61f2, 0x654f, 0x65e2, 0x6691, 0x6885,
    0x6d77, 0x6e1a, 0x6f22, 0x716e, 0x722b, 0x7422,
    0x7891, 0x793e, 0x7949, 0x7948, 0x7950, 0x7956,
    0x795d, 0x798d, 0x798e, 0x7a40, 0x7a81, 0x7bc0,
    0x7df4, 0x7e09, 0x7e41, 0x7f72, 0x8005, 0x81ed,
    0x8279, 0x8279, 0x8457, 0x8910, 0x8996, 0x8b01,
    0x8b39, 0x8cd3, 0x8d08, 0x8fb6, 0x9038, 0x96e3,
    0x97ff, 0x983b, 0x6075, 0x242ee, 0x8218, 0x4e26,
    0x51b5, 0x5168, 0x4f80, 0x5145, 0x5180, 0x52c7,
    0x52fa, 0x559d, 0x5555, 0x5599, 0x55e2, 0x585a]"

definition nfd_11 :: "u32 list" where
  "nfd_11 =
   [0x58b3, 0x5944, 0x5954, 0x5a62, 0x5b28, 0x5ed2,
    0x5ed9, 0x5f69, 0x5fad, 0x60d8, 0x614e, 0x6108,
    0x618e, 0x6160, 0x61f2, 0x6234, 0x63c4, 0x641c,
    0x6452, 0x6556, 0x6674, 0x6717, 0x671b, 0x6756,
    0x6b79, 0x6bba, 0x6d41, 0x6edb, 0x6ecb, 0x6f22,
    0x701e, 0x716e, 0x77a7, 0x7235, 0x72af, 0x732a,
    0x7471, 0x7506, 0x753b, 0x761d, 0x761f, 0x76ca,
    0x76db, 0x76f4, 0x774a, 0x7740, 0x78cc, 0x7ab1,
    0x7bc0, 0x7c7b, 0x7d5b, 0x7df4, 0x7f3e, 0x8005,
    0x8352, 0x83ef, 0x8779, 0x8941, 0x8986, 0x8996,
    0x8abf, 0x8af8, 0x8acb, 0x8b01, 0x8afe, 0x8aed,
    0x8b39, 0x8b8a, 0x8d08, 0x8f38, 0x9072, 0x9199,
    0x9276, 0x967c, 0x96e3, 0x9756, 0x97db, 0x97ff,
    0x980b, 0x983b, 0x9b12, 0x9f9c, 0x2284a, 0x22844,
    0x233d5, 0x3b9d, 0x4018, 0x4039, 0x25249, 0x25cd0,
    0x27ed3, 0x9f43, 0x9f8e, 0x5d9, 0x5b4, 0x5f2,
    0x5b7, 0x5e9, 0x5c1, 0x5e9, 0x5c2, 0x5e9,
    0x5bc, 0x5c1, 0x5e9, 0x5bc, 0x5c2, 0x5d0,
    0x5b7, 0x5d0, 0x5b8, 0x5d0, 0x5bc, 0x5d1,
    0x5bc, 0x5d2, 0x5bc, 0x5d3, 0x5bc, 0x5d4,
    0x5bc, 0x5d5, 0x5bc, 0x5d6, 0x5bc, 0x5d8,
    0x5bc, 0x5d9, 0x5bc, 0x5da, 0x5bc, 0x5db,
    0x5bc, 0x5dc, 0x5bc, 0x5de, 0x5bc, 0x5e0,
    0x5bc, 0x5e1, 0x5bc, 0x5e3, 0x5bc, 0x5e4,
    0x5bc, 0x5e6, 0x5bc, 0x5e7, 0x5bc, 0x5e8,
    0x5bc, 0x5e9, 0x5bc, 0x5ea, 0x5bc, 0x5d5,
    0x5b9, 0x5d1, 0x5bf, 0x5db, 0x5bf, 0x5e4,
    0x5bf, 0x11099, 0x110ba, 0x1109b, 0x110ba, 0x110a5,
    0x110ba, 0x11131, 0x11127, 0x11132, 0x11127, 0x11347,
    0x1133e, 0x11347, 0x11357, 0x114b9, 0x114ba, 0x114b9,
    0x114b0, 0x114b9, 0x114bd, 0x115b8, 0x115af, 0x115b9,
    0x115af, 0x1d157, 0x1d165, 0x1d158, 0x1d165, 0x1d158,
    0x1d165, 0x1d16e, 0x1d158, 0x1d165, 0x1d16f, 0x1d158,
    0x1d165, 0x1d170, 0x1d158, 0x1d165, 0x1d171, 0x1d158,
    0x1d165, 0x1d172, 0x1d1b9, 0x1d165, 0x1d1ba, 0x1d165,
    0x1d1b9, 0x1d165, 0x1d16e, 0x1d1ba, 0x1d165, 0x1d16e,
    0x1d1b9, 0x1d165, 0x1d16f, 0x1d1ba, 0x1d165, 0x1d16f,
    0x4e3d, 0x4e38, 0x4e41, 0x20122, 0x4f60, 0x4fae,
    0x4fbb, 0x5002, 0x507a, 0x5099, 0x50e7, 0x50cf,
    0x349e, 0x2063a, 0x514d, 0x5154, 0x5164, 0x5177]"

definition nfd_12 :: "u32 list" where
  "nfd_12 =
   [0x2051c, 0x34b9, 0x5167, 0x518d, 0x2054b, 0x5197,
    0x51a4, 0x4ecc, 0x51ac, 0x51b5, 0x291df, 0x51f5,
    0x5203, 0x34df, 0x523b, 0x5246, 0x5272, 0x5277,
    0x3515, 0x52c7, 0x52c9, 0x52e4, 0x52fa, 0x5305,
    0x5306, 0x5317, 0x5349, 0x5351, 0x535a, 0x5373,
    0x537d, 0x537f, 0x537f, 0x537f, 0x20a2c, 0x7070,
    0x53ca, 0x53df, 0x20b63, 0x53eb, 0x53f1, 0x5406,
    0x549e, 0x5438, 0x5448, 0x5468, 0x54a2, 0x54f6,
    0x5510, 0x5553, 0x5563, 0x5584, 0x5584, 0x5599,
    0x55ab, 0x55b3, 0x55c2, 0x5716, 0x5606, 0x5717,
    0x5651, 0x5674, 0x5207, 0x58ee, 0x57ce, 0x57f4,
    0x580d, 0x578b, 0x5832, 0x5831, 0x58ac, 0x214e4,
    0x58f2, 0x58f7, 0x5906, 0x591a, 0x5922, 0x5962,
    0x216a8, 0x216ea, 0x59ec, 0x5a1b, 0x5a27, 0x59d8,
    0x5a66, 0x36ee, 0x36fc, 0x5b08, 0x5b3e, 0x5b3e,
    0x219c8, 0x5bc3, 0x5bd8, 0x5be7, 0x5bf3, 0x21b18,
    0x5bff, 0x5c06, 0x5f53, 0x5c22, 0x3781, 0x5c60,
    0x5c6e, 0x5cc0, 0x5c8d, 0x21de4, 0x5d43, 0x21de6,
    0x5d6e, 0x5d6b, 0x5d7c, 0x5de1, 0x5de2, 0x382f,
    0x5dfd, 0x5e28, 0x5e3d, 0x5e69, 0x3862, 0x22183,
    0x387c, 0x5eb0, 0x5eb3, 0x5eb6, 0x5eca, 0x2a392,
    0x5efe, 0x22331, 0x22331, 0x8201, 0x5f22, 0x5f22,
    0x38c7, 0x232b8, 0x261da, 0x5f62, 0x5f6b, 0x38e3,
    0x5f9a, 0x5fcd, 0x5fd7, 0x5ff9, 0x6081, 0x393a,
    0x391c, 0x6094, 0x226d4, 0x60c7, 0x6148, 0x614c,
    0x614e, 0x614c, 0x617a, 0x618e, 0x61b2, 0x61a4,
    0x61af, 0x61de, 0x61f2, 0x61f6, 0x6210, 0x621b,
    0x625d, 0x62b1, 0x62d4, 0x6350, 0x22b0c, 0x633d,
    0x62fc, 0x6368, 0x6383, 0x63e4, 0x22bf1, 0x6422,
    0x63c5, 0x63a9, 0x3a2e, 0x6469, 0x647e, 0x649d,
    0x6477, 0x3a6c, 0x654f, 0x656c, 0x2300a, 0x65e3,
    0x66f8, 0x6649, 0x3b19, 0x6691, 0x3b08, 0x3ae4,
    0x5192, 0x5195, 0x6700, 0x669c, 0x80ad, 0x43d9,
    0x6717, 0x671b, 0x6721, 0x675e, 0x6753, 0x233c3,
    0x3b49, 0x67fa, 0x6785, 0x6852, 0x6885, 0x2346d,
    0x688e, 0x681f, 0x6914, 0x3b9d, 0x6942, 0x69a3,
    0x69ea, 0x6aa8, 0x236a3, 0x6adb, 0x3c18, 0x6b21,
    0x238a7, 0x6b54, 0x3c4e, 0x6b72, 0x6b9f, 0x6bba,
    0x6bbb, 0x23a8d, 0x21d0b, 0x23afa, 0x6c4e, 0x23cbc,
    0x6cbf, 0x6ccd, 0x6c67, 0x6d16, 0x6d3e, 0x6d77]"

definition nfd_13 :: "u32 list" where
  "nfd_13 =
   [0x6d41, 0x6d69, 0x6d78, 0x6d85, 0x23d1e, 0x6d34,
    0x6e2f, 0x6e6e, 0x3d33, 0x6ecb, 0x6ec7, 0x23ed1,
    0x6df9, 0x6f6e, 0x23f5e, 0x23f8e, 0x6fc6, 0x7039,
    0x701e, 0x701b, 0x3d96, 0x704a, 0x707d, 0x7077,
    0x70ad, 0x20525, 0x7145, 0x24263, 0x719c, 0x243ab,
    0x7228, 0x7235, 0x7250, 0x24608, 0x7280, 0x7295,
    0x24735, 0x24814, 0x737a, 0x738b, 0x3eac, 0x73a5,
    0x3eb8, 0x3eb8, 0x7447, 0x745c, 0x7471, 0x7485,
    0x74ca, 0x3f1b, 0x7524, 0x24c36, 0x753e, 0x24c92,
    0x7570, 0x2219f, 0x7610, 0x24fa1, 0x24fb8, 0x25044,
    0x3ffc, 0x4008, 0x76f4, 0x250f3, 0x250f2, 0x25119,
    0x25133, 0x771e, 0x771f, 0x771f, 0x774a, 0x4039,
    0x778b, 0x4046, 0x4096, 0x2541d, 0x784e, 0x788c,
    0x78cc, 0x40e3, 0x25626, 0x7956, 0x2569a, 0x256c5,
    0x798f, 0x79eb, 0x412f, 0x7a40, 0x7a4a, 0x7a4f,
    0x2597c, 0x25aa7, 0x25aa7, 0x7aee, 0x4202, 0x25bab,
    0x7bc6, 0x7bc9, 0x4227, 0x25c80, 0x7cd2, 0x42a0,
    0x7ce8, 0x7ce3, 0x7d00, 0x25f86, 0x7d63, 0x4301,
    0x7dc7, 0x7e02, 0x7e45, 0x4334, 0x26228, 0x26247,
    0x4359, 0x262d9, 0x7f7a, 0x2633e, 0x7f95, 0x7ffa,
    0x8005, 0x264da, 0x26523, 0x8060, 0x265a8, 0x8070,
    0x2335f, 0x43d5, 0x80b2, 0x8103, 0x440b, 0x813e,
    0x5ab5, 0x267a7, 0x267b5, 0x23393, 0x2339c, 0x8201,
    0x8204, 0x8f9e, 0x446b, 0x8291, 0x828b, 0x829d,
    0x52b3, 0x82b1, 0x82b3, 0x82bd, 0x82e6, 0x26b3c,
    0x82e5, 0x831d, 0x8363, 0x83ad, 0x8323, 0x83bd,
    0x83e7, 0x8457, 0x8353, 0x83ca, 0x83cc, 0x83dc,
    0x26c36, 0x26d6b, 0x26cd5, 0x452b, 0x84f1, 0x84f3,
    0x8516, 0x273ca, 0x8564, 0x26f2c, 0x455d, 0x4561,
    0x26fb1, 0x270d2, 0x456b, 0x8650, 0x865c, 0x8667,
    0x8669, 0x86a9, 0x8688, 0x870e, 0x86e2, 0x8779,
    0x8728, 0x876b, 0x8786, 0x45d7, 0x87e1, 0x8801,
    0x45f9, 0x8860, 0x8863, 0x27667, 0x88d7, 0x88de,
    0x4635, 0x88fa, 0x34bb, 0x278ae, 0x27966, 0x46be,
    0x46c7, 0x8aa0, 0x8aed, 0x8b8a, 0x8c55, 0x27ca8,
    0x8cab, 0x8cc1, 0x8d1b, 0x8d77, 0x27f2f, 0x20804,
    0x8dcb, 0x8dbc, 0x8df0, 0x208de, 0x8ed4, 0x8f38,
    0x285d2, 0x285ed, 0x9094, 0x90f1, 0x9111, 0x2872e,
    0x911b, 0x9238, 0x92d7, 0x92d8, 0x927c, 0x93f9,
    0x9415, 0x28bfa, 0x958b, 0x4995, 0x95b7, 0x28d77]"

definition nfd_14 :: "u32 list" where
  "nfd_14 =
   [0x49e6, 0x96c3, 0x5db2, 0x9723, 0x29145, 0x2921a,
    0x4a6e, 0x4a76, 0x97e0, 0x2940a, 0x4ab2, 0x29496,
    0x980b, 0x980b, 0x9829, 0x295b6, 0x98e2, 0x4b33,
    0x9929, 0x99a7, 0x99c2, 0x99fe, 0x4bce, 0x29b30,
    0x9b12, 0x9c40, 0x9cfd, 0x4cce, 0x4ced, 0x9d67,
    0x2a0ce, 0x4cf8, 0x2a105, 0x2a20e, 0x2a291, 0x9ebb,
    0x4d56, 0x9ef9, 0x9efe, 0x9f05, 0x9f0f, 0x9f16,
    0x9f3b, 0x2a600]"

definition nfd_blocks :: "u32 list list" where
  "nfd_blocks = [nfd_0, nfd_1, nfd_2, nfd_3, nfd_4, nfd_5, nfd_6, nfd_7, nfd_8, nfd_9, nfd_10, nfd_11, nfd_12, nfd_13, nfd_14]"

definition cf_trie_0 :: "nat list" where
  "cf_trie_0 =
   [0x1, 0x2, 0x0, 0x0, 0x0, 0x0, 0x0, 0x0,
    0x0, 0x0, 0x0, 0x0, 0x0, 0x0, 0x0, 0x0,
    0x3, 0x4, 0x5, 0x0, 0x0, 0x0, 0x0, 0x0,
    0x0, 0x0, 0x6, 0x0, 0x0, 0x0, 0x0, 0x7,
    0x8, 0x9, 0x0, 0x0, 0x0, 0x0, 0x0, 0x0,
    0x0, 0x0, 0x0, 0x0, 0x0, 0x0, 0xa, 0x0,
    0xb, 0xc, 0xd, 0xe, 0xf, 0x10, 0x0, 0x0,
    0x0, 0x0, 0x0, 0x0, 0x0, 0x0, 0x0, 0x0,
    0x11, 0x0, 0x0, 0x12, 0x0, 0x0, 0x0, 0x0,
    0x0, 0x0, 0x0, 0x0, 0x13, 0x0, 0x14, 0x15,
    0x0, 0x16, 0x0, 0x0, 0x17, 0x0, 0x0, 0x0,
    0x0, 0x0, 0x0, 0x0, 0x18, 0x0, 0x0, 0x0,
    0x0, 0x0, 0x0, 0x0, 0x0, 0x0, 0x19, 0x1a,
    0x0, 0x0, 0x0, 0x1b, 0x0, 0x0, 0x0, 0x0,
    0x0, 0x0, 0x0, 0x0, 0x0, 0x0, 0x0, 0x0,
    0x0, 0x0, 0x0, 0x1c, 0x0, 0x0, 0x0, 0x1d,
    0x0, 0x0, 0x0, 0x0, 0x1e, 0x0, 0x0, 0x0,
    0x0, 0x0, 0x0, 0x0, 0x1f, 0x0, 0x0, 0x0,
    0x0, 0x0, 0x0, 0x0, 0x0, 0x0, 0x0, 0x0,
    0x20, 0x0, 0x0, 0x0, 0x0, 0x0, 0x0, 0x0,
    0x0, 0x0, 0x0, 0x0, 0x0, 0x0, 0x0, 0x0,
    0x0, 0x21, 0x0, 0x0, 0x0, 0x0, 0x0, 0x0,
    0x0, 0x0, 0x0, 0x0, 0x22, 0x23, 0x0, 0x0,
    0x0, 0x0, 0x0, 0x24, 0x25, 0x26, 0x0, 0x0,
    0x27, 0x28, 0x29, 0x2a, 0x2b, 0x2c, 0x2d, 0x2e,
    0x2f, 0x30, 0x31, 0x32, 0x33, 0x34, 0x35, 0x36,
    0x37, 0x38, 0x39, 0x3a, 0x3b, 0x0, 0x0, 0x0,
    0x0, 0x0, 0x0, 0x0, 0x0, 0x0, 0x0, 0x0,
    0x0, 0x0, 0x0, 0x0, 0x3c, 0x0, 0x0, 0x3d,
    0x3e, 0x3f, 0x40, 0x41, 0x42, 0x43, 0x44, 0x45,
    0x46, 0x47, 0x48, 0x0, 0x0, 0x0, 0x49, 0x4a,
    0x4b, 0x4c, 0x4d, 0x4e, 0x4f, 0x50, 0x51, 0x52]"

definition cf_trie_1 :: "nat list" where
  "cf_trie_1 =
   [0x53, 0x54, 0x55, 0x56, 0x57, 0x58, 0x0, 0x0,
    0x59, 0x0, 0x0, 0x0, 0x0, 0x0, 0x0, 0x0,
    0x0, 0x0, 0x0, 0x0, 0x0, 0x0, 0x0, 0x0,
    0x0, 0x0, 0x5a, 0x5b, 0x5c, 0x0, 0x0, 0x0,
    0x0, 0x0, 0x0, 0x0, 0x0, 0x0, 0x0, 0x0,
    0x0, 0x0, 0x0, 0x0, 0x0, 0x0, 0x0, 0x5d,
    0x0, 0x0, 0x0, 0x0, 0x0, 0x0, 0x0, 0x0,
    0x5e, 0x0, 0x0, 0x0, 0x0, 0x0, 0x0, 0x0,
    0x5f, 0x60, 0x61, 0x62, 0x63, 0x64, 0x65, 0x66,
    0x67, 0x68, 0x69, 0x6a, 0x6b, 0x6c, 0x6d, 0x6e,
    0x6f, 0x70, 0x71, 0x72, 0x73, 0x74, 0x75, 0x0,
    0x76, 0x77, 0x78, 0x79, 0x7a, 0x7b, 0x7c, 0x7d,
    0x0, 0x0, 0x7e, 0x7f, 0x0, 0x0, 0x80, 0x0,
    0x81, 0x0, 0x0, 0x0, 0x0, 0x0, 0x0, 0x0,
    0x0, 0x0, 0x0, 0x0, 0x0, 0x0, 0x0, 0x0,
    0x0, 0x0, 0x0, 0x82, 0x83, 0x0, 0x0, 0x0,
    0x84, 0x85, 0x86, 0x0, 0x0, 0x0, 0x87, 0x88,
    0x89, 0x8a, 0x8b, 0x8c, 0x8d, 0x8e, 0x8f, 0x90,
    0x0, 0x0, 0x0, 0x0, 0x91, 0x92, 0x93, 0x0,
    0x94, 0x95, 0x0, 0x0, 0x0, 0x0, 0x0, 0x0,
    0x0, 0x0, 0x96, 0x97, 0x98, 0x99, 0x9a, 0x9b,
    0x9c, 0x9d, 0x9e, 0x9f, 0x0, 0x0, 0x0, 0x0,
    0x0, 0x0, 0x0, 0x0, 0x0, 0x0, 0x0, 0xa0,
    0xa1, 0xa2, 0xa3, 0xa4, 0x0, 0x0, 0x0, 0x0,
    0xa5, 0xa6, 0x0, 0x0, 0x0, 0x0, 0x0, 0x0,
    0x0, 0x0, 0x0, 0x0, 0x0, 0x0, 0x0, 0x0,
    0x0, 0x0, 0xa7, 0xa8, 0x0, 0x0, 0x0, 0x0,
    0x0, 0x0, 0x0, 0x0, 0x0, 0x0, 0x0, 0x0,
    0xa9, 0xaa, 0xab, 0x0, 0x0, 0x0, 0x0, 0x0,
    0x0, 0x0, 0x0, 0xac, 0xad, 0xae, 0x0, 0x0,
    0x0, 0x0, 0x0, 0x0, 0x0, 0x0, 0x0, 0x0,
    0xaf, 0xb0, 0xb1, 0xb2, 0x0, 0x0, 0x0, 0x0]"

definition cf_trie_2 :: "nat list" where
  "cf_trie_2 =
   [0x0, 0x0, 0x0, 0x0, 0x0, 0x0, 0x0, 0x0,
    0x0, 0x0, 0xb3, 0xb4, 0x0, 0x0, 0x0, 0x0,
    0xb5, 0xb6, 0xb7, 0x0, 0x0, 0x0, 0x0, 0x0,
    0x0, 0x0, 0x0, 0x0, 0x0, 0x0, 0x0, 0x0,
    0x0, 0x1, 0x9, 0x11, 0x19, 0x21, 0x29, 0x31,
    0x39, 0x41, 0x49, 0x51, 0x59, 0x61, 0x69, 0x71,
    0x79, 0x81, 0x89, 0x91, 0x99, 0xa1, 0xa9, 0xb1,
    0xb9, 0xc1, 0xc9, 0x0, 0x0, 0x0, 0x0, 0x0,
    0x0, 0x0, 0x0, 0x0, 0x0, 0xd1, 0x0, 0x0,
    0x0, 0x0, 0x0, 0x0, 0x0, 0x0, 0x0, 0x0,
    0xd9, 0xe1, 0xe9, 0xf1, 0xf9, 0x101, 0x109, 0x111,
    0x119, 0x121, 0x129, 0x131, 0x139, 0x141, 0x149, 0x151,
    0x159, 0x161, 0x169, 0x171, 0x179, 0x181, 0x189, 0x0,
    0x191, 0x199, 0x1a1, 0x1a9, 0x1b1, 0x1b9, 0x1c1, 0x1ca,
    0x1d9, 0x0, 0x1e1, 0x0, 0x1e9, 0x0, 0x1f1, 0x0,
    0x1f9, 0x0, 0x201, 0x0, 0x209, 0x0, 0x211, 0x0,
    0x219, 0x0, 0x221, 0x0, 0x229, 0x0, 0x231, 0x0,
    0x239, 0x0, 0x241, 0x0, 0x249, 0x0, 0x251, 0x0,
    0x259, 0x0, 0x261, 0x0, 0x269, 0x0, 0x271, 0x0,
    0x279, 0x0, 0x281, 0x0, 0x289, 0x0, 0x291, 0x0,
    0x29a, 0x0, 0x2a9, 0x0, 0x2b1, 0x0, 0x2b9, 0x0,
    0x0, 0x2c1, 0x0, 0x2c9, 0x0, 0x2d1, 0x0, 0x2d9,
    0x0, 0x2e1, 0x0, 0x2e9, 0x0, 0x2f1, 0x0, 0x2f9,
    0x0, 0x302, 0x311, 0x0, 0x319, 0x0, 0x321, 0x0,
    0x329, 0x0, 0x331, 0x0, 0x339, 0x0, 0x341, 0x0,
    0x349, 0x0, 0x351, 0x0, 0x359, 0x0, 0x361, 0x0,
    0x369, 0x0, 0x371, 0x0, 0x379, 0x0, 0x381, 0x0,
    0x389, 0x0, 0x391, 0x0, 0x399, 0x0, 0x3a1, 0x0,
    0x3a9, 0x0, 0x3b1, 0x0, 0x3b9, 0x0, 0x3c1, 0x0,
    0x3c9, 0x3d1, 0x0, 0x3d9, 0x0, 0x3e1, 0x0, 0x3e9,
    0x0, 0x3f1, 0x3f9, 0x0, 0x401, 0x0, 0x409, 0x411,
    0x0, 0x419, 0x421, 0x429, 0x0, 0x0, 0x431, 0x439]"

definition cf_trie_3 :: "nat list" where
  "cf_trie_3 =
   [0x441, 0x449, 0x0, 0x451, 0x459, 0x0, 0x461, 0x469,
    0x471, 0x0, 0x0, 0x0, 0x479, 0x481, 0x0, 0x489,
    0x491, 0x0, 0x499, 0x0, 0x4a1, 0x0, 0x4a9, 0x4b1,
    0x0, 0x4b9, 0x0, 0x0, 0x4c1, 0x0, 0x4c9, 0x4d1,
    0x0, 0x4d9, 0x4e1, 0x4e9, 0x0, 0x4f1, 0x0, 0x4f9,
    0x501, 0x0, 0x0, 0x0, 0x509, 0x0, 0x0, 0x0,
    0x0, 0x0, 0x0, 0x0, 0x511, 0x519, 0x0, 0x521,
    0x529, 0x0, 0x531, 0x539, 0x0, 0x541, 0x0, 0x549,
    0x0, 0x551, 0x0, 0x559, 0x0, 0x561, 0x0, 0x569,
    0x0, 0x571, 0x0, 0x579, 0x0, 0x0, 0x581, 0x0,
    0x589, 0x0, 0x591, 0x0, 0x599, 0x0, 0x5a1, 0x0,
    0x5a9, 0x0, 0x5b1, 0x0, 0x5b9, 0x0, 0x5c1, 0x0,
    0x5ca, 0x5d9, 0x5e1, 0x0, 0x5e9, 0x0, 0x5f1, 0x5f9,
    0x601, 0x0, 0x609, 0x0, 0x611, 0x0, 0x619, 0x0,
    0x621, 0x0, 0x629, 0x0, 0x631, 0x0, 0x639, 0x0,
    0x641, 0x0, 0x649, 0x0, 0x651, 0x0, 0x659, 0x0,
    0x661, 0x0, 0x669, 0x0, 0x671, 0x0, 0x679, 0x0,
    0x681, 0x0, 0x689, 0x0, 0x691, 0x0, 0x699, 0x0,
    0x6a1, 0x0, 0x6a9, 0x0, 0x6b1, 0x0, 0x6b9, 0x0,
    0x6c1, 0x0, 0x6c9, 0x0, 0x6d1, 0x0, 0x6d9, 0x0,
    0x6e1, 0x0, 0x6e9, 0x0, 0x0, 0x0, 0x0, 0x0,
    0x0, 0x0, 0x6f1, 0x6f9, 0x0, 0x701, 0x709, 0x0,
    0x0, 0x711, 0x0, 0x719, 0x721, 0x729, 0x731, 0x0,
    0x739, 0x0, 0x741, 0x0, 0x749, 0x0, 0x751, 0x0,
    0x0, 0x0, 0x0, 0x0, 0x0, 0x759, 0x0, 0x0,
    0x0, 0x0, 0x0, 0x0, 0x0, 0x0, 0x0, 0x0,
    0x761, 0x0, 0x769, 0x0, 0x0, 0x0, 0x771, 0x0,
    0x0, 0x0, 0x0, 0x0, 0x0, 0x0, 0x0, 0x779,
    0x0, 0x0, 0x0, 0x0, 0x0, 0x0, 0x781, 0x0,
    0x789, 0x791, 0x799, 0x0, 0x7a1, 0x0, 0x7a9, 0x7b1,
    0x7bb, 0x7d1, 0x7d9, 0x7e1, 0x7e9, 0x7f1, 0x7f9, 0x801,
    0x809, 0x811, 0x819, 0x821, 0x829, 0x831, 0x839, 0x841]"

definition cf_trie_4 :: "nat list" where
  "cf_trie_4 =
   [0x849, 0x851, 0x0, 0x859, 0x861, 0x869, 0x871, 0x879,
    0x881, 0x889, 0x891, 0x899, 0x0, 0x0, 0x0, 0x0,
    0x8a3, 0x0, 0x0, 0x0, 0x0, 0x0, 0x0, 0x0,
    0x0, 0x0, 0x0, 0x0, 0x0, 0x0, 0x0, 0x0,
    0x0, 0x0, 0x8b9, 0x0, 0x0, 0x0, 0x0, 0x0,
    0x0, 0x0, 0x0, 0x0, 0x0, 0x0, 0x0, 0x8c1,
    0x8c9, 0x8d1, 0x0, 0x0, 0x0, 0x8d9, 0x8e1, 0x0,
    0x8e9, 0x0, 0x8f1, 0x0, 0x8f9, 0x0, 0x901, 0x0,
    0x909, 0x0, 0x911, 0x0, 0x919, 0x0, 0x921, 0x0,
    0x929, 0x0, 0x931, 0x0, 0x939, 0x0, 0x941, 0x0,
    0x949, 0x951, 0x0, 0x0, 0x959, 0x961, 0x0, 0x969,
    0x0, 0x971, 0x979, 0x0, 0x0, 0x981, 0x989, 0x991,
    0x999, 0x9a1, 0x9a9, 0x9b1, 0x9b9, 0x9c1, 0x9c9, 0x9d1,
    0x9d9, 0x9e1, 0x9e9, 0x9f1, 0x9f9, 0xa01, 0xa09, 0xa11,
    0xa19, 0xa21, 0xa29, 0xa31, 0xa39, 0xa41, 0xa49, 0xa51,
    0xa59, 0xa61, 0xa69, 0xa71, 0xa79, 0xa81, 0xa89, 0xa91,
    0xa99, 0xaa1, 0xaa9, 0xab1, 0xab9, 0xac1, 0xac9, 0xad1,
    0xad9, 0xae1, 0xae9, 0xaf1, 0xaf9, 0xb01, 0xb09, 0xb11,
    0xb19, 0x0, 0xb21, 0x0, 0xb29, 0x0, 0xb31, 0x0,
    0xb39, 0x0, 0xb41, 0x0, 0xb49, 0x0, 0xb51, 0x0,
    0xb59, 0x0, 0xb61, 0x0, 0xb69, 0x0, 0xb71, 0x0,
    0xb79, 0x0, 0xb81, 0x0, 0xb89, 0x0, 0xb91, 0x0,
    0xb99, 0x0, 0x0, 0x0, 0x0, 0x0, 0x0, 0x0,
    0x0, 0x0, 0xba1, 0x0, 0xba9, 0x0, 0xbb1, 0x0,
    0xbb9, 0x0, 0xbc1, 0x0, 0xbc9, 0x0, 0xbd1, 0x0,
    0xbd9, 0x0, 0xbe1, 0x0, 0xbe9, 0x0, 0xbf1, 0x0,
    0xbf9, 0x0, 0xc01, 0x0, 0xc09, 0x0, 0xc11, 0x0,
    0xc19, 0x0, 0xc21, 0x0, 0xc29, 0x0, 0xc31, 0x0,
    0xc39, 0x0, 0xc41, 0x0, 0xc49, 0x0, 0xc51, 0x0,
    0xc59, 0x0, 0xc61, 0x0, 0xc69, 0x0, 0xc71, 0x0,
    0xc79, 0xc81, 0x0, 0xc89, 0x0, 0xc91, 0x0, 0xc99,
    0x0, 0xca1, 0x0, 0xca9, 0x0, 0xcb1, 0x0, 0x0]"

definition cf_trie_5 :: "nat list" where
  "cf_trie_5 =
   [0xcb9, 0x0, 0xcc1, 0x0, 0xcc9, 0x0, 0xcd1, 0x0,
    0xcd9, 0x0, 0xce1, 0x0, 0xce9, 0x0, 0xcf1, 0x0,
    0xcf9, 0x0, 0xd01, 0x0, 0xd09, 0x0, 0xd11, 0x0,
    0xd19, 0x0, 0xd21, 0x0, 0xd29, 0x0, 0xd31, 0x0,
    0xd39, 0x0, 0xd41, 0x0, 0xd49, 0x0, 0xd51, 0x0,
    0xd59, 0x0, 0xd61, 0x0, 0xd69, 0x0, 0xd71, 0x0,
    0xd79, 0x0, 0xd81, 0x0, 0xd89, 0x0, 0xd91, 0x0,
    0xd99, 0x0, 0xda1, 0x0, 0xda9, 0x0, 0xdb1, 0x0,
    0xdb9, 0x0, 0xdc1, 0x0, 0xdc9, 0x0, 0xdd1, 0x0,
    0xdd9, 0x0, 0xde1, 0x0, 0xde9, 0x0, 0xdf1, 0x0,
    0xdf9, 0x0, 0xe01, 0x0, 0xe09, 0x0, 0xe11, 0x0,
    0xe19, 0x0, 0xe21, 0x0, 0xe29, 0x0, 0xe31, 0x0,
    0x0, 0xe39, 0xe41, 0xe49, 0xe51, 0xe59, 0xe61, 0xe69,
    0xe71, 0xe79, 0xe81, 0xe89, 0xe91, 0xe99, 0xea1, 0xea9,
    0xeb1, 0xeb9, 0xec1, 0xec9, 0xed1, 0xed9, 0xee1, 0xee9,
    0xef1, 0xef9, 0xf01, 0xf09, 0xf11, 0xf19, 0xf21, 0xf29,
    0xf31, 0xf39, 0xf41, 0xf49, 0xf51, 0xf59, 0xf61, 0x0,
    0x0, 0x0, 0x0, 0x0, 0x0, 0x0, 0x0, 0x0,
    0x0, 0x0, 0x0, 0x0, 0x0, 0x0, 0x0, 0xf6a,
    0x0, 0x0, 0x0, 0x0, 0x0, 0x0, 0x0, 0x0,
    0xf79, 0xf81, 0xf89, 0xf91, 0xf99, 0xfa1, 0xfa9, 0xfb1,
    0xfb9, 0xfc1, 0xfc9, 0xfd1, 0xfd9, 0xfe1, 0xfe9, 0xff1,
    0xff9, 0x1001, 0x1009, 0x1011, 0x1019, 0x1021, 0x1029, 0x1031,
    0x1039, 0x1041, 0x1049, 0x1051, 0x1059, 0x1061, 0x1069, 0x1071,
    0x1079, 0x1081, 0x1089, 0x1091, 0x1099, 0x10a1, 0x0, 0x10a9,
    0x0, 0x0, 0x0, 0x0, 0x0, 0x10b1, 0x0, 0x0,
    0x0, 0x0, 0x0, 0x0, 0x0, 0x0, 0x0, 0x0,
    0x10b9, 0x10c1, 0x10c9, 0x10d1, 0x10d9, 0x10e1, 0x0, 0x0,
    0x10e9, 0x10f1, 0x10f9, 0x1101, 0x1109, 0x1111, 0x1119, 0x1121,
    0x1129, 0x0, 0x0, 0x0, 0x0, 0x0, 0x0, 0x0,
    0x1131, 0x0, 0x1139, 0x0, 0x1141, 0x0, 0x1149, 0x0,
    0x1151, 0x0, 0x1159, 0x0, 0x1161, 0x0, 0x1169, 0x0]"

definition cf_trie_6 :: "nat list" where
  "cf_trie_6 =
   [0x1171, 0x0, 0x1179, 0x0, 0x1181, 0x0, 0x1189, 0x0,
    0x1191, 0x0, 0x1199, 0x0, 0x11a1, 0x0, 0x11a9, 0x0,
    0x11b1, 0x0, 0x11b9, 0x0, 0x11c1, 0x0, 0x11c9, 0x0,
    0x11d1, 0x0, 0x11d9, 0x0, 0x11e1, 0x0, 0x11e9, 0x0,
    0x11f1, 0x0, 0x11f9, 0x0, 0x1201, 0x0, 0x1209, 0x0,
    0x1211, 0x0, 0x1219, 0x0, 0x1221, 0x0, 0x1229, 0x0,
    0x1231, 0x0, 0x1239, 0x0, 0x1241, 0x0, 0x1249, 0x0,
    0x1251, 0x0, 0x1259, 0x0, 0x1261, 0x0, 0x1269, 0x0,
    0x1271, 0x0, 0x1279, 0x0, 0x1281, 0x0, 0x1289, 0x0,
    0x1291, 0x0, 0x1299, 0x0, 0x12a1, 0x0, 0x12a9, 0x0,
    0x12b1, 0x0, 0x12b9, 0x0, 0x12c1, 0x0, 0x12c9, 0x0,
    0x12d1, 0x0, 0x12d9, 0x0, 0x12e1, 0x0, 0x12e9, 0x0,
    0x12f1, 0x0, 0x12f9, 0x0, 0x1301, 0x0, 0x1309, 0x0,
    0x1311, 0x0, 0x1319, 0x0, 0x1321, 0x0, 0x1329, 0x0,
    0x1331, 0x0, 0x1339, 0x0, 0x1341, 0x0, 0x1349, 0x0,
    0x1351, 0x0, 0x1359, 0x0, 0x1361, 0x0, 0x1369, 0x0,
    0x1371, 0x0, 0x1379, 0x0, 0x1381, 0x0, 0x138a, 0x139a,
    0x13aa, 0x13ba, 0x13ca, 0x13d9, 0x0, 0x0, 0x13e2, 0x0,
    0x13f1, 0x0, 0x13f9, 0x0, 0x1401, 0x0, 0x1409, 0x0,
    0x1411, 0x0, 0x1419, 0x0, 0x1421, 0x0, 0x1429, 0x0,
    0x1431, 0x0, 0x1439, 0x0, 0x1441, 0x0, 0x1449, 0x0,
    0x1451, 0x0, 0x1459, 0x0, 0x1461, 0x0, 0x1469, 0x0,
    0x1471, 0x0, 0x1479, 0x0, 0x1481, 0x0, 0x1489, 0x0,
    0x1491, 0x0, 0x1499, 0x0, 0x14a1, 0x0, 0x14a9, 0x0,
    0x14b1, 0x0, 0x14b9, 0x0, 0x14c1, 0x0, 0x14c9, 0x0,
    0x14d1, 0x0, 0x14d9, 0x0, 0x14e1, 0x0, 0x14e9, 0x0,
    0x14f1, 0x0, 0x14f9, 0x0, 0x1501, 0x0, 0x1509, 0x0,
    0x1511, 0x0, 0x1519, 0x0, 0x1521, 0x0, 0x1529, 0x0,
    0x1531, 0x0, 0x1539, 0x0, 0x1541, 0x0, 0x1549, 0x0,
    0x1551, 0x0, 0x1559, 0x0, 0x1561, 0x0, 0x1569, 0x0,
    0x0, 0x0, 0x0, 0x0, 0x0, 0x0, 0x0, 0x0,
    0x1571, 0x1579, 0x1581, 0x1589, 0x1591, 0x1599, 0x15a1, 0x15a9]"

definition cf_trie_7 :: "nat list" where
  "cf_trie_7 =
   [0x0, 0x0, 0x0, 0x0, 0x0, 0x0, 0x0, 0x0,
    0x15b1, 0x15b9, 0x15c1, 0x15c9, 0x15d1, 0x15d9, 0x0, 0x0,
    0x0, 0x0, 0x0, 0x0, 0x0, 0x0, 0x0, 0x0,
    0x15e1, 0x15e9, 0x15f1, 0x15f9, 0x1601, 0x1609, 0x1611, 0x1619,
    0x0, 0x0, 0x0, 0x0, 0x0, 0x0, 0x0, 0x0,
    0x1621, 0x1629, 0x1631, 0x1639, 0x1641, 0x1649, 0x1651, 0x1659,
    0x0, 0x0, 0x0, 0x0, 0x0, 0x0, 0x0, 0x0,
    0x1661, 0x1669, 0x1671, 0x1679, 0x1681, 0x1689, 0x0, 0x0,
    0x1692, 0x0, 0x16a3, 0x0, 0x16bb, 0x0, 0x16d3, 0x0,
    0x0, 0x16e9, 0x0, 0x16f1, 0x0, 0x16f9, 0x0, 0x1701,
    0x0, 0x0, 0x0, 0x0, 0x0, 0x0, 0x0, 0x0,
    0x1709, 0x1711, 0x1719, 0x1721, 0x1729, 0x1731, 0x1739, 0x1741,
    0x174a, 0x175a, 0x176a, 0x177a, 0x178a, 0x179a, 0x17aa, 0x17ba,
    0x17ca, 0x17da, 0x17ea, 0x17fa, 0x180a, 0x181a, 0x182a, 0x183a,
    0x184a, 0x185a, 0x186a, 0x187a, 0x188a, 0x189a, 0x18aa, 0x18ba,
    0x18ca, 0x18da, 0x18ea, 0x18fa, 0x190a, 0x191a, 0x192a, 0x193a,
    0x194a, 0x195a, 0x196a, 0x197a, 0x198a, 0x199a, 0x19aa, 0x19ba,
    0x19ca, 0x19da, 0x19ea, 0x19fa, 0x1a0a, 0x1a1a, 0x1a2a, 0x1a3a,
    0x0, 0x0, 0x1a4a, 0x1a5a, 0x1a6a, 0x0, 0x1a7a, 0x1a8b,
    0x1aa1, 0x1aa9, 0x1ab1, 0x1ab9, 0x1ac2, 0x0, 0x1ad1, 0x0,
    0x0, 0x0, 0x1ada, 0x1aea, 0x1afa, 0x0, 0x1b0a, 0x1b1b,
    0x1b31, 0x1b39, 0x1b41, 0x1b49, 0x1b52, 0x0, 0x0, 0x0,
    0x0, 0x0, 0x1b63, 0x1b7b, 0x0, 0x0, 0x1b92, 0x1ba3,
    0x1bb9, 0x1bc1, 0x1bc9, 0x1bd1, 0x0, 0x0, 0x0, 0x0,
    0x0, 0x0, 0x1bdb, 0x1bf3, 0x1c0a, 0x0, 0x1c1a, 0x1c2b,
    0x1c41, 0x1c49, 0x1c51, 0x1c59, 0x1c61, 0x0, 0x0, 0x0,
    0x0, 0x0, 0x1c6a, 0x1c7a, 0x1c8a, 0x0, 0x1c9a, 0x1cab,
    0x1cc1, 0x1cc9, 0x1cd1, 0x1cd9, 0x1ce2, 0x0, 0x0, 0x0,
    0x0, 0x0, 0x0, 0x0, 0x0, 0x0, 0x1cf1, 0x0,
    0x0, 0x0, 0x1cf9, 0x1d01, 0x0, 0x0, 0x0, 0x0,
    0x0, 0x0, 0x1d09, 0x0, 0x0, 0x0, 0x0, 0x0,
    0x0, 0x0, 0x0, 0x0, 0x0, 0x0, 0x0, 0x0]"

definition cf_trie_8 :: "nat list" where
  "cf_trie_8 =
   [0x1d11, 0x1d19, 0x1d21, 0x1d29, 0x1d31, 0x1d39, 0x1d41, 0x1d49,
    0x1d51, 0x1d59, 0x1d61, 0x1d69, 0x1d71, 0x1d79, 0x1d81, 0x1d89,
    0x0, 0x0, 0x0, 0x1d91, 0x0, 0x0, 0x0, 0x0,
    0x0, 0x0, 0x0, 0x0, 0x0, 0x0, 0x0, 0x0,
    0x0, 0x0, 0x0, 0x0, 0x0, 0x0, 0x1d99, 0x1da1,
    0x1da9, 0x1db1, 0x1db9, 0x1dc1, 0x1dc9, 0x1dd1, 0x1dd9, 0x1de1,
    0x1de9, 0x1df1, 0x1df9, 0x1e01, 0x1e09, 0x1e11, 0x1e19, 0x1e21,
    0x1e29, 0x1e31, 0x1e39, 0x1e41, 0x1e49, 0x1e51, 0x1e59, 0x1e61,
    0x1e69, 0x1e71, 0x1e79, 0x1e81, 0x1e89, 0x1e91, 0x1e99, 0x1ea1,
    0x1ea9, 0x1eb1, 0x1eb9, 0x1ec1, 0x1ec9, 0x1ed1, 0x1ed9, 0x1ee1,
    0x1ee9, 0x1ef1, 0x1ef9, 0x1f01, 0x1f09, 0x1f11, 0x1f19, 0x1f21,
    0x1f29, 0x1f31, 0x1f39, 0x1f41, 0x1f49, 0x1f51, 0x1f59, 0x1f61,
    0x1f69, 0x1f71, 0x1f79, 0x1f81, 0x1f89, 0x1f91, 0x1f99, 0x1fa1,
    0x1fa9, 0x1fb1, 0x1fb9, 0x1fc1, 0x1fc9, 0x1fd1, 0x1fd9, 0x0,
    0x1fe1, 0x0, 0x1fe9, 0x1ff1, 0x1ff9, 0x0, 0x0, 0x2001,
    0x0, 0x2009, 0x0, 0x2011, 0x0, 0x2019, 0x2021, 0x2029,
    0x2031, 0x0, 0x2039, 0x0, 0x0, 0x2041, 0x0, 0x0,
    0x0, 0x0, 0x0, 0x0, 0x0, 0x0, 0x2049, 0x2051,
    0x2059, 0x0, 0x2061, 0x0, 0x2069, 0x0, 0x2071, 0x0,
    0x2079, 0x0, 0x2081, 0x0, 0x2089, 0x0, 0x2091, 0x0,
    0x2099, 0x0, 0x20a1, 0x0, 0x20a9, 0x0, 0x20b1, 0x0,
    0x20b9, 0x0, 0x20c1, 0x0, 0x20c9, 0x0, 0x20d1, 0x0,
    0x20d9, 0x0, 0x20e1, 0x0, 0x20e9, 0x0, 0x20f1, 0x0,
    0x20f9, 0x0, 0x2101, 0x0, 0x2109, 0x0, 0x2111, 0x0,
    0x2119, 0x0, 0x2121, 0x0, 0x2129, 0x0, 0x2131, 0x0,
    0x2139, 0x0, 0x2141, 0x0, 0x2149, 0x0, 0x2151, 0x0,
    0x2159, 0x0, 0x2161, 0x0, 0x2169, 0x0, 0x2171, 0x0,
    0x2179, 0x0, 0x2181, 0x0, 0x2189, 0x0, 0x2191, 0x0,
    0x2199, 0x0, 0x21a1, 0x0, 0x21a9, 0x0, 0x21b1, 0x0,
    0x21b9, 0x0, 0x21c1, 0x0, 0x21c9, 0x0, 0x21d1, 0x0,
    0x21d9, 0x0, 0x21e1, 0x0, 0x0, 0x0, 0x0, 0x0,
    0x0, 0x0, 0x0, 0x21e9, 0x0, 0x21f1, 0x0, 0x0]"

definition cf_trie_9 :: "nat list" where
  "cf_trie_9 =
   [0x0, 0x0, 0x21f9, 0x0, 0x0, 0x0, 0x0, 0x0,
    0x0, 0x0, 0x0, 0x0, 0x0, 0x0, 0x0, 0x0,
    0x2201, 0x0, 0x2209, 0x0, 0x2211, 0x0, 0x2219, 0x0,
    0x2221, 0x0, 0x2229, 0x0, 0x2231, 0x0, 0x2239, 0x0,
    0x2241, 0x0, 0x2249, 0x0, 0x2251, 0x0, 0x2259, 0x0,
    0x2261, 0x0, 0x2269, 0x0, 0x2271, 0x0, 0x2279, 0x0,
    0x2281, 0x0, 0x2289, 0x0, 0x2291, 0x0, 0x2299, 0x0,
    0x22a1, 0x0, 0x22a9, 0x0, 0x22b1, 0x0, 0x0, 0x0,
    0x22b9, 0x0, 0x22c1, 0x0, 0x22c9, 0x0, 0x22d1, 0x0,
    0x22d9, 0x0, 0x22e1, 0x0, 0x22e9, 0x0, 0x22f1, 0x0,
    0x22f9, 0x0, 0x2301, 0x0, 0x2309, 0x0, 0x2311, 0x0,
    0x2319, 0x0, 0x2321, 0x0, 0x0, 0x0, 0x0, 0x0,
    0x0, 0x0, 0x2329, 0x0, 0x2331, 0x0, 0x2339, 0x0,
    0x2341, 0x0, 0x2349, 0x0, 0x2351, 0x0, 0x2359, 0x0,
    0x0, 0x0, 0x2361, 0x0, 0x2369, 0x0, 0x2371, 0x0,
    0x2379, 0x0, 0x2381, 0x0, 0x2389, 0x0, 0x2391, 0x0,
    0x2399, 0x0, 0x23a1, 0x0, 0x23a9, 0x0, 0x23b1, 0x0,
    0x23b9, 0x0, 0x23c1, 0x0, 0x23c9, 0x0, 0x23d1, 0x0,
    0x23d9, 0x0, 0x23e1, 0x0, 0x23e9, 0x0, 0x23f1, 0x0,
    0x23f9, 0x0, 0x2401, 0x0, 0x2409, 0x0, 0x2411, 0x0,
    0x2419, 0x0, 0x2421, 0x0, 0x2429, 0x0, 0x2431, 0x0,
    0x2439, 0x0, 0x2441, 0x0, 0x2449, 0x0, 0x2451, 0x0,
    0x0, 0x0, 0x0, 0x0, 0x0, 0x0, 0x0, 0x0,
    0x0, 0x2459, 0x0, 0x2461, 0x0, 0x2469, 0x2471, 0x0,
    0x2479, 0x0, 0x2481, 0x0, 0x2489, 0x0, 0x2491, 0x0,
    0x0, 0x0, 0x0, 0x2499, 0x0, 0x24a1, 0x0, 0x0,
    0x24a9, 0x0, 0x24b1, 0x0, 0x0, 0x0, 0x24b9, 0x0,
    0x24c1, 0x0, 0x24c9, 0x0, 0x24d1, 0x0, 0x24d9, 0x0,
    0x24e1, 0x0, 0x24e9, 0x0, 0x24f1, 0x0, 0x24f9, 0x0,
    0x2501, 0x0, 0x2509, 0x2511, 0x2519, 0x2521, 0x2529, 0x0,
    0x2531, 0x2539, 0x2541, 0x2549, 0x2551, 0x0, 0x2559, 0x0,
    0x0, 0x0, 0x0, 0x0, 0x0, 0x0, 0x0, 0x0]"

definition cf_trie_10 :: "nat list" where
  "cf_trie_10 =
   [0x2561, 0x2569, 0x2571, 0x2579, 0x2581, 0x2589, 0x2591, 0x2599,
    0x25a1, 0x25a9, 0x25b1, 0x25b9, 0x25c1, 0x25c9, 0x25d1, 0x25d9,
    0x25e1, 0x25e9, 0x25f1, 0x25f9, 0x2601, 0x2609, 0x2611, 0x2619,
    0x2621, 0x2629, 0x2631, 0x2639, 0x2641, 0x2649, 0x2651, 0x2659,
    0x2661, 0x2669, 0x2671, 0x2679, 0x2681, 0x2689, 0x2691, 0x2699,
    0x26a1, 0x26a9, 0x26b1, 0x26b9, 0x26c1, 0x26c9, 0x26d1, 0x26d9,
    0x26e1, 0x26e9, 0x26f1, 0x26f9, 0x2701, 0x2709, 0x2711, 0x2719,
    0x2721, 0x2729, 0x2731, 0x2739, 0x2741, 0x2749, 0x2751, 0x2759,
    0x2761, 0x2769, 0x2771, 0x2779, 0x2781, 0x2789, 0x2791, 0x2799,
    0x27a1, 0x27a9, 0x27b1, 0x27b9, 0x27c1, 0x27c9, 0x27d1, 0x27d9,
    0x27e2, 0x27f2, 0x2802, 0x2813, 0x282b, 0x2842, 0x2852, 0x0,
    0x0, 0x0, 0x0, 0x0, 0x0, 0x0, 0x0, 0x0,
    0x0, 0x0, 0x0, 0x2862, 0x2872, 0x2882, 0x2892, 0x28a2,
    0x0, 0x0, 0x0, 0x0, 0x0, 0x0, 0x0, 0x0,
    0x0, 0x28b1, 0x28b9, 0x28c1, 0x28c9, 0x28d1, 0x28d9, 0x28e1,
    0x28e9, 0x28f1, 0x28f9, 0x2901, 0x2909, 0x2911, 0x2919, 0x2921,
    0x2929, 0x2931, 0x2939, 0x2941, 0x2949, 0x2951, 0x2959, 0x2961,
    0x2969, 0x2971, 0x2979, 0x0, 0x0, 0x0, 0x0, 0x0,
    0x2981, 0x2989, 0x2991, 0x2999, 0x29a1, 0x29a9, 0x29b1, 0x29b9,
    0x29c1, 0x29c9, 0x29d1, 0x29d9, 0x29e1, 0x29e9, 0x29f1, 0x29f9,
    0x2a01, 0x2a09, 0x2a11, 0x2a19, 0x2a21, 0x2a29, 0x2a31, 0x2a39,
    0x2a41, 0x2a49, 0x2a51, 0x2a59, 0x2a61, 0x2a69, 0x2a71, 0x2a79,
    0x2a81, 0x2a89, 0x2a91, 0x2a99, 0x2aa1, 0x2aa9, 0x2ab1, 0x2ab9,
    0x0, 0x0, 0x0, 0x0, 0x0, 0x0, 0x0, 0x0,
    0x2ac1, 0x2ac9, 0x2ad1, 0x2ad9, 0x2ae1, 0x2ae9, 0x2af1, 0x2af9,
    0x2b01, 0x2b09, 0x2b11, 0x2b19, 0x2b21, 0x2b29, 0x2b31, 0x2b39,
    0x2b41, 0x2b49, 0x2b51, 0x2b59, 0x2b61, 0x2b69, 0x2b71, 0x2b79,
    0x2b81, 0x2b89, 0x2b91, 0x2b99, 0x2ba1, 0x2ba9, 0x2bb1, 0x2bb9,
    0x2bc1, 0x2bc9, 0x2bd1, 0x2bd9, 0x0, 0x0, 0x0, 0x0,
    0x0, 0x0, 0x0, 0x0, 0x0, 0x0, 0x0, 0x0,
    0x2be1, 0x2be9, 0x2bf1, 0x2bf9, 0x2c01, 0x2c09, 0x2c11, 0x2c19,
    0x2c21, 0x2c29, 0x2c31, 0x2c39, 0x2c41, 0x2c49, 0x2c51, 0x2c59]"

definition cf_trie_11 :: "nat list" where
  "cf_trie_11 =
   [0x2c61, 0x2c69, 0x2c71, 0x2c79, 0x2c81, 0x2c89, 0x2c91, 0x2c99,
    0x2ca1, 0x2ca9, 0x2cb1, 0x2cb9, 0x2cc1, 0x2cc9, 0x2cd1, 0x2cd9,
    0x2ce1, 0x2ce9, 0x2cf1, 0x2cf9, 0x2d01, 0x2d09, 0x2d11, 0x2d19,
    0x2d21, 0x2d29, 0x2d31, 0x2d39, 0x2d41, 0x2d49, 0x2d51, 0x2d59,
    0x2d61, 0x2d69, 0x2d71, 0x0, 0x0, 0x0, 0x0, 0x0,
    0x0, 0x0, 0x0, 0x0, 0x0, 0x0, 0x0, 0x0,
    0x2d79, 0x2d81, 0x2d89, 0x2d91, 0x2d99, 0x2da1, 0x2da9, 0x2db1,
    0x2db9, 0x2dc1, 0x2dc9, 0x2dd1, 0x2dd9, 0x2de1, 0x2de9, 0x2df1,
    0x2df9, 0x2e01, 0x2e09, 0x2e11, 0x2e19, 0x2e21, 0x2e29, 0x2e31,
    0x2e39, 0x2e41, 0x2e49, 0x2e51, 0x2e59, 0x2e61, 0x2e69, 0x2e71,
    0x2e79, 0x2e81, 0x2e89, 0x2e91, 0x2e99, 0x2ea1, 0x2ea9, 0x2eb1,
    0x2eb9, 0x2ec1, 0x2ec9, 0x2ed1, 0x2ed9, 0x2ee1, 0x2ee9, 0x2ef1,
    0x2ef9, 0x2f01, 0x2f09, 0x2f11, 0x2f19, 0x2f21, 0x2f29, 0x2f31,
    0x2f39, 0x2f41, 0x2f49, 0x2f51, 0x2f59, 0x2f61, 0x2f69, 0x2f71,
    0x2f79, 0x2f81, 0x0, 0x0, 0x0, 0x0, 0x0, 0x0,
    0x0, 0x0, 0x0, 0x0, 0x0, 0x0, 0x0, 0x0]"

definition cf_trie_blocks :: "nat list list" where
  "cf_trie_blocks = [cf_trie_0, cf_trie_1, cf_trie_2, cf_trie_3, cf_trie_4, cf_trie_5, cf_trie_6, cf_trie_7, cf_trie_8, cf_trie_9, cf_trie_10, cf_trie_11]"

definition cf_0 :: "u32 list" where
  "cf_0 =
   [0x61, 0x62, 0x63, 0x64, 0x65, 0x66,
    0x67, 0x68, 0x69, 0x6a, 0x6b, 0x6c,
    0x6d, 0x6e, 0x6f, 0x70, 0x71, 0x72,
    0x73, 0x74, 0x75, 0x76, 0x77, 0x78,
    0x79, 0x7a, 0x3bc, 0xe0, 0xe1, 0xe2,
    0xe3, 0xe4, 0xe5, 0xe6, 0xe7, 0xe8,
    0xe9, 0xea, 0xeb, 0xec, 0xed, 0xee,
    0xef, 0xf0, 0xf1, 0xf2, 0xf3, 0xf4,
    0xf5, 0xf6, 0xf8, 0xf9, 0xfa, 0xfb,
    0xfc, 0xfd, 0xfe, 0x73, 0x73, 0x101,
    0x103, 0x105, 0x107, 0x109, 0x10b, 0x10d,
    0x10f, 0x111, 0x113, 0x115, 0x117, 0x119,
    0x11b, 0x11d, 0x11f, 0x121, 0x123, 0x125,
    0x127, 0x129, 0x12b, 0x12d, 0x12f, 0x69,
    0x307, 0x133, 0x135, 0x137, 0x13a, 0x13c,
    0x13e, 0x140, 0x142, 0x144, 0x146, 0x148,
    0x2bc, 0x6e, 0x14b, 0x14d, 0x14f, 0x151,
    0x153, 0x155, 0x157, 0x159, 0x15b, 0x15d,
    0x15f, 0x161, 0x163, 0x165, 0x167, 0x169,
    0x16b, 0x16d, 0x16f, 0x171, 0x173, 0x175,
    0x177, 0xff, 0x17a, 0x17c, 0x17e, 0x73,
    0x253, 0x183, 0x185, 0x254, 0x188, 0x256,
    0x257, 0x18c, 0x1dd, 0x259, 0x25b, 0x192,
    0x260, 0x263, 0x269, 0x268, 0x199, 0x26f,
    0x272, 0x275, 0x1a1, 0x1a3, 0x1a5, 0x280,
    0x1a8, 0x283, 0x1ad, 0x288, 0x1b0, 0x28a,
    0x28b, 0x1b4, 0x1b6, 0x292, 0x1b9, 0x1bd,
    0x1c6, 0x1c6, 0x1c9, 0x1c9, 0x1cc, 0x1cc,
    0x1ce, 0x1d0, 0x1d2, 0x1d4, 0x1d6, 0x1d8,
    0x1da, 0x1dc, 0x1df, 0x1e1, 0x1e3, 0x1e5,
    0x1e7, 0x1e9, 0x1eb, 0x1ed, 0x1ef, 0x6a,
    0x30c, 0x1f3, 0x1f3, 0x1f5, 0x195, 0x1bf,
    0x1f9, 0x1fb, 0x1fd, 0x1ff, 0x201, 0x203,
    0x205, 0x207, 0x209, 0x20b, 0x20d, 0x20f,
    0x211, 0x213, 0x215, 0x217, 0x219, 0x21b,
    0x21d, 0x21f, 0x19e, 0x223, 0x225, 0x227,
    0x229, 0x22b, 0x22d, 0x22f, 0x231, 0x233,
    0x2c65, 0x23c, 0x19a, 0x2c66, 0x242, 0x180,
    0x289, 0x28c, 0x247, 0x249, 0x24b, 0x24d,
    0x24f, 0x3b9, 0x371, 0x373, 0x377, 0x3f3]"

definition cf_1 :: "u32 list" where
  "cf_1 =
   [0x3ac, 0x3ad, 0x3ae, 0x3af, 0x3cc, 0x3cd,
    0x3ce, 0x3b9, 0x308, 0x301, 0x3b1, 0x3b2,
    0x3b3, 0x3b4, 0x3b5, 0x3b6, 0x3b7, 0x3b8,
    0x3b9, 0x3ba, 0x3bb, 0x3bc, 0x3bd, 0x3be,
    0x3bf, 0x3c0, 0x3c1, 0x3c3, 0x3c4, 0x3c5,
    0x3c6, 0x3c7, 0x3c8, 0x3c9, 0x3ca, 0x3cb,
    0x3c5, 0x308, 0x301, 0x3c3, 0x3d7, 0x3b2,
    0x3b8, 0x3c6, 0x3c0, 0x3d9, 0x3db, 0x3dd,
    0x3df, 0x3e1, 0x3e3, 0x3e5, 0x3e7, 0x3e9,
    0x3eb, 0x3ed, 0x3ef, 0x3ba, 0x3c1, 0x3b8,
    0x3b5, 0x3f8, 0x3f2, 0x3fb, 0x37b, 0x37c,
    0x37d, 0x450, 0x451, 0x452, 0x453, 0x454,
    0x455, 0x456, 0x457, 0x458, 0x459, 0x45a,
    0x45b, 0x45c, 0x45d, 0x45e, 0x45f, 0x430,
    0x431, 0x432, 0x433, 0x434, 0x435, 0x436,
    0x437, 0x438, 0x439, 0x43a, 0x43b, 0x43c,
    0x43d, 0x43e, 0x43f, 0x440, 0x441, 0x442,
    0x443, 0x444, 0x445, 0x446, 0x447, 0x448,
    0x449, 0x44a, 0x44b, 0x44c, 0x44d, 0x44e,
    0x44f, 0x461, 0x463, 0x465, 0x467, 0x469,
    0x46b, 0x46d, 0x46f, 0x471, 0x473, 0x475,
    0x477, 0x479, 0x47b, 0x47d, 0x47f, 0x481,
    0x48b, 0x48d, 0x48f, 0x491, 0x493, 0x495,
    0x497, 0x499, 0x49b, 0x49d, 0x49f, 0x4a1,
    0x4a3, 0x4a5, 0x4a7, 0x4a9, 0x4ab, 0x4ad,
    0x4af, 0x4b1, 0x4b3, 0x4b5, 0x4b7, 0x4b9,
    0x4bb, 0x4bd, 0x4bf, 0x4cf, 0x4c2, 0x4c4,
    0x4c6, 0x4c8, 0x4ca, 0x4cc, 0x4ce, 0x4d1,
    0x4d3, 0x4d5, 0x4d7, 0x4d9, 0x4db, 0x4dd,
    0x4df, 0x4e1, 0x4e3, 0x4e5, 0x4e7, 0x4e9,
    0x4eb, 0x4ed, 0x4ef, 0x4f1, 0x4f3, 0x4f5,
    0x4f7, 0x4f9, 0x4fb, 0x4fd, 0x4ff, 0x501,
    0x503, 0x505, 0x507, 0x509, 0x50b, 0x50d,
    0x50f, 0x511, 0x513, 0x515, 0x517, 0x519,
    0x51b, 0x51d, 0x51f, 0x521, 0x523, 0x525,
    0x527, 0x529, 0x52b, 0x52d, 0x52f, 0x561,
    0x562, 0x563, 0x564, 0x565, 0x566, 0x567,
    0x568, 0x569, 0x56a, 0x56b, 0x56c, 0x56d,
    0x56e, 0x56f, 0x570, 0x571, 0x572, 0x573,
    0x574, 0x575, 0x576, 0x577, 0x578, 0x579]"

definition cf_2 :: "u32 list" where
  "cf_2 =
   [0x57a, 0x57b, 0x57c, 0x57d, 0x57e, 0x57f,
    0x580, 0x581, 0x582, 0x583, 0x584, 0x585,
    0x586, 0x565, 0x582, 0x2d00, 0x2d01, 0x2d02,
    0x2d03, 0x2d04, 0x2d05, 0x2d06, 0x2d07, 0x2d08,
    0x2d09, 0x2d0a, 0x2d0b, 0x2d0c, 0x2d0d, 0x2d0e,
    0x2d0f, 0x2d10, 0x2d11, 0x2d12, 0x2d13, 0x2d14,
    0x2d15, 0x2d16, 0x2d17, 0x2d18, 0x2d19, 0x2d1a,
    0x2d1b, 0x2d1c, 0x2d1d, 0x2d1e, 0x2d1f, 0x2d20,
    0x2d21, 0x2d22, 0x2d23, 0x2d24, 0x2d25, 0x2d27,
    0x2d2d, 0x13f0, 0x13f1, 0x13f2, 0x13f3, 0x13f4,
    0x13f5, 0x432, 0x434, 0x43e, 0x441, 0x442,
    0x442, 0x44a, 0x463, 0xa64b, 0x1e01, 0x1e03,
    0x1e05, 0x1e07, 0x1e09, 0x1e0b, 0x1e0d, 0x1e0f,
    0x1e11, 0x1e13, 0x1e15, 0x1e17, 0x1e19, 0x1e1b,
    0x1e1d, 0x1e1f, 0x1e21, 0x1e23, 0x1e25, 0x1e27,
    0x1e29, 0x1e2b, 0x1e2d, 0x1e2f, 0x1e31, 0x1e33,
    0x1e35, 0x1e37, 0x1e39, 0x1e3b, 0x1e3d, 0x1e3f,
    0x1e41, 0x1e43, 0x1e45, 0x1e47, 0x1e49, 0x1e4b,
    0x1e4d, 0x1e4f, 0x1e51, 0x1e53, 0x1e55, 0x1e57,
    0x1e59, 0x1e5b, 0x1e5d, 0x1e5f, 0x1e61, 0x1e63,
    0x1e65, 0x1e67, 0x1e69, 0x1e6b, 0x1e6d, 0x1e6f,
    0x1e71, 0x1e73, 0x1e75, 0x1e77, 0x1e79, 0x1e7b,
    0x1e7d, 0x1e7f, 0x1e81, 0x1e83, 0x1e85, 0x1e87,
    0x1e89, 0x1e8b, 0x1e8d, 0x1e8f, 0x1e91, 0x1e93,
    0x1e95, 0x68, 0x331, 0x74, 0x308, 0x77,
    0x30a, 0x79, 0x30a, 0x61, 0x2be, 0x1e61,
    0x73, 0x73, 0x1ea1, 0x1ea3, 0x1ea5, 0x1ea7,
    0x1ea9, 0x1eab, 0x1ead, 0x1eaf, 0x1eb1, 0x1eb3,
    0x1eb5, 0x1eb7, 0x1eb9, 0x1ebb, 0x1ebd, 0x1ebf,
    0x1ec1, 0x1ec3, 0x1ec5, 0x1ec7, 0x1ec9, 0x1ecb,
    0x1ecd, 0x1ecf, 0x1ed1, 0x1ed3, 0x1ed5, 0x1ed7,
    0x1ed9, 0x1edb, 0x1edd, 0x1edf, 0x1ee1, 0x1ee3,
    0x1ee5, 0x1ee7, 0x1ee9, 0x1eeb, 0x1eed, 0x1eef,
    0x1ef1, 0x1ef3, 0x1ef5, 0x1ef7, 0x1ef9, 0x1efb,
    0x1efd, 0x1eff, 0x1f00, 0x1f01, 0x1f02, 0x1f03,
    0x1f04, 0x1f05, 0x1f06, 0x1f07, 0x1f10, 0x1f11,
    0x1f12, 0x1f13, 0x1f14, 0x1f15, 0x1f20, 0x1f21,
    0x1f22, 0x1f23, 0x1f24, 0x1f25, 0x1f26, 0x1f27,
    0x1f30, 0x1f31, 0x1f32, 0x1f33, 0x1f34, 0x1f35,
    0x1f36, 0x1f37, 0x1f40, 0x1f41, 0x1f42, 0x1f43]"

definition cf_3 :: "u32 list" where
  "cf_3 =
   [0x1f44, 0x1f45, 0x3c5, 0x313, 0x3c5, 0x313,
    0x300, 0x3c5, 0x313, 0x301, 0x3c5, 0x313,
    0x342, 0x1f51, 0x1f53, 0x1f55, 0x1f57, 0x1f60,
    0x1f61, 0x1f62, 0x1f63, 0x1f64, 0x1f65, 0x1f66,
    0x1f67, 0x1f00, 0x3b9, 0x1f01, 0x3b9, 0x1f02,
    0x3b9, 0x1f03, 0x3b9, 0x1f04, 0x3b9, 0x1f05,
    0x3b9, 0x1f06, 0x3b9, 0x1f07, 0x3b9, 0x1f00,
    0x3b9, 0x1f01, 0x3b9, 0x1f02, 0x3b9, 0x1f03,
    0x3b9, 0x1f04, 0x3b9, 0x1f05, 0x3b9, 0x1f06,
    0x3b9, 0x1f07, 0x3b9, 0x1f20, 0x3b9, 0x1f21,
    0x3b9, 0x1f22, 0x3b9, 0x1f23, 0x3b9, 0x1f24,
    0x3b9, 0x1f25, 0x3b9, 0x1f26, 0x3b9, 0x1f27,
    0x3b9, 0x1f20, 0x3b9, 0x1f21, 0x3b9, 0x1f22,
    0x3b9, 0x1f23, 0x3b9, 0x1f24, 0x3b9, 0x1f25,
    0x3b9, 0x1f26, 0x3b9, 0x1f27, 0x3b9, 0x1f60,
    0x3b9, 0x1f61, 0x3b9, 0x1f62, 0x3b9, 0x1f63,
    0x3b9, 0x1f64, 0x3b9, 0x1f65, 0x3b9, 0x1f66,
    0x3b9, 0x1f67, 0x3b9, 0x1f60, 0x3b9, 0x1f61,
    0x3b9, 0x1f62, 0x3b9, 0x1f63, 0x3b9, 0x1f64,
    0x3b9, 0x1f65, 0x3b9, 0x1f66, 0x3b9, 0x1f67,
    0x3b9, 0x1f70, 0x3b9, 0x3b1, 0x3b9, 0x3ac,
    0x3b9, 0x3b1, 0x342, 0x3b1, 0x342, 0x3b9,
    0x1fb0, 0x1fb1, 0x1f70, 0x1f71, 0x3b1, 0x3b9,
    0x3b9, 0x1f74, 0x3b9, 0x3b7, 0x3b9, 0x3ae,
    0x3b9, 0x3b7, 0x342, 0x3b7, 0x342, 0x3b9,
    0x1f72, 0x1f73, 0x1f74, 0x1f75, 0x3b7, 0x3b9,
    0x3b9, 0x308, 0x300, 0x3b9, 0x308, 0x301,
    0x3b9, 0x342, 0x3b9, 0x308, 0x342, 0x1fd0,
    0x1fd1, 0x1f76, 0x1f77, 0x3c5, 0x308, 0x300,
    0x3c5, 0x308, 0x301, 0x3c1, 0x313, 0x3c5,
    0x342, 0x3c5, 0x308, 0x342, 0x1fe0, 0x1fe1,
    0x1f7a, 0x1f7b, 0x1fe5, 0x1f7c, 0x3b9, 0x3c9,
    0x3b9, 0x3ce, 0x3b9, 0x3c9, 0x342, 0x3c9,
    0x342, 0x3b9, 0x1f78, 0x1f79, 0x1f7c, 0x1f7d,
    0x3c9, 0x3b9, 0x3c9, 0x6b, 0xe5, 0x214e,
    0x2170, 0x2171, 0x2172, 0x2173, 0x2174, 0x2175,
    0x2176, 0x2177, 0x2178, 0x2179, 0x217a, 0x217b,
    0x217c, 0x217d, 0x217e, 0x217f, 0x2184, 0x24d0,
    0x24d1, 0x24d2, 0x24d3, 0x24d4, 0x24d5, 0x24d6,
    0x24d7, 0x24d8, 0x24d9, 0x24da, 0x24db, 0x24dc]"

definition cf_4 :: "u32 list" where
  "cf_4 =
   [0x24dd, 0x24de, 0x24df, 0x24e0, 0x24e1, 0x24e2,
    0x24e3, 0x24e4, 0x24e5, 0x24e6, 0x24e7, 0x24e8,
    0x24e9, 0x2c30, 0x2c31, 0x2c32, 0x2c33, 0x2c34,
    0x2c35, 0x2c36, 0x2c37, 0x2c38, 0x2c39, 0x2c3a,
    0x2c3b, 0x2c3c, 0x2c3d, 0x2c3e, 0x2c3f, 0x2c40,
    0x2c41, 0x2c42, 0x2c43, 0x2c44, 0x2c45, 0x2c46,
    0x2c47, 0x2c48, 0x2c49, 0x2c4a, 0x2c4b, 0x2c4c,
    0x2c4d, 0x2c4e, 0x2c4f, 0x2c50, 0x2c51, 0x2c52,
    0x2c53, 0x2c54, 0x2c55, 0x2c56, 0x2c57, 0x2c58,
    0x2c59, 0x2c5a, 0x2c5b, 0x2c5c, 0x2c5d, 0x2c5e,
    0x2c61, 0x26b, 0x1d7d, 0x27d, 0x2c68, 0x2c6a,
    0x2c6c, 0x251, 0x271, 0x250, 0x252, 0x2c73,
    0x2c76, 0x23f, 0x240, 0x2c81, 0x2c83, 0x2c85,
    0x2c87, 0x2c89, 0x2c8b, 0x2c8d, 0x2c8f, 0x2c91,
    0x2c93, 0x2c95, 0x2c97, 0x2c99, 0x2c9b, 0x2c9d,
    0x2c9f, 0x2ca1, 0x2ca3, 0x2ca5, 0x2ca7, 0x2ca9,
    0x2cab, 0x2cad, 0x2caf, 0x2cb1, 0x2cb3, 0x2cb5,
    0x2cb7, 0x2cb9, 0x2cbb, 0x2cbd, 0x2cbf, 0x2cc1,
    0x2cc3, 0x2cc5, 0x2cc7, 0x2cc9, 0x2ccb, 0x2ccd,
    0x2ccf, 0x2cd1, 0x2cd3, 0x2cd5, 0x2cd7, 0x2cd9,
    0x2cdb, 0x2cdd, 0x2cdf, 0x2ce1, 0x2ce3, 0x2cec,
    0x2cee, 0x2cf3, 0xa641, 0xa643, 0xa645, 0xa647,
    0xa649, 0xa64b, 0xa64d, 0xa64f, 0xa651, 0xa653,
    0xa655, 0xa657, 0xa659, 0xa65b, 0xa65d, 0xa65f,
    0xa661, 0xa663, 0xa665, 0xa667, 0xa669, 0xa66b,
    0xa66d, 0xa681, 0xa683, 0xa685, 0xa687, 0xa689,
    0xa68b, 0xa68d, 0xa68f, 0xa691, 0xa693, 0xa695,
    0xa697, 0xa699, 0xa69b, 0xa723, 0xa725, 0xa727,
    0xa729, 0xa72b, 0xa72d, 0xa72f, 0xa733, 0xa735,
    0xa737, 0xa739, 0xa73b, 0xa73d, 0xa73f, 0xa741,
    0xa743, 0xa745, 0xa747, 0xa749, 0xa74b, 0xa74d,
    0xa74f, 0xa751, 0xa753, 0xa755, 0xa757, 0xa759,
    0xa75b, 0xa75d, 0xa75f, 0xa761, 0xa763, 0xa765,
    0xa767, 0xa769, 0xa76b, 0xa76d, 0xa76f, 0xa77a,
    0xa77c, 0x1d79, 0xa77f, 0xa781, 0xa783, 0xa785,
    0xa787, 0xa78c, 0x265, 0xa791, 0xa793, 0xa797,
    0xa799, 0xa79b, 0xa79d, 0xa79f, 0xa7a1, 0xa7a3,
    0xa7a5, 0xa7a7, 0xa7a9, 0x266, 0x25c, 0x261,
    0x26c, 0x26a, 0x29e, 0x287, 0x29d, 0xab53,
    0xa7b5, 0xa7b7, 0x13a0, 0x13a1, 0x13a2, 0x13a3]"

definition cf_5 :: "u32 list" where
  "cf_5 =
   [0x13a4, 0x13a5, 0x13a6, 0x13a7, 0x13a8, 0x13a9,
    0x13aa, 0x13ab, 0x13ac, 0x13ad, 0x13ae, 0x13af,
    0x13b0, 0x13b1, 0x13b2, 0x13b3, 0x13b4, 0x13b5,
    0x13b6, 0x13b7, 0x13b8, 0x13b9, 0x13ba, 0x13bb,
    0x13bc, 0x13bd, 0x13be, 0x13bf, 0x13c0, 0x13c1,
    0x13c2, 0x13c3, 0x13c4, 0x13c5, 0x13c6, 0x13c7,
    0x13c8, 0x13c9, 0x13ca, 0x13cb, 0x13cc, 0x13cd,
    0x13ce, 0x13cf, 0x13d0, 0x13d1, 0x13d2, 0x13d3,
    0x13d4, 0x13d5, 0x13d6, 0x13d7, 0x13d8, 0x13d9,
    0x13da, 0x13db, 0x13dc, 0x13dd, 0x13de, 0x13df,
    0x13e0, 0x13e1, 0x13e2, 0x13e3, 0x13e4, 0x13e5,
    0x13e6, 0x13e7, 0x13e8, 0x13e9, 0x13ea, 0x13eb,
    0x13ec, 0x13ed, 0x13ee, 0x13ef, 0x66, 0x66,
    0x66, 0x69, 0x66, 0x6c, 0x66, 0x66,
    0x69, 0x66, 0x66, 0x6c, 0x73, 0x74,
    0x73, 0x74, 0x574, 0x576, 0x574, 0x565,
    0x574, 0x56b, 0x57e, 0x576, 0x574, 0x56d,
    0xff41, 0xff42, 0xff43, 0xff44, 0xff45, 0xff46,
    0xff47, 0xff48, 0xff49, 0xff4a, 0xff4b, 0xff4c,
    0xff4d, 0xff4e, 0xff4f, 0xff50, 0xff51, 0xff52,
    0xff53, 0xff54, 0xff55, 0xff56, 0xff57, 0xff58,
    0xff59, 0xff5a, 0x10428, 0x10429, 0x1042a, 0x1042b,
    0x1042c, 0x1042d, 0x1042e, 0x1042f, 0x10430, 0x10431,
    0x10432, 0x10433, 0x10434, 0x10435, 0x10436, 0x10437,
    0x10438, 0x10439, 0x1043a, 0x1043b, 0x1043c, 0x1043d,
    0x1043e, 0x1043f, 0x10440, 0x10441, 0x10442, 0x10443,
    0x10444, 0x10445, 0x10446, 0x10447, 0x10448, 0x10449,
    0x1044a, 0x1044b, 0x1044c, 0x1044d, 0x1044e, 0x1044f,
    0x104d8, 0x104d9, 0x104da, 0x104db, 0x104dc, 0x104dd,
    0x104de, 0x104df, 0x104e0, 0x104e1, 0x104e2, 0x104e3,
    0x104e4, 0x104e5, 0x104e6, 0x104e7, 0x104e8, 0x104e9,
    0x104ea, 0x104eb, 0x104ec, 0x104ed, 0x104ee, 0x104ef,
    0x104f0, 0x104f1, 0x104f2, 0x104f3, 0x104f4, 0x104f5,
    0x104f6, 0x104f7, 0x104f8, 0x104f9, 0x104fa, 0x104fb,
    0x10cc0, 0x10cc1, 0x10cc2, 0x10cc3, 0x10cc4, 0x10cc5,
    0x10cc6, 0x10cc7, 0x10cc8, 0x10cc9, 0x10cca, 0x10ccb,
    0x10ccc, 0x10ccd, 0x10cce, 0x10ccf, 0x10cd0, 0x10cd1,
    0x10cd2, 0x10cd3, 0x10cd4, 0x10cd5, 0x10cd6, 0x10cd7,
    0x10cd8, 0x10cd9, 0x10cda, 0x10cdb, 0x10cdc, 0x10cdd,
    0x10cde, 0x10cdf, 0x10ce0, 0x10ce1, 0x10ce2, 0x10ce3]"

definition cf_6 :: "u32 list" where
  "cf_6 =
   [0x10ce4, 0x10ce5, 0x10ce6, 0x10ce7, 0x10ce8, 0x10ce9,
    0x10cea, 0x10ceb, 0x10cec, 0x10ced, 0x10cee, 0x10cef,
    0x10cf0, 0x10cf1, 0x10cf2, 0x118c0, 0x118c1, 0x118c2,
    0x118c3, 0x118c4, 0x118c5, 0x118c6, 0x118c7, 0x118c8,
    0x118c9, 0x118ca, 0x118cb, 0x118cc, 0x118cd, 0x118ce,
    0x118cf, 0x118d0, 0x118d1, 0x118d2, 0x118d3, 0x118d4,
    0x118d5, 0x118d6, 0x118d7, 0x118d8, 0x118d9, 0x118da,
    0x118db, 0x118dc, 0x118dd, 0x118de, 0x118df, 0x1e922,
    0x1e923, 0x1e924, 0x1e925, 0x1e926, 0x1e927, 0x1e928,
    0x1e929, 0x1e92a, 0x1e92b, 0x1e92c, 0x1e92d, 0x1e92e,
    0x1e92f, 0x1e930, 0x1e931, 0x1e932, 0x1e933, 0x1e934,
    0x1e935, 0x1e936, 0x1e937, 0x1e938, 0x1e939, 0x1e93a,
    0x1e93b, 0x1e93c, 0x1e93d, 0x1e93e, 0x1e93f, 0x1e940,
    0x1e941, 0x1e942, 0x1e943]"

definition cf_blocks :: "u32 list list" where
  "cf_blocks = [cf_0, cf_1, cf_2, cf_3, cf_4, cf_5, cf_6]"

definition ccc_trie_0 :: "nat list" where
  "ccc_trie_0 =
   [0x1, 0x2, 0x0, 0x0, 0x0, 0x0, 0x0, 0x0,
    0x0, 0x0, 0x0, 0x0, 0x0, 0x0, 0x0, 0x0,
    0x3, 0x4, 0x5, 0x6, 0x0, 0x0, 0x0, 0x0,
    0x0, 0x0, 0x7, 0x0, 0x0, 0x0, 0x0, 0x8,
    0x9, 0xa, 0x0, 0x0, 0x0, 0x0, 0xb, 0x0,
    0x0, 0x0, 0x0, 0xc, 0x0, 0xd, 0xe, 0x0,
    0x0, 0x0, 0x0, 0xf, 0x10, 0x11, 0x12, 0x13,
    0x14, 0x15, 0x16, 0x17, 0x18, 0x19, 0x1a, 0x1b,
    0x1c, 0x0, 0x0, 0x1d, 0x0, 0x0, 0x0, 0x1e,
    0x1f, 0x20, 0x21, 0x22, 0x23, 0x24, 0x0, 0x0,
    0x25, 0x0, 0x0, 0x0, 0x0, 0x0, 0x0, 0x0,
    0x0, 0x0, 0x0, 0x0, 0x26, 0x27, 0x0, 0x0,
    0x28, 0x0, 0x0, 0x0, 0x0, 0x0, 0x0, 0x0,
    0x0, 0x0, 0x0, 0x0, 0x0, 0x0, 0x0, 0x0,
    0x0, 0x0, 0x0, 0x0, 0x0, 0x0, 0x29, 0x0,
    0x2a, 0x2b, 0x2c, 0x2d, 0x0, 0x0, 0x0, 0x0,
    0x0, 0x0, 0x0, 0x0, 0x0, 0x0, 0x0, 0x0,
    0x0, 0x0, 0x0, 0x2e, 0x0, 0x0, 0x2f, 0x0,
    0x0, 0x30, 0x31, 0x32, 0x0, 0x0, 0x0, 0x0,
    0x0, 0x0, 0x33, 0x0, 0x0, 0x0, 0x0, 0x0,
    0x34, 0x35, 0x36, 0x37, 0x38, 0x39, 0x3a, 0x3b,
    0x0, 0x0, 0x0, 0x0, 0x3c, 0x0, 0x0, 0x0,
    0x0, 0x0, 0x0, 0x0, 0x0, 0x0, 0x0, 0x0,
    0x0, 0x0, 0x3d, 0x3e, 0x0, 0x0, 0x0, 0x0,
    0x0, 0x0, 0x0, 0x0, 0x0, 0x0, 0x0, 0x0,
    0x0, 0x0, 0x0, 0x0, 0x3f, 0x0, 0x0, 0x0,
    0x0, 0x40, 0x41, 0x0, 0x0, 0x0, 0x0, 0x0,
    0x0, 0x0, 0x0, 0x0, 0x0, 0x0, 0x0, 0x0,
    0x42, 0x0, 0x0, 0x0, 0x0, 0x0, 0x0, 0x0,
    0x43, 0x44, 0x0, 0x0, 0x0, 0x0, 0x0, 0x0,
    0x45, 0x46, 0x47, 0x48, 0x49, 0x4a, 0x4b, 0x0,
    0x0, 0x0, 0x0, 0x0, 0x0, 0x0, 0x0, 0x0]"

definition ccc_trie_1 :: "nat list" where
  "ccc_trie_1 =
   [0x0, 0x0, 0x0, 0x0, 0x0, 0x0, 0x0, 0x0,
    0x4c, 0x0, 0x0, 0x0, 0x0, 0x0, 0x0, 0x0,
    0x0, 0x0, 0x0, 0x0, 0x0, 0x0, 0x0, 0x0,
    0x0, 0x4d, 0x4e, 0x4f, 0x50, 0x0, 0x0, 0x0,
    0x0, 0x51, 0x0, 0x0, 0x52, 0x53, 0x0, 0x54,
    0x0, 0x0, 0x0, 0x0, 0x0, 0x55, 0x56, 0x0,
    0x0, 0x57, 0x0, 0x58, 0x59, 0x0, 0x0, 0x0,
    0x0, 0x0, 0x0, 0x0, 0x0, 0x0, 0x5a, 0x5b,
    0x0, 0x5c, 0x5d, 0x0, 0x0, 0x5e, 0x0, 0x0,
    0x0, 0x0, 0x0, 0x0, 0x0, 0x5f, 0x60, 0x61,
    0x0, 0x0, 0x0, 0x62, 0x63, 0x64, 0x0, 0x0,
    0x0, 0x0, 0x0, 0x65, 0x66, 0x0, 0x0, 0x0,
    0x0, 0x0, 0x0, 0x67, 0x68, 0x0, 0x0, 0x0,
    0x0, 0x0, 0x0, 0x69, 0x6a, 0x0, 0x0, 0x0,
    0x0, 0x0, 0x0, 0x6b, 0x6c, 0x0, 0x0, 0x0,
    0x0, 0x0, 0x0, 0x0, 0x6d, 0x0, 0x0, 0x0,
    0x0, 0x0, 0x0, 0x0, 0x6e, 0x6f, 0x0, 0x0,
    0x0, 0x0, 0x0, 0x70, 0x71, 0x0, 0x0, 0x0,
    0x0, 0x0, 0x0, 0x0, 0x72, 0x0, 0x0, 0x0,
    0x0, 0x0, 0x0, 0x0, 0x73, 0x0, 0x0, 0x0,
    0x0, 0x0, 0x0, 0x74, 0x75, 0x0, 0x0, 0x0,
    0x0, 0x0, 0x0, 0x76, 0x77, 0x0, 0x0, 0x0,
    0x0, 0x78, 0x0, 0x79, 0x0, 0x0, 0x0, 0x7a,
    0x7b, 0x0, 0x0, 0x0, 0x7c, 0x0, 0x0, 0x0,
    0x0, 0x0, 0x0, 0x7d, 0x0, 0x0, 0x0, 0x0,
    0x7e, 0x0, 0x0, 0x0, 0x0, 0x0, 0x0, 0x0,
    0x0, 0x0, 0x0, 0x0, 0x0, 0x7f, 0x0, 0x0,
    0x0, 0x0, 0x0, 0x0, 0x0, 0x0, 0x0, 0x0,
    0x0, 0x80, 0x0, 0x81, 0x0, 0x0, 0x0, 0x0,
    0x0, 0x0, 0x0, 0x0, 0x0, 0x82, 0x0, 0x0,
    0x0, 0x0, 0x0, 0x0, 0x0, 0x0, 0x0, 0x0,
    0x0, 0x0, 0x83, 0x0, 0x0, 0x0, 0x0, 0x0]"

definition ccc_trie_2 :: "nat list" where
  "ccc_trie_2 =
   [0x0, 0x0, 0x0, 0x84, 0x0, 0x0, 0x0, 0x0,
    0x0, 0x0, 0x0, 0x0, 0x0, 0x0, 0x0, 0x0,
    0x0, 0x85, 0x0, 0x0, 0x0, 0x0, 0x86, 0x87,
    0x0, 0x0, 0x0, 0x88, 0x0, 0x0, 0x0, 0x0,
    0x0, 0x0, 0x0, 0x89, 0x8a, 0x0, 0x8b, 0x8c,
    0x0, 0x0, 0x8d, 0x0, 0x0, 0x0, 0x8e, 0x8f,
    0x0, 0x0, 0x0, 0x90, 0x0, 0x0, 0x0, 0x0,
    0x0, 0x0, 0x0, 0x0, 0x0, 0x91, 0x92, 0x93,
    0x0, 0x0, 0x0, 0x0, 0x0, 0x0, 0x0, 0x0,
    0x0, 0x0, 0x0, 0x0, 0x94, 0x95, 0x96, 0x97,
    0x0, 0x0, 0x0, 0x0, 0x0, 0x0, 0x0, 0x0,
    0x0, 0x0, 0x0, 0x0, 0x0, 0x98, 0x99, 0x9a,
    0x0, 0x0, 0x0, 0x0, 0x0, 0x0, 0x0, 0x0,
    0x0, 0x0, 0x0, 0x0, 0x0, 0x0, 0x9b, 0x9c,
    0x0, 0x0, 0x0, 0x0, 0x0, 0x0, 0x0, 0x9d,
    0x0, 0x0, 0x0, 0x0, 0x0, 0x0, 0x9e, 0x9f,
    0x0, 0x0, 0xa0, 0x0, 0x0, 0x0, 0x0, 0x0,
    0x0, 0xa1, 0x0, 0x0, 0x0, 0x0, 0x0, 0x0,
    0x0, 0x0, 0x0, 0x0, 0x0, 0x0, 0xa2, 0xa3,
    0x0, 0xa4, 0x0, 0x0, 0x0, 0x0, 0x0, 0xa5,
    0xa6, 0x0, 0x0, 0x0, 0x0, 0x0, 0x0, 0x0,
    0x0, 0x0, 0x0, 0x0, 0xa7, 0x0, 0xa8, 0xa9,
    0x0, 0x0, 0xaa, 0x0, 0x0, 0xab, 0x0, 0x0,
    0x0, 0x0, 0x0, 0xac, 0xad, 0x0, 0x0, 0x0,
    0x0, 0x0, 0x0, 0x0, 0x0, 0x0, 0x0, 0x0,
    0x0, 0x0, 0x0, 0xae, 0xaf, 0x0, 0x0, 0xb0,
    0x0, 0x0, 0x0, 0x0, 0x0, 0x0, 0x0, 0x0,
    0x0, 0x0, 0x0, 0x0, 0x0, 0x0, 0xb1, 0x0,
    0x0, 0xb2, 0x0, 0x0, 0x0, 0x0, 0x0, 0x0,
    0x0, 0x0, 0x0, 0x0, 0x0, 0x0, 0x0, 0x0,
    0x0, 0x0, 0xb3, 0x0, 0x0, 0x0, 0x0, 0x0,
    0x0, 0x0, 0x0, 0x0, 0x0, 0x0, 0x0, 0x0]"

definition ccc_trie_3 :: "nat list" where
  "ccc_trie_3 =
   [0x0, 0x0, 0x0, 0x0, 0x0, 0x0, 0x0, 0x0,
    0x0, 0x0, 0x0, 0x0, 0x0, 0x0, 0x0, 0xb4,
    0x0, 0x0, 0x0, 0x0, 0x0, 0x0, 0x0, 0x0,
    0x0, 0x0, 0x0, 0x0, 0x0, 0x0, 0xb5, 0x0,
    0x0, 0x0, 0x0, 0x0, 0x0, 0x0, 0x0, 0xb6,
    0x0, 0x0, 0x0, 0x0, 0x0, 0x0, 0x0, 0x0,
    0xb7, 0x0, 0x0, 0xb8, 0x0, 0x0, 0x0, 0x0,
    0x0, 0x0, 0x0, 0x0, 0x0, 0x0, 0xb9, 0x0,
    0x0, 0x0, 0x0, 0x0, 0xba, 0x0, 0x0, 0xbb,
    0x0, 0x0, 0x0, 0xbc, 0x0, 0x0, 0x0, 0x0,
    0xbd, 0x0, 0x0, 0xbe, 0x0, 0x0, 0x0, 0xbf,
    0x0, 0x0, 0x0, 0x0, 0xc0, 0x0, 0x0, 0x0,
    0x0, 0x0, 0x0, 0xc1, 0x0, 0x0, 0x0, 0x0,
    0x0, 0x0, 0x0, 0x0, 0x0, 0x0, 0xc2, 0x0,
    0x0, 0x0, 0x0, 0xc3, 0xc4, 0x0, 0xc5, 0xc6,
    0x0, 0x0, 0x0, 0x0, 0x0, 0x0, 0x0, 0x0,
    0x0, 0x0, 0x0, 0x0, 0xc7, 0x0, 0x0, 0x0,
    0x0, 0x0, 0x0, 0x0, 0xc8, 0x0, 0x0, 0x0,
    0x0, 0x0, 0x0, 0x0, 0x0, 0x0, 0x0, 0x0,
    0x0, 0x0, 0x0, 0xc9, 0xca, 0x0, 0x0, 0x0,
    0x0, 0x0, 0x0, 0xcb, 0x0, 0x0, 0x0, 0x0,
    0x0, 0x0, 0x0, 0xcc, 0x0, 0x0, 0x0, 0x0,
    0x0, 0x0, 0xcd, 0x0, 0x0, 0x0, 0x0, 0x0,
    0x0, 0x0, 0x0, 0x0, 0x0, 0x0, 0x0, 0x0,
    0x0, 0x0, 0x0, 0xce, 0x0, 0x0, 0x0, 0x0,
    0x0, 0x0, 0x0, 0x0, 0x0, 0x0, 0x0, 0x0,
    0x0, 0x0, 0x0, 0x0, 0x0, 0x0, 0x0, 0x0,
    0x0, 0x0, 0x0, 0x0, 0x0, 0x0, 0x0, 0xcf,
    0x0, 0x0, 0x0, 0xd0, 0x0, 0x0, 0x0, 0x0,
    0x0, 0x0, 0x0, 0x0, 0x0, 0x0, 0x0, 0x0,
    0x0, 0x0, 0x0, 0x0, 0x0, 0x0, 0x0, 0x0,
    0x0, 0xd1, 0x0, 0x0, 0x0, 0x0, 0x0, 0x0]"

definition ccc_trie_4 :: "nat list" where
  "ccc_trie_4 =
   [0x0, 0x0, 0x0, 0x0, 0x0, 0x0, 0xd2, 0xd3,
    0xd4, 0x0, 0xd5, 0x0, 0x0, 0x0, 0x0, 0x0,
    0x0, 0x0, 0x0, 0x0, 0xd6, 0x0, 0x0, 0x0,
    0x0, 0x0, 0x0, 0x0, 0x0, 0x0, 0x0, 0x0,
    0xd7, 0xd8, 0xd9, 0x0, 0x0, 0x0, 0x0, 0x0,
    0x0, 0x0, 0x0, 0x0, 0x0, 0x0, 0x0, 0x0,
    0x0, 0x0, 0x0, 0x0, 0x0, 0x0, 0x0, 0x0,
    0x0, 0x0, 0x0, 0x0, 0x0, 0xda, 0x0, 0x0,
    0x0, 0x0, 0x0, 0x0, 0xdb, 0x0, 0x0, 0x0,
    0x0, 0x0, 0x0, 0x0, 0x0, 0x0, 0x0, 0x0,
    0xe6, 0xe6, 0xe6, 0xe6, 0xe6, 0xe6, 0xe6, 0xe6,
    0xe6, 0xe6, 0xe6, 0xe6, 0xe6, 0xe6, 0xe6, 0xe6,
    0xe6, 0xe6, 0xe6, 0xe6, 0xe6, 0xe8, 0xdc, 0xdc,
    0xdc, 0xdc, 0xe8, 0xd8, 0xdc, 0xdc, 0xdc, 0xdc,
    0xdc, 0xca, 0xca, 0xdc, 0xdc, 0xdc, 0xdc, 0xca,
    0xca, 0xdc, 0xdc, 0xdc, 0xdc, 0xdc, 0xdc, 0xdc,
    0xdc, 0xdc, 0xdc, 0xdc, 0x1, 0x1, 0x1, 0x1,
    0x1, 0xdc, 0xdc, 0xdc, 0xdc, 0xe6, 0xe6, 0xe6,
    0xe6, 0xe6, 0xe6, 0xe6, 0xe6, 0xf0, 0xe6, 0xdc,
    0xdc, 0xdc, 0xe6, 0xe6, 0xe6, 0xdc, 0xdc, 0x0,
    0xe6, 0xe6, 0xe6, 0xdc, 0xdc, 0xdc, 0xdc, 0xe6,
    0xe8, 0xdc, 0xdc, 0xe6, 0xe9, 0xea, 0xea, 0xe9,
    0xea, 0xea, 0xe9, 0xe6, 0xe6, 0xe6, 0xe6, 0xe6,
    0xe6, 0xe6, 0xe6, 0xe6, 0xe6, 0xe6, 0xe6, 0xe6,
    0x0, 0x0, 0x0, 0xe6, 0xe6, 0xe6, 0xe6, 0xe6,
    0x0, 0x0, 0x0, 0x0, 0x0, 0x0, 0x0, 0x0,
    0x0, 0xdc, 0xe6, 0xe6, 0xe6, 0xe6, 0xdc, 0xe6,
    0xe6, 0xe6, 0xde, 0xdc, 0xe6, 0xe6, 0xe6, 0xe6,
    0xe6, 0xe6, 0xdc, 0xdc, 0xdc, 0xdc, 0xdc, 0xdc,
    0xe6, 0xe6, 0xdc, 0xe6, 0xe6, 0xde, 0xe4, 0xe6,
    0xa, 0xb, 0xc, 0xd, 0xe, 0xf, 0x10, 0x11,
    0x12, 0x13, 0x13, 0x14, 0x15, 0x16, 0x0, 0x17]"

definition ccc_trie_5 :: "nat list" where
  "ccc_trie_5 =
   [0x0, 0x18, 0x19, 0x0, 0xe6, 0xdc, 0x0, 0x12,
    0x0, 0x0, 0x0, 0x0, 0x0, 0x0, 0x0, 0x0,
    0xe6, 0xe6, 0xe6, 0xe6, 0xe6, 0xe6, 0xe6, 0xe6,
    0x1e, 0x1f, 0x20, 0x0, 0x0, 0x0, 0x0, 0x0,
    0x0, 0x0, 0x0, 0x0, 0x0, 0x0, 0x0, 0x0,
    0x0, 0x0, 0x0, 0x1b, 0x1c, 0x1d, 0x1e, 0x1f,
    0x20, 0x21, 0x22, 0xe6, 0xe6, 0xdc, 0xdc, 0xe6,
    0xe6, 0xe6, 0xe6, 0xe6, 0xdc, 0xe6, 0xe6, 0xdc,
    0x23, 0x0, 0x0, 0x0, 0x0, 0x0, 0x0, 0x0,
    0x0, 0x0, 0x0, 0x0, 0x0, 0x0, 0x0, 0x0,
    0x0, 0x0, 0x0, 0x0, 0x0, 0x0, 0xe6, 0xe6,
    0xe6, 0xe6, 0xe6, 0xe6, 0xe6, 0x0, 0x0, 0xe6,
    0xe6, 0xe6, 0xe6, 0xdc, 0xe6, 0x0, 0x0, 0xe6,
    0xe6, 0x0, 0xdc, 0xe6, 0xe6, 0xdc, 0x0, 0x0,
    0x0, 0x24, 0x0, 0x0, 0x0, 0x0, 0x0, 0x0,
    0x0, 0x0, 0x0, 0x0, 0x0, 0x0, 0x0, 0x0,
    0xe6, 0xdc, 0xe6, 0xe6, 0xdc, 0xe6, 0xe6, 0xdc,
    0xdc, 0xdc, 0xe6, 0xdc, 0xdc, 0xe6, 0xdc, 0xe6,
    0xe6, 0xe6, 0xdc, 0xe6, 0xdc, 0xe6, 0xdc, 0xe6,
    0xdc, 0xe6, 0xe6, 0x0, 0x0, 0x0, 0x0, 0x0,
    0x0, 0x0, 0x0, 0x0, 0x0, 0x0, 0x0, 0x0,
    0x0, 0x0, 0x0, 0xe6, 0xe6, 0xe6, 0xe6, 0xe6,
    0xe6, 0xe6, 0xdc, 0xe6, 0x0, 0x0, 0x0, 0x0,
    0x0, 0x0, 0x0, 0x0, 0x0, 0x0, 0x0, 0x0,
    0x0, 0x0, 0x0, 0x0, 0x0, 0x0, 0xe6, 0xe6,
    0xe6, 0xe6, 0x0, 0xe6, 0xe6, 0xe6, 0xe6, 0xe6,
    0xe6, 0xe6, 0xe6, 0xe6, 0x0, 0xe6, 0xe6, 0xe6,
    0x0, 0xe6, 0xe6, 0xe6, 0xe6, 0xe6, 0x0, 0x0,
    0x0, 0x0, 0x0, 0x0, 0x0, 0x0, 0x0, 0x0,
    0x0, 0xdc, 0xdc, 0xdc, 0x0, 0x0, 0x0, 0x0,
    0x0, 0x0, 0x0, 0x0, 0xe6, 0xe6, 0xe6, 0xe6,
    0xe6, 0xe6, 0xe6, 0xe6, 0xe6, 0xe6, 0xe6, 0xe6]"

definition ccc_trie_6 :: "nat list" where
  "ccc_trie_6 =
   [0xe6, 0xe6, 0x0, 0xdc, 0xe6, 0xe6, 0xdc, 0xe6,
    0xe6, 0xdc, 0xe6, 0xe6, 0xe6, 0xdc, 0xdc, 0xdc,
    0x1b, 0x1c, 0x1d, 0xe6, 0xe6, 0xe6, 0xdc, 0xe6,
    0xe6, 0xdc, 0xdc, 0xe6, 0xe6, 0xe6, 0xe6, 0xe6,
    0x0, 0x0, 0x0, 0x0, 0x0, 0x0, 0x0, 0x0,
    0x0, 0x0, 0x0, 0x0, 0x7, 0x0, 0x0, 0x0,
    0x0, 0x0, 0x0, 0x0, 0x0, 0x0, 0x0, 0x0,
    0x0, 0x0, 0x0, 0x0, 0x0, 0x9, 0x0, 0x0,
    0x0, 0xe6, 0xdc, 0xe6, 0xe6, 0x0, 0x0, 0x0,
    0x0, 0x0, 0x0, 0x0, 0x0, 0x0, 0x0, 0x0,
    0x0, 0x0, 0x0, 0x0, 0x0, 0x0, 0x0, 0x0,
    0x0, 0x0, 0x0, 0x0, 0x7, 0x0, 0x0, 0x0,
    0x0, 0x0, 0x0, 0x0, 0x0, 0x0, 0x0, 0x0,
    0x0, 0x0, 0x0, 0x0, 0x0, 0x9, 0x0, 0x0,
    0x0, 0x0, 0x0, 0x0, 0x0, 0x0, 0x0, 0x0,
    0x0, 0x0, 0x0, 0x0, 0x7, 0x0, 0x0, 0x0,
    0x0, 0x0, 0x0, 0x0, 0x0, 0x0, 0x0, 0x0,
    0x0, 0x0, 0x0, 0x0, 0x0, 0x9, 0x0, 0x0,
    0x0, 0x0, 0x0, 0x0, 0x0, 0x0, 0x0, 0x0,
    0x0, 0x0, 0x0, 0x0, 0x7, 0x0, 0x0, 0x0,
    0x0, 0x0, 0x0, 0x0, 0x0, 0x0, 0x0, 0x0,
    0x0, 0x0, 0x0, 0x0, 0x0, 0x9, 0x0, 0x0,
    0x0, 0x0, 0x0, 0x0, 0x0, 0x0, 0x0, 0x0,
    0x0, 0x0, 0x0, 0x0, 0x7, 0x0, 0x0, 0x0,
    0x0, 0x0, 0x0, 0x0, 0x0, 0x0, 0x0, 0x0,
    0x0, 0x0, 0x0, 0x0, 0x0, 0x9, 0x0, 0x0,
    0x0, 0x0, 0x0, 0x0, 0x0, 0x0, 0x0, 0x0,
    0x0, 0x0, 0x0, 0x0, 0x0, 0x9, 0x0, 0x0,
    0x0, 0x0, 0x0, 0x0, 0x0, 0x0, 0x0, 0x0,
    0x0, 0x0, 0x0, 0x0, 0x0, 0x9, 0x0, 0x0,
    0x0, 0x0, 0x0, 0x0, 0x0, 0x54, 0x5b, 0x0,
    0x0, 0x0, 0x0, 0x0, 0x0, 0x0, 0x0, 0x0]"

definition ccc_trie_7 :: "nat list" where
  "ccc_trie_7 =
   [0x0, 0x0, 0x0, 0x0, 0x0, 0x0, 0x0, 0x0,
    0x0, 0x0, 0x0, 0x0, 0x7, 0x0, 0x0, 0x0,
    0x0, 0x0, 0x0, 0x0, 0x0, 0x0, 0x0, 0x0,
    0x0, 0x0, 0x0, 0x0, 0x0, 0x9, 0x0, 0x0,
    0x0, 0x0, 0x0, 0x0, 0x0, 0x0, 0x0, 0x0,
    0x0, 0x0, 0x0, 0x0, 0x0, 0x9, 0x0, 0x0,
    0x0, 0x0, 0x0, 0x0, 0x0, 0x0, 0x0, 0x0,
    0x0, 0x0, 0x9, 0x0, 0x0, 0x0, 0x0, 0x0,
    0x0, 0x0, 0x0, 0x0, 0x0, 0x0, 0x0, 0x0,
    0x67, 0x67, 0x9, 0x0, 0x0, 0x0, 0x0, 0x0,
    0x0, 0x0, 0x0, 0x0, 0x0, 0x0, 0x0, 0x0,
    0x6b, 0x6b, 0x6b, 0x6b, 0x0, 0x0, 0x0, 0x0,
    0x0, 0x0, 0x0, 0x0, 0x0, 0x0, 0x0, 0x0,
    0x76, 0x76, 0x0, 0x0, 0x0, 0x0, 0x0, 0x0,
    0x0, 0x0, 0x0, 0x0, 0x0, 0x0, 0x0, 0x0,
    0x7a, 0x7a, 0x7a, 0x7a, 0x0, 0x0, 0x0, 0x0,
    0x0, 0x0, 0x0, 0x0, 0x0, 0x0, 0x0, 0x0,
    0xdc, 0xdc, 0x0, 0x0, 0x0, 0x0, 0x0, 0x0,
    0x0, 0x0, 0x0, 0x0, 0x0, 0xdc, 0x0, 0xdc,
    0x0, 0xd8, 0x0, 0x0, 0x0, 0x0, 0x0, 0x0,
    0x0, 0x81, 0x82, 0x0, 0x84, 0x0, 0x0, 0x0,
    0x0, 0x0, 0x82, 0x82, 0x82, 0x82, 0x0, 0x0,
    0x82, 0x0, 0xe6, 0xe6, 0x9, 0x0, 0xe6, 0xe6,
    0x0, 0x0, 0x0, 0x0, 0x0, 0x0, 0x0, 0x0,
    0x0, 0x0, 0x0, 0x0, 0x0, 0x0, 0xdc, 0x0,
    0x0, 0x0, 0x0, 0x0, 0x0, 0x0, 0x0, 0x0,
    0x0, 0x0, 0x0, 0x0, 0x0, 0x0, 0x0, 0x7,
    0x0, 0x9, 0x9, 0x0, 0x0, 0x0, 0x0, 0x0,
    0x0, 0x0, 0x0, 0x0, 0x0, 0x0, 0x0, 0x0,
    0x0, 0x0, 0x0, 0x0, 0x0, 0xdc, 0x0, 0x0,
    0x0, 0x0, 0x0, 0x0, 0x0, 0x0, 0x0, 0x0,
    0x0, 0x0, 0x0, 0x0, 0x0, 0xe6, 0xe6, 0xe6]"

definition ccc_trie_8 :: "nat list" where
  "ccc_trie_8 =
   [0x0, 0x0, 0x0, 0x0, 0x9, 0x0, 0x0, 0x0,
    0x0, 0x0, 0x0, 0x0, 0x0, 0x0, 0x0, 0x0,
    0x0, 0x0, 0x0, 0x0, 0x9, 0x0, 0x0, 0x0,
    0x0, 0x0, 0x0, 0x0, 0x0, 0x0, 0x0, 0x0,
    0x0, 0x0, 0x9, 0x0, 0x0, 0x0, 0x0, 0x0,
    0x0, 0x0, 0x0, 0x0, 0x0, 0xe6, 0x0, 0x0,
    0x0, 0x0, 0x0, 0x0, 0x0, 0x0, 0x0, 0x0,
    0x0, 0xe4, 0x0, 0x0, 0x0, 0x0, 0x0, 0x0,
    0x0, 0x0, 0x0, 0x0, 0x0, 0x0, 0x0, 0x0,
    0x0, 0xde, 0xe6, 0xdc, 0x0, 0x0, 0x0, 0x0,
    0x0, 0x0, 0x0, 0x0, 0x0, 0x0, 0x0, 0xe6,
    0xdc, 0x0, 0x0, 0x0, 0x0, 0x0, 0x0, 0x0,
    0x9, 0x0, 0x0, 0x0, 0x0, 0x0, 0x0, 0x0,
    0x0, 0x0, 0x0, 0x0, 0x0, 0x0, 0x0, 0x0,
    0x0, 0x0, 0x0, 0x0, 0x0, 0xe6, 0xe6, 0xe6,
    0xe6, 0xe6, 0xe6, 0xe6, 0xe6, 0x0, 0x0, 0xdc,
    0xe6, 0xe6, 0xe6, 0xe6, 0xe6, 0xdc, 0xdc, 0xdc,
    0xdc, 0xdc, 0xdc, 0xe6, 0xe6, 0xdc, 0x0, 0x0,
    0x0, 0x0, 0x0, 0x0, 0x7, 0x0, 0x0, 0x0,
    0x0, 0x0, 0x0, 0x0, 0x0, 0x0, 0x0, 0x0,
    0x0, 0x0, 0x0, 0x0, 0x9, 0x0, 0x0, 0x0,
    0x0, 0x0, 0x0, 0x0, 0x0, 0x0, 0x0, 0x0,
    0x0, 0x0, 0x0, 0x0, 0x0, 0x0, 0x0, 0x0,
    0x0, 0x0, 0x0, 0xe6, 0xdc, 0xe6, 0xe6, 0xe6,
    0xe6, 0xe6, 0xe6, 0xe6, 0x0, 0x0, 0x0, 0x0,
    0x0, 0x0, 0x0, 0x0, 0x0, 0x0, 0x0, 0x0,
    0x0, 0x0, 0x0, 0x0, 0x0, 0x0, 0x0, 0x0,
    0x0, 0x0, 0x9, 0x9, 0x0, 0x0, 0x0, 0x0,
    0x0, 0x0, 0x0, 0x0, 0x0, 0x0, 0x7, 0x0,
    0x0, 0x0, 0x0, 0x0, 0x0, 0x0, 0x0, 0x0,
    0x0, 0x0, 0x9, 0x9, 0x0, 0x0, 0x0, 0x0,
    0x0, 0x0, 0x0, 0x0, 0x0, 0x0, 0x0, 0x0]"

definition ccc_trie_9 :: "nat list" where
  "ccc_trie_9 =
   [0x0, 0x0, 0x0, 0x0, 0x0, 0x0, 0x0, 0x7,
    0x0, 0x0, 0x0, 0x0, 0x0, 0x0, 0x0, 0x0,
    0xe6, 0xe6, 0xe6, 0x0, 0x1, 0xdc, 0xdc, 0xdc,
    0xdc, 0xdc, 0xe6, 0xe6, 0xdc, 0xdc, 0xdc, 0xdc,
    0xe6, 0x0, 0x1, 0x1, 0x1, 0x1, 0x1, 0x1,
    0x1, 0x0, 0x0, 0x0, 0x0, 0xdc, 0x0, 0x0,
    0x0, 0x0, 0x0, 0x0, 0xe6, 0x0, 0x0, 0x0,
    0xe6, 0xe6, 0x0, 0x0, 0x0, 0x0, 0x0, 0x0,
    0xe6, 0xe6, 0xdc, 0xe6, 0xe6, 0xe6, 0xe6, 0xe6,
    0xe6, 0xe6, 0xdc, 0xe6, 0xe6, 0xea, 0xd6, 0xdc,
    0xca, 0xe6, 0xe6, 0xe6, 0xe6, 0xe6, 0xe6, 0xe6,
    0xe6, 0xe6, 0xe6, 0xe6, 0xe6, 0xe6, 0xe6, 0xe6,
    0xe6, 0xe6, 0xe6, 0xe6, 0xe6, 0xe6, 0xe6, 0xe6,
    0xe6, 0xe6, 0xe6, 0xe6, 0xe6, 0xe6, 0xe6, 0xe6,
    0xe6, 0xe6, 0xe6, 0xe6, 0xe6, 0xe6, 0x0, 0x0,
    0x0, 0x0, 0x0, 0xe6, 0xe9, 0xdc, 0xe6, 0xdc,
    0xe6, 0xe6, 0x1, 0x1, 0xe6, 0xe6, 0xe6, 0xe6,
    0x1, 0x1, 0x1, 0xe6, 0xe6, 0x0, 0x0, 0x0,
    0x0, 0xe6, 0x0, 0x0, 0x0, 0x1, 0x1, 0xe6,
    0xdc, 0xe6, 0x1, 0x1, 0xdc, 0xdc, 0xdc, 0xdc,
    0xe6, 0x0, 0x0, 0x0, 0x0, 0x0, 0x0, 0x0,
    0x0, 0x0, 0x0, 0x0, 0x0, 0x0, 0x0, 0x0,
    0x0, 0x0, 0x0, 0x0, 0x0, 0x0, 0x0, 0x0,
    0x0, 0x0, 0x0, 0x0, 0x0, 0x0, 0x0, 0xe6,
    0xe6, 0xe6, 0x0, 0x0, 0x0, 0x0, 0x0, 0x0,
    0x0, 0x0, 0x0, 0x0, 0x0, 0x0, 0x0, 0x0,
    0x0, 0x0, 0x0, 0x0, 0x0, 0x0, 0x0, 0x0,
    0x0, 0x0, 0x0, 0x0, 0x0, 0x0, 0x0, 0x9,
    0xe6, 0xe6, 0xe6, 0xe6, 0xe6, 0xe6, 0xe6, 0xe6,
    0xe6, 0xe6, 0xe6, 0xe6, 0xe6, 0xe6, 0xe6, 0xe6,
    0xe6, 0xe6, 0xe6, 0xe6, 0xe6, 0xe6, 0xe6, 0xe6,
    0xe6, 0xe6, 0xe6, 0xe6, 0xe6, 0xe6, 0xe6, 0xe6]"

definition ccc_trie_10 :: "nat list" where
  "ccc_trie_10 =
   [0x0, 0x0, 0x0, 0x0, 0x0, 0x0, 0x0, 0x0,
    0x0, 0x0, 0xda, 0xe4, 0xe8, 0xde, 0xe0, 0xe0,
    0x0, 0x0, 0x0, 0x0, 0x0, 0x0, 0x0, 0x0,
    0x0, 0x8, 0x8, 0x0, 0x0, 0x0, 0x0, 0x0,
    0x0, 0x0, 0x0, 0x0, 0x0, 0x0, 0x0, 0x0,
    0x0, 0x0, 0x0, 0x0, 0x0, 0x0, 0x0, 0xe6,
    0x0, 0x0, 0x0, 0x0, 0xe6, 0xe6, 0xe6, 0xe6,
    0xe6, 0xe6, 0xe6, 0xe6, 0xe6, 0xe6, 0x0, 0x0,
    0x0, 0x0, 0x0, 0x0, 0x0, 0x0, 0x0, 0x0,
    0x0, 0x0, 0x0, 0x0, 0x0, 0x0, 0xe6, 0xe6,
    0xe6, 0xe6, 0x0, 0x0, 0x0, 0x0, 0x0, 0x0,
    0x0, 0x0, 0x0, 0x0, 0x0, 0x0, 0x0, 0x0,
    0x0, 0x0, 0x0, 0x0, 0x0, 0x0, 0x9, 0x0,
    0x0, 0x0, 0x0, 0x0, 0x0, 0x0, 0x0, 0x0,
    0x0, 0x0, 0x0, 0x0, 0x9, 0x0, 0x0, 0x0,
    0x0, 0x0, 0x0, 0x0, 0x0, 0x0, 0x0, 0x0,
    0xe6, 0xe6, 0xe6, 0xe6, 0xe6, 0xe6, 0xe6, 0xe6,
    0xe6, 0xe6, 0xe6, 0xe6, 0xe6, 0xe6, 0xe6, 0xe6,
    0xe6, 0xe6, 0x0, 0x0, 0x0, 0x0, 0x0, 0x0,
    0x0, 0x0, 0x0, 0x0, 0x0, 0x0, 0x0, 0x0,
    0x0, 0x0, 0x0, 0x0, 0x0, 0x0, 0x0, 0x0,
    0x0, 0x0, 0x0, 0xdc, 0xdc, 0xdc, 0x0, 0x0,
    0x0, 0x0, 0x0, 0x9, 0x0, 0x0, 0x0, 0x0,
    0x0, 0x0, 0x0, 0x0, 0x0, 0x0, 0x0, 0x0,
    0x0, 0x0, 0x0, 0x7, 0x0, 0x0, 0x0, 0x0,
    0x0, 0x0, 0x0, 0x0, 0x0, 0x0, 0x0, 0x0,
    0x9, 0x0, 0x0, 0x0, 0x0, 0x0, 0x0, 0x0,
    0x0, 0x0, 0x0, 0x0, 0x0, 0x0, 0x0, 0x0,
    0xe6, 0x0, 0xe6, 0xe6, 0xdc, 0x0, 0x0, 0xe6,
    0xe6, 0x0, 0x0, 0x0, 0x0, 0x0, 0xe6, 0xe6,
    0x0, 0xe6, 0x0, 0x0, 0x0, 0x0, 0x0, 0x0,
    0x0, 0x0, 0x0, 0x0, 0x0, 0x0, 0x0, 0x0]"

definition ccc_trie_11 :: "nat list" where
  "ccc_trie_11 =
   [0x0, 0x0, 0x0, 0x0, 0x0, 0x0, 0x9, 0x0,
    0x0, 0x0, 0x0, 0x0, 0x0, 0x0, 0x0, 0x0,
    0x0, 0x0, 0x0, 0x0, 0x0, 0x0, 0x0, 0x0,
    0x0, 0x0, 0x0, 0x0, 0x0, 0x9, 0x0, 0x0,
    0x0, 0x0, 0x0, 0x0, 0x0, 0x0, 0x0, 0x0,
    0x0, 0x0, 0x0, 0x0, 0x0, 0x0, 0x1a, 0x0,
    0xe6, 0xe6, 0xe6, 0xe6, 0xe6, 0xe6, 0xe6, 0xdc,
    0xdc, 0xdc, 0xdc, 0xdc, 0xdc, 0xdc, 0xe6, 0xe6,
    0x0, 0x0, 0x0, 0x0, 0x0, 0x0, 0x0, 0x0,
    0x0, 0x0, 0x0, 0x0, 0x0, 0xdc, 0x0, 0x0,
    0xdc, 0x0, 0x0, 0x0, 0x0, 0x0, 0x0, 0x0,
    0x0, 0x0, 0x0, 0x0, 0x0, 0x0, 0x0, 0x0,
    0x0, 0x0, 0x0, 0x0, 0x0, 0x0, 0xe6, 0xe6,
    0xe6, 0xe6, 0xe6, 0x0, 0x0, 0x0, 0x0, 0x0,
    0x0, 0x0, 0x0, 0x0, 0x0, 0x0, 0x0, 0x0,
    0x0, 0x0, 0x0, 0x0, 0x0, 0xdc, 0x0, 0xe6,
    0x0, 0x0, 0x0, 0x0, 0x0, 0x0, 0x0, 0x0,
    0xe6, 0x1, 0xdc, 0x0, 0x0, 0x0, 0x0, 0x9,
    0x0, 0x0, 0x0, 0x0, 0x0, 0xe6, 0xdc, 0x0,
    0x0, 0x0, 0x0, 0x0, 0x0, 0x0, 0x0, 0x0,
    0x0, 0x0, 0x0, 0x0, 0x0, 0x0, 0x9, 0x0,
    0x0, 0x0, 0x0, 0x0, 0x0, 0x0, 0x0, 0x0,
    0x0, 0x0, 0x0, 0x0, 0x0, 0x0, 0x0, 0x0,
    0x0, 0x0, 0x0, 0x0, 0x0, 0x0, 0x0, 0x9,
    0x0, 0x0, 0x0, 0x0, 0x0, 0x0, 0x0, 0x0,
    0x0, 0x9, 0x7, 0x0, 0x0, 0x0, 0x0, 0x0,
    0xe6, 0xe6, 0xe6, 0x0, 0x0, 0x0, 0x0, 0x0,
    0x0, 0x0, 0x0, 0x0, 0x0, 0x0, 0x0, 0x0,
    0x0, 0x0, 0x0, 0x9, 0x9, 0x0, 0x0, 0x0,
    0x0, 0x0, 0x0, 0x0, 0x0, 0x0, 0x0, 0x0,
    0x0, 0x0, 0x0, 0x7, 0x0, 0x0, 0x0, 0x0,
    0x0, 0x0, 0x0, 0x0, 0x0, 0x0, 0x0, 0x0]"

definition ccc_trie_12 :: "nat list" where
  "ccc_trie_12 =
   [0x9, 0x0, 0x0, 0x0, 0x0, 0x0, 0x0, 0x0,
    0x0, 0x0, 0x7, 0x0, 0x0, 0x0, 0x0, 0x0,
    0x0, 0x0, 0x0, 0x0, 0x0, 0x9, 0x7, 0x0,
    0x0, 0x0, 0x0, 0x0, 0x0, 0x0, 0x0, 0x0,
    0x0, 0x0, 0x0, 0x0, 0x0, 0x0, 0x0, 0x0,
    0x0, 0x7, 0x9, 0x0, 0x0, 0x0, 0x0, 0x0,
    0x0, 0x0, 0x0, 0x0, 0x0, 0x0, 0x0, 0x0,
    0x0, 0x0, 0x0, 0x0, 0x7, 0x0, 0x0, 0x0,
    0x0, 0x0, 0x0, 0x0, 0x0, 0x0, 0x0, 0x0,
    0x0, 0x0, 0x0, 0x0, 0x0, 0x9, 0x0, 0x0,
    0x0, 0x0, 0x0, 0x0, 0x0, 0x0, 0xe6, 0xe6,
    0xe6, 0xe6, 0xe6, 0xe6, 0xe6, 0x0, 0x0, 0x0,
    0xe6, 0xe6, 0xe6, 0xe6, 0xe6, 0x0, 0x0, 0x0,
    0x0, 0x0, 0x0, 0x0, 0x0, 0x0, 0x0, 0x0,
    0x0, 0x0, 0x9, 0x0, 0x0, 0x0, 0x7, 0x0,
    0x0, 0x0, 0x0, 0x0, 0x0, 0x0, 0x0, 0x0,
    0x0, 0x0, 0x9, 0x7, 0x0, 0x0, 0x0, 0x0,
    0x0, 0x0, 0x0, 0x0, 0x0, 0x0, 0x0, 0x0,
    0x0, 0x0, 0x0, 0x0, 0x0, 0x0, 0x0, 0x0,
    0x0, 0x0, 0x0, 0x0, 0x0, 0x0, 0x0, 0x9,
    0x7, 0x0, 0x0, 0x0, 0x0, 0x0, 0x0, 0x0,
    0x0, 0x0, 0x0, 0x0, 0x0, 0x0, 0x0, 0x0,
    0x0, 0x0, 0x0, 0x0, 0x0, 0x0, 0x0, 0x0,
    0x0, 0x0, 0x0, 0x0, 0x0, 0x0, 0x0, 0x9,
    0x0, 0x0, 0x0, 0x0, 0x0, 0x0, 0x9, 0x7,
    0x0, 0x0, 0x0, 0x0, 0x0, 0x0, 0x0, 0x0,
    0x0, 0x0, 0x0, 0x0, 0x0, 0x0, 0x0, 0x0,
    0x0, 0x0, 0x0, 0x9, 0x0, 0x0, 0x0, 0x0,
    0x0, 0x0, 0x0, 0x0, 0x0, 0x0, 0x0, 0x0,
    0x0, 0x0, 0x0, 0x0, 0x0, 0x0, 0x0, 0x9,
    0x1, 0x1, 0x1, 0x1, 0x1, 0x0, 0x0, 0x0,
    0x0, 0x0, 0x0, 0x0, 0x0, 0x0, 0x0, 0x0]"

definition ccc_trie_13 :: "nat list" where
  "ccc_trie_13 =
   [0xe6, 0xe6, 0xe6, 0xe6, 0xe6, 0xe6, 0xe6, 0x0,
    0x0, 0x0, 0x0, 0x0, 0x0, 0x0, 0x0, 0x0,
    0x0, 0x0, 0x0, 0x0, 0x0, 0x0, 0x0, 0x0,
    0x0, 0x0, 0x0, 0x0, 0x0, 0x0, 0x1, 0x0,
    0x0, 0x0, 0x0, 0x0, 0x0, 0xd8, 0xd8, 0x1,
    0x1, 0x1, 0x0, 0x0, 0x0, 0xe2, 0xd8, 0xd8,
    0xd8, 0xd8, 0xd8, 0x0, 0x0, 0x0, 0x0, 0x0,
    0x0, 0x0, 0x0, 0xdc, 0xdc, 0xdc, 0xdc, 0xdc,
    0xdc, 0xdc, 0xdc, 0x0, 0x0, 0xe6, 0xe6, 0xe6,
    0xe6, 0xe6, 0xdc, 0xdc, 0x0, 0x0, 0x0, 0x0,
    0x0, 0x0, 0x0, 0x0, 0x0, 0x0, 0x0, 0x0,
    0x0, 0x0, 0xe6, 0xe6, 0xe6, 0xe6, 0x0, 0x0,
    0x0, 0x0, 0xe6, 0xe6, 0xe6, 0x0, 0x0, 0x0,
    0x0, 0x0, 0x0, 0x0, 0x0, 0x0, 0x0, 0x0,
    0xe6, 0xe6, 0xe6, 0xe6, 0xe6, 0xe6, 0xe6, 0x0,
    0xe6, 0xe6, 0xe6, 0xe6, 0xe6, 0xe6, 0xe6, 0xe6,
    0xe6, 0xe6, 0xe6, 0xe6, 0xe6, 0xe6, 0xe6, 0xe6,
    0xe6, 0x0, 0x0, 0xe6, 0xe6, 0xe6, 0xe6, 0xe6,
    0xe6, 0xe6, 0x0, 0xe6, 0xe6, 0x0, 0xe6, 0xe6,
    0xe6, 0xe6, 0xe6, 0x0, 0x0, 0x0, 0x0, 0x0,
    0xdc, 0xdc, 0xdc, 0xdc, 0xdc, 0xdc, 0xdc, 0x0,
    0x0, 0x0, 0x0, 0x0, 0x0, 0x0, 0x0, 0x0,
    0x0, 0x0, 0x0, 0x0, 0xe6, 0xe6, 0xe6, 0xe6,
    0xe6, 0xe6, 0x7, 0x0, 0x0, 0x0, 0x0, 0x0]"

definition ccc_trie_blocks :: "nat list list" where
  "ccc_trie_blocks = [ccc_trie_0, ccc_trie_1, ccc_trie_2, ccc_trie_3, ccc_trie_4, ccc_trie_5, ccc_trie_6, ccc_trie_7, ccc_trie_8, ccc_trie_9, ccc_trie_10, ccc_trie_11, ccc_trie_12, ccc_trie_13]"

definition unicode_tables :: "(byte list \<Rightarrow> nat \<Rightarrow> (nat \<times> u32) option) \<Rightarrow> (u32 \<Rightarrow> byte list \<Rightarrow> u32) \<Rightarrow> unicode_env" where
  "unicode_tables u8 crc = \<lparr>apfs_nfd_trie = concat nfd_trie_blocks, apfs_nfd = concat nfd_blocks, apfs_cf_trie = concat cf_trie_blocks,
     apfs_cf = concat cf_blocks, apfs_ccc_trie = concat ccc_trie_blocks, utf8_to_utf32 = u8, crc32c = crc\<rparr>"

section \<open>Entries of the tables\<close>

lemma concat_at:
  assumes "k < length xss" "j < length (xss ! k)"
  shows "concat xss ! (length (concat (take k xss)) + j) = xss ! k ! j" "length (concat (take k xss)) + j < length (concat xss)"
proof -
  have "concat xss = concat (take k xss) @ xss ! k @ concat (drop (Suc k) xss)"
    by (metis append_take_drop_id assms(1) Cons_nth_drop_Suc concat.simps(2) concat_append)
  then show "concat xss ! (length (concat (take k xss)) + j) = xss ! k ! j" "length (concat (take k xss)) + j < length (concat xss)"
    using assms(2) by (simp_all add: nth_append)
qed

lemma block_lengths [simp]:
  "length nfd_trie_0 = 256"
  "length nfd_trie_1 = 256"
  "length nfd_trie_2 = 256"
  "length nfd_trie_3 = 256"
  "length nfd_trie_4 = 256"
  "length nfd_trie_5 = 256"
  "length nfd_trie_6 = 256"
  "length nfd_trie_7 = 256"
  "length nfd_trie_8 = 256"
  "length nfd_trie_9 = 256"
  "length nfd_trie_10 = 256"
  "length nfd_trie_11 = 256"
  "length nfd_trie_12 = 256"
  "length nfd_trie_13 = 256"
  "length nfd_trie_14 = 256"
  "length nfd_trie_15 = 176"
  "length nfd_0 = 240"
  "length nfd_1 = 240"
  "length nfd_2 = 240"
  "length nfd_3 = 240"
  "length nfd_4 = 240"
  "length nfd_5 = 240"
  "length nfd_6 = 240"
  "length nfd_7 = 240"
  "length nfd_8 = 240"
  "length nfd_9 = 240"
  "length nfd_10 = 240"
  "length nfd_11 = 240"
  "length nfd_12 = 240"
  "length nfd_13 = 240"
  "length nfd_14 = 44"
  "length cf_trie_0 = 256"
  "length cf_trie_1 = 256"
  "length cf_trie_2 = 256"
  "length cf_trie_3 = 256"
  "length cf_trie_4 = 256"
  "length cf_trie_5 = 256"
  "length cf_trie_6 = 256"
  "length cf_trie_7 = 256"
  "length cf_trie_8 = 256"
  "length cf_trie_9 = 256"
  "length cf_trie_10 = 256"
  "length cf_trie_11 = 128"
  "length cf_0 = 240"
  "length cf_1 = 240"
  "length cf_2 = 240"
  "length cf_3 = 240"
  "length cf_4 = 240"
  "length cf_5 = 240"
  "length cf_6 = 81"
  "length ccc_trie_0 = 256"
  "length ccc_trie_1 = 256"
  "length ccc_trie_2 = 256"
  "length ccc_trie_3 = 256"
  "length ccc_trie_4 = 256"
  "length ccc_trie_5 = 256"
  "length ccc_trie_6 = 256"
  "length ccc_trie_7 = 256"
  "length ccc_trie_8 = 256"
  "length ccc_trie_9 = 256"
  "length ccc_trie_10 = 256"
  "length ccc_trie_11 = 256"
  "length ccc_trie_12 = 256"
  "length ccc_trie_13 = 192"
  by (simp_all add: nfd_trie_0_def nfd_trie_1_def nfd_trie_2_def nfd_trie_3_def nfd_trie_4_def nfd_trie_5_def nfd_trie_6_def nfd_trie_7_def nfd_trie_8_def nfd_trie_9_def nfd_trie_10_def nfd_trie_11_def nfd_trie_12_def nfd_trie_13_def nfd_trie_14_def nfd_trie_15_def nfd_0_def nfd_1_def nfd_2_def nfd_3_def nfd_4_def nfd_5_def nfd_6_def nfd_7_def nfd_8_def nfd_9_def nfd_10_def nfd_11_def nfd_12_def nfd_13_def nfd_14_def cf_trie_0_def cf_trie_1_def cf_trie_2_def cf_trie_3_def cf_trie_4_def cf_trie_5_def cf_trie_6_def cf_trie_7_def cf_trie_8_def cf_trie_9_def cf_trie_10_def cf_trie_11_def cf_0_def cf_1_def cf_2_def cf_3_def cf_4_def cf_5_def cf_6_def ccc_trie_0_def ccc_trie_1_def ccc_trie_2_def ccc_trie_3_def ccc_trie_4_def ccc_trie_5_def ccc_trie_6_def ccc_trie_7_def ccc_trie_8_def ccc_trie_9_def ccc_trie_10_def ccc_trie_11_def ccc_trie_12_def ccc_trie_13_def)

lemma nfd_trie_0_at: "nfd_trie_0 ! 0 = 0x1" "nfd_trie_0 ! 16 = 0x4" "nfd_trie_0 ! 17 = 0x5" "nfd_trie_0 ! 64 = 0xc" "nfd_trie_0 ! 67 = 0xf" "nfd_trie_0 ! 95 = 0x1b" "nfd_trie_0 ! 198 = 0x0" "nfd_trie_0 ! 206 = 0x30" "nfd_trie_0 ! 240 = 0x0"
  by (simp_all add: nfd_trie_0_def)

lemma nfd_trie_1_at: "nfd_trie_1 ! 184 = 0x8c"
  by (simp_all add: nfd_trie_1_def)

lemma nfd_trie_3_at: "nfd_trie_3 ! 9 = 0x222"
  by (simp_all add: nfd_trie_3_def)

lemma nfd_trie_8_at: "nfd_trie_8 ! 192 = 0x362b"
  by (simp_all add: nfd_trie_8_def)

lemma nfd_trie_entries:
  "concat nfd_trie_blocks ! 0 = 0x1" "0 < length (concat nfd_trie_blocks)"
    "concat nfd_trie_blocks ! 16 = 0x4" "16 < length (concat nfd_trie_blocks)"
    "concat nfd_trie_blocks ! 17 = 0x5" "17 < length (concat nfd_trie_blocks)"
    "concat nfd_trie_blocks ! 64 = 0xc" "64 < length (concat nfd_trie_blocks)"
    "concat nfd_trie_blocks ! 67 = 0xf" "67 < length (concat nfd_trie_blocks)"
    "concat nfd_trie_blocks ! 95 = 0x1b" "95 < length (concat nfd_trie_blocks)"
    "concat nfd_trie_blocks ! 198 = 0x0" "198 < length (concat nfd_trie_blocks)"
    "concat nfd_trie_blocks ! 206 = 0x30" "206 < length (concat nfd_trie_blocks)"
    "concat nfd_trie_blocks ! 240 = 0x0" "240 < length (concat nfd_trie_blocks)"
    "concat nfd_trie_blocks ! 440 = 0x8c" "440 < length (concat nfd_trie_blocks)"
    "concat nfd_trie_blocks ! 777 = 0x222" "777 < length (concat nfd_trie_blocks)"
    "concat nfd_trie_blocks ! 2240 = 0x362b" "2240 < length (concat nfd_trie_blocks)"
  using concat_at [of 0 nfd_trie_blocks 0]
    concat_at [of 0 nfd_trie_blocks 16]
    concat_at [of 0 nfd_trie_blocks 17]
    concat_at [of 0 nfd_trie_blocks 64]
    concat_at [of 0 nfd_trie_blocks 67]
    concat_at [of 0 nfd_trie_blocks 95]
    concat_at [of 0 nfd_trie_blocks 198]
    concat_at [of 0 nfd_trie_blocks 206]
    concat_at [of 0 nfd_trie_blocks 240]
    concat_at [of 1 nfd_trie_blocks 184]
    concat_at [of 3 nfd_trie_blocks 9]
    concat_at [of 8 nfd_trie_blocks 192]
  by (simp_all add: nfd_trie_blocks_def nfd_trie_0_at nfd_trie_1_at nfd_trie_3_at nfd_trie_8_at)

lemma nfd_0_at: "nfd_0 ! 68 = 0x65" "nfd_0 ! 69 = 0x301"
  by (simp_all add: nfd_0_def)

lemma nfd_7_at: "nfd_7 ! 53 = 0x3b1" "nfd_7 ! 54 = 0x313" "nfd_7 ! 55 = 0x345"
  by (simp_all add: nfd_7_def)

lemma nfd_entries:
  "concat nfd_blocks ! 68 = 0x65" "68 < length (concat nfd_blocks)"
    "concat nfd_blocks ! 69 = 0x301" "69 < length (concat nfd_blocks)"
    "concat nfd_blocks ! 1733 = 0x3b1" "1733 < length (concat nfd_blocks)"
    "concat nfd_blocks ! 1734 = 0x313" "1734 < length (concat nfd_blocks)"
    "concat nfd_blocks ! 1735 = 0x345" "1735 < length (concat nfd_blocks)"
  using concat_at [of 0 nfd_blocks 68]
    concat_at [of 0 nfd_blocks 69]
    concat_at [of 7 nfd_blocks 53]
    concat_at [of 7 nfd_blocks 54]
    concat_at [of 7 nfd_blocks 55]
  by (simp_all add: nfd_blocks_def nfd_0_at nfd_7_at)

lemma cf_trie_0_at: "cf_trie_0 ! 0 = 0x1" "cf_trie_0 ! 16 = 0x3" "cf_trie_0 ! 51 = 0xe" "cf_trie_0 ! 225 = 0x0" "cf_trie_0 ! 228 = 0x3c" "cf_trie_0 ! 235 = 0x41"
  by (simp_all add: cf_trie_0_def)

lemma cf_trie_3_at: "cf_trie_3 ! 197 = 0x759"
  by (simp_all add: cf_trie_3_def)

lemma cf_trie_4_at: "cf_trie_4 ! 17 = 0x0"
  by (simp_all add: cf_trie_4_def)

lemma cf_trie_entries:
  "concat cf_trie_blocks ! 0 = 0x1" "0 < length (concat cf_trie_blocks)"
    "concat cf_trie_blocks ! 16 = 0x3" "16 < length (concat cf_trie_blocks)"
    "concat cf_trie_blocks ! 51 = 0xe" "51 < length (concat cf_trie_blocks)"
    "concat cf_trie_blocks ! 225 = 0x0" "225 < length (concat cf_trie_blocks)"
    "concat cf_trie_blocks ! 228 = 0x3c" "228 < length (concat cf_trie_blocks)"
    "concat cf_trie_blocks ! 235 = 0x41" "235 < length (concat cf_trie_blocks)"
    "concat cf_trie_blocks ! 965 = 0x759" "965 < length (concat cf_trie_blocks)"
    "concat cf_trie_blocks ! 1041 = 0x0" "1041 < length (concat cf_trie_blocks)"
  using concat_at [of 0 cf_trie_blocks 0]
    concat_at [of 0 cf_trie_blocks 16]
    concat_at [of 0 cf_trie_blocks 51]
    concat_at [of 0 cf_trie_blocks 225]
    concat_at [of 0 cf_trie_blocks 228]
    concat_at [of 0 cf_trie_blocks 235]
    concat_at [of 3 cf_trie_blocks 197]
    concat_at [of 4 cf_trie_blocks 17]
  by (simp_all add: cf_trie_blocks_def cf_trie_0_at cf_trie_3_at cf_trie_4_at)

lemma cf_0_at: "cf_0 ! 235 = 0x3b9"
  by (simp_all add: cf_0_def)

lemma cf_entries:
  "concat cf_blocks ! 235 = 0x3b9" "235 < length (concat cf_blocks)"
  using concat_at [of 0 cf_blocks 235]
  by (simp_all add: cf_blocks_def cf_0_at)

lemma ccc_trie_0_at: "ccc_trie_0 ! 0 = 0x1" "ccc_trie_0 ! 16 = 0x3" "ccc_trie_0 ! 48 = 0x0" "ccc_trie_0 ! 51 = 0xf" "ccc_trie_0 ! 240 = 0x45" "ccc_trie_0 ! 241 = 0x46" "ccc_trie_0 ! 251 = 0x0"
  by (simp_all add: ccc_trie_0_def)

lemma ccc_trie_4_at: "ccc_trie_4 ! 81 = 0xe6" "ccc_trie_4 ! 99 = 0xe6"
  by (simp_all add: ccc_trie_4_def)

lemma ccc_trie_entries:
  "concat ccc_trie_blocks ! 0 = 0x1" "0 < length (concat ccc_trie_blocks)"
    "concat ccc_trie_blocks ! 16 = 0x3" "16 < length (concat ccc_trie_blocks)"
    "concat ccc_trie_blocks ! 48 = 0x0" "48 < length (concat ccc_trie_blocks)"
    "concat ccc_trie_blocks ! 51 = 0xf" "51 < length (concat ccc_trie_blocks)"
    "concat ccc_trie_blocks ! 240 = 0x45" "240 < length (concat ccc_trie_blocks)"
    "concat ccc_trie_blocks ! 241 = 0x46" "241 < length (concat ccc_trie_blocks)"
    "concat ccc_trie_blocks ! 251 = 0x0" "251 < length (concat ccc_trie_blocks)"
    "concat ccc_trie_blocks ! 1105 = 0xe6" "1105 < length (concat ccc_trie_blocks)"
    "concat ccc_trie_blocks ! 1123 = 0xe6" "1123 < length (concat ccc_trie_blocks)"
  using concat_at [of 0 ccc_trie_blocks 0]
    concat_at [of 0 ccc_trie_blocks 16]
    concat_at [of 0 ccc_trie_blocks 48]
    concat_at [of 0 ccc_trie_blocks 51]
    concat_at [of 0 ccc_trie_blocks 240]
    concat_at [of 0 ccc_trie_blocks 241]
    concat_at [of 0 ccc_trie_blocks 251]
    concat_at [of 4 ccc_trie_blocks 81]
    concat_at [of 4 ccc_trie_blocks 99]
  by (simp_all add: ccc_trie_blocks_def ccc_trie_0_at ccc_trie_4_at)

section \<open>Normalisations of characters\<close>

lemma trie_walk_num:
  "trie_walk t key (numeral k) node =
     (let child_index = node * 16 + unat (drop_bit (4 * pred_numeral k) key AND 15) in
      if child_index < length t then
        let node = t ! child_index in if node = 0 then Inr 0 else trie_walk t key (pred_numeral k) node
      else Inl UB)"
  by (simp add: numeral_eq_Suc Let_def)

lemma nfd_trie_finds:
  "apfs_trie_find (concat nfd_trie_blocks) 0x1f80 False = Inr (3, 1733)" "apfs_trie_find (concat nfd_trie_blocks) 0xe9 False = Inr (2, 68)"
  "apfs_trie_find (concat nfd_trie_blocks) 0x65 False = Inr (0, 0)" "apfs_trie_find (concat nfd_trie_blocks) 0x301 False = Inr (0, 0)"
  by (simp_all add: apfs_trie_find_def trie_walk_num nfd_trie_entries drop_bit_eq_div Let_def del: length_greater_0_conv)

lemma cf_trie_finds:
  "apfs_trie_find (concat cf_trie_blocks) 0x3b1 False = Inr (0, 0)" "apfs_trie_find (concat cf_trie_blocks) 0x313 False = Inr (0, 0)"
  "apfs_trie_find (concat cf_trie_blocks) 0x345 False = Inr (1, 235)"
  by (simp_all add: apfs_trie_find_def trie_walk_num cf_trie_entries drop_bit_eq_div Let_def del: length_greater_0_conv)

lemma ccc_trie_finds:
  "apfs_trie_find (concat ccc_trie_blocks) 0x3b1 True = Inr (0, 0)" "apfs_trie_find (concat ccc_trie_blocks) 0x313 True = Inr (1, 230)"
  "apfs_trie_find (concat ccc_trie_blocks) 0x3b9 True = Inr (0, 0)" "apfs_trie_find (concat ccc_trie_blocks) 0x65 True = Inr (0, 0)"
  "apfs_trie_find (concat ccc_trie_blocks) 0x301 True = Inr (1, 230)"
  by (simp_all add: apfs_trie_find_def trie_walk_num ccc_trie_entries drop_bit_eq_div Let_def del: length_greater_0_conv)

lemma table_sel [simp]:
  "apfs_nfd_trie (unicode_tables u8 crc) = concat nfd_trie_blocks" "apfs_nfd (unicode_tables u8 crc) = concat nfd_blocks"
  "apfs_cf_trie (unicode_tables u8 crc) = concat cf_trie_blocks" "apfs_cf (unicode_tables u8 crc) = concat cf_blocks"
  "apfs_ccc_trie (unicode_tables u8 crc) = concat ccc_trie_blocks" "utf8_to_utf32 (unicode_tables u8 crc) = u8" "crc32c (unicode_tables u8 crc) = crc"
  by (simp_all add: unicode_tables_def)

lemma slice_nth: "pos + n \<le> length a \<Longrightarrow> arr_slice a pos n = Inr (map (\<lambda>i. a ! (pos + i)) [0..<n])"
  by (auto simp: arr_slice_def intro!: nth_equalityI)

lemma table_slices:
  "arr_slice (concat nfd_blocks) 1733 3 = Inr [0x3b1, 0x313, 0x345]" "arr_slice (concat nfd_blocks) 68 2 = Inr [0x65, 0x301]"
  "arr_slice (concat cf_blocks) 235 1 = Inr [0x3b9]"
  using nfd_entries cf_entries by (simp_all add: slice_nth upt_rec)

lemma char_norms:
  "char_norm (unicode_tables u8 crc) True 0x1f80 = Inr [(0x3b1, 0), (0x313, 230), (0x3b9, 0)]"
  "char_norm (unicode_tables u8 crc) False 0xe9 = Inr [(0x65, 0), (0x301, 230)]"
  "char_norm (unicode_tables u8 crc) False 0x65 = Inr [(0x65, 0)]"
  "char_norm (unicode_tables u8 crc) False 0x301 = Inr [(0x301, 230)]"
proof -
  have h: "\<not> apfs_is_precomposed_hangul 0x1f80" "\<not> apfs_is_precomposed_hangul 0xe9" "\<not> apfs_is_precomposed_hangul 0x65" "\<not> apfs_is_precomposed_hangul 0x301"
    by (simp_all add: apfs_is_precomposed_hangul_def Let_def)
  note f = nfd_trie_finds cf_trie_finds ccc_trie_finds table_slices table_slices(3) [unfolded One_nat_def]
  show "char_norm (unicode_tables u8 crc) True 0x1f80 = Inr [(0x3b1, 0), (0x313, 230), (0x3b9, 0)]"
    unfolding char_norm_def by (simp add: norm_from.simps apfs_normalize_char_def h f)
  show "char_norm (unicode_tables u8 crc) False 0xe9 = Inr [(0x65, 0), (0x301, 230)]"
    unfolding char_norm_def by (simp add: norm_from.simps apfs_normalize_char_def h f)
  show "char_norm (unicode_tables u8 crc) False 0x65 = Inr [(0x65, 0)]" "char_norm (unicode_tables u8 crc) False 0x301 = Inr [(0x301, 230)]"
    unfolding char_norm_def by (simp_all add: norm_from.simps apfs_normalize_char_def h f)
qed

lemma table_takes:
  "70 \<le> length (concat nfd_blocks)" "take 2 (drop 68 (concat nfd_blocks)) = [0x65, 0x301]"
  using nfd_entries table_slices(2) by (auto simp: arr_slice_def split: if_splits)

lemma char_specs:
  "char_spec (unicode_tables u8 crc) False 0xe9 = Some [(0x65, 0), (0x301, 230)]"
  "char_spec (unicode_tables u8 crc) False 0x65 = Some [(0x65, 0)]"
  "char_spec (unicode_tables u8 crc) False 0x301 = Some [(0x301, 230)]"
  by (simp_all add: char_spec_def decomp_spec_def hangul_syllable_def table_value_def hex_digits_def upt_rec table_takes
      nfd_trie_entries ccc_trie_entries del: length_greater_0_conv)

text \<open>The only error of a normalisation is an access outside of the tables.\<close>

definition only_ub :: "'a result \<Rightarrow> bool" where
  "only_ub r \<longleftrightarrow> (\<forall>e. r = Inl e \<longrightarrow> e = UB)"

lemma only_ub_simps [simp]: "only_ub (Inr x)" "only_ub (Inl e) \<longleftrightarrow> e = UB"
  by (simp_all add: only_ub_def)

lemma only_ub_bind: "only_ub r \<Longrightarrow> (\<And>x. only_ub (f x)) \<Longrightarrow> only_ub (bind_res r f)"
  by (cases r) simp_all

lemma trie_find_error: "only_ub (apfs_trie_find t key is_ccc)"
proof -
  have "only_ub (trie_walk t key h node)" for h node
    by (induction t key h node rule: trie_walk.induct) (simp_all add: Let_def)
  then show ?thesis unfolding apfs_trie_find_def by (rule only_ub_bind) simp
qed

lemma slice_error: "only_ub (if ret = 0 then Inr [d] else arr_slice a pos ret)"
  by (simp add: arr_slice_def)

lemma fold_chars_error: "only_ub (fold_chars env ds off)"
  by (induction ds arbitrary: off) (auto intro!: only_ub_bind trie_find_error slice_error)

lemma normalize_char_error: "only_ub (apfs_normalize_char env c off cfold)"
  unfolding apfs_normalize_char_def by (auto intro!: only_ub_bind trie_find_error slice_error fold_chars_error)

lemma norm_from_error: "only_ub (norm_from env cfold c pos)"
proof (induction env cfold c pos rule: norm_from.induct)
  case (1 env cfold c pos)
  show ?case
  proof (cases "apfs_normalize_char env c pos cfold")
    case (Inl x)
    then show ?thesis using normalize_char_error [of env c pos cfold] by (subst norm_from.simps) simp
  next
    case (Inr u)
    have "only_ub (bind_res (apfs_trie_find (apfs_ccc_trie env) u True) (\<lambda>(ret, ccc).
        bind_res (norm_from env cfold c (Suc pos)) (\<lambda>rest. Inr ((u, ccc) # rest))))" if "u \<noteq> NORM_END"
    proof (cases "apfs_trie_find (apfs_ccc_trie env) u True")
      case (Inl e)
      then show ?thesis using trie_find_error [of "apfs_ccc_trie env" u True] by simp
    next
      case found: (Inr rc)
      then show ?thesis using 1 [OF Inr that found] by (auto intro!: only_ub_bind split: prod.split)
    qed
    then show ?thesis using Inr by (subst norm_from.simps) simp
  qed
qed

section \<open>Concrete names\<close>

text \<open>A decoder for characters of up to three bytes, and the two encodings of an accented letter.\<close>

definition sample_utf8 :: "byte list \<Rightarrow> nat \<Rightarrow> (nat \<times> u32) option" where
  "sample_utf8 b n =
     (case b of
        [] \<Rightarrow> None
      | x # xs \<Rightarrow>
          if x < 0x80 then Some (1, ucast x)
          else if x AND 0xe0 = 0xc0 \<and> 2 \<le> n \<and> xs \<noteq> [] then Some (2, push_bit 6 (ucast (x AND 0x1f)) OR ucast (hd xs AND 0x3f))
          else if x AND 0xf0 = 0xe0 \<and> 3 \<le> n \<and> 2 \<le> length xs
          then Some (3, push_bit 12 (ucast (x AND 0xf)) OR push_bit 6 (ucast (xs ! 0 AND 0x3f)) OR ucast (xs ! 1 AND 0x3f))
          else None)"

abbreviation sample_env :: unicode_env where
  "sample_env \<equiv> unicode_tables sample_utf8 (\<lambda>h b. h)"

definition composed :: uname where "composed = [([0xc3, 0xa9], 0xe9)]"
definition decomposed :: uname where "decomposed = [([0x65], 0x65), ([0xcc, 0x81], 0x301)]"

lemma sample_names: "good_name sample_env False composed" "good_name sample_env False decomposed"
  by (simp_all add: good_name_def good_char_def composed_def decomposed_def utf8_char_def sample_utf8_def char_specs shape_def uname_bytes_def push_bit_eq_mult)

lemma sample_canon: "canonical sample_env False composed = [0x65, 0x301]" "canonical sample_env False decomposed = [0x65, 0x301]"
  by (simp_all add: canonical_def composed_def decomposed_def char_specs canon_def)

section \<open>Properties\<close>

text \<open>
  (C38) For a name whose characters are all good, the cursor yields the canonical form of the name, and a zero at the
  end: each character is decomposed by the tables, or by the arithmetic of the Unicode standard for Hangul syllables, then
  folded if the volume ignores the case, and the combining characters are put in the canonical order.  A good character
  (\<open>good_char\<close>) is below U+100000, and the tables normalise it to a list that is not empty, has only characters and
  combining classes in range, has no starter after a combining character, and for an ASCII character is the character
  itself, in lower case with folding.  U+1F80 with folding is not good, and C40 shows what it leads to.
\<close>

theorem cursor_yields_canonical_form:
  assumes "good_name env cfold ps"
  shows "yields env (name_buf ps) cfold (apfs_init_unicursor 0 (len_of ps)) (canonical env cfold ps)"
  by (rule good_name_yields [OF assms])

theorem cursor_yields_canonical_form_witness:
  "yields sample_env [0xc3, 0xa9, 0] False (apfs_init_unicursor 0 2) [0x65, 0x301]"
  using cursor_yields_canonical_form [OF sample_names(1)] sample_canon(1) by (simp add: composed_def)

text \<open>
  (C39) On a volume that ignores the normalisation, the comparison of two names whose characters are all good, in
  the sense of C38, returns, and the names are equal exactly if their canonical forms are.  Such names that are equal have
  the same key in the catalog, so that a lookup by the hash finds every name that the comparison accepts.
\<close>

theorem filename_cmp_is_canonical:
  assumes "good_name env cfold ps" "good_name env cfold qs"
  shows "\<exists>r. apfs_filename_cmp env True cfold (name_buf ps) (len_of ps) (name_buf qs) (len_of qs) = Some (Inr r) \<and>
    (r = 0 \<longleftrightarrow> canonical env cfold ps = canonical env cfold qs) \<and>
    (r = 0 \<longrightarrow> (\<exists>key. apfs_init_drec_key env True cfold ino (Some (name_buf ps, len_of ps)) = Some (Inr key) \<and>
       apfs_init_drec_key env True cfold ino (Some (name_buf qs, len_of qs)) = Some (Inr key)))"
proof -
  note ys = good_name_yields [OF assms(1)] good_name_yields [OF assms(2)]
  have "apfs_filename_cmp env True cfold (name_buf ps) (len_of ps) (name_buf qs) (len_of qs) =
      Some (Inr (chars_cmp (canonical env cfold ps) (canonical env cfold qs)))"
    using filename_cmp_yields [OF ys] by (simp add: apfs_filename_cmp_def)
  moreover note drec_hash_yields [OF ys(1), of "0xFFFFFFFF"] drec_hash_yields [OF ys(2), of "0xFFFFFFFF"]
  ultimately show ?thesis by (simp add: chars_cmp_eq_0 apfs_init_drec_key_def Let_def)
qed

theorem filename_cmp_is_canonical_witness:
  "apfs_filename_cmp sample_env True False [0xc3, 0xa9, 0] 2 [0x65, 0xcc, 0x81, 0] 3 = Some (Inr 0)"
  using filename_cmp_is_canonical [OF sample_names] sample_canon by (auto simp: composed_def decomposed_def)

text \<open>
  The tries have a digit less than the characters of Unicode, and the lookup ignores what it has no digit for: the private
  character U+1000E9 is decomposed as if it were U+00E9, so that the comparison takes two different names for the same.
\<close>

definition private_name :: uname where "private_name = [([0xf4, 0x80, 0x83, 0xa9], 0x1000e9)]"

theorem private_name_collides:
  assumes "utf8_char (unicode_tables u8 crc) ([0xf4, 0x80, 0x83, 0xa9], 0x1000e9)" "utf8_char (unicode_tables u8 crc) ([0xc3, 0xa9], 0xe9)"
  shows "apfs_filename_cmp (unicode_tables u8 crc) True False (name_buf private_name) 4 (name_buf composed) 2 = Some (Inr 0)"
proof -
  let ?env = "unicode_tables u8 crc" and ?N = "\<lambda>c :: u32. [(0x65 :: u32, 0 :: nat), (0x301, 230)]"
  have h: "\<not> apfs_is_precomposed_hangul 0x1000e9" by (simp add: apfs_is_precomposed_hangul_def Let_def)
  have "apfs_trie_find (concat nfd_trie_blocks) 0x1000e9 False = Inr (2, 68)"
    by (simp add: apfs_trie_find_def trie_walk_num nfd_trie_entries drop_bit_eq_div Let_def del: length_greater_0_conv)
  then have "char_norm ?env False 0x1000e9 = Inr [(0x65, 0), (0x301, 230)]"
    unfolding char_norm_def by (simp add: norm_from.simps apfs_normalize_char_def h table_slices ccc_trie_finds)
  then have "norms_ok ?env False ?N private_name" "norms_ok ?env False ?N composed"
    by (simp_all add: private_name_def composed_def norm_char_def char_norms shape_def)
  then have "yields ?env (name_buf private_name) False (apfs_init_unicursor 0 4) (map fst (canon (norm_of ?N private_name)))"
    "yields ?env (name_buf composed) False (apfs_init_unicursor 0 2) (map fst (canon (norm_of ?N composed)))"
    using assms cursor_canonical [of "name_buf private_name" 0 private_name ?env False ?N] cursor_canonical [of "name_buf composed" 0 composed ?env False ?N]
    by (simp_all add: at_name_def private_name_def composed_def uname_bytes_def)
  from filename_cmp_yields [OF this] show ?thesis
    by (simp add: apfs_filename_cmp_def chars_cmp_eq_0 private_name_def composed_def)
qed

text \<open>
  (C40) On a volume that ignores the case, the normalisation of the name that consists of U+1F80 reads past the end of the
  name.  With case folding the character becomes a starter, a combining character and a starter.  The length of the
  first segment ends in front of the second starter, the search looks for that length at the ends of
  characters only, and passes it.  So do the comparison with any other name and the key of the name for a lookup.
\<close>

definition iota_name :: buffer where
  "iota_name = [0xe1, 0xbe, 0x80, 0]"

theorem folded_name_overruns:
  assumes "\<forall>rest n. 3 \<le> n \<and> n \<le> 4 \<longrightarrow> u8 ([0xe1, 0xbe, 0x80] @ rest) n = Some (3, 0x1f80)" "\<forall>b n k c. u8 b n = Some (k, c) \<longrightarrow> 0 < k"
  shows "apfs_normalize_next (unicode_tables u8 crc) iota_name True (apfs_init_unicursor 0 3) = Some (Inl UB) \<and>
    apfs_filename_cmp (unicode_tables u8 crc) True True iota_name 3 name len = Some (Inl UB) \<and>
    apfs_init_drec_key (unicode_tables u8 crc) True True ino (Some (iota_name, 3)) = Some (Inl UB)"
proof -
  let ?env = "unicode_tables u8 crc"
  let ?cur = "(apfs_init_unicursor 0 3)\<lparr>cur_length := 2\<rparr>"
  have at: "utf8_at ?env iota_name 0 3 = Inr (Some (3, 0x1f80))"
    using assms(1) [rule_format, of 3 "[0]"] by (simp add: utf8_at_def iota_name_def)
  have rd: "rd8 iota_name 0 = Inr 0xe1" by (simp add: rd8_def iota_name_def)
  have len: "apfs_get_normalization_length ?env iota_name True 0 3 0 False = Some (Inr 2)"
    by (subst apfs_get_normalization_length.simps) (simp add: at rd char_norms)
  have beyond: "norm_scan ?env iota_name True ?cur (3 + int k) l p b = Some (Inl UB)" if "0 < k" for k l p b
    using that by (subst norm_scan.simps) (simp add: utf8_at_def iota_name_def)
  have "norm_scan ?env iota_name True ?cur 3 0 3 b = Some (Inl UB)" for b
  proof (cases "u8 [0] 0")
    case None
    then show ?thesis by (subst norm_scan.simps) (simp add: utf8_at_def iota_name_def)
  next
    case (Some kc)
    obtain k c where kc: "kc = (k, c)" by force
    have k: "0 < k" using assms(2) Some kc by blast
    have u: "utf8_at ?env iota_name 3 0 = Inr (Some (k, c))" using Some kc by (simp add: utf8_at_def iota_name_def)
    show ?thesis
    proof (cases "char_norm ?env True c")
      case (Inl e)
      then show ?thesis using u norm_from_error [of ?env True c 0] by (subst norm_scan.simps) (simp add: char_norm_def)
    next
      case (Inr xs)
      obtain p b' where s: "scan_char (last_ccc ?cur) (last_pos ?cur) xs 3 b = (p, b')" by (meson surj_pair)
      have "p \<noteq> cur_length ?cur" using scan_char_pos [of "last_ccc ?cur" "last_pos ?cur" xs 3 b] s by simp
      then show ?thesis using u Inr s beyond [OF k] by (subst norm_scan.simps) simp
    qed
  qed
  then have "norm_scan ?env iota_name True ?cur 0 3 0 b = Some (Inl UB)" for b
    by (subst norm_scan.simps) (cases b, simp add: at char_norms apfs_init_unicursor_def)
  then have "apfs_normalize_next ?env iota_name True (apfs_init_unicursor 0 3) = Some (Inl UB)"
    using len rd by (subst apfs_normalize_next.simps) (simp add: apfs_init_unicursor_def)
  then show ?thesis
    by (simp add: apfs_filename_cmp_def apfs_init_drec_key_def filename_cmp_loop.simps drec_hash_loop.simps)
qed

theorem folded_name_overruns_witness:
  "apfs_filename_cmp sample_env True True iota_name 3 [0x61, 0] 1 = Some (Inl UB)"
proof -
  have "\<forall>rest n. 3 \<le> n \<and> n \<le> 4 \<longrightarrow> sample_utf8 ([0xe1, 0xbe, 0x80] @ rest) n = Some (3, 0x1f80)"
    by (simp add: sample_utf8_def push_bit_eq_mult)
  moreover have "\<forall>b n k c. sample_utf8 b n = Some (k, c) \<longrightarrow> 0 < k" by (auto simp: sample_utf8_def split: list.splits if_splits)
  ultimately show ?thesis using folded_name_overruns by blast
qed

end
