(* ===== verification/Spec2Isabelle.thy ===== *)
theory Spec2Isabelle
  imports Key Object Xfield Zbitmap Xattr TransRace CompressRead UnicodeTables
begin

text \<open>
  A model of the APFS driver for Linux, in C, and the properties that make it correct.

  \<^bold>\<open>The program.\<close>  A container of APFS is a block device.  Its objects are blocks with a checksum, an id and
  the number of the transaction that wrote them.  Physical objects are found by their block number, virtual ones
  through the object map of a volume, and ephemeral ones live in memory between two checkpoints.  All of the
  metadata is kept in b-trees: the catalog of a volume (virtual nodes), the object maps (physical nodes) and the
  free queues of the space manager (ephemeral nodes).  A change never overwrites a block of an older transaction:
  the block is copied, the records that lead to it are changed in turn, and the old block goes to a free queue.
  The space manager finds the free blocks in bitmaps, one for each chunk of the device; the bitmaps are blocks
  of an internal pool that has bitmaps of its own.

  \<^bold>\<open>Theories and sources\<close>, from the bottom up:
    \<^item> \<open>Prelude\<close>: errors, results, bounded accesses to buffers of bytes and little-endian numbers.
    \<^item> \<open>Key\<close> (\<open>key.c\<close>, \<open>apfs.h\<close>): the order of keys and the parsers of the keys on disk.
    \<^item> \<open>Object\<close> (\<open>object.c\<close>): checksums, checkpoint mappings, the list of ephemeral objects.
    \<^item> \<open>Xfield\<close> (\<open>xfield.c\<close>): the extended fields of catalog records.
    \<^item> \<open>Interfaces\<close>: the locales of the contracts between components, among them key orders, association
      lists and queues; each has an interpretation by the definitions that provide it.
    \<^item> \<open>Node\<close>, \<open>NodeRecords\<close>, \<open>NodeFree\<close>, \<open>NodeQuery\<close> (\<open>node.c\<close>): b-tree nodes as blocks with a table of
      contents, their check, the insertion, replacement and defragmentation of records, the free lists, and the
      search by bisection.
    \<^item> \<open>Btree\<close>, \<open>BtreeSafe\<close> (\<open>btree.c\<close>): queries over whole trees, the object map and its cache.
    \<^item> \<open>BtreeChange\<close>, \<open>BtreeRecords\<close> (\<open>btree.c\<close>, \<open>node.c\<close>): insertion, replacement and removal with the
      splits of nodes and the growth of the tree, over the record \<open>tree_ops\<close> of the operations on the storage
      of nodes.
    \<^item> \<open>Bitmap\<close>, \<open>Spaceman\<close>, \<open>SpacePool\<close>, \<open>SpaceFrame\<close>, \<open>SpaceAlloc\<close> (\<open>spaceman.c\<close>): the space manager, with
      the free queues as trees of ephemeral nodes.
    \<^item> \<open>Storage\<close> (\<open>object.c\<close>, \<open>node.c\<close>, \<open>btree.c\<close>): copy-on-write of blocks, the storage of physical and virtual
      trees, and the changes of the object map.
    \<^item> \<open>Zbitmap\<close> (\<open>libzbitmap.c\<close>): the decoder of the LZBITMAP compression.
    \<^item> \<open>Checkpoint\<close>, \<open>CheckpointWrite\<close>, \<open>CheckpointRead\<close>, \<open>CheckpointCommit\<close> (\<open>transaction.c\<close>, \<open>super.c\<close>): the
      ephemeral objects on disk, the end of a transaction and the search for the latest checkpoint.
    \<^item> \<open>Catalog\<close>, \<open>ExtentRead\<close>, \<open>ExtentSafe\<close>, \<open>ExtentMap\<close> (\<open>extents.c\<close>): queries on the catalog, the extents of data
      streams and the reads of streams without holes.
    \<^item> \<open>Xattr\<close> (\<open>xattr.c\<close>, \<open>symlink.c\<close>): extended attributes and the targets of symbolic links.
    \<^item> \<open>Compress\<close>, \<open>CompressRead\<close> (\<open>compress.c\<close>): the blocks of compressed files and the reads of their pages, over the
      record \<open>decoders\<close> of the functions that decode a block; the one of LZBITMAP is \<open>zbm_block\<close>.
    \<^item> \<open>Unicode\<close>, \<open>UnicodeNorm\<close>, \<open>CharSpec\<close>, \<open>UnicodeTables\<close> (\<open>unicode.c\<close>): the cursor that yields the normalised
      characters of a name, over the record \<open>unicode_env\<close> of the tables and of \<open>utf8_to_utf32\<close>; the canonical order of a
      text and, in \<open>CharSpec\<close>, the decomposition, folding and class of a character as its specification; the tables of the
      source, cut into blocks.
    \<^item> \<open>Names\<close> (\<open>key.c\<close>): the comparison of file names and the keys of directory records with the hash of a name.
    \<^item> \<open>Volume\<close> (\<open>super.c\<close>, \<open>snapshot.c\<close>): the superblock, the object map and the catalog of a volume, the mount of a
      volume or of a snapshot, and the copies that the start of a transaction makes.
    \<^item> \<open>Transaction\<close>, \<open>TransSteps\<close>, \<open>TransInv\<close>, \<open>TransRace\<close> (\<open>transaction.c\<close>): the start, the commit and the abort of
      transactions, and the machine of their interleavings with its invariants and its races.

  \<^bold>\<open>State and effects.\<close>  Blocks and raw objects are lists of bytes; each access of the source through a
  pointer is a bounded access that gives the error \<open>UB\<close> outside of its buffer, so that a theorem that excludes
  \<open>UB\<close> is one of memory safety.  The state of a mounted file system is the record \<open>apfs_fs\<close>: the device with
  the buffer cache as a function from block numbers to contents, the blocks of the current transaction, the
  ephemeral objects, the space manager, the object map and the counters of the volume.  Operations return the new
  state or an error code of the source; after an error the state is dropped, since the source aborts its
  transaction.  The source shares the buffer of the space manager with the list of the ephemeral objects; the model
  keeps two copies, which a commit brings together.  Numbers of the source are words where they wrap around and unbounded ones elsewhere.  The chain
  of queries from a node to the root is a list.

  \<^bold>\<open>Loops.\<close>  Loops that end by their own structure are functions with a measure.  Those whose end depends on the
  contents of the disk are partial functions with values in \<open>option\<close>, where \<open>None\<close> is a loop that does not end;
  for the bisection in a node and for the queries over a tree it is proved that \<open>None\<close> does not occur on any
  image.  The depth of a tree is bounded by 12, as in the source.

  \<^bold>\<open>What is proved.\<close>  The order of keys is a linear preorder, and raw keys round trip.  Checksums equal the
  mathematical ones, verify after a seal and detect every change of one word of a block other than one between 0 and
  \<open>0xFFFFFFFF\<close>.  Extended fields implement updates of a
  list.  Nodes implement sequences of records under insertion, splits and defragmentation.  Queries find the last
  record that is not above the key, on sorted trees, and return safely on arbitrary ones.  The cache of the object
  map is transparent.  Insertion into and removal from trees of one leaf change exactly one record.  The
  internal pool and the chunks of the space manager allocate blocks that are free and only those, and freed
  blocks get neither lost nor reused in the same transaction.  Copy-on-write leaves old blocks intact.
  A commit whose objects do not step over the limit for the data of a checkpoint is atomic: whichever of its buffers
  reach the disk, a mount finds the previous checkpoint until the new superblock is written, and the new one
  afterwards; the code does not enforce the limit for objects of two blocks.  The lock of the container is exclusive in all interleavings of
  threads, an abort is final, and the numbers of the checkpoints are consecutive unless one of two races occurs.  A
  mount returns on any image and establishes the assumptions of the reads.  Reads of data streams and of attributes give the bytes that the
  records of the catalog describe, and are safe for any records.  The LZBITMAP decoder returns safely on any input.
  Compressed files give back the bytes that were stored.  The cursor of a name yields the canonical form of the
  name, with the characters decomposed and folded by the tables and those of each segment in the order of their combining
  classes, and two names compare as equal if and only if their canonical forms agree, as long as the characters are
  below U+100000 and none of them is normalised to a starter after a combining character.  Some theorems show crafted
  images, and names, for which the checks of the source are not enough.

  \<^bold>\<open>Not modelled.\<close>  Failures of memory allocations; the assertions and messages; the options of a mount and the interface to
  the kernel (\<open>super.c\<close>), several volumes of one container, the contents of the flush of inodes (\<open>transaction.c\<close>), inodes and files (\<open>inode.c\<close>, \<open>file.c\<close>),
  the changes of extents (\<open>extents.c\<close>) and of attributes (\<open>xattr.c\<close>), directories (\<open>dir.c\<close>, \<open>namei.c\<close>), the creation of snapshots
  (\<open>snapshot.c\<close>).  The functions of the kernel that decode UTF-8 and compute CRC-32C, and the decoders of zlib, LZVN and LZFSE,
  are parameters.  The numbers of the machine are little-endian, as in all the accesses of the model.  The restart of
  the cleanup of orphans in \<open>apfs_main_free\<close> is left out.
\<close>

end
